(* ===== verification/PF_Prelude.thy ===== *)
theory PF_Prelude
  imports Main "HOL-Library.AList" "HOL-Library.Char_ord" "HOL-Library.List_Lexorder" "HOL-Library.Multiset"
begin

text \<open>
  Shared vocabulary of the development: the names of the Rust integer types, saturating
  arithmetic, \<open>Ordering\<close> and comparator functions with \<open>Iterator::min_by\<close> and the stable
  \<open>slice::sort_by\<close>, a few \<open>Option\<close> and \<open>str\<close> helpers, and hash tables as association lists.
  \<^item> \<open>i64\<close> is \<^typ>\<open>int\<close>: the sources use it for Unix seconds and small spans, where plain
    \<open>+\<close> and \<open>-\<close> are exact; the saturating operations of the sources are written out.
  \<^item> \<open>u8\<close>, \<open>u16\<close>, \<open>u32\<close>, \<open>u64\<close> and \<open>usize\<close> are \<^typ>\<open>nat\<close>; natural-number subtraction is
    \<open>saturating_sub\<close>, and \<open>saturating_add\<close> is written out with the type's maximum.
  \<^item> A \<open>HashMap\<close> is an association list with distinct keys. Nothing in the sources depends on
    its iteration order except where said.
\<close>

named_theorems sat_simps
named_theorems tbl_simps
named_theorems cmp_intros

section \<open>Integers\<close>

type_synonym i64 = int
type_synonym u8 = nat
type_synonym u16 = nat
type_synonym u32 = nat
type_synonym u64 = nat
type_synonym usize = nat
type_synonym account_id = string

definition u32_max :: nat where "u32_max = 4294967295"
definition u64_max :: nat where "u64_max = 18446744073709551615"
definition i64_max :: int where "i64_max = 9223372036854775807"
definition i64_min :: int where "i64_min = -9223372036854775808"

definition add_u32 :: "u32 \<Rightarrow> u32 \<Rightarrow> u32" where
  "add_u32 a b = min (a + b) u32_max"

definition mul_u64 :: "u64 \<Rightarrow> u64 \<Rightarrow> u64" where
  "mul_u64 a b = min (a * b) u64_max"

definition add_u64 :: "u64 \<Rightarrow> u64 \<Rightarrow> u64" where
  "add_u64 a b = min (a + b) u64_max"

definition sat_i64 :: "int \<Rightarrow> i64" where
  "sat_i64 x = max i64_min (min i64_max x)"

abbreviation add_i64 :: "i64 \<Rightarrow> i64 \<Rightarrow> i64" where
  "add_i64 a b \<equiv> sat_i64 (a + b)"

abbreviation sub_i64 :: "i64 \<Rightarrow> i64 \<Rightarrow> i64" where
  "sub_i64 a b \<equiv> sat_i64 (a - b)"

definition in_i64 :: "int \<Rightarrow> bool" where
  "in_i64 x \<longleftrightarrow> i64_min \<le> x \<and> x \<le> i64_max"

definition div_ceil :: "nat \<Rightarrow> nat \<Rightarrow> nat" where
  "div_ceil a b = (if a mod b = 0 then a div b else a div b + 1)"

definition clamp_int :: "int \<Rightarrow> int \<Rightarrow> int \<Rightarrow> int" where
  "clamp_int lo hi x = (if x < lo then lo else if hi < x then hi else x)"

definition clamp_nat :: "nat \<Rightarrow> nat \<Rightarrow> nat \<Rightarrow> nat" where
  "clamp_nat lo hi x = (if x < lo then lo else if hi < x then hi else x)"

lemma add_u32_le [sat_simps]: "add_u32 a b \<le> u32_max"
  by (simp add: add_u32_def)

lemma add_u32_exact [sat_simps]: "a + b \<le> u32_max \<Longrightarrow> add_u32 a b = a + b"
  by (simp add: add_u32_def)

lemma add_u32_mono: "a \<le> a' \<Longrightarrow> b \<le> b' \<Longrightarrow> add_u32 a b \<le> add_u32 a' b'"
  by (auto simp: add_u32_def)

lemma add_u32_gt: "a < u32_max \<Longrightarrow> 0 < b \<Longrightarrow> a < add_u32 a b"
  by (auto simp: add_u32_def)

lemma add_u32_less_iff: "n \<le> u32_max \<Longrightarrow> add_u32 a b < n \<longleftrightarrow> a + b < n"
  by (auto simp: add_u32_def)

lemma add_u32_le_iff: "n < u32_max \<Longrightarrow> add_u32 a b \<le> n \<longleftrightarrow> a + b \<le> n"
  by (auto simp: add_u32_def)

lemma sat_i64_exact [sat_simps]: "in_i64 x \<Longrightarrow> sat_i64 x = x"
  by (auto simp: sat_i64_def in_i64_def)

lemma sat_i64_in [simp]: "in_i64 (sat_i64 x)"
  by (auto simp: sat_i64_def in_i64_def i64_min_def i64_max_def)

lemma sat_i64_mono: "x \<le> y \<Longrightarrow> sat_i64 x \<le> sat_i64 y"
  by (auto simp: sat_i64_def)

lemma clamp_int_bounds: "lo \<le> hi \<Longrightarrow> lo \<le> clamp_int lo hi x \<and> clamp_int lo hi x \<le> hi"
  by (auto simp: clamp_int_def)

lemma clamp_int_id: "lo \<le> x \<Longrightarrow> x \<le> hi \<Longrightarrow> clamp_int lo hi x = x"
  by (auto simp: clamp_int_def)

lemma clamp_nat_bounds: "lo \<le> hi \<Longrightarrow> lo \<le> clamp_nat lo hi x \<and> clamp_nat lo hi x \<le> hi"
  by (auto simp: clamp_nat_def)

lemma div_ceil_le: "0 < b \<Longrightarrow> a \<le> b * n \<Longrightarrow> div_ceil a b \<le> n"
proof -
  assume b: "0 < b" and a: "a \<le> b * n"
  show "div_ceil a b \<le> n"
  proof (cases "a mod b = 0")
    case True
    with a b show ?thesis
      by (auto simp: div_ceil_def less_eq_div_iff_mult_less_eq mult.commute dest: div_le_mono [of _ _ b])
  next
    case False
    then have "b * (a div b) < a"
      by (metis mod_eq_0_iff_dvd dvd_triv_left less_mult_imp_div_less linorder_neqE_nat
          div_times_less_eq_dividend mult.commute order_le_imp_less_or_eq)
    with a have "b * (a div b) < b * n" by linarith
    then have "a div b < n" by simp
    with False show ?thesis by (simp add: div_ceil_def)
  qed
qed

lemma div_ceil_ge: "0 < b \<Longrightarrow> b * n \<le> a \<Longrightarrow> n \<le> div_ceil a b"
proof -
  assume "0 < b" "b * n \<le> a"
  then have "n \<le> a div b" by (simp add: less_eq_div_iff_mult_less_eq mult.commute)
  then show ?thesis by (auto simp: div_ceil_def)
qed

section \<open>Option helpers\<close>

text \<open>\<open>Option::filter\<close>, \<open>is_some_and\<close>, \<open>Option::or\<close>, and the merge of two optional deadlines
  that keeps the later one.\<close>

definition opt_filter :: "('a \<Rightarrow> bool) \<Rightarrow> 'a option \<Rightarrow> 'a option" where
  "opt_filter p x = (case x of Some a \<Rightarrow> if p a then Some a else None | None \<Rightarrow> None)"

definition is_some_and :: "'a option \<Rightarrow> ('a \<Rightarrow> bool) \<Rightarrow> bool" where
  "is_some_and x p = (case x of Some a \<Rightarrow> p a | None \<Rightarrow> False)"

definition opt_or :: "'a option \<Rightarrow> 'a option \<Rightarrow> 'a option" where
  "opt_or x y = (case x of Some a \<Rightarrow> Some a | None \<Rightarrow> y)"

definition unwrap_or :: "'a option \<Rightarrow> 'a \<Rightarrow> 'a" where
  "unwrap_or x d = (case x of Some a \<Rightarrow> a | None \<Rightarrow> d)"

definition later_of :: "i64 option \<Rightarrow> i64 option \<Rightarrow> i64 option" where
  "later_of x y = (case (x, y) of (Some a, Some b) \<Rightarrow> Some (max a b) | (a, b) \<Rightarrow> opt_or a b)"

lemma opt_simps [simp]:
  "opt_filter p None = None"
  "opt_filter p (Some a) = (if p a then Some a else None)"
  "is_some_and None q = False"
  "is_some_and (Some a) q = q a"
  "opt_or None y = y"
  "opt_or (Some a) y = Some a"
  "unwrap_or None d = d"
  "unwrap_or (Some a) d = a"
  by (simp_all add: opt_filter_def is_some_and_def opt_or_def unwrap_or_def)

lemma later_of_simps [simp]:
  "later_of None y = y" "later_of x None = x" "later_of (Some a) (Some b) = Some (max a b)"
  by (auto simp: later_of_def split: option.splits)

lemma opt_filter_Some: "opt_filter p x = Some a \<longleftrightarrow> x = Some a \<and> p a"
  by (cases x) auto

lemma is_some_and_iff: "is_some_and x p \<longleftrightarrow> (\<exists>a. x = Some a \<and> p a)"
  by (cases x) auto

section \<open>Ordering and comparators\<close>

datatype ordering = Less | Equal | Greater

fun flip_ord :: "ordering \<Rightarrow> ordering" where
  "flip_ord Less = Greater"
| "flip_ord Equal = Equal"
| "flip_ord Greater = Less"

fun then_cmp :: "ordering \<Rightarrow> ordering \<Rightarrow> ordering" where
  "then_cmp Equal r = r"
| "then_cmp l _ = l"

definition cmp_lin :: "'a::linorder \<Rightarrow> 'a \<Rightarrow> ordering" where
  "cmp_lin a b = (if a < b then Less else if a = b then Equal else Greater)"

text \<open>\<open>Iterator::min_by\<close> returns the first of several minimal elements; \<open>sort_by\<close> is stable.\<close>

fun min_by :: "('a \<Rightarrow> 'a \<Rightarrow> ordering) \<Rightarrow> 'a list \<Rightarrow> 'a option" where
  "min_by c [] = None"
| "min_by c (x # xs) =
     Some (fold (\<lambda>y acc. if c acc y = Greater then y else acc) xs x)"

fun insert_by :: "('a \<Rightarrow> 'a \<Rightarrow> ordering) \<Rightarrow> 'a \<Rightarrow> 'a list \<Rightarrow> 'a list" where
  "insert_by c x [] = [x]"
| "insert_by c x (y # ys) = (if c x y = Greater then y # insert_by c x ys else x # y # ys)"

fun sort_by :: "('a \<Rightarrow> 'a \<Rightarrow> ordering) \<Rightarrow> 'a list \<Rightarrow> 'a list" where
  "sort_by c [] = []"
| "sort_by c (x # xs) = insert_by c x (sort_by c xs)"

text \<open>What a comparator passed to \<open>min_by\<close> or \<open>sort_by\<close> has to satisfy: a total preorder.\<close>

locale total_cmp =
  fixes cmp :: "'a \<Rightarrow> 'a \<Rightarrow> ordering"
  assumes cmp_refl: "cmp a a = Equal"
    and cmp_flip: "cmp b a = flip_ord (cmp a b)"
    and cmp_trans: "cmp a b \<noteq> Greater \<Longrightarrow> cmp b c \<noteq> Greater \<Longrightarrow> cmp a c \<noteq> Greater"
begin

lemma greater_swap: "cmp a b = Greater \<longleftrightarrow> cmp b a = Less"
  by (subst cmp_flip) (cases "cmp b a"; simp)

lemma not_greater_swap: "cmp a b = Greater \<Longrightarrow> cmp b a \<noteq> Greater"
  by (simp add: greater_swap)

lemma less_not_greater: "cmp a b = Less \<Longrightarrow> cmp b a = Greater"
  by (simp add: greater_swap)

lemma fold_min:
  "fold (\<lambda>y acc. if cmp acc y = Greater then y else acc) xs x \<in> insert x (set xs)
   \<and> (\<forall>y \<in> insert x (set xs).
        cmp (fold (\<lambda>y acc. if cmp acc y = Greater then y else acc) xs x) y \<noteq> Greater)"
proof (induction xs arbitrary: x)
  case Nil
  then show ?case by (simp add: cmp_refl)
next
  case (Cons y ys)
  show ?case
  proof (cases "cmp x y = Greater")
    case True
    then have yx: "cmp y x \<noteq> Greater" by (rule not_greater_swap)
    from Cons.IH [of y] yx True show ?thesis by (auto dest: cmp_trans)
  next
    case False
    from Cons.IH [of x] False show ?thesis by (auto dest: cmp_trans)
  qed
qed

lemma min_by_least:
  "min_by cmp xs = Some m \<Longrightarrow> m \<in> set xs \<and> (\<forall>y \<in> set xs. cmp m y \<noteq> Greater)"
proof (cases xs)
  case Nil
  then show "min_by cmp xs = Some m \<Longrightarrow> ?thesis" by simp
next
  case (Cons x ys)
  assume "min_by cmp xs = Some m"
  with Cons have "m = fold (\<lambda>y acc. if cmp acc y = Greater then y else acc) ys x" by simp
  with Cons fold_min [of ys x] show ?thesis by simp
qed

lemma less_trans1:
  assumes "cmp a b = Less" "cmp b c \<noteq> Greater"
  shows "cmp a c = Less"
proof (cases "cmp a c")
  case Equal
  then have "cmp c a \<noteq> Greater" using cmp_flip [of c a] by simp
  with assms(2) have "cmp b a \<noteq> Greater" by (rule cmp_trans)
  with less_not_greater [OF assms(1)] show ?thesis by simp
next
  case Greater
  with assms cmp_trans [of a b c] show ?thesis by simp
qed

lemma less_trans2:
  assumes "cmp a b \<noteq> Greater" "cmp b c = Less"
  shows "cmp a c = Less"
proof (cases "cmp a c")
  case Equal
  then have "cmp c a \<noteq> Greater" using cmp_flip [of c a] by simp
  from this assms(1) have "cmp c b \<noteq> Greater" by (rule cmp_trans)
  with less_not_greater [OF assms(2)] show ?thesis by simp
next
  case Greater
  with assms cmp_trans [of a b c] show ?thesis by simp
qed

lemma equal_swap: "cmp a b = Equal \<Longrightarrow> cmp b a = Equal"
  using cmp_flip [of b a] by simp

lemma equal_trans:
  assumes "cmp a b = Equal" "cmp b c = Equal"
  shows "cmp a c = Equal"
proof -
  have "cmp a c \<noteq> Greater" using cmp_trans [of a b c] assms by simp
  moreover have "cmp c a \<noteq> Greater"
    using cmp_trans [of c b a] equal_swap [OF assms(1)] equal_swap [OF assms(2)] by simp
  ultimately show ?thesis using cmp_flip [of c a] by (cases "cmp a c") auto
qed

lemma set_insert_by: "set (insert_by cmp x ys) = insert x (set ys)"
  by (induction ys) auto

lemma insert_by_sorted:
  "sorted_wrt (\<lambda>a b. cmp a b \<noteq> Greater) ys \<Longrightarrow>
   sorted_wrt (\<lambda>a b. cmp a b \<noteq> Greater) (insert_by cmp x ys)"
proof (induction ys)
  case Nil
  then show ?case by simp
next
  case (Cons y ys)
  then show ?case
    by (auto simp: set_insert_by dest: not_greater_swap) (metis cmp_trans)
qed

lemma sort_by_sorted: "sorted_wrt (\<lambda>a b. cmp a b \<noteq> Greater) (sort_by cmp xs)"
  by (induction xs) (auto simp: insert_by_sorted)

end

lemma min_by_None: "min_by c xs = None \<longleftrightarrow> xs = []"
  by (cases xs) auto

lemma min_by_in: "min_by c xs = Some m \<Longrightarrow> m \<in> set xs"
proof (cases xs)
  case Nil
  then show "min_by c xs = Some m \<Longrightarrow> ?thesis" by simp
next
  case (Cons x ys)
  have "fold (\<lambda>y acc. if c acc y = Greater then y else acc) zs z \<in> insert z (set zs)" for z zs
    by (induction zs arbitrary: z) (simp, auto)
  moreover assume "min_by c xs = Some m"
  ultimately show ?thesis using Cons by auto
qed

lemma mset_insert_by: "mset (insert_by c x ys) = add_mset x (mset ys)"
  by (induction ys) auto

lemma mset_sort_by: "mset (sort_by c xs) = mset xs"
  by (induction xs) (auto simp: mset_insert_by)

lemma set_sort_by: "set (sort_by c xs) = set xs"
  by (metis mset_sort_by set_mset_mset)

lemma length_sort_by: "length (sort_by c xs) = length xs"
  by (metis mset_sort_by size_mset)

interpretation lin: total_cmp "cmp_lin :: 'a::linorder \<Rightarrow> 'a \<Rightarrow> ordering"
  by unfold_locales (auto simp: cmp_lin_def split: if_splits)

lemma cmp_lin_iff [simp]:
  "cmp_lin a b = Less \<longleftrightarrow> a < b" "cmp_lin a b = Equal \<longleftrightarrow> a = b" "cmp_lin a b = Greater \<longleftrightarrow> b < a"
  by (auto simp: cmp_lin_def)

text \<open>Comparators are closed under keys, reversal and lexicographic composition.\<close>

lemma total_cmp_lin [cmp_intros]: "total_cmp (cmp_lin :: 'a::linorder \<Rightarrow> 'a \<Rightarrow> ordering)"
  by (rule lin.total_cmp_axioms)

lemma total_cmp_key: "total_cmp c \<Longrightarrow> total_cmp (\<lambda>a b. c (f a) (f b))"
  unfolding total_cmp_def by blast

lemma total_cmp_lin_key [cmp_intros]:
  "total_cmp (\<lambda>a b. cmp_lin (f a :: 'b::linorder) (f b))"
  by (rule total_cmp_key) (rule total_cmp_lin)

lemma total_cmp_lin_key_rev [cmp_intros]:
  "total_cmp (\<lambda>a b. cmp_lin (f b :: 'b::linorder) (f a))"
  by unfold_locales (auto simp: cmp_lin_def split: if_splits)

lemma then_cmp_Less: "then_cmp a b = Less \<longleftrightarrow> a = Less \<or> a = Equal \<and> b = Less"
  by (cases a) simp_all

lemma then_cmp_Greater: "then_cmp a b = Greater \<longleftrightarrow> a = Greater \<or> a = Equal \<and> b = Greater"
  by (cases a) simp_all

lemma then_cmp_Equal: "then_cmp a b = Equal \<longleftrightarrow> a = Equal \<and> b = Equal"
  by (cases a) simp_all

lemmas then_cmp_eq = then_cmp_Less then_cmp_Greater then_cmp_Equal

lemma total_cmp_then [cmp_intros]:
  assumes "total_cmp c" and "total_cmp d"
  shows "total_cmp (\<lambda>a b. then_cmp (c a b) (d a b))"
proof
  note c = total_cmp.cmp_refl [OF assms(1)] total_cmp.cmp_flip [OF assms(1)]
  note d = total_cmp.cmp_refl [OF assms(2)] total_cmp.cmp_flip [OF assms(2)]
  fix x y z
  show "then_cmp (c x x) (d x x) = Equal" by (simp add: c(1) d(1))
  show "then_cmp (c y x) (d y x) = flip_ord (then_cmp (c x y) (d x y))"
    by (subst c(2), subst d(2)) (cases "c x y"; cases "d x y"; simp)
  assume xy: "then_cmp (c x y) (d x y) \<noteq> Greater" and yz: "then_cmp (c y z) (d y z) \<noteq> Greater"
  show "then_cmp (c x z) (d x z) \<noteq> Greater"
  proof (cases "c x y = Equal \<and> c y z = Equal")
    case True
    then have "c x z = Equal" by (blast intro: total_cmp.equal_trans [OF assms(1)])
    with True xy yz show ?thesis
      by (auto simp: then_cmp_eq dest: total_cmp.cmp_trans [OF assms(2)])
  next
    case False
    then have "c x z = Less"
      using xy yz total_cmp.less_trans1 [OF assms(1), of x y z]
        total_cmp.less_trans2 [OF assms(1), of x y z]
      by (cases "c x y"; cases "c y z"; simp)
    then show ?thesis by simp
  qed
qed

section \<open>Hash tables\<close>

text \<open>
  A \<open>HashMap<K, V>\<close> as an association list: \<open>get\<close> is \<^const>\<open>map_of\<close>, \<open>insert\<close> is
  \<open>AList.update\<close>, \<open>remove\<close> is \<open>AList.delete\<close>, \<open>retain\<close> is a filter, \<open>len\<close> is the list's
  length. The invariant is that keys are distinct.
\<close>

type_synonym ('k, 'v) table = "('k \<times> 'v) list"

abbreviation tbl_get :: "('k, 'v) table \<Rightarrow> 'k \<Rightarrow> 'v option" where
  "tbl_get t k \<equiv> map_of t k"

abbreviation tbl_put :: "('k, 'v) table \<Rightarrow> 'k \<Rightarrow> 'v \<Rightarrow> ('k, 'v) table" where
  "tbl_put t k v \<equiv> AList.update k v t"

abbreviation tbl_del :: "('k, 'v) table \<Rightarrow> 'k \<Rightarrow> ('k, 'v) table" where
  "tbl_del t k \<equiv> AList.delete k t"

definition tbl_retain :: "('k \<Rightarrow> 'v \<Rightarrow> bool) \<Rightarrow> ('k, 'v) table \<Rightarrow> ('k, 'v) table" where
  "tbl_retain p t = filter (\<lambda>(k, v). p k v) t"

definition tbl_ok :: "('k, 'v) table \<Rightarrow> bool" where
  "tbl_ok t \<longleftrightarrow> distinct (map fst t)"

lemma tbl_ok_nil [simp]: "tbl_ok []"
  by (simp add: tbl_ok_def)

lemma tbl_ok_put [simp]: "tbl_ok t \<Longrightarrow> tbl_ok (tbl_put t k v)"
  by (simp add: tbl_ok_def distinct_update)

lemma tbl_ok_del [simp]: "tbl_ok t \<Longrightarrow> tbl_ok (tbl_del t k)"
  by (simp add: tbl_ok_def distinct_delete)

lemma tbl_ok_retain [simp]: "tbl_ok t \<Longrightarrow> tbl_ok (tbl_retain p t)"
  by (simp add: tbl_ok_def tbl_retain_def distinct_map_filter)

lemma tbl_get_put [tbl_simps]: "tbl_get (tbl_put t k v) x = (if x = k then Some v else tbl_get t x)"
  by (simp add: update_conv)

lemma tbl_get_del [tbl_simps]: "tbl_get (tbl_del t k) x = (if x = k then None else tbl_get t x)"
  by (simp add: delete_conv)

lemma tbl_get_retain [tbl_simps]:
  "tbl_ok t \<Longrightarrow> tbl_get (tbl_retain p t) x = opt_filter (p x) (tbl_get t x)"
proof (induction t)
  case Nil
  then show ?case by (simp add: tbl_retain_def)
next
  case (Cons a t)
  obtain k v where a: "a = (k, v)" by (cases a)
  from Cons.prems a have k: "tbl_get t k = None" "tbl_ok t"
    by (auto simp: tbl_ok_def map_of_eq_None_iff)
  with Cons.IH a show ?case by (auto simp: tbl_retain_def)
qed

lemma tbl_len_put: "length (tbl_put t k v) = (if k \<in> fst ` set t then length t else Suc (length t))"
  by (induction t) auto

lemma tbl_len_put_le: "length (tbl_put t k v) \<le> Suc (length t)"
  by (simp add: tbl_len_put)

lemma tbl_len_retain: "length (tbl_retain p t) \<le> length t"
  by (simp add: tbl_retain_def)

lemma tbl_in_iff: "tbl_ok t \<Longrightarrow> (k, v) \<in> set t \<longleftrightarrow> tbl_get t k = Some v"
  by (simp add: tbl_ok_def)

lemma tbl_len_put_present: "tbl_get t k = Some w \<Longrightarrow> length (tbl_put t k v) = length t"
  by (metis tbl_len_put map_of_SomeD fst_conv image_eqI)

text \<open>
  The table operations as an interface: what a client of a hash map relies on. The client
  lemmas are proved once here and used through the interpretation below.
\<close>

locale hash_table =
  fixes ok :: "'t \<Rightarrow> bool"
    and get :: "'t \<Rightarrow> 'k \<Rightarrow> 'v option"
    and put :: "'t \<Rightarrow> 'k \<Rightarrow> 'v \<Rightarrow> 't"
    and del :: "'t \<Rightarrow> 'k \<Rightarrow> 't"
  assumes get_put: "get (put t k v) x = (if x = k then Some v else get t x)"
    and get_del: "get (del t k) x = (if x = k then None else get t x)"
    and ok_put: "ok t \<Longrightarrow> ok (put t k v)"
    and ok_del: "ok t \<Longrightarrow> ok (del t k)"
begin

lemma ok_upsert: "ok t \<Longrightarrow> ok (if keep v then put t k v else del (put t k v) k)"
  by (simp add: ok_put ok_del)

lemma upsert_other: "x \<noteq> k \<Longrightarrow> get (if keep v then put t k v else del (put t k v) k) x = get t x"
  by (simp add: get_put get_del)

lemma upsert_same:
  "get (if keep v then put t k v else del (put t k v) k) k = opt_filter keep (Some v)"
  by (simp add: get_put get_del)

end

interpretation tbl: hash_table
  "tbl_ok :: ('k, 'v) table \<Rightarrow> bool" map_of "\<lambda>t k v. AList.update k v t" "\<lambda>t k. AList.delete k t"
  by unfold_locales (simp_all add: tbl_simps)

section \<open>Strings\<close>

text \<open>
  \<open>str\<close> values are byte strings and compare bytewise, as \<^typ>\<open>string\<close> does. \<open>trim\<close> and
  \<open>to_lowercase\<close> are modelled on ASCII; the sources apply them to configuration slugs.
\<close>

definition is_ws :: "char \<Rightarrow> bool" where
  "is_ws c \<longleftrightarrow> c \<in> set [CHR '' '', CHR 0x09, CHR 0x0A, CHR 0x0B, CHR 0x0C, CHR 0x0D]"

definition str_trim :: "string \<Rightarrow> string" where
  "str_trim s = rev (dropWhile is_ws (rev (dropWhile is_ws s)))"

definition char_lower :: "char \<Rightarrow> char" where
  "char_lower c = (let n = of_char c :: nat in
     if 65 \<le> n \<and> n \<le> 90 then char_of (n + 32) else c)"

definition str_lower :: "string \<Rightarrow> string" where
  "str_lower s = map char_lower s"

fun split_on :: "char \<Rightarrow> string \<Rightarrow> string list" where
  "split_on d [] = [[]]"
| "split_on d (c # cs) =
     (if c = d then [] # split_on d cs
      else (case split_on d cs of [] \<Rightarrow> [[c]] | w # ws \<Rightarrow> (c # w) # ws))"

text \<open>\<open>str::split_once\<close>\<close>

definition split_once :: "char \<Rightarrow> string \<Rightarrow> (string \<times> string) option" where
  "split_once d s = (if d \<in> set s then Some (takeWhile (\<lambda>c. c \<noteq> d) s, tl (dropWhile (\<lambda>c. c \<noteq> d) s)) else None)"

fun join_with :: "char \<Rightarrow> string list \<Rightarrow> string" where
  "join_with d [] = []"
| "join_with d [w] = w"
| "join_with d (w # v # ws) = w @ d # join_with d (v # ws)"

fun starts_with :: "string \<Rightarrow> string \<Rightarrow> bool" where
  "starts_with p s = (take (length p) s = p)"

lemma split_once_append: "d \<notin> set x \<Longrightarrow> split_once d (x @ d # y) = Some (x, y)"
  by (induction x) (auto simp: split_once_def)

lemma split_on_ne [simp]: "split_on d s \<noteq> []"
  by (induction s) (auto split: list.splits)

lemma join_with_Cons: "ws \<noteq> [] \<Longrightarrow> join_with d (w # ws) = w @ d # join_with d ws"
  by (cases ws) auto

lemma join_with_head: "join_with d ((c # w) # ws) = c # join_with d (w # ws)"
  by (cases ws) auto

lemma join_split: "join_with d (split_on d s) = s"
proof (induction s)
  case (Cons c cs)
  then show ?case
    by (auto simp: join_with_Cons join_with_head split: list.splits)
qed simp

lemma split_append:
  "d \<notin> set w \<Longrightarrow> split_on d (w @ d # s) = w # split_on d s"
  by (induction w) auto

lemma split_no_sep: "d \<notin> set w \<Longrightarrow> split_on d w = [w]"
  by (induction w) auto

lemma split_join:
  "ws \<noteq> [] \<Longrightarrow> \<forall>w \<in> set ws. d \<notin> set w \<Longrightarrow> split_on d (join_with d ws) = ws"
  by (induction d ws rule: join_with.induct) (auto simp: split_append split_no_sep)

lemma split_parts: "w \<in> set (split_on d s) \<Longrightarrow> d \<notin> set w"
  by (induction s arbitrary: w) (auto split: list.splits if_splits)

end
