(* ===== verification/PF_Float.thy ===== *)
theory PF_Float
  imports PF_Prelude Complex_Main
begin

text \<open>
  Rust's \<open>f64\<close>: IEEE 754 binary64. A value is NaN, an infinity, negative zero, or a number
  given by its exact rational value (positive zero is \<open>F_Num 0\<close>). Every arithmetic operation
  computes the exact rational result and rounds it once, to nearest with ties to even, with 53
  significant bits, gradual underflow and overflow to infinity. NaN has one representative, which
  \<open>total_cmp\<close> puts above \<open>+\<infinity>\<close> (where the positive quiet NaN stands).
\<close>

section \<open>Values\<close>

datatype f64 = F_NaN | F_NInf | F_PInf | F_NZero | F_Num rat

fun fval :: "f64 \<Rightarrow> rat" where
  "fval (F_Num r) = r"
| "fval _ = 0"

fun is_fin :: "f64 \<Rightarrow> bool" where
  "is_fin (F_Num r) = True"
| "is_fin F_NZero = True"
| "is_fin _ = False"

fun fneg_sign :: "f64 \<Rightarrow> bool" where
  "fneg_sign F_NInf = True"
| "fneg_sign F_NZero = True"
| "fneg_sign (F_Num r) = (r < 0)"
| "fneg_sign _ = False"

section \<open>Rounding\<close>

fun nlog2 :: "nat \<Rightarrow> nat" where
  "nlog2 n = (if n < 2 then 0 else Suc (nlog2 (n div 2)))"

declare nlog2.simps [simp del]

text \<open>\<open>ilog2 x\<close> is the binary exponent of a positive \<open>x\<close>: \<open>2\<^bsup>e\<^esup> \<le> x < 2\<^bsup>e+1\<^esup>\<close>.\<close>

definition ilog2 :: "rat \<Rightarrow> int" where
  "ilog2 x = (if 1 \<le> x then int (nlog2 (nat \<lfloor>x\<rfloor>))
              else - int (Suc (nlog2 (nat (\<lceil>1 / x\<rceil> - 1)))))"

definition rne :: "rat \<Rightarrow> int" where
  "rne x = (let f = \<lfloor>x\<rfloor>; d = x - of_int f in
     if d < 1 / 2 then f else if 1 / 2 < d then f + 1 else if even f then f else f + 1)"

definition fexp :: "rat \<Rightarrow> int" where
  "fexp a = max (ilog2 a - 52) (-1074)"

definition fmag :: "rat \<Rightarrow> rat" where
  "fmag a = of_int (rne (a / 2 powi fexp a)) * 2 powi fexp a"

definition f64_limit :: rat where
  "f64_limit = 2 ^ 1024"

definition round64 :: "rat \<Rightarrow> f64" where
  "round64 x = (let r = (if x = 0 then 0 else fmag \<bar>x\<bar>) in
     if f64_limit \<le> r then (if x < 0 then F_NInf else F_PInf)
     else if r = 0 then (if x < 0 then F_NZero else F_Num 0)
     else F_Num (if x < 0 then - r else r))"

text \<open>A literal of the source, and the \<open>as f64\<close> casts from integers.\<close>

abbreviation flit :: "rat \<Rightarrow> f64" where
  "flit q \<equiv> round64 q"

definition f64_of_int :: "int \<Rightarrow> f64" where
  "f64_of_int n = round64 (of_int n)"

definition f64_of_nat :: "nat \<Rightarrow> f64" where
  "f64_of_nat n = round64 (of_nat n)"

text \<open>\<open>x as i64\<close>: truncate, saturate, NaN to 0.\<close>

definition i64_of_f64 :: "f64 \<Rightarrow> i64" where
  "i64_of_f64 x = (case x of F_NaN \<Rightarrow> 0 | F_NInf \<Rightarrow> i64_min | F_PInf \<Rightarrow> i64_max | F_NZero \<Rightarrow> 0
     | F_Num r \<Rightarrow> sat_i64 (if 0 \<le> r then \<lfloor>r\<rfloor> else \<lceil>r\<rceil>))"

section \<open>Operations\<close>

definition fzero :: "bool \<Rightarrow> f64" where
  "fzero neg = (if neg then F_NZero else F_Num 0)"

definition finf :: "bool \<Rightarrow> f64" where
  "finf neg = (if neg then F_NInf else F_PInf)"

fun fneg :: "f64 \<Rightarrow> f64" where
  "fneg F_NaN = F_NaN"
| "fneg F_NInf = F_PInf"
| "fneg F_PInf = F_NInf"
| "fneg F_NZero = F_Num 0"
| "fneg (F_Num r) = (if r = 0 then F_NZero else F_Num (- r))"

definition fadd :: "f64 \<Rightarrow> f64 \<Rightarrow> f64" where
  "fadd a b =
     (if a = F_NaN \<or> b = F_NaN then F_NaN
      else if \<not> is_fin a then (if \<not> is_fin b \<and> a \<noteq> b then F_NaN else a)
      else if \<not> is_fin b then b
      else let s = fval a + fval b in
        if s = 0 then fzero (a = F_NZero \<and> b = F_NZero) else round64 s)"

definition fsub :: "f64 \<Rightarrow> f64 \<Rightarrow> f64" where
  "fsub a b = fadd a (fneg b)"

definition fmul :: "f64 \<Rightarrow> f64 \<Rightarrow> f64" where
  "fmul a b = (let neg = (fneg_sign a \<noteq> fneg_sign b) in
     if a = F_NaN \<or> b = F_NaN then F_NaN
     else if \<not> is_fin a \<or> \<not> is_fin b then
       (if is_fin a \<and> fval a = 0 \<or> is_fin b \<and> fval b = 0 then F_NaN else finf neg)
     else if fval a * fval b = 0 then fzero neg else round64 (fval a * fval b))"

definition fdiv :: "f64 \<Rightarrow> f64 \<Rightarrow> f64" where
  "fdiv a b = (let neg = (fneg_sign a \<noteq> fneg_sign b) in
     if a = F_NaN \<or> b = F_NaN then F_NaN
     else if \<not> is_fin a then (if \<not> is_fin b then F_NaN else finf neg)
     else if \<not> is_fin b then fzero neg
     else if fval b = 0 then (if fval a = 0 then F_NaN else finf neg)
     else if fval a = 0 then fzero neg else round64 (fval a / fval b))"

text \<open>The comparison operators: false as soon as one side is NaN, and \<open>-0 == 0\<close>.\<close>

fun fclass :: "f64 \<Rightarrow> int" where
  "fclass F_NInf = -1"
| "fclass F_PInf = 1"
| "fclass F_NaN = 2"
| "fclass _ = 0"

definition flt :: "f64 \<Rightarrow> f64 \<Rightarrow> bool" where
  "flt a b \<longleftrightarrow> a \<noteq> F_NaN \<and> b \<noteq> F_NaN \<and>
     (fclass a < fclass b \<or> fclass a = fclass b \<and> fval a < fval b)"

definition fle :: "f64 \<Rightarrow> f64 \<Rightarrow> bool" where
  "fle a b \<longleftrightarrow> a \<noteq> F_NaN \<and> b \<noteq> F_NaN \<and>
     (fclass a < fclass b \<or> fclass a = fclass b \<and> fval a \<le> fval b)"

abbreviation fge :: "f64 \<Rightarrow> f64 \<Rightarrow> bool" where "fge a b \<equiv> fle b a"
abbreviation fgt :: "f64 \<Rightarrow> f64 \<Rightarrow> bool" where "fgt a b \<equiv> flt b a"

definition feq :: "f64 \<Rightarrow> f64 \<Rightarrow> bool" where
  "feq a b \<longleftrightarrow> a \<noteq> F_NaN \<and> b \<noteq> F_NaN \<and> fclass a = fclass b \<and> fval a = fval b"

text \<open>\<open>f64::max\<close>, \<open>f64::min\<close> (the other operand when one is NaN) and \<open>f64::clamp\<close>.\<close>

definition fmax :: "f64 \<Rightarrow> f64 \<Rightarrow> f64" where
  "fmax a b = (if a = F_NaN then b else if b = F_NaN then a else if flt a b then b else a)"

definition fmin :: "f64 \<Rightarrow> f64 \<Rightarrow> f64" where
  "fmin a b = (if a = F_NaN then b else if b = F_NaN then a else if flt b a then b else a)"

definition fclamp :: "f64 \<Rightarrow> f64 \<Rightarrow> f64 \<Rightarrow> f64" where
  "fclamp lo hi x = (let y = (if flt x lo then lo else x) in if flt hi y then hi else y)"

section \<open>The total order of \<open>total_cmp\<close>\<close>

definition fkey :: "f64 \<Rightarrow> int \<times> rat \<times> int" where
  "fkey a = (fclass a, fval a, if a = F_NZero then 0 else 1)"

lemma fkey_inj: "fkey a = fkey b \<Longrightarrow> a = b"
  by (cases a; cases b) (auto simp: fkey_def split: if_splits)

definition key_le :: "int \<times> rat \<times> int \<Rightarrow> int \<times> rat \<times> int \<Rightarrow> bool" where
  "key_le a b \<longleftrightarrow> fst a < fst b \<or> fst a = fst b \<and>
     (fst (snd a) < fst (snd b) \<or> fst (snd a) = fst (snd b) \<and> snd (snd a) \<le> snd (snd b))"

instantiation f64 :: linorder
begin

definition less_eq_f64 :: "f64 \<Rightarrow> f64 \<Rightarrow> bool" where
  "a \<le> b \<longleftrightarrow> key_le (fkey a) (fkey b)"

definition less_f64 :: "f64 \<Rightarrow> f64 \<Rightarrow> bool" where
  "a < (b :: f64) \<longleftrightarrow> a \<le> b \<and> \<not> b \<le> a"

instance
proof
  fix x y z :: f64
  show "(x < y) = (x \<le> y \<and> \<not> y \<le> x)" by (rule less_f64_def)
  show "x \<le> x" by (simp add: less_eq_f64_def key_le_def)
  show "x \<le> y \<Longrightarrow> y \<le> z \<Longrightarrow> x \<le> z" by (auto simp: less_eq_f64_def key_le_def)
  show "x \<le> y \<or> y \<le> x" by (auto simp: less_eq_f64_def key_le_def)
  assume "x \<le> y" "y \<le> x"
  then have "fkey x = fkey y"
    by (cases "fkey x"; cases "fkey y") (auto simp: less_eq_f64_def key_le_def)
  then show "x = y" by (rule fkey_inj)
qed

end

abbreviation total_cmp64 :: "f64 \<Rightarrow> f64 \<Rightarrow> ordering" where
  "total_cmp64 \<equiv> cmp_lin"

section \<open>Rounding is monotone and exact on integers\<close>

lemma nlog2_bounds: "0 < n \<Longrightarrow> 2 ^ nlog2 n \<le> n \<and> n < 2 ^ Suc (nlog2 n)"
proof (induction n rule: nlog2.induct)
  case (1 n)
  show ?case
  proof (cases "n < 2")
    case True
    with "1.prems" show ?thesis by (simp add: nlog2.simps [of n])
  next
    case False
    with "1.IH" have "2 ^ nlog2 (n div 2) \<le> n div 2" "n div 2 < 2 ^ Suc (nlog2 (n div 2))"
      by auto
    moreover have "2 * (n div 2) \<le> n" "n < 2 * (n div 2) + 2" by arith+
    ultimately show ?thesis using False by (simp add: nlog2.simps [of n])
  qed
qed

lemma ilog2_bounds:
  assumes "0 < x"
  shows "2 powi ilog2 x \<le> x" and "x < 2 powi (ilog2 x + 1)"
proof -
  have "2 powi ilog2 x \<le> x \<and> x < 2 powi (ilog2 x + 1)"
  proof (cases "1 \<le> x")
    case True
    define n where "n = nat \<lfloor>x\<rfloor>"
    from True have n: "0 < n" "of_nat n \<le> x" "x < of_nat n + 1" by (auto simp: n_def, linarith+)
    from nlog2_bounds [OF n(1)] have "2 ^ nlog2 n \<le> n" "n + 1 \<le> 2 ^ Suc (nlog2 n)" by auto
    then have le: "(of_nat (2 ^ nlog2 n) :: rat) \<le> of_nat n"
      "(of_nat (n + 1) :: rat) \<le> of_nat (2 ^ Suc (nlog2 n))" by (metis of_nat_le_iff)+
    from order_trans [OF le(1) n(2)] less_le_trans [OF n(3)] le(2)
    have "(2 :: rat) ^ nlog2 n \<le> x" "x < 2 ^ Suc (nlog2 n)" by simp_all
    with True show ?thesis by (simp add: ilog2_def power_int_add n_def)
  next
    case False
    define m where "m = nat (\<lceil>1 / x\<rceil> - 1)"
    let ?y = "1 / x"
    from False assms have y: "1 < ?y" by simp
    then have "2 \<le> \<lceil>?y\<rceil>" by linarith
    then have m: "0 < m" "of_nat m < ?y" "?y \<le> of_nat m + 1" by (auto simp: m_def, linarith+)
    from nlog2_bounds [OF m(1)] have "2 ^ nlog2 m \<le> m" "m + 1 \<le> 2 ^ Suc (nlog2 m)" by auto
    then have le: "(of_nat (2 ^ nlog2 m) :: rat) \<le> of_nat m"
      "(of_nat (m + 1) :: rat) \<le> of_nat (2 ^ Suc (nlog2 m))" by (metis of_nat_le_iff)+
    from le_less_trans [OF le(1) m(2)] order_trans [OF m(3)] le(2)
    have "2 ^ nlog2 m < ?y" "?y \<le> 2 ^ Suc (nlog2 m)" by simp_all
    then have "x < 1 / 2 ^ nlog2 m" "1 / 2 ^ Suc (nlog2 m) \<le> x"
      using assms by (simp_all add: field_simps)
    moreover have "ilog2 x = - int (Suc (nlog2 m))" using False by (simp add: ilog2_def m_def)
    moreover have "(2 :: rat) powi (- int (Suc k)) = 1 / 2 ^ Suc k"
      "(2 :: rat) powi (- int (Suc k) + 1) = 1 / 2 ^ k" for k
      by (simp only: power_int_minus power_int_of_nat inverse_eq_divide) (simp add: power_int_minus inverse_eq_divide)
    ultimately show ?thesis by simp
  qed
  then show "2 powi ilog2 x \<le> x" "x < 2 powi (ilog2 x + 1)" by auto
qed

lemma ilog2_mono: "0 < x \<Longrightarrow> x \<le> y \<Longrightarrow> ilog2 x \<le> ilog2 y"
proof (rule ccontr)
  assume x: "0 < x" "x \<le> y" and "\<not> ilog2 x \<le> ilog2 y"
  then have "ilog2 y + 1 \<le> ilog2 x" by simp
  then have "(2 :: rat) powi (ilog2 y + 1) \<le> 2 powi ilog2 x" by (simp add: power_int_increasing)
  with x ilog2_bounds [of x] ilog2_bounds [of y] show False by linarith
qed

lemma rne_int [simp]: "rne (of_int n) = n"
  by (simp add: rne_def)

lemma rne_mono: "x \<le> y \<Longrightarrow> rne x \<le> rne y"
proof (cases "\<lfloor>x\<rfloor> = \<lfloor>y\<rfloor>")
  case True
  assume "x \<le> y"
  with True show ?thesis by (auto simp: rne_def Let_def)
next
  case False
  assume "x \<le> y"
  with False have "\<lfloor>x\<rfloor> + 1 \<le> \<lfloor>y\<rfloor>" using floor_mono [of x y] by simp
  moreover have "rne x \<le> \<lfloor>x\<rfloor> + 1" "\<lfloor>y\<rfloor> \<le> rne y" by (auto simp: rne_def Let_def)
  ultimately show ?thesis by linarith
qed

lemma rne_le_int: "x \<le> of_int n \<Longrightarrow> rne x \<le> n"
  using rne_mono [of x "of_int n"] by simp

lemma rne_ge_int: "of_int n \<le> x \<Longrightarrow> n \<le> rne x"
  using rne_mono [of "of_int n" x] by simp

lemma fexp_mono: "0 < x \<Longrightarrow> x \<le> y \<Longrightarrow> fexp x \<le> fexp y"
  using ilog2_mono [of x y] by (auto simp: fexp_def)

lemma fmag_nonneg: "0 < x \<Longrightarrow> 0 \<le> fmag x"
  using rne_ge_int [of 0 "x / 2 powi fexp x"] by (simp add: fmag_def)

lemma fmag_upper: "0 < x \<Longrightarrow> fmag x \<le> 2 powi (fexp x + 53)"
proof -
  assume x: "0 < x"
  have "ilog2 x + 1 \<le> fexp x + 53" by (simp add: fexp_def)
  then have "(2 :: rat) powi (ilog2 x + 1) \<le> 2 powi (fexp x + 53)" by (simp add: power_int_increasing)
  with ilog2_bounds(2) [OF x] have "x < 2 powi (fexp x + 53)" by linarith
  then have "x / 2 powi fexp x \<le> of_int (2 ^ 53)" by (simp add: power_int_add field_simps)
  then have "rne (x / 2 powi fexp x) \<le> 2 ^ 53" by (rule rne_le_int)
  then have "(of_int (rne (x / 2 powi fexp x)) :: rat) \<le> of_int (2 ^ 53)" by (simp only: of_int_le_iff)
  then show ?thesis by (simp add: fmag_def power_int_add)
qed

lemma fmag_lower: "0 < x \<Longrightarrow> -1074 < fexp x \<Longrightarrow> 2 powi (fexp x + 52) \<le> fmag x"
proof -
  assume x: "0 < x" and e: "-1074 < fexp x"
  then have "fexp x + 52 = ilog2 x" by (auto simp: fexp_def)
  with ilog2_bounds(1) [OF x] have "2 powi (fexp x + 52) \<le> x" by simp
  then have "of_int (2 ^ 52) \<le> x / 2 powi fexp x" by (simp add: power_int_add field_simps)
  then have "2 ^ 52 \<le> rne (x / 2 powi fexp x)" by (rule rne_ge_int)
  then have "(of_int (2 ^ 52) :: rat) \<le> of_int (rne (x / 2 powi fexp x))" by (simp only: of_int_le_iff)
  then show ?thesis by (simp add: fmag_def power_int_add)
qed

lemma fmag_mono: "0 < x \<Longrightarrow> x \<le> y \<Longrightarrow> fmag x \<le> fmag y"
proof (cases "fexp x = fexp y")
  case True
  assume "0 < x" "x \<le> y"
  with True have "rne (x / 2 powi fexp x) \<le> rne (y / 2 powi fexp y)"
    by (intro rne_mono) (simp add: divide_right_mono)
  with True show ?thesis by (simp add: fmag_def)
next
  case False
  assume xy: "0 < x" "x \<le> y"
  with False fexp_mono [of x y] have "fexp x + 53 \<le> fexp y + 52" "-1074 < fexp y"
    by (auto simp: fexp_def [of x])
  then have "fmag x \<le> 2 powi (fexp y + 52)"
    using fmag_upper [OF xy(1)] power_int_increasing [of "fexp x + 53" "fexp y + 52" "2 :: rat"] by simp
  also have "\<dots> \<le> fmag y" using fmag_lower [of y] xy \<open>-1074 < fexp y\<close> by simp
  finally show ?thesis .
qed

lemma fmag_int:
  assumes "0 < n" "n \<le> 2 ^ 53"
  shows "fmag (of_int n) = of_int n"
proof -
  let ?x = "of_int n :: rat"
  have "1 \<le> n" using assms(1) by linarith
  then have x: "0 < ?x" "1 \<le> ?x" by auto
  have "0 \<le> ilog2 ?x" using x by (simp add: ilog2_def)
  then have e: "fexp ?x = ilog2 ?x - 52" by (simp add: fexp_def)
  show ?thesis
  proof (cases "n = 2 ^ 53")
    case True
    then have "?x = 2 powi 53" by simp
    moreover have "(2 :: rat) powi 53 < 2 powi (ilog2 ?x + 1)"
      using ilog2_bounds(2) [OF x(1)] calculation by simp
    then have "53 < ilog2 ?x + 1" by (metis less_le_not_le linorder_not_less one_le_numeral power_int_increasing)
    moreover have "(2 :: rat) powi ilog2 ?x \<le> 2 powi 53" using ilog2_bounds(1) [OF x(1)] calculation(1) by simp
    then have "ilog2 ?x \<le> 53"
      by (metis linorder_not_less one_less_numeral_iff power_int_strict_increasing semiring_norm(76))
    ultimately have "fexp ?x = 1" using e by simp
    then have "?x / 2 powi fexp ?x = of_int (2 ^ 52)" using True by simp
    then have "rne (?x / 2 powi fexp ?x) = 2 ^ 52" by (simp only: rne_int)
    with True \<open>fexp ?x = 1\<close> show ?thesis by (simp add: fmag_def)
  next
    case False
    with assms have "n < 2 ^ 53" by simp
    then have "?x < of_int (2 ^ 53)" by (simp only: of_int_less_iff)
    then have "(2 :: rat) powi ilog2 ?x < 2 powi 53" using ilog2_bounds(1) [OF x(1)] by simp
    then have "ilog2 ?x < 53"
      by (metis linorder_not_less one_le_numeral power_int_increasing)
    define k where "k = nat (52 - ilog2 ?x)"
    with \<open>ilog2 ?x < 53\<close> e have k: "fexp ?x = - int k" by simp
    then have "?x / 2 powi fexp ?x = of_int (n * 2 ^ k)"
      by (simp add: power_int_minus divide_simps)
    then have "rne (?x / 2 powi fexp ?x) = n * 2 ^ k" by (simp only: rne_int)
    with k show ?thesis by (simp add: fmag_def power_int_minus)
  qed
qed

section \<open>Working facts on rounded values\<close>

lemma f64_limit_pos [simp]: "0 < f64_limit"
  by (simp add: f64_limit_def)

lemma f64_limit_not_le_0 [simp]: "\<not> f64_limit \<le> 0"
  by (simp add: not_le)

lemma round64_0 [simp]: "round64 0 = F_Num 0"
  by (simp add: round64_def)

lemma round64_nonneg_cases:
  assumes "0 \<le> x"
  shows "round64 x = F_PInf \<or> (\<exists>r \<ge> 0. round64 x = F_Num r)"
  using assms fmag_nonneg [of x] by (cases "x = 0") (auto simp: round64_def Let_def)

lemma round64_not_NaN [simp]: "round64 x \<noteq> F_NaN"
  by (auto simp: round64_def Let_def)

lemma fneg_round64: "x \<noteq> 0 \<Longrightarrow> fneg (round64 x) = round64 (- x)"
  by (auto simp: round64_def Let_def)

lemma round64_class: "x \<noteq> 0 \<Longrightarrow> fclass (round64 x) = (if f64_limit \<le> fmag \<bar>x\<bar> then (if x < 0 then -1 else 1) else 0)"
  by (auto simp: round64_def Let_def)

lemma round64_fval:
  "x \<noteq> 0 \<Longrightarrow> fval (round64 x) =
     (if f64_limit \<le> fmag \<bar>x\<bar> then 0 else if x < 0 then - fmag \<bar>x\<bar> else fmag \<bar>x\<bar>)"
  by (auto simp: round64_def Let_def)

lemma round64_mono_pos: "0 < x \<Longrightarrow> x \<le> y \<Longrightarrow> fle (round64 x) (round64 y)"
  using fmag_mono [of x y] by (auto simp: fle_def round64_class round64_fval)

lemma fle_refl: "a \<noteq> F_NaN \<Longrightarrow> fle a a"
  by (simp add: fle_def)

lemma fle_trans: "fle a b \<Longrightarrow> fle b c \<Longrightarrow> fle a c"
  by (auto simp: fle_def)

lemma flt_iff: "flt a b \<longleftrightarrow> fle a b \<and> \<not> fle b a"
  by (auto simp: flt_def fle_def)

lemma not_flt: "a \<noteq> F_NaN \<Longrightarrow> b \<noteq> F_NaN \<Longrightarrow> \<not> flt a b \<longleftrightarrow> fle b a"
  by (auto simp: flt_def fle_def)

lemma round64_zero_bounds:
  "0 \<le> x \<Longrightarrow> fle (F_Num 0) (round64 x)" "x \<le> 0 \<Longrightarrow> fle (round64 x) (F_Num 0)"
  using fmag_nonneg [of "\<bar>x\<bar>"] by (cases "x = 0"; auto simp: fle_def round64_class round64_fval)+

theorem round64_mono: "x \<le> y \<Longrightarrow> fle (round64 x) (round64 y)"
proof -
  assume xy: "x \<le> y"
  consider "0 < x" | "x \<le> 0" "0 \<le> y" | "y < 0" by linarith
  then show ?thesis
  proof cases
    case 1
    then show ?thesis using xy by (rule round64_mono_pos)
  next
    case 2
    then show ?thesis using round64_zero_bounds [of x] round64_zero_bounds [of y] fle_trans by blast
  next
    case 3
    then have "fmag \<bar>y\<bar> \<le> fmag \<bar>x\<bar>" using xy by (intro fmag_mono) auto
    with 3 xy show ?thesis by (auto simp: fle_def round64_class round64_fval)
  qed
qed

text \<open>Integers up to \<open>2\<^bsup>53\<^esup>\<close> are exact.\<close>

lemma round64_of_int: "\<bar>n\<bar> \<le> 2 ^ 53 \<Longrightarrow> round64 (of_int n) = F_Num (of_int n)"
proof (cases "n = 0")
  case False
  assume n: "\<bar>n\<bar> \<le> 2 ^ 53"
  have m: "fmag \<bar>of_int n\<bar> = \<bar>of_int n\<bar>" using fmag_int [of "\<bar>n\<bar>"] n False by simp
  have "\<bar>of_int n\<bar> \<le> (2 :: rat) ^ 53" using n by (metis of_int_abs of_int_le_iff of_int_numeral of_int_power)
  also have "\<dots> < f64_limit" unfolding f64_limit_def by (rule power_strict_increasing) auto
  finally have lt: "\<not> f64_limit \<le> \<bar>of_int n :: rat\<bar>" by simp
  show ?thesis using False m lt by (auto simp: round64_def Let_def)
qed simp

lemma round64_numeral: "numeral n \<le> (2 ^ 53 :: int) \<Longrightarrow> round64 (numeral n) = F_Num (numeral n)"
  using round64_of_int [of "numeral n"] by simp

text \<open>
  \<open>frange lo hi a\<close>: \<open>a\<close> is finite and between \<open>lo\<close> and \<open>hi\<close>. Intervals with representable
  ends are kept by rounding.
\<close>

definition exact64 :: "rat \<Rightarrow> bool" where
  "exact64 r \<longleftrightarrow> round64 r = F_Num r"

definition frange :: "rat \<Rightarrow> rat \<Rightarrow> f64 \<Rightarrow> bool" where
  "frange lo hi a \<longleftrightarrow> is_fin a \<and> lo \<le> fval a \<and> fval a \<le> hi"

lemma exact64_int: "\<bar>n\<bar> \<le> 2 ^ 53 \<Longrightarrow> exact64 (of_int n)"
  by (simp add: exact64_def round64_of_int)

lemma exact64_0 [simp]: "exact64 0"
  by (simp add: exact64_def)

lemma exact64_1 [simp]: "exact64 1"
  using exact64_int [of 1] by simp

lemma exact64_numeral: "numeral n \<le> (2 ^ 53 :: int) \<Longrightarrow> exact64 (numeral n)"
  using exact64_int [of "numeral n"] by simp

lemma exact64_nat: "n \<le> 2 ^ 53 \<Longrightarrow> exact64 (of_nat n)"
  using exact64_int [of "int n"] by simp

lemma is_fin_iff: "is_fin a \<longleftrightarrow> fclass a = 0"
  by (cases a) auto

lemma round64_range:
  assumes "exact64 lo" "exact64 hi" "lo \<le> x" "x \<le> hi"
  shows "frange lo hi (round64 x)"
proof -
  have "fle (F_Num lo) (round64 x)" "fle (round64 x) (F_Num hi)"
    using assms round64_mono [of lo x] round64_mono [of x hi] by (simp_all add: exact64_def)
  then show ?thesis by (auto simp: frange_def fle_def is_fin_iff)
qed

lemma frange_Num [simp]: "frange lo hi (F_Num r) \<longleftrightarrow> lo \<le> r \<and> r \<le> hi"
  by (simp add: frange_def)

lemma frange_fin: "frange lo hi a \<Longrightarrow> is_fin a"
  by (simp add: frange_def)

lemma is_fin_not_NaN: "is_fin a \<Longrightarrow> a \<noteq> F_NaN"
  by auto

lemma frange_not_NaN: "frange lo hi a \<Longrightarrow> a \<noteq> F_NaN"
  by (auto simp: frange_def)

lemma flt_fin: "is_fin a \<Longrightarrow> is_fin b \<Longrightarrow> flt a b \<longleftrightarrow> fval a < fval b"
  by (auto simp: flt_def is_fin_iff)

lemma fle_fin: "is_fin a \<Longrightarrow> is_fin b \<Longrightarrow> fle a b \<longleftrightarrow> fval a \<le> fval b"
  by (auto simp: fle_def is_fin_iff)

lemma fval_fmax: "is_fin a \<Longrightarrow> is_fin b \<Longrightarrow> is_fin (fmax a b) \<and> fval (fmax a b) = max (fval a) (fval b)"
  by (auto simp: fmax_def flt_fin)

lemma fval_fmin: "is_fin a \<Longrightarrow> is_fin b \<Longrightarrow> is_fin (fmin a b) \<and> fval (fmin a b) = min (fval a) (fval b)"
  by (auto simp: fmin_def flt_fin)

lemma fval_fclamp:
  "is_fin a \<Longrightarrow> is_fin lo \<Longrightarrow> is_fin hi \<Longrightarrow> fval lo \<le> fval hi \<Longrightarrow>
   is_fin (fclamp lo hi a) \<and> fval (fclamp lo hi a) = max (fval lo) (min (fval hi) (fval a))"
  by (auto simp: fclamp_def Let_def flt_fin)

lemma fclamp_range:
  "a \<noteq> F_NaN \<Longrightarrow> lo \<le> hi \<Longrightarrow> frange lo hi (fclamp (F_Num lo) (F_Num hi) a)"
  by (cases a) (auto simp: fclamp_def Let_def flt_def frange_def)

lemma fneg_fin: "is_fin a \<Longrightarrow> is_fin (fneg a) \<and> fval (fneg a) = - fval a"
  by (cases a) auto

lemma fadd_range:
  assumes "is_fin a" "is_fin b" "exact64 lo" "exact64 hi" "lo \<le> fval a + fval b" "fval a + fval b \<le> hi"
  shows "frange lo hi (fadd a b)"
  using assms round64_range [of lo hi "fval a + fval b"]
  by (auto simp: fadd_def Let_def fzero_def frange_def is_fin_not_NaN)

lemma fsub_range:
  assumes "is_fin a" "is_fin b" "exact64 lo" "exact64 hi" "lo \<le> fval a - fval b" "fval a - fval b \<le> hi"
  shows "frange lo hi (fsub a b)"
  using assms fneg_fin [of b] unfolding fsub_def by (intro fadd_range) auto

lemma fmul_range:
  assumes "is_fin a" "is_fin b" "exact64 lo" "exact64 hi" "lo \<le> fval a * fval b" "fval a * fval b \<le> hi"
  shows "frange lo hi (fmul a b)"
  using assms round64_range [of lo hi "fval a * fval b"]
  by (auto simp: fmul_def Let_def fzero_def frange_def is_fin_not_NaN)

lemma fdiv_range:
  assumes "is_fin a" "is_fin b" "fval b \<noteq> 0" "exact64 lo" "exact64 hi"
    "lo \<le> fval a / fval b" "fval a / fval b \<le> hi"
  shows "frange lo hi (fdiv a b)"
  using assms round64_range [of lo hi "fval a / fval b"]
  by (auto simp: fdiv_def Let_def fzero_def frange_def is_fin_not_NaN)

lemma fadd_mono_left:
  "is_fin a \<Longrightarrow> is_fin a' \<Longrightarrow> is_fin b \<Longrightarrow> fval a \<le> fval a' \<Longrightarrow> fle (fadd a b) (fadd a' b)"
  using round64_mono [of "fval a + fval b" "fval a' + fval b"]
    round64_zero_bounds [of "fval a + fval b"] round64_zero_bounds [of "fval a' + fval b"]
  by (auto simp: fadd_def Let_def fzero_def is_fin_not_NaN fle_def)

section \<open>Evaluation of closed terms\<close>

lemma floor_rat_numeral: "\<lfloor>numeral a / numeral b :: rat\<rfloor> = numeral a div numeral b"
  using floor_divide_of_int_eq [of "numeral a" "numeral b", where 'a = rat] by simp

lemma floor_rat_1_numeral: "\<lfloor>1 / numeral b :: rat\<rfloor> = 1 div numeral b"
  using floor_divide_of_int_eq [of 1 "numeral b", where 'a = rat] by simp

lemma ceiling_rat_numeral: "\<lceil>numeral a / numeral b :: rat\<rceil> = - (- numeral a div numeral b)"
  using ceiling_divide_eq_div [of "numeral a" "numeral b", where 'a = rat] by simp

lemmas f64_eval = fmul_def fsub_def fdiv_def fadd_def flt_def fle_def feq_def fmax_def fmin_def
  fclamp_def fzero_def finf_def round64_def fmag_def fexp_def ilog2_def nlog2.simps rne_def
  Let_def f64_limit_def f64_of_int_def f64_of_nat_def floor_rat_numeral floor_rat_1_numeral
  ceiling_rat_numeral

end
