(* ===== verification/Json.thy ===== *)
theory Json
  imports PF_Float
begin

text \<open>
  \<open>serde_json::Value\<close>. The workspace does not enable \<open>preserve_order\<close>, so an object is a
  \<open>BTreeMap\<close>: an association list whose keys are distinct and ascending (\<open>json_ok\<close>). Parsing
  and printing are \<open>serde_json\<close>'s; where the sources parse text, the parser is an argument of the
  definition. The accessors below are the ones the sources use.
\<close>

datatype json =
    JNull
  | JBool bool
  | JInt int
  | JFloat f64
  | JStr string
  | JArr "json list"
  | JObj "(string \<times> json) list"

fun json_ok :: "json \<Rightarrow> bool" where
  "json_ok (JArr vs) = (\<forall>v \<in> set vs. json_ok v)"
| "json_ok (JObj kvs) = (sorted_wrt (<) (map fst kvs) \<and> (\<forall>kv \<in> set kvs. json_ok (snd kv)))"
| "json_ok _ = True"

fun jget :: "string \<Rightarrow> json \<Rightarrow> json option" where
  "jget k (JObj kvs) = map_of kvs k"
| "jget k _ = None"

fun as_str :: "json \<Rightarrow> string option" where
  "as_str (JStr s) = Some s"
| "as_str _ = None"

fun as_array :: "json \<Rightarrow> json list option" where
  "as_array (JArr vs) = Some vs"
| "as_array _ = None"

fun as_bool :: "json \<Rightarrow> bool option" where
  "as_bool (JBool b) = Some b"
| "as_bool _ = None"

text \<open>\<open>as_u64\<close> and \<open>as_i64\<close>: integers in the type's range.\<close>

fun as_u64 :: "json \<Rightarrow> u64 option" where
  "as_u64 (JInt n) = (if 0 \<le> n \<and> n \<le> int u64_max then Some (nat n) else None)"
| "as_u64 _ = None"

fun as_i64 :: "json \<Rightarrow> i64 option" where
  "as_i64 (JInt n) = (if in_i64 n then Some n else None)"
| "as_i64 _ = None"

text \<open>\<open>Value::pointer\<close> for paths of object keys, given as the list of keys.\<close>

fun jpath :: "string list \<Rightarrow> json \<Rightarrow> json option" where
  "jpath [] v = Some v"
| "jpath (k # ks) v = (case jget k v of Some w \<Rightarrow> jpath ks w | None \<Rightarrow> None)"

definition jpath_str :: "string list \<Rightarrow> json \<Rightarrow> string option" where
  "jpath_str ks v = (case jpath ks v of Some w \<Rightarrow> as_str w | None \<Rightarrow> None)"

definition jtype :: "json \<Rightarrow> string option" where
  "jtype v = jpath_str [''type''] v"

text \<open>\<open>as_object_mut().remove(k)\<close>: objects lose the key, other values are unchanged.\<close>

fun jremove :: "string \<Rightarrow> json \<Rightarrow> json" where
  "jremove k (JObj kvs) = JObj (AList.delete k kvs)"
| "jremove k v = v"

lemma jget_jremove: "jget x (jremove k v) = (if x = k then None else jget x v)"
  by (cases v) (auto simp: delete_conv)

lemma json_ok_jremove: "json_ok v \<Longrightarrow> json_ok (jremove k v)"
proof (cases v)
  case (JObj kvs)
  assume "json_ok v"
  with JObj show ?thesis
    by (auto simp: AList.delete_eq sorted_wrt_map sorted_wrt_filter)
qed auto

text \<open>\<open>Map::insert\<close> on a \<open>BTreeMap\<close> object keeps the keys ascending.\<close>

fun obj_put :: "string \<Rightarrow> json \<Rightarrow> (string \<times> json) list \<Rightarrow> (string \<times> json) list" where
  "obj_put k v [] = [(k, v)]"
| "obj_put k v ((k', v') # rest) =
     (if k = k' then (k, v) # rest else if k < k' then (k, v) # (k', v') # rest else (k', v') # obj_put k v rest)"

lemma obj_put_get: "map_of (obj_put k v kvs) x = (if x = k then Some v else map_of kvs x)"
  by (induction k v kvs rule: obj_put.induct) auto

lemma obj_put_keys: "fst ` set (obj_put k v kvs) = insert k (fst ` set kvs)"
  by (induction k v kvs rule: obj_put.induct) auto

lemma obj_put_sorted:
  "sorted_wrt (<) (map fst kvs) \<Longrightarrow> sorted_wrt (<) (map fst (obj_put k v kvs))"
proof (induction k v kvs rule: obj_put.induct)
  case (2 k v k' v' rest)
  then show ?case using obj_put_keys [of k v rest] by (fastforce simp: image_iff)
qed simp

end
