(* ===== verification/Core_Types.thy ===== *)
theory Core_Types
  imports Json
begin

text \<open>
  The value types of \<open>polyflare-core\<close> (\<open>types.rs\<close>, \<open>provider.rs\<close>): failure signals and executor
  errors, requests, session keys, continuity directives and turn outcomes, account snapshots and
  the selection context. Response streams are abstracted where they are consumed.
\<close>

section \<open>Providers\<close>

datatype provider = Codex | Anthropic

fun provider_str :: "provider \<Rightarrow> string" where
  "provider_str Codex = ''codex''"
| "provider_str Anthropic = ''anthropic''"

definition provider_parse :: "string \<Rightarrow> string + provider" where
  "provider_parse s =
     (if s = ''codex'' then Inr Codex else if s = ''anthropic'' then Inr Anthropic else Inl s)"

lemma provider_roundtrip: "provider_parse (provider_str p) = Inr p"
  by (cases p) (auto simp: provider_parse_def)

section \<open>Failures\<close>

record failure_signal =
  fs_status :: u16
  fs_retry_after :: "i64 option"
  fs_error_code :: "string option"

record upstream_http_error =
  uh_signal :: failure_signal
  uh_headers :: "(string \<times> string) list"
  uh_body :: string

datatype exec_error =
    ExUpstream string
  | ExUpstreamStatus failure_signal
  | ExUpstreamHttp upstream_http_error
  | ExStream string

text \<open>\<open>ExecError::failure_signal\<close>\<close>

fun exec_failure_signal :: "exec_error \<Rightarrow> failure_signal option" where
  "exec_failure_signal (ExUpstreamStatus s) = Some s"
| "exec_failure_signal (ExUpstreamHttp r) = Some (uh_signal r)"
| "exec_failure_signal _ = None"

text \<open>\<open>failover::is_model_not_found\<close>, which the WebSocket relay asks too.\<close>

definition is_model_not_found :: "failure_signal \<Rightarrow> bool" where
  "is_model_not_found sig \<longleftrightarrow> fs_error_code sig = Some ''model_not_found''"

section \<open>Requests\<close>

record prepared_request =
  pr_body :: "json option"
  pr_model :: string
  pr_forward_headers :: "(string \<times> string) list"
  pr_raw_body :: "string option"

datatype key_strength = Hard | Soft

record session_key =
  sk_value :: string
  sk_strength :: key_strength

record request_ctx =
  rc_session_id :: "string option"
  rc_session_key :: "session_key option"
  rc_logical_turn_key :: "string option"
  rc_client_previous_response_id :: "string option"
  rc_is_full_resend :: bool
  rc_input_count :: u32
  rc_estimated_tokens :: u32
  rc_subagent :: "string option"
  rc_conn_discriminator :: "string option"

text \<open>The invariant the type documents: without raw bytes there is a body to send.\<close>

definition sendable :: "prepared_request \<Rightarrow> bool" where
  "sendable r \<longleftrightarrow> pr_raw_body r \<noteq> None \<or> pr_body r \<noteq> None"

section \<open>Continuity directives and outcomes\<close>

datatype watchdog_arm = Disarmed | Armed nat

datatype recovery_plan = ResendFull prepared_request | SignalClient | NoRecovery

record directive =
  dir_pin_account :: "account_id option"
  dir_watchdog :: watchdog_arm
  dir_recovery :: recovery_plan
  dir_session_key :: "session_key option"
  dir_require_security :: bool

record prepared =
  prep_req :: prepared_request
  prep_directive :: directive

datatype turn_outcome =
    Completed "session_key option" account_id "string option" string u32 "string option"
  | Recovered "session_key option" account_id "string option"
  | Failed "session_key option"

section \<open>Account snapshots and the selection context\<close>

record quota_window =
  qw_used_percent :: f64
  qw_window_minutes :: "i64 option"
  qw_reset_at :: "i64 option"
  qw_recorded_at :: i64
  qw_stale :: bool

record account_snapshot =
  snap_id :: account_id
  snap_status :: string
  snap_used_percent :: f64
  snap_secondary_used_percent :: f64
  snap_five_hour_quota :: "quota_window option"
  snap_weekly_quota :: "quota_window option"
  snap_reset_at :: "i64 option"
  snap_capacity_credits :: "f64 option"
  snap_usage_cap_percent :: "f64 option"
  snap_usage_cap_override :: bool
  snap_routing_policy :: string
  snap_health_tier :: u8
  snap_error_count :: u32
  snap_cooldown_until :: "i64 option"
  snap_last_error_at :: "i64 option"
  snap_last_selected_at :: "i64 option"
  snap_plan_type :: string
  snap_security_work_authorized :: bool
  snap_in_flight :: u32
  snap_in_flight_pressure :: u32
  snap_open_ws :: u32
  snap_provider :: provider
  snap_pool :: "string option"
  snap_pools :: "string list"
  snap_selection_weight_multiplier :: f64
  snap_overload_backoff_until :: "i64 option"
  snap_overload_isolated_until :: "i64 option"
  snap_subscription_oauth :: bool

text \<open>\<open>AccountSnapshot::new\<close>\<close>

definition new_snapshot :: "account_id \<Rightarrow> account_snapshot" where
  "new_snapshot i = \<lparr>
     snap_id = i, snap_status = ''active'',
     snap_used_percent = F_Num 0, snap_secondary_used_percent = F_Num 0,
     snap_five_hour_quota = None, snap_weekly_quota = None,
     snap_reset_at = None, snap_capacity_credits = None,
     snap_usage_cap_percent = None, snap_usage_cap_override = False,
     snap_routing_policy = ''normal'', snap_health_tier = 0,
     snap_error_count = 0, snap_cooldown_until = None,
     snap_last_error_at = None, snap_last_selected_at = None,
     snap_plan_type = ''plus'', snap_security_work_authorized = False,
     snap_in_flight = 0, snap_in_flight_pressure = 0, snap_open_ws = 0,
     snap_provider = Codex, snap_pool = None, snap_pools = [],
     snap_selection_weight_multiplier = F_Num 1,
     snap_overload_backoff_until = None, snap_overload_isolated_until = None,
     snap_subscription_oauth = False \<rparr>"

datatype tier = High | Medium | Low

record selection_ctx =
  ctx_now :: i64
  ctx_require_security :: bool
  ctx_rng_seed :: "u64 option"
  ctx_session_id :: "string option"
  ctx_tier :: "tier option"
  ctx_inflight_penalty_pct :: f64
  ctx_request_pressure_units :: u32

definition default_ctx :: selection_ctx where
  "default_ctx = \<lparr> ctx_now = 0, ctx_require_security = False, ctx_rng_seed = None,
     ctx_session_id = None, ctx_tier = None, ctx_inflight_penalty_pct = F_Num 0,
     ctx_request_pressure_units = 0 \<rparr>"

end
