(* ===== verification/Sse.thy ===== *)
theory Sse
  imports Core_Types
begin

text \<open>
  The two readers of an upstream event stream in \<open>polyflare-server/src/watchdog.rs\<close>: the bounded scan
  that looks past the lifecycle prelude before anything is relayed, and the sniffer that follows the
  relayed bytes for the terminal frame. Bytes are characters; \<open>parse\<close> stands for
  \<open>serde_json::from_str\<close>. \<open>String::from_utf8_lossy\<close> and \<open>str::from_utf8\<close> are modelled below, because the
  scan counts bytes of the decoded text and drains that many from the raw buffer.
\<close>

section \<open>UTF-8\<close>

definition byte :: "char \<Rightarrow> nat" where "byte c = of_char c"

definition in_range :: "nat \<Rightarrow> nat \<Rightarrow> char \<Rightarrow> bool" where
  "in_range lo hi c \<longleftrightarrow> lo \<le> byte c \<and> byte c \<le> hi"

text \<open>The bytes of U+FFFD, which replaces each ill-formed sequence (maximal valid prefix).\<close>

definition replacement :: string where "replacement = [CHR 0xEF, CHR 0xBF, CHR 0xBD]"

text \<open>The range of the second byte, given the first; \<open>None\<close> when the first cannot start a sequence.\<close>

definition second_range :: "char \<Rightarrow> (nat \<times> nat) option" where
  "second_range b = (let n = byte b in
     if n = 0xE0 then Some (0xA0, 0xBF) else if n = 0xED then Some (0x80, 0x9F)
     else if n = 0xF0 then Some (0x90, 0xBF) else if n = 0xF4 then Some (0x80, 0x8F)
     else if 0xC2 \<le> n \<and> n \<le> 0xF4 then Some (0x80, 0xBF) else None)"

definition seq_length :: "char \<Rightarrow> nat" where
  "seq_length b = (let n = byte b in if n < 0xE0 then 2 else if n < 0xF0 then 3 else 4)"

text \<open>How many continuation bytes of the sequence are there and well-formed (at most \<open>k\<close>).\<close>

fun continuation :: "nat \<Rightarrow> nat \<times> nat \<Rightarrow> string \<Rightarrow> nat" where
  "continuation 0 r cs = 0"
| "continuation (Suc k) r [] = 0"
| "continuation (Suc k) r (c # cs) =
     (if in_range (fst r) (snd r) c then Suc (continuation k (0x80, 0xBF) cs) else 0)"

definition decode_one :: "char \<Rightarrow> string \<Rightarrow> string \<times> nat" where
  "decode_one b cs =
     (if byte b < 0x80 then ([b], 0)
      else (case second_range b of None \<Rightarrow> (replacement, 0)
        | Some r \<Rightarrow> (let k = continuation (seq_length b - 1) r cs in
             (if k = seq_length b - 1 then b # take k cs else replacement, k))))"

function lossy :: "string \<Rightarrow> string" where
  "lossy [] = []"
| "lossy (b # cs) = fst (decode_one b cs) @ lossy (drop (snd (decode_one b cs)) cs)"
  by pat_completeness auto
termination by (relation "measure length") (auto simp: less_Suc_eq_le)

definition utf8_ok :: "string \<Rightarrow> bool" where "utf8_ok s \<longleftrightarrow> lossy s = s"

section \<open>Lines and payloads\<close>

abbreviation nl :: char where "nl \<equiv> CHR 0x0A"

text \<open>The first line with its newline, and the rest.\<close>

fun split_line :: "string \<Rightarrow> (string \<times> string) option" where
  "split_line [] = None"
| "split_line (c # cs) = (if c = nl then Some ([nl], cs)
     else map_option (\<lambda>(line, rest). (c # line, rest)) (split_line cs))"

lemma split_line_Some: "split_line s = Some (line, rest) \<Longrightarrow> s = line @ rest \<and> (\<exists>l. line = l @ [nl] \<and> nl \<notin> set l)"
proof (induction s arbitrary: line)
  case (Cons c cs)
  show ?case
  proof (cases "c = nl")
    case True
    with Cons.prems show ?thesis by auto
  next
    case False
    with Cons.prems obtain l1 where l1: "split_line cs = Some (l1, rest)" "line = c # l1" by auto
    with Cons.IH obtain l where "cs = l1 @ rest" "l1 = l @ [nl]" "nl \<notin> set l" by blast
    with False l1(2) show ?thesis by (intro conjI exI [of _ "c # l"]) auto
  qed
qed simp

lemma split_line_shorter: "split_line s = Some (line, rest) \<Longrightarrow> length rest < length s"
  using split_line_Some by fastforce

definition strip_prefix :: "string \<Rightarrow> string \<Rightarrow> string option" where
  "strip_prefix p s = (if starts_with p s then Some (drop (length p) s) else None)"

definition trim_end_by :: "(char \<Rightarrow> bool) \<Rightarrow> string \<Rightarrow> string" where
  "trim_end_by p s = rev (dropWhile p (rev s))"

section \<open>Frame classes\<close>

definition is_capacity_code :: "string \<Rightarrow> bool" where
  "is_capacity_code code \<longleftrightarrow> code \<in> set [''server_is_overloaded'', ''overloaded_error'',
     ''model_at_capacity'', ''slow_down'', ''server_error'']"

definition is_non_output_frame_type :: "string \<Rightarrow> bool" where
  "is_non_output_frame_type ty \<longleftrightarrow>
     ty \<in> set [''response.created'', ''response.in_progress'', ''response.metadata'', ''keepalive'', ''ping'']
     \<or> starts_with ''codex.'' ty"

datatype scan_verdict = CyberPolicy | Capacity string | Decisive

definition classify_frame :: "json \<Rightarrow> scan_verdict option" where
  "classify_frame v =
     (let ty = unwrap_or (jpath_str [''type''] v) [] in
      if is_non_output_frame_type ty then None
      else if ty = ''response.failed'' then
        Some (case jpath_str [''response'', ''error'', ''code''] v of
            Some c \<Rightarrow> if c = ''cyber_policy'' then CyberPolicy
               else if is_capacity_code c then Capacity c else Decisive
          | None \<Rightarrow> Decisive)
      else if ty = ''error'' then
        Some (case jpath_str [''error'', ''code''] v of
            Some c \<Rightarrow> if is_capacity_code c then Capacity c else Decisive
          | None \<Rightarrow> Decisive)
      else Some Decisive)"

section \<open>The scan\<close>

definition line_verdict :: "(string \<Rightarrow> json option) \<Rightarrow> string \<Rightarrow> scan_verdict option" where
  "line_verdict parse line =
     (case strip_prefix ''data:'' (trim_end_by (\<lambda>c. c = nl \<or> c = CHR 0x0D) line) of
        None \<Rightarrow> None
      | Some p \<Rightarrow> (let payload = str_trim p in
          if payload \<noteq> [] \<and> payload \<noteq> ''[DONE]''
          then (case parse payload of Some v \<Rightarrow> classify_frame v | None \<Rightarrow> None) else None))"

function scan_text :: "(string \<Rightarrow> json option) \<Rightarrow> string \<Rightarrow> usize \<Rightarrow> scan_verdict option \<times> usize" where
  "scan_text parse text consumed =
     (case split_line text of
        None \<Rightarrow> (None, consumed)
      | Some (line, rest) \<Rightarrow>
          (case line_verdict parse line of
             Some verdict \<Rightarrow> (Some verdict, consumed)
           | None \<Rightarrow> scan_text parse rest (consumed + length line)))"
  by pat_completeness auto
termination by (relation "measure (\<lambda>(_, text, _). length text)") (auto dest: split_line_shorter)

declare scan_text.simps [simp del]

definition scan_buffered_frames_consuming ::
  "(string \<Rightarrow> json option) \<Rightarrow> string \<Rightarrow> scan_verdict option \<times> usize" where
  "scan_buffered_frames_consuming parse buf = scan_text parse (lossy buf) 0"

section \<open>Streams and timed reads\<close>

text \<open>
  What the upstream will deliver: each item with the time, counted from the start of the wait for it,
  until it is there. The empty list is a stream that stays silent for ever. A read with a deadline
  yields the item if it comes in time (\<open>tokio::time::timeout\<close> polls the stream first); otherwise
  the wait has used up the deadline's share of the item's time.
\<close>

datatype item = Chunk string | Fail exec_error | Eof

type_synonym stream = "(nat \<times> item) list"

fun read_within :: "nat \<Rightarrow> stream \<Rightarrow> item option \<times> stream" where
  "read_within deadline [] = (None, [])"
| "read_within deadline ((d, it) # rest) =
     (if d \<le> deadline then (Some it, if it = Eof then [(0, Eof)] else rest) else (None, (d - deadline, it) # rest))"

lemma read_within_shorter: "read_within deadline s = (Some (Chunk c), rest) \<Longrightarrow> length rest < length s"
  by (cases "(deadline, s)" rule: read_within.cases) (auto split: if_splits)

definition max_scan_bytes :: usize where "max_scan_bytes = 4 * 1024 * 1024"

text \<open>\<open>Panicked\<close>: \<open>Vec::drain\<close> beyond the end of the buffer.\<close>

datatype scan_outcome =
    Alive stream
  | Cyber stream
  | Refused string
  | HardError "failure_signal option" stream
  | Silence stream
  | Panicked

definition ready :: "string list \<Rightarrow> stream" where "ready chunks = map (\<lambda>c. (0, Chunk c)) chunks"

function scan_loop ::
  "(string \<Rightarrow> json option) \<Rightarrow> nat \<Rightarrow> string list \<Rightarrow> string \<Rightarrow> stream \<Rightarrow> scan_outcome" where
  "scan_loop parse deadline relay_chunks scan_buf stream =
     (let (verdict, consumed) = scan_buffered_frames_consuming parse scan_buf in
      case verdict of
        Some CyberPolicy \<Rightarrow> Cyber (ready relay_chunks @ stream)
      | Some (Capacity code) \<Rightarrow> Refused code
      | Some Decisive \<Rightarrow> Alive (ready relay_chunks @ stream)
      | None \<Rightarrow>
          if consumed > length scan_buf then Panicked
          else if length (drop consumed scan_buf) > max_scan_bytes then Alive (ready relay_chunks @ stream)
          else (case read_within deadline stream of
              (Some (Chunk next), rest) \<Rightarrow>
                scan_loop parse deadline (relay_chunks @ [next]) (drop consumed scan_buf @ next) rest
            | (Some (Fail e), rest) \<Rightarrow>
                HardError (exec_failure_signal e) (ready relay_chunks @ [(0, Fail e), (0, Eof)])
            | (Some Eof, rest) \<Rightarrow> Alive (ready relay_chunks @ rest)
            | (None, rest) \<Rightarrow> Silence (ready relay_chunks @ rest)))"
  by pat_completeness auto
termination by (relation "measure (\<lambda>(_, _, _, _, stream). length stream)")
    (auto dest: read_within_shorter [OF sym])

declare scan_loop.simps [simp del]

definition scan_past_lifecycle ::
  "(string \<Rightarrow> json option) \<Rightarrow> nat \<Rightarrow> string \<Rightarrow> stream \<Rightarrow> scan_outcome" where
  "scan_past_lifecycle parse deadline first stream = scan_loop parse deadline [first] first stream"

section \<open>The sniffer\<close>

datatype failure_kind = TransportLoss | Transient | RateLimited | QuotaExceeded | RequestFault

definition failure_kind_for_code :: "string option \<Rightarrow> failure_kind" where
  "failure_kind_for_code code = (case code of
     None \<Rightarrow> Transient
   | Some c \<Rightarrow>
      if c = ''rate_limit_exceeded'' then RateLimited
      else if c \<in> set [''insufficient_quota'', ''usage_not_included''] then QuotaExceeded
      else if c \<in> set [''server_is_overloaded'', ''overloaded_error'', ''model_at_capacity'', ''slow_down''] then Transient
      else if c \<in> set [''context_length_exceeded'', ''invalid_prompt'', ''bio_policy'', ''cyber_policy'',
               ''invalid_request_error''] then RequestFault
      else Transient)"

datatype terminal = Pending | Done_ok "string option" | Done_failed failure_kind

record sniffer =
  sn_buf :: string
  sn_created_id :: "string option"
  sn_terminal :: terminal
  sn_dropping :: bool
  sn_output_visible_by :: "string option"
  sn_frames_before :: u32

definition new_sniffer :: sniffer where
  "new_sniffer = \<lparr>sn_buf = [], sn_created_id = None, sn_terminal = Pending, sn_dropping = False,
     sn_output_visible_by = None, sn_frames_before = 0\<rparr>"

text \<open>The effect of one parsed frame.\<close>

definition observe_frame :: "json \<Rightarrow> sniffer \<Rightarrow> sniffer" where
  "observe_frame v s =
     (let ty = unwrap_or (jpath_str [''type''] v) [];
          response_id = jpath_str [''response'', ''id''] v;
          is_terminal = (ty \<in> set [''response.completed'', ''response.failed'', ''error'', ''response.incomplete'']);
          s = (if is_terminal then s
               else s\<lparr>sn_frames_before := add_u32 (sn_frames_before s) 1,
                      sn_output_visible_by := (if sn_output_visible_by s = None \<and> \<not> is_non_output_frame_type ty
                          then Some ty else sn_output_visible_by s)\<rparr>)
      in if ty = ''response.created'' then s\<lparr>sn_created_id := response_id\<rparr>
         else if ty = ''response.completed'' then s\<lparr>sn_terminal := Done_ok (opt_or response_id (sn_created_id s))\<rparr>
         else if ty = ''response.failed'' then
           s\<lparr>sn_terminal := Done_failed (failure_kind_for_code (jpath_str [''response'', ''error'', ''code''] v))\<rparr>
         else if ty = ''error'' then
           s\<lparr>sn_terminal := Done_failed (failure_kind_for_code (jpath_str [''error'', ''code''] v))\<rparr>
         else if ty = ''response.incomplete'' then s\<lparr>sn_terminal := Done_failed RequestFault\<rparr>
         else s)"

definition line_frame :: "(string \<Rightarrow> json option) \<Rightarrow> string \<Rightarrow> json option" where
  "line_frame parse line =
     (if \<not> utf8_ok line then None
      else (case strip_prefix ''data:'' (trim_end_by is_ws line) of
          None \<Rightarrow> None
        | Some p \<Rightarrow> (let payload = str_trim p in if payload = ''[DONE]'' then None else parse payload)))"

definition observe_line :: "(string \<Rightarrow> json option) \<Rightarrow> string \<Rightarrow> sniffer \<Rightarrow> sniffer" where
  "observe_line parse line s = (case line_frame parse line of None \<Rightarrow> s | Some v \<Rightarrow> observe_frame v s)"

text \<open>The \<open>while\<close> loop of \<open>feed\<close>: one complete line at a time, until a terminal frame.\<close>

function feed_lines :: "(string \<Rightarrow> json option) \<Rightarrow> string \<Rightarrow> sniffer \<Rightarrow> sniffer" where
  "feed_lines parse buf s =
     (case split_line buf of
        None \<Rightarrow> s\<lparr>sn_buf := buf\<rparr>
      | Some (line, rest) \<Rightarrow>
          (let s' = observe_line parse line s in
           if sn_terminal s' \<noteq> Pending then s'\<lparr>sn_buf := []\<rparr> else feed_lines parse rest s'))"
  by pat_completeness auto
termination by (relation "measure (\<lambda>(_, buf, _). length buf)") (auto dest: split_line_shorter)

declare feed_lines.simps [simp del]

definition max_line :: usize where "max_line = 64 * 1024"

definition feed :: "(string \<Rightarrow> json option) \<Rightarrow> string \<Rightarrow> sniffer \<Rightarrow> sniffer" where
  "feed parse bytes s =
     (if sn_terminal s \<noteq> Pending then s
      else
        (case (if sn_dropping s then map_option snd (split_line bytes) else Some bytes) of
           None \<Rightarrow> s
         | Some incoming \<Rightarrow>
             (let s1 = feed_lines parse (sn_buf s @ incoming) (s\<lparr>sn_dropping := False\<rparr>) in
              if length (sn_buf s1) > max_line then s1\<lparr>sn_buf := [], sn_dropping := True\<rparr> else s1)))"

definition finish :: "sniffer \<Rightarrow> terminal" where
  "finish s = (case sn_terminal s of Pending \<Rightarrow> Done_failed TransportLoss | t \<Rightarrow> t)"

end
