(* ===== verification/Network_Recovery.thy ===== *)
theory Network_Recovery
  imports Core_Types
begin

text \<open>
  Recovery from transport failures (\<open>polyflare-server/src/network_recovery.rs\<close>): one circuit per upstream origin,
  the permits of the attempts made on it, and the two loops that take them, \<open>RecoveringExecutor::execute\<close> and
  the relay's dial (\<open>ws_relay/owner.rs\<close>). Instants are nanoseconds. The parser of URLs and the hash behind the
  jitter are parameters.
\<close>

section \<open>Circuits\<close>

definition ns_per_ms :: nat where "ns_per_ms = 1000000"
definition ns_per_sec :: nat where "ns_per_sec = 1000000000"

type_synonym origin = string

record url_parts =
  url_scheme :: string
  url_host :: "string option"
  url_port :: "string option"

definition origin_parse :: "(string \<Rightarrow> url_parts option) \<Rightarrow> string \<Rightarrow> origin option" where
  "origin_parse parse_url value =
     (case parse_url value of
        None \<Rightarrow> None
      | Some url \<Rightarrow> (case (url_host url, url_port url) of
          (Some host, Some port) \<Rightarrow> Some (url_scheme url @ ''://'' @ str_lower host @ '':'' @ port)
        | _ \<Rightarrow> None))"

record recovery_policy =
  rp_delays :: "nat list"
  rp_max_jitter :: nat

definition default_policy :: recovery_policy where
  "default_policy = \<lparr>
     rp_delays = map (\<lambda>s. s * ns_per_sec) [1, 2, 5, 10, 30],
     rp_max_jitter = 250 * ns_per_ms\<rparr>"

text \<open>\<open>sample\<close> is the first eight bytes of the hash of an origin and a failure count.\<close>

definition policy_delay :: "(origin \<Rightarrow> u32 \<Rightarrow> u64) \<Rightarrow> recovery_policy \<Rightarrow> origin \<Rightarrow> u32 \<Rightarrow> nat" where
  "policy_delay sample policy og failures =
     (let base = rp_delays policy ! min (failures - 1) (length (rp_delays policy) - 1) in
      if rp_max_jitter policy = 0 then base
      else let ceiling = min (rp_max_jitter policy div ns_per_ms) u64_max
           in base + sample og failures mod (ceiling + 1) * ns_per_ms)"

datatype circuit_phase = Closed | Open nat u32 | HalfOpen u32

record circuit =
  ci_phase :: circuit_phase
  ci_transport_failures :: u64
  ci_recoveries :: u64

definition circuit_new :: circuit where
  "circuit_new = \<lparr>ci_phase = Closed, ci_transport_failures = 0, ci_recoveries = 0\<rparr>"

type_synonym registry = "(origin, circuit) table"

definition circuit_of :: "registry \<Rightarrow> origin \<Rightarrow> circuit" where
  "circuit_of reg og = unwrap_or (tbl_get reg og) circuit_new"

abbreviation phase_of :: "registry \<Rightarrow> origin \<Rightarrow> circuit_phase" where
  "phase_of reg og \<equiv> ci_phase (circuit_of reg og)"

datatype permit_kind = Normal | Probe u32

datatype acquired = Permit permit_kind | WaitUntil nat | Exceeded

text \<open>One turn of \<open>acquire\<close>'s loop up to its wait; the clock readings of the turn coincide.\<close>

definition acquire :: "origin \<Rightarrow> nat \<Rightarrow> nat \<Rightarrow> registry \<Rightarrow> acquired \<times> registry" where
  "acquire og deadline now reg =
     (let circuit = circuit_of reg og;
          wait = (\<lambda>wake. (if deadline \<le> now then Exceeded else WaitUntil wake, tbl_put reg og circuit))
      in case ci_phase circuit of
           Closed \<Rightarrow> (Permit Normal, tbl_put reg og circuit)
         | Open retry_at failures \<Rightarrow>
             if retry_at \<le> now
             then (Permit (Probe failures), tbl_put reg og (circuit\<lparr>ci_phase := HalfOpen failures\<rparr>))
             else wait (min retry_at deadline)
         | HalfOpen _ \<Rightarrow> wait deadline)"

definition circuit_success :: "origin \<Rightarrow> registry \<Rightarrow> registry" where
  "circuit_success og reg =
     (let circuit = circuit_of reg og
      in tbl_put reg og (circuit\<lparr>ci_phase := Closed,
           ci_recoveries := (if ci_phase circuit = Closed then ci_recoveries circuit else add_u64 (ci_recoveries circuit) 1)\<rparr>))"

definition next_failures :: "permit_kind \<Rightarrow> circuit_phase \<Rightarrow> u32" where
  "next_failures kind phase =
     (case (kind, phase) of
        (Probe failures, HalfOpen _) \<Rightarrow> add_u32 failures 1
      | (Normal, Closed) \<Rightarrow> 1
      | (_, Open _ failures) \<Rightarrow> failures
      | (_, HalfOpen failures) \<Rightarrow> failures
      | (Probe failures, Closed) \<Rightarrow> add_u32 failures 1)"

record net_env =
  ne_sample :: "origin \<Rightarrow> u32 \<Rightarrow> u64"
  ne_policy :: recovery_policy

definition circuit_failure :: "net_env \<Rightarrow> origin \<Rightarrow> permit_kind \<Rightarrow> nat \<Rightarrow> registry \<Rightarrow> registry" where
  "circuit_failure env og kind now reg =
     (let circuit = circuit_of reg og;
          failures = next_failures kind (ci_phase circuit)
      in tbl_put reg og (circuit\<lparr>
           ci_phase := Open (now + policy_delay (ne_sample env) (ne_policy env) og failures) failures,
           ci_transport_failures := add_u64 (ci_transport_failures circuit) 1\<rparr>))"

datatype circuit_status = Online | Offline | Probing

record circuit_snapshot =
  sn_origin_id :: string
  sn_status :: circuit_status
  sn_failures :: u32
  sn_transport_failures :: u64
  sn_recoveries :: u64

definition circuit_snapshots :: "(origin \<Rightarrow> string) \<Rightarrow> registry \<Rightarrow> circuit_snapshot list" where
  "circuit_snapshots telemetry_id reg =
     sort_by (\<lambda>a b. cmp_lin (sn_origin_id a) (sn_origin_id b)) (map (\<lambda>(og, c).
       (case (case ci_phase c of Closed \<Rightarrow> (Online, 0) | Open _ n \<Rightarrow> (Offline, n) | HalfOpen n \<Rightarrow> (Probing, n)) of
          (status, failures) \<Rightarrow> \<lparr>sn_origin_id = telemetry_id og, sn_status = status, sn_failures = failures,
            sn_transport_failures = ci_transport_failures c, sn_recoveries = ci_recoveries c\<rparr>)) reg)"

section \<open>The loops\<close>

text \<open>
  A call of \<open>execute\<close> (\<open>nc_dial\<close> false) or of the relay's dial. \<open>Sending\<close> holds a permit while the inner
  executor runs; \<open>nc_answers\<close> is a ghost field with the answers of the attempts so far.
\<close>

type_synonym attempt_answer = "exec_error option"

datatype call_pc =
    Acquiring
  | Waiting nat
  | Sending permit_kind
  | Backoff nat
  | Finished attempt_answer

record net_call =
  nc_origin :: origin
  nc_deadline :: nat
  nc_dial :: bool
  nc_retries :: u32
  nc_answers :: "attempt_answer list"
  nc_pc :: call_pc

definition budget_exceeded :: exec_error where
  "budget_exceeded = ExUpstream ''network recovery budget exceeded''"

definition connection_limit_handshake_status :: u16 where "connection_limit_handshake_status = 409"
definition connection_limit_dial_retries :: u32 where "connection_limit_dial_retries = 3"

definition connection_limit_dial_delay :: "u32 \<Rightarrow> nat" where
  "connection_limit_dial_delay attempt = min (mul_u64 500 (2 ^ min (attempt - 1) 4)) 2000 * ns_per_ms"

definition start_call :: "bool \<Rightarrow> origin \<Rightarrow> nat \<Rightarrow> nat \<Rightarrow> net_call" where
  "start_call dial og budget now =
     \<lparr>nc_origin = og, nc_deadline = now + budget, nc_dial = dial, nc_retries = 0, nc_answers = [], nc_pc = Acquiring\<rparr>"

definition capped_handshake :: "net_call \<Rightarrow> nat \<Rightarrow> attempt_answer \<Rightarrow> bool" where
  "capped_handshake c now answer \<longleftrightarrow> nc_dial c \<and> nc_retries c < connection_limit_dial_retries \<and> now < nc_deadline c \<and>
     (case answer of Some (ExUpstreamHttp r) \<Rightarrow> fs_status (uh_signal r) = connection_limit_handshake_status | _ \<Rightarrow> False)"

fun transport_failure :: "attempt_answer \<Rightarrow> bool" where
  "transport_failure (Some (ExUpstream _)) = True"
| "transport_failure _ = False"

text \<open>What a loop does with the answer of an attempt: only a transport failure opens the circuit.\<close>

definition after_attempt ::
  "net_env \<Rightarrow> net_call \<Rightarrow> permit_kind \<Rightarrow> attempt_answer \<Rightarrow> nat \<Rightarrow> registry \<Rightarrow> net_call \<times> registry" where
  "after_attempt env c kind answer now reg =
     (let c' = c\<lparr>nc_answers := nc_answers c @ [answer]\<rparr> in
      if transport_failure answer
      then (c'\<lparr>nc_pc := (if nc_deadline c \<le> now then Finished (Some budget_exceeded) else Acquiring)\<rparr>,
            circuit_failure env (nc_origin c) kind now reg)
      else if capped_handshake c now answer
      then (c'\<lparr>nc_retries := nc_retries c + 1, nc_pc := Backoff (now + connection_limit_dial_delay (nc_retries c + 1))\<rparr>,
            circuit_success (nc_origin c) reg)
      else (c'\<lparr>nc_pc := Finished answer\<rparr>, circuit_success (nc_origin c) reg))"

text \<open>\<open>notify_waiters\<close> wakes every waiter of the origin.\<close>

definition wake :: "origin \<Rightarrow> (nat \<rightharpoonup> net_call) \<Rightarrow> nat \<rightharpoonup> net_call" where
  "wake og calls = (\<lambda>i. map_option (\<lambda>c. case nc_pc c of
     Waiting _ \<Rightarrow> if nc_origin c = og then c\<lparr>nc_pc := Acquiring\<rparr> else c | _ \<Rightarrow> c) (calls i))"

record net_system =
  ns_registry :: registry
  ns_calls :: "nat \<rightharpoonup> net_call"
  ns_now :: nat

definition acquire_call :: "net_call \<Rightarrow> nat \<Rightarrow> registry \<Rightarrow> net_call \<times> registry" where
  "acquire_call c now reg =
     (case acquire (nc_origin c) (nc_deadline c) now reg of
        (Permit kind, reg') \<Rightarrow> (c\<lparr>nc_pc := Sending kind\<rparr>, reg')
      | (WaitUntil t, reg') \<Rightarrow> (c\<lparr>nc_pc := Waiting t\<rparr>, reg')
      | (Exceeded, reg') \<Rightarrow> (c\<lparr>nc_pc := Finished (Some budget_exceeded)\<rparr>, reg'))"

definition timeout_call :: "net_call \<Rightarrow> nat \<Rightarrow> net_call" where
  "timeout_call c now = c\<lparr>nc_pc := (if nc_deadline c \<le> now then Finished (Some budget_exceeded) else Acquiring)\<rparr>"

text \<open>\<open>Cancel\<close> drops a call wherever it is; the drop of a probe's permit reports a failure.\<close>

inductive net_step :: "net_env \<Rightarrow> net_system \<Rightarrow> net_system \<Rightarrow> bool" for env :: net_env where
  Start: "ns_calls s i = None \<Longrightarrow>
    net_step env s (s\<lparr>ns_calls := (ns_calls s)(i \<mapsto> start_call dial og budget (ns_now s))\<rparr>)"
| Acquire: "ns_calls s i = Some c \<Longrightarrow> nc_pc c = Acquiring \<Longrightarrow> acquire_call c (ns_now s) (ns_registry s) = (c', reg') \<Longrightarrow>
    net_step env s (s\<lparr>ns_calls := (ns_calls s)(i \<mapsto> c'), ns_registry := reg'\<rparr>)"
| Timeout: "ns_calls s i = Some c \<Longrightarrow> nc_pc c = Waiting t \<Longrightarrow> t \<le> ns_now s \<Longrightarrow>
    net_step env s (s\<lparr>ns_calls := (ns_calls s)(i \<mapsto> timeout_call c (ns_now s))\<rparr>)"
| Resume: "ns_calls s i = Some c \<Longrightarrow> nc_pc c = Backoff t \<Longrightarrow> t \<le> ns_now s \<Longrightarrow>
    net_step env s (s\<lparr>ns_calls := (ns_calls s)(i \<mapsto> c\<lparr>nc_pc := Acquiring\<rparr>)\<rparr>)"
| Answer: "ns_calls s i = Some c \<Longrightarrow> nc_pc c = Sending kind \<Longrightarrow>
    after_attempt env c kind answer (ns_now s) (ns_registry s) = (c', reg') \<Longrightarrow>
    net_step env s (s\<lparr>ns_calls := wake (nc_origin c) ((ns_calls s)(i \<mapsto> c')), ns_registry := reg'\<rparr>)"
| Drop: "ns_calls s i = Some c \<Longrightarrow> nc_pc c = Sending (Probe failures) \<Longrightarrow>
    net_step env s (s\<lparr>ns_calls := wake (nc_origin c) ((ns_calls s)(i := None)),
      ns_registry := circuit_failure env (nc_origin c) (Probe failures) (ns_now s) (ns_registry s)\<rparr>)"
| Cancel: "ns_calls s i = Some c \<Longrightarrow> (\<forall>failures. nc_pc c \<noteq> Sending (Probe failures)) \<Longrightarrow>
    net_step env s (s\<lparr>ns_calls := (ns_calls s)(i := None)\<rparr>)"
| Tick: "ns_now s \<le> t \<Longrightarrow> net_step env s (s\<lparr>ns_now := t\<rparr>)"

definition net_init :: "nat \<Rightarrow> net_system" where
  "net_init t = \<lparr>ns_registry = [], ns_calls = Map.empty, ns_now = t\<rparr>"

abbreviation net_run :: "net_env \<Rightarrow> net_system \<Rightarrow> bool" where
  "net_run env s \<equiv> \<exists>t. (net_step env)\<^sup>*\<^sup>* (net_init t) s"

end
