(* ===== verification/Custom_Targets.thy ===== *)
theory Custom_Targets
  imports Sse Network_Recovery "HOL-Library.Word"
begin

unbundle bit_operations_syntax

text \<open>
  Operator-defined upstreams, first part (\<open>polyflare-server/src/custom_provider.rs\<close>, records of
  \<open>polyflare-store/src/provider_repo.rs\<close>): which addresses and URLs may be called, the cached HTTP clients, what a
  request needs and which target has it, and the rewriting of a body for a model's profile. Parsing and printing
  of JSON, URLs and addresses, the resolver and the hash are parameters.
\<close>

section \<open>Rows\<close>

record custom_provider =
  cp_id :: string
  cp_slug :: string
  cp_base_url :: string
  cp_wire_api :: string
  cp_enabled :: bool
  cp_stateless_responses :: bool
  cp_allow_private_hosts :: bool
  cp_connect_timeout_ms :: i64
  cp_stream_idle_timeout_ms :: i64
  cp_request_max_retries :: i64
  cp_max_concurrency :: "i64 option"
  cp_updated_at :: i64

record provider_credential =
  pc_id :: string
  pc_provider_id :: string
  pc_label :: string
  pc_enabled :: bool
  pc_health_status :: string
  pc_routing_weight :: f64
  pc_max_concurrency :: "i64 option"
  pc_cooldown_until :: "i64 option"
  pc_last_error_at :: "i64 option"
  pc_updated_at :: i64

record price_row =
  pr_input :: "f64 option"
  pr_cached_input :: "f64 option"
  pr_output :: "f64 option"
  pr_priority_input :: "f64 option"
  pr_priority_cached_input :: "f64 option"
  pr_priority_output :: "f64 option"

record provider_model =
  pm_id :: string
  pm_public_model :: string
  pm_upstream_model :: string
  pm_supports_tools :: bool
  pm_supports_vision :: bool
  pm_supports_parallel_tool_calls :: bool
  pm_supports_web_search :: bool
  pm_supports_reasoning_summaries :: bool
  pm_model_info_json :: "string option"
  pm_instruction_mode :: string
  pm_instruction_text :: string
  pm_request_overrides_json :: string
  pm_prices :: price_row

section \<open>Addresses\<close>

text \<open>\<open>IpAddr\<close>: the octets of an IPv4 address, the segments of an IPv6 one.\<close>

type_synonym octet = "8 word"
type_synonym segment = "16 word"

datatype ip_addr =
    V4 octet octet octet octet
  | V6 segment segment segment segment segment segment segment segment

text \<open>The predicates of \<open>Ipv4Addr\<close> that the check uses.\<close>

definition v4_private :: "octet \<Rightarrow> octet \<Rightarrow> bool" where
  "v4_private a b \<longleftrightarrow> a = 10 \<or> a = 172 \<and> 16 \<le> b \<and> b \<le> 31 \<or> a = 192 \<and> b = 168"

definition v4_documentation :: "octet \<Rightarrow> octet \<Rightarrow> octet \<Rightarrow> bool" where
  "v4_documentation a b c \<longleftrightarrow>
     (a, b, c) = (192, 0, 2) \<or> (a, b, c) = (198, 51, 100) \<or> (a, b, c) = (203, 0, 113)"

definition is_public_v4 :: "octet \<Rightarrow> octet \<Rightarrow> octet \<Rightarrow> octet \<Rightarrow> bool" where
  "is_public_v4 a b c d =
     (let broadcast = (a = 255 \<and> b = 255 \<and> c = 255 \<and> d = 255);
          shared = (a = 100 \<and> b AND 0xC0 = 0x40);
          protocol_assignment = (a = 192 \<and> b = 0 \<and> c = 0 \<and> d \<noteq> 9 \<and> d \<noteq> 10);
          benchmarking = (a = 198 \<and> b AND 0xFE = 18);
          reserved = (a AND 0xF0 = 0xF0 \<and> \<not> broadcast)
      in \<not> (a = 0 \<or> v4_private a b \<or> shared \<or> a = 127 \<or> (a = 169 \<and> b = 254) \<or> protocol_assignment \<or>
           v4_documentation a b c \<or> benchmarking \<or> reserved \<or> broadcast \<or> (224 \<le> a \<and> a \<le> 239)))"

definition hi_octet :: "segment \<Rightarrow> octet" where "hi_octet s = ucast (drop_bit 8 s)"
definition lo_octet :: "segment \<Rightarrow> octet" where "lo_octet s = ucast s"

definition ietf_protocol_assignment ::
  "segment \<Rightarrow> segment \<Rightarrow> segment \<Rightarrow> segment \<Rightarrow> segment \<Rightarrow> segment \<Rightarrow> segment \<Rightarrow> segment \<Rightarrow> bool" where
  "ietf_protocol_assignment s0 s1 s2 s3 s4 s5 s6 s7 \<longleftrightarrow>
     s0 = 0x2001 \<and> s1 < 0x200 \<and>
     \<not> ([s1, s2, s3, s4, s5, s6, s7] = [1, 0, 0, 0, 0, 0, 1] \<or> [s1, s2, s3, s4, s5, s6, s7] = [1, 0, 0, 0, 0, 0, 2] \<or>
        s1 = 3 \<or> (s1 = 4 \<and> s2 = 0x112) \<or> (0x20 \<le> s1 \<and> s1 \<le> 0x3F))"

fun is_public_ip :: "ip_addr \<Rightarrow> bool" where
  "is_public_ip (V4 a b c d) = is_public_v4 a b c d"
| "is_public_ip (V6 s0 s1 s2 s3 s4 s5 s6 s7) =
     (if [s0, s1, s2, s3, s4, s5] = [0, 0, 0, 0, 0, 0xFFFF]
      then is_public_v4 (hi_octet s6) (lo_octet s6) (hi_octet s7) (lo_octet s7)
      else let documentation = (s0 = 0x2001 \<and> s1 = 0xDB8 \<or> s0 AND 0xFFF0 = 0x3FF0)
        in \<not> ([s0, s1, s2, s3, s4, s5, s6, s7] = [0, 0, 0, 0, 0, 0, 0, 0] \<or>
             [s0, s1, s2, s3, s4, s5, s6, s7] = [0, 0, 0, 0, 0, 0, 0, 1] \<or>
             [s0, s1, s2] = [0x64, 0xFF9B, 1] \<or>
             [s0, s1, s2, s3] = [0x100, 0, 0, 0] \<or>
             ietf_protocol_assignment s0 s1 s2 s3 s4 s5 s6 s7 \<or>
             s0 = 0x2002 \<or> documentation \<or> s0 = 0x5F00 \<or>
             s0 AND 0xFE00 = 0xFC00 \<or> s0 AND 0xFFC0 = 0xFE80 \<or> drop_bit 8 s0 = 0xFF))"

section \<open>Endpoints\<close>

text \<open>A parsed URL (\<open>reqwest::Url\<close>); \<open>cu_port\<close> is \<open>port_or_known_default\<close>.\<close>

record custom_url =
  cu_scheme :: string
  cu_username :: string
  cu_password :: "string option"
  cu_query :: "string option"
  cu_fragment :: "string option"
  cu_host :: "string option"
  cu_port :: "nat option"
  cu_path :: string

record custom_env =
  ce_parse_url :: "string \<Rightarrow> custom_url option"
  ce_print_url :: "custom_url \<Rightarrow> string"
  ce_url_parts :: "string \<Rightarrow> url_parts option"
  ce_parse_ip :: "string \<Rightarrow> ip_addr option"
  ce_lookup_host :: "string \<Rightarrow> nat \<Rightarrow> ip_addr list option"
  ce_parse_json :: "string \<Rightarrow> json option"
  ce_print_json :: "json \<Rightarrow> string"
  ce_sha256_hex :: "string \<Rightarrow> string"
  ce_sha256_u64 :: "string \<Rightarrow> u64"
  ce_ln :: "f64 \<Rightarrow> f64"
  ce_parse_overrides :: "string \<Rightarrow> (string option \<times> i64 option) option"

definition strip_suffix :: "string \<Rightarrow> string \<Rightarrow> string option" where
  "strip_suffix suf s = map_option rev (strip_prefix (rev suf) (rev s))"

definition ends_with :: "string \<Rightarrow> string \<Rightarrow> bool" where
  "ends_with s suf \<longleftrightarrow> strip_suffix suf s \<noteq> None"

definition parse_url_host_ip :: "(string \<Rightarrow> ip_addr option) \<Rightarrow> string \<Rightarrow> ip_addr option" where
  "parse_url_host_ip parse_ip host =
     parse_ip (case strip_prefix ''['' host of
        Some inner \<Rightarrow> (case strip_suffix '']'' inner of Some h \<Rightarrow> h | None \<Rightarrow> host)
      | None \<Rightarrow> host)"

definition validate_provider_url :: "custom_env \<Rightarrow> custom_provider \<Rightarrow> string \<Rightarrow> string + custom_url" where
  "validate_provider_url env provider endpoint_name =
     (case ce_parse_url env (cp_base_url provider) of
        None \<Rightarrow> Inl ''invalid provider URL''
      | Some url \<Rightarrow>
          if cu_username url \<noteq> '''' \<or> cu_password url \<noteq> None \<or> cu_query url \<noteq> None \<or> cu_fragment url \<noteq> None
          then Inl ''invalid provider URL''
          else if cu_scheme url \<noteq> ''https'' \<and> \<not> (cp_allow_private_hosts provider \<and> cu_scheme url = ''http'')
          then Inl ''provider URL must use HTTPS''
          else (case cu_host url of
             None \<Rightarrow> Inl ''provider URL has no host''
           | Some host \<Rightarrow>
               let private_host = str_lower host = ''localhost'' \<or> ends_with host ''.localhost'' \<or>
                     is_some_and (parse_url_host_ip (ce_parse_ip env) host) (\<lambda>ip. \<not> is_public_ip ip)
               in if private_host \<and> \<not> cp_allow_private_hosts provider then Inl ''private provider host is disabled''
                  else Inr (url\<lparr>cu_path := trim_end_by (\<lambda>c. c = CHR ''/'') (cu_path url) @ ''/'' @ endpoint_name\<rparr>)))"

definition validate_endpoint :: "custom_env \<Rightarrow> custom_provider \<Rightarrow> string + custom_url" where
  "validate_endpoint env provider =
     (if cp_wire_api provider = ''responses'' then validate_provider_url env provider ''responses''
      else if cp_wire_api provider = ''anthropic_messages'' then validate_provider_url env provider ''messages''
      else Inl ''unsupported provider wire protocol'')"

text \<open>A client is known by what pins its connections: the host it resolves by itself, if any, and the address.\<close>

record http_client =
  hc_connect_timeout_ms :: nat
  hc_pinned :: "(string \<times> ip_addr) option"

record cached_client =
  cc_client :: http_client
  cc_expires_at :: nat

type_synonym client_cache = "(string \<times> i64, cached_client) table"

definition http_client_dns_ttl :: nat where "http_client_dns_ttl = 300 * ns_per_sec"

definition pin_host :: "custom_env \<Rightarrow> custom_provider \<Rightarrow> custom_url \<Rightarrow> string + (string \<times> ip_addr) option" where
  "pin_host env provider endpoint =
     (if cp_allow_private_hosts provider then Inr None
      else case cu_host endpoint of
         None \<Rightarrow> Inl ''provider URL has no host''
       | Some host \<Rightarrow>
           if parse_url_host_ip (ce_parse_ip env) host \<noteq> None then Inr None
           else case cu_port endpoint of
              None \<Rightarrow> Inl ''provider URL has no port''
            | Some port \<Rightarrow> (case ce_lookup_host env host port of
                None \<Rightarrow> Inl ''provider host resolution failed''
              | Some addresses \<Rightarrow>
                  if addresses = [] \<or> list_ex (\<lambda>a. \<not> is_public_ip a) addresses
                  then Inl ''provider host resolved to a private address''
                  else Inr (Some (host, addresses ! 0))))"

definition http_client_at ::
  "custom_env \<Rightarrow> custom_provider \<Rightarrow> custom_url \<Rightarrow> nat \<Rightarrow> client_cache \<Rightarrow> (string + http_client) \<times> client_cache" where
  "http_client_at env provider endpoint now cache =
     (let key = (cp_id provider, cp_updated_at provider) in
      case opt_filter (\<lambda>c. now < cc_expires_at c) (tbl_get cache key) of
        Some cached \<Rightarrow> (Inr (cc_client cached), cache)
      | None \<Rightarrow>
          let cache = tbl_del cache key;
              timeout_ms = nat (max (cp_connect_timeout_ms provider) 100)
          in case pin_host env provider endpoint of
               Inl message \<Rightarrow> (Inl message, cache)
             | Inr pinned \<Rightarrow>
                 let client = \<lparr>hc_connect_timeout_ms = timeout_ms, hc_pinned = pinned\<rparr>
                 in (Inr client,
                     tbl_put (tbl_retain (\<lambda>k _. fst k \<noteq> cp_id provider) cache) key
                       \<lparr>cc_client = client, cc_expires_at = now + http_client_dns_ttl\<rparr>))"

definition evict_provider_client :: "string \<Rightarrow> client_cache \<Rightarrow> client_cache" where
  "evict_provider_client provider_id cache = tbl_retain (\<lambda>k _. fst k \<noteq> provider_id) cache"

section \<open>What a request needs\<close>

record capability_set =
  rq_priority :: bool
  rq_tools :: bool
  rq_vision :: bool
  rq_parallel_tool_calls :: bool
  rq_web_search :: bool
  rq_reasoning_summaries :: bool

definition no_capabilities :: capability_set where
  "no_capabilities = \<lparr>rq_priority = False, rq_tools = False, rq_vision = False,
     rq_parallel_tool_calls = False, rq_web_search = False, rq_reasoning_summaries = False\<rparr>"

definition jget_str :: "string \<Rightarrow> json \<Rightarrow> string option" where
  "jget_str k v = (case jget k v of Some w \<Rightarrow> as_str w | None \<Rightarrow> None)"

fun contains_image_input :: "json \<Rightarrow> bool" where
  "contains_image_input (JArr vs) = (\<exists>v \<in> set vs. contains_image_input v)"
| "contains_image_input (JObj kvs) =
     (is_some_and (jget_str ''type'' (JObj kvs)) (\<lambda>kind. kind \<in> {''input_image'', ''image'', ''image_url''}) \<or>
      (\<exists>kv \<in> set kvs. contains_image_input (snd kv)))"
| "contains_image_input _ = False"

lemma jget_size: "jget k v = Some w \<Longrightarrow> size w < size v"
proof (cases v)
  case (JObj kvs)
  assume "jget k v = Some w"
  with JObj have "(k, w) \<in> set kvs" by (simp add: map_of_SomeD)
  then have "size w < Suc (size_list (\<lambda>x. Suc (size (snd x))) kvs)"
    by (induction kvs) auto
  with JObj show ?thesis by (simp add: size_prod_simp)
qed auto

function contains_anthropic_content_image :: "json \<Rightarrow> bool" where
  "contains_anthropic_content_image content =
     (case content of
        JArr blocks \<Rightarrow> (\<exists>block \<in> set blocks.
          (case jget_str ''type'' block of
             None \<Rightarrow> False
           | Some kind \<Rightarrow> kind = ''image'' \<or>
               kind = ''tool_result'' \<and>
               (case jget ''content'' block of None \<Rightarrow> False | Some c \<Rightarrow> contains_anthropic_content_image c)))
      | _ \<Rightarrow> False)"
  by auto
termination
proof (relation "measure size", goal_cases)
  case 1
  then show ?case by simp
next
  case (2 content blocks block kind c)
  then have "size c < size block" "block \<in> set blocks" "content = JArr blocks" by (auto intro: jget_size)
  then show ?case using size_list_estimation' [of block blocks "size block" size] by simp
qed

declare contains_anthropic_content_image.simps [simp del]

definition contains_anthropic_message_image :: "json \<Rightarrow> bool" where
  "contains_anthropic_message_image messages = is_some_and (as_array messages)
     (list_ex (\<lambda>message. is_some_and (jget ''content'' message) contains_anthropic_content_image))"

abbreviation priority_tier :: "string \<Rightarrow> bool" where
  "priority_tier tier \<equiv> tier = ''priority'' \<or> tier = ''fast''"

definition capabilities_of :: "json \<Rightarrow> string \<Rightarrow> capability_set" where
  "capabilities_of obj wire_api =
     (let tool_list = (case jget ''tools'' obj of Some v \<Rightarrow> as_array v | None \<Rightarrow> None);
          tools = is_some_and tool_list (\<lambda>ts. ts \<noteq> []);
          web_search = is_some_and tool_list (list_ex (\<lambda>tool.
            is_some_and (jget_str ''type'' tool) (\<lambda>kind. starts_with ''web_search'' kind)));
          vision = (if wire_api = ''anthropic_messages''
            then is_some_and (jget ''messages'' obj) contains_anthropic_message_image
            else is_some_and (jget ''input'' obj) contains_image_input);
          summary = (case jget ''reasoning'' obj of Some r \<Rightarrow> jget ''summary'' r | None \<Rightarrow> None)
      in \<lparr>rq_priority = is_some_and (jget_str ''service_tier'' obj) priority_tier,
          rq_tools = tools,
          rq_vision = vision,
          rq_parallel_tool_calls = tools \<and>
            (case jget ''parallel_tool_calls'' obj of Some v \<Rightarrow> as_bool v = Some True | None \<Rightarrow> False),
          rq_web_search = web_search,
          rq_reasoning_summaries = is_some_and summary (\<lambda>s. s \<noteq> JNull \<and> as_str s \<noteq> Some ''none'')\<rparr>)"

definition request_capabilities :: "custom_env \<Rightarrow> string \<Rightarrow> string \<Rightarrow> capability_set" where
  "request_capabilities env raw_body wire_api =
     (case ce_parse_json env raw_body of
        Some (JObj kvs) \<Rightarrow> capabilities_of (JObj kvs) wire_api
      | _ \<Rightarrow> no_capabilities)"

definition without_priority_service_tier :: "custom_env \<Rightarrow> string \<Rightarrow> string option" where
  "without_priority_service_tier env raw_body =
     (case ce_parse_json env raw_body of
        Some (JObj kvs) \<Rightarrow>
          let obj = JObj kvs;
              obj' = (if is_some_and (jget_str ''service_tier'' obj) priority_tier then jremove ''service_tier'' obj else obj)
          in Some (ce_print_json env obj')
      | _ \<Rightarrow> None)"

definition priority_service_tiers :: json where
  "priority_service_tiers = JArr [JObj [
     (''description'', JStr ''Higher-priority provider inference''),
     (''id'', JStr ''priority''),
     (''name'', JStr ''Fast'')]]"

definition supports_priority_service_tier :: "custom_env \<Rightarrow> string option \<Rightarrow> bool" where
  "supports_priority_service_tier env model_info_json =
     is_some_and (Option.bind (Option.bind model_info_json (ce_parse_json env)) (jget ''service_tiers''))
       (\<lambda>tiers. tiers = priority_service_tiers)"

definition target_supports ::
  "custom_env \<Rightarrow> custom_provider \<Rightarrow> provider_model \<Rightarrow> string \<Rightarrow> capability_set \<Rightarrow> bool" where
  "target_supports env provider model wire_api required \<longleftrightarrow>
     cp_wire_api provider = wire_api \<and>
     (\<not> rq_priority required \<or> supports_priority_service_tier env (pm_model_info_json model)) \<and>
     (\<not> rq_tools required \<or> pm_supports_tools model) \<and>
     (\<not> rq_vision required \<or> pm_supports_vision model) \<and>
     (\<not> rq_parallel_tool_calls required \<or> pm_supports_parallel_tool_calls model) \<and>
     (\<not> rq_web_search required \<or> pm_supports_web_search model) \<and>
     (\<not> rq_reasoning_summaries required \<or> pm_supports_reasoning_summaries model)"

section \<open>Model profiles\<close>

text \<open>
  The hash of a profile names its revision. \<open>ce_parse_overrides\<close> reads \<open>ProfileRequestOverrides\<close>: the
  reasoning effort and the output limit.
\<close>

type_synonym json_object = "(string \<times> json) list"
type_synonym refusal = "u16 \<times> string"

definition profile_separator :: string where
  "profile_separator = [nl, nl] @ ''--- PolyFlare model profile ---'' @ [nl]"

definition profile_revision :: "custom_env \<Rightarrow> provider_model \<Rightarrow> string option" where
  "profile_revision env model =
     (if pm_instruction_mode model = ''none'' \<and> pm_instruction_text model = '''' \<and> pm_request_overrides_json model = ''{}''
      then None
      else Some (take 16 (ce_sha256_hex env (pm_instruction_mode model @ [CHR 0x00] @ pm_instruction_text model @
             [CHR 0x00] @ pm_request_overrides_json model))))"

definition is_text_or_null :: "json \<Rightarrow> bool" where
  "is_text_or_null v \<longleftrightarrow> v = JNull \<or> as_str v \<noteq> None"

text \<open>The instruction field of a body (\<open>instructions\<close> or \<open>system\<close>) under the profile's mode.\<close>

definition apply_instructions :: "string \<Rightarrow> provider_model \<Rightarrow> json_object \<Rightarrow> refusal + json_object" where
  "apply_instructions field model obj =
     (let mode = pm_instruction_mode model; text = pm_instruction_text model in
      if mode = ''none'' \<and> text = '''' then Inr obj
      else if mode = ''append'' then
        let old = unwrap_or (Option.bind (map_of obj field) as_str) ''''
        in Inr (obj_put field (JStr (if old = '''' then text else old @ profile_separator @ text)) obj)
      else if mode = ''replace'' then Inr (obj_put field (JStr text) obj)
      else Inl (500, ''invalid provider model profile''))"

definition apply_model_profile ::
  "custom_env \<Rightarrow> provider_model \<Rightarrow> json_object \<Rightarrow> refusal + string option \<times> json_object" where
  "apply_model_profile env model obj =
     (case profile_revision env model of
        None \<Rightarrow> Inr (None, obj)
      | Some revision \<Rightarrow>
          if is_some_and (map_of obj ''instructions'') (\<lambda>v. \<not> is_text_or_null v)
          then Inl (400, ''instructions must be a string for this model profile'')
          else (case apply_instructions ''instructions'' model obj of
             Inl e \<Rightarrow> Inl e
           | Inr obj \<Rightarrow> (case ce_parse_overrides env (pm_request_overrides_json model) of
                None \<Rightarrow> Inl (500, ''invalid provider model profile'')
              | Some (effort, max_output) \<Rightarrow>
                  let limited = (\<lambda>obj. case max_output of None \<Rightarrow> obj | Some n \<Rightarrow> obj_put ''max_output_tokens'' (JInt n) obj)
                  in case effort of
                       None \<Rightarrow> Inr (Some revision, limited obj)
                     | Some e \<Rightarrow> (case unwrap_or (map_of obj ''reasoning'') (JObj []) of
                           JObj reasoning \<Rightarrow>
                             Inr (Some revision,
                               limited (obj_put ''reasoning'' (JObj (obj_put ''effort'' (JStr e) reasoning)) obj))
                         | _ \<Rightarrow> Inl (400, ''reasoning must be an object for this model profile'')))))"

definition apply_anthropic_model_profile ::
  "custom_env \<Rightarrow> provider_model \<Rightarrow> json_object \<Rightarrow> refusal + string option \<times> json_object" where
  "apply_anthropic_model_profile env model obj =
     (case profile_revision env model of
        None \<Rightarrow> Inr (None, obj)
      | Some revision \<Rightarrow>
          if is_some_and (map_of obj ''system'') (\<lambda>v. \<not> is_text_or_null v)
          then Inl (400, ''system must be a string for this model profile'')
          else (case apply_instructions ''system'' model obj of
             Inl e \<Rightarrow> Inl e
           | Inr obj \<Rightarrow> (case ce_parse_overrides env (pm_request_overrides_json model) of
                None \<Rightarrow> Inl (500, ''invalid provider model profile'')
              | Some (effort, max_output) \<Rightarrow>
                  if effort \<noteq> None then Inl (400, ''reasoning effort is unavailable for Anthropic Messages providers'')
                  else Inr (Some revision,
                    case max_output of None \<Rightarrow> obj | Some n \<Rightarrow> obj_put ''max_tokens'' (JInt n) obj))))"

text \<open>What is sent: the upstream's name of the model, no anchor for a stateless provider, the profile.\<close>

definition custom_body ::
  "custom_env \<Rightarrow> custom_provider \<Rightarrow> provider_model \<Rightarrow> string \<Rightarrow> refusal + string option \<times> json" where
  "custom_body env provider model raw_body =
     (case ce_parse_json env raw_body of
        Some (JObj kvs) \<Rightarrow>
          let obj = obj_put ''model'' (JStr (pm_upstream_model model)) kvs;
              obj = (if cp_wire_api provider = ''responses'' \<and> cp_stateless_responses provider
                     then AList.delete ''previous_response_id'' obj else obj)
          in (case (if cp_wire_api provider = ''anthropic_messages'' then apply_anthropic_model_profile env model obj
                    else apply_model_profile env model obj) of
                Inl e \<Rightarrow> Inl e
              | Inr (revision, obj) \<Rightarrow> Inr (revision, JObj obj))
      | _ \<Rightarrow> Inl (400, ''invalid JSON body''))"

end
