(* ===== verification/Custom_Routing.thy ===== *)
theory Custom_Routing
  imports Custom_Targets
begin

text \<open>
  Operator-defined upstreams, second part (\<open>polyflare-server/src/custom_provider.rs\<close>): the two bounded caches
  behind the choice of a target, the choice of a credential under its concurrency limits, the ranking of the
  targets, and the observer that decides whether a stream ended well. Instants are nanoseconds.
\<close>

section \<open>The affinity cache\<close>

record affinity_target =
  at_provider_id :: string
  at_credential_id :: string
  at_last_success :: nat

record affinity_cache =
  ac_entries :: "(string, affinity_target) table"
  ac_ttl :: nat
  ac_max_entries :: nat

definition custom_affinity_ttl :: nat where "custom_affinity_ttl = 30 * 60 * ns_per_sec"
definition max_custom_affinities :: nat where "max_custom_affinities = 10000"

text \<open>Both caches drop the entry with the least instant when full; \<open>min_by_key\<close> takes the first of equals.\<close>

definition drop_oldest :: "('v \<Rightarrow> nat) \<Rightarrow> (string, 'v) table \<Rightarrow> (string, 'v) table" where
  "drop_oldest stamp entries =
     (case min_by (\<lambda>a b. cmp_lin (stamp (snd a)) (stamp (snd b))) entries of
        None \<Rightarrow> entries
      | Some (oldest, _) \<Rightarrow> tbl_del entries oldest)"

definition make_room :: "('v \<Rightarrow> nat) \<Rightarrow> nat \<Rightarrow> string \<Rightarrow> (string, 'v) table \<Rightarrow> (string, 'v) table" where
  "make_room stamp max_entries key entries =
     (if tbl_get entries key = None \<and> max_entries \<le> length entries then drop_oldest stamp entries else entries)"

definition affinity_prune :: "nat \<Rightarrow> affinity_cache \<Rightarrow> affinity_cache" where
  "affinity_prune now cache =
     cache\<lparr>ac_entries := tbl_retain (\<lambda>_ target. now - at_last_success target < ac_ttl cache) (ac_entries cache)\<rparr>"

definition affinity_get :: "string \<Rightarrow> nat \<Rightarrow> affinity_cache \<Rightarrow> affinity_target option \<times> affinity_cache" where
  "affinity_get key now cache =
     (let cache = affinity_prune now cache in (tbl_get (ac_entries cache) key, cache))"

definition affinity_record :: "string \<Rightarrow> string \<Rightarrow> string \<Rightarrow> nat \<Rightarrow> affinity_cache \<Rightarrow> affinity_cache" where
  "affinity_record key provider_id credential_id now cache =
     (let cache = affinity_prune now cache in
      if ac_max_entries cache = 0 then cache
      else cache\<lparr>ac_entries := tbl_put (make_room at_last_success (ac_max_entries cache) key (ac_entries cache)) key
             \<lparr>at_provider_id = provider_id, at_credential_id = credential_id, at_last_success = now\<rparr>\<rparr>)"

section \<open>Smooth weighted round robin\<close>

record smooth_state =
  sw_current :: "(string, f64) table"
  sw_last_used :: nat

record smooth_cache =
  sc_entries :: "(string, smooth_state) table"
  sc_ttl :: nat
  sc_max_entries :: nat

definition custom_fair_routing_ttl :: nat where "custom_fair_routing_ttl = 30 * 60 * ns_per_sec"
definition max_custom_fair_routing_scopes :: nat where "max_custom_fair_routing_scopes = 10000"

definition smooth_prune :: "nat \<Rightarrow> smooth_cache \<Rightarrow> smooth_cache" where
  "smooth_prune now cache =
     cache\<lparr>sc_entries := tbl_retain (\<lambda>_ state. now - sw_last_used state < sc_ttl cache) (sc_entries cache)\<rparr>"

record smooth_loop =
  sl_current :: "(string, f64) table"
  sl_total :: f64
  sl_selected :: "(string \<times> f64) option"

text \<open>One candidate of the loop: its current value grows by its weight; the first greatest is selected.\<close>

definition smooth_visit :: "string \<times> f64 \<Rightarrow> smooth_loop \<Rightarrow> smooth_loop" where
  "smooth_visit candidate l =
     (case candidate of (cid, weight) \<Rightarrow>
        let current = fadd (unwrap_or (tbl_get (sl_current l) cid) (F_Num 0)) weight;
            better = (case sl_selected l of
              None \<Rightarrow> True
            | Some (sel_id, sel_current) \<Rightarrow> sel_current < current \<or> current = sel_current \<and> cid < sel_id)
        in \<lparr>sl_current = tbl_put (sl_current l) cid current,
            sl_total = fadd (sl_total l) weight,
            sl_selected = (if better then Some (cid, current) else sl_selected l)\<rparr>)"

definition smooth_candidates :: "(string \<times> f64) list \<Rightarrow> (string \<times> f64) list" where
  "smooth_candidates candidates =
     sort_by (\<lambda>a b. cmp_lin (fst a) (fst b)) (filter (\<lambda>(_, weight). is_fin weight \<and> fgt weight (F_Num 0)) candidates)"

definition smooth_round :: "(string \<times> f64) list \<Rightarrow> (string, f64) table \<Rightarrow> string option \<times> (string, f64) table" where
  "smooth_round candidates current =
     (let current = tbl_retain (\<lambda>cid _. cid \<in> fst ` set candidates) current;
          l = fold smooth_visit candidates \<lparr>sl_current = current, sl_total = F_Num 0, sl_selected = None\<rparr>
      in case sl_selected l of
           None \<Rightarrow> (None, sl_current l)
         | Some (cid, _) \<Rightarrow> (Some cid, (case tbl_get (sl_current l) cid of
               Some c \<Rightarrow> tbl_put (sl_current l) cid (fsub c (sl_total l)) | None \<Rightarrow> sl_current l)))"

definition smooth_select ::
  "string \<Rightarrow> (string \<times> f64) list \<Rightarrow> nat \<Rightarrow> smooth_cache \<Rightarrow> string option \<times> smooth_cache" where
  "smooth_select scope candidates now cache =
     (let cache = smooth_prune now cache in
      if sc_max_entries cache = 0 \<or> candidates = [] then (None, cache)
      else let entries = make_room sw_last_used (sc_max_entries cache) scope (sc_entries cache);
               candidates = smooth_candidates candidates
        in if candidates = [] then (None, cache\<lparr>sc_entries := entries\<rparr>)
           else let state = unwrap_or (tbl_get entries scope) \<lparr>sw_current = [], sw_last_used = now\<rparr>
             in case smooth_round candidates (sw_current state) of
                  (selected, current) \<Rightarrow>
                    (selected, cache\<lparr>sc_entries := tbl_put entries scope \<lparr>sw_current = current, sw_last_used = now\<rparr>\<rparr>))"

section \<open>Credentials\<close>

type_synonym in_flight = "(string, usize) table"

text \<open>The count of a credential, and \<open>limit as usize\<close>.\<close>

definition flying :: "in_flight \<Rightarrow> string \<Rightarrow> usize" where
  "flying in_flight cid = unwrap_or (tbl_get in_flight cid) 0"

definition usize_of_i64 :: "i64 \<Rightarrow> usize" where
  "usize_of_i64 n = nat (n mod 2 ^ 64)"

definition credential_is_eligible :: "provider_credential \<Rightarrow> string list \<Rightarrow> i64 \<Rightarrow> in_flight \<Rightarrow> bool" where
  "credential_is_eligible credential tried now in_flight \<longleftrightarrow>
     pc_enabled credential \<and> pc_id credential \<notin> set tried \<and>
     (pc_health_status credential = ''healthy'' \<or>
      (pc_health_status credential = ''cooldown'' \<and> is_some_and (pc_cooldown_until credential) (\<lambda>until. until \<le> now))) \<and>
     \<not> is_some_and (pc_max_concurrency credential) (\<lambda>limit. usize_of_i64 limit \<le> flying in_flight (pc_id credential))"

definition credential_pressure :: "provider_credential \<Rightarrow> in_flight \<Rightarrow> f64" where
  "credential_pressure credential in_flight =
     fdiv (f64_of_nat (flying in_flight (pc_id credential))) (pc_routing_weight credential)"

definition provider_flying :: "in_flight \<Rightarrow> provider_credential list \<Rightarrow> usize" where
  "provider_flying in_flight credentials = sum_list (map (\<lambda>c. flying in_flight (pc_id c)) credentials)"

definition best_credential ::
  "custom_provider \<Rightarrow> provider_credential list \<Rightarrow> string list \<Rightarrow> string option \<Rightarrow> i64 \<Rightarrow> in_flight
   \<Rightarrow> (provider_credential \<times> f64) option" where
  "best_credential provider credentials tried preferred now in_flight =
     (if is_some_and (cp_max_concurrency provider) (\<lambda>limit. usize_of_i64 limit \<le> provider_flying in_flight credentials)
      then None
      else let eligible = filter (\<lambda>c. credential_is_eligible c tried now in_flight) credentials
        in map_option (\<lambda>c. (c, credential_pressure c in_flight))
             (opt_or (Option.bind preferred (\<lambda>p. find (\<lambda>c. pc_id c = p) eligible))
               (min_by (\<lambda>a b. then_cmp
                   (total_cmp64 (credential_pressure a in_flight) (credential_pressure b in_flight))
                   (cmp_lin (pc_id a) (pc_id b))) eligible)))"

definition acquire_credential ::
  "custom_provider \<Rightarrow> provider_credential list \<Rightarrow> string list \<Rightarrow> string option \<Rightarrow> i64 \<Rightarrow> in_flight
   \<Rightarrow> provider_credential option \<times> in_flight" where
  "acquire_credential provider credentials tried preferred now in_flight =
     (case best_credential provider credentials tried preferred now in_flight of
        None \<Rightarrow> (None, in_flight)
      | Some (candidate, _) \<Rightarrow>
          (Some candidate, tbl_put in_flight (pc_id candidate) (Suc (flying in_flight (pc_id candidate)))))"

text \<open>The drop of a \<open>CredentialLease\<close>.\<close>

definition drop_credential_lease :: "string \<Rightarrow> in_flight \<Rightarrow> in_flight" where
  "drop_credential_lease cid in_flight =
     (case tbl_get in_flight cid of
        None \<Rightarrow> in_flight
      | Some uses \<Rightarrow> if uses - 1 = 0 then tbl_del in_flight cid else tbl_put in_flight cid (uses - 1))"

text \<open>\<open>set_credential_health\<close>: the update of one row of the store.\<close>

definition set_credential_health ::
  "string \<Rightarrow> string \<Rightarrow> i64 option \<Rightarrow> i64 \<Rightarrow> provider_credential list \<Rightarrow> provider_credential list" where
  "set_credential_health cid health cooldown now rows =
     (if health \<notin> {''healthy'', ''cooldown'', ''reauth_required'', ''disabled''} then rows
      else map (\<lambda>c. if pc_id c = cid
        then c\<lparr>pc_health_status := health, pc_cooldown_until := cooldown,
               pc_last_error_at := (if health = ''healthy'' then pc_last_error_at c else Some now),
               pc_updated_at := now\<rparr>
        else c) rows)"

definition list_credentials :: "string \<Rightarrow> provider_credential list \<Rightarrow> provider_credential list" where
  "list_credentials provider_id rows =
     sort_by (\<lambda>a b. then_cmp (cmp_lin (pc_label a) (pc_label b)) (cmp_lin (pc_id a) (pc_id b)))
       (filter (\<lambda>c. pc_provider_id c = provider_id) rows)"

section \<open>Ranking\<close>

record ranked_target =
  rk_pressure :: f64
  rk_routing_weight :: f64
  rk_routing_id :: string
  rk_provider :: custom_provider
  rk_model :: provider_model
  rk_preferred :: "string option"

definition flag_byte :: "bool \<Rightarrow> char" where "flag_byte b = (if b then CHR 0x01 else CHR 0x00)"

definition fair_routing_scope :: "custom_env \<Rightarrow> string \<Rightarrow> string \<Rightarrow> capability_set \<Rightarrow> string" where
  "fair_routing_scope env public_model wire_api required =
     ce_sha256_hex env (''polyflare-custom-fair-routing-v1'' @ [CHR 0x00] @ public_model @ [CHR 0x00] @ wire_api @ [CHR 0x00] @
       map flag_byte [rq_priority required, rq_tools required, rq_vision required, rq_parallel_tool_calls required,
         rq_web_search required, rq_reasoning_summaries required])"

definition weighted_rendezvous_score :: "custom_env \<Rightarrow> string \<Rightarrow> string \<Rightarrow> f64 \<Rightarrow> f64" where
  "weighted_rendezvous_score env selection_key candidate_id weight =
     (let sample = ce_sha256_u64 env (''polyflare-custom-weighted-rendezvous-v1'' @ [CHR 0x00] @ selection_key @ [CHR 0x00] @ candidate_id);
          unit = fdiv (fadd (f64_of_nat sample) (flit 1)) (fadd (f64_of_nat u64_max) (flit 2))
      in fdiv (fneg (ce_ln env unit)) weight)"

definition routing_id :: "custom_provider \<Rightarrow> provider_model \<Rightarrow> string" where
  "routing_id provider model = cp_id provider @ [CHR 0x00] @ pm_id model"

text \<open>One target of the ranking loop, with the credentials read for it.\<close>

definition rank_target ::
  "affinity_target option \<Rightarrow> i64 \<Rightarrow> in_flight \<Rightarrow> custom_provider \<Rightarrow> provider_model \<Rightarrow> provider_credential list
   \<Rightarrow> ranked_target option" where
  "rank_target affinity now in_flight provider model credentials =
     (let preferred = map_option at_credential_id (opt_filter (\<lambda>t. at_provider_id t = cp_id provider) affinity)
      in map_option (\<lambda>(credential, score).
           \<lparr>rk_pressure = score,
            rk_routing_weight = fold (\<lambda>c acc. fadd acc (pc_routing_weight c))
              (filter (\<lambda>c. credential_pressure c in_flight = score)
                (filter (\<lambda>c. credential_is_eligible c [] now in_flight) credentials)) F_NZero,
            rk_routing_id = routing_id provider model,
            rk_provider = provider, rk_model = model,
            rk_preferred = (if preferred = Some (pc_id credential) then Some (pc_id credential) else None)\<rparr>)
         (best_credential provider credentials [] preferred now in_flight))"

definition by_target :: "ranked_target \<Rightarrow> ranked_target \<Rightarrow> ordering" where
  "by_target a b = then_cmp (cmp_lin (cp_id (rk_provider a)) (cp_id (rk_provider b)))
     (cmp_lin (pm_id (rk_model a)) (pm_id (rk_model b)))"

definition by_pressure :: "ranked_target \<Rightarrow> ranked_target \<Rightarrow> ordering" where
  "by_pressure a b = total_cmp64 (rk_pressure a) (rk_pressure b)"

definition affine_order :: "ranked_target \<Rightarrow> ranked_target \<Rightarrow> ordering" where
  "affine_order a b = then_cmp (cmp_lin (rk_preferred a = None) (rk_preferred b = None))
     (then_cmp (by_pressure a b) (by_target a b))"

definition keyed_order :: "custom_env \<Rightarrow> string \<Rightarrow> ranked_target \<Rightarrow> ranked_target \<Rightarrow> ordering" where
  "keyed_order env key a b =
     (let score = (\<lambda>t. weighted_rendezvous_score env key (rk_routing_id t) (rk_routing_weight t))
      in then_cmp (by_pressure a b) (then_cmp (total_cmp64 (score a) (score b)) (by_target a b)))"

definition fair_order :: "string option \<Rightarrow> ranked_target \<Rightarrow> ranked_target \<Rightarrow> ordering" where
  "fair_order selected a b =
     then_cmp (cmp_lin (selected \<noteq> Some (rk_routing_id a)) (selected \<noteq> Some (rk_routing_id b)))
       (then_cmp (by_pressure a b) (by_target a b))"

definition order_targets ::
  "custom_env \<Rightarrow> string \<Rightarrow> string option \<Rightarrow> nat \<Rightarrow> ranked_target list \<Rightarrow> smooth_cache
   \<Rightarrow> ranked_target list \<times> smooth_cache" where
  "order_targets env scope selection_key now candidates cache =
     (if list_ex (\<lambda>c. rk_preferred c \<noteq> None) candidates then (sort_by affine_order candidates, cache)
      else case selection_key of
        Some key \<Rightarrow> (sort_by (keyed_order env key) candidates, cache)
      | None \<Rightarrow> (case min_by total_cmp64 (map rk_pressure candidates) of
            None \<Rightarrow> (candidates, cache)
          | Some least \<Rightarrow>
              let fair = map (\<lambda>c. (rk_routing_id c, rk_routing_weight c))
                    (filter (\<lambda>c. rk_pressure c = least) candidates)
              in (case smooth_select scope fair now cache of
                    (selected, cache) \<Rightarrow> (sort_by (fair_order selected) candidates, cache))))"

section \<open>The completion observer\<close>

record completion_observer =
  co_wire_api :: string
  co_event_stream :: bool
  co_pending :: string
  co_skipping :: bool
  co_terminal_success :: bool

definition max_affinity_sse_line_bytes :: nat where "max_affinity_sse_line_bytes = 1024 * 1024"

definition completion_new :: "string \<Rightarrow> bool \<Rightarrow> completion_observer" where
  "completion_new wire_api event_stream =
     \<lparr>co_wire_api = wire_api, co_event_stream = event_stream, co_pending = [], co_skipping = False,
      co_terminal_success = False\<rparr>"

text \<open>The event a line carries, when it is a data line with JSON in it.\<close>

definition line_event :: "(string \<Rightarrow> json option) \<Rightarrow> string \<Rightarrow> json option" where
  "line_event parse line =
     (case strip_prefix ''data:'' (unwrap_or (strip_suffix [CHR 0x0D] line) line) of
        None \<Rightarrow> None
      | Some data \<Rightarrow> parse (unwrap_or (strip_prefix '' '' data) data))"

definition ends_well :: "string \<Rightarrow> json \<Rightarrow> bool" where
  "ends_well wire_api event =
     (if wire_api = ''responses'' then jget_str ''type'' event = Some ''response.completed''
      else if wire_api = ''anthropic_messages'' then jget_str ''type'' event = Some ''message_stop''
      else False)"

definition completion_line :: "(string \<Rightarrow> json option) \<Rightarrow> string \<Rightarrow> completion_observer \<Rightarrow> completion_observer" where
  "completion_line parse line co =
     (case line_event parse line of
        None \<Rightarrow> co
      | Some event \<Rightarrow> co\<lparr>co_terminal_success := ends_well (co_wire_api co) event\<rparr>)"

definition completion_byte :: "(string \<Rightarrow> json option) \<Rightarrow> char \<Rightarrow> completion_observer \<Rightarrow> completion_observer" where
  "completion_byte parse b co =
     (if co_skipping co then (if b = nl then co\<lparr>co_skipping := False\<rparr> else co)
      else if b = nl then completion_line parse (co_pending co) (co\<lparr>co_pending := []\<rparr>)
      else if length (co_pending co) < max_affinity_sse_line_bytes then co\<lparr>co_pending := co_pending co @ [b]\<rparr>
      else co\<lparr>co_pending := [], co_skipping := True\<rparr>)"

definition completion_observe :: "(string \<Rightarrow> json option) \<Rightarrow> string \<Rightarrow> completion_observer \<Rightarrow> completion_observer" where
  "completion_observe parse chunk co =
     (if \<not> co_event_stream co \<or> co_terminal_success co then co else fold (completion_byte parse) chunk co)"

definition completed_cleanly :: "(string \<Rightarrow> json option) \<Rightarrow> completion_observer \<Rightarrow> bool" where
  "completed_cleanly parse co =
     (let co = (if co_event_stream co \<and> co_pending co \<noteq> [] \<and> \<not> co_skipping co
                then completion_line parse (co_pending co) (co\<lparr>co_pending := []\<rparr>) else co)
      in \<not> co_event_stream co \<or> co_terminal_success co)"

end
