(* ===== verification/Session_Keys.thy ===== *)
theory Session_Keys
  imports Sse
begin

text \<open>
  What the ingress reads out of a request before routing it (\<open>polyflare-server/src/session_key.rs\<close>): the session
  key with its strength, the key of the attempt budget, the shape of the input and the estimate of its tokens.
  The body is a map of raw fields, as in the source. Header lookup (\<open>HeaderMap::get\<close> followed by \<open>to_str\<close>), the
  JSON parsers and printer and sha256 are parameters.
\<close>

section \<open>The request\<close>

type_synonym headers = "string \<Rightarrow> string option"
type_synonym raw_value = string
type_synonym raw_fields = "string \<Rightarrow> raw_value option"

record inbound_env =
  ie_object :: "string \<Rightarrow> raw_fields option"
  ie_array :: "string \<Rightarrow> raw_value list option"
  ie_string :: "string \<Rightarrow> string option"
  ie_bool :: "string \<Rightarrow> bool option"
  ie_u64 :: "string \<Rightarrow> u64 option"
  ie_value :: "string \<Rightarrow> json option"
  ie_print :: "json \<Rightarrow> string"
  ie_sha256_hex :: "string \<Rightarrow> string"

definition session_id_from_headers :: "headers \<Rightarrow> string option" where
  "session_id_from_headers h = opt_or (opt_or (h ''session-id'') (h ''session_id'')) (h ''x-session-id'')"

definition thread_id_from_headers :: "headers \<Rightarrow> string option" where
  "thread_id_from_headers h = opt_or (h ''thread-id'') (h ''x-codex-thread-id'')"

definition raw_as_str :: "inbound_env \<Rightarrow> raw_value option \<Rightarrow> string option" where
  "raw_as_str env rv = Option.bind rv (ie_string env)"

section \<open>The turn\<close>

definition max_turn_id_bytes :: usize where "max_turn_id_bytes = 256"

definition bounded_turn_id :: "string option \<Rightarrow> string option" where
  "bounded_turn_id v = opt_filter (\<lambda>turn_id. turn_id \<noteq> '''' \<and> length turn_id \<le> max_turn_id_bytes) v"

definition turn_id_from_metadata_json :: "inbound_env \<Rightarrow> string \<Rightarrow> string option" where
  "turn_id_from_metadata_json env raw =
     (case ie_object env raw of
        None \<Rightarrow> None
      | Some metadata \<Rightarrow> bounded_turn_id (raw_as_str env (metadata ''turn_id'')))"

definition turn_id_from_client_metadata :: "inbound_env \<Rightarrow> raw_value option \<Rightarrow> string option" where
  "turn_id_from_client_metadata env raw =
     (case Option.bind raw (ie_object env) of
        None \<Rightarrow> None
      | Some metadata \<Rightarrow>
          let blob = (case metadata ''x-codex-turn-metadata'' of
                None \<Rightarrow> None
              | Some projected \<Rightarrow> (case ie_string env projected of
                    Some json_string \<Rightarrow> turn_id_from_metadata_json env json_string
                  | None \<Rightarrow> turn_id_from_metadata_json env projected))
          in opt_or blob (bounded_turn_id (raw_as_str env (metadata ''turn_id''))))"

text \<open>Decimal printing of a count (\<open>format!\<close>).\<close>

fun decimal :: "nat \<Rightarrow> string" where
  "decimal n = (if n < 10 then [char_of (48 + n)] else decimal (n div 10) @ [char_of (48 + n mod 10)])"

declare decimal.simps [simp del]

definition round_mark :: "string option \<Rightarrow> u32 \<Rightarrow> string" where
  "round_mark previous_response_id input_count =
     (case previous_response_id of Some anchor \<Rightarrow> ''a:'' @ anchor | None \<Rightarrow> ''n:'' @ decimal input_count)"

definition string_tuple :: "string list \<Rightarrow> json" where
  "string_tuple ws = JArr (map JStr ws)"

definition turn_identity :: "headers \<Rightarrow> string option \<Rightarrow> string \<Rightarrow> string \<Rightarrow> string list" where
  "turn_identity h pool turn_id mark =
     [''codex-logical-turn-v2'', unwrap_or pool '''', unwrap_or (session_id_from_headers h) '''',
      unwrap_or (thread_id_from_headers h) '''', turn_id, mark]"

definition projected_turn_id :: "inbound_env \<Rightarrow> headers \<Rightarrow> raw_value option \<Rightarrow> string option" where
  "projected_turn_id env h client_metadata =
     opt_or (turn_id_from_client_metadata env client_metadata)
       (Option.bind (h ''x-codex-turn-metadata'') (turn_id_from_metadata_json env))"

definition inbound_turn_key ::
  "inbound_env \<Rightarrow> headers \<Rightarrow> raw_value option \<Rightarrow> string option \<Rightarrow> u32 \<Rightarrow> string option \<Rightarrow> string option" where
  "inbound_turn_key env h client_metadata previous_response_id input_count pool =
     map_option (\<lambda>turn_id. ie_sha256_hex env (ie_print env (string_tuple
         (turn_identity h pool turn_id (round_mark previous_response_id input_count)))))
       (projected_turn_id env h client_metadata)"

section \<open>Size and shape\<close>

definition effort_from_reasoning :: "inbound_env \<Rightarrow> raw_value option \<Rightarrow> string option" where
  "effort_from_reasoning env rv =
     (case Option.bind rv (ie_value env) of None \<Rightarrow> None | Some v \<Rightarrow> Option.bind (jget ''effort'' v) as_str)"

definition estimate_tokens_from_json_len :: "usize \<Rightarrow> u64 \<Rightarrow> u32" where
  "estimate_tokens_from_json_len input_json_len output_tokens =
     min (add_u64 (div_ceil input_json_len 4) (mul_u64 (min output_tokens 131072) 4)) 1000000"

definition estimate_request_tokens :: "inbound_env \<Rightarrow> raw_value option \<Rightarrow> raw_value option \<Rightarrow> u32" where
  "estimate_request_tokens env input max_output_tokens =
     estimate_tokens_from_json_len (case input of None \<Rightarrow> 0 | Some raw \<Rightarrow> length raw)
       (unwrap_or (Option.bind max_output_tokens (ie_u64 env)) 4096)"

text \<open>\<open>chars().count()\<close>: the bytes of a well-formed text that do not continue a sequence.\<close>

definition code_points :: "string \<Rightarrow> nat" where
  "code_points s = length (filter (\<lambda>c. \<not> in_range 0x80 0xBF c) s)"

definition input_shape :: "inbound_env \<Rightarrow> raw_value option \<Rightarrow> u32 \<times> bool" where
  "input_shape env input =
     (case input of
        None \<Rightarrow> (0, False)
      | Some txt \<Rightarrow>
          (case dropWhile is_ws txt of
             CHR ''['' # _ \<Rightarrow>
               (case ie_array env txt of
                  Some items \<Rightarrow> (length items mod 2 ^ 32,
                    if 2 \<le> length items then True
                    else if length items = 1 then
                      (case ie_value env (items ! 0) of Some v \<Rightarrow> 4096 \<le> code_points (ie_print env v) | None \<Rightarrow> False)
                    else False)
                | None \<Rightarrow> (1, False))
           | CHR 0x22 # _ \<Rightarrow> (1, (case ie_string env txt of Some s \<Rightarrow> 4096 \<le> code_points s | None \<Rightarrow> False))
           | _ \<Rightarrow> (1, False)))"

section \<open>The session key\<close>

definition hard_key :: "inbound_env \<Rightarrow> string list \<Rightarrow> session_key" where
  "hard_key env tuple = \<lparr>sk_value = ie_sha256_hex env (ie_print env (string_tuple tuple)), sk_strength = Hard\<rparr>"

definition conversation_identity :: "headers \<Rightarrow> string option \<Rightarrow> string list" where
  "conversation_identity h pool =
     [''codex-conversation-v1'', unwrap_or pool '''', unwrap_or (session_id_from_headers h) '''',
      unwrap_or (thread_id_from_headers h) '''']"

definition header_session_key_scoped ::
  "inbound_env \<Rightarrow> headers \<Rightarrow> string option \<Rightarrow> string option \<Rightarrow> session_key option" where
  "header_session_key_scoped env h prompt_cache_key pool =
     (if session_id_from_headers h \<noteq> None \<or> thread_id_from_headers h \<noteq> None
      then Some (hard_key env (conversation_identity h pool))
      else case h ''x-codex-turn-state'' of
        Some ts \<Rightarrow> Some (hard_key env [''codex-turn-v1'', unwrap_or pool '''', ts, unwrap_or prompt_cache_key ''''])
      | None \<Rightarrow> None)"

definition header_session_key :: "inbound_env \<Rightarrow> headers \<Rightarrow> string option \<Rightarrow> session_key option" where
  "header_session_key env h prompt_cache_key = header_session_key_scoped env h prompt_cache_key None"

definition derive_session_key ::
  "inbound_env \<Rightarrow> headers \<Rightarrow> string option \<Rightarrow> raw_value option \<Rightarrow> string option \<Rightarrow> session_key" where
  "derive_session_key env h prompt_cache_key input pool =
     (case header_session_key_scoped env h prompt_cache_key pool of
        Some hard \<Rightarrow> hard
      | None \<Rightarrow>
          let soft = unwrap_or (opt_or (h ''x-request-id'') prompt_cache_key) (unwrap_or input '''')
          in \<lparr>sk_value = ie_sha256_hex env (ie_print env (string_tuple [''codex-soft-v1'', unwrap_or pool '''', soft])),
              sk_strength = Soft\<rparr>)"

section \<open>The parse\<close>

record inbound_facts =
  if_event_type :: "string option"
  if_model :: string
  if_effort :: "string option"
  if_service_tier :: "string option"
  if_ctx :: request_ctx

definition parse_inbound_scoped :: "inbound_env \<Rightarrow> headers \<Rightarrow> string \<Rightarrow> string option \<Rightarrow> inbound_facts option" where
  "parse_inbound_scoped env h raw pool =
     map_option (\<lambda>field.
       let (input_count, is_full_resend) = input_shape env (field ''input'');
           prompt_cache_key = raw_as_str env (field ''prompt_cache_key'');
           generate = unwrap_or (Option.bind (field ''generate'') (ie_bool env)) True;
           anchor = raw_as_str env (field ''previous_response_id'')
       in \<lparr>if_event_type = raw_as_str env (field ''type''),
           if_model = unwrap_or (raw_as_str env (field ''model'')) '''',
           if_effort = effort_from_reasoning env (field ''reasoning''),
           if_service_tier = raw_as_str env (field ''service_tier''),
           if_ctx = \<lparr>
             rc_session_id = session_id_from_headers h,
             rc_session_key = Some (derive_session_key env h prompt_cache_key (field ''input'') pool),
             rc_logical_turn_key = (if generate
               then inbound_turn_key env h (field ''client_metadata'') anchor input_count pool else None),
             rc_client_previous_response_id = anchor,
             rc_is_full_resend = is_full_resend,
             rc_input_count = input_count,
             rc_estimated_tokens = estimate_request_tokens env (field ''input'') (field ''max_output_tokens''),
             rc_subagent = h ''x-openai-subagent'',
             rc_conn_discriminator = h ''x-codex-window-id''\<rparr>\<rparr>)
       (ie_object env raw)"

definition parse_inbound :: "inbound_env \<Rightarrow> headers \<Rightarrow> string \<Rightarrow> inbound_facts option" where
  "parse_inbound env h raw = parse_inbound_scoped env h raw None"

section \<open>Identities are told apart\<close>

lemma decimal_digits: "c \<in> set (decimal n) \<Longrightarrow> 48 \<le> (of_char c :: nat) \<and> (of_char c :: nat) \<le> 57"
proof (induction n rule: decimal.induct)
  case (1 n)
  then show ?case by (auto simp: decimal.simps [of n] split: if_splits)
qed

lemma decimal_inj: "decimal m = decimal n \<Longrightarrow> m = n"
proof (induction m arbitrary: n rule: decimal.induct)
  case (1 m)
  have ne: "decimal k \<noteq> []" "[] \<noteq> decimal k" for k by (simp_all add: decimal.simps [of k])
  have digit: "char_of (48 + a) = (char_of (48 + b) :: char) \<Longrightarrow> a < 10 \<Longrightarrow> b < 10 \<Longrightarrow> a = b" for a b :: nat
    using arg_cong [of "char_of (48 + a)" "char_of (48 + b)" "of_char :: char \<Rightarrow> nat"] by simp
  show ?case
  proof (cases "m < 10 \<or> n < 10")
    case True
    with "1.prems" ne digit show ?thesis
      by (auto simp: decimal.simps [of m] decimal.simps [of n] split: if_splits)
  next
    case False
    with "1.prems" have "decimal (m div 10) = decimal (n div 10)" "m mod 10 = n mod 10"
      using digit [of "m mod 10" "n mod 10"] by (auto simp: decimal.simps [of m] decimal.simps [of n])
    with "1.IH" False have "m div 10 = n div 10" by blast
    with \<open>m mod 10 = n mod 10\<close> show ?thesis by (metis div_mult_mod_eq)
  qed
qed

lemma round_mark_eq:
  "round_mark a m = round_mark b n \<longleftrightarrow> a = b \<and> (a = None \<longrightarrow> m = n)"
  by (auto simp: round_mark_def dest: decimal_inj split: option.splits)

lemma string_tuple_inj: "string_tuple a = string_tuple b \<longleftrightarrow> a = b"
  unfolding string_tuple_def by (metis json.inject(5) json.inject(4) inj_map_eq_map injI)

lemma parse_facts:
  assumes "parse_inbound_scoped env h raw pool = Some f" "ie_object env raw = Some field"
  shows "rc_session_id (if_ctx f) = session_id_from_headers h"
    "rc_client_previous_response_id (if_ctx f) = raw_as_str env (field ''previous_response_id'')"
    "rc_input_count (if_ctx f) = fst (input_shape env (field ''input''))"
    "rc_session_key (if_ctx f) = Some (derive_session_key env h (raw_as_str env (field ''prompt_cache_key'')) (field ''input'') pool)"
    "rc_logical_turn_key (if_ctx f) \<noteq> None \<Longrightarrow> rc_logical_turn_key (if_ctx f) =
       inbound_turn_key env h (field ''client_metadata'') (rc_client_previous_response_id (if_ctx f)) (rc_input_count (if_ctx f)) pool"
  using assms by (auto simp: parse_inbound_scoped_def Let_def split: prod.splits if_splits)

text \<open>What the attempt budget of a parsed request is keyed by.\<close>

definition budget_identity :: "inbound_env \<Rightarrow> headers \<Rightarrow> string \<Rightarrow> string option \<Rightarrow> string list option" where
  "budget_identity env h raw pool =
     (case ie_object env raw of
        None \<Rightarrow> None
      | Some field \<Rightarrow> map_option (\<lambda>turn. turn_identity h pool turn
            (round_mark (raw_as_str env (field ''previous_response_id'')) (fst (input_shape env (field ''input'')))))
          (projected_turn_id env h (field ''client_metadata'')))"

definition turn_id_of :: "inbound_env \<Rightarrow> headers \<Rightarrow> string \<Rightarrow> string option" where
  "turn_id_of env h raw = Option.bind (ie_object env raw) (\<lambda>field. projected_turn_id env h (field ''client_metadata''))"

text \<open>The digests tell two printed tuples apart (sha256 has no collision on them, the printer is injective).\<close>

definition digests_differ :: "inbound_env \<Rightarrow> string list \<Rightarrow> string list \<Rightarrow> bool" where
  "digests_differ env a b \<longleftrightarrow>
     (ie_sha256_hex env (ie_print env (string_tuple a)) = ie_sha256_hex env (ie_print env (string_tuple b)) \<longrightarrow> a = b)"

lemma budget_key:
  assumes "parse_inbound_scoped env h raw pool = Some f" "rc_logical_turn_key (if_ctx f) \<noteq> None"
  obtains turn where "turn_id_of env h raw = Some turn"
    "rc_logical_turn_key (if_ctx f) = Some (ie_sha256_hex env (ie_print env (string_tuple (turn_identity h pool turn
       (round_mark (rc_client_previous_response_id (if_ctx f)) (rc_input_count (if_ctx f)))))))"
    "budget_identity env h raw pool = Some (turn_identity h pool turn
       (round_mark (rc_client_previous_response_id (if_ctx f)) (rc_input_count (if_ctx f))))"
proof -
  from assms(1) obtain field where o: "ie_object env raw = Some field" by (auto simp: parse_inbound_scoped_def)
  note p = parse_facts [OF assms(1) o]
  from p(5) assms(2) obtain turn where "projected_turn_id env h (field ''client_metadata'') = Some turn"
    by (auto simp: inbound_turn_key_def)
  with p(2,3,5) assms(2) o that show ?thesis
    by (simp add: inbound_turn_key_def turn_id_of_def budget_identity_def)
qed

text \<open>
  C40: The attempt budget follows a turn's progress: two requests of a turn share a budget exactly when they agree on
  pool, session, thread and turn id, and resume the same response, or, where neither resumes one, have as many input
  items. So a retry spends from the budget of what it retries and the next round starts a fresh one; the digests are
  taken to tell the two identities apart.
\<close>

theorem budget_follows_progress:
  assumes "parse_inbound_scoped env h raw pool = Some f" "parse_inbound_scoped env h' raw' pool' = Some f'"
    and "rc_logical_turn_key (if_ctx f) \<noteq> None" "rc_logical_turn_key (if_ctx f') \<noteq> None"
    and "\<And>a b. budget_identity env h raw pool = Some a \<Longrightarrow> budget_identity env h' raw' pool' = Some b \<Longrightarrow> digests_differ env a b"
  shows "rc_logical_turn_key (if_ctx f) = rc_logical_turn_key (if_ctx f') \<longleftrightarrow>
    unwrap_or pool '''' = unwrap_or pool' '''' \<and>
    unwrap_or (rc_session_id (if_ctx f)) '''' = unwrap_or (rc_session_id (if_ctx f')) '''' \<and>
    unwrap_or (thread_id_from_headers h) '''' = unwrap_or (thread_id_from_headers h') '''' \<and>
    turn_id_of env h raw = turn_id_of env h' raw' \<and>
    rc_client_previous_response_id (if_ctx f) = rc_client_previous_response_id (if_ctx f') \<and>
    (rc_client_previous_response_id (if_ctx f) = None \<longrightarrow> rc_input_count (if_ctx f) = rc_input_count (if_ctx f'))"
proof -
  obtain t where t: "turn_id_of env h raw = Some t"
    "rc_logical_turn_key (if_ctx f) = Some (ie_sha256_hex env (ie_print env (string_tuple (turn_identity h pool t
       (round_mark (rc_client_previous_response_id (if_ctx f)) (rc_input_count (if_ctx f)))))))"
    "budget_identity env h raw pool = Some (turn_identity h pool t
       (round_mark (rc_client_previous_response_id (if_ctx f)) (rc_input_count (if_ctx f))))"
    by (rule budget_key [OF assms(1,3)])
  obtain t' where t': "turn_id_of env h' raw' = Some t'"
    "rc_logical_turn_key (if_ctx f') = Some (ie_sha256_hex env (ie_print env (string_tuple (turn_identity h' pool' t'
       (round_mark (rc_client_previous_response_id (if_ctx f')) (rc_input_count (if_ctx f')))))))"
    "budget_identity env h' raw' pool' = Some (turn_identity h' pool' t'
       (round_mark (rc_client_previous_response_id (if_ctx f')) (rc_input_count (if_ctx f'))))"
    by (rule budget_key [OF assms(2,4)])
  from assms(1,2) obtain field field' where o: "ie_object env raw = Some field" "ie_object env raw' = Some field'"
    by (auto simp: parse_inbound_scoped_def)
  note sid = parse_facts(1) [OF assms(1) o(1)] parse_facts(1) [OF assms(2) o(2)]
  have "rc_logical_turn_key (if_ctx f) = rc_logical_turn_key (if_ctx f') \<longleftrightarrow>
    turn_identity h pool t (round_mark (rc_client_previous_response_id (if_ctx f)) (rc_input_count (if_ctx f))) =
    turn_identity h' pool' t' (round_mark (rc_client_previous_response_id (if_ctx f')) (rc_input_count (if_ctx f')))"
    using assms(5) [OF t(3) t'(3)] t(2) t'(2) by (auto simp: digests_differ_def)
  then show ?thesis using t(1) t'(1) sid by (auto simp: turn_identity_def round_mark_eq)
qed

text \<open>
  A conversation keeps its session key: whatever the body and the other headers of a request with a session or
  thread id say, its session key is the hard key that every other transport reads from the same headers, and two
  such requests have the same key exactly when pool, session and thread agree.
\<close>

lemma conversation_keeps_its_key:
  assumes "parse_inbound_scoped env h raw pool = Some f" "parse_inbound_scoped env h' raw' pool' = Some f'"
    and "session_id_from_headers h \<noteq> None \<or> thread_id_from_headers h \<noteq> None"
    and "session_id_from_headers h' \<noteq> None \<or> thread_id_from_headers h' \<noteq> None"
    and "digests_differ env (conversation_identity h pool) (conversation_identity h' pool')"
  shows "(\<forall>prompt_cache_key. rc_session_key (if_ctx f) = header_session_key_scoped env h prompt_cache_key pool) \<and>
    map_option sk_strength (rc_session_key (if_ctx f)) = Some Hard \<and>
    (rc_session_key (if_ctx f) = rc_session_key (if_ctx f') \<longleftrightarrow>
       unwrap_or pool '''' = unwrap_or pool' '''' \<and>
       unwrap_or (rc_session_id (if_ctx f)) '''' = unwrap_or (rc_session_id (if_ctx f')) '''' \<and>
       unwrap_or (thread_id_from_headers h) '''' = unwrap_or (thread_id_from_headers h') '''')"
proof -
  from assms(1,2) obtain field field' where o: "ie_object env raw = Some field" "ie_object env raw' = Some field'"
    by (auto simp: parse_inbound_scoped_def)
  note p = parse_facts [OF assms(1) o(1)] and p' = parse_facts [OF assms(2) o(2)]
  have "rc_session_key (if_ctx f) = Some (hard_key env (conversation_identity h pool))"
    "rc_session_key (if_ctx f') = Some (hard_key env (conversation_identity h' pool'))"
    using p(4) p'(4) assms(3,4) by (auto simp: derive_session_key_def header_session_key_scoped_def)
  then show ?thesis using assms(3,5) p(1) p'(1)
    by (auto simp: header_session_key_scoped_def hard_key_def digests_differ_def conversation_identity_def)
qed

definition demo_body_fields :: "string \<Rightarrow> raw_fields" where
  "demo_body_fields anchor = [''client_metadata'' \<mapsto> ''meta'', ''previous_response_id'' \<mapsto> anchor]"

definition demo_parser :: inbound_env where
  "demo_parser = \<lparr>ie_object = \<lambda>s. if s = ''meta'' then Some [''turn_id'' \<mapsto> ''turn''] else Some (demo_body_fields s), ie_array = \<lambda>_. None,
     ie_string = Some, ie_bool = \<lambda>_. None, ie_u64 = \<lambda>_. None, ie_value = \<lambda>_. None,
     ie_print = \<lambda>v. case v of JArr vs \<Rightarrow> concat (map (\<lambda>w. case w of JStr s \<Rightarrow> s @ ''|'' | _ \<Rightarrow> []) vs) | _ \<Rightarrow> [],
     ie_sha256_hex = \<lambda>s. s\<rparr>"

definition demo_headers :: headers where "demo_headers = [''session-id'' \<mapsto> ''s'']"

definition demo_facts :: "string \<Rightarrow> inbound_facts" where
  "demo_facts raw = the (parse_inbound_scoped demo_parser demo_headers raw None)"

lemma demo_parse: "parse_inbound_scoped demo_parser demo_headers raw None = Some (demo_facts raw)" if "raw \<noteq> ''meta''"
  using that by (simp add: demo_facts_def parse_inbound_scoped_def demo_parser_def)

lemma demo_turn: "rc_logical_turn_key (if_ctx (demo_facts raw)) = Some (''codex-logical-turn-v2||s||turn|a:'' @ raw @ ''|'')"
  if "raw \<noteq> ''meta''"
  using that
  by (simp add: demo_facts_def parse_inbound_scoped_def demo_parser_def demo_body_fields_def Let_def inbound_turn_key_def
      projected_turn_id_def turn_id_from_client_metadata_def bounded_turn_id_def raw_as_str_def max_turn_id_bytes_def
      input_shape_def turn_identity_def string_tuple_def session_id_from_headers_def thread_id_from_headers_def
      demo_headers_def round_mark_def)

theorem budget_follows_progress_witness:
  "rc_logical_turn_key (if_ctx (demo_facts ''resp_1'')) \<noteq> rc_logical_turn_key (if_ctx (demo_facts ''resp_2''))"
proof -
  have "rc_client_previous_response_id (if_ctx (demo_facts raw)) = Some raw" if "raw \<noteq> ''meta''" for raw
    using that by (simp add: demo_facts_def parse_inbound_scoped_def demo_parser_def demo_body_fields_def Let_def raw_as_str_def input_shape_def)
  moreover have "digests_differ demo_parser a b"
    if "budget_identity demo_parser demo_headers ''resp_1'' None = Some a" "budget_identity demo_parser demo_headers ''resp_2'' None = Some b" for a b
    using that by (auto simp: budget_identity_def demo_parser_def demo_body_fields_def projected_turn_id_def
      turn_id_from_client_metadata_def bounded_turn_id_def raw_as_str_def max_turn_id_bytes_def turn_identity_def
      digests_differ_def string_tuple_def round_mark_def)
  ultimately show ?thesis
    using budget_follows_progress [OF demo_parse demo_parse, of "''resp_1''" "''resp_2''"] demo_turn by simp
qed

lemma conversation_keeps_its_key_example:
  "rc_session_key (if_ctx (demo_facts ''resp_1'')) = rc_session_key (if_ctx (demo_facts ''resp_2''))"
proof -
  have s: "session_id_from_headers demo_headers = Some ''s''" by (simp add: session_id_from_headers_def demo_headers_def)
  have "rc_session_id (if_ctx (demo_facts raw)) = Some ''s''" if "raw \<noteq> ''meta''" for raw
    using that s by (simp add: demo_facts_def parse_inbound_scoped_def demo_parser_def Let_def split: prod.splits)
  then show ?thesis
    using conversation_keeps_its_key [OF demo_parse demo_parse, of "''resp_1''" "''resp_2''"] s
    by (simp add: digests_differ_def)
qed

end
