(* ===== verification/Custom_Exec.thy ===== *)
theory Custom_Exec
  imports Custom_Routing Session_Keys
begin

text \<open>
  Operator-defined upstreams, third part (\<open>polyflare-server/src/custom_provider.rs\<close>): the execution of a request
  on a target and over the ranked targets, and the relay of the stream. The shared state is what the module keeps
  (credentials in flight, both caches, the HTTP clients) and the credential rows of the store; at every wait the
  other requests and the clock change it by \<open>cx_others\<close>. The upstream's answers are a parameter
  (\<open>cx_send\<close>: the result of \<open>send_with_network_recovery\<close>, whose circuits are those of \<open>Network_Recovery\<close>). The list
  \<open>cr_sent\<close> of requests made is a ghost.
\<close>

section \<open>State and answers\<close>

record custom_shared =
  cs_in_flight :: in_flight
  cs_affinity :: affinity_cache
  cs_fair :: smooth_cache
  cs_clients :: client_cache
  cs_credentials :: "provider_credential list"
  cs_unix :: i64
  cs_now :: nat

text \<open>A stream item read under the idle timeout; the end of the list is the end of the stream.\<close>

datatype body_event = BodyChunk string | BodyError | BodyIdle

record upstream_answer =
  ua_status :: u16
  ua_headers :: "(string \<times> string) list"
  ua_body :: "body_event list"

datatype send_answer = SendConnectivity | SendTimeout | SendOther | SendResponse upstream_answer

record sent_request =
  sr_provider :: string
  sr_credential :: string
  sr_client :: http_client
  sr_url :: custom_url
  sr_headers :: "(string \<times> string) list"
  sr_body :: json
  sr_budget :: nat

record custom_run =
  cr_shared :: custom_shared
  cr_waits :: nat
  cr_sent :: "sent_request list"

record custom_ctx = custom_env +
  cx_inbound_env :: inbound_env
  cx_inbound :: "string \<Rightarrow> string option"
  cx_to_str :: "string \<Rightarrow> string option"
  cx_prompt_cache_key :: "string \<Rightarrow> string option option"
  cx_others :: "nat \<Rightarrow> custom_shared \<Rightarrow> custom_shared"
  cx_list_fails :: "nat \<Rightarrow> bool"
  cx_decrypt :: "nat \<Rightarrow> string \<Rightarrow> string option"
  cx_send :: "nat \<Rightarrow> sent_request \<Rightarrow> send_answer"

definition custom_await :: "custom_ctx \<Rightarrow> custom_run \<Rightarrow> custom_run" where
  "custom_await cx r = r\<lparr>cr_shared := cx_others cx (cr_waits r) (cr_shared r), cr_waits := Suc (cr_waits r)\<rparr>"

abbreviation on_shared :: "(custom_shared \<Rightarrow> custom_shared) \<Rightarrow> custom_run \<Rightarrow> custom_run" where
  "on_shared f r \<equiv> r\<lparr>cr_shared := f (cr_shared r)\<rparr>"

abbreviation run_unix :: "custom_run \<Rightarrow> i64" where "run_unix r \<equiv> cs_unix (cr_shared r)"
abbreviation run_now :: "custom_run \<Rightarrow> nat" where "run_now r \<equiv> cs_now (cr_shared r)"

text \<open>A write of a credential's health: the update, then the wait for it.\<close>

definition write_health :: "custom_ctx \<Rightarrow> string \<Rightarrow> string \<Rightarrow> i64 option \<Rightarrow> custom_run \<Rightarrow> custom_run" where
  "write_health cx cid health cooldown r =
     custom_await cx (on_shared (\<lambda>s. s\<lparr>cs_credentials :=
       set_credential_health cid health cooldown (cs_unix s) (cs_credentials s)\<rparr>) r)"

definition bench_credential :: "custom_ctx \<Rightarrow> string \<Rightarrow> custom_run \<Rightarrow> custom_run" where
  "bench_credential cx cid r = write_health cx cid ''cooldown'' (Some (run_unix r + 30)) r"

definition release_credential :: "string \<Rightarrow> custom_run \<Rightarrow> custom_run" where
  "release_credential cid = on_shared (\<lambda>s. s\<lparr>cs_in_flight := drop_credential_lease cid (cs_in_flight s)\<rparr>)"

definition retryable_status :: "u16 \<Rightarrow> bool" where
  "retryable_status status \<longleftrightarrow> status = 429 \<or> 500 \<le> status \<and> status \<le> 599"

abbreviation success_status :: "u16 \<Rightarrow> bool" where
  "success_status status \<equiv> 200 \<le> status \<and> status \<le> 299"

definition mark_pre_stream_failure :: "custom_ctx \<Rightarrow> string \<Rightarrow> u16 \<Rightarrow> custom_run \<Rightarrow> custom_run" where
  "mark_pre_stream_failure cx cid status r =
     (if status = 401 \<or> status = 403 then write_health cx cid ''reauth_required'' None r
      else if status = 429 \<or> 500 \<le> status \<and> status \<le> 599 then bench_credential cx cid r
      else r)"

section \<open>Responses\<close>

definition max_error_body_bytes :: usize where "max_error_body_bytes = 64 * 1024"

fun read_bounded_error_body :: "usize \<Rightarrow> body_event list \<Rightarrow> string \<Rightarrow> string" where
  "read_bounded_error_body limit (BodyChunk chunk # events) body =
     (if length body < limit then
        (let remaining = limit - length body; n = min (length chunk) remaining in
         if n = remaining then body @ take n chunk
         else read_bounded_error_body limit events (body @ take n chunk))
      else body)"
| "read_bounded_error_body limit _ body = body"

definition copy_response_headers :: "(string \<times> string) list \<Rightarrow> (string \<times> string) list" where
  "copy_response_headers source =
     List.map_filter (\<lambda>name. map_option (Pair name) (map_of source name))
       [''content-type'', ''cache-control'', ''retry-after'', ''x-request-id'', ''openai-processing-ms'']"

definition is_event_stream_content_type :: "custom_ctx \<Rightarrow> (string \<times> string) list \<Rightarrow> bool" where
  "is_event_stream_content_type cx hs =
     is_some_and (Option.bind (map_of hs ''content-type'') (cx_to_str cx))
       (\<lambda>v. str_lower (str_trim (hd (split_on (CHR '';'') v))) = ''text/event-stream'')"

record custom_stream =
  ct_credential :: string
  ct_provider :: string
  ct_affinity_key :: "string option"
  ct_first :: string
  ct_rest :: "body_event list"
  ct_completion :: completion_observer

datatype custom_reply =
    CustomError u16 string
  | CustomForwarded u16 "(string \<times> string) list" string
  | CustomStreaming u16 "(string \<times> string) list" custom_stream

fun reply_status :: "custom_reply \<Rightarrow> u16" where
  "reply_status (CustomError status _) = status"
| "reply_status (CustomForwarded status _ _) = status"
| "reply_status (CustomStreaming status _ _) = status"

record custom_route_outcome =
  ro_provider_slug :: string
  ro_credential_id :: "string option"
  ro_public_model :: string
  ro_upstream_model :: string
  ro_effective_service_tier :: "string option"
  ro_profile_revision :: "string option"
  ro_prices :: price_row

definition custom_outcome_of :: "custom_env \<Rightarrow> custom_provider \<Rightarrow> provider_model \<Rightarrow> custom_route_outcome" where
  "custom_outcome_of env provider model =
     \<lparr>ro_provider_slug = cp_slug provider, ro_credential_id = None, ro_public_model = pm_public_model model,
      ro_upstream_model = pm_upstream_model model, ro_effective_service_tier = None,
      ro_profile_revision = profile_revision env model, ro_prices = pm_prices model\<rparr>"

definition no_prices :: price_row where
  "no_prices = \<lparr>pr_input = None, pr_cached_input = None, pr_output = None, pr_priority_input = None,
     pr_priority_cached_input = None, pr_priority_output = None\<rparr>"

definition unresolved_custom_outcome :: "string \<Rightarrow> custom_route_outcome" where
  "unresolved_custom_outcome public_model =
     \<lparr>ro_provider_slug = ''custom'', ro_credential_id = None, ro_public_model = public_model,
      ro_upstream_model = '''', ro_effective_service_tier = None, ro_profile_revision = None, ro_prices = no_prices\<rparr>"

section \<open>One target\<close>

text \<open>What the attempts on a target share.\<close>

record target_call =
  tc_provider :: custom_provider
  tc_client :: http_client
  tc_endpoint :: custom_url
  tc_body :: json
  tc_credentials :: "provider_credential list"
  tc_affinity_key :: "string option"
  tc_preferred :: "string option"
  tc_budget :: nat

definition request_headers :: "custom_ctx \<Rightarrow> custom_provider \<Rightarrow> string \<Rightarrow> (string \<times> string) list" where
  "request_headers cx provider secret =
     [(''content-type'', ''application/json''), (''accept'', ''text/event-stream'')] @
     (if cp_wire_api provider = ''anthropic_messages''
      then [(''x-api-key'', secret),
            (''anthropic-version'',
             unwrap_or (Option.bind (cx_inbound cx ''anthropic-version'') (cx_to_str cx)) ''2023-06-01'')] @
           (case cx_inbound cx ''anthropic-beta'' of Some v \<Rightarrow> [(''anthropic-beta'', v)] | None \<Rightarrow> [])
      else [(''authorization'', ''Bearer '' @ secret)] @
           (case cx_inbound cx ''openai-beta'' of Some v \<Rightarrow> [(''openai-beta'', v)] | None \<Rightarrow> []))"

datatype attempt_end = AttemptDone custom_reply | AttemptNext "custom_reply option" | AttemptStop custom_reply

text \<open>What follows the upstream's answer; \<open>AttemptNext\<close> carries the response to remember, if it sets one.\<close>

definition settle_answer :: "custom_ctx \<Rightarrow> target_call \<Rightarrow> string \<Rightarrow> send_answer \<Rightarrow> custom_run \<Rightarrow> attempt_end \<times> custom_run" where
  "settle_answer cx tc cid answer r =
     (case answer of
        SendConnectivity \<Rightarrow> (AttemptStop (CustomError 503 ''upstream network unavailable''), release_credential cid r)
      | SendTimeout \<Rightarrow> (AttemptNext None, release_credential cid (bench_credential cx cid r))
      | SendOther \<Rightarrow> (AttemptNext None, release_credential cid (bench_credential cx cid r))
      | SendResponse ua \<Rightarrow>
          let status = ua_status ua; hs = copy_response_headers (ua_headers ua) in
          if \<not> success_status status then
            let r = custom_await cx (mark_pre_stream_failure cx cid status r);
                reply = CustomForwarded status hs (read_bounded_error_body max_error_body_bytes (ua_body ua) []);
                r = release_credential cid r
            in if retryable_status status then (AttemptNext (Some reply), r) else (AttemptDone reply, r)
          else let r = custom_await cx r in
            (case ua_body ua of
               BodyChunk first # rest \<Rightarrow>
                 let r = write_health cx cid ''healthy'' None r;
                     completion = completion_observe (ce_parse_json cx) first
                       (completion_new (cp_wire_api (tc_provider tc)) (is_event_stream_content_type cx (ua_headers ua)))
                 in (AttemptDone (CustomStreaming status hs
                      \<lparr>ct_credential = cid, ct_provider = cp_id (tc_provider tc), ct_affinity_key = tc_affinity_key tc,
                       ct_first = first, ct_rest = rest, ct_completion = completion\<rparr>), r)
             | _ \<Rightarrow> (AttemptNext (Some (CustomError 502 ''custom provider closed before output'')),
                     release_credential cid (bench_credential cx cid r))))"

text \<open>The attempts: the reply, the credential named in the outcome, the state.\<close>

fun attempt_credentials ::
  "custom_ctx \<Rightarrow> target_call \<Rightarrow> nat \<Rightarrow> string list \<Rightarrow> string option \<Rightarrow> custom_reply option \<Rightarrow> custom_run
   \<Rightarrow> custom_reply \<times> string option \<times> custom_run" where
  "attempt_credentials cx tc 0 tried used latest r =
     (unwrap_or latest (CustomError 503 ''no eligible provider credential''), used, r)"
| "attempt_credentials cx tc (Suc n) tried used latest r =
     (case acquire_credential (tc_provider tc) (tc_credentials tc) tried (tc_preferred tc) (run_unix r)
             (cs_in_flight (cr_shared r)) of
        (None, _) \<Rightarrow> (unwrap_or latest (CustomError 503 ''no eligible provider credential''), used, r)
      | (Some credential, flight) \<Rightarrow>
          let cid = pc_id credential;
              tried = cid # tried;
              r = custom_await cx (on_shared (\<lambda>s. s\<lparr>cs_in_flight := flight\<rparr>) r)
          in case cx_decrypt cx (cr_waits r) cid of
               None \<Rightarrow> attempt_credentials cx tc n tried used latest (release_credential cid r)
             | Some secret \<Rightarrow>
                 let request = \<lparr>sr_provider = cp_id (tc_provider tc), sr_credential = cid, sr_client = tc_client tc, sr_url = tc_endpoint tc,
                       sr_headers = request_headers cx (tc_provider tc) secret, sr_body = tc_body tc, sr_budget = tc_budget tc\<rparr>;
                     answer = cx_send cx (cr_waits r) request;
                     r = custom_await cx (r\<lparr>cr_sent := cr_sent r @ [request]\<rparr>)
                 in (case settle_answer cx tc cid answer r of
                       (AttemptDone reply, r) \<Rightarrow> (reply, Some cid, r)
                     | (AttemptStop reply, r) \<Rightarrow> (reply, Some cid, r)
                     | (AttemptNext reply, r) \<Rightarrow> attempt_credentials cx tc n tried (Some cid) (opt_or reply latest) r))"

definition max_target_attempts :: "custom_provider \<Rightarrow> provider_credential list \<Rightarrow> usize" where
  "max_target_attempts provider credentials =
     (let n = add_i64 (cp_request_max_retries provider) 1
      in min (if 0 \<le> n then nat n else 1) (max (length credentials) 1))"

definition execute_with_affinity ::
  "custom_ctx \<Rightarrow> custom_provider \<Rightarrow> provider_model \<Rightarrow> string \<Rightarrow> string option \<Rightarrow> string option \<Rightarrow> nat \<Rightarrow> custom_run
   \<Rightarrow> (custom_reply \<times> custom_route_outcome) \<times> custom_run" where
  "execute_with_affinity cx provider model raw_body affinity_key preferred budget r =
     (let env = custom_env.truncate cx; outcome = custom_outcome_of env provider model in
      case validate_endpoint env provider of
        Inl message \<Rightarrow> ((CustomError 502 message, outcome), r)
      | Inr endpoint \<Rightarrow>
          if origin_parse (ce_url_parts cx) (ce_print_url cx endpoint) = None
          then ((CustomError 502 ''invalid provider origin'', outcome), r)
          else case custom_body env provider model raw_body of
            Inl (status, message) \<Rightarrow> ((CustomError status message, outcome), r)
          | Inr (revision, body) \<Rightarrow>
              let outcome = outcome\<lparr>ro_profile_revision := revision\<rparr>;
                  r = custom_await cx r
              in if cx_list_fails cx (cr_waits r) then ((CustomError 500 ''internal error'', outcome), r)
                 else let credentials = list_credentials (cp_id provider) (cs_credentials (cr_shared r));
                          (client, clients) = http_client_at env provider endpoint (run_now r) (cs_clients (cr_shared r));
                          r = custom_await cx (on_shared (\<lambda>s. s\<lparr>cs_clients := clients\<rparr>) r)
                   in case client of
                        Inl _ \<Rightarrow> ((CustomError 500 ''internal error'', outcome), r)
                      | Inr client \<Rightarrow>
                          let tc = \<lparr>tc_provider = provider, tc_client = client, tc_endpoint = endpoint, tc_body = body,
                                tc_credentials = credentials, tc_affinity_key = affinity_key,
                                tc_preferred = preferred, tc_budget = budget\<rparr>
                          in (case attempt_credentials cx tc (max_target_attempts provider credentials) [] None None r of
                                (reply, used, r) \<Rightarrow> ((reply, outcome\<lparr>ro_credential_id := used\<rparr>), r)))"

section \<open>The relayed stream\<close>

definition record_affinity :: "string option \<Rightarrow> string \<Rightarrow> string \<Rightarrow> custom_run \<Rightarrow> custom_run" where
  "record_affinity key provider_id credential_id r =
     (case key of
        None \<Rightarrow> r
      | Some k \<Rightarrow> on_shared (\<lambda>s. s\<lparr>cs_affinity := affinity_record k provider_id credential_id (cs_now s) (cs_affinity s)\<rparr>) r)"

text \<open>
  The client polls the body: each poll is a wait for the next event, and yields bytes or the error that ends the
  stream (\<open>Inl\<close>). The body may be dropped at any point; the lease goes with it.
\<close>

fun relay_polls ::
  "custom_ctx \<Rightarrow> custom_stream \<Rightarrow> nat \<Rightarrow> body_event list \<Rightarrow> completion_observer \<Rightarrow> custom_run
   \<Rightarrow> (string + string) list \<times> custom_run" where
  "relay_polls cx ct 0 events co r = ([], r)"
| "relay_polls cx ct (Suc n) events co r =
     (let r = custom_await cx r in
      case events of
        BodyChunk chunk # rest \<Rightarrow>
          (case relay_polls cx ct n rest (completion_observe (ce_parse_json cx) chunk co) r of
             (items, r) \<Rightarrow> (Inr chunk # items, r))
      | BodyError # _ \<Rightarrow> ([Inl ''upstream error''], bench_credential cx (ct_credential ct) r)
      | BodyIdle # _ \<Rightarrow> ([Inl ''custom provider stream idle timeout''], bench_credential cx (ct_credential ct) r)
      | [] \<Rightarrow> ([], if completed_cleanly (ce_parse_json cx) co
                   then record_affinity (ct_affinity_key ct) (ct_provider ct) (ct_credential ct) r else r))"

definition relay_stream ::
  "custom_ctx \<Rightarrow> custom_stream \<Rightarrow> nat \<Rightarrow> custom_run \<Rightarrow> (string + string) list \<times> custom_run" where
  "relay_stream cx ct polls r =
     (case (case polls of
              0 \<Rightarrow> ([], r)
            | Suc n \<Rightarrow> (case relay_polls cx ct n (ct_rest ct) (ct_completion ct) r of
                (items, r) \<Rightarrow> (Inr (ct_first ct) # items, r))) of
        (items, r) \<Rightarrow> (items, release_credential (ct_credential ct) r))"

section \<open>Affinity and ranking\<close>

definition request_affinity_key ::
  "custom_ctx \<Rightarrow> string \<Rightarrow> string \<Rightarrow> string \<Rightarrow> string option \<Rightarrow> string option" where
  "request_affinity_key cx raw_body public_model wire_api identity_override =
     map_option (\<lambda>identity. ce_sha256_hex cx (''polyflare-custom-affinity-v1'' @ [CHR 0x00] @ public_model @ [CHR 0x00] @ identity))
       (case identity_override of
          Some identity \<Rightarrow> Some identity
        | None \<Rightarrow>
            if wire_api \<noteq> ''responses'' then None
            else (case cx_prompt_cache_key cx raw_body of
               None \<Rightarrow> None
             | Some prompt_cache_key \<Rightarrow>
                 opt_or (map_option sk_value (header_session_key (cx_inbound_env cx)
                     (\<lambda>name. Option.bind (cx_inbound cx name) (cx_to_str cx)) prompt_cache_key))
                   prompt_cache_key))"

definition current_affinity :: "string option \<Rightarrow> custom_run \<Rightarrow> affinity_target option \<times> custom_run" where
  "current_affinity key r =
     (case key of
        None \<Rightarrow> (None, r)
      | Some k \<Rightarrow> (case affinity_get k (run_now r) (cs_affinity (cr_shared r)) of
          (target, cache) \<Rightarrow> (target, on_shared (\<lambda>s. s\<lparr>cs_affinity := cache\<rparr>) r)))"

type_synonym custom_target = "custom_provider \<times> provider_model"

text \<open>The loop over the targets: each reads its credentials, then the counts in flight.\<close>

fun rank_loop ::
  "custom_ctx \<Rightarrow> string \<Rightarrow> capability_set \<Rightarrow> affinity_target option \<Rightarrow> i64 \<Rightarrow> custom_target list \<Rightarrow> custom_run
   \<Rightarrow> ranked_target list \<times> custom_run" where
  "rank_loop cx wire_api required affinity now [] r = ([], r)"
| "rank_loop cx wire_api required affinity now ((provider, model) # targets) r =
     (if \<not> target_supports (custom_env.truncate cx) provider model wire_api required
      then rank_loop cx wire_api required affinity now targets r
      else let r = custom_await cx r in
        if cx_list_fails cx (cr_waits r) then rank_loop cx wire_api required affinity now targets r
        else case rank_loop cx wire_api required affinity now targets r of
          (ranked, r') \<Rightarrow>
            ((case rank_target affinity now (cs_in_flight (cr_shared r)) provider model
                     (list_credentials (cp_id provider) (cs_credentials (cr_shared r))) of
                None \<Rightarrow> ranked | Some t \<Rightarrow> t # ranked), r'))"

type_synonym ranked = "(custom_target \<times> string option) list"

definition rank_eligible_targets ::
  "custom_ctx \<Rightarrow> custom_target list \<Rightarrow> string \<Rightarrow> capability_set \<Rightarrow> affinity_target option \<Rightarrow> string option
   \<Rightarrow> custom_run \<Rightarrow> ranked \<times> custom_run" where
  "rank_eligible_targets cx targets wire_api required affinity selection_key r =
     (let public_model = (case targets of [] \<Rightarrow> '''' | (_, model) # _ \<Rightarrow> pm_public_model model);
          scope = fair_routing_scope (custom_env.truncate cx) public_model wire_api required
      in case rank_loop cx wire_api required affinity (run_unix r) targets r of
           (candidates, r) \<Rightarrow>
             (case order_targets (custom_env.truncate cx) scope selection_key (run_now r) candidates (cs_fair (cr_shared r)) of
                (ordered, fair) \<Rightarrow>
                  (map (\<lambda>t. ((rk_provider t, rk_model t), rk_preferred t)) ordered,
                   on_shared (\<lambda>s. s\<lparr>cs_fair := fair\<rparr>) r)))"

section \<open>A request\<close>

definition execute_custom ::
  "custom_ctx \<Rightarrow> custom_provider \<Rightarrow> provider_model \<Rightarrow> string \<Rightarrow> nat \<Rightarrow> custom_run
   \<Rightarrow> (custom_reply \<times> custom_route_outcome) \<times> custom_run" where
  "execute_custom cx provider model raw_body budget r =
     (let key = request_affinity_key cx raw_body (pm_public_model model) (cp_wire_api provider) None
      in case current_affinity key r of
           (affinity, r) \<Rightarrow>
             execute_with_affinity cx provider model raw_body key
               (map_option at_credential_id (opt_filter (\<lambda>t. at_provider_id t = cp_id provider) affinity)) budget r)"

text \<open>
  The loop over ranked targets, the same in the three places that have it: a reply that is not retryable ends
  it (\<open>Inl\<close>), otherwise the last reply is kept (\<open>Inr\<close>). \<open>tier\<close> is the effective tier written to the outcome.
\<close>

type_synonym custom_result = "custom_reply \<times> custom_route_outcome"

fun try_targets ::
  "custom_ctx \<Rightarrow> string option \<Rightarrow> string \<Rightarrow> string option \<Rightarrow> nat \<Rightarrow> ranked \<Rightarrow> custom_result option \<Rightarrow> custom_run
   \<Rightarrow> (custom_result + custom_result option) \<times> custom_run" where
  "try_targets cx tier raw_body key budget [] latest r = (Inr latest, r)"
| "try_targets cx tier raw_body key budget (((provider, model), preferred) # targets) latest r =
     (case execute_with_affinity cx provider model raw_body key preferred budget r of
        ((reply, outcome), r) \<Rightarrow>
          let result = (reply, case tier of None \<Rightarrow> outcome | Some t \<Rightarrow> outcome\<lparr>ro_effective_service_tier := Some t\<rparr>)
          in if success_status (reply_status reply) \<or> \<not> retryable_status (reply_status reply) then (Inl result, r)
             else try_targets cx tier raw_body key budget targets (Some result) r)"

definition has_origin_fallback :: "custom_ctx \<Rightarrow> custom_target list \<Rightarrow> bool" where
  "has_origin_fallback cx targets \<longleftrightarrow>
     1 < length (remdups (List.map_filter (\<lambda>(provider, _). origin_parse (ce_url_parts cx) (cp_base_url provider)) targets))"

definition no_target :: "string \<Rightarrow> custom_result" where
  "no_target public_model = (CustomError 503 ''no compatible provider target'', unresolved_custom_outcome public_model)"

definition execute_targets ::
  "custom_ctx \<Rightarrow> custom_target list \<Rightarrow> string \<Rightarrow> string \<Rightarrow> string option \<Rightarrow> nat \<Rightarrow> custom_run
   \<Rightarrow> custom_result \<times> custom_run" where
  "execute_targets cx targets wire_api raw_body identity_override recovery_budget r =
     (case targets of
        [] \<Rightarrow> (no_target '''', r)
      | (_, first_model) # _ \<Rightarrow>
          let public_model = pm_public_model first_model;
              required = request_capabilities (custom_env.truncate cx) raw_body wire_api;
              budget = (if has_origin_fallback cx targets then 0 else recovery_budget);
              key = request_affinity_key cx raw_body public_model wire_api identity_override
          in (case current_affinity key r of
             (affinity, r) \<Rightarrow>
               (case rank_eligible_targets cx targets wire_api required affinity key r of
                  (ranked, r) \<Rightarrow>
                    if \<not> rq_priority required
                    then (case try_targets cx None raw_body key budget ranked None r of
                            (Inl result, r) \<Rightarrow> (result, r)
                          | (Inr latest, r) \<Rightarrow> (unwrap_or latest (no_target public_model), r))
                    else (case try_targets cx (Some ''priority'') raw_body key budget ranked None r of
                       (Inl result, r) \<Rightarrow> (result, r)
                     | (Inr last_priority, r) \<Rightarrow>
                         (case without_priority_service_tier (custom_env.truncate cx) raw_body of
                            None \<Rightarrow> (unwrap_or last_priority
                              (CustomError 400 ''invalid Priority fallback request'', unresolved_custom_outcome public_model), r)
                          | Some standard_body \<Rightarrow>
                              (case rank_eligible_targets cx targets wire_api (required\<lparr>rq_priority := False\<rparr>) affinity key r of
                                 (ranked, r) \<Rightarrow>
                                   (case try_targets cx (Some ''standard'') standard_body key budget ranked None r of
                                      (Inl result, r) \<Rightarrow> (result, r)
                                    | (Inr last_standard, r) \<Rightarrow>
                                        (unwrap_or (opt_or last_standard last_priority) (no_target public_model), r))))))))"

end
