(* ===== verification/Custom_Limits.thy ===== *)
theory Custom_Limits
  imports Custom_Exec
begin

text \<open>
  The concurrency limits of operator-defined upstreams hold under every interleaving of requests, and a request
  gives back every credential it takes.
\<close>

section \<open>Concurrency limits\<close>

text \<open>
  The critical sections on the counts in flight, interleaved freely: a lease is taken on rows of a configured
  provider, whatever their health at that moment, or dropped. \<open>fs_held\<close> is a ghost with the leases held.
\<close>

record flight_state =
  fs_flight :: in_flight
  fs_held :: "string list"

type_synonym limit_table = "(custom_provider \<times> (string \<times> i64 option) list) list"

inductive flight_step :: "limit_table \<Rightarrow> flight_state \<Rightarrow> flight_state \<Rightarrow> bool" for cfg :: limit_table where
  Acquire: "(p, cs) \<in> set cfg \<Longrightarrow> map (\<lambda>c. (pc_id c, pc_max_concurrency c)) rows = cs \<Longrightarrow>
    acquire_credential p rows tried preferred now (fs_flight s) = (Some c, flight) \<Longrightarrow>
    flight_step cfg s \<lparr>fs_flight = flight, fs_held = pc_id c # fs_held s\<rparr>"
| Release: "cid \<in> set (fs_held s) \<Longrightarrow>
    flight_step cfg s \<lparr>fs_flight = drop_credential_lease cid (fs_flight s), fs_held = remove1 cid (fs_held s)\<rparr>"

abbreviation flight_init :: flight_state where
  "flight_init \<equiv> \<lparr>fs_flight = [], fs_held = []\<rparr>"

definition flying_sum :: "in_flight \<Rightarrow> (string \<times> i64 option) list \<Rightarrow> nat" where
  "flying_sum flight cs = sum_list (map (\<lambda>c. flying flight (fst c)) cs)"

definition within_limits :: "limit_table \<Rightarrow> in_flight \<Rightarrow> bool" where
  "within_limits cfg flight \<longleftrightarrow> (\<forall>(p, cs) \<in> set cfg.
     (\<forall>limit. cp_max_concurrency p = Some limit \<longrightarrow> flying_sum flight cs \<le> usize_of_i64 limit) \<and>
     (\<forall>(cid, l) \<in> set cs. \<forall>limit. l = Some limit \<longrightarrow> flying flight cid \<le> usize_of_i64 limit))"

lemma flying_put: "flying (tbl_put t k n) cid = (if cid = k then n else flying t cid)"
  by (simp add: flying_def tbl_simps)

lemma flying_drop: "flying (drop_credential_lease k t) cid = (if cid = k then flying t cid - 1 else flying t cid)"
  by (auto simp: flying_def drop_credential_lease_def tbl_simps split: option.splits)

lemma find_in: "find P xs = Some x \<Longrightarrow> x \<in> set xs"
  by (auto simp: find_Some_iff)

lemma best_credential_facts:
  assumes "best_credential p rows tried preferred now flight = Some (c, score)"
  shows "c \<in> set rows" "credential_is_eligible c tried now flight"
    "\<And>limit. cp_max_concurrency p = Some limit \<Longrightarrow> provider_flying flight rows < usize_of_i64 limit"
proof -
  let ?e = "filter (\<lambda>c. credential_is_eligible c tried now flight) rows"
  let ?found = "Option.bind preferred (\<lambda>q. find (\<lambda>c. pc_id c = q) ?e)"
  have found: "x \<in> set ?e" if "?found = Some x" for x
    using that by (cases preferred) (auto simp only: bind.simps dest: find_in)
  obtain cmp where c: "opt_or ?found (min_by cmp ?e) = Some c"
    using assms unfolding best_credential_def Let_def by (auto simp del: set_filter split: if_splits)
  then have "?found = Some c \<or> min_by cmp ?e = Some c" unfolding opt_or_def by (cases ?found) simp_all
  then have "c \<in> set ?e" by (rule disjE) (erule found, erule min_by_in)
  then show "c \<in> set rows" "credential_is_eligible c tried now flight" by auto
  show "\<And>limit. cp_max_concurrency p = Some limit \<Longrightarrow> provider_flying flight rows < usize_of_i64 limit"
    using assms by (auto simp: best_credential_def split: if_splits)
qed

lemma acquire_facts:
  assumes "acquire_credential p rows tried preferred now flight = (Some c, flight')"
  shows "c \<in> set rows" "credential_is_eligible c tried now flight" "flight' = tbl_put flight (pc_id c) (Suc (flying flight (pc_id c)))"
    "\<And>limit. cp_max_concurrency p = Some limit \<Longrightarrow> provider_flying flight rows < usize_of_i64 limit"
  using assms best_credential_facts [of p rows tried preferred now flight]
  by (auto simp: acquire_credential_def split: option.splits prod.splits)

lemma flying_sum_put:
  "distinct (map fst cs) \<Longrightarrow> flying_sum (tbl_put t k (Suc (flying t k))) cs =
     flying_sum t cs + (if k \<in> fst ` set cs then 1 else 0)"
  by (induction cs) (auto simp: flying_sum_def flying_put)

definition separate :: "limit_table \<Rightarrow> bool" where
  "separate cfg \<longleftrightarrow> (\<forall>(p, cs) \<in> set cfg. distinct (map fst cs)) \<and>
     (\<forall>(p, cs) \<in> set cfg. \<forall>(p', cs') \<in> set cfg. fst ` set cs \<inter> fst ` set cs' = {} \<or> (p', cs') = (p, cs))"

lemma acquire_within:
  assumes "separate cfg" "within_limits cfg flight" "(p, cs) \<in> set cfg"
    and "map (\<lambda>c. (pc_id c, pc_max_concurrency c)) rows = cs"
    and a: "acquire_credential p rows tried preferred now flight = (Some c, flight')"
  shows "within_limits cfg flight'"
proof -
  note f = acquire_facts [OF a]
  let ?k = "pc_id c"
  have k: "(?k, pc_max_concurrency c) \<in> set cs" using f(1) assms(4) by force
  have d: "distinct (map fst cs')" if "(p', cs') \<in> set cfg" for p' cs'
    using assms(1) that unfolding separate_def by blast
  have own: "(p', cs') = (p, cs)" if "(p', cs') \<in> set cfg" "?k \<in> fst ` set cs'" for p' cs'
  proof -
    have "fst ` set cs \<inter> fst ` set cs' = {} \<or> (p', cs') = (p, cs)"
      using assms(1,3) that(1) unfolding separate_def by blast
    moreover have "?k \<in> fst ` set cs" using k by force
    ultimately show ?thesis using that(2) by blast
  qed
  have sum: "provider_flying flight rows = flying_sum flight cs"
    using assms(4) by (auto simp: provider_flying_def flying_sum_def comp_def)
  have room: "flying flight ?k < usize_of_i64 limit" if "pc_max_concurrency c = Some limit" for limit
    using f(2) that by (simp add: credential_is_eligible_def)
  have "(\<forall>limit. cp_max_concurrency p' = Some limit \<longrightarrow> flying_sum flight' cs' \<le> usize_of_i64 limit) \<and>
     (\<forall>(cid, l) \<in> set cs'. \<forall>limit. l = Some limit \<longrightarrow> flying flight' cid \<le> usize_of_i64 limit)"
    if q: "(p', cs') \<in> set cfg" for p' cs'
  proof -
    have old: "\<And>limit. cp_max_concurrency p' = Some limit \<Longrightarrow> flying_sum flight cs' \<le> usize_of_i64 limit"
      "\<And>cid limit. (cid, Some limit) \<in> set cs' \<Longrightarrow> flying flight cid \<le> usize_of_i64 limit"
      using assms(2) q unfolding within_limits_def by blast+
    show ?thesis
    proof (cases "?k \<in> fst ` set cs'")
      case True
      with own [OF q] have "p' = p" "cs' = cs" by auto
      have limit: "l = pc_max_concurrency c" if "(?k, l) \<in> set cs" for l
        using that k d [OF assms(3)] by (meson eq_key_imp_eq_value)
      have "flying_sum flight' cs = Suc (flying_sum flight cs)"
        using True \<open>cs' = cs\<close> by (simp add: f(3) flying_sum_put [OF d [OF assms(3)]])
      then have "flying_sum flight' cs' \<le> usize_of_i64 m" if "cp_max_concurrency p' = Some m" for m
        using f(4) [of m] that sum \<open>p' = p\<close> \<open>cs' = cs\<close> by simp
      moreover have "flying flight' cid \<le> usize_of_i64 m" if "(cid, Some m) \<in> set cs'" for cid m
        using that old(2) [of cid m] room [of m] limit [of "Some m"] \<open>cs' = cs\<close>
        by (cases "cid = ?k") (auto simp: f(3) flying_put)
      ultimately show ?thesis by blast
    next
      case False
      then have "flying_sum flight' cs' = flying_sum flight cs'"
        by (simp add: f(3) flying_sum_put [OF d [OF q]])
      moreover have "flying flight' cid = flying flight cid" if "(cid, l) \<in> set cs'" for cid l
        using that False by (force simp: f(3) flying_put)
      ultimately show ?thesis using old by auto
    qed
  qed
  then show ?thesis unfolding within_limits_def by blast
qed

lemma within_mono:
  assumes "within_limits cfg flight" "\<And>cid. flying flight' cid \<le> flying flight cid"
  shows "within_limits cfg flight'"
proof -
  have sums: "flying_sum flight' cs \<le> flying_sum flight cs" for cs
    unfolding flying_sum_def by (rule sum_list_mono) (rule assms(2))
  show ?thesis unfolding within_limits_def
  proof (intro ballI, clarify, intro conjI allI impI ballI, goal_cases)
    case (1 p cs limit)
    with assms(1) have "flying_sum flight cs \<le> usize_of_i64 limit" unfolding within_limits_def by blast
    with sums [of cs] show ?case by (rule order.trans)
  next
    case (2 p cs x)
    then show ?case using assms unfolding within_limits_def by (fastforce intro: order.trans)
  qed
qed

lemma drop_within: "within_limits cfg flight \<Longrightarrow> within_limits cfg (drop_credential_lease k flight)"
  by (erule within_mono) (simp add: flying_drop)

lemma flight_invariant:
  assumes "(flight_step cfg)\<^sup>*\<^sup>* flight_init s" "separate cfg"
  shows "within_limits cfg (fs_flight s) \<and> (\<forall>cid. flying (fs_flight s) cid = count_list (fs_held s) cid)"
  using assms(1)
proof (induction rule: rtranclp_induct)
  case base
  show ?case by (auto simp: within_limits_def flying_sum_def flying_def sum_list_0)
next
  case (step s t)
  from step.hyps(2) step.IH show ?case
  proof cases
    case (Acquire p cs rows tried preferred now c flight)
    have "within_limits cfg flight" using acquire_within [OF assms(2) _ Acquire(2,3,4)] step.IH by blast
    moreover have "flight = tbl_put (fs_flight s) (pc_id c) (Suc (flying (fs_flight s) (pc_id c)))"
      by (rule acquire_facts(3) [OF Acquire(4)])
    ultimately show ?thesis using step.IH Acquire(1) by (simp add: flying_put)
  next
    case (Release cid)
    then show ?thesis using step.IH drop_within by (auto simp: flying_drop count_list_remove1)
  qed
qed

lemma sum_count_list: "finite A \<Longrightarrow> sum (count_list held) A = length (filter (\<lambda>k. k \<in> A) held)"
proof (induction held)
  case (Cons x held)
  have "count_list (x # held) = (\<lambda>k. count_list held k + (if k = x then 1 else 0))" by auto
  with Cons show ?case by (simp add: sum.distrib)
qed simp

lemma held_of_provider:
  assumes "distinct (map fst cs)" "\<forall>cid. flying flight cid = count_list held cid"
  shows "flying_sum flight cs = length (filter (\<lambda>k. k \<in> fst ` set cs) held)"
proof -
  have "flying_sum flight cs = sum_list (map (count_list held) (map fst cs))"
    using assms(2) by (simp add: flying_sum_def comp_def)
  also have "\<dots> = sum (count_list held) (fst ` set cs)"
    using sum_list_distinct_conv_sum_set [OF assms(1), of "count_list held"] by simp
  finally show ?thesis by (simp add: sum_count_list)
qed

text \<open>
  C37: The operator's concurrency limits hold: however requests take and drop credentials, and whatever the health of
  the rows they saw, the leases held on a provider's credentials never exceed the provider's limit, and those on one
  credential never exceed its own. Credentials belong to one provider each.
\<close>

theorem concurrency_limits_hold:
  assumes "(flight_step cfg)\<^sup>*\<^sup>* flight_init s" "separate cfg" "(p, cs) \<in> set cfg"
  shows "(\<forall>limit. cp_max_concurrency p = Some limit \<longrightarrow>
       length (filter (\<lambda>k. k \<in> fst ` set cs) (fs_held s)) \<le> usize_of_i64 limit) \<and>
     (\<forall>cid limit. (cid, Some limit) \<in> set cs \<longrightarrow> count_list (fs_held s) cid \<le> usize_of_i64 limit)"
proof -
  note inv = flight_invariant [OF assms(1,2)]
  then have w: "within_limits cfg (fs_flight s)" and n: "\<forall>cid. flying (fs_flight s) cid = count_list (fs_held s) cid" by auto
  have "distinct (map fst cs)" using assms(2,3) unfolding separate_def by blast
  with w n assms(3) held_of_provider [OF _ n, of cs] show ?thesis unfolding within_limits_def by fastforce
qed

definition demo_provider :: custom_provider where
  "demo_provider = \<lparr>cp_id = ''p'', cp_slug = ''p'', cp_base_url = ''https://api.example/v1'', cp_wire_api = ''responses'',
     cp_enabled = True, cp_stateless_responses = True, cp_allow_private_hosts = False, cp_connect_timeout_ms = 10000,
     cp_stream_idle_timeout_ms = 300000, cp_request_max_retries = 1, cp_max_concurrency = Some 1, cp_updated_at = 0\<rparr>"

definition demo_credential :: provider_credential where
  "demo_credential = \<lparr>pc_id = ''k'', pc_provider_id = ''p'', pc_label = ''key'', pc_enabled = True,
     pc_health_status = ''healthy'', pc_routing_weight = F_Num 1, pc_max_concurrency = Some 1, pc_cooldown_until = None,
     pc_last_error_at = None, pc_updated_at = 0\<rparr>"

lemma demo_acquire:
  "acquire_credential demo_provider [demo_credential] [] None 0 [] = (Some demo_credential, [(''k'', 1)])"
  by (simp add: acquire_credential_def best_credential_def credential_is_eligible_def demo_provider_def demo_credential_def
      provider_flying_def flying_def usize_of_i64_def is_some_and_def)

theorem concurrency_limits_hold_witness:
  "count_list [''k''] ''k'' \<le> usize_of_i64 1"
proof -
  let ?cfg = "[(demo_provider, [(''k'', Some 1)])]"
  have "flight_step ?cfg flight_init \<lparr>fs_flight = [(''k'', 1)], fs_held = [''k'']\<rparr>"
    using flight_step.Acquire [of demo_provider "[(''k'', Some 1)]" ?cfg "[demo_credential]" "[]" None 0 flight_init demo_credential]
      demo_acquire by (simp add: demo_credential_def)
  from concurrency_limits_hold [OF r_into_rtranclp, of ?cfg, OF this, of demo_provider "[(''k'', Some 1)]"]
  show ?thesis by (simp add: separate_def)
qed

section \<open>Leases\<close>

text \<open>While the other requests leave the counts alone, a request changes them only by the lease of its stream.\<close>

definition quiet_flight :: "custom_ctx \<Rightarrow> bool" where
  "quiet_flight cx \<longleftrightarrow> (\<forall>n s. cs_in_flight (cx_others cx n s) = cs_in_flight s)"

abbreviation run_flight :: "custom_run \<Rightarrow> in_flight" where "run_flight r \<equiv> cs_in_flight (cr_shared r)"

fun lease_of :: "custom_reply \<Rightarrow> string \<Rightarrow> nat" where
  "lease_of (CustomStreaming _ _ ct) k = (if k = ct_credential ct then 1 else 0)"
| "lease_of _ k = 0"

fun stream_succeeded :: "custom_reply \<Rightarrow> bool" where
  "stream_succeeded (CustomStreaming status _ _) = success_status status"
| "stream_succeeded _ = True"

lemma quiet_await: "quiet_flight cx \<Longrightarrow> run_flight (custom_await cx r) = run_flight r"
  by (simp add: quiet_flight_def custom_await_def)

lemma quiet_health: "quiet_flight cx \<Longrightarrow> run_flight (write_health cx cid h c r) = run_flight r"
  by (simp add: write_health_def quiet_await)

lemma quiet_bench: "quiet_flight cx \<Longrightarrow> run_flight (bench_credential cx cid r) = run_flight r"
  by (simp add: bench_credential_def quiet_health)

lemma quiet_mark: "quiet_flight cx \<Longrightarrow> run_flight (mark_pre_stream_failure cx cid status r) = run_flight r"
  by (simp add: mark_pre_stream_failure_def quiet_health quiet_bench)

lemma release_flight: "run_flight (release_credential cid r) = drop_credential_lease cid (run_flight r)"
  by (simp add: release_credential_def)

lemmas quiet_flights = quiet_await quiet_health quiet_bench quiet_mark release_flight

lemma settle_leases:
  assumes "quiet_flight cx" "settle_answer cx tc cid answer r = (e, r')" "0 < flying (run_flight r) cid"
  shows "case e of
     AttemptDone reply \<Rightarrow> stream_succeeded reply \<and> (\<forall>k. flying (run_flight r') k + (if k = cid then 1 else 0) = flying (run_flight r) k + lease_of reply k)
   | AttemptStop reply \<Rightarrow> lease_of reply = (\<lambda>_. 0) \<and> stream_succeeded reply \<and> (\<forall>k. flying (run_flight r') k + (if k = cid then 1 else 0) = flying (run_flight r) k)
   | AttemptNext latest \<Rightarrow> (\<forall>reply. latest = Some reply \<longrightarrow> lease_of reply = (\<lambda>_. 0) \<and> stream_succeeded reply) \<and>
       (\<forall>k. flying (run_flight r') k + (if k = cid then 1 else 0) = flying (run_flight r) k)"
  using assms unfolding settle_answer_def Let_def
  by (auto simp: quiet_flights flying_drop fun_eq_iff split: send_answer.splits if_splits list.splits body_event.splits)

definition leases_kept :: "custom_run \<Rightarrow> custom_reply \<Rightarrow> custom_run \<Rightarrow> bool" where
  "leases_kept r reply r' \<longleftrightarrow>
     stream_succeeded reply \<and> (\<forall>k. flying (run_flight r') k = flying (run_flight r) k + lease_of reply k)"

definition leaseless :: "custom_reply option \<Rightarrow> bool" where
  "leaseless latest \<longleftrightarrow> (\<forall>reply. latest = Some reply \<longrightarrow> lease_of reply = (\<lambda>_. 0) \<and> stream_succeeded reply)"

lemma leaseless_or: "leaseless a \<Longrightarrow> leaseless b \<Longrightarrow> leaseless (opt_or a b)"
  by (cases a) (auto simp: leaseless_def)

lemma leaseless_default: "leaseless latest \<Longrightarrow> leases_kept r (unwrap_or latest (CustomError status message)) r"
  by (cases latest) (auto simp: leaseless_def leases_kept_def fun_eq_iff)

lemma attempt_leases:
  assumes "quiet_flight cx" "leaseless latest"
  shows "attempt_credentials cx tc n tried used latest r = (reply, used', r') \<Longrightarrow> leases_kept r reply r'"
  using assms(2)
proof (induction n arbitrary: tried used latest r)
  case 0
  then show ?case using leaseless_default by auto
next
  case (Suc n)
  obtain got flight where a: "acquire_credential (tc_provider tc) (tc_credentials tc) tried (tc_preferred tc) (run_unix r) (run_flight r)
    = (got, flight)" by (metis surj_pair)
  show ?case
  proof (cases got)
    case None
    with Suc.prems a show ?thesis using leaseless_default by auto
  next
    case (Some c)
    let ?cid = "pc_id c"
    let ?r1 = "custom_await cx (on_shared (\<lambda>s. s\<lparr>cs_in_flight := flight\<rparr>) r)"
    have taken: "flying (run_flight ?r1) k = flying (run_flight r) k + (if k = ?cid then 1 else 0)" for k
      using acquire_facts(3) [OF a [unfolded Some]] by (simp add: quiet_await [OF assms(1)] flying_put)
    have IH: "leases_kept r1 reply r'"
      if "attempt_credentials cx tc n tried' u latest' r1 = (reply, used', r')" "leaseless latest'" for tried' u latest' r1
      using Suc.IH that by blast
    have even: "leases_kept r reply r'" if "leases_kept r1 reply r'" "\<forall>k. flying (run_flight r1) k = flying (run_flight r) k" for r1
      using that by (simp add: leases_kept_def)
    show ?thesis
    proof (cases "cx_decrypt cx (cr_waits ?r1) ?cid")
      case None
      with Suc.prems a Some have "attempt_credentials cx tc n (?cid # tried) used latest (release_credential ?cid ?r1) = (reply, used', r')"
        by (simp add: Let_def)
      from even [OF IH [OF this Suc.prems(2)]] taken show ?thesis by (simp add: release_flight flying_drop)
    next
      case dec: (Some secret)
      define request where "request = \<lparr>sr_provider = cp_id (tc_provider tc), sr_credential = ?cid, sr_client = tc_client tc,
        sr_url = tc_endpoint tc, sr_headers = request_headers cx (tc_provider tc) secret, sr_body = tc_body tc, sr_budget = tc_budget tc\<rparr>"
      define r2 where "r2 = custom_await cx (?r1\<lparr>cr_sent := cr_sent ?r1 @ [request]\<rparr>)"
      have r2: "flying (run_flight r2) k = flying (run_flight r) k + (if k = ?cid then 1 else 0)" for k
        using taken by (simp add: r2_def quiet_await [OF assms(1)])
      obtain e r3 where s: "settle_answer cx tc ?cid (cx_send cx (cr_waits ?r1) request) r2 = (e, r3)" by (metis surj_pair)
      note sl = settle_leases [OF assms(1) s] r2
      show ?thesis
      proof (cases e)
        case (AttemptDone reply')
        with Suc.prems a Some dec s sl show ?thesis
          by (auto simp: Let_def request_def r2_def leases_kept_def)
      next
        case (AttemptStop reply')
        with Suc.prems a Some dec s sl show ?thesis
          by (auto simp: Let_def request_def r2_def leases_kept_def)
      next
        case (AttemptNext l)
        with Suc.prems a Some dec s have "attempt_credentials cx tc n (?cid # tried) (Some ?cid) (opt_or l latest) r3 = (reply, used', r')"
          by (simp add: Let_def request_def r2_def)
        moreover have "leaseless l" "\<forall>k. flying (run_flight r3) k = flying (run_flight r) k"
          using sl AttemptNext by (auto simp: leaseless_def)
        ultimately show ?thesis using even [OF IH] leaseless_or [OF _ Suc.prems(2)] by blast
      qed
    qed
  qed
qed

lemma leases_plain: "run_flight r1 = run_flight r \<Longrightarrow> leases_kept r (CustomError status message) r1"
  by (simp add: leases_kept_def)

lemma leases_late: "leases_kept r1 reply r2 \<Longrightarrow> run_flight r1 = run_flight r \<Longrightarrow> leases_kept r reply r2"
  by (simp add: leases_kept_def)

lemma execute_leases:
  assumes "quiet_flight cx" "execute_with_affinity cx provider model raw_body key preferred budget r = ((reply, outcome), r')"
  shows "leases_kept r reply r'"
proof -
  have attempts: "leases_kept r reply r'"
    if "attempt_credentials cx tc n [] None None r1 = (reply, used, r')" "run_flight r1 = run_flight r" for tc n used r1
    using attempt_leases [OF assms(1) _ that(1)] that(2) by (auto simp: leaseless_def intro: leases_late)
  show ?thesis using assms(2) unfolding execute_with_affinity_def Let_def
    by (auto simp: quiet_await [OF assms(1)] intro!: leases_plain elim!: attempts split: sum.splits if_splits prod.splits)
qed

lemma targets_leases:
  assumes "quiet_flight cx" "\<forall>result. latest = Some result \<longrightarrow> lease_of (fst result) = (\<lambda>_. 0) \<and> stream_succeeded (fst result)"
    and "try_targets cx tier raw_body key budget ranked latest r = (e, r')"
  shows "case e of
     Inl result \<Rightarrow> leases_kept r (fst result) r'
   | Inr latest' \<Rightarrow> (\<forall>k. flying (run_flight r') k = flying (run_flight r) k) \<and>
       (\<forall>result. latest' = Some result \<longrightarrow> lease_of (fst result) = (\<lambda>_. 0) \<and> stream_succeeded (fst result))"
  using assms(2,3)
proof (induction ranked arbitrary: latest r)
  case Nil
  then show ?case by auto
next
  case (Cons t ranked)
  obtain provider model preferred where t: "t = ((provider, model), preferred)" by (metis surj_pair)
  obtain reply outcome r1 where x: "execute_with_affinity cx provider model raw_body key preferred budget r = ((reply, outcome), r1)"
    by (metis surj_pair)
  note kept = execute_leases [OF assms(1) x]
  let ?result = "(reply, case tier of None \<Rightarrow> outcome | Some t \<Rightarrow> outcome\<lparr>ro_effective_service_tier := Some t\<rparr>)"
  show ?case
  proof (cases "success_status (reply_status reply) \<or> \<not> retryable_status (reply_status reply)")
    case True
    with Cons.prems(2) t x kept show ?thesis by (auto simp: Let_def)
  next
    case False
    then have "lease_of reply = (\<lambda>_. 0)" "stream_succeeded reply"
      using kept by (cases reply; auto simp: leases_kept_def)+
    moreover from this have "\<forall>k. flying (run_flight r1) k = flying (run_flight r) k" using kept by (simp add: leases_kept_def)
    moreover have "try_targets cx tier raw_body key budget ranked (Some ?result) r1 = (e, r')"
      using Cons.prems(2) t x False by (auto simp: Let_def)
    ultimately show ?thesis using Cons.IH [of "Some ?result" r1] by (auto simp: leases_kept_def split: sum.splits)
  qed
qed

lemma affinity_flight: "run_flight (snd (current_affinity key r)) = run_flight r"
  by (auto simp: current_affinity_def split: option.splits prod.splits)

lemma rank_loop_flight:
  "quiet_flight cx \<Longrightarrow> run_flight (snd (rank_loop cx wire_api required affinity now targets r)) = run_flight r"
  by (induction cx wire_api required affinity now targets r rule: rank_loop.induct)
    (auto simp: Let_def quiet_await split: prod.splits)

lemma rank_flight:
  "quiet_flight cx \<Longrightarrow> run_flight (snd (rank_eligible_targets cx targets wire_api required affinity key r)) = run_flight r"
  using rank_loop_flight [of cx wire_api required affinity "run_unix r" targets r]
  by (auto simp: rank_eligible_targets_def Let_def split: prod.splits)

lemma polls_flight:
  "quiet_flight cx \<Longrightarrow> run_flight (snd (relay_polls cx ct n events co r)) = run_flight r"
proof (induction n arbitrary: events co r)
  case (Suc n)
  then show ?case
    by (auto simp: Let_def quiet_await quiet_bench record_affinity_def split: list.splits body_event.splits prod.splits option.splits)
      (metis quiet_await snd_conv)+
qed simp

lemma stream_flight:
  "quiet_flight cx \<Longrightarrow> run_flight (snd (relay_stream cx ct polls r)) = drop_credential_lease (ct_credential ct) (run_flight r)"
  using polls_flight [of cx ct _ "ct_rest ct" "ct_completion ct" r]
  by (auto simp: relay_stream_def release_flight split: nat.splits prod.splits) (metis snd_conv)+

lemma leases_default:
  assumes "\<forall>result. latest = Some result \<longrightarrow> lease_of (fst result) = (\<lambda>_. 0) \<and> stream_succeeded (fst result)"
    and "\<forall>k. flying (run_flight r') k = flying (run_flight r) k"
  shows "leases_kept r (fst (unwrap_or latest (CustomError status message, outcome))) r'"
  using assms by (cases latest) (auto simp: leases_kept_def)

lemma request_leases:
  assumes q: "quiet_flight cx" and x: "execute_targets cx targets wire_api raw_body override budget r = (result, r')"
  shows "leases_kept r (fst result) r'"
proof (cases targets)
  case Nil
  with x show ?thesis by (auto simp: execute_targets_def no_target_def intro: leases_plain)
next
  case (Cons t ts)
  obtain p first_model where t: "t = (p, first_model)" by (metis surj_pair)
  define required where "required = request_capabilities (custom_env.truncate cx) raw_body wire_api"
  define b where "b = (if has_origin_fallback cx targets then 0 else budget)"
  define key where "key = request_affinity_key cx raw_body (pm_public_model first_model) wire_api override"
  obtain affinity ra where a: "current_affinity key r = (affinity, ra)" by (metis surj_pair)
  obtain ranked rb where rk: "rank_eligible_targets cx targets wire_api required affinity key ra = (ranked, rb)" by (metis surj_pair)
  have fb: "run_flight rb = run_flight r"
    using affinity_flight [of key r] rank_flight [OF q, of targets wire_api required affinity key ra] a rk by simp
  have late: "leases_kept r1 rep r2 \<Longrightarrow> \<forall>k. flying (run_flight r1) k = flying (run_flight r) k \<Longrightarrow> leases_kept r rep r2" for r1 rep r2
    by (simp add: leases_kept_def)
  note unf = x [unfolded execute_targets_def Cons t list.case prod.case Let_def, folded t Cons, folded required_def b_def key_def,
      unfolded a rk prod.case]
  show ?thesis
  proof (cases "rq_priority required")
    case False
    obtain e rc where tr: "try_targets cx None raw_body key b ranked None rb = (e, rc)" by (metis surj_pair)
    note l = targets_leases [OF q _ tr]
    show ?thesis using unf False tr l fb
      by (cases e) (auto simp: no_target_def intro: leases_default late)
  next
    case True
    obtain e rc where tr: "try_targets cx (Some ''priority'') raw_body key b ranked None rb = (e, rc)" by (metis surj_pair)
    note l = targets_leases [OF q _ tr]
    show ?thesis
    proof (cases e)
      case (Inl res)
      then show ?thesis using unf True tr l fb by (auto intro: late)
    next
      case (Inr last_priority)
      have fc: "\<forall>k. flying (run_flight rc) k = flying (run_flight r) k" using l Inr fb by simp
      have lp: "\<forall>result. last_priority = Some result \<longrightarrow> lease_of (fst result) = (\<lambda>_. 0) \<and> stream_succeeded (fst result)"
        using l Inr by simp
      show ?thesis
      proof (cases "without_priority_service_tier (custom_env.truncate cx) raw_body")
        case None
        then show ?thesis using unf True tr Inr lp fc by (auto intro!: leases_default)
      next
        case (Some standard)
        obtain ranked' rd where rk': "rank_eligible_targets cx targets wire_api (required\<lparr>rq_priority := False\<rparr>) affinity key rc = (ranked', rd)"
          by (metis surj_pair)
        obtain e' re where tr': "try_targets cx (Some ''standard'') standard key b ranked' None rd = (e', re)" by (metis surj_pair)
        have fd: "\<forall>k. flying (run_flight rd) k = flying (run_flight r) k"
          using rank_flight [OF q, of targets wire_api "required\<lparr>rq_priority := False\<rparr>" affinity key rc] rk' fc by simp
        note l' = targets_leases [OF q _ tr']
        show ?thesis
        proof (cases e')
          case (Inl res)
          then show ?thesis using unf True tr Inr Some rk' tr' l' fd by (auto intro: late)
        next
          case Inr': (Inr last_standard)
          have "\<forall>result. opt_or last_standard last_priority = Some result \<longrightarrow> lease_of (fst result) = (\<lambda>_. 0) \<and> stream_succeeded (fst result)"
            using l' Inr' lp by (cases last_standard) auto
          moreover have "\<forall>k. flying (run_flight re) k = flying (run_flight r) k" using l' Inr' fd by simp
          ultimately show ?thesis using unf True tr Inr Some rk' tr' Inr'
            by (auto simp: no_target_def intro!: leases_default)
        qed
      qed
    qed
  qed
qed

text \<open>
  C38: No credential is leaked: when a request over custom providers has been answered, the counts in flight are what
  they were, plus one on the credential of the stream it is relaying; and however far that stream is read before it
  ends, fails or is dropped, afterwards they are what they were. The other requests are taken to leave the counts
  alone meanwhile.
\<close>

theorem credentials_come_back:
  assumes "quiet_flight cx" "execute_targets cx targets wire_api raw_body override budget r = ((reply, outcome), r')"
  shows "(\<forall>k. flying (run_flight r') k = flying (run_flight r) k + lease_of reply k) \<and>
    (\<forall>status hs ct polls k. reply = CustomStreaming status hs ct \<longrightarrow>
       flying (run_flight (snd (relay_stream cx ct polls r'))) k = flying (run_flight r) k)"
  using request_leases [OF assms] stream_flight [OF assms(1)]
  by (auto simp: leases_kept_def flying_drop)

definition demo_url :: custom_url where
  "demo_url = \<lparr>cu_scheme = ''https'', cu_username = '''', cu_password = None, cu_query = None, cu_fragment = None,
     cu_host = Some ''api.example'', cu_port = Some 443, cu_path = ''/v1''\<rparr>"

definition demo_inbound :: inbound_env where
  "demo_inbound = \<lparr>ie_object = \<lambda>_. None, ie_array = \<lambda>_. None, ie_string = \<lambda>_. None, ie_bool = \<lambda>_. None, ie_u64 = \<lambda>_. None,
     ie_value = \<lambda>_. None, ie_print = \<lambda>_. '''', ie_sha256_hex = \<lambda>s. s\<rparr>"

definition demo_answer :: upstream_answer where
  "demo_answer = \<lparr>ua_status = 200, ua_headers = [], ua_body = [BodyChunk ''a'', BodyChunk ''b'']\<rparr>"

definition demo_ctx :: custom_ctx where
  "demo_ctx = \<lparr>ce_parse_url = \<lambda>_. Some demo_url, ce_print_url = \<lambda>_. ''https://api.example/v1'',
     ce_url_parts = \<lambda>_. Some \<lparr>url_scheme = ''https'', url_host = Some ''api.example'', url_port = Some ''443''\<rparr>,
     ce_parse_ip = \<lambda>_. None, ce_lookup_host = \<lambda>_ _. Some [V4 8 8 8 8], ce_parse_json = \<lambda>_. Some (JObj []),
     ce_print_json = \<lambda>_. '''', ce_sha256_hex = \<lambda>s. s, ce_sha256_u64 = \<lambda>_. 0, ce_ln = \<lambda>x. x,
     ce_parse_overrides = \<lambda>_. None, cx_inbound_env = demo_inbound, cx_inbound = \<lambda>_. None, cx_to_str = Some,
     cx_prompt_cache_key = \<lambda>_. None, cx_others = \<lambda>_ s. s, cx_list_fails = \<lambda>_. False, cx_decrypt = \<lambda>_ _. Some ''secret'',
     cx_send = \<lambda>_ _. SendResponse demo_answer\<rparr>"

definition demo_model :: provider_model where
  "demo_model = \<lparr>pm_id = ''m'', pm_public_model = ''public'', pm_upstream_model = ''up'', pm_supports_tools = False,
     pm_supports_vision = False, pm_supports_parallel_tool_calls = False, pm_supports_web_search = False,
     pm_supports_reasoning_summaries = False, pm_model_info_json = None, pm_instruction_mode = ''none'',
     pm_instruction_text = '''', pm_request_overrides_json = ''{}'', pm_prices = no_prices\<rparr>"

definition demo_run :: custom_run where
  "demo_run = \<lparr>cr_shared = \<lparr>cs_in_flight = [], cs_affinity = \<lparr>ac_entries = [], ac_ttl = 0, ac_max_entries = 0\<rparr>,
     cs_fair = \<lparr>sc_entries = [], sc_ttl = 0, sc_max_entries = 0\<rparr>, cs_clients = [], cs_credentials = [demo_credential],
     cs_unix = 0, cs_now = 0\<rparr>, cr_waits = 0, cr_sent = []\<rparr>"

definition demo_result :: "(custom_reply \<times> custom_route_outcome) \<times> custom_run" where
  "demo_result = execute_targets demo_ctx [(demo_provider, demo_model)] ''responses'' ''body'' None 0 demo_run"

lemmas demo_defs = demo_ctx_def demo_run_def demo_provider_def demo_model_def demo_credential_def demo_url_def demo_answer_def

lemma demo_endpoint:
  "validate_endpoint (custom_env.truncate demo_ctx) demo_provider = Inr (demo_url\<lparr>cu_path := ''/v1/responses''\<rparr>)"
  by (simp add: validate_endpoint_def validate_provider_url_def demo_defs custom_env.truncate_def parse_url_host_ip_def
      ends_with_def strip_suffix_def strip_prefix_def str_lower_def char_lower_def trim_end_by_def Let_def is_some_and_def)

lemma demo_target: "target_supports (custom_env.truncate demo_ctx) demo_provider demo_model ''responses'' no_capabilities"
  by (simp add: target_supports_def no_capabilities_def demo_defs)

lemma demo_needs: "request_capabilities (custom_env.truncate demo_ctx) ''body'' ''responses'' = no_capabilities"
  by (simp add: request_capabilities_def capabilities_of_def no_capabilities_def demo_ctx_def custom_env.truncate_def jget_str_def
      is_some_and_def)

lemma demo_rows: "list_credentials ''p'' [demo_credential] = [demo_credential]"
  by (simp add: list_credentials_def demo_credential_def)

lemma demo_body: "custom_body (custom_env.truncate demo_ctx) demo_provider demo_model ''body'' = Inr (None, JObj [(''model'', JStr ''up'')])"
  by (simp add: custom_body_def demo_defs custom_env.truncate_def apply_model_profile_def profile_revision_def)

lemma demo_pin: "pin_host (custom_env.truncate demo_ctx) demo_provider (demo_url\<lparr>cu_path := ''/v1/responses''\<rparr>) = Inr (Some (''api.example'', V4 8 8 8 8))"
  by (simp add: pin_host_def demo_defs custom_env.truncate_def parse_url_host_ip_def strip_prefix_def is_public_v4_def
      v4_private_def v4_documentation_def Let_def)

lemma demo_best: "best_credential demo_provider [demo_credential] [] None 0 [] = Some (demo_credential, F_Num 0)"
  by (simp add: best_credential_def credential_is_eligible_def demo_provider_def demo_credential_def
      provider_flying_def flying_def usize_of_i64_def is_some_and_def credential_pressure_def f64_of_nat_def fdiv_def fzero_def)

lemma demo_ids [simp]: "cp_id demo_provider = ''p''" "pc_id demo_credential = ''k''" "pm_public_model demo_model = ''public''"
  "pm_id demo_model = ''m''" "cp_updated_at demo_provider = 0" "cp_wire_api demo_provider = ''responses''"
  by (simp_all add: demo_defs)

lemma demo_client:
  "http_client_at (custom_env.truncate demo_ctx) demo_provider (demo_url\<lparr>cu_path := ''/v1/responses''\<rparr>) now [] =
     (Inr \<lparr>hc_connect_timeout_ms = 10000, hc_pinned = Some (''api.example'', V4 8 8 8 8)\<rparr>,
      [((''p'', 0), \<lparr>cc_client = \<lparr>hc_connect_timeout_ms = 10000, hc_pinned = Some (''api.example'', V4 8 8 8 8)\<rparr>,
        cc_expires_at = now + http_client_dns_ttl\<rparr>)])"
  by (simp add: http_client_at_def demo_pin Let_def tbl_retain_def) (simp add: demo_provider_def)

lemma demo_ctx_calls [simp]: "cx_others demo_ctx n s = s" "cx_list_fails demo_ctx n = False" "cx_decrypt demo_ctx n k = Some ''secret''"
  "cx_send demo_ctx n q = SendResponse demo_answer" "cx_prompt_cache_key demo_ctx b = None"
  by (simp_all add: demo_ctx_def)

lemma demo_execute:
  assumes "cs_in_flight (cr_shared r) = []" "cs_clients (cr_shared r) = []" "cs_credentials (cr_shared r) = [demo_credential]" "cs_unix (cr_shared r) = 0"
  obtains hs ct outcome r' where "execute_with_affinity demo_ctx demo_provider demo_model ''body'' None None 0 r =
    ((CustomStreaming 200 hs ct, outcome), r')" "ct_credential ct = ''k''" "cr_sent r' \<noteq> []"
proof -
  have "max_target_attempts demo_provider [demo_credential] = 1"
    by (simp add: max_target_attempts_def demo_provider_def sat_i64_def i64_max_def i64_min_def)
  moreover have "origin_parse (ce_url_parts demo_ctx) (ce_print_url demo_ctx u) \<noteq> None" for u
    by (simp add: origin_parse_def demo_ctx_def)
  ultimately show ?thesis using assms demo_acquire
    by (intro that) (auto simp: execute_with_affinity_def Let_def demo_endpoint demo_body demo_rows demo_client custom_await_def
        settle_answer_def demo_answer_def write_health_def numeral_1_eq_Suc_0 One_nat_def)
qed

lemma demo_rank:
  obtains r' where "rank_eligible_targets demo_ctx [(demo_provider, demo_model)] ''responses'' no_capabilities None None demo_run =
    ([((demo_provider, demo_model), None)], r')" "cr_shared r' = cr_shared demo_run"
proof -
  let ?t = "rank_target None 0 [] demo_provider demo_model [demo_credential]"
  obtain t where t: "?t = Some t" "rk_provider t = demo_provider" "rk_model t = demo_model" "rk_preferred t = None"
    by (simp add: rank_target_def demo_best Let_def)
  let ?r = "custom_await demo_ctx demo_run"
  have loop: "rank_loop demo_ctx ''responses'' no_capabilities None 0 [(demo_provider, demo_model)] demo_run = ([t], ?r)"
    using t(1) by (simp add: demo_target Let_def custom_await_def demo_run_def demo_rows)
  have "order_targets env scope None now [t] \<lparr>sc_entries = [], sc_ttl = 0, sc_max_entries = 0\<rparr> =
      ([t], \<lparr>sc_entries = [], sc_ttl = 0, sc_max_entries = 0\<rparr>)" for env scope now
    using t(4) by (simp add: order_targets_def smooth_select_def smooth_prune_def tbl_retain_def Let_def)
  with loop t show ?thesis
    by (intro that) (auto simp: rank_eligible_targets_def Let_def custom_await_def demo_run_def)
qed

lemma demo_streams:
  obtains hs ct outcome r' where "demo_result = ((CustomStreaming 200 hs ct, outcome), r')" "ct_credential ct = ''k''" "cr_sent r' \<noteq> []"
proof -
  obtain r1 where rk: "rank_eligible_targets demo_ctx [(demo_provider, demo_model)] ''responses'' no_capabilities None None demo_run =
    ([((demo_provider, demo_model), None)], r1)" "cr_shared r1 = cr_shared demo_run" by (rule demo_rank)
  obtain hs ct outcome r' where x: "execute_with_affinity demo_ctx demo_provider demo_model ''body'' None None 0 r1 =
    ((CustomStreaming 200 hs ct, outcome), r')" "ct_credential ct = ''k''" "cr_sent r' \<noteq> []"
    by (rule demo_execute [of r1]) (use rk(2) in \<open>auto simp: demo_run_def\<close>)
  have "request_affinity_key demo_ctx ''body'' ''public'' ''responses'' None = None" by (simp add: request_affinity_key_def)
  with rk(1) x that show ?thesis
    by (simp add: demo_result_def execute_targets_def demo_needs Let_def current_affinity_def no_capabilities_def)
qed

theorem credentials_come_back_witness:
  "lease_of (fst (fst demo_result)) ''k'' = 1 \<and> flying (run_flight (snd demo_result)) ''k'' = 1 \<and>
   (\<forall>polls. flying (run_flight (snd (relay_stream demo_ctx (case fst (fst demo_result) of CustomStreaming _ _ ct \<Rightarrow> ct) polls
      (snd demo_result)))) ''k'' = 0)"
proof -
  obtain hs ct outcome r' where d: "demo_result = ((CustomStreaming 200 hs ct, outcome), r')" "ct_credential ct = ''k''"
    by (rule demo_streams)
  have "flying (run_flight demo_run) k = 0" for k by (simp add: demo_run_def flying_def)
  then show ?thesis unfolding d(1)
    using credentials_come_back [of demo_ctx, OF _ d(1) [unfolded demo_result_def]] d(2) by (auto simp: quiet_flight_def)
qed

end
