(* ===== verification/Custom_Sends.thy ===== *)
theory Custom_Sends
  imports Custom_Limits
begin

text \<open>
  What a request over operator-defined upstreams sends: to the endpoint of a target that has what the request
  needs, under the upstream's name of the model, and, unless the provider allows private hosts, over HTTPS to a
  public address that the client can not be diverted from.
\<close>

section \<open>Clients\<close>

definition reaches_public :: "custom_env \<Rightarrow> custom_url \<Rightarrow> http_client \<Rightarrow> bool" where
  "reaches_public env url client \<longleftrightarrow> cu_scheme url = ''https'' \<and>
     (\<exists>host. cu_host url = Some host \<and>
       (case parse_url_host_ip (ce_parse_ip env) host of
          Some ip \<Rightarrow> is_public_ip ip
        | None \<Rightarrow> \<exists>ip. hc_pinned client = Some (host, ip) \<and> is_public_ip ip))"

definition clients_ok :: "custom_env \<Rightarrow> custom_provider set \<Rightarrow> client_cache \<Rightarrow> bool" where
  "clients_ok env rows cache \<longleftrightarrow> tbl_ok cache \<and>
     (\<forall>p \<in> rows. \<forall>url c. \<not> cp_allow_private_hosts p \<longrightarrow> validate_endpoint env p = Inr url \<longrightarrow>
        tbl_get cache (cp_id p, cp_updated_at p) = Some c \<longrightarrow> reaches_public env url (cc_client c))"

lemma endpoint_facts:
  assumes "validate_endpoint env p = Inr url" "\<not> cp_allow_private_hosts p"
  shows "cu_scheme url = ''https'' \<and> (\<exists>host. cu_host url = Some host \<and>
    (\<forall>ip. parse_url_host_ip (ce_parse_ip env) host = Some ip \<longrightarrow> is_public_ip ip))"
  using assms by (auto simp: validate_endpoint_def validate_provider_url_def Let_def is_some_and_def
      split: if_splits option.splits)

lemma pin_facts:
  assumes "validate_endpoint env p = Inr url" "\<not> cp_allow_private_hosts p" "pin_host env p url = Inr pinned"
  shows "reaches_public env url \<lparr>hc_connect_timeout_ms = t, hc_pinned = pinned\<rparr>"
proof -
  obtain host where h: "cu_scheme url = ''https''" "cu_host url = Some host"
    "\<And>ip. parse_url_host_ip (ce_parse_ip env) host = Some ip \<Longrightarrow> is_public_ip ip"
    using endpoint_facts [OF assms(1,2)] by blast
  have "is_public_ip (as ! 0)" if "as \<noteq> []" "\<not> list_ex (\<lambda>a. \<not> is_public_ip a) as" for as
    using that by (cases as) auto
  with h assms(2,3) show ?thesis
    by (auto simp: reaches_public_def pin_host_def split: option.splits if_splits)
qed

lemma client_step:
  assumes "clients_ok env rows cache" "inj_on (\<lambda>p. (cp_id p, cp_updated_at p)) rows" "p \<in> rows"
    and "validate_endpoint env p = Inr url" "http_client_at env p url now cache = (res, cache')"
  shows "clients_ok env rows cache'" "\<And>c. res = Inr c \<Longrightarrow> \<not> cp_allow_private_hosts p \<Longrightarrow> reaches_public env url c"
proof -
  let ?k = "(cp_id p, cp_updated_at p)"
  have ok: "tbl_ok cache" using assms(1) by (simp add: clients_ok_def)
  show "\<And>c. res = Inr c \<Longrightarrow> \<not> cp_allow_private_hosts p \<Longrightarrow> reaches_public env url c"
    using assms pin_facts [OF assms(4)] unfolding http_client_at_def Let_def clients_ok_def
    by (auto simp: opt_filter_Some split: option.splits sum.splits)
  have same: "q = p" if "q \<in> rows" "cp_id q = cp_id p" "cp_updated_at q = cp_updated_at p" for q
    using assms(2,3) that by (auto dest: inj_onD)
  show "clients_ok env rows cache'"
  proof (cases "opt_filter (\<lambda>c. now < cc_expires_at c) (tbl_get cache ?k)")
    case (Some c)
    with assms(1,5) show ?thesis by (auto simp: http_client_at_def)
  next
    case None
    show ?thesis
    proof (cases "pin_host env p url")
      case (Inl m)
      with None assms(1,5) ok show ?thesis by (auto simp: http_client_at_def Let_def clients_ok_def tbl_simps split: if_splits)
    next
      case (Inr pinned)
      have kept: "tbl_get (tbl_retain (\<lambda>k _. fst k \<noteq> cp_id p) (tbl_del cache ?k)) k = Some c \<Longrightarrow> tbl_get cache k = Some c" for k c
        using ok by (auto simp: tbl_simps opt_filter_Some split: if_splits)
      define client where "client = \<lparr>hc_connect_timeout_ms = nat (max (cp_connect_timeout_ms p) 100), hc_pinned = pinned\<rparr>"
      have c': "cache' = tbl_put (tbl_retain (\<lambda>k _. fst k \<noteq> cp_id p) (tbl_del cache ?k)) ?k
          \<lparr>cc_client = client, cc_expires_at = now + http_client_dns_ttl\<rparr>"
        using None Inr assms(5) by (simp add: http_client_at_def Let_def client_def)
      have new: "reaches_public env url' client" if "\<not> cp_allow_private_hosts p" "validate_endpoint env p = Inr url'" for url'
        using that assms(4) pin_facts [OF assms(4) that(1) Inr] by (simp add: client_def)
      show ?thesis unfolding clients_ok_def c'
      proof (intro conjI ballI allI impI, goal_cases)
        case 1
        show ?case using ok by simp
      next
        case (2 q url' c)
        then show ?case using same [of q] new kept assms(1)
          by (cases "cp_id q = cp_id p \<and> cp_updated_at q = cp_updated_at p") (auto simp: tbl_get_put clients_ok_def)
      qed
    qed
  qed
qed

lemma evict_clients: "clients_ok env rows cache \<Longrightarrow> clients_ok env rows (evict_provider_client provider_id cache)"
  by (auto simp: clients_ok_def evict_provider_client_def tbl_simps opt_filter_Some)

section \<open>Bodies\<close>

lemma instructions_keep:
  "apply_instructions field model obj = Inr obj' \<Longrightarrow> k \<noteq> field \<Longrightarrow> map_of obj' k = map_of obj k"
  by (auto simp: apply_instructions_def Let_def obj_put_get split: if_splits)

lemma profile_keeps:
  assumes "k \<notin> {''instructions'', ''reasoning'', ''max_output_tokens''}" "apply_model_profile env model obj = Inr (revision, obj')"
  shows "map_of obj' k = map_of obj k"
  using assms by (auto simp: apply_model_profile_def Let_def obj_put_get dest: instructions_keep
      split: option.splits if_splits sum.splits prod.splits json.splits)

lemma anthropic_profile_keeps:
  assumes "k \<notin> {''system'', ''max_tokens''}" "apply_anthropic_model_profile env model obj = Inr (revision, obj')"
  shows "map_of obj' k = map_of obj k"
  using assms by (auto simp: apply_anthropic_model_profile_def Let_def obj_put_get dest: instructions_keep
      split: option.splits if_splits sum.splits prod.splits)

lemma custom_body_facts:
  assumes "custom_body env provider model raw_body = Inr (revision, body)"
  shows "jget ''model'' body = Some (JStr (pm_upstream_model model)) \<and>
    (cp_wire_api provider = ''responses'' \<and> cp_stateless_responses provider \<longrightarrow> jget ''previous_response_id'' body = None)"
  using assms unfolding custom_body_def Let_def
  by (auto simp: obj_put_get delete_conv profile_keeps anthropic_profile_keeps
      split: option.splits json.splits sum.splits if_splits prod.splits)

section \<open>Requests\<close>

definition calm_clients :: "custom_ctx \<Rightarrow> custom_provider set \<Rightarrow> bool" where
  "calm_clients cx rows \<longleftrightarrow> (\<forall>n s. clients_ok (custom_env.truncate cx) rows (cs_clients s) \<longrightarrow>
     clients_ok (custom_env.truncate cx) rows (cs_clients (cx_others cx n s)))"

abbreviation run_clients :: "custom_run \<Rightarrow> client_cache" where "run_clients r \<equiv> cs_clients (cr_shared r)"

definition good_run :: "custom_ctx \<Rightarrow> custom_provider set \<Rightarrow> custom_run \<Rightarrow> bool" where
  "good_run cx rows r \<longleftrightarrow> clients_ok (custom_env.truncate cx) rows (run_clients r)"

text \<open>From one state to another the cache stays good and every new request satisfies \<open>P\<close>.\<close>

definition sends :: "custom_ctx \<Rightarrow> custom_provider set \<Rightarrow> (sent_request \<Rightarrow> bool) \<Rightarrow> custom_run \<Rightarrow> custom_run \<Rightarrow> bool" where
  "sends cx rows P r r' \<longleftrightarrow> (good_run cx rows r \<longrightarrow> good_run cx rows r') \<and>
     (\<exists>new. cr_sent r' = cr_sent r @ new \<and> (\<forall>q \<in> set new. P q))"

lemma sends_refl [simp]: "sends cx rows P r r"
  by (simp add: sends_def)

lemma sends_trans [trans]: "sends cx rows P r r1 \<Longrightarrow> sends cx rows P r1 r2 \<Longrightarrow> sends cx rows P r r2"
  by (auto simp: sends_def)

lemma sends_await: "calm_clients cx rows \<Longrightarrow> sends cx rows P r (custom_await cx r)"
  by (auto simp: sends_def calm_clients_def custom_await_def good_run_def)

lemma sends_quiet: "run_clients r' = run_clients r \<Longrightarrow> cr_sent r' = cr_sent r \<Longrightarrow> sends cx rows P r r'"
  by (simp add: sends_def good_run_def)

lemma sends_shared: "(\<And>s. cs_clients (f s) = cs_clients s) \<Longrightarrow> sends cx rows P r (on_shared f r)"
  by (rule sends_quiet) simp_all

lemma sends_health: "calm_clients cx rows \<Longrightarrow> sends cx rows P r (write_health cx cid h c r)"
  unfolding write_health_def by (rule sends_trans [OF sends_shared sends_await]) simp_all

lemma sends_bench: "calm_clients cx rows \<Longrightarrow> sends cx rows P r (bench_credential cx cid r)"
  unfolding bench_credential_def by (rule sends_health)

lemma sends_mark: "calm_clients cx rows \<Longrightarrow> sends cx rows P r (mark_pre_stream_failure cx cid status r)"
  by (simp add: mark_pre_stream_failure_def sends_health sends_bench)

lemma sends_release: "sends cx rows P r (release_credential cid r)"
  unfolding release_credential_def by (rule sends_shared) simp

lemma settle_sends:
  assumes "calm_clients cx rows" "settle_answer cx tc cid answer r = (e, r')"
  shows "sends cx rows P r r'"
proof -
  note steps = sends_release sends_trans [OF sends_bench sends_release] sends_trans [OF sends_trans [OF sends_mark sends_await] sends_release]
    sends_trans [OF sends_await sends_health] sends_trans [OF sends_await sends_trans [OF sends_bench sends_release]]
  show ?thesis using assms unfolding settle_answer_def Let_def
    by (auto intro: steps split: send_answer.splits if_splits list.splits body_event.splits)
qed

lemma attempt_sends:
  assumes calm: "calm_clients cx rows"
    and P: "\<And>q. sr_provider q = cp_id (tc_provider tc) \<Longrightarrow> sr_url q = tc_endpoint tc \<Longrightarrow> sr_client q = tc_client tc \<Longrightarrow>
      sr_body q = tc_body tc \<Longrightarrow> P q"
  shows "attempt_credentials cx tc n tried used latest r = (reply, used', r') \<Longrightarrow> sends cx rows P r r'"
proof (induction n arbitrary: tried used latest r)
  case (Suc n)
  obtain got flight where a: "acquire_credential (tc_provider tc) (tc_credentials tc) tried (tc_preferred tc) (run_unix r) (run_flight r)
    = (got, flight)" by (metis surj_pair)
  show ?case
  proof (cases got)
    case None
    with Suc.prems a show ?thesis by auto
  next
    case (Some c)
    let ?r1 = "custom_await cx (on_shared (\<lambda>s. s\<lparr>cs_in_flight := flight\<rparr>) r)"
    have 1: "sends cx rows P r ?r1" by (rule sends_trans [OF sends_shared sends_await [OF calm]]) simp
    show ?thesis
    proof (cases "cx_decrypt cx (cr_waits ?r1) (pc_id c)")
      case None
      with Suc.prems a Some have "attempt_credentials cx tc n (pc_id c # tried) used latest (release_credential (pc_id c) ?r1) = (reply, used', r')"
        by (simp add: Let_def)
      from sends_trans [OF 1 sends_trans [OF sends_release Suc.IH [OF this]]] show ?thesis .
    next
      case dec: (Some secret)
      define request where "request = \<lparr>sr_provider = cp_id (tc_provider tc), sr_credential = pc_id c, sr_client = tc_client tc,
        sr_url = tc_endpoint tc, sr_headers = request_headers cx (tc_provider tc) secret, sr_body = tc_body tc, sr_budget = tc_budget tc\<rparr>"
      define r2 where "r2 = custom_await cx (?r1\<lparr>cr_sent := cr_sent ?r1 @ [request]\<rparr>)"
      have "P request" by (rule P) (simp_all add: request_def)
      then have "sends cx rows P ?r1 (?r1\<lparr>cr_sent := cr_sent ?r1 @ [request]\<rparr>)" by (simp add: sends_def good_run_def)
      then have 2: "sends cx rows P r r2" unfolding r2_def using 1 sends_await [OF calm] sends_trans by blast
      obtain e r3 where s: "settle_answer cx tc (pc_id c) (cx_send cx (cr_waits ?r1) request) r2 = (e, r3)" by (metis surj_pair)
      from sends_trans [OF 2 settle_sends [OF calm s]] have 3: "sends cx rows P r r3" .
      show ?thesis
      proof (cases e)
        case (AttemptNext l)
        with Suc.prems a Some dec s have "attempt_credentials cx tc n (pc_id c # tried) (Some (pc_id c)) (opt_or l latest) r3 = (reply, used', r')"
          by (simp add: Let_def request_def r2_def)
        from sends_trans [OF 3 Suc.IH [OF this]] show ?thesis .
      qed (use Suc.prems a Some dec s 3 in \<open>auto simp: Let_def request_def r2_def\<close>)
    qed
  qed
qed auto

section \<open>Targets\<close>

definition sound_send :: "custom_ctx \<Rightarrow> custom_target \<Rightarrow> sent_request \<Rightarrow> bool" where
  "sound_send cx target q \<longleftrightarrow> (case target of (provider, model) \<Rightarrow>
     sr_provider q = cp_id provider \<and> validate_endpoint (custom_env.truncate cx) provider = Inr (sr_url q) \<and>
     jget ''model'' (sr_body q) = Some (JStr (pm_upstream_model model)) \<and>
     (cp_wire_api provider = ''responses'' \<and> cp_stateless_responses provider \<longrightarrow>
        jget ''previous_response_id'' (sr_body q) = None) \<and>
     (\<not> cp_allow_private_hosts provider \<longrightarrow> reaches_public (custom_env.truncate cx) (sr_url q) (sr_client q)))"

definition keyed_rows :: "custom_provider set \<Rightarrow> bool" where
  "keyed_rows rows \<longleftrightarrow> inj_on (\<lambda>p. (cp_id p, cp_updated_at p)) rows"

lemma execute_sends:
  assumes calm: "calm_clients cx rows" and rows: "keyed_rows rows" "provider \<in> rows" and good: "good_run cx rows r"
    and x: "execute_with_affinity cx provider model raw_body key preferred budget r = (result, r')"
  shows "sends cx rows (sound_send cx (provider, model)) r r'"
proof (cases "validate_endpoint (custom_env.truncate cx) provider")
  case (Inl message)
  with x show ?thesis by (auto simp: execute_with_affinity_def Let_def)
next
  case ep: (Inr url)
  show ?thesis
  proof (cases "origin_parse (ce_url_parts cx) (ce_print_url cx url)")
    case None
    with x ep show ?thesis by (auto simp: execute_with_affinity_def Let_def)
  next
    case og: (Some origin)
    show ?thesis
    proof (cases "custom_body (custom_env.truncate cx) provider model raw_body")
      case (Inl e)
      with x ep og show ?thesis by (auto simp: execute_with_affinity_def Let_def split: prod.splits)
    next
      case body: (Inr rb)
      obtain revision body where rb: "rb = (revision, body)" by (metis surj_pair)
      let ?r1 = "custom_await cx r"
      have 1: "sends cx rows (sound_send cx (provider, model)) r ?r1" by (rule sends_await [OF calm])
      obtain client clients where hc: "http_client_at (custom_env.truncate cx) provider url (run_now ?r1) (run_clients ?r1) = (client, clients)"
        by (metis surj_pair)
      let ?r2 = "custom_await cx (on_shared (\<lambda>s. s\<lparr>cs_clients := clients\<rparr>) ?r1)"
      have g1: "good_run cx rows ?r1" using good 1 by (simp add: sends_def)
      note step = client_step [OF g1 [unfolded good_run_def] rows(1) [unfolded keyed_rows_def] rows(2) ep hc]
      have "sends cx rows (sound_send cx (provider, model)) ?r1 (on_shared (\<lambda>s. s\<lparr>cs_clients := clients\<rparr>) ?r1)"
        using step(1) by (simp add: sends_def good_run_def)
      then have 2: "sends cx rows (sound_send cx (provider, model)) r ?r2" using 1 sends_await [OF calm] sends_trans by blast
      show ?thesis
      proof (cases "cx_list_fails cx (cr_waits ?r1)")
        case True
        with x ep og body rb 1 show ?thesis by (auto simp: execute_with_affinity_def Let_def)
      next
        case ok: False
        show ?thesis
        proof (cases client)
          case (Inl e)
          with x ep og body rb ok hc 2 show ?thesis by (auto simp: execute_with_affinity_def Let_def)
        next
          case (Inr c)
          define tc where "tc = \<lparr>tc_provider = provider, tc_client = c, tc_endpoint = url, tc_body = body,
            tc_credentials = list_credentials (cp_id provider) (cs_credentials (cr_shared ?r1)), tc_affinity_key = key,
            tc_preferred = preferred, tc_budget = budget\<rparr>"
          obtain reply used r3 where a: "attempt_credentials cx tc (max_target_attempts provider (tc_credentials tc)) [] None None ?r2 = (reply, used, r3)"
            by (metis surj_pair)
          have "sends cx rows (sound_send cx (provider, model)) ?r2 r3"
          proof (rule attempt_sends [OF calm _ a])
            fix q :: sent_request assume "sr_provider q = cp_id (tc_provider tc)" "sr_url q = tc_endpoint tc" "sr_client q = tc_client tc" "sr_body q = tc_body tc"
            then show "sound_send cx (provider, model) q"
              using ep step(2) [OF Inr] custom_body_facts [OF body [unfolded rb]] by (simp add: sound_send_def tc_def)
          qed
          moreover have "r' = r3" using x ep og body rb ok hc Inr a by (simp add: execute_with_affinity_def Let_def tc_def)
          ultimately show ?thesis using 2 sends_trans by blast
        qed
      qed
    qed
  qed
qed

lemma sends_mono: "sends cx rows P r r' \<Longrightarrow> (\<And>q. P q \<Longrightarrow> Q q) \<Longrightarrow> sends cx rows Q r r'"
  by (auto simp: sends_def)

lemma targets_send:
  assumes calm: "calm_clients cx rows" and rows: "keyed_rows rows"
    and P: "\<And>t q. t \<in> fst ` set ranked \<Longrightarrow> fst t \<in> rows \<and> (sound_send cx t q \<longrightarrow> P q)"
  shows "good_run cx rows r \<Longrightarrow> try_targets cx tier raw_body key budget ranked latest r = (e, r') \<Longrightarrow> sends cx rows P r r'"
  using P
proof (induction ranked arbitrary: latest r)
  case (Cons t ranked)
  obtain provider model preferred where t: "t = ((provider, model), preferred)" by (metis surj_pair)
  obtain reply outcome r1 where x: "execute_with_affinity cx provider model raw_body key preferred budget r = ((reply, outcome), r1)"
    by (metis surj_pair)
  have "provider \<in> rows" "\<And>q. sound_send cx (provider, model) q \<Longrightarrow> P q" using Cons.prems(3) [of "(provider, model)"] t by auto
  then have 1: "sends cx rows P r r1" using execute_sends [OF calm rows _ Cons.prems(1) x] sends_mono by blast
  then have g: "good_run cx rows r1" using Cons.prems(1) by (simp add: sends_def)
  show ?case
  proof (cases "success_status (reply_status reply) \<or> \<not> retryable_status (reply_status reply)")
    case True
    with Cons.prems(2) t x 1 show ?thesis by (auto simp: Let_def)
  next
    case False
    then obtain latest' where "try_targets cx tier raw_body key budget ranked latest' r1 = (e, r')"
      using Cons.prems(2) t x by (auto simp: Let_def)
    from Cons.IH [OF g this] Cons.prems(3) have "sends cx rows P r1 r'" by auto
    with 1 show ?thesis by (rule sends_trans)
  qed
qed simp

section \<open>Ranking\<close>

lemma rank_target_same: "rank_target affinity now flight provider model rows = Some t \<Longrightarrow> rk_provider t = provider \<and> rk_model t = model"
  by (auto simp: rank_target_def Let_def split: prod.splits)

lemma rank_loop_targets:
  "t \<in> set (fst (rank_loop cx wire_api required affinity now targets r)) \<Longrightarrow>
     (rk_provider t, rk_model t) \<in> set targets \<and> target_supports (custom_env.truncate cx) (rk_provider t) (rk_model t) wire_api required"
  by (induction cx wire_api required affinity now targets r rule: rank_loop.induct)
    (auto simp: Let_def split: if_splits prod.splits option.splits dest!: rank_target_same)

lemma order_targets_set: "set (fst (order_targets env scope key now candidates cache)) = set candidates"
  by (auto simp: order_targets_def Let_def set_sort_by split: option.splits prod.splits)

lemma ranked_targets:
  assumes "t \<in> fst ` set (fst (rank_eligible_targets cx targets wire_api required affinity key r))"
  shows "t \<in> set targets \<and> target_supports (custom_env.truncate cx) (fst t) (snd t) wire_api required"
proof -
  obtain cands r1 where l: "rank_loop cx wire_api required affinity (run_unix r) targets r = (cands, r1)" by (metis surj_pair)
  define scope where "scope = fair_routing_scope (custom_env.truncate cx)
      (case targets of [] \<Rightarrow> [] | (_, model) # _ \<Rightarrow> pm_public_model model) wire_api required"
  obtain ordered fair where o: "order_targets (custom_env.truncate cx) scope key (run_now r1) cands (cs_fair (cr_shared r1)) = (ordered, fair)"
    by (metis surj_pair)
  have "set ordered = set cands" using order_targets_set o by (metis fst_conv)
  moreover have "fst (rank_eligible_targets cx targets wire_api required affinity key r) = map (\<lambda>t. ((rk_provider t, rk_model t), rk_preferred t)) ordered"
    using l o by (simp add: rank_eligible_targets_def Let_def scope_def)
  ultimately obtain u where "u \<in> set cands" "t = (rk_provider u, rk_model u)" using assms by auto
  with rank_loop_targets [of u cx wire_api required affinity "run_unix r" targets r] l show ?thesis by simp
qed

lemma rank_loop_sends:
  "calm_clients cx rows \<Longrightarrow> sends cx rows P r (snd (rank_loop cx wire_api required affinity now targets r))"
proof (induction cx wire_api required affinity now targets r rule: rank_loop.induct)
  case (2 cx wire_api required affinity now provider model targets r)
  have 1: "sends cx rows P (custom_await cx r) r' \<Longrightarrow> sends cx rows P r r'" for r'
    by (rule sends_trans [OF sends_await [OF 2(4)]])
  from 2 show ?case by (cases "cx_list_fails cx (cr_waits (custom_await cx r))") (auto simp: Let_def split: prod.splits intro!: 1)
qed simp

lemma rank_sends:
  assumes "calm_clients cx rows"
  shows "sends cx rows P r (snd (rank_eligible_targets cx targets wire_api required affinity key r))"
proof -
  obtain cands r1 where l: "rank_loop cx wire_api required affinity (run_unix r) targets r = (cands, r1)" by (metis surj_pair)
  then have "sends cx rows P r r1" using rank_loop_sends [OF assms] by (metis snd_conv)
  moreover have "sends cx rows P r1 (snd (rank_eligible_targets cx targets wire_api required affinity key r))"
    using l by (auto simp: rank_eligible_targets_def Let_def intro!: sends_shared split: prod.splits)
  ultimately show ?thesis by (rule sends_trans)
qed

lemma affinity_sends: "sends cx rows P r (snd (current_affinity key r))"
  by (auto simp: current_affinity_def intro!: sends_shared split: option.splits prod.splits)

section \<open>What is sent\<close>

definition admissible_send :: "custom_ctx \<Rightarrow> custom_target list \<Rightarrow> string \<Rightarrow> capability_set \<Rightarrow> sent_request \<Rightarrow> bool" where
  "admissible_send cx targets wire_api required q \<longleftrightarrow> (\<exists>(provider, model) \<in> set targets.
     sound_send cx (provider, model) q \<and>
     target_supports (custom_env.truncate cx) provider model wire_api (required\<lparr>rq_priority := False\<rparr>))"

lemma supports_less:
  "target_supports env provider model wire_api required \<Longrightarrow> target_supports env provider model wire_api (required\<lparr>rq_priority := False\<rparr>)"
  by (simp add: target_supports_def)

lemma request_sends:
  assumes calm: "calm_clients cx rows" and rows: "keyed_rows rows" "fst ` set targets \<subseteq> rows" and good: "good_run cx rows r"
    and x: "execute_targets cx targets wire_api raw_body override budget r = (result, r')"
  shows "sends cx rows (admissible_send cx targets wire_api (request_capabilities (custom_env.truncate cx) raw_body wire_api)) r r'"
proof (cases targets)
  case Nil
  with x show ?thesis by (simp add: execute_targets_def)
next
  case (Cons t ts)
  obtain p first_model where t: "t = (p, first_model)" by (metis surj_pair)
  define required where "required = request_capabilities (custom_env.truncate cx) raw_body wire_api"
  define b where "b = (if has_origin_fallback cx targets then 0 else budget)"
  define key where "key = request_affinity_key cx raw_body (pm_public_model first_model) wire_api override"
  define P where "P = admissible_send cx targets wire_api required"
  obtain affinity ra where a: "current_affinity key r = (affinity, ra)" by (metis surj_pair)
  obtain ranked rb where rk: "rank_eligible_targets cx targets wire_api required affinity key ra = (ranked, rb)" by (metis surj_pair)
  have round: "sends cx rows P r1 r3"
    if rked: "rank_eligible_targets cx targets wire_api req affinity key r1 = (ranked, r2)"
      and tried: "try_targets cx tier body key b ranked latest r2 = (e, r3)" and good1: "good_run cx rows r1"
      and less: "req\<lparr>rq_priority := False\<rparr> = required\<lparr>rq_priority := False\<rparr>"
    for req r1 ranked r2 tier body latest e r3
  proof -
    have 1: "sends cx rows P r1 r2" using rank_sends [OF calm] rked by (metis snd_conv)
    with good1 have g: "good_run cx rows r2" by (simp add: sends_def)
    have "fst t \<in> rows \<and> (sound_send cx t q \<longrightarrow> P q)" if "t \<in> fst ` set ranked" for t q
    proof -
      have "t \<in> set targets \<and> target_supports (custom_env.truncate cx) (fst t) (snd t) wire_api req"
        by (rule ranked_targets [of _ _ _ _ _ affinity key r1]) (use that in \<open>simp add: rked\<close>)
      then have "t \<in> set targets" "target_supports (custom_env.truncate cx) (fst t) (snd t) wire_api (required\<lparr>rq_priority := False\<rparr>)"
        using supports_less [of "custom_env.truncate cx" "fst t" "snd t" wire_api req] less by simp_all
      moreover obtain provider model where "t = (provider, model)" by (metis surj_pair)
      ultimately show ?thesis using rows(2) unfolding P_def admissible_send_def by force
    qed
    from targets_send [OF calm rows(1) this g tried] 1 show ?thesis by (auto intro: sends_trans)
  qed
  have 0: "sends cx rows P r ra" using affinity_sends a by (metis snd_conv)
  with good have g: "good_run cx rows ra" by (simp add: sends_def)
  note unf = x [unfolded execute_targets_def Cons t list.case prod.case Let_def, folded t Cons, folded required_def b_def key_def,
      unfolded a rk prod.case]
  have "sends cx rows P ra r'"
  proof (cases "rq_priority required")
    case False
    obtain e rc where tr: "try_targets cx None raw_body key b ranked None rb = (e, rc)" by (metis surj_pair)
    then have "r' = rc" using unf False by (cases e) auto
    with round [OF rk tr g] show ?thesis by simp
  next
    case True
    obtain e rc where tr: "try_targets cx (Some ''priority'') raw_body key b ranked None rb = (e, rc)" by (metis surj_pair)
    have 1: "sends cx rows P ra rc" by (rule round [OF rk tr g]) simp
    then have gc: "good_run cx rows rc" using g by (simp add: sends_def)
    consider (stop) "r' = rc" | (again) standard ranked' rd e' where
        "rank_eligible_targets cx targets wire_api (required\<lparr>rq_priority := False\<rparr>) affinity key rc = (ranked', rd)"
        "try_targets cx (Some ''standard'') standard key b ranked' None rd = (e', r')"
      using unf True tr by (auto split: sum.splits option.splits prod.splits)
    then show ?thesis
    proof cases
      case again
      from round [OF again gc] 1 show ?thesis by (auto intro: sends_trans)
    qed (use 1 in simp)
  qed
  with 0 show ?thesis unfolding P_def required_def by (rule sends_trans)
qed

text \<open>
  C39: Every upstream request made for a request over custom providers goes to the validated endpoint of a target of
  the public model that has everything the request needs (the priority tier excepted), names the upstream's model,
  carries no anchor to a stateless provider, and, unless the provider allows private hosts, uses HTTPS and a
  client that can only reach a public address. Provider rows are identified by id and update time, and the other
  requests keep the client cache good, as this one does.
\<close>

theorem requests_are_admissible:
  assumes "calm_clients cx rows" "keyed_rows rows" "fst ` set targets \<subseteq> rows"
    and "clients_ok (custom_env.truncate cx) rows (cs_clients (cr_shared r))"
    and "execute_targets cx targets wire_api raw_body override budget r = (result, r')"
  shows "clients_ok (custom_env.truncate cx) rows (cs_clients (cr_shared r')) \<and>
    (\<exists>new. cr_sent r' = cr_sent r @ new \<and>
      (\<forall>q \<in> set new. admissible_send cx targets wire_api (request_capabilities (custom_env.truncate cx) raw_body wire_api) q))"
  using request_sends [OF assms(1-3) _ assms(5)] assms(4) by (simp add: sends_def good_run_def)

theorem requests_are_admissible_witness:
  "\<exists>new. cr_sent (snd demo_result) = new \<and> new \<noteq> [] \<and>
    (\<forall>q \<in> set new. admissible_send demo_ctx [(demo_provider, demo_model)] ''responses''
       (request_capabilities (custom_env.truncate demo_ctx) ''body'' ''responses'') q)"
proof -
  have "calm_clients demo_ctx {demo_provider}" by (simp add: calm_clients_def)
  moreover have "clients_ok env rows []" for env rows by (simp add: clients_ok_def)
  moreover obtain result r' where "demo_result = (result, r')" "cr_sent r' \<noteq> []" using demo_streams by metis
  ultimately show ?thesis
    using requests_are_admissible [of demo_ctx "{demo_provider}" "[(demo_provider, demo_model)]" demo_run "''responses''" "''body''" None 0 result r']
    by (simp add: keyed_rows_def demo_result_def demo_run_def)
qed

end
