(* ===== verification/Custom_Fair.thy ===== *)
theory Custom_Fair
  imports Custom_Routing
begin

text \<open>
  The smooth weighted round robin of \<open>custom_provider.rs\<close> is exact: with integral weights of sum \<open>W\<close>, \<open>W\<close>
  successive selections choose every candidate as often as its weight says. The values stay integers within
  the range in which \<open>f64\<close> is exact; after each round they sum to zero and none is \<open>- W\<close> or less.
\<close>

section \<open>Exact arithmetic\<close>

definition fint :: "int \<Rightarrow> f64" where "fint n = F_Num (of_int n)"

lemma fint_0: "F_Num 0 = fint 0"
  by (simp add: fint_def)

lemma fint_inj [simp]: "fint a = fint b \<longleftrightarrow> a = b"
  by (simp add: fint_def)

lemma fint_add: "\<bar>a + b\<bar> \<le> 2 ^ 53 \<Longrightarrow> fadd (fint a) (fint b) = fint (a + b)"
  using round64_of_int [of "a + b"] by (auto simp: fadd_def Let_def fzero_def fint_def)

lemma fint_sub: "\<bar>a - b\<bar> \<le> 2 ^ 53 \<Longrightarrow> b \<noteq> 0 \<Longrightarrow> fsub (fint a) (fint b) = fint (a - b)"
  using fint_add [of a "- b"] by (simp add: fsub_def fint_def)

lemma fint_less [simp]: "fint a < fint b \<longleftrightarrow> a < b"
  by (auto simp: less_f64_def less_eq_f64_def key_le_def fkey_def fint_def)

lemma fint_le [simp]: "fint a \<le> fint b \<longleftrightarrow> a \<le> b"
  by (simp add: linorder_not_less [symmetric])

section \<open>One round\<close>

definition weights :: "(string \<times> nat) list \<Rightarrow> (string \<times> f64) list" where
  "weights ws = map (\<lambda>(i, w). (i, fint (int w))) ws"

definition weight_sum :: "(string \<times> nat) list \<Rightarrow> int" where
  "weight_sum ws = int (sum_list (map snd ws))"

definition value_of :: "(string, f64) table \<Rightarrow> string \<Rightarrow> f64" where
  "value_of t i = unwrap_or (tbl_get t i) (F_Num 0)"

definition holds_at :: "(string, f64) table \<Rightarrow> (string \<Rightarrow> int) \<Rightarrow> string set \<Rightarrow> bool" where
  "holds_at t c I \<longleftrightarrow> (\<forall>i \<in> I. value_of t i = fint (c i))"

lemma value_put: "value_of (tbl_put t k v) i = (if i = k then v else value_of t i)"
  by (simp add: value_of_def tbl_simps)

lemma value_retain: "i \<in> I \<Longrightarrow> tbl_ok t \<Longrightarrow> value_of (tbl_retain (\<lambda>k _. k \<in> I) t) i = value_of t i"
  by (simp add: value_of_def tbl_simps opt_filter_def split: option.splits)

text \<open>What the selection holds while the loop visits the candidates.\<close>

definition leads :: "(string \<Rightarrow> int) \<Rightarrow> (string \<times> nat) list \<Rightarrow> (string \<times> f64) option \<Rightarrow> (string \<times> f64) option \<Rightarrow> bool" where
  "leads c ws before after \<longleftrightarrow> (case after of
     None \<Rightarrow> ws = [] \<and> before = None
   | Some (s, v) \<Rightarrow> (before = Some (s, v) \<or> (\<exists>w. (s, w) \<in> set ws \<and> v = fint (c s + int w))) \<and>
       (\<forall>s' v'. before = Some (s', v') \<longrightarrow> v' \<le> v) \<and> (\<forall>(i, w) \<in> set ws. fint (c i + int w) \<le> v))"

lemma leads_trans:
  assumes "leads c [(i, w)] before m" "leads c ws m after"
  shows "leads c ((i, w) # ws) before after"
proof -
  from assms(1) obtain s v where m: "m = Some (s, v)" and
    m1: "before = Some (s, v) \<or> s = i \<and> v = fint (c i + int w)" and
    m2: "\<And>s' v'. before = Some (s', v') \<Longrightarrow> v' \<le> v" and m3: "fint (c i + int w) \<le> v"
    by (auto simp: leads_def split: option.splits prod.splits)
  from assms(2) m obtain s' v' where a: "after = Some (s', v')" and
    a1: "(s', v') = (s, v) \<or> (\<exists>w. (s', w) \<in> set ws \<and> v' = fint (c s' + int w))" and
    a2: "v \<le> v'" and a3: "\<forall>(i, w) \<in> set ws. fint (c i + int w) \<le> v'"
    by (auto simp: leads_def split: option.splits prod.splits)
  have "before = Some (s', v') \<or> (\<exists>u. (s', u) \<in> set ((i, w) # ws) \<and> v' = fint (c s' + int u))"
    using a1 m1 by auto
  moreover have "\<And>s'' v''. before = Some (s'', v'') \<Longrightarrow> v'' \<le> v'" by (rule order.trans [OF m2 a2])
  moreover have "fint (c i + int w) \<le> v'" using m3 a2 by (rule order.trans)
  ultimately show ?thesis using a a3 unfolding leads_def by auto
qed

lemma leads_visit:
  "leads c [(i, w)] b (case b of None \<Rightarrow> Some (i, fint (c i + int w))
     | Some (s, v) \<Rightarrow> if v < fint (c i + int w) \<or> fint (c i + int w) = v \<and> i < s then Some (i, fint (c i + int w)) else Some (s, v))"
  by (cases b) (auto simp: leads_def not_less)

lemma smooth_fold:
  assumes "distinct (map fst ws)" "holds_at (sl_current l) c (fst ` set ws)" "sl_total l = fint T"
    and "\<forall>(i, w) \<in> set ws. \<bar>c i + int w\<bar> \<le> 2 ^ 53" "0 \<le> T" "T + weight_sum ws \<le> 2 ^ 53"
  shows "let l' = fold smooth_visit (weights ws) l in
    (\<forall>i. value_of (sl_current l') i =
       (case map_of ws i of Some w \<Rightarrow> fint (c i + int w) | None \<Rightarrow> value_of (sl_current l) i)) \<and>
    fst ` set ws \<subseteq> dom (tbl_get (sl_current l')) \<and> dom (tbl_get (sl_current l)) \<subseteq> dom (tbl_get (sl_current l')) \<and>
    sl_total l' = fint (T + weight_sum ws) \<and> leads c ws (sl_selected l) (sl_selected l')"
  using assms
proof (induction ws arbitrary: l T)
  case Nil
  then show ?case by (auto simp: weights_def weight_sum_def leads_def split: option.splits prod.splits)
next
  case (Cons iw ws)
  obtain i w where iw [simp]: "iw = (i, w)" by (cases iw)
  define l1 where "l1 = smooth_visit (i, fint (int w)) l"
  have tot: "weight_sum (iw # ws) = int w + weight_sum ws" "0 \<le> weight_sum ws" by (auto simp: weight_sum_def)
  have cur: "fadd (value_of (sl_current l) i) (fint (int w)) = fint (c i + int w)"
    using Cons.prems by (auto simp: holds_at_def intro!: fint_add)
  have sum: "fadd (sl_total l) (fint (int w)) = fint (T + int w)"
    using Cons.prems tot by (auto intro!: fint_add)
  have l1: "sl_current l1 = tbl_put (sl_current l) i (fint (c i + int w))" "sl_total l1 = fint (T + int w)"
    "sl_selected l1 = (case sl_selected l of None \<Rightarrow> Some (i, fint (c i + int w))
       | Some (s, v) \<Rightarrow> if v < fint (c i + int w) \<or> fint (c i + int w) = v \<and> i < s then Some (i, fint (c i + int w)) else Some (s, v))"
    using cur sum by (auto simp: l1_def smooth_visit_def Let_def value_of_def split: option.splits prod.splits)
  have "holds_at (sl_current l1) c (fst ` set ws)" "T + int w + weight_sum ws \<le> 2 ^ 53" "0 \<le> T + int w"
    using Cons.prems tot unfolding holds_at_def l1(1) by (auto simp: value_put image_iff)
  note IH = Cons.IH [of l1 "T + int w", OF _ this(1) l1(2) _ this(3) this(2)]
  define l' where "l' = fold smooth_visit (weights ws) l1"
  have unf: "fold smooth_visit (weights (iw # ws)) l = l'" by (simp add: weights_def l1_def l'_def)
  from IH Cons.prems have IH: "\<forall>j. value_of (sl_current l') j =
       (case map_of ws j of Some w \<Rightarrow> fint (c j + int w) | None \<Rightarrow> value_of (sl_current l1) j)"
    "fst ` set ws \<subseteq> dom (tbl_get (sl_current l'))" "dom (tbl_get (sl_current l1)) \<subseteq> dom (tbl_get (sl_current l'))"
    "sl_total l' = fint (T + int w + weight_sum ws)" "leads c ws (sl_selected l1) (sl_selected l')"
    by (auto simp: l'_def Let_def)
  have dom1: "dom (tbl_get (sl_current l1)) = insert i (dom (tbl_get (sl_current l)))"
    by (auto simp: l1(1) tbl_simps split: if_splits)
  have none: "map_of ws i = None" using Cons.prems(1) by (simp add: map_of_eq_None_iff)
  have "value_of (sl_current l') j =
    (case map_of (iw # ws) j of Some w \<Rightarrow> fint (c j + int w) | None \<Rightarrow> value_of (sl_current l) j)" for j
    using IH(1) none by (cases "j = i") (auto simp: l1(1) value_put split: option.splits)
  moreover have "fst ` set (iw # ws) \<subseteq> dom (tbl_get (sl_current l'))" "dom (tbl_get (sl_current l)) \<subseteq> dom (tbl_get (sl_current l'))"
    using IH(2,3) dom1 by auto
  moreover have "sl_total l' = fint (T + weight_sum (iw # ws))" using IH(4) tot by (simp add: add.assoc)
  moreover have "leads c (iw # ws) (sl_selected l) (sl_selected l')"
    using leads_trans [OF leads_visit] IH(5) unfolding l1(3) iw by blast
  ultimately show ?case unfolding unf Let_def by blast
qed

lemma smooth_visit_ok: "tbl_ok (sl_current l) \<Longrightarrow> tbl_ok (sl_current (smooth_visit x l))"
  by (cases x) (simp add: smooth_visit_def Let_def)

lemma smooth_fold_ok: "tbl_ok (sl_current l) \<Longrightarrow> tbl_ok (sl_current (fold smooth_visit cs l))"
  by (induction cs arbitrary: l) (simp_all add: smooth_visit_ok)

definition weight_of :: "(string \<times> nat) list \<Rightarrow> string \<Rightarrow> int" where
  "weight_of ws i = (case map_of ws i of Some w \<Rightarrow> int w | None \<Rightarrow> 0)"

lemma weight_of_in: "distinct (map fst ws) \<Longrightarrow> (i, w) \<in> set ws \<Longrightarrow> weight_of ws i = int w"
  by (simp add: weight_of_def)

lemma weight_sum_eq: "distinct (map fst ws) \<Longrightarrow> weight_sum ws = sum (weight_of ws) (fst ` set ws)"
proof -
  assume d: "distinct (map fst ws)"
  then have "sum (weight_of ws) (set (map fst ws)) = sum_list (map (weight_of ws) (map fst ws))"
    by (rule sum_list_distinct_conv_sum_set [symmetric])
  also have "\<dots> = sum_list (map (\<lambda>p. int (snd p)) ws)"
    using d by (intro arg_cong [of _ _ sum_list]) (auto simp: weight_of_in)
  also have "\<dots> = weight_sum ws" unfolding weight_sum_def by (induction ws) auto
  finally show ?thesis by simp
qed

definition advanced :: "(string \<times> nat) list \<Rightarrow> string \<Rightarrow> (string \<Rightarrow> int) \<Rightarrow> string \<Rightarrow> int" where
  "advanced ws s c i = c i + weight_of ws i - (if i = s then weight_sum ws else 0)"

lemma smooth_round_step:
  assumes "distinct (map fst ws)" "ws \<noteq> []" "tbl_ok t" "holds_at t c (fst ` set ws)" "0 < weight_sum ws" "weight_sum ws \<le> 2 ^ 53"
    and small: "\<forall>i \<in> fst ` set ws. \<bar>c i + weight_of ws i\<bar> \<le> 2 ^ 53 \<and> \<bar>c i + weight_of ws i - weight_sum ws\<bar> \<le> 2 ^ 53"
  obtains s t' where "smooth_round (weights ws) t = (Some s, t')" "s \<in> fst ` set ws" "tbl_ok t'"
    "\<forall>i \<in> fst ` set ws. c i + weight_of ws i \<le> c s + weight_of ws s" "holds_at t' (advanced ws s c) (fst ` set ws)"
proof -
  let ?I = "fst ` set ws"
  have ids: "fst ` set (weights ws) = ?I" by (force simp: weights_def)
  define t0 where "t0 = tbl_retain (\<lambda>i _. i \<in> ?I) t"
  define l where "l = \<lparr>sl_current = t0, sl_total = F_Num 0, sl_selected = None\<rparr>"
  define l' where "l' = fold smooth_visit (weights ws) l"
  have "holds_at (sl_current l) c ?I"
    using assms(3,4) by (simp add: holds_at_def l_def t0_def value_retain)
  moreover have "\<forall>(i, w) \<in> set ws. \<bar>c i + int w\<bar> \<le> 2 ^ 53"
    using small weight_of_in [OF assms(1)] by fastforce
  ultimately have f: "\<forall>i. value_of (sl_current l') i =
       (case map_of ws i of Some w \<Rightarrow> fint (c i + int w) | None \<Rightarrow> value_of (sl_current l) i)"
    "?I \<subseteq> dom (tbl_get (sl_current l'))" "sl_total l' = fint (weight_sum ws)" "leads c ws None (sl_selected l')"
    using smooth_fold [OF assms(1), of l c 0] assms(6) by (auto simp: l'_def l_def fint_0 Let_def)
  from f(4) assms(2) obtain s w where s: "sl_selected l' = Some (s, fint (c s + int w))" "(s, w) \<in> set ws"
    "\<forall>(i, w') \<in> set ws. fint (c i + int w') \<le> fint (c s + int w)"
    by (auto simp: leads_def split: option.splits)
  have sI: "s \<in> ?I" using s(2) by force
  have at: "value_of (sl_current l') i = fint (c i + weight_of ws i)" if "i \<in> ?I" for i
    using that f(1) assms(1) by (force simp: weight_of_def split: option.splits)
  from f(2) sI obtain v where v: "tbl_get (sl_current l') s = Some v" by blast
  with at [OF sI] have v': "v = fint (c s + weight_of ws s)" by (simp add: value_of_def)
  define t' where "t' = tbl_put (sl_current l') s (fsub v (sl_total l'))"
  have "smooth_round (weights ws) t = (Some s, t')"
    unfolding smooth_round_def ids t0_def [symmetric] l_def [symmetric] l'_def [symmetric] Let_def
    using s(1) v by (simp add: t'_def)
  moreover have "tbl_ok t'" using smooth_fold_ok [of l "weights ws"] assms(3) by (simp add: t'_def l'_def l_def t0_def)
  moreover have "\<forall>i \<in> ?I. c i + weight_of ws i \<le> c s + weight_of ws s"
    using s(2,3) weight_of_in [OF assms(1)] by fastforce
  moreover have "fsub v (sl_total l') = fint (c s + weight_of ws s - weight_sum ws)"
    unfolding v' f(3) using small sI assms(5) by (intro fint_sub) auto
  then have "holds_at t' (advanced ws s c) ?I"
    using at by (auto simp: holds_at_def t'_def value_put advanced_def)
  ultimately show ?thesis using that sI by blast
qed

section \<open>The values stay balanced\<close>

definition balanced :: "(string \<times> nat) list \<Rightarrow> (string \<Rightarrow> int) \<Rightarrow> bool" where
  "balanced ws c \<longleftrightarrow> sum c (fst ` set ws) = 0 \<and> (\<forall>i \<in> fst ` set ws. - weight_sum ws < c i)"

lemma weight_nonneg: "0 \<le> weight_of ws i"
  by (simp add: weight_of_def split: option.splits)

lemma weight_le_sum: "distinct (map fst ws) \<Longrightarrow> i \<in> fst ` set ws \<Longrightarrow> weight_of ws i \<le> weight_sum ws"
  unfolding weight_sum_eq by (rule member_le_sum) (auto simp: weight_nonneg)

lemma balanced_upper:
  assumes "balanced ws c" "i \<in> fst ` set ws" "distinct (map fst ws)" "0 \<le> weight_sum ws"
  shows "c i \<le> (int (length ws) - 1) * weight_sum ws"
proof -
  let ?I = "fst ` set ws"
  have n: "card ?I = length ws" using assms(3) by (metis distinct_card length_map list.set_map)
  have "sum c ?I = c i + sum c (?I - {i})" using assms(2) by (simp add: sum.remove)
  moreover have "(\<Sum>j \<in> ?I - {i}. - weight_sum ws) \<le> sum c (?I - {i})"
    using assms(1) by (intro sum_mono) (auto simp: balanced_def intro: less_imp_le)
  moreover have "1 \<le> card ?I" using assms(2) by (metis One_nat_def Suc_leI card_gt_0_iff empty_iff finite_imageI List.finite_set)
  moreover have "card (?I - {i}) = card ?I - 1" using assms(2) by simp
  ultimately show ?thesis using assms(1) n by (simp add: balanced_def of_nat_diff algebra_simps)
qed

lemma balanced_advanced:
  assumes "balanced ws c" "s \<in> fst ` set ws" "distinct (map fst ws)" "0 < weight_sum ws"
    and max: "\<forall>i \<in> fst ` set ws. c i + weight_of ws i \<le> c s + weight_of ws s"
  shows "balanced ws (advanced ws s c)"
proof -
  let ?I = "fst ` set ws"
  have sum: "sum (\<lambda>i. c i + weight_of ws i) ?I = weight_sum ws"
    using assms(1,3) by (simp add: sum.distrib balanced_def weight_sum_eq)
  have "sum (advanced ws s c) ?I = weight_sum ws - weight_sum ws"
    using assms(2) unfolding advanced_def sum_subtractf sum by simp
  moreover have "0 < c s + weight_of ws s"
  proof (rule ccontr)
    assume "\<not> 0 < c s + weight_of ws s"
    with max have "sum (\<lambda>i. c i + weight_of ws i) ?I \<le> 0" by (intro sum_nonpos) force
    with sum assms(4) show False by simp
  qed
  moreover have "- weight_sum ws < c i + weight_of ws i" if "i \<in> ?I" for i
    using that assms(1) weight_nonneg [of ws i] by (force simp: balanced_def)
  ultimately show ?thesis by (auto simp: balanced_def advanced_def)
qed

lemma balanced_small:
  assumes "balanced ws c" "distinct (map fst ws)" "0 < weight_sum ws" "int (Suc (length ws)) * weight_sum ws \<le> 2 ^ 53" "i \<in> fst ` set ws"
  shows "\<bar>c i + weight_of ws i\<bar> \<le> 2 ^ 53 \<and> \<bar>c i + weight_of ws i - weight_sum ws\<bar> \<le> 2 ^ 53"
proof -
  have up: "c i \<le> (int (length ws) - 1) * weight_sum ws" by (rule balanced_upper [OF assms(1,5,2)]) (use assms(3) in simp)
  have lo: "- weight_sum ws < c i" using assms(1,5) unfolding balanced_def by blast
  have w: "0 \<le> weight_of ws i" "weight_of ws i \<le> weight_sum ws"
    using weight_nonneg weight_le_sum [OF assms(2,5)] by auto
  have "1 \<le> length ws" using assms(5) by (cases ws) auto
  then have "2 * weight_sum ws \<le> int (Suc (length ws)) * weight_sum ws" using assms(3) by (intro mult_right_mono) auto
  then have two: "2 * weight_sum ws \<le> 2 ^ 53" using assms(4) by simp
  have "int (length ws) * weight_sum ws + weight_sum ws \<le> 2 ^ 53" using assms(4) by (simp add: algebra_simps)
  then have "c i + weight_of ws i \<le> 2 ^ 53" using up w assms(3) by (simp add: algebra_simps)
  with lo w two assms(3) show ?thesis by (auto simp: abs_le_iff)
qed

section \<open>Successive rounds\<close>

fun smooth_rounds :: "nat \<Rightarrow> (string \<times> f64) list \<Rightarrow> (string, f64) table \<Rightarrow> string option list \<times> (string, f64) table" where
  "smooth_rounds 0 candidates t = ([], t)"
| "smooth_rounds (Suc k) candidates t =
     (case smooth_round candidates t of (pick, t) \<Rightarrow>
        case smooth_rounds k candidates t of (picks, t) \<Rightarrow> (pick # picks, t))"

lemma smooth_rounds_account:
  assumes ws: "distinct (map fst ws)" "ws \<noteq> []" "0 < weight_sum ws" "int (Suc (length ws)) * weight_sum ws \<le> 2 ^ 53"
    and "tbl_ok t" "holds_at t c (fst ` set ws)" "balanced ws c" "smooth_rounds k (weights ws) t = (picks, t')"
  shows "length picks = k \<and> tbl_ok t' \<and>
    (\<exists>c'. holds_at t' c' (fst ` set ws) \<and> balanced ws c' \<and>
      (\<forall>i \<in> fst ` set ws. c' i = c i + int k * weight_of ws i - weight_sum ws * int (count_list picks (Some i))))"
  using assms(5-)
proof (induction k arbitrary: t c picks)
  case 0
  then show ?case by auto
next
  case (Suc k)
  have "1 * weight_sum ws \<le> int (Suc (length ws)) * weight_sum ws" using ws(3) by (intro mult_right_mono) auto
  with ws(4) have tot: "weight_sum ws \<le> 2 ^ 53" by simp
  obtain s t1 where 1: "smooth_round (weights ws) t = (Some s, t1)" "s \<in> fst ` set ws" "tbl_ok t1"
    "\<forall>i \<in> fst ` set ws. c i + weight_of ws i \<le> c s + weight_of ws s" "holds_at t1 (advanced ws s c) (fst ` set ws)"
    using smooth_round_step [OF ws(1,2) Suc.prems(1,2) ws(3) tot]
      balanced_small [OF Suc.prems(3) ws(1,3,4)] by blast
  obtain rest t2 where 2: "smooth_rounds k (weights ws) t1 = (rest, t2)" by (cases "smooth_rounds k (weights ws) t1")
  with Suc.prems(4) 1(1) have out: "picks = Some s # rest" "t' = t2" by auto
  from Suc.IH [OF 1(3,5) balanced_advanced [OF Suc.prems(3) 1(2) ws(1,3) 1(4)], of rest] 2 out
  obtain c' where "length rest = k" "tbl_ok t'" "holds_at t' c' (fst ` set ws)" "balanced ws c'"
    "\<forall>i \<in> fst ` set ws. c' i = advanced ws s c i + int k * weight_of ws i - weight_sum ws * int (count_list rest (Some i))"
    by auto
  then show ?case using out(1) by (auto simp: advanced_def algebra_simps intro!: exI [of _ c'])
qed

text \<open>After as many rounds as the weights sum to, the counts are the weights.\<close>

lemma smooth_rounds_exact:
  assumes ws: "distinct (map fst ws)" "ws \<noteq> []" "0 < weight_sum ws" "int (Suc (length ws)) * weight_sum ws \<le> 2 ^ 53"
    and "tbl_ok t" "holds_at t (\<lambda>_. 0) (fst ` set ws)" "smooth_rounds (nat (weight_sum ws)) (weights ws) t = (picks, t')"
  shows "\<forall>(i, w) \<in> set ws. count_list picks (Some i) = w" "holds_at t' (\<lambda>_. 0) (fst ` set ws)"
proof -
  let ?I = "fst ` set ws"
  have "balanced ws (\<lambda>_. 0)" using ws(3) by (simp add: balanced_def)
  from smooth_rounds_account [OF ws assms(5,6) this assms(7)] ws(3)
  obtain c where c: "holds_at t' c ?I" "balanced ws c"
    "\<forall>i \<in> ?I. c i = weight_sum ws * (weight_of ws i - int (count_list picks (Some i)))"
    by (auto simp: algebra_simps)
  have "0 \<le> c i" if "i \<in> ?I" for i
  proof -
    have ci: "c i = weight_sum ws * (weight_of ws i - int (count_list picks (Some i)))" "- weight_sum ws < c i"
      using c(2,3) that unfolding balanced_def by blast+
    then have "weight_sum ws * -1 < weight_sum ws * (weight_of ws i - int (count_list picks (Some i)))" by simp
    then have "-1 < weight_of ws i - int (count_list picks (Some i))" using ws(3) by (simp only: mult_less_cancel_left_pos)
    then show ?thesis using ci(1) ws(3) by simp
  qed
  then have zero: "\<forall>i \<in> ?I. c i = 0" using c(2) sum_nonneg_eq_0_iff [of ?I c] unfolding balanced_def by blast
  then have "\<forall>i \<in> ?I. weight_of ws i = int (count_list picks (Some i))" using c(3) ws(3) by auto
  then show "\<forall>(i, w) \<in> set ws. count_list picks (Some i) = w"
    using weight_of_in [OF ws(1)] by fastforce
  show "holds_at t' (\<lambda>_. 0) ?I" using c(1) zero by (simp add: holds_at_def)
qed

section \<open>Through the cache\<close>

fun smooth_selects ::
  "string \<Rightarrow> (string \<times> f64) list \<Rightarrow> nat list \<Rightarrow> smooth_cache \<Rightarrow> string option list \<times> smooth_cache" where
  "smooth_selects scope candidates [] cache = ([], cache)"
| "smooth_selects scope candidates (now # nows) cache =
     (case smooth_select scope candidates now cache of (pick, cache) \<Rightarrow>
        case smooth_selects scope candidates nows cache of (picks, cache) \<Rightarrow> (pick # picks, cache))"

lemma insert_by_map: "insert_by cmp (f x) (map f ys) = map f (insert_by (\<lambda>a b. cmp (f a) (f b)) x ys)"
  by (induction ys) auto

lemma sort_by_map: "sort_by cmp (map f xs) = map f (sort_by (\<lambda>a b. cmp (f a) (f b)) xs)"
  by (induction xs) (auto simp: insert_by_map)

lemma smooth_candidates_weights:
  assumes "\<forall>(i, w) \<in> set ws. 0 < w"
  obtains vs where "smooth_candidates (weights ws) = weights vs" "mset vs = mset ws"
proof -
  have "filter (\<lambda>(_, weight). is_fin weight \<and> fgt weight (F_Num 0)) (weights ws) = weights ws"
    using assms by (intro filter_True) (auto simp: weights_def fint_def flt_def)
  then show ?thesis
    using that [of "sort_by (\<lambda>a b. cmp_lin (fst a) (fst b)) ws"]
    by (simp add: smooth_candidates_def weights_def sort_by_map mset_sort_by case_prod_beta)
qed

definition smooth_at :: "string \<Rightarrow> (string, f64) table \<Rightarrow> nat \<Rightarrow> smooth_cache \<Rightarrow> bool" where
  "smooth_at scope t n cache \<longleftrightarrow> tbl_ok (sc_entries cache) \<and> 0 < sc_max_entries cache \<and>
     tbl_get (sc_entries cache) scope = Some \<lparr>sw_current = t, sw_last_used = n\<rparr>"

lemma make_room_ok: "tbl_ok t \<Longrightarrow> tbl_ok (make_room stamp m k t)"
  by (auto simp: make_room_def drop_oldest_def split: option.splits prod.splits)

lemma smooth_select_fresh:
  assumes "smooth_candidates cs = weights vs" "vs \<noteq> []" "cs \<noteq> []" "smooth_round (weights vs) [] = (pick, t')"
    and "tbl_ok (sc_entries cache)" "0 < sc_max_entries cache" "tbl_get (sc_entries cache) scope = None"
  obtains cache' where "smooth_select scope cs now cache = (pick, cache')" "smooth_at scope t' now cache'" "sc_ttl cache' = sc_ttl cache"
proof -
  have "weights vs \<noteq> []" using assms(2) by (simp add: weights_def)
  moreover have "tbl_get (sc_entries (smooth_prune now cache)) scope = None"
    using assms(5,7) by (simp add: smooth_prune_def tbl_simps)
  then have "tbl_get (make_room sw_last_used (sc_max_entries cache) scope (sc_entries (smooth_prune now cache))) scope = None"
    by (auto simp: make_room_def drop_oldest_def tbl_simps split: option.splits prod.splits)
  ultimately show ?thesis using that assms
    by (simp add: smooth_select_def Let_def smooth_prune_def smooth_at_def make_room_ok tbl_simps)
qed

lemma smooth_select_again:
  assumes "smooth_candidates cs = weights vs" "vs \<noteq> []" "cs \<noteq> []" "smooth_round (weights vs) t = (pick, t')"
    and "smooth_at scope t n cache" "now - n < sc_ttl cache"
  obtains cache' where "smooth_select scope cs now cache = (pick, cache')" "smooth_at scope t' now cache'" "sc_ttl cache' = sc_ttl cache"
proof -
  have "weights vs \<noteq> []" using assms(2) by (simp add: weights_def)
  moreover have "tbl_get (sc_entries (smooth_prune now cache)) scope = Some \<lparr>sw_current = t, sw_last_used = n\<rparr>"
    using assms(5,6) by (simp add: smooth_at_def smooth_prune_def tbl_simps)
  ultimately show ?thesis using that assms
    by (simp add: smooth_select_def Let_def smooth_prune_def smooth_at_def make_room_def tbl_simps)
qed

lemma smooth_selects_rounds:
  assumes "smooth_candidates cs = weights vs" "vs \<noteq> []" "cs \<noteq> []"
    and "smooth_at scope t n cache" "successively (\<lambda>a b. b - a < sc_ttl cache) (n # nows)"
  shows "fst (smooth_selects scope cs nows cache) = fst (smooth_rounds (length nows) (weights vs) t)"
  using assms(4-)
proof (induction nows arbitrary: t n cache)
  case (Cons now nows)
  obtain pick t' where 1: "smooth_round (weights vs) t = (pick, t')" by (cases "smooth_round (weights vs) t")
  obtain cache' where "smooth_select scope cs now cache = (pick, cache')" "smooth_at scope t' now cache'" "sc_ttl cache' = sc_ttl cache"
    using smooth_select_again [OF assms(1-3) 1 Cons.prems(1)] Cons.prems(2) by auto
  with Cons.IH [of t' now cache'] Cons.prems(2) 1 show ?case by (auto split: prod.splits)
qed simp

section \<open>Fair shares\<close>

text \<open>
  C36: Anonymous requests are shared out exactly: when candidates with positive integral weights are routed through
  a fresh scope of the fair-routing cache, as many selections as the weights sum to, none later than the cache's
  lifetime after the one before, choose every candidate exactly as often as its weight says. The bound keeps
  the values in the range in which \<open>f64\<close> counts exactly.
\<close>

theorem fair_shares_are_exact:
  assumes "distinct (map fst ws)" "\<forall>(i, w) \<in> set ws. 0 < w" "int (Suc (length ws)) * weight_sum ws \<le> 2 ^ 53"
    and "tbl_ok (sc_entries cache)" "0 < sc_max_entries cache" "tbl_get (sc_entries cache) scope = None"
    and "length nows = sum_list (map snd ws)" "successively (\<lambda>a b. b - a < sc_ttl cache) nows"
  shows "\<forall>(i, w) \<in> set ws. count_list (fst (smooth_selects scope (weights ws) nows cache)) (Some i) = w"
proof (cases nows)
  case Nil
  with assms(2,7) have "ws = []" by (cases ws) auto
  then show ?thesis by simp
next
  case (Cons now rest)
  obtain vs where vs: "smooth_candidates (weights ws) = weights vs" "mset vs = mset ws"
    using smooth_candidates_weights [OF assms(2)] by blast
  from vs(2) have same: "set vs = set ws" "length vs = length ws" "mset (map fst vs) = mset (map fst ws)"
    "weight_sum vs = weight_sum ws"
    by (auto dest: mset_eq_setD mset_eq_length simp: weight_sum_def)
      (metis mset_map sum_mset_sum_list)
  have pos: "0 < weight_sum ws" using assms(7) Cons by (simp add: weight_sum_def flip: assms(7))
  have ne: "vs \<noteq> []" "weights ws \<noteq> []" using pos same by (auto simp: weight_sum_def weights_def)
  obtain pick t' where 1: "smooth_round (weights vs) [] = (pick, t')" by (cases "smooth_round (weights vs) []")
  obtain cache' where c: "smooth_select scope (weights ws) now cache = (pick, cache')" "smooth_at scope t' now cache'"
    "sc_ttl cache' = sc_ttl cache"
    using smooth_select_fresh [OF vs(1) ne 1 assms(4-6)] by blast
  have "nat (weight_sum vs) = Suc (length rest)" using same assms(7) Cons by (simp add: weight_sum_def)
  then have "fst (smooth_selects scope (weights ws) nows cache) = fst (smooth_rounds (nat (weight_sum vs)) (weights vs) [])"
    using smooth_selects_rounds [OF vs(1) ne c(2), of rest] assms(8) Cons c 1 by (auto split: prod.splits)
  moreover have "distinct (map fst vs)" using assms(1) same(3) by (metis mset_eq_imp_distinct_iff)
  moreover have "holds_at [] (\<lambda>_. 0) (fst ` set vs)" by (simp add: holds_at_def value_of_def fint_0)
  ultimately show ?thesis
    using smooth_rounds_exact(1) [of vs "[]"] ne(1) pos assms(3) same by (metis prod.collapse tbl_ok_nil)
qed

theorem fair_shares_are_exact_witness:
  "count_list (fst (smooth_selects ''scope'' (weights [(''b'', 2), (''a'', 1)]) [10, 20, 30]
     \<lparr>sc_entries = [], sc_ttl = 1000, sc_max_entries = 5\<rparr>)) (Some ''b'') = 2"
  using fair_shares_are_exact [of "[(''b'', 2), (''a'', 1)]" "\<lparr>sc_entries = [], sc_ttl = 1000, sc_max_entries = 5\<rparr>" "''scope''" "[10, 20, 30]"]
  by (simp add: weight_sum_def)

end
