(* ===== verification/Custom_Address.thy ===== *)
theory Custom_Address
  imports Custom_Targets
begin

text \<open>
  The address check of operator-defined upstreams (\<open>is_public_ip\<close>) is the table of special-purpose IPv4 blocks.
\<close>

section \<open>Public addresses\<close>

lemma all_octets: "(\<forall>b :: 8 word. P b) \<longleftrightarrow> list_all (\<lambda>n. P (word_of_nat n)) [0..<256]"
proof
  assume r: "list_all (\<lambda>n. P (word_of_nat n)) [0..<256]"
  show "\<forall>b. P b"
  proof
    fix b :: "8 word"
    have "unat b < 256" using unsigned_less [of b] by simp
    with r have "P (word_of_nat (unat b))" unfolding list_all_iff by (metis atLeastLessThan_iff set_upt zero_le)
    then show "P b" by simp
  qed
qed (simp add: list_all_iff)

lemma high_bits:
  fixes b :: "8 word"
  shows "b AND 0xC0 = 0x40 \<longleftrightarrow> unat b div 64 = 1"
    and "b AND 0xFE = 18 \<longleftrightarrow> unat b div 2 = 9"
    and "b AND 0xF0 = 0xF0 \<longleftrightarrow> unat b div 16 = 15"
proof -
  have "\<forall>b :: 8 word. (b AND 0xC0 = 0x40 \<longleftrightarrow> unat b div 64 = 1) \<and> (b AND 0xFE = 18 \<longleftrightarrow> unat b div 2 = 9) \<and>
      (b AND 0xF0 = 0xF0 \<longleftrightarrow> unat b div 16 = 15)"
    unfolding all_octets by code_simp
  then show "b AND 0xC0 = 0x40 \<longleftrightarrow> unat b div 64 = 1" "b AND 0xFE = 18 \<longleftrightarrow> unat b div 2 = 9"
    "b AND 0xF0 = 0xF0 \<longleftrightarrow> unat b div 16 = 15" by blast+
qed

text \<open>An address as a number, and a block as its first address and the length of its prefix.\<close>

definition v4_number :: "nat \<Rightarrow> nat \<Rightarrow> nat \<Rightarrow> nat \<Rightarrow> nat" where
  "v4_number a b c d = ((a * 256 + b) * 256 + c) * 256 + d"

definition in_block :: "nat \<Rightarrow> nat \<times> nat \<Rightarrow> bool" where
  "in_block n block = (case block of (first, len) \<Rightarrow> n div 2 ^ (32 - len) = first div 2 ^ (32 - len))"

definition special_blocks :: "(nat \<times> nat) list" where
  "special_blocks = [
     (v4_number 0 0 0 0, 8), (v4_number 10 0 0 0, 8), (v4_number 100 64 0 0, 10), (v4_number 127 0 0 0, 8),
     (v4_number 169 254 0 0, 16), (v4_number 172 16 0 0, 12), (v4_number 192 0 0 0, 24), (v4_number 192 0 2 0, 24),
     (v4_number 192 168 0 0, 16), (v4_number 198 18 0 0, 15), (v4_number 198 51 100 0, 24),
     (v4_number 203 0 113 0, 24), (v4_number 224 0 0 0, 4), (v4_number 240 0 0 0, 4)]"

lemma mixed_radix: "p < k \<Longrightarrow> q < k \<Longrightarrow> a * k + p = x * k + q \<longleftrightarrow> a = x \<and> p = (q :: nat)"
proof
  assume lt: "p < k" "q < k" and "a * k + p = x * k + q"
  then have "(a * k + p) div k = (x * k + q) div k" "(a * k + p) mod k = (x * k + q) mod k" by simp_all
  with lt show "a = x \<and> p = q" by simp
qed simp

lemma mixed_radix3:
  "b < 256 \<Longrightarrow> c < 256 \<Longrightarrow> y < 256 \<Longrightarrow> z < 256 \<Longrightarrow>
    65536 * a + b * 256 + c = 65536 * x + y * 256 + z \<longleftrightarrow> a = x \<and> b = y \<and> c = (z :: nat)"
  using mixed_radix [of c 256 z "a * 256 + b" "x * 256 + y"] mixed_radix [of b 256 y a x] by (simp add: algebra_simps)

lemma split_octet:
  fixes a b :: nat
  shows "b < 256 \<Longrightarrow> (a * 256 + b) div 256 = a" "(a * 256 + b) div 64 = a * 4 + b div 64"
    "(a * 256 + b) div 16 = a * 16 + b div 16" "(a * 256 + b) div 2 = a * 128 + b div 2"
  by (simp, presburger+)

lemma v4_number_div:
  assumes "b < 256" "c < 256" "d < 256"
  shows "v4_number a b c d div 256 = (a * 256 + b) * 256 + c" "v4_number a b c d div (256 * 256) = a * 256 + b"
    "v4_number a b c d div (256 * 256 * 256) = a" "v4_number a b c d div (256 * 256 * 256 * 16) = a div 16"
    "v4_number a b c d div (256 * 256 * 64) = a * 4 + b div 64"
    "v4_number a b c d div (256 * 256 * 16) = a * 16 + b div 16"
    "v4_number a b c d div (256 * 256 * 2) = a * 128 + b div 2"
  using assms by (simp_all only: v4_number_def div_mult2_eq split_octet)

lemma powers_of_256:
  "(2 :: nat) ^ (32 - 24) = 256" "(2 :: nat) ^ (32 - 16) = 256 * 256" "(2 :: nat) ^ (32 - 8) = 256 * 256 * 256"
  "(2 :: nat) ^ (32 - 4) = 256 * 256 * 256 * 16" "(2 :: nat) ^ (32 - 10) = 256 * 256 * 64"
  "(2 :: nat) ^ (32 - 12) = 256 * 256 * 16" "(2 :: nat) ^ (32 - 15) = 256 * 256 * 2"
  by simp_all

lemma in_block_octets:
  assumes "b < 256" "c < 256" "d < 256"
  shows "in_block (v4_number a b c d) (v4_number x 0 0 0, 8) \<longleftrightarrow> a = x"
    "in_block (v4_number a b c d) (v4_number x 0 0 0, 4) \<longleftrightarrow> a div 16 = x div 16"
    "y < 256 \<Longrightarrow> in_block (v4_number a b c d) (v4_number x y 0 0, 16) \<longleftrightarrow> a = x \<and> b = y"
    "y < 256 \<Longrightarrow> z < 256 \<Longrightarrow> in_block (v4_number a b c d) (v4_number x y z 0, 24) \<longleftrightarrow> a = x \<and> b = y \<and> c = z"
    "y < 256 \<Longrightarrow> in_block (v4_number a b c d) (v4_number x y 0 0, 10) \<longleftrightarrow> a = x \<and> b div 64 = y div 64"
    "y < 256 \<Longrightarrow> in_block (v4_number a b c d) (v4_number x y 0 0, 12) \<longleftrightarrow> a = x \<and> b div 16 = y div 16"
    "y < 256 \<Longrightarrow> in_block (v4_number a b c d) (v4_number x y 0 0, 15) \<longleftrightarrow> a = x \<and> b div 2 = y div 2"
  using assms
  by (simp_all only: in_block_def prod.case powers_of_256 v4_number_div zero_less_numeral,
      simp_all add: mixed_radix mixed_radix3 less_mult_imp_div_less)

lemma public_v4_is_outside_the_blocks:
  "is_public_v4 a b c d \<longleftrightarrow>
     (\<forall>block \<in> set special_blocks. \<not> in_block (v4_number (unat a) (unat b) (unat c) (unat d)) block) \<or>
     (a, b, c, d) = (192, 0, 0, 9) \<or> (a, b, c, d) = (192, 0, 0, 10)"
proof -
  define A B C D where num: "A = unat a" "B = unat b" "C = unat c" "D = unat d"
  have lt: "A < 256" "B < 256" "C < 256" "D < 256" using unsigned_less [of a] unsigned_less [of b] unsigned_less [of c] unsigned_less [of d] by (simp_all add: num)
  have octets: "x = y \<longleftrightarrow> unat x = unat y" for x y :: "8 word" by (simp add: word_unat_eq_iff)
  have ranges: "16 \<le> B \<and> B \<le> 31 \<longleftrightarrow> B div 16 = 1" "224 \<le> A \<and> A \<le> 239 \<longleftrightarrow> A div 16 = 14" by presburger+
  have spec: "(\<forall>block \<in> set special_blocks. \<not> in_block (v4_number A B C D) block) \<longleftrightarrow>
    \<not> (A = 0 \<or> A = 10 \<or> A = 100 \<and> B div 64 = 1 \<or> A = 127 \<or> A = 169 \<and> B = 254 \<or> A = 172 \<and> B div 16 = 1 \<or>
       A = 192 \<and> B = 0 \<and> C = 0 \<or> A = 192 \<and> B = 0 \<and> C = 2 \<or> A = 192 \<and> B = 168 \<or> A = 198 \<and> B div 2 = 9 \<or>
       A = 198 \<and> B = 51 \<and> C = 100 \<or> A = 203 \<and> B = 0 \<and> C = 113 \<or> A div 16 = 14 \<or> A div 16 = 15)"
    unfolding special_blocks_def by (simp add: in_block_octets lt)
  have code: "is_public_v4 a b c d \<longleftrightarrow>
    \<not> (A = 0 \<or> (A = 10 \<or> A = 172 \<and> B div 16 = 1 \<or> A = 192 \<and> B = 168) \<or> A = 100 \<and> B div 64 = 1 \<or> A = 127 \<or>
       A = 169 \<and> B = 254 \<or> A = 192 \<and> B = 0 \<and> C = 0 \<and> D \<noteq> 9 \<and> D \<noteq> 10 \<or>
       (A = 192 \<and> B = 0 \<and> C = 2 \<or> A = 198 \<and> B = 51 \<and> C = 100 \<or> A = 203 \<and> B = 0 \<and> C = 113) \<or> A = 198 \<and> B div 2 = 9 \<or>
       A div 16 = 15 \<and> \<not> (A = 255 \<and> B = 255 \<and> C = 255 \<and> D = 255) \<or>
       A = 255 \<and> B = 255 \<and> C = 255 \<and> D = 255 \<or> A div 16 = 14)"
    unfolding is_public_v4_def Let_def high_bits unfolding v4_private_def v4_documentation_def octets word_le_nat_alt prod.inject
    by (simp add: num [symmetric] ranges)
  have "A = 255 \<Longrightarrow> A div 16 = 15" by simp
  then show ?thesis unfolding num [symmetric] spec code octets prod.inject
    by (cases "A = 192") (auto simp: num [symmetric])
qed

end
