(* ===== verification/Custom_Observer.thy ===== *)
theory Custom_Observer
  imports Custom_Exec
begin

text \<open>
  The caches of operator-defined upstreams stay within their bounds, an affinity is recorded only at the clean end
  of a stream, and what the completion observer makes of a stream depends on how it is cut into chunks.
\<close>

section \<open>Bounds\<close>

lemma prune_length: "length (tbl_retain p t) \<le> length t"
  by (rule tbl_len_retain)

lemma delete_shortens: "(k, v) \<in> set t \<Longrightarrow> length (tbl_del t k) < length t"
  by (induction t) (auto simp: less_Suc_eq_le length_delete_le)

lemma drop_oldest_length: "entries \<noteq> [] \<Longrightarrow> length (drop_oldest stamp entries) < length entries"
proof -
  assume "entries \<noteq> []"
  then obtain k v where m: "min_by (\<lambda>a b. cmp_lin (stamp (snd a)) (stamp (snd b))) entries = Some (k, v)"
    by (cases "min_by (\<lambda>a b. cmp_lin (stamp (snd a)) (stamp (snd b))) entries") (auto simp: min_by_None)
  then have "(k, v) \<in> set entries" by (rule min_by_in)
  then have "length (tbl_del entries k) < length entries" by (rule delete_shortens)
  with m show ?thesis by (simp add: drop_oldest_def)
qed

lemma room_made:
  assumes "0 < m" "length entries \<le> m"
  shows "length (tbl_put (make_room stamp m k entries) k v) \<le> m"
proof (cases "tbl_get entries k = None \<and> m \<le> length entries")
  case True
  then have "length (make_room stamp m k entries) < m"
    using assms drop_oldest_length [of entries stamp] by (cases entries) (auto simp: make_room_def)
  then show ?thesis using tbl_len_put_le [of k v "make_room stamp m k entries"] by simp
next
  case False
  then show ?thesis
  proof (cases "tbl_get entries k")
    case None
    with False show ?thesis using tbl_len_put_le [of k v entries] by (auto simp: make_room_def)
  next
    case (Some w)
    with assms(2) show ?thesis by (simp add: make_room_def tbl_len_put_present)
  qed
qed

lemma affinity_bounded:
  "length (ac_entries cache) \<le> ac_max_entries cache \<Longrightarrow>
     length (ac_entries (affinity_record key p c now cache)) \<le> ac_max_entries (affinity_record key p c now cache)"
  using prune_length [of "\<lambda>_ target. now - at_last_success target < ac_ttl cache" "ac_entries cache"]
  by (auto simp: affinity_record_def affinity_prune_def Let_def intro!: room_made)

lemma fair_scopes_bounded:
  assumes "length (sc_entries cache) \<le> sc_max_entries cache"
  shows "length (sc_entries (snd (smooth_select scope candidates now cache))) \<le> sc_max_entries (snd (smooth_select scope candidates now cache))"
proof -
  have pruned: "length (sc_entries (smooth_prune now cache)) \<le> sc_max_entries cache"
    using assms prune_length [of _ "sc_entries cache"] by (fastforce simp: smooth_prune_def intro: order.trans)
  have "length (make_room stamp m k entries) \<le> length entries" for stamp m k and entries :: "(string, smooth_state) table"
    using drop_oldest_length [of entries stamp] by (cases entries) (auto simp: make_room_def drop_oldest_def)
  from order.trans [OF this pruned] pruned show ?thesis
    by (auto simp: smooth_select_def Let_def smooth_prune_def intro!: room_made split: prod.splits)
qed

section \<open>When an affinity is recorded\<close>

lemma affinity_recorded_at_clean_end:
  assumes "\<And>n s. cs_affinity (cx_others cx n s) = cs_affinity s"
    and "cs_affinity (cr_shared (snd (relay_polls cx ct n events co r))) \<noteq> cs_affinity (cr_shared r)"
  shows "\<exists>chunks. events = map BodyChunk chunks \<and>
    completed_cleanly (ce_parse_json cx) (fold (completion_observe (ce_parse_json cx)) chunks co)"
  using assms(2)
proof (induction n arbitrary: events co r)
  case (Suc n)
  have quiet: "cs_affinity (cr_shared (custom_await cx r)) = cs_affinity (cr_shared r)" for r
    by (simp add: custom_await_def assms(1))
  have bench: "cs_affinity (cr_shared (bench_credential cx cid r)) = cs_affinity (cr_shared r)" for cid r
    by (simp add: bench_credential_def write_health_def quiet)
  show ?case
  proof (cases events)
    case Nil
    with Suc.prems quiet show ?thesis by (auto simp: Let_def intro!: exI [of _ "[]"] split: if_splits)
  next
    case (Cons e rest)
    show ?thesis
    proof (cases e)
      case (BodyChunk chunk)
      with Suc.prems Cons quiet Suc.IH [of rest "completion_observe (ce_parse_json cx) chunk co" "custom_await cx r"]
      obtain chunks where "rest = map BodyChunk chunks"
        "completed_cleanly (ce_parse_json cx) (fold (completion_observe (ce_parse_json cx)) (chunk # chunks) co)"
        by (auto simp: Let_def split: prod.splits)
      with Cons BodyChunk show ?thesis by (intro exI [of _ "chunk # chunks"]) simp
    qed (use Suc.prems Cons quiet bench in \<open>auto simp: Let_def\<close>)
  qed
qed simp

section \<open>Chunks\<close>

definition two_events :: "string \<Rightarrow> json option" where
  "two_events s = (if s = ''C'' then Some (JObj [(''type'', JStr ''response.completed'')])
     else if s = ''D'' then Some (JObj [(''type'', JStr ''response.done'')]) else None)"

definition seen_complete :: "string list \<Rightarrow> bool" where
  "seen_complete chunks \<longleftrightarrow> completed_cleanly two_events
     (fold (completion_observe two_events) chunks (completion_new ''responses'' True))"

lemma completion_depends_on_chunks:
  "concat [''data:C'' @ [nl], ''data:D'' @ [nl]] = concat [''data:C'' @ [nl] @ ''data:D'' @ [nl]] \<and>
   seen_complete [''data:C'' @ [nl], ''data:D'' @ [nl]] \<and> \<not> seen_complete [''data:C'' @ [nl] @ ''data:D'' @ [nl]]"
  by (simp add: seen_complete_def completed_cleanly_def completion_observe_def completion_new_def completion_byte_def
      completion_line_def line_event_def strip_prefix_def strip_suffix_def two_events_def ends_well_def jget_str_def
      max_affinity_sse_line_bytes_def Let_def)

end
