(* ===== verification/Continuity_Store.thy ===== *)
theory Continuity_Store
  imports Core_Types
begin

text \<open>
  The continuity tables (\<open>polyflare-store/src/continuity_repo.rs\<close>, \<open>migrations/0002_continuity.sql\<close>,
  \<open>0008_session_capability.sql\<close>): session rows (soft affinity) and the map from response ids to the
  account that produced them. Each repository method is one statement or transaction, hence a
  function on the database; \<open>None\<close> is a \<open>StoreError\<close>, the transaction rolled back. The schema's
  foreign keys are enforced (\<open>store.rs\<close> turns them on): an owner must be an account, an anchor's
  session must exist, deleting an account clears the owner, deleting a session deletes its anchors.
\<close>

section \<open>Tables\<close>

record session_row =
  sr_key_strength :: string
  sr_owning_account_id :: "account_id option"
  sr_anchor_response_id :: "string option"
  sr_last_input_fingerprint :: "string option"
  sr_last_input_count :: "i64 option"
  sr_reasoning_cache_ref :: "string option"
  sr_state :: string
  sr_created_at :: i64
  sr_updated_at :: i64
  sr_last_activity_at :: i64
  sr_required_capabilities :: "string option"

record anchor_row =
  an_session_key :: string
  an_owning_account_id :: account_id
  an_created_at :: i64

record continuity_db =
  db_accounts :: "account_id list"
  db_sessions :: "(string, session_row) table"
  db_anchors :: "(string, anchor_row) table"

definition new_session :: "string \<Rightarrow> string \<Rightarrow> i64 \<Rightarrow> session_row" where
  "new_session strength state now = \<lparr>sr_key_strength = strength, sr_owning_account_id = None,
     sr_anchor_response_id = None, sr_last_input_fingerprint = None, sr_last_input_count = None,
     sr_reasoning_cache_ref = None, sr_state = state, sr_created_at = now, sr_updated_at = now,
     sr_last_activity_at = now, sr_required_capabilities = None\<rparr>"

definition has_capability :: "session_row \<Rightarrow> string \<Rightarrow> bool" where
  "has_capability row capability =
     is_some_and (sr_required_capabilities row) (\<lambda>tags. capability \<in> set (split_on (CHR '','') tags))"

section \<open>Statements\<close>

definition get_session :: "string \<Rightarrow> continuity_db \<Rightarrow> session_row option" where
  "get_session k db = tbl_get (db_sessions db) k"

definition get_anchor_owner :: "string \<Rightarrow> continuity_db \<Rightarrow> account_id option" where
  "get_anchor_owner rid db = map_option an_owning_account_id (tbl_get (db_anchors db) rid)"

definition update_session :: "string \<Rightarrow> (session_row \<Rightarrow> session_row) \<Rightarrow> continuity_db \<Rightarrow> continuity_db" where
  "update_session k f db =
     (case tbl_get (db_sessions db) k of None \<Rightarrow> db
      | Some row \<Rightarrow> db\<lparr>db_sessions := tbl_put (db_sessions db) k (f row)\<rparr>)"

definition ensure_session :: "string \<Rightarrow> string \<Rightarrow> i64 \<Rightarrow> continuity_db \<Rightarrow> continuity_db" where
  "ensure_session k strength now db =
     (if tbl_get (db_sessions db) k = None
      then db\<lparr>db_sessions := tbl_put (db_sessions db) k (new_session strength ''fresh'' now)\<rparr> else db)"

definition set_state :: "string \<Rightarrow> string \<Rightarrow> i64 \<Rightarrow> continuity_db \<Rightarrow> continuity_db" where
  "set_state k state now db =
     update_session k (\<lambda>row. row\<lparr>sr_state := state, sr_updated_at := now, sr_last_activity_at := now\<rparr>) db"

definition ensure_session_reattaching :: "string \<Rightarrow> string \<Rightarrow> i64 \<Rightarrow> continuity_db \<Rightarrow> continuity_db" where
  "ensure_session_reattaching k strength now db =
     (case tbl_get (db_sessions db) k of
        None \<Rightarrow> db\<lparr>db_sessions := tbl_put (db_sessions db) k (new_session strength ''reattaching'' now)\<rparr>
      | Some row \<Rightarrow> db\<lparr>db_sessions := tbl_put (db_sessions db) k
          (row\<lparr>sr_state := ''reattaching'', sr_updated_at := now, sr_last_activity_at := now\<rparr>)\<rparr>)"

text \<open>\<open>INSERT OR REPLACE INTO continuity_anchors\<close>, with its foreign key.\<close>

definition insert_anchor :: "string \<Rightarrow> string \<Rightarrow> account_id \<Rightarrow> i64 \<Rightarrow> continuity_db \<Rightarrow> continuity_db option" where
  "insert_anchor rid k account now db =
     (if tbl_get (db_sessions db) k = None then None
      else Some (db\<lparr>db_anchors := tbl_put (db_anchors db) rid
             \<lparr>an_session_key = k, an_owning_account_id = account, an_created_at = now\<rparr>\<rparr>))"

text \<open>An \<open>UPDATE\<close> that writes an owner: the account must exist if a row is touched.\<close>

definition owner_valid :: "account_id option \<Rightarrow> continuity_db \<Rightarrow> bool" where
  "owner_valid owner db = (case owner of None \<Rightarrow> True | Some a \<Rightarrow> a \<in> set (db_accounts db))"

definition update_owned ::
  "string \<Rightarrow> (session_row \<Rightarrow> session_row) \<Rightarrow> continuity_db \<Rightarrow> continuity_db option" where
  "update_owned k f db =
     (case tbl_get (db_sessions db) k of None \<Rightarrow> Some db
      | Some row \<Rightarrow> if owner_valid (sr_owning_account_id (f row)) db
          then Some (update_session k f db) else None)"

definition record_completion ::
  "string \<Rightarrow> string \<Rightarrow> account_id \<Rightarrow> account_id option \<Rightarrow> string \<Rightarrow> string \<Rightarrow> i64 \<Rightarrow> i64 \<Rightarrow>
   continuity_db \<Rightarrow> continuity_db option" where
  "record_completion k strength account expected_owner rid fingerprint cnt now db =
     (let claims_ownership = (case expected_owner of None \<Rightarrow> True | Some expected \<Rightarrow> expected = account);
          db1 = ensure_session k strength now db
      in case update_owned k (\<lambda>row. row\<lparr>
             sr_owning_account_id := (if claims_ownership then Some account else sr_owning_account_id row),
             sr_anchor_response_id := Some rid, sr_last_input_fingerprint := Some fingerprint,
             sr_last_input_count := Some cnt, sr_state := ''anchored'',
             sr_updated_at := now, sr_last_activity_at := now\<rparr>) db1 of
           None \<Rightarrow> None | Some db2 \<Rightarrow> insert_anchor rid k account now db2)"

definition record_recovery ::
  "string \<Rightarrow> account_id \<Rightarrow> string option \<Rightarrow> i64 \<Rightarrow> continuity_db \<Rightarrow> continuity_db option" where
  "record_recovery k account new_response_id now db =
     (case new_response_id of
        Some rid \<Rightarrow>
          (case update_owned k (\<lambda>row. row\<lparr>sr_owning_account_id := Some account,
               sr_anchor_response_id := Some rid, sr_state := ''anchored'',
               sr_updated_at := now, sr_last_activity_at := now\<rparr>) db of
             None \<Rightarrow> None | Some db1 \<Rightarrow> insert_anchor rid k account now db1)
      | None \<Rightarrow> Some (set_state k ''anchored'' now db))"

definition set_required_capability :: "string \<Rightarrow> string \<Rightarrow> i64 \<Rightarrow> continuity_db \<Rightarrow> continuity_db" where
  "set_required_capability k capability now db =
     (let current = unwrap_or (case get_session k db of None \<Rightarrow> None | Some row \<Rightarrow> sr_required_capabilities row) [];
          tags = filter (\<lambda>t. t \<noteq> []) (split_on (CHR '','') current);
          tags' = (if capability \<in> set tags then tags else tags @ [capability])
      in update_session k (\<lambda>row. row\<lparr>sr_required_capabilities := Some (join_with (CHR '','') tags'),
           sr_updated_at := now\<rparr>) db)"

section \<open>Deletion\<close>

definition delete_sessions :: "string set \<Rightarrow> continuity_db \<Rightarrow> continuity_db" where
  "delete_sessions ks db = db\<lparr>
     db_sessions := tbl_retain (\<lambda>k _. k \<notin> ks) (db_sessions db),
     db_anchors := tbl_retain (\<lambda>_ a. an_session_key a \<notin> ks) (db_anchors db)\<rparr>"

definition delete_anchors :: "string set \<Rightarrow> continuity_db \<Rightarrow> continuity_db" where
  "delete_anchors rids db = db\<lparr>db_anchors := tbl_retain (\<lambda>rid _. rid \<notin> rids) (db_anchors db)\<rparr>"

definition delete_account :: "account_id \<Rightarrow> continuity_db \<Rightarrow> continuity_db" where
  "delete_account a db = db\<lparr>db_accounts := removeAll a (db_accounts db),
     db_sessions := map (\<lambda>(k, row). (k, if sr_owning_account_id row = Some a
        then row\<lparr>sr_owning_account_id := None\<rparr> else row)) (db_sessions db)\<rparr>"

text \<open>
  The batched age delete. One statement deletes up to \<open>batch\<close> of the matching rows; which ones is not
  specified by SQL, the first here. The loop stops at the first short batch.
\<close>

definition old_sessions :: "i64 \<Rightarrow> continuity_db \<Rightarrow> string list" where
  "old_sessions cutoff db = map fst (filter (\<lambda>(_, row). sr_last_activity_at row < cutoff) (db_sessions db))"

definition old_anchors :: "i64 \<Rightarrow> continuity_db \<Rightarrow> string list" where
  "old_anchors cutoff db = map fst (filter (\<lambda>(_, a). an_created_at a < cutoff) (db_anchors db))"

lemma old_sessions_delete:
  assumes "victims \<noteq> []" "set victims \<subseteq> set (old_sessions cutoff db)"
  shows "length (old_sessions cutoff (delete_sessions (set victims) db)) < length (old_sessions cutoff db)"
proof -
  let ?p = "\<lambda>(k :: string, row). sr_last_activity_at row < cutoff"
  obtain v where v: "v \<in> set victims" using assms(1) by (cases victims) auto
  with assms(2) obtain row where row: "(v, row) \<in> set (filter ?p (db_sessions db))"
    by (auto simp: old_sessions_def)
  have "length (filter (\<lambda>(k, _). k \<notin> set victims) (filter ?p (db_sessions db))) < length (filter ?p (db_sessions db))"
    by (rule length_filter_less [OF row]) (simp add: v)
  moreover have "old_sessions cutoff (delete_sessions (set victims) db) =
      map fst (filter (\<lambda>(k, _). k \<notin> set victims) (filter ?p (db_sessions db)))"
    by (auto simp: old_sessions_def delete_sessions_def tbl_retain_def intro!: arg_cong [where f = "map fst"] filter_cong)
  ultimately show ?thesis by (simp add: old_sessions_def)
qed

lemma old_anchors_delete:
  assumes "victims \<noteq> []" "set victims \<subseteq> set (old_anchors cutoff db)"
  shows "length (old_anchors cutoff (delete_anchors (set victims) db)) < length (old_anchors cutoff db)"
proof -
  let ?p = "\<lambda>(k :: string, a). an_created_at a < cutoff"
  obtain v where v: "v \<in> set victims" using assms(1) by (cases victims) auto
  with assms(2) obtain a where a: "(v, a) \<in> set (filter ?p (db_anchors db))"
    by (auto simp: old_anchors_def)
  have "length (filter (\<lambda>(k, _). k \<notin> set victims) (filter ?p (db_anchors db))) < length (filter ?p (db_anchors db))"
    by (rule length_filter_less [OF a]) (simp add: v)
  moreover have "old_anchors cutoff (delete_anchors (set victims) db) =
      map fst (filter (\<lambda>(k, _). k \<notin> set victims) (filter ?p (db_anchors db)))"
    by (auto simp: old_anchors_def delete_anchors_def tbl_retain_def intro!: arg_cong [where f = "map fst"] filter_cong)
  ultimately show ?thesis by (simp add: old_anchors_def)
qed

function prune_sessions_older_than :: "i64 \<Rightarrow> i64 \<Rightarrow> u64 \<Rightarrow> continuity_db \<Rightarrow> u64 \<times> continuity_db" where
  "prune_sessions_older_than cutoff batch_size removed db =
     (if batch_size \<le> 0 then (removed, db)
      else let victims = take (nat batch_size) (old_sessions cutoff db);
               db' = delete_sessions (set victims) db; affected = length victims
           in if affected < nat batch_size then (removed + affected, db')
              else prune_sessions_older_than cutoff batch_size (removed + affected) db')"
  by auto
termination
proof (relation "measure (\<lambda>(cutoff, batch_size, removed, db). length (old_sessions cutoff db))")
  fix cutoff batch_size :: i64 and removed :: u64 and db x xa xb
  assume "\<not> batch_size \<le> 0" "x = take (nat batch_size) (old_sessions cutoff db)"
    "xa = delete_sessions (set x) db" "xb = length x" "\<not> xb < nat batch_size"
  then show "((cutoff, batch_size, removed + xb, xa), cutoff, batch_size, removed, db)
      \<in> measure (\<lambda>(cutoff, batch_size, removed, db). length (old_sessions cutoff db))"
    using old_sessions_delete [of x cutoff db] set_take_subset by fastforce
qed simp

function prune_anchors_older_than :: "i64 \<Rightarrow> i64 \<Rightarrow> u64 \<Rightarrow> continuity_db \<Rightarrow> u64 \<times> continuity_db" where
  "prune_anchors_older_than cutoff batch_size removed db =
     (if batch_size \<le> 0 then (removed, db)
      else let victims = take (nat batch_size) (old_anchors cutoff db);
               db' = delete_anchors (set victims) db; affected = length victims
           in if affected < nat batch_size then (removed + affected, db')
              else prune_anchors_older_than cutoff batch_size (removed + affected) db')"
  by auto
termination
proof (relation "measure (\<lambda>(cutoff, batch_size, removed, db). length (old_anchors cutoff db))")
  fix cutoff batch_size :: i64 and removed :: u64 and db x xa xb
  assume "\<not> batch_size \<le> 0" "x = take (nat batch_size) (old_anchors cutoff db)"
    "xa = delete_anchors (set x) db" "xb = length x" "\<not> xb < nat batch_size"
  then show "((cutoff, batch_size, removed + xb, xa), cutoff, batch_size, removed, db)
      \<in> measure (\<lambda>(cutoff, batch_size, removed, db). length (old_anchors cutoff db))"
    using old_anchors_delete [of x cutoff db] set_take_subset by fastforce
qed simp

declare prune_sessions_older_than.simps [simp del] prune_anchors_older_than.simps [simp del]

end
