(* ===== verification/Selection.thy ===== *)
theory Selection
  imports Core_Types "HOL-Library.Word"
begin

text \<open>
  Account selection (\<open>polyflare-core/src/select.rs\<close>): the eligibility gates, the health-tier and
  policy pools, the six strategies, and the recovery queries the ingress asks when nobody is
  eligible. Times enter through the context, as in the source. Two things are not the source's:
  \<open>f64::ln\<close> of the platform and the weighted draw of the \<open>rand\<close> crate; both are fields of
  \<open>sel_env\<close>.
\<close>

section \<open>External functions\<close>

text \<open>
  \<open>env_draw ws seed\<close> is \<open>WeightedIndex::new(ws)\<close> followed by one sample, from the seeded generator
  or from the thread's: \<open>None\<close> when the weights are rejected, else an index. \<open>draw_ok\<close> is what the
  crate documents: the index is in range and its weight is positive.
\<close>

record sel_env =
  env_ln :: "f64 \<Rightarrow> f64"
  env_draw :: "f64 list \<Rightarrow> u64 option \<Rightarrow> usize option"

definition draw_ok :: "sel_env \<Rightarrow> bool" where
  "draw_ok e \<longleftrightarrow> (\<forall>ws seed i. env_draw e ws seed = Some i \<longrightarrow> i < length ws \<and> fgt (ws ! i) (F_Num 0))"

section \<open>Plans and backoff\<close>

definition plan_alias :: "string \<Rightarrow> string option" where
  "plan_alias n =
     (if n \<in> set [''education'', ''k12''] then Some ''edu''
      else if n \<in> set [''guest'', ''go'', ''free_workspace'', ''quorum'', ''unknown''] then Some ''free''
      else None)"

definition plan_capacity_secondary :: "string \<Rightarrow> f64" where
  "plan_capacity_secondary plan =
     (let normalized = str_lower (str_trim plan);
          resolved = (case plan_alias normalized of
              Some alias \<Rightarrow> alias
            | None \<Rightarrow> if normalized = '''' then ''free'' else normalized)
      in if resolved = ''free'' then F_Num 1134
         else if resolved \<in> set [''plus'', ''business'', ''team'', ''edu''] then F_Num 7560
         else if resolved \<in> set [''pro'', ''enterprise''] then F_Num 50400
         else if resolved = ''prolite'' then F_Num 37800
         else if resolved = ''promax'' then fmul (F_Num 50400) (flit (5 / 2))
         else if resolved = ''max_20x'' then fmul (F_Num 50400) (F_Num 20)
         else if resolved = ''max_5x'' then fmul (F_Num 50400) (F_Num 5)
         else if resolved = ''max'' then fmul (F_Num 50400) (F_Num 5)
         else F_Num 1134)"

text \<open>\<open>error_count.saturating_sub(3).min(20)\<close> bounds the shift, so \<open>30 << exp\<close> cannot overflow.\<close>

definition error_backoff_secs :: "u32 \<Rightarrow> i64" where
  "error_backoff_secs n =
     (let exp = min (n - 3) 20; raw = sat_i64 (30 * 2 ^ exp) in min raw 300)"

section \<open>Candidates\<close>

record candidate =
  c_snap :: account_snapshot
  c_used :: f64
  c_secondary_used :: f64
  c_error_count :: u32
  c_last_error_at :: "i64 option"

definition capacity :: "candidate \<Rightarrow> f64" where
  "capacity c = unwrap_or (snap_capacity_credits (c_snap c))
     (plan_capacity_secondary (snap_plan_type (c_snap c)))"

definition remaining_secondary_credits :: "candidate \<Rightarrow> f64" where
  "remaining_secondary_credits c =
     fmax (fmul (capacity c)
       (fsub (F_Num 1) (fdiv (fmin (c_secondary_used c) (F_Num 100)) (F_Num 100)))) (F_Num 0)"

definition warmth :: "candidate \<Rightarrow> f64" where
  "warmth c = fmax (c_used c) (c_secondary_used c)"

definition should_drain :: "candidate \<Rightarrow> i64 \<Rightarrow> bool" where
  "should_drain c now \<longleftrightarrow>
     fge (c_used c) (F_Num 85) \<or> fge (c_secondary_used c) (F_Num 90) \<or>
     (2 \<le> c_error_count c \<and> is_some_and (c_last_error_at c) (\<lambda>t. now - t < 60))"

definition effective_tier :: "candidate \<Rightarrow> i64 \<Rightarrow> u8" where
  "effective_tier c now =
     (if should_drain c now then max (snap_health_tier (c_snap c)) 1 else snap_health_tier (c_snap c))"

section \<open>Eligibility\<close>

datatype backoff_kind = ErrorBackoff | Cooldown

datatype elig_verdict = Eligible candidate | InBackoff i64 backoff_kind | HardBlocked

text \<open>
  \<open>eligibility\<close> is a sequence of gates over the effective state; a gate either returns a verdict
  (\<open>Inl\<close>) or falls through with the state it leaves (\<open>Inr\<close>), as the early returns of the source.
\<close>

definition initial_candidate :: "account_snapshot \<Rightarrow> candidate" where
  "initial_candidate s = \<lparr> c_snap = s, c_used = snap_used_percent s,
     c_secondary_used = snap_secondary_used_percent s, c_error_count = snap_error_count s,
     c_last_error_at = snap_last_error_at s \<rparr>"

definition gate_rate_limited :: "account_snapshot \<Rightarrow> i64 \<Rightarrow> candidate \<Rightarrow> elig_verdict + candidate" where
  "gate_rate_limited s now c =
     (if snap_status s = ''rate_limited'' then
        (case snap_reset_at s of
           Some reset \<Rightarrow> if reset \<le> now then Inr (c\<lparr>c_used := F_Num 0, c_error_count := 0\<rparr>)
                         else Inl (InBackoff reset Cooldown)
         | None \<Rightarrow> Inl HardBlocked)
      else Inr c)"

definition gate_quota_exceeded :: "account_snapshot \<Rightarrow> i64 \<Rightarrow> candidate \<Rightarrow> elig_verdict + candidate" where
  "gate_quota_exceeded s now c =
     (if snap_status s = ''quota_exceeded'' then
        (case snap_reset_at s of
           Some reset \<Rightarrow> if reset \<le> now then Inr (c\<lparr>c_used := F_Num 0, c_secondary_used := F_Num 0\<rparr>)
                         else Inl (InBackoff reset Cooldown)
         | None \<Rightarrow> Inl HardBlocked)
      else Inr c)"

definition window_reset :: "quota_window option \<Rightarrow> i64 option" where
  "window_reset w = (case w of Some q \<Rightarrow> qw_reset_at q | None \<Rightarrow> None)"

definition gate_usage_cap :: "account_snapshot \<Rightarrow> candidate \<Rightarrow> elig_verdict + candidate" where
  "gate_usage_cap s c =
     (if \<not> snap_usage_cap_override s then
        (case snap_usage_cap_percent s of
           Some cap \<Rightarrow>
             let five_hour_capped = fge (c_used c) cap;
                 weekly_capped = fge (c_secondary_used c) cap
             in if five_hour_capped \<or> weekly_capped then
                  (case (if five_hour_capped
                         then opt_or (window_reset (snap_five_hour_quota s)) (window_reset (snap_weekly_quota s))
                         else window_reset (snap_weekly_quota s)) of
                     Some reset \<Rightarrow> Inl (InBackoff reset Cooldown)
                   | None \<Rightarrow> Inl HardBlocked)
                else Inr c
         | None \<Rightarrow> Inr c)
      else Inr c)"

definition gate_cooldown :: "account_snapshot \<Rightarrow> i64 \<Rightarrow> candidate \<Rightarrow> elig_verdict + candidate" where
  "gate_cooldown s now c =
     (case snap_cooldown_until s of
        Some cd \<Rightarrow> if cd \<le> now then Inr (c\<lparr>c_error_count := 0, c_last_error_at := None\<rparr>)
                   else Inl (InBackoff cd Cooldown)
      | None \<Rightarrow> Inr c)"

definition gate_error_backoff :: "i64 \<Rightarrow> candidate \<Rightarrow> elig_verdict + candidate" where
  "gate_error_backoff now c =
     (if 3 \<le> c_error_count c then
        (let cleared = c\<lparr>c_error_count := 0, c_last_error_at := None\<rparr> in
         case c_last_error_at c of
           Some since \<Rightarrow>
             let recover_at = since + error_backoff_secs (c_error_count c) in
             if now < recover_at then Inl (InBackoff recover_at ErrorBackoff) else Inr cleared
         | None \<Rightarrow> Inr cleared)
      else Inr c)"

definition gate_bind :: "elig_verdict + candidate \<Rightarrow> (candidate \<Rightarrow> elig_verdict + candidate) \<Rightarrow> elig_verdict + candidate" where
  "gate_bind r f = (case r of Inl v \<Rightarrow> Inl v | Inr c \<Rightarrow> f c)"

definition apply_pressure :: "account_snapshot \<Rightarrow> f64 \<Rightarrow> candidate \<Rightarrow> candidate" where
  "apply_pressure s penalty_pct c =
     (let request_pressure = max (snap_in_flight_pressure s) (snap_in_flight s);
          pressure_pct = fmul (f64_of_nat (add_u32 request_pressure (snap_open_ws s))) penalty_pct
      in c\<lparr>c_used := fmin (fadd (c_used c) pressure_pct) (F_Num 100),
           c_secondary_used := fmin (fadd (c_secondary_used c) pressure_pct) (F_Num 100)\<rparr>)"

definition eligibility :: "account_snapshot \<Rightarrow> i64 \<Rightarrow> f64 \<Rightarrow> elig_verdict" where
  "eligibility s now penalty_pct =
     (if snap_status s \<in> set [''reauth_required'', ''deactivated'', ''paused''] then HardBlocked
      else case gate_bind (gate_bind (gate_bind (gate_bind (gate_rate_limited s now (initial_candidate s))
                 (gate_quota_exceeded s now)) (gate_usage_cap s)) (gate_cooldown s now))
                 (gate_error_backoff now) of
             Inl v \<Rightarrow> v
           | Inr c \<Rightarrow> Eligible (apply_pressure s penalty_pct c))"

fun into_eligible :: "elig_verdict \<Rightarrow> candidate option" where
  "into_eligible (Eligible c) = Some c"
| "into_eligible _ = None"

section \<open>Recovery queries\<close>

record recovery =
  r_recover_at :: i64
  r_account_id :: account_id
  r_kind :: backoff_kind

record backoff_census =
  bc_error_backoff_count :: usize
  bc_has_hardblocked :: bool

definition authorized :: "selection_ctx \<Rightarrow> account_snapshot \<Rightarrow> bool" where
  "authorized ctx s \<longleftrightarrow> \<not> ctx_require_security ctx \<or> snap_security_work_authorized s"

definition soonest_recover :: "account_snapshot list \<Rightarrow> selection_ctx \<Rightarrow> recovery option" where
  "soonest_recover snapshots ctx =
     min_by (\<lambda>a b. cmp_lin (r_recover_at a) (r_recover_at b))
       (List.map_filter
          (\<lambda>s. case eligibility s (ctx_now ctx) (ctx_inflight_penalty_pct ctx) of
                 InBackoff r k \<Rightarrow> Some \<lparr>r_recover_at = r, r_account_id = snap_id s, r_kind = k\<rparr>
               | _ \<Rightarrow> None)
          (filter (authorized ctx) snapshots))"

definition census_step :: "selection_ctx \<Rightarrow> account_snapshot \<Rightarrow> backoff_census \<Rightarrow> backoff_census" where
  "census_step ctx s acc =
     (case eligibility s (ctx_now ctx) (ctx_inflight_penalty_pct ctx) of
        InBackoff r ErrorBackoff \<Rightarrow> acc\<lparr>bc_error_backoff_count := bc_error_backoff_count acc + 1\<rparr>
      | HardBlocked \<Rightarrow> acc\<lparr>bc_has_hardblocked := True\<rparr>
      | InBackoff r Cooldown \<Rightarrow> acc
      | Eligible c \<Rightarrow> acc)"

definition backoff_census_of :: "account_snapshot list \<Rightarrow> selection_ctx \<Rightarrow> backoff_census" where
  "backoff_census_of snapshots ctx =
     fold (census_step ctx) (filter (authorized ctx) snapshots)
       \<lparr>bc_error_backoff_count = 0, bc_has_hardblocked = False\<rparr>"

section \<open>Pools\<close>

text \<open>The two \<open>for\<close> loops of the source: the first non-empty group wins, else the whole pool.\<close>

fun first_group :: "('k \<Rightarrow> 'a \<Rightarrow> bool) \<Rightarrow> 'k list \<Rightarrow> 'a list \<Rightarrow> 'a list" where
  "first_group p [] pool = pool"
| "first_group p (k # ks) pool =
     (let group = filter (p k) pool in if group \<noteq> [] then group else first_group p ks pool)"

definition health_tier_pool :: "candidate list \<Rightarrow> i64 \<Rightarrow> candidate list" where
  "health_tier_pool pool now = first_group (\<lambda>tier c. effective_tier c now = tier) [0, 2, 1] pool"

definition policy_waterfall :: "candidate list \<Rightarrow> candidate list" where
  "policy_waterfall pool =
     first_group (\<lambda>policy c. snap_routing_policy (c_snap c) = policy)
       [''burn_first'', ''normal'', ''preserve''] pool"

definition overload_backoff_active :: "account_snapshot \<Rightarrow> i64 \<Rightarrow> bool" where
  "overload_backoff_active s now \<longleftrightarrow> is_some_and (snap_overload_backoff_until s) (\<lambda>until. now < until)"

definition drop_overload_backoff :: "candidate list \<Rightarrow> i64 \<Rightarrow> candidate list" where
  "drop_overload_backoff eligible now =
     (if \<not> list_ex (\<lambda>c. overload_backoff_active (c_snap c) now) eligible then eligible
      else let kept = filter (\<lambda>c. \<not> overload_backoff_active (c_snap c) now) eligible
           in if kept = [] then eligible else kept)"

definition eligible_candidates :: "account_snapshot list \<Rightarrow> selection_ctx \<Rightarrow> candidate list" where
  "eligible_candidates snapshots ctx =
     List.map_filter (\<lambda>s. into_eligible (eligibility s (ctx_now ctx) (ctx_inflight_penalty_pct ctx)))
       (filter (authorized ctx) snapshots)"

definition standard_pool :: "account_snapshot list \<Rightarrow> selection_ctx \<Rightarrow> candidate list" where
  "standard_pool snapshots ctx =
     (let eligible = eligible_candidates snapshots ctx in
      if eligible = [] then []
      else policy_waterfall
             (health_tier_pool (drop_overload_backoff eligible (ctx_now ctx)) (ctx_now ctx)))"

section \<open>Picking from a pool\<close>

definition cand_id :: "candidate \<Rightarrow> account_id" where
  "cand_id c = snap_id (c_snap c)"

definition tiebreak_cmp :: "candidate \<Rightarrow> candidate \<Rightarrow> ordering" where
  "tiebreak_cmp a b =
     then_cmp (total_cmp64 (remaining_secondary_credits b) (remaining_secondary_credits a))
     (then_cmp (total_cmp64 (c_secondary_used a) (c_secondary_used b))
     (then_cmp (total_cmp64 (c_used a) (c_used b))
     (then_cmp (cmp_lin (unwrap_or (snap_last_selected_at (c_snap a)) 0)
                        (unwrap_or (snap_last_selected_at (c_snap b)) 0))
               (cmp_lin (cand_id a) (cand_id b)))))"

text \<open>\<open>expect("pool is non-empty")\<close>: \<open>None\<close> is the panic.\<close>

definition deterministic_min :: "candidate list \<Rightarrow> candidate option" where
  "deterministic_min pool = min_by tiebreak_cmp pool"

definition discounted :: "candidate list \<Rightarrow> f64 list \<Rightarrow> f64 list" where
  "discounted pool weights =
     map (\<lambda>(w, c). fmul w (snap_selection_weight_multiplier (c_snap c))) (zip weights pool)"

definition sample_weighted :: "sel_env \<Rightarrow> candidate list \<Rightarrow> f64 list \<Rightarrow> selection_ctx \<Rightarrow> account_id option" where
  "sample_weighted e pool weights ctx =
     (if pool = [] then None
      else let ws = discounted pool weights in
        if list_all (\<lambda>w. fle w (F_Num 0)) ws then map_option cand_id (deterministic_min pool)
        else case env_draw e ws (ctx_rng_seed ctx) of
               None \<Rightarrow> map_option cand_id (deterministic_min pool)
             | Some idx \<Rightarrow> if idx < length pool then Some (cand_id (pool ! idx)) else None)"

text \<open>FNV-1a over the session id, a separator byte and the account id; \<open>u64\<close> arithmetic wraps.\<close>

definition fnv_step :: "64 word \<Rightarrow> nat \<Rightarrow> 64 word" where
  "fnv_step hash byte = (xor hash (of_nat byte)) * 0x100000001b3"

definition fnv1a :: "nat list \<Rightarrow> 64 word" where
  "fnv1a bytes = fold (\<lambda>b h. fnv_step h b) bytes 0xcbf29ce484222325"

definition str_bytes :: "string \<Rightarrow> nat list" where
  "str_bytes s = map of_char s"

definition rendezvous_cost :: "sel_env \<Rightarrow> string \<Rightarrow> account_id \<Rightarrow> f64 \<Rightarrow> f64" where
  "rendezvous_cost e session_id account_id weight =
     (let hash = fnv1a (str_bytes session_id @ [255] @ str_bytes account_id);
          uniform = fdiv (fadd (f64_of_nat (unat hash)) (F_Num 1)) (fadd (f64_of_nat u64_max) (F_Num 2))
      in fdiv (fneg (env_ln e uniform)) weight)"

definition rendezvous_cmp :: "sel_env \<Rightarrow> string \<Rightarrow> candidate \<times> f64 \<Rightarrow> candidate \<times> f64 \<Rightarrow> ordering" where
  "rendezvous_cmp e session_id x y =
     then_cmp
       (total_cmp64
         (rendezvous_cost e session_id (cand_id (fst x))
            (fmul (snd x) (snap_selection_weight_multiplier (c_snap (fst x)))))
         (rendezvous_cost e session_id (cand_id (fst y))
            (fmul (snd y) (snap_selection_weight_multiplier (c_snap (fst y))))))
       (cmp_lin (cand_id (fst x)) (cand_id (fst y)))"

definition affinity_or_weighted_pick ::
  "sel_env \<Rightarrow> candidate list \<Rightarrow> f64 list \<Rightarrow> selection_ctx \<Rightarrow> account_id option" where
  "affinity_or_weighted_pick e pool weights ctx =
     (case ctx_session_id ctx of
        None \<Rightarrow> sample_weighted e pool weights ctx
      | Some session_id \<Rightarrow>
          if pool = [] then None
          else case min_by (rendezvous_cmp e session_id)
                      (filter (\<lambda>(c, w). is_fin w \<and> fgt w (F_Num 0)) (zip pool weights)) of
                 Some (c, w) \<Rightarrow> Some (cand_id c)
               | None \<Rightarrow> sample_weighted e pool weights ctx)"

definition weighted_pick :: "sel_env \<Rightarrow> candidate list \<Rightarrow> selection_ctx \<Rightarrow> account_id option" where
  "weighted_pick e pool ctx =
     affinity_or_weighted_pick e pool (map remaining_secondary_credits pool) ctx"

definition by_key_cmp :: "(candidate \<Rightarrow> f64) \<Rightarrow> candidate \<Rightarrow> candidate \<Rightarrow> ordering" where
  "by_key_cmp key a b = then_cmp (total_cmp64 (key a) (key b)) (cmp_lin (cand_id a) (cand_id b))"

definition deterministic_by :: "(candidate \<Rightarrow> f64) \<Rightarrow> candidate list \<Rightarrow> account_id option" where
  "deterministic_by key pool = map_option cand_id (min_by (by_key_cmp key) pool)"

section \<open>Strategies\<close>

definition pick_capacity_weighted :: "sel_env \<Rightarrow> account_snapshot list \<Rightarrow> selection_ctx \<Rightarrow> account_id option" where
  "pick_capacity_weighted e cs ctx = weighted_pick e (standard_pool cs ctx) ctx"

definition pick_usage_weighted :: "account_snapshot list \<Rightarrow> selection_ctx \<Rightarrow> account_id option" where
  "pick_usage_weighted cs ctx = deterministic_by c_secondary_used (standard_pool cs ctx)"

definition pick_round_robin :: "account_snapshot list \<Rightarrow> selection_ctx \<Rightarrow> account_id option" where
  "pick_round_robin cs ctx =
     deterministic_by (\<lambda>c. f64_of_int (unwrap_or (snap_last_selected_at (c_snap c)) 0)) (standard_pool cs ctx)"

definition pick_fill_first :: "account_snapshot list \<Rightarrow> selection_ctx \<Rightarrow> account_id option" where
  "pick_fill_first cs ctx = deterministic_by (\<lambda>c. fneg (warmth c)) (standard_pool cs ctx)"

definition pick_sequential_drain :: "account_snapshot list \<Rightarrow> selection_ctx \<Rightarrow> account_id option" where
  "pick_sequential_drain cs ctx = deterministic_by capacity (standard_pool cs ctx)"

definition high_reserve_ceil :: f64 where "high_reserve_ceil = F_Num 70"
definition low_floor :: f64 where "low_floor = F_Num 100"

definition tier_weight :: "candidate \<Rightarrow> tier \<Rightarrow> i64 \<Rightarrow> f64" where
  "tier_weight c tier now =
     (let remaining = remaining_secondary_credits c;
          consumed = fmax (fsub (capacity c) remaining) (F_Num 0);
          draining = should_drain c now;
          w = (case tier of
                 High \<Rightarrow>
                   let base = (if flt (c_secondary_used c) high_reserve_ceil then remaining
                               else fmul remaining (flit (5 / 100)))
                   in if draining then fmul base (flit (5 / 100)) else base
               | Medium \<Rightarrow> if draining then fmul remaining (flit (1 / 10)) else remaining
               | Low \<Rightarrow> fadd consumed low_floor)
      in fmax w (F_Num 0))"

definition pick_cache_affinity_tier :: "sel_env \<Rightarrow> account_snapshot list \<Rightarrow> selection_ctx \<Rightarrow> account_id option" where
  "pick_cache_affinity_tier e cs ctx =
     (let eligible = eligible_candidates cs ctx in
      if eligible = [] then None
      else let pool = policy_waterfall eligible;
               tier = unwrap_or (ctx_tier ctx) Medium;
               weights = map (\<lambda>c. tier_weight c tier (ctx_now ctx)) pool
           in affinity_or_weighted_pick e pool weights ctx)"

datatype routing_strategy =
    CapacityWeighted | UsageWeighted | RoundRobin | FillFirst | SequentialDrain | CacheAffinityTier

definition strategy_parse :: "string \<Rightarrow> routing_strategy option" where
  "strategy_parse s = (let n = str_lower (str_trim s) in
     if n = ''capacity_weighted'' then Some CapacityWeighted
     else if n = ''usage_weighted'' then Some UsageWeighted
     else if n = ''round_robin'' then Some RoundRobin
     else if n = ''fill_first'' then Some FillFirst
     else if n = ''sequential_drain'' then Some SequentialDrain
     else if n = ''cache_affinity_tier'' then Some CacheAffinityTier
     else None)"

fun strategy_name :: "routing_strategy \<Rightarrow> string" where
  "strategy_name CapacityWeighted = ''capacity_weighted''"
| "strategy_name UsageWeighted = ''usage_weighted''"
| "strategy_name RoundRobin = ''round_robin''"
| "strategy_name FillFirst = ''fill_first''"
| "strategy_name SequentialDrain = ''sequential_drain''"
| "strategy_name CacheAffinityTier = ''cache_affinity_tier''"

definition strategy_all :: "routing_strategy list" where
  "strategy_all = [CapacityWeighted, UsageWeighted, RoundRobin, FillFirst, SequentialDrain, CacheAffinityTier]"

fun strategy_pick :: "sel_env \<Rightarrow> routing_strategy \<Rightarrow> account_snapshot list \<Rightarrow> selection_ctx \<Rightarrow> account_id option" where
  "strategy_pick e CapacityWeighted cs ctx = pick_capacity_weighted e cs ctx"
| "strategy_pick e UsageWeighted cs ctx = pick_usage_weighted cs ctx"
| "strategy_pick e RoundRobin cs ctx = pick_round_robin cs ctx"
| "strategy_pick e FillFirst cs ctx = pick_fill_first cs ctx"
| "strategy_pick e SequentialDrain cs ctx = pick_sequential_drain cs ctx"
| "strategy_pick e CacheAffinityTier cs ctx = pick_cache_affinity_tier e cs ctx"

end
