(* ===== verification/Selection_Gates.thy ===== *)
theory Selection_Gates
  imports Selection
begin

text \<open>
  Correctness of \<open>eligibility\<close>: the verdict characterised without the gates, and the recovery
  instants it reports.
\<close>

section \<open>The gates\<close>

lemmas gate_defs = gate_rate_limited_def gate_quota_exceeded_def gate_usage_cap_def
  gate_cooldown_def gate_error_backoff_def gate_bind_def

lemma initial_candidate_simps [simp]:
  "c_snap (initial_candidate s) = s" "c_used (initial_candidate s) = snap_used_percent s"
  "c_secondary_used (initial_candidate s) = snap_secondary_used_percent s"
  "c_error_count (initial_candidate s) = snap_error_count s"
  "c_last_error_at (initial_candidate s) = snap_last_error_at s"
  by (simp_all add: initial_candidate_def)

lemma gate_snaps:
  "gate_rate_limited s now c = Inr c' \<Longrightarrow> c_snap c' = c_snap c"
  "gate_quota_exceeded s now c = Inr c' \<Longrightarrow> c_snap c' = c_snap c"
  "gate_usage_cap s c = Inr c' \<Longrightarrow> c' = c"
  "gate_cooldown s now c = Inr c' \<Longrightarrow> c_snap c' = c_snap c"
  "gate_error_backoff now c = Inr c' \<Longrightarrow> c_snap c' = c_snap c"
  by (auto simp: gate_defs Let_def split: if_splits option.splits)

lemma gate_bind_simps [simp]: "gate_bind (Inl v) f = Inl v" "gate_bind (Inr c) f = f c"
  by (simp_all add: gate_bind_def)

lemma gate_bind_Inr: "gate_bind r f = Inr c \<longleftrightarrow> (\<exists>c'. r = Inr c' \<and> f c' = Inr c)"
  by (cases r) (auto simp: gate_bind_def)

lemma gate_bind_Inl: "gate_bind r f = Inl v \<longleftrightarrow> r = Inl v \<or> (\<exists>c'. r = Inr c' \<and> f c' = Inl v)"
  by (cases r) (auto simp: gate_bind_def)

lemma apply_pressure_simps [simp]:
  "c_snap (apply_pressure s p c) = c_snap c"
  "c_error_count (apply_pressure s p c) = c_error_count c"
  "c_last_error_at (apply_pressure s p c) = c_last_error_at c"
  by (simp_all add: apply_pressure_def Let_def)

definition all_gates :: "account_snapshot \<Rightarrow> i64 \<Rightarrow> elig_verdict + candidate" where
  "all_gates s now =
     gate_bind (gate_bind (gate_bind (gate_bind (gate_rate_limited s now (initial_candidate s))
       (gate_quota_exceeded s now)) (gate_usage_cap s)) (gate_cooldown s now)) (gate_error_backoff now)"

lemma eligibility_gates:
  "eligibility s now p =
     (if snap_status s \<in> {''reauth_required'', ''deactivated'', ''paused''} then HardBlocked
      else case all_gates s now of Inl v \<Rightarrow> v | Inr c \<Rightarrow> Eligible (apply_pressure s p c))"
  by (simp add: eligibility_def all_gates_def)

lemma all_gates_snap: "all_gates s now = Inr c \<Longrightarrow> c_snap c = s"
  by (auto simp: all_gates_def gate_bind_Inr dest!: gate_snaps)

text \<open>A blocking gate's verdict, and when it is given. None ever answers \<open>Eligible\<close>.\<close>

lemma gate_verdicts:
  "gate_rate_limited s now c = Inl v \<Longrightarrow>
     snap_status s = ''rate_limited'' \<and>
     (case snap_reset_at s of Some r \<Rightarrow> now < r \<and> v = InBackoff r Cooldown | None \<Rightarrow> v = HardBlocked)"
  "gate_quota_exceeded s now c = Inl v \<Longrightarrow>
     snap_status s = ''quota_exceeded'' \<and>
     (case snap_reset_at s of Some r \<Rightarrow> now < r \<and> v = InBackoff r Cooldown | None \<Rightarrow> v = HardBlocked)"
  "gate_cooldown s now c = Inl v \<Longrightarrow> \<exists>cd. snap_cooldown_until s = Some cd \<and> now < cd \<and> v = InBackoff cd Cooldown"
  "gate_error_backoff now c = Inl v \<Longrightarrow> \<exists>r. now < r \<and> v = InBackoff r ErrorBackoff"
  by (auto simp: gate_defs Let_def split: if_splits option.splits)

lemma gate_cap_verdict:
  "gate_usage_cap s c = Inl v \<Longrightarrow> v = HardBlocked \<or> (\<exists>r. v = InBackoff r Cooldown)"
  by (auto simp: gate_usage_cap_def Let_def split: if_splits option.splits)

lemma all_gates_Inl:
  "all_gates s now = Inl v \<Longrightarrow> v = HardBlocked \<or> (\<exists>r k. v = InBackoff r k)"
  by (auto simp: all_gates_def gate_bind_Inl dest!: gate_verdicts gate_cap_verdict split: option.splits)

lemma eligibility_Eligible:
  "eligibility s now p = Eligible c \<longleftrightarrow>
     snap_status s \<notin> {''reauth_required'', ''deactivated'', ''paused''} \<and>
     (\<exists>c0. all_gates s now = Inr c0 \<and> c = apply_pressure s p c0)"
  by (auto simp: eligibility_gates dest: all_gates_Inl split: sum.splits)

lemma eligibility_snap: "eligibility s now p = Eligible c \<Longrightarrow> c_snap c = s"
  by (auto simp: eligibility_Eligible dest: all_gates_snap)

section \<open>Eligibility without the gates\<close>

text \<open>
  The usage the ceiling is compared with: zero where the account's reset has passed. \<open>capped\<close> says
  the operator's ceiling applies and one window has reached it.
\<close>

definition recovered_used :: "account_snapshot \<Rightarrow> f64" where
  "recovered_used s =
     (if snap_status s = ''rate_limited'' \<or> snap_status s = ''quota_exceeded'' then F_Num 0
      else snap_used_percent s)"

definition recovered_secondary :: "account_snapshot \<Rightarrow> f64" where
  "recovered_secondary s =
     (if snap_status s = ''quota_exceeded'' then F_Num 0 else snap_secondary_used_percent s)"

definition capped :: "account_snapshot \<Rightarrow> bool" where
  "capped s \<longleftrightarrow> \<not> snap_usage_cap_override s \<and>
     (\<exists>cap. snap_usage_cap_percent s = Some cap \<and>
        (fge (recovered_used s) cap \<or> fge (recovered_secondary s) cap))"

definition in_error_backoff :: "account_snapshot \<Rightarrow> i64 \<Rightarrow> bool" where
  "in_error_backoff s now \<longleftrightarrow>
     snap_status s \<noteq> ''rate_limited'' \<and> snap_cooldown_until s = None \<and> 3 \<le> snap_error_count s \<and>
     (\<exists>t. snap_last_error_at s = Some t \<and> now < t + error_backoff_secs (snap_error_count s))"

definition reset_passed :: "account_snapshot \<Rightarrow> i64 \<Rightarrow> bool" where
  "reset_passed s now \<longleftrightarrow> (\<exists>r. snap_reset_at s = Some r \<and> r \<le> now)"

text \<open>The state left by the two reset gates, when neither blocks.\<close>

lemma reset_gates:
  "gate_bind (gate_rate_limited s now (initial_candidate s)) (gate_quota_exceeded s now) = Inr c \<longleftrightarrow>
   (snap_status s \<in> {''rate_limited'', ''quota_exceeded''} \<longrightarrow> reset_passed s now) \<and>
   c = \<lparr>c_snap = s, c_used = recovered_used s, c_secondary_used = recovered_secondary s,
        c_error_count = (if snap_status s = ''rate_limited'' then 0 else snap_error_count s),
        c_last_error_at = snap_last_error_at s\<rparr>"
  by (auto simp: gate_defs reset_passed_def recovered_used_def recovered_secondary_def
      initial_candidate_def split: option.splits)

lemma cap_gate: "gate_usage_cap s c = Inr c' \<longleftrightarrow> c' = c \<and> (snap_usage_cap_override s \<or>
    (\<forall>cap. snap_usage_cap_percent s = Some cap \<longrightarrow> \<not> fge (c_used c) cap \<and> \<not> fge (c_secondary_used c) cap))"
  by (auto simp: gate_usage_cap_def Let_def split: option.splits if_splits)

lemma late_gates:
  "(\<exists>c'. gate_bind (gate_cooldown s now c) (gate_error_backoff now) = Inr c') \<longleftrightarrow>
   (\<forall>cd. snap_cooldown_until s = Some cd \<longrightarrow> cd \<le> now) \<and>
   \<not> (snap_cooldown_until s = None \<and> 3 \<le> c_error_count c \<and>
      (\<exists>t. c_last_error_at c = Some t \<and> now < t + error_backoff_secs (c_error_count c)))"
  by (auto simp: gate_cooldown_def gate_error_backoff_def gate_bind_def Let_def
      split: option.splits if_splits)

lemma gate_bind_assoc: "gate_bind (gate_bind r f) g = gate_bind r (\<lambda>c. gate_bind (f c) g)"
  by (cases r) (auto simp: gate_bind_def)

lemma eligible_char:
  "(\<exists>c. eligibility s now p = Eligible c) \<longleftrightarrow>
     snap_status s \<notin> {''reauth_required'', ''deactivated'', ''paused''} \<and>
     (snap_status s \<in> {''rate_limited'', ''quota_exceeded''} \<longrightarrow> reset_passed s now) \<and>
     \<not> capped s \<and>
     (\<forall>cd. snap_cooldown_until s = Some cd \<longrightarrow> cd \<le> now) \<and>
     \<not> in_error_backoff s now"
proof -
  have "(\<exists>c. all_gates s now = Inr c) \<longleftrightarrow>
     (\<exists>c. gate_bind (gate_rate_limited s now (initial_candidate s)) (gate_quota_exceeded s now) = Inr c \<and>
      gate_usage_cap s c = Inr c \<and>
      (\<exists>c'. gate_bind (gate_cooldown s now c) (gate_error_backoff now) = Inr c'))"
    unfolding all_gates_def
    by (subst gate_bind_assoc [of _ "gate_cooldown s now"]) (auto simp: gate_bind_Inr dest: gate_snaps(3))
  then show ?thesis
    by (auto simp: eligibility_Eligible reset_gates cap_gate late_gates capped_def in_error_backoff_def)
qed

text \<open>
  An account is eligible exactly when its status is not terminal, its reset has passed if its
  status waits for one, no operator ceiling is reached by its post-recovery usage, no cooldown is
  active, and it is not inside the error backoff that an uncleared error count opens. In particular
  a passed reset alone admits nobody: the remaining conditions still apply.
\<close>

lemma eligible_iff:
  "(\<exists>c. eligibility s now p = Eligible c) \<longleftrightarrow>
     snap_status s \<notin> {''reauth_required'', ''deactivated'', ''paused''} \<and>
     (snap_status s \<in> {''rate_limited'', ''quota_exceeded''} \<longrightarrow> reset_passed s now) \<and>
     \<not> capped s \<and>
     (\<forall>cd. snap_cooldown_until s = Some cd \<longrightarrow> cd \<le> now) \<and>
     \<not> in_error_backoff s now"
  by (rule eligible_char)

lemma eligible_iff_example:
  "let s = (new_snapshot ''a'')\<lparr>snap_status := ''rate_limited'', snap_reset_at := Some 100,
              snap_error_count := 5, snap_last_error_at := Some 99\<rparr>
   in (\<exists>c. eligibility s 100 (F_Num 0) = Eligible c)
      \<and> \<not> (\<exists>c. eligibility (s\<lparr>snap_cooldown_until := Some 130\<rparr>) 100 (F_Num 0) = Eligible c)"
  unfolding Let_def eligible_iff
  by (simp add: new_snapshot_def reset_passed_def capped_def in_error_backoff_def)

text \<open>
  A temporarily blocked account is always given a recovery instant in the future, except where
  the block is the operator's usage ceiling, whose instant is the reset the window reports and may
  already be past. A block of kind \<open>ErrorBackoff\<close> never comes from the ceiling.
\<close>

lemma backoff_in_future:
  assumes "eligibility s now p = InBackoff r k"
  shows "now < r \<or> k = Cooldown \<and> capped s"
proof -
  have all: "all_gates s now = Inl (InBackoff r k)"
    using assms by (auto simp: eligibility_gates split: if_splits sum.splits)
  let ?rg = "gate_bind (gate_rate_limited s now (initial_candidate s)) (gate_quota_exceeded s now)"
  from all consider (reset) "?rg = Inl (InBackoff r k)"
    | (cap) c where "?rg = Inr c" "gate_usage_cap s c = Inl (InBackoff r k)"
    | (late) c where "gate_bind (gate_cooldown s now c) (gate_error_backoff now) = Inl (InBackoff r k)"
    by (auto simp: all_gates_def gate_bind_Inl gate_bind_Inr)
  then show ?thesis
  proof cases
    case reset
    then show ?thesis by (auto simp: gate_bind_Inl dest!: gate_verdicts split: option.splits)
  next
    case cap
    then show ?thesis
      by (auto simp: reset_gates gate_usage_cap_def Let_def capped_def split: if_splits option.splits)
  next
    case late
    then show ?thesis by (auto simp: gate_bind_Inl dest!: gate_verdicts)
  qed
qed

lemma backoff_in_future_example:
  "(0::int) < 30"
  using backoff_in_future [of "(new_snapshot ''a'')\<lparr>snap_error_count := 3, snap_last_error_at := Some 0\<rparr>"
      0 "F_Num 0" 30 ErrorBackoff]
  by (simp add: eligibility_def gate_defs new_snapshot_def initial_candidate_def error_backoff_secs_def
      sat_i64_def i64_min_def i64_max_def capped_def Let_def)

end
