(* ===== verification/Selection_Props.thy ===== *)
theory Selection_Props
  imports Selection_Gates
begin

text \<open>
  Correctness of account selection: the pools as lexicographic minima, the selector contract as a
  locale with every strategy an instance, and the properties of the picks.
\<close>

section \<open>Pools\<close>

lemma first_group_subset: "set (first_group p ks pool) \<subseteq> set pool"
  by (induction ks) (auto simp: Let_def)

lemma first_group_Nil: "first_group p ks pool = [] \<longleftrightarrow> pool = []"
  by (induction ks) (auto simp: Let_def)

text \<open>The rank of an element is the position of its group, past the end for no group.\<close>

fun group_rank :: "('k \<Rightarrow> 'a \<Rightarrow> bool) \<Rightarrow> 'k list \<Rightarrow> 'a \<Rightarrow> nat" where
  "group_rank p [] x = 0"
| "group_rank p (k # ks) x = (if p k x then 0 else Suc (group_rank p ks x))"

lemma first_group_filter:
  "\<exists>q. first_group p ks pool = filter q pool"
proof (induction ks)
  case Nil
  have "pool = filter (\<lambda>_. True) pool" by simp
  then show ?case unfolding first_group.simps by blast
qed (auto simp: Let_def)

lemma first_group_rank:
  "set (first_group p ks pool) = {x \<in> set pool. \<forall>y \<in> set pool. group_rank p ks x \<le> group_rank p ks y}"
proof (induction ks)
  case (Cons k ks)
  show ?case
  proof (cases "filter (p k) pool = []")
    case True
    then have "\<forall>x \<in> set pool. \<not> p k x" by (auto simp: filter_empty_conv)
    then show ?thesis using Cons.IH True by (auto simp: Let_def)
  next
    case False
    then show ?thesis by (auto simp: Let_def filter_empty_conv)
  qed
qed auto

lemma set_map_filter: "y \<in> set (List.map_filter f xs) \<longleftrightarrow> (\<exists>x \<in> set xs. f x = Some y)"
proof (induction xs)
  case Nil
  then show ?case by (simp add: List.map_filter_def)
next
  case (Cons x xs)
  then show ?case by (cases "f x") (auto simp: List.map_filter_def)
qed

lemma into_eligible_Some: "into_eligible v = Some c \<longleftrightarrow> v = Eligible c"
  by (cases v) auto

lemma in_eligible_candidates:
  "c \<in> set (eligible_candidates cs ctx) \<longleftrightarrow>
   (\<exists>s \<in> set cs. authorized ctx s \<and> c_snap c = s \<and>
      eligibility s (ctx_now ctx) (ctx_inflight_penalty_pct ctx) = Eligible c)"
  unfolding eligible_candidates_def set_map_filter into_eligible_Some set_filter
  by (blast dest: eligibility_snap)

definition servable :: "selection_ctx \<Rightarrow> account_snapshot \<Rightarrow> bool" where
  "servable ctx s \<longleftrightarrow> authorized ctx s \<and>
     (\<exists>c. eligibility s (ctx_now ctx) (ctx_inflight_penalty_pct ctx) = Eligible c)"

lemma eligible_candidates_Nil: "eligible_candidates cs ctx = [] \<longleftrightarrow> (\<forall>s \<in> set cs. \<not> servable ctx s)"
proof -
  have "eligible_candidates cs ctx = [] \<longleftrightarrow> (\<forall>c. c \<notin> set (eligible_candidates cs ctx))" by auto
  then show ?thesis unfolding in_eligible_candidates servable_def
    by (auto dest: eligibility_snap)
qed

lemma drop_overload_subset: "set (drop_overload_backoff cs now) \<subseteq> set cs"
  by (auto simp: drop_overload_backoff_def Let_def)

lemma drop_overload_Nil: "drop_overload_backoff cs now = [] \<longleftrightarrow> cs = []"
  by (auto simp: drop_overload_backoff_def Let_def)

lemma drop_overload_set:
  "set (drop_overload_backoff cs now) =
     {c \<in> set cs. overload_backoff_active (c_snap c) now \<longrightarrow>
        (\<forall>d \<in> set cs. overload_backoff_active (c_snap d) now)}"
  by (auto simp: drop_overload_backoff_def Let_def filter_empty_conv list_ex_iff)

lemma first_group_empty: "first_group p ks [] = []"
  by (simp only: first_group_Nil)

lemma drop_overload_empty: "drop_overload_backoff [] now = []"
  by (simp only: drop_overload_Nil)

lemma standard_pool_eq:
  "standard_pool cs ctx =
     policy_waterfall (health_tier_pool (drop_overload_backoff (eligible_candidates cs ctx) (ctx_now ctx)) (ctx_now ctx))"
proof (cases "eligible_candidates cs ctx = []")
  case True
  then show ?thesis unfolding standard_pool_def Let_def policy_waterfall_def health_tier_pool_def
    by (simp add: drop_overload_empty first_group_empty del: first_group.simps)
next
  case False
  then show ?thesis unfolding standard_pool_def Let_def by (simp only: if_False)
qed

lemma standard_pool_subset: "set (standard_pool cs ctx) \<subseteq> set (eligible_candidates cs ctx)"
  unfolding standard_pool_eq policy_waterfall_def health_tier_pool_def
  by (rule order_trans [OF first_group_subset order_trans [OF first_group_subset drop_overload_subset]])

lemma standard_pool_Nil: "standard_pool cs ctx = [] \<longleftrightarrow> (\<forall>s \<in> set cs. \<not> servable ctx s)"
  unfolding standard_pool_eq policy_waterfall_def health_tier_pool_def
  by (simp only: first_group_Nil drop_overload_Nil eligible_candidates_Nil)

lemma drop_overload_rank:
  fixes rank :: "candidate \<Rightarrow> nat"
  assumes "\<And>c. rank c = (if overload_backoff_active (c_snap c) now then 1 else 0)"
  shows "set (drop_overload_backoff cs now) = {c \<in> set cs. \<forall>d \<in> set cs. rank c \<le> rank d}"
  unfolding drop_overload_set assms by (rule Collect_cong) (simp split: if_splits)

text \<open>The minima by two keys in turn are the minima of the lexicographic order.\<close>

lemma lex_min:
  fixes f :: "'a \<Rightarrow> nat"
  shows "{c \<in> {x \<in> E. \<forall>y \<in> E. f x \<le> f y}. \<forall>d \<in> {x \<in> E. \<forall>y \<in> E. f x \<le> f y}. R c d} =
         {c \<in> E. \<forall>d \<in> E. f c < f d \<or> f c = f d \<and> R c d}" (is "?L = ?R")
proof (rule set_eqI)
  fix c
  have "c \<in> ?L \<Longrightarrow> c \<in> ?R"
  proof -
    assume c: "c \<in> ?L"
    have "f c < f d \<or> f c = f d \<and> R c d" if d: "d \<in> E" for d
    proof (cases "f c = f d")
      case True
      with c d have "d \<in> {x \<in> E. \<forall>y \<in> E. f x \<le> f y}" by simp
      with c True show ?thesis by blast
    next
      case False
      with c d show ?thesis by (auto simp: le_less)
    qed
    with c show "c \<in> ?R" by blast
  qed
  moreover have "c \<in> ?R \<Longrightarrow> c \<in> ?L"
  proof -
    assume c: "c \<in> ?R"
    then have le: "\<forall>y \<in> E. f c \<le> f y" by (auto simp: le_less)
    have "R c d" if "d \<in> E" "\<forall>y \<in> E. f d \<le> f y" for d
      using that c by (metis (no_types, lifting) mem_Collect_eq not_le)
    with c le show "c \<in> ?L" by blast
  qed
  ultimately show "c \<in> ?L \<longleftrightarrow> c \<in> ?R" by blast
qed

definition tier_rank :: "i64 \<Rightarrow> candidate \<Rightarrow> nat" where
  "tier_rank now = group_rank (\<lambda>tier c. effective_tier c now = tier) [0, 2, 1]"

definition policy_rank :: "candidate \<Rightarrow> nat" where
  "policy_rank = group_rank (\<lambda>policy c. snap_routing_policy (c_snap c) = policy)
     [''burn_first'', ''normal'', ''preserve'']"

lemma lex_min3:
  fixes f g h :: "'a \<Rightarrow> nat"
  assumes "D = {x \<in> E. \<forall>y \<in> E. f x \<le> f y}" "H = {x \<in> D. \<forall>y \<in> D. g x \<le> g y}"
  shows "{x \<in> H. \<forall>y \<in> H. h x \<le> h y} =
    {c \<in> E. \<forall>d \<in> E. f c < f d \<or> f c = f d \<and> (g c < g d \<or> g c = g d \<and> h c \<le> h d)}"
  unfolding assms(2) lex_min unfolding assms(1) lex_min ..

definition overload_rank :: "i64 \<Rightarrow> candidate \<Rightarrow> nat" where
  "overload_rank now c = (if overload_backoff_active (c_snap c) now then 1 else 0)"

definition pool_before :: "i64 \<Rightarrow> candidate \<Rightarrow> candidate \<Rightarrow> bool" where
  "pool_before now c d \<longleftrightarrow>
     overload_rank now c < overload_rank now d \<or>
     overload_rank now c = overload_rank now d \<and>
       (tier_rank now c < tier_rank now d \<or>
        tier_rank now c = tier_rank now d \<and> policy_rank c \<le> policy_rank d)"

lemma standard_pool_set:
  "set (standard_pool cs ctx) =
     {c \<in> set (eligible_candidates cs ctx).
        \<forall>d \<in> set (eligible_candidates cs ctx). pool_before (ctx_now ctx) c d}"
  unfolding pool_before_def standard_pool_eq policy_waterfall_def first_group_rank
    policy_rank_def [symmetric]
  by (rule lex_min3 [OF drop_overload_rank [OF overload_rank_def]])
    (unfold health_tier_pool_def first_group_rank tier_rank_def, rule refl)

text \<open>The eligible candidates and the pool of two fresh accounts, for the concrete instances.\<close>

definition fresh_candidate :: "account_id \<Rightarrow> candidate" where
  "fresh_candidate i = \<lparr>c_snap = new_snapshot i, c_used = F_Num 0, c_secondary_used = F_Num 0,
     c_error_count = 0, c_last_error_at = None\<rparr>"

lemma fresh_eligible: "eligibility (new_snapshot i) now (F_Num 0) = Eligible (fresh_candidate i)"
  by (simp add: eligibility_def gate_defs new_snapshot_def initial_candidate_def apply_pressure_def
      fresh_candidate_def f64_eval add_u32_def)

lemma fresh_pool:
  "standard_pool (map new_snapshot is) default_ctx = map fresh_candidate is"
  "eligible_candidates (map new_snapshot is) default_ctx = map fresh_candidate is"
proof -
  show E: "eligible_candidates (map new_snapshot is) default_ctx = map fresh_candidate is"
    by (induction "is") (simp_all add: eligible_candidates_def List.map_filter_def default_ctx_def
        fresh_eligible authorized_def)
  have H: "drop_overload_backoff (map fresh_candidate is) 0 = map fresh_candidate is"
    by (simp add: drop_overload_backoff_def list_ex_iff overload_backoff_active_def fresh_candidate_def
        new_snapshot_def)
  have T: "health_tier_pool (map fresh_candidate is) 0 = map fresh_candidate is"
    by (cases "is") (simp_all add: health_tier_pool_def effective_tier_def should_drain_def fresh_candidate_def
        new_snapshot_def fle_def filter_id_conv Let_def)
  have P: "policy_waterfall (map fresh_candidate is) = map fresh_candidate is"
    by (cases "is") (simp_all add: policy_waterfall_def fresh_candidate_def
        new_snapshot_def filter_id_conv filter_empty_conv Let_def)
  have now: "ctx_now default_ctx = 0" by (simp add: default_ctx_def)
  show "standard_pool (map new_snapshot is) default_ctx = map fresh_candidate is"
    unfolding standard_pool_eq E now H T P ..
qed

lemma fresh_fields:
  "cand_id (fresh_candidate i) = i"
  "snap_selection_weight_multiplier (c_snap (fresh_candidate i)) = F_Num 1"
  by (simp_all add: cand_id_def fresh_candidate_def new_snapshot_def)

text \<open>
  C2: The pool the pool-first strategies choose from holds exactly the eligible, authorized
  candidates that come first in the order: not deprioritized for overload (while somebody else
  remains), then health tier healthy before probing before draining, then routing policy
  \<open>burn_first\<close> before \<open>normal\<close> before \<open>preserve\<close>; unknown tiers and policies come last.
\<close>

theorem standard_pool_lexicographic:
  "set (standard_pool cs ctx) =
     {c \<in> set (eligible_candidates cs ctx).
        \<forall>d \<in> set (eligible_candidates cs ctx). pool_before (ctx_now ctx) c d}"
  by (rule standard_pool_set)

theorem standard_pool_lexicographic_witness:
  "pool_before 0 (fresh_candidate ''a'') (fresh_candidate ''b'') \<and>
   fresh_candidate ''a'' \<in> set (standard_pool [new_snapshot ''a'', new_snapshot ''b''] default_ctx)"
  using standard_pool_lexicographic [of "[new_snapshot ''a'', new_snapshot ''b'']" default_ctx]
    fresh_pool [of "[''a'', ''b'']", unfolded list.map]
  by (auto simp: default_ctx_def)

end
