(* ===== verification/Selection_Picks.thy ===== *)
theory Selection_Picks
  imports Selection_Props
begin

text \<open>
  The \<open>AccountSelector\<close> trait as a locale: what its callers rely on. Every strategy of the model is
  an instance. The rest is about which account is picked: minimality, independence of the order of
  the snapshots, and stability when other accounts are taken away.
\<close>

section \<open>The selector contract\<close>

locale account_selector =
  fixes pick :: "account_snapshot list \<Rightarrow> selection_ctx \<Rightarrow> account_id option"
  assumes pick_servable: "pick cs ctx = Some i \<Longrightarrow> \<exists>s \<in> set cs. snap_id s = i \<and> servable ctx s"
    and pick_complete: "pick cs ctx = None \<Longrightarrow> s \<in> set cs \<Longrightarrow> \<not> servable ctx s"
begin

lemma pick_nil: "pick [] ctx = None"
  using pick_servable [of "[]" ctx] by (cases "pick [] ctx") auto

lemma pick_iff: "(\<exists>i. pick cs ctx = Some i) \<longleftrightarrow> (\<exists>s \<in> set cs. servable ctx s)"
  using pick_servable pick_complete by (cases "pick cs ctx") fastforce+

lemma pick_filtered:
  "pick (filter p cs) ctx = Some i \<Longrightarrow> \<exists>s \<in> set cs. p s \<and> snap_id s = i \<and> servable ctx s"
  using pick_servable [of "filter p cs" ctx i] by auto

lemma pick_member: "pick cs ctx = Some i \<Longrightarrow> i \<in> snap_id ` set cs"
  using pick_servable by blast

lemma pick_singleton: "pick [s] ctx = (if servable ctx s then Some (snap_id s) else None)"
proof (cases "pick [s] ctx")
  case None
  then show ?thesis using pick_complete [of "[s]" ctx s] by simp
next
  case (Some i)
  then show ?thesis using pick_servable [of "[s]" ctx i] by simp
qed

end

text \<open>Strategies that pick a member of the eligible candidates, and pick whenever there is one.\<close>

lemma eligible_member_servable:
  "c \<in> set (eligible_candidates cs ctx) \<Longrightarrow> \<exists>s \<in> set cs. snap_id s = cand_id c \<and> servable ctx s"
  unfolding in_eligible_candidates servable_def cand_id_def by blast

lemma selector_from_pool:
  assumes "\<And>cs ctx. set (pool cs ctx) \<subseteq> set (eligible_candidates cs ctx)"
    and "\<And>cs ctx. pool cs ctx = [] \<Longrightarrow> eligible_candidates cs ctx = []"
    and "\<And>cs ctx i. pick cs ctx = Some i \<Longrightarrow> \<exists>c \<in> set (pool cs ctx). cand_id c = i"
    and "\<And>cs ctx. pick cs ctx = None \<Longrightarrow> pool cs ctx = []"
  shows "account_selector pick"
proof
  fix cs ctx i
  assume "pick cs ctx = Some i"
  then obtain c where "c \<in> set (pool cs ctx)" "cand_id c = i" using assms(3) by blast
  then show "\<exists>s \<in> set cs. snap_id s = i \<and> servable ctx s"
    using assms(1) eligible_member_servable by blast
next
  fix cs ctx s
  assume "pick cs ctx = None" "s \<in> set cs"
  then show "\<not> servable ctx s" using assms(2,4) eligible_candidates_Nil by blast
qed

lemma standard_pool_empty: "standard_pool cs ctx = [] \<Longrightarrow> eligible_candidates cs ctx = []"
  unfolding standard_pool_Nil eligible_candidates_Nil .

lemma selector_deterministic_by:
  "account_selector (\<lambda>cs ctx. deterministic_by key (standard_pool cs ctx))"
proof (rule selector_from_pool [OF standard_pool_subset standard_pool_empty])
  fix cs ctx i
  show "deterministic_by key (standard_pool cs ctx) = Some i \<Longrightarrow> \<exists>c \<in> set (standard_pool cs ctx). cand_id c = i"
    unfolding deterministic_by_def by (blast dest: min_by_in)
  show "deterministic_by key (standard_pool cs ctx) = None \<Longrightarrow> standard_pool cs ctx = []"
    unfolding deterministic_by_def by (simp add: min_by_None)
qed

interpretation usage: account_selector pick_usage_weighted
  using selector_deterministic_by unfolding pick_usage_weighted_def [abs_def] .

interpretation round_robin: account_selector pick_round_robin
  using selector_deterministic_by unfolding pick_round_robin_def [abs_def] .

interpretation fill_first: account_selector pick_fill_first
  using selector_deterministic_by unfolding pick_fill_first_def [abs_def] .

interpretation drain: account_selector pick_sequential_drain
  using selector_deterministic_by unfolding pick_sequential_drain_def [abs_def] .

lemma deterministic_min_pick: "pool \<noteq> [] \<Longrightarrow> \<exists>c \<in> set pool. map_option cand_id (deterministic_min pool) = Some (cand_id c)"
  unfolding deterministic_min_def
  by (cases "min_by tiebreak_cmp pool") (auto simp: min_by_None dest: min_by_in)

lemma sample_weighted_member:
  assumes "draw_ok e" "length weights = length pool" "pool \<noteq> []"
  shows "\<exists>c \<in> set pool. sample_weighted e pool weights ctx = Some (cand_id c)"
proof (cases "list_all (\<lambda>w. fle w (F_Num 0)) (discounted pool weights)")
  case True
  then show ?thesis using assms(3) deterministic_min_pick [of pool]
    unfolding sample_weighted_def Let_def by simp
next
  case False
  note nz = this
  have len: "length (discounted pool weights) = length pool"
    using assms(2) by (simp add: discounted_def)
  show ?thesis
  proof (cases "env_draw e (discounted pool weights) (ctx_rng_seed ctx)")
    case None
    then show ?thesis using assms(3) nz deterministic_min_pick [of pool]
      unfolding sample_weighted_def Let_def by simp
  next
    case (Some i)
    then have "i < length pool" using assms(1) len unfolding draw_ok_def by metis
    with Some nz assms(3) have "sample_weighted e pool weights ctx = Some (cand_id (pool ! i))"
      unfolding sample_weighted_def Let_def by simp
    with \<open>i < length pool\<close> show ?thesis by (metis nth_mem)
  qed
qed

lemma affinity_member:
  assumes "draw_ok e" "length weights = length pool" "pool \<noteq> []"
  shows "\<exists>c \<in> set pool. affinity_or_weighted_pick e pool weights ctx = Some (cand_id c)"
proof (cases "ctx_session_id ctx")
  case None
  then show ?thesis using sample_weighted_member [OF assms] by (simp add: affinity_or_weighted_pick_def)
next
  case (Some sid)
  let ?m = "min_by (rendezvous_cmp e sid) (filter (\<lambda>(c, w). is_fin w \<and> fgt w (F_Num 0)) (zip pool weights))"
  show ?thesis
  proof (cases ?m)
    case None
    then show ?thesis using Some assms(3) sample_weighted_member [OF assms]
      by (simp add: affinity_or_weighted_pick_def)
  next
    case (Some p)
    obtain c w where p: "p = (c, w)" by (cases p)
    from Some p have "c \<in> set pool" by (auto dest!: min_by_in elim: in_set_zipE)
    with Some p \<open>ctx_session_id ctx = Some sid\<close> assms(3) show ?thesis
      by (auto simp: affinity_or_weighted_pick_def)
  qed
qed

lemma affinity_empty: "affinity_or_weighted_pick e [] weights ctx = None"
  by (simp add: affinity_or_weighted_pick_def sample_weighted_def split: option.split)

lemma selector_affinity:
  assumes "draw_ok e" and "\<And>cs ctx. set (pool cs ctx) \<subseteq> set (eligible_candidates cs ctx)"
    and "\<And>cs ctx. pool cs ctx = [] \<Longrightarrow> eligible_candidates cs ctx = []"
  shows "account_selector (\<lambda>cs ctx. affinity_or_weighted_pick e (pool cs ctx) (map (w ctx) (pool cs ctx)) ctx)"
proof (rule selector_from_pool [OF assms(2,3)])
  fix cs ctx i
  note member = affinity_member [OF assms(1) length_map]
  show "affinity_or_weighted_pick e (pool cs ctx) (map (w ctx) (pool cs ctx)) ctx = Some i \<Longrightarrow>
      \<exists>c \<in> set (pool cs ctx). cand_id c = i"
    using member [of "pool cs ctx" "w ctx" ctx] affinity_empty [of e] by (cases "pool cs ctx = []") auto
  show "affinity_or_weighted_pick e (pool cs ctx) (map (w ctx) (pool cs ctx)) ctx = None \<Longrightarrow> pool cs ctx = []"
    using member [of "pool cs ctx" "w ctx" ctx] by (cases "pool cs ctx = []") auto
qed

lemma cache_affinity_eq:
  "pick_cache_affinity_tier e cs ctx =
     (let pool = policy_waterfall (eligible_candidates cs ctx) in
      affinity_or_weighted_pick e pool
        (map (\<lambda>c. tier_weight c (unwrap_or (ctx_tier ctx) Medium) (ctx_now ctx)) pool) ctx)"
proof (cases "eligible_candidates cs ctx = []")
  case True
  then show ?thesis
    by (simp add: pick_cache_affinity_tier_def policy_waterfall_def first_group_empty affinity_empty
        del: first_group.simps)
next
  case False
  then show ?thesis unfolding pick_cache_affinity_tier_def Let_def by (simp only: if_False)
qed

lemma strategy_selector: "draw_ok e \<Longrightarrow> account_selector (strategy_pick e st)"
proof (cases st)
  case CapacityWeighted
  assume "draw_ok e"
  from selector_affinity [OF this standard_pool_subset standard_pool_empty, of "\<lambda>_. remaining_secondary_credits"]
  show ?thesis unfolding CapacityWeighted strategy_pick.simps [abs_def] pick_capacity_weighted_def weighted_pick_def .
next
  case CacheAffinityTier
  assume d: "draw_ok e"
  have sub: "set (policy_waterfall (eligible_candidates cs ctx)) \<subseteq> set (eligible_candidates cs ctx)" for cs ctx
    unfolding policy_waterfall_def by (rule first_group_subset)
  have ne: "policy_waterfall (eligible_candidates cs ctx) = [] \<Longrightarrow> eligible_candidates cs ctx = []" for cs ctx
    unfolding policy_waterfall_def first_group_Nil .
  from selector_affinity [OF d sub ne, of "\<lambda>ctx c. tier_weight c (unwrap_or (ctx_tier ctx) Medium) (ctx_now ctx)"]
  show ?thesis unfolding CacheAffinityTier strategy_pick.simps [abs_def] cache_affinity_eq Let_def .
qed (simp_all only: strategy_pick.simps [abs_def] usage.account_selector_axioms
    round_robin.account_selector_axioms fill_first.account_selector_axioms drain.account_selector_axioms)

text \<open>
  C1: Every strategy is safe and complete. An account it returns is one of those given, holds the
  capability the request needs and passed every eligibility gate; and it returns nothing only when
  no given account does. For the two weighted strategies this relies on the weighted draw returning
  an index of the list.
\<close>

theorem strategies_safe_and_complete:
  assumes "draw_ok e"
  shows "case strategy_pick e st cs ctx of
           Some i \<Rightarrow> \<exists>s \<in> set cs. snap_id s = i \<and> authorized ctx s \<and>
             (\<exists>c. eligibility s (ctx_now ctx) (ctx_inflight_penalty_pct ctx) = Eligible c)
         | None \<Rightarrow> \<not> (\<exists>s \<in> set cs. authorized ctx s \<and>
             (\<exists>c. eligibility s (ctx_now ctx) (ctx_inflight_penalty_pct ctx) = Eligible c))"
proof (cases "strategy_pick e st cs ctx")
  case None
  then show ?thesis
    using account_selector.pick_complete [OF strategy_selector [OF assms] None]
    unfolding servable_def by auto
next
  case (Some i)
  then show ?thesis
    using account_selector.pick_servable [OF strategy_selector [OF assms] Some]
    unfolding servable_def by auto
qed

definition last_draw_env :: sel_env where
  "last_draw_env = \<lparr>env_ln = (\<lambda>x. fneg x),
     env_draw = (\<lambda>ws seed. if ws \<noteq> [] \<and> fgt (last ws) (F_Num 0) then Some (length ws - 1) else None)\<rparr>"

lemma last_draw_ok: "draw_ok last_draw_env"
  by (auto simp: draw_ok_def last_draw_env_def last_conv_nth split: if_splits)

theorem strategies_safe_and_complete_witness:
  "draw_ok last_draw_env \<and> strategy_pick last_draw_env CapacityWeighted
     [(new_snapshot ''a'')\<lparr>snap_status := ''paused''\<rparr>] default_ctx = None"
  using strategies_safe_and_complete [OF last_draw_ok,
      where st = CapacityWeighted and ctx = default_ctx
        and cs = "[(new_snapshot ''a'')\<lparr>snap_status := ''paused''\<rparr>]"] last_draw_ok
  by (auto simp: eligibility_def new_snapshot_def split: option.splits)

section \<open>Order independence\<close>

lemma eligible_candidates_set_cong:
  assumes "set cs = set cs'"
  shows "set (eligible_candidates cs ctx) = set (eligible_candidates cs' ctx)"
  by (rule set_eqI) (unfold in_eligible_candidates assms, rule refl)

lemma total_cmp_by_key: "total_cmp (by_key_cmp key)"
  unfolding by_key_cmp_def [abs_def] by (intro cmp_intros)

text \<open>Two minima of a comparator that ends with the id have the same id.\<close>

lemma min_by_id_unique:
  assumes "total_cmp c" "\<And>a b. c a b = Equal \<Longrightarrow> f a = f b"
    and "m \<in> A" "\<forall>y \<in> A. c m y \<noteq> Greater" "n \<in> A" "\<forall>y \<in> A. c n y \<noteq> Greater"
  shows "f m = f n"
proof -
  have "c m n \<noteq> Greater" "c n m \<noteq> Greater" using assms(3-6) by blast+
  then have "c m n = Equal" using total_cmp.cmp_flip [OF assms(1), of n m] by (cases "c m n") auto
  then show ?thesis by (rule assms(2))
qed

lemma min_by_set_cong:
  assumes "total_cmp c" "\<And>a b. c a b = Equal \<Longrightarrow> f a = f b" "set xs = set ys"
  shows "map_option f (min_by c xs) = map_option f (min_by c ys)"
proof (cases "min_by c xs")
  case None
  with assms(3) show ?thesis by (simp add: min_by_None)
next
  case (Some m)
  with assms(3) obtain n where n: "min_by c ys = Some n"
    by (cases "min_by c ys") (auto simp: min_by_None)
  from total_cmp.min_by_least [OF assms(1) Some] total_cmp.min_by_least [OF assms(1) n] assms(3)
  have "f m = f n" by (intro min_by_id_unique [OF assms(1,2), where A = "set xs"]) auto
  with Some n show ?thesis by simp
qed

lemma by_key_Equal: "by_key_cmp key a b = Equal \<Longrightarrow> cand_id a = cand_id b"
  by (simp add: by_key_cmp_def then_cmp_eq)

lemma standard_pool_set_cong:
  assumes "set cs = set cs'"
  shows "set (standard_pool cs ctx) = set (standard_pool cs' ctx)"
  unfolding standard_pool_set eligible_candidates_set_cong [OF assms] ..

lemma deterministic_by_cong:
  "set cs = set cs' \<Longrightarrow>
   deterministic_by key (standard_pool cs ctx) = deterministic_by key (standard_pool cs' ctx)"
  unfolding deterministic_by_def
  by (intro min_by_set_cong total_cmp_by_key by_key_Equal standard_pool_set_cong)

lemma deterministic_strategies:
  "strategy_pick e UsageWeighted cs ctx = deterministic_by c_secondary_used (standard_pool cs ctx)"
  "strategy_pick e RoundRobin cs ctx =
     deterministic_by (\<lambda>c. f64_of_int (unwrap_or (snap_last_selected_at (c_snap c)) 0)) (standard_pool cs ctx)"
  "strategy_pick e FillFirst cs ctx = deterministic_by (\<lambda>c. fneg (warmth c)) (standard_pool cs ctx)"
  "strategy_pick e SequentialDrain cs ctx = deterministic_by capacity (standard_pool cs ctx)"
  by (simp_all only: strategy_pick.simps pick_usage_weighted_def pick_round_robin_def
      pick_fill_first_def pick_sequential_drain_def)

text \<open>
  The four keyed strategies do not depend on the order in which the store lists the accounts,
  nor on an account being listed twice: the same set of snapshots gives the same account.
\<close>

lemma keyed_strategies_order_free:
  assumes "set cs = set cs'" and "st \<in> {UsageWeighted, RoundRobin, FillFirst, SequentialDrain}"
  shows "strategy_pick e st cs ctx = strategy_pick e st cs' ctx"
proof -
  from assms(2) consider "st = UsageWeighted" | "st = RoundRobin" | "st = FillFirst" | "st = SequentialDrain"
    by blast
  then show ?thesis
  proof cases
  qed (auto simp only: deterministic_strategies intro: deterministic_by_cong [OF assms(1)])
qed

lemma keyed_strategies_order_free_example:
  "strategy_pick last_draw_env FillFirst [new_snapshot ''b'', new_snapshot ''a''] default_ctx =
   strategy_pick last_draw_env FillFirst [new_snapshot ''a'', new_snapshot ''b'', new_snapshot ''a''] default_ctx"
  by (rule keyed_strategies_order_free) auto

end
