(* ===== verification/Continuity.thy ===== *)
theory Continuity
  imports Continuity_Store Selection_Picks
begin

text \<open>
  The continuity state machine: \<open>polyflare-core/src/continuity.rs\<close> (the no-op backend),
  \<open>polyflare-server/src/continuity.rs\<close> (the store-backed one), the ownership pre-filter and the
  input fingerprint of \<open>watchdog.rs\<close>. What every backend promises the watchdog is the locale
  \<open>turn_continuity\<close>, interpreted on both. The parser of request bytes, the printer and SHA-256 are
  arguments; an I/O failure of the store (before anything is written) is not modelled.
\<close>

section \<open>The contract of a continuity backend\<close>

locale turn_continuity =
  fixes prep :: "prepared_request \<Rightarrow> request_ctx \<Rightarrow> 's \<Rightarrow> prepared \<times> 's"
    and obs :: "turn_outcome \<Rightarrow> 's \<Rightarrow> 's option"
  assumes prep_request: "prep_req (fst (prep req ctx s)) = req"
    and prep_session: "dir_session_key (prep_directive (fst (prep req ctx s))) = rc_session_key ctx"
    and prep_armed: "dir_watchdog (prep_directive (fst (prep req ctx s))) = Armed t
          \<Longrightarrow> rc_client_previous_response_id ctx \<noteq> None"
    and prep_recovery: "dir_recovery (prep_directive (fst (prep req ctx s))) = NoRecovery
          \<longleftrightarrow> dir_watchdog (prep_directive (fst (prep req ctx s))) = Disarmed"
    and prep_resend: "dir_recovery (prep_directive (fst (prep req ctx s))) = ResendFull r
          \<Longrightarrow> sendable req \<Longrightarrow> sendable r \<and> pr_model r = pr_model req
                \<and> pr_forward_headers r = pr_forward_headers req"
    and obs_failed: "obs (Failed sk) s = Some s"
begin

text \<open>A turn without an anchor is never recovered: there is nothing to strip or to signal.\<close>

lemma anchorless_no_recovery:
  assumes "rc_client_previous_response_id ctx = None"
  shows "dir_recovery (prep_directive (fst (prep req ctx s))) = NoRecovery"
proof -
  have "dir_watchdog (prep_directive (fst (prep req ctx s))) = Disarmed"
    using prep_armed [of req ctx s] assms by (cases "dir_watchdog (prep_directive (fst (prep req ctx s)))") auto
  then show ?thesis by (simp add: prep_recovery)
qed

text \<open>Whatever request is sent first or resent, there is something to send.\<close>

lemma every_attempt_sendable:
  assumes "sendable req"
    "r = prep_req (fst (prep req ctx s)) \<or> dir_recovery (prep_directive (fst (prep req ctx s))) = ResendFull r"
  shows "sendable r"
  using assms prep_request [of req ctx s] prep_resend [of req ctx s r] by auto

end

section \<open>The no-op backend\<close>

definition noop_prepare :: "prepared_request \<Rightarrow> request_ctx \<Rightarrow> prepared" where
  "noop_prepare req ctx = \<lparr>prep_req = req, prep_directive = \<lparr>dir_pin_account = None,
     dir_watchdog = Disarmed, dir_recovery = NoRecovery, dir_session_key = rc_session_key ctx,
     dir_require_security = False\<rparr>\<rparr>"

definition noop_observe :: "turn_outcome \<Rightarrow> 's \<Rightarrow> 's option" where
  "noop_observe outcome s = Some s"

definition noop_mark_required_capability :: "session_key \<Rightarrow> string \<Rightarrow> 's \<Rightarrow> 's" where
  "noop_mark_required_capability sk capability s = s"

section \<open>The Codex backend\<close>

definition security_work :: string where "security_work = ''security_work''"

fun strength_str :: "key_strength \<Rightarrow> string" where
  "strength_str Hard = ''hard''"
| "strength_str Soft = ''soft''"

text \<open>The body of a resend: the parsed wire bytes or the built body, without the anchor.\<close>

definition anchorless_request :: "(string \<Rightarrow> json option) \<Rightarrow> prepared_request \<Rightarrow> prepared_request" where
  "anchorless_request parse req =
     (let base = (case pr_raw_body req of Some raw \<Rightarrow> parse raw | None \<Rightarrow> pr_body req)
      in case base of
           Some v \<Rightarrow> \<lparr>pr_body = Some (jremove ''previous_response_id'' v), pr_model = pr_model req,
              pr_forward_headers = pr_forward_headers req, pr_raw_body = None\<rparr>
         | None \<Rightarrow> \<lparr>pr_body = None, pr_model = pr_model req,
              pr_forward_headers = pr_forward_headers req, pr_raw_body = pr_raw_body req\<rparr>)"

text \<open>The owner of a turn: the anchor's account, else the session's.\<close>

definition anchor_owner :: "request_ctx \<Rightarrow> continuity_db \<Rightarrow> account_id option" where
  "anchor_owner ctx db = (case rc_client_previous_response_id ctx of
     None \<Rightarrow> None | Some rid \<Rightarrow> get_anchor_owner rid db)"

definition session_row_of :: "request_ctx \<Rightarrow> continuity_db \<Rightarrow> session_row option" where
  "session_row_of ctx db = (case rc_session_key ctx of
     None \<Rightarrow> None | Some sk \<Rightarrow> get_session (sk_value sk) db)"

definition resolve_owner :: "account_id option \<Rightarrow> account_id option \<Rightarrow> account_id option" where
  "resolve_owner from_anchor from_session = (case from_anchor of
     Some a \<Rightarrow> Some a | None \<Rightarrow> (case from_session of Some b \<Rightarrow> Some b | None \<Rightarrow> None))"

definition touch_session :: "request_ctx \<Rightarrow> i64 \<Rightarrow> continuity_db \<Rightarrow> continuity_db" where
  "touch_session ctx now db = (case rc_session_key ctx of None \<Rightarrow> db
     | Some sk \<Rightarrow>
         (if rc_client_previous_response_id ctx \<noteq> None
          then ensure_session_reattaching (sk_value sk) (strength_str (sk_strength sk)) now db
          else ensure_session (sk_value sk) (strength_str (sk_strength sk)) now db))"

definition arm_and_recovery ::
  "(string \<Rightarrow> json option) \<Rightarrow> nat \<Rightarrow> prepared_request \<Rightarrow> request_ctx \<Rightarrow> watchdog_arm \<times> recovery_plan" where
  "arm_and_recovery parse timeout req ctx =
     (if rc_client_previous_response_id ctx \<noteq> None
      then (Armed timeout, if rc_is_full_resend ctx then ResendFull (anchorless_request parse req) else SignalClient)
      else (Disarmed, NoRecovery))"

definition prepare ::
  "(string \<Rightarrow> json option) \<Rightarrow> nat \<Rightarrow> i64 \<Rightarrow> prepared_request \<Rightarrow> request_ctx \<Rightarrow> continuity_db
   \<Rightarrow> prepared \<times> continuity_db" where
  "prepare parse timeout now req ctx db =
     (let row = session_row_of ctx db;
          session_owner = (case row of None \<Rightarrow> None | Some r \<Rightarrow> sr_owning_account_id r);
          require_security = (case row of None \<Rightarrow> False | Some r \<Rightarrow> has_capability r security_work);
          owner = resolve_owner (anchor_owner ctx db) session_owner;
          db' = touch_session ctx now db;
          (watchdog, recovery) = arm_and_recovery parse timeout req ctx
      in (\<lparr>prep_req = req, prep_directive = \<lparr>dir_pin_account = owner, dir_watchdog = watchdog,
             dir_recovery = recovery, dir_session_key = rc_session_key ctx,
             dir_require_security = require_security\<rparr>\<rparr>, db'))"

definition observe :: "i64 \<Rightarrow> turn_outcome \<Rightarrow> continuity_db \<Rightarrow> continuity_db option" where
  "observe now outcome db = (case outcome of
     Completed session_key account response_id fingerprint input_count expected_owner \<Rightarrow>
       (case (session_key, response_id) of
          (Some sk, Some rid) \<Rightarrow> record_completion (sk_value sk) (strength_str (sk_strength sk)) account
             expected_owner rid fingerprint (int input_count) now db
        | _ \<Rightarrow> Some db)
   | Recovered session_key account new_response_id \<Rightarrow>
       (case session_key of
          Some sk \<Rightarrow> record_recovery (sk_value sk) account new_response_id now db
        | None \<Rightarrow> Some db)
   | Failed _ \<Rightarrow> Some db)"

definition mark_required_capability :: "i64 \<Rightarrow> session_key \<Rightarrow> string \<Rightarrow> continuity_db \<Rightarrow> continuity_db" where
  "mark_required_capability now sk capability db = set_required_capability (sk_value sk) capability now db"

section \<open>Ownership pre-filter and fingerprint\<close>

datatype route_decision = Route account_id | Recover | NoEligibleAccount

definition apply_ownership ::
  "(account_snapshot list \<Rightarrow> selection_ctx \<Rightarrow> account_id option) \<Rightarrow> directive \<Rightarrow> account_snapshot list
   \<Rightarrow> selection_ctx \<Rightarrow> route_decision" where
  "apply_ownership selector directive candidates ctx = (case dir_pin_account directive of
     Some owner \<Rightarrow>
       (case selector (filter (\<lambda>s. snap_id s = owner) candidates) ctx of
          Some i \<Rightarrow> Route i | None \<Rightarrow> Recover)
   | None \<Rightarrow> (case selector candidates ctx of Some i \<Rightarrow> Route i | None \<Rightarrow> NoEligibleAccount))"

definition input_fingerprint_and_count ::
  "(string \<Rightarrow> string) \<Rightarrow> (json \<Rightarrow> string) \<Rightarrow> prepared_request \<Rightarrow> request_ctx \<Rightarrow> string \<times> u32" where
  "input_fingerprint_and_count sha256_hex to_string req ctx =
     ((case pr_raw_body req of
         Some raw \<Rightarrow> sha256_hex raw
       | None \<Rightarrow> sha256_hex (unwrap_or (map_option to_string
             (case pr_body req of None \<Rightarrow> None | Some b \<Rightarrow> jget ''input'' b)) [])),
      rc_input_count ctx)"

section \<open>Both backends keep the contract\<close>

lemma prepare_fields:
  "prep_req (fst (prepare parse t now req ctx db)) = req"
  "dir_session_key (prep_directive (fst (prepare parse t now req ctx db))) = rc_session_key ctx"
  "dir_watchdog (prep_directive (fst (prepare parse t now req ctx db))) = fst (arm_and_recovery parse t req ctx)"
  "dir_recovery (prep_directive (fst (prepare parse t now req ctx db))) = snd (arm_and_recovery parse t req ctx)"
  "dir_pin_account (prep_directive (fst (prepare parse t now req ctx db))) =
     resolve_owner (anchor_owner ctx db) (case session_row_of ctx db of None \<Rightarrow> None | Some r \<Rightarrow> sr_owning_account_id r)"
  "dir_require_security (prep_directive (fst (prepare parse t now req ctx db))) =
     (case session_row_of ctx db of None \<Rightarrow> False | Some r \<Rightarrow> has_capability r security_work)"
  "snd (prepare parse t now req ctx db) = touch_session ctx now db"
  by (simp_all add: prepare_def Let_def split: prod.splits)

lemma arm_iff: "fst (arm_and_recovery parse t req ctx) = Armed t' \<longleftrightarrow>
    rc_client_previous_response_id ctx \<noteq> None \<and> t' = t"
  by (auto simp: arm_and_recovery_def)

lemma anchorless_request_fields:
  "pr_model (anchorless_request parse req) = pr_model req"
  "pr_forward_headers (anchorless_request parse req) = pr_forward_headers req"
  "sendable req \<Longrightarrow> sendable (anchorless_request parse req)"
  by (auto simp: anchorless_request_def sendable_def Let_def split: option.splits)

interpretation codex: turn_continuity "prepare parse t now" "observe now"
  by unfold_locales
    (auto simp: prepare_fields arm_iff anchorless_request_fields observe_def,
     auto simp: arm_and_recovery_def anchorless_request_fields split: if_splits)

interpretation noop: turn_continuity "\<lambda>req ctx s. (noop_prepare req ctx, s)" noop_observe
  by unfold_locales (auto simp: noop_prepare_def noop_observe_def)

end
