(* ===== verification/Turn_Budget.thy ===== *)
theory Turn_Budget
  imports PF_Prelude
begin

text \<open>
  The process-wide attempt budget of a logical turn (\<open>LogicalTurnAttemptRegistry\<close> in
  \<open>polyflare-server/src/runtime_state.rs\<close>): spending, refunding and clearing attempts, and the
  capacity substitutions of a turn. Each operation runs under the registry's mutex and is a function
  on the registry here. The main result bounds what a failing turn can spend.
\<close>

section \<open>Registry\<close>

record turn_attempts =
  ta_capacity_substitutions :: u8
  ta_first_capacity_refusal_at :: "i64 option"
  ta_consumed :: u32
  ta_expires_at :: i64
  ta_last_consumed_at :: i64

record registry =
  reg_entries :: "(string, turn_attempts) table"
  reg_next_cleanup_at :: i64

definition empty_registry :: registry where
  "empty_registry = \<lparr>reg_entries = [], reg_next_cleanup_at = 0\<rparr>"

definition attempt_ttl :: i64 where "attempt_ttl = 15 * 60"
definition attempt_max_keys :: usize where "attempt_max_keys = 16384"
definition cleanup_interval :: i64 where "cleanup_interval = 60"
definition probe_interval :: i64 where "probe_interval = 60"
definition capacity_substitution_max :: u8 where "capacity_substitution_max = 8"

definition registry_cleanup :: "i64 \<Rightarrow> registry \<Rightarrow> registry" where
  "registry_cleanup now r =
     (if reg_next_cleanup_at r \<le> now \<or> attempt_max_keys \<le> length (reg_entries r)
      then \<lparr>reg_entries = tbl_retain (\<lambda>_ e. now < ta_expires_at e) (reg_entries r),
            reg_next_cleanup_at = add_i64 now cleanup_interval\<rparr>
      else r)"

text \<open>What a call does to the entry of its key: grant or refuse, and the entry it leaves.\<close>

definition spend_entry :: "u32 \<Rightarrow> i64 \<Rightarrow> turn_attempts \<Rightarrow> bool \<times> turn_attempts" where
  "spend_entry limit now e =
     (if limit \<le> ta_consumed e \<and> probe_interval \<le> sub_i64 now (ta_last_consumed_at e)
      then (True, e\<lparr>ta_last_consumed_at := now, ta_expires_at := add_i64 now attempt_ttl\<rparr>)
      else if limit \<le> ta_consumed e then (False, e)
      else (True, e\<lparr>ta_consumed := add_u32 (ta_consumed e) 1,
                    ta_expires_at := add_i64 now attempt_ttl, ta_last_consumed_at := now\<rparr>))"

definition fresh_attempts :: "i64 \<Rightarrow> turn_attempts" where
  "fresh_attempts now = \<lparr>ta_capacity_substitutions = 0, ta_first_capacity_refusal_at = None,
     ta_consumed = 1, ta_expires_at = add_i64 now attempt_ttl, ta_last_consumed_at = now\<rparr>"

definition try_consume_attempt :: "string option \<Rightarrow> u32 \<Rightarrow> i64 \<Rightarrow> registry \<Rightarrow> bool \<times> registry" where
  "try_consume_attempt key lim now reg =
     (case key of None \<Rightarrow> (True, reg)
      | Some k \<Rightarrow>
          let limit = max lim 1; r = registry_cleanup now reg in
          case tbl_get (reg_entries r) k of
            Some e \<Rightarrow>
              let (ok, e') = spend_entry limit now e
              in (ok, r\<lparr>reg_entries := tbl_put (reg_entries r) k e'\<rparr>)
          | None \<Rightarrow>
              if attempt_max_keys \<le> length (reg_entries r) then (False, r)
              else (True, r\<lparr>reg_entries := tbl_put (reg_entries r) k (fresh_attempts now)\<rparr>))"

definition refund_attempt :: "string option \<Rightarrow> registry \<Rightarrow> registry" where
  "refund_attempt key r =
     (case key of None \<Rightarrow> r
      | Some k \<Rightarrow>
          case tbl_get (reg_entries r) k of None \<Rightarrow> r
          | Some e \<Rightarrow>
              let e' = e\<lparr>ta_consumed := ta_consumed e - 1\<rparr>;
                  t = tbl_put (reg_entries r) k e'
              in r\<lparr>reg_entries := (if ta_consumed e' = 0 then tbl_del t k else t)\<rparr>)"

definition clear_attempts :: "string option \<Rightarrow> registry \<Rightarrow> registry" where
  "clear_attempts key r =
     (case key of None \<Rightarrow> r | Some k \<Rightarrow> r\<lparr>reg_entries := tbl_del (reg_entries r) k\<rparr>)"

text \<open>
  A substituted refusal: the ordinal it may use, or \<open>None\<close> once the turn has ridden the wave out.
  The first refusal time is recorded even when the substitution is refused.
\<close>

definition try_consume_substitution ::
  "string option \<Rightarrow> i64 \<Rightarrow> u32 \<Rightarrow> registry \<Rightarrow> u8 option \<times> registry" where
  "try_consume_substitution key now ride_out_secs r =
     (case key of None \<Rightarrow> (None, r)
      | Some k \<Rightarrow>
          (case tbl_get (reg_entries r) k of
             Some e \<Rightarrow>
               let first = unwrap_or (ta_first_capacity_refusal_at e) now;
                   e1 = e\<lparr>ta_first_capacity_refusal_at := Some first\<rparr>
               in if capacity_substitution_max \<le> ta_capacity_substitutions e1
                     \<or> int ride_out_secs \<le> sub_i64 now first
                  then (None, r\<lparr>reg_entries := tbl_put (reg_entries r) k e1\<rparr>)
                  else (Some (ta_capacity_substitutions e1),
                        r\<lparr>reg_entries := tbl_put (reg_entries r) k
                          (e1\<lparr>ta_capacity_substitutions := ta_capacity_substitutions e1 + 1\<rparr>)\<rparr>)
           | None \<Rightarrow>
               if ride_out_secs = 0 then (None, r)
               else (Some 0, r\<lparr>reg_entries := tbl_put (reg_entries r) k
                  \<lparr>ta_capacity_substitutions = 1, ta_first_capacity_refusal_at = Some now,
                   ta_consumed = 0, ta_expires_at = add_i64 now attempt_ttl,
                   ta_last_consumed_at = now\<rparr>\<rparr>)))"

section \<open>The registry stays bounded\<close>

definition registry_ok :: "registry \<Rightarrow> bool" where
  "registry_ok r \<longleftrightarrow> tbl_ok (reg_entries r)"

lemma cleanup_ok: "registry_ok r \<Longrightarrow> registry_ok (registry_cleanup now r)"
  by (simp add: registry_ok_def registry_cleanup_def)

lemma cleanup_len: "length (reg_entries (registry_cleanup now r)) \<le> length (reg_entries r)"
  by (simp add: registry_cleanup_def tbl_len_retain)

lemma consume_ok: "registry_ok r \<Longrightarrow> registry_ok (snd (try_consume_attempt key lim now r))"
  using cleanup_ok [of r now]
  by (auto simp: try_consume_attempt_def registry_ok_def Let_def split: option.split prod.split)

lemma consume_len:
  "length (reg_entries r) \<le> attempt_max_keys \<Longrightarrow>
   length (reg_entries (snd (try_consume_attempt key lim now r))) \<le> attempt_max_keys"
  using cleanup_len [of now r]
  by (auto simp: try_consume_attempt_def Let_def tbl_len_put_present split: option.split prod.split
      intro: le_trans [OF tbl_len_put_le])

text \<open>The cleanup never drops a live entry, whatever triggers it.\<close>

lemma cleanup_get:
  "registry_ok r \<Longrightarrow> tbl_get (reg_entries r) k = Some e \<Longrightarrow> now < ta_expires_at e \<Longrightarrow>
   tbl_get (reg_entries (registry_cleanup now r)) k = Some e"
  by (simp add: registry_cleanup_def registry_ok_def tbl_simps)

lemma cleanup_get_None:
  "registry_ok r \<Longrightarrow> tbl_get (reg_entries r) k = None \<Longrightarrow> tbl_get (reg_entries (registry_cleanup now r)) k = None"
  by (simp add: registry_cleanup_def registry_ok_def tbl_simps)

lemma consume_other:
  "registry_ok r \<Longrightarrow> k' \<noteq> k \<Longrightarrow>
   tbl_get (reg_entries (snd (try_consume_attempt (Some k') lim now r))) k =
   tbl_get (reg_entries (registry_cleanup now r)) k"
  by (auto simp: try_consume_attempt_def Let_def tbl_simps split: option.split prod.split)

section \<open>The amplification bound\<close>

text \<open>
  A history of the registry: every operation, for any key and at the times the callers read. An
  attempt carries the limit in force when it was made, since the policy is live.
\<close>

datatype budget_op =
    Attempt "string option" u32 i64
  | Refund "string option"
  | Clear "string option"
  | Substitute "string option" i64 u32

fun budget_apply :: "budget_op \<Rightarrow> registry \<Rightarrow> bool \<times> registry" where
  "budget_apply (Attempt key lim now) r = try_consume_attempt key lim now r"
| "budget_apply (Refund key) r = (False, refund_attempt key r)"
| "budget_apply (Clear key) r = (False, clear_attempts key r)"
| "budget_apply (Substitute key now ride) r = (False, snd (try_consume_substitution key now ride r))"

fun op_time :: "budget_op \<Rightarrow> i64 \<Rightarrow> i64" where
  "op_time (Attempt key lim now) t = now"
| "op_time (Substitute key now ride) t = now"
| "op_time op t = t"

fun attempts_of :: "string \<Rightarrow> budget_op \<Rightarrow> u32 option" where
  "attempts_of k (Attempt key lim now) = (if key = Some k then Some (max lim 1) else None)"
| "attempts_of k op = None"

text \<open>The attempts of one key that a history lets through, and the registry it leaves.\<close>

fun budget_run :: "budget_op list \<Rightarrow> registry \<Rightarrow> registry" where
  "budget_run [] r = r"
| "budget_run (op # ops) r = budget_run ops (snd (budget_apply op r))"

definition lets_through :: "string \<Rightarrow> budget_op \<Rightarrow> registry \<Rightarrow> bool" where
  "lets_through k op r \<longleftrightarrow> fst (budget_apply op r) \<and> attempts_of k op \<noteq> None"

fun grants :: "string \<Rightarrow> budget_op list \<Rightarrow> registry \<Rightarrow> nat" where
  "grants k [] r = 0"
| "grants k (op # ops) r =
     (if lets_through k op r then 1 else 0) + grants k ops (snd (budget_apply op r))"

text \<open>The clock of a history: it starts at \<open>t\<close>, never goes back and ends by \<open>T\<close>.\<close>

fun clocked :: "i64 \<Rightarrow> i64 \<Rightarrow> budget_op list \<Rightarrow> bool" where
  "clocked t T [] \<longleftrightarrow> t \<le> T"
| "clocked t T (op # ops) \<longleftrightarrow> t \<le> op_time op t \<and> clocked (op_time op t) T ops"

lemma clocked_le: "clocked t T ops \<Longrightarrow> t \<le> T"
  by (induction ops arbitrary: t) (auto intro: order_trans)

text \<open>
  \<open>pot\<close> is what the key can still be granted from \<open>t\<close> up to the end \<open>T\<close> of the window. An entry
  that may expire inside the window counts like a missing one.
\<close>

definition pot :: "u32 \<Rightarrow> i64 \<Rightarrow> i64 \<Rightarrow> turn_attempts option \<Rightarrow> nat" where
  "pot L t T eo = (case eo of
       None \<Rightarrow> L + nat ((T - t) div 60)
     | Some e \<Rightarrow> if ta_expires_at e \<le> T \<or> ta_consumed e = 0 then L + nat ((T - t) div 60)
         else (L - ta_consumed e) + nat ((T - max (ta_last_consumed_at e) (t - 60)) div 60))"

definition sane_at :: "i64 \<Rightarrow> turn_attempts option \<Rightarrow> bool" where
  "sane_at t eo \<longleftrightarrow> (\<forall>e. eo = Some e \<longrightarrow> 0 \<le> ta_last_consumed_at e \<and> ta_last_consumed_at e \<le> t)"

lemma sane_at_simps [simp]:
  "sane_at t None"
  "sane_at t (Some e) \<longleftrightarrow> 0 \<le> ta_last_consumed_at e \<and> ta_last_consumed_at e \<le> t"
  by (simp_all add: sane_at_def)

lemma nat_div_mono: "x \<le> y \<Longrightarrow> nat (x div 60) \<le> nat (y div (60::int))"
  by (intro nat_mono zdiv_mono1) auto

lemma nat_div_step: "0 \<le> x \<Longrightarrow> x + 60 \<le> y \<Longrightarrow> nat (x div 60) + 1 \<le> nat (y div (60::int))"
  by linarith

lemma pot_le: "1 \<le> L \<Longrightarrow> t \<le> T \<Longrightarrow> pot L t T eo \<le> L + nat ((T - t) div 60)"
proof (cases eo)
  case (Some e)
  assume "1 \<le> L" "t \<le> T"
  have "nat ((T - max (ta_last_consumed_at e) (t - 60)) div 60) \<le> nat ((T - t + 60) div 60)"
    by (rule nat_div_mono) linarith
  also have "\<dots> = nat ((T - t) div 60) + 1" using \<open>t \<le> T\<close> by linarith
  finally have "(L - ta_consumed e) + nat ((T - max (ta_last_consumed_at e) (t - 60)) div 60) \<le> L + nat ((T - t) div 60)"
    if "0 < ta_consumed e" using that \<open>1 \<le> L\<close> by linarith
  then show ?thesis using Some by (simp add: pot_def)
qed (simp add: pot_def)

lemma pot_ge: "t \<le> T \<Longrightarrow> sane_at t eo \<Longrightarrow> nat ((T - t) div 60) \<le> pot L t T eo"
  by (auto simp: pot_def intro: trans_le_add2 nat_div_mono split: option.split)

lemma pot_later: "t \<le> now \<Longrightarrow> pot L now T eo \<le> pot L t T eo"
  by (auto simp: pot_def intro!: nat_div_mono split: option.split)

text \<open>A call that finds an expired entry may find it swept away.\<close>

lemma cleanup_cases:
  assumes "registry_ok r"
  obtains "tbl_get (reg_entries (registry_cleanup now r)) k = tbl_get (reg_entries r) k"
    | e where "tbl_get (reg_entries r) k = Some e" "ta_expires_at e \<le> now"
        "tbl_get (reg_entries (registry_cleanup now r)) k = None"
proof (cases "tbl_get (reg_entries r) k")
  case None
  then show ?thesis using that(1) cleanup_get_None [OF assms] by simp
next
  case (Some e)
  show ?thesis
  proof (cases "now < ta_expires_at e")
    case True
    then show ?thesis using that(1) Some cleanup_get [OF assms Some] by simp
  next
    case False
    then show ?thesis using assms Some that
      by (cases "reg_next_cleanup_at r \<le> now \<or> attempt_max_keys \<le> length (reg_entries r)")
        (auto simp: registry_cleanup_def registry_ok_def tbl_simps)
  qed
qed

lemma cleanup_pot:
  assumes "registry_ok r" and "t \<le> now" "now \<le> T" and "sane_at t (tbl_get (reg_entries r) k)"
  shows "pot L now T (tbl_get (reg_entries (registry_cleanup now r)) k) \<le> pot L t T (tbl_get (reg_entries r) k)"
    and "sane_at t (tbl_get (reg_entries (registry_cleanup now r)) k)"
proof -
  have "pot L now T None \<le> pot L t T (Some e)" if "ta_expires_at e \<le> now" for e
    using that assms(2,3) by (simp add: pot_def nat_div_mono)
  then show "pot L now T (tbl_get (reg_entries (registry_cleanup now r)) k) \<le> pot L t T (tbl_get (reg_entries r) k)"
    using pot_later [OF assms(2)] by (cases rule: cleanup_cases [OF assms(1), of now k]) simp_all
  show "sane_at t (tbl_get (reg_entries (registry_cleanup now r)) k)"
    using assms(4) by (cases rule: cleanup_cases [OF assms(1), of now k]) simp_all
qed

text \<open>What one grant costs: an attempt, a probe, or nothing when it is refused.\<close>

lemma spend_pot:
  assumes "spend_entry limit now e = (ok, e')" and "1 \<le> limit" "limit \<le> L" "L \<le> u32_max"
    and "0 \<le> t" "t \<le> now" "now \<le> T" "T < now + 900" "in_i64 (T + 900)" and "sane_at t (Some e)"
  shows "(if ok then 1 else 0) + pot L now T (Some e') \<le> pot L now T (Some e) \<and> sane_at now (Some e')"
proof -
  let ?n = "\<lambda>d. nat (d div (60::int))"
  have exp: "add_i64 now attempt_ttl = now + 900"
    using assms(5-9) by (simp add: sat_i64_exact in_i64_def i64_min_def i64_max_def attempt_ttl_def)
  have last: "0 \<le> ta_last_consumed_at e" "ta_last_consumed_at e \<le> now" using assms(6,10) by simp_all
  have sub: "sub_i64 now (ta_last_consumed_at e) = now - ta_last_consumed_at e"
    using last assms(5-9) by (simp add: sat_i64_exact in_i64_def i64_min_def i64_max_def)
  have full: "?n (T - now) + 1 \<le> ?n (T - max (ta_last_consumed_at e) (now - 60))"
    if "60 \<le> now - ta_last_consumed_at e"
    using that assms(7) by (intro nat_div_step) auto
  have part: "?n (T - now) \<le> ?n (T - max (ta_last_consumed_at e) (now - 60))"
    using last by (intro nat_div_mono) linarith
  consider (probe) "limit \<le> ta_consumed e" "60 \<le> now - ta_last_consumed_at e" "ok"
      "e' = e\<lparr>ta_last_consumed_at := now, ta_expires_at := now + 900\<rparr>"
    | (refuse) "\<not> ok" "e' = e"
    | (spend) "ta_consumed e < limit" "ok" "e' = e\<lparr>ta_consumed := ta_consumed e + 1,
          ta_expires_at := now + 900, ta_last_consumed_at := now\<rparr>"
    using assms(1,3,4) unfolding spend_entry_def exp sub probe_interval_def
    by (auto simp: add_u32_def split: if_splits)
  then show ?thesis
  proof cases
    case probe
    then have "1 + ((L - ta_consumed e) + ?n (T - now)) \<le> pot L now T (Some e)"
      using assms(2,3) full by (auto simp: pot_def)
    with probe assms(2,5,6,8) show ?thesis by (simp add: pot_def)
  next
    case refuse
    with last show ?thesis by simp
  next
    case spend
    then have "1 + ((L - (ta_consumed e + 1)) + ?n (T - now)) \<le> (L - ta_consumed e) + ?n (T - now)"
      using assms(3) by linarith
    also have "\<dots> \<le> pot L now T (Some e)" using part by (simp add: pot_def)
    finally have "1 + ((L - (ta_consumed e + 1)) + ?n (T - now)) \<le> pot L now T (Some e)" .
    with spend assms(5,6,8) show ?thesis by (simp add: pot_def)
  qed
qed

lemma attempt_pot:
  assumes "try_consume_attempt key lim now r = (ok, r')" and "registry_ok r"
    and "key = Some k \<Longrightarrow> max lim 1 \<le> L" "L \<le> u32_max"
    and "0 \<le> t" "t \<le> now" "now \<le> T" "T < now + 900" "in_i64 (T + 900)"
    and "sane_at t (tbl_get (reg_entries r) k)"
  shows "(if ok \<and> key = Some k then 1 else 0) + pot L now T (tbl_get (reg_entries r') k)
      \<le> pot L t T (tbl_get (reg_entries r) k) \<and> sane_at now (tbl_get (reg_entries r') k)"
proof -
  let ?c = "registry_cleanup now r"
  note clean = cleanup_pot [OF assms(2,6,7,10)]
  have exp: "add_i64 now attempt_ttl = now + 900"
    using assms(5-9) by (simp add: sat_i64_exact in_i64_def i64_min_def i64_max_def attempt_ttl_def)
  have new: "1 + pot L now T (Some (fresh_attempts now)) \<le> pot L now T None" if "key = Some k"
    using assms(3) [OF that] assms(7,8) by (simp add: pot_def fresh_attempts_def exp)
  have other: "pot L now T (tbl_get (reg_entries r) k) \<le> pot L t T (tbl_get (reg_entries r) k)"
    using assms(6) by (rule pot_later)
  have sane: "sane_at now (tbl_get (reg_entries ?c) k)" "sane_at now (tbl_get (reg_entries r) k)"
    using clean(2) assms(6,10) by (auto simp: sane_at_def)
  consider (none) "key = None" "r' = r"
    | (other) k' where "key = Some k'" "k' \<noteq> k" "tbl_get (reg_entries r') k = tbl_get (reg_entries ?c) k"
    | (full) "key = Some k" "\<not> ok" "tbl_get (reg_entries r') k = tbl_get (reg_entries ?c) k"
    | (fresh) "key = Some k" "ok" "tbl_get (reg_entries ?c) k = None"
        "tbl_get (reg_entries r') k = Some (fresh_attempts now)"
    | (entry) e e' where "key = Some k" "tbl_get (reg_entries ?c) k = Some e"
        "spend_entry (max lim 1) now e = (ok, e')" "tbl_get (reg_entries r') k = Some e'"
  proof (cases key)
    case None
    with assms(1) that(1) show ?thesis by (simp add: try_consume_attempt_def)
  next
    case (Some k')
    show ?thesis
    proof (cases "k' = k")
      case False
      with Some that(2) consume_other [OF assms(2) False, of lim now] assms(1) show ?thesis by simp
    next
      case True
      with Some assms(1) that(3-5) show ?thesis
        by (cases "tbl_get (reg_entries ?c) k")
          (auto simp: try_consume_attempt_def Let_def tbl_simps split: prod.splits if_splits)
    qed
  qed
  then show ?thesis
  proof cases
    case none
    with other sane show ?thesis by simp
  next
    case entry
    have "sane_at t (Some e)" using clean(2) entry(2) by simp
    then have "(if ok then 1 else 0) + pot L now T (Some e') \<le> pot L now T (Some e) \<and> sane_at now (Some e')"
      by (intro spend_pot [OF entry(3) _ assms(3) [OF entry(1)] assms(4,5,6,7,8,9)]) simp_all
    moreover have "pot L now T (Some e) \<le> pot L t T (tbl_get (reg_entries r) k)"
      using clean(1) [of L] entry(2) by simp
    ultimately show ?thesis using entry(1,4) by (cases ok) simp_all
  next
    case fresh
    have "1 + pot L now T (Some (fresh_attempts now)) \<le> pot L t T (tbl_get (reg_entries r) k)"
      using new [OF fresh(1)] clean(1) [of L] fresh(3) by simp
    with fresh assms(5,6) show ?thesis by (simp add: fresh_attempts_def)
  qed (use clean(1) sane in simp_all)
qed

lemma free_op_pot:
  assumes "registry_ok r" and "1 \<le> L" and "0 \<le> t" "t \<le> T" "T < t + 900" "in_i64 (T + 900)"
    and "sane_at t (tbl_get (reg_entries r) k)"
  shows refund_pot: "pot L t T (tbl_get (reg_entries (refund_attempt key r)) k)
      \<le> pot L t T (tbl_get (reg_entries r) k) + (if key = Some k then 1 else 0)
      \<and> sane_at t (tbl_get (reg_entries (refund_attempt key r)) k)"
    and clear_pot: "pot L t T (tbl_get (reg_entries (clear_attempts key r)) k)
      \<le> pot L t T (tbl_get (reg_entries r) k) + (if key = Some k then L else 0)
      \<and> sane_at t (tbl_get (reg_entries (clear_attempts key r)) k)"
    and substitution_pot: "pot L t T (tbl_get (reg_entries (snd (try_consume_substitution key t ride r))) k)
      \<le> pot L t T (tbl_get (reg_entries r) k)
      \<and> sane_at t (tbl_get (reg_entries (snd (try_consume_substitution key t ride r))) k)"
proof -
  note ge = pot_ge [OF assms(4,7), of L]
  have "pot L t T None \<le> pot L t T (tbl_get (reg_entries r) k) + L"
    using ge by (simp add: pot_def)
  with assms(1,7) show "pot L t T (tbl_get (reg_entries (clear_attempts key r)) k)
      \<le> pot L t T (tbl_get (reg_entries r) k) + (if key = Some k then L else 0)
      \<and> sane_at t (tbl_get (reg_entries (clear_attempts key r)) k)"
    by (auto simp: clear_attempts_def registry_ok_def tbl_simps split: option.split)
  have exp: "add_i64 t attempt_ttl = t + 900"
    using assms(3-6) by (simp add: sat_i64_exact in_i64_def i64_min_def i64_max_def attempt_ttl_def)
  with assms show "pot L t T (tbl_get (reg_entries (snd (try_consume_substitution key t ride r))) k)
      \<le> pot L t T (tbl_get (reg_entries r) k)
      \<and> sane_at t (tbl_get (reg_entries (snd (try_consume_substitution key t ride r))) k)"
    by (auto simp: try_consume_substitution_def Let_def tbl_simps pot_def split: option.split)
  show "pot L t T (tbl_get (reg_entries (refund_attempt key r)) k)
      \<le> pot L t T (tbl_get (reg_entries r) k) + (if key = Some k then 1 else 0)
      \<and> sane_at t (tbl_get (reg_entries (refund_attempt key r)) k)"
  proof (cases "key = Some k \<and> tbl_get (reg_entries r) k \<noteq> None")
    case False
    with assms(7) show ?thesis by (auto simp: refund_attempt_def Let_def tbl_simps split: option.split)
  next
    case True
    then obtain e where e: "key = Some k" "tbl_get (reg_entries r) k = Some e" by auto
    show ?thesis
    proof (cases "ta_consumed e \<le> 1")
      case True
      have "nat ((T - t) div 60) \<le> nat ((T - max (ta_last_consumed_at e) (t - 60)) div 60)"
        using assms(7) e by (intro nat_div_mono) simp
      then have "L + nat ((T - t) div 60)
          \<le> (L - ta_consumed e) + nat ((T - max (ta_last_consumed_at e) (t - 60)) div 60) + 1"
        using True by linarith
      then have "pot L t T None \<le> pot L t T (Some e) + 1" by (simp add: pot_def)
      with e True assms(1) show ?thesis
        by (simp add: refund_attempt_def Let_def registry_ok_def tbl_simps)
    next
      case False
      have "L - (ta_consumed e - 1) \<le> (L - ta_consumed e) + 1" by linarith
      with False have "pot L t T (Some (e\<lparr>ta_consumed := ta_consumed e - 1\<rparr>)) \<le> pot L t T (Some e) + 1"
        by (simp add: pot_def del: One_nat_def)
      with e False assms(7) show ?thesis
        by (simp add: refund_attempt_def Let_def tbl_simps)
    qed
  qed
qed

lemma budget_apply_ok: "registry_ok r \<Longrightarrow> registry_ok (snd (budget_apply op r))"
proof (cases op)
  case (Attempt key lim now)
  then show "registry_ok r \<Longrightarrow> ?thesis" by (simp add: consume_ok)
qed (auto simp: registry_ok_def refund_attempt_def clear_attempts_def
    try_consume_substitution_def Let_def split: option.split)

lemma budget_apply_pot:
  assumes "registry_ok r" and "\<And>lim. attempts_of k op = Some lim \<Longrightarrow> lim \<le> L" and "1 \<le> L" "L \<le> u32_max"
    and "0 \<le> t" "t \<le> op_time op t" "op_time op t \<le> T" "T < t + 900" "in_i64 (T + 900)"
    and "sane_at t (tbl_get (reg_entries r) k)"
  shows "(if lets_through k op r then 1 else 0)
        + pot L (op_time op t) T (tbl_get (reg_entries (snd (budget_apply op r))) k)
      \<le> pot L t T (tbl_get (reg_entries r) k)
        + (if op = Refund (Some k) then 1 else 0) + (if op = Clear (Some k) then L else 0)
    \<and> sane_at (op_time op t) (tbl_get (reg_entries (snd (budget_apply op r))) k)"
proof (cases op)
  case (Attempt key lim now)
  obtain ok r' where step: "try_consume_attempt key lim now r = (ok, r')" by fastforce
  have "(if ok \<and> key = Some k then 1 else 0) + pot L now T (tbl_get (reg_entries r') k)
      \<le> pot L t T (tbl_get (reg_entries r) k) \<and> sane_at now (tbl_get (reg_entries r') k)"
    using assms Attempt by (intro attempt_pot [OF step assms(1)]) auto
  with Attempt step show ?thesis by (cases "key = Some k") (simp_all add: lets_through_def)
next
  case (Refund key)
  with refund_pot [OF assms(1,3,5) _ assms(8,9,10), of key] assms(6,7) show ?thesis by (simp add: lets_through_def)
next
  case (Clear key)
  with clear_pot [OF assms(1,3,5) _ assms(8,9,10), of key] assms(6,7) show ?thesis by (simp add: lets_through_def)
next
  case (Substitute key now ride)
  have "sane_at now (tbl_get (reg_entries r) k)" using assms(6,10) Substitute by (auto simp: sane_at_def)
  then have "pot L now T (tbl_get (reg_entries (snd (try_consume_substitution key now ride r))) k)
      \<le> pot L now T (tbl_get (reg_entries r) k)
    \<and> sane_at now (tbl_get (reg_entries (snd (try_consume_substitution key now ride r))) k)"
    using assms Substitute by (intro substitution_pot) auto
  moreover have "pot L now T (tbl_get (reg_entries r) k) \<le> pot L t T (tbl_get (reg_entries r) k)"
    using assms(6) Substitute by (intro pot_later) simp
  ultimately show ?thesis using Substitute by (simp add: lets_through_def)
qed

lemma grants_pot:
  assumes "registry_ok r" and "\<forall>op \<in> set ops. \<forall>lim. attempts_of k op = Some lim \<longrightarrow> lim \<le> L"
    and "1 \<le> L" "L \<le> u32_max" and "clocked t T ops" and "0 \<le> t" "T < t + 900" "in_i64 (T + 900)"
    and "sane_at t (tbl_get (reg_entries r) k)"
  shows "grants k ops r \<le> pot L t T (tbl_get (reg_entries r) k)
      + count_list ops (Refund (Some k)) + L * count_list ops (Clear (Some k))"
  using assms
proof (induction ops arbitrary: r t)
  case (Cons op ops)
  let ?r = "snd (budget_apply op r)" and ?t = "op_time op t"
  have t: "t \<le> ?t" "clocked ?t T ops" "?t \<le> T" using Cons.prems(5) clocked_le by auto
  have step: "(if lets_through k op r then 1 else 0)
        + pot L ?t T (tbl_get (reg_entries ?r) k)
      \<le> pot L t T (tbl_get (reg_entries r) k)
        + (if op = Refund (Some k) then 1 else 0) + (if op = Clear (Some k) then L else 0)
    \<and> sane_at ?t (tbl_get (reg_entries ?r) k)"
    using Cons.prems t by (intro budget_apply_pot) auto
  have "grants k ops ?r \<le> pot L ?t T (tbl_get (reg_entries ?r) k)
      + count_list ops (Refund (Some k)) + L * count_list ops (Clear (Some k))"
    using Cons.prems t step by (intro Cons.IH budget_apply_ok) auto
  with step show ?case by (simp split: if_splits)
qed simp

lemma spend_last: "spend_entry limit now e = (ok, e') \<Longrightarrow>
    ta_last_consumed_at e' = now \<or> ta_last_consumed_at e' = ta_last_consumed_at e"
  by (auto simp: spend_entry_def split: if_splits)

lemma budget_apply_sane:
  assumes "registry_ok r" and "0 \<le> s" "s \<le> op_time op s" and "sane_at s (tbl_get (reg_entries r) k)"
  shows "sane_at (op_time op s) (tbl_get (reg_entries (snd (budget_apply op r))) k)"
proof (cases op)
  case (Attempt key lim now)
  let ?c = "registry_cleanup now r"
  have now: "0 \<le> now" "s \<le> now" using assms(2,3) Attempt by simp_all
  have clean: "sane_at now (tbl_get (reg_entries ?c) k)"
    using assms(4) now by (cases rule: cleanup_cases [OF assms(1), of now k]) (auto simp: sane_at_def)
  have "sane_at now (tbl_get (reg_entries (snd (try_consume_attempt key lim now r))) k)"
  proof (cases "key = Some k")
    case True
    with clean now show ?thesis
      by (auto simp: try_consume_attempt_def Let_def tbl_simps fresh_attempts_def sane_at_def
          split: option.splits prod.splits dest!: spend_last)
  next
    case False
    with clean now assms(4) consume_other [OF assms(1), of _ k lim now] show ?thesis
      by (cases key) (auto simp: try_consume_attempt_def sane_at_def)
  qed
  with Attempt show ?thesis by simp
qed (use assms in \<open>auto simp: sane_at_def registry_ok_def refund_attempt_def clear_attempts_def
    try_consume_substitution_def Let_def tbl_simps split: option.splits if_splits\<close>)

text \<open>Whatever came before the window, the entry it leaves is not from the future.\<close>

lemma run_sane:
  assumes "registry_ok r" and "clocked s t before" "0 \<le> s" and "sane_at s (tbl_get (reg_entries r) k)"
  shows "registry_ok (budget_run before r) \<and> sane_at t (tbl_get (reg_entries (budget_run before r)) k)"
  using assms
proof (induction before arbitrary: r s)
  case Nil
  then show ?case by (auto simp: sane_at_def)
next
  case (Cons op ops)
  let ?r = "snd (budget_apply op r)" and ?s = "op_time op s"
  have s: "s \<le> ?s" "clocked ?s t ops" using Cons.prems(2) by auto
  have "sane_at ?s (tbl_get (reg_entries ?r) k)" using Cons.prems s by (intro budget_apply_sane)
  from Cons.IH [OF budget_apply_ok [OF Cons.prems(1)] s(2) _ this] Cons.prems(3) s(1) show ?case by simp
qed

text \<open>
  C6: Amplification bound. Take any history of the registry since it was created empty, with
  attempts, refunds, clears and capacity substitutions of any turns in any order and a clock that
  does not go back, and any window of less than fifteen minutes at its end. The attempts of one turn
  let through in the window are at most the limit, plus one per full minute of the window (the
  probes of an exhausted turn), plus one per refund of the turn in the window, plus the limit once
  more for every time the window clears the turn, which the code does when a generation completes.
  So a turn that only fails gets no more attempts through by retrying faster.
\<close>

theorem amplification_bound:
  assumes "clocked 0 t before" and "clocked t T ops" and "T < t + 900" and "in_i64 (T + 900)"
    and "\<forall>op \<in> set ops. \<forall>lim. attempts_of k op = Some lim \<longrightarrow> lim \<le> L" and "1 \<le> L" "L \<le> u32_max"
  shows "grants k ops (budget_run before empty_registry)
    \<le> L + nat ((T - t) div 60) + count_list ops (Refund (Some k)) + L * count_list ops (Clear (Some k))"
proof -
  let ?r = "budget_run before empty_registry"
  have t: "0 \<le> t" "t \<le> T" using assms(1,2) by (auto dest: clocked_le)
  have r: "registry_ok ?r" "sane_at t (tbl_get (reg_entries ?r) k)"
    using run_sane [OF _ assms(1), of empty_registry k] by (simp_all add: registry_ok_def empty_registry_def)
  from grants_pot [OF r(1) assms(5-7,2) t(1) assms(3,4) r(2)] pot_le [OF assms(6) t(2)] show ?thesis
    by (meson add_le_mono le_refl order_trans)
qed

text \<open>
  Two attempts spent, the third refused, a probe a minute later; and after the generation completes
  the budget is there again.
\<close>

theorem amplification_bound_witness:
  "grants ''k'' [Attempt (Some ''k'') 2 100, Attempt (Some ''x'') 2 100, Attempt (Some ''k'') 2 101,
      Attempt (Some ''k'') 2 160, Refund (Some ''x''), Attempt (Some ''k'') 2 161]
     (budget_run [Attempt (Some ''k'') 2 10, Clear (Some ''k'')] empty_registry) \<le> 3"
  using amplification_bound [of 100 "[Attempt (Some ''k'') 2 10, Clear (Some ''k'')]" 161
      "[Attempt (Some ''k'') 2 100, Attempt (Some ''x'') 2 100, Attempt (Some ''k'') 2 101,
        Attempt (Some ''k'') 2 160, Refund (Some ''x''), Attempt (Some ''k'') 2 161]" "''k''" 2]
  by (simp add: in_i64_def i64_min_def i64_max_def u32_max_def)

text \<open>The bound is reached: the limit, a probe, and the limit again after a completed generation.\<close>

lemma attempt_fresh:
  "fst (try_consume_attempt (Some k) lim now empty_registry)"
  "snd (try_consume_attempt (Some k) lim now empty_registry)
     = \<lparr>reg_entries = [(k, fresh_attempts now)],
        reg_next_cleanup_at = (if 0 \<le> now then add_i64 now cleanup_interval else 0)\<rparr>"
  by (auto simp: try_consume_attempt_def registry_cleanup_def empty_registry_def attempt_max_keys_def tbl_retain_def)

lemma amplification_bound_reached:
  "grants ''k'' [Attempt (Some ''k'') 1 0, Attempt (Some ''k'') 1 60, Clear (Some ''k''), Attempt (Some ''k'') 1 60]
     empty_registry = 3"
  by (simp add: lets_through_def attempt_fresh, simp add: try_consume_attempt_def clear_attempts_def
    registry_cleanup_def spend_entry_def fresh_attempts_def Let_def attempt_ttl_def attempt_max_keys_def
    cleanup_interval_def probe_interval_def sat_i64_exact in_i64_def i64_min_def i64_max_def tbl_retain_def)

section \<open>Capacity substitutions\<close>

text \<open>
  A granted substitution is for a known turn, its ordinal is the number already used and below
  eight, the turn's first refusal is within the ride-out span, and the count goes up by one; a
  refused one leaves the count. The first refusal time, once set, is never moved.
\<close>

lemma substitution_law:
  assumes "try_consume_substitution (Some k) now ride r = (res, r')"
    and "tbl_get (reg_entries r) k = Some e" and "ta_capacity_substitutions e \<le> 8"
  shows "\<exists>e'. tbl_get (reg_entries r') k = Some e' \<and> ta_capacity_substitutions e' \<le> 8 \<and>
     ta_first_capacity_refusal_at e' = Some (unwrap_or (ta_first_capacity_refusal_at e) now) \<and>
     (case res of
        None \<Rightarrow> ta_capacity_substitutions e' = ta_capacity_substitutions e
      | Some n \<Rightarrow> n = ta_capacity_substitutions e \<and> n < 8 \<and> ta_capacity_substitutions e' = n + 1 \<and>
          sub_i64 now (unwrap_or (ta_first_capacity_refusal_at e) now) < int ride)"
  using assms
  by (auto simp: try_consume_substitution_def Let_def tbl_simps capacity_substitution_max_def not_le split: if_splits)

lemma substitution_law_example:
  "fst (try_consume_substitution (Some ''k'') 5 60 \<lparr>reg_entries = [(''k'', fresh_attempts 0)], reg_next_cleanup_at = 0\<rparr>) \<noteq> Some 1"
  using substitution_law [of "''k''" 5 60 "\<lparr>reg_entries = [(''k'', fresh_attempts 0)], reg_next_cleanup_at = 0\<rparr>"
      _ _ "fresh_attempts 0"]
  by (cases "try_consume_substitution (Some ''k'') 5 60
      \<lparr>reg_entries = [(''k'', fresh_attempts 0)], reg_next_cleanup_at = 0\<rparr>") (fastforce simp: fresh_attempts_def)

text \<open>The substitution path inserts without looking at the key bound, unlike the attempt path.\<close>

lemma substitution_ignores_key_bound:
  assumes "tbl_get (reg_entries r) k = None" and "0 < ride"
  shows "length (reg_entries (snd (try_consume_substitution (Some k) now ride r))) = Suc (length (reg_entries r))"
proof -
  have "k \<notin> fst ` set (reg_entries r)" using assms(1) by (simp add: map_of_eq_None_iff)
  with assms show ?thesis by (simp add: try_consume_substitution_def tbl_len_put)
qed

end
