(* ===== verification/Health.thy ===== *)
theory Health
  imports Core_Types
begin

text \<open>
  The live routing state of one account (\<open>RuntimeState\<close> in \<open>polyflare-server/src/runtime_state.rs\<close>)
  and the updates that \<open>RuntimeStates\<close> applies to it under its lock: the soft-drain health tier
  (0 healthy, 1 draining, 2 probing), the rate-limit and quota cooldowns, the overload window and
  the outcome buckets. Each \<open>rt_\<close> function is the body of the closure the method of that name
  passes to \<open>mutate\<close>. The clock is an argument.
\<close>

section \<open>State\<close>

type_synonym buckets = "(i64, u32 \<times> u32) table"

record runtime_state =
  rt_error_count :: u32
  rt_last_error_at :: "i64 option"
  rt_cooldown_until :: "i64 option"
  rt_last_selected_at :: "i64 option"
  rt_health_tier :: u8
  rt_drain_entered_at :: "i64 option"
  rt_probe_success_streak :: u32
  rt_in_flight :: u32
  rt_in_flight_pressure :: u32
  rt_open_ws :: u32
  rt_overload_rejections :: "i64 list"
  rt_soft_overload_rejections :: "i64 list"
  rt_overload_backoff_level :: u32
  rt_overload_backoff_until :: "i64 option"
  rt_overload_isolated_until :: "i64 option"
  rt_overload_last_trip_at :: "i64 option"
  rt_overload_last_rejection_at :: "i64 option"
  rt_burst_backoff_until :: "i64 option"
  rt_outcome_buckets :: buckets

definition neutral :: runtime_state where
  "neutral = \<lparr> rt_error_count = 0, rt_last_error_at = None, rt_cooldown_until = None,
     rt_last_selected_at = None, rt_health_tier = 0, rt_drain_entered_at = None,
     rt_probe_success_streak = 0, rt_in_flight = 0, rt_in_flight_pressure = 0, rt_open_ws = 0,
     rt_overload_rejections = [], rt_soft_overload_rejections = [], rt_overload_backoff_level = 0,
     rt_overload_backoff_until = None, rt_overload_isolated_until = None,
     rt_overload_last_trip_at = None, rt_overload_last_rejection_at = None,
     rt_burst_backoff_until = None, rt_outcome_buckets = [] \<rparr>"

definition is_neutral :: "runtime_state \<Rightarrow> bool" where
  "is_neutral rt \<longleftrightarrow> rt = neutral"

record tier_transition =
  tt_from :: u8
  tt_to :: u8
  tt_reason :: string

section \<open>Health tier\<close>

definition compute_should_drain ::
  "f64 option \<Rightarrow> f64 option \<Rightarrow> u32 \<Rightarrow> i64 option \<Rightarrow> i64 \<Rightarrow> bool" where
  "compute_should_drain used secondary error_count last_error_at now \<longleftrightarrow>
     is_some_and used (\<lambda>pct. fge pct (F_Num 85)) \<or>
     is_some_and secondary (\<lambda>pct. fge pct (F_Num 90)) \<or>
     2 \<le> error_count \<and> is_some_and last_error_at (\<lambda>t. now - t < 60)"

definition evaluate_health_tier ::
  "u8 \<Rightarrow> bool \<Rightarrow> i64 option \<Rightarrow> u32 \<Rightarrow> bool \<Rightarrow> i64 \<Rightarrow> u8" where
  "evaluate_health_tier current_tier drain drain_entered_at streak frozen now =
     (if frozen then current_tier
      else if current_tier = 1 then
        (if drain then 1 else if is_some_and drain_entered_at (\<lambda>t. 60 \<le> now - t) then 2 else 1)
      else if current_tier = 2 then (if drain then 1 else if 3 \<le> streak then 0 else 2)
      else (if drain then 1 else 0))"

definition transition :: "u8 \<Rightarrow> i64 \<Rightarrow> runtime_state \<Rightarrow> runtime_state" where
  "transition new_tier now rt =
     (let rt' = (if new_tier = 1 \<and> rt_health_tier rt \<noteq> 1
                 then rt\<lparr>rt_drain_entered_at := Some now, rt_probe_success_streak := 0\<rparr>
                 else if new_tier = 0
                 then rt\<lparr>rt_drain_entered_at := None, rt_probe_success_streak := 0\<rparr> else rt)
      in rt'\<lparr>rt_health_tier := new_tier\<rparr>)"

definition apply_funnel_transition ::
  "bool \<Rightarrow> i64 \<Rightarrow> runtime_state \<Rightarrow> runtime_state \<times> tier_transition option" where
  "apply_funnel_transition drain now rt =
     (let from_tier = rt_health_tier rt;
          new_tier = evaluate_health_tier from_tier drain (rt_drain_entered_at rt)
                       (rt_probe_success_streak rt) False now
      in if from_tier = 1 \<and> new_tier = 2 then (rt, None)
         else let rt' = transition new_tier now rt in
           if from_tier = new_tier then (rt', None)
           else if new_tier = 1 then (rt', Some \<lparr>tt_from = from_tier, tt_to = new_tier, tt_reason = ''error_drain''\<rparr>)
           else if new_tier = 0 then (rt', Some \<lparr>tt_from = from_tier, tt_to = new_tier, tt_reason = ''probe_promote''\<rparr>)
           else (rt', None))"

definition error_only_drain :: "runtime_state \<Rightarrow> i64 \<Rightarrow> bool" where
  "error_only_drain rt now = compute_should_drain None None (rt_error_count rt) (rt_last_error_at rt) now"

definition reset_streak_if_probing :: "runtime_state \<Rightarrow> runtime_state" where
  "reset_streak_if_probing rt = (if rt_health_tier rt = 2 then rt\<lparr>rt_probe_success_streak := 0\<rparr> else rt)"

section \<open>Failures and successes\<close>

definition backoff_secs :: "u32 \<Rightarrow> i64" where
  "backoff_secs error_count = (200 * 2 ^ (min (error_count - 1) 16)) div 1000"

text \<open>\<open>apply_rate_limit\<close>: the new state, the tier transition and the cooldown to persist.\<close>

definition rt_rate_limit ::
  "i64 option \<Rightarrow> i64 \<Rightarrow> runtime_state \<Rightarrow> runtime_state \<times> tier_transition option \<times> i64" where
  "rt_rate_limit retry_after now rt =
     (let n = add_u32 (rt_error_count rt) 1;
          delay = clamp_int 30 86400 (unwrap_or retry_after (backoff_secs n));
          until = add_i64 now delay;
          cooldown = (case rt_cooldown_until rt of None \<Rightarrow> until | Some c \<Rightarrow> max c until);
          rt1 = reset_streak_if_probing
                  (rt\<lparr>rt_error_count := n, rt_last_error_at := Some now, rt_cooldown_until := Some cooldown\<rparr>);
          (rt2, t) = apply_funnel_transition (error_only_drain rt1 now) now rt1
      in (rt2, t, cooldown))"

definition rt_quota_exceeded :: "i64 \<Rightarrow> runtime_state \<Rightarrow> runtime_state \<times> i64" where
  "rt_quota_exceeded now rt =
     (let until = add_i64 now 120;
          cooldown = (case rt_cooldown_until rt of None \<Rightarrow> until | Some c \<Rightarrow> max c until)
      in (rt\<lparr>rt_cooldown_until := Some cooldown\<rparr>, cooldown))"

definition rt_transient_error :: "i64 \<Rightarrow> runtime_state \<Rightarrow> runtime_state \<times> tier_transition option" where
  "rt_transient_error now rt =
     (let rt1 = reset_streak_if_probing
                  (rt\<lparr>rt_error_count := add_u32 (rt_error_count rt) 1, rt_last_error_at := Some now\<rparr>)
      in apply_funnel_transition (error_only_drain rt1 now) now rt1)"

definition error_rate_bucket :: "i64 \<Rightarrow> i64" where
  "error_rate_bucket now = now div 60"

text \<open>\<open>retain\<close> the window, then bump one half of the current bucket. Keys of the \<open>BTreeMap\<close>.\<close>

definition bump_outcome :: "i64 \<Rightarrow> bool \<Rightarrow> buckets \<Rightarrow> buckets" where
  "bump_outcome now success b =
     (let oldest = error_rate_bucket (now - 600);
          kept = tbl_retain (\<lambda>k _. oldest \<le> k) b;
          (s, f) = unwrap_or (tbl_get kept (error_rate_bucket now)) (0, 0)
      in tbl_put kept (error_rate_bucket now)
           (if success then (add_u32 s 1, f) else (s, add_u32 f 1)))"

definition rt_outcome :: "i64 \<Rightarrow> bool \<Rightarrow> runtime_state \<Rightarrow> runtime_state" where
  "rt_outcome now success rt =
     rt\<lparr>rt_outcome_buckets := bump_outcome now success (rt_outcome_buckets rt)\<rparr>"

text \<open>\<open>record_success\<close> reads the clock twice.\<close>

definition rt_success :: "i64 \<Rightarrow> i64 \<Rightarrow> runtime_state \<Rightarrow> runtime_state \<times> tier_transition option" where
  "rt_success bucket_now now rt =
     (let rt1 = (rt_outcome bucket_now True rt)\<lparr>rt_error_count := 0, rt_last_error_at := None\<rparr>;
          rt2 = (if rt_health_tier rt1 = 2
                 then rt1\<lparr>rt_probe_success_streak := add_u32 (rt_probe_success_streak rt1) 1\<rparr> else rt1)
      in apply_funnel_transition (error_only_drain rt2 now) now rt2)"

definition rt_evaluate_with_usage ::
  "f64 option \<Rightarrow> f64 option \<Rightarrow> bool \<Rightarrow> bool \<Rightarrow> i64 \<Rightarrow> runtime_state \<Rightarrow> runtime_state \<times> tier_transition option" where
  "rt_evaluate_with_usage used secondary status_frozen enabled now rt =
     (let from_tier = rt_health_tier rt in
      if \<not> enabled then
        (transition 0 now rt,
         if from_tier \<noteq> 0 then Some \<lparr>tt_from = from_tier, tt_to = 0, tt_reason = ''disabled_reset''\<rparr> else None)
      else
        let drain = compute_should_drain used secondary (rt_error_count rt) (rt_last_error_at rt) now;
            new_tier = evaluate_health_tier from_tier drain (rt_drain_entered_at rt)
                         (rt_probe_success_streak rt) status_frozen now;
            rt' = transition new_tier now rt
        in if from_tier = new_tier then (rt', None)
           else if new_tier = 1 then
             (rt', Some \<lparr>tt_from = from_tier, tt_to = new_tier,
                 tt_reason = (if compute_should_drain used secondary 0 None now then ''usage_drain'' else ''error_drain'')\<rparr>)
           else if new_tier = 2 then (rt', Some \<lparr>tt_from = from_tier, tt_to = new_tier, tt_reason = ''quiet_promote''\<rparr>)
           else if new_tier = 0 then (rt', Some \<lparr>tt_from = from_tier, tt_to = new_tier, tt_reason = ''probe_promote''\<rparr>)
           else (rt', None))"

definition rt_selected :: "i64 \<Rightarrow> runtime_state \<Rightarrow> runtime_state" where
  "rt_selected now rt = rt\<lparr>rt_last_selected_at := Some now\<rparr>"

section \<open>Overload and burst rejections\<close>

definition overload_backoff_secs :: "u32 \<Rightarrow> i64" where
  "overload_backoff_secs level = min (sat_i64 (60 * 2 ^ (min (level - 1) 4))) 600"

record overload_trip =
  ot_level :: u32
  ot_until :: i64
  ot_isolated :: bool

definition overload_weight :: "usize \<Rightarrow> usize \<Rightarrow> f64" where
  "overload_weight hard soft = fadd (f64_of_nat hard) (fmul (f64_of_nat soft) (F_Num (1 / 2)))"

definition quiet_since :: "runtime_state \<Rightarrow> i64 option" where
  "quiet_since rt = later_of (rt_overload_last_trip_at rt) (rt_overload_backoff_until rt)"

definition overload_note ::
  "i64 \<Rightarrow> bool \<Rightarrow> runtime_state \<Rightarrow> runtime_state" where
  "overload_note now soft rt =
     (let level = (if is_some_and (quiet_since rt) (\<lambda>since. 1800 \<le> now - since) then 0
                   else rt_overload_backoff_level rt);
          hard = filter (\<lambda>t. now - 120 < t) (rt_overload_rejections rt);
          soft_ones = filter (\<lambda>t. now - 120 < t) (rt_soft_overload_rejections rt)
      in rt\<lparr>rt_overload_backoff_level := level, rt_overload_last_rejection_at := Some now,
            rt_overload_rejections := (if soft then hard else hard @ [now]),
            rt_soft_overload_rejections := (if soft then soft_ones @ [now] else soft_ones)\<rparr>)"

definition overload_fire :: "i64 \<Rightarrow> i64 \<Rightarrow> runtime_state \<Rightarrow> runtime_state \<times> overload_trip" where
  "overload_fire now isolation_secs rt =
     (let level = min (rt_overload_backoff_level rt + 1) 5;
          isolated = (0 < isolation_secs \<and> 3 \<le> level);
          interval = (if isolated then isolation_secs else overload_backoff_secs level);
          deadline = (case rt_overload_backoff_until rt of None \<Rightarrow> now + interval
                      | Some existing \<Rightarrow> max existing (now + interval));
          rt1 = rt\<lparr>rt_overload_rejections := [], rt_soft_overload_rejections := [],
                   rt_overload_backoff_level := level, rt_overload_last_trip_at := Some now,
                   rt_overload_backoff_until := Some deadline\<rparr>
      in (if isolated then rt1\<lparr>rt_overload_isolated_until := Some deadline\<rparr> else rt1,
          \<lparr>ot_level = level, ot_until = deadline, ot_isolated = isolated\<rparr>))"

definition rt_overload_rejection ::
  "i64 \<Rightarrow> bool \<Rightarrow> i64 \<Rightarrow> runtime_state \<Rightarrow> runtime_state \<times> overload_trip option" where
  "rt_overload_rejection now soft isolation_secs rt =
     (let rt1 = overload_note now soft rt in
      if flt (overload_weight (length (rt_overload_rejections rt1)) (length (rt_soft_overload_rejections rt1)))
           (F_Num 3)
      then (rt1, None)
      else let (rt2, t) = overload_fire now isolation_secs rt1 in (rt2, Some t))"

definition rt_burst_rejection :: "i64 \<Rightarrow> i64 option \<Rightarrow> runtime_state \<Rightarrow> runtime_state \<times> i64" where
  "rt_burst_rejection now retry_after rt =
     (let seconds = clamp_int 5 30 (unwrap_or retry_after 5);
          deadline = now + seconds
      in (rt\<lparr>rt_burst_backoff_until := Some (max (unwrap_or (rt_burst_backoff_until rt) deadline) deadline)\<rparr>,
          seconds))"

definition rt_recently_refused :: "i64 \<Rightarrow> i64 \<Rightarrow> runtime_state \<Rightarrow> bool" where
  "rt_recently_refused now secs rt =
     is_some_and (rt_overload_last_rejection_at rt) (\<lambda>t. sub_i64 now t < secs)"

section \<open>Error-rate weight\<close>

text \<open>
  The multiplier in \<open>[0.05, 1]\<close> the weighted strategies apply. The two sums are \<open>u32\<close> in the
  source and exact here; they would have to pass four thousand million outcomes to differ.
\<close>

definition outcome_sums :: "i64 \<Rightarrow> buckets \<Rightarrow> u32 \<times> u32" where
  "outcome_sums oldest b =
     fold (\<lambda>(k, s, f) (ok, bad). (ok + s, bad + f)) (filter (\<lambda>(k, _). oldest \<le> k) b) (0, 0)"

definition error_rate_weight_multiplier :: "runtime_state \<Rightarrow> i64 \<Rightarrow> f64" where
  "error_rate_weight_multiplier rt now =
     (let (successes, failures) = outcome_sums (error_rate_bucket (now - 600)) (rt_outcome_buckets rt);
          samples = successes + failures
      in if samples < 10 then F_Num 1
         else fmax (fsub (F_Num 1) (fdiv (f64_of_nat failures) (f64_of_nat samples))) (flit (5 / 100)))"

section \<open>Leases\<close>

definition rt_acquire :: "u32 \<Rightarrow> runtime_state \<Rightarrow> runtime_state" where
  "rt_acquire units rt = rt\<lparr>rt_in_flight := add_u32 (rt_in_flight rt) 1,
     rt_in_flight_pressure := add_u32 (rt_in_flight_pressure rt) units\<rparr>"

definition rt_release :: "u32 \<Rightarrow> runtime_state \<Rightarrow> runtime_state" where
  "rt_release units rt = rt\<lparr>rt_in_flight := rt_in_flight rt - 1,
     rt_in_flight_pressure := rt_in_flight_pressure rt - units\<rparr>"

definition rt_open :: "runtime_state \<Rightarrow> runtime_state" where
  "rt_open rt = rt\<lparr>rt_open_ws := add_u32 (rt_open_ws rt) 1\<rparr>"

definition rt_close :: "runtime_state \<Rightarrow> runtime_state" where
  "rt_close rt = rt\<lparr>rt_open_ws := rt_open_ws rt - 1\<rparr>"

end
