(* ===== verification/Health_Props.thy ===== *)
theory Health_Props
  imports Health
begin

text \<open>
  Correctness of the per-account routing state: an invariant of every reachable state, when the
  health tier may change and what is reported, recovery of a drained account, cooldown and overload
  deadlines, and the bounds of the error-rate weight.
\<close>

section \<open>Events and reachable states\<close>

datatype rt_event =
    EvRateLimit "i64 option" i64
  | EvQuota i64
  | EvTransient i64
  | EvOutcome i64 bool
  | EvSuccess i64 i64
  | EvPoll "f64 option" "f64 option" bool bool i64
  | EvSelected i64
  | EvOverload i64 bool i64
  | EvBurst i64 "i64 option"
  | EvAcquire u32
  | EvRelease u32
  | EvOpen
  | EvClose

fun rt_apply :: "rt_event \<Rightarrow> runtime_state \<Rightarrow> runtime_state" where
  "rt_apply (EvRateLimit ra now) rt = fst (rt_rate_limit ra now rt)"
| "rt_apply (EvQuota now) rt = fst (rt_quota_exceeded now rt)"
| "rt_apply (EvTransient now) rt = fst (rt_transient_error now rt)"
| "rt_apply (EvOutcome now ok) rt = rt_outcome now ok rt"
| "rt_apply (EvSuccess bnow now) rt = fst (rt_success bnow now rt)"
| "rt_apply (EvPoll used secondary frozen enabled now) rt =
     fst (rt_evaluate_with_usage used secondary frozen enabled now rt)"
| "rt_apply (EvSelected now) rt = rt_selected now rt"
| "rt_apply (EvOverload now soft isolation) rt = fst (rt_overload_rejection now soft isolation rt)"
| "rt_apply (EvBurst now ra) rt = fst (rt_burst_rejection now ra rt)"
| "rt_apply (EvAcquire units) rt = rt_acquire units rt"
| "rt_apply (EvRelease units) rt = rt_release units rt"
| "rt_apply EvOpen rt = rt_open rt"
| "rt_apply EvClose rt = rt_close rt"

inductive rt_reachable :: "runtime_state \<Rightarrow> bool" where
  start: "rt_reachable neutral"
| event: "rt_reachable rt \<Longrightarrow> rt_reachable (rt_apply ev rt)"

section \<open>The tier part of the state\<close>

text \<open>What each update does to the three health fields; everything else leaves them alone.\<close>

definition tier_part :: "runtime_state \<Rightarrow> u8 \<times> i64 option \<times> u32" where
  "tier_part rt = (rt_health_tier rt, rt_drain_entered_at rt, rt_probe_success_streak rt)"

lemmas tier_defs = tier_part_def transition_def apply_funnel_transition_def evaluate_health_tier_def Let_def

lemma tier_part_other:
  "tier_part (rt_selected now rt) = tier_part rt"
  "tier_part (rt_outcome now ok rt) = tier_part rt"
  "tier_part (fst (rt_quota_exceeded now rt)) = tier_part rt"
  "tier_part (fst (rt_overload_rejection now soft isolation rt)) = tier_part rt"
  "tier_part (fst (rt_burst_rejection now ra rt)) = tier_part rt"
  "tier_part (rt_acquire units rt) = tier_part rt" "tier_part (rt_release units rt) = tier_part rt"
  "tier_part (rt_open rt) = tier_part rt" "tier_part (rt_close rt) = tier_part rt"
  by (simp_all add: tier_part_def rt_selected_def rt_outcome_def rt_quota_exceeded_def
      rt_overload_rejection_def overload_note_def overload_fire_def rt_burst_rejection_def
      rt_acquire_def rt_release_def rt_open_def rt_close_def Let_def split: prod.split)

definition tier_ok :: "u8 \<times> i64 option \<times> u32 \<Rightarrow> bool" where
  "tier_ok p \<longleftrightarrow> (case p of (tier, drained, streak) \<Rightarrow>
     tier = 0 \<and> drained = None \<and> streak = 0 \<or>
     tier = 1 \<and> drained \<noteq> None \<and> streak = 0 \<or>
     tier = 2 \<and> drained \<noteq> None \<and> streak < 3)"

lemma tier_ok_funnel:
  assumes "tier_ok (tier_part rt) \<or> rt_health_tier rt = 2 \<and> rt_drain_entered_at rt \<noteq> None \<and>
      rt_probe_success_streak rt \<le> 3"
  shows "tier_ok (tier_part (fst (apply_funnel_transition drain now rt)))"
  using assms by (auto simp: tier_ok_def tier_defs split: option.splits)

lemma tier_ok_poll:
  "tier_ok (tier_part rt) \<Longrightarrow> tier_ok (tier_part (fst (rt_evaluate_with_usage used secondary frozen enabled now rt)))"
  by (auto simp: tier_ok_def tier_defs rt_evaluate_with_usage_def split: option.splits)

lemma funnel_inputs:
  "tier_part (rt\<lparr>rt_error_count := n, rt_last_error_at := l\<rparr>) = tier_part rt"
  "tier_part (rt\<lparr>rt_error_count := n, rt_last_error_at := l, rt_cooldown_until := c\<rparr>) = tier_part rt"
  by (simp_all add: tier_part_def)

lemma tier_ok_reset: "tier_ok (tier_part rt) \<Longrightarrow> tier_ok (tier_part (reset_streak_if_probing rt))"
  by (auto simp: tier_ok_def tier_part_def reset_streak_if_probing_def)

lemma tier_ok_apply: "tier_ok (tier_part rt) \<Longrightarrow> tier_ok (tier_part (rt_apply ev rt))"
proof (cases ev)
  case (EvRateLimit ra now)
  assume "tier_ok (tier_part rt)"
  then show ?thesis using EvRateLimit
    by (auto simp: rt_rate_limit_def Let_def funnel_inputs split: prod.split option.split
        dest!: arg_cong [where f = fst] intro!: tier_ok_funnel tier_ok_reset disjI1)
next
  case (EvTransient now)
  assume "tier_ok (tier_part rt)"
  then show ?thesis using EvTransient
    by (auto simp: rt_transient_error_def Let_def funnel_inputs intro!: tier_ok_funnel tier_ok_reset disjI1)
next
  case (EvSuccess bnow now)
  assume ok: "tier_ok (tier_part rt)"
  show ?thesis
    unfolding EvSuccess rt_apply.simps rt_success_def Let_def
    by (rule tier_ok_funnel) (use ok in \<open>auto simp: tier_ok_def tier_part_def rt_outcome_def add_u32_def u32_max_def\<close>)
qed (simp_all add: tier_part_other tier_ok_poll)

section \<open>The overload part\<close>

definition overload_ok :: "runtime_state \<Rightarrow> bool" where
  "overload_ok rt \<longleftrightarrow> rt_overload_backoff_level rt \<le> 5 \<and>
     2 * length (rt_overload_rejections rt) + length (rt_soft_overload_rejections rt) < 6 \<and>
     (\<forall>i. rt_overload_isolated_until rt = Some i \<longrightarrow>
        (\<exists>d. rt_overload_backoff_until rt = Some d \<and> i \<le> d))"

text \<open>The float weight is exact on the sizes the window can have.\<close>

lemma overload_weight_small:
  assumes "h \<le> 3" "s \<le> 6"
  shows "flt (overload_weight h s) (F_Num 3) \<longleftrightarrow> 2 * h + s < 6"
proof -
  have "h \<in> {0, 1, 2, 3}" using assms(1) by auto
  moreover have "s \<in> {0, 1, 2, 3, 4, 5, 6}" using assms(2) by auto
  moreover have "flt (overload_weight h s) (F_Num 3) \<longleftrightarrow> 2 * h + s < 6"
    if "h \<in> {0, 1, 2, 3}" "s \<in> {0, 1, 2, 3, 4, 5, 6}" for h s
    using that by (elim insertE emptyE) (simp_all add: overload_weight_def f64_eval)
  ultimately show ?thesis by blast
qed

lemma overload_note_sizes:
  assumes "overload_ok rt"
  shows "length (rt_overload_rejections (overload_note now soft rt)) \<le> 3 \<and>
     length (rt_soft_overload_rejections (overload_note now soft rt)) \<le> 6"
proof -
  let ?h = "filter (\<lambda>t. now - 120 < t) (rt_overload_rejections rt)"
    and ?s = "filter (\<lambda>t. now - 120 < t) (rt_soft_overload_rejections rt)"
  define nh ns where "nh = length ?h" and "ns = length ?s"
  have "nh \<le> length (rt_overload_rejections rt)" "ns \<le> length (rt_soft_overload_rejections rt)"
    unfolding nh_def ns_def by (rule length_filter_le)+
  then show ?thesis using assms
    by (cases soft) (simp_all add: overload_ok_def overload_note_def Let_def nh_def [symmetric] ns_def [symmetric])
qed

lemma overload_note_ok:
  "overload_ok rt \<Longrightarrow> rt_overload_backoff_level (overload_note now soft rt) \<le> 5 \<and>
     rt_overload_backoff_until (overload_note now soft rt) = rt_overload_backoff_until rt \<and>
     rt_overload_isolated_until (overload_note now soft rt) = rt_overload_isolated_until rt"
  by (auto simp: overload_ok_def overload_note_def Let_def)

lemma overload_fire_ok:
  assumes "\<forall>i. rt_overload_isolated_until rt = Some i \<longrightarrow>
        (\<exists>d. rt_overload_backoff_until rt = Some d \<and> i \<le> d)"
  shows "overload_ok (fst (overload_fire now isolation rt))"
  using assms by (auto simp: overload_ok_def overload_fire_def Let_def split: option.splits)

lemma overload_ok_rejection:
  assumes "overload_ok rt"
  shows "overload_ok (fst (rt_overload_rejection now soft isolation rt))"
proof -
  let ?rt1 = "overload_note now soft rt"
  note sizes = overload_note_sizes [OF assms, of now soft]
  note note_ok = overload_note_ok [OF assms, of now soft]
  have iso: "\<forall>i. rt_overload_isolated_until ?rt1 = Some i \<longrightarrow>
      (\<exists>d. rt_overload_backoff_until ?rt1 = Some d \<and> i \<le> d)"
    using assms note_ok unfolding overload_ok_def by simp
  show ?thesis
  proof (cases "flt (overload_weight (length (rt_overload_rejections ?rt1))
      (length (rt_soft_overload_rejections ?rt1))) (F_Num 3)")
    case True
    then have "2 * length (rt_overload_rejections ?rt1) + length (rt_soft_overload_rejections ?rt1) < 6"
      using overload_weight_small sizes by blast
    with iso note_ok True show ?thesis by (simp add: overload_ok_def rt_overload_rejection_def Let_def)
  next
    case False
    with overload_fire_ok [OF iso] show ?thesis
      by (simp add: rt_overload_rejection_def Let_def split: prod.split) (metis fst_conv)
  qed
qed

lemma overload_part_funnel:
  "rt_overload_backoff_level (fst (apply_funnel_transition drain now rt)) = rt_overload_backoff_level rt"
  "rt_overload_rejections (fst (apply_funnel_transition drain now rt)) = rt_overload_rejections rt"
  "rt_soft_overload_rejections (fst (apply_funnel_transition drain now rt)) = rt_soft_overload_rejections rt"
  "rt_overload_isolated_until (fst (apply_funnel_transition drain now rt)) = rt_overload_isolated_until rt"
  "rt_overload_backoff_until (fst (apply_funnel_transition drain now rt)) = rt_overload_backoff_until rt"
  by (simp_all add: apply_funnel_transition_def transition_def Let_def)

lemma overload_part_transition:
  "rt_overload_backoff_level (transition t now rt) = rt_overload_backoff_level rt"
  "rt_overload_rejections (transition t now rt) = rt_overload_rejections rt"
  "rt_soft_overload_rejections (transition t now rt) = rt_soft_overload_rejections rt"
  "rt_overload_isolated_until (transition t now rt) = rt_overload_isolated_until rt"
  "rt_overload_backoff_until (transition t now rt) = rt_overload_backoff_until rt"
  by (simp_all add: transition_def Let_def)

lemmas overload_simps = overload_ok_def overload_part_funnel overload_part_transition reset_streak_if_probing_def
  rt_rate_limit_def rt_quota_exceeded_def rt_transient_error_def rt_outcome_def rt_success_def
  rt_evaluate_with_usage_def rt_selected_def rt_burst_rejection_def rt_acquire_def rt_release_def
  rt_open_def rt_close_def Let_def fst_conv case_prod_beta

lemma overload_ok_apply: "overload_ok rt \<Longrightarrow> overload_ok (rt_apply ev rt)"
proof (cases ev)
  case (EvOverload now soft isolation)
  assume "overload_ok rt"
  then show ?thesis using EvOverload overload_ok_rejection by simp
qed (simp_all add: overload_simps)

section \<open>Invariant\<close>

text \<open>
  C17: Every state an account can reach satisfies the tier and the overload invariants: the tier is
  healthy (no drain stamp, no streak), draining (with the time it was entered, no streak) or probing
  (with that time and a streak below three); the overload level is at most five, the window holds
  less than the weight that trips it, and an isolation never outlasts the deprioritization.
\<close>

theorem reachable_state_ok:
  assumes "rt_reachable rt"
  shows "tier_ok (tier_part rt) \<and> overload_ok rt"
  using assms
proof (induction rule: rt_reachable.induct)
  case start
  then show ?case by (simp add: tier_ok_def tier_part_def overload_ok_def neutral_def)
next
  case (event rt ev)
  then show ?case by (simp add: tier_ok_apply overload_ok_apply)
qed

theorem reachable_state_ok_witness:
  "let rt = rt_apply (EvTransient 11) (rt_apply (EvTransient 10) neutral)
   in tier_ok (tier_part rt) \<and> overload_ok rt"
  unfolding Let_def by (intro reachable_state_ok event start)

section \<open>When the tier moves\<close>

text \<open>
  Only the usage poller can take an account out of draining: with the soft-drain lever off, or
  when the account is not frozen, no known signal asks to drain, and sixty seconds have passed since
  it was drained. No failure, success, selection, lease or overload event does, since those do not
  see the usage.
\<close>

lemma draining_left_by_poller_only:
  assumes "rt_health_tier rt = 1" and "rt_health_tier (rt_apply ev rt) \<noteq> 1"
  shows "\<exists>used secondary frozen enabled now. ev = EvPoll used secondary frozen enabled now \<and>
    (enabled \<longrightarrow> \<not> frozen \<and>
       \<not> compute_should_drain used secondary (rt_error_count rt) (rt_last_error_at rt) now \<and>
       (\<exists>t. rt_drain_entered_at rt = Some t \<and> 60 \<le> now - t) \<and> rt_health_tier (rt_apply ev rt) = 2)"
proof -
  have funnel: "rt_health_tier rt' = 1 \<Longrightarrow> rt_health_tier (fst (apply_funnel_transition d now rt')) = 1" for rt' d now
    by (auto simp: tier_defs split: option.splits)
  have other: "tier_part rt' = tier_part rt \<Longrightarrow> rt_health_tier rt' = 1" for rt'
    using assms(1) by (simp add: tier_part_def)
  show ?thesis
  proof (cases ev)
    case (EvPoll used secondary frozen enabled now)
    with assms show ?thesis
      by (auto simp: rt_evaluate_with_usage_def tier_defs is_some_and_iff split: if_splits)
  qed (use assms(2) in \<open>simp_all add: other tier_part_other rt_rate_limit_def rt_transient_error_def rt_success_def
      rt_outcome_def reset_streak_if_probing_def Let_def case_prod_beta assms(1) funnel\<close>)
qed

lemma draining_left_by_poller_only_example:
  "compute_should_drain None None 0 None 70 = False"
  using draining_left_by_poller_only [of "neutral\<lparr>rt_health_tier := 1, rt_drain_entered_at := Some 10\<rparr>"
      "EvPoll None None False True 70"]
  by (simp add: rt_evaluate_with_usage_def tier_defs neutral_def compute_should_drain_def)

definition exact_report :: "runtime_state \<Rightarrow> runtime_state \<Rightarrow> tier_transition option \<Rightarrow> bool" where
  "exact_report rt rt' r \<longleftrightarrow> (case r of
      None \<Rightarrow> rt_health_tier rt' = rt_health_tier rt
    | Some t \<Rightarrow> rt_health_tier rt' \<noteq> rt_health_tier rt \<and>
        tt_from t = rt_health_tier rt \<and> tt_to t = rt_health_tier rt')"

lemma funnel_report:
  assumes "apply_funnel_transition drain now rt1 = (rt', r)" and "rt_health_tier rt1 = rt_health_tier rt"
  shows "exact_report rt rt' r"
    and "r = Some t \<Longrightarrow> tt_reason t = (if tt_to t = 1 then ''error_drain'' else ''probe_promote'')"
  using assms by (auto simp: exact_report_def tier_defs split: if_splits option.splits)

text \<open>
  The three funnel operations and the poller report a tier change exactly when the stored tier
  changed, with the true endpoints.
\<close>

lemma tier_changes_reported:
  "(case rt_rate_limit ra now rt of (rt', r, _) \<Rightarrow> exact_report rt rt' r) \<and>
   (case rt_transient_error now rt of (rt', r) \<Rightarrow> exact_report rt rt' r) \<and>
   (case rt_success bnow now rt of (rt', r) \<Rightarrow> exact_report rt rt' r) \<and>
   (case rt_evaluate_with_usage used secondary frozen enabled now rt of (rt', r) \<Rightarrow> exact_report rt rt' r)"
proof (intro conjI)
  show "case rt_rate_limit ra now rt of (rt', r, _) \<Rightarrow> exact_report rt rt' r"
    by (auto simp: rt_rate_limit_def Let_def reset_streak_if_probing_def split: prod.split
        intro: funnel_report(1))
  show "case rt_transient_error now rt of (rt', r) \<Rightarrow> exact_report rt rt' r"
    by (auto simp: rt_transient_error_def Let_def reset_streak_if_probing_def split: prod.split
        intro: funnel_report(1))
  show "case rt_success bnow now rt of (rt', r) \<Rightarrow> exact_report rt rt' r"
    by (auto simp: rt_success_def Let_def rt_outcome_def split: prod.split intro: funnel_report(1))
  show "case rt_evaluate_with_usage used secondary frozen enabled now rt of (rt', r) \<Rightarrow> exact_report rt rt' r"
    by (auto simp: rt_evaluate_with_usage_def exact_report_def tier_defs split: option.splits)
qed

section \<open>Recovery\<close>

definition successes :: "(i64 \<times> i64) list \<Rightarrow> runtime_state \<Rightarrow> runtime_state" where
  "successes clocks rt = fold (\<lambda>(bnow, now) r. fst (rt_success bnow now r)) clocks rt"

lemma success_tier:
  assumes "rt_health_tier rt = 2" "rt_probe_success_streak rt < 3"
  shows "rt_health_tier (fst (rt_success bnow now rt)) = (if rt_probe_success_streak rt = 2 then 0 else 2)"
    and "rt_probe_success_streak rt < 2 \<Longrightarrow>
      rt_probe_success_streak (fst (rt_success bnow now rt)) = Suc (rt_probe_success_streak rt)"
  using assms
  by (auto simp: rt_success_def rt_outcome_def error_only_drain_def compute_should_drain_def tier_defs
      add_u32_def u32_max_def)

text \<open>
  A probing account becomes healthy after exactly the successes its streak still lacks: fewer
  leave it probing, and the third in a row makes it healthy, whatever the clock readings are.
\<close>

lemma probing_needs_three_successes:
  assumes "rt_health_tier rt = 2" and "rt_probe_success_streak rt < 3"
    and "length clocks \<le> 3 - rt_probe_success_streak rt"
  shows "rt_health_tier (successes clocks rt) =
    (if length clocks = 3 - rt_probe_success_streak rt then 0 else 2)"
  using assms
proof (induction clocks arbitrary: rt)
  case Nil
  then show ?case by (simp add: successes_def)
next
  case (Cons c cs)
  obtain bnow now where c: "c = (bnow, now)" by (cases c)
  let ?rt = "fst (rt_success bnow now rt)"
  have step: "successes (c # cs) rt = successes cs ?rt" by (simp add: successes_def c)
  show ?case
  proof (cases "rt_probe_success_streak rt = 2")
    case True
    with Cons.prems have "cs = []" by simp
    with True step success_tier(1) [OF Cons.prems(1,2)] show ?thesis by (simp add: successes_def)
  next
    case False
    then have lt: "rt_probe_success_streak rt < 2" using Cons.prems(2) by simp
    note t = success_tier(1) [OF Cons.prems(1,2), of bnow now] success_tier(2) [OF Cons.prems(1,2) lt, of bnow now]
    have "rt_health_tier (successes cs ?rt) = (if length cs = 3 - rt_probe_success_streak ?rt then 0 else 2)"
      by (rule Cons.IH) (use t lt Cons.prems(3) in auto)
    with step t lt show ?thesis by auto
  qed
qed

lemma probing_needs_three_successes_example:
  "rt_health_tier (successes [(0, 0), (1, 1), (2, 2)]
     (neutral\<lparr>rt_health_tier := 2, rt_drain_entered_at := Some 0\<rparr>)) = 0"
  using probing_needs_three_successes [of "neutral\<lparr>rt_health_tier := 2, rt_drain_entered_at := Some 0\<rparr>"
      "[(0, 0), (1, 1), (2, 2)]"]
  by (simp add: neutral_def)

section \<open>Cooldowns\<close>

lemma clamp_delay: "30 \<le> clamp_int 30 86400 x" "clamp_int 30 86400 x \<le> 86400"
  using clamp_int_bounds [of 30 86400 x] by simp_all

text \<open>
  A rate limit benches the account for at least thirty seconds and at most a day, whatever
  \<open>Retry-After\<close> the upstream sends, and never shortens a longer bench; the cooldown handed to the
  persistence queue is the one stored.
\<close>

lemma rate_limit_bench:
  assumes "in_i64 now" and "in_i64 (now + 86400)"
  shows "\<exists>c. rt_cooldown_until (fst (rt_rate_limit ra now rt)) = Some c \<and>
     snd (snd (rt_rate_limit ra now rt)) = c \<and> now + 30 \<le> c \<and>
     (case rt_cooldown_until rt of None \<Rightarrow> c \<le> now + 86400
      | Some old \<Rightarrow> old \<le> c \<and> (c = old \<or> c \<le> now + 86400))"
proof -
  define d where "d = clamp_int 30 86400 (unwrap_or ra (backoff_secs (add_u32 (rt_error_count rt) 1)))"
  have d: "30 \<le> d" "d \<le> 86400" unfolding d_def by (rule clamp_delay)+
  then have "in_i64 (now + d)" using assms by (simp add: in_i64_def)
  then have until: "add_i64 now d = now + d" by (rule sat_i64_exact)
  have keep: "rt_cooldown_until (fst (apply_funnel_transition drain now r)) = rt_cooldown_until r"
    "rt_cooldown_until (reset_streak_if_probing r) = rt_cooldown_until r" for drain r
    by (simp_all add: apply_funnel_transition_def transition_def reset_streak_if_probing_def Let_def)
  have "rt_cooldown_until (fst (rt_rate_limit ra now rt)) = Some (snd (snd (rt_rate_limit ra now rt)))"
    and c: "snd (snd (rt_rate_limit ra now rt)) =
      (case rt_cooldown_until rt of None \<Rightarrow> now + d | Some c \<Rightarrow> max c (now + d))"
    unfolding rt_rate_limit_def Let_def case_prod_beta d_def [symmetric] until by (simp_all add: keep)
  with d show ?thesis by (auto split: option.split)
qed

lemma rate_limit_bench_example:
  "\<exists>c. rt_cooldown_until (fst (rt_rate_limit (Some 999999) 1000 neutral)) = Some c \<and> 1030 \<le> c \<and> c \<le> 87400"
  using rate_limit_bench [of 1000 "Some 999999" neutral]
  by (auto simp: in_i64_def i64_min_def i64_max_def neutral_def)

section \<open>Overload\<close>

text \<open>
  An overload rejection trips exactly when the rejections of the last two minutes, this one
  included and the unnamed ones counted half, reach three. A trip raises the level by one (from zero
  after half an hour of quiet) up to five, empties the window, never shortens the deadline, holds the
  account out for one to ten minutes, or for the isolation span once the level is three and isolation
  is enabled.
\<close>

lemma overload_trip_law:
  assumes "overload_ok rt"
  shows "let rt1 = overload_note now soft rt in
    case rt_overload_rejection now soft isolation rt of
      (rt', None) \<Rightarrow> 2 * length (rt_overload_rejections rt1) + length (rt_soft_overload_rejections rt1) < 6 \<and> rt' = rt1
    | (rt', Some t) \<Rightarrow>
        6 \<le> 2 * length (rt_overload_rejections rt1) + length (rt_soft_overload_rejections rt1) \<and>
        rt_overload_rejections rt' = [] \<and> rt_soft_overload_rejections rt' = [] \<and>
        ot_level t = min 5 (rt_overload_backoff_level rt1 + 1) \<and> rt_overload_backoff_level rt' = ot_level t \<and>
        rt_overload_backoff_until rt' = Some (ot_until t) \<and>
        (\<forall>old. rt_overload_backoff_until rt = Some old \<longrightarrow> old \<le> ot_until t) \<and>
        (ot_isolated t \<longleftrightarrow> 0 < isolation \<and> 3 \<le> ot_level t) \<and>
        now + (if ot_isolated t then isolation else 60) \<le> ot_until t \<and>
        (rt_overload_backoff_until rt = None \<longrightarrow>
           ot_until t \<le> now + (if ot_isolated t then isolation else 600))"
proof -
  define rt1 where "rt1 = overload_note now soft rt"
  note sizes = overload_note_sizes [OF assms(1), of now soft, folded rt1_def]
  have w: "flt (overload_weight (length (rt_overload_rejections rt1)) (length (rt_soft_overload_rejections rt1))) (F_Num 3)
      \<longleftrightarrow> 2 * length (rt_overload_rejections rt1) + length (rt_soft_overload_rejections rt1) < 6"
    using overload_weight_small sizes by blast
  have until: "rt_overload_backoff_until rt1 = rt_overload_backoff_until rt"
    by (simp add: rt1_def overload_note_def Let_def)
  have secs: "60 \<le> overload_backoff_secs level \<and> overload_backoff_secs level \<le> 600" for level
  proof -
    define p :: int where "p = 2 ^ min (level - 1) 4"
    have "1 \<le> p" unfolding p_def by simp
    then show ?thesis unfolding overload_backoff_secs_def p_def [symmetric] sat_i64_def i64_max_def i64_min_def
      by (simp add: min_def max_def)
  qed
  show ?thesis
    by (simp add: rt_overload_rejection_def Let_def rt1_def [symmetric] w overload_fire_def until secs min.commute
        case_prod_beta max.coboundedI1 max.coboundedI2 split: option.split) auto
qed

lemma overload_trip_law_example:
  "case rt_overload_rejection 100 False 0 (neutral\<lparr>rt_overload_rejections := [50, 60]\<rparr>) of
     (rt', t) \<Rightarrow> t \<noteq> None"
proof -
  let ?rt = "neutral\<lparr>rt_overload_rejections := [50, 60]\<rparr>"
  have "overload_ok ?rt" by (simp add: overload_ok_def neutral_def)
  from overload_trip_law [OF this, of 100 False 0] show ?thesis
    by (auto simp: Let_def overload_note_def neutral_def split: prod.splits option.splits)
qed

section \<open>Error-rate weight\<close>

text \<open>
  The weight multiplier is neutral below ten outcomes, and otherwise between the floor and one:
  a failing account keeps a positive share, and a flawless one its full share.
\<close>

lemma weight_multiplier_bounds:
  assumes "outcome_sums (error_rate_bucket (now - 600)) (rt_outcome_buckets rt) = (s, f)"
    and "s + f \<le> 2 ^ 53"
  shows "(s + f < 10 \<longrightarrow> error_rate_weight_multiplier rt now = F_Num 1) \<and>
     fle (flit (5 / 100)) (error_rate_weight_multiplier rt now) \<and>
     fle (error_rate_weight_multiplier rt now) (F_Num 1) \<and>
     (f = 0 \<longrightarrow> fval (error_rate_weight_multiplier rt now) = 1)"
proof (cases "s + f < 10")
  case True
  then show ?thesis using assms(1) by (simp add: error_rate_weight_multiplier_def f64_eval)
next
  case False
  let ?q = "fdiv (f64_of_nat f) (f64_of_nat (s + f))"
  let ?d = "fsub (F_Num 1) ?q"
  have ex: "f64_of_nat f = F_Num (of_nat f)" "f64_of_nat (s + f) = F_Num (of_nat (s + f))"
    using exact64_nat [of f] exact64_nat [of "s + f"] assms(2) by (simp_all add: f64_of_nat_def exact64_def)
  have pos: "(0 :: rat) < of_nat (s + f)" using False by simp
  have q: "frange 0 1 ?q"
    unfolding ex using pos by (intro fdiv_range) (auto simp: divide_le_eq_1)
  have d: "frange 0 1 ?d" using q by (intro fsub_range) (auto simp: frange_def)
  have floor: "is_fin (flit (5 / 100))" "fval (flit (5 / 100)) \<le> 1" "0 \<le> fval (flit (5 / 100))"
    by (simp_all add: f64_eval)
  have m: "error_rate_weight_multiplier rt now = fmax ?d (flit (5 / 100))"
    using False assms(1) by (simp add: error_rate_weight_multiplier_def Let_def)
  have fm: "is_fin (fmax ?d (flit (5 / 100)))" "fval (fmax ?d (flit (5 / 100))) = max (fval ?d) (fval (flit (5 / 100)))"
    using fval_fmax frange_fin [OF d] floor(1) by blast+
  have full: "fval ?d = 1" if "f = 0"
  proof -
    have "fval ?q = 0 \<and> is_fin ?q" unfolding ex using that pos by (auto simp: fdiv_def fzero_def Let_def)
    then have "frange 1 1 ?d" by (intro fsub_range) auto
    then show ?thesis by (simp add: frange_def)
  qed
  show ?thesis unfolding m
    using False fm floor d full by (auto simp: fle_fin frange_def)
qed

lemma weight_multiplier_bounds_example:
  "fle (error_rate_weight_multiplier (neutral\<lparr>rt_outcome_buckets := [(0, 4, 8)]\<rparr>) 100) (F_Num 1)"
  using weight_multiplier_bounds [of 100 "neutral\<lparr>rt_outcome_buckets := [(0, 4, 8)]\<rparr>" 4 8]
  by (simp add: outcome_sums_def error_rate_bucket_def neutral_def)

end
