(* ===== verification/Coalescing.thy ===== *)
theory Coalescing
  imports PF_Prelude
begin

text \<open>
  The two coalescing queues of \<open>RuntimeStates\<close>: the durable cooldown writes and the immediate usage
  refreshes, with the workers of \<open>usage_refresh.rs\<close> that drain them. Several requests for one
  account share one wakeup. The channel is the list of account ids sent and not yet received, in
  order; \<open>tx\<close> is \<open>None\<close> while no worker is registered, else whether the send succeeds.
\<close>

section \<open>Cooldown persistence\<close>

record cooldown_write =
  cw_account :: account_id
  cw_until :: i64
  cw_reason :: string
  cw_updated_at :: i64

record cooldown_queue =
  cq_pending :: "(account_id, cooldown_write) table"
  cq_channel :: "account_id list"

text \<open>
  \<open>persist_cooldown\<close> takes the lock twice: it inserts the write, and where the account had none
  pending it sends a wakeup, or takes the write out again if there is no worker to send it to.
\<close>

definition insert_cooldown :: "cooldown_write \<Rightarrow> cooldown_queue \<Rightarrow> bool \<times> cooldown_queue" where
  "insert_cooldown w q =
     (tbl_get (cq_pending q) (cw_account w) = None,
      q\<lparr>cq_pending := tbl_put (cq_pending q) (cw_account w) w\<rparr>)"

definition send_wakeup :: "account_id \<Rightarrow> cooldown_queue \<Rightarrow> cooldown_queue" where
  "send_wakeup k q = q\<lparr>cq_channel := cq_channel q @ [k]\<rparr>"

definition take_back :: "account_id \<Rightarrow> cooldown_queue \<Rightarrow> cooldown_queue" where
  "take_back k q = q\<lparr>cq_pending := tbl_del (cq_pending q) k\<rparr>"

definition persist_cooldown :: "bool option \<Rightarrow> cooldown_write \<Rightarrow> cooldown_queue \<Rightarrow> cooldown_queue" where
  "persist_cooldown tx w q =
     (let (should_wake, q1) = insert_cooldown w q
      in if \<not> should_wake then q1
         else case tx of
                Some True \<Rightarrow> send_wakeup (cw_account w) q1
              | _ \<Rightarrow> take_back (cw_account w) q1)"

definition pending_cooldown :: "account_id \<Rightarrow> cooldown_queue \<Rightarrow> cooldown_write option" where
  "pending_cooldown k q = tbl_get (cq_pending q) k"

definition finish_cooldown_persist :: "cooldown_write \<Rightarrow> cooldown_queue \<Rightarrow> bool \<times> cooldown_queue" where
  "finish_cooldown_persist w q =
     (let k = cw_account w;
          pending = (if is_some_and (tbl_get (cq_pending q) k) (\<lambda>c. c = w)
                     then tbl_del (cq_pending q) k else cq_pending q)
      in (tbl_get pending k \<noteq> None, q\<lparr>cq_pending := pending\<rparr>))"

text \<open>\<open>record_routing_cooldown\<close>: the \<open>INSERT ... ON CONFLICT DO UPDATE\<close> on one row.\<close>

record cooldown_row =
  cr_until :: i64
  cr_reason :: string
  cr_updated_at :: i64

definition upsert_cooldown ::
  "cooldown_write \<Rightarrow> (account_id, cooldown_row) table \<Rightarrow> (account_id, cooldown_row) table" where
  "upsert_cooldown w rows = tbl_put rows (cw_account w)
     (case tbl_get rows (cw_account w) of
        None \<Rightarrow> \<lparr>cr_until = cw_until w, cr_reason = cw_reason w, cr_updated_at = cw_updated_at w\<rparr>
      | Some row \<Rightarrow> \<lparr>cr_until = max (cr_until row) (cw_until w),
          cr_reason = (if cr_until row \<le> cw_until w then cw_reason w else cr_reason row),
          cr_updated_at = max (cr_updated_at row) (cw_updated_at w)\<rparr>)"

section \<open>The cooldown worker and the shutdown flush\<close>

text \<open>
  The moments of the worker of \<open>spawn_usage_refresh\<close>: waiting, an id received, its write on the way
  to the store, the write stored, and about to send the id to itself again.
\<close>

datatype worker_state =
    Waiting
  | Received account_id
  | Writing cooldown_write
  | Stored cooldown_write
  | Resending account_id

text \<open>
  The system. \<open>cs_tx\<close> is the registered sender: \<open>None\<close> before \<open>register_cooldown_persistence\<close> (and for
  good when the HTTP client cannot be built), \<open>Some True\<close> while the worker runs, \<open>Some False\<close> once
  its receiver is gone. \<open>cs_waking\<close> and \<open>cs_giving_up\<close> are the callers of \<open>persist_cooldown\<close> between
  their insert and their wakeup, and between finding no worker and taking the write out.
  \<open>cs_flush\<close> is what is left of the flush's snapshot and \<open>cs_flushed\<close> the write it has stored and
  not yet finished. The last three fields are for the property: the last write recorded for each
  account, the accounts whose last write was taken out for want of a worker, and whether any write
  was recorded while no worker ran.
\<close>

record cooldown_system =
  cs_queue :: cooldown_queue
  cs_tx :: "bool option"
  cs_waking :: "account_id list"
  cs_giving_up :: "account_id list"
  cs_worker :: worker_state
  cs_flush :: "cooldown_write list"
  cs_flushed :: "cooldown_write option"
  cs_rows :: "(account_id, cooldown_row) table"
  cs_last :: "account_id \<Rightarrow> cooldown_write option"
  cs_dropped :: "account_id set"
  cs_unserved :: bool

definition cooldown_start :: cooldown_system where
  "cooldown_start = \<lparr>cs_queue = \<lparr>cq_pending = [], cq_channel = []\<rparr>, cs_tx = None, cs_waking = [],
     cs_giving_up = [], cs_worker = Waiting, cs_flush = [], cs_flushed = None, cs_rows = [],
     cs_last = (\<lambda>_. None), cs_dropped = {}, cs_unserved = False\<rparr>"

text \<open>\<open>flush_pending_cooldowns\<close>: a snapshot of all pending writes, and for each its store and its finish.\<close>

inductive flush_step :: "cooldown_system \<Rightarrow> cooldown_system \<Rightarrow> bool" where
  flush_begun: "cs_flush s = [] \<Longrightarrow> cs_flushed s = None \<Longrightarrow> set ws = snd ` set (cq_pending (cs_queue s)) \<Longrightarrow>
     flush_step s (s\<lparr>cs_flush := ws\<rparr>)"
| flush_stored: "cs_flush s = w # ws \<Longrightarrow> cs_flushed s = None \<Longrightarrow>
     flush_step s (s\<lparr>cs_rows := upsert_cooldown w (cs_rows s), cs_flush := ws, cs_flushed := Some w\<rparr>)"
| flush_failed: "cs_flush s = w # ws \<Longrightarrow> cs_flushed s = None \<Longrightarrow>
     rows \<in> {cs_rows s, upsert_cooldown w (cs_rows s)} \<Longrightarrow>
     flush_step s (s\<lparr>cs_rows := rows, cs_flush := []\<rparr>)"
| flush_finished: "cs_flushed s = Some w \<Longrightarrow>
     flush_step s (s\<lparr>cs_queue := snd (finish_cooldown_persist w (cs_queue s)), cs_flushed := None\<rparr>)"

text \<open>
  The steps: the two halves of \<open>persist_cooldown\<close>, the life of the worker, the flush, and the
  direct stores of \<open>ingress.rs\<close>. A failed store may or may not have reached the row.
\<close>

inductive cooldown_step :: "cooldown_system \<Rightarrow> cooldown_system \<Rightarrow> bool" where
  recorded: "insert_cooldown w (cs_queue s) = (should_wake, q) \<Longrightarrow>
     cooldown_step s (s\<lparr>cs_queue := q,
       cs_waking := (if should_wake then cw_account w # cs_waking s else cs_waking s),
       cs_last := (cs_last s)(cw_account w \<mapsto> w), cs_dropped := cs_dropped s - {cw_account w},
       cs_unserved := (cs_unserved s \<or> cs_tx s \<noteq> Some True)\<rparr>)"
| woken: "k \<in> set (cs_waking s) \<Longrightarrow> cs_tx s = Some True \<Longrightarrow>
     cooldown_step s (s\<lparr>cs_queue := send_wakeup k (cs_queue s), cs_waking := remove1 k (cs_waking s)\<rparr>)"
| unwoken: "k \<in> set (cs_waking s) \<Longrightarrow> cs_tx s \<noteq> Some True \<Longrightarrow>
     cooldown_step s (s\<lparr>cs_waking := remove1 k (cs_waking s), cs_giving_up := k # cs_giving_up s\<rparr>)"
| dropped: "k \<in> set (cs_giving_up s) \<Longrightarrow>
     cooldown_step s (s\<lparr>cs_queue := take_back k (cs_queue s), cs_giving_up := remove1 k (cs_giving_up s),
       cs_dropped := (if pending_cooldown k (cs_queue s) = None then cs_dropped s else insert k (cs_dropped s))\<rparr>)"
| registered: "cs_tx s = None \<Longrightarrow> cooldown_step s (s\<lparr>cs_tx := Some True\<rparr>)"
| stopped: "cs_tx s = Some True \<Longrightarrow>
     cooldown_step s (s\<lparr>cs_tx := Some False, cs_queue := (cs_queue s)\<lparr>cq_channel := []\<rparr>, cs_worker := Waiting\<rparr>)"
| received: "cs_tx s = Some True \<Longrightarrow> cs_worker s = Waiting \<Longrightarrow> cq_channel (cs_queue s) = k # ks \<Longrightarrow>
     cooldown_step s (s\<lparr>cs_queue := (cs_queue s)\<lparr>cq_channel := ks\<rparr>, cs_worker := Received k\<rparr>)"
| looked_up: "cs_worker s = Received k \<Longrightarrow>
     cooldown_step s (s\<lparr>cs_worker :=
       (case pending_cooldown k (cs_queue s) of None \<Rightarrow> Waiting | Some w \<Rightarrow> Writing w)\<rparr>)"
| stored: "cs_worker s = Writing w \<Longrightarrow>
     cooldown_step s (s\<lparr>cs_rows := upsert_cooldown w (cs_rows s), cs_worker := Stored w\<rparr>)"
| failed: "cs_worker s = Writing w \<Longrightarrow> rows \<in> {cs_rows s, upsert_cooldown w (cs_rows s)} \<Longrightarrow>
     cooldown_step s (s\<lparr>cs_rows := rows, cs_worker := Resending (cw_account w)\<rparr>)"
| finished: "cs_worker s = Stored w \<Longrightarrow> finish_cooldown_persist w (cs_queue s) = (again, q) \<Longrightarrow>
     cooldown_step s (s\<lparr>cs_queue := q, cs_worker := (if again then Resending (cw_account w) else Waiting)\<rparr>)"
| resent: "cs_worker s = Resending k \<Longrightarrow>
     cooldown_step s (s\<lparr>cs_queue := send_wakeup k (cs_queue s), cs_worker := Waiting\<rparr>)"
| flushing: "flush_step s t \<Longrightarrow> cooldown_step s t"
| stored_directly: "cooldown_step s (s\<lparr>cs_rows := upsert_cooldown w (cs_rows s)\<rparr>)"

inductive cooldown_reachable :: "cooldown_system \<Rightarrow> bool" where
  start: "cooldown_reachable cooldown_start"
| step: "cooldown_reachable s \<Longrightarrow> cooldown_step s t \<Longrightarrow> cooldown_reachable t"

definition covered :: "(account_id, cooldown_row) table \<Rightarrow> cooldown_write \<Rightarrow> bool" where
  "covered rows w \<longleftrightarrow> (\<exists>row. tbl_get rows (cw_account w) = Some row \<and> cw_until w \<le> cr_until row)"

fun worker_on :: "worker_state \<Rightarrow> account_id option" where
  "worker_on Waiting = None"
| "worker_on (Received k) = Some k"
| "worker_on (Writing w) = Some (cw_account w)"
| "worker_on (Stored w) = Some (cw_account w)"
| "worker_on (Resending k) = Some k"

text \<open>An account is awake when a wakeup for it is on its way, in the channel or with the worker.\<close>

definition awake :: "cooldown_system \<Rightarrow> account_id \<Rightarrow> bool" where
  "awake s k \<longleftrightarrow> k \<in> set (cs_waking s) \<or> k \<in> set (cq_channel (cs_queue s)) \<or> worker_on (cs_worker s) = Some k"

section \<open>No cooldown is lost\<close>

text \<open>
  The invariant, in four parts: what is pending is the last write recorded; what is stored and not yet
  finished is covered; a pending account is awake or about to be given up, unless the worker is
  gone; and a recorded write is pending, covered or dropped.
\<close>

definition pending_is_last :: "cooldown_system \<Rightarrow> bool" where
  "pending_is_last s \<longleftrightarrow> (\<forall>k w. tbl_get (cq_pending (cs_queue s)) k = Some w \<longrightarrow>
     cw_account w = k \<and> cs_last s k = Some w)"

definition stored_is_covered :: "cooldown_system \<Rightarrow> bool" where
  "stored_is_covered s \<longleftrightarrow> (\<forall>w. cs_worker s = Stored w \<or> cs_flushed s = Some w \<longrightarrow> covered (cs_rows s) w)"

definition pending_is_awake :: "cooldown_system \<Rightarrow> bool" where
  "pending_is_awake s \<longleftrightarrow> cs_tx s \<noteq> Some False \<longrightarrow> (\<forall>k. tbl_get (cq_pending (cs_queue s)) k \<noteq> None \<longrightarrow>
     awake s k \<or> k \<in> set (cs_giving_up s))"

definition last_is_kept :: "cooldown_system \<Rightarrow> bool" where
  "last_is_kept s \<longleftrightarrow> (\<forall>k w. cs_last s k = Some w \<longrightarrow> cw_account w = k \<and>
     (tbl_get (cq_pending (cs_queue s)) k = Some w \<or> covered (cs_rows s) w \<or> k \<in> cs_dropped s))"

definition served_is_kept :: "cooldown_system \<Rightarrow> bool" where
  "served_is_kept s \<longleftrightarrow> \<not> cs_unserved s \<and> cs_tx s \<noteq> Some False \<longrightarrow>
     cs_giving_up s = [] \<and> cs_dropped s = {} \<and> (cs_tx s = None \<longrightarrow> cs_waking s = [])"

lemma upsert_get:
  "tbl_get (upsert_cooldown w rows) k =
     (if k = cw_account w then
        Some (case tbl_get rows k of
           None \<Rightarrow> \<lparr>cr_until = cw_until w, cr_reason = cw_reason w, cr_updated_at = cw_updated_at w\<rparr>
         | Some row \<Rightarrow> \<lparr>cr_until = max (cr_until row) (cw_until w),
             cr_reason = (if cr_until row \<le> cw_until w then cw_reason w else cr_reason row),
             cr_updated_at = max (cr_updated_at row) (cw_updated_at w)\<rparr>)
      else tbl_get rows k)"
  by (simp add: upsert_cooldown_def tbl_simps)

lemma covered_upsert [intro]: "covered rows v \<Longrightarrow> covered (upsert_cooldown w rows) v"
  by (fastforce simp: covered_def upsert_get split: option.split)

lemma covered_upsert_same [simp]: "covered (upsert_cooldown w rows) w"
  by (simp add: covered_def upsert_get split: option.split)

lemma finish_get:
  assumes "finish_cooldown_persist w q = (again, q')"
  shows "cq_channel q' = cq_channel q"
    and "tbl_get (cq_pending q') k =
      (if k = cw_account w \<and> tbl_get (cq_pending q) k = Some w then None else tbl_get (cq_pending q) k)"
  using assms by (auto simp: finish_cooldown_persist_def Let_def tbl_simps is_some_and_iff split: if_splits)

lemma finish_again:
  "finish_cooldown_persist w q = (again, q') \<Longrightarrow> tbl_get (cq_pending q') (cw_account w) \<noteq> None \<Longrightarrow> again"
  by (auto simp: finish_cooldown_persist_def Let_def)

lemma insert_get:
  assumes "insert_cooldown w q = (wake, q')"
  shows "cq_channel q' = cq_channel q"
    and "tbl_get (cq_pending q') k = (if k = cw_account w then Some w else tbl_get (cq_pending q) k)"
  using assms by (auto simp: insert_cooldown_def tbl_simps)

lemma insert_wake: "insert_cooldown w q = (wake, q') \<Longrightarrow> tbl_get (cq_pending q) (cw_account w) = None \<Longrightarrow> wake"
  by (simp add: insert_cooldown_def)

lemma queue_get [simp]:
  "cq_pending (send_wakeup k q) = cq_pending q"
  "cq_channel (send_wakeup k q) = cq_channel q @ [k]"
  "cq_channel (take_back k q) = cq_channel q"
  "tbl_get (cq_pending (take_back k q)) x = (if x = k then None else tbl_get (cq_pending q) x)"
  by (simp_all add: send_wakeup_def take_back_def tbl_simps)

text \<open>The flush and the worker finish in the same way.\<close>

lemma finish_snd:
  "cq_channel (snd (finish_cooldown_persist w q)) = cq_channel q"
  "tbl_get (cq_pending (snd (finish_cooldown_persist w q))) k =
     (if k = cw_account w \<and> tbl_get (cq_pending q) k = Some w then None else tbl_get (cq_pending q) k)"
  using finish_get [of w q] by (cases "finish_cooldown_persist w q"; simp)+

lemma remove1_other: "x \<in> set xs \<Longrightarrow> x \<in> set (remove1 k xs) \<or> x = k"
  by (induction xs) auto

lemma pending_is_last_step: "cooldown_step s t \<Longrightarrow> pending_is_last s \<Longrightarrow> pending_is_last t"
  by (induction rule: cooldown_step.induct)
    (auto simp: pending_is_last_def insert_get finish_get finish_snd elim!: flush_step.cases split: if_splits)

lemma stored_is_covered_step: "cooldown_step s t \<Longrightarrow> stored_is_covered s \<Longrightarrow> stored_is_covered t"
  by (induction rule: cooldown_step.induct)
    (auto simp: stored_is_covered_def elim!: flush_step.cases split: option.splits)

lemma pending_is_awakeI:
  "(\<And>k. cs_tx s \<noteq> Some False \<Longrightarrow> tbl_get (cq_pending (cs_queue s)) k \<noteq> None \<Longrightarrow>
     awake s k \<or> k \<in> set (cs_giving_up s)) \<Longrightarrow> pending_is_awake s"
  by (simp add: pending_is_awake_def)

lemma pending_is_awakeD:
  "pending_is_awake s \<Longrightarrow> cs_tx s \<noteq> Some False \<Longrightarrow> tbl_get (cq_pending (cs_queue s)) k \<noteq> None \<Longrightarrow>
     awake s k \<or> k \<in> set (cs_giving_up s)"
  by (simp add: pending_is_awake_def)

lemma pending_is_awake_step:
  "cooldown_step s t \<Longrightarrow> pending_is_last s \<Longrightarrow> pending_is_awake s \<Longrightarrow> pending_is_awake t"
proof (induction rule: cooldown_step.induct)
  case (recorded w s wake q)
  show ?case
  proof (rule pending_is_awakeI, goal_cases)
    case (1 k)
    with recorded(1) pending_is_awakeD [OF recorded(3), of k] insert_wake [OF recorded(1)] show ?case
      by (cases "k = cw_account w") (auto simp: awake_def insert_get split: if_splits)
  qed
next
  case (finished s w again q)
  show ?case
  proof (rule pending_is_awakeI, goal_cases)
    case (1 k)
    with finished(1,2) pending_is_awakeD [OF finished(4), of k] finish_again [OF finished(2)] show ?case
      by (cases "k = cw_account w") (auto simp: awake_def finish_get split: if_splits)
  qed
next
  case (looked_up s k)
  then show ?case
    by (auto simp: pending_is_awake_def pending_is_last_def pending_cooldown_def awake_def split: option.splits)
next
  case (woken k s)
  then show ?case by (auto simp: pending_is_awake_def awake_def dest: remove1_other)
next
  case (unwoken k s)
  then show ?case by (auto simp: pending_is_awake_def awake_def dest: remove1_other)
next
  case (dropped k s)
  then show ?case by (auto simp: pending_is_awake_def awake_def dest: remove1_other)
next
  case (flushing s t)
  then show ?case by cases (auto simp: pending_is_awake_def awake_def finish_snd split: if_splits)
qed (auto simp: pending_is_awake_def awake_def)

lemma last_is_keptI:
  "(\<And>k w. cs_last s k = Some w \<Longrightarrow> cw_account w = k \<and>
     (tbl_get (cq_pending (cs_queue s)) k = Some w \<or> covered (cs_rows s) w \<or> k \<in> cs_dropped s)) \<Longrightarrow> last_is_kept s"
  by (simp add: last_is_kept_def)

lemma last_is_keptD:
  "last_is_kept s \<Longrightarrow> cs_last s k = Some w \<Longrightarrow> cw_account w = k \<and>
     (tbl_get (cq_pending (cs_queue s)) k = Some w \<or> covered (cs_rows s) w \<or> k \<in> cs_dropped s)"
  by (simp add: last_is_kept_def)

lemma last_is_kept_flush: "flush_step s t \<Longrightarrow> stored_is_covered s \<Longrightarrow> last_is_kept s \<Longrightarrow> last_is_kept t"
proof (induction rule: flush_step.induct)
  case (flush_finished s w)
  show ?case
  proof (rule last_is_keptI, goal_cases)
    case (1 k v)
    have "covered (cs_rows s) w" using flush_finished(1,2) by (simp add: stored_is_covered_def)
    moreover have "cs_last s k = Some v" using 1 by simp
    from last_is_keptD [OF flush_finished(3) this] have "cw_account v = k \<and> (tbl_get (cq_pending (cs_queue s)) k = Some v \<or>
        covered (cs_rows s) v \<or> k \<in> cs_dropped s)" .
    ultimately show ?case using finish_snd(2) [of w "cs_queue s" k] by (cases "v = w") auto
  qed
qed (auto simp: last_is_kept_def)

lemma last_is_kept_step:
  "cooldown_step s t \<Longrightarrow> stored_is_covered s \<Longrightarrow> last_is_kept s \<Longrightarrow> last_is_kept t"
proof (induction rule: cooldown_step.induct)
  case (recorded w s wake q)
  then show ?case by (auto simp: last_is_kept_def insert_get)
next
  case (dropped k s)
  show ?case
  proof (rule last_is_keptI, goal_cases)
    case (1 x w)
    with last_is_keptD [OF dropped(3), of x w] show ?case
      by (auto simp: pending_cooldown_def split: if_splits)
  qed
next
  case (finished s w again q)
  show ?case
  proof (rule last_is_keptI, goal_cases)
    case (1 k v)
    have "covered (cs_rows s) w" using finished(1,3) by (simp add: stored_is_covered_def)
    moreover have "cs_last s k = Some v" using 1 by simp
    from last_is_keptD [OF finished(4) this] have "cw_account v = k \<and> (tbl_get (cq_pending (cs_queue s)) k = Some v \<or>
        covered (cs_rows s) v \<or> k \<in> cs_dropped s)" .
    ultimately show ?case using finish_get(2) [OF finished(2), of k] by (cases "v = w") auto
  qed
next
  case (flushing s t)
  then show ?case by (rule last_is_kept_flush)
qed (auto simp: last_is_kept_def)

lemma served_is_kept_step: "cooldown_step s t \<Longrightarrow> served_is_kept s \<Longrightarrow> served_is_kept t"
  by (induction rule: cooldown_step.induct) (auto simp: served_is_kept_def elim!: flush_step.cases split: if_splits)

lemma cooldown_inv:
  "cooldown_reachable s \<Longrightarrow> pending_is_last s \<and> stored_is_covered s \<and> pending_is_awake s \<and>
     last_is_kept s \<and> served_is_kept s"
proof (induction rule: cooldown_reachable.induct)
  case start
  then show ?case
    by (simp add: cooldown_start_def pending_is_last_def stored_is_covered_def pending_is_awake_def
        last_is_kept_def served_is_kept_def)
next
  case (step s t)
  then show ?case
    using pending_is_last_step stored_is_covered_step pending_is_awake_step last_is_kept_step served_is_kept_step
    by blast
qed

text \<open>
  C7: No cooldown is lost while the worker runs. Between recorded cooldowns, their wakeups, the
  worker's reads, stores, failures and finishes, the flush's snapshot, stores and finishes, and the
  direct stores, in any order, the last cooldown recorded for an account is in one of three places:
  the stored row reaches its deadline; or it is pending, and then, unless the worker is gone, a
  wakeup for its account is on its way, in the channel or with the worker, or a caller that found no
  worker is about to take it out; or it was taken out for want of a worker. The last two cases
  need a write recorded while no worker was registered, or a worker that has ended: with a running
  worker that was registered before the first cooldown nothing is ever taken out. Once no worker
  runs, a pending write waits for the flush and a new one is taken out again. The claim is about
  rows that no account deletion removes.
\<close>

theorem no_cooldown_lost:
  assumes "cooldown_reachable s" and "cs_last s k = Some w"
  shows "(covered (cs_rows s) w \<or>
      pending_cooldown k (cs_queue s) = Some w \<and> (cs_tx s = Some False \<or> awake s k \<or> k \<in> set (cs_giving_up s)) \<or>
      k \<in> cs_dropped s) \<and>
    (cs_tx s = Some True \<and> \<not> cs_unserved s \<longrightarrow>
      covered (cs_rows s) w \<or> pending_cooldown k (cs_queue s) = Some w \<and> awake s k)"
proof -
  note inv = cooldown_inv [OF assms(1)]
  have kept: "covered (cs_rows s) w \<or> pending_cooldown k (cs_queue s) = Some w \<or> k \<in> cs_dropped s"
    using inv assms(2) unfolding last_is_kept_def pending_cooldown_def by blast
  moreover have awake: "pending_cooldown k (cs_queue s) = Some w \<longrightarrow>
      cs_tx s = Some False \<or> awake s k \<or> k \<in> set (cs_giving_up s)"
    using inv unfolding pending_is_awake_def pending_cooldown_def by auto
  moreover have "cs_tx s = Some True \<and> \<not> cs_unserved s \<longrightarrow> cs_giving_up s = [] \<and> cs_dropped s = {}"
    using inv by (simp add: served_is_kept_def)
  ultimately show ?thesis by fastforce
qed

text \<open>A cooldown is recorded while its predecessor is with the worker, which goes on to finish.\<close>

theorem no_cooldown_lost_witness:
  "\<exists>s. cooldown_reachable s \<and> cs_rows s = [(''a'', \<lparr>cr_until = 40, cr_reason = ''quota'', cr_updated_at = 1\<rparr>)]
     \<and> awake s ''a''"
proof -
  let ?w = "\<lparr>cw_account = ''a'', cw_until = 40, cw_reason = ''quota'', cw_updated_at = 1\<rparr>"
  let ?v = "\<lparr>cw_account = ''a'', cw_until = 50, cw_reason = ''quota'', cw_updated_at = 2\<rparr>"
  let ?s = "\<lambda>pending channel waking worker rows v. \<lparr>cs_queue = \<lparr>cq_pending = pending, cq_channel = channel\<rparr>,
     cs_tx = Some True, cs_waking = waking, cs_giving_up = [], cs_worker = worker, cs_flush = [],
     cs_flushed = None, cs_rows = rows, cs_last = v, cs_dropped = {}, cs_unserved = False\<rparr>"
  let ?row = "[(''a'', \<lparr>cr_until = 40, cr_reason = ''quota'', cr_updated_at = 1\<rparr>)]"
  have "cooldown_reachable (?s [] [] [] Waiting [] (\<lambda>_. None))"
    using step [OF start registered] by (simp add: cooldown_start_def)
  from step [OF this recorded [of ?w]]
  have "cooldown_reachable (?s [(''a'', ?w)] [] [''a''] Waiting [] [''a'' \<mapsto> ?w])"
    by (simp add: insert_cooldown_def)
  from step [OF this woken [of "''a''"]]
  have "cooldown_reachable (?s [(''a'', ?w)] [''a''] [] Waiting [] [''a'' \<mapsto> ?w])"
    by (simp add: send_wakeup_def)
  from step [OF this received] have "cooldown_reachable (?s [(''a'', ?w)] [] [] (Received ''a'') [] [''a'' \<mapsto> ?w])"
    by simp
  from step [OF this looked_up] have "cooldown_reachable (?s [(''a'', ?w)] [] [] (Writing ?w) [] [''a'' \<mapsto> ?w])"
    by (simp add: pending_cooldown_def)
  from step [OF this recorded [where should_wake = False and w = ?v]]
  have "cooldown_reachable (?s [(''a'', ?v)] [] [] (Writing ?w) [] [''a'' \<mapsto> ?v])"
    by (simp add: insert_cooldown_def)
  from step [OF this stored] have "cooldown_reachable (?s [(''a'', ?v)] [] [] (Stored ?w) ?row [''a'' \<mapsto> ?v])"
    by (simp add: upsert_cooldown_def)
  from step [OF this finished [where w = ?w and again = True]]
  have "cooldown_reachable (?s [(''a'', ?v)] [] [] (Resending ''a'') ?row [''a'' \<mapsto> ?v])"
    by (simp add: finish_cooldown_persist_def Let_def is_some_and_def)
  with no_cooldown_lost [OF this, of "''a''" ?v] show ?thesis by (intro exI) (auto simp: covered_def)
qed

text \<open>Without a worker, a caller takes out what another has just recorded.\<close>

lemma dropped_without_worker:
  "\<exists>s. cooldown_reachable s \<and> cs_last s ''a'' \<noteq> None \<and> ''a'' \<in> cs_dropped s \<and> cq_pending (cs_queue s) = []"
proof -
  let ?w = "\<lparr>cw_account = ''a'', cw_until = 40, cw_reason = ''quota'', cw_updated_at = 1\<rparr>"
  let ?s = "\<lambda>pending waking giving_up gone. \<lparr>cs_queue = \<lparr>cq_pending = pending, cq_channel = []\<rparr>,
     cs_tx = None, cs_waking = waking, cs_giving_up = giving_up, cs_worker = Waiting, cs_flush = [],
     cs_flushed = None, cs_rows = [], cs_last = [''a'' \<mapsto> ?w], cs_dropped = gone, cs_unserved = True\<rparr>"
  have "cooldown_reachable (?s [(''a'', ?w)] [''a''] [] {})"
    using step [OF start recorded [of ?w]] by (simp add: cooldown_start_def insert_cooldown_def)
  from step [OF this unwoken [of "''a''"]] have "cooldown_reachable (?s [(''a'', ?w)] [] [''a''] {})" by simp
  from step [OF this dropped [of "''a''"]] have "cooldown_reachable (?s [] [] [] {''a''})"
    by (simp add: take_back_def pending_cooldown_def)
  then show ?thesis by (intro exI) auto
qed

section \<open>Usage refreshes\<close>

text \<open>
  The value of a pending key says whether another signal arrived while its refresh was outstanding.
\<close>

record refresh_queue =
  rq_pending :: "(account_id, bool) table"
  rq_channel :: "account_id list"
  rq_coalesced :: u64

definition request_usage_refresh :: "bool option \<Rightarrow> account_id \<Rightarrow> refresh_queue \<Rightarrow> refresh_queue" where
  "request_usage_refresh tx k q =
     (case tbl_get (rq_pending q) k of
        Some dirty \<Rightarrow> q\<lparr>rq_pending := tbl_put (rq_pending q) k True, rq_coalesced := rq_coalesced q + 1\<rparr>
      | None \<Rightarrow>
          let q1 = q\<lparr>rq_pending := tbl_put (rq_pending q) k False\<rparr> in
          case tx of
            Some True \<Rightarrow> q1\<lparr>rq_channel := rq_channel q1 @ [k]\<rparr>
          | _ \<Rightarrow> q1\<lparr>rq_pending := tbl_del (rq_pending q1) k\<rparr>)"

definition finish_usage_refresh :: "account_id \<Rightarrow> refresh_queue \<Rightarrow> bool \<times> refresh_queue" where
  "finish_usage_refresh k q =
     (case tbl_get (rq_pending q) k of
        Some True \<Rightarrow> (True, q\<lparr>rq_pending := tbl_put (rq_pending q) k False\<rparr>)
      | Some False \<Rightarrow> (False, q\<lparr>rq_pending := tbl_del (rq_pending q) k\<rparr>)
      | None \<Rightarrow> (False, q))"

text \<open>
  The worker receives a batch, and for each account of it repeats the refresh while
  \<open>finish_usage_refresh\<close> asks for another pass. \<open>rf_owed\<close> records, for the property, that a signal
  arrived and no pass for the account has begun since.
\<close>

record refresh_system =
  rf_queue :: refresh_queue
  rf_batch :: "account_id list"
  rf_running :: "account_id option"
  rf_owed :: "account_id set"

inductive refresh_step :: "refresh_system \<Rightarrow> refresh_system \<Rightarrow> bool" where
  request: "refresh_step s (s\<lparr>rf_queue := request_usage_refresh (Some True) k (rf_queue s),
              rf_owed := insert k (rf_owed s)\<rparr>)"
| batch: "rf_running s = None \<Longrightarrow> rf_batch s = [] \<Longrightarrow> rq_channel (rf_queue s) = ks @ rest \<Longrightarrow> ks \<noteq> [] \<Longrightarrow>
     refresh_step s (s\<lparr>rf_queue := (rf_queue s)\<lparr>rq_channel := rest\<rparr>, rf_batch := remdups ks\<rparr>)"
| pass: "rf_running s = None \<Longrightarrow> rf_batch s = k # ks \<Longrightarrow>
     refresh_step s (s\<lparr>rf_batch := ks, rf_running := Some k, rf_owed := rf_owed s - {k}\<rparr>)"
| again: "rf_running s = Some k \<Longrightarrow> finish_usage_refresh k (rf_queue s) = (True, q) \<Longrightarrow>
     refresh_step s (s\<lparr>rf_queue := q, rf_owed := rf_owed s - {k}\<rparr>)"
| finished: "rf_running s = Some k \<Longrightarrow> finish_usage_refresh k (rf_queue s) = (False, q) \<Longrightarrow>
     refresh_step s (s\<lparr>rf_queue := q, rf_running := None\<rparr>)"

definition refresh_start :: refresh_system where
  "refresh_start = \<lparr>rf_queue = \<lparr>rq_pending = [], rq_channel = [], rq_coalesced = 0\<rparr>, rf_batch = [],
     rf_running = None, rf_owed = {}\<rparr>"

inductive refresh_reachable :: "refresh_system \<Rightarrow> bool" where
  refresh_init: "refresh_reachable refresh_start"
| refresh_next: "refresh_reachable s \<Longrightarrow> refresh_step s t \<Longrightarrow> refresh_reachable t"

definition scheduled :: "refresh_system \<Rightarrow> account_id \<Rightarrow> bool" where
  "scheduled s k \<longleftrightarrow> k \<in> set (rq_channel (rf_queue s)) \<or> k \<in> set (rf_batch s)"

definition refresh_inv :: "refresh_system \<Rightarrow> bool" where
  "refresh_inv s \<longleftrightarrow>
     (\<forall>k. tbl_get (rq_pending (rf_queue s)) k \<noteq> None \<longrightarrow> scheduled s k \<or> rf_running s = Some k) \<and>
     (\<forall>k \<in> rf_owed s. scheduled s k \<or> rf_running s = Some k \<and> tbl_get (rq_pending (rf_queue s)) k = Some True)"

lemma request_get:
  "tbl_get (rq_pending (request_usage_refresh (Some True) k q)) x =
     (if x = k then Some (tbl_get (rq_pending q) k \<noteq> None) else tbl_get (rq_pending q) x)"
  "set (rq_channel (request_usage_refresh (Some True) k q)) =
     set (rq_channel q) \<union> (if tbl_get (rq_pending q) k = None then {k} else {})"
  by (auto simp: request_usage_refresh_def Let_def tbl_simps split: option.split)

lemma finish_refresh_get:
  assumes "finish_usage_refresh k q = (b, q')"
  shows "rq_channel q' = rq_channel q"
    and "b \<longleftrightarrow> tbl_get (rq_pending q) k = Some True"
    and "x \<noteq> k \<Longrightarrow> tbl_get (rq_pending q') x = tbl_get (rq_pending q) x"
    and "\<not> b \<Longrightarrow> tbl_get (rq_pending q') k = None"
  using assms by (auto simp: finish_usage_refresh_def tbl_simps split: option.splits bool.splits)

lemma refresh_inv_step: "refresh_step s t \<Longrightarrow> refresh_inv s \<Longrightarrow> refresh_inv t"
proof (induction rule: refresh_step.induct)
  case (request s k)
  then show ?case by (auto simp: refresh_inv_def scheduled_def request_get)
next
  case (batch s ks rest)
  then show ?case by (auto simp: refresh_inv_def scheduled_def)
next
  case (pass s k ks)
  then show ?case by (auto simp: refresh_inv_def scheduled_def)
next
  case (again s k q)
  note fin = finish_refresh_get [OF again(2)]
  show ?case unfolding refresh_inv_def
  proof (intro conjI allI ballI impI)
    let ?t = "s\<lparr>rf_queue := q, rf_owed := rf_owed s - {k}\<rparr>"
    fix x
    { assume "tbl_get (rq_pending (rf_queue ?t)) x \<noteq> None"
      then show "scheduled ?t x \<or> rf_running ?t = Some x"
        using again(1,3) fin(1,3) by (cases "x = k") (auto simp: refresh_inv_def scheduled_def) }
    assume "x \<in> rf_owed ?t"
    then show "scheduled ?t x \<or> rf_running ?t = Some x \<and> tbl_get (rq_pending (rf_queue ?t)) x = Some True"
      using again(1,3) fin(1,3) by (cases "x = k") (auto simp: refresh_inv_def scheduled_def)
  qed
next
  case (finished s k q)
  note fin = finish_refresh_get [OF finished(2)]
  show ?case unfolding refresh_inv_def
  proof (intro conjI allI ballI impI)
    let ?t = "s\<lparr>rf_queue := q, rf_running := None\<rparr>"
    fix x
    { assume "tbl_get (rq_pending (rf_queue ?t)) x \<noteq> None"
      then show "scheduled ?t x \<or> rf_running ?t = Some x"
        using finished(1,3) fin(1,3,4) by (cases "x = k") (auto simp: refresh_inv_def scheduled_def) }
    assume "x \<in> rf_owed ?t"
    then show "scheduled ?t x \<or> rf_running ?t = Some x \<and> tbl_get (rq_pending (rf_queue ?t)) x = Some True"
      using finished(1,3) fin(1,2) by (cases "x = k") (auto simp: refresh_inv_def scheduled_def)
  qed
qed

lemma refresh_inv: "refresh_reachable s \<Longrightarrow> refresh_inv s"
proof (induction rule: refresh_reachable.induct)
  case refresh_init
  then show ?case by (simp add: refresh_inv_def refresh_start_def)
qed (rule refresh_inv_step)

text \<open>
  No capacity signal is lost by coalescing. As long as no refresh of an account has begun since
  the last signal for it, one is still to come: its id is in the channel or in the worker's batch, or
  its refresh is running and marked for another pass. When the worker is idle with nothing queued,
  every signal has been followed by a refresh that began after it.
\<close>

lemma no_refresh_signal_lost:
  assumes "refresh_reachable s" and "k \<in> rf_owed s"
  shows "scheduled s k \<or> rf_running s = Some k \<and> tbl_get (rq_pending (rf_queue s)) k = Some True"
  using refresh_inv [OF assms(1)] assms(2) unfolding refresh_inv_def by blast

lemma no_refresh_signal_lost_example:
  "''a'' \<in> set (rq_channel (request_usage_refresh (Some True) ''a'' (rf_queue refresh_start)))"
proof -
  have "refresh_reachable (refresh_start\<lparr>rf_queue := request_usage_refresh (Some True) ''a'' (rf_queue refresh_start),
      rf_owed := insert ''a'' (rf_owed refresh_start)\<rparr>)"
    by (rule refresh_next [OF refresh_init request])
  from no_refresh_signal_lost [OF this, of "''a''"] show ?thesis
    by (simp add: scheduled_def refresh_start_def request_usage_refresh_def Let_def)
qed

end
