(* ===== verification/Runtime_States.thy ===== *)
theory Runtime_States
  imports Health_Props Coalescing Selection
begin

text \<open>
  The concurrent map of routing states (\<open>RuntimeStates\<close> in \<open>runtime_state.rs\<close>): \<open>mutate\<close> with its
  garbage collection of neutral entries, the recording methods on top of the per-account updates of
  \<open>Health\<close>, \<open>overlay\<close>, and the gate that established sockets poll. Each method holds the map's lock
  for its whole body, so it is a function on the map.
\<close>

section \<open>The map\<close>

type_synonym states = "(account_id, runtime_state) table"

definition mutate :: "(runtime_state \<Rightarrow> runtime_state \<times> 'r) \<Rightarrow> account_id \<Rightarrow> states \<Rightarrow> states \<times> 'r" where
  "mutate f k m =
     (let (rt, out) = f (unwrap_or (tbl_get m k) neutral); m1 = tbl_put m k rt
      in (if is_neutral rt then tbl_del m1 k else m1, out))"

text \<open>What a reader sees for an account: its entry, or the neutral state when there is none.\<close>

definition state_of :: "states \<Rightarrow> account_id \<Rightarrow> runtime_state" where
  "state_of m k = unwrap_or (tbl_get m k) neutral"

definition states_ok :: "states \<Rightarrow> bool" where
  "states_ok m \<longleftrightarrow> tbl_ok m \<and> (\<forall>k rt. tbl_get m k = Some rt \<longrightarrow> \<not> is_neutral rt)"

lemma mutate_get:
  "tbl_get (fst (mutate f k m)) x =
     (if x = k then opt_filter (\<lambda>rt. \<not> is_neutral rt) (Some (fst (f (state_of m k)))) else tbl_get m x)"
  by (simp add: mutate_def state_of_def Let_def case_prod_beta tbl_simps)

lemma state_of_mutate:
  "state_of (fst (mutate f k m)) x = (if x = k then fst (f (state_of m k)) else state_of m x)"
  unfolding state_of_def mutate_get by (simp add: is_neutral_def state_of_def)

lemma snd_mutate: "snd (mutate f k m) = snd (f (state_of m k))"
  by (simp add: mutate_def state_of_def Let_def case_prod_beta)

lemma states_ok_mutate: "states_ok m \<Longrightarrow> states_ok (fst (mutate f k m))"
proof -
  assume ok: "states_ok m"
  have "tbl_ok (fst (mutate f k m))"
    using tbl.ok_upsert [of m "\<lambda>rt. \<not> is_neutral rt" "fst (f (state_of m k))" k] ok
    by (simp add: states_ok_def mutate_def state_of_def Let_def case_prod_beta if_distrib split: if_splits)
  moreover have "\<not> is_neutral rt" if "tbl_get (fst (mutate f k m)) x = Some rt" for x rt
    using that ok unfolding mutate_get states_ok_def by (simp split: if_splits)
  ultimately show ?thesis unfolding states_ok_def by blast
qed

section \<open>Recording\<close>

text \<open>\<open>record_rate_limit\<close> and \<open>record_quota_exceeded\<close> also hand the cooldown to the durable queue.\<close>

definition record_rate_limit ::
  "bool option \<Rightarrow> account_id \<Rightarrow> i64 option \<Rightarrow> i64 \<Rightarrow> states \<times> cooldown_queue \<Rightarrow>
   (states \<times> cooldown_queue) \<times> tier_transition option" where
  "record_rate_limit tx k retry_after now mq =
     (let (m, (t, cooldown)) = mutate (rt_rate_limit retry_after now) k (fst mq)
      in ((m, persist_cooldown tx \<lparr>cw_account = k, cw_until = cooldown, cw_reason = ''rate_limit'',
                cw_updated_at = now\<rparr> (snd mq)), t))"

definition record_quota_exceeded ::
  "bool option \<Rightarrow> account_id \<Rightarrow> i64 \<Rightarrow> states \<times> cooldown_queue \<Rightarrow> states \<times> cooldown_queue" where
  "record_quota_exceeded tx k now mq =
     (let (m, cooldown) = mutate (rt_quota_exceeded now) k (fst mq)
      in (m, persist_cooldown tx \<lparr>cw_account = k, cw_until = cooldown, cw_reason = ''quota'',
                cw_updated_at = now\<rparr> (snd mq)))"

definition record_transient_error :: "account_id \<Rightarrow> i64 \<Rightarrow> states \<Rightarrow> states \<times> tier_transition option" where
  "record_transient_error k now m = mutate (rt_transient_error now) k m"

definition record_outcome :: "account_id \<Rightarrow> i64 \<Rightarrow> bool \<Rightarrow> states \<Rightarrow> states" where
  "record_outcome k now success m = fst (mutate (\<lambda>rt. (rt_outcome now success rt, ())) k m)"

definition record_burst_rejection :: "account_id \<Rightarrow> i64 \<Rightarrow> i64 option \<Rightarrow> states \<Rightarrow> states \<times> i64" where
  "record_burst_rejection k now retry_after m = mutate (rt_burst_rejection now retry_after) k m"

definition record_overload_rejection ::
  "account_id \<Rightarrow> i64 \<Rightarrow> bool \<Rightarrow> i64 \<Rightarrow> states \<Rightarrow> states \<times> overload_trip option" where
  "record_overload_rejection k now soft isolation_secs m =
     mutate (rt_overload_rejection now soft isolation_secs) k m"

definition record_success :: "account_id \<Rightarrow> i64 \<Rightarrow> i64 \<Rightarrow> states \<Rightarrow> states \<times> tier_transition option" where
  "record_success k bucket_now now m = mutate (rt_success bucket_now now) k m"

definition evaluate_with_usage ::
  "account_id \<Rightarrow> f64 option \<Rightarrow> f64 option \<Rightarrow> bool \<Rightarrow> bool \<Rightarrow> i64 \<Rightarrow> states \<Rightarrow> states \<times> tier_transition option" where
  "evaluate_with_usage k used secondary frozen enabled now m =
     mutate (rt_evaluate_with_usage used secondary frozen enabled now) k m"

definition record_selected :: "account_id \<Rightarrow> i64 \<Rightarrow> states \<Rightarrow> states" where
  "record_selected k now m = fst (mutate (\<lambda>rt. (rt_selected now rt, ())) k m)"

definition recently_refused_for_capacity :: "account_id \<Rightarrow> i64 \<Rightarrow> i64 \<Rightarrow> states \<Rightarrow> states \<times> bool" where
  "recently_refused_for_capacity k now secs m =
     mutate (\<lambda>rt. (rt, rt_recently_refused now secs rt)) k m"

section \<open>Overlay\<close>

definition active_until :: "i64 \<Rightarrow> i64 option \<Rightarrow> i64 option" where
  "active_until now x = opt_filter (\<lambda>u. now < u) x"

definition overlay_snapshot :: "states \<Rightarrow> i64 \<Rightarrow> account_snapshot \<Rightarrow> account_snapshot" where
  "overlay_snapshot m now s =
     (case tbl_get m (snap_id s) of None \<Rightarrow> s
      | Some rt \<Rightarrow> s\<lparr>
          snap_error_count := rt_error_count rt,
          snap_last_error_at := rt_last_error_at rt,
          snap_cooldown_until := later_of (snap_cooldown_until s) (active_until now (rt_cooldown_until rt)),
          snap_last_selected_at := rt_last_selected_at rt,
          snap_health_tier := rt_health_tier rt,
          snap_in_flight := rt_in_flight rt,
          snap_in_flight_pressure := rt_in_flight_pressure rt,
          snap_open_ws := rt_open_ws rt,
          snap_selection_weight_multiplier := error_rate_weight_multiplier rt now,
          snap_overload_backoff_until := later_of (active_until now (rt_overload_backoff_until rt))
             (active_until now (rt_burst_backoff_until rt)),
          snap_overload_isolated_until := active_until now (rt_overload_isolated_until rt)\<rparr>)"

definition overlay :: "states \<Rightarrow> i64 \<Rightarrow> account_snapshot list \<Rightarrow> account_snapshot list" where
  "overlay m now snapshots = map (overlay_snapshot m now) snapshots"

section \<open>The gate for established sockets\<close>

definition gated_statuses :: "string list" where
  "gated_statuses = [''quota_exceeded'', ''rate_limited'', ''paused'', ''deactivated'', ''reauth_required'']"

text \<open>The flag says whether the waiters of \<open>account_gate_changed\<close> are woken.\<close>

definition note_account_status_with_reset ::
  "string \<Rightarrow> string \<Rightarrow> i64 option \<Rightarrow> (string, i64 option) table \<Rightarrow> (string, i64 option) table \<times> bool" where
  "note_account_status_with_reset k status reset_at g =
     (if status \<in> set gated_statuses then (tbl_put g k reset_at, tbl_get g k = None)
      else (tbl_del g k, False))"

definition note_account_status ::
  "string \<Rightarrow> string \<Rightarrow> (string, i64 option) table \<Rightarrow> (string, i64 option) table \<times> bool" where
  "note_account_status k status g = note_account_status_with_reset k status None g"

definition is_account_gated :: "string \<Rightarrow> i64 \<Rightarrow> (string, i64 option) table \<Rightarrow> bool" where
  "is_account_gated k now g =
     (case tbl_get g k of None \<Rightarrow> False | Some None \<Rightarrow> True | Some (Some reset_at) \<Rightarrow> now < reset_at)"

section \<open>The collector is invisible\<close>

text \<open>
  The reference for \<open>mutate\<close> keeps every entry it ever made; \<open>run_calls\<close> makes a sequence of calls,
  any closures on any accounts, and collects what they return.
\<close>

definition mutate_keeping :: "(runtime_state \<Rightarrow> runtime_state \<times> 'r) \<Rightarrow> account_id \<Rightarrow> states \<Rightarrow> states \<times> 'r" where
  "mutate_keeping f k m = (let (rt, out) = f (unwrap_or (tbl_get m k) neutral) in (tbl_put m k rt, out))"

fun run_calls ::
  "((runtime_state \<Rightarrow> runtime_state \<times> 'r) \<Rightarrow> account_id \<Rightarrow> states \<Rightarrow> states \<times> 'r) \<Rightarrow>
   (account_id \<times> (runtime_state \<Rightarrow> runtime_state \<times> 'r)) list \<Rightarrow> states \<Rightarrow> states \<times> 'r list" where
  "run_calls step [] m = (m, [])"
| "run_calls step ((k, f) # calls) m =
     (let (m1, out) = step f k m; (m2, outs) = run_calls step calls m1 in (m2, out # outs))"

text \<open>
  The snapshots \<open>overlay\<close> is given: built by \<open>AccountSnapshot::new\<close> and filled from the store, which
  knows a cooldown but none of the other runtime fields.
\<close>

definition stored_snapshot :: "account_snapshot \<Rightarrow> bool" where
  "stored_snapshot s \<longleftrightarrow>
     snap_error_count s = 0 \<and> snap_last_error_at s = None \<and> snap_last_selected_at s = None \<and>
     snap_health_tier s = 0 \<and> snap_in_flight s = 0 \<and> snap_in_flight_pressure s = 0 \<and> snap_open_ws s = 0 \<and>
     snap_selection_weight_multiplier s = F_Num 1 \<and> snap_overload_backoff_until s = None \<and>
     snap_overload_isolated_until s = None"

lemma stored_new_snapshot [simp]: "stored_snapshot (new_snapshot i)"
  by (simp add: stored_snapshot_def new_snapshot_def)

lemma overlay_neutral:
  assumes "stored_snapshot s" and "tbl_get m (snap_id s) = Some neutral"
  shows "overlay_snapshot m now s = s"
  using assms
  by (cases s) (simp add: overlay_snapshot_def stored_snapshot_def neutral_def active_until_def opt_filter_def
      error_rate_weight_multiplier_def outcome_sums_def)

text \<open>An entry, or the neutral state in its place, is all the overlay depends on.\<close>

lemma overlay_state_of:
  assumes "stored_snapshot s" and "state_of m (snap_id s) = state_of m' (snap_id s)"
  shows "overlay_snapshot m now s = overlay_snapshot m' now s"
proof -
  have read: "overlay_snapshot m now s = overlay_snapshot [(snap_id s, state_of m (snap_id s))] now s" for m
  proof (cases "tbl_get m (snap_id s)")
    case None
    then have "overlay_snapshot m now s = s" by (simp add: overlay_snapshot_def)
    also have "\<dots> = overlay_snapshot [(snap_id s, neutral)] now s"
      using overlay_neutral [OF assms(1), of "[(snap_id s, neutral)]" now] by simp
    finally show ?thesis using None by (simp add: state_of_def)
  next
    case (Some rt)
    then show ?thesis by (simp add: overlay_snapshot_def state_of_def)
  qed
  show ?thesis using read [of m] read [of m'] assms(2) by simp
qed

lemma mutate_keeping_refined:
  assumes "state_of m = state_of m'"
  shows "snd (mutate f k m) = snd (mutate_keeping f k m')"
    and "state_of (fst (mutate f k m)) = state_of (fst (mutate_keeping f k m'))"
proof -
  show "snd (mutate f k m) = snd (mutate_keeping f k m')"
    using fun_cong [OF assms, of k]
    by (simp add: snd_mutate mutate_keeping_def case_prod_beta state_of_def)
  show "state_of (fst (mutate f k m)) = state_of (fst (mutate_keeping f k m'))"
  proof (rule ext)
    fix x
    show "state_of (fst (mutate f k m)) x = state_of (fst (mutate_keeping f k m')) x"
      unfolding state_of_mutate fun_cong [OF assms, of k] fun_cong [OF assms, of x]
      by (simp add: mutate_keeping_def case_prod_beta state_of_def tbl_simps)
  qed
qed

lemma run_calls_refined:
  assumes "state_of m = state_of m'" and "states_ok m"
  shows "snd (run_calls mutate calls m) = snd (run_calls mutate_keeping calls m') \<and>
     state_of (fst (run_calls mutate calls m)) = state_of (fst (run_calls mutate_keeping calls m')) \<and>
     states_ok (fst (run_calls mutate calls m))"
  using assms
proof (induction calls arbitrary: m m')
  case (Cons c calls)
  obtain k f where c: "c = (k, f)" by (cases c)
  note step = mutate_keeping_refined [OF Cons.prems(1), of f k]
  from Cons.IH [OF step(2) states_ok_mutate [OF Cons.prems(2)]] step(1)
  show ?case by (simp add: c case_prod_beta)
qed simp

text \<open>
  C18: dropping neutral entries is a refinement that the selector cannot see. Make any sequence of
  calls of \<open>mutate\<close>, on any accounts and with any closures, once with the collector and once without
  it. Every call returns the same, and \<open>overlay\<close> makes the same of any snapshots from the store, at
  any time: an account whose entry was dropped is offered to the selector with the fields it
  would have had. And with the collector the map holds no entry without a signal and no key twice.
\<close>

theorem mutate_gc_transparent:
  assumes "states_ok m" and "\<forall>s \<in> set snapshots. stored_snapshot s"
    and "run_calls mutate calls m = (m1, outs1)" and "run_calls mutate_keeping calls m = (m2, outs2)"
  shows "outs1 = outs2 \<and> overlay m1 now snapshots = overlay m2 now snapshots \<and>
    tbl_ok m1 \<and> (\<forall>(k, rt) \<in> set m1. \<not> is_neutral rt)"
proof -
  have ok: "outs1 = outs2" "state_of m1 = state_of m2" "states_ok m1"
    using run_calls_refined [OF refl assms(1), of calls] assms(3,4) by simp_all
  then have "overlay m1 now snapshots = overlay m2 now snapshots"
    using assms(2) unfolding overlay_def by (intro map_cong overlay_state_of) auto
  moreover have "\<not> is_neutral rt" if "(k, rt) \<in> set m1" for k rt
    using that ok(3) by (auto simp: states_ok_def tbl_ok_def)
  ultimately show ?thesis using ok by (auto simp: states_ok_def)
qed

text \<open>A lease taken and given back leaves no entry, and the selector sees the account as new.\<close>

theorem mutate_gc_transparent_witness:
  "overlay [] 9 [new_snapshot ''a''] = overlay [(''a'', neutral)] 9 [new_snapshot ''a'']"
proof -
  let ?calls = "[(''a'', \<lambda>rt. (rt_acquire 1 rt, ())), (''a'', \<lambda>rt. (rt_release 1 rt, ()))]"
  have "run_calls mutate ?calls [] = ([], [(), ()])" "run_calls mutate_keeping ?calls [] = ([(''a'', neutral)], [(), ()])"
    by (simp_all add: mutate_def mutate_keeping_def rt_acquire_def rt_release_def neutral_def is_neutral_def Let_def
        add_u32_def u32_max_def)
  from mutate_gc_transparent [OF _ _ this, of "[new_snapshot ''a'']" 9] show ?thesis
    by (simp add: states_ok_def tbl_ok_def)
qed

section \<open>Properties\<close>

lemma overlay_neutral_fields:
  "snap_id (overlay_snapshot m now s) = snap_id s" "snap_status (overlay_snapshot m now s) = snap_status s"
  "snap_reset_at (overlay_snapshot m now s) = snap_reset_at s"
  "snap_used_percent (overlay_snapshot m now s) = snap_used_percent s"
  "snap_secondary_used_percent (overlay_snapshot m now s) = snap_secondary_used_percent s"
  "snap_security_work_authorized (overlay_snapshot m now s) = snap_security_work_authorized s"
  by (simp_all add: overlay_snapshot_def split: option.split)

lemma active_until_Some: "active_until now x = Some u \<longleftrightarrow> x = Some u \<and> now < u"
  by (simp add: active_until_def opt_filter_Some)

lemma later_of_Some:
  "later_of x y = Some u \<Longrightarrow> x = Some u \<or> y = Some u"
  "x = Some a \<Longrightarrow> \<exists>u. later_of x y = Some u \<and> a \<le> u"
  "y = Some a \<Longrightarrow> \<exists>u. later_of x y = Some u \<and> a \<le> u"
  by (cases x; cases y; auto simp: max_def split: if_splits)+

lemma overlay_cooldown:
  assumes "tbl_get m (snap_id s) = Some rt" "rt_cooldown_until rt = Some u" "now < u"
  shows "\<exists>v. snap_cooldown_until (overlay_snapshot m now s) = Some v \<and> u \<le> v"
  using assms by (simp add: overlay_snapshot_def active_until_def later_of_Some(3))

text \<open>
  The overlay hands the selector only deadlines that still count: its cooldown is the durable one
  or an active runtime one and never earlier than either, and an overload or isolation deadline is in
  the future and never earlier than an active burst one. In particular an expired runtime cooldown
  never reaches the gate that would clear the account's error state on every read.
\<close>

lemma overlay_deadlines:
  assumes "tbl_get m (snap_id s) = Some rt"
  shows "let t = overlay_snapshot m now s in
    (\<forall>u. snap_cooldown_until t = Some u \<longrightarrow> snap_cooldown_until s = Some u \<or> rt_cooldown_until rt = Some u \<and> now < u) \<and>
    (\<forall>u. snap_cooldown_until s = Some u \<or> rt_cooldown_until rt = Some u \<and> now < u \<longrightarrow>
       (\<exists>v. snap_cooldown_until t = Some v \<and> u \<le> v)) \<and>
    (\<forall>u. snap_overload_backoff_until t = Some u \<longrightarrow> now < u) \<and>
    (\<forall>u. (rt_overload_backoff_until rt = Some u \<or> rt_burst_backoff_until rt = Some u) \<and> now < u \<longrightarrow>
       (\<exists>v. snap_overload_backoff_until t = Some v \<and> u \<le> v)) \<and>
    (\<forall>u. snap_overload_isolated_until t = Some u \<longrightarrow> rt_overload_isolated_until rt = Some u \<and> now < u)"
proof -
  define t where "t = overlay_snapshot m now s"
  have t: "snap_cooldown_until t = later_of (snap_cooldown_until s) (active_until now (rt_cooldown_until rt))"
    "snap_overload_backoff_until t = later_of (active_until now (rt_overload_backoff_until rt))
       (active_until now (rt_burst_backoff_until rt))"
    "snap_overload_isolated_until t = active_until now (rt_overload_isolated_until rt)"
    using assms by (simp_all add: overlay_snapshot_def t_def)
  show ?thesis unfolding t_def [symmetric] Let_def t
    by (auto simp: active_until_Some later_of_Some(2,3) dest!: later_of_Some(1))
qed

lemma overlay_deadlines_example:
  "snap_cooldown_until (overlay_snapshot [(''a'', neutral\<lparr>rt_cooldown_until := Some 5\<rparr>)] 7 (new_snapshot ''a'')) = None"
  using overlay_deadlines [of "[(''a'', neutral\<lparr>rt_cooldown_until := Some 5\<rparr>)]" "new_snapshot ''a''" _ 7]
  by (cases "snap_cooldown_until (overlay_snapshot [(''a'', neutral\<lparr>rt_cooldown_until := Some 5\<rparr>)] 7 (new_snapshot ''a''))")
    (auto simp: new_snapshot_def Let_def)

text \<open>
  The gate an established socket polls agrees with the selector. After a status is noted with the
  reset it carries (none for the operator-held and terminal ones), the account is gated at a time
  exactly when the selector's status gates would block a snapshot with that status and reset.
\<close>

lemma gate_agrees_with_selector:
  assumes "snap_status s \<in> {''paused'', ''deactivated'', ''reauth_required''} \<longrightarrow> snap_reset_at s = None"
  shows "is_account_gated k now (fst (note_account_status_with_reset k (snap_status s) (snap_reset_at s) g)) \<longleftrightarrow>
    snap_status s \<in> {''reauth_required'', ''deactivated'', ''paused''} \<or>
    gate_bind (gate_rate_limited s now (initial_candidate s)) (gate_quota_exceeded s now) \<in> range Inl"
  using assms
  by (auto simp: is_account_gated_def note_account_status_with_reset_def gated_statuses_def tbl_simps
      gate_rate_limited_def gate_quota_exceeded_def gate_bind_def split: option.splits)

lemma gate_agrees_with_selector_example:
  "is_account_gated ''a'' 5 (fst (note_account_status_with_reset ''a'' ''rate_limited'' (Some 6) [])) \<and>
   \<not> is_account_gated ''a'' 6 (fst (note_account_status_with_reset ''a'' ''rate_limited'' (Some 6) []))"
  using gate_agrees_with_selector [of "(new_snapshot ''a'')\<lparr>snap_status := ''rate_limited'', snap_reset_at := Some 6\<rparr>" "''a''" 5 "[]"]
    gate_agrees_with_selector [of "(new_snapshot ''a'')\<lparr>snap_status := ''rate_limited'', snap_reset_at := Some 6\<rparr>" "''a''" 6 "[]"]
  by (auto simp: new_snapshot_def gate_rate_limited_def gate_quota_exceeded_def gate_bind_def initial_candidate_def)

end
