(* ===== verification/Watchdog.thy ===== *)
theory Watchdog
  imports Sse Continuity Turn_Budget Runtime_States
begin

text \<open>
  The silence watchdog (\<open>polyflare-server/src/watchdog.rs\<close>): executing a prepared turn, looking at the
  first frames before anything is relayed, recovering from silence, and relaying under observation.
  The executor, parser, printer, SHA-256 and clock are parameters. What the code does to shared
  state, besides spending the turn budget, is a list of effects in the order of the calls;
  \<open>apply_effect\<close> carries each out on the models of those components. Debug traces are left out, and
  so is the in-flight lease, which only rides along until the stream is dropped.
\<close>

section \<open>Types\<close>

datatype watchdog_error =
    Upstream "failure_signal option"
  | UpstreamHttp upstream_http_error
  | ContinuityUnavailable
  | AttemptBudgetExhausted
  | CapabilityRejection string

fun map_executor_error :: "exec_error \<Rightarrow> watchdog_error" where
  "map_executor_error (ExUpstreamHttp response) = UpstreamHttp response"
| "map_executor_error other = Upstream (exec_failure_signal other)"

definition is_transient_capacity_refusal :: "watchdog_error \<Rightarrow> bool" where
  "is_transient_capacity_refusal err =
     (case (case err of Upstream (Some sig) \<Rightarrow> Some sig | UpstreamHttp r \<Rightarrow> Some (uh_signal r) | _ \<Rightarrow> None) of
        None \<Rightarrow> False
      | Some sig \<Rightarrow> (case fs_error_code sig of
            Some code \<Rightarrow> is_capacity_code code
          | None \<Rightarrow> fs_status sig = 503))"

text \<open>\<open>OutcomeKind\<close>: what a completed stream is to be reported as.\<close>

datatype outcome_kind = AsCompleted string u32 "string option" | AsRecovered

fun build_outcome :: "outcome_kind \<Rightarrow> session_key option \<Rightarrow> account_id \<Rightarrow> terminal \<Rightarrow> turn_outcome" where
  "build_outcome kind sk account (Done_ok response_id) =
     (case kind of
        AsCompleted fp n expected \<Rightarrow> Completed sk account response_id fp n expected
      | AsRecovered \<Rightarrow> Recovered sk account response_id)"
| "build_outcome kind sk account _ = Failed sk"

datatype effect =
    FxExecute prepared_request
  | FxObserve turn_outcome
  | FxCommit
  | FxClearTurn
  | FxSuccess
  | FxTransient
  | FxRateLimit
  | FxQuota
  | FxRefresh

section \<open>The observed relay\<close>

record observing =
  ob_inner :: stream
  ob_sniffer :: sniffer
  ob_kind :: outcome_kind
  ob_account :: account_id
  ob_session_key :: "session_key option"
  ob_idle :: nat
  ob_done :: bool

datatype poll = PChunk string | PErr exec_error | PEnd | PPending

text \<open>The next item, under the idle deadline; a deadline of zero is no deadline.\<close>

fun next_item :: "nat \<Rightarrow> stream \<Rightarrow> item option \<times> stream" where
  "next_item idle s =
     (if idle = 0 then (case s of [] \<Rightarrow> (None, [])
        | (_, it) # rest \<Rightarrow> (Some it, if it = Eof then [(0, Eof)] else rest))
      else read_within idle s)"

definition terminal_effects :: "terminal \<Rightarrow> effect list" where
  "terminal_effects t = (case t of
     Done_ok _ \<Rightarrow> [FxSuccess]
   | Done_failed RateLimited \<Rightarrow> [FxRateLimit, FxRefresh]
   | Done_failed QuotaExceeded \<Rightarrow> [FxQuota, FxRefresh]
   | Done_failed RequestFault \<Rightarrow> []
   | Done_failed _ \<Rightarrow> [FxTransient]
   | Pending \<Rightarrow> [FxTransient])"

fun is_done_ok :: "terminal \<Rightarrow> bool" where
  "is_done_ok (Done_ok _) = True"
| "is_done_ok _ = False"

text \<open>\<open>ObservingStream::poll_next\<close>, up to the next answer the consumer gets.\<close>

definition poll_next :: "(string \<Rightarrow> json option) \<Rightarrow> observing \<Rightarrow> poll \<times> effect list \<times> observing" where
  "poll_next parse ob =
     (if ob_done ob then (PEnd, [], ob)
      else (case next_item (ob_idle ob) (ob_inner ob) of
          (Some (Chunk bytes), rest) \<Rightarrow>
            (let pending = (sn_terminal (ob_sniffer ob) = Pending); s' = feed parse bytes (ob_sniffer ob) in
             (PChunk bytes,
              FxCommit # (if pending \<and> is_done_ok (sn_terminal s') then [FxClearTurn] else []),
              ob\<lparr>ob_inner := rest, ob_sniffer := s'\<rparr>))
        | (Some (Fail e), rest) \<Rightarrow> (PErr e, [FxTransient], ob\<lparr>ob_inner := rest, ob_done := True\<rparr>)
        | (Some Eof, rest) \<Rightarrow>
            (let t = finish (ob_sniffer ob) in
             (PEnd, terminal_effects t @ [FxObserve (build_outcome (ob_kind ob) (ob_session_key ob) (ob_account ob) t)],
              ob\<lparr>ob_inner := rest, ob_sniffer := (ob_sniffer ob)\<lparr>sn_terminal := Pending\<rparr>, ob_done := True\<rparr>))
        | (None, rest) \<Rightarrow>
            (if ob_idle ob = 0 then (PPending, [], ob\<lparr>ob_inner := rest\<rparr>)
             else (PErr (ExStream ''upstream idle timeout''), [FxTransient],
                   ob\<lparr>ob_inner := [(0, Eof)], ob_done := True\<rparr>))))"

text \<open>A consumer that asks \<open>n\<close> times and then drops the stream.\<close>

fun poll_times :: "(string \<Rightarrow> json option) \<Rightarrow> nat \<Rightarrow> observing \<Rightarrow> poll list \<times> effect list" where
  "poll_times parse 0 ob = ([], [])"
| "poll_times parse (Suc n) ob =
     (let (p, fx, ob') = poll_next parse ob; (ps, fxs) = poll_times parse n ob' in (p # ps, fx @ fxs))"

section \<open>Executing a turn\<close>

record wd_env =
  we_parse :: "string \<Rightarrow> json option"
  we_print :: "json \<Rightarrow> string"
  we_sha :: "string \<Rightarrow> string"
  we_exec :: "nat \<Rightarrow> prepared_request \<Rightarrow> exec_error + stream"
  we_now :: "nat \<Rightarrow> i64"

datatype watchdog_result = Relayed observing | Signalled | Rejected watchdog_error | Crashed

definition wrap_stream ::
  "stream \<Rightarrow> account_id \<Rightarrow> session_key option \<Rightarrow> outcome_kind \<Rightarrow> nat \<Rightarrow> watchdog_result" where
  "wrap_stream inner account sk kind idle = Relayed \<lparr>ob_inner = inner, ob_sniffer = new_sniffer,
     ob_kind = kind, ob_account = account, ob_session_key = sk, ob_idle = idle, ob_done = False\<rparr>"

definition capacity_signal :: "string \<Rightarrow> failure_signal" where
  "capacity_signal code = \<lparr>fs_status = (if code = ''server_error'' then 500 else 503),
     fs_retry_after = None, fs_error_code = Some code\<rparr>"

definition consume_logical_turn_attempt ::
  "request_ctx \<Rightarrow> u32 \<Rightarrow> i64 \<Rightarrow> registry \<Rightarrow> (watchdog_error + unit) \<times> registry" where
  "consume_logical_turn_attempt ctx max_attempts now reg =
     (let (ok, reg') = try_consume_attempt (rc_logical_turn_key ctx) max_attempts now reg
      in (if ok then Inr () else Inl AttemptBudgetExhausted, reg'))"

definition scan_anchorless_then_wrap ::
  "(string \<Rightarrow> json option) \<Rightarrow> stream \<Rightarrow> account_id \<Rightarrow> session_key option \<Rightarrow> outcome_kind \<Rightarrow> nat
   \<Rightarrow> watchdog_result \<times> effect list" where
  "scan_anchorless_then_wrap parse stream account sk kind idle =
     (if idle = 0 then (wrap_stream stream account sk kind idle, [])
      else (case read_within idle stream of
          (Some (Chunk first), rest) \<Rightarrow>
            (case scan_past_lifecycle parse idle first rest of
               Refused code \<Rightarrow> (Rejected (Upstream (Some (capacity_signal code))), [FxObserve (Failed sk)])
             | Cyber rebuilt \<Rightarrow> (wrap_stream rebuilt account sk kind idle, [])
             | HardError _ rebuilt \<Rightarrow> (wrap_stream rebuilt account sk kind idle, [])
             | Silence rebuilt \<Rightarrow> (wrap_stream rebuilt account sk kind idle, [])
             | Alive rebuilt \<Rightarrow> (wrap_stream rebuilt account sk kind idle, [])
             | Panicked \<Rightarrow> (Crashed, []))
        | (Some (Fail e), rest) \<Rightarrow> (wrap_stream ((0, Fail e) # rest) account sk kind idle, [])
        | (Some Eof, rest) \<Rightarrow> (wrap_stream [(0, Eof)] account sk kind idle, [])
        | (None, rest) \<Rightarrow> (wrap_stream rest account sk kind idle, [])))"

definition execute_recovery_tracked ::
  "wd_env \<Rightarrow> nat \<Rightarrow> prepared_request \<Rightarrow> account_id \<Rightarrow> request_ctx \<Rightarrow> session_key option \<Rightarrow> nat \<Rightarrow> u32
   \<Rightarrow> registry \<Rightarrow> watchdog_result \<times> effect list \<times> registry" where
  "execute_recovery_tracked env call anchorless_req account ctx sk idle max_attempts reg =
     (case consume_logical_turn_attempt ctx max_attempts (we_now env call) reg of
        (Inl err, reg') \<Rightarrow> (Rejected err, [], reg')
      | (Inr _, reg') \<Rightarrow>
          (case we_exec env call anchorless_req of
             Inl e \<Rightarrow> (Rejected (map_executor_error e), [FxExecute anchorless_req], reg')
           | Inr stream \<Rightarrow>
               (let (res, fx) = scan_anchorless_then_wrap (we_parse env) stream account sk AsRecovered idle
                in (res, FxExecute anchorless_req # fx, reg'))))"

text \<open>\<open>signal_client_stream\<close>: the client is told to resend; no upstream call.\<close>

definition signal_client_stream :: "account_id \<Rightarrow> session_key option \<Rightarrow> watchdog_result \<times> effect list" where
  "signal_client_stream account sk = (Signalled, [FxObserve (Recovered sk account None)])"

definition recover_from_silence ::
  "wd_env \<Rightarrow> recovery_plan \<Rightarrow> account_id \<Rightarrow> request_ctx \<Rightarrow> session_key option \<Rightarrow> nat \<Rightarrow> u32 \<Rightarrow> registry
   \<Rightarrow> watchdog_result \<times> effect list \<times> registry" where
  "recover_from_silence env recovery account ctx sk idle max_attempts reg = (case recovery of
     ResendFull anchorless_req \<Rightarrow>
       execute_recovery_tracked env 1 anchorless_req account ctx sk idle max_attempts reg
   | SignalClient \<Rightarrow> (let (res, fx) = signal_client_stream account sk in (res, fx, reg))
   | NoRecovery \<Rightarrow> (Rejected ContinuityUnavailable, [], reg))"

definition execute_with_watchdog_tracked ::
  "wd_env \<Rightarrow> prepared \<Rightarrow> account_id \<Rightarrow> request_ctx \<Rightarrow> nat \<Rightarrow> u32 \<Rightarrow> registry
   \<Rightarrow> watchdog_result \<times> effect list \<times> registry" where
  "execute_with_watchdog_tracked env prepared account ctx idle max_attempts reg =
     (case consume_logical_turn_attempt ctx max_attempts (we_now env 0) reg of
        (Inl err, reg') \<Rightarrow> (Rejected err, [], reg')
      | (Inr _, reg') \<Rightarrow>
       (let req = prep_req prepared; directive = prep_directive prepared;
            sk = dir_session_key directive;
            (fp, n) = input_fingerprint_and_count (we_sha env) (we_print env) req ctx;
            kind = AsCompleted fp n (dir_pin_account directive);
            fx0 = [FxExecute req];
            recover = (\<lambda>_::unit. let (res, fx, reg'') =
                recover_from_silence env (dir_recovery directive) account ctx sk idle max_attempts reg'
              in (res, fx0 @ fx, reg''))
        in case we_exec env 0 req of
             Inl e \<Rightarrow> (Rejected (map_executor_error e), fx0, reg')
           | Inr stream \<Rightarrow>
             (case dir_watchdog directive of
                Disarmed \<Rightarrow>
                  (let (res, fx) = scan_anchorless_then_wrap (we_parse env) stream account sk kind idle
                   in (res, fx0 @ fx, reg'))
              | Armed timeout \<Rightarrow>
                  (case read_within timeout stream of
                     (Some (Chunk first), rest) \<Rightarrow>
                       (case scan_past_lifecycle (we_parse env) timeout first rest of
                          Cyber _ \<Rightarrow> (Rejected (CapabilityRejection ''security_work''), fx0 @ [FxObserve (Failed sk)], reg')
                        | Refused code \<Rightarrow>
                            (Rejected (Upstream (Some (capacity_signal code))), fx0 @ [FxObserve (Failed sk)], reg')
                        | HardError signal _ \<Rightarrow> (Rejected (Upstream signal), fx0 @ [FxObserve (Failed sk)], reg')
                        | Alive rebuilt \<Rightarrow> (wrap_stream rebuilt account sk kind idle, fx0, reg')
                        | Silence _ \<Rightarrow> recover ()
                        | Panicked \<Rightarrow> (Crashed, fx0, reg'))
                   | (Some (Fail e), _) \<Rightarrow>
                       (Rejected (Upstream (exec_failure_signal e)), fx0 @ [FxObserve (Failed sk)], reg')
                   | (Some Eof, _) \<Rightarrow> recover ()
                   | (None, _) \<Rightarrow> recover ()))))"

section \<open>Carrying out the effects\<close>

record server =
  sv_states :: states
  sv_cooldowns :: cooldown_queue
  sv_refreshes :: refresh_queue
  sv_registry :: registry
  sv_continuity :: continuity_db
  sv_committed :: bool

text \<open>The clock readings, and whether the two background channels accept.\<close>

record fx_ctx =
  fc_account :: account_id
  fc_ctx :: request_ctx
  fc_now :: i64
  fc_bucket_now :: i64
  fc_tx :: "bool option"

fun apply_effect :: "fx_ctx \<Rightarrow> effect \<Rightarrow> server \<Rightarrow> server" where
  "apply_effect c (FxExecute _) sv = sv"
| "apply_effect c (FxObserve outcome) sv =
     sv\<lparr>sv_continuity := unwrap_or (observe (fc_now c) outcome (sv_continuity sv)) (sv_continuity sv)\<rparr>"
| "apply_effect c FxCommit sv = sv\<lparr>sv_committed := True\<rparr>"
| "apply_effect c FxClearTurn sv =
     sv\<lparr>sv_registry := clear_attempts (rc_logical_turn_key (fc_ctx c)) (sv_registry sv)\<rparr>"
| "apply_effect c FxSuccess sv =
     sv\<lparr>sv_states := fst (record_success (fc_account c) (fc_bucket_now c) (fc_now c) (sv_states sv))\<rparr>"
| "apply_effect c FxTransient sv =
     sv\<lparr>sv_states := fst (record_transient_error (fc_account c) (fc_now c) (sv_states sv))\<rparr>"
| "apply_effect c FxRateLimit sv =
     (let ((m, q), _) = record_rate_limit (fc_tx c) (fc_account c) None (fc_now c) (sv_states sv, sv_cooldowns sv)
      in sv\<lparr>sv_states := m, sv_cooldowns := q\<rparr>)"
| "apply_effect c FxQuota sv =
     (let (m, q) = record_quota_exceeded (fc_tx c) (fc_account c) (fc_now c) (sv_states sv, sv_cooldowns sv)
      in sv\<lparr>sv_states := m, sv_cooldowns := q\<rparr>)"
| "apply_effect c FxRefresh sv =
     sv\<lparr>sv_refreshes := request_usage_refresh (fc_tx c) (fc_account c) (sv_refreshes sv)\<rparr>"

definition apply_effects :: "fx_ctx \<Rightarrow> effect list \<Rightarrow> server \<Rightarrow> server" where
  "apply_effects c fxs sv = fold (apply_effect c) fxs sv"

end
