(* ===== verification/Account_Auth.thy ===== *)
theory Account_Auth
  imports Runtime_States
begin

text \<open>
  OAuth credentials of the accounts: the claims of a token and the refresh gates
  (\<open>polyflare-codex/src/oauth.rs\<close>, \<open>polyflare-anthropic/src/oauth.rs\<close>), the token columns of the store
  (\<open>polyflare-store/src/account.rs\<close>), the refresh on the request path (\<open>resolve_core_account\<close> in
  \<open>ingress.rs\<close>) and the shared recovery (\<open>reactive_auth.rs\<close>). Base64, JSON, the token endpoints and the
  success of each store access are parameters, indexed by the number of external calls made so far.
  Token encryption is the identity here; a row that cannot be decrypted is a failed read.
\<close>

section \<open>Tokens\<close>

record plain_tokens =
  pt_access :: string
  pt_refresh :: string
  pt_id :: string

datatype auth_mode = CodexOauth | AnthropicOauth | StaticBearer | UnknownMode

fun auth_mode_str :: "auth_mode \<Rightarrow> string" where
  "auth_mode_str CodexOauth = ''codex_oauth''"
| "auth_mode_str AnthropicOauth = ''anthropic_oauth''"
| "auth_mode_str StaticBearer = ''static_bearer''"
| "auth_mode_str UnknownMode = ''unknown''"

definition auth_mode_parse :: "string \<Rightarrow> auth_mode" where
  "auth_mode_parse raw =
     (if raw = ''codex_oauth'' then CodexOauth else if raw = ''anthropic_oauth'' then AnthropicOauth
      else if raw = ''static_bearer'' then StaticBearer else UnknownMode)"

fun is_refreshable :: "auth_mode \<Rightarrow> bool" where
  "is_refreshable mode = (mode = CodexOauth \<or> mode = AnthropicOauth)"

record account_row =
  ar_id :: account_id
  ar_provider :: string
  ar_status :: string
  ar_last_refresh :: i64
  ar_chatgpt_id :: "string option"
  ar_auth_mode :: string
  ar_expires_at :: "i64 option"
  ar_scopes :: "string option"
  ar_tokens :: plain_tokens

definition row_mode :: "account_row \<Rightarrow> auth_mode" where
  "row_mode row = auth_mode_parse (ar_auth_mode row)"

text \<open>The \<open>Account\<close> handed to the executor.\<close>

record core_account =
  ca_id :: account_id
  ca_base_url :: string
  ca_bearer :: string
  ca_chatgpt_id :: "string option"
  ca_fedramp :: bool

section \<open>Failure classes\<close>

datatype failure_class = ReauthRequired | Deactivated | TransientFailure

fun class_status :: "failure_class \<Rightarrow> string option" where
  "class_status ReauthRequired = Some ''reauth_required''"
| "class_status Deactivated = Some ''deactivated''"
| "class_status TransientFailure = None"

definition classify_failure :: "string \<Rightarrow> failure_class" where
  "classify_failure code =
     (if code \<in> set [''account_deactivated'', ''account_suspended'', ''account_deleted''] then Deactivated
      else if code \<in> set [''refresh_token_expired'', ''refresh_token_reused'', ''refresh_token_invalidated'',
          ''invalid_grant'', ''token_invalidated'', ''token_expired'', ''app_session_terminated'',
          ''account_session_expired'', ''account_auth_invalidated''] then ReauthRequired
      else TransientFailure)"

definition classify_anthropic_failure :: "u16 \<Rightarrow> string option \<Rightarrow> failure_class" where
  "classify_anthropic_failure status code =
     (if code \<in> set [Some ''invalid_grant'', Some ''invalid_client'', Some ''unauthorized_client'']
      then ReauthRequired
      else if status = 401 \<and> code = None then ReauthRequired else TransientFailure)"

section \<open>Claims and refresh gates\<close>

text \<open>
  The body of a successful token reply, and what the HTTP call came to: no reply, an error status with
  its JSON body, a success whose body does not decode, or the tokens.
\<close>

record token_response =
  tr_access :: string
  tr_refresh :: "string option"
  tr_id :: string
  tr_expires_in :: "i64 option"
  tr_scope :: "string option"

datatype token_reply = NoReply | ErrorReply u16 "json option" | BadReply | TokenReply token_response

record auth_env =
  ae_decode :: "string \<Rightarrow> string option"
  ae_parse :: "string \<Rightarrow> json option"
  ae_base_url :: "provider \<Rightarrow> string"
  ae_replica :: bool
  ae_read :: "nat \<Rightarrow> bool"
  ae_write :: "nat \<Rightarrow> bool"
  ae_codex :: "nat \<Rightarrow> string \<Rightarrow> token_reply"
  ae_anthropic :: "(nat \<Rightarrow> string \<Rightarrow> string option \<Rightarrow> token_reply) option"

text \<open>\<open>split('.').nth(1)\<close>, base64url, JSON, \<open>exp\<close>.\<close>

definition token_exp :: "auth_env \<Rightarrow> string \<Rightarrow> i64 option" where
  "token_exp env jwt =
     (case split_on (CHR ''.'') jwt of
        _ # payload # _ \<Rightarrow>
          Option.bind (ae_decode env payload)
            (\<lambda>bytes. Option.bind (ae_parse env bytes) (\<lambda>v. Option.bind (jget ''exp'' v) as_i64))
      | _ \<Rightarrow> None)"

definition refresh_margin_secs :: i64 where "refresh_margin_secs = 2 * 86400"
definition token_refresh_fallback_days :: i64 where "token_refresh_fallback_days = 8"
definition anthropic_refresh_margin_secs :: i64 where "anthropic_refresh_margin_secs = 300"

definition should_refresh :: "i64 option \<Rightarrow> i64 \<Rightarrow> i64 \<Rightarrow> bool" where
  "should_refresh access_exp last_refresh now = (case access_exp of
     Some expiry \<Rightarrow> sub_i64 expiry refresh_margin_secs \<le> now
   | None \<Rightarrow> token_refresh_fallback_days * 86400 < now - last_refresh)"

definition anthropic_should_refresh :: "i64 option \<Rightarrow> i64 \<Rightarrow> bool" where
  "anthropic_should_refresh expires_at now = (case expires_at of
     Some expiry \<Rightarrow> sub_i64 expiry anthropic_refresh_margin_secs \<le> now
   | None \<Rightarrow> True)"

definition auth_claim :: string where "auth_claim = ''https://api.openai.com/auth''"

text \<open>\<open>decode_claims\<close> restricted to the claims that routing reads; \<open>Inl\<close> is \<open>MalformedJwt\<close>.\<close>

record claims =
  cl_email :: "string option"
  cl_sub :: "string option"
  cl_chatgpt_account_id :: "string option"
  cl_chatgpt_user_id :: "string option"
  cl_plan_type :: "string option"
  cl_is_fedramp :: bool
  cl_exp :: "i64 option"

definition jwt_payload :: "string \<Rightarrow> string option" where
  "jwt_payload id_token =
     (case split_on (CHR ''.'') id_token of
        header # payload # signature # _ \<Rightarrow>
          (if header \<noteq> '''' \<and> payload \<noteq> '''' \<and> signature \<noteq> '''' then Some payload else None)
      | _ \<Rightarrow> None)"

definition claims_of :: "json \<Rightarrow> claims" where
  "claims_of v =
     (let auth = jget auth_claim v;
          nested = (\<lambda>key. Option.bind auth (jget key));
          pick = (\<lambda>key. Option.bind (opt_or (nested key) (jget key v)) as_str)
      in \<lparr>cl_email = pick ''email'', cl_sub = Option.bind (jget ''sub'' v) as_str,
          cl_chatgpt_account_id = pick ''chatgpt_account_id'',
          cl_chatgpt_user_id =
            Option.bind (opt_or (opt_or (nested ''chatgpt_user_id'') (jget ''chatgpt_user_id'' v)) (jget ''sub'' v)) as_str,
          cl_plan_type = pick ''chatgpt_plan_type'',
          cl_is_fedramp = unwrap_or (Option.bind (nested ''chatgpt_account_is_fedramp'') as_bool) False,
          cl_exp = Option.bind (jget ''exp'' v) as_i64\<rparr>)"

definition decode_claims :: "auth_env \<Rightarrow> string \<Rightarrow> claims option" where
  "decode_claims env id_token =
     Option.bind (jwt_payload id_token)
       (\<lambda>payload. Option.bind (ae_decode env payload) (\<lambda>bytes. map_option claims_of (ae_parse env bytes)))"

definition is_fedramp_account :: "auth_env \<Rightarrow> string \<Rightarrow> bool" where
  "is_fedramp_account env id_token = (case decode_claims env id_token of None \<Rightarrow> False | Some c \<Rightarrow> cl_is_fedramp c)"

definition parse_replica_flag :: "string option \<Rightarrow> bool" where
  "parse_replica_flag raw = (case map_option str_trim raw of
     Some v \<Rightarrow> v = ''1'' \<or> str_lower v = ''true'' \<or> str_lower v = ''yes''
   | None \<Rightarrow> False)"

end
