(* ===== verification/Credentials.thy ===== *)
theory Credentials
  imports Account_Auth
begin

text \<open>
  Refreshing credentials: the decrypted-token cache (\<open>token_cache.rs\<close>), the store's token writes and
  generations, \<open>resolve_core_account\<close>, and \<open>ReactiveAuth\<close>. What runs under an account's refresh lock is
  one function on the state; \<open>as_calls\<close> logs every call of a token endpoint with its reply.
\<close>

section \<open>The token cache\<close>

record cache_entry =
  ce_row :: account_row
  ce_expires_at :: i64

record token_cache =
  tc_generation :: u64
  tc_entries :: "(account_id, cache_entry) table"

definition empty_token_cache :: token_cache where
  "empty_token_cache = \<lparr>tc_generation = 0, tc_entries = []\<rparr>"

definition token_cache_ttl :: i64 where "token_cache_ttl = 300"

definition cache_get :: "account_id \<Rightarrow> u64 \<Rightarrow> i64 \<Rightarrow> token_cache \<Rightarrow> account_row option \<times> token_cache" where
  "cache_get k store_generation now c =
     (if tc_generation c < store_generation
      then (None, \<lparr>tc_generation = store_generation, tc_entries = []\<rparr>)
      else if store_generation < tc_generation c then (None, c)
      else (case tbl_get (tc_entries c) k of
          Some e \<Rightarrow> (if now < ce_expires_at e then (Some (ce_row e), c)
                     else (None, c\<lparr>tc_entries := tbl_del (tc_entries c) k\<rparr>))
        | None \<Rightarrow> (None, c)))"

definition cache_insert :: "account_id \<Rightarrow> account_row \<Rightarrow> u64 \<Rightarrow> i64 \<Rightarrow> token_cache \<Rightarrow> token_cache" where
  "cache_insert k row store_generation now c =
     (if store_generation < tc_generation c then c
      else let c1 = (if tc_generation c < store_generation
                     then \<lparr>tc_generation = store_generation, tc_entries = []\<rparr> else c);
               kept = tbl_retain (\<lambda>_ e. now < ce_expires_at e) (tc_entries c1)
           in c1\<lparr>tc_entries := tbl_put kept k \<lparr>ce_row = row, ce_expires_at = now + token_cache_ttl\<rparr>\<rparr>)"

definition cache_sweep :: "i64 \<Rightarrow> token_cache \<Rightarrow> token_cache" where
  "cache_sweep now c = c\<lparr>tc_entries := tbl_retain (\<lambda>_ e. now < ce_expires_at e) (tc_entries c)\<rparr>"

section \<open>The state and the store\<close>

record auth_state =
  as_rows :: "(account_id, account_row) table"
  as_generation :: u64
  as_token_generation :: u64
  as_cache :: token_cache
  as_gate :: "(string, i64 option) table"
  as_tick :: nat
  as_calls :: "(string \<times> token_reply) list"

text \<open>\<open>fetch_add\<close> wraps.\<close>

definition bump_u64 :: "u64 \<Rightarrow> u64" where
  "bump_u64 g = (g + 1) mod 2 ^ 64"

text \<open>\<open>get_with_tokens\<close>: \<open>None\<close> is a failed read or a missing row; every caller treats them alike.\<close>

definition read_account :: "auth_env \<Rightarrow> account_id \<Rightarrow> auth_state \<Rightarrow> account_row option \<times> auth_state" where
  "read_account env k st =
     (if ae_read env (as_tick st) then tbl_get (as_rows st) k else None, st\<lparr>as_tick := as_tick st + 1\<rparr>)"

text \<open>An \<open>UPDATE ... WHERE id\<close>: it succeeds without effect when the row is missing.\<close>

definition update_row :: "(account_row \<Rightarrow> account_row) \<Rightarrow> account_id \<Rightarrow> auth_state \<Rightarrow> auth_state" where
  "update_row f k st =
     (case tbl_get (as_rows st) k of None \<Rightarrow> st | Some row \<Rightarrow> st\<lparr>as_rows := tbl_put (as_rows st) k (f row)\<rparr>)"

definition update_status :: "auth_env \<Rightarrow> account_id \<Rightarrow> string \<Rightarrow> auth_state \<Rightarrow> auth_state" where
  "update_status env k status st =
     (let st1 = st\<lparr>as_tick := as_tick st + 1\<rparr> in
      if ae_write env (as_tick st)
      then (let st2 = update_row (\<lambda>row. row\<lparr>ar_status := status\<rparr>) k st1
            in st2\<lparr>as_generation := bump_u64 (as_generation st2)\<rparr>)
      else st1)"

text \<open>The two writes of the token columns; both bump the token generation only.\<close>

definition token_write ::
  "auth_env \<Rightarrow> (account_row \<Rightarrow> account_row) \<Rightarrow> account_id \<Rightarrow> auth_state \<Rightarrow> bool \<times> auth_state" where
  "token_write env f k st =
     (let st1 = st\<lparr>as_tick := as_tick st + 1\<rparr> in
      if ae_write env (as_tick st)
      then (let st2 = update_row f k st1
            in (True, st2\<lparr>as_token_generation := bump_u64 (as_token_generation st2)\<rparr>))
      else (False, st1))"

definition update_tokens ::
  "auth_env \<Rightarrow> account_id \<Rightarrow> plain_tokens \<Rightarrow> i64 \<Rightarrow> auth_state \<Rightarrow> bool \<times> auth_state" where
  "update_tokens env k new now =
     token_write env (\<lambda>row. row\<lparr>ar_tokens := new, ar_last_refresh := now\<rparr>) k"

definition update_oauth_tokens ::
  "auth_env \<Rightarrow> account_id \<Rightarrow> plain_tokens \<Rightarrow> i64 option \<Rightarrow> i64 \<Rightarrow> auth_state \<Rightarrow> bool \<times> auth_state" where
  "update_oauth_tokens env k new expires_at now =
     token_write env (\<lambda>row. row\<lparr>ar_tokens := new, ar_last_refresh := now, ar_expires_at := expires_at\<rparr>) k"

definition note_status :: "account_id \<Rightarrow> string \<Rightarrow> auth_state \<Rightarrow> auth_state" where
  "note_status k status st = st\<lparr>as_gate := fst (note_account_status k status (as_gate st))\<rparr>"

text \<open>The bounded retries of a token write.\<close>

definition persist_max_attempts :: nat where "persist_max_attempts = 3"

fun persist :: "(auth_state \<Rightarrow> bool \<times> auth_state) \<Rightarrow> nat \<Rightarrow> auth_state \<Rightarrow> bool \<times> auth_state" where
  "persist write 0 st = (False, st)"
| "persist write (Suc n) st =
     (case write st of (True, st') \<Rightarrow> (True, st') | (False, st') \<Rightarrow> persist write n st')"

section \<open>The token endpoints\<close>

datatype oauth_error = OaMalformed | OaTransport | OaEndpoint u16 "string option"

definition error_code :: "json option \<Rightarrow> string option" where
  "error_code body = Option.bind body (\<lambda>v. Option.bind (jget ''error'' v) as_str)"

text \<open>\<open>OAuthClient::refresh\<close>: an undecodable success counts as a transport error.\<close>

definition oauth_refresh :: "auth_env \<Rightarrow> string \<Rightarrow> auth_state \<Rightarrow> (oauth_error + plain_tokens) \<times> auth_state" where
  "oauth_refresh env presented st =
     (let reply = ae_codex env (as_tick st) presented;
          st1 = st\<lparr>as_tick := as_tick st + 1, as_calls := as_calls st @ [(presented, reply)]\<rparr>
      in (case reply of
            NoReply \<Rightarrow> Inl OaTransport
          | BadReply \<Rightarrow> Inl OaTransport
          | ErrorReply status body \<Rightarrow> Inl (OaEndpoint status (error_code body))
          | TokenReply r \<Rightarrow> Inr \<lparr>pt_access = tr_access r, pt_refresh = unwrap_or (tr_refresh r) presented, pt_id = tr_id r\<rparr>,
          st1))"

definition absolute_expiry :: "i64 option \<Rightarrow> i64 \<Rightarrow> i64 option" where
  "absolute_expiry expires_in now = map_option (add_i64 now) (opt_filter (\<lambda>secs. 0 < secs) expires_in)"

text \<open>\<open>AnthropicOAuthClient::refresh\<close>: the grant is replayed when there is one.\<close>

definition anthropic_refresh ::
  "(nat \<Rightarrow> string \<Rightarrow> string option \<Rightarrow> token_reply) \<Rightarrow> string \<Rightarrow> string \<Rightarrow> i64 \<Rightarrow> auth_state \<Rightarrow>
   (oauth_error + plain_tokens \<times> i64 option) \<times> auth_state" where
  "anthropic_refresh endpoint presented granted now st =
     (let reply = endpoint (as_tick st) presented (if str_trim granted = '''' then None else Some granted);
          st1 = st\<lparr>as_tick := as_tick st + 1, as_calls := as_calls st @ [(presented, reply)]\<rparr>
      in (case reply of
            NoReply \<Rightarrow> Inl OaTransport
          | BadReply \<Rightarrow> Inl OaMalformed
          | ErrorReply status body \<Rightarrow> Inl (OaEndpoint status (error_code body))
          | TokenReply r \<Rightarrow> Inr (\<lparr>pt_access = tr_access r, pt_refresh = unwrap_or (tr_refresh r) presented, pt_id = ''''\<rparr>,
                               absolute_expiry (tr_expires_in r) now),
          st1))"

section \<open>The request path\<close>

datatype auth_refusal = InternalError | AccountUnavailable string

definition resolve_lookup ::
  "auth_env \<Rightarrow> account_id \<Rightarrow> i64 \<Rightarrow> auth_state \<Rightarrow> account_row option \<times> auth_state" where
  "resolve_lookup env k now st =
     (let gen = as_token_generation st; (hit, c) = cache_get k gen now (as_cache st); st1 = st\<lparr>as_cache := c\<rparr>
      in case hit of
           Some row \<Rightarrow> (Some row, st1)
         | None \<Rightarrow> (case read_account env k st1 of
               (None, st2) \<Rightarrow> (None, st2)
             | (Some row, st2) \<Rightarrow> (Some row, st2\<lparr>as_cache := cache_insert k row gen now (as_cache st2)\<rparr>)))"

text \<open>
  The section under the account's refresh lock: the tokens to use. The row read before the lock is
  \<open>pre\<close>; a transport failure goes on with its tokens.
\<close>

definition resolve_locked ::
  "auth_env \<Rightarrow> account_id \<Rightarrow> i64 \<Rightarrow> account_row \<Rightarrow> auth_state \<Rightarrow> (auth_refusal + plain_tokens) \<times> auth_state" where
  "resolve_locked env k now pre st =
     (case read_account env k st of
        (None, st1) \<Rightarrow> (Inl InternalError, st1)
      | (Some fresh, st1) \<Rightarrow>
          (if ar_status fresh \<noteq> ''active'' then (Inl (AccountUnavailable ''status_not_active_at_refresh''), st1)
           else if should_refresh (token_exp env (pt_access (ar_tokens fresh))) (ar_last_refresh fresh) now then
             (case oauth_refresh env (pt_refresh (ar_tokens fresh)) st1 of
                (Inr new, st2) \<Rightarrow>
                  (case persist (update_tokens env k new now) persist_max_attempts st2 of
                     (True, st3) \<Rightarrow> (Inr new, st3)
                   | (False, st3) \<Rightarrow>
                       (Inl InternalError, note_status k ''reauth_required'' (update_status env k ''reauth_required'' st3)))
              | (Inl (OaEndpoint _ (Some code)), st2) \<Rightarrow>
                  (Inl (AccountUnavailable ''oauth_refresh_rejected''),
                   case class_status (classify_failure code) of
                     Some status \<Rightarrow> note_status k status (update_status env k status st2)
                   | None \<Rightarrow> st2)
              | (Inl OaTransport, st2) \<Rightarrow> (Inr (ar_tokens pre), st2)
              | (Inl _, st2) \<Rightarrow>
                  (Inl (AccountUnavailable ''oauth_refresh_malformed''),
                   note_status k ''reauth_required'' (update_status env k ''reauth_required'' st2)))
           else (Inr (ar_tokens fresh), st1)))"

definition core_of :: "auth_env \<Rightarrow> provider \<Rightarrow> account_row \<Rightarrow> plain_tokens \<Rightarrow> core_account" where
  "core_of env provider row tokens =
     \<lparr>ca_id = ar_id row, ca_base_url = ae_base_url env provider, ca_bearer = pt_access tokens,
      ca_chatgpt_id = ar_chatgpt_id row,
      ca_fedramp = (provider = Codex \<and> is_fedramp_account env (pt_id tokens))\<rparr>"

definition resolve_core_account ::
  "auth_env \<Rightarrow> account_id \<Rightarrow> i64 \<Rightarrow> auth_state \<Rightarrow> (auth_refusal + core_account \<times> provider) \<times> auth_state" where
  "resolve_core_account env k now st =
     (case resolve_lookup env k now st of
        (None, st1) \<Rightarrow> (Inl InternalError, st1)
      | (Some row, st1) \<Rightarrow>
          (case provider_parse (ar_provider row) of
             Inl _ \<Rightarrow> (Inl InternalError, st1)
           | Inr provider \<Rightarrow>
               (if provider = Codex \<and>
                   should_refresh (token_exp env (pt_access (ar_tokens row))) (ar_last_refresh row) now
                then (case resolve_locked env k now row st1 of
                        (Inl refusal, st2) \<Rightarrow> (Inl refusal, st2)
                      | (Inr tokens, st2) \<Rightarrow> (Inr (core_of env provider row tokens, provider), st2))
                else (Inr (core_of env provider row (ar_tokens row), provider), st1))))"

section \<open>The shared recovery\<close>

definition rotate_codex_tokens ::
  "auth_env \<Rightarrow> account_id \<Rightarrow> string \<Rightarrow> i64 \<Rightarrow> auth_state \<Rightarrow> (auth_refusal + plain_tokens option) \<times> auth_state" where
  "rotate_codex_tokens env k stored_refresh_token now st =
     (case oauth_refresh env stored_refresh_token st of
        (Inl (OaEndpoint _ (Some code)), st1) \<Rightarrow>
          (case class_status (classify_failure code) of
             Some status \<Rightarrow> (Inl (AccountUnavailable ''''), update_status env k status st1)
           | None \<Rightarrow> (Inr None, st1))
      | (Inl OaTransport, st1) \<Rightarrow> (Inr None, st1)
      | (Inl _, st1) \<Rightarrow> (Inl (AccountUnavailable ''''), update_status env k ''reauth_required'' st1)
      | (Inr new, st1) \<Rightarrow>
          (case persist (update_tokens env k new now) persist_max_attempts st1 of
             (True, st2) \<Rightarrow> (Inr (Some new), st2)
           | (False, st2) \<Rightarrow> (Inl InternalError, update_status env k ''reauth_required'' st2)))"

definition refresh_anthropic ::
  "auth_env \<Rightarrow> account_id \<Rightarrow> account_row \<Rightarrow> i64 \<Rightarrow> auth_state \<Rightarrow>
   (auth_refusal + core_account option) \<times> auth_state" where
  "refresh_anthropic env k row now st =
     (case ae_anthropic env of
        None \<Rightarrow> (Inl (AccountUnavailable ''''), st)
      | Some endpoint \<Rightarrow>
          (case anthropic_refresh endpoint (pt_refresh (ar_tokens row)) (unwrap_or (ar_scopes row) '''') now st of
             (Inl (OaEndpoint status code), st1) \<Rightarrow>
               (case class_status (classify_anthropic_failure status code) of
                  Some s \<Rightarrow> (Inl (AccountUnavailable ''''), update_status env k s st1)
                | None \<Rightarrow> (Inr None, st1))
           | (Inl _, st1) \<Rightarrow> (Inr None, st1)
           | (Inr (new, expires_at), st1) \<Rightarrow>
               (case persist (update_oauth_tokens env k new expires_at now) persist_max_attempts st1 of
                  (False, st2) \<Rightarrow> (Inl InternalError, update_status env k ''reauth_required'' st2)
                | (True, st2) \<Rightarrow>
                    (Inr (Some \<lparr>ca_id = ar_id row, ca_base_url = ae_base_url env Anthropic,
                       ca_bearer = pt_access new, ca_chatgpt_id = None, ca_fedramp = False\<rparr>), st2))))"

definition refresh_after_unauthorized ::
  "auth_env \<Rightarrow> account_id \<Rightarrow> string \<Rightarrow> i64 \<Rightarrow> auth_state \<Rightarrow> (auth_refusal + core_account option) \<times> auth_state" where
  "refresh_after_unauthorized env k rejected now st =
     (case read_account env k st of
        (None, st1) \<Rightarrow> (Inl InternalError, st1)
      | (Some row, st1) \<Rightarrow>
          (if ar_status row \<noteq> ''active'' then (Inl (AccountUnavailable ''''), st1)
           else if \<not> is_refreshable (row_mode row) then (Inl (AccountUnavailable ''''), st1)
           else let provider = (if row_mode row = CodexOauth then Codex else Anthropic) in
             if pt_access (ar_tokens row) \<noteq> rejected then
               (Inr (Some \<lparr>ca_id = ar_id row, ca_base_url = ae_base_url env provider,
                  ca_bearer = pt_access (ar_tokens row), ca_chatgpt_id = ar_chatgpt_id row,
                  ca_fedramp = (row_mode row = CodexOauth \<and> is_fedramp_account env (pt_id (ar_tokens row)))\<rparr>), st1)
             else if ae_replica env then (Inr None, st1)
             else if row_mode row = AnthropicOauth then refresh_anthropic env k row now st1
             else (case rotate_codex_tokens env k (pt_refresh (ar_tokens row)) now st1 of
                     (Inl e, st2) \<Rightarrow> (Inl e, st2)
                   | (Inr None, st2) \<Rightarrow> (Inr None, st2)
                   | (Inr (Some new), st2) \<Rightarrow>
                       (Inr (Some \<lparr>ca_id = ar_id row, ca_base_url = ae_base_url env Codex, ca_bearer = pt_access new,
                          ca_chatgpt_id = ar_chatgpt_id row, ca_fedramp = is_fedramp_account env (pt_id new)\<rparr>), st2))))"

definition usage_controlled :: "string list" where
  "usage_controlled = [''active'', ''rate_limited'', ''quota_exceeded'']"

definition refresh_stale_codex_token ::
  "auth_env \<Rightarrow> account_id \<Rightarrow> i64 \<Rightarrow> auth_state \<Rightarrow> (auth_refusal + bool) \<times> auth_state" where
  "refresh_stale_codex_token env k now st =
     (case read_account env k st of
        (None, st1) \<Rightarrow> (Inl InternalError, st1)
      | (Some row, st1) \<Rightarrow>
          (if ar_status row \<notin> set usage_controlled then (Inr False, st1)
           else if row_mode row \<noteq> CodexOauth then (Inr False, st1)
           else if ae_replica env then (Inr False, st1)
           else if \<not> should_refresh (token_exp env (pt_access (ar_tokens row))) (ar_last_refresh row) now
           then (Inr False, st1)
           else (case rotate_codex_tokens env k (pt_refresh (ar_tokens row)) now st1 of
                   (Inl e, st2) \<Rightarrow> (Inl e, st2)
                 | (Inr new, st2) \<Rightarrow> (Inr (new \<noteq> None), st2))))"

definition refresh_stale_anthropic_token ::
  "auth_env \<Rightarrow> account_id \<Rightarrow> i64 \<Rightarrow> auth_state \<Rightarrow> (auth_refusal + bool) \<times> auth_state" where
  "refresh_stale_anthropic_token env k now st =
     (case read_account env k st of
        (None, st1) \<Rightarrow> (Inl InternalError, st1)
      | (Some row, st1) \<Rightarrow>
          (if ar_status row \<notin> set usage_controlled then (Inr False, st1)
           else if row_mode row \<noteq> AnthropicOauth then (Inr False, st1)
           else if ae_replica env then (Inr False, st1)
           else if \<not> anthropic_should_refresh (ar_expires_at row) now then (Inr False, st1)
           else (case refresh_anthropic env k row now st1 of
                   (Inl e, st2) \<Rightarrow> (Inl e, st2)
                 | (Inr new, st2) \<Rightarrow> (Inr (new \<noteq> None), st2))))"

end
