(* ===== verification/Model_Catalog.thy ===== *)
theory Model_Catalog
  imports Core_Types
begin

text \<open>
  The model catalog (\<open>polyflare-server/src/model_catalog.rs\<close>): what each account can serve, the
  catalog advertised for a scope of accounts, and the gates that narrow the candidates of a request.
  Instants are milliseconds. The upstream fetch is a parameter; a call reads the clock before it and
  after it. The locks of the cache are held per operation, the scoped refresh is single-flight, and a
  \<open>HashSet\<close> of slugs is a list.
\<close>

section \<open>Entries\<close>

record upstream_model =
  um_slug :: string
  um_display_name :: string
  um_context_window :: "u64 option"
  um_prefer_websockets :: "bool option"
  um_raw :: json

definition parse_one_model :: "json \<Rightarrow> upstream_model option" where
  "parse_one_model entry =
     (case Option.bind (jget ''slug'' entry) as_str of
        None \<Rightarrow> None
      | Some slug \<Rightarrow>
          (if slug = '''' then None
           else Some \<lparr>um_slug = slug,
             um_display_name = unwrap_or (Option.bind (jget ''display_name'' entry) as_str) slug,
             um_context_window = Option.bind (jget ''context_window'' entry) as_u64,
             um_prefer_websockets = Option.bind (jget ''prefer_websockets'' entry) as_bool,
             um_raw = entry\<rparr>))"

definition parse_models :: "json \<Rightarrow> upstream_model list" where
  "parse_models v = (case Option.bind (jget ''models'' v) as_array of
     None \<Rightarrow> [] | Some entries \<Rightarrow> List.map_filter parse_one_model entries)"

text \<open>Upsert by slug: floor order first, upstream wins, new slugs appended.\<close>

fun upsert_model :: "upstream_model list \<Rightarrow> upstream_model \<Rightarrow> upstream_model list" where
  "upsert_model [] m = [m]"
| "upsert_model (k # ks) m = (if um_slug k = um_slug m then m # ks else k # upsert_model ks m)"

definition merge_onto_floor :: "upstream_model list \<Rightarrow> upstream_model list \<Rightarrow> upstream_model list" where
  "merge_onto_floor upstream base = foldl upsert_model base upstream"

section \<open>The catalog of a scope\<close>

record fetched_catalog =
  fcat_models :: "upstream_model list"
  fcat_etag :: "string option"

type_synonym account_catalog = "account_id \<times> fetched_catalog"

definition normalize_account_ids :: "account_id list \<Rightarrow> account_id list" where
  "normalize_account_ids ids = remdups_adj (sort ids)"

definition tier_identity :: "json \<Rightarrow> string option" where
  "tier_identity v = opt_or (Option.bind (jget ''id'' v) as_str) (as_str v)"

definition add_tier :: "json list \<Rightarrow> json \<Rightarrow> json list" where
  "add_tier have v = (case tier_identity v of
     None \<Rightarrow> have
   | Some i \<Rightarrow> if \<exists>h \<in> set have. tier_identity h = Some i then have else have @ [v])"

definition merge_tiers :: "string \<Rightarrow> json \<Rightarrow> json \<Rightarrow> json" where
  "merge_tiers key other kept =
     (case (kept, Option.bind (jget key other) as_array) of
        (JObj kvs, Some extra) \<Rightarrow>
          (case map_of kvs key of
             None \<Rightarrow> JObj (obj_put key (JArr (foldl add_tier [] extra)) kvs)
           | Some (JArr have) \<Rightarrow> JObj (obj_put key (JArr (foldl add_tier have extra)) kvs)
           | Some _ \<Rightarrow> kept)
      | _ \<Rightarrow> kept)"

definition tier_keys :: "string list" where
  "tier_keys = [''service_tiers'', ''additional_speed_tiers'']"

definition merge_model_capabilities :: "upstream_model \<Rightarrow> upstream_model \<Rightarrow> upstream_model" where
  "merge_model_capabilities kept other =
     kept\<lparr>um_raw := fold (\<lambda>key raw. merge_tiers key (um_raw other) raw) tier_keys (um_raw kept)\<rparr>"

fun absorb_model :: "upstream_model list \<Rightarrow> upstream_model \<Rightarrow> upstream_model list" where
  "absorb_model [] m = [m]"
| "absorb_model (k # ks) m =
     (if um_slug k = um_slug m then merge_model_capabilities k m # ks else k # absorb_model ks m)"

definition union_models :: "account_catalog list \<Rightarrow> upstream_model list" where
  "union_models cats = foldl absorb_model [] (concat (map (\<lambda>(_, c). fcat_models c) cats))"

text \<open>The hashed text; SHA-256 in hex and the JSON printer are parameters.\<close>

definition scope_etag_text :: "(json \<Rightarrow> string) \<Rightarrow> account_catalog list \<Rightarrow> string" where
  "scope_etag_text print cats =
     ''polyflare-model-scope-v1'' @ [CHR 0x00] @
     concat (map (\<lambda>(k, c). k @ [CHR 0x00] @ unwrap_or (fcat_etag c) '''' @ [CHR 0x00] @
       concat (map (\<lambda>m. um_slug m @ [CHR 0x00] @ print (um_raw m) @ [CHR 0x00]) (sort_key um_slug (fcat_models c)))) cats)"

definition virtual_scope_etag :: "(string \<Rightarrow> string) \<Rightarrow> (json \<Rightarrow> string) \<Rightarrow> account_catalog list \<Rightarrow> string" where
  "virtual_scope_etag sha print cats = ''\"polyflare-'' @ sha (scope_etag_text print cats) @ ''\"''"

record scoped_catalog =
  sc_models :: "upstream_model list"
  sc_etag :: "string option"

record catalog_env =
  ce_sha :: "string \<Rightarrow> string"
  ce_print :: "json \<Rightarrow> string"

definition sorted_union :: "catalog_env \<Rightarrow> account_catalog list \<Rightarrow> scoped_catalog" where
  "sorted_union env cats =
     \<lparr>sc_models = sort_key um_slug (union_models cats), sc_etag = Some (virtual_scope_etag (ce_sha env) (ce_print env) cats)\<rparr>"

definition build_scoped_catalog ::
  "catalog_env \<Rightarrow> account_id list \<Rightarrow> account_catalog list \<Rightarrow> scoped_catalog option" where
  "build_scoped_catalog env scope cats0 =
     (let cats = sort_key fst cats0
      in if map fst cats \<noteq> scope \<or> (\<exists>(_, c) \<in> set cats. fcat_models c = []) then None
         else Some (sorted_union env cats))"

definition build_available_scoped_catalog :: "catalog_env \<Rightarrow> account_catalog list \<Rightarrow> scoped_catalog option" where
  "build_available_scoped_catalog env cats0 =
     (let cats = sort_key fst cats0
      in if cats0 = [] \<or> union_models cats = [] then None else Some (sorted_union env cats))"

section \<open>The cache\<close>

record cached_catalog =
  cc_models :: "upstream_model list"
  cc_etag :: "string option"
  cc_fetched_at :: nat

record model_catalog =
  mc_cached :: "cached_catalog option"
  mc_scoped :: "(account_id list, cached_catalog) table"
  mc_accounts :: "(account_id, fetched_catalog \<times> nat) table"
  mc_support :: "(account_id, string list) table"
  mc_retry_after :: "(account_id, nat) table"
  mc_declared :: "(account_id, (string, bool) table) table"
  mc_capped :: "(account_id, string list) table"
  mc_unavailable :: "(account_id, (string, i64) table) table"
  mc_floor :: "upstream_model list"
  mc_ttl :: nat

definition is_fresh :: "nat \<Rightarrow> model_catalog \<Rightarrow> nat \<Rightarrow> bool" where
  "is_fresh now mc fetched_at \<longleftrightarrow> now - fetched_at < mc_ttl mc"

text \<open>\<open>get_or_refresh\<close>: cache, live fetch on the floor, stale cache, floor.\<close>

definition get_or_refresh :: "nat \<Rightarrow> nat \<Rightarrow> fetched_catalog option \<Rightarrow> model_catalog \<Rightarrow> upstream_model list \<times> model_catalog" where
  "get_or_refresh t0 t1 fetch mc =
     (case opt_filter (\<lambda>c. is_fresh t0 mc (cc_fetched_at c)) (mc_cached mc) of
        Some c \<Rightarrow> (cc_models c, mc)
      | None \<Rightarrow>
          (case fetch of
             Some f \<Rightarrow>
               (let merged = merge_onto_floor (fcat_models f) (mc_floor mc)
                in (merged, mc\<lparr>mc_cached := Some \<lparr>cc_models = merged, cc_etag = fcat_etag f, cc_fetched_at = t1\<rparr>\<rparr>))
           | None \<Rightarrow> (case mc_cached mc of Some stale \<Rightarrow> (cc_models stale, mc) | None \<Rightarrow> (mc_floor mc, mc))))"

definition failed_refresh_retry_delay :: "model_catalog \<Rightarrow> nat" where
  "failed_refresh_retry_delay mc = max (min (mc_ttl mc) 30000) 10"

definition partial_projection_fetched_at :: "nat \<Rightarrow> model_catalog \<Rightarrow> nat" where
  "partial_projection_fetched_at now mc =
     (let early_by = mc_ttl mc - failed_refresh_retry_delay mc in if early_by \<le> now then now - early_by else now)"

definition fresh_scoped :: "nat \<Rightarrow> account_id list \<Rightarrow> model_catalog \<Rightarrow> scoped_catalog option" where
  "fresh_scoped now scope mc =
     map_option (\<lambda>c. \<lparr>sc_models = cc_models c, sc_etag = cc_etag c\<rparr>)
       (opt_filter (\<lambda>c. is_fresh now mc (cc_fetched_at c)) (tbl_get (mc_scoped mc) scope))"

definition missing_or_expired_accounts :: "nat \<Rightarrow> account_id list \<Rightarrow> model_catalog \<Rightarrow> account_id list" where
  "missing_or_expired_accounts now scope mc =
     filter (\<lambda>k. (case tbl_get (mc_accounts mc) k of None \<Rightarrow> True | Some (_, fetched) \<Rightarrow> \<not> is_fresh now mc fetched) \<and>
                 (case tbl_get (mc_retry_after mc) k of None \<Rightarrow> True | Some retry_at \<Rightarrow> retry_at \<le> now)) scope"

text \<open>The answers that count: asked for, the first for its account, not empty.\<close>

definition take_catalog ::
  "account_id list \<Rightarrow> nat \<Rightarrow> account_id list \<times> account_id list \<times> model_catalog \<Rightarrow> account_catalog \<Rightarrow>
   account_id list \<times> account_id list \<times> model_catalog" where
  "take_catalog missing fetched_at acc entry =
     (let (answered, succeeded, mc) = acc; (k, c) = entry
      in if k \<notin> set missing \<or> k \<in> set answered then (answered, succeeded, mc)
         else if fcat_models c = [] then (k # answered, succeeded, mc)
         else (k # answered, k # succeeded,
               mc\<lparr>mc_support := tbl_put (mc_support mc) k (map um_slug (fcat_models c)),
                  mc_accounts := tbl_put (mc_accounts mc) k (c, fetched_at)\<rparr>))"

definition note_retries :: "account_id list \<Rightarrow> account_id list \<Rightarrow> nat \<Rightarrow> model_catalog \<Rightarrow> model_catalog" where
  "note_retries missing succeeded retry_at mc =
     mc\<lparr>mc_retry_after := fold (\<lambda>k t. if k \<in> set succeeded then tbl_del t k else tbl_put t k retry_at) missing (mc_retry_after mc)\<rparr>"

text \<open>The catalogs of all members and the oldest fetch, or none when a member is missing or expired.\<close>

definition fresh_account_catalogs :: "nat \<Rightarrow> account_id list \<Rightarrow> model_catalog \<Rightarrow> (account_catalog list \<times> nat) option" where
  "fresh_account_catalogs now scope mc =
     (let member = (\<lambda>k. opt_filter (\<lambda>(_, fetched). is_fresh now mc fetched) (tbl_get (mc_accounts mc) k))
      in if \<forall>k \<in> set scope. member k \<noteq> None
         then Some (map (\<lambda>k. (k, fst (the (member k)))) scope, fold (\<lambda>k t. min t (snd (the (member k)))) scope now)
         else None)"

definition available_account_catalogs :: "nat \<Rightarrow> account_id list \<Rightarrow> model_catalog \<Rightarrow> account_catalog list" where
  "available_account_catalogs now scope mc =
     List.map_filter (\<lambda>k. map_option (\<lambda>(c, _). (k, c))
       (opt_filter (\<lambda>(c, fetched). is_fresh now mc fetched \<and> fcat_models c \<noteq> []) (tbl_get (mc_accounts mc) k))) scope"

definition store_scoped :: "account_id list \<Rightarrow> scoped_catalog \<Rightarrow> nat \<Rightarrow> model_catalog \<Rightarrow> model_catalog" where
  "store_scoped scope cat fetched_at mc =
     mc\<lparr>mc_scoped := tbl_put (mc_scoped mc) scope \<lparr>cc_models = sc_models cat, cc_etag = sc_etag cat, cc_fetched_at = fetched_at\<rparr>\<rparr>"

text \<open>The part under the refresh lock, after the fetch: strict projection, stale, available members, floor.\<close>

definition project_scope :: "catalog_env \<Rightarrow> nat \<Rightarrow> account_id list \<Rightarrow> model_catalog \<Rightarrow> scoped_catalog \<times> model_catalog" where
  "project_scope env now scope mc =
     (case Option.bind (fresh_account_catalogs now scope mc)
             (\<lambda>(cats, oldest). map_option (\<lambda>cat. (cat, oldest)) (build_scoped_catalog env scope cats)) of
        Some (cat, oldest) \<Rightarrow> (cat, store_scoped scope cat oldest mc)
      | None \<Rightarrow>
          (case tbl_get (mc_scoped mc) scope of
             Some stale \<Rightarrow> (\<lparr>sc_models = cc_models stale, sc_etag = cc_etag stale\<rparr>, mc)
           | None \<Rightarrow>
               (case build_available_scoped_catalog env (available_account_catalogs now scope mc) of
                  Some cat \<Rightarrow> (cat, store_scoped scope cat (partial_projection_fetched_at now mc) mc)
                | None \<Rightarrow> (\<lparr>sc_models = mc_floor mc, sc_etag = None\<rparr>, mc))))"

definition get_or_refresh_scoped ::
  "catalog_env \<Rightarrow> nat \<Rightarrow> nat \<Rightarrow> (account_id list \<Rightarrow> account_catalog list option) \<Rightarrow> account_id list \<Rightarrow> model_catalog \<Rightarrow>
   scoped_catalog \<times> model_catalog" where
  "get_or_refresh_scoped env t0 t1 fetch_scoped account_ids mc =
     (let scope = normalize_account_ids account_ids in
      if scope = [] then (\<lparr>sc_models = mc_floor mc, sc_etag = None\<rparr>, mc)
      else case fresh_scoped t0 scope mc of
        Some cat \<Rightarrow> (cat, mc)
      | None \<Rightarrow>
          (let missing = missing_or_expired_accounts t0 scope mc;
               fetched = (if missing = [] then None else fetch_scoped missing);
               (_, succeeded, mc1) = foldl (take_catalog missing t1) ([], [], mc) (unwrap_or fetched []);
               mc2 = (if missing = [] then mc1 else note_retries missing succeeded (t1 + failed_refresh_retry_delay mc) mc1)
           in project_scope env t1 scope mc2))"

section \<open>Per-account support\<close>

fun contains_str :: "string \<Rightarrow> string \<Rightarrow> bool" where
  "contains_str [] sub \<longleftrightarrow> sub = []"
| "contains_str (c # cs) sub \<longleftrightarrow> starts_with sub (c # cs) \<or> contains_str cs sub"

definition is_capped :: "model_catalog \<Rightarrow> string \<Rightarrow> account_id \<Rightarrow> bool" where
  "is_capped mc model k = (case tbl_get (mc_capped mc) k of
     None \<Rightarrow> False | Some names \<Rightarrow> \<exists>n \<in> set names. contains_str (str_lower model) n)"

definition account_supports_model :: "model_catalog \<Rightarrow> account_id \<Rightarrow> string \<Rightarrow> bool option" where
  "account_supports_model mc k model =
     (if is_capped mc model k then Some False
      else case Option.bind (tbl_get (mc_declared mc) k) (\<lambda>models. tbl_get models model) of
        Some supported \<Rightarrow> Some supported
      | None \<Rightarrow> map_option (\<lambda>slugs. model \<in> set slugs) (tbl_get (mc_support mc) k))"

definition set_declared_support :: "(account_id \<times> string \<times> bool) list \<Rightarrow> model_catalog \<Rightarrow> model_catalog" where
  "set_declared_support rows mc =
     mc\<lparr>mc_declared := fold (\<lambda>(k, model, supported) t.
        tbl_put t k (tbl_put (unwrap_or (tbl_get t k) []) model supported)) rows []\<rparr>"

definition set_capped_models :: "account_id \<Rightarrow> string list \<Rightarrow> model_catalog \<Rightarrow> model_catalog" where
  "set_capped_models k names mc =
     mc\<lparr>mc_capped := (if names = [] then tbl_del (mc_capped mc) k
                      else tbl_put (mc_capped mc) k (map str_lower names))\<rparr>"

section \<open>Gates\<close>

definition retain_without_capped_model :: "model_catalog \<Rightarrow> string \<Rightarrow> account_snapshot list \<Rightarrow> account_snapshot list" where
  "retain_without_capped_model mc model ss =
     (if mc_capped mc = [] \<or> (\<forall>s \<in> set ss. is_capped mc model (snap_id s)) then ss
      else filter (\<lambda>s. \<not> is_capped mc model (snap_id s)) ss)"

definition model_unavailable_ttl :: i64 where "model_unavailable_ttl = 3600"

definition note_model_unavailable :: "account_id \<Rightarrow> string \<Rightarrow> i64 \<Rightarrow> model_catalog \<Rightarrow> model_catalog" where
  "note_model_unavailable k model now mc =
     mc\<lparr>mc_unavailable := tbl_put (mc_unavailable mc) k
        (tbl_put (unwrap_or (tbl_get (mc_unavailable mc) k) []) model (now + model_unavailable_ttl))\<rparr>"

definition model_unavailable :: "model_catalog \<Rightarrow> account_id \<Rightarrow> string \<Rightarrow> i64 \<Rightarrow> bool" where
  "model_unavailable mc k model now =
     (case Option.bind (tbl_get (mc_unavailable mc) k) (\<lambda>models. tbl_get models model) of
        None \<Rightarrow> False | Some until \<Rightarrow> now < until)"

definition retain_accounts_available_for ::
  "model_catalog \<Rightarrow> string \<Rightarrow> i64 \<Rightarrow> account_snapshot list \<Rightarrow> account_snapshot list" where
  "retain_accounts_available_for mc model now ss =
     (let available = length (filter (\<lambda>s. \<not> model_unavailable mc (snap_id s) model now) ss)
      in if available = 0 \<or> available = length ss then ss
         else filter (\<lambda>s. \<not> model_unavailable mc (snap_id s) model now) ss)"

text \<open>Closed on evidence, open on ignorance.\<close>

definition retain_by_evidence :: "(account_snapshot \<Rightarrow> bool option) \<Rightarrow> account_snapshot list \<Rightarrow> account_snapshot list" where
  "retain_by_evidence verdict ss =
     (if \<exists>s \<in> set ss. verdict s = Some True then filter (\<lambda>s. verdict s \<noteq> Some False) ss else ss)"

definition retain_accounts_supporting ::
  "model_catalog \<Rightarrow> string \<Rightarrow> i64 \<Rightarrow> account_snapshot list \<Rightarrow> account_snapshot list" where
  "retain_accounts_supporting mc model now ss =
     retain_accounts_available_for mc model now
       (retain_by_evidence (\<lambda>s. account_supports_model mc (snap_id s) model) ss)"

definition normalize_tier :: "string option \<Rightarrow> string option" where
  "normalize_tier service_tier =
     opt_filter (\<lambda>tier. tier \<notin> set ['''', ''default'', ''standard'', ''flex''])
       (map_option (\<lambda>t. str_lower (str_trim t)) service_tier)"

definition plan_grants_tier :: "string \<Rightarrow> string \<Rightarrow> bool option" where
  "plan_grants_tier plan_type tier =
     (if tier = ''ultrafast'' then Some (str_lower (str_trim plan_type) = ''promax'') else None)"

definition catalog_tier_verdict :: "model_catalog \<Rightarrow> account_id \<Rightarrow> string \<Rightarrow> string \<Rightarrow> bool option" where
  "catalog_tier_verdict mc k model tier =
     Option.bind (tbl_get (mc_accounts mc) k) (\<lambda>(c, _).
       Option.bind (find (\<lambda>m. um_slug m = model) (fcat_models c)) (\<lambda>entry.
         Option.bind (jget ''service_tiers'' (um_raw entry)) (\<lambda>v.
           map_option (\<lambda>tiers. \<exists>advertised \<in> set tiers. tier_identity advertised = Some tier) (as_array v))))"

definition account_serves_tier :: "model_catalog \<Rightarrow> account_id \<Rightarrow> string \<Rightarrow> string \<Rightarrow> string \<Rightarrow> bool option" where
  "account_serves_tier mc k plan_type model tier =
     opt_or (catalog_tier_verdict mc k model tier) (plan_grants_tier plan_type tier)"

definition retain_accounts_supporting_tier ::
  "model_catalog \<Rightarrow> string \<Rightarrow> string option \<Rightarrow> account_snapshot list \<Rightarrow> account_snapshot list" where
  "retain_accounts_supporting_tier mc model service_tier ss =
     (case normalize_tier service_tier of
        None \<Rightarrow> ss
      | Some tier \<Rightarrow> retain_by_evidence (\<lambda>s. account_serves_tier mc (snap_id s) (snap_plan_type s) model tier) ss)"

definition retain_accounts_serving ::
  "model_catalog \<Rightarrow> string \<Rightarrow> string option \<Rightarrow> i64 \<Rightarrow> account_snapshot list \<Rightarrow> account_snapshot list" where
  "retain_accounts_serving mc model service_tier now ss =
     retain_accounts_supporting_tier mc model service_tier (retain_accounts_supporting mc model now ss)"

definition accounts_declaring_model :: "model_catalog \<Rightarrow> string \<Rightarrow> account_id list" where
  "accounts_declaring_model mc model =
     map fst (filter (\<lambda>(_, models). tbl_get models model = Some True) (mc_declared mc))"

definition declared_models_supported_by :: "model_catalog \<Rightarrow> account_id list \<Rightarrow> string list" where
  "declared_models_supported_by mc account_ids =
     remdups_adj (sort (concat (map (\<lambda>(_, models). map fst (filter snd models))
       (filter (\<lambda>(k, _). k \<in> set account_ids) (mc_declared mc)))))"

end
