(* ===== verification/Admission.thy ===== *)
theory Admission
  imports Runtime_States Selection_Picks
begin

text \<open>
  Admission (\<open>runtime_state.rs\<close>): the hard concurrency bounds, the request weight and its calibration,
  the leases and their release, and selection combined with reservation under one lock. A lease is a
  value of the model; dropping it is an event. The waiting variants repeat one attempt at each
  notification until the deadline; an attempt is what is modelled, and the loop over the attempts.
\<close>

section \<open>Limits\<close>

record admission_limits =
  al_global_in_flight :: u32
  al_account_in_flight :: u32
  al_global_in_flight_pressure :: u32
  al_account_in_flight_pressure :: u32
  al_global_open_ws :: u32
  al_account_open_ws :: u32
  al_owner_recovery_reserve :: u32
  al_owner_recovery_pressure_reserve :: u32

definition default_limits :: admission_limits where
  "default_limits = \<lparr>al_global_in_flight = 256, al_account_in_flight = 4,
     al_global_in_flight_pressure = 1024, al_account_in_flight_pressure = 16,
     al_global_open_ws = 128, al_account_open_ws = 8,
     al_owner_recovery_reserve = 1, al_owner_recovery_pressure_reserve = 4\<rparr>"

definition set_admission_limits :: "admission_limits \<Rightarrow> admission_limits" where
  "set_admission_limits next_limits =
     (let a = (if 0 < al_account_in_flight next_limits
               then next_limits\<lparr>al_owner_recovery_reserve :=
                 min (al_owner_recovery_reserve next_limits) (al_account_in_flight next_limits - 1)\<rparr>
               else next_limits)
      in if 0 < al_account_in_flight_pressure a
         then a\<lparr>al_owner_recovery_pressure_reserve :=
           min (al_owner_recovery_pressure_reserve a) (al_account_in_flight_pressure a - 1)\<rparr>
         else a)"

definition ordinary_limit :: "admission_limits \<Rightarrow> u32" where
  "ordinary_limit l = al_account_in_flight l - al_owner_recovery_reserve l"

definition ordinary_pressure_limit :: "admission_limits \<Rightarrow> u32" where
  "ordinary_pressure_limit l = al_account_in_flight_pressure l - al_owner_recovery_pressure_reserve l"

definition ordinary_ws_limit :: "admission_limits \<Rightarrow> u32" where
  "ordinary_ws_limit l = al_account_open_ws l - al_owner_recovery_reserve l"

section \<open>Request weight\<close>

record pressure_calibration =
  pc_ratio_milli :: u64
  pc_samples :: u64
  pc_estimated_tokens :: u64
  pc_actual_pressure_tokens :: u64

definition default_calibration :: pressure_calibration where
  "default_calibration = \<lparr>pc_ratio_milli = 1000, pc_samples = 0, pc_estimated_tokens = 0,
     pc_actual_pressure_tokens = 0\<rparr>"

definition request_pressure_units :: "admission_limits \<Rightarrow> pressure_calibration \<Rightarrow> u32 \<Rightarrow> u32" where
  "request_pressure_units l c estimated_tokens =
     (let calibrated = div_ceil (mul_u64 (max estimated_tokens 1) (pc_ratio_milli c)) 1000;
          units = max (div_ceil calibrated 16384) 1;
          max_units = (if al_account_in_flight_pressure l = 0 then 16 else max (ordinary_pressure_limit l) 1)
      in min (if units \<le> u32_max then units else u32_max) max_units)"

text \<open>The counters use \<open>fetch_add\<close>, which wraps.\<close>

definition record_actual_pressure :: "u32 \<Rightarrow> u64 \<Rightarrow> pressure_calibration \<Rightarrow> pressure_calibration" where
  "record_actual_pressure estimated actual c =
     (if estimated = 0 \<or> actual = 0 then c
      else let sample_ratio = clamp_nat 250 4000 (mul_u64 actual 1000 div estimated) in
        c\<lparr>pc_ratio_milli := div_ceil (add_u64 (mul_u64 (pc_ratio_milli c) 7) sample_ratio) 8,
          pc_samples := (pc_samples c + 1) mod 2 ^ 64,
          pc_estimated_tokens := (pc_estimated_tokens c + estimated) mod 2 ^ 64,
          pc_actual_pressure_tokens := (pc_actual_pressure_tokens c + actual) mod 2 ^ 64\<rparr>)"

section \<open>Leases\<close>

datatype lease = InFlight account_id u32 | Socket account_id

fun lease_account :: "lease \<Rightarrow> account_id" where
  "lease_account (InFlight k u) = k"
| "lease_account (Socket k) = k"

definition total_u32 :: "(runtime_state \<Rightarrow> u32) \<Rightarrow> states \<Rightarrow> u32" where
  "total_u32 f m = fold (\<lambda>(k, rt) total. add_u32 total (f rt)) m 0"

definition acquire_in_flight_weighted :: "account_id \<Rightarrow> u32 \<Rightarrow> states \<Rightarrow> states \<times> lease" where
  "acquire_in_flight_weighted k units m =
     (let units = max units 1 in (fst (mutate (\<lambda>rt. (rt_acquire units rt, ())) k m), InFlight k units))"

definition acquire_open_ws :: "account_id \<Rightarrow> states \<Rightarrow> states \<times> lease" where
  "acquire_open_ws k m = (fst (mutate (\<lambda>rt. (rt_open rt, ())) k m), Socket k)"

fun release :: "lease \<Rightarrow> states \<Rightarrow> states" where
  "release (InFlight k units) m = fst (mutate (\<lambda>rt. (rt_release units rt, ())) k m)"
| "release (Socket k) m = fst (mutate (\<lambda>rt. (rt_close rt, ())) k m)"

text \<open>The reservation that the checked paths make: no garbage collection, the entry is not neutral.\<close>

definition reserve :: "account_id \<Rightarrow> i64 \<Rightarrow> u32 \<Rightarrow> states \<Rightarrow> states" where
  "reserve k now units m = tbl_put m k (rt_acquire units (rt_selected now (state_of m k)))"

definition reserve_ws :: "account_id \<Rightarrow> i64 \<Rightarrow> states \<Rightarrow> states" where
  "reserve_ws k now m = tbl_put m k (rt_open (rt_selected now (state_of m k)))"

definition global_ok :: "admission_limits \<Rightarrow> u32 \<Rightarrow> states \<Rightarrow> bool" where
  "global_ok l units m \<longleftrightarrow>
     (al_global_in_flight l = 0 \<or> total_u32 rt_in_flight m < al_global_in_flight l) \<and>
     (al_global_in_flight_pressure l = 0 \<or>
        add_u32 (total_u32 rt_in_flight_pressure m) units \<le> al_global_in_flight_pressure l)"

definition ordinary_ok :: "admission_limits \<Rightarrow> u32 \<Rightarrow> runtime_state \<Rightarrow> bool" where
  "ordinary_ok l units rt \<longleftrightarrow>
     (al_account_in_flight l = 0 \<or> rt_in_flight rt < ordinary_limit l) \<and>
     (al_account_in_flight_pressure l = 0 \<or>
        add_u32 (rt_in_flight_pressure rt) units \<le> ordinary_pressure_limit l)"

definition owner_ok :: "admission_limits \<Rightarrow> u32 \<Rightarrow> runtime_state \<Rightarrow> bool" where
  "owner_ok l units rt \<longleftrightarrow>
     (al_account_in_flight l = 0 \<or> rt_in_flight rt < al_account_in_flight l) \<and>
     (al_account_in_flight_pressure l = 0 \<or>
        add_u32 (rt_in_flight_pressure rt) units \<le> al_account_in_flight_pressure l)"

definition try_acquire_in_flight_weighted ::
  "admission_limits \<Rightarrow> account_id \<Rightarrow> i64 \<Rightarrow> u32 \<Rightarrow> states \<Rightarrow> (states \<times> lease) option" where
  "try_acquire_in_flight_weighted l k now pressure_units m =
     (let units = max pressure_units 1 in
      if global_ok l units m \<and> ordinary_ok l units (state_of m k)
      then Some (reserve k now units m, InFlight k units) else None)"

text \<open>One round of the owner's loop; the flag says that the recovery reserve was used.\<close>

definition pinned_attempt ::
  "admission_limits \<Rightarrow> account_id \<Rightarrow> i64 \<Rightarrow> u32 \<Rightarrow> states \<Rightarrow> (states \<times> lease \<times> bool) option" where
  "pinned_attempt l k now pressure_units m =
     (let units = max pressure_units 1; rt = state_of m k in
      if global_ok l units m \<and> owner_ok l units rt
      then Some (reserve k now units m, InFlight k units,
             0 < al_account_in_flight l \<and> ordinary_limit l \<le> rt_in_flight rt \<or>
             0 < al_account_in_flight_pressure l \<and>
               ordinary_pressure_limit l < add_u32 (rt_in_flight_pressure rt) units)
      else None)"

definition pinned_ws_attempt ::
  "admission_limits \<Rightarrow> account_id \<Rightarrow> i64 \<Rightarrow> states \<Rightarrow> (states \<times> lease \<times> bool) option" where
  "pinned_ws_attempt l k now m =
     (let rt = state_of m k in
      if (al_global_open_ws l = 0 \<or> total_u32 rt_open_ws m < al_global_open_ws l) \<and>
         (al_account_open_ws l = 0 \<or> rt_open_ws rt < al_account_open_ws l)
      then Some (reserve_ws k now m, Socket k,
             0 < al_account_open_ws l \<and> ordinary_ws_limit l \<le> rt_open_ws rt)
      else None)"

section \<open>Selection with reservation\<close>

text \<open>The fields the two selecting methods patch: fewer than \<open>overlay\<close>.\<close>

definition overlay_admission :: "states \<Rightarrow> i64 \<Rightarrow> account_snapshot \<Rightarrow> account_snapshot" where
  "overlay_admission m now s =
     (case tbl_get m (snap_id s) of None \<Rightarrow> s
      | Some rt \<Rightarrow> s\<lparr>
          snap_error_count := rt_error_count rt,
          snap_last_error_at := rt_last_error_at rt,
          snap_cooldown_until := later_of (snap_cooldown_until s) (active_until now (rt_cooldown_until rt)),
          snap_last_selected_at := rt_last_selected_at rt,
          snap_health_tier := rt_health_tier rt,
          snap_in_flight := rt_in_flight rt,
          snap_in_flight_pressure := rt_in_flight_pressure rt,
          snap_open_ws := rt_open_ws rt\<rparr>)"

type_synonym selector = "account_snapshot list \<Rightarrow> selection_ctx \<Rightarrow> account_id option"

definition select_and_acquire ::
  "admission_limits \<Rightarrow> selector \<Rightarrow> account_snapshot list \<Rightarrow> selection_ctx \<Rightarrow> i64 \<Rightarrow> states \<Rightarrow>
   (states \<times> account_id \<times> lease) option" where
  "select_and_acquire l pick snapshots ctx now m =
     (let units = max (ctx_request_pressure_units ctx) 1 in
      if 0 < al_global_in_flight l \<and> al_global_in_flight l \<le> total_u32 rt_in_flight m then None
      else if 0 < al_global_in_flight_pressure l \<and>
        al_global_in_flight_pressure l < add_u32 (total_u32 rt_in_flight_pressure m) units then None
      else
        let available = filter (\<lambda>s. ordinary_ok l units (state_of m (snap_id s)))
                          (map (overlay_admission m now) snapshots)
        in case pick available ctx of None \<Rightarrow> None
           | Some k \<Rightarrow> Some (reserve k now units m, k, InFlight k units))"

definition select_and_acquire_open_ws ::
  "admission_limits \<Rightarrow> selector \<Rightarrow> account_snapshot list \<Rightarrow> selection_ctx \<Rightarrow> i64 \<Rightarrow> states \<Rightarrow>
   (states \<times> account_id \<times> lease) option" where
  "select_and_acquire_open_ws l pick snapshots ctx now m =
     (if 0 < al_global_open_ws l \<and> al_global_open_ws l \<le> total_u32 rt_open_ws m then None
      else
        let available = filter (\<lambda>s. al_account_open_ws l = 0 \<or>
                            rt_open_ws (state_of m (snap_id s)) < ordinary_ws_limit l)
                          (map (overlay_admission m now) snapshots)
        in case pick available ctx of None \<Rightarrow> None
           | Some k \<Rightarrow> Some (reserve_ws k now m, k, Socket k))"

section \<open>Waiting\<close>

datatype 'a wait_result = Acquired 'a | WaitTimeout | Ineligible

text \<open>
  The loop of \<open>select_and_acquire_wait\<close> over the states it wakes up in, in order; the list ends at the
  deadline. Nobody else's change is lost: each round looks at the current map. The patched snapshots
  carry over from round to round, as the \<open>&mut\<close> slice does.
\<close>

fun select_wait ::
  "admission_limits \<Rightarrow> selector \<Rightarrow> account_snapshot list \<Rightarrow> selection_ctx \<Rightarrow> i64 \<Rightarrow> states list \<Rightarrow>
   (states \<times> account_id \<times> lease) wait_result" where
  "select_wait l pick snapshots ctx now [] = WaitTimeout"
| "select_wait l pick snapshots ctx now (m # ms) =
     (if pick (overlay m now snapshots) ctx = None then Ineligible
      else case select_and_acquire l pick snapshots ctx now m of
             Some r \<Rightarrow> Acquired r
           | None \<Rightarrow> select_wait l pick
               (if 0 < al_global_in_flight l \<and> al_global_in_flight l \<le> total_u32 rt_in_flight m
                  \<or> 0 < al_global_in_flight_pressure l \<and>
                    al_global_in_flight_pressure l <
                      add_u32 (total_u32 rt_in_flight_pressure m) (max (ctx_request_pressure_units ctx) 1)
                then snapshots else map (overlay_admission m now) snapshots)
               ctx now ms)"

end
