(* ===== verification/Failover_Policy.thy ===== *)
theory Failover_Policy
  imports Watchdog Credentials Model_Catalog Admission
begin

text \<open>
  What a failed attempt means: the retry verdict and its label (\<open>failover.rs\<close>), and the account-health
  bookkeeping that both transports share (\<open>bench_account_for_failure\<close>, \<open>record_failure\<close> and
  \<open>bench_after_local_refusal\<close> in \<open>ingress.rs\<close>). Metrics and log events are left out.
\<close>

section \<open>The verdict\<close>

datatype verdict = Surface | FailoverNext

definition permanent_code :: "failure_signal \<Rightarrow> string option" where
  "permanent_code sig = Option.bind (fs_error_code sig) (\<lambda>code. class_status (classify_failure code))"

definition classify_upstream :: "failure_signal option \<Rightarrow> verdict" where
  "classify_upstream signal = (case signal of
     None \<Rightarrow> Surface
   | Some sig \<Rightarrow>
       if permanent_code sig \<noteq> None then FailoverNext
       else if is_model_not_found sig then FailoverNext
       else if fs_status sig = 429 then FailoverNext
       else if 500 \<le> fs_status sig \<and> fs_status sig \<le> 599 then FailoverNext
       else if fs_status sig \<in> {401, 403, 408} then FailoverNext
       else Surface)"

definition failover_verdict :: "watchdog_error \<Rightarrow> bool \<Rightarrow> bool \<Rightarrow> verdict" where
  "failover_verdict err attempts_left committed =
     (if committed then Surface else if \<not> attempts_left then Surface
      else case err of
        Upstream signal \<Rightarrow> classify_upstream signal
      | UpstreamHttp response \<Rightarrow> classify_upstream (Some (uh_signal response))
      | CapabilityRejection _ \<Rightarrow> Surface
      | AttemptBudgetExhausted \<Rightarrow> Surface
      | ContinuityUnavailable \<Rightarrow> Surface)"

fun watchdog_error_is_model_not_found :: "watchdog_error \<Rightarrow> bool" where
  "watchdog_error_is_model_not_found (Upstream (Some sig)) = is_model_not_found sig"
| "watchdog_error_is_model_not_found (UpstreamHttp response) = is_model_not_found (uh_signal response)"
| "watchdog_error_is_model_not_found _ = False"

definition signal_reason :: "failure_signal \<Rightarrow> string" where
  "signal_reason sig =
     (if permanent_code sig \<noteq> None then ''permanent_auth''
      else if is_model_not_found sig then ''model_not_found''
      else if fs_status sig = 429 then ''rate_limited''
      else if 500 \<le> fs_status sig \<and> fs_status sig \<le> 599 then ''transient''
      else if fs_status sig \<in> {401, 403, 408} then ''transient'' else ''other'')"

fun failover_reason_code :: "watchdog_error \<Rightarrow> string" where
  "failover_reason_code (Upstream (Some sig)) = signal_reason sig"
| "failover_reason_code (Upstream None) = ''transport_error''"
| "failover_reason_code (UpstreamHttp response) = signal_reason (uh_signal response)"
| "failover_reason_code (CapabilityRejection _) = ''capability_rejection''"
| "failover_reason_code AttemptBudgetExhausted = ''attempt_budget_exhausted''"
| "failover_reason_code ContinuityUnavailable = ''continuity''"

text \<open>The \<open>HashSet\<close> of tried accounts is a list without duplicates.\<close>

definition exclude_tried :: "account_snapshot list \<Rightarrow> account_id list \<Rightarrow> account_snapshot list" where
  "exclude_tried snapshots tried = filter (\<lambda>s. snap_id s \<notin> set tried) snapshots"

fun watchdog_error_code :: "watchdog_error \<Rightarrow> string option" where
  "watchdog_error_code (Upstream (Some sig)) = fs_error_code sig"
| "watchdog_error_code (UpstreamHttp response) = fs_error_code (uh_signal response)"
| "watchdog_error_code _ = None"

section \<open>The shared state\<close>

text \<open>
  \<open>fl_rows\<close> are the durable cooldowns; the account rows, the token cache, the gate and the count of
  external calls are in \<open>fl_auth\<close>.
\<close>

record fleet =
  fl_server :: server
  fl_rows :: "(account_id, cooldown_row) table"
  fl_auth :: auth_state
  fl_catalog :: model_catalog
  fl_limits :: admission_limits

definition on_states :: "(states \<Rightarrow> states) \<Rightarrow> fleet \<Rightarrow> fleet" where
  "on_states f fl = fl\<lparr>fl_server := (fl_server fl)\<lparr>sv_states := f (sv_states (fl_server fl))\<rparr>\<rparr>"

definition fleet_refresh :: "bool option \<Rightarrow> account_id \<Rightarrow> fleet \<Rightarrow> fleet" where
  "fleet_refresh tx k fl =
     fl\<lparr>fl_server := (fl_server fl)\<lparr>sv_refreshes := request_usage_refresh tx k (sv_refreshes (fl_server fl))\<rparr>\<rparr>"

text \<open>\<open>record_routing_cooldown\<close>, whose failure every caller ignores.\<close>

definition write_cooldown :: "auth_env \<Rightarrow> cooldown_write \<Rightarrow> fleet \<Rightarrow> fleet" where
  "write_cooldown env w fl =
     (let au = fl_auth fl; au1 = au\<lparr>as_tick := as_tick au + 1\<rparr> in
      if ae_write env (as_tick au)
      then fl\<lparr>fl_rows := upsert_cooldown w (fl_rows fl), fl_auth := au1\<lparr>as_generation := bump_u64 (as_generation au)\<rparr>\<rparr>
      else fl\<lparr>fl_auth := au1\<rparr>)"

definition fleet_status :: "auth_env \<Rightarrow> account_id \<Rightarrow> string \<Rightarrow> fleet \<Rightarrow> fleet" where
  "fleet_status env k status fl =
     fl\<lparr>fl_auth := note_status k status (update_status env k status (fl_auth fl))\<rparr>"

section \<open>Benching\<close>

definition bench_after_local_refusal :: "account_id \<Rightarrow> i64 \<Rightarrow> fleet \<Rightarrow> fleet" where
  "bench_after_local_refusal k now fl = on_states (\<lambda>m. fst (record_transient_error k now m)) fl"

definition overload_isolation_secs :: i64 where "overload_isolation_secs = 1800"
definition upstream_overload_codes :: "string list" where
  "upstream_overload_codes = [''server_is_overloaded'', ''overloaded_error'']"
definition upstream_soft_overload_codes :: "string list" where
  "upstream_soft_overload_codes = [''server_error'']"

text \<open>The sliding window of admission rejections, before and besides everything else.\<close>

definition bench_overload :: "account_id \<Rightarrow> failure_signal option \<Rightarrow> i64 \<Rightarrow> fleet \<Rightarrow> fleet" where
  "bench_overload k sig now fl = (case Option.bind sig fs_error_code of
     None \<Rightarrow> fl
   | Some code \<Rightarrow>
       (let hard = (code \<in> set upstream_overload_codes); soft = (code \<in> set upstream_soft_overload_codes)
        in if hard \<or> soft
           then on_states (\<lambda>m. fst (record_overload_rejection k now soft overload_isolation_secs m)) fl else fl))"

definition is_hard_limit :: "failure_signal \<Rightarrow> bool" where
  "is_hard_limit sig \<longleftrightarrow> fs_error_code sig \<in> set [Some ''blocked'', Some ''queueing_hard'', Some ''payment_required'']"

definition codeless_burst :: "failure_signal \<Rightarrow> bool" where
  "codeless_burst sig \<longleftrightarrow> fs_status sig = 429 \<and> fs_error_code sig = None \<and>
     (case fs_retry_after sig of None \<Rightarrow> True | Some secs \<Rightarrow> secs \<le> 30)"

definition bench_rate_limit :: "auth_env \<Rightarrow> bool option \<Rightarrow> account_id \<Rightarrow> failure_signal \<Rightarrow> i64 \<Rightarrow> fleet \<Rightarrow> fleet" where
  "bench_rate_limit env tx k sig now fl =
     (let fl1 = fleet_refresh tx k fl;
          delay = clamp_int 30 86400 (unwrap_or (fs_retry_after sig) 30);
          reason = (if fs_status sig = 529 then ''overloaded'' else ''rate_limit'');
          fl2 = write_cooldown env \<lparr>cw_account = k, cw_until = add_i64 now delay, cw_reason = reason, cw_updated_at = now\<rparr> fl1;
          sv = fl_server fl2;
          ((m, q), _) = record_rate_limit tx k (fs_retry_after sig) now (sv_states sv, sv_cooldowns sv)
      in fl2\<lparr>fl_server := sv\<lparr>sv_states := m, sv_cooldowns := q\<rparr>\<rparr>)"

definition bench_quota :: "auth_env \<Rightarrow> bool option \<Rightarrow> account_id \<Rightarrow> i64 \<Rightarrow> fleet \<Rightarrow> fleet" where
  "bench_quota env tx k now fl =
     (let sv = fl_server fl;
          (m, q) = record_quota_exceeded tx k now (sv_states sv, sv_cooldowns sv);
          fl1 = fl\<lparr>fl_server := sv\<lparr>sv_states := m, sv_cooldowns := q\<rparr>\<rparr>
      in fleet_refresh tx k
           (write_cooldown env \<lparr>cw_account = k, cw_until = add_i64 now 120, cw_reason = ''quota'', cw_updated_at = now\<rparr> fl1))"

definition bench_transient :: "account_id \<Rightarrow> i64 \<Rightarrow> fleet \<Rightarrow> fleet" where
  "bench_transient k now fl = on_states (\<lambda>m. fst (record_transient_error k now (record_outcome k now False m))) fl"

definition bench_by_status :: "auth_env \<Rightarrow> bool option \<Rightarrow> account_id \<Rightarrow> failure_signal \<Rightarrow> i64 \<Rightarrow> fleet \<Rightarrow> fleet" where
  "bench_by_status env tx k sig now fl =
     (if codeless_burst sig then on_states (\<lambda>m. fst (record_burst_rejection k now (fs_retry_after sig) m)) fl
      else if fs_status sig = 429 \<or> fs_status sig = 529 \<or> is_hard_limit sig then bench_rate_limit env tx k sig now fl
      else if 500 \<le> fs_status sig \<and> fs_status sig \<le> 599 \<or> fs_status sig \<in> {401, 403, 408} then bench_transient k now fl
      else fl)"

definition bench_account_for_failure ::
  "auth_env \<Rightarrow> bool option \<Rightarrow> account_id \<Rightarrow> failure_signal option \<Rightarrow> i64 \<Rightarrow> fleet \<Rightarrow> fleet" where
  "bench_account_for_failure env tx k signal now fl0 =
     (let fl = bench_overload k signal now fl0 in
      case signal of
        None \<Rightarrow> fl
      | Some sig \<Rightarrow>
          (case fs_error_code sig of
             None \<Rightarrow> bench_by_status env tx k sig now fl
           | Some code \<Rightarrow>
               (if code = ''out_of_credits'' then fl
                else if code \<in> set [''insufficient_quota'', ''usage_not_included''] then bench_quota env tx k now fl
                else case class_status (classify_failure code) of
                       Some status \<Rightarrow> fleet_status env k status fl
                     | None \<Rightarrow> bench_by_status env tx k sig now fl)))"

definition record_failure ::
  "auth_env \<Rightarrow> bool option \<Rightarrow> account_id \<Rightarrow> watchdog_error \<Rightarrow> i64 \<Rightarrow> fleet \<Rightarrow> fleet" where
  "record_failure env tx k err now fl = (case err of
     Upstream signal \<Rightarrow> bench_account_for_failure env tx k signal now fl
   | UpstreamHttp response \<Rightarrow> bench_account_for_failure env tx k (Some (uh_signal response)) now fl
   | _ \<Rightarrow> fl)"

end
