(* ===== verification/Reselect.thy ===== *)
theory Reselect
  imports Failover_Policy
begin

text \<open>
  One attempt on a reselected account, as the cyber reroute, the failover loop and both starvation
  layers make it (\<open>ingress.rs\<close>): note the selection, resolve the credentials, take a lease, execute,
  and on failure release the lease and record the failure. Local refusals bench the account. What the
  upstream, the clock and the random draws do at each attempt are parameters indexed by its number.
\<close>

record failover_env =
  fe_auth :: auth_env
  fe_tx :: "bool option"
  fe_pick :: "nat \<Rightarrow> account_snapshot list \<Rightarrow> selection_ctx \<Rightarrow> account_id option"
  fe_wd :: "nat \<Rightarrow> core_account \<Rightarrow> wd_env"
  fe_now :: "nat \<Rightarrow> i64"
  fe_idle :: nat
  fe_ride_out_secs :: nat
  fe_extra :: "nat \<Rightarrow> nat"
  fe_max_attempts :: u32

text \<open>The parts of a request that every attempt of its turn shares.\<close>

record turn =
  tn_req :: prepared_request
  tn_ctx :: request_ctx
  tn_session_key :: "session_key option"
  tn_sel :: selection_ctx
  tn_now :: i64

datatype attempt =
    Unresolved auth_refusal
  | NotAdmitted
  | Served observing lease
  | AttemptFailed watchdog_error bool
  | AttemptPanicked

definition fx_of :: "failover_env \<Rightarrow> nat \<Rightarrow> account_id \<Rightarrow> request_ctx \<Rightarrow> fx_ctx" where
  "fx_of env n k ctx = \<lparr>fc_account = k, fc_ctx = ctx, fc_now = fe_now env n, fc_bucket_now = fe_now env n, fc_tx = fe_tx env\<rparr>"

definition drop_lease :: "lease \<Rightarrow> fleet \<Rightarrow> fleet" where
  "drop_lease l fl = on_states (release l) fl"

definition attempt_on ::
  "failover_env \<Rightarrow> nat \<Rightarrow> account_id \<Rightarrow> turn \<Rightarrow> u32 \<Rightarrow> fleet \<Rightarrow> attempt \<times> effect list \<times> fleet" where
  "attempt_on env n fresh t max_attempts fl0 =
     (let now = tn_now t; fl1 = on_states (record_selected fresh now) fl0
      in case resolve_core_account (fe_auth env) fresh now (fl_auth fl1) of
        (Inl refusal, au) \<Rightarrow> (Unresolved refusal, [], bench_after_local_refusal fresh now (fl1\<lparr>fl_auth := au\<rparr>))
      | (Inr (account, _), au) \<Rightarrow>
          (let fl2 = fl1\<lparr>fl_auth := au\<rparr>; sv = fl_server fl2
           in case try_acquire_in_flight_weighted (fl_limits fl2) fresh now (ctx_request_pressure_units (tn_sel t)) (sv_states sv) of
                None \<Rightarrow> (NotAdmitted, [], bench_after_local_refusal fresh now fl2)
              | Some (m, lease) \<Rightarrow>
                  (let (res, fx, reg) = execute_recovery_tracked (fe_wd env n account) 0 (tn_req t) fresh (tn_ctx t)
                         (tn_session_key t) (fe_idle env) max_attempts (sv_registry sv);
                       fl3 = fl2\<lparr>fl_server := apply_effects (fx_of env n fresh (tn_ctx t)) fx
                                   (sv\<lparr>sv_states := m, sv_registry := reg, sv_committed := False\<rparr>)\<rparr>
                   in case res of
                        Relayed ob \<Rightarrow> (Served ob lease, fx, fl3)
                      | Rejected err \<Rightarrow>
                          (AttemptFailed err (sv_committed (fl_server fl3)), fx,
                           record_failure (fe_auth env) (fe_tx env) fresh err (fe_now env n) (drop_lease lease fl3))
                      | Signalled \<Rightarrow> (AttemptPanicked, fx, drop_lease lease fl3)
                      | Crashed \<Rightarrow> (AttemptPanicked, fx, drop_lease lease fl3))))"

section \<open>Responses\<close>

datatype response =
    Stream observing lease
  | SurfacedError watchdog_error
  | CapacityRefused string
  | NoAuthorizedAccount
  | AdmissionRefused account_id
  | AuthRefused auth_refusal
  | UpstreamError
  | WaitStream account_id i64
  | PanicResponse

fun status_valid :: "u16 \<Rightarrow> bool" where
  "status_valid s = (100 \<le> s \<and> s \<le> 999)"

fun surface_status :: "watchdog_error \<Rightarrow> u16" where
  "surface_status AttemptBudgetExhausted = 400"
| "surface_status (UpstreamHttp r) = (if status_valid (fs_status (uh_signal r)) then fs_status (uh_signal r) else 502)"
| "surface_status _ = 502"

fun auth_status :: "auth_refusal \<Rightarrow> u16" where
  "auth_status InternalError = 500"
| "auth_status (AccountUnavailable _) = 503"

fun response_status :: "response \<Rightarrow> u16" where
  "response_status (Stream _ _) = 200"
| "response_status (SurfacedError err) = surface_status err"
| "response_status (CapacityRefused _) = 503"
| "response_status NoAuthorizedAccount = 503"
| "response_status (AdmissionRefused _) = 503"
| "response_status (AuthRefused r) = auth_status r"
| "response_status UpstreamError = 502"
| "response_status (WaitStream _ _) = 200"
| "response_status PanicResponse = 500"

section \<open>The cyber reroute\<close>

definition mark_capability :: "i64 \<Rightarrow> session_key option \<Rightarrow> fleet \<Rightarrow> fleet" where
  "mark_capability now sk fl = (case sk of
     None \<Rightarrow> fl
   | Some key \<Rightarrow> fl\<lparr>fl_server := (fl_server fl)\<lparr>sv_continuity :=
       mark_required_capability now key ''security_work'' (sv_continuity (fl_server fl))\<rparr>\<rparr>)"

definition reroute_cyber_rejection ::
  "failover_env \<Rightarrow> recovery_plan \<Rightarrow> account_snapshot list \<Rightarrow> turn \<Rightarrow> fleet \<Rightarrow> response \<times> (account_id \<times> effect list) list \<times> fleet" where
  "reroute_cyber_rejection env recovery snapshots t fl = (case recovery of
     ResendFull anchorless_req \<Rightarrow>
       (let cyber = (tn_sel t)\<lparr>ctx_require_security := True\<rparr> in
        case fe_pick env 0 snapshots cyber of
          None \<Rightarrow> (NoAuthorizedAccount, [], fl)
        | Some fresh \<Rightarrow>
            (case attempt_on env 0 fresh (t\<lparr>tn_req := anchorless_req\<rparr>) (fe_max_attempts env) fl of
               (Unresolved refusal, fx, fl1) \<Rightarrow> (AuthRefused refusal, [], fl1)
             | (NotAdmitted, fx, fl1) \<Rightarrow> (AdmissionRefused fresh, [], fl1)
             | (Served ob lease, fx, fl1) \<Rightarrow> (Stream ob lease, [(fresh, fx)], mark_capability (fe_now env 0) (tn_session_key t) fl1)
             | (AttemptFailed err _, fx, fl1) \<Rightarrow> (SurfacedError err, [(fresh, fx)], fl1)
             | (AttemptPanicked, fx, fl1) \<Rightarrow> (PanicResponse, [(fresh, fx)], fl1)))
   | _ \<Rightarrow> (UpstreamError, [], fl))"

section \<open>Layer 1: serve the soonest error backoff now\<close>

definition layer1_guard :: "backoff_census \<Rightarrow> bool" where
  "layer1_guard census \<longleftrightarrow> 1 < bc_error_backoff_count census \<or>
     bc_error_backoff_count census = 1 \<and> bc_has_hardblocked census"

definition try_layer1_serve_now ::
  "failover_env \<Rightarrow> nat \<Rightarrow> account_snapshot list \<Rightarrow> turn \<Rightarrow> fleet \<Rightarrow>
   response option \<times> (account_id \<times> effect list) list \<times> fleet" where
  "try_layer1_serve_now env n snapshots t fl =
     (case soonest_recover snapshots (tn_sel t) of
        None \<Rightarrow> (None, [], fl)
      | Some r \<Rightarrow>
          (if r_kind r \<noteq> ErrorBackoff \<or> \<not> layer1_guard (backoff_census_of snapshots (tn_sel t)) then (None, [], fl)
           else (case attempt_on env n (r_account_id r) t (fe_max_attempts env) fl of
                   (Unresolved refusal, fx, fl1) \<Rightarrow> (Some (AuthRefused refusal), [], fl1)
                 | (NotAdmitted, fx, fl1) \<Rightarrow> (None, [], fl1)
                 | (Served ob lease, fx, fl1) \<Rightarrow> (Some (Stream ob lease), [(r_account_id r, fx)], fl1)
                 | (AttemptFailed err _, fx, fl1) \<Rightarrow> (Some (SurfacedError err), [(r_account_id r, fx)], fl1)
                 | (AttemptPanicked, fx, fl1) \<Rightarrow> (Some PanicResponse, [(r_account_id r, fx)], fl1))))"

section \<open>Layer 2: wait for a cooldown inside the stream\<close>

definition try_layer2_recovery_wait :: "nat \<Rightarrow> account_snapshot list \<Rightarrow> turn \<Rightarrow> response option" where
  "try_layer2_recovery_wait budget_ms snapshots t =
     (if budget_ms = 0 then None
      else case soonest_recover snapshots (tn_sel t) of
        None \<Rightarrow> None
      | Some r \<Rightarrow> if r_kind r \<noteq> Cooldown then None else Some (WaitStream (r_account_id r) (r_recover_at r)))"

end
