(* ===== verification/Snapshots.thy ===== *)
theory Snapshots
  imports Account_Auth
begin

text \<open>
  The snapshots that selection takes (\<open>polyflare-server/src/snapshot.rs\<close>): stored rows joined with the latest usage
  windows, which are told apart by their duration (\<open>usage_windows.rs\<close>), the cache in front of them
  (\<open>account_cache.rs\<close>) and the filters by provider, pool and kind of traffic. A read of the store is a list of rows.
\<close>

section \<open>Usage windows\<close>

record window_usage =
  wu_used_percent :: f64
  wu_reset_at :: "i64 option"
  wu_window_minutes :: "i64 option"
  wu_recorded_at :: i64

record usage_snapshot =
  us_primary :: "window_usage option"
  us_secondary :: "window_usage option"

definition stale_after_secs :: i64 where "stale_after_secs = 1800"
definition short_window_max_minutes :: i64 where "short_window_max_minutes = 1440"

datatype window_kind = FiveHour | Weekly

definition classify_window :: "window_usage \<Rightarrow> bool \<Rightarrow> window_kind" where
  "classify_window window slot_is_primary =
     (case wu_window_minutes window of
        Some m \<Rightarrow> if m < short_window_max_minutes then FiveHour else Weekly
      | None \<Rightarrow> if slot_is_primary then FiveHour else Weekly)"

definition window_candidates :: "usage_snapshot \<Rightarrow> (window_kind \<times> window_usage) list" where
  "window_candidates usage =
     (case us_primary usage of Some w \<Rightarrow> [(classify_window w True, w)] | None \<Rightarrow> []) @
     (case us_secondary usage of Some w \<Rightarrow> [(classify_window w False, w)] | None \<Rightarrow> [])"

text \<open>\<open>max_by_key\<close> keeps the last of several maxima. The difference of two instants does not overflow.\<close>

definition newer_window :: "window_usage option \<Rightarrow> window_usage \<Rightarrow> window_usage option" where
  "newer_window best w = (case best of None \<Rightarrow> Some w
     | Some b \<Rightarrow> if wu_recorded_at b \<le> wu_recorded_at w then Some w else Some b)"

definition newest_window :: "window_usage list \<Rightarrow> window_usage option" where
  "newest_window ws = foldl newer_window None ws"

definition resolved_window :: "i64 \<Rightarrow> window_usage \<Rightarrow> quota_window" where
  "resolved_window now w =
     \<lparr>qw_used_percent = wu_used_percent w, qw_window_minutes = wu_window_minutes w, qw_reset_at = wu_reset_at w,
      qw_recorded_at = wu_recorded_at w, qw_stale = stale_after_secs < now - wu_recorded_at w\<rparr>"

definition pick_window :: "usage_snapshot \<Rightarrow> i64 \<Rightarrow> window_kind \<Rightarrow> quota_window option" where
  "pick_window usage now kind = map_option (resolved_window now)
     (newest_window (map snd (filter (\<lambda>(k, _). k = kind) (window_candidates usage))))"

text \<open>A window is found when upstream reports one of its kind in either slot, and no newer one of the kind is passed over.\<close>

lemma newest_window_fold:
  "foldl newer_window (Some b) ws = Some c \<Longrightarrow>
   c \<in> set (b # ws) \<and> (\<forall>w \<in> set (b # ws). wu_recorded_at w \<le> wu_recorded_at c)"
proof (induction ws arbitrary: b)
  case (Cons w ws)
  show ?case
  proof (cases "wu_recorded_at b \<le> wu_recorded_at w")
    case True
    then have "c \<in> set (w # ws) \<and> (\<forall>x \<in> set (w # ws). wu_recorded_at x \<le> wu_recorded_at c)"
      using Cons.prems by (intro Cons.IH) (simp add: newer_window_def)
    with True show ?thesis by auto
  next
    case False
    then have "c \<in> set (b # ws) \<and> (\<forall>x \<in> set (b # ws). wu_recorded_at x \<le> wu_recorded_at c)"
      using Cons.prems by (intro Cons.IH) (simp add: newer_window_def)
    with False show ?thesis by auto
  qed
qed simp

lemma newest_window_Some:
  assumes "newest_window ws = Some c"
  shows "c \<in> set ws \<and> (\<forall>w \<in> set ws. wu_recorded_at w \<le> wu_recorded_at c)"
proof (cases ws)
  case Nil
  with assms show ?thesis by (simp add: newest_window_def)
next
  case (Cons w rest)
  with assms newest_window_fold [of w rest c] show ?thesis by (simp add: newest_window_def newer_window_def)
qed

section \<open>Assembly\<close>

text \<open>What is read of one account; \<open>sa_auth_mode\<close> is its entry in the table of auth modes.\<close>

record stored_account =
  sa_id :: account_id
  sa_provider :: string
  sa_status :: string
  sa_reset_at :: "i64 option"
  sa_usage_cap_percent :: "f64 option"
  sa_usage_cap_override :: bool
  sa_routing_policy :: string
  sa_plan_type :: string
  sa_security_work_authorized :: bool
  sa_pool :: "string option"
  sa_auth_mode :: "auth_mode option"
  sa_usage :: usage_snapshot
  sa_routing_cooldown :: "i64 option"
  sa_pools :: "string list"
  sa_capacity :: "f64 option"

definition snapshot_of :: "i64 \<Rightarrow> provider \<Rightarrow> stored_account \<Rightarrow> account_snapshot" where
  "snapshot_of now provider account =
     (let five_hour = pick_window (sa_usage account) now FiveHour; weekly = pick_window (sa_usage account) now Weekly in
      (new_snapshot (sa_id account))\<lparr>
        snap_status := sa_status account,
        snap_used_percent := (case five_hour of None \<Rightarrow> F_Num 0 | Some w \<Rightarrow> qw_used_percent w),
        snap_secondary_used_percent := (case weekly of None \<Rightarrow> F_Num 0 | Some w \<Rightarrow> qw_used_percent w),
        snap_five_hour_quota := five_hour,
        snap_weekly_quota := weekly,
        snap_reset_at := sa_reset_at account,
        snap_cooldown_until := sa_routing_cooldown account,
        snap_capacity_credits := sa_capacity account,
        snap_usage_cap_percent := sa_usage_cap_percent account,
        snap_usage_cap_override := sa_usage_cap_override account,
        snap_routing_policy := sa_routing_policy account,
        snap_plan_type := sa_plan_type account,
        snap_security_work_authorized := sa_security_work_authorized account,
        snap_provider := provider,
        snap_subscription_oauth := (sa_auth_mode account \<notin> {Some CodexOauth, Some StaticBearer}),
        snap_pools := sa_pools account,
        snap_pool := opt_or (sa_pool account) (case sa_pools account of [] \<Rightarrow> None | slug # _ \<Rightarrow> Some slug)\<rparr>)"

definition assemble_snapshots :: "i64 \<Rightarrow> stored_account list \<Rightarrow> account_snapshot list" where
  "assemble_snapshots now accounts = List.map_filter (\<lambda>account.
     case provider_parse (sa_provider account) of Inl _ \<Rightarrow> None | Inr provider \<Rightarrow> Some (snapshot_of now provider account)) accounts"

section \<open>Filters\<close>

definition filter_by_provider :: "provider \<Rightarrow> account_snapshot list \<Rightarrow> account_snapshot list" where
  "filter_by_provider provider snapshots = filter (\<lambda>s. snap_provider s = provider) snapshots"

definition filter_by_pool :: "string option \<Rightarrow> account_snapshot list \<Rightarrow> account_snapshot list" where
  "filter_by_pool pool snapshots =
     (case pool of None \<Rightarrow> snapshots | Some slug \<Rightarrow> filter (\<lambda>s. slug \<in> set (snap_pools s)) snapshots)"

definition in_pool :: "string option \<Rightarrow> account_snapshot \<Rightarrow> bool" where
  "in_pool pool s \<longleftrightarrow> (case pool of None \<Rightarrow> True | Some slug \<Rightarrow> slug \<in> set (snap_pools s))"

definition filter_by_provider_and_pool :: "provider \<Rightarrow> string option \<Rightarrow> account_snapshot list \<Rightarrow> account_snapshot list" where
  "filter_by_provider_and_pool provider pool snapshots = filter (\<lambda>s. snap_provider s = provider \<and> in_pool pool s) snapshots"

datatype messages_traffic = ClaudeNative | Translated

definition filter_by_traffic_eligibility :: "messages_traffic \<Rightarrow> account_snapshot list \<Rightarrow> account_snapshot list" where
  "filter_by_traffic_eligibility traffic snapshots =
     (case traffic of ClaudeNative \<Rightarrow> snapshots | Translated \<Rightarrow> filter (\<lambda>s. \<not> snap_subscription_oauth s) snapshots)"

lemma provider_and_pool_in_one_pass:
  "filter_by_provider_and_pool provider pool snapshots = filter_by_pool pool (filter_by_provider provider snapshots)"
  by (simp add: filter_by_provider_and_pool_def filter_by_pool_def filter_by_provider_def in_pool_def split: option.split)

text \<open>Translated bytes are only sent on a credential that is known not to be a first-party grant.\<close>

lemma translated_traffic_credential:
  assumes "s \<in> set (filter_by_traffic_eligibility Translated (assemble_snapshots now accounts))"
  shows "\<exists>account \<in> set accounts. sa_id account = snap_id s \<and> sa_auth_mode account \<in> {Some CodexOauth, Some StaticBearer}"
  using assms
  by (auto simp: filter_by_traffic_eligibility_def assemble_snapshots_def map_filter_def snapshot_of_def Let_def new_snapshot_def
      split: sum.splits)

section \<open>The cache\<close>

record account_cache =
  ac_snapshots :: "account_snapshot list"
  ac_built_at :: nat
  ac_generation :: u64

definition account_cache_ttl :: nat where "account_cache_ttl = 5 * 10 ^ 9"

definition cache_fresh :: "nat \<Rightarrow> u64 \<Rightarrow> account_cache option \<Rightarrow> account_snapshot list option" where
  "cache_fresh now current_generation cached =
     (case cached of
        Some c \<Rightarrow> if ac_generation c = current_generation \<and> now - ac_built_at c < account_cache_ttl then Some (ac_snapshots c) else None
      | None \<Rightarrow> None)"

text \<open>
  A miss, from the generation it read under the rebuild lock to the pool it stores; between the two the store may change,
  so what is assembled is an argument.
\<close>

definition cache_rebuilt :: "u64 \<Rightarrow> account_snapshot list \<Rightarrow> nat \<Rightarrow> account_cache option" where
  "cache_rebuilt generation assembled now = Some \<lparr>ac_snapshots = assembled, ac_built_at = now, ac_generation = generation\<rparr>"

end
