(* ===== verification/Ws_Frames.thy ===== *)
theory Ws_Frames
  imports Core_Types
begin

text \<open>
  The frames of the upstream WebSocket transport (\<open>polyflare-codex/src/ws/delta.rs\<close> and
  \<open>codec.rs\<close>): which turns go out as an increment on the previous response, the envelope that is
  sent, and what a received frame means. \<open>sha256\<close> and the JSON printer and parser are parameters;
  \<open>we_print\<close> is also what \<open>Value::to_string\<close> and \<open>i64::to_string\<close> print.
\<close>

record codec_env =
  we_sha :: "string \<Rightarrow> string"
  we_print :: "json \<Rightarrow> string"
  we_parse :: "string \<Rightarrow> json option"

section \<open>Increments\<close>

definition non_input_fields :: "string list" where
  "non_input_fields = [''model'', ''instructions'', ''tools'', ''tool_choice'', ''parallel_tool_calls'', ''reasoning'',
     ''store'', ''stream'', ''include'', ''service_tier'', ''prompt_cache_key'', ''text'']"

definition input_items :: "json \<Rightarrow> json list" where
  "input_items body = unwrap_or (Option.bind (jget ''input'' body) as_array) []"

definition item_hash :: "'a codec_env_scheme \<Rightarrow> json \<Rightarrow> string" where
  "item_hash env item = we_sha env (we_print env item)"

definition item_hashes :: "'a codec_env_scheme \<Rightarrow> json \<Rightarrow> string list" where
  "item_hashes env body = map (item_hash env) (input_items body)"

definition present_fields :: "json \<Rightarrow> (string \<times> json) list" where
  "present_fields body =
     foldl (\<lambda>present field. case jget field body of Some v \<Rightarrow> obj_put field v present | None \<Rightarrow> present) [] non_input_fields"

definition non_input_fingerprint :: "'a codec_env_scheme \<Rightarrow> json \<Rightarrow> string" where
  "non_input_fingerprint env body = we_sha env (we_print env (JObj (present_fields body)))"

datatype request_plan = Incremental string "json list" | FullPlan

definition plan_request ::
  "'a codec_env_scheme \<Rightarrow> string option \<Rightarrow> string list option \<Rightarrow> string option \<Rightarrow> json \<Rightarrow> request_plan" where
  "plan_request env last_response_id last_item_hashes last_fingerprint body =
     (case (last_response_id, last_item_hashes) of
        (Some anchor, Some prior) \<Rightarrow>
          (let new = item_hashes env body in
           if length new \<le> length prior then FullPlan
           else if take (length prior) new \<noteq> prior then FullPlan
           else if last_fingerprint \<noteq> Some (non_input_fingerprint env body) then FullPlan
           else Incremental anchor (drop (length prior) (input_items body)))
      | _ \<Rightarrow> FullPlan)"

section \<open>The envelope\<close>

definition client_metadata_put :: "string \<Rightarrow> json \<Rightarrow> (string \<times> json) list \<Rightarrow> (string \<times> json) list" where
  "client_metadata_put k v kvs =
     (let slot = (case map_of kvs ''client_metadata'' of Some (JObj m) \<Rightarrow> m | _ \<Rightarrow> [])
      in obj_put ''client_metadata'' (JObj (obj_put k v slot)) kvs)"

definition obj_set :: "string \<Rightarrow> json option \<Rightarrow> (string \<times> json) list \<Rightarrow> (string \<times> json) list" where
  "obj_set k v kvs = (case v of Some w \<Rightarrow> obj_put k w kvs | None \<Rightarrow> AList.delete k kvs)"

text \<open>\<open>None\<close> is the panic on a body that is not an object.\<close>

fun build_response_create ::
  "'a codec_env_scheme \<Rightarrow> i64 \<Rightarrow> json \<Rightarrow> string option \<Rightarrow> json list \<Rightarrow> bool option \<Rightarrow> json option" where
  "build_response_create env now_ms (JObj kvs) anchor input generate =
     Some (JObj (client_metadata_put ''x-codex-ws-stream-request-start-ms'' (JStr (we_print env (JInt now_ms)))
       (obj_set ''generate'' (map_option JBool generate)
         (obj_set ''previous_response_id'' (map_option JStr anchor)
           (obj_put ''input'' (JArr input) (obj_put ''type'' (JStr ''response.create'') kvs))))))"
| "build_response_create env now_ms _ anchor input generate = None"

definition frame_to_sse :: "'a codec_env_scheme \<Rightarrow> string \<Rightarrow> string option" where
  "frame_to_sse env frame =
     map_option (\<lambda>v. ''data: '' @ we_print env v @ [CHR 0x0A, CHR 0x0A]) (we_parse env frame)"

section \<open>Classification of a received frame\<close>

datatype frame_class =
    EventFrame
  | CompletedFrame
  | FailedFrame
  | IncompleteFrame
  | AnchorMiss
  | ConnectionLimitReached
  | ErrorFrame exec_error

text \<open>\<open>str::parse::<i64>\<close>\<close>

fun digits_value :: "nat \<Rightarrow> string \<Rightarrow> nat option" where
  "digits_value acc [] = Some acc"
| "digits_value acc (c # cs) =
     (let n = of_char c :: nat in if 48 \<le> n \<and> n \<le> 57 then digits_value (acc * 10 + (n - 48)) cs else None)"

definition parse_i64 :: "string \<Rightarrow> i64 option" where
  "parse_i64 s =
     (let (neg, ds) = (case s of c # cs \<Rightarrow> if c = CHR ''-'' then (True, cs) else if c = CHR ''+'' then (False, cs) else (False, s)
                       | [] \<Rightarrow> (False, []))
      in if ds = [] then None
         else opt_filter in_i64 (map_option (\<lambda>n. if neg then - int n else int n) (digits_value 0 ds)))"

definition envelope_retry_after :: "json \<Rightarrow> i64 option" where
  "envelope_retry_after headers =
     opt_filter (\<lambda>s. 0 \<le> s) (Option.bind (Option.bind (jget ''retry-after'' headers) as_str) (\<lambda>s. parse_i64 (str_trim s)))"

definition classify :: "json \<Rightarrow> frame_class" where
  "classify frame =
     (let ty = unwrap_or (Option.bind (jget ''type'' frame) as_str) '''' in
      if ty = ''response.completed'' then CompletedFrame
      else if ty = ''response.failed'' then FailedFrame
      else if ty = ''response.incomplete'' then IncompleteFrame
      else if ty = ''error'' then
        (let error_code = jpath_str [''error'', ''code''] frame; code = unwrap_or error_code '''' in
         if code = ''previous_response_not_found'' then AnchorMiss
         else if code = ''websocket_connection_limit_reached'' then ConnectionLimitReached
         else ErrorFrame (ExUpstreamStatus
           \<lparr>fs_status = unwrap_or (Option.bind (jget ''status'' frame) as_u64) 0 mod 65536,
            fs_retry_after = Option.bind (jget ''headers'' frame) envelope_retry_after,
            fs_error_code = error_code\<rparr>))
      else EventFrame)"

section \<open>What the envelope carries\<close>

lemma obj_set_get: "map_of (obj_set k v kvs) x = (if x = k then v else map_of kvs x)"
  by (auto simp: obj_set_def obj_put_get delete_conv split: option.split)

lemma client_metadata_put_get: "x \<noteq> ''client_metadata'' \<Longrightarrow> map_of (client_metadata_put k v kvs) x = map_of kvs x"
  by (simp add: client_metadata_put_def Let_def obj_put_get)

lemmas envelope_gets = obj_set_get client_metadata_put_get obj_put_get

lemma built_fields:
  assumes "build_response_create env now body anchor input generate = Some envelope"
  shows "jget ''input'' envelope = Some (JArr input)" "jget ''previous_response_id'' envelope = map_option JStr anchor"
    "k \<notin> {''type'', ''input'', ''previous_response_id'', ''generate'', ''client_metadata''} \<Longrightarrow> jget k envelope = jget k body"
  using assms by (cases body; auto simp: envelope_gets)+

lemma built_input:
  "build_response_create env now body anchor input generate = Some envelope \<Longrightarrow> input_items envelope = input"
  by (simp add: input_items_def built_fields)

lemma present_fields_cong:
  "(\<And>k. k \<in> set non_input_fields \<Longrightarrow> jget k a = jget k b) \<Longrightarrow> present_fields a = present_fields b"
  unfolding present_fields_def by (rule foldl_cong) auto

lemma built_present_fields:
  assumes "build_response_create env now body anchor input generate = Some envelope"
  shows "present_fields envelope = present_fields body"
  by (rule present_fields_cong) (auto intro!: built_fields(3) [OF assms] simp: non_input_fields_def)

lemma built_fingerprint:
  "build_response_create env now body anchor input generate = Some envelope \<Longrightarrow>
   non_input_fingerprint env envelope = non_input_fingerprint env body"
  by (simp add: non_input_fingerprint_def built_present_fields)

lemma plan_Incremental:
  "plan_request env last_id prior fp body = Incremental anchor suffix \<longleftrightarrow>
     (\<exists>hashes. last_id = Some anchor \<and> prior = Some hashes \<and> length hashes < length (input_items body) \<and>
        map (item_hash env) (take (length hashes) (input_items body)) = hashes \<and>
        fp = Some (non_input_fingerprint env body) \<and> suffix = drop (length hashes) (input_items body))"
  by (auto simp: plan_request_def item_hashes_def take_map Let_def split: option.splits if_splits)

lemma map_of_present:
  "k \<in> set ks \<Longrightarrow> map_of (foldl (\<lambda>present field. case jget field body of Some v \<Rightarrow> obj_put field v present | None \<Rightarrow> present) acc ks) k =
     (case jget k body of Some v \<Rightarrow> Some v | None \<Rightarrow> map_of acc k)"
proof (induction ks arbitrary: acc)
  case (Cons f fs)
  have notin: "x \<notin> set ks' \<Longrightarrow>
    map_of (foldl (\<lambda>present field. case jget field body of Some v \<Rightarrow> obj_put field v present | None \<Rightarrow> present) acc' ks') x = map_of acc' x"
    for x acc' ks' by (induction ks' arbitrary: acc') (auto simp: obj_put_get split: option.split)
  show ?case
    using Cons by (cases "k \<in> set fs") (auto simp: obj_put_get notin split: option.split)
qed simp

lemma present_fields_get:
  "k \<in> set non_input_fields \<Longrightarrow> map_of (present_fields body) k = jget k body"
  by (auto simp: present_fields_def map_of_present split: option.split)

end
