(* ===== verification/Owner_Affine.thy ===== *)
theory Owner_Affine
  imports Reselect Snapshots Ws_Frames
begin

text \<open>
  Routing by soft ownership (\<open>resolve_owner_affine_account_inner\<close> in \<open>polyflare-server/src/control.rs\<close>), as the
  relay's handshake, its moves and the unary endpoints use it: the account that owns the session serves, unless it is
  not eligible, refuses new work for capacity while a sibling does not, or has no socket slot left. And what the unary
  endpoints do with the answer of the account. The snapshots are what the cache serves; a waiting loop is given the
  states it wakes up in.
\<close>

section \<open>Waiting for a reservation\<close>

fun wait_rounds :: "(states \<Rightarrow> 'a option) \<Rightarrow> states list \<Rightarrow> 'a option" where
  "wait_rounds attempt [] = None"
| "wait_rounds attempt (m # ms) = (case attempt m of Some r \<Rightarrow> Some r | None \<Rightarrow> wait_rounds attempt ms)"

definition acquire_pinned_in_flight ::
  "admission_limits \<Rightarrow> account_id \<Rightarrow> i64 \<Rightarrow> states list \<Rightarrow> (states \<times> lease \<times> bool) option" where
  "acquire_pinned_in_flight l k now ms = wait_rounds (pinned_attempt l k now 1) ms"

definition acquire_pinned_open_ws ::
  "admission_limits \<Rightarrow> account_id \<Rightarrow> i64 \<Rightarrow> states list \<Rightarrow> (states \<times> lease \<times> bool) option" where
  "acquire_pinned_open_ws l k now ms = wait_rounds (pinned_ws_attempt l k now) ms"

text \<open>The loop of \<open>select_and_acquire_open_ws_wait\<close>, as \<open>select_wait\<close> is that of the requests.\<close>

fun select_ws_wait ::
  "admission_limits \<Rightarrow> selector \<Rightarrow> account_snapshot list \<Rightarrow> selection_ctx \<Rightarrow> i64 \<Rightarrow> states list \<Rightarrow>
   (states \<times> account_id \<times> lease) wait_result" where
  "select_ws_wait l pick snapshots ctx now [] = WaitTimeout"
| "select_ws_wait l pick snapshots ctx now (m # ms) =
     (if pick (overlay m now snapshots) ctx = None then Ineligible
      else case select_and_acquire_open_ws l pick snapshots ctx now m of
             Some r \<Rightarrow> Acquired r
           | None \<Rightarrow> select_ws_wait l pick
               (if 0 < al_global_open_ws l \<and> al_global_open_ws l \<le> total_u32 rt_open_ws m then snapshots
                else map (overlay_admission m now) snapshots)
               ctx now ms)"

datatype reservation_kind = NoReservation | InFlightReservation | OpenWsReservation

datatype owner_reservation = OwnerNone | OwnerInFlight lease | OwnerOpenWs lease

definition acquired_of :: "'a wait_result \<Rightarrow> 'a option" where
  "acquired_of r = (case r of Acquired a \<Rightarrow> Some a | _ \<Rightarrow> None)"

section \<open>A resolution\<close>

text \<open>
  \<open>af_pinned\<close> and \<open>af_unowned\<close> are the states in which the two waiting loops of the resolution wake up.
\<close>

record affine_request =
  af_session_key :: "session_key option"
  af_session_id :: "string option"
  af_pool :: "string option"
  af_require_security :: bool
  af_kind :: reservation_kind
  af_model :: "string option"
  af_service_tier :: "string option"
  af_exclude :: "account_id list"
  af_now :: i64
  af_penalty :: f64
  af_pick :: selector
  af_snapshots :: "account_snapshot list"
  af_pinned :: "states list"
  af_unowned :: "states list"

definition select_unowned_reservation ::
  "admission_limits \<Rightarrow> affine_request \<Rightarrow> account_snapshot list \<Rightarrow> selection_ctx \<Rightarrow> states \<Rightarrow>
   (account_id \<times> owner_reservation \<times> states) option" where
  "select_unowned_reservation l q snapshots ctx m =
     (case af_kind q of
        NoReservation \<Rightarrow> map_option (\<lambda>k. (k, OwnerNone, m)) (af_pick q snapshots ctx)
      | InFlightReservation \<Rightarrow> map_option (\<lambda>(m', k, lease). (k, OwnerInFlight lease, m'))
          (acquired_of (select_wait l (af_pick q) snapshots ctx (af_now q) (af_unowned q)))
      | OpenWsReservation \<Rightarrow> map_option (\<lambda>(m', k, lease). (k, OwnerOpenWs lease, m'))
          (acquired_of (select_ws_wait l (af_pick q) snapshots ctx (af_now q) (af_unowned q))))"

definition pinned_reservation ::
  "admission_limits \<Rightarrow> affine_request \<Rightarrow> account_id \<Rightarrow> states \<Rightarrow> (owner_reservation \<times> states) option" where
  "pinned_reservation l q k m =
     (case af_kind q of
        NoReservation \<Rightarrow> Some (OwnerNone, m)
      | InFlightReservation \<Rightarrow> map_option (\<lambda>(m', lease, _). (OwnerInFlight lease, m'))
          (acquire_pinned_in_flight l k (af_now q) (af_pinned q))
      | OpenWsReservation \<Rightarrow> map_option (\<lambda>(m', lease, _). (OwnerOpenWs lease, m'))
          (acquire_pinned_open_ws l k (af_now q) (af_pinned q)))"

definition overload_recent_refusal_spill_secs :: i64 where "overload_recent_refusal_spill_secs = 120"

definition affine_pool :: "affine_request \<Rightarrow> fleet \<Rightarrow> account_snapshot list" where
  "affine_pool q fl =
     (let in_scope = filter_by_provider_and_pool Codex (af_pool q) (af_snapshots q);
          kept = (if af_exclude q = [] then in_scope else filter (\<lambda>s. snap_id s \<notin> set (af_exclude q)) in_scope);
          serving = (case af_model q of None \<Rightarrow> kept
            | Some model \<Rightarrow> retain_accounts_serving (fl_catalog fl) model (af_service_tier q) (af_now q) kept)
      in overlay (sv_states (fl_server fl)) (af_now q) serving)"

definition session_signals :: "affine_request \<Rightarrow> fleet \<Rightarrow> account_id option \<times> bool" where
  "session_signals q fl =
     (case Option.bind (af_session_key q) (\<lambda>sk. get_session (sk_value sk) (sv_continuity (fl_server fl))) of
        Some row \<Rightarrow> (sr_owning_account_id row, has_capability row ''security_work'')
      | None \<Rightarrow> (None, False))"

definition affine_ctx :: "affine_request \<Rightarrow> bool \<Rightarrow> selection_ctx" where
  "affine_ctx q sticky = default_ctx\<lparr>ctx_now := af_now q, ctx_require_security := (af_require_security q \<or> sticky),
     ctx_session_id := af_session_id q, ctx_inflight_penalty_pct := af_penalty q\<rparr>"

definition owner_isolated :: "account_id \<Rightarrow> i64 \<Rightarrow> account_snapshot list \<Rightarrow> bool" where
  "owner_isolated owner now ss \<longleftrightarrow>
     (\<exists>s \<in> set ss. snap_id s = owner \<and> is_some_and (snap_overload_isolated_until s) (\<lambda>until. now < until)) \<and>
     (\<exists>s \<in> set ss. snap_id s \<noteq> owner \<and> \<not> overload_backoff_active s now)"

definition recently_refused :: "states \<Rightarrow> i64 \<Rightarrow> account_id \<Rightarrow> bool" where
  "recently_refused m now k = snd (recently_refused_for_capacity k now overload_recent_refusal_spill_secs m)"

definition owner_recently_refused :: "states \<Rightarrow> account_id \<Rightarrow> i64 \<Rightarrow> account_snapshot list \<Rightarrow> bool" where
  "owner_recently_refused m owner now ss \<longleftrightarrow> recently_refused m now owner \<and>
     (\<exists>s \<in> set ss. snap_id s \<noteq> owner \<and> \<not> overload_backoff_active s now \<and> \<not> recently_refused m now (snap_id s))"

definition owner_released :: "states \<Rightarrow> account_id \<Rightarrow> i64 \<Rightarrow> account_snapshot list \<Rightarrow> bool" where
  "owner_released m owner now ss \<longleftrightarrow> owner_isolated owner now ss \<or> owner_recently_refused m owner now ss"

text \<open>Who serves, under which reservation, in which states, and whom the turn was spilled from.\<close>

definition affine_pick ::
  "affine_request \<Rightarrow> fleet \<Rightarrow> (account_id \<times> owner_reservation \<times> states \<times> account_id option) option" where
  "affine_pick q fl =
     (let m = sv_states (fl_server fl); l = fl_limits fl; ss = affine_pool q fl;
          (owner, sticky) = session_signals q fl; ctx = affine_ctx q sticky;
          unowned = (\<lambda>spilled snapshots. map_option (\<lambda>(k, r, m'). (k, r, m', spilled)) (select_unowned_reservation l q snapshots ctx m))
      in case owner of
           None \<Rightarrow> unowned None ss
         | Some o' \<Rightarrow>
             if owner_released m o' (af_now q) ss then unowned (Some o') ss
             else (case af_pick q (filter (\<lambda>s. snap_id s = o') ss) ctx of
                 None \<Rightarrow> unowned None ss
               | Some k \<Rightarrow> (case pinned_reservation l q k m of
                     Some (r, m') \<Rightarrow> Some (k, r, m', None)
                   | None \<Rightarrow> if af_kind q = OpenWsReservation
                       then unowned (Some k) (filter (\<lambda>s. snap_id s \<noteq> k) ss) else None)))"

definition release_reservation :: "owner_reservation \<Rightarrow> states \<Rightarrow> states" where
  "release_reservation r m = (case r of OwnerNone \<Rightarrow> m | OwnerInFlight lease \<Rightarrow> release lease m | OwnerOpenWs lease \<Rightarrow> release lease m)"

datatype affine_refusal = NoEligible | AffineAuth auth_refusal

definition resolve_owner_affine_account ::
  "auth_env \<Rightarrow> affine_request \<Rightarrow> fleet \<Rightarrow>
   (affine_refusal + core_account \<times> account_id \<times> owner_reservation \<times> account_id option) \<times> fleet" where
  "resolve_owner_affine_account env q fl =
     (case affine_pick q fl of
        None \<Rightarrow> (Inl NoEligible, fl)
      | Some (picked, r, m, spilled) \<Rightarrow>
          (let fl1 = on_states (\<lambda>_. m) fl in
           case resolve_core_account env picked (af_now q) (fl_auth fl1) of
             (Inl refusal, au) \<Rightarrow> (Inl (AffineAuth refusal), on_states (release_reservation r) (fl1\<lparr>fl_auth := au\<rparr>))
           | (Inr (account, _), au) \<Rightarrow>
               (Inr (account, picked, r, opt_filter (\<lambda>k. k \<noteq> picked) spilled), fl1\<lparr>fl_auth := au\<rparr>)))"

text \<open>What the relay reports of a response that completed on a connection (\<open>on_completed_id\<close> in \<open>ws_relay/mod.rs\<close>).\<close>

definition relay_completed :: "session_key \<Rightarrow> account_id option \<Rightarrow> account_id \<Rightarrow> string \<Rightarrow> turn_outcome" where
  "relay_completed sk spilled_from account response_id = Completed (Some sk) account (Some response_id) [] 0 spilled_from"

section \<open>Unary requests\<close>

record control_response =
  cr_status :: u16
  cr_headers :: "(string \<times> string) list"
  cr_body :: string

definition max_unary_error_classification_bytes :: nat where "max_unary_error_classification_bytes = 65536"

definition looks_like_error_code :: "string \<Rightarrow> bool" where
  "looks_like_error_code value \<longleftrightarrow> value \<noteq> [] \<and> length value \<le> 64 \<and>
     list_all (\<lambda>c. CHR ''a'' \<le> c \<and> c \<le> CHR ''z'' \<or> CHR ''0'' \<le> c \<and> c \<le> CHR ''9'' \<or> c = CHR ''_'') value"

definition unary_error_code :: "(string \<Rightarrow> json option) \<Rightarrow> string \<Rightarrow> string option" where
  "unary_error_code parse body = Option.bind (parse (take max_unary_error_classification_bytes body)) (\<lambda>v.
     let code_in = (\<lambda>field. opt_filter looks_like_error_code (jpath_str [''error'', field] v))
     in opt_or (code_in ''code'') (opt_or (code_in ''type'')
          (opt_filter looks_like_error_code (Option.bind (jget ''detail'' v) as_str))))"

definition unary_failure_signal :: "(string \<Rightarrow> json option) \<Rightarrow> control_response \<Rightarrow> failure_signal" where
  "unary_failure_signal parse response =
     (let header = List.find (\<lambda>(name, _). str_lower name = ''retry-after'') (cr_headers response)
      in \<lparr>fs_status = cr_status response,
          fs_retry_after = opt_filter (\<lambda>s. 0 \<le> s) (Option.bind header (\<lambda>(_, value). parse_i64 (str_trim value))),
          fs_error_code = unary_error_code parse (cr_body response)\<rparr>)"

datatype unary_reply = UnaryResponse control_response | UnaryBadGateway | UnaryRefused auth_refusal

record unary_env =
  ue_auth :: auth_env
  ue_tx :: "bool option"
  ue_parse :: "string \<Rightarrow> json option"
  ue_forward :: "nat \<Rightarrow> core_account \<Rightarrow> control_response option"
  ue_now :: i64

definition finalize_unary_provider_response :: "unary_env \<Rightarrow> account_id \<Rightarrow> control_response \<Rightarrow> fleet \<Rightarrow> unary_reply \<times> fleet" where
  "finalize_unary_provider_response env k response fl =
     (UnaryResponse response,
      if 200 \<le> cr_status response \<and> cr_status response < 300 then on_states (\<lambda>m. fst (record_success k (ue_now env) (ue_now env) m)) fl
      else bench_account_for_failure (ue_auth env) (ue_tx env) k (Some (unary_failure_signal (ue_parse env) response)) (ue_now env) fl)"

definition finalize_unary_transport_failure :: "unary_env \<Rightarrow> account_id \<Rightarrow> fleet \<Rightarrow> unary_reply \<times> fleet" where
  "finalize_unary_transport_failure env k fl =
     (UnaryBadGateway, bench_account_for_failure (ue_auth env) (ue_tx env) k None (ue_now env) fl)"

text \<open>One forwarding and, when its token is rejected, one refresh and one more on the same account.\<close>

definition forward_unary_with_reactive_auth ::
  "unary_env \<Rightarrow> core_account \<Rightarrow> account_id \<Rightarrow> fleet \<Rightarrow> unary_reply \<times> fleet" where
  "forward_unary_with_reactive_auth env account k fl =
     (case ue_forward env 0 account of
        None \<Rightarrow> finalize_unary_transport_failure env k fl
      | Some first \<Rightarrow>
          if cr_status first \<noteq> 401 then finalize_unary_provider_response env k first fl
          else (case refresh_after_unauthorized (ue_auth env) k (ca_bearer account) (ue_now env) (fl_auth fl) of
              (Inl refusal, au) \<Rightarrow> (UnaryRefused refusal, fl\<lparr>fl_auth := au\<rparr>)
            | (Inr None, au) \<Rightarrow> finalize_unary_provider_response env k first (fl\<lparr>fl_auth := au\<rparr>)
            | (Inr (Some refreshed), au) \<Rightarrow> (case ue_forward env 1 refreshed of
                  Some response \<Rightarrow> finalize_unary_provider_response env k response (fl\<lparr>fl_auth := au\<rparr>)
                | None \<Rightarrow> finalize_unary_transport_failure env k (fl\<lparr>fl_auth := au\<rparr>))))"

end
