(* ===== verification/Admission_Props.thy ===== *)
theory Admission_Props
  imports Admission
begin

text \<open>
  Correctness of admission: the caps hold in every reachable state, the counters equal the leases
  held, new work leaves the owners' reserve free, a request of any size fits an idle account, the
  calibration stays bounded, and selection with reservation is sound for every selector.
\<close>

section \<open>Sums over the map\<close>

definition gsum :: "(runtime_state \<Rightarrow> nat) \<Rightarrow> states \<Rightarrow> nat" where
  "gsum f m = sum_list (map (\<lambda>(k, rt). f rt) m)"

lemma gsum_Nil [simp]: "gsum f [] = 0" by (simp add: gsum_def)

lemma gsum_Cons [simp]: "gsum f ((k, rt) # m) = f rt + gsum f m" by (simp add: gsum_def)

lemma total_u32_gsum: "total_u32 f m = min (gsum f m) u32_max"
proof -
  have "fold (\<lambda>(k, rt) total. add_u32 total (f rt)) m t = min (t + gsum f m) u32_max" if "t \<le> u32_max" for t
    using that by (induction m arbitrary: t) (auto simp: add_u32_def)
  from this [of 0] show ?thesis by (simp add: total_u32_def)
qed

lemma gsum_absent: "tbl_get m k = None \<Longrightarrow> tbl_put m k rt = m @ [(k, rt)] \<and> tbl_del m k = m"
  by (induction m) (auto split: if_splits)

lemma gsum_append: "gsum f (m @ n) = gsum f m + gsum f n" by (simp add: gsum_def)

lemma gsum_put:
  assumes "tbl_ok m" "f neutral = 0"
  shows "gsum f (tbl_put m k rt) + f (state_of m k) = gsum f m + f rt"
  using assms(1)
proof (induction m)
  case Nil
  then show ?case by (simp add: state_of_def assms(2))
next
  case (Cons a m)
  obtain x r where a: "a = (x, r)" by (cases a)
  from Cons.prems have "tbl_ok m" by (simp add: tbl_ok_def)
  with Cons.IH a show ?case by (auto simp: state_of_def)
qed

lemma gsum_del:
  assumes "tbl_ok m" "f neutral = 0"
  shows "gsum f (tbl_del m k) + f (state_of m k) = gsum f m"
  using assms(1)
proof (induction m)
  case Nil
  then show ?case by (simp add: state_of_def assms(2))
next
  case (Cons a m)
  obtain x r where a: "a = (x, r)" by (cases a)
  from Cons.prems have ok: "tbl_ok m" by (simp add: tbl_ok_def)
  show ?case
  proof (cases "x = k")
    case True
    from Cons.prems a True have "tbl_get m k = None" by (simp add: tbl_ok_def map_of_eq_None_iff)
    then have "tbl_del m k = m" by (rule gsum_absent [THEN conjunct2])
    with a True show ?thesis by (simp add: state_of_def)
  next
    case False
    with Cons.IH [OF ok] a show ?thesis by (simp add: state_of_def)
  qed
qed

lemma gsum_mutate:
  assumes "tbl_ok m" "f neutral = 0"
  shows "gsum f (fst (mutate h k m)) + f (state_of m k) = gsum f m + f (fst (h (state_of m k)))"
proof -
  define rt where "rt = fst (h (state_of m k))"
  have put: "gsum f (tbl_put m k rt) + f (state_of m k) = gsum f m + f rt" by (rule gsum_put [where f = f, OF assms])
  have "gsum f (tbl_del (tbl_put m k rt) k) + f (state_of (tbl_put m k rt) k) = gsum f (tbl_put m k rt)"
    using assms by (intro gsum_del) auto
  then have del: "gsum f (tbl_del (tbl_put m k rt) k) + f rt = gsum f (tbl_put m k rt)"
    by (simp add: state_of_def tbl_simps)
  have eq: "fst (mutate h k m) = (if is_neutral rt then tbl_del (tbl_put m k rt) k else tbl_put m k rt)"
    by (simp add: mutate_def rt_def state_of_def Let_def case_prod_beta)
  show ?thesis using put del assms(2) unfolding eq rt_def [symmetric] by (auto simp: is_neutral_def)
qed

section \<open>Lease counters\<close>

text \<open>The three counters of an account, and the sum of them over a multiset of leases.\<close>

definition counters :: "runtime_state \<Rightarrow> nat \<times> nat \<times> nat" where
  "counters rt = (rt_in_flight rt, rt_in_flight_pressure rt, rt_open_ws rt)"

lemma neutral_counters [simp]:
  "rt_in_flight neutral = 0" "rt_in_flight_pressure neutral = 0" "rt_open_ws neutral = 0"
  by (simp_all add: neutral_def)

fun lease_free :: "rt_event \<Rightarrow> bool" where
  "lease_free (EvAcquire u) = False"
| "lease_free (EvRelease u) = False"
| "lease_free EvOpen = False"
| "lease_free EvClose = False"
| "lease_free _ = True"

lemma counters_funnel: "counters (fst (apply_funnel_transition d now rt)) = counters rt"
  by (simp add: counters_def apply_funnel_transition_def transition_def Let_def)

lemma counters_event: "lease_free ev \<Longrightarrow> counters (rt_apply ev rt) = counters rt"
  by (cases ev)
    (simp_all add: rt_rate_limit_def rt_transient_error_def rt_success_def case_prod_beta Let_def counters_funnel,
     simp_all add: counters_def rt_quota_exceeded_def rt_outcome_def rt_evaluate_with_usage_def transition_def
      rt_selected_def rt_overload_rejection_def overload_note_def overload_fire_def rt_burst_rejection_def
      reset_streak_if_probing_def Let_def case_prod_beta)

lemma counters_acquire:
  "rt_in_flight (rt_acquire u (rt_selected now rt)) = add_u32 (rt_in_flight rt) 1"
  "rt_in_flight_pressure (rt_acquire u (rt_selected now rt)) = add_u32 (rt_in_flight_pressure rt) u"
  "rt_open_ws (rt_acquire u (rt_selected now rt)) = rt_open_ws rt"
  "rt_in_flight (rt_open (rt_selected now rt)) = rt_in_flight rt"
  "rt_in_flight_pressure (rt_open (rt_selected now rt)) = rt_in_flight_pressure rt"
  "rt_open_ws (rt_open (rt_selected now rt)) = add_u32 (rt_open_ws rt) 1"
  by (simp_all add: rt_acquire_def rt_selected_def rt_open_def)

lemma state_of_reserve:
  "state_of (reserve k now u m) x = (if x = k then rt_acquire u (rt_selected now (state_of m k)) else state_of m x)"
  "state_of (reserve_ws k now m) x = (if x = k then rt_open (rt_selected now (state_of m k)) else state_of m x)"
  by (simp_all add: reserve_def reserve_ws_def state_of_def tbl_simps)

fun lease_units :: "lease \<Rightarrow> nat" where
  "lease_units (InFlight k u) = u"
| "lease_units (Socket k) = 0"

fun is_socket :: "lease \<Rightarrow> bool" where
  "is_socket (InFlight k u) = False"
| "is_socket (Socket k) = True"

section \<open>Steps\<close>

text \<open>
  Admission as a system: the map and the multiset of leases held. Every checked way to acquire, the
  release of a held lease, and any other update of an account are steps. The premises on acquiring
  say that no counter is at its \<open>u32\<close> limit.
\<close>

definition unsaturated :: "lease \<Rightarrow> states \<Rightarrow> bool" where
  "unsaturated ls m \<longleftrightarrow> (let rt = state_of m (lease_account ls) in
     rt_in_flight rt < u32_max \<and> rt_in_flight_pressure rt + lease_units ls \<le> u32_max \<and> rt_open_ws rt < u32_max)"

inductive admission_step ::
  "admission_limits \<Rightarrow> states \<times> lease multiset \<Rightarrow> states \<times> lease multiset \<Rightarrow> bool" for l where
  new_work: "account_selector pick \<Longrightarrow> select_and_acquire l pick snaps ctx now m = Some (m', k, ls) \<Longrightarrow> unsaturated ls m \<Longrightarrow>
     admission_step l (m, L) (m', add_mset ls L)"
| reselected: "try_acquire_in_flight_weighted l k now u m = Some (m', ls) \<Longrightarrow> unsaturated ls m \<Longrightarrow>
     admission_step l (m, L) (m', add_mset ls L)"
| owner: "pinned_attempt l k now u m = Some (m', ls, reserve_used) \<Longrightarrow> unsaturated ls m \<Longrightarrow>
     admission_step l (m, L) (m', add_mset ls L)"
| new_socket: "account_selector pick \<Longrightarrow> select_and_acquire_open_ws l pick snaps ctx now m = Some (m', k, ls) \<Longrightarrow> unsaturated ls m \<Longrightarrow>
     admission_step l (m, L) (m', add_mset ls L)"
| owner_socket: "pinned_ws_attempt l k now m = Some (m', ls, reserve_used) \<Longrightarrow> unsaturated ls m \<Longrightarrow>
     admission_step l (m, L) (m', add_mset ls L)"
| dropped: "ls \<in># L \<Longrightarrow> admission_step l (m, L) (release ls m, L - {#ls#})"
| other: "lease_free ev \<Longrightarrow> admission_step l (m, L) (fst (mutate (\<lambda>rt. (rt_apply ev rt, ())) k m), L)"

inductive admission_reachable :: "admission_limits \<Rightarrow> states \<times> lease multiset \<Rightarrow> bool" for l where
  nothing_held: "admission_reachable l ([], {#})"
| admitted: "admission_reachable l s \<Longrightarrow> admission_step l s t \<Longrightarrow> admission_reachable l t"

text \<open>What a successful acquisition of either kind amounts to.\<close>

definition flight_grant :: "admission_limits \<Rightarrow> account_id \<Rightarrow> nat \<Rightarrow> states \<Rightarrow> bool" where
  "flight_grant l k u m \<longleftrightarrow> global_ok l u m \<and> owner_ok l u (state_of m k)"

definition socket_grant :: "admission_limits \<Rightarrow> account_id \<Rightarrow> states \<Rightarrow> bool" where
  "socket_grant l k m \<longleftrightarrow>
     (al_global_open_ws l = 0 \<or> total_u32 rt_open_ws m < al_global_open_ws l) \<and>
     (al_account_open_ws l = 0 \<or> rt_open_ws (state_of m k) < al_account_open_ws l)"

lemma ordinary_owner: "ordinary_ok l u rt \<Longrightarrow> owner_ok l u rt"
  by (auto simp: ordinary_ok_def owner_ok_def ordinary_limit_def ordinary_pressure_limit_def)

lemma try_grant:
  "try_acquire_in_flight_weighted l k now u m = Some (m', ls) \<Longrightarrow>
   flight_grant l k (max u 1) m \<and> ls = InFlight k (max u 1) \<and> m' = reserve k now (max u 1) m"
  by (auto simp: try_acquire_in_flight_weighted_def flight_grant_def Let_def ordinary_owner split: if_splits)

lemma pinned_grant:
  "pinned_attempt l k now u m = Some (m', ls, b) \<Longrightarrow>
   flight_grant l k (max u 1) m \<and> ls = InFlight k (max u 1) \<and> m' = reserve k now (max u 1) m"
  by (auto simp: pinned_attempt_def flight_grant_def Let_def split: if_splits)

lemma pinned_ws_grant:
  "pinned_ws_attempt l k now m = Some (m', ls, b) \<Longrightarrow>
   socket_grant l k m \<and> ls = Socket k \<and> m' = reserve_ws k now m"
  by (auto simp: pinned_ws_attempt_def socket_grant_def Let_def split: if_splits)

context account_selector
begin

lemma reserved_candidate:
  assumes "select_and_acquire l pick snaps ctx now m = Some (m', k, ls)"
  shows "\<exists>s \<in> set snaps. snap_id s = k \<and> servable ctx (overlay_admission m now s) \<and>
     ordinary_ok l (max (ctx_request_pressure_units ctx) 1) (state_of m k)"
proof -
  let ?u = "max (ctx_request_pressure_units ctx) 1"
  have "pick (filter (\<lambda>s. ordinary_ok l ?u (state_of m (snap_id s))) (map (overlay_admission m now) snaps)) ctx = Some k"
    using assms by (auto simp: select_and_acquire_def Let_def split: if_splits option.splits)
  from pick_filtered [OF this] obtain s where "s \<in> set snaps" "snap_id (overlay_admission m now s) = k"
    "servable ctx (overlay_admission m now s)" "ordinary_ok l ?u (state_of m (snap_id (overlay_admission m now s)))"
    by auto
  moreover have "snap_id (overlay_admission m now s) = snap_id s"
    by (simp add: overlay_admission_def split: option.split)
  ultimately show ?thesis by auto
qed

lemma reserved_socket_candidate:
  assumes "select_and_acquire_open_ws l pick snaps ctx now m = Some (m', k, ls)"
  shows "\<exists>s \<in> set snaps. snap_id s = k \<and> servable ctx (overlay_admission m now s) \<and>
     (al_account_open_ws l = 0 \<or> rt_open_ws (state_of m k) < ordinary_ws_limit l)"
proof -
  have "pick (filter (\<lambda>s. al_account_open_ws l = 0 \<or> rt_open_ws (state_of m (snap_id s)) < ordinary_ws_limit l)
      (map (overlay_admission m now) snaps)) ctx = Some k"
    using assms by (auto simp: select_and_acquire_open_ws_def Let_def split: if_splits option.splits)
  from pick_filtered [OF this] obtain s where "s \<in> set snaps" "snap_id (overlay_admission m now s) = k"
    "servable ctx (overlay_admission m now s)"
    "al_account_open_ws l = 0 \<or> rt_open_ws (state_of m (snap_id (overlay_admission m now s))) < ordinary_ws_limit l"
    by auto
  moreover have "snap_id (overlay_admission m now s) = snap_id s"
    by (simp add: overlay_admission_def split: option.split)
  ultimately show ?thesis by auto
qed

lemma select_grant:
  assumes "select_and_acquire l pick snaps ctx now m = Some (m', k, ls)"
  defines "u \<equiv> max (ctx_request_pressure_units ctx) 1"
  shows "flight_grant l k u m \<and> ls = InFlight k u \<and> m' = reserve k now u m"
  using assms(1) reserved_candidate [OF assms(1)] ordinary_owner
  by (auto simp: select_and_acquire_def flight_grant_def global_ok_def u_def Let_def not_le
      split: if_splits option.splits)

lemma select_ws_grant:
  assumes "select_and_acquire_open_ws l pick snaps ctx now m = Some (m', k, ls)"
  shows "socket_grant l k m \<and> ls = Socket k \<and> m' = reserve_ws k now m"
  using assms reserved_socket_candidate [OF assms]
  by (auto simp: select_and_acquire_open_ws_def socket_grant_def ordinary_ws_limit_def Let_def not_le
      split: if_splits option.splits)

end

text \<open>So every step is one of four.\<close>

lemma admission_step_cases:
  assumes "admission_step l (m, L) (m', L')"
  obtains (flight) k now u where "flight_grant l k u m" "unsaturated (InFlight k u) m"
      "m' = reserve k now u m" "L' = add_mset (InFlight k u) L"
    | (socket) k now where "socket_grant l k m" "unsaturated (Socket k) m"
      "m' = reserve_ws k now m" "L' = add_mset (Socket k) L"
    | (drop) ls where "ls \<in># L" "m' = release ls m" "L' = L - {#ls#}"
    | (event) ev k where "lease_free ev" "m' = fst (mutate (\<lambda>rt. (rt_apply ev rt, ())) k m)" "L' = L"
  using assms
proof (cases rule: admission_step.cases)
  case (new_work pick snaps ctx now k ls)
  with account_selector.select_grant [OF new_work(2,3)] flight show thesis by blast
next
  case (reselected k now u ls)
  with try_grant [OF reselected(2)] flight show thesis by blast
next
  case (owner k now u ls b)
  with pinned_grant [OF owner(2)] flight show thesis by blast
next
  case (new_socket pick snaps ctx now k ls)
  with account_selector.select_ws_grant [OF new_socket(2,3)] socket show thesis by blast
next
  case (owner_socket k now ls b)
  with pinned_ws_grant [OF owner_socket(2)] socket show thesis by blast
next
  case (dropped ls)
  then show thesis using drop by blast
next
  case (other ev k)
  then show thesis using event by blast
qed

section \<open>Leases are accounted for\<close>

definition held_flights :: "account_id \<Rightarrow> lease multiset \<Rightarrow> nat" where
  "held_flights k L = size {#ls \<in># L. lease_account ls = k \<and> \<not> is_socket ls#}"

definition held_units :: "account_id \<Rightarrow> lease multiset \<Rightarrow> nat" where
  "held_units k L = (\<Sum>ls \<in># {#ls \<in># L. lease_account ls = k#}. lease_units ls)"

definition held_sockets :: "account_id \<Rightarrow> lease multiset \<Rightarrow> nat" where
  "held_sockets k L = size {#ls \<in># L. lease_account ls = k \<and> is_socket ls#}"

lemmas held_defs = held_flights_def held_units_def held_sockets_def

definition accounted :: "states \<Rightarrow> lease multiset \<Rightarrow> bool" where
  "accounted m L \<longleftrightarrow> tbl_ok m \<and>
     (\<forall>k. counters (state_of m k) = (held_flights k L, held_units k L, held_sockets k L))"

lemma counters_release:
  "counters (state_of (release ls m) x) =
     (if x = lease_account ls then
        (rt_in_flight (state_of m x) - (if is_socket ls then 0 else 1),
         rt_in_flight_pressure (state_of m x) - lease_units ls,
         rt_open_ws (state_of m x) - (if is_socket ls then 1 else 0))
      else counters (state_of m x))"
  by (cases ls) (auto simp: state_of_mutate counters_def rt_release_def rt_close_def)

lemma tbl_ok_mutate: "tbl_ok m \<Longrightarrow> tbl_ok (fst (mutate f k m))"
  by (simp add: mutate_def Let_def case_prod_beta)

lemma tbl_ok_reserve:
  "tbl_ok m \<Longrightarrow> tbl_ok (reserve k now u m)" "tbl_ok m \<Longrightarrow> tbl_ok (reserve_ws k now m)"
  by (simp_all add: reserve_def reserve_ws_def)

lemma tbl_ok_release: "tbl_ok m \<Longrightarrow> tbl_ok (release ls m)"
  by (cases ls) (simp_all add: tbl_ok_mutate)

lemma accounted_step:
  assumes "admission_step l (m, L) (m', L')" and acc: "accounted m L"
  shows "accounted m' L'"
  using assms(1)
proof (cases rule: admission_step_cases)
  case (flight k now u)
  then show ?thesis using acc
    by (auto simp: accounted_def counters_def state_of_reserve counters_acquire held_defs unsaturated_def
        Let_def add_u32_def tbl_ok_reserve)
next
  case (socket k now)
  then show ?thesis using acc
    by (auto simp: accounted_def counters_def state_of_reserve counters_acquire held_defs unsaturated_def
        Let_def add_u32_def tbl_ok_reserve)
next
  case (drop ls)
  obtain L0 where L: "L = add_mset ls L0" using drop(1) by (metis mset_add)
  have "counters (state_of (release ls m) x) = (held_flights x L0, held_units x L0, held_sockets x L0)" for x
  proof -
    have "counters (state_of m x) = (held_flights x L, held_units x L, held_sockets x L)"
      using acc by (simp add: accounted_def)
    then show ?thesis unfolding counters_release L
      by (cases ls) (auto simp: counters_def held_defs)
  qed
  with drop acc L show ?thesis by (simp add: accounted_def tbl_ok_release)
next
  case (event ev k)
  then show ?thesis using acc counters_event [OF event(1)]
    by (simp add: accounted_def state_of_mutate tbl_ok_mutate)
qed

text \<open>
  No lease is leaked or double-released. In every reachable state the in-flight count of an
  account is the number of leases held for it, its pressure the sum of their units, and its open
  sockets the number of socket leases; so when all of them are dropped the counters are zero again,
  whatever failures, successes and polls came in between.
\<close>

lemma leases_accounted:
  assumes "admission_reachable l (m, L)"
  shows "rt_in_flight (state_of m k) = held_flights k L \<and>
     rt_in_flight_pressure (state_of m k) = held_units k L \<and> rt_open_ws (state_of m k) = held_sockets k L"
proof -
  have "accounted (fst s) (snd s)" if "admission_reachable l s" for s
    using that
  proof (induction rule: admission_reachable.induct)
    case nothing_held
    then show ?case by (simp add: accounted_def counters_def state_of_def held_defs)
  next
    case (admitted s t)
    then show ?case using accounted_step [of l "fst s" "snd s" "fst t" "snd t"] by simp
  qed
  from this [OF assms] show ?thesis by (simp add: accounted_def counters_def)
qed

lemma one_lease_reachable:
  "admission_reachable default_limits (reserve ''a'' 7 3 [], {#InFlight ''a'' 3#})"
proof (rule admitted [OF nothing_held])
  have "try_acquire_in_flight_weighted default_limits ''a'' 7 3 [] = Some (reserve ''a'' 7 3 [], InFlight ''a'' 3)"
    by (simp add: try_acquire_in_flight_weighted_def global_ok_def ordinary_ok_def default_limits_def
        total_u32_def state_of_def ordinary_limit_def ordinary_pressure_limit_def add_u32_def u32_max_def)
  moreover have "unsaturated (InFlight ''a'' 3) []"
    by (simp add: unsaturated_def state_of_def u32_max_def)
  ultimately show "admission_step default_limits ([], {#}) (reserve ''a'' 7 3 [], {#InFlight ''a'' 3#})"
    using reselected by fastforce
qed

lemma leases_accounted_example:
  "rt_in_flight_pressure (state_of (release (InFlight ''a'' 3) (reserve ''a'' 7 3 [])) ''a'') = 0"
proof -
  have "admission_reachable default_limits
      (release (InFlight ''a'' 3) (reserve ''a'' 7 3 []), {#InFlight ''a'' 3#} - {#InFlight ''a'' 3#})"
    by (rule admitted [OF one_lease_reachable dropped]) simp
  from leases_accounted [OF this, of "''a''"] show ?thesis by (simp add: held_defs)
qed

section \<open>The caps hold\<close>

definition in_cap :: "nat \<Rightarrow> nat \<Rightarrow> bool" where
  "in_cap cap n \<longleftrightarrow> cap = 0 \<or> n \<le> cap"

definition caps_ok :: "admission_limits \<Rightarrow> states \<Rightarrow> bool" where
  "caps_ok l m \<longleftrightarrow> tbl_ok m \<and>
     in_cap (al_global_in_flight l) (total_u32 rt_in_flight m) \<and>
     in_cap (al_global_in_flight_pressure l) (total_u32 rt_in_flight_pressure m) \<and>
     in_cap (al_global_open_ws l) (total_u32 rt_open_ws m) \<and>
     (\<forall>k. in_cap (al_account_in_flight l) (rt_in_flight (state_of m k)) \<and>
          in_cap (al_account_in_flight_pressure l) (rt_in_flight_pressure (state_of m k)) \<and>
          in_cap (al_account_open_ws l) (rt_open_ws (state_of m k)))"

text \<open>A total grows by what the one changed account gains.\<close>

lemma total_put:
  assumes "tbl_ok m" "f neutral = 0" "f rt \<le> f (state_of m k) + d"
  shows "total_u32 f (tbl_put m k rt) \<le> add_u32 (total_u32 f m) d"
  using gsum_put [where f = f and k = k and rt = rt, OF assms(1,2)] assms(3)
  by (simp add: total_u32_gsum add_u32_def)

lemma total_mutate:
  assumes "tbl_ok m" "f neutral = 0" "f (fst (h (state_of m k))) \<le> f (state_of m k)"
  shows "total_u32 f (fst (mutate h k m)) \<le> total_u32 f m"
  using gsum_mutate [where f = f and k = k and h = h, OF assms(1,2)] assms(3)
  by (simp add: total_u32_gsum)

lemma in_cap_mono: "in_cap c n \<Longrightarrow> n' \<le> n \<Longrightarrow> in_cap c n'"
  by (auto simp: in_cap_def)

lemma in_cap_add: "c = 0 \<or> n < c \<Longrightarrow> n' \<le> add_u32 n 1 \<Longrightarrow> in_cap c n'"
  by (auto simp: in_cap_def add_u32_def)

lemma in_cap_units: "c = 0 \<or> add_u32 n u \<le> c \<Longrightarrow> n' \<le> add_u32 n u \<Longrightarrow> in_cap c n'"
  by (auto simp: in_cap_def)

text \<open>An update that raises no counter keeps the caps.\<close>

lemma caps_shrink:
  assumes "caps_ok l m" and "\<And>f. f \<in> {rt_in_flight, rt_in_flight_pressure, rt_open_ws} \<Longrightarrow>
      f (fst (h (state_of m k))) \<le> f (state_of m k)"
  shows "caps_ok l (fst (mutate h k m))"
proof -
  have ok: "tbl_ok m" using assms(1) by (simp add: caps_ok_def)
  have acc: "f (state_of (fst (mutate h k m)) x) \<le> f (state_of m x)"
    if "f \<in> {rt_in_flight, rt_in_flight_pressure, rt_open_ws}" for f x
    using assms(2) [OF that] by (simp add: state_of_mutate)
  have tot: "total_u32 f (fst (mutate h k m)) \<le> total_u32 f m"
    if "f \<in> {rt_in_flight, rt_in_flight_pressure, rt_open_ws}" for f
    using that by (intro total_mutate [OF ok] assms(2)) auto
  have a: "in_cap c (f (state_of m x)) \<Longrightarrow> in_cap c (f (state_of (fst (mutate h k m)) x))"
    if "f \<in> {rt_in_flight, rt_in_flight_pressure, rt_open_ws}" for c f x
    using acc [OF that] by (rule in_cap_mono [rotated])
  have t: "in_cap c (total_u32 f m) \<Longrightarrow> in_cap c (total_u32 f (fst (mutate h k m)))"
    if "f \<in> {rt_in_flight, rt_in_flight_pressure, rt_open_ws}" for c f
    using tot [OF that] by (rule in_cap_mono [rotated])
  show ?thesis
    using assms(1) unfolding caps_ok_def by (simp add: tbl_ok_mutate a t)
qed

lemma release_mutate: "release ls m = fst (mutate (\<lambda>rt. (case ls of InFlight k u \<Rightarrow> rt_release u rt | Socket k \<Rightarrow> rt_close rt, ())) (lease_account ls) m)"
  by (cases ls) auto

lemma caps_flight:
  assumes "flight_grant l k u m" "caps_ok l m"
  shows "caps_ok l (reserve k now u m)"
proof -
  let ?rt = "rt_acquire u (rt_selected now (state_of m k))"
  have ok: "tbl_ok m" using assms(2) by (simp add: caps_ok_def)
  have t1: "total_u32 rt_in_flight (reserve k now u m) \<le> add_u32 (total_u32 rt_in_flight m) 1"
    unfolding reserve_def by (rule total_put [OF ok]) (simp_all add: counters_acquire add_u32_def)
  have t2: "total_u32 rt_in_flight_pressure (reserve k now u m) \<le> add_u32 (total_u32 rt_in_flight_pressure m) u"
    unfolding reserve_def by (rule total_put [OF ok]) (simp_all add: counters_acquire add_u32_def)
  have t3: "total_u32 rt_open_ws (reserve k now u m) \<le> add_u32 (total_u32 rt_open_ws m) 0"
    unfolding reserve_def by (rule total_put [OF ok]) (simp_all add: counters_acquire)
  then have t3: "total_u32 rt_open_ws (reserve k now u m) \<le> total_u32 rt_open_ws m"
    by (simp add: add_u32_def)
  show ?thesis
    using assms t1 t2 t3 unfolding caps_ok_def flight_grant_def global_ok_def owner_ok_def
    by (auto simp: state_of_reserve counters_acquire ok tbl_ok_reserve
        intro: in_cap_add in_cap_units in_cap_mono)
qed

lemma caps_socket:
  assumes "socket_grant l k m" "caps_ok l m"
  shows "caps_ok l (reserve_ws k now m)"
proof -
  have ok: "tbl_ok m" using assms(2) by (simp add: caps_ok_def)
  have t1: "total_u32 rt_open_ws (reserve_ws k now m) \<le> add_u32 (total_u32 rt_open_ws m) 1"
    unfolding reserve_ws_def by (rule total_put [OF ok]) (simp_all add: counters_acquire add_u32_def)
  have t2: "total_u32 f (reserve_ws k now m) \<le> total_u32 f m"
    if "f \<in> {rt_in_flight, rt_in_flight_pressure}" for f
  proof -
    have "total_u32 f (reserve_ws k now m) \<le> add_u32 (total_u32 f m) 0"
      unfolding reserve_ws_def using that by (intro total_put [OF ok]) (auto simp: counters_acquire)
    then show ?thesis by (simp add: add_u32_def)
  qed
  show ?thesis
    using assms t1 t2 [of rt_in_flight] t2 [of rt_in_flight_pressure] unfolding caps_ok_def socket_grant_def
    by (auto simp: state_of_reserve counters_acquire ok tbl_ok_reserve intro: in_cap_add in_cap_mono)
qed

lemma caps_step:
  assumes "admission_step l (m, L) (m', L')" and caps: "caps_ok l m"
  shows "caps_ok l m'"
  using assms(1)
proof (cases rule: admission_step_cases)
  case (flight k now u)
  then show ?thesis using caps_flight caps by blast
next
  case (socket k now)
  then show ?thesis using caps_socket caps by blast
next
  case (drop ls)
  show ?thesis unfolding drop(2) release_mutate
    by (rule caps_shrink [OF caps]) (auto simp: rt_release_def rt_close_def split: lease.split)
next
  case (event ev k)
  have "counters (rt_apply ev (state_of m k)) = counters (state_of m k)" by (rule counters_event [OF event(1)])
  then show ?thesis unfolding event(2) by (intro caps_shrink [OF caps]) (auto simp: counters_def)
qed

text \<open>
  C4: Every hard cap holds in every reachable state: no account and no total exceeds its configured
  number of requests, units of pressure, or open sockets, whatever mixture of new work, owner work,
  releases and other updates runs, and with any selector that keeps its contract.
\<close>

theorem caps_hold:
  assumes "admission_reachable l (m, L)"
  shows "caps_ok l m"
proof -
  have "caps_ok l (fst s)" if "admission_reachable l s" for s
    using that
  proof (induction rule: admission_reachable.induct)
    case nothing_held
    then show ?case by (simp add: caps_ok_def in_cap_def state_of_def total_u32_def)
  next
    case (admitted s t)
    then show ?case using caps_step [of l "fst s" "snd s" "fst t" "snd t"] by simp
  qed
  from this [OF assms] show ?thesis by simp
qed

theorem caps_hold_witness:
  "in_cap 16 (rt_in_flight_pressure (state_of (reserve ''a'' 7 3 []) ''a''))"
  using caps_hold [OF one_lease_reachable] by (simp add: caps_ok_def default_limits_def)

section \<open>Owners and new work\<close>

text \<open>
  C5: New work never takes the owners' reserve. Whatever a new request is granted, the account's
  count stays within the ordinary limit and its pressure within the ordinary pressure limit; so with
  a positive reserve the account still has room for a continuation of at most the reserved units, and
  the owner's attempt can only fail on the global caps.
\<close>

theorem reserve_kept_for_owner:
  assumes "draw_ok e" and "select_and_acquire l (strategy_pick e st) snaps ctx now m = Some (m', k, ls)"
    and "0 < al_owner_recovery_reserve l" and "al_owner_recovery_reserve l \<le> al_account_in_flight l"
    and "al_owner_recovery_pressure_reserve l \<le> al_account_in_flight_pressure l"
    and "al_account_in_flight_pressure l < u32_max"
    and "0 < u" and "u \<le> al_owner_recovery_pressure_reserve l"
  shows "global_ok l u m' \<longrightarrow> pinned_attempt l k now' u m' \<noteq> None"
proof -
  note contract = strategy_selector [OF assms(1), of st]
  let ?v = "max (ctx_request_pressure_units ctx) 1"
  from account_selector.reserved_candidate [OF contract assms(2)]
  have "ordinary_ok l ?v (state_of m k)" by blast
  moreover from account_selector.select_grant [OF contract assms(2)] have "m' = reserve k now ?v m" by simp
  ultimately have "owner_ok l u (state_of m' k)"
    using assms(3-6,8)
    by (auto simp: ordinary_ok_def owner_ok_def ordinary_limit_def ordinary_pressure_limit_def state_of_reserve
        counters_acquire add_u32_def)
  moreover have "max u 1 = u" using assms(7) by simp
  ultimately show ?thesis by (simp add: pinned_attempt_def Let_def)
qed

theorem reserve_kept_for_owner_witness:
  "\<exists>m' ls. select_and_acquire default_limits (strategy_pick last_draw_env UsageWeighted) [new_snapshot ''a''] default_ctx 5 [] =
       Some (m', ''a'', ls) \<and> (global_ok default_limits 4 m' \<longrightarrow> pinned_attempt default_limits ''a'' 6 4 m' \<noteq> None)"
proof -
  have av: "overlay_admission [] 5 (new_snapshot ''a'') = new_snapshot ''a''" by (simp add: overlay_admission_def)
  have "servable default_ctx (new_snapshot ''a'')"
    by (simp add: servable_def authorized_def default_ctx_def fresh_eligible)
  then have pick: "strategy_pick last_draw_env UsageWeighted [new_snapshot ''a''] default_ctx = Some ''a''"
    using account_selector.pick_singleton [OF strategy_selector [OF last_draw_ok]]
    by (simp add: new_snapshot_def del: strategy_pick.simps)
  have "select_and_acquire default_limits (strategy_pick last_draw_env UsageWeighted) [new_snapshot ''a''] default_ctx 5 [] =
      Some (reserve ''a'' 5 1 [], ''a'', InFlight ''a'' 1)"
    unfolding select_and_acquire_def
    by (simp add: av pick total_u32_def ordinary_ok_def default_limits_def state_of_def ordinary_limit_def
        ordinary_pressure_limit_def add_u32_def u32_max_def default_ctx_def [THEN arg_cong, of ctx_request_pressure_units]
        del: strategy_pick.simps)
  moreover from reserve_kept_for_owner [OF last_draw_ok this, of 4 6]
  have "global_ok default_limits 4 (reserve ''a'' 5 1 []) \<longrightarrow> pinned_attempt default_limits ''a'' 6 4 (reserve ''a'' 5 1 []) \<noteq> None"
    by (simp add: default_limits_def u32_max_def)
  ultimately show ?thesis by blast
qed

text \<open>
  After the limits are set, a single request of any estimated size fits an idle account: its
  units are at least one and never above what the ordinary limit leaves, so a large request is
  delayed, not excluded forever.
\<close>

lemma any_request_fits_idle_account:
  assumes "al_account_in_flight_pressure l < u32_max"
  defines "l' \<equiv> set_admission_limits l"
  shows "1 \<le> request_pressure_units l' c tokens \<and> ordinary_ok l' (request_pressure_units l' c tokens) neutral"
proof -
  have cap: "al_account_in_flight_pressure l' = al_account_in_flight_pressure l"
    "al_account_in_flight l' = al_account_in_flight l"
    by (simp_all add: l'_def set_admission_limits_def Let_def)
  have count: "al_account_in_flight l' = 0 \<or> 0 < ordinary_limit l'"
    by (auto simp: l'_def set_admission_limits_def Let_def ordinary_limit_def)
  have room: "al_account_in_flight_pressure l' = 0 \<or> 0 < ordinary_pressure_limit l'"
    by (auto simp: l'_def set_admission_limits_def Let_def ordinary_pressure_limit_def)
  have small: "ordinary_pressure_limit l' < u32_max"
    using assms(1) cap by (simp add: ordinary_pressure_limit_def)
  define units where "units = request_pressure_units l' c tokens"
  have "1 \<le> units" by (simp add: units_def request_pressure_units_def Let_def u32_max_def)
  moreover have "al_account_in_flight_pressure l' = 0 \<or> units \<le> ordinary_pressure_limit l'"
    using room by (auto simp: units_def request_pressure_units_def Let_def)
  ultimately show ?thesis unfolding units_def [symmetric] ordinary_ok_def
    using count room small by (auto simp: add_u32_def)
qed

lemma any_request_fits_idle_account_example:
  "ordinary_ok (set_admission_limits default_limits)
     (request_pressure_units (set_admission_limits default_limits) default_calibration 4000000) neutral"
  by (rule any_request_fits_idle_account [THEN conjunct2]) (simp add: default_limits_def u32_max_def)

lemma div_ceil_between: "0 < b \<Longrightarrow> b * lo \<le> a \<Longrightarrow> a \<le> b * hi \<Longrightarrow> lo \<le> div_ceil a b \<and> div_ceil a b \<le> hi"
  by (simp add: div_ceil_le div_ceil_ge)

text \<open>
  The calibration ratio stays between a quarter and four times the estimate through any sequence
  of terminal usages, so one malformed terminal cannot make later weights collapse or explode.
\<close>

lemma calibration_bounded:
  "let c = fold (\<lambda>(estimated, actual). record_actual_pressure estimated actual) samples default_calibration
   in 250 \<le> pc_ratio_milli c \<and> pc_ratio_milli c \<le> 4000"
proof -
  have step: "250 \<le> pc_ratio_milli (record_actual_pressure e a c) \<and> pc_ratio_milli (record_actual_pressure e a c) \<le> 4000"
    if c: "250 \<le> pc_ratio_milli c" "pc_ratio_milli c \<le> 4000" for e a c
  proof (cases "e = 0 \<or> a = 0")
    case True
    with c show ?thesis by (auto simp: record_actual_pressure_def)
  next
    case False
    define r where "r = clamp_nat 250 4000 (mul_u64 a 1000 div e)"
    have r: "250 \<le> r" "r \<le> 4000" using clamp_nat_bounds [of 250 4000] by (simp_all add: r_def)
    have "add_u64 (mul_u64 (pc_ratio_milli c) 7) r = pc_ratio_milli c * 7 + r"
      using c r by (simp add: add_u64_def mul_u64_def u64_max_def)
    moreover have "250 \<le> div_ceil (pc_ratio_milli c * 7 + r) 8 \<and> div_ceil (pc_ratio_milli c * 7 + r) 8 \<le> 4000"
      using c r by (intro div_ceil_between) auto
    ultimately show ?thesis using False by (simp add: record_actual_pressure_def r_def [symmetric])
  qed
  have "250 \<le> pc_ratio_milli (fold (\<lambda>(e, a). record_actual_pressure e a) samples c) \<and>
      pc_ratio_milli (fold (\<lambda>(e, a). record_actual_pressure e a) samples c) \<le> 4000"
    if "250 \<le> pc_ratio_milli c" "pc_ratio_milli c \<le> 4000" for c
    using that
  proof (induction samples arbitrary: c)
    case (Cons x xs)
    then show ?case using step by (cases x) simp
  qed simp
  then show ?thesis by (simp add: Let_def default_calibration_def)
qed

end
