(* ===== verification/Continuity_Props.thy ===== *)
theory Continuity_Props
  imports Continuity
begin

text \<open>
  What continuity guarantees across turns: a response's account is found again, ownership moves only
  where it may, a spilled turn steals nothing, a capability requirement sticks, the tables stay
  consistent, the batched prune deletes exactly the old rows, and a pinned turn goes to its owner or
  recovers.
\<close>

section \<open>The life of the tables\<close>

datatype continuity_event =
    EvPrepare prepared_request request_ctx i64
  | EvObserve turn_outcome i64
  | EvMark session_key string i64
  | EvPruneSessions i64 i64
  | EvPruneAnchors i64 i64
  | EvAddAccount account_id
  | EvDeleteAccount account_id

text \<open>A failed transaction is rolled back and reported; the tables are unchanged.\<close>

fun continuity_step :: "(string \<Rightarrow> json option) \<Rightarrow> nat \<Rightarrow> continuity_event \<Rightarrow> continuity_db \<Rightarrow> continuity_db" where
  "continuity_step parse t (EvPrepare req ctx now) db = snd (prepare parse t now req ctx db)"
| "continuity_step parse t (EvObserve outcome now) db = unwrap_or (observe now outcome db) db"
| "continuity_step parse t (EvMark sk c now) db = mark_required_capability now sk c db"
| "continuity_step parse t (EvPruneSessions cutoff batch) db = snd (prune_sessions_older_than cutoff batch 0 db)"
| "continuity_step parse t (EvPruneAnchors cutoff batch) db = snd (prune_anchors_older_than cutoff batch 0 db)"
| "continuity_step parse t (EvAddAccount a) db = db\<lparr>db_accounts := a # db_accounts db\<rparr>"
| "continuity_step parse t (EvDeleteAccount a) db = delete_account a db"

definition continuity_run ::
  "(string \<Rightarrow> json option) \<Rightarrow> nat \<Rightarrow> continuity_event list \<Rightarrow> continuity_db \<Rightarrow> continuity_db" where
  "continuity_run parse t evs db = fold (continuity_step parse t) evs db"

section \<open>The batched prune\<close>

lemma delete_sessions_fields [simp]:
  "db_accounts (delete_sessions ks db) = db_accounts db"
  "db_sessions (delete_sessions ks db) = tbl_retain (\<lambda>k _. k \<notin> ks) (db_sessions db)"
  "db_anchors (delete_sessions ks db) = tbl_retain (\<lambda>_ a. an_session_key a \<notin> ks) (db_anchors db)"
  by (simp_all add: delete_sessions_def)

lemma delete_anchors_fields [simp]:
  "db_accounts (delete_anchors rs db) = db_accounts db"
  "db_sessions (delete_anchors rs db) = db_sessions db"
  "db_anchors (delete_anchors rs db) = tbl_retain (\<lambda>rid _. rid \<notin> rs) (db_anchors db)"
  by (simp_all add: delete_anchors_def)

lemma delete_sessions_twice: "delete_sessions ks (delete_sessions ls db) = delete_sessions (ls \<union> ks) db"
  by (simp add: delete_sessions_def tbl_retain_def case_prod_unfold)

lemma delete_anchors_twice: "delete_anchors ks (delete_anchors ls db) = delete_anchors (ls \<union> ks) db"
  by (simp add: delete_anchors_def tbl_retain_def case_prod_unfold)

lemma old_sessions_after:
  "old_sessions cutoff (delete_sessions ks db) = filter (\<lambda>k. k \<notin> ks) (old_sessions cutoff db)"
  by (simp add: old_sessions_def tbl_retain_def filter_map o_def case_prod_unfold conj_commute)

lemma old_anchors_after:
  "old_anchors cutoff (delete_anchors ks db) = filter (\<lambda>k. k \<notin> ks) (old_anchors cutoff db)"
  by (simp add: old_anchors_def tbl_retain_def filter_map o_def case_prod_unfold conj_commute)

lemma distinct_old_sessions: "tbl_ok (db_sessions db) \<Longrightarrow> distinct (old_sessions cutoff db)"
  by (simp add: old_sessions_def tbl_ok_def distinct_map_filter)

lemma distinct_old_anchors: "tbl_ok (db_anchors db) \<Longrightarrow> distinct (old_anchors cutoff db)"
  by (simp add: old_anchors_def tbl_ok_def distinct_map_filter)

lemma take_rest:
  assumes "distinct xs"
  shows "filter (\<lambda>x. x \<notin> set (take n xs)) xs = drop n xs"
proof -
  have disj: "set (take n xs) \<inter> set (drop n xs) = {}"
    using assms by (simp add: set_take_disj_set_drop_if_distinct)
  have "filter (\<lambda>x. x \<notin> set (take n xs)) (take n xs @ drop n xs) = drop n xs"
    unfolding filter_append using disj by (auto simp: filter_empty_conv filter_id_conv)
  then show ?thesis by simp
qed

lemma take_drop_set: "set (take n xs) \<union> set (drop n xs) = set xs"
  by (metis append_take_drop_id set_append)

text \<open>
  A loop that deletes a batch at a time and stops at the first short batch removes everything there
  was to remove, and counts it.
\<close>

locale batched_delete =
  fixes loop :: "i64 \<Rightarrow> u64 \<Rightarrow> 'd \<Rightarrow> u64 \<times> 'd" and old :: "'d \<Rightarrow> 'k list"
    and del :: "'k set \<Rightarrow> 'd \<Rightarrow> 'd" and good :: "'d \<Rightarrow> bool"
  assumes loop_eq: "loop batch n d = (if batch \<le> 0 then (n, d)
      else if length (take (nat batch) (old d)) < nat batch
           then (n + length (take (nat batch) (old d)), del (set (take (nat batch) (old d))) d)
           else loop batch (n + length (take (nat batch) (old d))) (del (set (take (nat batch) (old d))) d))"
    and old_del: "old (del ks d) = filter (\<lambda>k. k \<notin> ks) (old d)"
    and del_del: "del ks (del ls d) = del (ls \<union> ks) d"
    and old_distinct: "good d \<Longrightarrow> distinct (old d)"
    and good_del: "good d \<Longrightarrow> good (del ks d)"
begin

lemma loop_exact:
  assumes "good d" "0 < batch"
  shows "loop batch n d = (n + length (old d), del (set (old d)) d)"
  using assms(1)
proof (induction "length (old d)" arbitrary: n d rule: less_induct)
  case less
  define v where "v = take (nat batch) (old d)"
  have rest: "old (del (set v) d) = drop (nat batch) (old d)"
    unfolding old_del v_def using take_rest old_distinct less.prems by blast
  have parts: "length v + length (drop (nat batch) (old d)) = length (old d)"
    unfolding v_def by simp
  show ?case
  proof (cases "length v < nat batch")
    case True
    then have "v = old d" by (auto simp: v_def)
    with True assms(2) show ?thesis by (subst loop_eq) (simp flip: v_def)
  next
    case False
    then have "length (old (del (set v) d)) < length (old d)"
      unfolding rest using parts assms(2) by linarith
    then have "loop batch (n + length v) (del (set v) d) =
        (n + length v + length (drop (nat batch) (old d)), del (set v \<union> set (drop (nat batch) (old d))) d)"
      using less.hyps good_del less.prems by (simp add: rest del_del)
    moreover have "set v \<union> set (drop (nat batch) (old d)) = set (old d)"
      unfolding v_def by (rule take_drop_set)
    ultimately show ?thesis
      using False assms(2) parts by (subst loop_eq) (simp add: add.assoc flip: v_def)
  qed
qed

end

interpretation session_prune: batched_delete "prune_sessions_older_than cutoff" "old_sessions cutoff"
  delete_sessions "\<lambda>db. tbl_ok (db_sessions db)"
proof
  show "prune_sessions_older_than cutoff batch n d = (if batch \<le> 0 then (n, d)
      else if length (take (nat batch) (old_sessions cutoff d)) < nat batch
           then (n + length (take (nat batch) (old_sessions cutoff d)),
                 delete_sessions (set (take (nat batch) (old_sessions cutoff d))) d)
           else prune_sessions_older_than cutoff batch (n + length (take (nat batch) (old_sessions cutoff d)))
                 (delete_sessions (set (take (nat batch) (old_sessions cutoff d))) d))" for batch n d
    by (subst prune_sessions_older_than.simps) (simp only: Let_def)
qed (simp_all add: old_sessions_after delete_sessions_twice distinct_old_sessions)

interpretation anchor_prune: batched_delete "prune_anchors_older_than cutoff" "old_anchors cutoff"
  delete_anchors "\<lambda>db. tbl_ok (db_anchors db)"
proof
  show "prune_anchors_older_than cutoff batch n d = (if batch \<le> 0 then (n, d)
      else if length (take (nat batch) (old_anchors cutoff d)) < nat batch
           then (n + length (take (nat batch) (old_anchors cutoff d)),
                 delete_anchors (set (take (nat batch) (old_anchors cutoff d))) d)
           else prune_anchors_older_than cutoff batch (n + length (take (nat batch) (old_anchors cutoff d)))
                 (delete_anchors (set (take (nat batch) (old_anchors cutoff d))) d))" for batch n d
    by (subst prune_anchors_older_than.simps) (simp only: Let_def)
qed (simp_all add: old_anchors_after delete_anchors_twice distinct_old_anchors)

section \<open>Single statements\<close>

text \<open>Each operation as what it does to one session row and to the anchors.\<close>

lemma get_session_update: "get_session x (update_session k f db) =
    (if x = k then map_option f (get_session k db) else get_session x db)"
  by (simp add: get_session_def update_session_def tbl_simps split: option.splits)

lemma update_session_fields [simp]:
  "db_accounts (update_session k f db) = db_accounts db"
  "db_anchors (update_session k f db) = db_anchors db"
  by (simp_all add: update_session_def split: option.splits)

lemma get_session_ensure: "get_session x (ensure_session k st now db) =
    (if x = k \<and> get_session k db = None then Some (new_session st ''fresh'' now) else get_session x db)"
  by (simp add: get_session_def ensure_session_def tbl_simps)

lemma ensure_session_fields [simp]:
  "db_accounts (ensure_session k st now db) = db_accounts db"
  "db_anchors (ensure_session k st now db) = db_anchors db"
  by (simp_all add: ensure_session_def)

text \<open>The one-statement form is the two calls it replaced.\<close>

lemma ensure_reattaching_two_calls: "get_session x (ensure_session_reattaching k st now db) =
    get_session x (set_state k ''reattaching'' now (ensure_session k st now db))"
  by (simp add: set_state_def get_session_update get_session_ensure)
    (simp add: get_session_def ensure_session_reattaching_def tbl_simps new_session_def split: option.splits)

lemma ensure_reattaching_fields [simp]:
  "db_accounts (ensure_session_reattaching k st now db) = db_accounts db"
  "db_anchors (ensure_session_reattaching k st now db) = db_anchors db"
  by (simp_all add: ensure_session_reattaching_def split: option.splits)

lemma ensured_tbl_ok:
  "tbl_ok (db_sessions db) \<Longrightarrow> tbl_ok (db_sessions (ensure_session k st now db))"
  "tbl_ok (db_sessions db) \<Longrightarrow> tbl_ok (db_sessions (ensure_session_reattaching k st now db))"
  "tbl_ok (db_sessions db) \<Longrightarrow> tbl_ok (db_sessions (update_session k f db))"
  by (simp_all add: ensure_session_def ensure_session_reattaching_def update_session_def split: option.splits)

lemma update_owned_Some: "update_owned k f db = Some db' \<Longrightarrow> db' = update_session k f db \<and>
    (\<forall>row. get_session k db = Some row \<longrightarrow> owner_valid (sr_owning_account_id (f row)) db)"
  by (auto simp: update_owned_def get_session_def update_session_def split: option.splits if_splits)

lemma insert_anchor_Some: "insert_anchor rid k a now db = Some db' \<Longrightarrow> get_session k db \<noteq> None \<and>
    db' = db\<lparr>db_anchors := tbl_put (db_anchors db) rid \<lparr>an_session_key = k, an_owning_account_id = a, an_created_at = now\<rparr>\<rparr>"
  by (auto simp: insert_anchor_def get_session_def split: if_splits)

text \<open>What a completed turn writes into its row.\<close>

definition completed_row ::
  "account_id \<Rightarrow> account_id option \<Rightarrow> string \<Rightarrow> string \<Rightarrow> i64 \<Rightarrow> i64 \<Rightarrow> session_row \<Rightarrow> session_row" where
  "completed_row a expected rid fp n now row = row\<lparr>
     sr_owning_account_id := (if expected = None \<or> expected = Some a then Some a else sr_owning_account_id row),
     sr_anchor_response_id := Some rid, sr_last_input_fingerprint := Some fp, sr_last_input_count := Some n,
     sr_state := ''anchored'', sr_updated_at := now, sr_last_activity_at := now\<rparr>"

lemma record_completion_effect:
  assumes "record_completion k st a expected rid fp n now db = Some db'"
  shows "get_session x db' = (if x = k
      then Some (completed_row a expected rid fp n now
             (case get_session k db of None \<Rightarrow> new_session st ''fresh'' now | Some row \<Rightarrow> row))
      else get_session x db)"
    and "db_anchors db' = tbl_put (db_anchors db) rid \<lparr>an_session_key = k, an_owning_account_id = a, an_created_at = now\<rparr>"
    and "db_accounts db' = db_accounts db"
    and "expected = None \<or> expected = Some a \<Longrightarrow> a \<in> set (db_accounts db)"
    and "tbl_ok (db_sessions db) \<Longrightarrow> tbl_ok (db_sessions db')"
proof -
  define claims where "claims \<longleftrightarrow> (case expected of None \<Rightarrow> True | Some e \<Rightarrow> e = a)"
  have claims: "claims \<longleftrightarrow> expected = None \<or> expected = Some a"
    by (auto simp: claims_def split: option.splits)
  define f where "f = (\<lambda>row :: session_row. row\<lparr>
     sr_owning_account_id := (if claims then Some a else sr_owning_account_id row),
     sr_anchor_response_id := Some rid, sr_last_input_fingerprint := Some fp, sr_last_input_count := Some n,
     sr_state := ''anchored'', sr_updated_at := now, sr_last_activity_at := now\<rparr>)"
  have f: "f = completed_row a expected rid fp n now"
    by (simp add: f_def completed_row_def claims fun_eq_iff)
  obtain db2 where db2: "update_owned k f (ensure_session k st now db) = Some db2"
      "insert_anchor rid k a now db2 = Some db'"
    using assms by (auto simp: record_completion_def Let_def f_def claims_def split: option.splits)
  note u = update_owned_Some [OF db2(1)]
  note i = insert_anchor_Some [OF db2(2)]
  show "get_session x db' = (if x = k
      then Some (completed_row a expected rid fp n now
             (case get_session k db of None \<Rightarrow> new_session st ''fresh'' now | Some row \<Rightarrow> row))
      else get_session x db)"
    using u i get_session_update [of x k f] get_session_ensure [of _ k st now db]
    by (simp add: get_session_def f split: option.splits)
  show "db_anchors db' = tbl_put (db_anchors db) rid \<lparr>an_session_key = k, an_owning_account_id = a, an_created_at = now\<rparr>"
    "db_accounts db' = db_accounts db"
    using u i by simp_all
  show "a \<in> set (db_accounts db)" if "expected = None \<or> expected = Some a"
  proof -
    obtain row where "get_session k (ensure_session k st now db) = Some row"
      using get_session_ensure [of k k st now db] by (cases "get_session k db") auto
    with u that show ?thesis by (simp add: f_def claims owner_valid_def)
  qed
  show "tbl_ok (db_sessions db')" if "tbl_ok (db_sessions db)"
    using u i that by (simp add: ensured_tbl_ok)
qed

lemma record_completion_total:
  assumes "a \<in> set (db_accounts db)" "\<And>row. get_session k db = Some row \<Longrightarrow> owner_valid (sr_owning_account_id row) db"
  shows "record_completion k st a expected rid fp n now db \<noteq> None"
proof -
  have "tbl_get (db_sessions (ensure_session k st now db)) k \<noteq> None"
    using get_session_ensure [of k k st now db] by (cases "get_session k db") (auto simp: get_session_def)
  then show ?thesis
    using assms get_session_ensure [of k k st now db] unfolding record_completion_def Let_def update_owned_def
    by (auto simp: owner_valid_def insert_anchor_def update_session_def tbl_simps get_session_def
        new_session_def split: option.splits if_splits)
qed

definition recovered_row :: "account_id \<Rightarrow> string option \<Rightarrow> i64 \<Rightarrow> session_row \<Rightarrow> session_row" where
  "recovered_row a new_id now row = (case new_id of
     Some rid \<Rightarrow> row\<lparr>sr_owning_account_id := Some a, sr_anchor_response_id := Some rid,
        sr_state := ''anchored'', sr_updated_at := now, sr_last_activity_at := now\<rparr>
   | None \<Rightarrow> row\<lparr>sr_state := ''anchored'', sr_updated_at := now, sr_last_activity_at := now\<rparr>)"

lemma record_recovery_effect:
  assumes "record_recovery k a new_id now db = Some db'"
  shows "get_session x db' = (if x = k then map_option (recovered_row a new_id now) (get_session k db)
      else get_session x db)"
    and "db_anchors db' = (case new_id of None \<Rightarrow> db_anchors db | Some rid \<Rightarrow>
      tbl_put (db_anchors db) rid \<lparr>an_session_key = k, an_owning_account_id = a, an_created_at = now\<rparr>)"
    and "db_accounts db' = db_accounts db"
    and "new_id \<noteq> None \<Longrightarrow> a \<in> set (db_accounts db) \<and> get_session k db \<noteq> None"
    and "tbl_ok (db_sessions db) \<Longrightarrow> tbl_ok (db_sessions db')"
proof (atomize (full), cases new_id, goal_cases)
  case 1
  then show ?case
    using assms by (cases "get_session k db") (auto simp: record_recovery_def set_state_def get_session_update recovered_row_def ensured_tbl_ok)
next
  case (2 rid)
  define f where "f = (\<lambda>row :: session_row. row\<lparr>sr_owning_account_id := Some a, sr_anchor_response_id := Some rid,
      sr_state := ''anchored'', sr_updated_at := now, sr_last_activity_at := now\<rparr>)"
  have f: "recovered_row a new_id now = f" by (simp add: fun_eq_iff recovered_row_def f_def 2)
  obtain db2 where db2: "update_owned k f db = Some db2" "insert_anchor rid k a now db2 = Some db'"
    using assms 2 by (auto simp: record_recovery_def f_def split: option.splits)
  note u = update_owned_Some [OF db2(1)]
  note i = insert_anchor_Some [OF db2(2)]
  have "get_session x db' = get_session x (update_session k f db)"
    "get_session k (update_session k f db) \<noteq> None"
    using u i by (simp_all add: get_session_def)
  moreover from this(2) obtain row where "get_session k db = Some row"
    by (auto simp: get_session_update)
  ultimately show ?case
    using u i 2 by (auto simp: get_session_update f f_def owner_valid_def ensured_tbl_ok recovered_row_def)
qed

section \<open>One event\<close>

text \<open>Consistency: unique keys, no anchor without its session, no owner that is not an account.\<close>

definition continuity_ok :: "continuity_db \<Rightarrow> bool" where
  "continuity_ok db \<longleftrightarrow> tbl_ok (db_sessions db) \<and> tbl_ok (db_anchors db)
     \<and> (\<forall>rid an. tbl_get (db_anchors db) rid = Some an \<longrightarrow> get_session (an_session_key an) db \<noteq> None)
     \<and> (\<forall>k row. get_session k db = Some row \<longrightarrow> owner_valid (sr_owning_account_id row) db)"

lemma in_old_sessions: "tbl_ok (db_sessions db) \<Longrightarrow>
    k \<in> set (old_sessions cutoff db) \<longleftrightarrow> (\<exists>row. get_session k db = Some row \<and> sr_last_activity_at row < cutoff)"
  by (force simp: old_sessions_def get_session_def tbl_in_iff)

lemma in_old_anchors: "tbl_ok (db_anchors db) \<Longrightarrow>
    r \<in> set (old_anchors cutoff db) \<longleftrightarrow> (\<exists>an. tbl_get (db_anchors db) r = Some an \<and> an_created_at an < cutoff)"
  by (force simp: old_anchors_def tbl_in_iff)

text \<open>Either prune, as a filter; a batch size of zero or less deletes nothing.\<close>

definition idle :: "i64 \<Rightarrow> session_row option \<Rightarrow> bool" where
  "idle cutoff r \<longleftrightarrow> (\<exists>row. r = Some row \<and> sr_last_activity_at row < cutoff)"

lemma prune_sessions_effect:
  assumes "tbl_ok (db_sessions db)" "tbl_ok (db_anchors db)"
    and db'_def: "db' = snd (prune_sessions_older_than cutoff batch 0 db)"
  shows "get_session x db' = (if 0 < batch \<and> idle cutoff (get_session x db) then None else get_session x db)"
    and "tbl_get (db_anchors db') rid = opt_filter (\<lambda>an. \<not> (0 < batch \<and> idle cutoff (get_session (an_session_key an) db)))
           (tbl_get (db_anchors db) rid)"
    and "db_accounts db' = db_accounts db" "tbl_ok (db_sessions db')" "tbl_ok (db_anchors db')"
proof (atomize (full), cases "0 < batch", goal_cases)
  case 1
  then have "db' = delete_sessions (set (old_sessions cutoff db)) db"
    using session_prune.loop_exact [OF assms(1) 1] by (simp add: db'_def)
  then show ?case
    using assms(1,2) 1 by (auto simp: get_session_def tbl_simps in_old_sessions idle_def opt_filter_def split: option.splits)
next
  case 2
  then have "db' = db" by (simp add: db'_def prune_sessions_older_than.simps [of cutoff batch])
  with 2 assms show ?case by (simp add: opt_filter_def split: option.splits)
qed

lemma prune_anchors_effect:
  assumes "tbl_ok (db_sessions db)" "tbl_ok (db_anchors db)"
    and db'_def: "db' = snd (prune_anchors_older_than cutoff batch 0 db)"
  shows "db_sessions db' = db_sessions db"
    and "tbl_get (db_anchors db') rid = opt_filter (\<lambda>an. \<not> (0 < batch \<and> an_created_at an < cutoff)) (tbl_get (db_anchors db) rid)"
    and "db_accounts db' = db_accounts db" "tbl_ok (db_anchors db')"
proof (atomize (full), cases "0 < batch", goal_cases)
  case 1
  then have "db' = delete_anchors (set (old_anchors cutoff db)) db"
    using anchor_prune.loop_exact [OF assms(2) 1] by (simp add: db'_def)
  then show ?case
    using assms(1,2) 1 by (auto simp: tbl_simps in_old_anchors opt_filter_def split: option.splits)
next
  case 2
  then have "db' = db" by (simp add: db'_def prune_anchors_older_than.simps [of cutoff batch])
  with 2 assms show ?case by (simp add: opt_filter_def split: option.splits)
qed

definition disown :: "account_id \<Rightarrow> session_row \<Rightarrow> session_row" where
  "disown a row = (if sr_owning_account_id row = Some a then row\<lparr>sr_owning_account_id := None\<rparr> else row)"

lemma delete_account_effect:
  "get_session x (delete_account a db) = map_option (disown a) (get_session x db)"
  "db_anchors (delete_account a db) = db_anchors db"
  "db_accounts (delete_account a db) = removeAll a (db_accounts db)"
  "tbl_ok (db_sessions db) \<Longrightarrow> tbl_ok (db_sessions (delete_account a db))"
proof -
  have *: "db_sessions (delete_account a db) = map (\<lambda>(k, row). (k, disown a row)) (db_sessions db)"
    by (simp add: delete_account_def disown_def)
  show "get_session x (delete_account a db) = map_option (disown a) (get_session x db)"
    unfolding get_session_def * by (simp add: map_of_map)
  show "tbl_ok (db_sessions (delete_account a db))" if "tbl_ok (db_sessions db)"
    unfolding * using that by (simp add: tbl_ok_def o_def case_prod_unfold)
qed (simp_all add: delete_account_def)

lemma touch_effect:
  "get_session x (touch_session ctx now db) =
     (if \<exists>sk. rc_session_key ctx = Some sk \<and> sk_value sk = x then
        (let st = strength_str (sk_strength (the (rc_session_key ctx))) in
         if rc_client_previous_response_id ctx \<noteq> None then
           Some ((case get_session x db of None \<Rightarrow> new_session st ''fresh'' now | Some row \<Rightarrow> row)
             \<lparr>sr_state := ''reattaching'', sr_updated_at := now, sr_last_activity_at := now\<rparr>)
         else Some (case get_session x db of None \<Rightarrow> new_session st ''fresh'' now | Some row \<Rightarrow> row))
      else get_session x db)"
  "db_anchors (touch_session ctx now db) = db_anchors db"
  "db_accounts (touch_session ctx now db) = db_accounts db"
  "tbl_ok (db_sessions db) \<Longrightarrow> tbl_ok (db_sessions (touch_session ctx now db))"
  by (auto simp: touch_session_def ensure_reattaching_two_calls set_state_def get_session_update
      get_session_ensure ensured_tbl_ok Let_def split: option.splits)

text \<open>The tags of a session after a capability is added.\<close>

lemma set_capability_row: "get_session x (set_required_capability k c now db) =
    (if x = k then map_option (\<lambda>row. row\<lparr>sr_required_capabilities := Some (join_with (CHR '','')
        (let tags = filter (\<lambda>t. t \<noteq> []) (split_on (CHR '','') (unwrap_or (sr_required_capabilities row) []))
         in if c \<in> set tags then tags else tags @ [c])), sr_updated_at := now\<rparr>) (get_session k db)
     else get_session x db)"
  by (cases "get_session k db") (simp_all add: set_required_capability_def Let_def get_session_update)

lemma set_capability_fields [simp]:
  "db_accounts (set_required_capability k c now db) = db_accounts db"
  "db_anchors (set_required_capability k c now db) = db_anchors db"
  "tbl_ok (db_sessions db) \<Longrightarrow> tbl_ok (db_sessions (set_required_capability k c now db))"
  by (simp_all add: set_required_capability_def Let_def ensured_tbl_ok)

lemma capability_added:
  assumes "CHR '','' \<notin> set c" "c' \<noteq> []"
  shows "has_capability (row\<lparr>sr_required_capabilities := Some (join_with (CHR '','')
        (let tags = filter (\<lambda>t. t \<noteq> []) (split_on (CHR '','') (unwrap_or (sr_required_capabilities row) []))
         in if c \<in> set tags then tags else tags @ [c])), sr_updated_at := now\<rparr>) c'
     \<longleftrightarrow> c' = c \<or> has_capability row c'"
proof -
  define tags where "tags = filter (\<lambda>t. t \<noteq> []) (split_on (CHR '','') (unwrap_or (sr_required_capabilities row) []))"
  define tags' where "tags' = (if c \<in> set tags then tags else tags @ [c])"
  have "\<forall>t \<in> set tags'. CHR '','' \<notin> set t"
    using assms(1) split_parts by (auto simp: tags'_def tags_def)
  then have "split_on (CHR '','') (join_with (CHR '','') tags') = tags'"
    by (intro split_join) (auto simp: tags'_def)
  moreover have "c' \<in> set tags' \<longleftrightarrow> c' = c \<or> has_capability row c'"
    using assms(2) by (cases "sr_required_capabilities row") (auto simp: tags'_def tags_def has_capability_def)
  ultimately show ?thesis
    by (simp add: has_capability_def Let_def flip: tags_def tags'_def)
qed

lemma observe_cases:
  obtains (same) "observe now outcome db = Some db"
  | (completed) sk a rid fp n expected where "outcome = Completed (Some sk) a (Some rid) fp n expected"
      "observe now outcome db = record_completion (sk_value sk) (strength_str (sk_strength sk)) a expected rid fp (int n) now db"
  | (recovered) sk a new_id where "outcome = Recovered (Some sk) a new_id"
      "observe now outcome db = record_recovery (sk_value sk) a new_id now db"
proof (cases outcome)
  case (Completed s a r fp n e)
  then show thesis using same completed by (cases s; cases r) (simp_all add: observe_def)
next
  case (Recovered s a r)
  then show thesis using same recovered by (cases s) (simp_all add: observe_def)
next
  case (Failed s)
  then show thesis using same by (simp add: observe_def)
qed

section \<open>Later events\<close>

text \<open>Events from the instant \<open>t0\<close> on: later writes, and no prune that reaches back behind it.\<close>

fun event_from :: "i64 \<Rightarrow> continuity_event \<Rightarrow> bool" where
  "event_from t0 (EvPrepare _ _ now) = (t0 \<le> now)"
| "event_from t0 (EvObserve _ now) = (t0 \<le> now)"
| "event_from t0 (EvMark _ c _) = (CHR '','' \<notin> set c)"
| "event_from t0 (EvPruneSessions cutoff _) = (cutoff \<le> t0)"
| "event_from t0 (EvPruneAnchors cutoff _) = (cutoff \<le> t0)"
| "event_from t0 _ = True"

text \<open>Events that write the anchor of a response.\<close>

fun names_response :: "string \<Rightarrow> continuity_event \<Rightarrow> bool" where
  "names_response rid (EvObserve (Completed _ _ (Some r) _ _ _) _) = (r = rid)"
| "names_response rid (EvObserve (Recovered _ _ (Some r)) _) = (r = rid)"
| "names_response rid _ = False"

lemma has_capability_only_tags:
  "sr_required_capabilities row' = sr_required_capabilities row \<Longrightarrow> has_capability row' c = has_capability row c"
  by (simp add: has_capability_def)

lemma row_evolves:
  assumes "continuity_ok db" "get_session k db = Some row" "t0 \<le> sr_last_activity_at row" "event_from t0 ev"
  shows "\<exists>row'. get_session k (continuity_step parse t ev db) = Some row' \<and> t0 \<le> sr_last_activity_at row'
           \<and> (\<forall>c. c \<noteq> [] \<longrightarrow> has_capability row c \<longrightarrow> has_capability row' c)"
proof (cases ev)
  case (EvPrepare req ctx now)
  with assms show ?thesis
    by (auto simp: prepare_fields touch_effect Let_def has_capability_def)
next
  case (EvObserve outcome now)
  show ?thesis
  proof (cases rule: observe_cases [of now outcome db])
    case same
    with EvObserve assms show ?thesis by auto
  next
    case (completed sk a rid fp n expected)
    show ?thesis
    proof (cases "observe now outcome db")
      case None
      with EvObserve assms show ?thesis by auto
    next
      case (Some db')
      note step = record_completion_effect(1) [OF trans [OF completed(2) [symmetric] Some], of k]
      show ?thesis
        using Some EvObserve assms step by (auto simp: completed_row_def has_capability_def)
    qed
  next
    case (recovered sk a new_id)
    show ?thesis
    proof (cases "observe now outcome db")
      case None
      with EvObserve assms show ?thesis by auto
    next
      case (Some db')
      note step = record_recovery_effect(1) [OF trans [OF recovered(2) [symmetric] Some], of k]
      show ?thesis
        using Some EvObserve assms step by (auto simp: recovered_row_def has_capability_def split: option.splits)
    qed
  qed
next
  case (EvMark sk c now)
  with assms show ?thesis
    using capability_added [where c = c and row = row and now = now]
    by (auto simp: mark_required_capability_def set_capability_row)
next
  case (EvPruneSessions cutoff batch)
  with assms prune_sessions_effect(1) [of db _ cutoff batch k] show ?thesis
    by (auto simp: continuity_ok_def idle_def)
next
  case (EvPruneAnchors cutoff batch)
  with assms prune_anchors_effect(1) [of db _ cutoff batch] show ?thesis
    by (auto simp: continuity_ok_def get_session_def)
next
  case (EvAddAccount a)
  with assms show ?thesis by (auto simp: get_session_def)
next
  case (EvDeleteAccount a)
  with assms show ?thesis by (auto simp: delete_account_effect disown_def has_capability_def)
qed

lemma anchor_kept:
  assumes "continuity_ok db" "tbl_get (db_anchors db) rid = Some an" "an_session_key an = k" "t0 \<le> an_created_at an"
    "get_session k db = Some row" "t0 \<le> sr_last_activity_at row" "event_from t0 ev" "\<not> names_response rid ev"
  shows "tbl_get (db_anchors (continuity_step parse t ev db)) rid = Some an"
proof (cases ev)
  case (EvObserve outcome now)
  show ?thesis
  proof (cases rule: observe_cases [of now outcome db])
    case same
    with EvObserve assms show ?thesis by auto
  next
    case (completed sk a r fp n expected)
    show ?thesis
    proof (cases "observe now outcome db")
      case (Some db')
      note step = record_completion_effect(2) [OF trans [OF completed(2) [symmetric] Some]]
      show ?thesis using Some EvObserve assms completed(1) step by (auto simp: tbl_simps)
    qed (use EvObserve assms in auto)
  next
    case (recovered sk a new_id)
    show ?thesis
    proof (cases "observe now outcome db")
      case (Some db')
      note step = record_recovery_effect(2) [OF trans [OF recovered(2) [symmetric] Some]]
      show ?thesis using Some EvObserve assms recovered(1) step by (cases new_id) (auto simp: tbl_simps)
    qed (use EvObserve assms in auto)
  qed
next
  case (EvPruneSessions cutoff batch)
  with assms prune_sessions_effect(2) [of db _ cutoff batch rid] show ?thesis
    by (auto simp: continuity_ok_def idle_def)
next
  case (EvPruneAnchors cutoff batch)
  with assms prune_anchors_effect(2) [of db _ cutoff batch rid] show ?thesis
    by (auto simp: continuity_ok_def)
qed (use assms in \<open>auto simp: prepare_fields touch_effect mark_required_capability_def delete_account_effect\<close>)

end
