(* ===== verification/Continuity_Claims.thy ===== *)
theory Continuity_Claims
  imports Continuity_Props
begin

text \<open>
  The properties of continuity: consistency of the tables over any run, where a response's account is
  found, when ownership moves, the sticky capability, the prune, the directive, and the routing of
  pinned turns.
\<close>

section \<open>Runs\<close>

lemma run_Cons: "continuity_run parse t (ev # evs) db = continuity_run parse t evs (continuity_step parse t ev db)"
  by (simp add: continuity_run_def)

lemma run_Nil: "continuity_run parse t [] db = db"
  by (simp add: continuity_run_def)

lemma continuity_okI:
  assumes "tbl_ok (db_sessions db)" "tbl_ok (db_anchors db)"
    "\<And>rid an. tbl_get (db_anchors db) rid = Some an \<Longrightarrow> get_session (an_session_key an) db \<noteq> None"
    "\<And>k row. get_session k db = Some row \<Longrightarrow> owner_valid (sr_owning_account_id row) db"
  shows "continuity_ok db"
  using assms by (simp add: continuity_ok_def)

lemma continuity_okD:
  assumes "continuity_ok db"
  shows "tbl_ok (db_sessions db)" "tbl_ok (db_anchors db)"
    "tbl_get (db_anchors db) rid = Some an \<Longrightarrow> get_session (an_session_key an) db \<noteq> None"
    "get_session k db = Some row \<Longrightarrow> owner_valid (sr_owning_account_id row) db"
  using assms by (simp_all add: continuity_ok_def)

lemma owner_valid_new [simp]: "owner_valid (sr_owning_account_id (new_session st s now)) db"
  by (simp add: new_session_def owner_valid_def)

lemma owner_valid_accounts: "db_accounts db' = db_accounts db \<Longrightarrow> owner_valid x db' = owner_valid x db"
  by (cases x) (simp_all add: owner_valid_def)

lemma observe_ok:
  assumes "continuity_ok db" "observe now outcome db = Some db'"
  shows "continuity_ok db'"
proof (cases rule: observe_cases [of now outcome db])
  case same
  with assms show ?thesis by simp
next
  case (completed sk a rid fp n expected)
  note eff = record_completion_effect [OF trans [OF completed(2) [symmetric] assms(2)]]
  note ok = continuity_okD [OF assms(1)]
  show ?thesis
  proof (rule continuity_okI)
    fix r an assume "tbl_get (db_anchors db') r = Some an"
    then show "get_session (an_session_key an) db' \<noteq> None"
      using ok(3) [of r an] by (auto simp: eff(1,2) tbl_simps split: if_splits)
  next
    fix k row assume "get_session k db' = Some row"
    then show "owner_valid (sr_owning_account_id row) db'"
      using ok(4) eff(4) unfolding owner_valid_accounts [OF eff(3)]
      by (auto simp: eff(1) completed_row_def split: if_splits option.splits)
        (auto simp: owner_valid_def)
  qed (use ok(1,2) eff(2,5) in simp_all)
next
  case (recovered sk a new_id)
  note eff = record_recovery_effect [OF trans [OF recovered(2) [symmetric] assms(2)]]
  note ok = continuity_okD [OF assms(1)]
  show ?thesis
  proof (rule continuity_okI)
    fix r an assume "tbl_get (db_anchors db') r = Some an"
    then show "get_session (an_session_key an) db' \<noteq> None"
      using ok(3) [of r an] eff(4) by (cases new_id) (auto simp: eff(1,2) tbl_simps split: if_splits)
  next
    fix k row assume "get_session k db' = Some row"
    then show "owner_valid (sr_owning_account_id row) db'"
      using ok(4) eff(4) unfolding owner_valid_accounts [OF eff(3)]
      by (auto simp: eff(1) recovered_row_def split: if_splits option.splits)
        (auto simp: owner_valid_def)
  qed (use ok(1,2) eff(2,5) in \<open>cases new_id; simp\<close>)+
qed

lemma step_ok:
  assumes "continuity_ok db"
  shows "continuity_ok (continuity_step parse t ev db)"
proof (cases ev)
  note ok = continuity_okD [OF assms]
  case (EvPrepare req ctx now)
  have "continuity_ok (touch_session ctx now db)"
  proof (rule continuity_okI)
    fix r an assume "tbl_get (db_anchors (touch_session ctx now db)) r = Some an"
    then show "get_session (an_session_key an) (touch_session ctx now db) \<noteq> None"
      using ok(3) [of r an] by (auto simp: touch_effect Let_def)
  next
    fix k row assume "get_session k (touch_session ctx now db) = Some row"
    then show "owner_valid (sr_owning_account_id row) (touch_session ctx now db)"
      using ok(4) [of k] owner_valid_new unfolding owner_valid_accounts [OF touch_effect(3)]
      by (auto simp: touch_effect(1) Let_def split: if_splits option.splits)
  qed (use ok in \<open>simp_all add: touch_effect\<close>)
  then show ?thesis by (simp add: EvPrepare prepare_fields)
next
  case (EvObserve outcome now)
  then show ?thesis using observe_ok assms by (cases "observe now outcome db") auto
next
  case (EvMark sk c now)
  have same: "(get_session k (set_required_capability (sk_value sk) c now db) = None) = (get_session k db = None)" for k
    by (simp add: set_capability_row)
  note ok = continuity_okD [OF assms]
  have "continuity_ok (set_required_capability (sk_value sk) c now db)"
  proof (rule continuity_okI)
    fix k row assume "get_session k (set_required_capability (sk_value sk) c now db) = Some row"
    then show "owner_valid (sr_owning_account_id row) (set_required_capability (sk_value sk) c now db)"
      using ok(4) [of k] unfolding owner_valid_accounts [OF set_capability_fields(1)]
      by (auto simp: set_capability_row split: if_splits)
  qed (use ok in \<open>simp_all only: same set_capability_fields not_False_eq_True\<close>)
  then show ?thesis by (simp add: EvMark mark_required_capability_def)
next
  case (EvPruneSessions cutoff batch)
  note eff = prune_sessions_effect [OF continuity_okD(1,2) [OF assms] refl, where cutoff = cutoff and batch = batch]
  show ?thesis unfolding EvPruneSessions continuity_step.simps
    using assms
    by (intro continuity_okI eff(4,5))
      (auto simp: eff continuity_ok_def owner_valid_accounts [OF eff(3)] opt_filter_Some split: if_splits)
next
  case (EvPruneAnchors cutoff batch)
  note eff = prune_anchors_effect [OF continuity_okD(1,2) [OF assms] refl, where cutoff = cutoff and batch = batch]
  have same: "get_session x (snd (prune_anchors_older_than cutoff batch 0 db)) = get_session x db" for x
    by (simp add: get_session_def eff(1))
  show ?thesis unfolding EvPruneAnchors continuity_step.simps
    using assms
    by (intro continuity_okI eff(4))
      (auto simp: eff same continuity_ok_def owner_valid_accounts [OF eff(3)] opt_filter_Some)
next
  case (EvAddAccount a)
  then show ?thesis using assms
    by (auto simp: continuity_ok_def get_session_def owner_valid_def split: option.splits)
next
  case (EvDeleteAccount a)
  note ok = continuity_okD [OF assms]
  have owner: "owner_valid (sr_owning_account_id (disown a row)) (delete_account a db)"
    if "owner_valid (sr_owning_account_id row) db" for row
    using that by (cases "sr_owning_account_id row") (auto simp: disown_def owner_valid_def delete_account_effect(3))
  have "continuity_ok (delete_account a db)"
    by (rule continuity_okI) (use ok owner in \<open>auto simp: delete_account_effect\<close>)
  then show ?thesis by (simp add: EvDeleteAccount)
qed

lemma run_ok: "continuity_ok db \<Longrightarrow> continuity_ok (continuity_run parse t evs db)"
  by (induction evs arbitrary: db) (simp_all add: run_Nil run_Cons step_ok)

lemma run_row:
  assumes "continuity_ok db" "get_session k db = Some row" "t0 \<le> sr_last_activity_at row"
    "\<forall>ev \<in> set evs. event_from t0 ev"
  shows "\<exists>row'. get_session k (continuity_run parse t evs db) = Some row' \<and> t0 \<le> sr_last_activity_at row'
           \<and> (\<forall>c. c \<noteq> [] \<longrightarrow> has_capability row c \<longrightarrow> has_capability row' c)"
  using assms
proof (induction evs arbitrary: db row)
  case Nil
  then show ?case by (simp add: run_Nil)
next
  case (Cons ev evs)
  then obtain row1 where "get_session k (continuity_step parse t ev db) = Some row1" "t0 \<le> sr_last_activity_at row1"
      "\<forall>c. c \<noteq> [] \<longrightarrow> has_capability row c \<longrightarrow> has_capability row1 c"
    using row_evolves [of db k row t0 ev parse t] by auto
  moreover note Cons.IH [of "continuity_step parse t ev db" row1] step_ok [OF Cons.prems(1)]
  ultimately show ?case using Cons.prems(4) by (fastforce simp: run_Cons)
qed

section \<open>Properties\<close>

definition demo_sk :: session_key where "demo_sk = \<lparr>sk_value = ''s1'', sk_strength = Soft\<rparr>"

definition demo_turn :: "string option \<Rightarrow> bool \<Rightarrow> request_ctx" where
  "demo_turn rid full = \<lparr>rc_session_id = None, rc_session_key = Some demo_sk, rc_logical_turn_key = None,
     rc_client_previous_response_id = rid, rc_is_full_resend = full, rc_input_count = 1,
     rc_estimated_tokens = 0, rc_subagent = None, rc_conn_discriminator = None\<rparr>"

definition demo_req :: prepared_request where
  "demo_req = \<lparr>pr_body = Some (JObj [(''input'', JArr []), (''previous_response_id'', JStr ''r0'')]),
     pr_model = ''m'', pr_forward_headers = [], pr_raw_body = None\<rparr>"

definition demo_db :: continuity_db where
  "demo_db = \<lparr>db_accounts = [''a'', ''b''],
     db_sessions = [(''s1'', (new_session ''soft'' ''anchored'' 5)\<lparr>sr_owning_account_id := Some ''a''\<rparr>)],
     db_anchors = [(''r0'', \<lparr>an_session_key = ''s1'', an_owning_account_id = ''a'', an_created_at = 5\<rparr>)]\<rparr>"

lemmas demo_defs = demo_db_def demo_req_def demo_turn_def demo_sk_def

lemma demo_db_ok: "continuity_ok demo_db"
  by (rule continuity_okI) (auto simp: demo_db_def tbl_ok_def get_session_def owner_valid_def split: if_splits)

lemma completion_anchor:
  assumes "continuity_ok db" "observe now (Completed (Some sk) a (Some rid) fp n expected) db = Some db1"
  shows "tbl_get (db_anchors db1) rid = Some \<lparr>an_session_key = sk_value sk, an_owning_account_id = a, an_created_at = now\<rparr>"
    and "\<exists>row. get_session (sk_value sk) db1 = Some row \<and> now \<le> sr_last_activity_at row"
proof -
  have rec: "record_completion (sk_value sk) (strength_str (sk_strength sk)) a expected rid fp (int n) now db = Some db1"
    using assms(2) by (simp add: observe_def)
  note eff = record_completion_effect [OF rec]
  show "tbl_get (db_anchors db1) rid = Some \<lparr>an_session_key = sk_value sk, an_owning_account_id = a, an_created_at = now\<rparr>"
    by (simp add: eff(2) tbl_simps)
  show "\<exists>row. get_session (sk_value sk) db1 = Some row \<and> now \<le> sr_last_activity_at row"
    by (simp add: eff(1) completed_row_def)
qed

text \<open>Any event that does not name a response leaves its anchor as it is or removes it.\<close>

lemma anchor_kept_or_gone:
  assumes "continuity_ok db" "\<not> names_response rid ev"
  shows "tbl_get (db_anchors (continuity_step parse t ev db)) rid \<in> {None, tbl_get (db_anchors db) rid}"
proof (cases ev)
  case (EvObserve outcome now)
  show ?thesis
  proof (cases rule: observe_cases [of now outcome db])
    case same
    with EvObserve show ?thesis by auto
  next
    case (completed sk a r fp n expected)
    show ?thesis
    proof (cases "observe now outcome db")
      case (Some db')
      note step = record_completion_effect(2) [OF trans [OF completed(2) [symmetric] Some]]
      show ?thesis using Some EvObserve assms(2) completed(1) step by (auto simp: tbl_simps)
    qed (use EvObserve in auto)
  next
    case (recovered sk a new_id)
    show ?thesis
    proof (cases "observe now outcome db")
      case (Some db')
      note step = record_recovery_effect(2) [OF trans [OF recovered(2) [symmetric] Some]]
      show ?thesis using Some EvObserve assms(2) recovered(1) step by (cases new_id) (auto simp: tbl_simps)
    qed (use EvObserve in auto)
  qed
next
  case (EvPruneSessions cutoff batch)
  with assms(1) prune_sessions_effect(2) [of db _ cutoff batch rid] show ?thesis
    by (cases "tbl_get (db_anchors db) rid") (auto simp: continuity_ok_def opt_filter_def)
next
  case (EvPruneAnchors cutoff batch)
  with assms(1) prune_anchors_effect(2) [of db _ cutoff batch rid] show ?thesis
    by (cases "tbl_get (db_anchors db) rid") (auto simp: continuity_ok_def opt_filter_def)
qed (auto simp: prepare_fields touch_effect mark_required_capability_def delete_account_effect)

lemma run_anchor_kept_or_gone:
  assumes "continuity_ok db" "\<forall>ev \<in> set evs. \<not> names_response rid ev"
  shows "tbl_get (db_anchors (continuity_run parse t evs db)) rid \<in> {None, tbl_get (db_anchors db) rid}"
  using assms
proof (induction evs arbitrary: db)
  case Nil
  then show ?case by (simp add: run_Nil)
next
  case (Cons ev evs)
  from Cons.IH [OF step_ok [OF Cons.prems(1)], of parse t ev] anchor_kept_or_gone [OF Cons.prems(1), of rid ev parse t]
    Cons.prems(2) show ?case by (auto simp: run_Cons)
qed

text \<open>The events that can make a response of time \<open>t0\<close> forgotten: prunes past it and earlier turns.\<close>

fun may_forget :: "i64 \<Rightarrow> continuity_event \<Rightarrow> bool" where
  "may_forget t0 (EvPrepare _ _ now) = (now < t0)"
| "may_forget t0 (EvObserve _ now) = (now < t0)"
| "may_forget t0 (EvPruneSessions cutoff _) = (t0 < cutoff)"
| "may_forget t0 (EvPruneAnchors cutoff _) = (t0 < cutoff)"
| "may_forget t0 _ = False"

lemma run_anchor_remembered:
  assumes "continuity_ok db" "tbl_get (db_anchors db) rid = Some an" "t0 \<le> an_created_at an"
    "get_session (an_session_key an) db = Some row" "t0 \<le> sr_last_activity_at row"
    "\<forall>ev \<in> set evs. \<not> may_forget t0 ev \<and> \<not> names_response rid ev"
  shows "tbl_get (db_anchors (continuity_run parse t evs db)) rid = Some an"
  using assms
proof (induction evs arbitrary: db row)
  case Nil
  then show ?case by (simp add: run_Nil)
next
  case (Cons ev evs)
  let ?db = "continuity_step parse t ev db"
  have "(\<exists>row1. get_session (an_session_key an) ?db = Some row1 \<and> t0 \<le> sr_last_activity_at row1)
      \<and> tbl_get (db_anchors ?db) rid = Some an"
  proof (cases "event_from t0 ev")
    case True
    then show ?thesis
      using row_evolves [of db "an_session_key an" row t0 ev parse t] anchor_kept [of db rid an _ t0 row ev parse t]
        Cons.prems by auto
  next
    case False
    with Cons.prems(6) obtain sk c now where "ev = EvMark sk c now" by (cases ev) auto
    then show ?thesis
      using Cons.prems(2,4,5) by (auto simp: mark_required_capability_def set_capability_row)
  qed
  then show ?case
    using Cons.IH [of ?db] step_ok [OF Cons.prems(1)] Cons.prems(3,6) by (auto simp: run_Cons)
qed

text \<open>
  C8: a response is only ever resumed on the account that produced it. After a turn completed with
  response \<open>rid\<close> on account \<open>a\<close>, take any later events in which no other turn reports the same
  response id: turns of any session, spills, recoveries, capability marks, accounts added or deleted,
  and prunes, at any times. A request that names \<open>rid\<close> is then prepared with \<open>a\<close> as its pin and with
  the watchdog armed, or the anchor has been forgotten, and then no account is taken from it. It
  is forgotten only if a prune reached past the completion or the clock of a turn went back
  behind it; with neither, the pin is there.
\<close>

theorem response_stays_with_its_account:
  assumes "continuity_ok db"
    and "observe now (Completed (Some sk) a (Some rid) fp n expected) db = Some db1"
    and "\<forall>ev \<in> set evs. \<not> names_response rid ev"
    and "rc_client_previous_response_id ctx = Some rid"
    and "db2 = continuity_run parse t evs db1"
  shows "(let d = prep_directive (fst (prepare parse t later req ctx db2))
          in dir_pin_account d = Some a \<and> dir_watchdog d = Armed t)
      \<or> get_anchor_owner rid db2 = None \<and> (\<exists>ev \<in> set evs. may_forget now ev)"
proof -
  have ok: "continuity_ok db1" using observe_ok assms(1,2) by blast
  note c = completion_anchor [OF assms(1,2)]
  let ?an = "\<lparr>an_session_key = sk_value sk, an_owning_account_id = a, an_created_at = now\<rparr>"
  have pinned: "let d = prep_directive (fst (prepare parse t later req ctx db2))
      in dir_pin_account d = Some a \<and> dir_watchdog d = Armed t" if "tbl_get (db_anchors db2) rid = Some ?an"
    using that assms(4) by (simp add: prepare_fields arm_iff anchor_owner_def get_anchor_owner_def resolve_owner_def)
  from c(2) obtain row where "get_session (sk_value sk) db1 = Some row" "now \<le> sr_last_activity_at row" by blast
  then have "tbl_get (db_anchors db2) rid = Some ?an" if "\<forall>ev \<in> set evs. \<not> may_forget now ev"
    using run_anchor_remembered [OF ok c(1), of now row evs parse t] that assms(3,5) by simp
  moreover have "tbl_get (db_anchors db2) rid \<in> {None, Some ?an}"
    using run_anchor_kept_or_gone [OF ok assms(3), of parse t] c(1) assms(5) by simp
  ultimately show ?thesis using pinned by (auto simp: get_anchor_owner_def)
qed

theorem response_stays_with_its_account_witness:
  "\<exists>db1. observe 10 (Completed (Some demo_sk) ''b'' (Some ''r1'') ''fp'' 1 (Some ''a'')) demo_db = Some db1
     \<and> (let d = prep_directive (fst (prepare Map.empty 9 30 demo_req (demo_turn (Some ''r1'') False)
                (continuity_run Map.empty 9 [EvDeleteAccount ''b'', EvPruneSessions 10 2] db1)))
         in dir_pin_account d = Some ''b'' \<and> dir_watchdog d = Armed 9)"
proof -
  obtain db1 where "observe 10 (Completed (Some demo_sk) ''b'' (Some ''r1'') ''fp'' 1 (Some ''a'')) demo_db = Some db1"
    using record_completion_total [of "''b''" demo_db "''s1''" "''soft''" "Some ''a''" "''r1''" "''fp''" 1 10]
    by (auto simp: observe_def demo_defs get_session_def owner_valid_def)
  with response_stays_with_its_account [OF demo_db_ok this, of "[EvDeleteAccount ''b'', EvPruneSessions 10 2]"
      "demo_turn (Some ''r1'') False" _ Map.empty 9 30 demo_req]
  show ?thesis by (auto simp: demo_turn_def)
qed

text \<open>Who may move the ownership of a session, and where to.\<close>

fun may_move_owner :: "string \<Rightarrow> continuity_event \<Rightarrow> account_id option \<Rightarrow> account_id option \<Rightarrow> bool" where
  "may_move_owner k (EvObserve (Completed (Some sk) a (Some _) _ _ expected) _) before now =
     (sk_value sk = k \<and> now = Some a \<and> (expected = None \<or> expected = Some a))"
| "may_move_owner k (EvObserve (Recovered (Some sk) a (Some _)) _) before now = (sk_value sk = k \<and> now = Some a)"
| "may_move_owner k (EvDeleteAccount a) before now = (before = Some a \<and> now = None)"
| "may_move_owner k _ before now = False"

text \<open>
  C9: the owner of a session moves only where it may. One event that leaves the session in place but
  with another owner is a completed turn of that session that was unpinned or pinned to the very
  account that served it, a recovery of that session with a new response id, or the deletion of the
  owner; a turn that spilled onto another account is none of these. The new owner is the account
  named.
\<close>

theorem owner_moves_only_where_it_may:
  assumes "continuity_ok db"
    and "get_session k db = Some row" "get_session k (continuity_step parse t ev db) = Some row'"
    and "sr_owning_account_id row' \<noteq> sr_owning_account_id row"
  shows "may_move_owner k ev (sr_owning_account_id row) (sr_owning_account_id row')"
proof (cases ev)
  case (EvPrepare req ctx now)
  with assms show ?thesis by (auto simp: prepare_fields touch_effect Let_def split: if_splits)
next
  case (EvObserve outcome now)
  show ?thesis
  proof (cases "observe now outcome db")
    case None
    with EvObserve assms show ?thesis by simp
  next
    case (Some db')
    show ?thesis
    proof (cases rule: observe_cases [of now outcome db])
      case same
      with EvObserve assms show ?thesis by simp
    next
      case (completed sk a rid fp n expected)
      note step = record_completion_effect(1) [OF trans [OF completed(2) [symmetric] Some], of k]
      show ?thesis using step Some EvObserve completed(1) assms
        by (auto simp: completed_row_def split: if_splits)
    next
      case (recovered sk a new_id)
      note step = record_recovery_effect(1) [OF trans [OF recovered(2) [symmetric] Some], of k]
      show ?thesis using step Some EvObserve recovered(1) assms
        by (cases new_id) (auto simp: recovered_row_def split: if_splits)
    qed
  qed
next
  case (EvMark sk c now)
  with assms show ?thesis by (auto simp: mark_required_capability_def set_capability_row split: if_splits)
next
  case (EvPruneSessions cutoff batch)
  with assms prune_sessions_effect(1) [of db _ cutoff batch k] show ?thesis
    by (auto simp: continuity_ok_def split: if_splits)
next
  case (EvPruneAnchors cutoff batch)
  with assms prune_anchors_effect(1) [of db _ cutoff batch] show ?thesis
    by (auto simp: continuity_ok_def get_session_def)
next
  case (EvAddAccount a)
  with assms show ?thesis by (auto simp: get_session_def)
next
  case (EvDeleteAccount a)
  with assms show ?thesis by (auto simp: delete_account_effect disown_def split: if_splits)
qed

theorem owner_moves_only_where_it_may_witness:
  "may_move_owner ''s1'' (EvDeleteAccount ''a'') (Some ''a'') None"
  using owner_moves_only_where_it_may [OF demo_db_ok, of "''s1''"
      "(new_session ''soft'' ''anchored'' 5)\<lparr>sr_owning_account_id := Some ''a''\<rparr>" Map.empty 9 "EvDeleteAccount ''a''"
      "new_session ''soft'' ''anchored'' 5"]
  by (simp add: demo_db_def get_session_def delete_account_def new_session_def)

text \<open>
  a spill steals nothing. A turn without an anchor is pinned to its session's owner \<open>p\<close>; if it is
  served by another account \<open>a\<close> and completes under that pin, the next turn without an anchor is
  pinned to \<open>p\<close> again, while a turn that resumes from the new response is pinned to \<open>a\<close>, which holds
  it. If that resumed turn completes on \<open>a\<close>, the stale affinity is corrected: the next turn without
  an anchor is pinned to \<open>a\<close>.
\<close>

lemma spill_steals_nothing:
  assumes "rc_session_key fresh = Some sk" "rc_client_previous_response_id fresh = None"
    and "rc_session_key resumed = Some sk" "rc_client_previous_response_id resumed = Some rid"
    and "prepare parse t now req fresh db = (prepared1, db1)"
    and "dir_pin_account (prep_directive prepared1) = Some p" "a \<noteq> p"
    and "observe now (Completed (Some sk) a (Some rid) fp n (dir_pin_account (prep_directive prepared1))) db1 = Some db2"
    and "prepare parse t now' req resumed db2 = (prepared2, db3)"
    and "observe now' (Completed (Some sk) a (Some rid') fp' n' (dir_pin_account (prep_directive prepared2))) db3 = Some db4"
  shows "dir_pin_account (prep_directive (fst (prepare parse t now' req fresh db2))) = Some p
    \<and> dir_pin_account (prep_directive prepared2) = Some a
    \<and> dir_pin_account (prep_directive (fst (prepare parse t now'' req fresh db4))) = Some a"
proof -
  have p1: "prepared1 = fst (prepare parse t now req fresh db)" "db1 = touch_session fresh now db"
    using prepare_fields(7) [of parse t now req fresh db] assms(5) by simp_all
  have p2: "prepared2 = fst (prepare parse t now' req resumed db2)"
    using assms(9) by simp
  obtain row where row: "get_session (sk_value sk) db = Some row" "sr_owning_account_id row = Some p"
    using assms(1,2,6) by (auto simp: p1(1) prepare_fields anchor_owner_def resolve_owner_def session_row_of_def split: option.splits)
  have "get_session (sk_value sk) db1 = Some row"
    using assms(1,2) row(1) by (simp add: p1(2) touch_effect(1))
  moreover have "record_completion (sk_value sk) (strength_str (sk_strength sk)) a (Some p) rid fp (int n) now db1 = Some db2"
    using assms(6,8) by (simp add: observe_def)
  note eff2 = record_completion_effect [OF this]
  ultimately have s2: "get_session (sk_value sk) db2 = Some (completed_row a (Some p) rid fp (int n) now row)"
    by (simp add: eff2(1))
  then have keep: "dir_pin_account (prep_directive (fst (prepare parse t now' req fresh db2))) = Some p"
    using assms(1,2,7) row(2)
    by (simp add: prepare_fields anchor_owner_def resolve_owner_def session_row_of_def completed_row_def)
  have pin2: "dir_pin_account (prep_directive prepared2) = Some a"
    using assms(4) by (simp add: p2 prepare_fields anchor_owner_def get_anchor_owner_def eff2(2) tbl_simps resolve_owner_def)
  then have "record_completion (sk_value sk) (strength_str (sk_strength sk)) a (Some a) rid' fp' (int n') now' db3 = Some db4"
    using assms(10) by (simp add: observe_def)
  note eff4 = record_completion_effect [OF this]
  have "dir_pin_account (prep_directive (fst (prepare parse t now'' req fresh db4))) = Some a"
    using assms(1,2)
    by (simp add: prepare_fields anchor_owner_def resolve_owner_def session_row_of_def eff4(1) completed_row_def)
  with keep pin2 show ?thesis by blast
qed

lemma spill_steals_nothing_example:
  "\<exists>db2 prepared2 db3 db4. observe 10 (Completed (Some demo_sk) ''b'' (Some ''r1'') ''fp'' 1 (Some ''a''))
        (snd (prepare Map.empty 9 10 demo_req (demo_turn None False) demo_db)) = Some db2
    \<and> prepare Map.empty 9 20 demo_req (demo_turn (Some ''r1'') False) db2 = (prepared2, db3)
    \<and> observe 20 (Completed (Some demo_sk) ''b'' (Some ''r2'') ''fp'' 2 (dir_pin_account (prep_directive prepared2))) db3 = Some db4
    \<and> dir_pin_account (prep_directive (fst (prepare Map.empty 9 20 demo_req (demo_turn None False) db2))) = Some ''a''
    \<and> dir_pin_account (prep_directive (fst (prepare Map.empty 9 30 demo_req (demo_turn None False) db4))) = Some ''b''"
proof -
  define db1 where "db1 = snd (prepare Map.empty 9 10 demo_req (demo_turn None False) demo_db)"
  define pr1 where "pr1 = fst (prepare Map.empty 9 10 demo_req (demo_turn None False) demo_db)"
  have pin1: "dir_pin_account (prep_directive pr1) = Some ''a''"
    by (simp add: pr1_def prepare_fields anchor_owner_def resolve_owner_def session_row_of_def demo_defs get_session_def)
  have ok1: "continuity_ok db1" "db_accounts db1 = [''a'', ''b'']"
    using step_ok [OF demo_db_ok, of Map.empty 9 "EvPrepare demo_req (demo_turn None False) 10"]
    by (simp_all add: db1_def prepare_fields touch_effect demo_db_def)
  obtain db2 where o2: "observe 10 (Completed (Some demo_sk) ''b'' (Some ''r1'') ''fp'' 1 (Some ''a'')) db1 = Some db2"
    using record_completion_total [of "''b''" db1 "''s1''" "''soft''" "Some ''a''" "''r1''" "''fp''" 1 10] ok1
    by (auto simp: observe_def demo_sk_def continuity_ok_def)
  obtain prepared2 db3 where p2: "prepare Map.empty 9 20 demo_req (demo_turn (Some ''r1'') False) db2 = (prepared2, db3)"
    by fastforce
  have ok3: "continuity_ok db3" "db_accounts db3 = [''a'', ''b'']"
    using step_ok [OF observe_ok [OF ok1(1) o2], of Map.empty 9 "EvPrepare demo_req (demo_turn (Some ''r1'') False) 20"]
      p2 prepare_fields(7) [of Map.empty 9 20 demo_req "demo_turn (Some ''r1'') False" db2]
      record_completion_effect(3) [of "''s1''" "''soft''" "''b''" "Some ''a''" "''r1''" "''fp''" 1 10 db1 db2] o2 ok1(2)
    by (simp_all add: touch_effect observe_def demo_sk_def)
  obtain db4 where o4: "observe 20 (Completed (Some demo_sk) ''b'' (Some ''r2'') ''fp'' 2 (dir_pin_account (prep_directive prepared2))) db3 = Some db4"
    using record_completion_total [of "''b''" db3 "''s1''" "''soft''" "dir_pin_account (prep_directive prepared2)" "''r2''" "''fp''" 2 20] ok3
    by (auto simp: observe_def demo_sk_def continuity_ok_def)
  have p1: "prepare Map.empty 9 10 demo_req (demo_turn None False) demo_db = (pr1, db1)"
    by (simp add: pr1_def db1_def)
  from spill_steals_nothing [OF _ _ _ _ p1 pin1 _ o2 [folded pin1] p2 o4, where now'' = 30]
  have "dir_pin_account (prep_directive (fst (prepare Map.empty 9 20 demo_req (demo_turn None False) db2))) = Some ''a''
    \<and> dir_pin_account (prep_directive (fst (prepare Map.empty 9 30 demo_req (demo_turn None False) db4))) = Some ''b''"
    by (simp add: demo_turn_def)
  with o2 p2 o4 show ?thesis unfolding db1_def by blast
qed

text \<open>
  a capability requirement sticks. Once a session is marked, every later turn of it is prepared
  with the requirement for an account authorized for security work, whatever happens in between
  (other marks included), as long as no prune reaches the session's last activity; and a mark adds
  its tag and nothing else.
\<close>

lemma capability_sticks:
  assumes "continuity_ok db" "get_session (sk_value sk) db = Some row"
    and "\<forall>ev \<in> set evs. event_from (sr_last_activity_at row) ev"
    and "rc_session_key ctx = Some sk'" "sk_value sk' = sk_value sk"
  shows "dir_require_security (prep_directive (fst (prepare parse t now' req ctx
           (continuity_run parse t evs (mark_required_capability now sk security_work db)))))
    \<and> (\<forall>row'. get_session (sk_value sk) (mark_required_capability now sk security_work db) = Some row' \<longrightarrow>
         (\<forall>c. c \<noteq> [] \<longrightarrow> has_capability row' c = (c = security_work \<or> has_capability row c)))"
proof -
  let ?db = "mark_required_capability now sk security_work db"
  have nc: "CHR '','' \<notin> set security_work" by (simp add: security_work_def)
  have ok: "continuity_ok ?db" using step_ok [OF assms(1), of parse t "EvMark sk security_work now"] by simp
  obtain row1 where row1: "get_session (sk_value sk) ?db = Some row1" "sr_last_activity_at row1 = sr_last_activity_at row"
      "\<forall>c. c \<noteq> [] \<longrightarrow> has_capability row1 c = (c = security_work \<or> has_capability row c)"
    using assms(2) capability_added [OF nc, where row = row and now = now]
    by (simp add: mark_required_capability_def set_capability_row)
  have ne: "security_work \<noteq> []" by (simp add: security_work_def)
  obtain row2 where "get_session (sk_value sk) (continuity_run parse t evs ?db) = Some row2" "has_capability row2 security_work"
    using run_row [OF ok row1(1), of "sr_last_activity_at row" evs parse t] assms(3) row1(2,3) ne by auto
  then show ?thesis using assms(4,5) row1 by (simp add: prepare_fields session_row_of_def)
qed

lemma capability_sticks_example:
  "dir_require_security (prep_directive (fst (prepare Map.empty 9 40 demo_req (demo_turn None False)
     (continuity_run Map.empty 9 [EvMark demo_sk ''other'' 7, EvPrepare demo_req (demo_turn (Some ''r0'') True) 8]
       (mark_required_capability 6 demo_sk security_work demo_db)))))"
  using capability_sticks [OF demo_db_ok, of demo_sk _ "[EvMark demo_sk ''other'' 7, EvPrepare demo_req (demo_turn (Some ''r0'') True) 8]"
      "demo_turn None False" demo_sk Map.empty 9 40 demo_req 6]
  by (simp add: demo_defs get_session_def new_session_def)

text \<open>
  C10: the tables stay consistent over any run (no duplicate key, no anchor without its session, no
  session owned by a deleted account), and in a consistent database the completion of a turn on an
  existing account is never rejected by the store.
\<close>

theorem tables_stay_consistent:
  assumes "continuity_ok db"
  shows "continuity_ok (continuity_run parse t evs db)
    \<and> (a \<in> set (db_accounts (continuity_run parse t evs db)) \<longrightarrow>
        observe now (Completed sk a rid fp n expected) (continuity_run parse t evs db) \<noteq> None)"
proof (intro conjI impI)
  show ok: "continuity_ok (continuity_run parse t evs db)" using assms by (rule run_ok)
  assume "a \<in> set (db_accounts (continuity_run parse t evs db))"
  with record_completion_total [of a "continuity_run parse t evs db"] continuity_okD(4) [OF ok]
  show "observe now (Completed sk a rid fp n expected) (continuity_run parse t evs db) \<noteq> None"
    by (auto simp: observe_def split: option.splits)
qed

theorem tables_stay_consistent_witness:
  "observe 9 (Completed (Some demo_sk) ''b'' (Some ''r9'') ''fp'' 1 (Some ''a''))
     (continuity_run Map.empty 9 [EvDeleteAccount ''a'', EvPruneSessions 100 1] demo_db) \<noteq> None"
proof -
  have "db_accounts (continuity_run Map.empty 9 [EvDeleteAccount ''a'', EvPruneSessions 100 1] demo_db) = [''b'']"
    using prune_sessions_effect(3) [of "delete_account ''a'' demo_db"]
      continuity_okD(1,2) [OF step_ok [OF demo_db_ok, of Map.empty 9 "EvDeleteAccount ''a''"]]
    by (simp add: run_Cons run_Nil delete_account_effect) (simp add: demo_db_def)
  then show ?thesis
    using tables_stay_consistent [OF demo_db_ok, of Map.empty 9 "[EvDeleteAccount ''a'', EvPruneSessions 100 1]" "''b''"
        9 "Some demo_sk" "Some ''r9''" "''fp''" 1 "Some ''a''"] by simp
qed

text \<open>
  the batched prune is exact for every batch size: it returns, deletes exactly the sessions idle
  since before the cutoff together with their anchors, and reports their number; with a batch size
  that is not positive it does nothing.
\<close>

lemma prune_is_exact:
  assumes "continuity_ok db"
  shows "let (removed, db') = prune_sessions_older_than cutoff batch 0 db; old = (\<lambda>k. idle cutoff (get_session k db)) in
    (if 0 < batch
     then removed = card {k. old k} \<and> (\<forall>k. get_session k db' = (if old k then None else get_session k db))
        \<and> (\<forall>rid. tbl_get (db_anchors db') rid = opt_filter (\<lambda>an. \<not> old (an_session_key an)) (tbl_get (db_anchors db) rid))
     else removed = 0 \<and> db' = db)"
proof (cases "0 < batch")
  case False
  then show ?thesis by (simp add: Let_def prune_sessions_older_than.simps [of cutoff batch])
next
  case True
  note ok = continuity_okD(1,2) [OF assms]
  have "{k. idle cutoff (get_session k db)} = set (old_sessions cutoff db)"
    using in_old_sessions [OF ok(1), of _ cutoff] by (auto simp: idle_def)
  then have card: "card {k. idle cutoff (get_session k db)} = length (old_sessions cutoff db)"
    using distinct_old_sessions [OF ok(1), of cutoff] by (simp add: distinct_card)
  have run: "prune_sessions_older_than cutoff batch 0 db =
      (length (old_sessions cutoff db), delete_sessions (set (old_sessions cutoff db)) db)"
    using session_prune.loop_exact [OF ok(1) True, of cutoff 0] by simp
  show ?thesis
    using True card prune_sessions_effect(1,2) [OF ok refl, where cutoff = cutoff and batch = batch]
    by (simp add: run Let_def)
qed

lemma prune_is_exact_example:
  "fst (prune_sessions_older_than 100 1 0 demo_db) = 1 \<and> get_session ''s1'' (snd (prune_sessions_older_than 100 1 0 demo_db)) = None"
proof -
  have "{k. idle 100 (get_session k demo_db)} = {''s1''}"
    by (auto simp: idle_def demo_db_def get_session_def new_session_def)
  then show ?thesis
    using prune_is_exact [OF demo_db_ok, of 100 1] by (auto simp: Let_def split: prod.splits)
qed

text \<open>
  the directive of a turn. The request itself goes out as it came. The watchdog is armed, with the
  configured timeout, exactly for turns that name a response; an armed turn that carries its full
  history is recovered by resending it (something to send whenever the original had it, same model
  and headers), any other armed turn by telling the client, and an unarmed turn not at all. Where the
  bytes parse, the resent body is the original one without \<open>previous_response_id\<close>; where they do
  not, the original bytes go out again.
\<close>

lemma directive_of_a_turn:
  "let p = fst (prepare parse t now req ctx db); d = prep_directive p; anchored = (rc_client_previous_response_id ctx \<noteq> None);
       base = (case pr_raw_body req of Some raw \<Rightarrow> parse raw | None \<Rightarrow> pr_body req) in
   prep_req p = req
   \<and> dir_watchdog d = (if anchored then Armed t else Disarmed)
   \<and> (dir_recovery d = NoRecovery \<longleftrightarrow> \<not> anchored)
   \<and> (dir_recovery d = SignalClient \<longleftrightarrow> anchored \<and> \<not> rc_is_full_resend ctx)
   \<and> (anchored \<and> rc_is_full_resend ctx \<longrightarrow>
       (\<exists>r. dir_recovery d = ResendFull r \<and> (sendable req \<longrightarrow> sendable r)
          \<and> pr_model r = pr_model req \<and> pr_forward_headers r = pr_forward_headers req
          \<and> (case base of
               Some v \<Rightarrow> pr_raw_body r = None \<and> (\<exists>v'. pr_body r = Some v' \<and> (json_ok v \<longrightarrow> json_ok v')
                  \<and> (\<forall>k. jget k v' = (if k = ''previous_response_id'' then None else jget k v)))
             | None \<Rightarrow> pr_raw_body r = pr_raw_body req \<and> pr_body r = None)))"
proof -
  have resend: "let r = anchorless_request parse req in
      (case (case pr_raw_body req of Some raw \<Rightarrow> parse raw | None \<Rightarrow> pr_body req) of
               Some v \<Rightarrow> pr_raw_body r = None \<and> (\<exists>v'. pr_body r = Some v' \<and> (json_ok v \<longrightarrow> json_ok v')
                  \<and> (\<forall>k. jget k v' = (if k = ''previous_response_id'' then None else jget k v)))
             | None \<Rightarrow> pr_raw_body r = pr_raw_body req \<and> pr_body r = None)"
    by (auto simp: anchorless_request_def Let_def jget_jremove json_ok_jremove split: option.splits)
  show ?thesis
    using resend anchorless_request_fields [where parse = parse and req = req]
    by (simp add: Let_def prepare_fields arm_and_recovery_def)
qed

lemma directive_of_a_turn_example:
  "\<exists>r. dir_recovery (prep_directive (fst (prepare Map.empty 9 10 demo_req (demo_turn (Some ''r0'') True) demo_db))) = ResendFull r
     \<and> sendable r \<and> (\<exists>v. pr_body r = Some v \<and> jget ''previous_response_id'' v = None \<and> jget ''input'' v = Some (JArr []))"
proof -
  have "rc_client_previous_response_id (demo_turn (Some ''r0'') True) \<noteq> None" "rc_is_full_resend (demo_turn (Some ''r0'') True)"
    "sendable demo_req" "pr_raw_body demo_req = None"
    "pr_body demo_req = Some (JObj [(''input'', JArr []), (''previous_response_id'', JStr ''r0'')])"
    by (simp_all add: demo_turn_def demo_req_def sendable_def)
  then show ?thesis
    using directive_of_a_turn [of Map.empty 9 10 demo_req "demo_turn (Some ''r0'') True" demo_db]
    by (fastforce simp: Let_def)
qed

section \<open>Routing a prepared turn\<close>

text \<open>For any selector that keeps the contract: a pinned turn goes to its owner or recovers.\<close>

context account_selector
begin

lemma ownership_pinned:
  assumes "dir_pin_account d = Some owner"
  shows "apply_ownership pick d cs ctx =
    (if \<exists>s \<in> set cs. snap_id s = owner \<and> servable ctx s then Route owner else Recover)"
proof (cases "pick (filter (\<lambda>s. snap_id s = owner) cs) ctx")
  case None
  then have "\<not> (\<exists>s \<in> set cs. snap_id s = owner \<and> servable ctx s)"
    using pick_complete [OF None] by auto
  with None assms show ?thesis by (simp add: apply_ownership_def)
next
  case (Some i)
  then show ?thesis using pick_filtered [OF Some] assms by (auto simp: apply_ownership_def)
qed

lemma ownership_unpinned:
  assumes "dir_pin_account d = None"
  shows "apply_ownership pick d cs ctx = NoEligibleAccount \<longleftrightarrow> (\<forall>s \<in> set cs. \<not> servable ctx s)"
    and "apply_ownership pick d cs ctx \<noteq> Recover"
    and "apply_ownership pick d cs ctx = Route i \<Longrightarrow> \<exists>s \<in> set cs. snap_id s = i \<and> servable ctx s"
proof -
  show "apply_ownership pick d cs ctx = NoEligibleAccount \<longleftrightarrow> (\<forall>s \<in> set cs. \<not> servable ctx s)"
    using assms pick_iff [of cs ctx] by (cases "pick cs ctx") (auto simp: apply_ownership_def)
  show "apply_ownership pick d cs ctx \<noteq> Recover"
    using assms by (simp add: apply_ownership_def split: option.splits)
  show "\<exists>s \<in> set cs. snap_id s = i \<and> servable ctx s" if "apply_ownership pick d cs ctx = Route i"
    using that assms pick_servable by (simp add: apply_ownership_def split: option.splits)
qed

end

text \<open>
  C11: the ownership pre-filter, under every strategy. A pinned turn is routed to its owner when the
  owner is among the candidates, authorized and eligible, and is recovered otherwise: no other account
  can receive it, and it never fails hard. An unpinned turn is never recovered, reaches only an
  authorized and eligible candidate, and finds none only when there is none.
\<close>

theorem pinned_turn_reaches_owner_or_recovers:
  assumes "draw_ok e"
  shows "let decision = apply_ownership (strategy_pick e strategy) d cs ctx in
    (case dir_pin_account d of
      Some owner \<Rightarrow> decision = (if \<exists>s \<in> set cs. snap_id s = owner \<and> servable ctx s then Route owner else Recover)
    | None \<Rightarrow> decision \<noteq> Recover \<and> (decision = NoEligibleAccount \<longleftrightarrow> (\<forall>s \<in> set cs. \<not> servable ctx s))
        \<and> (\<forall>i. decision = Route i \<longrightarrow> (\<exists>s \<in> set cs. snap_id s = i \<and> servable ctx s)))"
  using account_selector.ownership_pinned [OF strategy_selector [OF assms]]
    account_selector.ownership_unpinned [OF strategy_selector [OF assms]]
  by (simp add: Let_def split: option.splits)

theorem pinned_turn_reaches_owner_or_recovers_witness:
  "apply_ownership (strategy_pick last_draw_env CapacityWeighted)
     (prep_directive (fst (prepare Map.empty 9 10 demo_req (demo_turn (Some ''r0'') False) demo_db)))
     [new_snapshot ''b'', (new_snapshot ''a'')\<lparr>snap_status := ''paused''\<rparr>] default_ctx = Recover"
proof -
  have "dir_pin_account (prep_directive (fst (prepare Map.empty 9 10 demo_req (demo_turn (Some ''r0'') False) demo_db))) = Some ''a''"
    by (simp add: prepare_fields anchor_owner_def get_anchor_owner_def resolve_owner_def demo_defs)
  moreover have "\<not> servable default_ctx ((new_snapshot ''a'')\<lparr>snap_status := ''paused''\<rparr>)"
    by (simp add: servable_def eligibility_def new_snapshot_def)
  ultimately show ?thesis
    using pinned_turn_reaches_owner_or_recovers [OF last_draw_ok, where strategy = CapacityWeighted
        and d = "prep_directive (fst (prepare Map.empty 9 10 demo_req (demo_turn (Some ''r0'') False) demo_db))"
        and cs = "[new_snapshot ''b'', (new_snapshot ''a'')\<lparr>snap_status := ''paused''\<rparr>]" and ctx = default_ctx]
    by (auto simp: Let_def new_snapshot_def)
qed

end
