(* ===== verification/Credentials_Props.thy ===== *)
theory Credentials_Props
  imports Credentials
begin

text \<open>
  Properties of the credential component: no refresh token is exchanged twice, whatever the order in
  which the refreshing operations run; what a replica does; the single flight of concurrent refreshes;
  and the coherence of the token cache under interleaved reads and writes.
\<close>

section \<open>Exchanged tokens\<close>

text \<open>A reply that replaces the refresh token uses up the one presented.\<close>

definition rotates :: "string \<Rightarrow> token_reply \<Rightarrow> string \<Rightarrow> bool" where
  "rotates presented reply issued \<longleftrightarrow>
     (\<exists>r. reply = TokenReply r \<and> tr_refresh r = Some issued \<and> issued \<noteq> presented)"

definition spent :: "(string \<times> token_reply) list \<Rightarrow> string set" where
  "spent calls = {t. \<exists>reply issued. (t, reply) \<in> set calls \<and> rotates t reply issued}"

definition reuse_free :: "(string \<times> token_reply) list \<Rightarrow> bool" where
  "reuse_free calls \<longleftrightarrow> (\<forall>i < length calls. fst (calls ! i) \<notin> spent (take i calls))"

lemma spent_snoc: "spent (calls @ [(t, reply)]) = spent calls \<union> {t'. t' = t \<and> (\<exists>issued. rotates t reply issued)}"
  by (auto simp: spent_def)

lemma spent_Nil [simp]: "spent [] = {}"
  by (simp add: spent_def)

lemma reuse_free_Nil [simp]: "reuse_free []"
  by (simp add: reuse_free_def)

lemma reuse_free_snoc: "reuse_free (calls @ [c]) \<longleftrightarrow> reuse_free calls \<and> fst c \<notin> spent calls"
  by (auto simp: reuse_free_def nth_append less_Suc_eq)

text \<open>What the endpoints may issue at a call, and the documented rotation: always a new token.\<close>

definition mints :: "auth_env \<Rightarrow> nat \<Rightarrow> string \<Rightarrow> string \<Rightarrow> bool" where
  "mints env n presented issued \<longleftrightarrow> rotates presented (ae_codex env n presented) issued \<or>
     (\<exists>endpoint scope. ae_anthropic env = Some endpoint \<and> rotates presented (endpoint n presented scope) issued)"

definition rotation_ok :: "auth_env \<Rightarrow> string set \<Rightarrow> bool" where
  "rotation_ok env K \<longleftrightarrow> (\<forall>n t r. mints env n t r \<longrightarrow> r \<notin> K) \<and>
     (\<forall>n m t t' r. mints env n t r \<and> mints env m t' r \<longrightarrow> n = m)"

definition store_recovers :: "auth_env \<Rightarrow> bool" where
  "store_recovers env \<longleftrightarrow>
     (\<forall>n. ae_write env n \<or> ae_write env (n + 1) \<or> ae_write env (n + 2) \<or> ae_write env (n + 3))"

section \<open>The invariant\<close>

definition seen :: "auth_env \<Rightarrow> string set \<Rightarrow> nat \<Rightarrow> string \<Rightarrow> bool" where
  "seen env K n t \<longleftrightarrow> t \<in> K \<or> (\<exists>m < n. \<exists>p. mints env m p t)"

lemma seen_mono: "seen env K n t \<Longrightarrow> n \<le> m \<Longrightarrow> seen env K m t"
  unfolding seen_def by (meson less_le_trans)

lemma minted_unseen: "rotation_ok env K \<Longrightarrow> mints env n p t \<Longrightarrow> \<not> seen env K n t"
  unfolding seen_def rotation_ok_def by (metis less_irrefl)

lemma minted_seen: "mints env n p t \<Longrightarrow> seen env K (Suc n) t"
  unfolding seen_def by blast

definition cred :: "auth_state \<Rightarrow> account_id \<Rightarrow> (string \<times> bool) option" where
  "cred st k = map_option (\<lambda>row. (pt_refresh (ar_tokens row), ar_status row \<in> set usage_controlled)) (tbl_get (as_rows st) k)"

text \<open>No account that may be refreshed holds a used-up token, but for the accounts in \<open>X\<close>.\<close>

definition inv_except :: "account_id set \<Rightarrow> auth_env \<Rightarrow> string set \<Rightarrow> auth_state \<Rightarrow> bool" where
  "inv_except X env K st \<longleftrightarrow>
     (\<forall>k t u. cred st k = Some (t, u) \<longrightarrow> seen env K (as_tick st) t) \<and>
     (\<forall>c \<in> set (as_calls st). seen env K (as_tick st) (fst c)) \<and>
     (\<forall>k t. k \<notin> X \<longrightarrow> cred st k = Some (t, True) \<longrightarrow> t \<notin> spent (as_calls st)) \<and>
     (\<forall>k k' t u u'. cred st k = Some (t, u) \<longrightarrow> cred st k' = Some (t, u') \<longrightarrow> k = k') \<and>
     reuse_free (as_calls st)"

abbreviation cred_inv :: "auth_env \<Rightarrow> string set \<Rightarrow> auth_state \<Rightarrow> bool" where
  "cred_inv \<equiv> inv_except {}"

lemma inv_tick: "inv_except X env K st \<Longrightarrow> inv_except X env K (st\<lparr>as_tick := as_tick st + n\<rparr>)"
  unfolding inv_except_def cred_def using seen_mono by fastforce

lemma inv_cong:
  "as_rows st' = as_rows st \<Longrightarrow> as_calls st' = as_calls st \<Longrightarrow> as_tick st' = as_tick st \<Longrightarrow>
   inv_except X env K st' = inv_except X env K st"
  unfolding inv_except_def cred_def by simp

lemma inv_note_status [simp]: "inv_except X env K (note_status k status st) = inv_except X env K st"
  by (rule inv_cong) (simp_all add: note_status_def)

lemma inv_cache [simp]: "inv_except X env K (st\<lparr>as_cache := c\<rparr>) = inv_except X env K st"
  by (rule inv_cong) simp_all

lemma inv_generation [simp]:
  "inv_except X env K (st\<lparr>as_generation := g\<rparr>) = inv_except X env K st"
  "inv_except X env K (st\<lparr>as_token_generation := g\<rparr>) = inv_except X env K st"
  by (rule inv_cong, simp_all)+

lemma cred_update_row:
  "cred (update_row f k st) x = (if x = k
     then map_option (\<lambda>row. (pt_refresh (ar_tokens (f row)), ar_status (f row) \<in> set usage_controlled)) (tbl_get (as_rows st) k)
     else cred st x)"
  by (simp add: cred_def update_row_def tbl_simps split: option.split)

lemma update_row_fields [simp]:
  "as_tick (update_row f k st) = as_tick st" "as_calls (update_row f k st) = as_calls st"
  by (simp_all add: update_row_def split: option.split)

text \<open>Marking an account unusable removes its exemption.\<close>

lemma inv_mark:
  assumes "inv_except X env K st" "status \<notin> set usage_controlled"
  shows "inv_except (X - {k}) env K (update_row (\<lambda>row. row\<lparr>ar_status := status\<rparr>) k st)"
proof -
  have c: "cred (update_row (\<lambda>row. row\<lparr>ar_status := status\<rparr>) k st) x =
      (if x = k then map_option (\<lambda>(t, u). (t, False)) (cred st k) else cred st x)" for x
    using assms(2) by (simp add: cred_update_row) (simp add: cred_def option.map_comp comp_def)
  show ?thesis
    using assms(1) unfolding inv_except_def c update_row_fields by (auto split: if_splits)
qed

lemma inv_update_status:
  assumes "inv_except X env K st" "status \<notin> set usage_controlled"
  shows "inv_except X env K (update_status env k status st)"
    and "ae_write env (as_tick st) \<Longrightarrow> inv_except (X - {k}) env K (update_status env k status st)"
proof -
  have "inv_except (X - {k}) env K (update_status env k status st)" if "ae_write env (as_tick st)"
    using inv_mark [OF inv_tick [OF assms(1), of 1] assms(2), of k] that by (simp add: update_status_def Let_def)
  moreover have "inv_except (X - {k}) env K st' \<Longrightarrow> inv_except X env K st'" for st'
    unfolding inv_except_def by blast
  ultimately show "inv_except X env K (update_status env k status st)"
    and "ae_write env (as_tick st) \<Longrightarrow> inv_except (X - {k}) env K (update_status env k status st)"
    using inv_tick [OF assms(1), of 1] by (cases "ae_write env (as_tick st)", simp_all add: update_status_def)
qed

text \<open>Calling an endpoint with the account's stored token.\<close>

lemma inv_exchange:
  assumes "cred_inv env K st" "cred st k = Some (t, True)"
    and st1_def: "st1 = st\<lparr>as_tick := as_tick st + 1, as_calls := as_calls st @ [(t, reply)]\<rparr>"
  shows "inv_except {k} env K st1" and "\<nexists>issued. rotates t reply issued \<Longrightarrow> cred_inv env K st1"
proof -
  have c: "cred st1 = cred st" by (simp add: fun_eq_iff cred_def st1_def)
  have t: "seen env K (as_tick st) t" "t \<notin> spent (as_calls st)"
    using assms(1,2) unfolding inv_except_def by blast+
  have sp: "spent (as_calls st1) = spent (as_calls st) \<union> {t'. t' = t \<and> (\<exists>issued. rotates t reply issued)}"
    by (simp add: st1_def spent_snoc)
  have parts: "\<forall>x t u. cred st1 x = Some (t, u) \<longrightarrow> seen env K (as_tick st1) t"
    "\<forall>c \<in> set (as_calls st1). seen env K (as_tick st1) (fst c)"
    "\<forall>k k' t u u'. cred st1 k = Some (t, u) \<longrightarrow> cred st1 k' = Some (t, u') \<longrightarrow> k = k'"
    "reuse_free (as_calls st1)"
    using assms(1) t seen_mono [of env K "as_tick st" _ "as_tick st1"] unfolding inv_except_def c
    by (auto simp: st1_def reuse_free_snoc)
  have others: "\<forall>x t'. x \<noteq> k \<longrightarrow> cred st1 x = Some (t', True) \<longrightarrow> t' \<notin> spent (as_calls st1)"
    using assms(1,2) unfolding inv_except_def c sp by blast
  then show "inv_except {k} env K st1" using parts unfolding inv_except_def by blast
  assume "\<nexists>issued. rotates t reply issued"
  then have "\<forall>x t'. cred st1 x = Some (t', True) \<longrightarrow> t' \<notin> spent (as_calls st1)"
    using assms(1) unfolding inv_except_def c sp by blast
  then show "cred_inv env K st1" using parts unfolding inv_except_def by blast
qed

text \<open>Storing what the endpoint issued.\<close>

lemma inv_store:
  assumes "inv_except {k} env K st" "seen env K (as_tick st) t'"
    and "\<forall>row. ar_status (f row) = ar_status row \<and> pt_refresh (ar_tokens (f row)) = t'"
    and "t' \<notin> spent (as_calls st)" "\<forall>x u. cred st x = Some (t', u) \<longrightarrow> x = k"
  shows "cred_inv env K (update_row f k st)"
proof -
  have c: "cred (update_row f k st) x = (if x = k then map_option (\<lambda>(t, u). (t', u)) (cred st k) else cred st x)" for x
    using assms(3) by (simp add: cred_update_row) (simp add: cred_def option.map_comp comp_def)
  show ?thesis
    using assms(1,2,4,5) unfolding inv_except_def c update_row_fields
    by (auto split: if_splits)
qed

section \<open>The bounded retries\<close>

lemma persist_cases:
  "persist (token_write env f k) n st =
     (if \<exists>i < n. ae_write env (as_tick st + i)
      then token_write env f k (st\<lparr>as_tick := as_tick st + (LEAST i. ae_write env (as_tick st + i))\<rparr>)
      else (False, st\<lparr>as_tick := as_tick st + n\<rparr>))"
proof (induction n arbitrary: st)
  case 0
  then show ?case by simp
next
  case (Suc n)
  show ?case
  proof (cases "ae_write env (as_tick st)")
    case True
    then have "(LEAST i. ae_write env (as_tick st + i)) = 0" by (simp add: Least_eq_0)
    moreover have "\<exists>i < Suc n. ae_write env (as_tick st + i)" using True by (intro exI [of _ 0]) simp
    ultimately show ?thesis using True by (simp add: token_write_def Let_def)
  next
    case False
    let ?st = "st\<lparr>as_tick := as_tick st + 1\<rparr>"
    have w: "token_write env f k st = (False, ?st)" using False by (simp add: token_write_def)
    have ex: "(\<exists>i < Suc n. ae_write env (as_tick st + i)) \<longleftrightarrow> (\<exists>i < n. ae_write env (as_tick ?st + i))"
      using False by (auto simp: less_Suc_eq_0_disj)
    have "(LEAST i. ae_write env (as_tick st + i)) = Suc (LEAST i. ae_write env (as_tick ?st + i))"
      if "\<exists>i < n. ae_write env (as_tick ?st + i)"
    proof -
      from that obtain i where "ae_write env (as_tick st + Suc i)" by auto
      then show ?thesis using False Least_Suc [of "\<lambda>i. ae_write env (as_tick st + i)" "Suc i"] by simp
    qed
    with ex show ?thesis by (auto simp: w Suc.IH)
  qed
qed

text \<open>An exchange that is then stored, or that ends with the account marked.\<close>

lemma inv_settle:
  assumes inv: "cred_inv env K st" and ok: "rotation_ok env K" "store_recovers env"
    and k: "cred st k = Some (t, True)"
    and f: "\<forall>row. ar_status (f row) = ar_status row \<and> pt_refresh (ar_tokens (f row)) = unwrap_or (tr_refresh r) t"
    and mint: "\<forall>issued. rotates t (TokenReply r) issued \<longrightarrow> mints env (as_tick st) t issued"
    and st1: "st1 = st\<lparr>as_tick := as_tick st + 1, as_calls := as_calls st @ [(t, TokenReply r)]\<rparr>"
    and p: "persist (token_write env f k) persist_max_attempts st1 = (done, st2)"
  shows "if done then cred_inv env K st2 else cred_inv env K (update_status env k ''reauth_required'' st2)"
proof -
  note ex = inv_exchange [OF inv k st1]
  define i where "i = (LEAST i. ae_write env (as_tick st1 + i))"
  have c: "cred (st1\<lparr>as_tick := n\<rparr>) = cred st" for n by (simp add: fun_eq_iff cred_def st1)
  show ?thesis
  proof (cases "\<exists>i < persist_max_attempts. ae_write env (as_tick st1 + i)")
    case True
    let ?s = "st1\<lparr>as_tick := as_tick st1 + i + 1\<rparr>"
    have "ae_write env (as_tick st1 + i)" unfolding i_def using True by (metis LeastI)
    then have out: "done" "st2 = update_row f k ?s \<lparr>as_token_generation := bump_u64 (as_token_generation st1)\<rparr>"
      using p True unfolding persist_cases i_def [symmetric]
      by (auto simp: token_write_def Let_def update_row_def split: option.splits)
    have seen_st: "seen env K (as_tick ?s) x" if "seen env K (as_tick st) x" for x
      using seen_mono [OF that, of "as_tick ?s"] by (simp add: st1)
    have "cred_inv env K (update_row f k ?s)"
    proof (cases "\<exists>issued. rotates t (TokenReply r) issued")
      case True
      then obtain issued where rot: "rotates t (TokenReply r) issued" "unwrap_or (tr_refresh r) t = issued"
        by (auto simp: rotates_def)
      have m: "mints env (as_tick st) t issued" using mint rot by blast
      have un: "\<not> seen env K (as_tick st) issued" by (rule minted_unseen [OF ok(1) m])
      show ?thesis
      proof (rule inv_store [where t' = issued])
        show "inv_except {k} env K ?s" using inv_tick [OF ex(1), of "i + 1"] by (simp add: add.assoc)
        show "seen env K (as_tick ?s) issued"
          using seen_mono [OF minted_seen [OF m], of "as_tick ?s"] by (simp add: st1)
        show "\<forall>row. ar_status (f row) = ar_status row \<and> pt_refresh (ar_tokens (f row)) = issued"
          using f rot by simp
        have "issued \<notin> fst ` set (as_calls st)" "issued \<noteq> t"
          using inv un rot(1) unfolding inv_except_def by (auto simp: rotates_def)
        then show "issued \<notin> spent (as_calls ?s)" by (force simp: st1 spent_snoc spent_def)
        show "\<forall>x u. cred ?s x = Some (issued, u) \<longrightarrow> x = k"
          using inv un unfolding inv_except_def c by blast
      qed
    next
      case False
      then have same: "unwrap_or (tr_refresh r) t = t" by (cases "tr_refresh r") (auto simp: rotates_def)
      have i0: "cred_inv env K ?s" using inv_tick [OF ex(2) [OF False], of "i + 1"] by (simp add: add.assoc)
      show ?thesis
      proof (rule inv_store [where t' = t])
        show "inv_except {k} env K ?s" using i0 unfolding inv_except_def by blast
        show "seen env K (as_tick ?s) t" using inv k unfolding inv_except_def by (intro seen_st) blast
        show "\<forall>row. ar_status (f row) = ar_status row \<and> pt_refresh (ar_tokens (f row)) = t" using f same by simp
        show "t \<notin> spent (as_calls ?s)" using i0 k unfolding inv_except_def c by blast
        show "\<forall>x u. cred ?s x = Some (t, u) \<longrightarrow> x = k" using inv k unfolding inv_except_def c by blast
      qed
    qed
    then show ?thesis using out by simp
  next
    case False
    have out: "\<not> done" "st2 = st1\<lparr>as_tick := as_tick st1 + 3\<rparr>"
      using p False unfolding persist_cases persist_max_attempts_def by (auto split: if_splits)
    have "\<not> ae_write env (as_tick st1 + i)" if "i < 3" for i
      using False that by (auto simp: persist_max_attempts_def)
    from this [of 0] this [of 1] this [of 2]
    have "\<not> ae_write env (as_tick st1)" "\<not> ae_write env (as_tick st1 + 1)" "\<not> ae_write env (as_tick st1 + 2)"
      by simp_all
    then have "ae_write env (as_tick st1 + 3)" using ok(2) unfolding store_recovers_def by blast
    then have "cred_inv env K (update_status env k ''reauth_required'' st2)"
      using inv_update_status(2) [OF inv_tick [OF ex(1), of 3], of "''reauth_required''" k]
      by (simp add: out(2) usage_controlled_def)
    then show ?thesis using out(1) by simp
  qed
qed

section \<open>The operations\<close>

lemma read_account_Some:
  "read_account env k st = (Some row, st1) \<longleftrightarrow>
     ae_read env (as_tick st) \<and> tbl_get (as_rows st) k = Some row \<and> st1 = st\<lparr>as_tick := as_tick st + 1\<rparr>"
  by (auto simp: read_account_def)

lemma inv_read: "cred_inv env K st \<Longrightarrow> read_account env k st = (r, st1) \<Longrightarrow> cred_inv env K st1"
  using inv_tick [of "{}" env K st 1] by (auto simp: read_account_def)

lemma cred_read:
  "read_account env k st = (Some row, st1) \<Longrightarrow> ar_status row \<in> set usage_controlled \<Longrightarrow>
   cred st1 k = Some (pt_refresh (ar_tokens row), True)"
  by (auto simp: read_account_Some cred_def)

lemma reauth_unusable [simp]: "''reauth_required'' \<notin> set usage_controlled"
  by (simp add: usage_controlled_def)

lemma class_status_unusable: "class_status c = Some status \<Longrightarrow> status \<notin> set usage_controlled"
  by (cases c) (auto simp: usage_controlled_def)

lemma active_usable: "''active'' \<in> set usage_controlled"
  by (simp add: usage_controlled_def)

text \<open>A call that issued nothing, and the marks that may follow it.\<close>

lemma inv_refused:
  assumes "cred_inv env K st" "cred st k = Some (t, True)" "\<forall>r. reply \<noteq> TokenReply r"
    and "st1 = st\<lparr>as_tick := as_tick st + 1, as_calls := as_calls st @ [(t, reply)]\<rparr>"
  shows "cred_inv env K st1" and "cred_inv env K (update_status env k ''reauth_required'' st1)"
    and "class_status c = Some status \<Longrightarrow> cred_inv env K (update_status env k status st1)"
proof -
  show i: "cred_inv env K st1"
    using inv_exchange(2) [OF assms(1,2,4)] assms(3) by (auto simp: rotates_def)
  show "cred_inv env K (update_status env k ''reauth_required'' st1)"
    by (rule inv_update_status(1) [OF i reauth_unusable])
  show "class_status c = Some status \<Longrightarrow> cred_inv env K (update_status env k status st1)"
    by (rule inv_update_status(1) [OF i class_status_unusable])
qed

lemma inv_rotate_codex:
  assumes inv: "cred_inv env K st" and ok: "rotation_ok env K" "store_recovers env"
    and k: "cred st k = Some (t, True)"
  shows "cred_inv env K (snd (rotate_codex_tokens env k t now st))"
proof (cases "\<exists>r. ae_codex env (as_tick st) t = TokenReply r")
  case True
  then obtain r where r: "ae_codex env (as_tick st) t = TokenReply r" by blast
  let ?new = "\<lparr>pt_access = tr_access r, pt_refresh = unwrap_or (tr_refresh r) t, pt_id = tr_id r\<rparr>"
  let ?st1 = "st\<lparr>as_tick := as_tick st + 1, as_calls := as_calls st @ [(t, TokenReply r)]\<rparr>"
  obtain ok st2 where p: "persist (update_tokens env k ?new now) persist_max_attempts ?st1 = (ok, st2)" by force
  have "if ok then cred_inv env K st2 else cred_inv env K (update_status env k ''reauth_required'' st2)"
    using p unfolding update_tokens_def
    by (rule inv_settle [OF inv ok k _ _ refl, rotated 2]) (simp_all add: mints_def r)
  then show ?thesis
    using p r by (cases "ok") (simp_all add: rotate_codex_tokens_def oauth_refresh_def)
next
  case False
  note inv_refused [OF inv k, of "ae_codex env (as_tick st) t", OF _ refl]
  with False show ?thesis
    by (cases "ae_codex env (as_tick st) t")
      (auto simp: rotate_codex_tokens_def oauth_refresh_def split: option.split)
qed

lemma inv_refresh_anthropic:
  assumes inv: "cred_inv env K st" and ok: "rotation_ok env K" "store_recovers env"
    and k: "cred st k = Some (pt_refresh (ar_tokens row), True)"
  shows "cred_inv env K (snd (refresh_anthropic env k row now st))"
proof (cases "ae_anthropic env")
  case None
  then show ?thesis using inv by (simp add: refresh_anthropic_def)
next
  case (Some endpoint)
  let ?t = "pt_refresh (ar_tokens row)"
  let ?g = "unwrap_or (ar_scopes row) ''''"
  define reply where "reply = endpoint (as_tick st) ?t (if str_trim ?g = '''' then None else Some ?g)"
  note d = refresh_anthropic_def anthropic_refresh_def Some reply_def [symmetric]
  show ?thesis
  proof (cases "\<exists>r. reply = TokenReply r")
    case True
    then obtain r where r: "reply = TokenReply r" by blast
    let ?new = "\<lparr>pt_access = tr_access r, pt_refresh = unwrap_or (tr_refresh r) ?t, pt_id = ''''\<rparr>"
    let ?st1 = "st\<lparr>as_tick := as_tick st + 1, as_calls := as_calls st @ [(?t, TokenReply r)]\<rparr>"
    obtain ok st2 where p: "persist (update_oauth_tokens env k ?new (absolute_expiry (tr_expires_in r) now) now)
        persist_max_attempts ?st1 = (ok, st2)" by force
    have m: "\<forall>issued. rotates ?t (TokenReply r) issued \<longrightarrow> mints env (as_tick st) ?t issued"
      using Some r reply_def unfolding mints_def by metis
    have "if ok then cred_inv env K st2 else cred_inv env K (update_status env k ''reauth_required'' st2)"
      using p unfolding update_oauth_tokens_def
      by (rule inv_settle [OF inv ok k _ m refl, rotated 1]) simp
    then show ?thesis using p r by (cases "ok") (simp_all add: d)
  next
    case False
    note inv_refused [OF inv k, of reply, OF _ refl]
    with False show ?thesis by (cases reply) (auto simp: d split: option.split)
  qed
qed

lemma inv_resolve_locked:
  assumes inv: "cred_inv env K st" and ok: "rotation_ok env K" "store_recovers env"
  shows "cred_inv env K (snd (resolve_locked env k now pre st))"
proof (cases "read_account env k st")
  case (Pair res st1)
  have inv1: "cred_inv env K st1" using inv_read [OF inv Pair] .
  show ?thesis
  proof (cases "\<exists>row. res = Some row \<and> ar_status row = ''active'' \<and>
      should_refresh (token_exp env (pt_access (ar_tokens row))) (ar_last_refresh row) now")
    case False
    then show ?thesis using inv1 Pair by (auto simp: resolve_locked_def split: option.split)
  next
    case True
    then obtain row where row: "res = Some row" "ar_status row = ''active''"
      "should_refresh (token_exp env (pt_access (ar_tokens row))) (ar_last_refresh row) now" by blast
    let ?t = "pt_refresh (ar_tokens row)"
    have k: "cred st1 k = Some (?t, True)" using cred_read [of env k st row st1] Pair row active_usable by simp
    note d = resolve_locked_def Pair row oauth_refresh_def
    show ?thesis
    proof (cases "\<exists>r. ae_codex env (as_tick st1) ?t = TokenReply r")
      case True
      then obtain r where r: "ae_codex env (as_tick st1) ?t = TokenReply r" by blast
      let ?new = "\<lparr>pt_access = tr_access r, pt_refresh = unwrap_or (tr_refresh r) ?t, pt_id = tr_id r\<rparr>"
      let ?st2 = "st1\<lparr>as_tick := as_tick st1 + 1, as_calls := as_calls st1 @ [(?t, TokenReply r)]\<rparr>"
      obtain ok st3 where p: "persist (update_tokens env k ?new now) persist_max_attempts ?st2 = (ok, st3)" by force
      have "if ok then cred_inv env K st3 else cred_inv env K (update_status env k ''reauth_required'' st3)"
        using p unfolding update_tokens_def
        by (rule inv_settle [OF inv1 ok k _ _ refl, rotated 2]) (simp_all add: mints_def r)
      then show ?thesis using p r by (cases "ok") (simp_all add: d)
    next
      case False
      note inv_refused [OF inv1 k, of "ae_codex env (as_tick st1) ?t", OF _ refl]
      with False show ?thesis by (cases "ae_codex env (as_tick st1) ?t") (auto simp: d split: option.split)
    qed
  qed
qed

lemma inv_lookup: "cred_inv env K st \<Longrightarrow> cred_inv env K (snd (resolve_lookup env k now st))"
  using inv_tick [of "{}" env K "st\<lparr>as_cache := snd (cache_get k (as_token_generation st) now (as_cache st))\<rparr>" 1]
    inv_tick [of "{}" env K st 1]
  by (cases "cache_get k (as_token_generation st) now (as_cache st)")
    (auto simp: resolve_lookup_def read_account_def Let_def split: option.split)

lemma inv_reactive:
  assumes inv: "cred_inv env K st" and ok: "rotation_ok env K" "store_recovers env"
  shows "cred_inv env K (snd (refresh_after_unauthorized env k rejected now st))"
proof (cases "read_account env k st")
  case (Pair res st1)
  have inv1: "cred_inv env K st1" using inv_read [OF inv Pair] .
  have k: "cred st1 k = Some (pt_refresh (ar_tokens row), True)" if "res = Some row" "ar_status row = ''active''" for row
    using cred_read [of env k st row st1] Pair that active_usable by simp
  show ?thesis
  proof (cases "\<exists>row. res = Some row \<and> ar_status row = ''active''")
    case False
    then show ?thesis using inv1 by (auto simp: refresh_after_unauthorized_def Pair split: option.split)
  next
    case True
    then obtain row where row: "res = Some row" "ar_status row = ''active''" by blast
    obtain a s where rc: "rotate_codex_tokens env k (pt_refresh (ar_tokens row)) now st1 = (a, s)" by force
    have "cred_inv env K s" "cred_inv env K (snd (refresh_anthropic env k row now st1))"
      using inv_rotate_codex [OF inv1 ok k [OF row], of now] inv_refresh_anthropic [OF inv1 ok k [OF row]] rc by simp_all
    then show ?thesis
      using inv1 by (simp add: refresh_after_unauthorized_def Pair row rc Let_def split: sum.split option.split)
  qed
qed

lemma inv_stale:
  assumes inv: "cred_inv env K st" and ok: "rotation_ok env K" "store_recovers env"
  shows "cred_inv env K (snd (refresh_stale_codex_token env k now st))"
    and "cred_inv env K (snd (refresh_stale_anthropic_token env k now st))"
proof -
  obtain res st1 where Pair: "read_account env k st = (res, st1)" by force
  have inv1: "cred_inv env K st1" using inv_read [OF inv Pair] .
  have k: "cred st1 k = Some (pt_refresh (ar_tokens row), True)"
    if "res = Some row" "ar_status row \<in> set usage_controlled" for row
    using cred_read [of env k st row st1] Pair that by simp
  have rc: "cred_inv env K s" if "rotate_codex_tokens env k (pt_refresh (ar_tokens row)) now st1 = (a, s)"
    "res = Some row" "ar_status row \<in> set usage_controlled" for row a s
    using inv_rotate_codex [OF inv1 ok k [OF that(2,3)], of now] that(1) by simp
  have ra: "cred_inv env K s" if "refresh_anthropic env k row now st1 = (a, s)"
    "res = Some row" "ar_status row \<in> set usage_controlled" for row a s
    using inv_refresh_anthropic [OF inv1 ok k [OF that(2,3)], of now] that(1) by simp
  show "cred_inv env K (snd (refresh_stale_codex_token env k now st))"
    using inv1 rc by (auto simp: refresh_stale_codex_token_def Pair split: option.split sum.split prod.split)
  show "cred_inv env K (snd (refresh_stale_anthropic_token env k now st))"
    using inv1 ra by (auto simp: refresh_stale_anthropic_token_def Pair split: option.split sum.split prod.split)
qed

text \<open>
  The steps of the component. A request reads its row without the lock, so \<open>pre\<close> in the locked section
  is arbitrary: other requests may have rotated the tokens in between.
\<close>

inductive auth_step :: "auth_env \<Rightarrow> auth_state \<Rightarrow> auth_state \<Rightarrow> bool" for env where
  request_lookup: "auth_step env st (snd (resolve_lookup env k now st))"
| request_locked: "auth_step env st (snd (resolve_locked env k now pre st))"
| after_unauthorized: "auth_step env st (snd (refresh_after_unauthorized env k rejected now st))"
| stale_codex: "auth_step env st (snd (refresh_stale_codex_token env k now st))"
| stale_anthropic: "auth_step env st (snd (refresh_stale_anthropic_token env k now st))"
| sweep: "auth_step env st (st\<lparr>as_cache := cache_sweep now (as_cache st)\<rparr>)"

lemma inv_auth_step:
  assumes "auth_step env st st'" "rotation_ok env K" "store_recovers env" "cred_inv env K st"
  shows "cred_inv env K st'"
  using assms by (induction rule: auth_step.induct)
    (auto intro: inv_lookup inv_resolve_locked inv_reactive inv_stale)

lemma inv_auth_steps:
  assumes "rtranclp (auth_step env) st st'" "rotation_ok env K" "store_recovers env" "cred_inv env K st"
  shows "cred_inv env K st'"
  using assms by (induction rule: rtranclp_induct) (auto intro: inv_auth_step)

text \<open>A fresh process: no call made yet, and the accounts hold different refresh tokens.\<close>

definition fresh_tokens :: "auth_state \<Rightarrow> bool" where
  "fresh_tokens st \<longleftrightarrow> as_calls st = [] \<and> as_tick st = 0 \<and>
     (\<forall>k k' t u u'. cred st k = Some (t, u) \<longrightarrow> cred st k' = Some (t, u') \<longrightarrow> k = k')"

definition held_tokens :: "auth_state \<Rightarrow> string set" where
  "held_tokens st = {t. \<exists>k u. cred st k = Some (t, u)}"

lemma inv_start: "fresh_tokens st \<Longrightarrow> cred_inv env (held_tokens st) st"
  unfolding fresh_tokens_def held_tokens_def inv_except_def seen_def by auto

text \<open>
  C21: No refresh token is ever exchanged twice. Whatever the requests, 401 recoveries and background
  refreshes do and in whatever order they take the account's lock, a token that an endpoint has
  replaced is never presented again, provided the endpoint issues new tokens each time and the store
  does not lose four writes in a row.
\<close>

theorem refresh_token_single_use:
  assumes "rtranclp (auth_step env) st st'" "fresh_tokens st" "rotation_ok env (held_tokens st)" "store_recovers env"
  shows "\<forall>i j. i < j \<and> j < length (as_calls st') \<longrightarrow>
    (\<forall>issued. rotates (fst (as_calls st' ! i)) (snd (as_calls st' ! i)) issued \<longrightarrow>
       fst (as_calls st' ! j) \<noteq> fst (as_calls st' ! i))"
proof -
  have "reuse_free (as_calls st')"
    using inv_auth_steps [OF assms(1,3,4) inv_start [OF assms(2)]] unfolding inv_except_def by blast
  then have free: "fst (as_calls st' ! j) \<notin> spent (take j (as_calls st'))" if "j < length (as_calls st')" for j
    using that unfolding reuse_free_def by blast
  have "fst (as_calls st' ! i) \<in> spent (take j (as_calls st'))"
    if "i < j" "j < length (as_calls st')" "rotates (fst (as_calls st' ! i)) (snd (as_calls st' ! i)) issued" for i j issued
  proof -
    have "as_calls st' ! i \<in> set (take j (as_calls st'))" using that by (auto simp: in_set_conv_nth intro!: exI [of _ i])
    then show ?thesis using that(3) unfolding spent_def by (metis (mono_tags, lifting) mem_Collect_eq prod.collapse)
  qed
  then show ?thesis using free by metis
qed

text \<open>An endpoint that issues the call number in unary, and one account that is due.\<close>

definition demo_auth_env :: auth_env where
  "demo_auth_env = \<lparr>ae_decode = (\<lambda>_. None), ae_parse = (\<lambda>_. None), ae_base_url = (\<lambda>_. ''u''), ae_replica = False,
     ae_read = (\<lambda>_. True), ae_write = (\<lambda>_. True),
     ae_codex = (\<lambda>n _. TokenReply \<lparr>tr_access = ''a'', tr_refresh = Some (replicate n (CHR ''x'')), tr_id = '''',
        tr_expires_in = None, tr_scope = None\<rparr>),
     ae_anthropic = None\<rparr>"

definition demo_row :: account_row where
  "demo_row = \<lparr>ar_id = ''k'', ar_provider = ''codex'', ar_status = ''active'', ar_last_refresh = 0, ar_chatgpt_id = None,
     ar_auth_mode = ''codex_oauth'', ar_expires_at = None, ar_scopes = None,
     ar_tokens = \<lparr>pt_access = ''t'', pt_refresh = ''r'', pt_id = ''''\<rparr>\<rparr>"

definition demo_auth_state :: auth_state where
  "demo_auth_state = \<lparr>as_rows = [(''k'', demo_row)], as_generation = 0, as_token_generation = 0,
     as_cache = empty_token_cache, as_gate = [], as_tick = 0, as_calls = []\<rparr>"

lemma demo_rotation_ok: "rotation_ok demo_auth_env (held_tokens demo_auth_state)"
proof -
  have m: "mints demo_auth_env n t r \<longleftrightarrow> r = replicate n (CHR ''x'') \<and> r \<noteq> t" for n t r
    by (auto simp: mints_def rotates_def demo_auth_env_def)
  have "held_tokens demo_auth_state = {''r''}"
    by (auto simp: held_tokens_def cred_def demo_auth_state_def demo_row_def split: if_splits)
  moreover have "replicate n (CHR ''x'') \<noteq> ''r''" for n by (cases n) auto
  ultimately show ?thesis unfolding rotation_ok_def m by (auto dest: arg_cong [where f = length])
qed

definition demo_second :: auth_state where
  "demo_second = snd (refresh_stale_codex_token demo_auth_env ''k'' 1800000
     (snd (refresh_stale_codex_token demo_auth_env ''k'' 900000 demo_auth_state)))"

lemma demo_calls:
  "length (as_calls demo_second) = 2"
  "\<exists>issued. rotates (fst (as_calls demo_second ! 0)) (snd (as_calls demo_second ! 0)) issued"
  by (simp_all add: demo_second_def refresh_stale_codex_token_def read_account_def demo_auth_state_def demo_row_def
      demo_auth_env_def usage_controlled_def row_mode_def auth_mode_parse_def token_exp_def should_refresh_def
      token_refresh_fallback_days_def rotate_codex_tokens_def oauth_refresh_def update_tokens_def token_write_def
      persist_max_attempts_def numeral_3_eq_3 update_row_def rotates_def tbl_simps Let_def)

theorem refresh_token_single_use_witness:
  "fst (as_calls demo_second ! 1) \<noteq> fst (as_calls demo_second ! 0)"
proof -
  have run: "rtranclp (auth_step demo_auth_env) demo_auth_state demo_second"
    unfolding demo_second_def by (meson stale_codex r_into_rtranclp rtranclp.rtrancl_into_rtrancl)
  have "fresh_tokens demo_auth_state"
    by (auto simp: fresh_tokens_def cred_def demo_auth_state_def split: if_splits)
  moreover have "store_recovers demo_auth_env" by (simp add: store_recovers_def demo_auth_env_def)
  ultimately show ?thesis
    using refresh_token_single_use [OF run _ demo_rotation_ok] demo_calls by auto
qed

section \<open>Replicas\<close>

lemma read_account_frame:
  "as_calls (snd (read_account env k st)) = as_calls st" "as_rows (snd (read_account env k st)) = as_rows st"
  by (simp_all add: read_account_def)

text \<open>
  On a replica the shared recovery and both background refreshes never call a token endpoint and
  never change a stored row: a 401 either adopts a token that the master has rotated or stays visible.
\<close>

lemma replica_recovery_never_rotates:
  assumes "ae_replica env"
  shows "as_calls (snd (refresh_after_unauthorized env k rejected now st)) = as_calls st \<and>
    as_rows (snd (refresh_after_unauthorized env k rejected now st)) = as_rows st \<and>
    as_calls (snd (refresh_stale_codex_token env k now st)) = as_calls st \<and>
    as_rows (snd (refresh_stale_codex_token env k now st)) = as_rows st \<and>
    as_calls (snd (refresh_stale_anthropic_token env k now st)) = as_calls st \<and>
    as_rows (snd (refresh_stale_anthropic_token env k now st)) = as_rows st"
  using assms read_account_frame [of env k st]
  by (cases "read_account env k st")
    (simp add: refresh_after_unauthorized_def refresh_stale_codex_token_def refresh_stale_anthropic_token_def
      Let_def split: option.split)

lemma replica_recovery_never_rotates_example:
  "as_calls (snd (refresh_stale_codex_token (demo_auth_env\<lparr>ae_replica := True\<rparr>) ''k'' 900000 demo_auth_state)) = []"
  using replica_recovery_never_rotates [of "demo_auth_env\<lparr>ae_replica := True\<rparr>" "''k''" _ 900000 demo_auth_state]
  by (simp add: demo_auth_state_def)

text \<open>The request path has no such gate: it behaves alike on a replica and on a master.\<close>

lemma resolve_ignores_replica:
  "resolve_core_account (env\<lparr>ae_replica := b\<rparr>) k now st = resolve_core_account env k now st"
proof -
  let ?env = "env\<lparr>ae_replica := b\<rparr>"
  have reads: "read_account ?env = read_account env" "token_exp ?env = token_exp env"
    "update_status ?env = update_status env" "update_tokens ?env = update_tokens env" "oauth_refresh ?env = oauth_refresh env"
    by (simp_all add: fun_eq_iff read_account_def token_exp_def update_status_def update_tokens_def
        token_write_def oauth_refresh_def split: list.split)
  have parts: "resolve_locked ?env = resolve_locked env" "resolve_lookup ?env = resolve_lookup env" "core_of ?env = core_of env"
    unfolding resolve_locked_def resolve_lookup_def core_of_def is_fedramp_account_def decode_claims_def reads
    by simp_all
  show ?thesis unfolding resolve_core_account_def reads parts ..
qed

lemma replica_request_rotates:
  "as_calls (snd (resolve_core_account (demo_auth_env\<lparr>ae_replica := True\<rparr>) ''k'' 900000 demo_auth_state)) \<noteq> []"
  unfolding resolve_ignores_replica
  by (simp add: resolve_core_account_def resolve_lookup_def resolve_locked_def read_account_def oauth_refresh_def
      cache_get_def demo_auth_env_def demo_auth_state_def demo_row_def empty_token_cache_def provider_parse_def
      token_exp_def should_refresh_def token_refresh_fallback_days_def update_tokens_def token_write_def
      persist_max_attempts_def numeral_3_eq_3 update_row_def Let_def)

section \<open>Single flight\<close>

text \<open>The requests that wait for the lock, one after the other, each with its own earlier row.\<close>

fun run_waiters ::
  "auth_env \<Rightarrow> account_id \<Rightarrow> i64 \<Rightarrow> account_row list \<Rightarrow> auth_state \<Rightarrow> (auth_refusal + plain_tokens) list \<times> auth_state" where
  "run_waiters env k now [] st = ([], st)"
| "run_waiters env k now (pre # pres) st =
     (let (res, st1) = resolve_locked env k now pre st; (rest, st2) = run_waiters env k now pres st1 in (res # rest, st2))"

definition not_due :: "auth_env \<Rightarrow> account_id \<Rightarrow> i64 \<Rightarrow> plain_tokens \<Rightarrow> auth_state \<Rightarrow> bool" where
  "not_due env k now tokens st \<longleftrightarrow> (\<exists>row. tbl_get (as_rows st) k = Some row \<and> ar_status row = ''active'' \<and>
     ar_tokens row = tokens \<and> \<not> should_refresh (token_exp env (pt_access tokens)) (ar_last_refresh row) now)"

lemma waiter_adopts:
  assumes "not_due env k now tokens st" "ae_read env (as_tick st)"
  shows "resolve_locked env k now pre st = (Inr tokens, st\<lparr>as_tick := as_tick st + 1\<rparr>)"
    and "not_due env k now tokens (st\<lparr>as_tick := as_tick st + 1\<rparr>)"
  using assms by (auto simp: not_due_def resolve_locked_def read_account_def)

lemma waiters_adopt:
  assumes "not_due env k now tokens st" "\<forall>n. ae_read env n"
  shows "run_waiters env k now pres st = (replicate (length pres) (Inr tokens), st\<lparr>as_tick := as_tick st + length pres\<rparr>)"
  using assms(1)
proof (induction pres arbitrary: st)
  case (Cons pre pres)
  note w = waiter_adopts [OF Cons.prems assms(2) [THEN spec]]
  show ?case using Cons.IH [OF w(2)] by (simp add: w(1))
qed simp

text \<open>
  Concurrent requests for one account whose token is due share one refresh. However many wait for
  the lock, the endpoint is called once, and every one of them goes on with the tokens it issued.
\<close>

lemma refresh_single_flight:
  assumes "tbl_get (as_rows st) k = Some row" "ar_status row = ''active''"
    and "should_refresh (token_exp env (pt_access (ar_tokens row))) (ar_last_refresh row) now"
    and "ae_codex env (as_tick st + 1) (pt_refresh (ar_tokens row)) = TokenReply r"
    and "\<not> should_refresh (token_exp env (tr_access r)) now now"
    and "\<forall>n. ae_read env n" "\<forall>n. ae_write env n"
  shows "let (results, st') = run_waiters env k now (pre # pres) st;
             issued = \<lparr>pt_access = tr_access r, pt_refresh = unwrap_or (tr_refresh r) (pt_refresh (ar_tokens row)), pt_id = tr_id r\<rparr>
    in as_calls st' = as_calls st @ [(pt_refresh (ar_tokens row), TokenReply r)] \<and>
       results = replicate (length pres + 1) (Inr issued)"
proof -
  define issued where
    "issued = \<lparr>pt_access = tr_access r, pt_refresh = unwrap_or (tr_refresh r) (pt_refresh (ar_tokens row)), pt_id = tr_id r\<rparr>"
  obtain res st1 where first: "resolve_locked env k now pre st = (res, st1)" by force
  have st1: "res = Inr issued" "as_calls st1 = as_calls st @ [(pt_refresh (ar_tokens row), TokenReply r)]"
    "not_due env k now issued st1"
    using first assms
    by (auto simp: resolve_locked_def read_account_def oauth_refresh_def update_tokens_def token_write_def
        persist_max_attempts_def numeral_3_eq_3 update_row_def not_due_def issued_def tbl_simps Let_def)
  show ?thesis
    using waiters_adopt [OF st1(3) assms(6), of pres] st1 first
    unfolding issued_def [symmetric] by (simp add: Let_def)
qed

text \<open>Here the payload of an access token is the expiry itself, in unary.\<close>

definition dated_env :: auth_env where
  "dated_env = demo_auth_env\<lparr>ae_decode := Some, ae_parse := (\<lambda>s. Some (JObj [(''exp'', JInt (int (length s) * 1000000))])),
     ae_codex := (\<lambda>_ _. TokenReply \<lparr>tr_access = ''h.xx'', tr_refresh = Some ''r2'', tr_id = '''', tr_expires_in = None, tr_scope = None\<rparr>)\<rparr>"

lemma dated_due: "should_refresh (token_exp dated_env (pt_access (ar_tokens demo_row))) (ar_last_refresh demo_row) 900000"
  by (simp add: dated_env_def demo_auth_env_def demo_row_def token_exp_def should_refresh_def
      token_refresh_fallback_days_def)

lemma dated_fresh: "\<not> should_refresh (token_exp dated_env ''h.xx'') 900000 900000"
  by (simp add: dated_env_def demo_auth_env_def token_exp_def should_refresh_def refresh_margin_secs_def
      in_i64_def i64_max_def i64_min_def sat_i64_def)

lemma refresh_single_flight_example:
  "length (as_calls (snd (run_waiters dated_env ''k'' 900000 [demo_row, demo_row, demo_row] demo_auth_state))) = 1"
  using refresh_single_flight [OF _ _ dated_due, of demo_auth_state "''k''" _ demo_row "[demo_row, demo_row]"] dated_fresh
  by (simp add: demo_auth_state_def demo_row_def case_prod_beta Let_def)
    (simp add: dated_env_def demo_auth_env_def)

section \<open>Coherence of the token cache\<close>

text \<open>
  The cache against the store, with every access a step of its own: a request captures the generation,
  looks the account up, reads the row on a miss and inserts it; a token write updates the row and then
  bumps the generation. \<open>ct_writing\<close> holds the accounts between the two halves of a write.
\<close>

record cache_system =
  ct_tokens :: "account_id \<Rightarrow> plain_tokens"
  ct_generation :: u64
  ct_writing :: "account_id list"
  ct_cache :: token_cache
  ct_captured :: "nat \<Rightarrow> u64 option"
  ct_read :: "nat \<Rightarrow> (account_id \<times> account_row) option"

inductive cache_step :: "cache_system \<Rightarrow> cache_system \<Rightarrow> bool" where
  ct_capture: "cache_step s (s\<lparr>ct_captured := (ct_captured s)(th \<mapsto> ct_generation s), ct_read := (ct_read s)(th := None)\<rparr>)"
| ct_lookup: "ct_captured s th = Some g \<Longrightarrow> cache_step s (s\<lparr>ct_cache := snd (cache_get k g now (ct_cache s))\<rparr>)"
| ct_load: "ct_captured s th = Some g \<Longrightarrow> ar_tokens row = ct_tokens s k \<Longrightarrow>
    cache_step s (s\<lparr>ct_read := (ct_read s)(th \<mapsto> (k, row))\<rparr>)"
| ct_insert: "ct_captured s th = Some g \<Longrightarrow> ct_read s th = Some (k, row) \<Longrightarrow>
    cache_step s (s\<lparr>ct_cache := cache_insert k row g now (ct_cache s)\<rparr>)"
| ct_write: "cache_step s (s\<lparr>ct_tokens := (ct_tokens s)(k := new), ct_writing := k # ct_writing s\<rparr>)"
| ct_bump: "k \<in> set (ct_writing s) \<Longrightarrow> ct_generation s < u64_max \<Longrightarrow>
    cache_step s (s\<lparr>ct_generation := bump_u64 (ct_generation s), ct_writing := remove1 k (ct_writing s)\<rparr>)"
| ct_sweep: "cache_step s (s\<lparr>ct_cache := cache_sweep now (ct_cache s)\<rparr>)"

text \<open>A row is good for a generation when no newer one exists, or the tokens are the stored ones unless a write is under way.\<close>

definition good_row :: "cache_system \<Rightarrow> u64 \<Rightarrow> account_id \<Rightarrow> account_row \<Rightarrow> bool" where
  "good_row s g k row \<longleftrightarrow> g = ct_generation s \<longrightarrow> ar_tokens row = ct_tokens s k \<or> k \<in> set (ct_writing s)"

definition cache_inv :: "cache_system \<Rightarrow> bool" where
  "cache_inv s \<longleftrightarrow> tc_generation (ct_cache s) \<le> ct_generation s \<and> tbl_ok (tc_entries (ct_cache s)) \<and>
     (\<forall>th g. ct_captured s th = Some g \<longrightarrow> g \<le> ct_generation s) \<and>
     (\<forall>th g k row. ct_captured s th = Some g \<and> ct_read s th = Some (k, row) \<longrightarrow> good_row s g k row) \<and>
     (\<forall>k e. tbl_get (tc_entries (ct_cache s)) k = Some e \<longrightarrow> good_row s (tc_generation (ct_cache s)) k (ce_row e))"

lemma cache_get_generation: "tc_generation (snd (cache_get k g now c)) = max g (tc_generation c)"
  by (simp add: cache_get_def split: option.split)

lemma cache_get_kept:
  "tbl_get (tc_entries (snd (cache_get k g now c))) x = Some e \<Longrightarrow>
   tbl_get (tc_entries c) x = Some e \<and> tc_generation (snd (cache_get k g now c)) = tc_generation c"
  by (auto simp: cache_get_def tbl_simps split: option.splits if_splits)

lemma cache_get_hit:
  "fst (cache_get k g now c) = Some row \<Longrightarrow>
   g = tc_generation c \<and> (\<exists>e. tbl_get (tc_entries c) k = Some e \<and> ce_row e = row \<and> now < ce_expires_at e)"
  by (auto simp: cache_get_def split: option.splits if_splits)

lemma cache_get_ok: "tbl_ok (tc_entries c) \<Longrightarrow> tbl_ok (tc_entries (snd (cache_get k g now c)))"
  by (simp add: cache_get_def split: option.split)

lemma cache_insert_cases:
  assumes "tbl_ok (tc_entries c)" "tbl_get (tc_entries (cache_insert k row g now c)) x = Some e"
  shows "tbl_get (tc_entries c) x = Some e \<and> tc_generation (cache_insert k row g now c) = tc_generation c \<or>
    x = k \<and> ce_row e = row \<and> tc_generation (cache_insert k row g now c) = g"
  using assms by (auto simp: cache_insert_def Let_def tbl_simps opt_filter_Some split: if_splits)

lemma cache_insert_generation: "tc_generation (cache_insert k row g now c) = max g (tc_generation c)"
  by (simp add: cache_insert_def Let_def)

lemma cache_insert_ok: "tbl_ok (tc_entries c) \<Longrightarrow> tbl_ok (tc_entries (cache_insert k row g now c))"
  by (simp add: cache_insert_def Let_def)

lemmas cache_facts = cache_get_generation cache_get_ok cache_insert_generation cache_insert_ok

lemma bump_lt: "g < u64_max \<Longrightarrow> bump_u64 g = g + 1"
  by (simp add: bump_u64_def u64_max_def)

lemma cache_inv_step: "cache_step s s' \<Longrightarrow> cache_inv s \<Longrightarrow> cache_inv s'"
proof (induction rule: cache_step.induct)
  case (ct_capture s th)
  then show ?case by (auto simp: cache_inv_def good_row_def)
next
  case (ct_lookup s th g k now)
  then show ?case by (auto simp: cache_inv_def good_row_def cache_facts dest!: cache_get_kept) metis
next
  case (ct_load s th g row k)
  then show ?case by (auto simp: cache_inv_def good_row_def)
next
  case (ct_insert s th g k row now)
  have ok: "tbl_ok (tc_entries (ct_cache s))" using ct_insert.prems by (simp add: cache_inv_def)
  show ?case
    using ct_insert by (auto simp: cache_inv_def good_row_def cache_facts dest!: cache_insert_cases [OF ok]) (metis+)
next
  case (ct_write s k new)
  then show ?case by (auto simp: cache_inv_def good_row_def)
next
  case (ct_bump k s)
  then show ?case by (fastforce simp: cache_inv_def good_row_def bump_lt)
next
  case (ct_sweep s now)
  then show ?case by (auto simp: cache_inv_def good_row_def cache_sweep_def tbl_simps opt_filter_Some)
qed

definition cache_start :: "(account_id \<Rightarrow> plain_tokens) \<Rightarrow> cache_system" where
  "cache_start tokens = \<lparr>ct_tokens = tokens, ct_generation = 0, ct_writing = [], ct_cache = empty_token_cache,
     ct_captured = (\<lambda>_. None), ct_read = (\<lambda>_. None)\<rparr>"

lemma cache_inv_reachable: "rtranclp cache_step (cache_start tokens) s \<Longrightarrow> cache_inv s"
proof (induction rule: rtranclp_induct)
  case base
  then show ?case by (simp add: cache_inv_def cache_start_def empty_token_cache_def)
next
  case (step s s')
  then show ?case using cache_inv_step by blast
qed

text \<open>
  A rotated token is never served from memory. However lookups, loads, inserts, sweeps and token
  writes of any number of requests interleave, a lookup under the current generation that hits returns
  the tokens stored now, unless a write of that very account has updated the row and not yet bumped the
  generation.
\<close>

lemma token_cache_coherent:
  assumes "rtranclp cache_step (cache_start tokens) s"
    and "fst (cache_get k (ct_generation s) now (ct_cache s)) = Some row" "k \<notin> set (ct_writing s)"
  shows "ar_tokens row = ct_tokens s k"
proof -
  obtain e where "ct_generation s = tc_generation (ct_cache s)" "tbl_get (tc_entries (ct_cache s)) k = Some e" "ce_row e = row"
    using cache_get_hit [OF assms(2)] by blast
  then show ?thesis
    using cache_inv_reachable [OF assms(1)] assms(3) unfolding cache_inv_def good_row_def by metis
qed

lemma cached_demo:
  "\<exists>s. rtranclp cache_step (cache_start (\<lambda>_. ar_tokens demo_row)) s \<and>
     fst (cache_get ''k'' (ct_generation s) 5 (ct_cache s)) = Some demo_row \<and> ''k'' \<notin> set (ct_writing s)"
proof -
  let ?s0 = "cache_start (\<lambda>_. ar_tokens demo_row)"
  let ?s1 = "?s0\<lparr>ct_captured := (ct_captured ?s0)(0 \<mapsto> ct_generation ?s0), ct_read := (ct_read ?s0)(0 := None)\<rparr>"
  let ?s2 = "?s1\<lparr>ct_read := (ct_read ?s1)(0 \<mapsto> (''k'', demo_row))\<rparr>"
  let ?s3 = "?s2\<lparr>ct_cache := cache_insert ''k'' demo_row 0 5 (ct_cache ?s2)\<rparr>"
  have "cache_step ?s0 ?s1" "cache_step ?s1 ?s2" "cache_step ?s2 ?s3"
    by (rule ct_capture, rule ct_load [of _ 0 0], simp add: cache_start_def, simp add: cache_start_def,
        rule ct_insert [of _ 0], simp add: cache_start_def, simp)
  then have r: "rtranclp cache_step ?s0 ?s3" by (meson rtranclp.rtrancl_refl rtranclp.rtrancl_into_rtrancl)
  have h: "fst (cache_get ''k'' (ct_generation ?s3) 5 (ct_cache ?s3)) = Some demo_row"
    by (simp add: cache_start_def cache_insert_def cache_get_def empty_token_cache_def token_cache_ttl_def
        tbl_retain_def Let_def)
  have w: "''k'' \<notin> set (ct_writing ?s3)" by (simp add: cache_start_def)
  show ?thesis by (rule exI [of _ ?s3], intro conjI) (fact r, fact h, fact w)
qed

lemma token_cache_coherent_example:
  "\<exists>s :: cache_system. fst (cache_get ''k'' (ct_generation s) 5 (ct_cache s)) = Some demo_row \<and> ar_tokens demo_row = ct_tokens s ''k''"
proof -
  obtain s where s: "rtranclp cache_step (cache_start (\<lambda>_. ar_tokens demo_row)) s"
    "fst (cache_get ''k'' (ct_generation s) 5 (ct_cache s)) = Some demo_row" "''k'' \<notin> set (ct_writing s)"
    using cached_demo by (elim exE conjE)
  show ?thesis by (rule exI [of _ s]) (rule conjI [OF s(2) token_cache_coherent [OF s]])
qed

end
