(* ===== verification/Owner_Props.thy ===== *)
theory Owner_Props
  imports Owner_Affine Admission_Props Continuity_Claims Credentials_Props
begin

text \<open>
  Who serves a request that is routed by soft ownership: only an account the request may use, the session's owner unless
  there is a cause, and, when the cause at the handshake is the moment's load only, without taking the session from its owner.
\<close>

section \<open>Whom the waiting loops choose\<close>

definition fits :: "selection_ctx \<Rightarrow> account_snapshot list \<Rightarrow> account_id \<Rightarrow> bool" where
  "fits ctx ss k \<longleftrightarrow> (\<exists>s \<in> set ss. snap_id s = k \<and> authorized ctx s)"

lemma overlaid_fields [simp]:
  "snap_id (overlay_admission m now s) = snap_id s" "authorized ctx (overlay_admission m now s) = authorized ctx s"
  "snap_id (overlay_snapshot m now s) = snap_id s" "authorized ctx (overlay_snapshot m now s) = authorized ctx s"
  "snap_provider (overlay_snapshot m now s) = snap_provider s" "snap_pools (overlay_snapshot m now s) = snap_pools s"
  "snap_security_work_authorized (overlay_snapshot m now s) = snap_security_work_authorized s"
  by (simp_all add: overlay_admission_def overlay_snapshot_def authorized_def split: option.splits)

lemma fits_overlay [simp]:
  "fits ctx (map (overlay_admission m now) ss) k = fits ctx ss k" "fits ctx (overlay m now ss) k = fits ctx ss k"
  by (auto simp: fits_def overlay_def)

lemma fits_filter: "fits ctx (filter p ss) k \<Longrightarrow> fits ctx ss k"
  by (auto simp: fits_def)

context account_selector
begin

lemma select_wait_fits:
  "select_wait l pick ss ctx now ms = Acquired (m', k, lease) \<Longrightarrow> fits ctx ss k \<and> (\<exists>u. lease = InFlight k u)"
proof (induction ms arbitrary: ss)
  case (Cons m ms)
  show ?case
  proof (cases "select_and_acquire l pick ss ctx now m")
    case None
    with Cons.prems Cons.IH [of ss] Cons.IH [of "map (overlay_admission m now) ss"] show ?thesis
      by (simp split: if_splits)
  next
    case (Some r)
    with Cons.prems have "select_and_acquire l pick ss ctx now m = Some (m', k, lease)" by (simp split: if_splits)
    from reserved_candidate [OF this] select_grant [OF this] show ?thesis by (auto simp: fits_def servable_def)
  qed
qed simp

lemma select_ws_wait_fits:
  "select_ws_wait l pick ss ctx now ms = Acquired (m', k, lease) \<Longrightarrow> fits ctx ss k \<and> lease = Socket k"
proof (induction ms arbitrary: ss)
  case (Cons m ms)
  show ?case
  proof (cases "select_and_acquire_open_ws l pick ss ctx now m")
    case None
    with Cons.prems Cons.IH [of ss] Cons.IH [of "map (overlay_admission m now) ss"] show ?thesis
      by (simp split: if_splits)
  next
    case (Some r)
    with Cons.prems have r: "select_and_acquire_open_ws l pick ss ctx now m = Some (m', k, lease)" by (simp split: if_splits)
    then have "lease = Socket k" by (auto simp: select_and_acquire_open_ws_def Let_def split: if_splits option.splits)
    with reserved_socket_candidate [OF r] show ?thesis by (auto simp: fits_def servable_def)
  qed
qed simp

lemma pick_fits: "pick ss ctx = Some k \<Longrightarrow> fits ctx ss k"
  using pick_servable [of ss ctx k] by (auto simp: fits_def servable_def)

end

definition reserves :: "reservation_kind \<Rightarrow> account_id \<Rightarrow> owner_reservation \<Rightarrow> bool" where
  "reserves kind k r \<longleftrightarrow> (case kind of NoReservation \<Rightarrow> r = OwnerNone
     | InFlightReservation \<Rightarrow> \<exists>u. r = OwnerInFlight (InFlight k u) | OpenWsReservation \<Rightarrow> r = OwnerOpenWs (Socket k))"

lemma unowned_fits:
  assumes "account_selector (af_pick q)" "select_unowned_reservation l q ss ctx m = Some (k, r, m')"
  shows "fits ctx ss k \<and> reserves (af_kind q) k r"
  using assms(2) account_selector.pick_fits [OF assms(1)] account_selector.select_wait_fits [OF assms(1)]
    account_selector.select_ws_wait_fits [OF assms(1)]
  by (auto simp: select_unowned_reservation_def reserves_def acquired_of_def split: reservation_kind.splits wait_result.splits)

lemma wait_rounds_Some: "wait_rounds attempt ms = Some r \<Longrightarrow> \<exists>m \<in> set ms. attempt m = Some r"
  by (induction ms) (auto split: option.splits)

lemma wait_rounds_None: "wait_rounds attempt ms = None \<longleftrightarrow> (\<forall>m \<in> set ms. attempt m = None)"
  by (induction ms) (auto split: option.splits)

lemma pinned_reserves: "pinned_reservation l q k m = Some (r, m') \<Longrightarrow> reserves (af_kind q) k r"
  by (auto simp: pinned_reservation_def reserves_def acquire_pinned_in_flight_def acquire_pinned_open_ws_def
      pinned_attempt_def pinned_ws_attempt_def Let_def dest!: wait_rounds_Some split: reservation_kind.splits if_splits)

lemma retained_source: "s \<in> set (retain_accounts_serving mc model tier now ss) \<Longrightarrow> s \<in> set ss"
  by (auto simp: retain_accounts_serving_def retain_accounts_supporting_tier_def retain_accounts_supporting_def
      retain_accounts_available_for_def retain_by_evidence_def Let_def split: option.splits if_splits)

lemma affine_pool_source:
  assumes "s \<in> set (affine_pool q fl)"
  shows "\<exists>t \<in> set (af_snapshots q). s = overlay_snapshot (sv_states (fl_server fl)) (af_now q) t \<and>
    snap_provider t = Codex \<and> in_pool (af_pool q) t \<and> snap_id t \<notin> set (af_exclude q)"
proof -
  obtain t where t: "s = overlay_snapshot (sv_states (fl_server fl)) (af_now q) t"
    "t \<in> set (if af_exclude q = [] then filter_by_provider_and_pool Codex (af_pool q) (af_snapshots q)
       else filter (\<lambda>s. snap_id s \<notin> set (af_exclude q)) (filter_by_provider_and_pool Codex (af_pool q) (af_snapshots q)))"
    using assms unfolding affine_pool_def Let_def overlay_def
    by (auto dest: retained_source split: option.splits)
  then show ?thesis by (auto simp: filter_by_provider_and_pool_def split: if_splits)
qed

section \<open>Every way a resolution can go\<close>

text \<open>The owner serves; or it is not eligible; or it is released or out of sockets, and the turn is spilled.\<close>

definition owner_ineligible :: "affine_request \<Rightarrow> fleet \<Rightarrow> account_id \<Rightarrow> bool" where
  "owner_ineligible q fl k \<longleftrightarrow> (\<forall>s \<in> set (affine_pool q fl). snap_id s = k \<longrightarrow>
     \<not> servable (affine_ctx q (snd (session_signals q fl))) s)"

definition owner_gives_way :: "affine_request \<Rightarrow> fleet \<Rightarrow> account_id \<Rightarrow> bool" where
  "owner_gives_way q fl k \<longleftrightarrow> owner_released (sv_states (fl_server fl)) k (af_now q) (affine_pool q fl) \<or>
     af_kind q = OpenWsReservation \<and> (\<forall>m \<in> set (af_pinned q). pinned_ws_attempt (fl_limits fl) k (af_now q) m = None)"

lemma pick_owner:
  assumes "account_selector pick" "pick (filter (\<lambda>s. snap_id s = k) ss) ctx = Some k'"
  shows "k' = k \<and> fits ctx ss k"
  using account_selector.pick_filtered [OF assms(1), of "\<lambda>s. snap_id s = k" ss ctx k'] assms(2)
  by (auto simp: fits_def servable_def)

lemma pinned_ws_None:
  "af_kind q = OpenWsReservation \<Longrightarrow> pinned_reservation l q k m = None \<Longrightarrow>
   \<forall>m \<in> set (af_pinned q). pinned_ws_attempt l k (af_now q) m = None"
  by (auto simp: pinned_reservation_def acquire_pinned_open_ws_def wait_rounds_None)

lemma affine_pick_cases:
  assumes "account_selector (af_pick q)" "affine_pick q fl = Some (picked, r, m', spilled)"
  shows "fits (affine_ctx q (snd (session_signals q fl))) (affine_pool q fl) picked \<and> reserves (af_kind q) picked r \<and>
    (case fst (session_signals q fl) of None \<Rightarrow> spilled = None
     | Some k \<Rightarrow> spilled = Some k \<and> owner_gives_way q fl k \<or>
         spilled = None \<and> (picked = k \<or> owner_ineligible q fl k))"
proof -
  obtain owner sticky where sig: "session_signals q fl = (owner, sticky)" by fastforce
  define m where "m = sv_states (fl_server fl)"
  define ss where "ss = affine_pool q fl"
  define ctx where "ctx = affine_ctx q sticky"
  note un = unowned_fits [OF assms(1), of "fl_limits fl" _ ctx m]
  show ?thesis
  proof (cases owner)
    case None
    then show ?thesis using assms(2) sig un
      by (auto simp: affine_pick_def Let_def m_def ss_def ctx_def)
  next
    case (Some k)
    show ?thesis
    proof (cases "owner_released m k (af_now q) ss")
      case True
      then show ?thesis using assms(2) sig un Some
        by (auto simp: affine_pick_def Let_def m_def ss_def ctx_def owner_gives_way_def)
    next
      case False
      show ?thesis
      proof (cases "af_pick q (filter (\<lambda>s. snap_id s = k) ss) ctx")
        case None
        then have "owner_ineligible q fl k"
          using account_selector.pick_complete [OF assms(1) None] sig by (auto simp: owner_ineligible_def ss_def ctx_def)
        then show ?thesis using assms(2) sig un Some False None
          by (auto simp: affine_pick_def Let_def m_def ss_def ctx_def)
      next
        case (Some k')
        note own = pick_owner [OF assms(1) Some]
        note pick = Some \<open>owner = Some k\<close>
        show ?thesis
        proof (cases "pinned_reservation (fl_limits fl) q k m")
          case None
          then have ws: "af_kind q = OpenWsReservation" "spilled = Some k"
            "select_unowned_reservation (fl_limits fl) q (filter (\<lambda>s. snap_id s \<noteq> k) ss) ctx m = Some (picked, r, m')"
            using assms(2) sig pick own False
            by (auto simp: affine_pick_def Let_def m_def ss_def ctx_def split: if_splits)
          then show ?thesis using un [OF ws(3)] sig pick pinned_ws_None [OF ws(1) None]
            by (auto simp: owner_gives_way_def ss_def ctx_def dest: fits_filter)
        next
          case (Some p)
          then have "picked = k" "spilled = None" "pinned_reservation (fl_limits fl) q k m = Some (r, m')"
            using assms(2) sig pick own False by (auto simp: affine_pick_def Let_def m_def ss_def ctx_def split: prod.splits)
          then show ?thesis using sig pick own by (auto simp: ss_def ctx_def dest: pinned_reserves)
        qed
      qed
    qed
  qed
qed

lemma resolved_pick:
  assumes "resolve_owner_affine_account env q fl = (Inr (account, picked, r, spilled), fl')"
  obtains m' spilled0 where "affine_pick q fl = Some (picked, r, m', spilled0)" "spilled = opt_filter (\<lambda>k. k \<noteq> picked) spilled0"
  using assms by (auto simp: resolve_owner_affine_account_def Let_def split: option.splits sum.splits prod.splits)

section \<open>A refusal of a moment ago\<close>

definition refused_state :: runtime_state where
  "refused_state = neutral\<lparr>rt_overload_last_rejection_at := Some 0\<rparr>"

definition demo_owner_row :: "account_id \<Rightarrow> account_row" where
  "demo_owner_row k = demo_row\<lparr>ar_id := k\<rparr>"

definition owned_db :: "account_id \<Rightarrow> continuity_db" where
  "owned_db k = demo_db\<lparr>db_sessions := [(''s1'', (new_session ''soft'' ''anchored'' 5)\<lparr>sr_owning_account_id := Some k\<rparr>)]\<rparr>"

definition demo_fleet :: "account_id \<Rightarrow> fleet" where
  "demo_fleet k = \<lparr>
     fl_server = \<lparr>sv_states = [(k, refused_state)], sv_cooldowns = \<lparr>cq_pending = [], cq_channel = []\<rparr>,
       sv_refreshes = \<lparr>rq_pending = [], rq_channel = [], rq_coalesced = 0\<rparr>,
       sv_registry = \<lparr>reg_entries = [], reg_next_cleanup_at = 0\<rparr>, sv_continuity = owned_db k, sv_committed = False\<rparr>,
     fl_rows = [], fl_auth = demo_auth_state\<lparr>as_rows := [(''a'', demo_owner_row ''a''), (''b'', demo_owner_row ''b'')]\<rparr>,
     fl_catalog = \<lparr>mc_cached = None, mc_scoped = [], mc_accounts = [], mc_support = [], mc_retry_after = [],
       mc_declared = [], mc_capped = [], mc_unavailable = [], mc_floor = [], mc_ttl = 0\<rparr>,
     fl_limits = default_limits\<rparr>"

definition demo_affine :: affine_request where
  "demo_affine = \<lparr>af_session_key = Some demo_sk, af_session_id = None, af_pool = None, af_require_security = False,
     af_kind = NoReservation, af_model = None, af_service_tier = None, af_exclude = [], af_now = 0, af_penalty = F_Num 0,
     af_pick = pick_round_robin, af_snapshots = [new_snapshot ''a'', new_snapshot ''b''], af_pinned = [], af_unowned = []\<rparr>"

lemma refused_overlay: "overlay [(k, refused_state)] 0 [new_snapshot ''a'', new_snapshot ''b''] = [new_snapshot ''a'', new_snapshot ''b'']"
  by (simp add: overlay_def overlay_snapshot_def refused_state_def neutral_def new_snapshot_def active_until_def
      error_rate_weight_multiplier_def outcome_sums_def opt_filter_def Let_def later_of_def)

lemma demo_affine_pool: "affine_pool demo_affine (demo_fleet k) = [new_snapshot ''a'', new_snapshot ''b'']"
  using refused_overlay [of k]
  by (simp add: affine_pool_def demo_affine_def demo_fleet_def filter_by_provider_and_pool_def in_pool_def new_snapshot_def)

lemma demo_signals: "session_signals demo_affine (demo_fleet k) = (Some k, False)"
  by (simp add: session_signals_def demo_affine_def demo_fleet_def owned_db_def demo_sk_def get_session_def
      new_session_def has_capability_def)

lemma demo_round_robin: "pick_round_robin [new_snapshot ''a'', new_snapshot ''b''] default_ctx = Some ''a''"
  using fresh_pool(1) [of "[''a'', ''b'']", unfolded list.map]
  by (simp add: pick_round_robin_def deterministic_by_def by_key_cmp_def fresh_candidate_def cand_id_def new_snapshot_def
      cmp_lin_def)

lemma demo_resolved:
  assumes "k = ''a'' \<or> k = ''b''"
  shows "\<exists>account fl'. resolve_owner_affine_account demo_auth_env demo_affine (demo_fleet k) =
    (Inr (account, ''a'', OwnerNone, if k = ''a'' then None else Some k), fl')"
proof -
  have rel: "owner_released [(k, refused_state)] k 0 [new_snapshot ''a'', new_snapshot ''b'']"
    using assms
    by (auto simp: owner_released_def owner_recently_refused_def recently_refused_def recently_refused_for_capacity_def
        mutate_def rt_recently_refused_def overload_recent_refusal_spill_secs_def refused_state_def
        neutral_def is_some_and_def overload_backoff_active_def new_snapshot_def Let_def sat_i64_def i64_min_def i64_max_def unwrap_or_def)
  have ctx: "affine_ctx demo_affine False = default_ctx" by (simp add: affine_ctx_def demo_affine_def default_ctx_def)
  have "affine_pick demo_affine (demo_fleet k) = Some (''a'', OwnerNone, [(k, refused_state)], Some k)"
    using rel demo_round_robin ctx demo_signals [of k] demo_affine_pool [of k]
    by (simp add: affine_pick_def select_unowned_reservation_def demo_fleet_def demo_affine_def Let_def)
  then show ?thesis using assms
    by (auto simp: resolve_owner_affine_account_def resolve_core_account_def resolve_lookup_def read_account_def
        cache_get_def demo_auth_env_def demo_auth_state_def demo_row_def demo_owner_row_def empty_token_cache_def
        provider_parse_def token_exp_def should_refresh_def token_refresh_fallback_days_def demo_fleet_def
        on_states_def demo_affine_def Let_def opt_filter_def)
qed

section \<open>The properties\<close>

text \<open>
  A request routed by soft ownership is only ever served by an account it may use, whatever is excluded, spilled or
  waited for: a Codex account of its pool that is not excluded and that is authorized for security work when the request
  or its session asks for it; and the reservation it comes with is of the kind asked for and on that account.
\<close>

lemma affine_account_may_serve:
  assumes "account_selector (af_pick q)"
    and "resolve_owner_affine_account env q fl = (Inr (account, picked, r, spilled), fl')"
  shows "reserves (af_kind q) picked r \<and> picked \<notin> set (af_exclude q) \<and>
    (\<exists>s \<in> set (af_snapshots q). snap_id s = picked \<and> snap_provider s = Codex \<and> in_pool (af_pool q) s \<and>
       (af_require_security q \<or> snd (session_signals q fl) \<longrightarrow> snap_security_work_authorized s))"
proof -
  obtain m' spilled0 where "affine_pick q fl = Some (picked, r, m', spilled0)"
    using assms(2) by (rule resolved_pick)
  from affine_pick_cases [OF assms(1) this]
  have r: "reserves (af_kind q) picked r" and "fits (affine_ctx q (snd (session_signals q fl))) (affine_pool q fl) picked"
    by blast+
  then obtain s where s: "s \<in> set (affine_pool q fl)" "snap_id s = picked" "authorized (affine_ctx q (snd (session_signals q fl))) s"
    by (auto simp: fits_def)
  obtain t where t: "t \<in> set (af_snapshots q)" "snap_id t = picked" "snap_provider t = Codex" "in_pool (af_pool q) t"
      "picked \<notin> set (af_exclude q)" "authorized (affine_ctx q (snd (session_signals q fl))) t"
    using affine_pool_source [OF s(1)] s(2,3) by auto
  then show ?thesis using r by (auto simp: authorized_def affine_ctx_def)
qed

lemma affine_account_may_serve_example:
  "\<exists>account fl'. resolve_owner_affine_account demo_auth_env demo_affine (demo_fleet ''b'') =
     (Inr (account, ''a'', OwnerNone, Some ''b''), fl') \<and>
   (\<exists>s \<in> set [new_snapshot ''a'', new_snapshot ''b'']. snap_id s = ''a'' \<and> snap_provider s = Codex)"
proof -
  have sel: "account_selector (af_pick demo_affine)"
    using round_robin.account_selector_axioms by (simp add: demo_affine_def)
  obtain account fl' where d: "resolve_owner_affine_account demo_auth_env demo_affine (demo_fleet ''b'') =
      (Inr (account, ''a'', OwnerNone, Some ''b''), fl')"
    using demo_resolved [of "''b''"] by auto
  from affine_account_may_serve [OF sel d] d show ?thesis by (auto simp: demo_affine_def)
qed

text \<open>
  The responses that complete on one connection of the relay, in order: the account serving at the
  time (which changes when the connection is moved), the response id and the time. All of them are reported with the
  flag of the handshake's resolution; a report that fails is dropped.
\<close>

definition relay_reports ::
  "session_key \<Rightarrow> account_id option \<Rightarrow> (account_id \<times> string \<times> i64) list \<Rightarrow> continuity_db \<Rightarrow> continuity_db" where
  "relay_reports sk spilled reports db =
     fold (\<lambda>(a, rid, now) db. unwrap_or (observe now (relay_completed sk spilled a rid) db) db) reports db"

lemma relay_report:
  assumes "get_session (sk_value sk) db = Some row" "sr_owning_account_id row = Some k"
    and "k \<in> set (db_accounts db)" "a \<in> set (db_accounts db)"
  obtains db' row' where "observe now (relay_completed sk spilled a rid) db = Some db'"
    and "get_session (sk_value sk) db' = Some row'" "db_accounts db' = db_accounts db"
    and "sr_owning_account_id row' = Some (if spilled = None \<or> spilled = Some a then a else k)"
proof -
  have o: "observe now (relay_completed sk spilled a rid) db =
      record_completion (sk_value sk) (strength_str (sk_strength sk)) a spilled rid [] (int 0) now db"
    by (simp add: observe_def relay_completed_def)
  have "owner_valid (sr_owning_account_id row') db" if "get_session (sk_value sk) db = Some row'" for row'
    using that assms(1-3) by (simp add: owner_valid_def)
  from record_completion_total [OF assms(4) this] obtain db' where
    db': "record_completion (sk_value sk) (strength_str (sk_strength sk)) a spilled rid [] (int 0) now db = Some db'" by blast
  note eff = record_completion_effect(1) [OF db', of "sk_value sk"] record_completion_effect(3) [OF db']
  show ?thesis
    by (rule that [OF trans [OF o db'] _ eff(2)]) (use eff(1) assms(1,2) in \<open>auto simp: completed_row_def split: if_splits\<close>)
qed

lemma relay_reports_owner:
  assumes "get_session (sk_value sk) db = Some row" "sr_owning_account_id row = Some k" "k \<in> set (db_accounts db)"
    and "\<forall>(a, _, _) \<in> set reports. a \<in> set (db_accounts db)" and "spilled = None \<or> spilled = Some k"
  shows "map_option sr_owning_account_id (get_session (sk_value sk) (relay_reports sk spilled reports db)) =
    Some (Some (if spilled = None \<and> reports \<noteq> [] then fst (last reports) else k))"
  using assms
proof (induction reports arbitrary: db row k)
  case Nil
  then show ?case by (simp add: relay_reports_def)
next
  case (Cons r reports)
  obtain a rid now where r: "r = (a, rid, now)" by (cases r)
  have a: "a \<in> set (db_accounts db)" using Cons.prems(4) r by simp
  obtain db' row' where step: "observe now (relay_completed sk spilled a rid) db = Some db'"
    "get_session (sk_value sk) db' = Some row'" "db_accounts db' = db_accounts db"
    "sr_owning_account_id row' = Some (if spilled = None \<or> spilled = Some a then a else k)"
    by (rule relay_report [OF Cons.prems(1-3) a])
  have "relay_reports sk spilled (r # reports) db = relay_reports sk spilled reports db'"
    by (simp add: relay_reports_def r step(1))
  moreover have "map_option sr_owning_account_id (get_session (sk_value sk) (relay_reports sk spilled reports db')) =
      Some (Some (if spilled = None \<and> reports \<noteq> [] then fst (last reports) else if spilled = None then a else k))"
    using Cons.IH [OF step(2,4)] Cons.prems(3-5) a step(3) by (auto split: if_splits)
  ultimately show ?case by (cases spilled; cases "reports = []") (simp_all add: r)
qed



lemma moved_session_is_rehomed:
  "map_option sr_owning_account_id (get_session (sk_value demo_sk)
     (relay_reports demo_sk None [(''a'', ''r1'', 9), (''b'', ''r2'', 10)] (owned_db ''a''))) = Some (Some ''b'')"
proof -
  obtain row where row: "get_session (sk_value demo_sk) (owned_db ''a'') = Some row" "sr_owning_account_id row = Some ''a''"
    by (simp add: owned_db_def demo_sk_def get_session_def new_session_def)
  show ?thesis
    using relay_reports_owner [OF row, of "[(''a'', ''r1'', 9), (''b'', ''r2'', 10)]" None] by (simp add: owned_db_def demo_db_def)
qed

text \<open>
  The release does not keep the turn away from the owner it is meant to bypass: with two idle accounts of which the
  owner refused new work a moment ago and the sibling never did, round robin serves the turn on the owner.
\<close>

lemma refused_owner_serves_again:
  "recently_refused (sv_states (fl_server (demo_fleet ''a''))) 0 ''a'' \<and>
   \<not> recently_refused (sv_states (fl_server (demo_fleet ''a''))) 0 ''b'' \<and>
   (\<exists>account fl'. resolve_owner_affine_account demo_auth_env demo_affine (demo_fleet ''a'') =
      (Inr (account, ''a'', OwnerNone, None), fl'))"
  using demo_resolved [of "''a''"]
  by (auto simp: demo_fleet_def recently_refused_def recently_refused_for_capacity_def mutate_def rt_recently_refused_def
      overload_recent_refusal_spill_secs_def refused_state_def neutral_def is_some_and_def unwrap_or_def Let_def
      sat_i64_def i64_min_def i64_max_def)

end
