(* ===== verification/Relay_Frames.thy ===== *)
theory Relay_Frames
  imports Ws_Frames
begin

text \<open>
  What the client WebSocket relay (\<open>polyflare-server/src/ws_relay\<close>) reads in the frames it passes on: the signal of
  an upstream frame (\<open>signal.rs\<close>), the id of a completed response (\<open>sniff.rs\<close>), what a turn's telemetry observes
  (\<open>telemetry.rs\<close>), the predicates and forged frames of \<open>pump.rs\<close>; and the two rewritings of a client's frame,
  by the priority policy (\<open>priority_policy.rs\<close>) and without foreign reasoning (\<open>reasoning_transform.rs\<close>).
\<close>

section \<open>Signals\<close>

datatype upstream_signal = SigNormal | SigConnectionLimit | SigAnchorMissing | SigError failure_signal

definition ws_connection_limit_code :: string where "ws_connection_limit_code = ''websocket_connection_limit_reached''"
definition ws_anchor_miss_code :: string where "ws_anchor_miss_code = ''previous_response_not_found''"
definition anchor_param :: string where "anchor_param = ''previous_response_id''"

definition failed_status :: "string option \<Rightarrow> u16 option" where
  "failed_status code = (case code of None \<Rightarrow> Some 500 | Some c \<Rightarrow>
     if c \<in> set [''rate_limit_exceeded'', ''insufficient_quota'', ''usage_not_included''] then Some 429
     else if c \<in> set [''server_is_overloaded'', ''slow_down''] then Some 503
     else if c \<in> set [''context_length_exceeded'', ''invalid_prompt'', ''bio_policy'', ''cyber_policy''] then None
     else Some 500)"

definition header_retry_after :: "json \<Rightarrow> i64 option" where
  "header_retry_after v = Option.bind (jpath [''headers'', ''retry-after''] v)
     (\<lambda>r. opt_or (as_i64 r) (Option.bind (as_str r) parse_i64))"

definition classify_upstream_signal :: "'a codec_env_scheme \<Rightarrow> string \<Rightarrow> upstream_signal" where
  "classify_upstream_signal env text =
     (case we_parse env text of
        None \<Rightarrow> SigNormal
      | Some v \<Rightarrow>
          if jtype v = Some ''response.failed'' then
            (let code = jpath_str [''response'', ''error'', ''code''] v in
             case failed_status code of None \<Rightarrow> SigNormal
             | Some status \<Rightarrow> SigError \<lparr>fs_status = status, fs_retry_after = None, fs_error_code = code\<rparr>)
          else if jtype v \<noteq> Some ''error'' then SigNormal
          else
            (let code = jpath_str [''error'', ''code''] v;
                 status = unwrap_or (Option.bind (jget ''status'' v) as_u64) 0 mod 65536
             in if code = Some ws_connection_limit_code then SigConnectionLimit
                else if code = Some ws_anchor_miss_code then SigAnchorMissing
                else if jpath_str [''error'', ''param''] v = Some anchor_param then SigAnchorMissing
                else SigError \<lparr>fs_status = status, fs_retry_after = header_retry_after v, fs_error_code = code\<rparr>))"

definition sniff_completed_id :: "'a codec_env_scheme \<Rightarrow> string \<Rightarrow> string option" where
  "sniff_completed_id env text = Option.bind (we_parse env text)
     (\<lambda>v. if jtype v = Some ''response.completed'' then jpath_str [''response'', ''id''] v else None)"

section \<open>What a frame shows\<close>

definition is_non_output_frame :: "'a codec_env_scheme \<Rightarrow> string \<Rightarrow> bool" where
  "is_non_output_frame env frame = is_some_and (Option.bind (we_parse env frame) jtype)
     (\<lambda>ty. starts_with ''codex.'' ty \<or> ty \<in> set [''response.created'', ''response.in_progress'', ''response.metadata''])"

definition is_prelude_frame :: "'a codec_env_scheme \<Rightarrow> string \<Rightarrow> bool" where
  "is_prelude_frame env frame = is_some_and (Option.bind (we_parse env frame) jtype)
     (\<lambda>ty. ty \<in> set [''response.created'', ''response.in_progress''])"

text \<open>A generating \<open>response.create\<close> that continues a response: its input is the new suffix only.\<close>

fun anchored_body :: "json \<Rightarrow> bool" where
  "anchored_body (JObj kvs) \<longleftrightarrow> jtype (JObj kvs) = Some ''response.create'' \<and>
     Option.bind (map_of kvs ''generate'') as_bool \<noteq> Some False \<and> map_of kvs ''previous_response_id'' \<noteq> None"
| "anchored_body _ = False"

definition is_anchored_generating_frame :: "'a codec_env_scheme \<Rightarrow> string \<Rightarrow> bool" where
  "is_anchored_generating_frame env frame = is_some_and (we_parse env frame) anchored_body"

definition is_transient_overload :: "failure_signal \<Rightarrow> bool" where
  "is_transient_overload sig \<longleftrightarrow>
     is_some_and (fs_error_code sig) (\<lambda>code. code \<in> set [''server_is_overloaded'', ''overloaded_error'',
       ''model_at_capacity'', ''slow_down'', ''server_error'']) \<or> fs_status sig = 503 \<and> fs_error_code sig = None"

section \<open>Errors for the client\<close>

definition status_for_error_code :: "string option \<Rightarrow> u16" where
  "status_for_error_code code =
     (if code = Some ''server_is_overloaded'' \<or> code = Some ''slow_down'' then 503
      else if code = Some ''rate_limit_exceeded'' \<or> code = Some ''insufficient_quota'' \<or> code = Some ''usage_not_included'' then 429
      else if code = Some ''server_error'' then 500
      else 502)"

definition normalize_error_envelope_status :: "'a codec_env_scheme \<Rightarrow> string \<Rightarrow> string option" where
  "normalize_error_envelope_status env text =
     (case we_parse env text of
        Some (JObj kvs) \<Rightarrow>
          if jtype (JObj kvs) \<noteq> Some ''error'' then None
          else if is_some_and (Option.bind (map_of kvs ''status'') as_u64) (\<lambda>s. 100 \<le> s \<and> s < 600) then None
          else Some (we_print env (JObj (obj_put ''status''
            (JInt (int (status_for_error_code (jpath_str [''error'', ''code''] (JObj kvs))))) kvs)))
      | _ \<Rightarrow> None)"

definition error_frame :: "'a codec_env_scheme \<Rightarrow> int \<Rightarrow> (string \<times> json) list \<Rightarrow> string" where
  "error_frame env status err = we_print env (JObj [(''error'', JObj err), (''status'', JInt status), (''type'', JStr ''error'')])"

definition attempt_budget_exhausted_frame :: "'a codec_env_scheme \<Rightarrow> string" where
  "attempt_budget_exhausted_frame env = error_frame env 400
     [(''code'', JStr ''logical_turn_attempts_exhausted''),
      (''message'', JStr ''This logical turn exhausted its upstream attempt budget.''),
      (''type'', JStr ''invalid_request_error'')]"

definition capacity_retry_error_frame :: "'a codec_env_scheme \<Rightarrow> string" where
  "capacity_retry_error_frame env = error_frame env 409
     [(''code'', JStr ws_connection_limit_code),
      (''message'', JStr ''Upstream is at capacity for this account and PolyFlare has moved the conversation; retrying resends the full conversation.'')]"

definition client_resend_error_frame :: "'a codec_env_scheme \<Rightarrow> string" where
  "client_resend_error_frame env = error_frame env 409
     [(''code'', JStr ws_connection_limit_code),
      (''message'', JStr ''Conversation anchor is no longer available on this connection; retrying resends the full conversation.'')]"

section \<open>A turn\<close>

text \<open>
  What \<open>start_turn\<close> keeps of a \<open>response.create\<close> that matters to the relay. \<open>turn_facts\<close> is what the ingress
  parser (\<open>session_key.rs\<close>) finds in a frame; it is a parameter.
\<close>

record turn_facts =
  tf_event :: "string option"
  tf_model :: string
  tf_tier :: "string option"
  tf_turn_key :: "string option"

record ws_turn =
  wt_model :: "string option"
  wt_tier :: "string option"
  wt_turn_key :: "string option"
  wt_log_request :: bool

definition start_turn :: "'a codec_env_scheme \<Rightarrow> (string \<Rightarrow> turn_facts option) \<Rightarrow> string \<Rightarrow> ws_turn option" where
  "start_turn env facts_of frame =
     (case we_parse env frame of
        Some (JObj kvs) \<Rightarrow>
          if jtype (JObj kvs) \<noteq> Some ''response.create'' then None
          else map_option (\<lambda>facts. \<lparr>
            wt_model = (if tf_model facts = '''' then None else Some (tf_model facts)),
            wt_tier = tf_tier facts, wt_turn_key = tf_turn_key facts,
            wt_log_request = unwrap_or (Option.bind (map_of kvs ''generate'') as_bool) True\<rparr>) (facts_of frame)
      | _ \<Rightarrow> None)"

definition logical_turn_key :: "ws_turn \<Rightarrow> string option" where
  "logical_turn_key turn = (if wt_log_request turn then wt_turn_key turn else None)"

datatype turn_terminal = TurnCompleted | TurnFailed | TurnIncomplete

definition observe_turn :: "'a codec_env_scheme \<Rightarrow> string \<Rightarrow> turn_terminal option" where
  "observe_turn env frame = Option.bind (Option.bind (we_parse env frame) jtype) (\<lambda>ty.
     if ty = ''response.completed'' then Some TurnCompleted
     else if ty = ''response.failed'' then Some TurnFailed
     else if ty = ''response.incomplete'' then Some TurnIncomplete
     else if ty = ''error'' then Some TurnFailed
     else None)"

section \<open>Rewriting a client's frame\<close>

datatype priority_decision = Passthrough | Priority | Standard

definition apply_decision :: "'a codec_env_scheme \<Rightarrow> string \<Rightarrow> priority_decision \<Rightarrow> string option" where
  "apply_decision env raw decision =
     (case decision of
        Passthrough \<Rightarrow> Some raw
      | Priority \<Rightarrow> (case we_parse env raw of
            Some (JObj kvs) \<Rightarrow> Some (we_print env (JObj (obj_put ''service_tier'' (JStr ''priority'') kvs))) | _ \<Rightarrow> None)
      | Standard \<Rightarrow> (case we_parse env raw of
            Some (JObj kvs) \<Rightarrow> Some (we_print env (JObj (AList.delete ''service_tier'' kvs))) | _ \<Rightarrow> None))"

definition apply_priority_decision :: "priority_decision \<Rightarrow> ws_turn \<Rightarrow> ws_turn" where
  "apply_priority_decision decision turn = (case decision of
     Priority \<Rightarrow> turn\<lparr>wt_tier := Some ''priority''\<rparr> | Standard \<Rightarrow> turn\<lparr>wt_tier := Some ''standard''\<rparr> | Passthrough \<Rightarrow> turn)"

definition is_unresendable_history_code :: "string \<Rightarrow> bool" where
  "is_unresendable_history_code code \<longleftrightarrow> code = ''invalid_encrypted_content'' \<or> code = ''array_above_max_length''"

definition summary_text :: "json \<Rightarrow> string option" where
  "summary_text block =
     (if jtype block = Some ''summary_text''
      then opt_filter (\<lambda>t. str_trim t \<noteq> '''') (Option.bind (jget ''text'' block) as_str) else None)"

definition reasoning_summary_text :: "json \<Rightarrow> string option" where
  "reasoning_summary_text item = Option.bind (Option.bind (jget ''summary'' item) as_array)
     (\<lambda>blocks. case List.map_filter summary_text blocks of [] \<Rightarrow> None | parts \<Rightarrow> Some (join_with (CHR 0x0A) parts))"

definition is_reasoning :: "json \<Rightarrow> bool" where
  "is_reasoning item \<longleftrightarrow> jtype item = Some ''reasoning''"

definition plain_reasoning :: "json \<Rightarrow> json list" where
  "plain_reasoning item =
     (if \<not> is_reasoning item then [item]
      else (case reasoning_summary_text item of
          None \<Rightarrow> []
        | Some text \<Rightarrow> [JObj [
            (''content'', JArr [JObj [(''text'', JStr (''[prior model reasoning summary]'' @ CHR 0x0A # text)), (''type'', JStr ''output_text'')]]),
            (''role'', JStr ''assistant''), (''type'', JStr ''message'')]]))"

text \<open>The rewritten body, if it held a reasoning item.\<close>

fun strip_reasoning_from_input :: "json \<Rightarrow> json option" where
  "strip_reasoning_from_input (JObj kvs) =
     (case Option.bind (map_of kvs ''input'') as_array of
        None \<Rightarrow> None
      | Some items \<Rightarrow> if \<exists>item \<in> set items. is_reasoning item
          then Some (JObj (obj_put ''input'' (JArr (concat (map plain_reasoning items))) kvs)) else None)"
| "strip_reasoning_from_input _ = None"

definition strip_unverifiable_reasoning :: "'a codec_env_scheme \<Rightarrow> string \<Rightarrow> string option" where
  "strip_unverifiable_reasoning env frame =
     (case we_parse env frame of
        Some (JObj kvs) \<Rightarrow>
          if jtype (JObj kvs) \<noteq> Some ''response.create'' \<or> Option.bind (map_of kvs ''generate'') as_bool = Some False then None
          else map_option (we_print env) (strip_reasoning_from_input (JObj kvs))
      | _ \<Rightarrow> None)"

definition strip_unverifiable_reasoning_body :: "'a codec_env_scheme \<Rightarrow> string \<Rightarrow> string option" where
  "strip_unverifiable_reasoning_body env body =
     Option.bind (Option.bind (we_parse env body) strip_reasoning_from_input) (\<lambda>v. Some (we_print env v))"

section \<open>What the rewriting keeps\<close>

text \<open>Stripping a body twice changes nothing more, and touches its input only.\<close>

lemma plain_not_reasoning: "item \<in> set (plain_reasoning old) \<Longrightarrow> \<not> is_reasoning item"
  by (auto simp: plain_reasoning_def is_reasoning_def jtype_def jpath_str_def split: if_splits option.splits)

lemma strip_input_result:
  assumes "strip_reasoning_from_input v = Some w"
  shows "\<forall>k. k \<noteq> ''input'' \<longrightarrow> jget k w = jget k v"
    and "\<exists>items. jget ''input'' w = Some (JArr items) \<and> (\<forall>item \<in> set items. \<not> is_reasoning item)"
    and "\<exists>kvs kws. v = JObj kvs \<and> w = JObj kws"
  using assms plain_not_reasoning
  by (cases v; force simp: obj_put_get split: option.splits if_splits)+

lemma strip_input_idem: "strip_reasoning_from_input v = Some w \<Longrightarrow> strip_reasoning_from_input w = None"
  using strip_input_result(2) [of v w] by (cases w) (auto split: option.splits)

lemma stripped_anchor: "strip_reasoning_from_input v = Some w \<Longrightarrow> anchored_body w = anchored_body v"
  using strip_input_result [of v w] by (auto simp: jtype_def jpath_str_def)

lemma strip_frame_result:
  assumes "strip_unverifiable_reasoning env c = Some frame"
  shows "\<exists>v w items. we_parse env c = Some v \<and> frame = we_print env w \<and> anchored_body w = anchored_body v \<and>
    (\<forall>k. k \<noteq> ''input'' \<longrightarrow> jget k w = jget k v) \<and>
    jget ''input'' w = Some (JArr items) \<and> (\<forall>item \<in> set items. \<not> is_reasoning item)"
proof -
  obtain v w where vw: "we_parse env c = Some v" "strip_reasoning_from_input v = Some w" "frame = we_print env w"
    using assms by (auto simp: strip_unverifiable_reasoning_def split: option.splits json.splits if_splits)
  with strip_input_result [OF vw(2)] stripped_anchor [OF vw(2)] show ?thesis by blast
qed

end
