(* ===== verification/Relay_Pump.thy ===== *)
theory Relay_Pump
  imports Relay_Frames
begin

text \<open>
  The relay between a client's WebSocket and an upstream one (\<open>run_pump\<close> in \<open>polyflare-server/src/ws_relay/pump.rs\<close>,
  with the callbacks and the socket slot of \<open>ws_relay/mod.rs\<close>). One pass of its loop is a function of the state, of
  what the socket that was ready delivered, and of the \<open>relay_answer\<close>s that the pass gets from outside, one per
  place where it waits. \<open>pu_log\<close> is a ghost field: what went over the sockets, in order. Counters of metrics,
  the delays before a retry and the flag on a model that an account turned out not to serve (it acts on later picks,
  which are answers) are left out; the bridge to custom providers is an answer.
\<close>

section \<open>State\<close>

datatype relay_event =
    FromClient string
  | TurnStart
  | ToUpstream account_id string
  | Replay account_id string
  | FromUpstream account_id string
  | Forward string "string list"
  | Told string
  | Owns account_id string
  | Benched account_id
  | TurnEnd account_id turn_terminal
  | ClosedClient

text \<open>
  \<open>pu_upstream\<close> is the account whose socket is open and \<open>pu_slot\<close> the account whose open-socket slot is held.
\<close>

record pump =
  pu_account :: account_id
  pu_upstream :: "account_id option"
  pu_since :: nat
  pu_slot :: "account_id option"
  pu_in_flight :: "string option"
  pu_turn :: "ws_turn option"
  pu_reconnects :: u32
  pu_resend_pending :: bool
  pu_auth_tried :: bool
  pu_transform_tried :: bool
  pu_visible :: bool
  pu_output :: bool
  pu_prelude :: bool
  pu_overloads :: u32
  pu_replays :: u32
  pu_tried :: "account_id list"
  pu_status :: u16
  pu_open :: bool
  pu_log :: "relay_event list"

definition max_reconnects_without_progress :: u32 where "max_reconnects_without_progress = 5"
definition overload_retry_max_retries :: u32 where "overload_retry_max_retries = 2"
definition same_socket_replay_max :: u32 where "same_socket_replay_max = 1"
definition transient_retry_max_secs :: i64 where "transient_retry_max_secs = 30"

definition run_pump_start :: "account_id \<Rightarrow> nat \<Rightarrow> pump" where
  "run_pump_start account now = \<lparr>
     pu_account = account, pu_upstream = Some account, pu_since = now, pu_slot = Some account,
     pu_in_flight = None, pu_turn = None, pu_reconnects = 0, pu_resend_pending = False, pu_auth_tried = False,
     pu_transform_tried = False, pu_visible = False, pu_output = False, pu_prelude = False, pu_overloads = 0,
     pu_replays = 0, pu_tried = [], pu_status = 499, pu_open = True, pu_log = []\<rparr>"

section \<open>Answers\<close>

text \<open>The places where a pass waits for something outside.\<close>

datatype site = AtLazy nat | AtRefreshed | AtCap | AtSame | AtTransform | AtAuth | AtMove | AtRetry | AtDrop
  | AtTell | AtForward | AtSurface

datatype redial_outcome = Connected | Unauthorized | ContractDrift | Unavailable

datatype custom_disposition = CuNative | CuRelayed | CuFailed

record relay_answer =
  ra_now :: nat
  ra_gated :: bool
  ra_decision :: "priority_decision option"
  ra_custom :: custom_disposition
  ra_serves_tier :: "bool option"
  ra_track :: bool
  ra_slot_free :: bool
  ra_dial :: "site \<Rightarrow> redial_outcome"
  ra_refreshed :: bool
  ra_budget :: "site \<Rightarrow> bool"
  ra_send :: "site \<Rightarrow> bool"
  ra_client :: "site \<Rightarrow> bool"
  ra_move :: "account_id option"
  ra_select :: "account_id option"
  ra_select_dial :: bool
  ra_substitute :: bool
  ra_rate_frames :: "(string \<times> string) option"
  ra_idle :: bool

record pump_env = codec_env +
  pe_facts :: "string \<Rightarrow> turn_facts option"
  pe_max_age :: "nat option"
  pe_idle_budget :: "nat option"

section \<open>Small steps\<close>

definition logged :: "relay_event list \<Rightarrow> pump \<Rightarrow> pump" where
  "logged evs p = p\<lparr>pu_log := pu_log p @ evs\<rparr>"

abbreviation quit :: "pump \<Rightarrow> pump" where
  "quit p \<equiv> p\<lparr>pu_open := False\<rparr>"

abbreviation stop :: "u16 \<Rightarrow> pump \<Rightarrow> pump" where
  "stop status p \<equiv> p\<lparr>pu_open := False, pu_status := status\<rparr>"

definition turn_active :: "pump \<Rightarrow> bool" where
  "turn_active p \<longleftrightarrow> pu_in_flight p \<noteq> None \<or> pu_turn p \<noteq> None"

definition attach :: "account_id \<Rightarrow> relay_answer \<Rightarrow> pump \<Rightarrow> pump" where
  "attach account an p = p\<lparr>pu_account := account, pu_upstream := Some account, pu_since := ra_now an\<rparr>"

definition count_reconnect :: "pump \<Rightarrow> pump" where
  "count_reconnect p =
     (let p' = p\<lparr>pu_reconnects := pu_reconnects p + 1\<rparr>
      in if max_reconnects_without_progress < pu_reconnects p' then stop 502 p' else p')"

text \<open>The turn ends if the frame is a terminal.\<close>

definition finish_turn :: "'a codec_env_scheme \<Rightarrow> string \<Rightarrow> pump \<Rightarrow> pump" where
  "finish_turn env frame p =
     (case (pu_turn p, observe_turn env frame) of
        (Some _, Some outcome) \<Rightarrow> logged [TurnEnd (pu_account p) outcome] (p\<lparr>pu_turn := None\<rparr>)
      | _ \<Rightarrow> p)"

definition surface_attempt_budget_exhausted :: "'a codec_env_scheme \<Rightarrow> relay_answer \<Rightarrow> pump \<Rightarrow> pump" where
  "surface_attempt_budget_exhausted env an p =
     (if \<not> ra_client an AtTell then quit p
      else let p' = logged [Told (attempt_budget_exhausted_frame env)] p
           in (finish_turn env (attempt_budget_exhausted_frame env) p')\<lparr>pu_turn := None\<rparr>)"

text \<open>
  \<open>redial_for_scope_with_slot\<close>: the dial, which first takes the account's socket slot back if it is not held and
  gives a slot just taken back when the dial fails.
\<close>

definition redial_with_slot :: "relay_answer \<Rightarrow> site \<Rightarrow> pump \<Rightarrow> redial_outcome \<times> pump" where
  "redial_with_slot an at_site p =
     (if pu_slot p = Some (pu_account p) then (ra_dial an at_site, p)
      else if \<not> ra_slot_free an then (Unavailable, p)
      else (ra_dial an at_site, p\<lparr>pu_slot := (if ra_dial an at_site = Connected then Some (pu_account p) else None)\<rparr>))"

text \<open>The redial of the cap and the drop, with its one refresh of a rejected token; the refresh's dial takes no slot.\<close>

definition redial_or_refresh :: "relay_answer \<Rightarrow> site \<Rightarrow> pump \<Rightarrow> bool \<times> pump" where
  "redial_or_refresh an at_site p =
     (case redial_with_slot an at_site p of
        (Connected, p') \<Rightarrow> (True, attach (pu_account p') an p')
      | (Unauthorized, p') \<Rightarrow>
          if pu_auth_tried p' then (False, p')
          else if ra_refreshed an then (True, attach (pu_account p') an (p'\<lparr>pu_auth_tried := True\<rparr>))
          else (False, p'\<lparr>pu_auth_tried := True\<rparr>)
      | (_, p') \<Rightarrow> (False, p'))"

text \<open>The turn in flight is sent again on the new socket, if the turn's attempts allow.\<close>

definition replay_in_flight :: "'a codec_env_scheme \<Rightarrow> relay_answer \<Rightarrow> site \<Rightarrow> pump \<Rightarrow> pump" where
  "replay_in_flight env an at_site p =
     (case pu_in_flight p of
        None \<Rightarrow> count_reconnect p
      | Some frame \<Rightarrow>
          if \<not> ra_budget an at_site then surface_attempt_budget_exhausted env an (p\<lparr>pu_in_flight := None\<rparr>)
          else if \<not> ra_send an at_site then stop 502 p
          else count_reconnect (logged [Replay (pu_account p) frame] p))"

text \<open>One forged error makes the client send the whole conversation again.\<close>

definition forge_resend :: "'a codec_env_scheme \<Rightarrow> relay_answer \<Rightarrow> pump \<Rightarrow> pump" where
  "forge_resend env an p =
     (if \<not> ra_client an AtTell then quit p
      else let frame = client_resend_error_frame env; p' = finish_turn env frame (logged [Told frame] (p\<lparr>pu_visible := True\<rparr>))
           in p'\<lparr>pu_in_flight := None, pu_resend_pending := True\<rparr>)"

definition anchored_in_flight :: "'a codec_env_scheme \<Rightarrow> pump \<Rightarrow> bool" where
  "anchored_in_flight env p \<longleftrightarrow> is_some_and (pu_in_flight p) (is_anchored_generating_frame env)"

section \<open>A frame from the client\<close>

datatype send_outcome = Sent bool | SendUnauthorized | BudgetExhausted | SendFailed

fun send_client_text :: "relay_answer \<Rightarrow> string \<Rightarrow> nat list \<Rightarrow> bool \<Rightarrow> pump \<Rightarrow> send_outcome \<times> pump" where
  "send_client_text an frame [] redialed p = (SendFailed, p)"
| "send_client_text an frame (n # ns) redialed p =
     (let send = (\<lambda>redialed p. if \<not> ra_budget an (AtLazy n) then (BudgetExhausted, p)
        else if ra_send an (AtLazy n) then (Sent redialed, logged [ToUpstream (pu_account p) frame] p)
        else send_client_text an frame ns redialed (p\<lparr>pu_upstream := None\<rparr>))
      in if pu_upstream p \<noteq> None then send redialed p
         else (case redial_with_slot an (AtLazy n) p of
             (Connected, p') \<Rightarrow> send True (p'\<lparr>pu_upstream := Some (pu_account p')\<rparr>)
           | (Unauthorized, p') \<Rightarrow> (SendUnauthorized, p')
           | (_, p') \<Rightarrow> (SendFailed, p')))"

text \<open>A rejected token before any output: one refresh, and the frame goes out on the refreshed socket.\<close>

definition send_refreshed :: "'a codec_env_scheme \<Rightarrow> relay_answer \<Rightarrow> string \<Rightarrow> pump \<Rightarrow> pump" where
  "send_refreshed env an frame p =
     (if pu_auth_tried p \<or> pu_visible p then stop 502 p
      else let p' = p\<lparr>pu_auth_tried := True\<rparr> in
        if \<not> ra_refreshed an then stop 502 p'
        else if \<not> ra_budget an AtRefreshed
        then surface_attempt_budget_exhausted env an ((attach (pu_account p') an p')\<lparr>pu_in_flight := None\<rparr>)
        else if \<not> ra_send an AtRefreshed then stop 502 p'
        else count_reconnect (logged [ToUpstream (pu_account p') frame]
          ((attach (pu_account p') an p')\<lparr>pu_in_flight := Some frame\<rparr>)))"

definition send_frame :: "'a codec_env_scheme \<Rightarrow> relay_answer \<Rightarrow> string \<Rightarrow> pump \<Rightarrow> pump" where
  "send_frame env an frame p =
     (case send_client_text an frame [0, 1] False p of
        (SendFailed, p') \<Rightarrow> stop 502 p'
      | (SendUnauthorized, p') \<Rightarrow> send_refreshed env an frame p'
      | (BudgetExhausted, p') \<Rightarrow> surface_attempt_budget_exhausted env an (p'\<lparr>pu_in_flight := None\<rparr>)
      | (Sent redialed, p') \<Rightarrow>
          (let p'' = p'\<lparr>pu_in_flight := Some frame\<rparr>
           in if redialed then count_reconnect (p''\<lparr>pu_since := ra_now an\<rparr>) else p''))"

text \<open>
  \<open>on_overload_move\<close>: the failed account is benched, and a sibling that was not tried is resolved and dialed; its
  slot replaces the old one.
\<close>

definition on_overload_move :: "relay_answer \<Rightarrow> bool \<Rightarrow> account_id list \<Rightarrow> pump \<Rightarrow> account_id option \<times> pump" where
  "on_overload_move an failed tried p =
     (let p' = (if failed then logged [Benched (pu_account p)] p else p)
      in case opt_filter (\<lambda>a. a \<notin> set (pu_account p # tried)) (ra_move an) of
           None \<Rightarrow> (None, p')
         | Some a \<Rightarrow> (Some a, p'\<lparr>pu_slot := Some a\<rparr>))"

text \<open>A turn whose tier the seat does not serve moves before it is sent.\<close>

definition tier_move :: "relay_answer \<Rightarrow> ws_turn \<Rightarrow> pump \<Rightarrow> pump" where
  "tier_move an turn p =
     (if wt_model turn \<noteq> None \<and> wt_tier turn \<noteq> None \<and> ra_serves_tier an = Some False
      then (case on_overload_move an False [] p of (Some a, p') \<Rightarrow> attach a an p' | (None, p') \<Rightarrow> p')
      else p)"

definition begin_turn :: "ws_turn \<Rightarrow> pump \<Rightarrow> pump" where
  "begin_turn turn p = logged [TurnStart] (p\<lparr>pu_turn := Some turn, pu_auth_tried := False, pu_transform_tried := False,
     pu_visible := False, pu_overloads := 0, pu_replays := 0, pu_prelude := False, pu_tried := [], pu_output := False\<rparr>)"

definition rewritten :: "'a codec_env_scheme \<Rightarrow> relay_answer \<Rightarrow> string \<Rightarrow> string" where
  "rewritten env an text = (case ra_decision an of None \<Rightarrow> text
     | Some decision \<Rightarrow> unwrap_or (apply_decision env text decision) text)"

definition client_text :: "pump_env \<Rightarrow> relay_answer \<Rightarrow> string \<Rightarrow> pump \<Rightarrow> pump" where
  "client_text env an text p0 =
     (let frame = rewritten env an text; p = logged [FromClient frame] p0
      in case ra_custom an of
           CuRelayed \<Rightarrow> p
         | CuFailed \<Rightarrow> stop 502 p
         | CuNative \<Rightarrow> (case start_turn env (pe_facts env) frame of
               None \<Rightarrow> send_frame env an frame p
             | Some t \<Rightarrow>
                 let turn = (case ra_decision an of Some d \<Rightarrow> apply_priority_decision d t | None \<Rightarrow> t);
                     moved = tier_move an turn p
                 in if \<not> ra_track an
                    then (if ra_client an AtTell then logged [Told (client_resend_error_frame env)] moved else moved)
                    else send_frame env an frame (begin_turn turn moved)))"

section \<open>A frame from upstream\<close>

text \<open>
  \<open>on_upstream_error\<close>: a short rate limit is waited out on the account; otherwise it is benched, its slot given
  back, and the owner resolved again.
\<close>

definition short_rate_limit :: "failure_signal \<Rightarrow> bool" where
  "short_rate_limit sig \<longleftrightarrow> fs_status sig = 429 \<and>
     is_some_and (fs_retry_after sig) (\<lambda>n. 0 \<le> n \<and> n \<le> transient_retry_max_secs)"

definition on_upstream_error :: "relay_answer \<Rightarrow> failure_signal \<Rightarrow> pump \<Rightarrow> account_id option \<times> pump" where
  "on_upstream_error an sig p =
     (if short_rate_limit sig then (if ra_select_dial an then Some (pu_account p) else None, p)
      else let p' = logged [Benched (pu_account p)] (p\<lparr>pu_slot := None\<rparr>)
           in case ra_select an of
                None \<Rightarrow> (None, p')
              | Some a \<Rightarrow> if ra_select_dial an then (Some a, p'\<lparr>pu_slot := Some a\<rparr>) else (None, p'))"

text \<open>The last rung: the client sees the error, or one it retries, and the connection gets its account anew.\<close>

definition surface_error :: "'a codec_env_scheme \<Rightarrow> relay_answer \<Rightarrow> failure_signal \<Rightarrow> string \<Rightarrow> pump \<Rightarrow> pump" where
  "surface_error env an sig text p =
     (let frame = (if is_transient_overload sig \<and> \<not> pu_output p \<and> ra_substitute an then capacity_retry_error_frame env
        else unwrap_or (normalize_error_envelope_status env text) text)
      in if \<not> ra_client an AtSurface then quit p
         else let p1 = (finish_turn env frame (logged [Told frame] (p\<lparr>pu_visible := True\<rparr>)))\<lparr>pu_in_flight := None\<rparr>
              in case on_upstream_error an sig p1 of
                   (None, p2) \<Rightarrow> stop 503 p2
                 | (Some a, p2) \<Rightarrow> count_reconnect (attach a an p2))"

text \<open>The same account again, on a fresh socket; an anchored turn is left to the client.\<close>

definition overload_same_account ::
  "'a codec_env_scheme \<Rightarrow> relay_answer \<Rightarrow> failure_signal \<Rightarrow> string \<Rightarrow> bool \<Rightarrow> pump \<Rightarrow> pump" where
  "overload_same_account env an sig text anchored p =
     (if anchored \<and> \<not> pu_resend_pending p \<and> \<not> is_model_not_found sig
      then forge_resend env an (p\<lparr>pu_overloads := pu_overloads p + 1\<rparr>)
      else (case opt_filter (\<lambda>_. \<not> is_model_not_found sig) (pu_in_flight p) of
          None \<Rightarrow> surface_error env an sig text p
        | Some frame \<Rightarrow> (case redial_with_slot an AtRetry (p\<lparr>pu_overloads := pu_overloads p + 1\<rparr>) of
              (Connected, p') \<Rightarrow>
                if ra_send an AtRetry
                then count_reconnect (logged [Replay (pu_account p') frame] (attach (pu_account p') an p'))
                else surface_error env an sig text p'
            | (_, p') \<Rightarrow> surface_error env an sig text p')))"

definition add_tried :: "account_id \<Rightarrow> account_id list \<Rightarrow> account_id list" where
  "add_tried a tried = (if a \<in> set tried then tried else tried @ [a])"

text \<open>First a sibling account, then the same one.\<close>

definition overload_move :: "'a codec_env_scheme \<Rightarrow> relay_answer \<Rightarrow> failure_signal \<Rightarrow> string \<Rightarrow> pump \<Rightarrow> pump" where
  "overload_move env an sig text p =
     (let anchored = anchored_in_flight env p in
      case pu_in_flight p of
        None \<Rightarrow> overload_same_account env an sig text anchored p
      | Some frame \<Rightarrow>
          let p1 = p\<lparr>pu_tried := add_tried (pu_account p) (pu_tried p)\<rparr>
          in (case on_overload_move an True (pu_tried p1) p1 of
              (None, p2) \<Rightarrow> overload_same_account env an sig text anchored p2
            | (Some a, p2) \<Rightarrow>
                let p3 = p2\<lparr>pu_overloads := pu_overloads p2 + 1\<rparr>
                in if anchored then
                     (if pu_resend_pending p3 then overload_same_account env an sig text anchored (attach a an p3)
                      else forge_resend env an (attach a an p3))
                   else if ra_send an AtMove then count_reconnect (logged [Replay a frame] (attach a an p3))
                   else overload_same_account env an sig text anchored (p3\<lparr>pu_account := a, pu_upstream := None\<rparr>)))"

definition overload_ladder :: "'a codec_env_scheme \<Rightarrow> relay_answer \<Rightarrow> failure_signal \<Rightarrow> string \<Rightarrow> pump \<Rightarrow> pump" where
  "overload_ladder env an sig text p =
     (if (is_transient_overload sig \<or> is_model_not_found sig) \<and> \<not> pu_output p \<and> pu_overloads p < overload_retry_max_retries
      then overload_move env an sig text p else surface_error env an sig text p)"

text \<open>A wrapped 401 before anything was shown.\<close>

definition error_unauthorized :: "'a codec_env_scheme \<Rightarrow> relay_answer \<Rightarrow> failure_signal \<Rightarrow> string \<Rightarrow> pump \<Rightarrow> pump" where
  "error_unauthorized env an sig text p =
     (case pu_in_flight p of
        Some frame \<Rightarrow>
          if fs_status sig = 401 \<and> \<not> pu_auth_tried p \<and> \<not> pu_visible p then
            (let p' = p\<lparr>pu_auth_tried := True\<rparr> in
             if \<not> ra_refreshed an then overload_ladder env an sig text p'
             else if \<not> ra_budget an AtAuth
             then surface_attempt_budget_exhausted env an ((attach (pu_account p') an p')\<lparr>pu_in_flight := None\<rparr>)
             else if \<not> ra_send an AtAuth then stop 502 p'
             else count_reconnect (logged [Replay (pu_account p') frame] (attach (pu_account p') an p')))
          else overload_ladder env an sig text p
      | None \<Rightarrow> overload_ladder env an sig text p)"

text \<open>A history the upstream can not read: the client sends it in full, or it is rewritten once.\<close>

definition error_poisoned :: "'a codec_env_scheme \<Rightarrow> relay_answer \<Rightarrow> failure_signal \<Rightarrow> string \<Rightarrow> pump \<Rightarrow> pump" where
  "error_poisoned env an sig text p =
     (if \<not> is_some_and (fs_error_code sig) is_unresendable_history_code \<or> pu_transform_tried p \<or> pu_output p
      then error_unauthorized env an sig text p
      else if anchored_in_flight env p \<and> \<not> pu_resend_pending p then forge_resend env an p
      else let p1 = p\<lparr>pu_transform_tried := True\<rparr> in
        (case Option.bind (pu_in_flight p1) (strip_unverifiable_reasoning env) of
           None \<Rightarrow> error_unauthorized env an sig text p1
         | Some frame \<Rightarrow> (case redial_with_slot an AtTransform p1 of
               (Connected, p2) \<Rightarrow>
                 if \<not> ra_budget an AtTransform then surface_attempt_budget_exhausted env an (p2\<lparr>pu_in_flight := None\<rparr>)
                 else if ra_send an AtTransform
                 then count_reconnect (logged [Replay (pu_account p2) frame]
                   ((attach (pu_account p2) an p2)\<lparr>pu_in_flight := Some frame\<rparr>))
                 else error_unauthorized env an sig text p2
             | (_, p2) \<Rightarrow> error_unauthorized env an sig text p2)))"

text \<open>An overload is replayed once on the socket that refused; any other error retires the socket first.\<close>

definition on_error :: "'a codec_env_scheme \<Rightarrow> relay_answer \<Rightarrow> failure_signal \<Rightarrow> string \<Rightarrow> pump \<Rightarrow> pump" where
  "on_error env an sig text p =
     (case (pu_in_flight p, pu_upstream p) of
        (Some frame, Some _) \<Rightarrow>
          if is_transient_overload sig \<and> \<not> pu_output p \<and> pu_replays p < same_socket_replay_max then
            (let p1 = p\<lparr>pu_replays := pu_replays p + 1\<rparr> in
             if ra_send an AtSame then count_reconnect (logged [Replay (pu_account p1) frame] p1)
             else error_poisoned env an sig text (p1\<lparr>pu_upstream := None\<rparr>))
          else error_poisoned env an sig text (p\<lparr>pu_upstream := None\<rparr>)
      | _ \<Rightarrow> error_poisoned env an sig text (p\<lparr>pu_upstream := None\<rparr>))"

definition on_connection_limit :: "'a codec_env_scheme \<Rightarrow> relay_answer \<Rightarrow> pump \<Rightarrow> pump" where
  "on_connection_limit env an p =
     (if pu_visible p then stop 502 p
      else (case redial_or_refresh an AtCap p of
          (False, p') \<Rightarrow> stop 502 p'
        | (True, p') \<Rightarrow> replay_in_flight env an AtCap p'))"

definition on_anchor_missing :: "'a codec_env_scheme \<Rightarrow> relay_answer \<Rightarrow> string \<Rightarrow> pump \<Rightarrow> pump" where
  "on_anchor_missing env an text p =
     (if \<not> pu_resend_pending p \<and> anchored_in_flight env p then forge_resend env an p
      else if \<not> ra_client an AtTell then quit p
      else (finish_turn env text (logged [Told text] (p\<lparr>pu_visible := True\<rparr>)))\<lparr>pu_in_flight := None\<rparr>)"

text \<open>What follows the forwarding of an ordinary frame: a terminal ends the turn, a completion records its owner.\<close>

definition after_forward :: "'a codec_env_scheme \<Rightarrow> string \<Rightarrow> pump \<Rightarrow> pump" where
  "after_forward env text p =
     (let terminal = pu_turn p \<noteq> None \<and> observe_turn env text \<noteq> None;
          p1 = finish_turn env text p;
          p2 = (if terminal then p1\<lparr>pu_in_flight := None\<rparr> else p1)
      in case sniff_completed_id env text of
           None \<Rightarrow> p2
         | Some response \<Rightarrow> (logged [Owns (pu_account p2) response] p2)\<lparr>pu_reconnects := 0, pu_resend_pending := False,
             pu_in_flight := None\<rparr>)"

definition on_normal :: "'a codec_env_scheme \<Rightarrow> relay_answer \<Rightarrow> string \<Rightarrow> pump \<Rightarrow> pump" where
  "on_normal env an text p =
     (if is_prelude_frame env text \<and> pu_prelude p then p
      else let p1 = (if is_prelude_frame env text then p\<lparr>pu_prelude := True\<rparr> else p);
               frames = (case ra_rate_frames an of Some (selected, aggregate) \<Rightarrow> [selected, aggregate] | None \<Rightarrow> [text])
           in if \<not> ra_client an AtForward then quit p1
              else after_forward env text (logged [Forward text frames]
                (p1\<lparr>pu_visible := True, pu_output := pu_output p1 \<or> \<not> is_non_output_frame env text\<rparr>)))"

text \<open>A bare 400 on an anchored turn is a missed anchor.\<close>

definition relay_signal :: "'a codec_env_scheme \<Rightarrow> pump \<Rightarrow> string \<Rightarrow> upstream_signal" where
  "relay_signal env p text =
     (case classify_upstream_signal env text of
        SigError sig \<Rightarrow> if fs_status sig = 400 \<and> fs_error_code sig = None \<and> anchored_in_flight env p
          then SigAnchorMissing else SigError sig
      | other \<Rightarrow> other)"

definition upstream_text :: "'a codec_env_scheme \<Rightarrow> relay_answer \<Rightarrow> string \<Rightarrow> pump \<Rightarrow> pump" where
  "upstream_text env an text p0 =
     (case pu_upstream p0 of
        None \<Rightarrow> p0
      | Some a \<Rightarrow>
          let p = logged [FromUpstream a text] p0
          in (case relay_signal env p text of
              SigConnectionLimit \<Rightarrow> on_connection_limit env an p
            | SigError sig \<Rightarrow> on_error env an sig text p
            | SigAnchorMissing \<Rightarrow> on_anchor_missing env an text p
            | SigNormal \<Rightarrow> on_normal env an text p))"

section \<open>The end of the upstream\<close>

definition too_old :: "pump_env \<Rightarrow> relay_answer \<Rightarrow> pump \<Rightarrow> bool" where
  "too_old env an p \<longleftrightarrow> is_some_and (pe_max_age env) (\<lambda>max_age. max_age \<le> ra_now an - pu_since p)"

text \<open>
  A turn in flight is replayed on a new socket unless the client has seen something of it; between turns only the
  upstream leg is dropped. \<open>ra_idle\<close> says the parked read ran into its deadline.
\<close>

definition upstream_end :: "pump_env \<Rightarrow> relay_answer \<Rightarrow> pump \<Rightarrow> pump" where
  "upstream_end env an p =
     (if pu_upstream p = None then p
      else if \<not> turn_active p \<and> ra_idle an \<and> pe_idle_budget env = None \<and> \<not> too_old env an p then p
      else if pu_in_flight p \<noteq> None then
        (if pu_visible p then stop 502 p
         else (case redial_or_refresh an AtDrop p of
             (False, p') \<Rightarrow> stop 502 p'
           | (True, p') \<Rightarrow> replay_in_flight env an AtDrop p'))
      else if turn_active p then stop 502 (logged [ClosedClient] p)
      else p\<lparr>pu_slot := None, pu_upstream := None\<rparr>)"

section \<open>The loop\<close>

datatype pump_event = ClientText string | ClientPing | ClientIgnored | ClientGone | UpstreamText string | UpstreamEnd

definition handle :: "pump_env \<Rightarrow> relay_answer \<Rightarrow> pump_event \<Rightarrow> pump \<Rightarrow> pump" where
  "handle env an event p =
     (case event of
        ClientText text \<Rightarrow> client_text env an text p
      | ClientPing \<Rightarrow> if ra_client an AtTell then p else quit p
      | ClientIgnored \<Rightarrow> p
      | ClientGone \<Rightarrow> quit p
      | UpstreamText text \<Rightarrow> upstream_text env an text p
      | UpstreamEnd \<Rightarrow> upstream_end env an p)"

definition pump_pass :: "pump_env \<Rightarrow> relay_answer \<times> pump_event \<Rightarrow> pump \<Rightarrow> pump" where
  "pump_pass env input p =
     (case input of (an, event) \<Rightarrow>
        if \<not> pu_open p then p
        else if \<not> turn_active p \<and> pu_upstream p \<noteq> None \<and> ra_gated an then quit (logged [ClosedClient] p)
        else handle env an event p)"

definition run_pump :: "pump_env \<Rightarrow> account_id \<Rightarrow> nat \<Rightarrow> (relay_answer \<times> pump_event) list \<Rightarrow> pump" where
  "run_pump env account now inputs = fold (pump_pass env) inputs (run_pump_start account now)"

text \<open>What the teardown writes for a turn still open: a lost transport unless the client left.\<close>

definition teardown :: "pump \<Rightarrow> pump" where
  "teardown p = (case pu_turn p of None \<Rightarrow> p
     | Some _ \<Rightarrow> (if pu_status p = 499 then p else logged [Benched (pu_account p)] p)\<lparr>pu_turn := None\<rparr>)"

end
