(* ===== verification/Relay_Props.thy ===== *)
theory Relay_Props
  imports Relay_Pump
begin

text \<open>
  What a relayed conversation can rely on: no turn is sent again once its output was shown, at most six replays go
  by without a completed response, what is sent upstream is what the client said, and a response is owned by the
  account that gave it.
\<close>

section \<open>Reading the log\<close>

definition output_shown :: "'a codec_env_scheme \<Rightarrow> relay_event list \<Rightarrow> bool" where
  "output_shown env hist = fold (\<lambda>e shown. case e of TurnStart \<Rightarrow> False
     | Forward text _ \<Rightarrow> shown \<or> \<not> is_non_output_frame env text | _ \<Rightarrow> shown) hist False"

definition replays_since_completion :: "relay_event list \<Rightarrow> nat" where
  "replays_since_completion hist = fold (\<lambda>e n. case e of Owns _ _ \<Rightarrow> 0 | Replay _ _ \<Rightarrow> n + 1 | _ \<Rightarrow> n) hist 0"

definition last_read :: "relay_event list \<Rightarrow> (account_id \<times> string) option" where
  "last_read hist = fold (\<lambda>e r. case e of FromUpstream a text \<Rightarrow> Some (a, text) | _ \<Rightarrow> r) hist None"

definition said_by_client :: "'a codec_env_scheme \<Rightarrow> relay_event list \<Rightarrow> string \<Rightarrow> bool" where
  "said_by_client env hist frame \<longleftrightarrow>
     (\<exists>c. FromClient c \<in> set hist \<and> (frame = c \<or> strip_unverifiable_reasoning env c = Some frame))"

lemma log_snoc [simp]:
  "output_shown env (hist @ [e]) = (case e of TurnStart \<Rightarrow> False
     | Forward text _ \<Rightarrow> output_shown env hist \<or> \<not> is_non_output_frame env text | _ \<Rightarrow> output_shown env hist)"
  "replays_since_completion (hist @ [e]) = (case e of Owns _ _ \<Rightarrow> 0
     | Replay _ _ \<Rightarrow> replays_since_completion hist + 1 | _ \<Rightarrow> replays_since_completion hist)"
  "last_read (hist @ [e]) = (case e of FromUpstream a text \<Rightarrow> Some (a, text) | _ \<Rightarrow> last_read hist)"
  by (cases e; simp add: output_shown_def replays_since_completion_def last_read_def)+

lemma said_mono: "said_by_client env hist frame \<Longrightarrow> said_by_client env (hist @ evs) frame"
  by (auto simp: said_by_client_def)

fun event_ok :: "'a codec_env_scheme \<Rightarrow> relay_event list \<Rightarrow> relay_event \<Rightarrow> bool" where
  "event_ok env hist (Replay a frame) \<longleftrightarrow>
     \<not> output_shown env hist \<and> said_by_client env hist frame \<and> replays_since_completion hist \<le> 5"
| "event_ok env hist (ToUpstream a frame) \<longleftrightarrow> said_by_client env hist frame"
| "event_ok env hist (Owns a response) \<longleftrightarrow>
     (\<exists>text. last_read hist = Some (a, text) \<and> sniff_completed_id env text = Some response)"
| "event_ok env hist _ = True"

definition events_ok :: "'a codec_env_scheme \<Rightarrow> relay_event list \<Rightarrow> bool" where
  "events_ok env hist \<longleftrightarrow> (\<forall>before e after. hist = before @ e # after \<longrightarrow> event_ok env before e)"

lemma events_ok_Nil [simp]: "events_ok env []"
  by (simp add: events_ok_def)

lemma events_ok_snoc [simp]: "events_ok env (hist @ [e]) \<longleftrightarrow> events_ok env hist \<and> event_ok env hist e"
proof -
  have split: "(hist @ [e] = before @ x # after) \<longleftrightarrow>
      (\<exists>rest. after = rest @ [e] \<and> hist = before @ x # rest) \<or> after = [] \<and> before = hist \<and> x = e" for before x after
    by (cases after rule: rev_cases) auto
  show ?thesis unfolding events_ok_def split by blast
qed

section \<open>The invariant\<close>

definition base_ok :: "'a codec_env_scheme \<Rightarrow> pump \<Rightarrow> bool" where
  "base_ok env p \<longleftrightarrow> events_ok env (pu_log p) \<and> pu_output p = output_shown env (pu_log p) \<and>
     (pu_output p \<longrightarrow> pu_visible p) \<and> (pu_upstream p = None \<or> pu_upstream p = Some (pu_account p)) \<and>
     replays_since_completion (pu_log p) \<le> pu_reconnects p \<and> pu_reconnects p \<le> 6 \<and>
     (pu_open p \<longrightarrow> pu_reconnects p \<le> 5)"

definition flight_ok :: "'a codec_env_scheme \<Rightarrow> pump \<Rightarrow> bool" where
  "flight_ok env p \<longleftrightarrow> (\<forall>frame. pu_in_flight p = Some frame \<longrightarrow> said_by_client env (pu_log p) frame \<and>
     (pu_transform_tried p \<or> FromClient frame \<in> set (pu_log p)))"

definition pump_ok :: "'a codec_env_scheme \<Rightarrow> pump \<Rightarrow> bool" where
  "pump_ok env p \<longleftrightarrow> base_ok env p \<and> (pu_open p \<longrightarrow> flight_ok env p)"

definition live :: "'a codec_env_scheme \<Rightarrow> pump \<Rightarrow> bool" where
  "live env p \<longleftrightarrow> base_ok env p \<and> pu_open p \<and> flight_ok env p"

lemma live_ok: "live env p \<Longrightarrow> pump_ok env p"
  by (simp add: live_def pump_ok_def)

lemma live_frame [simp]:
  "live env (p\<lparr>pu_since := x1\<rparr>) = live env p" "live env (p\<lparr>pu_slot := x2\<rparr>) = live env p"
  "live env (p\<lparr>pu_turn := x3\<rparr>) = live env p" "live env (p\<lparr>pu_resend_pending := x4\<rparr>) = live env p"
  "live env (p\<lparr>pu_auth_tried := x5\<rparr>) = live env p" "live env (p\<lparr>pu_prelude := x6\<rparr>) = live env p"
  "live env (p\<lparr>pu_overloads := x7\<rparr>) = live env p" "live env (p\<lparr>pu_replays := x8\<rparr>) = live env p"
  "live env (p\<lparr>pu_tried := x9\<rparr>) = live env p"
  by (simp_all add: live_def base_ok_def flight_ok_def)

lemma base_frame [simp]:
  "base_ok env (p\<lparr>pu_since := x1\<rparr>) = base_ok env p" "base_ok env (p\<lparr>pu_slot := x2\<rparr>) = base_ok env p"
  "base_ok env (p\<lparr>pu_turn := x3\<rparr>) = base_ok env p" "base_ok env (p\<lparr>pu_resend_pending := x4\<rparr>) = base_ok env p"
  "base_ok env (p\<lparr>pu_auth_tried := x5\<rparr>) = base_ok env p" "base_ok env (p\<lparr>pu_prelude := x6\<rparr>) = base_ok env p"
  "base_ok env (p\<lparr>pu_overloads := x7\<rparr>) = base_ok env p" "base_ok env (p\<lparr>pu_replays := x8\<rparr>) = base_ok env p"
  "base_ok env (p\<lparr>pu_tried := x9\<rparr>) = base_ok env p" "base_ok env (p\<lparr>pu_in_flight := x10\<rparr>) = base_ok env p"
  "base_ok env (p\<lparr>pu_status := x11\<rparr>) = base_ok env p" "base_ok env (p\<lparr>pu_transform_tried := x12\<rparr>) = base_ok env p"
  by (simp_all add: base_ok_def)

lemma ok_frame [simp]:
  "pump_ok env (p\<lparr>pu_turn := x3\<rparr>) = pump_ok env p" "pump_ok env (p\<lparr>pu_resend_pending := x4\<rparr>) = pump_ok env p"
  by (simp_all add: pump_ok_def base_ok_def flight_ok_def)

text \<open>Updates that are always allowed.\<close>

lemma base_closed: "base_ok env p \<Longrightarrow> pump_ok env (quit p)" "base_ok env p \<Longrightarrow> pump_ok env (stop st p)"
  by (simp_all add: pump_ok_def base_ok_def)

lemma live_base: "live env p \<Longrightarrow> base_ok env p"
  by (simp add: live_def)

lemma live_closed: "live env p \<Longrightarrow> pump_ok env (quit p)" "live env p \<Longrightarrow> pump_ok env (stop st p)"
  by (simp_all add: base_closed live_base)

lemma live_updates [simp, intro]:
  "live env p \<Longrightarrow> live env (p\<lparr>pu_visible := True\<rparr>)"
  "live env p \<Longrightarrow> live env (p\<lparr>pu_in_flight := None\<rparr>)"
  "live env p \<Longrightarrow> live env (p\<lparr>pu_upstream := None\<rparr>)"
  "live env p \<Longrightarrow> live env (p\<lparr>pu_account := a, pu_upstream := None\<rparr>)"
  "live env p \<Longrightarrow> live env (p\<lparr>pu_transform_tried := True\<rparr>)"
  "live env p \<Longrightarrow> live env (attach a an p)"
  by (auto simp: live_def base_ok_def flight_ok_def attach_def)

lemma base_updates [simp, intro]:
  "base_ok env p \<Longrightarrow> base_ok env (p\<lparr>pu_upstream := None\<rparr>)"
  "base_ok env p \<Longrightarrow> base_ok env (p\<lparr>pu_upstream := Some (pu_account p)\<rparr>)"
  "base_ok env p \<Longrightarrow> base_ok env (attach a an p)"
  by (auto simp: base_ok_def attach_def)

text \<open>Events that say nothing about replays and owners.\<close>

fun quiet :: "relay_event \<Rightarrow> bool" where
  "quiet TurnStart = False"
| "quiet (ToUpstream _ _) = False"
| "quiet (Replay _ _) = False"
| "quiet (Forward _ _) = False"
| "quiet (Owns _ _) = False"
| "quiet _ = True"

lemma quiet_relay_log:
  assumes "quiet e"
  shows "base_ok env p \<Longrightarrow> base_ok env (logged [e] p)" "live env p \<Longrightarrow> live env (logged [e] p)"
proof -
  have ev: "event_ok env hist e" "output_shown env (hist @ [e]) = output_shown env hist"
    "replays_since_completion (hist @ [e]) = replays_since_completion hist" for hist
    using assms by (cases e; simp)+
  show "base_ok env p \<Longrightarrow> base_ok env (logged [e] p)" by (simp add: base_ok_def logged_def ev del: log_snoc)
  then show "live env p \<Longrightarrow> live env (logged [e] p)"
    by (auto simp: live_def flight_ok_def logged_def intro: said_mono)
qed

lemma live_logged [simp, intro]:
  "live env p \<Longrightarrow> live env (logged [Told frame] p)" "live env p \<Longrightarrow> live env (logged [Benched a] p)"
  "live env p \<Longrightarrow> live env (logged [TurnEnd a outcome] p)" "live env p \<Longrightarrow> live env (logged [ClosedClient] p)"
  "live env p \<Longrightarrow> live env (logged [FromClient frame] p)" "live env p \<Longrightarrow> live env (logged [FromUpstream a frame] p)"
  by (rule quiet_relay_log(2); simp)+

lemma live_finish [simp, intro]: "live env p \<Longrightarrow> live env (finish_turn env frame p)"
  by (auto simp: finish_turn_def split: option.splits)

lemma base_finish [simp, intro]: "base_ok env p \<Longrightarrow> base_ok env (finish_turn env frame p)"
  by (auto simp: finish_turn_def intro!: quiet_relay_log(1) split: option.splits)

lemma live_count: "live env p \<Longrightarrow> pump_ok env (count_reconnect p)"
  by (auto simp: count_reconnect_def pump_ok_def live_def base_ok_def flight_ok_def max_reconnects_without_progress_def Let_def)

text \<open>A replay of the frame in flight, or of its rewriting.\<close>

lemma live_replay:
  assumes "live env p" "\<not> pu_output p" "said_by_client env (pu_log p) frame"
  shows "pump_ok env (count_reconnect (logged [Replay a frame] p))"
proof -
  have "flight_ok env (logged [Replay a frame] p)" using assms(1) by (auto simp: live_def flight_ok_def logged_def intro: said_mono)
  with assms show ?thesis
    by (auto simp: count_reconnect_def pump_ok_def live_def base_ok_def flight_ok_def logged_def
        max_reconnects_without_progress_def Let_def)
qed

lemma live_said: "live env p \<Longrightarrow> pu_in_flight p = Some frame \<Longrightarrow> said_by_client env (pu_log p) frame"
  by (simp add: live_def flight_ok_def)

lemma live_sent:
  assumes "base_ok env p" "pu_open p" "FromClient frame \<in> set (pu_log p)"
  shows "live env ((logged [ToUpstream a frame] p)\<lparr>pu_in_flight := Some frame\<rparr>)"
  using assms by (auto simp: live_def base_ok_def flight_ok_def logged_def said_by_client_def)

section \<open>Every arm of the loop keeps it\<close>

lemma attach_fields [simp]:
  "pu_in_flight (attach a an p) = pu_in_flight p" "pu_log (attach a an p) = pu_log p" "pu_open (attach a an p) = pu_open p"
  "pu_output (attach a an p) = pu_output p" "pu_visible (attach a an p) = pu_visible p"
  "pu_transform_tried (attach a an p) = pu_transform_tried p" "pu_account (attach a an p) = a"
  "pu_resend_pending (attach a an p) = pu_resend_pending p" "pu_turn (attach a an p) = pu_turn p"
  by (simp_all add: attach_def)

lemma logged_fields [simp]:
  "pu_in_flight (logged evs p) = pu_in_flight p" "pu_log (logged evs p) = pu_log p @ evs" "pu_open (logged evs p) = pu_open p"
  "pu_output (logged evs p) = pu_output p" "pu_visible (logged evs p) = pu_visible p"
  "pu_transform_tried (logged evs p) = pu_transform_tried p" "pu_account (logged evs p) = pu_account p"
  "pu_resend_pending (logged evs p) = pu_resend_pending p" "pu_upstream (logged evs p) = pu_upstream p"
  "pu_turn (logged evs p) = pu_turn p"
  by (simp_all add: logged_def)

lemma surface_budget_ok: "live env p \<Longrightarrow> pump_ok env (surface_attempt_budget_exhausted env an p)"
  by (auto simp: surface_attempt_budget_exhausted_def Let_def live_closed intro!: live_ok)

lemma forge_resend_ok: "live env p \<Longrightarrow> pump_ok env (forge_resend env an p)"
  by (auto simp: forge_resend_def Let_def live_closed intro!: live_ok)

lemma redial_frame:
  "redial_with_slot an st p = (res, p') \<Longrightarrow> \<exists>slot. p' = p\<lparr>pu_slot := slot\<rparr>"
  by (auto simp: redial_with_slot_def split: if_splits intro: exI [of _ "pu_slot p"])

lemma redial_refresh_frame:
  "redial_or_refresh an st p = (res, p') \<Longrightarrow> live env p \<Longrightarrow>
   live env p' \<and> pu_in_flight p' = pu_in_flight p \<and> pu_output p' = pu_output p \<and> pu_log p' = pu_log p"
  by (auto simp: redial_or_refresh_def dest!: redial_frame split: prod.splits redial_outcome.splits if_splits)

lemma replay_in_flight_ok:
  "live env p \<Longrightarrow> \<not> pu_output p \<Longrightarrow> pump_ok env (replay_in_flight env an st p)"
  by (auto simp: replay_in_flight_def live_count live_closed intro!: surface_budget_ok live_replay live_said split: option.splits)

lemma overload_move_frame:
  "on_overload_move an failed tried p = (res, p') \<Longrightarrow> live env p \<Longrightarrow>
   live env p' \<and> pu_in_flight p' = pu_in_flight p \<and> pu_output p' = pu_output p"
  by (auto simp: on_overload_move_def Let_def split: option.splits if_splits)

lemma upstream_error_frame: "on_upstream_error an sig p = (res, p') \<Longrightarrow> live env p \<Longrightarrow> live env p'"
  by (auto simp: on_upstream_error_def Let_def split: option.splits if_splits)

lemma surface_error_ok:
  assumes "live env p"
  shows "pump_ok env (surface_error env an sig text p)"
proof -
  have *: "pump_ok env (case on_upstream_error an sig q of (None, p2) \<Rightarrow> stop 503 p2
      | (Some a, p2) \<Rightarrow> count_reconnect (attach a an p2))" if q: "live env q" for q
  proof -
    obtain res p2 where r: "on_upstream_error an sig q = (res, p2)" by fastforce
    from upstream_error_frame [OF r q] have "live env p2" .
    then show ?thesis unfolding r by (cases res) (simp_all add: live_closed live_count live_updates)
  qed
  have "live env ((finish_turn env frame (logged [Told frame] (p\<lparr>pu_visible := True\<rparr>)))\<lparr>pu_in_flight := None\<rparr>)" for frame
    using assms by auto
  from * [OF this] assms show ?thesis
    unfolding surface_error_def Let_def by (auto simp: live_closed)
qed

lemma same_account_ok:
  assumes "live env p" "\<not> pu_output p"
  shows "pump_ok env (overload_same_account env an sig text anchored p)"
proof -
  have "pump_ok env (case redial_with_slot an AtRetry (p\<lparr>pu_overloads := pu_overloads p + 1\<rparr>) of
      (Connected, p') \<Rightarrow> if ra_send an AtRetry
        then count_reconnect (logged [Replay (pu_account p') frame] (attach (pu_account p') an p'))
        else surface_error env an sig text p'
    | (_, p') \<Rightarrow> surface_error env an sig text p')" if "pu_in_flight p = Some frame" for frame
    using assms live_said [OF assms(1) that]
    by (auto dest!: redial_frame intro!: live_replay surface_error_ok split: prod.splits redial_outcome.splits)
  then show ?thesis using assms
    by (auto simp: overload_same_account_def opt_filter_Some intro!: forge_resend_ok surface_error_ok split: option.splits)
qed

lemma overload_move_ok:
  assumes "live env p" "\<not> pu_output p"
  shows "pump_ok env (overload_move env an sig text p)"
proof (cases "pu_in_flight p")
  case None
  then show ?thesis using assms by (simp add: overload_move_def same_account_ok)
next
  case (Some frame)
  let ?p1 = "p\<lparr>pu_tried := add_tried (pu_account p) (pu_tried p)\<rparr>"
  obtain res p2 where m: "on_overload_move an True (pu_tried ?p1) ?p1 = (res, p2)" by fastforce
  from overload_move_frame [OF m] assms Some have p2: "live env p2" "pu_in_flight p2 = Some frame" "\<not> pu_output p2" by auto
  show ?thesis
    using m p2 live_said [OF p2(1,2)] Some
    by (auto simp: overload_move_def Let_def intro!: same_account_ok forge_resend_ok live_replay split: option.splits)
qed

lemma ladder_ok: "live env p \<Longrightarrow> pump_ok env (overload_ladder env an sig text p)"
  by (auto simp: overload_ladder_def intro: overload_move_ok surface_error_ok)

lemma live_visible: "live env p \<Longrightarrow> \<not> pu_visible p \<Longrightarrow> \<not> pu_output p"
  by (auto simp: live_def base_ok_def)

lemma unauthorized_ok: "live env p \<Longrightarrow> pump_ok env (error_unauthorized env an sig text p)"
  using live_said [of env p]
  by (auto simp: error_unauthorized_def Let_def live_closed dest: live_visible
      intro!: ladder_ok surface_budget_ok live_replay split: option.splits)

lemma live_transformed:
  assumes "live env p" "FromClient old \<in> set (pu_log p)" "strip_unverifiable_reasoning env old = Some frame" "pu_transform_tried p"
  shows "live env (p\<lparr>pu_in_flight := Some frame\<rparr>)" "said_by_client env (pu_log p) frame"
  using assms by (auto simp: live_def flight_ok_def said_by_client_def)

lemma poisoned_ok:
  assumes "live env p"
  shows "pump_ok env (error_poisoned env an sig text p)"
proof (cases "\<not> is_some_and (fs_error_code sig) is_unresendable_history_code \<or> pu_transform_tried p \<or> pu_output p")
  case True
  then show ?thesis using assms by (simp add: error_poisoned_def unauthorized_ok)
next
  case False
  let ?p1 = "p\<lparr>pu_transform_tried := True\<rparr>"
  have l1: "live env ?p1" using assms by auto
  have "pump_ok env (case redial_with_slot an AtTransform ?p1 of
       (Connected, p2) \<Rightarrow>
         if \<not> ra_budget an AtTransform then surface_attempt_budget_exhausted env an (p2\<lparr>pu_in_flight := None\<rparr>)
         else if ra_send an AtTransform
         then count_reconnect (logged [Replay (pu_account p2) frame] ((attach (pu_account p2) an p2)\<lparr>pu_in_flight := Some frame\<rparr>))
         else error_unauthorized env an sig text p2
     | (_, p2) \<Rightarrow> error_unauthorized env an sig text p2)"
    if f: "pu_in_flight p = Some old" "strip_unverifiable_reasoning env old = Some frame" for old frame
  proof -
    obtain res slot where d: "redial_with_slot an AtTransform ?p1 = (res, ?p1\<lparr>pu_slot := slot\<rparr>)"
      using redial_frame [of an AtTransform ?p1] by (cases "redial_with_slot an AtTransform ?p1") blast
    let ?p2 = "?p1\<lparr>pu_slot := slot\<rparr>"
    have l2: "live env ?p2" using l1 by simp
    have c: "FromClient old \<in> set (pu_log ?p2)" using assms False f(1) by (simp add: live_def flight_ok_def)
    have "live env ((attach (pu_account ?p2) an ?p2)\<lparr>pu_in_flight := Some frame\<rparr>)" "said_by_client env (pu_log ?p2) frame"
      using live_transformed [of env "attach (pu_account ?p2) an ?p2" old frame] l2 c f(2) by auto
    then have "pump_ok env (count_reconnect (logged [Replay (pu_account ?p2) frame]
        ((attach (pu_account ?p2) an ?p2)\<lparr>pu_in_flight := Some frame\<rparr>)))"
      using False by (intro live_replay) auto
    moreover have "pump_ok env (surface_attempt_budget_exhausted env an (?p2\<lparr>pu_in_flight := None\<rparr>))"
      using l2 by (intro surface_budget_ok) blast
    ultimately show ?thesis unfolding d using unauthorized_ok [OF l2] by (auto split: redial_outcome.splits)
  qed
  then show ?thesis using False assms l1 unauthorized_ok [OF l1]
    by (auto simp: error_poisoned_def Let_def bind_eq_Some_conv intro: forge_resend_ok split: option.splits)
qed

lemma on_error_ok:
  assumes "live env p"
  shows "pump_ok env (on_error env an sig text p)"
proof -
  have up: "pump_ok env (error_poisoned env an sig text (q\<lparr>pu_upstream := None\<rparr>))" if "live env q" for q
    using that by (intro poisoned_ok) blast
  have "pump_ok env (count_reconnect (logged [Replay (pu_account p) frame] (p\<lparr>pu_replays := n\<rparr>)))"
    if "pu_in_flight p = Some frame" "\<not> pu_output p" for frame n
    using assms that live_said [OF assms that(1)] by (intro live_replay) auto
  with up [OF assms] up [of "p\<lparr>pu_replays := pu_replays p + 1\<rparr>"] assms show ?thesis
    by (auto simp: on_error_def Let_def split: option.splits)
qed

lemma connection_limit_ok:
  assumes "live env p"
  shows "pump_ok env (on_connection_limit env an p)"
proof (cases "pu_visible p")
  case True
  with assms show ?thesis by (simp add: on_connection_limit_def live_closed)
next
  case False
  obtain res p' where r: "redial_or_refresh an AtCap p = (res, p')" by fastforce
  from redial_refresh_frame [OF r assms] live_visible [OF assms False] have "live env p'" "\<not> pu_output p'" by auto
  with False r show ?thesis by (cases res) (simp_all add: on_connection_limit_def live_closed replay_in_flight_ok)
qed

lemma anchor_missing_ok: "live env p \<Longrightarrow> pump_ok env (on_anchor_missing env an text p)"
  by (simp add: on_anchor_missing_def live_closed forge_resend_ok live_ok live_updates live_logged live_finish)

lemma live_forward:
  "live env p \<Longrightarrow> live env (logged [Forward text frames]
     (p\<lparr>pu_visible := True, pu_output := pu_output p \<or> \<not> is_non_output_frame env text\<rparr>))"
  by (auto simp: live_def base_ok_def flight_ok_def logged_def intro: said_mono)

lemma live_owns:
  assumes "live env p" "last_read (pu_log p) = Some (pu_account p, text)" "sniff_completed_id env text = Some response"
  shows "live env ((logged [Owns (pu_account p) response] p)\<lparr>pu_reconnects := 0, pu_resend_pending := False, pu_in_flight := None\<rparr>)"
  using assms by (auto simp: live_def base_ok_def flight_ok_def logged_def)

lemma finish_fields [simp]:
  "pu_account (finish_turn env frame p) = pu_account p" "last_read (pu_log (finish_turn env frame p)) = last_read (pu_log p)"
  by (auto simp: finish_turn_def split: option.splits)

lemma after_forward_ok:
  assumes "live env p" "last_read (pu_log p) = Some (pu_account p, text)"
  shows "live env (after_forward env text p)"
proof -
  let ?p1 = "finish_turn env text p"
  define p2 where "p2 = (if pu_turn p \<noteq> None \<and> observe_turn env text \<noteq> None then ?p1\<lparr>pu_in_flight := None\<rparr> else ?p1)"
  have "live env p2" "last_read (pu_log p2) = Some (pu_account p2, text)" using assms by (auto simp: p2_def)
  then show ?thesis using live_owns [of env p2]
    unfolding after_forward_def Let_def p2_def [symmetric] by (simp split: option.split)
qed

lemma normal_ok:
  assumes "live env p" "last_read (pu_log p) = Some (pu_account p, text)"
  shows "pump_ok env (on_normal env an text p)"
proof (cases "is_prelude_frame env text \<and> pu_prelude p")
  case True
  with assms show ?thesis by (simp add: on_normal_def live_ok)
next
  case False
  define p1 where "p1 = (if is_prelude_frame env text then p\<lparr>pu_prelude := True\<rparr> else p)"
  have p1: "live env p1" "last_read (pu_log p1) = Some (pu_account p1, text)" using assms by (auto simp: p1_def)
  have "live env (after_forward env text (logged [Forward text frames]
      (p1\<lparr>pu_visible := True, pu_output := pu_output p1 \<or> \<not> is_non_output_frame env text\<rparr>)))" for frames
    using after_forward_ok [OF live_forward [OF p1(1)]] p1(2) by simp
  with p1(1) False show ?thesis
    unfolding on_normal_def Let_def if_not_P [OF False] p1_def [symmetric] by (simp add: live_closed live_ok)
qed

lemma upstream_text_ok:
  assumes "live env p"
  shows "pump_ok env (upstream_text env an text p)"
proof (cases "pu_upstream p")
  case None
  with assms show ?thesis by (simp add: upstream_text_def live_ok)
next
  case (Some a)
  let ?p = "logged [FromUpstream a text] p"
  have "a = pu_account p" using assms Some by (auto simp: live_def base_ok_def)
  then have "live env ?p" "last_read (pu_log ?p) = Some (pu_account ?p, text)" using assms by auto
  with Some show ?thesis
    by (auto simp: upstream_text_def Let_def intro: connection_limit_ok on_error_ok anchor_missing_ok normal_ok
        split: upstream_signal.split)
qed

lemma upstream_end_ok:
  assumes "live env p"
  shows "pump_ok env (upstream_end env an p)"
proof -
  have "pump_ok env (case redial_or_refresh an AtDrop p of
       (False, p') \<Rightarrow> stop 502 p' | (True, p') \<Rightarrow> replay_in_flight env an AtDrop p')" if v: "\<not> pu_visible p"
  proof -
    obtain res p' where r: "redial_or_refresh an AtDrop p = (res, p')" by fastforce
    from redial_refresh_frame [OF r assms] live_visible [OF assms v] have "live env p'" "\<not> pu_output p'" by auto
    with r show ?thesis by (cases res) (simp_all add: live_closed replay_in_flight_ok)
  qed
  moreover have "pump_ok env (p\<lparr>pu_slot := None, pu_upstream := None\<rparr>)"
    using live_updates(3) [of env "p\<lparr>pu_slot := None\<rparr>"] assms by (simp add: live_ok)
  ultimately show ?thesis using assms
    by (auto simp: upstream_end_def live_closed live_ok)
qed

section \<open>A client frame keeps it\<close>

text \<open>Between the start of a turn and its sending the frame in flight is the previous turn's.\<close>

definition to_send :: "'a codec_env_scheme \<Rightarrow> string \<Rightarrow> pump \<Rightarrow> bool" where
  "to_send env frame p \<longleftrightarrow> base_ok env p \<and> pu_open p \<and> FromClient frame \<in> set (pu_log p)"

lemma to_send_updates [simp, intro]:
  "to_send env frame p \<Longrightarrow> to_send env frame (p\<lparr>pu_upstream := None\<rparr>)"
  "to_send env frame p \<Longrightarrow> to_send env frame (p\<lparr>pu_upstream := Some (pu_account p)\<rparr>)"
  "to_send env frame p \<Longrightarrow> to_send env frame (p\<lparr>pu_slot := slot\<rparr>)"
  "to_send env frame p \<Longrightarrow> to_send env frame (p\<lparr>pu_slot := slot, pu_upstream := Some (pu_account p)\<rparr>)"
  "to_send env frame p \<Longrightarrow> to_send env frame (p\<lparr>pu_auth_tried := b\<rparr>)"
  "to_send env frame p \<Longrightarrow> to_send env frame (p\<lparr>pu_in_flight := b'\<rparr>)"
  "to_send env frame p \<Longrightarrow> to_send env frame (attach a an p)"
  by (auto simp: to_send_def base_ok_def attach_def)

lemma to_send_closed: "to_send env frame p \<Longrightarrow> pump_ok env (quit p)" "to_send env frame p \<Longrightarrow> pump_ok env (stop st p)"
  by (simp_all add: to_send_def base_closed)

lemma to_send_none: "to_send env frame p \<Longrightarrow> live env (p\<lparr>pu_in_flight := None\<rparr>)"
  by (simp add: to_send_def live_def flight_ok_def)

lemma to_send_sent:
  "to_send env frame p \<Longrightarrow> live env ((logged [ToUpstream a frame] p)\<lparr>pu_in_flight := Some frame\<rparr>)"
  by (simp add: to_send_def live_sent)

lemma send_client_text_ok:
  "send_client_text an frame ns redialed p = (res, p') \<Longrightarrow> to_send env frame p \<Longrightarrow>
   to_send env frame p' \<or> (\<exists>r. res = Sent r) \<and> live env (p'\<lparr>pu_in_flight := Some frame\<rparr>)"
proof (induction an frame ns redialed p rule: send_client_text.induct)
  case (1 an frame redialed p)
  then show ?case by auto
next
  case (2 an frame n ns redialed p)
  show ?case
  proof (cases "pu_upstream p = None")
    case False
    then show ?thesis using 2 by (auto simp: to_send_sent split: if_splits)
  next
    case True
    obtain d slot where d: "redial_with_slot an (AtLazy n) p = (d, p\<lparr>pu_slot := slot\<rparr>)"
      using redial_frame [of an "AtLazy n" p] by (cases "redial_with_slot an (AtLazy n) p") blast
    show ?thesis using 2 True d by (cases d) (auto simp: to_send_sent split: if_splits)
  qed
qed

lemma send_refreshed_ok:
  assumes "to_send env frame p"
  shows "pump_ok env (send_refreshed env an frame p)"
proof -
  let ?q = "attach (pu_account p) an (p\<lparr>pu_auth_tried := True\<rparr>)"
  have q: "to_send env frame ?q" using assms by blast
  from to_send_sent [OF q] have "live env (logged [ToUpstream (pu_account p) frame] (?q\<lparr>pu_in_flight := Some frame\<rparr>))"
    by (cases ?q) (simp add: logged_def)
  from live_count [OF this] surface_budget_ok [OF to_send_none [OF q]]
    to_send_closed(2) [OF assms] to_send_closed(2) [OF to_send_updates(5) [OF assms]]
  show ?thesis by (simp add: send_refreshed_def Let_def)
qed

lemma send_frame_ok:
  assumes "to_send env frame p"
  shows "pump_ok env (send_frame env an frame p)"
proof -
  obtain res p' where s: "send_client_text an frame [0, 1] False p = (res, p')" by fastforce
  from send_client_text_ok [OF s assms] consider "to_send env frame p'" "\<not> (\<exists>r. res = Sent r)"
    | r where "res = Sent r" "to_send env frame p' \<or> live env (p'\<lparr>pu_in_flight := Some frame\<rparr>)" by blast
  then show ?thesis
  proof cases
    case 1
    then show ?thesis using s surface_budget_ok [OF to_send_none [OF 1(1)]] to_send_closed(2) [OF 1(1)]
      by (cases res) (simp_all add: send_frame_def send_refreshed_ok del: send_client_text.simps)
  next
    case 2
    have "live env (p'\<lparr>pu_in_flight := Some frame\<rparr>)"
      using 2(2) by (auto simp: to_send_def live_def flight_ok_def said_by_client_def)
    then show ?thesis using 2(1) s live_count [of env "p'\<lparr>pu_in_flight := Some frame, pu_since := ra_now an\<rparr>"]
      live_frame(1) [of env "ra_now an" "p'\<lparr>pu_in_flight := Some frame\<rparr>"]
      by (simp add: send_frame_def Let_def live_ok del: send_client_text.simps)
  qed
qed

lemma tier_move_frame:
  assumes "live env p" "frame \<in> set (pu_log p)"
  shows "live env (tier_move an turn p) \<and> frame \<in> set (pu_log (tier_move an turn p))"
proof -
  obtain res p' where m: "on_overload_move an False [] p = (res, p')" by fastforce
  then have "live env p'" "frame \<in> set (pu_log p')"
    using assms by (auto simp: on_overload_move_def Let_def split: option.splits)
  then show ?thesis using assms m by (auto simp: tier_move_def split: option.split)
qed

lemma begin_turn_ok:
  "live env p \<Longrightarrow> FromClient frame \<in> set (pu_log p) \<Longrightarrow> to_send env frame (begin_turn turn p)"
  by (auto simp: to_send_def begin_turn_def live_def base_ok_def logged_def)

lemma client_text_ok:
  assumes "live env p"
  shows "pump_ok env (client_text env an text p)"
proof -
  define frame where "frame = rewritten env an text"
  define q where "q = logged [FromClient frame] p"
  have q: "live env q" "FromClient frame \<in> set (pu_log q)" using assms by (auto simp: q_def)
  have m: "live env (tier_move an turn q)" "FromClient frame \<in> set (pu_log (tier_move an turn q))" for turn
    using tier_move_frame [OF q] by auto
  have "to_send env frame q" using q by (simp add: to_send_def live_def)
  then have "pump_ok env (send_frame env an frame q)" by (rule send_frame_ok)
  moreover have "pump_ok env (send_frame env an frame (begin_turn turn (tier_move an turn q)))" for turn
    by (rule send_frame_ok [OF begin_turn_ok [OF m]])
  ultimately show ?thesis using q m
    unfolding client_text_def Let_def frame_def [symmetric] q_def [symmetric]
    by (simp add: live_closed live_ok live_logged split: custom_disposition.split option.split)
qed

section \<open>Every relayed conversation\<close>

lemma pump_pass_ok:
  assumes "pump_ok env p"
  shows "pump_ok env (pump_pass env input p)"
proof (cases "pu_open p")
  case False
  with assms show ?thesis by (simp add: pump_pass_def split: prod.split)
next
  case True
  with assms have l: "live env p" by (simp add: pump_ok_def live_def)
  obtain an event where i: "input = (an, event)" by fastforce
  have "pump_ok env (handle env an event p)"
    using l by (simp add: handle_def client_text_ok upstream_text_ok upstream_end_ok live_ok live_closed split: pump_event.split)
  then show ?thesis using l True i
    by (auto simp: pump_pass_def intro!: live_closed live_logged)
qed

lemma run_pump_ok: "pump_ok env (run_pump env account now inputs)"
proof -
  have "pump_ok env (fold (pump_pass env) inputs p)" if "pump_ok env p" for p
    using that by (induction inputs arbitrary: p) (simp_all add: pump_pass_ok)
  moreover have "pump_ok env (run_pump_start account now)"
    by (simp add: run_pump_start_def pump_ok_def base_ok_def flight_ok_def output_shown_def replays_since_completion_def)
  ultimately show ?thesis by (simp add: run_pump_def)
qed

lemma run_event_ok:
  "pu_log (run_pump env account now inputs) = before @ e # after \<Longrightarrow> event_ok env before e"
  using run_pump_ok [of env account now inputs] by (auto simp: pump_ok_def base_ok_def events_ok_def)

section \<open>One conversation\<close>

text \<open>A turn whose upstream drops is replayed on a fresh socket and completes there.\<close>

definition demo_env :: pump_env where
  "demo_env = \<lparr>we_sha = id, we_print = (\<lambda>_. ''p''),
     we_parse = map_of [(''c'', JObj [(''type'', JStr ''response.create'')]),
       (''a'', JObj [(''type'', JStr ''response.create''), (''previous_response_id'', JStr ''q'')]),
       (''m'', JObj [(''type'', JStr ''error''), (''error'', JObj [(''code'', JStr ws_anchor_miss_code)])]),
       (''o'', JObj [(''type'', JStr ''error''), (''error'', JObj [(''code'', JStr ''slow_down'')])]),
       (''d'', JObj [(''type'', JStr ''response.completed''), (''response'', JObj [(''id'', JStr ''r'')])])],
     pe_facts = (\<lambda>_. Some \<lparr>tf_event = None, tf_model = ''m'', tf_tier = None, tf_turn_key = None\<rparr>),
     pe_max_age = None, pe_idle_budget = None\<rparr>"

definition demo_answer :: relay_answer where
  "demo_answer = \<lparr>ra_now = 1, ra_gated = False, ra_decision = None, ra_custom = CuNative, ra_serves_tier = None,
     ra_track = True, ra_slot_free = True, ra_dial = (\<lambda>_. Connected), ra_refreshed = True, ra_budget = (\<lambda>_. True),
     ra_send = (\<lambda>_. True), ra_client = (\<lambda>_. True), ra_move = None, ra_select = None, ra_select_dial = True,
     ra_substitute = False, ra_rate_frames = None, ra_idle = False\<rparr>"

definition demo_run :: pump where
  "demo_run = run_pump demo_env ''A'' 0
     [(demo_answer, ClientText ''c''), (demo_answer, UpstreamEnd), (demo_answer, UpstreamText ''d'')]"

lemmas run_simps = run_pump_def run_pump_start_def pump_pass_def handle_def client_text_def rewritten_def
  start_turn_def turn_active_def tier_move_def begin_turn_def send_frame_def send_refreshed_def logged_def jtype_def
  jpath_str_def is_some_and_def upstream_end_def redial_or_refresh_def redial_with_slot_def attach_def replay_in_flight_def
  count_reconnect_def max_reconnects_without_progress_def upstream_text_def relay_signal_def classify_upstream_signal_def
  on_normal_def is_prelude_frame_def is_non_output_frame_def after_forward_def finish_turn_def observe_turn_def
  sniff_completed_id_def Let_def unwrap_or_def

lemmas error_simps = ws_connection_limit_code_def ws_anchor_miss_code_def anchor_param_def anchored_in_flight_def
  is_anchored_generating_frame_def on_anchor_missing_def forge_resend_def client_resend_error_frame_def error_frame_def
  on_error_def is_transient_overload_def same_socket_replay_max_def error_poisoned_def is_unresendable_history_code_def
  error_unauthorized_def overload_ladder_def overload_retry_max_retries_def overload_move_def overload_same_account_def
  on_overload_move_def opt_filter_def add_tried_def is_model_not_found_def header_retry_after_def

lemma demo_log:
  "pu_log demo_run = [FromClient ''c'', TurnStart, ToUpstream ''A'' ''c'', Replay ''A'' ''c'', FromUpstream ''A'' ''d'',
     Forward ''d'' [''d''], TurnEnd ''A'' TurnCompleted, Owns ''A'' ''r'']"
  by (simp add: demo_run_def demo_answer_def demo_env_def run_simps)

section \<open>The properties\<close>

text \<open>
  C31: Nothing is said twice: every time a turn's frame is sent again, on the same socket, on a fresh one or on another
  account, for whatever reason, no frame with output of that turn had been forwarded to the client.\<close>

theorem output_never_replayed:
  "pu_log (run_pump env account now inputs) = before @ Replay a frame # after \<Longrightarrow> \<not> output_shown env before"
  by (drule run_event_ok) simp

theorem output_never_replayed_witness:
  "\<not> output_shown demo_env [FromClient ''c'', TurnStart, ToUpstream ''A'' ''c'']"
  using demo_log by (intro output_never_replayed) (simp add: demo_run_def)

text \<open>
  A dropped or refused turn is replayed a bounded number of times: when a frame is sent again, at most five
  replays happened since the last completed response, over the whole life of the connection and whatever the upstream
  and the answers are.\<close>

lemma replays_bounded:
  "pu_log (run_pump env account now inputs) = before @ Replay a frame # after \<Longrightarrow> replays_since_completion before \<le> 5"
  by (drule run_event_ok) simp

lemma replays_bounded_example:
  "replays_since_completion [FromClient ''c'', TurnStart, ToUpstream ''A'' ''c''] \<le> 5"
  using demo_log by (intro replays_bounded) (simp add: demo_run_def)

text \<open>
  C33: The relay only says upstream what the client said: every frame sent or sent again is a frame received from the
  client (as the priority policy rewrote it), or that frame with its reasoning items replaced by readable messages; the
  latter keeps every other field, the conversation's anchor included, and leaves no reasoning item in the input.\<close>

theorem relay_speaks_for_the_client:
  assumes "pu_log (run_pump env account now inputs) = before @ e # after" "e = ToUpstream a frame \<or> e = Replay a frame"
  shows "\<exists>c. FromClient c \<in> set before \<and>
    (frame = c \<or> (\<exists>v w items. we_parse env c = Some v \<and> frame = we_print env w \<and> anchored_body w = anchored_body v \<and>
       (\<forall>k. k \<noteq> ''input'' \<longrightarrow> jget k w = jget k v) \<and>
       jget ''input'' w = Some (JArr items) \<and> (\<forall>item \<in> set items. \<not> is_reasoning item)))"
proof -
  have "said_by_client env before frame" using run_event_ok [OF assms(1)] assms(2) by auto
  then obtain c where "FromClient c \<in> set before" "frame = c \<or> strip_unverifiable_reasoning env c = Some frame"
    unfolding said_by_client_def by blast
  then show ?thesis using strip_frame_result [of env c frame] by blast
qed

theorem relay_speaks_for_the_client_witness:
  "\<exists>c. FromClient c \<in> set [FromClient ''c'', TurnStart, ToUpstream ''A'' ''c'']"
proof -
  have split: "pu_log (run_pump demo_env ''A'' 0
     [(demo_answer, ClientText ''c''), (demo_answer, UpstreamEnd), (demo_answer, UpstreamText ''d'')])
     = [FromClient ''c'', TurnStart, ToUpstream ''A'' ''c''] @ Replay ''A'' ''c'' # drop 4 (pu_log demo_run)"
    using demo_log by (simp add: demo_run_def)
  show ?thesis using relay_speaks_for_the_client [OF split] by blast
qed

text \<open>
  C32: A conversation continues where it was answered: an account is recorded as the owner of a response only when the
  frame last read came from that account's socket and completes that response.\<close>

theorem owner_is_who_answered:
  "pu_log (run_pump env account now inputs) = before @ Owns a response # after \<Longrightarrow>
   \<exists>text. last_read before = Some (a, text) \<and> sniff_completed_id env text = Some response"
  by (drule run_event_ok) simp

theorem owner_is_who_answered_witness:
  "\<exists>text. last_read [FromClient ''c'', TurnStart, ToUpstream ''A'' ''c'', Replay ''A'' ''c'', FromUpstream ''A'' ''d'',
     Forward ''d'' [''d''], TurnEnd ''A'' TurnCompleted] = Some (''A'', text) \<and> sniff_completed_id demo_env text = Some ''r''"
  using demo_log by (intro owner_is_who_answered) (simp add: demo_run_def)

section \<open>Two corners\<close>

text \<open>
  After a pause in which the upstream was dropped, a redial that is refused for its token gives the slot back, and the
  refreshed socket is opened without one.
\<close>

lemma refreshed_socket_has_no_slot:
  "let p = run_pump demo_env ''A'' 0 [(demo_answer, UpstreamEnd),
     (demo_answer\<lparr>ra_dial := (\<lambda>_. Unauthorized)\<rparr>, ClientText ''c'')] in
   pu_open p \<and> pu_upstream p = Some ''A'' \<and> pu_slot p = None"
  by (simp add: demo_answer_def demo_env_def run_simps)

text \<open>
  A client that sends its anchored suffix again although it was asked for the whole conversation: after an overload on
  the socket that was asked first, the suffix goes to a sibling account, which does not know the anchor.
\<close>

lemma anchored_suffix_goes_to_a_sibling:
  "pu_log (run_pump demo_env ''A'' 0 [(demo_answer, ClientText ''a''), (demo_answer, UpstreamText ''m''),
     (demo_answer, ClientText ''a''), (demo_answer, UpstreamText ''o''),
     (demo_answer\<lparr>ra_move := Some ''B''\<rparr>, UpstreamText ''o'')])
   = [FromClient ''a'', TurnStart, ToUpstream ''A'' ''a'', FromUpstream ''A'' ''m'', Told ''p'',
      FromClient ''a'', TurnStart, ToUpstream ''A'' ''a'', FromUpstream ''A'' ''o'', Replay ''A'' ''a'',
      FromUpstream ''A'' ''o'', Benched ''A'', Replay ''B'' ''a'']"
  by (simp add: demo_answer_def demo_env_def run_simps error_simps)

end
