(* ===== verification/Network_Props.thy ===== *)
theory Network_Props
  imports Network_Recovery
begin

text \<open>
  What the circuits guarantee: an origin is never left without somebody to probe it, a waiter never sleeps on a
  closed circuit, an open circuit lets one more attempt through at most, and an answer is final.
\<close>

section \<open>Acquiring and reporting\<close>

definition online :: "registry \<Rightarrow> origin \<Rightarrow> bool" where
  "online reg og \<longleftrightarrow> phase_of reg og = Closed"

lemma circuit_of_put [simp]: "circuit_of (tbl_put reg og c) og' = (if og' = og then c else circuit_of reg og')"
  by (simp add: circuit_of_def unwrap_or_def tbl_simps)

lemma phase_success [simp]: "phase_of (circuit_success og reg) og' = (if og' = og then Closed else phase_of reg og')"
  by (simp add: circuit_success_def Let_def)

lemma phase_failure: "phase_of (circuit_failure env og kind now reg) og' =
    (if og' = og then Open (now + policy_delay (ne_sample env) (ne_policy env) og (next_failures kind (phase_of reg og)))
       (next_failures kind (phase_of reg og)) else phase_of reg og')"
  by (simp add: circuit_failure_def Let_def)

definition longest_delay :: nat where "longest_delay = 30250 * ns_per_ms"

lemma default_delay: "policy_delay sample default_policy og failures \<le> longest_delay"
proof -
  have idx: "min (failures - 1) 4 \<in> {0, 1, 2, 3, 4}" by auto
  have "rp_delays default_policy ! min (failures - 1) 4 \<le> 30 * ns_per_sec"
    using idx by (auto simp: default_policy_def numeral_eq_Suc)
  moreover have "sample og failures mod 251 * ns_per_ms \<le> 250 * ns_per_ms"
    using less_Suc_eq_le [of "sample og failures mod 251" 250] by (intro mult_right_mono) simp_all
  ultimately have "rp_delays default_policy ! min (failures - 1) 4 + sample og failures mod 251 * ns_per_ms \<le> longest_delay"
    by (simp add: longest_delay_def ns_per_sec_def ns_per_ms_def)
  moreover have "length (rp_delays default_policy) - 1 = 4" "rp_max_jitter default_policy = 250 * ns_per_ms"
    by (simp_all add: default_policy_def)
  then have "policy_delay sample default_policy og failures =
      rp_delays default_policy ! min (failures - 1) 4 + sample og failures mod 251 * ns_per_ms"
    by (simp add: policy_delay_def ns_per_ms_def u64_max_def Let_def)
  ultimately show ?thesis by simp
qed

text \<open>An acquisition moves a circuit from open to half-open only.\<close>

lemma acquire_phase:
  assumes "acquire og deadline now reg = (res, reg')"
  shows "og' \<noteq> og \<Longrightarrow> phase_of reg' og' = phase_of reg og'"
    and "phase_of reg' og = (case (phase_of reg og, res) of (Open _ _, Permit (Probe f)) \<Rightarrow> HalfOpen f | (p, _) \<Rightarrow> p)"
  using assms
  by (auto simp: acquire_def Let_def split: circuit_phase.splits if_splits)

lemma acquire_result:
  assumes "acquire og deadline now reg = (res, reg')"
  shows "res = Permit Normal \<longleftrightarrow> online reg og"
    and "res = Permit (Probe f) \<longleftrightarrow> (\<exists>r. phase_of reg og = Open r f \<and> r \<le> now)"
    and "res = WaitUntil t \<Longrightarrow> \<not> online reg og \<and> t \<le> deadline \<and> (\<forall>r f. phase_of reg og = Open r f \<longrightarrow> t \<le> r)"
  using assms
  by (auto simp: acquire_def online_def Let_def split: circuit_phase.splits if_splits)

section \<open>The invariant\<close>

definition sends :: "origin \<Rightarrow> (nat \<rightharpoonup> net_call) \<Rightarrow> nat \<Rightarrow> permit_kind \<Rightarrow> bool" where
  "sends og calls i kind \<longleftrightarrow> (\<exists>c. calls i = Some c \<and> nc_origin c = og \<and> nc_pc c = Sending kind)"

definition sending :: "origin \<Rightarrow> (nat \<rightharpoonup> net_call) \<Rightarrow> nat set" where
  "sending og calls = {i. \<exists>kind. sends og calls i kind}"

definition probed :: "origin \<Rightarrow> (nat \<rightharpoonup> net_call) \<Rightarrow> bool" where
  "probed og calls \<longleftrightarrow> (\<exists>i f. sends og calls i (Probe f))"

definition waiter_ok :: "registry \<Rightarrow> net_call \<Rightarrow> bool" where
  "waiter_ok reg c \<longleftrightarrow> (\<forall>t. nc_pc c = Waiting t \<longrightarrow> \<not> online reg (nc_origin c) \<and> t \<le> nc_deadline c \<and>
     (\<forall>r f. phase_of reg (nc_origin c) = Open r f \<longrightarrow> t \<le> r))"

definition net_inv :: "net_system \<Rightarrow> bool" where
  "net_inv s \<longleftrightarrow> finite (dom (ns_calls s)) \<and>
     (\<forall>i c. ns_calls s i = Some c \<longrightarrow> waiter_ok (ns_registry s) c) \<and>
     (\<forall>og f. phase_of (ns_registry s) og = HalfOpen f \<longrightarrow> probed og (ns_calls s)) \<and>
     (\<forall>og r f. phase_of (ns_registry s) og = Open r f \<longrightarrow> r \<le> ns_now s + longest_delay)"

text \<open>A report: the circuit of \<open>og\<close> is closed or opened again, and its waiters are woken.\<close>

lemma wake_Some: "wake og calls i = Some c \<longleftrightarrow> (\<exists>b. calls i = Some b \<and>
    c = (case nc_pc b of Waiting _ \<Rightarrow> if nc_origin b = og then b\<lparr>nc_pc := Acquiring\<rparr> else b | _ \<Rightarrow> b))"
  unfolding wake_def map_option_eq_Some by blast

lemma wake_dom [simp]: "dom (wake og calls) = dom calls"
  by (simp add: wake_def dom_def)

lemma sends_wake [simp]: "sends og' (wake og calls) i kind = sends og' calls i kind"
  by (cases "calls i") (auto simp: sends_def wake_def split: call_pc.splits)

lemma sending_wake [simp]: "sending og' (wake og calls) = sending og' calls" "probed og' (wake og calls) = probed og' calls"
  by (simp_all add: sending_def probed_def)

lemma sends_upd [simp]: "sends og (calls(i := new)) j kind = (if j = i
    then (\<exists>c. new = Some c \<and> nc_origin c = og \<and> nc_pc c = Sending kind) else sends og calls j kind)"
  by (simp add: sends_def)

lemma waiter_ok_wake:
  assumes "\<And>og'. og' \<noteq> og \<Longrightarrow> phase_of reg' og' = phase_of reg og'"
    and "\<And>i c. calls i = Some c \<Longrightarrow> waiter_ok reg c" "wake og calls i = Some c"
  shows "waiter_ok reg' c"
proof -
  obtain b where b: "calls i = Some b" "c = (case nc_pc b of Waiting _ \<Rightarrow> if nc_origin b = og then b\<lparr>nc_pc := Acquiring\<rparr> else b | _ \<Rightarrow> b)"
    using assms(3) by (auto simp: wake_Some)
  show ?thesis
  proof (cases "nc_origin b = og")
    case True
    then show ?thesis using b(2) by (auto simp: waiter_ok_def split: call_pc.splits)
  next
    case False
    then have "c = b" using b(2) by (auto split: call_pc.splits)
    then show ?thesis using assms(1) [OF False] assms(2) [OF b(1)] by (auto simp: waiter_ok_def online_def)
  qed
qed

lemma net_invD:
  "net_inv s \<Longrightarrow> finite (dom (ns_calls s))"
  "net_inv s \<Longrightarrow> ns_calls s i = Some c \<Longrightarrow> waiter_ok (ns_registry s) c"
  "net_inv s \<Longrightarrow> phase_of (ns_registry s) og = HalfOpen f \<Longrightarrow> probed og (ns_calls s)"
  "net_inv s \<Longrightarrow> phase_of (ns_registry s) og = Open r f \<Longrightarrow> r \<le> ns_now s + longest_delay"
  unfolding net_inv_def by blast+

lemma net_inv_report:
  assumes "net_inv s" "finite (dom calls)" "\<And>j c. calls j = Some c \<Longrightarrow> waiter_ok (ns_registry s) c"
    and "\<And>og'. og' \<noteq> og \<Longrightarrow> probed og' (ns_calls s) \<Longrightarrow> probed og' calls"
    and "reg' = circuit_success og (ns_registry s) \<or> reg' = circuit_failure env og kind (ns_now s) (ns_registry s)"
    and "ne_policy env = default_policy"
  shows "net_inv (s\<lparr>ns_calls := wake og calls, ns_registry := reg'\<rparr>)"
proof -
  have other: "phase_of reg' og' = phase_of (ns_registry s) og'" if "og' \<noteq> og" for og'
    using assms(5) that by (auto simp: phase_failure)
  have same: "phase_of reg' og \<noteq> HalfOpen f" "phase_of reg' og = Open r f \<Longrightarrow> r \<le> ns_now s + longest_delay" for f r
    using assms(5) default_delay [of "ne_sample env" og] by (auto simp: phase_failure assms(6))
  have "probed og' (wake og calls)" if "phase_of reg' og' = HalfOpen f" for og' f
    using that other [of og'] same(1) net_invD(3) [OF assms(1)] assms(4) by (cases "og' = og") auto
  moreover have "r \<le> ns_now s + longest_delay" if "phase_of reg' og' = Open r f" for og' r f
    using that other [of og'] same(2) net_invD(4) [OF assms(1)] by (cases "og' = og") metis+
  ultimately show ?thesis
    using assms(2) waiter_ok_wake [OF other assms(3)] by (simp add: net_inv_def)
qed

lemma probed_upd:
  assumes "probed og calls" "\<And>f. \<not> sends og calls i (Probe f)"
  shows "probed og (calls(i := new))"
  using assms unfolding probed_def by (metis sends_upd)

lemma net_inv_quiet:
  assumes "net_inv s" "ns_calls s i = Some b" "\<And>f. nc_pc b \<noteq> Sending (Probe f)"
    and "case new of None \<Rightarrow> True | Some c \<Rightarrow> \<forall>t. nc_pc c \<noteq> Waiting t"
  shows "net_inv (s\<lparr>ns_calls := (ns_calls s)(i := new)\<rparr>)"
proof -
  have "probed og ((ns_calls s)(i := new))" if "probed og (ns_calls s)" for og
    using that assms(2,3) by (intro probed_upd) (auto simp: sends_def)
  with assms show ?thesis by (auto simp: net_inv_def waiter_ok_def split: if_splits)
qed

lemma net_inv_acquire:
  assumes "net_inv s" "ns_calls s i = Some c" "nc_pc c = Acquiring"
    and "acquire_call c (ns_now s) (ns_registry s) = (c', reg')"
  shows "net_inv (s\<lparr>ns_calls := (ns_calls s)(i \<mapsto> c'), ns_registry := reg'\<rparr>)"
proof -
  obtain res where res: "acquire (nc_origin c) (nc_deadline c) (ns_now s) (ns_registry s) = (res, reg')"
    and c': "c' = c\<lparr>nc_pc := (case res of Permit k \<Rightarrow> Sending k | WaitUntil t \<Rightarrow> Waiting t | Exceeded \<Rightarrow> Finished (Some budget_exceeded))\<rparr>"
    using assms(4) by (auto simp: acquire_call_def split: prod.splits acquired.splits)
  note ph = acquire_phase [OF res] and rs = acquire_result [OF res]
  have opn: "phase_of (ns_registry s) og = Open r f" if "phase_of reg' og = Open r f" for og r f
    using that ph by (cases "og = nc_origin c") (auto split: circuit_phase.splits acquired.splits permit_kind.splits)
  have online: "online reg' og = online (ns_registry s) og" for og
    using ph by (cases "og = nc_origin c") (auto simp: online_def split: circuit_phase.splits acquired.splits permit_kind.splits)
  have old: "probed og ((ns_calls s)(i \<mapsto> c'))" if "probed og (ns_calls s)" for og
    using that assms(2,3) by (intro probed_upd) (auto simp: sends_def)
  have half: "probed og ((ns_calls s)(i \<mapsto> c'))" if h: "phase_of reg' og = HalfOpen f" for og f
  proof (cases "phase_of (ns_registry s) og = HalfOpen f")
    case True
    then show ?thesis using assms(1) old by (auto simp: net_inv_def)
  next
    case False
    then have "og = nc_origin c" "res = Permit (Probe f)"
      using h ph by (auto split: circuit_phase.splits acquired.splits permit_kind.splits) (cases "og = nc_origin c"; auto)+
    then have "nc_origin c' = og \<and> nc_pc c' = Sending (Probe f)" by (simp add: c')
    then show ?thesis unfolding probed_def by (intro exI [of _ i] exI [of _ f]) simp
  qed
  have waits: "waiter_ok reg' b" if "((ns_calls s)(i \<mapsto> c')) j = Some b" for j b
  proof (cases "j = i")
    case True
    then have b: "b = c'" using that by simp
    then have "nc_origin b = nc_origin c" "nc_deadline b = nc_deadline c" by (simp_all add: c')
    moreover have "res = WaitUntil t" if "nc_pc b = Waiting t" for t
      using that b c' by (cases res) auto
    ultimately show ?thesis using rs(3) opn online by (auto simp: waiter_ok_def)
  next
    case False
    then have "waiter_ok (ns_registry s) b" using assms(1) that by (simp add: net_inv_def)
    then show ?thesis using opn online by (auto simp: waiter_ok_def)
  qed
  have "r \<le> ns_now s + longest_delay" if "phase_of reg' og = Open r f" for og r f
    using opn [OF that] net_invD(4) [OF assms(1)] by simp
  with half waits assms(1) show ?thesis by (simp add: net_inv_def)
qed

lemma net_inv_step:
  assumes "net_step env s s'" "net_inv s" "ne_policy env = default_policy"
  shows "net_inv s'"
  using assms
proof (induction rule: net_step.induct)
  case (Start s i dial og budget)
  then show ?case
    by (auto simp: net_inv_def waiter_ok_def start_call_def probed_def split: if_splits) (metis option.distinct(1) sends_def)
next
  case (Acquire s i c c' reg')
  then show ?case by (intro net_inv_acquire)
next
  case (Timeout s i c t)
  then show ?case by (intro net_inv_quiet) (auto simp: timeout_call_def)
next
  case (Resume s i c t)
  then show ?case by (intro net_inv_quiet) auto
next
  case (Answer s i c kind answer c' reg')
  show ?case
  proof (rule net_inv_report [OF Answer.prems(1) _ _ _ _ Answer.prems(2), where kind = kind])
    show "finite (dom ((ns_calls s)(i \<mapsto> c')))" using net_invD(1) [OF Answer.prems(1)] by simp
    show "waiter_ok (ns_registry s) b" if "((ns_calls s)(i \<mapsto> c')) j = Some b" for j b
      using that Answer.hyps(3) net_invD(2) [OF Answer.prems(1)]
      by (auto simp: after_attempt_def waiter_ok_def Let_def split: if_splits)
    show "probed og' ((ns_calls s)(i \<mapsto> c'))" if "og' \<noteq> nc_origin c" "probed og' (ns_calls s)" for og'
      using that Answer.hyps(1) by (intro probed_upd) (auto simp: sends_def)
    show "reg' = circuit_success (nc_origin c) (ns_registry s) \<or>
        reg' = circuit_failure env (nc_origin c) kind (ns_now s) (ns_registry s)"
      using Answer.hyps(3) by (auto simp: after_attempt_def Let_def split: if_splits)
  qed
next
  case (Drop s i c failures)
  show ?case
  proof (rule net_inv_report [OF Drop.prems(1) _ _ _ _ Drop.prems(2), where kind = "Probe failures"])
    show "finite (dom ((ns_calls s)(i := None)))" using net_invD(1) [OF Drop.prems(1)] by simp
    show "waiter_ok (ns_registry s) b" if "((ns_calls s)(i := None)) j = Some b" for j b
      using that net_invD(2) [OF Drop.prems(1)] by (auto split: if_splits)
    show "probed og' ((ns_calls s)(i := None))" if "og' \<noteq> nc_origin c" "probed og' (ns_calls s)" for og'
      using that Drop.hyps(1) by (intro probed_upd) (auto simp: sends_def)
  qed simp
next
  case (Cancel s i c)
  then show ?case by (intro net_inv_quiet) auto
next
  case (Tick s t)
  then show ?case unfolding net_inv_def by (auto intro: le_trans) (meson add_le_mono1 le_trans)
qed

lemma net_inv_init: "net_inv (net_init t)"
  by (simp add: net_inv_def net_init_def circuit_of_def circuit_new_def unwrap_or_def)

lemma net_inv_run:
  assumes "net_run env s" "ne_policy env = default_policy"
  shows "net_inv s"
proof -
  obtain t where "(net_step env)\<^sup>*\<^sup>* (net_init t) s" using assms(1) by blast
  then show ?thesis by (induction rule: rtranclp_induct) (use net_inv_init net_inv_step assms(2) in blast)+
qed

text \<open>
  C34: A circuit never wedges, whatever calls fail, answer, time out or are dropped: while it is half-open a probe is
  under way, whose end reopens or closes it; while it is open its retry is at most 30.25 seconds away and the next
  acquisition from then on is given a probe; and a waiting call waits on a circuit that is not closed, until the
  retry or its own deadline at the latest.
\<close>

theorem circuit_never_wedged:
  assumes "net_run env s" "ne_policy env = default_policy"
  shows "(\<forall>og f. phase_of (ns_registry s) og = HalfOpen f \<longrightarrow>
      (\<exists>i c k. ns_calls s i = Some c \<and> nc_origin c = og \<and> nc_pc c = Sending (Probe k))) \<and>
    (\<forall>og r f. phase_of (ns_registry s) og = Open r f \<longrightarrow> r \<le> ns_now s + 30250 * ns_per_ms \<and>
      (\<forall>deadline t. r \<le> t \<longrightarrow> fst (acquire og deadline t (ns_registry s)) = Permit (Probe f))) \<and>
    (\<forall>i c t. ns_calls s i = Some c \<and> nc_pc c = Waiting t \<longrightarrow> phase_of (ns_registry s) (nc_origin c) \<noteq> Closed \<and>
      t \<le> nc_deadline c \<and> (\<forall>r f. phase_of (ns_registry s) (nc_origin c) = Open r f \<longrightarrow> t \<le> r))"
proof -
  have inv: "net_inv s" using assms by (rule net_inv_run)
  have "\<exists>i c k. ns_calls s i = Some c \<and> nc_origin c = og \<and> nc_pc c = Sending (Probe k)"
    if "phase_of (ns_registry s) og = HalfOpen f" for og f
    using net_invD(3) [OF inv that] unfolding probed_def sends_def by blast
  moreover have "r \<le> ns_now s + 30250 * ns_per_ms \<and>
      (\<forall>deadline t. r \<le> t \<longrightarrow> fst (acquire og deadline t (ns_registry s)) = Permit (Probe f))"
    if "phase_of (ns_registry s) og = Open r f" for og r f
    using net_invD(4) [OF inv that] that by (simp add: longest_delay_def acquire_def Let_def)
  moreover have "phase_of (ns_registry s) (nc_origin c) \<noteq> Closed \<and>
      t \<le> nc_deadline c \<and> (\<forall>r f. phase_of (ns_registry s) (nc_origin c) = Open r f \<longrightarrow> t \<le> r)"
    if "ns_calls s i = Some c" "nc_pc c = Waiting t" for i c t
    using net_invD(2) [OF inv that(1)] that(2) by (auto simp: waiter_ok_def online_def)
  ultimately show ?thesis by blast
qed

text \<open>A call that fails once and, a second later, probes.\<close>

definition demo_net :: net_env where
  "demo_net = \<lparr>ne_sample = (\<lambda>_ _. 0), ne_policy = default_policy\<rparr>"

definition demo_call :: "attempt_answer list \<Rightarrow> call_pc \<Rightarrow> net_call" where
  "demo_call answers pc = (start_call False ''o'' (60 * ns_per_sec) 0)\<lparr>nc_answers := answers, nc_pc := pc\<rparr>"

definition demo_state :: "circuit_phase \<Rightarrow> u64 \<Rightarrow> net_call \<Rightarrow> nat \<Rightarrow> net_system" where
  "demo_state phase failures c now = \<lparr>
     ns_registry = [(''o'', \<lparr>ci_phase = phase, ci_transport_failures = failures, ci_recoveries = 0\<rparr>)],
     ns_calls = [0 \<mapsto> c], ns_now = now\<rparr>"

abbreviation demo_failed :: "attempt_answer list" where "demo_failed \<equiv> [Some (ExUpstream ''refused'')]"

definition demo_open :: net_system where
  "demo_open = demo_state (Open ns_per_sec 1) 1 (demo_call demo_failed Acquiring) 0"

definition demo_probing :: net_system where
  "demo_probing = demo_state (HalfOpen 1) 1 (demo_call demo_failed (Sending (Probe 1))) ns_per_sec"

lemmas net_eval = demo_net_def demo_call_def demo_state_def start_call_def acquire_call_def acquire_def circuit_of_def
  circuit_new_def unwrap_or_def after_attempt_def circuit_failure_def next_failures_def policy_delay_def default_policy_def
  u64_max_def add_u64_def ns_per_ms_def ns_per_sec_def Let_def

lemma run_demo_open: "net_run demo_net demo_open"
proof -
  let ?s1 = "(net_init 0)\<lparr>ns_calls := [0 \<mapsto> demo_call [] Acquiring]\<rparr>"
  let ?s2 = "demo_state Closed 0 (demo_call [] (Sending Normal)) 0"
  have "net_step demo_net (net_init 0) ?s1"
    using net_step.Start [of "net_init 0" 0 demo_net False "''o''" "60 * ns_per_sec"]
    by (simp add: net_init_def demo_call_def start_call_def)
  moreover have "net_step demo_net ?s1 ?s2"
    using net_step.Acquire [of ?s1 0 "demo_call [] Acquiring"] by (simp add: net_init_def net_eval)
  moreover have "net_step demo_net ?s2 demo_open"
    using net_step.Answer [of ?s2 0 "demo_call [] (Sending Normal)" Normal demo_net "Some (ExUpstream ''refused'')"]
    by (simp add: demo_open_def wake_def net_eval fun_upd_def if_distrib cong: if_cong)
  ultimately show ?thesis by (meson rtranclp.rtrancl_into_rtrancl rtranclp.rtrancl_refl)
qed

lemma steps_demo_probing:
  "net_step demo_net demo_open (demo_open\<lparr>ns_now := ns_per_sec\<rparr>)"
  "net_step demo_net (demo_open\<lparr>ns_now := ns_per_sec\<rparr>) demo_probing"
  using net_step.Tick [of demo_open ns_per_sec demo_net]
    net_step.Acquire [of "demo_open\<lparr>ns_now := ns_per_sec\<rparr>" 0 "demo_call demo_failed Acquiring" _ _ demo_net]
  by (simp_all add: demo_open_def demo_probing_def net_eval)

lemma run_demo_probing: "net_run demo_net demo_probing"
  using run_demo_open steps_demo_probing by (meson rtranclp.rtrancl_into_rtrancl)

lemma demo_phases:
  "phase_of (ns_registry demo_open) ''o'' = Open ns_per_sec 1" "phase_of (ns_registry demo_probing) ''o'' = HalfOpen 1"
  by (simp_all add: demo_open_def demo_probing_def net_eval)

theorem circuit_never_wedged_witness:
  "net_run demo_net demo_probing \<and> phase_of (ns_registry demo_probing) ''o'' = HalfOpen 1 \<and>
   (\<exists>i c k. ns_calls demo_probing i = Some c \<and> nc_origin c = ''o'' \<and> nc_pc c = Sending (Probe k)) \<and>
   net_run demo_net demo_open \<and> phase_of (ns_registry demo_open) ''o'' = Open ns_per_sec 1 \<and>
   fst (acquire ''o'' (60 * ns_per_sec) ns_per_sec (ns_registry demo_open)) = Permit (Probe 1)"
proof -
  have d: "ne_policy demo_net = default_policy" by (simp add: demo_net_def)
  have "\<exists>i c k. ns_calls demo_probing i = Some c \<and> nc_origin c = ''o'' \<and> nc_pc c = Sending (Probe k)"
    using conjunct1 [OF circuit_never_wedged [OF run_demo_probing d]] demo_phases(2) by meson
  moreover have "fst (acquire ''o'' (60 * ns_per_sec) ns_per_sec (ns_registry demo_open)) = Permit (Probe 1)"
    using conjunct1 [OF conjunct2 [OF circuit_never_wedged [OF run_demo_open d]]] demo_phases(1) order_refl by meson
  ultimately show ?thesis using run_demo_open run_demo_probing demo_phases by simp
qed

section \<open>An open circuit\<close>

lemma sending_upd: "sending og (calls(i := new)) = (if \<exists>c k. new = Some c \<and> nc_origin c = og \<and> nc_pc c = Sending k
    then insert i (sending og calls) else sending og calls - {i})"
  by (auto simp: sending_def)

lemma sending_finite: "finite (dom calls) \<Longrightarrow> finite (sending og calls)"
  by (rule finite_subset [of _ "dom calls"]) (auto simp: sending_def sends_def)

definition guarded :: "origin \<Rightarrow> nat \<Rightarrow> net_system \<Rightarrow> bool" where
  "guarded og n s \<longleftrightarrow> finite (dom (ns_calls s)) \<and> (case phase_of (ns_registry s) og of
     Closed \<Rightarrow> False | Open _ _ \<Rightarrow> card (sending og (ns_calls s)) \<le> n
   | HalfOpen _ \<Rightarrow> card (sending og (ns_calls s)) \<le> n + 1)"

lemma guarded_fewer:
  assumes "guarded og n s" "finite (dom calls)" "sending og calls \<subseteq> sending og (ns_calls s)"
    and "phase_of reg og = phase_of (ns_registry s) og"
  shows "guarded og n (s\<lparr>ns_calls := calls, ns_registry := reg\<rparr>)"
proof -
  have "card (sending og calls) \<le> card (sending og (ns_calls s))"
    using assms(1,3) by (intro card_mono sending_finite) (simp add: guarded_def)
  then show ?thesis using assms(1,2,4) by (auto simp: guarded_def split: circuit_phase.splits)
qed

lemma sends_not_acquiring: "calls i = Some c \<Longrightarrow> \<forall>k. nc_pc c \<noteq> Sending k \<Longrightarrow> i \<notin> sending og calls"
  by (auto simp: sending_def sends_def)

lemma guarded_acquire:
  assumes "guarded og n s" "ns_calls s i = Some c" "nc_pc c = Acquiring"
    and "acquire_call c (ns_now s) (ns_registry s) = (c', reg')"
  shows "guarded og n (s\<lparr>ns_calls := (ns_calls s)(i \<mapsto> c'), ns_registry := reg'\<rparr>)"
proof -
  obtain res where res: "acquire (nc_origin c) (nc_deadline c) (ns_now s) (ns_registry s) = (res, reg')"
    and c': "c' = c\<lparr>nc_pc := (case res of Permit k \<Rightarrow> Sending k | WaitUntil t \<Rightarrow> Waiting t | Exceeded \<Rightarrow> Finished (Some budget_exceeded))\<rparr>"
    using assms(4) by (auto simp: acquire_call_def split: prod.splits acquired.splits)
  note ph = acquire_phase [OF res] and rs = acquire_result [OF res]
  have fin: "finite (dom ((ns_calls s)(i \<mapsto> c')))" using assms(1) by (simp add: guarded_def)
  show ?thesis
  proof (cases "og = nc_origin c \<and> (\<exists>f. res = Permit (Probe f))")
    case True
    then obtain f r where f: "og = nc_origin c" "res = Permit (Probe f)" "phase_of (ns_registry s) og = Open r f"
      using rs(2) by auto
    have "sending og ((ns_calls s)(i \<mapsto> c')) = insert i (sending og (ns_calls s))"
      using f by (simp add: sending_upd c')
    moreover have "card (sending og (ns_calls s)) \<le> n" using assms(1) f(3) by (simp add: guarded_def)
    ultimately have "card (sending og ((ns_calls s)(i \<mapsto> c'))) \<le> n + 1"
      using card_insert_le_m1 [of "n + 1"] by simp
    then show ?thesis using f fin ph(2) by (simp add: guarded_def)
  next
    case False
    have "phase_of reg' og = phase_of (ns_registry s) og"
      using ph False rs(1) by (cases "og = nc_origin c") (auto split: circuit_phase.splits acquired.splits permit_kind.splits)
    moreover have "sending og ((ns_calls s)(i \<mapsto> c')) \<subseteq> sending og (ns_calls s)"
    proof -
      have "\<not> online (ns_registry s) og" using assms(1) by (auto simp: guarded_def online_def)
      then have "\<not> (nc_origin c' = og \<and> (\<exists>k. nc_pc c' = Sending k))"
        using False rs(1) c' by (cases res; cases "og = nc_origin c") (auto, metis permit_kind.exhaust)
      then show ?thesis by (auto simp: sending_upd)
    qed
    ultimately show ?thesis using guarded_fewer [OF assms(1) fin] by simp
  qed
qed

lemma guarded_report:
  assumes "guarded og n s" "ns_calls s i = Some c" "nc_pc c = Sending kind"
    and "\<forall>b. new = Some b \<longrightarrow> (\<forall>k. nc_pc b \<noteq> Sending k)"
    and "reg' = circuit_success (nc_origin c) (ns_registry s) \<or>
      reg' = circuit_failure env (nc_origin c) kind (ns_now s) (ns_registry s)"
    and "\<not> online reg' og"
  shows "guarded og n (s\<lparr>ns_calls := wake (nc_origin c) ((ns_calls s)(i := new)), ns_registry := reg'\<rparr>)"
proof -
  have less: "sending og ((ns_calls s)(i := new)) = sending og (ns_calls s) - {i}"
    using assms(4) by (auto simp: sending_upd)
  have fin: "finite (dom ((ns_calls s)(i := new)))" "finite (sending og (ns_calls s))"
    using assms(1) by (auto simp: guarded_def sending_finite)
  show ?thesis
  proof (cases "og = nc_origin c")
    case True
    then have "i \<in> sending og (ns_calls s)" using assms(2,3) by (auto simp: sending_def sends_def)
    then have "card (sending og (ns_calls s) - {i}) = card (sending og (ns_calls s)) - 1" by (rule card_Diff_singleton)
    moreover have "card (sending og (ns_calls s)) \<le> n + 1" using assms(1) by (simp add: guarded_def split: circuit_phase.splits)
    ultimately have "card (sending og (ns_calls s) - {i}) \<le> n" by linarith
    moreover obtain r f where "phase_of reg' og = Open r f"
      using assms(5,6) True by (auto simp: phase_failure online_def)
    ultimately show ?thesis using fin(1) less by (simp add: guarded_def)
  next
    case False
    have "phase_of reg' og = phase_of (ns_registry s) og" using assms(5) False by (auto simp: phase_failure)
    moreover have "sending og ((ns_calls s)(i := new)) \<subseteq> sending og (ns_calls s)" using less by blast
    ultimately show ?thesis
      using guarded_fewer [OF assms(1), of "wake (nc_origin c) ((ns_calls s)(i := new))" reg'] fin(1) by simp
  qed
qed

lemma guarded_step:
  assumes "net_step env s s'" "guarded og n s" "\<not> online (ns_registry s') og"
  shows "guarded og n s'"
  using assms
proof (induction rule: net_step.induct)
  case (Start s i dial og' budget)
  then show ?case using guarded_fewer [OF Start.prems(1), of "(ns_calls s)(i \<mapsto> start_call dial og' budget (ns_now s))" "ns_registry s"]
    by (auto simp: sending_upd start_call_def guarded_def)
next
  case (Acquire s i c c' reg')
  then show ?case by (intro guarded_acquire)
next
  case (Timeout s i c t)
  then show ?case using guarded_fewer [OF Timeout.prems(1), of "(ns_calls s)(i \<mapsto> timeout_call c (ns_now s))" "ns_registry s"]
    by (auto simp: sending_upd timeout_call_def guarded_def)
next
  case (Resume s i c t)
  then show ?case using guarded_fewer [OF Resume.prems(1), of "(ns_calls s)(i \<mapsto> c\<lparr>nc_pc := Acquiring\<rparr>)" "ns_registry s"]
    by (auto simp: sending_upd guarded_def)
next
  case (Answer s i c kind answer c' reg')
  have "\<forall>k. nc_pc c' \<noteq> Sending k" "reg' = circuit_success (nc_origin c) (ns_registry s) \<or>
      reg' = circuit_failure env (nc_origin c) kind (ns_now s) (ns_registry s)"
    using Answer.hyps(3) by (auto simp: after_attempt_def Let_def split: if_splits)
  then show ?case using Answer guarded_report [OF Answer.prems(1) Answer.hyps(1,2), of "Some c'" reg' env] by simp
next
  case (Drop s i c failures)
  then show ?case using guarded_report [OF Drop.prems(1) Drop.hyps(1,2), of None _ env] by simp
next
  case (Cancel s i c)
  then show ?case using guarded_fewer [OF Cancel.prems(1), of "(ns_calls s)(i := None)" "ns_registry s"]
    by (auto simp: sending_upd guarded_def)
next
  case (Tick s t)
  then show ?case by (simp add: guarded_def split: circuit_phase.splits)
qed

text \<open>
  Once a circuit is open, and until it closes, at most one attempt more is in flight at its origin than there
  was when it opened, however many calls want one; and whenever it is open again there is none more.
\<close>

lemma open_circuit_admits_one_more:
  assumes "net_run env s" "ne_policy env = default_policy" "phase_of (ns_registry s) og = Open r f"
    and "(\<lambda>s s'. net_step env s s' \<and> phase_of (ns_registry s') og \<noteq> Closed)\<^sup>*\<^sup>* s s'"
  shows "card (sending og (ns_calls s')) \<le> card (sending og (ns_calls s)) +
    (case phase_of (ns_registry s') og of Open _ _ \<Rightarrow> 0 | _ \<Rightarrow> 1)"
proof -
  have "guarded og (card (sending og (ns_calls s))) s"
    using net_invD(1) [OF net_inv_run [OF assms(1,2)]] assms(3) by (simp add: guarded_def)
  with assms(4) have "guarded og (card (sending og (ns_calls s))) s'"
    by (induction rule: rtranclp_induct) (auto intro: guarded_step simp: online_def)
  then show ?thesis by (auto simp: guarded_def split: circuit_phase.splits)
qed

lemma open_circuit_admits_one_more_example:
  "net_run demo_net demo_open \<and> phase_of (ns_registry demo_open) ''o'' = Open ns_per_sec 1 \<and>
   phase_of (ns_registry demo_probing) ''o'' = HalfOpen 1 \<and> sending ''o'' (ns_calls demo_open) = {} \<and>
   card (sending ''o'' (ns_calls demo_probing)) \<le> 1"
proof -
  have none: "sending ''o'' (ns_calls demo_open) = {}"
    by (auto simp: sending_def sends_def demo_open_def demo_state_def demo_call_def split: if_splits)
  have "(\<lambda>s s'. net_step demo_net s s' \<and> phase_of (ns_registry s') ''o'' \<noteq> Closed)\<^sup>*\<^sup>* demo_open demo_probing"
    using steps_demo_probing demo_phases
    by (intro converse_rtranclp_into_rtranclp [of _ demo_open "demo_open\<lparr>ns_now := ns_per_sec\<rparr>"] r_into_rtranclp) simp_all
  from open_circuit_admits_one_more [OF run_demo_open _ demo_phases(1) this] none run_demo_open demo_phases
  show ?thesis by (simp add: demo_net_def)
qed

section \<open>Answers are final\<close>

text \<open>An attempt is repeated after a transport failure, or a dial after one of three refused handshakes, only.\<close>

definition repeatable :: "bool \<Rightarrow> attempt_answer \<Rightarrow> bool" where
  "repeatable dial answer \<longleftrightarrow> transport_failure answer \<or> dial \<and> (case answer of
     Some (ExUpstreamHttp r) \<Rightarrow> fs_status (uh_signal r) = connection_limit_handshake_status | _ \<Rightarrow> False)"

definition refusals :: "net_call \<Rightarrow> nat" where
  "refusals c = length (filter (\<lambda>a. \<not> transport_failure a) (nc_answers c))"

definition call_ok :: "net_call \<Rightarrow> bool" where
  "call_ok c \<longleftrightarrow> (case nc_pc c of Finished _ \<Rightarrow> \<forall>a \<in> set (butlast (nc_answers c)). repeatable (nc_dial c) a
     | _ \<Rightarrow> (\<forall>a \<in> set (nc_answers c). repeatable (nc_dial c) a) \<and> refusals c = nc_retries c \<and>
       nc_retries c \<le> connection_limit_dial_retries)"

lemma call_ok_unfinished: "call_ok c \<Longrightarrow> \<forall>answer. nc_pc c \<noteq> Finished answer \<Longrightarrow>
    (\<forall>a \<in> set (nc_answers c). repeatable (nc_dial c) a) \<and> refusals c = nc_retries c \<and> nc_retries c \<le> connection_limit_dial_retries"
  by (auto simp: call_ok_def split: call_pc.splits)

lemma call_ok_acquiring: "call_ok c \<Longrightarrow> \<forall>answer. nc_pc c \<noteq> Finished answer \<Longrightarrow> call_ok (c\<lparr>nc_pc := pc\<rparr>)"
  using call_ok_unfinished [of c] by (auto simp: call_ok_def refusals_def split: call_pc.splits dest: in_set_butlastD)

lemma call_ok_after:
  assumes "after_attempt env c kind answer now reg = (c', reg')" "call_ok c" "nc_pc c = Sending kind"
  shows "call_ok c'"
  using call_ok_unfinished [OF assms(2)] assms(1,3)
  by (auto simp: after_attempt_def call_ok_def refusals_def repeatable_def capped_handshake_def Let_def split: if_splits)

definition calls_ok :: "(nat \<rightharpoonup> net_call) \<Rightarrow> bool" where
  "calls_ok calls \<longleftrightarrow> (\<forall>i c. calls i = Some c \<longrightarrow> call_ok c)"

lemma calls_okD: "calls_ok calls \<Longrightarrow> calls i = Some c \<Longrightarrow> call_ok c"
  unfolding calls_ok_def by blast

lemma call_ok_woken:
  "call_ok b \<Longrightarrow> call_ok (case nc_pc b of Waiting _ \<Rightarrow> if nc_origin b = og then b\<lparr>nc_pc := Acquiring\<rparr> else b | _ \<Rightarrow> b)"
  by (cases "nc_pc b") (auto intro: call_ok_acquiring)

lemma calls_ok_wake: "calls_ok calls \<Longrightarrow> calls_ok (wake og calls)"
  unfolding calls_ok_def wake_Some using call_ok_woken by blast

lemma calls_ok_step: "net_step env s s' \<Longrightarrow> calls_ok (ns_calls s) \<Longrightarrow> calls_ok (ns_calls s')"
proof (induction rule: net_step.induct)
  case (Start s i dial og budget)
  then show ?case by (simp add: calls_ok_def start_call_def call_ok_def refusals_def)
next
  case (Acquire s i c c' reg')
  have "\<exists>pc. c' = c\<lparr>nc_pc := pc\<rparr>" using Acquire.hyps(3) by (auto simp: acquire_call_def split: prod.splits acquired.splits)
  then have "call_ok c'" using Acquire.hyps(1,2) calls_okD [OF Acquire.prems] by (auto intro!: call_ok_acquiring)
  then show ?case using Acquire.prems by (simp add: calls_ok_def)
next
  case (Timeout s i c t)
  then have "call_ok (timeout_call c (ns_now s))" unfolding timeout_call_def
    by (intro call_ok_acquiring calls_okD [of "ns_calls s" i]) simp_all
  then show ?case using Timeout.prems by (simp add: calls_ok_def)
next
  case (Resume s i c t)
  then have "call_ok (c\<lparr>nc_pc := Acquiring\<rparr>)" 
    by (intro call_ok_acquiring calls_okD [of "ns_calls s" i]) simp_all
  then show ?case using Resume.prems by (simp add: calls_ok_def)
next
  case (Answer s i c kind answer c' reg')
  then have "call_ok c'" using call_ok_after calls_okD by blast
  then have "calls_ok ((ns_calls s)(i \<mapsto> c'))" using Answer.prems by (simp add: calls_ok_def)
  then show ?case by (simp add: calls_ok_wake)
next
  case (Drop s i c failures)
  then have "calls_ok ((ns_calls s)(i := None))" by (simp add: calls_ok_def)
  then show ?case by (simp add: calls_ok_wake)
qed (auto simp: calls_ok_def)

lemma answers_are_final:
  assumes "net_run env s" "ns_calls s i = Some c"
  shows "call_ok c"
proof -
  obtain t where "(net_step env)\<^sup>*\<^sup>* (net_init t) s" using assms(1) by blast
  then have "calls_ok (ns_calls s)"
    by (induction rule: rtranclp_induct) (auto simp: net_init_def calls_ok_def intro: calls_ok_step [unfolded calls_ok_def, rule_format])
  with assms(2) show ?thesis using calls_okD by blast
qed

end
