(* ===== verification/Reset_Plan.thy ===== *)
theory Reset_Plan
  imports Core_Types
begin

text \<open>
  Reset-credit planning (\<open>polyflare-core/src/reset_credit.rs\<close>): every Codex account may hold banked credits
  that reset its weekly limit; the planner says for each account whether spending one is worth it now, and
  ranks the accounts. It computes in \<open>f64\<close> as the source does.
\<close>

record credit_candidate_input =
  ri_account_id :: account_id
  ri_capacity_credits :: f64
  ri_weekly_used_percent :: f64
  ri_weekly_reset_at :: "i64 option"
  ri_available_credits :: i64
  ri_earliest_expiry :: "i64 option"
  ri_fetched_at :: i64
  ri_eligible :: bool

datatype recommendation =
  RedeemNow | RedeemBeforeExpiry | Hold | WaitForNaturalReset | LowBenefit | NoCreditLeft | Unavailable

record credit_candidate =
  rr_account_id :: account_id
  rr_recommendation :: recommendation
  rr_reason :: string
  rr_recoverable :: f64
  rr_time_weighted :: f64

fun recommendation_rank :: "recommendation \<Rightarrow> u8" where
  "recommendation_rank RedeemNow = 0"
| "recommendation_rank RedeemBeforeExpiry = 0"
| "recommendation_rank Hold = 0"
| "recommendation_rank LowBenefit = 1"
| "recommendation_rank WaitForNaturalReset = 2"
| "recommendation_rank NoCreditLeft = 3"
| "recommendation_rank Unavailable = 4"

definition recoverable_credits :: "credit_candidate_input \<Rightarrow> f64" where
  "recoverable_credits i =
     (if is_fin (ri_capacity_credits i)
      then fdiv (fmul (fmax (ri_capacity_credits i) (F_Num 0))
             (fclamp (F_Num 0) (F_Num 100) (ri_weekly_used_percent i))) (F_Num 100)
      else F_Num 0)"

definition stale_input :: "i64 \<Rightarrow> i64 \<Rightarrow> credit_candidate_input \<Rightarrow> bool" where
  "stale_input stale_after now i \<longleftrightarrow> ri_fetched_at i \<le> 0 \<or> stale_after < sub_i64 now (ri_fetched_at i)"

definition missing_evidence :: "credit_candidate_input \<Rightarrow> bool" where
  "missing_evidence i \<longleftrightarrow>
     \<not> is_fin (ri_capacity_credits i) \<or> fle (ri_capacity_credits i) (F_Num 0) \<or> ri_weekly_reset_at i = None"

definition recommend :: "i64 \<Rightarrow> i64 \<Rightarrow> credit_candidate_input \<Rightarrow> recommendation \<times> string" where
  "recommend stale_after now i =
     (let used = fclamp (F_Num 0) (F_Num 100) (ri_weekly_used_percent i);
          reset_in = map_option (\<lambda>reset. reset - now) (ri_weekly_reset_at i)
      in if \<not> ri_eligible i \<or> stale_input stale_after now i \<or> missing_evidence i
         then (Unavailable, ''Fresh eligible account, quota, and credit evidence is required'')
         else if ri_available_credits i \<le> 0
         then (NoCreditLeft, ''No banked reset credit is currently available'')
         else if is_some_and reset_in (\<lambda>seconds. seconds \<le> 3600)
         then (WaitForNaturalReset, ''The weekly limit resets naturally within one hour'')
         else if fle (recoverable_credits i) (fmul (ri_capacity_credits i) (flit (5 / 100)))
         then (LowBenefit, ''Less than five percent of weekly capacity would be recovered'')
         else if is_some_and (ri_earliest_expiry i) (\<lambda>expiry. expiry \<le> now + 300)
         then (RedeemNow, ''The earliest credit expires within five minutes'')
         else if (case (ri_earliest_expiry i, ri_weekly_reset_at i) of
                    (Some expiry, Some reset) \<Rightarrow> expiry < reset | _ \<Rightarrow> False)
         then (RedeemBeforeExpiry, ''The earliest credit expires before the natural weekly reset'')
         else if fge used (F_Num 80) \<and> is_some_and reset_in (\<lambda>seconds. 6 * 3600 \<le> seconds)
         then (RedeemNow, ''High weekly usage with meaningful time remaining before reset'')
         else (Hold, ''Keep the credit until demand or expiry makes redemption worthwhile''))"

definition week_secs :: i64 where "week_secs = 7 * 24 * 3600"

definition time_weighted_value :: "i64 \<Rightarrow> recommendation \<Rightarrow> credit_candidate_input \<Rightarrow> f64" where
  "time_weighted_value now verdict i =
     (let reset_in = map_option (\<lambda>reset. reset - now) (ri_weekly_reset_at i);
          time_fraction = fdiv (f64_of_int (clamp_int 0 week_secs (unwrap_or reset_in 0))) (f64_of_int week_secs)
      in if verdict = Unavailable then F_Num 0 else fmul (recoverable_credits i) time_fraction)"

definition candidate_row :: "i64 \<Rightarrow> i64 \<Rightarrow> credit_candidate_input \<Rightarrow> credit_candidate" where
  "candidate_row stale_after now i =
     (let verdict = recommend stale_after now i in
      \<lparr>rr_account_id = ri_account_id i, rr_recommendation = fst verdict, rr_reason = snd verdict,
       rr_recoverable = recoverable_credits i, rr_time_weighted = time_weighted_value now (fst verdict) i\<rparr>)"

definition candidate_cmp :: "credit_candidate \<Rightarrow> credit_candidate \<Rightarrow> ordering" where
  "candidate_cmp l r =
     then_cmp (cmp_lin (recommendation_rank (rr_recommendation l)) (recommendation_rank (rr_recommendation r)))
       (then_cmp (total_cmp64 (rr_time_weighted r) (rr_time_weighted l))
         (cmp_lin (rr_account_id l) (rr_account_id r)))"

definition optimize_reset_credits ::
  "credit_candidate_input list \<Rightarrow> i64 \<Rightarrow> i64 \<Rightarrow> credit_candidate list" where
  "optimize_reset_credits inputs now stale_after_seconds =
     sort_by candidate_cmp (map (candidate_row (max stale_after_seconds 1) now) inputs)"

section \<open>What the plan promises\<close>

lemma total_candidate_cmp: "total_cmp candidate_cmp"
  unfolding candidate_cmp_def [abs_def] by (intro cmp_intros)

lemma candidate_cmp_Equal: "candidate_cmp l r = Equal \<Longrightarrow> rr_account_id l = rr_account_id r"
  by (simp add: candidate_cmp_def then_cmp_eq)

lemma row_account_id [simp]: "rr_account_id (candidate_row stale now i) = ri_account_id i"
  by (simp add: candidate_row_def Let_def)

lemma plan_keeps_accounts:
  "mset (map rr_account_id (optimize_reset_credits inputs now stale)) = mset (map ri_account_id inputs)"
proof -
  have "mset (map rr_account_id (optimize_reset_credits inputs now stale)) =
      image_mset rr_account_id (mset (map (candidate_row (max stale 1) now) inputs))"
    unfolding optimize_reset_credits_def mset_map [of rr_account_id] mset_sort_by ..
  also have "\<dots> = mset (map ri_account_id inputs)" by (simp add: image_mset.compositionality comp_def)
  finally show ?thesis .
qed

lemma plan_sorted: "sorted_wrt (\<lambda>l r. candidate_cmp l r \<noteq> Greater) (optimize_reset_credits inputs now stale)"
  unfolding optimize_reset_credits_def by (rule total_cmp.sort_by_sorted [OF total_candidate_cmp])

text \<open>A credit is recommended for spending only on fresh evidence that there is one and that it is worth it.\<close>

lemma recommend_evidence:
  assumes "fst (recommend stale now i) = RedeemNow \<or> fst (recommend stale now i) = RedeemBeforeExpiry"
  shows "ri_eligible i \<and> \<not> stale_input stale now i \<and> 0 < ri_available_credits i \<and>
    (\<exists>reset. ri_weekly_reset_at i = Some reset \<and> now + 3600 < reset) \<and>
    \<not> fle (recoverable_credits i) (fmul (ri_capacity_credits i) (flit (5 / 100)))"
  using assms by (auto simp: recommend_def missing_evidence_def Let_def split: if_splits option.splits)

lemma plan_evidence:
  assumes "row \<in> set (optimize_reset_credits inputs now stale)"
    "rr_recommendation row = RedeemNow \<or> rr_recommendation row = RedeemBeforeExpiry"
  shows "\<exists>i \<in> set inputs. ri_account_id i = rr_account_id row \<and> ri_eligible i \<and> \<not> stale_input (max stale 1) now i \<and>
    0 < ri_available_credits i \<and> (\<exists>reset. ri_weekly_reset_at i = Some reset \<and> now + 3600 < reset)"
proof -
  obtain i where i: "i \<in> set inputs" "row = candidate_row (max stale 1) now i"
    using assms(1) by (auto simp: optimize_reset_credits_def set_sort_by)
  then have "fst (recommend (max stale 1) now i) = RedeemNow \<or> fst (recommend (max stale 1) now i) = RedeemBeforeExpiry"
    using assms(2) by (simp add: candidate_row_def Let_def)
  from recommend_evidence [OF this] i show ?thesis by auto
qed

text \<open>The plan does not depend on the order in which the accounts are listed.\<close>

lemma sorted_unique:
  assumes "total_cmp c" "\<And>a b. c a b = Equal \<Longrightarrow> f a = f b"
    and "sorted_wrt (\<lambda>a b. c a b \<noteq> Greater) xs" "sorted_wrt (\<lambda>a b. c a b \<noteq> Greater) ys"
    and "mset xs = mset ys" "distinct (map f xs)"
  shows "xs = ys"
  using assms(3-6)
proof (induction xs arbitrary: ys)
  case (Cons x xs)
  then obtain y ys' where ys: "ys = y # ys'" by (cases ys) auto
  have same: "insert x (set xs) = insert y (set ys')" using Cons.prems(3) ys by (metis list.set(2) set_mset_mset)
  have refl: "c z z \<noteq> Greater" for z using total_cmp.cmp_refl [OF assms(1), of z] by simp
  have "y \<in> insert x (set xs)" "x \<in> insert y (set ys')" using same by blast+
  then have least: "c x y \<noteq> Greater" "c y x \<noteq> Greater"
    using Cons.prems(1,2) ys refl by auto
  have "c x y = Equal" using least total_cmp.cmp_flip [OF assms(1), of y x] by (cases "c x y") auto
  then have "f x = f y" by (rule assms(2))
  moreover have "y \<in> insert x (set xs)" using same by blast
  ultimately have "x = y" using Cons.prems(4) by (auto dest: imageI [of _ _ f])
  with Cons ys show ?case by auto
qed simp

lemma plan_order_free:
  assumes "mset inputs = mset inputs'" "distinct (map ri_account_id inputs)"
  shows "optimize_reset_credits inputs now stale = optimize_reset_credits inputs' now stale"
proof (rule sorted_unique [OF total_candidate_cmp candidate_cmp_Equal plan_sorted plan_sorted])
  show "mset (optimize_reset_credits inputs now stale) = mset (optimize_reset_credits inputs' now stale)"
    using assms(1) by (simp add: optimize_reset_credits_def mset_sort_by)
  show "distinct (map rr_account_id (optimize_reset_credits inputs now stale))"
    using assms(2) plan_keeps_accounts by (metis mset_eq_imp_distinct_iff)
qed

end
