(* ===== verification/Reset_Ledger.thy ===== *)
theory Reset_Ledger
  imports Core_Types
begin

text \<open>
  The durable state of credit redemptions (\<open>polyflare-store/src/reset_credit_repo.rs\<close>, migrations 0026 to
  0028): per-account credit snapshots, the claim (a lease with a holder), the credit each redemption request
  is pinned to, terminal results, and the pins of native and fleet requests. Each method is one SQL statement
  or one transaction, so one function on the tables. \<open>None\<close> is a constraint failure: the foreign key on
  \<open>accounts\<close> (which \<open>OR IGNORE\<close> does not cover) or a duplicate primary key; it changes nothing. Failures
  of I/O are chosen by the caller's environment.
\<close>

record reset_credit =
  rc_account_id :: account_id
  rc_credit_id :: string
  rc_reset_type :: "string option"
  rc_status :: "string option"
  rc_granted_at :: "i64 option"
  rc_expires_at :: "i64 option"
  rc_title :: "string option"
  rc_description :: "string option"
  rc_redeem_started_at :: "i64 option"
  rc_redeemed_at :: "i64 option"

record credit_snapshot =
  cs_account_id :: account_id
  cs_available_count :: i64
  cs_fetched_at :: i64
  cs_credits :: "reset_credit list"

record redeem_request =
  rq_credit_id :: string
  rq_created_at :: i64
  rq_result :: "(string \<times> i64 \<times> i64 option \<times> i64) option"

record redeem_result =
  rs_code :: string
  rs_windows_reset :: i64
  rs_redeemed_at :: "i64 option"
  rs_completed_at :: i64

record native_request =
  nr_account :: "account_id option"
  nr_credit :: "string option"
  nr_scope :: "string option"
  nr_created_at :: i64
  nr_result :: "(string \<times> i64 \<times> i64) option"

type_synonym request_key = "account_id \<times> string"

text \<open>
  The tables. \<open>rl_accounts\<close> holds the ids of \<open>accounts\<close>; a request's result columns are set together.
\<close>

record ledger =
  rl_accounts :: "account_id list"
  rl_credits :: "reset_credit list"
  rl_snapshots :: "(account_id, i64 \<times> i64) table"
  rl_claims :: "(account_id, string \<times> i64) table"
  rl_requests :: "(request_key, redeem_request) table"
  rl_results :: "(request_key, redeem_result) table"
  rl_native :: "(string, native_request) table"
  rl_fleet :: "(string, string \<times> i64) table"

definition empty_ledger :: ledger where
  "empty_ledger = \<lparr>rl_accounts = [], rl_credits = [], rl_snapshots = [], rl_claims = [], rl_requests = [],
     rl_results = [], rl_native = [], rl_fleet = []\<rparr>"

section \<open>Snapshots\<close>

text \<open>
  The rows of \<open>credits\<close> are stored under \<open>account\<close> whatever account they name; two with one id violate the
  primary key and roll the transaction back.
\<close>

definition replace_snapshot :: "account_id \<Rightarrow> i64 \<Rightarrow> i64 \<Rightarrow> reset_credit list \<Rightarrow> ledger \<Rightarrow> ledger option" where
  "replace_snapshot account available_count fetched_at credits db =
     (if account \<notin> set (rl_accounts db) \<or> \<not> distinct (map rc_credit_id credits) then None
      else Some (db\<lparr>
        rl_credits := filter (\<lambda>c. rc_account_id c \<noteq> account) (rl_credits db) @
          map (rc_account_id_update (\<lambda>_. account)) credits,
        rl_snapshots := tbl_put (rl_snapshots db) account (max available_count 0, fetched_at)\<rparr>))"

definition by_expiry :: "('a \<Rightarrow> 't::linorder option) \<Rightarrow> ('a \<Rightarrow> string) \<Rightarrow> 'a \<Rightarrow> 'a \<Rightarrow> ordering" where
  "by_expiry expires ident l r =
     then_cmp (cmp_lin (expires l = None) (expires r = None))
       (then_cmp (case (expires l, expires r) of (Some a, Some b) \<Rightarrow> cmp_lin a b | _ \<Rightarrow> Equal)
         (cmp_lin (ident l) (ident r)))"

definition get_snapshot :: "ledger \<Rightarrow> account_id \<Rightarrow> credit_snapshot option" where
  "get_snapshot db account =
     (case tbl_get (rl_snapshots db) account of
        None \<Rightarrow> None
      | Some (available_count, fetched_at) \<Rightarrow> Some \<lparr>cs_account_id = account,
          cs_available_count = available_count, cs_fetched_at = fetched_at,
          cs_credits = sort_by (by_expiry rc_expires_at rc_credit_id)
            (filter (\<lambda>c. rc_account_id c = account) (rl_credits db))\<rparr>)"

definition list_snapshots :: "ledger \<Rightarrow> credit_snapshot list" where
  "list_snapshots db = List.map_filter (get_snapshot db) (sort (map fst (rl_snapshots db)))"

definition invalidate :: "account_id \<Rightarrow> ledger \<Rightarrow> ledger" where
  "invalidate account db = db\<lparr>rl_snapshots := tbl_del (rl_snapshots db) account\<rparr>"

section \<open>Claims\<close>

definition try_acquire_claim ::
  "account_id \<Rightarrow> string \<Rightarrow> i64 \<Rightarrow> i64 \<Rightarrow> ledger \<Rightarrow> (bool \<times> ledger) option" where
  "try_acquire_claim account holder now expires_at db =
     (let won = db\<lparr>rl_claims := tbl_put (rl_claims db) account (holder, expires_at)\<rparr> in
      case tbl_get (rl_claims db) account of
        None \<Rightarrow> if account \<in> set (rl_accounts db) then Some (True, won) else None
      | Some (_, until) \<Rightarrow> Some (if until < now then (True, won) else (False, db)))"

definition renew_claim :: "account_id \<Rightarrow> string \<Rightarrow> i64 \<Rightarrow> ledger \<Rightarrow> bool \<times> ledger" where
  "renew_claim account holder expires_at db =
     (if is_some_and (tbl_get (rl_claims db) account) (\<lambda>(h, _). h = holder)
      then (True, db\<lparr>rl_claims := tbl_put (rl_claims db) account (holder, expires_at)\<rparr>)
      else (False, db))"

definition release_claim :: "account_id \<Rightarrow> string \<Rightarrow> ledger \<Rightarrow> ledger" where
  "release_claim account holder db =
     (if is_some_and (tbl_get (rl_claims db) account) (\<lambda>(h, _). h = holder)
      then db\<lparr>rl_claims := tbl_del (rl_claims db) account\<rparr> else db)"

section \<open>Requests and results\<close>

text \<open>\<open>INSERT OR IGNORE\<close>: the first row stays. Rows older than the lifetime are deleted first.\<close>

definition insert_or_ignore :: "('k, 'v) table \<Rightarrow> 'k \<Rightarrow> 'v \<Rightarrow> ('k, 'v) table" where
  "insert_or_ignore t k v = (case tbl_get t k of Some _ \<Rightarrow> t | None \<Rightarrow> tbl_put t k v)"

definition pin_row ::
  "('v \<Rightarrow> i64) \<Rightarrow> i64 \<Rightarrow> i64 \<Rightarrow> ('k, 'v) table \<Rightarrow> 'k \<Rightarrow> 'v \<Rightarrow> ('k, 'v) table" where
  "pin_row created ttl now t k v =
     insert_or_ignore (tbl_retain (\<lambda>_ row. \<not> created row < sub_i64 now ttl) t) k v"

definition pin_request ::
  "account_id \<Rightarrow> string \<Rightarrow> string \<Rightarrow> i64 \<Rightarrow> i64 \<Rightarrow> ledger \<Rightarrow> (string \<times> ledger) option" where
  "pin_request account req credit now ttl db =
     (let requests = pin_row rq_created_at ttl now (rl_requests db) (account, req)
            \<lparr>rq_credit_id = credit, rq_created_at = now, rq_result = None\<rparr>
      in if account \<notin> set (rl_accounts db) then None
         else map_option (\<lambda>row. (rq_credit_id row, db\<lparr>rl_requests := requests\<rparr>))
                (tbl_get requests (account, req)))"

definition get_request :: "ledger \<Rightarrow> account_id \<Rightarrow> string \<Rightarrow> i64 \<Rightarrow> i64 \<Rightarrow> redeem_request option" where
  "get_request db account req now ttl =
     opt_filter (\<lambda>row. sub_i64 now ttl \<le> rq_created_at row) (tbl_get (rl_requests db) (account, req))"

definition get_result :: "ledger \<Rightarrow> account_id \<Rightarrow> string \<Rightarrow> i64 \<Rightarrow> i64 \<Rightarrow> redeem_result option" where
  "get_result db account req now ttl =
     opt_filter (\<lambda>row. sub_i64 now ttl \<le> rs_completed_at row) (tbl_get (rl_results db) (account, req))"

section \<open>Native and fleet pins\<close>

definition get_native_request :: "ledger \<Rightarrow> string \<Rightarrow> i64 \<Rightarrow> i64 \<Rightarrow> native_request option" where
  "get_native_request db req now ttl =
     opt_filter (\<lambda>row. sub_i64 now ttl \<le> nr_created_at row) (tbl_get (rl_native db) req)"

definition insert_native :: "string \<Rightarrow> native_request \<Rightarrow> i64 \<Rightarrow> i64 \<Rightarrow> ledger \<Rightarrow> native_request option \<times> ledger" where
  "insert_native req row now ttl db =
     (let natives = pin_row nr_created_at ttl now (rl_native db) req row
      in (tbl_get natives req, db\<lparr>rl_native := natives\<rparr>))"

definition pin_native_request ::
  "string \<Rightarrow> account_id \<Rightarrow> string option \<Rightarrow> string \<Rightarrow> i64 \<Rightarrow> i64 \<Rightarrow> ledger \<Rightarrow> native_request option \<times> ledger" where
  "pin_native_request req account credit pool_scope now ttl db =
     insert_native req \<lparr>nr_account = Some account, nr_credit = credit, nr_scope = Some pool_scope,
       nr_created_at = now, nr_result = None\<rparr> now ttl db"

definition complete_native_no_credit ::
  "string \<Rightarrow> string \<Rightarrow> i64 \<Rightarrow> i64 \<Rightarrow> ledger \<Rightarrow> native_request option \<times> ledger" where
  "complete_native_no_credit req pool_scope now ttl db =
     insert_native req \<lparr>nr_account = None, nr_credit = None, nr_scope = Some pool_scope,
       nr_created_at = now, nr_result = Some (''no_credit'', 0, now)\<rparr> now ttl db"

definition close_native :: "string \<Rightarrow> account_id \<Rightarrow> string \<times> i64 \<times> i64 \<Rightarrow> ledger \<Rightarrow> bool \<times> ledger" where
  "close_native req account result db =
     (case tbl_get (rl_native db) req of
        Some row \<Rightarrow> if nr_account row = Some account \<and> nr_result row = None
          then (True, db\<lparr>rl_native := tbl_put (rl_native db) req (row\<lparr>nr_result := Some result\<rparr>)\<rparr>)
          else (False, db)
      | None \<Rightarrow> (False, db))"

definition complete_native_account_no_credit :: "string \<Rightarrow> account_id \<Rightarrow> i64 \<Rightarrow> ledger \<Rightarrow> bool \<times> ledger" where
  "complete_native_account_no_credit req account completed_at db =
     close_native req account (''no_credit'', 0, completed_at) db"

definition pin_fleet_request :: "string \<Rightarrow> string \<Rightarrow> i64 \<Rightarrow> i64 \<Rightarrow> ledger \<Rightarrow> string option \<times> ledger" where
  "pin_fleet_request req accounts_json now ttl db =
     (let fleets = pin_row snd ttl now (rl_fleet db) req (accounts_json, now)
      in (map_option fst (tbl_get fleets req), db\<lparr>rl_fleet := fleets\<rparr>))"

section \<open>Completion\<close>

definition record_result ::
  "request_key \<Rightarrow> redeem_result \<Rightarrow> ledger \<Rightarrow> (redeem_result \<times> ledger) option" where
  "record_result key row db =
     (let results = pin_row rs_completed_at (24 * 3600) (rs_completed_at row) (rl_results db) key row
      in map_option (\<lambda>terminal. (terminal, db\<lparr>rl_results := results\<rparr>)) (tbl_get results key))"

definition note_request_result :: "request_key \<Rightarrow> redeem_result \<Rightarrow> ledger \<Rightarrow> ledger" where
  "note_request_result key terminal db =
     (case tbl_get (rl_requests db) key of
        None \<Rightarrow> db
      | Some row \<Rightarrow> db\<lparr>rl_requests := tbl_put (rl_requests db) key (row\<lparr>rq_result :=
          Some (rs_code terminal, rs_windows_reset terminal, rs_redeemed_at terminal, rs_completed_at terminal)\<rparr>)\<rparr>)"

definition complete_request_with_native ::
  "account_id \<Rightarrow> string \<Rightarrow> redeem_result \<Rightarrow> string option \<Rightarrow> ledger \<Rightarrow> (redeem_result \<times> ledger) option" where
  "complete_request_with_native account req outcome native db =
     map_option (\<lambda>(terminal, db1).
       let db2 = note_request_result (account, req) terminal db1 in
       (terminal, case native of
          None \<Rightarrow> db2
        | Some n \<Rightarrow> snd (close_native n account
            (rs_code terminal, rs_windows_reset terminal, rs_completed_at terminal) db2)))
       (record_result (account, req) outcome db)"

section \<open>Deleting an account\<close>

text \<open>
  \<open>ON DELETE CASCADE\<close> on every table but the results and the native and fleet pins, which outlive the account.
\<close>

definition delete_ledger_account :: "account_id \<Rightarrow> ledger \<Rightarrow> ledger" where
  "delete_ledger_account account db = db\<lparr>
     rl_accounts := removeAll account (rl_accounts db),
     rl_credits := filter (\<lambda>c. rc_account_id c \<noteq> account) (rl_credits db),
     rl_snapshots := tbl_del (rl_snapshots db) account,
     rl_claims := tbl_del (rl_claims db) account,
     rl_requests := tbl_retain (\<lambda>(a, _) _. a \<noteq> account) (rl_requests db)\<rparr>"

section \<open>The first writer wins for a lifetime\<close>

text \<open>
  What the four pinned tables share: the row of a key stays while it is no older than the lifetime, and only
  a missing or outlived row is replaced.
\<close>

lemma opt_or_None [simp]: "opt_or x None = x"
  by (cases x) simp_all

text \<open>
  \<open>generations\<close> relates a key's row to the rows \<open>seen\<close> under it so far, each with its content, its creation time
  and when it was seen: one that is no longer the row is older than a lifetime, and of two that differ one was
  seen after the other had outlived its lifetime.
\<close>

definition outlived :: "i64 \<Rightarrow> i64 \<Rightarrow> i64 \<Rightarrow> bool" where
  "outlived ttl c now \<longleftrightarrow> c + ttl < now"

definition generations ::
  "i64 \<Rightarrow> ('v \<Rightarrow> 'w) \<Rightarrow> ('v \<Rightarrow> i64) \<Rightarrow> i64 \<Rightarrow> ('w \<times> i64 \<times> i64) set \<Rightarrow> 'v option \<Rightarrow> bool" where
  "generations ttl view created now seen row \<longleftrightarrow>
     (\<forall>w c u. (w, c, u) \<in> seen \<longrightarrow> map_option (\<lambda>v. (view v, created v)) row = Some (w, c) \<or> outlived ttl c now) \<and>
     (\<forall>w c u w' c' u'. (w, c, u) \<in> seen \<longrightarrow> (w', c', u') \<in> seen \<longrightarrow>
        w = w' \<or> outlived ttl c u' \<or> outlived ttl c' u)"

lemma outlived_later: "outlived ttl c now \<Longrightarrow> now \<le> t \<Longrightarrow> outlived ttl c t"
  by (simp add: outlived_def)

lemma generations_later: "generations ttl view created now seen row \<Longrightarrow> now \<le> t \<Longrightarrow>
    generations ttl view created t seen row"
  unfolding generations_def using outlived_later by blast

lemma generations_note: "generations ttl view created now seen (Some v) \<Longrightarrow>
    generations ttl view created now (insert (view v, created v, now) seen) (Some v)"
  by (auto simp: generations_def)

lemma generations_apart: "generations ttl view created now seen row \<Longrightarrow> (w, c, u) \<in> seen \<Longrightarrow> (w', c', u') \<in> seen \<Longrightarrow>
    w = w' \<or> outlived ttl c u' \<or> outlived ttl c' u"
  unfolding generations_def by blast

lemma generations_present: "generations ttl view created now seen row \<Longrightarrow> (w, c, u) \<in> seen \<Longrightarrow> \<not> outlived ttl c now \<Longrightarrow>
    \<exists>v. row = Some v \<and> view v = w \<and> created v = c"
  unfolding generations_def by auto

lemma generations_start: "generations ttl view created now {} None"
  by (simp add: generations_def)

locale first_writer =
  fixes ok :: "'t \<Rightarrow> bool"
    and get :: "'t \<Rightarrow> 'k \<Rightarrow> 'v option"
    and pin :: "i64 \<Rightarrow> 't \<Rightarrow> 'k \<Rightarrow> 'v \<Rightarrow> 't"
    and created :: "'v \<Rightarrow> i64"
    and ttl :: i64
  assumes ok_pin: "ok t \<Longrightarrow> ok (pin now t k v)"
    and get_pin: "ok t \<Longrightarrow> get (pin now t k v) j =
      opt_or (opt_filter (\<lambda>row. sub_i64 now ttl \<le> created row) (get t j)) (if j = k then Some v else None)"
begin

lemma pin_read_back: "ok t \<Longrightarrow> \<exists>w. get (pin now t k v) k = Some w"
  by (cases "opt_filter (\<lambda>row. sub_i64 now ttl \<le> created row) (get t k)") (auto simp: get_pin)

lemma pin_keeps:
  "ok t \<Longrightarrow> get t j = Some w \<Longrightarrow> sub_i64 now ttl \<le> created w \<Longrightarrow> get (pin now t k v) j = Some w"
  by (simp add: get_pin)

lemma pin_origin:
  "ok t \<Longrightarrow> get (pin now t k v) j = Some w \<Longrightarrow> get t j = Some w \<and> sub_i64 now ttl \<le> created w \<or> j = k \<and> w = v"
  by (cases "get t j") (auto simp: get_pin split: if_splits)

text \<open>A writer may work with a reading \<open>stamp\<close> of the clock that is already old.\<close>

lemma generations_pin:
  assumes "ok t" "generations ttl view created now seen (get t j)"
    and "stamp \<le> now" "sub_i64 stamp ttl = stamp - ttl"
  shows "generations ttl view created now seen (get (pin stamp t k v) j)"
proof (cases "get t j")
  case None
  then show ?thesis using assms(1,2) by (cases "j = k") (auto simp: get_pin generations_def)
next
  case (Some w)
  show ?thesis
  proof (cases "stamp - ttl \<le> created w")
    case True
    then show ?thesis using assms Some by (simp add: get_pin)
  next
    case False
    then have "outlived ttl (created w) now" using assms(3) by (simp add: outlived_def)
    then have "outlived ttl c now" if "(x, c, u) \<in> seen" for x c u
      using assms(2) Some that by (force simp: generations_def)
    then show ?thesis using assms(2) unfolding generations_def by blast
  qed
qed

end

interpretation pinned: first_writer
  "tbl_ok :: ('k, 'v) table \<Rightarrow> bool" map_of "pin_row created ttl" created ttl
  for created :: "'v \<Rightarrow> i64" and ttl
  by unfold_locales
    (auto simp: pin_row_def insert_or_ignore_def tbl_simps not_less split: option.splits)

end
