(* ===== verification/Reset_Redeem.thy ===== *)
theory Reset_Redeem
  imports Reset_Plan Reset_Ledger Selection
begin

text \<open>
  Redeeming reset credits (\<open>polyflare-server/src/reset_credits.rs\<close>): the fleet plan built from the accounts,
  the snapshot cache and the stored credits; one redemption under its account's claim; and the native and fleet
  endpoints on top. A redemption is a program with one step per await point, so several may interleave; what the
  store, the clock and the upstream answer at a step is its \<open>rc_answer\<close>.
\<close>

section \<open>The fleet plan\<close>

record rc_account =
  ra_id :: account_id
  ra_provider :: string
  ra_status :: string
  ra_chatgpt_id :: "string option"
  ra_plan_type :: string
  ra_email :: string
  ra_alias :: "string option"

definition request_ttl_seconds :: i64 where "request_ttl_seconds = 24 * 3600"
definition claim_lease_seconds :: i64 where "claim_lease_seconds = 30"
definition refresh_concurrency :: usize where "refresh_concurrency = 16"
definition fetch_timeout_secs :: u64 where "fetch_timeout_secs = 15"
definition refresh_interval_secs :: u64 where "refresh_interval_secs = 60"
definition refresh_jitter_seconds :: u64 where "refresh_jitter_seconds = 15"
definition snapshot_stale_min_seconds :: i64 where "snapshot_stale_min_seconds = 150"

definition snapshot_stale_after_seconds :: "usize \<Rightarrow> i64" where
  "snapshot_stale_after_seconds account_count =
     (let batches = div_ceil (max account_count 1) refresh_concurrency;
          worst_case_round = mul_u64 fetch_timeout_secs batches;
          longest_scheduled_cycle = max worst_case_round (refresh_interval_secs + refresh_jitter_seconds);
          doubled = mul_u64 longest_scheduled_cycle 2
      in max (if int doubled \<le> i64_max then int doubled else i64_max) snapshot_stale_min_seconds)"

definition parked :: "string \<Rightarrow> bool" where
  "parked status \<longleftrightarrow> status \<in> set [''paused'', ''reauth_required'', ''deactivated'']"

definition earliest_expiry :: "credit_snapshot \<Rightarrow> i64 option" where
  "earliest_expiry cs =
     (case List.map_filter rc_expires_at (filter (\<lambda>c. rc_status c = Some ''available'') (cs_credits cs)) of
        [] \<Rightarrow> None | t # ts \<Rightarrow> Some (fold min ts t))"

record plan_row =
  pr_account :: rc_account
  pr_pools :: "string list"
  pr_weekly_used :: f64
  pr_weekly_reset_at :: "i64 option"
  pr_available :: i64
  pr_earliest_expiry :: "i64 option"
  pr_fetched_at :: "i64 option"
  pr_candidate :: credit_candidate

record fleet_plan =
  fp_generated_at :: i64
  fp_total_credits :: i64
  fp_accounts_with_credits :: i64
  fp_recommended_now :: i64
  fp_candidates :: "plan_row list"

definition plan_accounts :: "string option \<Rightarrow> rc_account list \<Rightarrow> account_snapshot list \<Rightarrow> (account_id, rc_account) table" where
  "plan_accounts pool accounts snapshots =
     fold (\<lambda>a t. tbl_put t (ra_id a) a)
       (filter (\<lambda>a. ra_provider a = ''codex'' \<and>
          (case pool of None \<Rightarrow> True
           | Some p \<Rightarrow> is_some_and (find (\<lambda>s. snap_id s = ra_id a) snapshots) (\<lambda>s. p \<in> set (snap_pools s))))
         accounts) []"

definition weekly_used :: "account_snapshot \<Rightarrow> f64" where
  "weekly_used s = (case snap_weekly_quota s of Some w \<Rightarrow> qw_used_percent w | None \<Rightarrow> snap_secondary_used_percent s)"

definition plan_input :: "rc_account \<Rightarrow> account_snapshot \<Rightarrow> credit_snapshot option \<Rightarrow> credit_candidate_input" where
  "plan_input account s credits = \<lparr>
     ri_account_id = ra_id account,
     ri_capacity_credits = unwrap_or (snap_capacity_credits s) (plan_capacity_secondary (ra_plan_type account)),
     ri_weekly_used_percent = weekly_used s,
     ri_weekly_reset_at = Option.bind (snap_weekly_quota s) qw_reset_at,
     ri_available_credits = unwrap_or (map_option cs_available_count credits) 0,
     ri_earliest_expiry = Option.bind credits earliest_expiry,
     ri_fetched_at = unwrap_or (map_option cs_fetched_at credits) 0,
     ri_eligible = (\<not> parked (ra_status account) \<and> is_some_and (snap_weekly_quota s) (\<lambda>w. \<not> qw_stale w))\<rparr>"

definition plan_view :: "rc_account \<Rightarrow> account_snapshot \<Rightarrow> credit_snapshot option \<Rightarrow> credit_candidate \<Rightarrow> plan_row" where
  "plan_view account s credits candidate = \<lparr>
     pr_account = account, pr_pools = snap_pools s, pr_weekly_used = weekly_used s,
     pr_weekly_reset_at = Option.bind (snap_weekly_quota s) qw_reset_at,
     pr_available = unwrap_or (map_option cs_available_count credits) 0,
     pr_earliest_expiry = Option.bind credits earliest_expiry,
     pr_fetched_at = map_option cs_fetched_at credits,
     pr_candidate = candidate\<rparr>"

definition actionable :: "recommendation \<Rightarrow> bool" where
  "actionable r \<longleftrightarrow> r = RedeemNow \<or> r = RedeemBeforeExpiry"

definition row_verdict :: "plan_row \<Rightarrow> recommendation" where
  "row_verdict row = rr_recommendation (pr_candidate row)"

definition row_account :: "plan_row \<Rightarrow> account_id" where
  "row_account row = ra_id (pr_account row)"

text \<open>
  \<open>build_plan\<close>: the rows of accounts that have a cached snapshot. The snapshot of a candidate is found again by
  its id, so the \<open>Err\<close> of the source's second search does not arise.
\<close>

definition build_plan ::
  "i64 \<Rightarrow> string option \<Rightarrow> rc_account list \<Rightarrow> account_snapshot list \<Rightarrow> ledger \<Rightarrow> fleet_plan option" where
  "build_plan now pool accounts snapshots db =
     (let by_id = plan_accounts pool accounts snapshots;
          credits_of = (\<lambda>a. find (\<lambda>c. cs_account_id c = a) (list_snapshots db));
          inputs = List.map_filter (\<lambda>s. map_option (\<lambda>account. plan_input account s (credits_of (snap_id s)))
            (tbl_get by_id (snap_id s))) snapshots;
          optimized = optimize_reset_credits inputs now (snapshot_stale_after_seconds (length by_id));
          row_of = (\<lambda>c. case tbl_get by_id (rr_account_id c) of
              None \<Rightarrow> Some None
            | Some account \<Rightarrow> (case find (\<lambda>s. snap_id s = rr_account_id c) snapshots of
                None \<Rightarrow> None
              | Some s \<Rightarrow> Some (Some (plan_view account s (credits_of (rr_account_id c)) c))));
          rows = map row_of optimized
      in if None \<in> set rows then None
         else let kept = List.map_filter id (List.map_filter id rows)
              in Some \<lparr>fp_generated_at = now, fp_total_credits = sum_list (map pr_available kept),
                   fp_accounts_with_credits = int (length (filter (\<lambda>row. 0 < pr_available row) kept)),
                   fp_recommended_now = int (length (filter (\<lambda>row. actionable (row_verdict row)) kept)),
                   fp_candidates = kept\<rparr>)"

definition offered :: "recommendation \<Rightarrow> bool" where
  "offered r \<longleftrightarrow> r \<noteq> Unavailable \<and> r \<noteq> NoCreditLeft"

definition available_count_for_scope :: "fleet_plan option \<Rightarrow> i64" where
  "available_count_for_scope plan = (case plan of None \<Rightarrow> 0
     | Some p \<Rightarrow> sum_list (map pr_available (filter (\<lambda>row. offered (row_verdict row)) (fp_candidates p))))"

section \<open>Upstream\<close>

text \<open>
  \<open>rc_env\<close>: \<open>chrono\<close>'s timestamp parser, and the hash and the encoding of the \<open>sha2\<close> and \<open>base64\<close> crates.
\<close>

record rc_env =
  re_parse_time :: "string \<Rightarrow> i64 option"
  re_sha256_hex :: "string \<Rightarrow> string"
  re_base64 :: "string \<Rightarrow> string"
  re_unbase64 :: "string \<Rightarrow> string option"

record credit_item =
  it_id :: string
  it_reset_type :: "string option"
  it_status :: "string option"
  it_granted_at :: "string option"
  it_expires_at :: "string option"
  it_title :: "string option"
  it_description :: "string option"
  it_redeem_started_at :: "string option"
  it_redeemed_at :: "string option"

record credits_response =
  rp_credits :: "credit_item list"
  rp_available_count :: i64

record consume_response =
  co_code :: string
  co_redeemed_at :: "string option"
  co_windows_reset :: i64

text \<open>What a consume call comes to (\<open>co_redeemed_at\<close> is the redemption time of the consumed credit, if it is named): the response, an HTTP error with its code, or anything else.\<close>

datatype consume_reply = Consumed consume_response | ConsumeRefused "string option" | ConsumeLost

definition parse_time :: "rc_env \<Rightarrow> string option \<Rightarrow> i64 option" where
  "parse_time env t = Option.bind t (re_parse_time env)"

definition stored_credit :: "rc_env \<Rightarrow> account_id \<Rightarrow> credit_item \<Rightarrow> reset_credit" where
  "stored_credit env account item = \<lparr>
     rc_account_id = account, rc_credit_id = it_id item, rc_reset_type = it_reset_type item,
     rc_status = it_status item, rc_granted_at = parse_time env (it_granted_at item),
     rc_expires_at = parse_time env (it_expires_at item), rc_title = it_title item,
     rc_description = it_description item,
     rc_redeem_started_at = parse_time env (it_redeem_started_at item),
     rc_redeemed_at = parse_time env (it_redeemed_at item)\<rparr>"

definition store_snapshot :: "rc_env \<Rightarrow> account_id \<Rightarrow> credits_response \<Rightarrow> i64 \<Rightarrow> ledger \<Rightarrow> ledger option" where
  "store_snapshot env account response now db =
     replace_snapshot account (rp_available_count response) now (map (stored_credit env account) (rp_credits response)) db"

definition redeemable :: "rc_account \<Rightarrow> bool" where
  "redeemable a \<longleftrightarrow> ra_provider a = ''codex'' \<and> ra_chatgpt_id a \<noteq> None \<and> \<not> parked (ra_status a)"

text \<open>The background refresh of one account, from its row and the reply of the fetch.\<close>

definition refresh_account :: "rc_env \<Rightarrow> rc_account \<Rightarrow> bool \<Rightarrow> credits_response option \<Rightarrow> i64 \<Rightarrow> ledger \<Rightarrow> ledger" where
  "refresh_account env account has_tokens reply now db =
     (if \<not> redeemable account then invalidate (ra_id account) db
      else if \<not> has_tokens then db
      else (case reply of None \<Rightarrow> db | Some response \<Rightarrow>
             unwrap_or (store_snapshot env (ra_id account) response now db) db))"

definition select_credit :: "string option \<Rightarrow> credits_response \<Rightarrow> string option" where
  "select_credit requested response =
     (case sort_by (by_expiry it_expires_at it_id)
        (filter (\<lambda>c. requested = None \<or> requested = Some (it_id c))
          (filter (\<lambda>c. it_status c = Some ''available'') (rp_credits response))) of
        [] \<Rightarrow> None | c # _ \<Rightarrow> Some (it_id c))"

section \<open>One redemption\<close>

datatype redeem_error = Ineligible | NoCredit | Busy | NotRecommended | LeaseLost | StoreFailed | UpstreamFailed

record redeem_view =
  rv_account :: account_id
  rv_code :: string
  rv_windows_reset :: i64
  rv_redeemed_at :: "i64 option"

type_synonym redeem_outcome = "redeem_error + redeem_view"

definition completed_result :: "account_id \<Rightarrow> redeem_result \<Rightarrow> redeem_view" where
  "completed_result account previous = \<lparr>rv_account = account, rv_code = rs_code previous,
     rv_windows_reset = rs_windows_reset previous, rv_redeemed_at = rs_redeemed_at previous\<rparr>"

text \<open>
  Where a redemption stands: before its claim (\<open>PLookup\<close>, \<open>PClaim\<close>), inside it, or after. \<open>PConsume\<close> is about
  to send the consume call for a credit, \<open>PAwait\<close> has sent it.
\<close>

datatype redeem_pc =
    PLookup
  | PClaim
  | PAccount
  | PTokens
  | PResult
  | PRequest
  | PNative "redeem_request option"
  | PUsage
  | PFetch "redeem_request option"
  | PStore "redeem_request option" credits_response
  | PPlan credits_response
  | PNoCredit
  | PPin string
  | PConsume string
  | PAwait string
  | PComplete consume_response
  | PRepair redeem_view
  | PRelease redeem_outcome
  | PDone redeem_outcome

record redeem_flow =
  rf_account :: account_id
  rf_credit :: "string option"
  rf_request :: string
  rf_require :: bool
  rf_native :: "string option"
  rf_holder :: string
  rf_claimed :: bool
  rf_lease_lost :: bool
  rf_pc :: redeem_pc

record rc_answer =
  an_io :: bool
  an_late :: bool
  an_account :: "rc_account option"
  an_tokens :: bool
  an_refreshed :: bool
  an_fetch :: "credits_response option"
  an_accounts :: "rc_account list"
  an_snapshots :: "account_snapshot list"
  an_consume :: consume_reply

definition start_redeem ::
  "account_id \<Rightarrow> string option \<Rightarrow> string \<Rightarrow> bool \<Rightarrow> string option \<Rightarrow> string \<Rightarrow> redeem_flow" where
  "start_redeem account credit request require native holder = \<lparr>
     rf_account = account, rf_credit = credit, rf_request = request, rf_require = require, rf_native = native,
     rf_holder = holder, rf_claimed = False, rf_lease_lost = False, rf_pc = PLookup\<rparr>"

abbreviation goto :: "redeem_pc \<Rightarrow> redeem_flow \<Rightarrow> redeem_flow" where
  "goto pc f \<equiv> f\<lparr>rf_pc := pc\<rparr>"

definition finish_redeem :: "redeem_outcome \<Rightarrow> redeem_flow \<Rightarrow> redeem_flow" where
  "finish_redeem outcome f = goto (if rf_claimed f then PRelease outcome else PDone outcome) f"

abbreviation fail_redeem :: "redeem_error \<Rightarrow> redeem_flow \<Rightarrow> redeem_flow" where
  "fail_redeem e f \<equiv> finish_redeem (Inl e) f"

definition actionable_for :: "account_id \<Rightarrow> fleet_plan option \<Rightarrow> bool" where
  "actionable_for account plan = is_some_and plan
     (\<lambda>p. \<exists>row \<in> set (fp_candidates p). row_account row = account \<and> actionable (row_verdict row))"

text \<open>The selection between the snapshot (or the plan) and the pin runs without an await.\<close>

definition go_select :: "redeem_request option \<Rightarrow> credits_response \<Rightarrow> redeem_flow \<Rightarrow> redeem_flow" where
  "go_select existing fresh f =
     (case existing of
        Some row \<Rightarrow> goto (PPin (rq_credit_id row)) f
      | None \<Rightarrow> (case select_credit (rf_credit f) fresh of
          Some credit \<Rightarrow> goto (PPin credit) f
        | None \<Rightarrow> if rf_native f = None then fail_redeem NoCredit f else goto PNoCredit f))"

definition go_usage :: "redeem_request option \<Rightarrow> redeem_flow \<Rightarrow> redeem_flow" where
  "go_usage existing f =
     goto (if rf_require f \<and> existing = None then PUsage else PFetch existing) f"

text \<open>The rejections of the upstream that are final answers.\<close>

definition consumed_of :: "consume_reply \<Rightarrow> consume_response option" where
  "consumed_of reply = (case reply of
     Consumed r \<Rightarrow> Some r
   | ConsumeRefused (Some code) \<Rightarrow> if code \<in> set [''no_credit'', ''already_redeemed'', ''nothing_to_reset'']
       then Some \<lparr>co_code = code, co_redeemed_at = None, co_windows_reset = 0\<rparr> else None
   | _ \<Rightarrow> None)"

text \<open>
  \<open>redeem_one\<close> and \<open>redeem_one_claimed\<close>, one await point per step. The two readings of the clock in the
  acquisition of a claim coincide.
\<close>

definition claim_step :: "rc_answer \<Rightarrow> i64 \<Rightarrow> redeem_flow \<Rightarrow> ledger \<Rightarrow> redeem_flow \<times> ledger" where
  "claim_step an now f db =
     (case try_acquire_claim (rf_account f) (rf_holder f) now (now + claim_lease_seconds) db of
        None \<Rightarrow> (fail_redeem StoreFailed f, db)
      | Some (True, db') \<Rightarrow> (goto PAccount (f\<lparr>rf_claimed := True\<rparr>), db')
      | Some (False, db') \<Rightarrow> (if an_late an then fail_redeem Busy f else f, db'))"

definition result_step :: "redeem_pc \<Rightarrow> i64 \<Rightarrow> redeem_flow \<Rightarrow> ledger \<Rightarrow> redeem_flow \<times> ledger" where
  "result_step next_pc now f db =
     (case get_result db (rf_account f) (rf_request f) now request_ttl_seconds of
        Some previous \<Rightarrow> (goto (PRepair (completed_result (rf_account f) previous)) f, db)
      | None \<Rightarrow> (goto next_pc f, db))"

definition request_step :: "i64 \<Rightarrow> redeem_flow \<Rightarrow> ledger \<Rightarrow> redeem_flow \<times> ledger" where
  "request_step now f db =
     (let existing = get_request db (rf_account f) (rf_request f) now request_ttl_seconds
      in (if rf_native f = None then go_usage existing f else goto (PNative existing) f, db))"

definition native_step :: "redeem_request option \<Rightarrow> i64 \<Rightarrow> redeem_flow \<Rightarrow> ledger \<Rightarrow> redeem_flow \<times> ledger" where
  "native_step existing now f db =
     (let native = Option.bind (rf_native f) (\<lambda>n. get_native_request db n now request_ttl_seconds)
      in (if is_some_and (Option.bind native nr_result) (\<lambda>(code, _). code = ''no_credit'')
          then fail_redeem NoCredit f else go_usage existing f, db))"

definition store_step ::
  "rc_env \<Rightarrow> redeem_request option \<Rightarrow> credits_response \<Rightarrow> i64 \<Rightarrow> redeem_flow \<Rightarrow> ledger \<Rightarrow> redeem_flow \<times> ledger" where
  "store_step env existing fresh now f db =
     (case store_snapshot env (rf_account f) fresh now db of
        None \<Rightarrow> (fail_redeem StoreFailed f, db)
      | Some db' \<Rightarrow> (if rf_require f \<and> existing = None then goto (PPlan fresh) f else go_select existing fresh f, db'))"

definition plan_step ::
  "rc_answer \<Rightarrow> credits_response \<Rightarrow> i64 \<Rightarrow> redeem_flow \<Rightarrow> ledger \<Rightarrow> redeem_flow \<times> ledger" where
  "plan_step an fresh now f db =
     (let plan = build_plan now None (an_accounts an) (an_snapshots an) db
      in (if plan = None then fail_redeem StoreFailed f
          else if actionable_for (rf_account f) plan then go_select None fresh f
          else fail_redeem NotRecommended f, db))"

definition no_credit_step :: "i64 \<Rightarrow> redeem_flow \<Rightarrow> ledger \<Rightarrow> redeem_flow \<times> ledger" where
  "no_credit_step now f db =
     (fail_redeem NoCredit f, case rf_native f of None \<Rightarrow> db
        | Some n \<Rightarrow> snd (complete_native_account_no_credit n (rf_account f) now db))"

definition pin_step :: "string \<Rightarrow> i64 \<Rightarrow> redeem_flow \<Rightarrow> ledger \<Rightarrow> redeem_flow \<times> ledger" where
  "pin_step selected now f db =
     (case pin_request (rf_account f) (rf_request f) selected now request_ttl_seconds db of
        None \<Rightarrow> (fail_redeem StoreFailed f, db)
      | Some (pinned, db') \<Rightarrow> (goto (PConsume pinned) f, db'))"

definition complete_step ::
  "rc_env \<Rightarrow> consume_response \<Rightarrow> i64 \<Rightarrow> redeem_flow \<Rightarrow> ledger \<Rightarrow> redeem_flow \<times> ledger" where
  "complete_step env consumed now f db =
     (case complete_request_with_native (rf_account f) (rf_request f)
         \<lparr>rs_code = co_code consumed, rs_windows_reset = co_windows_reset consumed,
          rs_redeemed_at = parse_time env (co_redeemed_at consumed), rs_completed_at = now\<rparr> (rf_native f) db of
        None \<Rightarrow> (fail_redeem StoreFailed f, db)
      | Some (terminal, db') \<Rightarrow> (goto (PRepair (completed_result (rf_account f) terminal)) f, db'))"

definition redeem_advance ::
  "rc_env \<Rightarrow> rc_answer \<Rightarrow> i64 \<Rightarrow> redeem_flow \<Rightarrow> ledger \<Rightarrow> redeem_flow \<times> ledger" where
  "redeem_advance env an now f db =
     (let stored = (\<lambda>step. if an_io an then step else (fail_redeem StoreFailed f, db)) in
      case rf_pc f of
        PLookup \<Rightarrow> stored (result_step PClaim now f db)
      | PClaim \<Rightarrow> stored (claim_step an now f db)
      | PAccount \<Rightarrow> stored (if is_some_and (an_account an) redeemable then goto PTokens f
          else fail_redeem Ineligible f, db)
      | PTokens \<Rightarrow> stored (if an_tokens an then goto PResult f else fail_redeem Ineligible f, db)
      | PResult \<Rightarrow> stored (result_step PRequest now f db)
      | PRequest \<Rightarrow> stored (request_step now f db)
      | PNative existing \<Rightarrow> stored (native_step existing now f db)
      | PUsage \<Rightarrow> (if an_refreshed an then goto (PFetch None) f else fail_redeem UpstreamFailed f, db)
      | PFetch existing \<Rightarrow> (case an_fetch an of None \<Rightarrow> fail_redeem UpstreamFailed f
          | Some fresh \<Rightarrow> goto (PStore existing fresh) f, db)
      | PStore existing fresh \<Rightarrow> stored (store_step env existing fresh now f db)
      | PPlan fresh \<Rightarrow> stored (plan_step an fresh now f db)
      | PNoCredit \<Rightarrow> stored (no_credit_step now f db)
      | PPin selected \<Rightarrow> stored (pin_step selected now f db)
      | PConsume credit \<Rightarrow> (goto (PAwait credit) f, db)
      | PAwait _ \<Rightarrow> (case consumed_of (an_consume an) of None \<Rightarrow> fail_redeem UpstreamFailed f
          | Some consumed \<Rightarrow> goto (PComplete consumed) f, db)
      | PComplete consumed \<Rightarrow> stored (complete_step env consumed now f db)
      | PRepair view \<Rightarrow> (finish_redeem (Inr view) f, if an_io an then invalidate (rf_account f) db else db)
      | PRelease outcome \<Rightarrow> (goto (PDone outcome) (f\<lparr>rf_claimed := False\<rparr>),
          if an_io an then release_claim (rf_account f) (rf_holder f) db else db)
      | PDone _ \<Rightarrow> (f, db))"

text \<open>The heartbeat of a claim, and \<open>redeem_one\<close> once it hears that the lease is lost.\<close>

definition heartbeat :: "bool \<Rightarrow> i64 \<Rightarrow> redeem_flow \<Rightarrow> ledger \<Rightarrow> redeem_flow \<times> ledger" where
  "heartbeat io now f db =
     (if \<not> io then (f\<lparr>rf_lease_lost := True\<rparr>, db)
      else (case renew_claim (rf_account f) (rf_holder f) (now + claim_lease_seconds) db of
          (True, db') \<Rightarrow> (f, db') | (False, db') \<Rightarrow> (f\<lparr>rf_lease_lost := True\<rparr>, db')))"

definition lose_lease :: "redeem_flow \<Rightarrow> redeem_flow" where
  "lose_lease f = goto (PRelease (Inl LeaseLost)) f"

section \<open>The native endpoint\<close>

datatype native_reply =
    NrUnauthorized
  | NrBadRequest
  | NrConflict string
  | NrForbidden
  | NrUnavailable
  | NrResult string i64
  | NrError redeem_error

fun error_response :: "redeem_error \<Rightarrow> u16 \<times> string" where
  "error_response Ineligible = (409, ''reset_credit_account_ineligible'')"
| "error_response NoCredit = (409, ''no_available_reset_credit'')"
| "error_response Busy = (409, ''reset_credit_redeem_in_progress'')"
| "error_response NotRecommended = (409, ''reset_credit_recommendation_changed'')"
| "error_response LeaseLost = (503, ''reset_credit_redeem_lease_lost'')"
| "error_response StoreFailed = (503, ''reset_credit_state_unavailable'')"
| "error_response UpstreamFailed = (503, ''reset_credit_upstream_unavailable'')"

definition native_answer :: "redeem_outcome \<Rightarrow> native_reply" where
  "native_answer outcome = (case outcome of
     Inr view \<Rightarrow> NrResult (rv_code view) (rv_windows_reset view)
   | Inl NoCredit \<Rightarrow> NrResult ''no_credit'' 0
   | Inl e \<Rightarrow> NrError e)"

datatype native_pc =
    NLookup
  | NPlan "native_request option"
  | NEmpty
  | NPin account_id "string option" fleet_plan
  | NRedeem account_id "string option"
  | NReply native_reply

record native_flow =
  nf_request :: string
  nf_pool :: "string option"
  nf_explicit :: "(account_id \<times> string) option"
  nf_now :: i64
  nf_pc :: native_pc

definition opaque_credit_id :: "rc_env \<Rightarrow> account_id \<Rightarrow> string \<Rightarrow> string" where
  "opaque_credit_id env account credit = re_base64 env (account @ CHR 0x00 # credit)"

definition decode_opaque_credit_id :: "rc_env \<Rightarrow> string \<Rightarrow> (account_id \<times> string) option" where
  "decode_opaque_credit_id env value =
     (case re_unbase64 env value of
        None \<Rightarrow> None
      | Some decoded \<Rightarrow> (case split_once (CHR 0x00) decoded of
          Some (account, credit) \<Rightarrow> if account \<noteq> '''' \<and> credit \<noteq> '''' then Some (account, credit) else None
        | None \<Rightarrow> None))"

definition pool_scope :: "native_flow \<Rightarrow> string" where
  "pool_scope nf = unwrap_or (nf_pool nf) ''''"

definition in_plan :: "account_id \<Rightarrow> fleet_plan \<Rightarrow> bool" where
  "in_plan account plan \<longleftrightarrow> (\<exists>row \<in> set (fp_candidates plan). row_account row = account)"

definition scope_conflicts :: "native_flow \<Rightarrow> native_request \<Rightarrow> bool" where
  "scope_conflicts nf pin = is_some_and (nr_scope pin) (\<lambda>s. s \<noteq> pool_scope nf)"

definition explicit_conflicts :: "native_flow \<Rightarrow> native_request \<Rightarrow> bool" where
  "explicit_conflicts nf pin = is_some_and (nf_explicit nf)
     (\<lambda>(account, credit). nr_account pin \<noteq> Some account \<or> nr_credit pin \<noteq> Some credit)"

definition native_plan :: "rc_answer \<Rightarrow> i64 \<Rightarrow> native_flow \<Rightarrow> ledger \<Rightarrow> fleet_plan option" where
  "native_plan an now nf db =
     (if an_io an then build_plan now (nf_pool nf) (an_accounts an) (an_snapshots an) db else None)"

abbreviation reply :: "native_reply \<Rightarrow> native_flow \<Rightarrow> native_flow" where
  "reply r nf \<equiv> nf\<lparr>nf_pc := NReply r\<rparr>"

text \<open>A request that already has its terminal result; one without a scope is checked against the pool.\<close>

definition answer_terminal ::
  "rc_answer \<Rightarrow> i64 \<Rightarrow> native_flow \<Rightarrow> native_request \<Rightarrow> string \<times> i64 \<times> i64 \<Rightarrow> ledger \<Rightarrow> native_flow" where
  "answer_terminal an now nf pin result db =
     (let answer = reply (NrResult (fst result) (fst (snd result))) nf in
      if explicit_conflicts nf pin
      then reply (NrConflict ''redeem_request_id is already pinned to a different operation'') nf
      else (case (nr_scope pin, nf_pool nf, nr_account pin) of
          (None, Some _, Some account) \<Rightarrow> (case native_plan an now nf db of
              None \<Rightarrow> reply NrUnavailable nf
            | Some plan \<Rightarrow> if in_plan account plan then answer else reply NrForbidden nf)
        | _ \<Rightarrow> answer))"

definition different_scope :: native_reply where
  "different_scope = NrConflict ''redeem_request_id is already pinned to a different pool scope''"

text \<open>The lookup reads the clock; the writes of the pin use that reading.\<close>

definition native_lookup :: "rc_answer \<Rightarrow> i64 \<Rightarrow> native_flow \<Rightarrow> ledger \<Rightarrow> native_flow" where
  "native_lookup an now nf db =
     (if \<not> an_io an then reply NrUnavailable nf
      else (case get_native_request db (nf_request nf) now request_ttl_seconds of
          None \<Rightarrow> nf\<lparr>nf_now := now, nf_pc := NPlan None\<rparr>
        | Some pin \<Rightarrow> if scope_conflicts nf pin then reply different_scope nf
            else (case nr_result pin of
                Some result \<Rightarrow> answer_terminal an now nf pin result db
              | None \<Rightarrow> nf\<lparr>nf_now := now, nf_pc := NPlan (Some pin)\<rparr>)))"

text \<open>Pins are checked after they were read or written; a good one names the account to redeem on.\<close>

definition check_pin :: "native_flow \<Rightarrow> fleet_plan \<Rightarrow> native_request \<Rightarrow> native_flow" where
  "check_pin nf plan pin =
     (if scope_conflicts nf pin then reply different_scope nf
      else if explicit_conflicts nf pin
      then reply (NrConflict ''redeem_request_id is already pinned to a different credit'') nf
      else (case nr_account pin of
          None \<Rightarrow> reply NrUnavailable nf
        | Some account \<Rightarrow> if in_plan account plan then nf\<lparr>nf_pc := NRedeem account (nr_credit pin)\<rparr>
            else reply NrForbidden nf))"

definition native_candidate :: "fleet_plan \<Rightarrow> plan_row option" where
  "native_candidate plan = find (\<lambda>row. 0 < pr_available row \<and>
     row_verdict row \<notin> {Unavailable, WaitForNaturalReset, NoCreditLeft}) (fp_candidates plan)"

definition native_selected :: "native_flow \<Rightarrow> fleet_plan \<Rightarrow> (account_id \<times> string option) option" where
  "native_selected nf plan =
     (case nf_explicit nf of
        Some (account, credit) \<Rightarrow> Some (account, Some credit)
      | None \<Rightarrow> map_option (\<lambda>row. (row_account row, None)) (native_candidate plan))"

definition native_select :: "native_flow \<Rightarrow> fleet_plan \<Rightarrow> native_flow" where
  "native_select nf plan =
     (case native_selected nf plan of
        None \<Rightarrow> nf\<lparr>nf_pc := NEmpty\<rparr>
      | Some (account, credit) \<Rightarrow>
          if \<exists>row \<in> set (fp_candidates plan). row_account row = account \<and> offered (row_verdict row)
          then nf\<lparr>nf_pc := NPin account credit plan\<rparr> else reply NrForbidden nf)"

definition native_empty :: "rc_answer \<Rightarrow> native_flow \<Rightarrow> ledger \<Rightarrow> native_flow \<times> ledger" where
  "native_empty an nf db =
     (if \<not> an_io an then (reply NrUnavailable nf, db)
      else (case complete_native_no_credit (nf_request nf) (pool_scope nf) (nf_now nf) request_ttl_seconds db of
          (None, db') \<Rightarrow> (reply NrUnavailable nf, db')
        | (Some terminal, db') \<Rightarrow> (if nr_scope terminal \<noteq> Some (pool_scope nf) then reply different_scope nf
            else (case nr_result terminal of
                Some (code, windows, _) \<Rightarrow> reply (NrResult code windows) nf
              | None \<Rightarrow> reply NrUnavailable nf), db')))"

definition native_pin ::
  "account_id \<Rightarrow> string option \<Rightarrow> fleet_plan \<Rightarrow> rc_answer \<Rightarrow> native_flow \<Rightarrow> ledger \<Rightarrow> native_flow \<times> ledger" where
  "native_pin account credit plan an nf db =
     (if \<not> an_io an then (reply NrUnavailable nf, db)
      else (case pin_native_request (nf_request nf) account credit (pool_scope nf) (nf_now nf) request_ttl_seconds db of
          (None, db') \<Rightarrow> (reply NrUnavailable nf, db')
        | (Some pin, db') \<Rightarrow> (check_pin nf plan pin, db')))"

definition native_advance :: "rc_answer \<Rightarrow> i64 \<Rightarrow> native_flow \<Rightarrow> ledger \<Rightarrow> native_flow \<times> ledger" where
  "native_advance an now nf db =
     (case nf_pc nf of
        NLookup \<Rightarrow> (native_lookup an now nf db, db)
      | NPlan existing \<Rightarrow> (case native_plan an now nf db of
            None \<Rightarrow> reply NrUnavailable nf
          | Some plan \<Rightarrow> (case existing of Some pin \<Rightarrow> check_pin nf plan pin | None \<Rightarrow> native_select nf plan), db)
      | NEmpty \<Rightarrow> native_empty an nf db
      | NPin account credit plan \<Rightarrow> native_pin account credit plan an nf db
      | NRedeem _ _ \<Rightarrow> (nf, db)
      | NReply _ \<Rightarrow> (nf, db))"

text \<open>How a native request starts, and the redemption it hands over to.\<close>

definition start_native :: "rc_env \<Rightarrow> bool \<Rightarrow> string option \<Rightarrow> string \<Rightarrow> string option \<Rightarrow> native_flow" where
  "start_native env authenticated pool request credit =
     (let nf = \<lparr>nf_request = request, nf_pool = pool, nf_explicit = None, nf_now = 0, nf_pc = NLookup\<rparr> in
      if \<not> authenticated then reply NrUnauthorized nf
      else if str_trim request = '''' then reply NrBadRequest nf
      else (case credit of
          None \<Rightarrow> nf
        | Some value \<Rightarrow> (case decode_opaque_credit_id env value of
            Some explicit \<Rightarrow> nf\<lparr>nf_explicit := Some explicit\<rparr>
          | None \<Rightarrow> reply (NrConflict ''requested credit is unavailable'') nf)))"

definition native_redeem :: "native_flow \<Rightarrow> account_id \<Rightarrow> string option \<Rightarrow> string \<Rightarrow> redeem_flow" where
  "native_redeem nf account credit holder =
     start_redeem account credit (nf_request nf) False (Some (nf_request nf)) holder"

section \<open>The native list\<close>

record native_credit =
  nc_id :: string
  nc_reset_type :: string
  nc_status :: string
  nc_granted_at :: string
  nc_expires_at :: "string option"
  nc_title :: "string option"
  nc_description :: "string option"

definition native_list :: "rc_env \<Rightarrow> (i64 \<Rightarrow> string option) \<Rightarrow> fleet_plan \<Rightarrow> ledger \<Rightarrow> native_credit list" where
  "native_list env format plan db =
     (let allowed = map row_account (filter (\<lambda>row. offered (row_verdict row)) (fp_candidates plan));
          of_credit = (\<lambda>account c. \<lparr>
            nc_id = opaque_credit_id env account (rc_credit_id c),
            nc_reset_type = unwrap_or (rc_reset_type c) ''rate_limit_reset'',
            nc_status = ''available'',
            nc_granted_at = unwrap_or (Option.bind (rc_granted_at c) format) ''1970-01-01T00:00:00Z'',
            nc_expires_at = Option.bind (rc_expires_at c) format,
            nc_title = rc_title c, nc_description = rc_description c\<rparr>)
      in sort_by (by_expiry nc_expires_at nc_id)
           (concat (map (\<lambda>cs. map (of_credit (cs_account_id cs))
               (filter (\<lambda>c. rc_status c = Some ''available'') (cs_credits cs)))
             (filter (\<lambda>cs. cs_account_id cs \<in> set allowed) (list_snapshots db)))))"

section \<open>The fleet endpoint\<close>

definition fleet_request_ok :: "string \<Rightarrow> account_id list \<Rightarrow> bool" where
  "fleet_request_ok request accounts \<longleftrightarrow>
     str_trim request \<noteq> '''' \<and> accounts \<noteq> [] \<and> '''' \<notin> set accounts \<and> distinct accounts"

definition fleet_child_id :: "rc_env \<Rightarrow> string \<Rightarrow> account_id \<Rightarrow> string" where
  "fleet_child_id env request account = ''fleet-'' @ re_sha256_hex env (request @ CHR 0x00 # account)"

text \<open>The pin of the account list; the redemptions of an accepted request run one after the other.\<close>

definition fleet_pin :: "(account_id list \<Rightarrow> string) \<Rightarrow> string \<Rightarrow> account_id list \<Rightarrow> i64 \<Rightarrow> ledger \<Rightarrow> bool \<times> ledger" where
  "fleet_pin to_json request accounts now db =
     (case pin_fleet_request request (to_json accounts) now request_ttl_seconds db of
        (pinned, db') \<Rightarrow> (pinned = Some (to_json accounts), db'))"

definition fleet_redemptions :: "rc_env \<Rightarrow> string \<Rightarrow> account_id list \<Rightarrow> (account_id \<Rightarrow> string) \<Rightarrow> redeem_flow list" where
  "fleet_redemptions env request accounts holder_of =
     map (\<lambda>a. start_redeem a None (fleet_child_id env request a) False None (holder_of a)) accounts"

end
