(* ===== verification/Reset_System.thy ===== *)
theory Reset_System
  imports Reset_Redeem
begin

text \<open>
  Redemptions, native requests, background refreshes, operators, restarts and the clock as one step relation on
  the durable tables. \<open>sy_log\<close> records what the properties speak of: pins, consume calls, answers, native
  hand-overs, deleted accounts, and leases that ran out while their holder was still running.
\<close>

datatype rc_event =
    EvPin request_key string i64 i64
  | EvCall request_key string i64
  | EvAnswer request_key redeem_result i64
  | EvNative string "account_id option" i64 i64
  | EvHandover string account_id
  | EvDeleted account_id
  | EvLapsed account_id

fun answered_with :: "redeem_pc \<Rightarrow> redeem_view option" where
  "answered_with (PRepair v) = Some v"
| "answered_with (PRelease (Inr v)) = Some v"
| "answered_with (PDone (Inr v)) = Some v"
| "answered_with _ = None"

record rc_system =
  sy_ledger :: ledger
  sy_flows :: "nat \<rightharpoonup> redeem_flow"
  sy_natives :: "nat \<rightharpoonup> native_flow"
  sy_now :: i64
  sy_log :: "rc_event list"

definition flow_key :: "redeem_flow \<Rightarrow> request_key" where
  "flow_key f = (rf_account f, rf_request f)"

text \<open>
  Pins and answers are logged as the rows they read back, with the pin's creation time or the whole result, and
  with when that was.
\<close>

definition pin_events :: "request_key \<Rightarrow> i64 \<Rightarrow> ledger \<Rightarrow> rc_event list" where
  "pin_events key now db = (case tbl_get (rl_requests db) key of
     Some row \<Rightarrow> [EvPin key (rq_credit_id row) (rq_created_at row) now] | None \<Rightarrow> [])"

definition answer_events :: "request_key \<Rightarrow> i64 \<Rightarrow> ledger \<Rightarrow> rc_event list" where
  "answer_events key now db = (case tbl_get (rl_results db) key of Some row \<Rightarrow> [EvAnswer key row now] | None \<Rightarrow> [])"

definition redeem_events :: "request_key \<Rightarrow> redeem_pc \<Rightarrow> redeem_pc \<Rightarrow> i64 \<Rightarrow> ledger \<Rightarrow> rc_event list" where
  "redeem_events key pc pc' now db =
     (let answered = (case pc' of PRepair _ \<Rightarrow> answer_events key now db | _ \<Rightarrow> []) in
      case pc of
        PPin _ \<Rightarrow> (case pc' of PConsume _ \<Rightarrow> pin_events key now db | _ \<Rightarrow> [])
      | PConsume credit \<Rightarrow> [EvCall key credit now]
      | PLookup \<Rightarrow> answered
      | PResult \<Rightarrow> answered
      | PComplete _ \<Rightarrow> answered
      | _ \<Rightarrow> [])"

text \<open>Every step of a native request logs the pin that its id has then.\<close>

definition native_events :: "string \<Rightarrow> i64 \<Rightarrow> ledger \<Rightarrow> rc_event list" where
  "native_events req now db = (case tbl_get (rl_native db) req of
     Some row \<Rightarrow> [EvNative req (nr_account row) (nr_created_at row) now] | None \<Rightarrow> [])"

definition lapsed :: "i64 \<Rightarrow> rc_system \<Rightarrow> account_id list" where
  "lapsed t sy = map fst (filter (\<lambda>(account, holder, until). until < t \<and>
     (\<exists>i f. sy_flows sy i = Some f \<and> rf_claimed f \<and> rf_account f = account \<and> rf_holder f = holder))
     (rl_claims (sy_ledger sy)))"

definition unused_holder :: "string \<Rightarrow> rc_system \<Rightarrow> bool" where
  "unused_holder h sy \<longleftrightarrow>
     (\<forall>i f. sy_flows sy i = Some f \<longrightarrow> rf_holder f \<noteq> h) \<and>
     (\<forall>(account, holder, until) \<in> set (rl_claims (sy_ledger sy)). holder \<noteq> h)"

text \<open>
  The steps. \<open>Redeem\<close> is a redemption by the dashboard or for a member of a fleet request; \<open>Handover\<close> the one a
  native request ends in. Random holder ids do not repeat. \<open>Cancel\<close> drops a handler at an await point, which
  leaves its claim to expire; \<open>Restart\<close> loses everything but the tables and the clock.
\<close>

fun releasing :: "redeem_pc \<Rightarrow> bool" where
  "releasing (PRelease _) = True"
| "releasing _ = False"

inductive rc_step :: "rc_env \<Rightarrow> rc_system \<Rightarrow> rc_system \<Rightarrow> bool" for env :: rc_env where
  Redeem: "sy_flows sy i = None \<Longrightarrow> unused_holder holder sy \<Longrightarrow>
    rc_step env sy (sy\<lparr>sy_flows := (sy_flows sy)(i \<mapsto> start_redeem account credit request require None holder)\<rparr>)"
| Native: "sy_natives sy i = None \<Longrightarrow>
    rc_step env sy (sy\<lparr>sy_natives := (sy_natives sy)(i \<mapsto> start_native env authenticated pool request credit)\<rparr>)"
| NativeStep: "sy_natives sy i = Some nf \<Longrightarrow> native_advance an (sy_now sy) nf (sy_ledger sy) = (nf', db') \<Longrightarrow>
    rc_step env sy (sy\<lparr>sy_natives := (sy_natives sy)(i \<mapsto> nf'), sy_ledger := db',
      sy_log := sy_log sy @ native_events (nf_request nf) (sy_now sy) db'\<rparr>)"
| Handover: "sy_natives sy i = Some nf \<Longrightarrow> nf_pc nf = NRedeem account credit \<Longrightarrow> sy_flows sy j = None \<Longrightarrow>
    unused_holder holder sy \<Longrightarrow>
    rc_step env sy (sy\<lparr>sy_natives := (sy_natives sy)(i := None),
      sy_flows := (sy_flows sy)(j \<mapsto> native_redeem nf account credit holder),
      sy_log := sy_log sy @ [EvHandover (nf_request nf) account]\<rparr>)"
| Advance: "sy_flows sy i = Some f \<Longrightarrow> redeem_advance env an (sy_now sy) f (sy_ledger sy) = (f', db') \<Longrightarrow>
    rc_step env sy (sy\<lparr>sy_flows := (sy_flows sy)(i \<mapsto> f'), sy_ledger := db',
      sy_log := sy_log sy @ redeem_events (flow_key f) (rf_pc f) (rf_pc f') (sy_now sy) db'\<rparr>)"
| Heartbeat: "sy_flows sy i = Some f \<Longrightarrow> rf_claimed f \<Longrightarrow> \<not> rf_lease_lost f \<Longrightarrow>
    heartbeat io (sy_now sy) f (sy_ledger sy) = (f', db') \<Longrightarrow>
    rc_step env sy (sy\<lparr>sy_flows := (sy_flows sy)(i \<mapsto> f'), sy_ledger := db'\<rparr>)"
| Lose: "sy_flows sy i = Some f \<Longrightarrow> rf_claimed f \<Longrightarrow> rf_lease_lost f \<Longrightarrow> \<not> releasing (rf_pc f) \<Longrightarrow>
    rc_step env sy (sy\<lparr>sy_flows := (sy_flows sy)(i \<mapsto> lose_lease f)\<rparr>)"
| Cancel: "rc_step env sy (sy\<lparr>sy_flows := (sy_flows sy)(i := None)\<rparr>)"
| CancelNative: "rc_step env sy (sy\<lparr>sy_natives := (sy_natives sy)(i := None)\<rparr>)"
| Refresh: "rc_step env sy
    (sy\<lparr>sy_ledger := refresh_account env account has_tokens fetched (sy_now sy) (sy_ledger sy)\<rparr>)"
| Fleet: "fleet_pin to_json request accounts (sy_now sy) (sy_ledger sy) = (ok, db') \<Longrightarrow>
    rc_step env sy (sy\<lparr>sy_ledger := db'\<rparr>)"
| Add: "rc_step env sy (sy\<lparr>sy_ledger := (sy_ledger sy)\<lparr>rl_accounts := account # rl_accounts (sy_ledger sy)\<rparr>\<rparr>)"
| Delete: "rc_step env sy (sy\<lparr>sy_ledger := delete_ledger_account account (sy_ledger sy),
    sy_log := sy_log sy @ [EvDeleted account]\<rparr>)"
| Tick: "sy_now sy \<le> t \<Longrightarrow> t \<le> i64_max \<Longrightarrow>
    rc_step env sy (sy\<lparr>sy_now := t, sy_log := sy_log sy @ map EvLapsed (lapsed t sy)\<rparr>)"
| Restart: "rc_step env sy (sy\<lparr>sy_flows := Map.empty, sy_natives := Map.empty\<rparr>)"

definition rc_init :: "i64 \<Rightarrow> rc_system" where
  "rc_init t = \<lparr>sy_ledger = empty_ledger, sy_flows = Map.empty, sy_natives = Map.empty, sy_now = t, sy_log = []\<rparr>"

abbreviation rc_run :: "rc_env \<Rightarrow> rc_system \<Rightarrow> bool" where
  "rc_run env sy \<equiv> \<exists>t. 0 \<le> t \<and> t \<le> i64_max \<and> (rc_step env)\<^sup>*\<^sup>* (rc_init t) sy"

section \<open>Scripted runs\<close>

text \<open>
  Schedules of redemptions, for concrete runs: \<open>advance_flow\<close> lets the redemption with a number take its next
  step with an answer.
\<close>

definition advance_flow :: "rc_env \<Rightarrow> nat \<times> rc_answer \<Rightarrow> rc_system \<Rightarrow> rc_system" where
  "advance_flow env go sy = (case sy_flows sy (fst go) of
     None \<Rightarrow> sy
   | Some f \<Rightarrow> (case redeem_advance env (snd go) (sy_now sy) f (sy_ledger sy) of
       (f', db') \<Rightarrow> sy\<lparr>sy_flows := (sy_flows sy)(fst go \<mapsto> f'), sy_ledger := db',
         sy_log := sy_log sy @ redeem_events (flow_key f) (rf_pc f) (rf_pc f') (sy_now sy) db'\<rparr>))"

lemma run_step: "rc_run env sy \<Longrightarrow> rc_step env sy sy' \<Longrightarrow> rc_run env sy'"
  by (meson rtranclp.rtrancl_into_rtrancl)

lemma run_advance:
  assumes "rc_run env sy"
  shows "rc_run env (advance_flow env go sy)"
proof (cases "sy_flows sy (fst go)")
  case None
  then show ?thesis using assms by (simp add: advance_flow_def)
next
  case (Some f)
  obtain f' db' where "redeem_advance env (snd go) (sy_now sy) f (sy_ledger sy) = (f', db')" by fastforce
  from run_step [OF assms Advance [OF Some this]] Some this show ?thesis by (simp add: advance_flow_def)
qed

lemma run_script: "rc_run env sy \<Longrightarrow> rc_run env (fold (advance_flow env) script sy)"
  by (induction script arbitrary: sy) (auto intro: run_advance)

text \<open>One account with two attempts at one redemption request.\<close>

definition two_attempts :: "account_id \<Rightarrow> string \<Rightarrow> i64 \<Rightarrow> rc_system" where
  "two_attempts a r t = \<lparr>sy_ledger = empty_ledger\<lparr>rl_accounts := [a]\<rparr>,
     sy_flows = [0 \<mapsto> start_redeem a None r False None ''h0'', 1 \<mapsto> start_redeem a None r False None ''h1''],
     sy_natives = Map.empty, sy_now = t, sy_log = []\<rparr>"

lemma run_two_attempts:
  assumes "0 \<le> t" "t \<le> i64_max"
  shows "rc_run env (two_attempts a r t)"
proof -
  let ?s0 = "rc_init t"
  let ?s1 = "?s0\<lparr>sy_ledger := (sy_ledger ?s0)\<lparr>rl_accounts := a # rl_accounts (sy_ledger ?s0)\<rparr>\<rparr>"
  let ?s2 = "?s1\<lparr>sy_flows := (sy_flows ?s1)(0 \<mapsto> start_redeem a None r False None ''h0'')\<rparr>"
  let ?s3 = "?s2\<lparr>sy_flows := (sy_flows ?s2)(1 \<mapsto> start_redeem a None r False None ''h1'')\<rparr>"
  have "rc_step env ?s0 ?s1" by (rule Add)
  moreover have "rc_step env ?s1 ?s2"
    by (rule Redeem) (simp_all add: rc_init_def unused_holder_def empty_ledger_def)
  moreover have "rc_step env ?s2 ?s3"
    by (rule Redeem) (simp_all add: rc_init_def unused_holder_def empty_ledger_def start_redeem_def)
  ultimately have "(rc_step env)\<^sup>*\<^sup>* ?s0 ?s3" by (meson rtranclp.rtrancl_into_rtrancl rtranclp.rtrancl_refl)
  moreover have "?s3 = two_attempts a r t" by (simp add: rc_init_def two_attempts_def empty_ledger_def)
  ultimately show ?thesis using assms by auto
qed

definition demo_env :: rc_env where
  "demo_env = \<lparr>re_parse_time = (\<lambda>s. None), re_sha256_hex = id, re_base64 = id, re_unbase64 = Some\<rparr>"

definition demo_item :: "string \<Rightarrow> credit_item" where
  "demo_item c = \<lparr>it_id = c, it_reset_type = None, it_status = Some ''available'', it_granted_at = None,
     it_expires_at = None, it_title = None, it_description = None, it_redeem_started_at = None, it_redeemed_at = None\<rparr>"

definition demo_answer :: "string list \<Rightarrow> consume_reply \<Rightarrow> rc_answer" where
  "demo_answer credits outcome = \<lparr>an_io = True, an_late = False,
     an_account = Some \<lparr>ra_id = ''a'', ra_provider = ''codex'', ra_status = ''active'', ra_chatgpt_id = Some ''w'',
       ra_plan_type = ''plus'', ra_email = ''e'', ra_alias = None\<rparr>,
     an_tokens = True, an_refreshed = True,
     an_fetch = Some \<lparr>rp_credits = map demo_item credits, rp_available_count = int (length credits)\<rparr>,
     an_accounts = [], an_snapshots = [], an_consume = outcome\<rparr>"

text \<open>
  The second attempt retries when another credit has come up; the first has either lost the reply of its consume
  call or got it.
\<close>

definition demo_done :: consume_reply where
  "demo_done = Consumed \<lparr>co_code = ''reset'', co_redeemed_at = None, co_windows_reset = 1\<rparr>"

definition demo_retry :: "consume_reply \<Rightarrow> rc_system" where
  "demo_retry first = fold (advance_flow demo_env)
     (replicate 16 (0, demo_answer [''c1''] first) @ replicate 16 (1, demo_answer [''c0'', ''c1''] demo_done))
     (two_attempts ''a'' ''r'' 1000)"

lemma run_demo: "rc_run demo_env (demo_retry first)"
  unfolding demo_retry_def by (rule run_script, rule run_two_attempts) (simp_all add: i64_max_def)

lemmas flow_eval = advance_flow_def redeem_advance_def start_redeem_def result_step_def get_result_def demo_answer_def
  empty_ledger_def claim_step_def try_acquire_claim_def claim_lease_seconds_def redeemable_def parked_def
  request_step_def get_request_def go_usage_def store_step_def store_snapshot_def replace_snapshot_def go_select_def
  select_credit_def by_expiry_def cmp_lin_def demo_item_def stored_credit_def parse_time_def demo_env_def pin_step_def
  pin_request_def pin_row_def insert_or_ignore_def request_ttl_seconds_def consumed_of_def complete_step_def
  complete_request_with_native_def record_result_def note_request_result_def completed_result_def finish_redeem_def
  invalidate_def release_claim_def redeem_events_def answer_events_def pin_events_def flow_key_def tbl_retain_def
  sat_i64_def i64_max_def i64_min_def Let_def

definition demo_result :: redeem_result where
  "demo_result = \<lparr>rs_code = ''reset'', rs_windows_reset = 1, rs_redeemed_at = None, rs_completed_at = 1000\<rparr>"

lemma demo_lost_log:
  "sy_log (demo_retry ConsumeLost) = [EvPin (''a'', ''r'') ''c1'' 1000 1000, EvCall (''a'', ''r'') ''c1'' 1000,
     EvPin (''a'', ''r'') ''c1'' 1000 1000, EvCall (''a'', ''r'') ''c1'' 1000, EvAnswer (''a'', ''r'') demo_result 1000]"
  by (simp add: demo_retry_def demo_done_def demo_result_def two_attempts_def numeral_eq_Suc flow_eval)

lemma demo_done_log:
  "sy_log (demo_retry demo_done) = [EvPin (''a'', ''r'') ''c1'' 1000 1000, EvCall (''a'', ''r'') ''c1'' 1000,
     EvAnswer (''a'', ''r'') demo_result 1000, EvAnswer (''a'', ''r'') demo_result 1000]"
  by (simp add: demo_retry_def demo_done_def demo_result_def two_attempts_def numeral_eq_Suc flow_eval)

lemma demo_done_flows:
  "map_option (\<lambda>f. (flow_key f, answered_with (rf_pc f))) (sy_flows (demo_retry demo_done) 0) =
     Some ((''a'', ''r''), Some (completed_result ''a'' demo_result))"
  "map_option (\<lambda>f. (flow_key f, answered_with (rf_pc f))) (sy_flows (demo_retry demo_done) 1) =
     Some ((''a'', ''r''), Some (completed_result ''a'' demo_result))"
  by (simp_all add: demo_retry_def demo_done_def demo_result_def two_attempts_def numeral_eq_Suc flow_eval)

section \<open>A native request\<close>

definition advance_native :: "nat \<times> rc_answer \<Rightarrow> rc_system \<Rightarrow> rc_system" where
  "advance_native go sy = (case sy_natives sy (fst go) of
     None \<Rightarrow> sy
   | Some nf \<Rightarrow> (case native_advance (snd go) (sy_now sy) nf (sy_ledger sy) of
       (nf', db') \<Rightarrow> sy\<lparr>sy_natives := (sy_natives sy)(fst go \<mapsto> nf'), sy_ledger := db',
         sy_log := sy_log sy @ native_events (nf_request nf) (sy_now sy) db'\<rparr>))"

lemma run_native:
  assumes "rc_run env sy"
  shows "rc_run env (advance_native go sy)"
proof (cases "sy_natives sy (fst go)")
  case None
  then show ?thesis using assms by (simp add: advance_native_def)
next
  case (Some nf)
  obtain nf' db' where "native_advance (snd go) (sy_now sy) nf (sy_ledger sy) = (nf', db')" by fastforce
  from run_step [OF assms NativeStep [OF Some this]] Some this show ?thesis by (simp add: advance_native_def)
qed

definition demo_account :: rc_account where
  "demo_account = \<lparr>ra_id = ''a'', ra_provider = ''codex'', ra_status = ''active'', ra_chatgpt_id = Some ''w'',
     ra_plan_type = ''plus'', ra_email = ''e'', ra_alias = None\<rparr>"

definition native_start :: rc_system where
  "native_start = \<lparr>
     sy_ledger = refresh_account demo_env demo_account True
       (Some \<lparr>rp_credits = [demo_item ''c1''], rp_available_count = 1\<rparr>) 1000 (empty_ledger\<lparr>rl_accounts := [''a'']\<rparr>),
     sy_flows = Map.empty,
     sy_natives = [0 \<mapsto> start_native demo_env True None ''n'' (Some (''a'' @ CHR 0x00 # ''c1''))],
     sy_now = 1000, sy_log = []\<rparr>"

lemma run_native_start: "rc_run demo_env native_start"
proof -
  let ?s0 = "rc_init 1000"
  let ?s1 = "?s0\<lparr>sy_ledger := (sy_ledger ?s0)\<lparr>rl_accounts := ''a'' # rl_accounts (sy_ledger ?s0)\<rparr>\<rparr>"
  let ?s2 = "?s1\<lparr>sy_ledger := refresh_account demo_env demo_account True
       (Some \<lparr>rp_credits = [demo_item ''c1''], rp_available_count = 1\<rparr>) (sy_now ?s1) (sy_ledger ?s1)\<rparr>"
  let ?s3 = "?s2\<lparr>sy_natives := (sy_natives ?s2)(0 \<mapsto>
       start_native demo_env True None ''n'' (Some (''a'' @ CHR 0x00 # ''c1'')))\<rparr>"
  have "rc_run demo_env ?s0" by (rule exI [of _ 1000]) (simp add: i64_max_def)
  then have "rc_run demo_env ?s1" by (rule run_step) (rule Add)
  then have "rc_run demo_env ?s2" by (rule run_step) (rule Refresh)
  then have "rc_run demo_env ?s3" by (rule run_step) (rule Native, simp add: rc_init_def)
  moreover have "?s3 = native_start" by (simp add: rc_init_def native_start_def empty_ledger_def)
  ultimately show ?thesis by simp
qed

text \<open>The account's weekly limit resets within the hour.\<close>

definition native_answer_ok :: rc_answer where
  "native_answer_ok = (demo_answer [] ConsumeLost)\<lparr>an_accounts := [demo_account],
     an_snapshots := [(new_snapshot ''a'')\<lparr>snap_capacity_credits := Some (F_Num 1),
       snap_weekly_quota := Some \<lparr>qw_used_percent = F_Num 0, qw_window_minutes = None, qw_reset_at = Some 2000,
         qw_recorded_at = 0, qw_stale = False\<rparr>\<rparr>]\<rparr>"

text \<open>Its ledger, and the plan made of it: the account is offered.\<close>

definition demo_ledger :: ledger where
  "demo_ledger = empty_ledger\<lparr>rl_accounts := [''a''],
     rl_credits := [stored_credit demo_env ''a'' (demo_item ''c1'')], rl_snapshots := [(''a'', 1, 1000)]\<rparr>"

lemma native_start_ledger: "sy_ledger native_start = demo_ledger"
  by (simp add: native_start_def demo_ledger_def refresh_account_def demo_account_def flow_eval)

definition demo_input :: credit_candidate_input where
  "demo_input = \<lparr>ri_account_id = ''a'', ri_capacity_credits = F_Num 1, ri_weekly_used_percent = F_Num 0,
     ri_weekly_reset_at = Some 2000, ri_available_credits = 1, ri_earliest_expiry = None, ri_fetched_at = 1000,
     ri_eligible = True\<rparr>"

lemma demo_verdict: "fst (recommend (max (snapshot_stale_after_seconds (Suc 0)) 1) 1000 demo_input) = WaitForNaturalReset"
  by (simp add: demo_input_def recommend_def stale_input_def missing_evidence_def snapshot_stale_after_seconds_def
      Let_def fle_def sat_i64_def i64_max_def i64_min_def snapshot_stale_min_seconds_def)

lemma demo_plan:
  "\<exists>plan. native_plan native_answer_ok 1000 nf demo_ledger = Some plan \<and> in_plan ''a'' plan \<and>
     (\<exists>row \<in> set (fp_candidates plan). row_account row = ''a'' \<and> offered (row_verdict row))"
  if "nf_pool nf = None"
  using that demo_verdict unfolding demo_input_def
  by (simp add: native_plan_def native_answer_ok_def demo_answer_def build_plan_def plan_accounts_def list_snapshots_def
      get_snapshot_def demo_ledger_def empty_ledger_def stored_credit_def demo_item_def demo_env_def parse_time_def
      demo_account_def Let_def new_snapshot_def weekly_used_def earliest_expiry_def plan_input_def parked_def
      optimize_reset_credits_def candidate_row_def map_filter_def in_plan_def row_account_def row_verdict_def
      plan_view_def offered_def)

definition demo_native :: "i64 \<Rightarrow> native_pc \<Rightarrow> native_flow" where
  "demo_native t pc = \<lparr>nf_request = ''n'', nf_pool = None, nf_explicit = Some (''a'', ''c1''), nf_now = t, nf_pc = pc\<rparr>"

lemma demo_native_start: "start_native demo_env True None ''n'' (Some (''a'' @ CHR 0x00 # ''c1'')) = demo_native 0 NLookup"
  by (simp add: start_native_def demo_native_def decode_opaque_credit_id_def split_once_def demo_env_def str_trim_def
      is_ws_def Let_def)

lemma demo_native_runs:
  assumes "native_plan native_answer_ok 1000 (demo_native 1000 (NPlan None)) demo_ledger = Some plan" "in_plan ''a'' plan"
    "\<exists>row \<in> set (fp_candidates plan). row_account row = ''a'' \<and> offered (row_verdict row)"
  shows "native_advance native_answer_ok 1000 (demo_native 0 NLookup) demo_ledger = (demo_native 1000 (NPlan None), demo_ledger)"
    and "native_advance native_answer_ok 1000 (demo_native 1000 (NPlan None)) demo_ledger =
      (demo_native 1000 (NPin ''a'' (Some ''c1'') plan), demo_ledger)"
    and "\<exists>db. native_advance native_answer_ok 1000 (demo_native 1000 (NPin ''a'' (Some ''c1'') plan)) demo_ledger =
      (demo_native 1000 (NRedeem ''a'' (Some ''c1'')), db)"
  using assms
  by (simp_all add: native_advance_def native_lookup_def demo_native_def native_answer_ok_def demo_answer_def
      get_native_request_def demo_ledger_def empty_ledger_def native_select_def native_selected_def native_pin_def
      pin_native_request_def insert_native_def pin_row_def insert_or_ignore_def tbl_retain_def check_pin_def
      scope_conflicts_def explicit_conflicts_def pool_scope_def Let_def)

lemma native_handover_run: "\<exists>sy. rc_run demo_env sy \<and> EvHandover ''n'' ''a'' \<in> set (sy_log sy)"
proof -
  obtain plan where p: "native_plan native_answer_ok 1000 (demo_native 1000 (NPlan None)) demo_ledger = Some plan"
    "in_plan ''a'' plan" "\<exists>row \<in> set (fp_candidates plan). row_account row = ''a'' \<and> offered (row_verdict row)"
    using demo_plan [of "demo_native 1000 (NPlan None)"] by (auto simp: demo_native_def)
  obtain db where db: "native_advance native_answer_ok 1000 (demo_native 1000 (NPin ''a'' (Some ''c1'') plan)) demo_ledger =
      (demo_native 1000 (NRedeem ''a'' (Some ''c1'')), db)"
    using demo_native_runs(3) [OF p] by blast
  define go where "go = (0 :: nat, native_answer_ok)"
  define s1 where "s1 = advance_native go native_start"
  define s2 where "s2 = advance_native go s1"
  define s3 where "s3 = advance_native go s2"
  have run: "rc_run demo_env s3" unfolding s1_def s2_def s3_def by (intro run_native run_native_start)
  have s0: "sy_natives native_start 0 = Some (demo_native 0 NLookup)" "sy_now native_start = 1000" "sy_flows native_start = Map.empty"
    using demo_native_start by (simp_all add: native_start_def)
  have s1: "sy_natives s1 0 = Some (demo_native 1000 (NPlan None))" "sy_now s1 = 1000" "sy_ledger s1 = demo_ledger" "sy_flows s1 = Map.empty"
    using s0 native_start_ledger demo_native_runs(1) [OF p] by (simp_all add: s1_def advance_native_def go_def)
  have s2: "sy_natives s2 0 = Some (demo_native 1000 (NPin ''a'' (Some ''c1'') plan))" "sy_now s2 = 1000"
    "sy_ledger s2 = demo_ledger" "sy_flows s2 = Map.empty"
    using s1 demo_native_runs(2) [OF p] by (simp_all add: s2_def advance_native_def go_def)
  have s3: "sy_natives s3 0 = Some (demo_native 1000 (NRedeem ''a'' (Some ''c1'')))" "sy_flows s3 = Map.empty" "sy_ledger s3 = db"
    using s2 db by (simp_all add: s3_def advance_native_def go_def)
  obtain h where "unused_holder h s3"
  proof -
    have "finite (insert [] (fst ` snd ` set (rl_claims (sy_ledger s3))))" by simp
    then obtain h where "h \<notin> insert [] (fst ` snd ` set (rl_claims (sy_ledger s3)))"
      using ex_new_if_finite [of "insert [] (fst ` snd ` set (rl_claims (sy_ledger s3)))"] infinite_UNIV_listI by blast
    then have "unused_holder h s3" using s3(2) by (force simp: unused_holder_def)
    then show thesis by (rule that)
  qed
  note handover = Handover [OF s3(1) _ _ this, where account = "''a''" and credit = "Some ''c1''" and j = 0]
  have "rc_run demo_env (s3\<lparr>sy_natives := (sy_natives s3)(0 := None),
      sy_flows := (sy_flows s3)(0 \<mapsto> native_redeem (demo_native 1000 (NRedeem ''a'' (Some ''c1''))) ''a'' (Some ''c1'') h),
      sy_log := sy_log s3 @ [EvHandover (nf_request (demo_native 1000 (NRedeem ''a'' (Some ''c1'')))) ''a'']\<rparr>)" (is "rc_run _ ?s4")
    by (rule run_step [OF run handover]) (simp_all add: s3(2) demo_native_def)
  moreover have "EvHandover ''n'' ''a'' \<in> set (sy_log ?s4)" by (simp add: demo_native_def)
  ultimately show ?thesis by blast
qed

end
