(* ===== verification/Reset_Props.thy ===== *)
theory Reset_Props
  imports Reset_System
begin

text \<open>
  What redemptions guarantee under any interleaving: a request spends one credit, on one account, and is
  answered alike; and no request spends again once it was answered, unless its lease ran out under it.
\<close>

section \<open>The pinned tables\<close>

definition pins_seen :: "request_key \<Rightarrow> rc_event list \<Rightarrow> (string \<times> i64 \<times> i64) set" where
  "pins_seen key hist = {(c, t, u). EvPin key c t u \<in> set hist}"

definition answers_seen :: "request_key \<Rightarrow> rc_event list \<Rightarrow> (redeem_result \<times> i64 \<times> i64) set" where
  "answers_seen key hist = {(r, t, u). EvAnswer key r u \<in> set hist \<and> t = rs_completed_at r}"

definition natives_seen :: "string \<Rightarrow> rc_event list \<Rightarrow> (account_id option \<times> i64 \<times> i64) set" where
  "natives_seen n hist = {(a, t, u). EvNative n a t u \<in> set hist}"

definition pins_ok :: "i64 \<Rightarrow> rc_event list \<Rightarrow> (request_key, redeem_request) table \<Rightarrow> bool" where
  "pins_ok now hist t \<longleftrightarrow> tbl_ok t \<and> (\<forall>key. EvDeleted (fst key) \<notin> set hist \<longrightarrow>
     generations request_ttl_seconds rq_credit_id rq_created_at now (pins_seen key hist) (tbl_get t key))"

definition answers_ok :: "i64 \<Rightarrow> rc_event list \<Rightarrow> (request_key, redeem_result) table \<Rightarrow> bool" where
  "answers_ok now hist t \<longleftrightarrow> tbl_ok t \<and> (\<forall>key.
     generations request_ttl_seconds id rs_completed_at now (answers_seen key hist) (tbl_get t key))"

definition natives_ok :: "i64 \<Rightarrow> rc_event list \<Rightarrow> (string, native_request) table \<Rightarrow> bool" where
  "natives_ok now hist t \<longleftrightarrow> tbl_ok t \<and> (\<forall>n.
     generations request_ttl_seconds nr_account nr_created_at now (natives_seen n hist) (tbl_get t n))"

definition ledger_ok :: "i64 \<Rightarrow> rc_event list \<Rightarrow> ledger \<Rightarrow> bool" where
  "ledger_ok now hist db \<longleftrightarrow> pins_ok now hist (rl_requests db) \<and> answers_ok now hist (rl_results db) \<and>
     natives_ok now hist (rl_native db)"

definition sane_time :: "i64 \<Rightarrow> bool" where
  "sane_time now \<longleftrightarrow> 0 \<le> now \<and> now \<le> i64_max"

lemma sane_sub: "sane_time now \<Longrightarrow> sub_i64 now request_ttl_seconds = now - request_ttl_seconds"
  by (rule sat_i64_exact) (auto simp: sane_time_def in_i64_def i64_min_def request_ttl_seconds_def)

lemma pins_okD: "pins_ok now hist t \<Longrightarrow> tbl_ok t"
  "pins_ok now hist t \<Longrightarrow> EvDeleted (fst key) \<notin> set hist \<Longrightarrow>
   generations request_ttl_seconds rq_credit_id rq_created_at now (pins_seen key hist) (tbl_get t key)"
  unfolding pins_ok_def by blast+

lemma natives_okD: "natives_ok now hist t \<Longrightarrow> tbl_ok t"
  "natives_ok now hist t \<Longrightarrow>
   generations request_ttl_seconds nr_account nr_created_at now (natives_seen n hist) (tbl_get t n)"
  unfolding natives_ok_def by blast+

lemma answers_okD: "answers_ok now hist t \<Longrightarrow> tbl_ok t"
  "answers_ok now hist t \<Longrightarrow>
   generations request_ttl_seconds id rs_completed_at now (answers_seen key hist) (tbl_get t key)"
  unfolding answers_ok_def by blast+

lemma pins_ok_put:
  assumes "pins_ok now hist t" "sane_time now"
  shows "pins_ok now hist (pin_row rq_created_at request_ttl_seconds now t k v)"
  unfolding pins_ok_def
proof (intro conjI allI impI)
  show "tbl_ok (pin_row rq_created_at request_ttl_seconds now t k v)"
    using assms(1) by (intro pinned.ok_pin pins_okD)
next
  fix key :: request_key
  assume "EvDeleted (fst key) \<notin> set hist"
  then show "generations request_ttl_seconds rq_credit_id rq_created_at now (pins_seen key hist)
      (tbl_get (pin_row rq_created_at request_ttl_seconds now t k v) key)"
    using assms by (intro pinned.generations_pin sane_sub pins_okD order_refl)
qed

lemma answers_ok_put:
  assumes "answers_ok now hist t" "sane_time now"
  shows "answers_ok now hist (pin_row rs_completed_at request_ttl_seconds now t k v)"
  using assms unfolding answers_ok_def
  by (intro conjI allI pinned.generations_pin pinned.ok_pin sane_sub order_refl) blast+

lemma natives_ok_put:
  assumes "natives_ok now hist t" "sane_time stamp" "stamp \<le> now"
  shows "natives_ok now hist (pin_row nr_created_at request_ttl_seconds stamp t k v)"
  using assms unfolding natives_ok_def
  by (intro conjI allI pinned.generations_pin pinned.ok_pin sane_sub) blast+

text \<open>An update of a row's result columns does not matter.\<close>

lemma generations_same:
  "generations ttl view created now seen (Some v) \<Longrightarrow> view v' = view v \<Longrightarrow> created v' = created v \<Longrightarrow>
   generations ttl view created now seen (Some v')"
  by (simp add: generations_def)

lemma pins_ok_update:
  assumes "pins_ok now hist t" "tbl_get t k = Some v" "rq_credit_id v' = rq_credit_id v" "rq_created_at v' = rq_created_at v"
  shows "pins_ok now hist (tbl_put t k v')"
  unfolding pins_ok_def
proof (intro conjI allI impI)
  show "tbl_ok (tbl_put t k v')" using pins_okD(1) [OF assms(1)] by simp
next
  fix key :: request_key
  assume "EvDeleted (fst key) \<notin> set hist"
  from pins_okD(2) [OF assms(1) this] show "generations request_ttl_seconds rq_credit_id rq_created_at now
      (pins_seen key hist) (tbl_get (tbl_put t k v') key)"
    using assms(2-4) by (cases "key = k") (auto simp: tbl_simps elim: generations_same)
qed

lemma natives_ok_update:
  assumes "natives_ok now hist t" "tbl_get t k = Some v" "nr_account v' = nr_account v" "nr_created_at v' = nr_created_at v"
  shows "natives_ok now hist (tbl_put t k v')"
  unfolding natives_ok_def
proof (intro conjI allI)
  show "tbl_ok (tbl_put t k v')" using natives_okD(1) [OF assms(1)] by simp
next
  fix n
  from natives_okD(2) [OF assms(1), of n] show "generations request_ttl_seconds nr_account nr_created_at now
      (natives_seen n hist) (tbl_get (tbl_put t k v') n)"
    using assms(2-4) by (cases "n = k") (auto simp: tbl_simps elim: generations_same)
qed

lemma note_request_result_ok:
  "ledger_ok now hist db \<Longrightarrow> ledger_ok now hist (note_request_result key terminal db)"
  by (auto simp: note_request_result_def ledger_ok_def intro: pins_ok_update split: option.splits)

lemma close_native_ok:
  "ledger_ok now hist db \<Longrightarrow> ledger_ok now hist (snd (close_native n account result db))"
  by (auto simp: close_native_def ledger_ok_def intro: natives_ok_update split: option.splits)

lemma completion_results [simp]:
  "rl_results (note_request_result key terminal db) = rl_results db"
  "rl_results (snd (close_native n account result db)) = rl_results db"
  by (auto simp: note_request_result_def close_native_def split: option.splits)

section \<open>Every operation keeps the tables\<close>

lemma pin_request_ok:
  assumes "ledger_ok now hist db" "sane_time now"
    "pin_request account req credit now request_ttl_seconds db = Some (pinned, db')"
  shows "ledger_ok now hist db'" "\<exists>row. tbl_get (rl_requests db') (account, req) = Some row \<and> rq_credit_id row = pinned"
  using assms by (auto simp: pin_request_def Let_def ledger_ok_def pins_ok_put split: if_splits)

lemma insert_native_ok:
  "insert_native n row stamp request_ttl_seconds db = (pin, db') \<Longrightarrow> ledger_ok now hist db \<Longrightarrow> sane_time stamp \<Longrightarrow>
   stamp \<le> now \<Longrightarrow> ledger_ok now hist db' \<and> tbl_get (rl_native db') n = pin"
  by (auto simp: insert_native_def Let_def ledger_ok_def natives_ok_put)

lemma complete_ok:
  assumes "ledger_ok now hist db" "sane_time now" "rs_completed_at outcome = now"
    "complete_request_with_native account req outcome native db = Some (terminal, db')"
  shows "ledger_ok now hist db'" "tbl_get (rl_results db') (account, req) = Some terminal"
proof -
  obtain db1 where r: "record_result (account, req) outcome db = Some (terminal, db1)"
    and db': "db' = (case native of None \<Rightarrow> note_request_result (account, req) terminal db1
      | Some n \<Rightarrow> snd (close_native n account (rs_code terminal, rs_windows_reset terminal, rs_completed_at terminal)
          (note_request_result (account, req) terminal db1)))"
    using assms(4) by (auto simp: complete_request_with_native_def Let_def)
  have "ledger_ok now hist db1" using r assms(1-3)
    by (auto simp: record_result_def Let_def ledger_ok_def
        answers_ok_put [unfolded request_ttl_seconds_def, simplified])
  then show "ledger_ok now hist db'"
    by (auto simp: db' intro: note_request_result_ok close_native_ok split: option.splits)
  show "tbl_get (rl_results db') (account, req) = Some terminal"
    using r by (auto simp: db' Let_def record_result_def split: option.splits)
qed

lemma ledger_ok_frame [simp]:
  "ledger_ok now hist (db\<lparr>rl_claims := x1\<rparr>) = ledger_ok now hist db"
  "ledger_ok now hist (db\<lparr>rl_credits := x2\<rparr>) = ledger_ok now hist db"
  "ledger_ok now hist (db\<lparr>rl_snapshots := x3\<rparr>) = ledger_ok now hist db"
  "ledger_ok now hist (db\<lparr>rl_fleet := x4\<rparr>) = ledger_ok now hist db"
  "ledger_ok now hist (db\<lparr>rl_accounts := x5\<rparr>) = ledger_ok now hist db"
  by (simp_all add: ledger_ok_def)

lemma refresh_account_ok:
  "ledger_ok now hist db \<Longrightarrow> ledger_ok now hist (refresh_account env account has_tokens fetched now db)"
  by (auto simp: refresh_account_def invalidate_def store_snapshot_def replace_snapshot_def split: option.splits)

lemma heartbeat_ok: "heartbeat io now f db = (f', db') \<Longrightarrow> ledger_ok now hist db \<Longrightarrow> ledger_ok now hist db'"
  by (auto simp: heartbeat_def renew_claim_def split: if_splits)

lemma fleet_pin_ok: "fleet_pin to_json request accounts now db = (ok, db') \<Longrightarrow> ledger_ok now hist db \<Longrightarrow> ledger_ok now hist db'"
  by (auto simp: fleet_pin_def pin_fleet_request_def Let_def)

section \<open>Logging what the tables hold\<close>

lemma seen_append:
  "pins_seen key (hist @ evs) = pins_seen key hist \<union> pins_seen key evs"
  "answers_seen key (hist @ evs) = answers_seen key hist \<union> answers_seen key evs"
  "natives_seen n (hist @ evs) = natives_seen n hist \<union> natives_seen n evs"
  by (auto simp: pins_seen_def answers_seen_def natives_seen_def)

lemma ledger_ok_quiet:
  assumes "ledger_ok now hist db" "\<And>key. pins_seen key evs = {}" "\<And>key. answers_seen key evs = {}" "\<And>n. natives_seen n evs = {}"
  shows "ledger_ok now (hist @ evs) db"
  using assms unfolding ledger_ok_def pins_ok_def answers_ok_def natives_ok_def seen_append by simp

lemma seen_events:
  "pins_seen key (pin_events k now db) = (case tbl_get (rl_requests db) k of
     Some row \<Rightarrow> if key = k then {(rq_credit_id row, rq_created_at row, now)} else {} | None \<Rightarrow> {})"
  "pins_seen key (answer_events k now db) = {}" "pins_seen key (native_events n now db) = {}"
  "answers_seen key (answer_events k now db) = (case tbl_get (rl_results db) k of
     Some row \<Rightarrow> if key = k then {(row, rs_completed_at row, now)} else {} | None \<Rightarrow> {})"
  "answers_seen key (pin_events k now db) = {}" "answers_seen key (native_events n now db) = {}"
  "natives_seen m (native_events n now db) = (case tbl_get (rl_native db) n of
     Some row \<Rightarrow> if m = n then {(nr_account row, nr_created_at row, now)} else {} | None \<Rightarrow> {})"
  "natives_seen m (pin_events k now db) = {}" "natives_seen m (answer_events k now db) = {}"
  by (auto simp: pins_seen_def answers_seen_def natives_seen_def pin_events_def answer_events_def
      native_events_def split: option.splits)

lemma no_deletions:
  "EvDeleted a \<notin> set (pin_events k now db)" "EvDeleted a \<notin> set (answer_events k now db)" "EvDeleted a \<notin> set (native_events n now db)"
  by (auto simp: pin_events_def answer_events_def native_events_def split: option.splits)

lemma generations_note':
  "generations ttl view created now seen row \<Longrightarrow>
   generations ttl view created now (seen \<union> (case row of Some v \<Rightarrow> {(view v, created v, now)} | None \<Rightarrow> {})) row"
  using generations_note by (cases row) auto

lemma ledger_ok_pin_events:
  assumes "ledger_ok now hist db"
  shows "ledger_ok now (hist @ pin_events k now db) db"
proof -
  have "generations request_ttl_seconds rq_credit_id rq_created_at now (pins_seen key (hist @ pin_events k now db))
      (tbl_get (rl_requests db) key)" if "EvDeleted (fst key) \<notin> set hist" for key
    using generations_note' [OF pins_okD(2) [OF _ that, of now "rl_requests db"]] assms
    by (cases "key = k") (auto simp: ledger_ok_def seen_append seen_events pins_okD(2) that split: option.splits)
  then show ?thesis using assms
    by (simp add: ledger_ok_def pins_ok_def answers_ok_def natives_ok_def seen_append seen_events del: split_paired_All)
qed

lemma ledger_ok_answer_events:
  assumes "ledger_ok now hist db"
  shows "ledger_ok now (hist @ answer_events k now db) db"
proof -
  have "generations request_ttl_seconds id rs_completed_at now (answers_seen key (hist @ answer_events k now db))
      (tbl_get (rl_results db) key)" for key
    using generations_note' [OF answers_okD(2) [of now hist "rl_results db" key]] assms
    by (cases "key = k") (auto simp: ledger_ok_def seen_append seen_events answers_okD(2) split: option.splits)
  then show ?thesis using assms no_deletions
    by (simp add: ledger_ok_def pins_ok_def answers_ok_def natives_ok_def seen_append seen_events del: split_paired_All)
qed

lemma ledger_ok_native_events:
  assumes "ledger_ok now hist db"
  shows "ledger_ok now (hist @ native_events n now db) db"
proof -
  have "generations request_ttl_seconds nr_account nr_created_at now (natives_seen m (hist @ native_events n now db))
      (tbl_get (rl_native db) m)" for m
    using generations_note' [OF natives_okD(2) [of now hist "rl_native db" m]] assms
    by (cases "m = n") (auto simp: ledger_ok_def seen_append seen_events natives_okD(2) split: option.splits)
  then show ?thesis using assms no_deletions
    by (simp add: ledger_ok_def pins_ok_def answers_ok_def natives_ok_def seen_append seen_events del: split_paired_All)
qed

section \<open>Steps of a redemption\<close>

lemma claim_step_ok: "claim_step an now f db = (f', db') \<Longrightarrow> ledger_ok now hist db \<Longrightarrow> ledger_ok now hist db'"
  by (auto simp: claim_step_def try_acquire_claim_def Let_def split: option.splits if_splits)

lemma store_step_ok: "store_step env existing fresh now f db = (f', db') \<Longrightarrow> ledger_ok now hist db \<Longrightarrow> ledger_ok now hist db'"
  by (auto simp: store_step_def store_snapshot_def replace_snapshot_def split: option.splits if_splits)

lemma no_credit_step_ok: "no_credit_step now f db = (f', db') \<Longrightarrow> ledger_ok now hist db \<Longrightarrow> ledger_ok now hist db'"
  by (auto simp: no_credit_step_def complete_native_account_no_credit_def close_native_ok split: option.splits)

lemma pin_step_ok: "pin_step selected now f db = (f', db') \<Longrightarrow> sane_time now \<Longrightarrow> ledger_ok now hist db \<Longrightarrow> ledger_ok now hist db'"
  by (auto simp: pin_step_def dest: pin_request_ok split: option.splits)

lemma complete_step_ok:
  "complete_step env consumed now f db = (f', db') \<Longrightarrow> sane_time now \<Longrightarrow> ledger_ok now hist db \<Longrightarrow> ledger_ok now hist db'"
  by (auto simp: complete_step_def split: option.splits dest: complete_ok(1) [rotated 3])

lemma advance_ledger_ok:
  assumes "redeem_advance env an now f db = (f', db')" "sane_time now" "ledger_ok now hist db"
  shows "ledger_ok now hist db'"
  using assms
  by (cases "rf_pc f")
    (auto simp: redeem_advance_def result_step_def request_step_def native_step_def plan_step_def Let_def
      invalidate_def release_claim_def
      elim: claim_step_ok store_step_ok no_credit_step_ok pin_step_ok complete_step_ok
      split: option.splits if_splits)

lemma redeem_events_cases:
  obtains "redeem_events key pc pc' now db = []" | "redeem_events key pc pc' now db = pin_events key now db"
  | "redeem_events key pc pc' now db = answer_events key now db" | c where "redeem_events key pc pc' now db = [EvCall key c now]"
  by (cases pc; cases pc') (auto simp: redeem_events_def)

lemma ledger_ok_call:
  "ledger_ok now hist db \<Longrightarrow> ledger_ok now (hist @ [EvCall key c t]) db"
  by (rule ledger_ok_quiet) (auto simp: pins_seen_def answers_seen_def natives_seen_def)

lemma advance_ok:
  assumes "redeem_advance env an now f db = (f', db')" "sane_time now" "ledger_ok now hist db"
  shows "ledger_ok now (hist @ redeem_events (flow_key f) (rf_pc f) (rf_pc f') now db') db'"
  by (rule redeem_events_cases [of "flow_key f" "rf_pc f" "rf_pc f'" now db'])
    (simp_all add: advance_ledger_ok [OF assms] ledger_ok_pin_events ledger_ok_answer_events ledger_ok_call)

definition native_stamp :: "i64 \<Rightarrow> native_flow \<Rightarrow> bool" where
  "native_stamp now nf \<longleftrightarrow> sane_time (nf_now nf) \<and> nf_now nf \<le> now"

lemma native_advance_ok:
  assumes "native_advance an now nf db = (nf', db')" "native_stamp now nf" "ledger_ok now hist db"
  shows "ledger_ok now (hist @ native_events n now db') db'"
proof (rule ledger_ok_native_events)
  show "ledger_ok now hist db'" using assms
    by (cases "nf_pc nf")
      (auto simp: native_advance_def native_empty_def native_pin_def complete_native_no_credit_def
        pin_native_request_def native_stamp_def split: option.splits if_splits prod.splits dest: insert_native_ok)
qed

section \<open>The invariant\<close>

fun spending :: "redeem_pc \<Rightarrow> string option" where
  "spending (PConsume c) = Some c"
| "spending (PAwait c) = Some c"
| "spending _ = None"

definition flow_ok :: "rc_event list \<Rightarrow> redeem_flow \<Rightarrow> bool" where
  "flow_ok hist f \<longleftrightarrow>
     (\<forall>c. spending (rf_pc f) = Some c \<longrightarrow> (\<exists>t u. EvPin (flow_key f) c t u \<in> set hist)) \<and>
     (\<forall>v. answered_with (rf_pc f) = Some v \<longrightarrow>
        (\<exists>row u. EvAnswer (flow_key f) row u \<in> set hist \<and> v = completed_result (rf_account f) row))"

definition native_ok :: "i64 \<Rightarrow> rc_event list \<Rightarrow> native_flow \<Rightarrow> bool" where
  "native_ok now hist nf \<longleftrightarrow> native_stamp now nf \<and> (case nf_pc nf of
     NPlan (Some pin) \<Rightarrow> \<exists>u. EvNative (nf_request nf) (nr_account pin) (nr_created_at pin) u \<in> set hist
   | NRedeem account credit \<Rightarrow> \<exists>t u. EvNative (nf_request nf) (Some account) t u \<in> set hist
   | _ \<Rightarrow> True)"

definition log_ok :: "rc_event list \<Rightarrow> bool" where
  "log_ok hist \<longleftrightarrow>
     (\<forall>key c u. EvCall key c u \<in> set hist \<longrightarrow> (\<exists>t u. EvPin key c t u \<in> set hist)) \<and>
     (\<forall>n a. EvHandover n a \<in> set hist \<longrightarrow> (\<exists>t u. EvNative n (Some a) t u \<in> set hist))"

definition rc_inv :: "rc_system \<Rightarrow> bool" where
  "rc_inv sy \<longleftrightarrow> sane_time (sy_now sy) \<and> ledger_ok (sy_now sy) (sy_log sy) (sy_ledger sy) \<and> log_ok (sy_log sy) \<and>
     (\<forall>i f. sy_flows sy i = Some f \<longrightarrow> flow_ok (sy_log sy) f) \<and>
     (\<forall>i nf. sy_natives sy i = Some nf \<longrightarrow> native_ok (sy_now sy) (sy_log sy) nf)"

lemma flow_ok_append: "flow_ok hist f \<Longrightarrow> flow_ok (hist @ evs) f"
  unfolding flow_ok_def set_append Un_iff by meson

lemma native_ok_append: "native_ok now hist nf \<Longrightarrow> now \<le> t \<Longrightarrow> native_ok t (hist @ evs) nf"
  by (auto simp: native_ok_def native_stamp_def split: native_pc.splits option.splits)

lemma native_okD: "native_ok now hist nf \<Longrightarrow> native_stamp now nf"
  by (simp add: native_ok_def)

lemma advance_frame:
  "redeem_advance env an now f db = (f', db') \<Longrightarrow>
   rf_account f' = rf_account f \<and> rf_request f' = rf_request f \<and> rf_native f' = rf_native f \<and> rf_holder f' = rf_holder f"
  by (cases "rf_pc f")
    (auto simp: redeem_advance_def result_step_def request_step_def native_step_def plan_step_def claim_step_def
      store_step_def no_credit_step_def pin_step_def complete_step_def go_usage_def go_select_def finish_redeem_def
      Let_def split: option.splits if_splits prod.splits bool.splits)

lemmas advance_simps = redeem_advance_def request_step_def native_step_def plan_step_def claim_step_def
  store_step_def no_credit_step_def go_usage_def go_select_def finish_redeem_def Let_def

lemma completed_view:
  "complete_step env consumed now f db = (f', db') \<Longrightarrow> ledger_ok now hist db \<Longrightarrow> sane_time now \<Longrightarrow>
   rf_pc f' = PRepair v \<Longrightarrow>
   \<exists>row. tbl_get (rl_results db') (flow_key f) = Some row \<and> v = completed_result (rf_account f) row"
  by (auto simp: complete_step_def flow_key_def finish_redeem_def split: option.splits if_splits
      dest: complete_ok(2) [rotated 3])

lemma looked_up_view:
  "result_step pc now f db = (f', db') \<Longrightarrow> rf_pc f' = PRepair v \<Longrightarrow> answered_with pc = None \<Longrightarrow>
   \<exists>row. tbl_get (rl_results db') (flow_key f) = Some row \<and> v = completed_result (rf_account f) row"
  by (auto simp: result_step_def get_result_def opt_filter_Some flow_key_def split: option.splits)

lemma pinned_credit:
  "pin_step selected now f db = (f', db') \<Longrightarrow> rf_pc f' = PConsume c \<Longrightarrow>
   \<exists>row. tbl_get (rl_requests db') (flow_key f) = Some row \<and> c = rq_credit_id row"
  by (auto simp: pin_step_def pin_request_def flow_key_def finish_redeem_def Let_def split: option.splits if_splits)

text \<open>Where credits to spend and answers come from.\<close>

lemma finish_redeem_simps [simp]:
  "spending (rf_pc (finish_redeem outcome f)) = None"
  "answered_with (rf_pc (finish_redeem (Inl e) f)) = None"
  "answered_with (rf_pc (finish_redeem (Inr v) f)) = Some v"
  "rf_account (finish_redeem outcome f) = rf_account f"
  "rf_request (finish_redeem outcome f) = rf_request f"
  "rf_pc (finish_redeem outcome f) \<noteq> PRepair v"
  by (auto simp: finish_redeem_def)

lemma go_quiet [simp]:
  "spending (rf_pc (go_select existing fresh f)) = None" "answered_with (rf_pc (go_select existing fresh f)) = None"
  "spending (rf_pc (go_usage existing f)) = None" "answered_with (rf_pc (go_usage existing f)) = None"
  by (auto simp: go_select_def go_usage_def split: option.splits)

lemma step_quiet:
  "claim_step an now f db = (f', db') \<Longrightarrow> rf_pc f = PClaim \<Longrightarrow> spending (rf_pc f') = None \<and> answered_with (rf_pc f') = None"
  "request_step now f db = (f', db') \<Longrightarrow> spending (rf_pc f') = None \<and> answered_with (rf_pc f') = None"
  "native_step existing now f db = (f', db') \<Longrightarrow> spending (rf_pc f') = None \<and> answered_with (rf_pc f') = None"
  "store_step env existing fresh now f db = (f', db') \<Longrightarrow> spending (rf_pc f') = None \<and> answered_with (rf_pc f') = None"
  "plan_step an fresh now f db = (f', db') \<Longrightarrow> spending (rf_pc f') = None \<and> answered_with (rf_pc f') = None"
  "no_credit_step now f db = (f', db') \<Longrightarrow> spending (rf_pc f') = None \<and> answered_with (rf_pc f') = None"
  "pin_step selected now f db = (f', db') \<Longrightarrow> answered_with (rf_pc f') = None"
  "complete_step env consumed now f db = (f', db') \<Longrightarrow> spending (rf_pc f') = None"
  "result_step pc now f db = (f', db') \<Longrightarrow> spending pc = None \<Longrightarrow> spending (rf_pc f') = None"
  by (auto simp: claim_step_def request_step_def native_step_def store_step_def plan_step_def no_credit_step_def
      pin_step_def complete_step_def result_step_def Let_def split: option.splits if_splits prod.splits bool.splits)

lemma advance_spending:
  "redeem_advance env an now f db = (f', db') \<Longrightarrow> spending (rf_pc f') = Some c \<Longrightarrow>
   spending (rf_pc f) = Some c \<or> (\<exists>selected. rf_pc f = PPin selected \<and> pin_step selected now f db = (f', db'))"
  by (cases "rf_pc f")
    (auto simp: redeem_advance_def Let_def dest: step_quiet split: if_splits option.splits)

lemma answered_release [simp]: "answered_with (PDone outcome) = answered_with (PRelease outcome)"
  by (cases outcome) auto

lemma advance_answered:
  "redeem_advance env an now f db = (f', db') \<Longrightarrow> answered_with (rf_pc f') = Some v \<Longrightarrow>
   answered_with (rf_pc f) = Some v \<or>
   (rf_pc f = PLookup \<and> result_step PClaim now f db = (f', db')) \<or>
   (rf_pc f = PResult \<and> result_step PRequest now f db = (f', db')) \<or>
   (\<exists>consumed. rf_pc f = PComplete consumed \<and> complete_step env consumed now f db = (f', db'))"
  by (cases "rf_pc f")
    (auto simp: redeem_advance_def Let_def dest: step_quiet split: if_splits option.splits sum.splits)

lemma step_repairs:
  "result_step pc now f db = (f', db') \<Longrightarrow> answered_with (rf_pc f') = Some v \<Longrightarrow> answered_with pc = None \<Longrightarrow> rf_pc f' = PRepair v"
  "complete_step env consumed now f db = (f', db') \<Longrightarrow> answered_with (rf_pc f') = Some v \<Longrightarrow> rf_pc f' = PRepair v"
  "pin_step selected now f db = (f', db') \<Longrightarrow> spending (rf_pc f') = Some c \<Longrightarrow> rf_pc f' = PConsume c"
  by (auto simp: result_step_def complete_step_def pin_step_def split: option.splits prod.splits)

lemma advance_flow_ok:
  assumes "redeem_advance env an now f db = (f', db')" "ledger_ok now hist db" "sane_time now" "flow_ok hist f"
  shows "flow_ok (hist @ redeem_events (flow_key f) (rf_pc f) (rf_pc f') now db') f'"
proof -
  let ?evs = "redeem_events (flow_key f) (rf_pc f) (rf_pc f') now db'"
  have key: "flow_key f' = flow_key f" "rf_account f' = rf_account f"
    using advance_frame [OF assms(1)] by (simp_all add: flow_key_def)
  have "\<exists>t u. EvPin (flow_key f) c t u \<in> set (hist @ ?evs)" if c: "spending (rf_pc f') = Some c" for c
    using advance_spending [OF assms(1) c]
  proof (elim disjE exE conjE)
    assume "spending (rf_pc f) = Some c"
    then show ?thesis using assms(4) by (auto simp: flow_ok_def)
  next
    fix selected
    assume p: "rf_pc f = PPin selected" "pin_step selected now f db = (f', db')"
    note pc = step_repairs(3) [OF p(2) c]
    from pinned_credit [OF p(2) pc] show ?thesis by (auto simp: p(1) pc pin_events_def redeem_events_def ex_disj_distrib)
  qed
  moreover have "\<exists>row u. EvAnswer (flow_key f) row u \<in> set (hist @ ?evs) \<and> v = completed_result (rf_account f) row"
    if v: "answered_with (rf_pc f') = Some v" for v
    using advance_answered [OF assms(1) v]
  proof (elim disjE exE conjE)
    assume "answered_with (rf_pc f) = Some v"
    then show ?thesis using assms(4) by (auto simp: flow_ok_def)
  next
    assume p: "rf_pc f = PLookup" "result_step PClaim now f db = (f', db')"
    then have pc: "rf_pc f' = PRepair v" using step_repairs(1) [OF p(2) v] by simp
    from looked_up_view [OF p(2) pc] show ?thesis by (auto simp: p(1) pc answer_events_def redeem_events_def ex_disj_distrib)
  next
    assume p: "rf_pc f = PResult" "result_step PRequest now f db = (f', db')"
    then have pc: "rf_pc f' = PRepair v" using step_repairs(1) [OF p(2) v] by simp
    from looked_up_view [OF p(2) pc] show ?thesis by (auto simp: p(1) pc answer_events_def redeem_events_def ex_disj_distrib)
  next
    fix consumed
    assume p: "rf_pc f = PComplete consumed" "complete_step env consumed now f db = (f', db')"
    note pc = step_repairs(2) [OF p(2) v]
    from completed_view [OF p(2) assms(2,3) pc] show ?thesis by (auto simp: p(1) pc answer_events_def redeem_events_def ex_disj_distrib)
  qed
  ultimately show ?thesis by (simp add: flow_ok_def key)
qed

lemma redeem_events_calls:
  "EvCall key c u \<in> set (redeem_events k pc pc' now db) \<Longrightarrow> key = k \<and> pc = PConsume c \<and> u = now"
  "EvHandover n a \<notin> set (redeem_events k pc pc' now db)" "EvNative n b t w \<notin> set (redeem_events k pc pc' now db)"
  "EvDeleted a \<notin> set (redeem_events k pc pc' now db)" "EvLapsed a \<notin> set (redeem_events k pc pc' now db)"
proof -
  assume "EvCall key c u \<in> set (redeem_events k pc pc' now db)"
  then show "key = k \<and> pc = PConsume c \<and> u = now"
    by (cases pc; cases pc') (auto simp: redeem_events_def pin_events_def answer_events_def split: option.splits)
qed (rule redeem_events_cases [of k pc pc' now db]; auto simp: pin_events_def answer_events_def split: option.splits)+

lemma log_ok_append:
  assumes "log_ok hist"
    and "\<And>key c u. EvCall key c u \<in> set evs \<Longrightarrow> \<exists>t w. EvPin key c t w \<in> set (hist @ evs)"
    and "\<And>n a. EvHandover n a \<in> set evs \<Longrightarrow> \<exists>t w. EvNative n (Some a) t w \<in> set (hist @ evs)"
  shows "log_ok (hist @ evs)"
  using assms unfolding log_ok_def set_append Un_iff by blast

lemma advance_log_ok:
  assumes "log_ok hist" "flow_ok hist f"
  shows "log_ok (hist @ redeem_events (flow_key f) (rf_pc f) pc' now db')"
proof (rule log_ok_append [OF assms(1)])
  fix key c u
  assume "EvCall key c u \<in> set (redeem_events (flow_key f) (rf_pc f) pc' now db')"
  from redeem_events_calls(1) [OF this] assms(2) show "\<exists>t w. EvPin key c t w \<in> set (hist @ redeem_events (flow_key f) (rf_pc f) pc' now db')"
    by (auto simp: flow_ok_def)
qed (simp add: redeem_events_calls)

text \<open>Native requests.\<close>

lemma check_pin_cases:
  "check_pin nf plan pin = nf' \<Longrightarrow> nf_request nf' = nf_request nf \<and> nf_now nf' = nf_now nf \<and>
   (\<forall>account credit. nf_pc nf' = NRedeem account credit \<longrightarrow> nr_account pin = Some account) \<and>
   (\<forall>existing. nf_pc nf' \<noteq> NPlan existing)"
  by (auto simp: check_pin_def split: option.splits if_splits)

lemma native_lookup_cases:
  "native_lookup an now nf db = nf' \<Longrightarrow> nf_request nf' = nf_request nf \<and> nf_now nf' \<in> {nf_now nf, now} \<and>
   (\<forall>account credit. nf_pc nf' \<noteq> NRedeem account credit) \<and>
   (\<forall>pin. nf_pc nf' = NPlan (Some pin) \<longrightarrow> tbl_get (rl_native db) (nf_request nf) = Some pin)"
  by (auto simp: native_lookup_def answer_terminal_def get_native_request_def opt_filter_Some Let_def split: option.splits if_splits)

lemma native_select_cases:
  "native_select nf plan = nf' \<Longrightarrow> nf_request nf' = nf_request nf \<and> nf_now nf' = nf_now nf \<and>
   (\<forall>account credit. nf_pc nf' \<noteq> NRedeem account credit) \<and> (\<forall>existing. nf_pc nf' \<noteq> NPlan existing)"
  by (auto simp: native_select_def split: option.splits if_splits)

lemma native_pin_cases:
  "native_pin account credit plan an nf db = (nf', db') \<Longrightarrow> nf_request nf' = nf_request nf \<and> nf_now nf' = nf_now nf \<and>
   (\<forall>a credit. nf_pc nf' = NRedeem a credit \<longrightarrow>
      (\<exists>pin. tbl_get (rl_native db') (nf_request nf) = Some pin \<and> nr_account pin = Some a)) \<and>
   (\<forall>existing. nf_pc nf' \<noteq> NPlan existing)"
  using check_pin_cases [of nf plan]
  by (auto simp: native_pin_def pin_native_request_def insert_native_def Let_def split: if_splits option.splits prod.splits)

lemma native_empty_cases:
  "native_empty an nf db = (nf', db') \<Longrightarrow> nf_request nf' = nf_request nf \<and> nf_now nf' = nf_now nf \<and> (\<exists>r. nf_pc nf' = NReply r)"
  by (auto simp: native_empty_def split: if_splits option.splits prod.splits)

lemma native_advance_native_ok:
  assumes "native_advance an now nf db = (nf', db')" "native_ok now hist nf" "sane_time now"
  shows "native_ok now (hist @ native_events (nf_request nf) now db') nf'"
proof (cases "nf_pc nf")
  case NLookup
  then have "native_lookup an now nf db = nf'" "db' = db" using assms(1) by (auto simp: native_advance_def)
  from native_lookup_cases [OF this(1)] this(2) assms(2,3) show ?thesis
    by (auto simp: native_ok_def native_stamp_def native_events_def split: native_pc.splits option.splits)
next
  case (NPlan existing)
  consider "nf' = reply NrUnavailable nf" | plan where "existing = None" "native_select nf plan = nf'"
    | plan pin where "existing = Some pin" "check_pin nf plan pin = nf'"
    using assms(1) NPlan by (auto simp: native_advance_def split: option.splits)
  then show ?thesis
  proof cases
    case (2 plan)
    from native_select_cases [OF this(2)] assms(2) show ?thesis by (auto simp: native_ok_def native_stamp_def split: native_pc.splits)
  next
    case (3 plan pin)
    then have "\<exists>u. EvNative (nf_request nf) (nr_account pin) (nr_created_at pin) u \<in> set hist"
      using assms(2) NPlan by (simp add: native_ok_def)
    with check_pin_cases [OF 3(2)] assms(2) show ?thesis by (fastforce simp: native_ok_def native_stamp_def split: native_pc.splits)
  next
    case 1
    with assms(2) show ?thesis by (simp add: native_ok_def native_stamp_def)
  qed
next
  case NEmpty
  then have "native_empty an nf db = (nf', db')" using assms(1) by (simp add: native_advance_def)
  from native_empty_cases [OF this] assms(2) show ?thesis by (auto simp: native_ok_def native_stamp_def)
next
  case (NPin account credit plan)
  then have "native_pin account credit plan an nf db = (nf', db')" using assms(1) by (simp add: native_advance_def)
  from native_pin_cases [OF this] assms(2) show ?thesis
    by (fastforce simp: native_ok_def native_stamp_def native_events_def split: native_pc.splits)
next
  case (NRedeem account credit)
  then show ?thesis using assms by (auto simp: native_advance_def native_ok_def)
next
  case (NReply r)
  then show ?thesis using assms by (auto simp: native_advance_def native_ok_def)
qed

section \<open>Every step keeps the invariant\<close>

lemma delete_ledger_ok:
  assumes "ledger_ok now hist db"
  shows "ledger_ok now (hist @ [EvDeleted a]) (delete_ledger_account a db)"
proof -
  have "tbl_get (tbl_retain (\<lambda>(b, _) _. b \<noteq> a) (rl_requests db)) key = tbl_get (rl_requests db) key" if "fst key \<noteq> a" for key
    using assms that by (cases key; cases "tbl_get (rl_requests db) key")
      (auto simp: ledger_ok_def pins_ok_def tbl_simps)
  then have "pins_ok now (hist @ [EvDeleted a]) (tbl_retain (\<lambda>(b, _) _. b \<noteq> a) (rl_requests db))"
    using assms by (simp add: ledger_ok_def pins_ok_def pins_seen_def del: split_paired_All)
  then show ?thesis using assms
    by (simp add: ledger_ok_def delete_ledger_account_def answers_ok_def natives_ok_def answers_seen_def natives_seen_def)
qed

lemma ledger_ok_later: "ledger_ok now hist db \<Longrightarrow> now \<le> t \<Longrightarrow> ledger_ok t hist db"
  unfolding ledger_ok_def pins_ok_def answers_ok_def natives_ok_def by (blast intro: generations_later)

lemma ledger_ok_lapsed: "ledger_ok now hist db \<Longrightarrow> ledger_ok now (hist @ map EvLapsed xs) db"
  by (rule ledger_ok_quiet) (auto simp: pins_seen_def answers_seen_def natives_seen_def)

lemma ledger_ok_handover: "ledger_ok now hist db \<Longrightarrow> ledger_ok now (hist @ [EvHandover n a]) db"
  by (rule ledger_ok_quiet) (auto simp: pins_seen_def answers_seen_def natives_seen_def)

lemma heartbeat_frame: "heartbeat io now f db = (f', db') \<Longrightarrow> \<exists>lost. f' = f\<lparr>rf_lease_lost := lost\<rparr>"
  by (auto simp: heartbeat_def split: if_splits prod.splits bool.splits intro: exI [of _ "rf_lease_lost f"])

lemma flow_ok_simps [simp]:
  "flow_ok hist (f\<lparr>rf_lease_lost := lost\<rparr>) = flow_ok hist f"
  "flow_ok hist (start_redeem account credit request require native holder)"
  "flow_ok hist (native_redeem nf account credit holder)"
  "flow_ok hist (lose_lease f)"
  by (simp_all add: flow_ok_def flow_key_def start_redeem_def native_redeem_def lose_lease_def)

lemma native_ok_start [simp]: "sane_time now \<Longrightarrow> native_ok now hist (start_native env authenticated pool request credit)"
  by (auto simp: native_ok_def native_stamp_def start_native_def sane_time_def i64_max_def Let_def split: option.splits)

lemma native_events_log: "log_ok hist \<Longrightarrow> log_ok (hist @ native_events n now db)"
  by (rule log_ok_append) (auto simp: native_events_def split: option.splits)

lemma quiet_log: "log_ok hist \<Longrightarrow> log_ok (hist @ map EvLapsed xs)" "log_ok hist \<Longrightarrow> log_ok (hist @ [EvDeleted a])"
  by (rule log_ok_append; auto)+

lemma rc_inv_step: "rc_step env sy sy' \<Longrightarrow> rc_inv sy \<Longrightarrow> rc_inv sy'"
proof (induction rule: rc_step.induct)
  case (NativeStep sy i nf an nf' db')
  then have "native_ok (sy_now sy) (sy_log sy) nf" by (auto simp: rc_inv_def)
  then have "native_stamp (sy_now sy) nf" by (rule native_okD)
  with NativeStep show ?case
    by (auto simp: rc_inv_def intro: native_advance_ok native_advance_native_ok native_events_log flow_ok_append
        native_ok_append [OF _ order_refl])
next
  case (Handover sy i nf account credit j holder)
  then have "native_ok (sy_now sy) (sy_log sy) nf" by (auto simp: rc_inv_def)
  then have "\<exists>t u. EvNative (nf_request nf) (Some account) t u \<in> set (sy_log sy)" using Handover by (simp add: native_ok_def)
  then have "log_ok (sy_log sy @ [EvHandover (nf_request nf) account])" if "log_ok (sy_log sy)"
    using that by (intro log_ok_append) auto
  then show ?case using Handover
    by (auto simp: rc_inv_def intro: ledger_ok_handover flow_ok_append native_ok_append [OF _ order_refl])
next
  case (Advance sy i f an f' db')
  then show ?case
    by (auto simp: rc_inv_def intro: advance_ok advance_flow_ok advance_log_ok flow_ok_append native_ok_append [OF _ order_refl])
next
  case (Heartbeat sy i f io f' db')
  then obtain lost where "f' = f\<lparr>rf_lease_lost := lost\<rparr>" using heartbeat_frame by blast
  with Heartbeat show ?case by (auto simp: rc_inv_def intro: heartbeat_ok)
next
  case (Delete sy account)
  then show ?case by (auto simp: rc_inv_def intro: delete_ledger_ok quiet_log flow_ok_append native_ok_append [OF _ order_refl])
next
  case (Tick sy t)
  then show ?case
    by (auto simp: rc_inv_def sane_time_def intro: ledger_ok_lapsed ledger_ok_later quiet_log flow_ok_append native_ok_append [rotated])
next
  case (Fleet sy to_json request accounts ok db')
  then show ?case by (auto simp: rc_inv_def intro: fleet_pin_ok)
qed (auto simp: rc_inv_def refresh_account_ok)

lemma seen_nil [simp]: "pins_seen key [] = {}" "answers_seen key [] = {}" "natives_seen n [] = {}"
  by (auto simp: pins_seen_def answers_seen_def natives_seen_def)

lemma rc_inv_init: "0 \<le> t \<Longrightarrow> t \<le> i64_max \<Longrightarrow> rc_inv (rc_init t)"
  by (auto simp: rc_inv_def rc_init_def sane_time_def ledger_ok_def pins_ok_def answers_ok_def natives_ok_def
      empty_ledger_def generations_start log_ok_def)

lemma rc_inv_run: "rc_run env sy \<Longrightarrow> rc_inv sy"
proof -
  assume "rc_run env sy"
  then obtain t where "(rc_step env)\<^sup>*\<^sup>* (rc_init t) sy" "rc_inv (rc_init t)" using rc_inv_init by blast
  then show ?thesis by (induction rule: rtranclp_induct) (auto intro: rc_inv_step)
qed

section \<open>One credit, one account, one answer\<close>

lemma call_pinned: "rc_inv sy \<Longrightarrow> EvCall key c u \<in> set (sy_log sy) \<Longrightarrow> \<exists>t w. EvPin key c t w \<in> set (sy_log sy)"
  unfolding rc_inv_def log_ok_def by meson

lemma handover_pinned: "rc_inv sy \<Longrightarrow> EvHandover n a \<in> set (sy_log sy) \<Longrightarrow> \<exists>t w. EvNative n (Some a) t w \<in> set (sy_log sy)"
  unfolding rc_inv_def log_ok_def by meson

lemma answered_logged:
  "rc_inv sy \<Longrightarrow> sy_flows sy i = Some f \<Longrightarrow> answered_with (rf_pc f) = Some v \<Longrightarrow>
   \<exists>row u. EvAnswer (flow_key f) row u \<in> set (sy_log sy) \<and> v = completed_result (rf_account f) row"
  unfolding rc_inv_def flow_ok_def by meson

lemma rc_inv_tables:
  assumes "rc_inv sy"
  shows "EvDeleted (fst key) \<notin> set (sy_log sy) \<Longrightarrow> generations request_ttl_seconds rq_credit_id rq_created_at (sy_now sy)
      (pins_seen key (sy_log sy)) (tbl_get (rl_requests (sy_ledger sy)) key)"
    and "generations request_ttl_seconds id rs_completed_at (sy_now sy) (answers_seen key (sy_log sy))
      (tbl_get (rl_results (sy_ledger sy)) key)"
    and "generations request_ttl_seconds nr_account nr_created_at (sy_now sy) (natives_seen n (sy_log sy))
      (tbl_get (rl_native (sy_ledger sy)) n)"
  using assms by (auto simp: rc_inv_def ledger_ok_def intro: pins_okD answers_okD natives_okD)

text \<open>
  C29: Every consume call made for one redemption request names the same credit, whatever handlers, retries,
  lost leases, restarts and refreshes interleave: of two that differ, one's pin was read more than 24 hours after
  the other's was created. Deleting the account discards its pins, so the claim is for accounts that were not
  deleted.
\<close>

theorem one_credit_per_request:
  assumes "rc_run env sy" "EvDeleted account \<notin> set (sy_log sy)"
    and "EvCall (account, request) c u \<in> set (sy_log sy)" "EvCall (account, request) c' u' \<in> set (sy_log sy)"
  shows "c = c' \<or> (\<exists>t p t' p'. EvPin (account, request) c t p \<in> set (sy_log sy) \<and>
    EvPin (account, request) c' t' p' \<in> set (sy_log sy) \<and>
    (outlived request_ttl_seconds t p' \<or> outlived request_ttl_seconds t' p))"
proof -
  have inv: "rc_inv sy" using assms(1) by (rule rc_inv_run)
  obtain t p t' p' where t: "EvPin (account, request) c t p \<in> set (sy_log sy)" "EvPin (account, request) c' t' p' \<in> set (sy_log sy)"
    using call_pinned [OF inv assms(3)] call_pinned [OF inv assms(4)] by blast
  have "EvDeleted (fst (account, request)) \<notin> set (sy_log sy)" using assms(2) by simp
  from generations_apart [OF rc_inv_tables(1) [OF inv this], where w = c and c = t and u = p and w' = c' and c' = t' and u' = p'] t
  show ?thesis by (auto simp: pins_seen_def)
qed

theorem one_credit_per_request_witness:
  "rc_run demo_env (demo_retry ConsumeLost) \<and>
   EvCall (''a'', ''r'') ''c1'' 1000 \<in> set (sy_log (demo_retry ConsumeLost)) \<and>
   (''c1'' = ''c1'' \<or> (\<exists>t p t' p'. EvPin (''a'', ''r'') ''c1'' t p \<in> set (sy_log (demo_retry ConsumeLost)) \<and>
     EvPin (''a'', ''r'') ''c1'' t' p' \<in> set (sy_log (demo_retry ConsumeLost)) \<and>
     (outlived request_ttl_seconds t p' \<or> outlived request_ttl_seconds t' p)))"
  using run_demo [of ConsumeLost]
    one_credit_per_request [OF run_demo, of "''a''" ConsumeLost "''r''" "''c1''" 1000 "''c1''" 1000]
  by (simp add: demo_lost_log)

text \<open>
  Two redemptions of one request that end with an answer give the same one, unless one read its answer more
  than 24 hours after the other's was recorded; deleting the account changes nothing.
\<close>

lemma answers_agree:
  assumes "rc_run env sy" "sy_flows sy i = Some f" "sy_flows sy j = Some g" "flow_key f = flow_key g"
    and "answered_with (rf_pc f) = Some v" "answered_with (rf_pc g) = Some w"
  shows "v = w \<or> (\<exists>row u row' u'. EvAnswer (flow_key f) row u \<in> set (sy_log sy) \<and> v = completed_result (rf_account f) row \<and>
    EvAnswer (flow_key f) row' u' \<in> set (sy_log sy) \<and> w = completed_result (rf_account f) row' \<and>
    (outlived request_ttl_seconds (rs_completed_at row) u' \<or> outlived request_ttl_seconds (rs_completed_at row') u))"
proof -
  have inv: "rc_inv sy" using assms(1) by (rule rc_inv_run)
  obtain row u where row: "EvAnswer (flow_key f) row u \<in> set (sy_log sy)" "v = completed_result (rf_account f) row"
    using answered_logged [OF inv assms(2,5)] by blast
  obtain row' u' where row': "EvAnswer (flow_key f) row' u' \<in> set (sy_log sy)" "w = completed_result (rf_account f) row'"
    using answered_logged [OF inv assms(3,6)] assms(4) by (auto simp: flow_key_def)
  have "row = row' \<or> outlived request_ttl_seconds (rs_completed_at row) u' \<or> outlived request_ttl_seconds (rs_completed_at row') u"
    using generations_apart [OF rc_inv_tables(2) [OF inv, where key = "flow_key f"], where w = row
        and c = "rs_completed_at row" and u = u and w' = row' and c' = "rs_completed_at row'" and u' = u'] row row'
    by (auto simp: answers_seen_def)
  with row row' show ?thesis by blast
qed

lemma answers_agree_example:
  "rc_run demo_env (demo_retry demo_done) \<and> (\<exists>f g v.
     sy_flows (demo_retry demo_done) 0 = Some f \<and> sy_flows (demo_retry demo_done) 1 = Some g \<and>
     flow_key f = (''a'', ''r'') \<and> flow_key g = (''a'', ''r'') \<and>
     answered_with (rf_pc f) = Some v \<and> (answered_with (rf_pc g) = Some v \<or> (\<exists>row u row' u'.
       EvAnswer (flow_key f) row u \<in> set (sy_log (demo_retry demo_done)) \<and> v = completed_result (rf_account f) row \<and>
       EvAnswer (flow_key f) row' u' \<in> set (sy_log (demo_retry demo_done)) \<and> v = completed_result (rf_account f) row' \<and>
       (outlived request_ttl_seconds (rs_completed_at row) u' \<or> outlived request_ttl_seconds (rs_completed_at row') u))))"
proof -
  let ?v = "completed_result ''a'' demo_result"
  obtain f where f: "sy_flows (demo_retry demo_done) 0 = Some f" "flow_key f = (''a'', ''r'')" "answered_with (rf_pc f) = Some ?v"
    using demo_done_flows(1) by auto
  obtain g where g: "sy_flows (demo_retry demo_done) 1 = Some g" "flow_key g = (''a'', ''r'')" "answered_with (rf_pc g) = Some ?v"
    using demo_done_flows(2) by auto
  from answers_agree [OF run_demo f(1) g(1) _ f(3) g(3)] run_demo f g show ?thesis by auto
qed

text \<open>
  A native request is redeemed on one account: of two hand-overs of one request id to different accounts, one's
  pin was read more than 24 hours after the other's was created, even when the account was deleted in between.
\<close>

lemma native_request_keeps_account:
  assumes "rc_run env sy" "EvHandover n a \<in> set (sy_log sy)" "EvHandover n b \<in> set (sy_log sy)"
  shows "a = b \<or> (\<exists>t u t' u'. EvNative n (Some a) t u \<in> set (sy_log sy) \<and> EvNative n (Some b) t' u' \<in> set (sy_log sy) \<and>
    (outlived request_ttl_seconds t u' \<or> outlived request_ttl_seconds t' u))"
proof -
  have inv: "rc_inv sy" using assms(1) by (rule rc_inv_run)
  obtain t u t' u' where t: "EvNative n (Some a) t u \<in> set (sy_log sy)" "EvNative n (Some b) t' u' \<in> set (sy_log sy)"
    using handover_pinned [OF inv assms(2)] handover_pinned [OF inv assms(3)] by blast
  from generations_apart [OF rc_inv_tables(3) [OF inv], where w = "Some a" and c = t and u = u and w' = "Some b" and c' = t'
      and u' = u'] t
  show ?thesis by (auto simp: natives_seen_def)
qed

lemma native_request_keeps_account_example:
  "\<exists>sy. rc_run demo_env sy \<and> EvHandover ''n'' ''a'' \<in> set (sy_log sy) \<and>
     (\<forall>b. EvHandover ''n'' b \<notin> set (sy_log sy) \<or> ''a'' = b \<or> (\<exists>t u t' u'. EvNative ''n'' (Some ''a'') t u \<in> set (sy_log sy) \<and>
       EvNative ''n'' (Some b) t' u' \<in> set (sy_log sy) \<and>
       (outlived request_ttl_seconds t u' \<or> outlived request_ttl_seconds t' u)))"
proof -
  obtain sy where sy: "rc_run demo_env sy" "EvHandover ''n'' ''a'' \<in> set (sy_log sy)" using native_handover_run by blast
  from native_request_keeps_account [OF sy] sy show ?thesis by blast
qed

end
