(* ===== verification/Reset_Claims.thy ===== *)
theory Reset_Claims
  imports Reset_Props
begin

text \<open>
  What the claim adds: as long as no lease runs out under a running redemption, an account has at most one
  redemption inside its claim, and a request that was answered never spends again.
\<close>

section \<open>How a step changes the claims\<close>

lemma ledger_claims [simp]:
  "rl_claims (note_request_result key terminal db) = rl_claims db"
  "rl_claims (snd (close_native n account result db)) = rl_claims db"
  "rl_claims (invalidate account db) = rl_claims db"
  by (auto simp: note_request_result_def close_native_def invalidate_def split: option.splits)

lemma ledger_claims_ops:
  "pin_request account req credit now ttl db = Some (pinned, db') \<Longrightarrow> rl_claims db' = rl_claims db"
  "store_snapshot env account fresh now db = Some db' \<Longrightarrow> rl_claims db' = rl_claims db"
  "complete_request_with_native account req outcome native db = Some (terminal, db') \<Longrightarrow> rl_claims db' = rl_claims db"
  "insert_native n row now ttl db = (pin, db') \<Longrightarrow> rl_claims db' = rl_claims db"
  by (auto simp: pin_request_def store_snapshot_def replace_snapshot_def complete_request_with_native_def record_result_def
      insert_native_def Let_def split: if_splits option.splits)

lemma goto_claimed [simp]:
  "rf_claimed (finish_redeem outcome f) = rf_claimed f"
  "rf_claimed (go_select existing fresh f) = rf_claimed f"
  "rf_claimed (go_usage existing f) = rf_claimed f"
  by (auto simp: finish_redeem_def go_select_def go_usage_def split: option.splits)

lemma step_claims:
  "result_step pc now f db = (f', db') \<Longrightarrow> rl_claims db' = rl_claims db \<and> rf_claimed f' = rf_claimed f"
  "request_step now f db = (f', db') \<Longrightarrow> rl_claims db' = rl_claims db \<and> rf_claimed f' = rf_claimed f"
  "native_step existing now f db = (f', db') \<Longrightarrow> rl_claims db' = rl_claims db \<and> rf_claimed f' = rf_claimed f"
  "store_step env existing fresh now f db = (f', db') \<Longrightarrow> rl_claims db' = rl_claims db \<and> rf_claimed f' = rf_claimed f"
  "plan_step an fresh now f db = (f', db') \<Longrightarrow> rl_claims db' = rl_claims db \<and> rf_claimed f' = rf_claimed f"
  "no_credit_step now f db = (f', db') \<Longrightarrow> rl_claims db' = rl_claims db \<and> rf_claimed f' = rf_claimed f"
  "pin_step selected now f db = (f', db') \<Longrightarrow> rl_claims db' = rl_claims db \<and> rf_claimed f' = rf_claimed f"
  "complete_step env consumed now f db = (f', db') \<Longrightarrow> rl_claims db' = rl_claims db \<and> rf_claimed f' = rf_claimed f"
  by (auto simp: result_step_def request_step_def native_step_def store_step_def plan_step_def no_credit_step_def
      pin_step_def complete_step_def complete_native_account_no_credit_def Let_def
      dest: ledger_claims_ops split: option.splits if_splits)

lemma claim_step_claims:
  "claim_step an now f db = (f', db') \<Longrightarrow> rl_claims db' = rl_claims db \<and> rf_claimed f' = rf_claimed f \<or>
   rl_claims db' = tbl_put (rl_claims db) (rf_account f) (rf_holder f, now + claim_lease_seconds) \<and>
     rf_claimed f' \<and> (\<forall>h u. tbl_get (rl_claims db) (rf_account f) = Some (h, u) \<longrightarrow> u < now)"
  by (auto simp: claim_step_def try_acquire_claim_def Let_def split: option.splits if_splits bool.splits)

lemma advance_claims:
  "redeem_advance env an now f db = (f', db') \<Longrightarrow>
   rl_claims db' = rl_claims db \<and> rf_claimed f' = rf_claimed f \<or>
   rf_pc f = PClaim \<and> rl_claims db' = tbl_put (rl_claims db) (rf_account f) (rf_holder f, now + claim_lease_seconds) \<and>
     rf_claimed f' \<and> (\<forall>h u. tbl_get (rl_claims db) (rf_account f) = Some (h, u) \<longrightarrow> u < now) \<or>
   \<not> rf_claimed f' \<and> (rl_claims db' = rl_claims db \<or>
     rl_claims db' = tbl_del (rl_claims db) (rf_account f) \<and> (\<exists>u. tbl_get (rl_claims db) (rf_account f) = Some (rf_holder f, u)))"
  by (cases "rf_pc f")
    (auto simp: redeem_advance_def release_claim_def is_some_and_iff Let_def
      dest: step_claims dest!: claim_step_claims split: option.splits if_splits)

section \<open>One redemption inside the claim\<close>

definition undisturbed :: "account_id \<Rightarrow> rc_event list \<Rightarrow> bool" where
  "undisturbed a hist \<longleftrightarrow> EvLapsed a \<notin> set hist \<and> EvDeleted a \<notin> set hist"

definition unique_holders :: "rc_system \<Rightarrow> bool" where
  "unique_holders sy \<longleftrightarrow>
     (\<forall>i j f g. sy_flows sy i = Some f \<longrightarrow> sy_flows sy j = Some g \<longrightarrow> rf_holder f = rf_holder g \<longrightarrow> i = j)"

definition claims_held :: "account_id \<Rightarrow> rc_system \<Rightarrow> bool" where
  "claims_held a sy \<longleftrightarrow> (\<forall>i f. sy_flows sy i = Some f \<longrightarrow> rf_claimed f \<longrightarrow> rf_account f = a \<longrightarrow>
     (\<exists>u. tbl_get (rl_claims (sy_ledger sy)) a = Some (rf_holder f, u) \<and> sy_now sy \<le> u))"

lemma claims_heldD: "claims_held a sy \<Longrightarrow> sy_flows sy i = Some f \<Longrightarrow> rf_claimed f \<Longrightarrow> rf_account f = a \<Longrightarrow>
    \<exists>u. tbl_get (rl_claims (sy_ledger sy)) a = Some (rf_holder f, u) \<and> sy_now sy \<le> u"
  unfolding claims_held_def by blast

lemma claims_exclude:
  assumes "claims_held a sy" "unique_holders sy" "sy_flows sy i = Some f" "sy_flows sy j = Some g"
    and "rf_claimed f" "rf_claimed g" "rf_account f = a" "rf_account g = a"
  shows "i = j"
proof -
  have "rf_holder f = rf_holder g"
    using claims_heldD [OF assms(1,3,5,7)] claims_heldD [OF assms(1,4,6,8)] by auto
  with assms(2-4) show ?thesis unfolding unique_holders_def by blast
qed

lemma unique_holders_step:
  assumes "rc_step env sy sy'" "unique_holders sy"
  shows "unique_holders sy'"
  using assms
proof (induction rule: rc_step.induct)
  case (Advance sy i f an f' db')
  then have "rf_holder f' = rf_holder f" using advance_frame by blast
  with Advance show ?case by (auto simp: unique_holders_def split: if_splits)
next
  case (Heartbeat sy i f io f' db')
  then obtain lost where "f' = f\<lparr>rf_lease_lost := lost\<rparr>" using heartbeat_frame by blast
  with Heartbeat show ?case by (auto simp: unique_holders_def split: if_splits)
qed (auto simp: unique_holders_def unused_holder_def start_redeem_def native_redeem_def lose_lease_def split: if_splits)

text \<open>What a step leaves of the claims of account \<open>a\<close>, and which flows are inside afterwards.\<close>

lemma claims_heldI:
  "(\<And>i f. sy_flows sy i = Some f \<Longrightarrow> rf_claimed f \<Longrightarrow> rf_account f = a \<Longrightarrow>
     \<exists>u. tbl_get (rl_claims (sy_ledger sy)) a = Some (rf_holder f, u) \<and> sy_now sy \<le> u) \<Longrightarrow> claims_held a sy"
  unfolding claims_held_def by blast

lemma claims_held_advance:
  assumes "sy_flows sy i = Some f" "redeem_advance env an (sy_now sy) f (sy_ledger sy) = (f', db')"
    and held: "claims_held a sy" and "unique_holders sy"
  shows "claims_held a (sy\<lparr>sy_flows := (sy_flows sy)(i \<mapsto> f'), sy_ledger := db', sy_log := hist\<rparr>)"
proof (rule claims_heldI)
  fix j g
  assume "sy_flows (sy\<lparr>sy_flows := (sy_flows sy)(i \<mapsto> f'), sy_ledger := db', sy_log := hist\<rparr>) j = Some g"
    and g: "rf_claimed g" "rf_account g = a"
  then have j: "if j = i then g = f' else sy_flows sy j = Some g" by (simp split: if_splits)
  note frame = advance_frame [OF assms(2)]
  have mine: "\<exists>u. tbl_get (rl_claims (sy_ledger sy)) a = Some (rf_holder g, u) \<and> sy_now sy \<le> u" if "j \<noteq> i"
    using claims_heldD [OF held _ g, of j] j that by simp
  have other: "rf_holder g \<noteq> rf_holder f" if "j \<noteq> i"
    using assms(1,4) j that unfolding unique_holders_def by auto
  have "\<exists>u. tbl_get (rl_claims db') a = Some (rf_holder g, u) \<and> sy_now sy \<le> u"
    using advance_claims [OF assms(2)]
  proof (elim disjE conjE exE)
    assume same: "rl_claims db' = rl_claims (sy_ledger sy)" "rf_claimed f' = rf_claimed f"
    show ?thesis
    proof (cases "j = i")
      case True
      then show ?thesis using claims_heldD [OF held assms(1)] same j g frame by simp
    next
      case False
      then show ?thesis using mine same by simp
    qed
  next
    assume won: "rl_claims db' = tbl_put (rl_claims (sy_ledger sy)) (rf_account f) (rf_holder f, sy_now sy + claim_lease_seconds)"
      "\<forall>h u. tbl_get (rl_claims (sy_ledger sy)) (rf_account f) = Some (h, u) \<longrightarrow> u < sy_now sy"
    show ?thesis
    proof (cases "j = i")
      case True
      then show ?thesis using won(1) j g frame by (simp add: tbl_simps claim_lease_seconds_def)
    next
      case False
      from mine [OF this] won(2) have "rf_account f \<noteq> a" by fastforce
      then show ?thesis using mine [OF False] won(1) by (simp add: tbl_simps)
    qed
  next
    assume "\<not> rf_claimed f'" "rl_claims db' = rl_claims (sy_ledger sy)"
    then show ?thesis using j g mine by (cases "j = i") simp_all
  next
    fix u
    assume lost: "\<not> rf_claimed f'" "rl_claims db' = tbl_del (rl_claims (sy_ledger sy)) (rf_account f)"
      "tbl_get (rl_claims (sy_ledger sy)) (rf_account f) = Some (rf_holder f, u)"
    then have "j \<noteq> i" using j g by auto
    with mine other lost(3) have "rf_account f \<noteq> a" by fastforce
    then show ?thesis using mine [OF \<open>j \<noteq> i\<close>] lost(2) by (simp add: tbl_simps)
  qed
  then show "\<exists>u. tbl_get (rl_claims (sy_ledger (sy\<lparr>sy_flows := (sy_flows sy)(i \<mapsto> f'), sy_ledger := db', sy_log := hist\<rparr>))) a =
      Some (rf_holder g, u) \<and> sy_now (sy\<lparr>sy_flows := (sy_flows sy)(i \<mapsto> f'), sy_ledger := db', sy_log := hist\<rparr>) \<le> u"
    by simp
qed

lemma claims_held_tick:
  assumes "claims_held a sy" "EvLapsed a \<notin> set (map EvLapsed (lapsed t sy))"
  shows "claims_held a (sy\<lparr>sy_now := t, sy_log := hist\<rparr>)"
proof (rule claims_heldI)
  fix i f
  assume "sy_flows (sy\<lparr>sy_now := t, sy_log := hist\<rparr>) i = Some f" and f: "rf_claimed f" "rf_account f = a"
  then have i: "sy_flows sy i = Some f" by simp
  from claims_heldD [OF assms(1) i f] obtain u where u: "tbl_get (rl_claims (sy_ledger sy)) a = Some (rf_holder f, u)" by blast
  then have "(a, rf_holder f, u) \<in> set (rl_claims (sy_ledger sy))" by (rule map_of_SomeD)
  then have "t \<le> u" using assms(2) i f by (force simp: lapsed_def)
  with u show "\<exists>u. tbl_get (rl_claims (sy_ledger (sy\<lparr>sy_now := t, sy_log := hist\<rparr>))) a = Some (rf_holder f, u) \<and>
      sy_now (sy\<lparr>sy_now := t, sy_log := hist\<rparr>) \<le> u" by simp
qed

lemma heartbeat_claims:
  "heartbeat io now f db = (f', db') \<Longrightarrow> rl_claims db' = rl_claims db \<or>
   rl_claims db' = tbl_put (rl_claims db) (rf_account f) (rf_holder f, now + claim_lease_seconds) \<and>
     (\<exists>u. tbl_get (rl_claims db) (rf_account f) = Some (rf_holder f, u))"
  by (auto simp: heartbeat_def renew_claim_def is_some_and_iff split: if_splits)

lemma refresh_claims: "rl_claims (refresh_account env account has_tokens fetched now db) = rl_claims db"
  by (auto simp: refresh_account_def dest: ledger_claims_ops split: option.splits)
    (metis ledger_claims_ops(2) opt_simps(7,8) option.exhaust)

lemma fleet_claims: "fleet_pin to_json request accounts now db = (ok, db') \<Longrightarrow> rl_claims db' = rl_claims db"
  by (auto simp: fleet_pin_def pin_fleet_request_def Let_def)

lemma native_claims: "native_advance an now nf db = (nf', db') \<Longrightarrow> rl_claims db' = rl_claims db"
  by (cases "nf_pc nf")
    (auto simp: native_advance_def native_empty_def native_pin_def complete_native_no_credit_def pin_native_request_def
      dest: ledger_claims_ops split: if_splits option.splits prod.splits)

lemma claims_held_cong:
  "claims_held a sy \<Longrightarrow> rl_claims (sy_ledger sy') = rl_claims (sy_ledger sy) \<Longrightarrow> sy_now sy' = sy_now sy \<Longrightarrow>
   (\<And>i f. sy_flows sy' i = Some f \<Longrightarrow> rf_claimed f \<Longrightarrow>
      \<exists>g. sy_flows sy i = Some g \<and> rf_claimed g \<and> rf_account g = rf_account f \<and> rf_holder g = rf_holder f) \<Longrightarrow>
   claims_held a sy'"
  unfolding claims_held_def by metis

lemma new_flow_outside [simp]:
  "\<not> rf_claimed (start_redeem account credit request require native holder)"
  "\<not> rf_claimed (native_redeem nf account credit holder)"
  by (simp_all add: start_redeem_def native_redeem_def)

lemma lose_lease_simps [simp]:
  "rf_claimed (lose_lease f) = rf_claimed f" "rf_account (lose_lease f) = rf_account f" "rf_holder (lose_lease f) = rf_holder f"
  "flow_key (lose_lease f) = flow_key f"
  by (simp_all add: lose_lease_def flow_key_def)

lemma claims_held_heartbeat:
  assumes "sy_flows sy i = Some f" "rf_claimed f" "heartbeat io (sy_now sy) f (sy_ledger sy) = (f', db')"
    and "claims_held a sy"
  shows "claims_held a (sy\<lparr>sy_flows := (sy_flows sy)(i \<mapsto> f'), sy_ledger := db'\<rparr>)"
proof -
  obtain lost where f': "f' = f\<lparr>rf_lease_lost := lost\<rparr>" using heartbeat_frame [OF assms(3)] by blast
  have flows: "claims_held a (sy\<lparr>sy_flows := (sy_flows sy)(i \<mapsto> f')\<rparr>)"
    using assms(1,2) by (intro claims_held_cong [OF assms(4)]) (auto simp: f' split: if_splits)
  show ?thesis using heartbeat_claims [OF assms(3)]
  proof (elim disjE conjE exE)
    assume "rl_claims db' = rl_claims (sy_ledger sy)"
    then show ?thesis by (intro claims_held_cong [OF flows]) auto
  next
    fix u
    assume renewed: "rl_claims db' = tbl_put (rl_claims (sy_ledger sy)) (rf_account f) (rf_holder f, sy_now sy + claim_lease_seconds)"
      "tbl_get (rl_claims (sy_ledger sy)) (rf_account f) = Some (rf_holder f, u)"
    have "\<exists>v. tbl_get (rl_claims db') a = Some (rf_holder g, v) \<and> sy_now sy \<le> v"
      if g: "((sy_flows sy)(i \<mapsto> f')) j = Some g" "rf_claimed g" "rf_account g = a" for j g
      using claims_heldD [OF flows, of j g] g renewed by (cases "rf_account f = a") (auto simp: tbl_simps claim_lease_seconds_def)
    then show ?thesis by (auto simp: claims_held_def)
  qed
qed

lemma claims_held_step:
  assumes "rc_step env sy sy'" "claims_held a sy" "unique_holders sy" "undisturbed a (sy_log sy')"
  shows "claims_held a sy'"
  using assms
proof (induction rule: rc_step.induct)
  case (Advance sy i f an f' db')
  then show ?case by (intro claims_held_advance)
next
  case (Heartbeat sy i f io f' db')
  then show ?case by (intro claims_held_heartbeat)
next
  case (Tick sy t)
  then show ?case by (intro claims_held_tick) (auto simp: undisturbed_def)
next
  case (Delete sy account)
  then have "account \<noteq> a" by (auto simp: undisturbed_def)
  then have "tbl_get (rl_claims (delete_ledger_account account (sy_ledger sy))) a = tbl_get (rl_claims (sy_ledger sy)) a"
    by (simp add: delete_ledger_account_def tbl_simps)
  with Delete show ?case by (simp add: claims_held_def)
next
  case (NativeStep sy i nf an nf' db')
  then show ?case by (intro claims_held_cong [OF NativeStep.prems(1)]) (auto dest: native_claims)
next
  case (Fleet to_json request accounts sy ok db')
  then show ?case by (intro claims_held_cong [OF Fleet.prems(1)]) (auto dest: fleet_claims)
next
  case (Refresh sy account has_tokens fetched)
  then show ?case by (intro claims_held_cong [OF Refresh.prems(1)]) (auto simp: refresh_claims)
qed (erule claims_held_cong; auto split: if_splits)+

section \<open>Answers are in the log\<close>

definition results_logged :: "rc_event list \<Rightarrow> ledger \<Rightarrow> bool" where
  "results_logged hist db \<longleftrightarrow> (\<forall>key row. tbl_get (rl_results db) key = Some row \<longrightarrow> (\<exists>u. EvAnswer key row u \<in> set hist))"

lemma results_loggedD: "results_logged hist db \<Longrightarrow> tbl_get (rl_results db) key = Some row \<Longrightarrow>
    \<exists>u. EvAnswer key row u \<in> set hist"
  unfolding results_logged_def by blast

lemma results_logged_mono: "results_logged hist db \<Longrightarrow> results_logged (hist @ evs) db"
  unfolding results_logged_def set_append Un_iff by meson

lemma results_logged_cong: "results_logged hist db \<Longrightarrow> rl_results db' = rl_results db \<Longrightarrow> results_logged hist db'"
  by (simp add: results_logged_def)

lemma ledger_results_ops:
  "pin_request account req credit now ttl db = Some (pinned, db') \<Longrightarrow> rl_results db' = rl_results db"
  "store_snapshot env account fresh now db = Some db' \<Longrightarrow> rl_results db' = rl_results db"
  "insert_native n row now ttl db = (pin, db') \<Longrightarrow> rl_results db' = rl_results db"
  "try_acquire_claim account holder now until db = Some (won, db') \<Longrightarrow> rl_results db' = rl_results db"
  by (auto simp: pin_request_def store_snapshot_def replace_snapshot_def insert_native_def try_acquire_claim_def
      Let_def split: if_splits option.splits)

lemma complete_results:
  assumes "complete_request_with_native account req outcome native db = Some (terminal, db')" "tbl_ok (rl_results db)"
    "tbl_get (rl_results db') key = Some row"
  shows "tbl_get (rl_results db) key = Some row \<or> key = (account, req)"
proof -
  have "rl_results db' = pin_row rs_completed_at (24 * 3600) (rs_completed_at outcome) (rl_results db) (account, req) outcome"
    using assms(1) by (auto simp: complete_request_with_native_def record_result_def Let_def split: option.splits)
  with assms(3) pinned.pin_origin [OF assms(2), of rs_completed_at "24 * 3600" "rs_completed_at outcome" "(account, req)" outcome key row]
  show ?thesis by auto
qed

lemma advance_results:
  assumes "redeem_advance env an now f db = (f', db')"
  shows "rl_results db' = rl_results db \<or> (\<exists>consumed. rf_pc f = PComplete consumed \<and> complete_step env consumed now f db = (f', db'))"
  using assms
  by (cases "rf_pc f")
    (auto simp: redeem_advance_def result_step_def request_step_def native_step_def claim_step_def store_step_def
      plan_step_def no_credit_step_def complete_native_account_no_credit_def pin_step_def invalidate_def release_claim_def Let_def
      dest: ledger_results_ops split: option.splits if_splits bool.splits)

lemma advance_results_logged:
  assumes "redeem_advance env an now f db = (f', db')" "results_logged hist db" "tbl_ok (rl_results db)"
  shows "results_logged (hist @ redeem_events (flow_key f) (rf_pc f) (rf_pc f') now db') db'"
  using advance_results [OF assms(1)]
proof (elim disjE exE conjE)
  assume "rl_results db' = rl_results db"
  then show ?thesis using assms(2) by (intro results_logged_mono) (rule results_logged_cong)
next
  fix consumed
  assume c: "rf_pc f = PComplete consumed" "complete_step env consumed now f db = (f', db')"
  show ?thesis
  proof (cases "complete_request_with_native (rf_account f) (rf_request f)
      \<lparr>rs_code = co_code consumed, rs_windows_reset = co_windows_reset consumed,
       rs_redeemed_at = parse_time env (co_redeemed_at consumed), rs_completed_at = now\<rparr> (rf_native f) db")
    case None
    then show ?thesis using c(2) assms(2) by (auto simp: complete_step_def intro: results_logged_mono)
  next
    case (Some res)
    obtain terminal where res: "res = (terminal, db')" "rf_pc f' = PRepair (completed_result (rf_account f) terminal)"
      using c(2) Some by (cases res) (auto simp: complete_step_def)
    have "\<exists>u. EvAnswer key row u \<in> set (hist @ answer_events (flow_key f) now db')" if "tbl_get (rl_results db') key = Some row" for key row
      using complete_results [OF Some [unfolded res(1)] assms(3) that] results_loggedD [OF assms(2), where key = key] that
      by (auto simp: answer_events_def flow_key_def ex_disj_distrib)
    then show ?thesis by (simp add: results_logged_def redeem_events_def c(1) res(2))
  qed
qed

text \<open>A new answer comes from a completion only.\<close>

fun checked :: "redeem_pc \<Rightarrow> bool" where
  "checked PLookup = False"
| "checked PClaim = False"
| "checked PAccount = False"
| "checked PTokens = False"
| "checked PResult = False"
| "checked (PRepair _) = False"
| "checked (PRelease _) = False"
| "checked (PDone _) = False"
| "checked _ = True"

lemma new_answers:
  assumes "redeem_advance env an now f db = (f', db')" "results_logged hist db"
    "EvAnswer key row u \<in> set (redeem_events (flow_key f) (rf_pc f) (rf_pc f') now db')"
  shows "key = flow_key f \<and> ((\<exists>w. EvAnswer key row w \<in> set hist) \<or> (\<exists>consumed. rf_pc f = PComplete consumed) \<and> \<not> checked (rf_pc f'))"
proof -
  have "tbl_get (rl_results db') key = Some row \<and> key = flow_key f \<and> (\<exists>v. rf_pc f' = PRepair v) \<and>
    (rf_pc f = PLookup \<or> rf_pc f = PResult \<or> (\<exists>consumed. rf_pc f = PComplete consumed))"
    using assms(3) by (cases "rf_pc f"; cases "rf_pc f'")
      (auto simp: redeem_events_def answer_events_def pin_events_def split: option.splits)
  moreover have "rl_results db' = rl_results db" if "rf_pc f = PLookup \<or> rf_pc f = PResult"
    using advance_results [OF assms(1)] that by auto
  ultimately show ?thesis using results_loggedD [OF assms(2), where key = key] by auto
qed

section \<open>No spending after an answer\<close>

fun within_claim :: "redeem_pc \<Rightarrow> bool" where
  "within_claim PAccount = True"
| "within_claim PTokens = True"
| "within_claim PResult = True"
| "within_claim pc = checked pc"

lemma within_claim_simps [simp]:
  "\<not> within_claim (rf_pc (finish_redeem outcome f))" "\<not> checked (rf_pc (finish_redeem outcome f))"
  "checked pc \<Longrightarrow> within_claim pc"
  by (auto simp: finish_redeem_def) (cases pc; simp)

lemma advance_within:
  "redeem_advance env an now f db = (f', db') \<Longrightarrow> (within_claim (rf_pc f) \<Longrightarrow> rf_claimed f) \<Longrightarrow>
   within_claim (rf_pc f') \<Longrightarrow> rf_claimed f'"
  by (cases "rf_pc f")
    (auto simp: redeem_advance_def Let_def result_step_def claim_step_def dest!: step_claims(2-)
      split: option.splits if_splits bool.splits prod.splits)

lemma advance_checked:
  "redeem_advance env an now f db = (f', db') \<Longrightarrow> checked (rf_pc f') \<Longrightarrow>
   checked (rf_pc f) \<or> rf_pc f = PResult \<and> get_result db (rf_account f) (rf_request f) now request_ttl_seconds = None"
  by (cases "rf_pc f")
    (auto simp: redeem_advance_def Let_def result_step_def claim_step_def split: option.splits if_splits bool.splits prod.splits)

definition answered_before :: "request_key \<Rightarrow> i64 \<Rightarrow> rc_event list \<Rightarrow> bool" where
  "answered_before key now hist \<longleftrightarrow> (\<forall>row u. EvAnswer key row u \<in> set hist \<longrightarrow> outlived request_ttl_seconds (rs_completed_at row) now)"

lemma unanswered:
  assumes "generations request_ttl_seconds id rs_completed_at now (answers_seen key hist) (tbl_get (rl_results db) key)"
    and "get_result db (fst key) (snd key) now request_ttl_seconds = None" "sane_time now"
  shows "answered_before key now hist"
proof -
  have "outlived request_ttl_seconds (rs_completed_at row) now" if "EvAnswer key row u \<in> set hist" for row u
  proof (rule ccontr)
    assume fresh: "\<not> outlived request_ttl_seconds (rs_completed_at row) now"
    have "(row, rs_completed_at row, u) \<in> answers_seen key hist" using that by (simp add: answers_seen_def)
    from generations_present [OF assms(1) this fresh] show False
      using assms(2) fresh by (auto simp: get_result_def sane_sub [OF assms(3)] outlived_def)
  qed
  then show ?thesis by (simp add: answered_before_def)
qed

text \<open>No call of account \<open>a\<close> comes after an answer to its request that was recorded within the lifetime.\<close>

definition no_late_call :: "account_id \<Rightarrow> rc_event list \<Rightarrow> bool" where
  "no_late_call a hist \<longleftrightarrow> (\<forall>i j r row w c u. i < j \<longrightarrow> j < length hist \<longrightarrow> hist ! i = EvAnswer (a, r) row w \<longrightarrow>
     hist ! j = EvCall (a, r) c u \<longrightarrow> outlived request_ttl_seconds (rs_completed_at row) u)"

lemma no_late_call_append:
  assumes "no_late_call a hist" "\<And>r c u. EvCall (a, r) c u \<notin> set evs"
  shows "no_late_call a (hist @ evs)"
  unfolding no_late_call_def
proof (intro allI impI)
  fix i j r row w c u
  assume *: "i < j" "j < length (hist @ evs)" "(hist @ evs) ! i = EvAnswer (a, r) row w" "(hist @ evs) ! j = EvCall (a, r) c u"
  have "j < length hist"
  proof (rule ccontr)
    assume "\<not> j < length hist"
    then have "evs ! (j - length hist) = EvCall (a, r) c u" "j - length hist < length evs" using * by (auto simp: nth_append)
    then show False using assms(2) nth_mem by metis
  qed
  then have "hist ! i = EvAnswer (a, r) row w" "hist ! j = EvCall (a, r) c u" using * by (auto simp: nth_append)
  with assms(1) \<open>j < length hist\<close> \<open>i < j\<close> show "outlived request_ttl_seconds (rs_completed_at row) u"
    unfolding no_late_call_def by blast
qed

lemma no_late_call_call:
  assumes "no_late_call a hist" "fst key = a \<Longrightarrow> answered_before key now hist"
  shows "no_late_call a (hist @ [EvCall key credit now])"
  unfolding no_late_call_def
proof (intro allI impI)
  fix i j r row w c u
  assume *: "i < j" "j < length (hist @ [EvCall key credit now])" "(hist @ [EvCall key credit now]) ! i = EvAnswer (a, r) row w"
    "(hist @ [EvCall key credit now]) ! j = EvCall (a, r) c u"
  then have i: "i < length hist" "hist ! i = EvAnswer (a, r) row w" by (auto simp: nth_append)
  show "outlived request_ttl_seconds (rs_completed_at row) u"
  proof (cases "j < length hist")
    case True
    then show ?thesis using assms(1) * i unfolding no_late_call_def by (auto simp: nth_append)
  next
    case False
    then have "key = (a, r)" "u = now" using * by (auto simp: nth_append)
    then show ?thesis using assms(2) i nth_mem [OF i(1)] by (auto simp: answered_before_def)
  qed
qed

definition answers_checked :: "account_id \<Rightarrow> rc_system \<Rightarrow> bool" where
  "answers_checked a sy \<longleftrightarrow> (\<forall>i f. sy_flows sy i = Some f \<longrightarrow> checked (rf_pc f) \<longrightarrow> rf_account f = a \<longrightarrow>
     answered_before (flow_key f) (sy_now sy) (sy_log sy))"

definition within_ok :: "rc_system \<Rightarrow> bool" where
  "within_ok sy \<longleftrightarrow> (\<forall>i f. sy_flows sy i = Some f \<longrightarrow> within_claim (rf_pc f) \<longrightarrow> rf_claimed f)"

lemma within_ok_step: "rc_step env sy sy' \<Longrightarrow> within_ok sy \<Longrightarrow> within_ok sy'"
proof (induction rule: rc_step.induct)
  case (Advance sy i f an f' db')
  then have "within_claim (rf_pc f') \<Longrightarrow> rf_claimed f'" using advance_within by (auto simp: within_ok_def)
  with Advance show ?case by (auto simp: within_ok_def)
next
  case (Heartbeat sy i f io f' db')
  then obtain lost where "f' = f\<lparr>rf_lease_lost := lost\<rparr>" using heartbeat_frame by blast
  with Heartbeat show ?case by (auto simp: within_ok_def)
qed (auto simp: within_ok_def start_redeem_def native_redeem_def lose_lease_def)

lemma native_results: "native_advance an now nf db = (nf', db') \<Longrightarrow> rl_results db' = rl_results db"
  by (cases "nf_pc nf")
    (auto simp: native_advance_def native_empty_def native_pin_def complete_native_no_credit_def pin_native_request_def
      dest: ledger_results_ops split: if_splits option.splits prod.splits)

lemma refresh_results: "rl_results (refresh_account env account has_tokens fetched now db) = rl_results db"
  by (auto simp: refresh_account_def invalidate_def store_snapshot_def replace_snapshot_def split: option.splits)

lemma results_logged_step:
  assumes "rc_step env sy sy'" "rc_inv sy" "results_logged (sy_log sy) (sy_ledger sy)"
  shows "results_logged (sy_log sy') (sy_ledger sy')"
  using assms
proof (induction rule: rc_step.induct)
  case (Advance sy i f an f' db')
  then have "tbl_ok (rl_results (sy_ledger sy))" by (auto simp: rc_inv_def ledger_ok_def intro: answers_okD(1))
  with Advance show ?case by (auto intro: advance_results_logged)
next
  case (NativeStep sy i nf an nf' db')
  then show ?case by (auto dest: native_results intro: results_logged_mono results_logged_cong)
next
  case (Heartbeat sy i f io f' db')
  then have "rl_results db' = rl_results (sy_ledger sy)" by (auto simp: heartbeat_def renew_claim_def split: if_splits)
  with Heartbeat show ?case by (auto intro: results_logged_cong)
next
  case (Fleet to_json request accounts sy ok db')
  then have "rl_results db' = rl_results (sy_ledger sy)" by (auto simp: fleet_pin_def pin_fleet_request_def Let_def)
  with Fleet show ?case by (auto intro: results_logged_cong)
qed (auto simp: delete_ledger_account_def refresh_results intro: results_logged_mono results_logged_cong)

definition side_inv :: "rc_system \<Rightarrow> bool" where
  "side_inv sy \<longleftrightarrow> rc_inv sy \<and> unique_holders sy \<and> within_ok sy \<and> results_logged (sy_log sy) (sy_ledger sy)"

lemma side_inv_step: "rc_step env sy sy' \<Longrightarrow> side_inv sy \<Longrightarrow> side_inv sy'"
  unfolding side_inv_def
  using rc_inv_step unique_holders_step within_ok_step results_logged_step by blast

lemma answered_beforeI:
  "answered_before key now hist \<Longrightarrow> now \<le> t \<Longrightarrow> 
   (\<And>row u. EvAnswer key row u \<in> set evs \<Longrightarrow> \<exists>w. EvAnswer key row w \<in> set hist) \<Longrightarrow>
   answered_before key t (hist @ evs)"
  unfolding answered_before_def set_append Un_iff using outlived_later by meson

lemma answers_checkedD:
  "answers_checked a sy \<Longrightarrow> sy_flows sy i = Some f \<Longrightarrow> checked (rf_pc f) \<Longrightarrow> rf_account f = a \<Longrightarrow>
   answered_before (flow_key f) (sy_now sy) (sy_log sy)"
  unfolding answers_checked_def by blast

lemma answers_checked_cong:
  assumes "answers_checked a sy" "sy_now sy \<le> sy_now sy'" "sy_log sy' = sy_log sy @ evs"
    and "\<And>key row u. EvAnswer key row u \<notin> set evs"
    and "\<And>i f. sy_flows sy' i = Some f \<Longrightarrow> checked (rf_pc f) \<Longrightarrow>
      \<exists>g. sy_flows sy i = Some g \<and> checked (rf_pc g) \<and> flow_key g = flow_key f"
  shows "answers_checked a sy'"
  unfolding answers_checked_def
proof (intro allI impI)
  fix i f
  assume f: "sy_flows sy' i = Some f" "checked (rf_pc f)" "rf_account f = a"
  from assms(5) [OF f(1,2)] obtain g where g: "sy_flows sy i = Some g" "checked (rf_pc g)" "flow_key g = flow_key f" by blast
  then have "rf_account g = a" using f(3) by (simp add: flow_key_def)
  from answers_checkedD [OF assms(1) g(1,2) this] g(3)
  have "answered_before (flow_key f) (sy_now sy) (sy_log sy)" by simp
  then show "answered_before (flow_key f) (sy_now sy') (sy_log sy')"
    unfolding assms(3) using assms(2) by (rule answered_beforeI) (simp add: assms(4))
qed

lemma answers_checked_advance:
  assumes "sy_flows sy i = Some f" "redeem_advance env an (sy_now sy) f (sy_ledger sy) = (f', db')"
    and inv: "answers_checked a sy" "claims_held a sy" "side_inv sy"
  shows "answers_checked a (sy\<lparr>sy_flows := (sy_flows sy)(i \<mapsto> f'), sy_ledger := db',
      sy_log := sy_log sy @ redeem_events (flow_key f) (rf_pc f) (rf_pc f') (sy_now sy) db'\<rparr>)"
  unfolding answers_checked_def
proof (intro allI impI)
  let ?evs = "redeem_events (flow_key f) (rf_pc f) (rf_pc f') (sy_now sy) db'"
  fix j g
  assume g: "sy_flows (sy\<lparr>sy_flows := (sy_flows sy)(i \<mapsto> f'), sy_ledger := db', sy_log := sy_log sy @ ?evs\<rparr>) j = Some g"
    "checked (rf_pc g)" "rf_account g = a"
  have logged: "results_logged (sy_log sy) (sy_ledger sy)" "rc_inv sy" "unique_holders sy" "within_ok sy"
    using inv(3) by (auto simp: side_inv_def)
  note new = new_answers [OF assms(2) logged(1)]
  have "answered_before (flow_key g) (sy_now sy) (sy_log sy @ ?evs)"
  proof (cases "j = i")
    case True
    then have gf: "g = f'" "flow_key f' = flow_key f" using g(1) advance_frame [OF assms(2)] by (auto simp: flow_key_def)
    have "answered_before (flow_key f) (sy_now sy) (sy_log sy)"
      using advance_checked [OF assms(2) g(2) [unfolded gf(1)]]
    proof (elim disjE conjE)
      assume "checked (rf_pc f)"
      then show ?thesis using answers_checkedD [OF inv(1) assms(1)] g(3) gf by (simp add: flow_key_def)
    next
      assume "get_result (sy_ledger sy) (rf_account f) (rf_request f) (sy_now sy) request_ttl_seconds = None"
      then show ?thesis using logged(2) rc_inv_tables(2) [OF logged(2)]
        by (intro unanswered) (auto simp: flow_key_def rc_inv_def)
    qed
    then show ?thesis using new g(2) gf by (intro answered_beforeI) auto
  next
    case False
    then have j: "sy_flows sy j = Some g" using g(1) by simp
    have "rf_claimed g" using logged(4) j g(2) by (auto simp: within_ok_def)
    have "\<not> (flow_key g = flow_key f \<and> (\<exists>consumed. rf_pc f = PComplete consumed))"
    proof
      assume same: "flow_key g = flow_key f \<and> (\<exists>consumed. rf_pc f = PComplete consumed)"
      then have "rf_claimed f" using logged(4) assms(1) by (auto simp: within_ok_def)
      with same \<open>rf_claimed g\<close> have "i = j"
        using claims_exclude [OF inv(2) logged(3) assms(1) j] g(3) by (simp add: flow_key_def)
      with False show False by simp
    qed
    with answers_checkedD [OF inv(1) j g(2,3)] new show ?thesis by (intro answered_beforeI) auto
  qed
  then show "answered_before (flow_key g) (sy_now (sy\<lparr>sy_flows := (sy_flows sy)(i \<mapsto> f'), sy_ledger := db', sy_log := sy_log sy @ ?evs\<rparr>))
      (sy_log (sy\<lparr>sy_flows := (sy_flows sy)(i \<mapsto> f'), sy_ledger := db', sy_log := sy_log sy @ ?evs\<rparr>))" by simp
qed

lemma answers_checked_step:
  assumes "rc_step env sy sy'" "answers_checked a sy" "claims_held a sy" "side_inv sy"
  shows "answers_checked a sy'"
  using assms
proof (induction rule: rc_step.induct)
  case (Advance sy i f an f' db')
  then show ?case by (intro answers_checked_advance)
next
  case (Heartbeat sy i f io f' db')
  then obtain lost where "f' = f\<lparr>rf_lease_lost := lost\<rparr>" using heartbeat_frame by blast
  with Heartbeat show ?case
    by (intro answers_checked_cong [OF Heartbeat.prems(1), of _ "[]"]) (auto simp: flow_key_def split: if_splits)
next
  case (NativeStep sy i nf an nf' db')
  then show ?case by (intro answers_checked_cong [OF NativeStep.prems(1)]) (auto simp: native_events_def split: option.splits)
next
  case (Tick sy t)
  then show ?case by (intro answers_checked_cong [OF Tick.prems(1)]) auto
next
  case (Delete sy account)
  then show ?case by (intro answers_checked_cong [OF Delete.prems(1)]) auto
next
  case (Handover sy i nf account credit j holder)
  then show ?case by (intro answers_checked_cong [OF Handover.prems(1)])
    (auto simp: native_redeem_def start_redeem_def split: if_splits)
qed (erule answers_checked_cong [where evs = "[]"];
     auto simp: native_redeem_def start_redeem_def lose_lease_def split: if_splits)+

lemma no_late_call_step:
  assumes "rc_step env sy sy'" "no_late_call a (sy_log sy)" "answers_checked a sy"
  shows "no_late_call a (sy_log sy')"
  using assms
proof (induction rule: rc_step.induct)
  case (Advance sy i f an f' db')
  show ?case
  proof (cases "\<exists>credit. rf_pc f = PConsume credit")
    case True
    then obtain credit where c: "rf_pc f = PConsume credit" by blast
    then have "answered_before (flow_key f) (sy_now sy) (sy_log sy)" if "fst (flow_key f) = a"
      using answers_checkedD [OF Advance.prems(2) Advance.hyps(1)] that by (simp add: flow_key_def)
    then show ?thesis using no_late_call_call [OF Advance.prems(1)] by (simp add: redeem_events_def c)
  next
    case False
    then have "EvCall (a, r) c u \<notin> set (redeem_events (flow_key f) (rf_pc f) (rf_pc f') (sy_now sy) db')" for r c u
      using redeem_events_calls(1) by blast
    with Advance.prems(1) show ?thesis by (simp add: no_late_call_append)
  qed
qed (auto intro!: no_late_call_append simp: native_events_def split: option.splits)

section \<open>Runs without a lapsed lease\<close>

definition claim_inv :: "account_id \<Rightarrow> rc_system \<Rightarrow> bool" where
  "claim_inv a sy \<longleftrightarrow> claims_held a sy \<and> answers_checked a sy \<and> no_late_call a (sy_log sy)"

lemma rc_step_log: "rc_step env sy sy' \<Longrightarrow> \<exists>evs. sy_log sy' = sy_log sy @ evs"
  by (induction rule: rc_step.induct) auto

lemma undisturbed_before: "rc_step env sy sy' \<Longrightarrow> undisturbed a (sy_log sy') \<Longrightarrow> undisturbed a (sy_log sy)"
  using rc_step_log by (fastforce simp: undisturbed_def)

lemma claim_inv_step:
  "rc_step env sy sy' \<Longrightarrow> side_inv sy \<Longrightarrow> claim_inv a sy \<Longrightarrow> undisturbed a (sy_log sy') \<Longrightarrow> claim_inv a sy'"
  unfolding claim_inv_def
  by (auto intro: claims_held_step answers_checked_step no_late_call_step simp: side_inv_def)

lemma side_inv_init: "0 \<le> t \<Longrightarrow> t \<le> i64_max \<Longrightarrow> side_inv (rc_init t)"
  by (simp add: side_inv_def rc_inv_init)
    (simp add: rc_init_def unique_holders_def within_ok_def results_logged_def empty_ledger_def)

lemma claim_inv_init: "claim_inv a (rc_init t)"
  by (simp add: claim_inv_def rc_init_def claims_held_def answers_checked_def no_late_call_def)

lemma claim_run:
  assumes "rc_run env sy"
  shows "side_inv sy" and "undisturbed a (sy_log sy) \<Longrightarrow> claim_inv a sy"
proof -
  obtain t where t: "0 \<le> t" "t \<le> i64_max" "(rc_step env)\<^sup>*\<^sup>* (rc_init t) sy" using assms by blast
  from t(3) have "side_inv sy \<and> (undisturbed a (sy_log sy) \<longrightarrow> claim_inv a sy)"
  proof (induction rule: rtranclp_induct)
    case base
    then show ?case using side_inv_init t(1,2) claim_inv_init by blast
  next
    case (step y z)
    then show ?case using side_inv_step claim_inv_step undisturbed_before by blast
  qed
  then show "side_inv sy" "undisturbed a (sy_log sy) \<Longrightarrow> claim_inv a sy" by blast+
qed

text \<open>
  C30: As long as no lease of the account runs out under a running redemption and the account is not deleted, at
  most one redemption of the account is inside its claim, and no consume call follows an answer to its request
  within 24 hours of that answer's completion: an answered request never spends again.
\<close>

theorem answered_request_spends_no_more:
  assumes "rc_run env sy" "undisturbed a (sy_log sy)"
  shows "(\<forall>i j f g. sy_flows sy i = Some f \<and> sy_flows sy j = Some g \<and> rf_claimed f \<and> rf_claimed g \<and>
      rf_account f = a \<and> rf_account g = a \<longrightarrow> i = j) \<and>
    (\<forall>i j r row w c u. i < j \<and> j < length (sy_log sy) \<and> sy_log sy ! i = EvAnswer (a, r) row w \<and>
      sy_log sy ! j = EvCall (a, r) c u \<longrightarrow> outlived request_ttl_seconds (rs_completed_at row) u)"
proof -
  have inv: "claims_held a sy" "no_late_call a (sy_log sy)" "unique_holders sy"
    using claim_run [OF assms(1)] assms(2) by (auto simp: claim_inv_def side_inv_def)
  from claims_exclude [OF inv(1,3)] have "\<forall>i j f g. sy_flows sy i = Some f \<and> sy_flows sy j = Some g \<and> rf_claimed f \<and>
      rf_claimed g \<and> rf_account f = a \<and> rf_account g = a \<longrightarrow> i = j" by blast
  moreover from inv(2) have "\<forall>i j r row w c u. i < j \<and> j < length (sy_log sy) \<and> sy_log sy ! i = EvAnswer (a, r) row w \<and>
      sy_log sy ! j = EvCall (a, r) c u \<longrightarrow> outlived request_ttl_seconds (rs_completed_at row) u"
    unfolding no_late_call_def by blast
  ultimately show ?thesis by blast
qed

theorem answered_request_spends_no_more_witness:
  "rc_run demo_env (demo_retry demo_done) \<and> undisturbed ''a'' (sy_log (demo_retry demo_done)) \<and>
   sy_log (demo_retry demo_done) ! 1 = EvCall (''a'', ''r'') ''c1'' 1000 \<and>
   sy_log (demo_retry demo_done) ! 2 = EvAnswer (''a'', ''r'') demo_result 1000 \<and>
   sy_log (demo_retry demo_done) ! 3 \<noteq> EvCall (''a'', ''r'') ''c0'' 1000"
proof -
  have u: "undisturbed ''a'' (sy_log (demo_retry demo_done))" by (simp add: undisturbed_def demo_done_log)
  have "\<not> outlived request_ttl_seconds (rs_completed_at demo_result) 1000"
    by (simp add: outlived_def request_ttl_seconds_def demo_result_def)
  with answered_request_spends_no_more [OF run_demo u] run_demo u show ?thesis
    by (auto simp: demo_done_log)
qed

end
