(* ===== verification/Translate.thy ===== *)
theory Translate
  imports Core_Types
begin

text \<open>
  The translator of an Anthropic-Messages client to an OpenAI-Responses backend
  (\<open>polyflare-anthropic/src/translate.rs\<close>): the request body on the way up, and the backend's
  response events, one at a time, on the way down. A request or event is a \<open>serde_json::Value\<close>; the
  JSON parser and printer and the random ids are parameters.
\<close>

section \<open>Values\<close>

text \<open>\<open>json!\<close> with an object literal, and the chains of accessors.\<close>

definition jobj :: "(string \<times> json) list \<Rightarrow> json" where
  "jobj kvs = JObj (foldr (\<lambda>(k, v). obj_put k v) kvs [])"

lemma jget_jobj [simp]: "jget k (jobj kvs) = map_of kvs k"
proof -
  have "map_of (foldr (\<lambda>(k, v). obj_put k v) kvs []) k = map_of kvs k"
    by (induction kvs) (auto simp: obj_put_get)
  then show ?thesis by (simp add: jobj_def)
qed

definition get_str :: "string \<Rightarrow> json \<Rightarrow> string option" where
  "get_str k v = Option.bind (jget k v) as_str"

definition str_or_empty :: "string \<Rightarrow> json \<Rightarrow> string" where
  "str_or_empty k v = unwrap_or (get_str k v) ''''"

definition get_or_null :: "string \<Rightarrow> json \<Rightarrow> json" where
  "get_or_null k v = unwrap_or (jget k v) JNull"

definition get_i64 :: "string \<Rightarrow> json \<Rightarrow> i64 option" where
  "get_i64 k v = Option.bind (jget k v) as_i64"

definition ju64 :: "u64 \<Rightarrow> json" where "ju64 n = JInt (int n)"

fun join_str :: "string \<Rightarrow> string list \<Rightarrow> string" where
  "join_str sep [] = ''''"
| "join_str sep [w] = w"
| "join_str sep (w # v # ws) = w @ sep @ join_str sep (v # ws)"

text \<open>\<open>tv_hex n\<close> is the \<open>n\<close>-th draw of twelve random bytes, in hexadecimal.\<close>

record translate_env =
  tv_parse :: "string \<Rightarrow> json option"
  tv_print :: "json \<Rightarrow> string"
  tv_hex :: "nat \<Rightarrow> string"

definition synth_id :: "translate_env \<Rightarrow> string \<Rightarrow> nat \<Rightarrow> string" where
  "synth_id env prefix n = prefix @ ''_'' @ tv_hex env n"

section \<open>The request\<close>

definition paragraph_break :: string where "paragraph_break = [CHR 0x0A, CHR 0x0A]"

definition flatten_system :: "json \<Rightarrow> string option" where
  "flatten_system system =
     Option.bind
       (case system of
          JStr s \<Rightarrow> Some s
        | JArr blocks \<Rightarrow> Some (join_str paragraph_break
            (filter (\<lambda>t. str_trim t \<noteq> '''') (List.map_filter (get_str ''text'') blocks)))
        | _ \<Rightarrow> None)
       (\<lambda>t. if str_trim t = '''' then None else Some t)"

definition is_system_message :: "json \<Rightarrow> bool" where
  "is_system_message m \<longleftrightarrow> get_str ''role'' m = Some ''system''"

definition split_system_messages :: "json \<Rightarrow> json list \<times> json" where
  "split_system_messages messages = (case as_array messages of
     None \<Rightarrow> ([], JArr [])
   | Some arr \<Rightarrow> (filter is_system_message arr, JArr (filter (\<lambda>m. \<not> is_system_message m) arr)))"

definition map_tool_choice :: "json \<Rightarrow> json" where
  "map_tool_choice tc =
     (let t = get_str ''type'' tc in
      if t = Some ''auto'' then JStr ''auto''
      else if t = Some ''any'' then JStr ''required''
      else if t = Some ''none'' then JStr ''none''
      else if t = Some ''tool'' then jobj [(''type'', JStr ''function''), (''name'', JStr (str_or_empty ''name'' tc))]
      else tc)"

definition message_item :: "string \<Rightarrow> json list \<Rightarrow> json" where
  "message_item role content = jobj [(''type'', JStr ''message''), (''role'', JStr role), (''content'', JArr content)]"

definition flush_message_buffer :: "json list \<Rightarrow> string \<Rightarrow> json list" where
  "flush_message_buffer buffer role = (if buffer = [] then [] else [message_item role buffer])"

definition text_part :: "string \<Rightarrow> string \<Rightarrow> json" where
  "text_part role s =
     (if role = ''assistant'' then jobj [(''type'', JStr ''output_text''), (''text'', JStr s), (''annotations'', JArr [])]
      else jobj [(''type'', JStr ''input_text''), (''text'', JStr s)])"

definition image_part :: "json \<Rightarrow> json option" where
  "image_part block =
     Option.bind (jget ''source'' block) (\<lambda>source.
     Option.bind (get_str ''type'' source) (\<lambda>source_type.
     Option.bind
       (if source_type = ''base64'' then
          map_option (\<lambda>data. ''data:'' @ unwrap_or (get_str ''media_type'' source) ''image/png'' @ '';base64,'' @ data)
            (get_str ''data'' source)
        else if source_type = ''url'' then get_str ''url'' source
        else None)
       (\<lambda>image_url. Some (jobj [(''type'', JStr ''input_image''), (''image_url'', JStr image_url), (''detail'', JStr ''auto'')]))))"

definition function_call_item :: "translate_env \<Rightarrow> json \<Rightarrow> json" where
  "function_call_item env block =
     jobj [(''type'', JStr ''function_call''), (''call_id'', JStr (str_or_empty ''id'' block)),
       (''name'', JStr (str_or_empty ''name'' block)),
       (''arguments'', JStr (tv_print env (unwrap_or (jget ''input'' block) (jobj []))))]"

definition tool_result_part :: "json \<Rightarrow> json option" where
  "tool_result_part b =
     (let t = str_or_empty ''type'' b in
      if t = ''text'' then map_option (\<lambda>s. jobj [(''type'', JStr ''input_text''), (''text'', JStr s)]) (get_str ''text'' b)
      else if t = ''image'' then image_part b
      else None)"

definition function_call_output_item :: "json \<Rightarrow> json" where
  "function_call_output_item block =
     jobj [(''type'', JStr ''function_call_output''), (''call_id'', JStr (str_or_empty ''tool_use_id'' block)),
       (''output'', (case jget ''content'' block of
          Some (JStr s) \<Rightarrow> JStr s
        | Some (JArr blocks) \<Rightarrow> JArr (List.map_filter tool_result_part blocks)
        | _ \<Rightarrow> JStr ''''))]"

fun map_blocks :: "translate_env \<Rightarrow> string \<Rightarrow> json list \<Rightarrow> json list \<Rightarrow> json list" where
  "map_blocks env role buffer [] = flush_message_buffer buffer role"
| "map_blocks env role buffer (block # blocks) =
     (let t = str_or_empty ''type'' block in
      if t = ''text'' then map_blocks env role (buffer @ [text_part role (str_or_empty ''text'' block)]) blocks
      else if t = ''image'' then
        (case image_part block of
           Some part \<Rightarrow> map_blocks env role (buffer @ [part]) blocks
         | None \<Rightarrow> map_blocks env role buffer blocks)
      else if t = ''tool_use'' then
        flush_message_buffer buffer role @ function_call_item env block # map_blocks env role [] blocks
      else if t = ''tool_result'' then
        flush_message_buffer buffer role @ function_call_output_item block # map_blocks env role [] blocks
      else map_blocks env role buffer blocks)"

definition map_message :: "translate_env \<Rightarrow> json \<Rightarrow> json list" where
  "map_message env message =
     (let role = unwrap_or (get_str ''role'' message) ''user'' in
      case jget ''content'' message of
        Some (JStr s) \<Rightarrow> [message_item role [text_part role s]]
      | Some (JArr blocks) \<Rightarrow> map_blocks env role [] blocks
      | _ \<Rightarrow> [])"

definition map_messages :: "translate_env \<Rightarrow> json \<Rightarrow> json" where
  "map_messages env messages = (case as_array messages of
     None \<Rightarrow> JArr [] | Some arr \<Rightarrow> JArr (concat (map (map_message env) arr)))"

definition map_tool :: "json \<Rightarrow> json" where
  "map_tool tool = jobj
     ([(''type'', JStr ''function''), (''name'', get_or_null ''name'' tool),
       (''parameters'', unwrap_or (jget ''input_schema'' tool) (jobj []))] @
      (case jget ''description'' tool of Some d \<Rightarrow> [(''description'', d)] | None \<Rightarrow> []))"

definition map_tools :: "json \<Rightarrow> json" where
  "map_tools tools = (case as_array tools of None \<Rightarrow> tools | Some arr \<Rightarrow> JArr (map map_tool arr))"

definition lifted_instructions :: "json \<Rightarrow> json list \<Rightarrow> string list" where
  "lifted_instructions body system_messages =
     (case Option.bind (jget ''system'' body) flatten_system of Some s \<Rightarrow> [s] | None \<Rightarrow> []) @
     List.map_filter (\<lambda>m. Option.bind (jget ''content'' m) flatten_system) system_messages"

definition map_request_with_contract :: "translate_env \<Rightarrow> bool \<Rightarrow> json \<Rightarrow> json" where
  "map_request_with_contract env codex_contract body =
     (let (system_messages, conversation) = split_system_messages (unwrap_or (jget ''messages'' body) (JArr []));
          instructions = lifted_instructions body system_messages
      in jobj
        ([(''model'', get_or_null ''model'' body), (''input'', map_messages env conversation), (''stream'', JBool True)] @
         (if codex_contract then [(''store'', JBool False)]
          else case jget ''max_tokens'' body of Some m \<Rightarrow> [(''max_output_tokens'', m)] | None \<Rightarrow> []) @
         (if instructions \<noteq> [] then [(''instructions'', JStr (join_str paragraph_break instructions))] else []) @
         (case jget ''tools'' body of Some t \<Rightarrow> [(''tools'', map_tools t)] | None \<Rightarrow> []) @
         (case jget ''tool_choice'' body of Some tc \<Rightarrow> [(''tool_choice'', map_tool_choice tc)] | None \<Rightarrow> [])))"

section \<open>The response events\<close>

text \<open>
  The counter of blocks is a \<open>u64\<close> that grows by one per opened block; a turn has fewer than
  \<open>2 ^ 64\<close> of them.
\<close>

record up_block =
  ub_index :: u64
  ub_stopped :: bool

record up_state =
  up_codex_contract :: bool
  up_message_start_emitted :: bool
  up_next_block_index :: u64
  up_blocks :: "(string, up_block) table"
  up_saw_function_call :: bool
  up_draws :: nat

definition new_up :: "bool \<Rightarrow> up_state" where
  "new_up codex_contract = \<lparr>up_codex_contract = codex_contract, up_message_start_emitted = False, up_next_block_index = 0,
     up_blocks = [], up_saw_function_call = False, up_draws = 0\<rparr>"

definition open_block :: "string \<Rightarrow> up_state \<Rightarrow> u64 \<times> up_state" where
  "open_block item_id s =
     (up_next_block_index s,
      s\<lparr>up_next_block_index := up_next_block_index s + 1,
        up_blocks := tbl_put (up_blocks s) item_id \<lparr>ub_index = up_next_block_index s, ub_stopped = False\<rparr>\<rparr>)"

definition map_usage_from_openai :: "json \<Rightarrow> json" where
  "map_usage_from_openai u = jobj
     ((''output_tokens'', JInt (unwrap_or (get_i64 ''output_tokens'' u) 0)) #
      (case get_i64 ''input_tokens'' u of Some n \<Rightarrow> [(''input_tokens'', JInt n)] | None \<Rightarrow> []) @
      (case Option.bind (jget ''input_tokens_details'' u) (get_i64 ''cached_tokens'') of
         Some n \<Rightarrow> [(''cache_read_input_tokens'', JInt n)] | None \<Rightarrow> []) @
      (case Option.bind (jget ''output_tokens_details'' u) (get_i64 ''reasoning_tokens'') of
         Some n \<Rightarrow> [(''thinking_tokens'', JInt n)] | None \<Rightarrow> []))"

definition block_start :: "u64 \<Rightarrow> json \<Rightarrow> json" where
  "block_start index content_block =
     jobj [(''type'', JStr ''content_block_start''), (''index'', ju64 index), (''content_block'', content_block)]"

definition block_delta :: "u64 \<Rightarrow> json \<Rightarrow> json" where
  "block_delta index delta = jobj [(''type'', JStr ''content_block_delta''), (''index'', ju64 index), (''delta'', delta)]"

definition block_stop :: "u64 \<Rightarrow> json" where
  "block_stop index = jobj [(''type'', JStr ''content_block_stop''), (''index'', ju64 index)]"

definition text_block :: json where "text_block = jobj [(''type'', JStr ''text''), (''text'', JStr '''')]"
definition thinking_block :: json where "thinking_block = jobj [(''type'', JStr ''thinking''), (''thinking'', JStr '''')]"
definition tool_use_block :: "string \<Rightarrow> string \<Rightarrow> json" where
  "tool_use_block call_id name =
     jobj [(''type'', JStr ''tool_use''), (''id'', JStr call_id), (''name'', JStr name), (''input'', jobj [])]"

definition on_response_started :: "translate_env \<Rightarrow> json \<Rightarrow> up_state \<Rightarrow> json list \<times> up_state" where
  "on_response_started env event s =
     (if up_message_start_emitted s then ([], s)
      else
        (let response = get_or_null ''response'' event;
             usage = (case jget ''usage'' response of
                Some u \<Rightarrow> if u \<noteq> JNull then map_usage_from_openai u
                  else jobj [(''input_tokens'', JInt 0), (''output_tokens'', JInt 0)]
              | None \<Rightarrow> jobj [(''input_tokens'', JInt 0), (''output_tokens'', JInt 0)])
         in ([jobj [(''type'', JStr ''message_start''), (''message'', jobj
               [(''id'', JStr (synth_id env ''msg'' (up_draws s))), (''type'', JStr ''message''), (''role'', JStr ''assistant''),
                (''model'', get_or_null ''model'' response), (''content'', JArr []), (''usage'', usage)])]],
             s\<lparr>up_message_start_emitted := True, up_draws := up_draws s + 1\<rparr>)))"

definition on_output_item_added :: "json \<Rightarrow> up_state \<Rightarrow> json list \<times> up_state" where
  "on_output_item_added event s =
     (let item = get_or_null ''item'' event; t = str_or_empty ''type'' item; item_id = str_or_empty ''id'' item in
      if t = ''function_call'' then
        (let (index, s1) = open_block item_id (s\<lparr>up_saw_function_call := True\<rparr>)
         in ([block_start index (tool_use_block (str_or_empty ''call_id'' item) (str_or_empty ''name'' item))], s1))
      else if t = ''reasoning'' then
        (let (index, s1) = open_block item_id s in ([block_start index thinking_block], s1))
      else ([], s))"

definition on_content_part_added :: "json \<Rightarrow> up_state \<Rightarrow> json list \<times> up_state" where
  "on_content_part_added event s =
     (let item_id = str_or_empty ''item_id'' event in
      if get_str ''type'' (get_or_null ''part'' event) \<noteq> Some ''output_text'' then ([], s)
      else if tbl_get (up_blocks s) item_id \<noteq> None then ([], s)
      else (let (index, s1) = open_block item_id s in ([block_start index text_block], s1)))"

definition lookup_flat_item :: "json \<Rightarrow> up_state \<Rightarrow> up_block option" where
  "lookup_flat_item event s = Option.bind (get_str ''item_id'' event) (tbl_get (up_blocks s))"

text \<open>The three delta handlers differ in the delta they build.\<close>

definition on_item_delta :: "string \<Rightarrow> string \<Rightarrow> json \<Rightarrow> up_state \<Rightarrow> json list" where
  "on_item_delta delta_type field event s = (case lookup_flat_item event s of
     None \<Rightarrow> []
   | Some block \<Rightarrow> [block_delta (ub_index block) (jobj [(''type'', JStr delta_type), (field, JStr (str_or_empty ''delta'' event))])])"

definition on_output_text_delta :: "json \<Rightarrow> up_state \<Rightarrow> json list" where
  "on_output_text_delta = on_item_delta ''text_delta'' ''text''"

definition on_function_call_arguments_delta :: "json \<Rightarrow> up_state \<Rightarrow> json list" where
  "on_function_call_arguments_delta = on_item_delta ''input_json_delta'' ''partial_json''"

definition on_reasoning_delta :: "json \<Rightarrow> up_state \<Rightarrow> json list" where
  "on_reasoning_delta = on_item_delta ''thinking_delta'' ''thinking''"

definition done_item_id :: "json \<Rightarrow> string" where
  "done_item_id event =
     (if get_str ''type'' event = Some ''response.output_item.done'' then str_or_empty ''id'' (get_or_null ''item'' event)
      else str_or_empty ''item_id'' event)"

definition on_block_done :: "json \<Rightarrow> up_state \<Rightarrow> json list \<times> up_state" where
  "on_block_done event s = (case tbl_get (up_blocks s) (done_item_id event) of
     None \<Rightarrow> ([], s)
   | Some block \<Rightarrow>
       (if ub_stopped block then ([], s)
        else ([block_stop (ub_index block)],
              s\<lparr>up_blocks := tbl_put (up_blocks s) (done_item_id event) (block\<lparr>ub_stopped := True\<rparr>)\<rparr>)))"

definition message_delta :: "string \<Rightarrow> json \<Rightarrow> json" where
  "message_delta stop_reason usage = jobj [(''type'', JStr ''message_delta''),
     (''delta'', jobj [(''stop_reason'', JStr stop_reason), (''stop_sequence'', JNull)]), (''usage'', usage)]"

definition message_stop :: json where "message_stop = jobj [(''type'', JStr ''message_stop'')]"

definition on_response_completed :: "json \<Rightarrow> up_state \<Rightarrow> json list" where
  "on_response_completed event s =
     (let response = get_or_null ''response'' event;
          status = unwrap_or (get_str ''status'' response) ''completed'';
          stop_reason = (if status = ''incomplete'' then ''max_tokens''
                         else if up_saw_function_call s then ''tool_use'' else ''end_turn'');
          usage = unwrap_or (map_option map_usage_from_openai (jget ''usage'' response)) (jobj [(''output_tokens'', JInt 0)])
      in [message_delta stop_reason usage, message_stop])"

definition build_error_event :: "json \<Rightarrow> json list" where
  "build_error_event e =
     [jobj [(''type'', JStr ''error''), (''error'', jobj
       [(''type'', JStr (unwrap_or (Option.bind (opt_or (jget ''code'' e) (jget ''type'' e)) as_str) ''api_error'')),
        (''message'', JStr (str_or_empty ''message'' e))])]]"

definition block_done_types :: "string list" where
  "block_done_types = [''response.output_text.done'', ''response.function_call_arguments.done'',
     ''response.reasoning_summary_text.done'', ''response.reasoning_text.done'', ''response.content_part.done'',
     ''response.output_item.done'']"

definition translate_up :: "translate_env \<Rightarrow> json \<Rightarrow> up_state \<Rightarrow> json list \<times> up_state" where
  "translate_up env event s =
     (let t = str_or_empty ''type'' event in
      if t = ''response.created'' \<or> t = ''response.in_progress'' then on_response_started env event s
      else if t = ''response.output_item.added'' then on_output_item_added event s
      else if t = ''response.content_part.added'' then on_content_part_added event s
      else if t = ''response.output_text.delta'' then (on_output_text_delta event s, s)
      else if t = ''response.function_call_arguments.delta'' then (on_function_call_arguments_delta event s, s)
      else if t = ''response.reasoning_summary_text.delta'' \<or> t = ''response.reasoning_text.delta''
        then (on_reasoning_delta event s, s)
      else if t \<in> set block_done_types then on_block_done event s
      else if t = ''response.completed'' \<or> t = ''response.incomplete'' then (on_response_completed event s, s)
      else if t = ''response.failed'' then (build_error_event (get_or_null ''error'' (get_or_null ''response'' event)), s)
      else if t = ''error'' then (build_error_event event, s)
      else ([], s))"

fun translate_all_up :: "translate_env \<Rightarrow> json list \<Rightarrow> up_state \<Rightarrow> json list \<times> up_state" where
  "translate_all_up env [] s = ([], s)"
| "translate_all_up env (event # events) s =
     (let (out, s1) = translate_up env event s; (rest, s2) = translate_all_up env events s1 in (out @ rest, s2))"

end
