(* ===== verification/Reverse.thy ===== *)
theory Reverse
  imports Translate
begin

text \<open>
  The inverse translator, of an OpenAI-Responses client to an Anthropic-Messages backend
  (\<open>polyflare-anthropic/src/reverse.rs\<close>), and the collector that folds Anthropic events into one
  message for a client that does not stream (\<open>collect.rs\<close>).
\<close>

section \<open>The request\<close>

definition starts_role :: "json \<Rightarrow> bool" where
  "starts_role item \<longleftrightarrow> get_str ''role'' item \<in> Some ` {''user'', ''assistant'', ''system'', ''developer''}"

definition strip_suffix :: "string \<Rightarrow> string \<Rightarrow> string option" where
  "strip_suffix suffix s =
     (if length suffix \<le> length s \<and> drop (length s - length suffix) s = suffix
      then Some (take (length s - length suffix) s) else None)"

definition map_content_part :: "json \<Rightarrow> json option" where
  "map_content_part part =
     (let t = get_str ''type'' part in
      if t = Some ''input_text'' \<or> t = Some ''output_text'' then
        Some (jobj [(''type'', JStr ''text''), (''text'', unwrap_or (jget ''text'' part) (JStr ''''))])
      else if t = Some ''input_image'' then
        Option.bind (get_str ''image_url'' part) (\<lambda>image_url.
          if starts_with ''data:'' image_url then
            Option.bind (split_once CHR '','' (drop 5 image_url)) (\<lambda>(metadata, encoded).
              map_option (\<lambda>media_type. jobj [(''type'', JStr ''image''), (''source'', jobj
                  [(''type'', JStr ''base64''), (''media_type'', JStr media_type), (''data'', JStr encoded)])])
                (strip_suffix '';base64'' metadata))
          else Some (jobj [(''type'', JStr ''image''), (''source'', jobj [(''type'', JStr ''url''), (''url'', JStr image_url)])]))
      else None)"

definition map_tool_output :: "json option \<Rightarrow> json" where
  "map_tool_output output = (case output of
     Some (JArr parts) \<Rightarrow> JArr (List.map_filter map_content_part parts)
   | Some v \<Rightarrow> v
   | None \<Rightarrow> JStr '''')"

definition anthropic_message :: "string \<Rightarrow> json list \<Rightarrow> json" where
  "anthropic_message role content = jobj [(''role'', JStr role), (''content'', JArr content)]"

definition item_content :: "json \<Rightarrow> json list" where
  "item_content item = (case jget ''content'' item of
     Some (JStr s) \<Rightarrow> [jobj [(''type'', JStr ''text''), (''text'', JStr s)]]
   | Some (JArr parts) \<Rightarrow> List.map_filter map_content_part parts
   | _ \<Rightarrow> [])"

definition map_input_item :: "translate_env \<Rightarrow> json \<Rightarrow> json list" where
  "map_input_item env item =
     (let t = get_str ''type'' item in
      if (t = Some ''message'' \<or> t = None) \<and> starts_role item then
        (if item_content item = [] then []
         else [anthropic_message (if get_str ''role'' item = Some ''assistant'' then ''assistant'' else ''user'') (item_content item)])
      else if t = Some ''function_call'' then
        [anthropic_message ''assistant'' [jobj
          [(''type'', JStr ''tool_use''), (''id'', get_or_null ''call_id'' item), (''name'', get_or_null ''name'' item),
           (''input'', unwrap_or (Option.bind (get_str ''arguments'' item) (tv_parse env)) (jobj []))]]]
      else if t = Some ''function_call_output'' then
        [anthropic_message ''user'' [jobj
          [(''type'', JStr ''tool_result''), (''tool_use_id'', get_or_null ''call_id'' item),
           (''content'', map_tool_output (jget ''output'' item))]]]
      else [])"

definition rv_map_tool_choice :: "json \<Rightarrow> json" where
  "rv_map_tool_choice tc = (case tc of
     JStr s \<Rightarrow>
       (if s = ''auto'' then jobj [(''type'', JStr ''auto'')]
        else if s = ''required'' then jobj [(''type'', JStr ''any'')]
        else if s = ''none'' then jobj [(''type'', JStr ''none'')]
        else tc)
   | JObj _ \<Rightarrow>
       (if get_str ''type'' tc = Some ''function'' then
          jobj [(''type'', JStr ''tool''), (''name'', unwrap_or (jget ''name'' tc) (JStr ''''))]
        else tc)
   | _ \<Rightarrow> tc)"

definition rv_map_tool :: "json \<Rightarrow> json" where
  "rv_map_tool tool = jobj [(''name'', get_or_null ''name'' tool), (''description'', get_or_null ''description'' tool),
     (''input_schema'', unwrap_or (jget ''parameters'' tool) (jobj []))]"

definition rv_messages :: "translate_env \<Rightarrow> json \<Rightarrow> json list" where
  "rv_messages env body = (case jget ''input'' body of
     Some (JStr s) \<Rightarrow> [jobj [(''role'', JStr ''user''), (''content'', JStr s)]]
   | Some (JArr items) \<Rightarrow> concat (map (map_input_item env) items)
   | _ \<Rightarrow> [])"

definition rv_map_request :: "translate_env \<Rightarrow> json \<Rightarrow> json" where
  "rv_map_request env body = jobj
     ([(''model'', get_or_null ''model'' body), (''messages'', JArr (rv_messages env body)),
       (''stream'', unwrap_or (jget ''stream'' body) (JBool False)),
       (''max_tokens'', unwrap_or (jget ''max_output_tokens'' body) (JInt 4096))] @
      (case jget ''instructions'' body of Some i \<Rightarrow> [(''system'', i)] | None \<Rightarrow> []) @
      (case Option.bind (jget ''tools'' body) as_array of
         Some tools \<Rightarrow> [(''tools'', JArr (map rv_map_tool (filter (\<lambda>t. get_str ''type'' t = Some ''function'') tools)))]
       | None \<Rightarrow> []) @
      (case jget ''tool_choice'' body of Some tc \<Rightarrow> [(''tool_choice'', rv_map_tool_choice tc)] | None \<Rightarrow> []))"

section \<open>The response events\<close>

text \<open>The sequence number is a \<open>u64\<close> that grows by one per event sent; it stays below \<open>2 ^ 64\<close>.\<close>

datatype block_kind = TextKind | ToolUseKind | ThinkingKind

record rv_block =
  rb_kind :: block_kind
  rb_item_id :: string
  rb_call_id :: "string option"
  rb_name :: "string option"
  rb_buffer :: string

record rv_state =
  rv_seq :: u64
  rv_response_id :: "string option"
  rv_model :: "json option"
  rv_blocks :: "(u64, rv_block) table"
  rv_order :: "u64 list"
  rv_usage :: "json option"
  rv_stop_reason :: "string option"
  rv_draws :: nat

definition new_rv :: rv_state where
  "new_rv = \<lparr>rv_seq = 0, rv_response_id = None, rv_model = None, rv_blocks = [], rv_order = [], rv_usage = None,
     rv_stop_reason = None, rv_draws = 0\<rparr>"

definition bump_seq :: "nat \<Rightarrow> rv_state \<Rightarrow> rv_state" where
  "bump_seq n s = s\<lparr>rv_seq := rv_seq s + n\<rparr>"

definition sequenced :: "string \<Rightarrow> u64 \<Rightarrow> (string \<times> json) list \<Rightarrow> json" where
  "sequenced t n kvs = jobj ([(''type'', JStr t), (''sequence_number'', ju64 n)] @ kvs)"

fun merge_object :: "json \<Rightarrow> json \<Rightarrow> json" where
  "merge_object (JObj current) (JObj incoming) = JObj (foldl (\<lambda>kvs (k, v). obj_put k v kvs) current incoming)"
| "merge_object v _ = v"

definition merge_usage :: "json \<Rightarrow> rv_state \<Rightarrow> rv_state" where
  "merge_usage incoming s = s\<lparr>rv_usage := Some (merge_object (unwrap_or (rv_usage s) (jobj [])) incoming)\<rparr>"

definition merge_event_usage :: "json \<Rightarrow> rv_state \<Rightarrow> rv_state" where
  "merge_event_usage v s = (case jget ''usage'' v of Some u \<Rightarrow> merge_usage u s | None \<Rightarrow> s)"

definition rv_on_message_start :: "translate_env \<Rightarrow> json \<Rightarrow> rv_state \<Rightarrow> json list \<times> rv_state" where
  "rv_on_message_start env event s =
     (let message = get_or_null ''message'' event;
          response_id = synth_id env ''resp'' (rv_draws s);
          model = get_or_null ''model'' message;
          s1 = merge_event_usage message (s\<lparr>rv_response_id := Some response_id, rv_model := Some model, rv_draws := rv_draws s + 1\<rparr>);
          response = jobj [(''id'', JStr response_id), (''object'', JStr ''response''), (''status'', JStr ''in_progress''),
            (''model'', model), (''output'', JArr []), (''usage'', JNull)]
      in ([sequenced ''response.created'' (rv_seq s1) [(''response'', response)],
           sequenced ''response.in_progress'' (rv_seq s1 + 1) [(''response'', response)]], bump_seq 2 s1))"

definition block_index :: "json \<Rightarrow> u64 option" where
  "block_index event = Option.bind (jget ''index'' event) as_u64"

text \<open>The item that opens with a content block, as the state keeps it and as it is announced.\<close>

definition opened_block :: "translate_env \<Rightarrow> json \<Rightarrow> nat \<Rightarrow> (rv_block \<times> json) option" where
  "opened_block env block n =
     (let t = str_or_empty ''type'' block in
      if t = ''text'' then
        (let item_id = synth_id env ''msg'' n in
         Some (\<lparr>rb_kind = TextKind, rb_item_id = item_id, rb_call_id = None, rb_name = None, rb_buffer = ''''\<rparr>,
           jobj [(''id'', JStr item_id), (''type'', JStr ''message''), (''status'', JStr ''in_progress''),
             (''role'', JStr ''assistant''), (''content'', JArr [])]))
      else if t = ''tool_use'' then
        (let item_id = synth_id env ''fc'' n; call_id = str_or_empty ''id'' block; name = str_or_empty ''name'' block in
         Some (\<lparr>rb_kind = ToolUseKind, rb_item_id = item_id, rb_call_id = Some call_id, rb_name = Some name, rb_buffer = ''''\<rparr>,
           jobj [(''id'', JStr item_id), (''type'', JStr ''function_call''), (''status'', JStr ''in_progress''),
             (''call_id'', JStr call_id), (''name'', JStr name), (''arguments'', JStr '''')]))
      else if t = ''thinking'' then
        (let item_id = synth_id env ''rs'' n in
         Some (\<lparr>rb_kind = ThinkingKind, rb_item_id = item_id, rb_call_id = None, rb_name = None, rb_buffer = ''''\<rparr>,
           jobj [(''id'', JStr item_id), (''type'', JStr ''reasoning''), (''status'', JStr ''in_progress''), (''summary'', JArr [])]))
      else None)"

definition output_text_part :: "string \<Rightarrow> json" where
  "output_text_part s = jobj [(''type'', JStr ''output_text''), (''text'', JStr s), (''annotations'', JArr [])]"

definition rv_on_content_block_start :: "translate_env \<Rightarrow> json \<Rightarrow> rv_state \<Rightarrow> json list \<times> rv_state" where
  "rv_on_content_block_start env event s = (case block_index event of
     None \<Rightarrow> ([], s)
   | Some index \<Rightarrow>
       (case opened_block env (get_or_null ''content_block'' event) (rv_draws s) of
          None \<Rightarrow> ([], s)
        | Some (block, item) \<Rightarrow>
            (let s1 = s\<lparr>rv_blocks := tbl_put (rv_blocks s) index block, rv_order := rv_order s @ [index], rv_draws := rv_draws s + 1\<rparr>;
                 added = sequenced ''response.output_item.added'' (rv_seq s1) [(''output_index'', ju64 index), (''item'', item)]
             in if rb_kind block = TextKind
                then ([added, sequenced ''response.content_part.added'' (rv_seq s1 + 1)
                         [(''item_id'', JStr (rb_item_id block)), (''output_index'', ju64 index), (''content_index'', JInt 0),
                          (''part'', output_text_part '''')]], bump_seq 2 s1)
                else ([added], bump_seq 1 s1))))"

definition delta_parts :: "json \<Rightarrow> (string \<times> string \<times> (string \<times> json) list) option" where
  "delta_parts delta =
     (let t = str_or_empty ''type'' delta in
      if t = ''text_delta'' then
        Some (''response.output_text.delta'', str_or_empty ''text'' delta, [(''content_index'', JInt 0), (''logprobs'', JArr [])])
      else if t = ''input_json_delta'' then
        Some (''response.function_call_arguments.delta'', str_or_empty ''partial_json'' delta, [])
      else if t = ''thinking_delta'' then
        Some (''response.reasoning_summary_text.delta'', str_or_empty ''thinking'' delta, [(''summary_index'', JInt 0)])
      else None)"

definition rv_on_content_block_delta :: "json \<Rightarrow> rv_state \<Rightarrow> json list \<times> rv_state" where
  "rv_on_content_block_delta event s = (case block_index event of
     None \<Rightarrow> ([], s)
   | Some index \<Rightarrow>
       (case tbl_get (rv_blocks s) index of
          None \<Rightarrow> ([], s)
        | Some block \<Rightarrow>
            (case delta_parts (get_or_null ''delta'' event) of
               None \<Rightarrow> ([], s)
             | Some (event_type, value, extra) \<Rightarrow>
                 ([sequenced event_type (rv_seq s) ([(''item_id'', JStr (rb_item_id block)), (''output_index'', ju64 index),
                     (''delta'', JStr value)] @ extra)],
                  bump_seq 1 (s\<lparr>rv_blocks := tbl_put (rv_blocks s) index (block\<lparr>rb_buffer := rb_buffer block @ value\<rparr>)\<rparr>)))))"

definition completed_item :: "rv_block \<Rightarrow> json" where
  "completed_item b = (case rb_kind b of
     TextKind \<Rightarrow> jobj [(''id'', JStr (rb_item_id b)), (''type'', JStr ''message''), (''status'', JStr ''completed''),
       (''role'', JStr ''assistant''), (''content'', JArr [output_text_part (rb_buffer b)])]
   | ToolUseKind \<Rightarrow> jobj [(''id'', JStr (rb_item_id b)), (''type'', JStr ''function_call''), (''status'', JStr ''completed''),
       (''call_id'', JStr (unwrap_or (rb_call_id b) '''')), (''name'', JStr (unwrap_or (rb_name b) '''')), (''arguments'', JStr (rb_buffer b))]
   | ThinkingKind \<Rightarrow> jobj [(''id'', JStr (rb_item_id b)), (''type'', JStr ''reasoning''), (''status'', JStr ''completed''),
       (''summary'', JArr [jobj [(''type'', JStr ''summary_text''), (''text'', JStr (rb_buffer b))]])])"

definition stop_events :: "u64 \<Rightarrow> rv_block \<Rightarrow> u64 \<Rightarrow> json list" where
  "stop_events index b n =
     (let item_done = (\<lambda>m. sequenced ''response.output_item.done'' m [(''output_index'', ju64 index), (''item'', completed_item b)]);
          ids = [(''item_id'', JStr (rb_item_id b)), (''output_index'', ju64 index)]
      in case rb_kind b of
        TextKind \<Rightarrow>
          [sequenced ''response.output_text.done'' n (ids @ [(''content_index'', JInt 0), (''text'', JStr (rb_buffer b))]),
           sequenced ''response.content_part.done'' (n + 1) (ids @ [(''content_index'', JInt 0), (''part'', output_text_part (rb_buffer b))]),
           item_done (n + 2)]
      | ToolUseKind \<Rightarrow>
          [sequenced ''response.function_call_arguments.done'' n (ids @ [(''arguments'', JStr (rb_buffer b))]), item_done (n + 1)]
      | ThinkingKind \<Rightarrow>
          [sequenced ''response.reasoning_summary_text.done'' n (ids @ [(''summary_index'', JInt 0), (''text'', JStr (rb_buffer b))]),
           item_done (n + 1)])"

definition rv_on_content_block_stop :: "json \<Rightarrow> rv_state \<Rightarrow> json list \<times> rv_state" where
  "rv_on_content_block_stop event s = (case Option.bind (block_index event) (\<lambda>i. map_option (Pair i) (tbl_get (rv_blocks s) i)) of
     None \<Rightarrow> ([], s)
   | Some (index, b) \<Rightarrow> (let out = stop_events index b (rv_seq s) in (out, bump_seq (length out) s)))"

definition rv_on_message_delta :: "json \<Rightarrow> rv_state \<Rightarrow> json list \<times> rv_state" where
  "rv_on_message_delta event s =
     ([], merge_event_usage event
        (s\<lparr>rv_stop_reason := opt_or (Option.bind (jget ''delta'' event) (get_str ''stop_reason'')) (rv_stop_reason s)\<rparr>))"

text \<open>\<open>i64\<close> addition of a release build.\<close>

definition wrap_i64 :: "int \<Rightarrow> i64" where
  "wrap_i64 n = (n + 9223372036854775808) mod 18446744073709551616 - 9223372036854775808"

definition map_usage :: "json \<Rightarrow> json" where
  "map_usage u =
     (let input_tokens = unwrap_or (get_i64 ''input_tokens'' u) 0; output_tokens = unwrap_or (get_i64 ''output_tokens'' u) 0
      in jobj [(''input_tokens'', JInt input_tokens),
        (''input_tokens_details'', jobj [(''cached_tokens'', JInt (unwrap_or (get_i64 ''cache_read_input_tokens'' u) 0))]),
        (''output_tokens'', JInt output_tokens),
        (''output_tokens_details'', jobj [(''reasoning_tokens'', JInt (unwrap_or (get_i64 ''thinking_tokens'' u) 0))]),
        (''total_tokens'', JInt (wrap_i64 (input_tokens + output_tokens)))])"

definition rv_on_message_stop :: "rv_state \<Rightarrow> json list \<times> rv_state" where
  "rv_on_message_stop s =
     (let incomplete = (rv_stop_reason s = Some ''max_tokens'');
          output = map completed_item (List.map_filter (tbl_get (rv_blocks s)) (rv_order s));
          response = jobj ([(''id'', JStr (unwrap_or (rv_response_id s) '''')), (''object'', JStr ''response''),
            (''status'', JStr (if incomplete then ''incomplete'' else ''completed'')),
            (''model'', unwrap_or (rv_model s) JNull), (''output'', JArr output),
            (''usage'', unwrap_or (map_option map_usage (rv_usage s)) JNull)] @
            (if incomplete then [(''incomplete_details'', jobj [(''reason'', JStr ''max_output_tokens'')])] else []))
      in ([sequenced (if incomplete then ''response.incomplete'' else ''response.completed'') (rv_seq s) [(''response'', response)]],
          bump_seq 1 s))"

definition rv_on_error :: "json \<Rightarrow> rv_state \<Rightarrow> json list \<times> rv_state" where
  "rv_on_error event s =
     ([sequenced ''error'' (rv_seq s)
         [(''code'', JStr (unwrap_or (jpath_str [''error'', ''type''] event) ''api_error'')),
          (''message'', JStr (unwrap_or (jpath_str [''error'', ''message''] event) ''''))]], bump_seq 1 s)"

definition translate_rv :: "translate_env \<Rightarrow> json \<Rightarrow> rv_state \<Rightarrow> json list \<times> rv_state" where
  "translate_rv env event s =
     (let t = str_or_empty ''type'' event in
      if t = ''message_start'' then rv_on_message_start env event s
      else if t = ''content_block_start'' then rv_on_content_block_start env event s
      else if t = ''content_block_delta'' then rv_on_content_block_delta event s
      else if t = ''content_block_stop'' then rv_on_content_block_stop event s
      else if t = ''message_delta'' then rv_on_message_delta event s
      else if t = ''message_stop'' then rv_on_message_stop s
      else if t = ''error'' then rv_on_error event s
      else ([], s))"

fun translate_all_rv :: "translate_env \<Rightarrow> json list \<Rightarrow> rv_state \<Rightarrow> json list \<times> rv_state" where
  "translate_all_rv env [] s = ([], s)"
| "translate_all_rv env (event # events) s =
     (let (out, s1) = translate_rv env event s; (rest, s2) = translate_all_rv env events s1 in (out @ rest, s2))"

end
