(* ===== verification/Collect.thy ===== *)
theory Collect
  imports Translate
begin

text \<open>
  \<open>MessageCollector\<close> (\<open>polyflare-anthropic/src/collect.rs\<close>): folds Anthropic response events into the
  one \<open>Message\<close> a client that does not stream receives.
\<close>

datatype co_block =
    CoText string
  | CoThinking string
  | CoToolUse string string string
  | CoDone json

record collector =
  co_message :: "(string \<times> json) list"
  co_blocks :: "co_block option list"

definition new_collector :: collector where
  "new_collector = \<lparr>co_message = [], co_blocks = []\<rparr>"

fun is_object :: "json \<Rightarrow> bool" where
  "is_object (JObj _) = True"
| "is_object _ = False"

fun finalize_block :: "translate_env \<Rightarrow> co_block \<Rightarrow> json" where
  "finalize_block env (CoText s) = jobj [(''type'', JStr ''text''), (''text'', JStr s)]"
| "finalize_block env (CoThinking s) = jobj [(''type'', JStr ''thinking''), (''thinking'', JStr s)]"
| "finalize_block env (CoToolUse tool_id name input_acc) = jobj [(''type'', JStr ''tool_use''), (''id'', JStr tool_id), (''name'', JStr name),
     (''input'', unwrap_or (opt_filter is_object (tv_parse env input_acc)) (jobj []))]"
| "finalize_block env (CoDone v) = v"

definition co_set :: "string \<Rightarrow> json \<Rightarrow> collector \<Rightarrow> collector" where
  "co_set k v c = c\<lparr>co_message := obj_put k v (co_message c)\<rparr>"

definition co_on_message_start :: "json \<Rightarrow> collector \<Rightarrow> collector" where
  "co_on_message_start event c =
     (let message = unwrap_or (jget ''message'' event) (jobj []) in
      c\<lparr>co_message := foldr (\<lambda>(k, v). obj_put k v)
        [(''id'', get_or_null ''id'' message), (''type'', JStr ''message''),
         (''role'', unwrap_or (jget ''role'' message) (JStr ''assistant'')), (''model'', get_or_null ''model'' message),
         (''content'', JArr []), (''stop_reason'', JNull), (''stop_sequence'', JNull),
         (''usage'', unwrap_or (jget ''usage'' message) (jobj []))] []\<rparr>)"

definition set_block :: "nat \<Rightarrow> co_block \<Rightarrow> collector \<Rightarrow> collector" where
  "set_block i b c =
     (let blocks = (if length (co_blocks c) \<le> i then co_blocks c @ replicate (i + 1 - length (co_blocks c)) None else co_blocks c)
      in c\<lparr>co_blocks := blocks[i := Some b]\<rparr>)"

definition new_co_block :: "json \<Rightarrow> co_block option" where
  "new_co_block content_block =
     (let t = get_str ''type'' content_block in
      if t = Some ''text'' then Some (CoText '''')
      else if t = Some ''thinking'' then Some (CoThinking '''')
      else if t = Some ''tool_use'' then
        Some (CoToolUse (str_or_empty ''id'' content_block) (str_or_empty ''name'' content_block) '''')
      else None)"

definition event_index :: "json \<Rightarrow> u64 option" where
  "event_index event = Option.bind (jget ''index'' event) as_u64"

definition co_on_content_block_start :: "json \<Rightarrow> collector \<Rightarrow> collector" where
  "co_on_content_block_start event c =
     (case (event_index event, new_co_block (unwrap_or (jget ''content_block'' event) (jobj []))) of
        (Some i, Some b) \<Rightarrow> set_block i b c
      | _ \<Rightarrow> c)"

definition open_slot :: "json \<Rightarrow> collector \<Rightarrow> (nat \<times> co_block) option" where
  "open_slot event c = Option.bind (event_index event) (\<lambda>i.
     if i < length (co_blocks c) then map_option (Pair i) (co_blocks c ! i) else None)"

fun append_delta :: "json \<Rightarrow> string \<Rightarrow> co_block \<Rightarrow> co_block" where
  "append_delta delta t (CoText s) = (if t = ''text_delta'' then CoText (s @ str_or_empty ''text'' delta) else CoText s)"
| "append_delta delta t (CoToolUse tool_id name acc) =
     (if t = ''input_json_delta'' then CoToolUse tool_id name (acc @ str_or_empty ''partial_json'' delta) else CoToolUse tool_id name acc)"
| "append_delta delta t (CoThinking s) =
     (if t = ''thinking_delta'' then CoThinking (s @ str_or_empty ''thinking'' delta) else CoThinking s)"
| "append_delta delta t (CoDone v) = CoDone v"

definition co_on_content_block_delta :: "json \<Rightarrow> collector \<Rightarrow> collector" where
  "co_on_content_block_delta event c = (case open_slot event c of
     None \<Rightarrow> c
   | Some (i, b) \<Rightarrow>
       (let delta = unwrap_or (jget ''delta'' event) (jobj [])
        in c\<lparr>co_blocks := (co_blocks c)[i := Some (append_delta delta (str_or_empty ''type'' delta) b)]\<rparr>))"

definition co_on_content_block_stop :: "translate_env \<Rightarrow> json \<Rightarrow> collector \<Rightarrow> collector" where
  "co_on_content_block_stop env event c = (case open_slot event c of
     None \<Rightarrow> c
   | Some (i, b) \<Rightarrow> c\<lparr>co_blocks := (co_blocks c)[i := Some (CoDone (finalize_block env b))]\<rparr>)"

definition set_if_some :: "string \<Rightarrow> json option \<Rightarrow> collector \<Rightarrow> collector" where
  "set_if_some k v c = (case v of Some w \<Rightarrow> co_set k w c | None \<Rightarrow> c)"

definition co_on_message_delta :: "json \<Rightarrow> collector \<Rightarrow> collector" where
  "co_on_message_delta event c =
     (let delta = unwrap_or (jget ''delta'' event) (jobj []) in
      set_if_some ''usage'' (jget ''usage'' event)
        (set_if_some ''stop_sequence'' (jget ''stop_sequence'' delta)
          (set_if_some ''stop_reason'' (jget ''stop_reason'' delta) c)))"

definition push_event :: "translate_env \<Rightarrow> collector \<Rightarrow> json \<Rightarrow> collector" where
  "push_event env c event =
     (let t = str_or_empty ''type'' event in
      if t = ''message_start'' then co_on_message_start event c
      else if t = ''content_block_start'' then co_on_content_block_start event c
      else if t = ''content_block_delta'' then co_on_content_block_delta event c
      else if t = ''content_block_stop'' then co_on_content_block_stop env event c
      else if t = ''message_delta'' then co_on_message_delta event c
      else c)"

definition finish_message :: "translate_env \<Rightarrow> collector \<Rightarrow> json" where
  "finish_message env c =
     JObj (obj_put ''content'' (JArr (map (finalize_block env) (List.map_filter id (co_blocks c)))) (co_message c))"

definition collect_message :: "translate_env \<Rightarrow> json list \<Rightarrow> json" where
  "collect_message env events = finish_message env (foldl (push_event env) new_collector events)"

end
