(* ===== verification/Translate_Types.thy ===== *)
theory Translate_Types
  imports Reverse Collect
begin

text \<open>
  The two event protocols as typing judgements on event sequences, and type preservation of the
  translator: which well-formed Responses streams become well-formed Messages streams.
\<close>

section \<open>The Messages protocol\<close>

datatype anth_view =
    AStart
  | ABlock nat block_kind
  | ADelta nat block_kind
  | AStop nat
  | AMessageDelta
  | AMessageStop
  | AError
  | AJunk

fun as_nat :: "json \<Rightarrow> nat option" where
  "as_nat (JInt n) = (if 0 \<le> n then Some (nat n) else None)"
| "as_nat _ = None"

definition kind_of_block :: "json \<Rightarrow> block_kind option" where
  "kind_of_block b =
     (let t = str_or_empty ''type'' b in
      if t = ''text'' then Some TextKind else if t = ''tool_use'' then Some ToolUseKind
      else if t = ''thinking'' then Some ThinkingKind else None)"

definition kind_of_delta :: "json \<Rightarrow> block_kind option" where
  "kind_of_delta d =
     (let t = str_or_empty ''type'' d in
      if t = ''text_delta'' then Some TextKind else if t = ''input_json_delta'' then Some ToolUseKind
      else if t = ''thinking_delta'' then Some ThinkingKind else None)"

definition anth_view :: "json \<Rightarrow> anth_view" where
  "anth_view e =
     (let t = str_or_empty ''type'' e; i = Option.bind (jget ''index'' e) as_nat in
      if t = ''message_start'' then AStart
      else if t = ''content_block_start'' then
        (case (i, Option.bind (jget ''content_block'' e) kind_of_block) of (Some n, Some k) \<Rightarrow> ABlock n k | _ \<Rightarrow> AJunk)
      else if t = ''content_block_delta'' then
        (case (i, Option.bind (jget ''delta'' e) kind_of_delta) of (Some n, Some k) \<Rightarrow> ADelta n k | _ \<Rightarrow> AJunk)
      else if t = ''content_block_stop'' then (case i of Some n \<Rightarrow> AStop n | None \<Rightarrow> AJunk)
      else if t = ''message_delta'' then AMessageDelta
      else if t = ''message_stop'' then AMessageStop
      else if t = ''error'' then AError
      else AJunk)"

text \<open>
  \<open>messages_ok started n open_blocks events\<close>: a message starts once and first; blocks are numbered from
  \<open>n\<close> on without gaps; a delta has the kind of its block, which is open; a block is stopped once, and
  before the message ends; nothing follows the end or an error.
\<close>

fun messages_ok :: "bool \<Rightarrow> nat \<Rightarrow> (nat, block_kind) table \<Rightarrow> json list \<Rightarrow> bool" where
  "messages_ok started n blocks [] \<longleftrightarrow> True"
| "messages_ok started n blocks (e # es) = (case anth_view e of
     AStart \<Rightarrow> \<not> started \<and> messages_ok True n blocks es
   | ABlock i k \<Rightarrow> started \<and> i = n \<and> messages_ok started (n + 1) (tbl_put blocks i k) es
   | ADelta i k \<Rightarrow> started \<and> tbl_get blocks i = Some k \<and> messages_ok started n blocks es
   | AStop i \<Rightarrow> started \<and> tbl_get blocks i \<noteq> None \<and> messages_ok started n (tbl_del blocks i) es
   | AMessageDelta \<Rightarrow> started \<and> blocks = [] \<and> map anth_view es = [AMessageStop]
   | AError \<Rightarrow> es = []
   | _ \<Rightarrow> False)"

section \<open>The Responses protocol\<close>

text \<open>
  An output item is announced, and \<open>Live\<close> from its first content on: a call or reasoning item at once, a
  message with its first text part. It is \<open>Between\<close> once a part of it (or all its arguments) has been
  reported done, where another part may still follow, and \<open>Ended\<close> once the whole item is. Items of
  other types are not translated.
\<close>

datatype phase = Announced | Live block_kind | Between block_kind | Ended | Foreign

datatype resp_view =
    RStart
  | RItem string phase
  | RPart string
  | RDelta string block_kind
  | RDone string bool
  | REnd
  | RError
  | RSkip

definition item_phase :: "json \<Rightarrow> phase" where
  "item_phase item =
     (let t = str_or_empty ''type'' item in
      if t = ''function_call'' then Live ToolUseKind else if t = ''reasoning'' then Live ThinkingKind
      else if t = ''message'' then Announced else Foreign)"

definition resp_view :: "json \<Rightarrow> resp_view" where
  "resp_view e =
     (let t = str_or_empty ''type'' e;
          delta = (\<lambda>k. case get_str ''item_id'' e of Some i \<Rightarrow> RDelta i k | None \<Rightarrow> RSkip) in
      if t = ''response.created'' \<or> t = ''response.in_progress'' then RStart
      else if t = ''response.output_item.added'' then
        RItem (str_or_empty ''id'' (get_or_null ''item'' e)) (item_phase (get_or_null ''item'' e))
      else if t = ''response.content_part.added'' then
        (if get_str ''type'' (get_or_null ''part'' e) = Some ''output_text'' then RPart (str_or_empty ''item_id'' e) else RSkip)
      else if t = ''response.output_text.delta'' then delta TextKind
      else if t = ''response.function_call_arguments.delta'' then delta ToolUseKind
      else if t = ''response.reasoning_summary_text.delta'' \<or> t = ''response.reasoning_text.delta'' then delta ThinkingKind
      else if t \<in> set block_done_types then RDone (done_item_id e) (t = ''response.output_item.done'')
      else if t = ''response.completed'' \<or> t = ''response.incomplete'' then REnd
      else if t = ''response.failed'' \<or> t = ''error'' then RError
      else RSkip)"

text \<open>
  \<open>responses_ok single started items events\<close>: the response starts first; item ids are fresh; a message has
  any number of text parts, a reasoning item any number of summaries; content has the kind of its
  item and comes before the item is done; nothing is live at the end, and nothing follows it. With
  \<open>single\<close>, no content comes for an item after a part of it was done.
\<close>

definition after_done :: "bool \<Rightarrow> phase option \<Rightarrow> phase option" where
  "after_done whole p = (case p of
     Some (Live k) \<Rightarrow> Some (if whole then Ended else Between k)
   | Some (Between k) \<Rightarrow> Some (if whole then Ended else Between k)
   | Some Announced \<Rightarrow> Some (if whole then Ended else Announced)
   | _ \<Rightarrow> p)"

definition set_phase :: "string \<Rightarrow> phase option \<Rightarrow> (string, phase) table \<Rightarrow> (string, phase) table" where
  "set_phase i p items = (case p of None \<Rightarrow> items | Some x \<Rightarrow> tbl_put items i x)"

fun responses_ok :: "bool \<Rightarrow> bool \<Rightarrow> (string, phase) table \<Rightarrow> json list \<Rightarrow> bool" where
  "responses_ok single started items [] \<longleftrightarrow> True"
| "responses_ok single started items (e # es) = (case resp_view e of
     RStart \<Rightarrow> responses_ok single True items es
   | RItem i p \<Rightarrow> started \<and> tbl_get items i = None \<and> responses_ok single started (tbl_put items i p) es
   | RPart i \<Rightarrow> started \<and> (case tbl_get items i of
         Some Announced \<Rightarrow> responses_ok single started (tbl_put items i (Live TextKind)) es
       | Some (Live k) \<Rightarrow> k = TextKind \<and> responses_ok single started items es
       | Some (Between k) \<Rightarrow> k = TextKind \<and> responses_ok single started items es
       | _ \<Rightarrow> False)
   | RDelta i k \<Rightarrow> started \<and> (tbl_get items i = Some (Live k) \<or> \<not> single \<and> tbl_get items i = Some (Between k)) \<and>
       responses_ok single started items es
   | RDone i whole \<Rightarrow> started \<and> responses_ok single started (set_phase i (after_done whole (tbl_get items i)) items) es
   | REnd \<Rightarrow> started \<and> (\<forall>kv \<in> set items. case snd kv of Live _ \<Rightarrow> False | _ \<Rightarrow> True) \<and> es = []
   | RError \<Rightarrow> es = []
   | RSkip \<Rightarrow> responses_ok single started items es)"

section \<open>Views of what the translator builds\<close>

lemma get_simps [simp]:
  "get_str k (jobj kvs) = Option.bind (map_of kvs k) as_str"
  "str_or_empty k (jobj kvs) = unwrap_or (Option.bind (map_of kvs k) as_str) ''''"
  "get_or_null k (jobj kvs) = unwrap_or (map_of kvs k) JNull"
  by (simp_all add: get_str_def str_or_empty_def get_or_null_def)

lemma unwrap_or_simps [simp]: "unwrap_or (Some x) d = x" "unwrap_or None d = d"
  by (simp_all add: unwrap_or_def)

lemma built_views:
  "anth_view (block_start i text_block) = ABlock i TextKind"
  "anth_view (block_start i thinking_block) = ABlock i ThinkingKind"
  "anth_view (block_start i (tool_use_block c n)) = ABlock i ToolUseKind"
  "anth_view (block_stop i) = AStop i"
  "anth_view (message_delta r u) = AMessageDelta"
  "anth_view message_stop = AMessageStop"
  by (simp_all add: anth_view_def block_start_def block_stop_def message_delta_def message_stop_def text_block_def
      thinking_block_def tool_use_block_def kind_of_block_def ju64_def Let_def)

lemma delta_views:
  "anth_view (block_delta i (jobj [(''type'', JStr ''text_delta''), f])) = ADelta i TextKind"
  "anth_view (block_delta i (jobj [(''type'', JStr ''input_json_delta''), f])) = ADelta i ToolUseKind"
  "anth_view (block_delta i (jobj [(''type'', JStr ''thinking_delta''), f])) = ADelta i ThinkingKind"
  by (cases f; simp add: anth_view_def block_delta_def kind_of_delta_def ju64_def Let_def)+

section \<open>Type preservation\<close>

text \<open>What the translator holds of an item in a given phase: no block, an open one of its kind, or a stopped one.\<close>

fun phase_ok :: "(string, up_block) table \<Rightarrow> (nat, block_kind) table \<Rightarrow> string \<Rightarrow> phase option \<Rightarrow> bool" where
  "phase_ok ups blocks i (Some (Live k)) \<longleftrightarrow>
     (\<exists>j. tbl_get ups i = Some \<lparr>ub_index = j, ub_stopped = False\<rparr> \<and> tbl_get blocks j = Some k)"
| "phase_ok ups blocks i (Some (Between k)) \<longleftrightarrow> (\<exists>b. tbl_get ups i = Some b \<and> ub_stopped b)"
| "phase_ok ups blocks i (Some Ended) \<longleftrightarrow> (\<forall>b. tbl_get ups i = Some b \<longrightarrow> ub_stopped b)"
| "phase_ok ups blocks i _ \<longleftrightarrow> tbl_get ups i = None"

definition numbered :: "(string, up_block) table \<Rightarrow> nat \<Rightarrow> bool" where
  "numbered ups n \<longleftrightarrow> (\<forall>i b. tbl_get ups i = Some b \<longrightarrow> ub_index b < n \<and>
     (\<forall>i' b'. tbl_get ups i' = Some b' \<longrightarrow> ub_index b = ub_index b' \<longrightarrow> i = i'))"

definition held_by_items :: "(string, up_block) table \<Rightarrow> (nat, block_kind) table \<Rightarrow> (string, phase) table \<Rightarrow> bool" where
  "held_by_items ups blocks items \<longleftrightarrow> (\<forall>j k. tbl_get blocks j = Some k \<longrightarrow>
     (\<exists>i. tbl_get items i = Some (Live k) \<and> tbl_get ups i = Some \<lparr>ub_index = j, ub_stopped = False\<rparr>))"

definition tracks :: "bool \<Rightarrow> (string, phase) table \<Rightarrow> up_state \<Rightarrow> nat \<Rightarrow> (nat, block_kind) table \<Rightarrow> bool" where
  "tracks started items s n blocks \<longleftrightarrow> n = up_next_block_index s \<and> started = up_message_start_emitted s \<and>
     (\<forall>i. phase_ok (up_blocks s) blocks i (tbl_get items i)) \<and> held_by_items (up_blocks s) blocks items \<and> numbered (up_blocks s) n"

lemma tracks_open:
  assumes t: "tracks started items s n blocks" and free: "tbl_get (up_blocks s) i = None"
  shows "tracks started (tbl_put items i (Live k)) (snd (open_block i s)) (n + 1) (tbl_put blocks n k)"
proof -
  let ?b = "\<lparr>ub_index = n, ub_stopped = False\<rparr>" let ?ups = "tbl_put (up_blocks s) i \<lparr>ub_index = n, ub_stopped = False\<rparr>"
  have n: "n = up_next_block_index s" "started = up_message_start_emitted s"
    and ph: "\<And>x. phase_ok (up_blocks s) blocks x (tbl_get items x)"
    and held: "held_by_items (up_blocks s) blocks items" and num: "numbered (up_blocks s) n"
    using t unfolding tracks_def by auto
  have low: "ub_index b < n" if "tbl_get (up_blocks s) x = Some b" for x b using num that unfolding numbered_def by blast
  have "phase_ok ?ups (tbl_put blocks n k) x (tbl_get (tbl_put items i (Live k)) x)" for x
  proof (cases "x = i")
    case True
    then show ?thesis by (auto simp: tbl_simps)
  next
    case False
    have g: "tbl_get ?ups x = tbl_get (up_blocks s) x" "tbl_get (tbl_put items i (Live k)) x = tbl_get items x"
      using False by (simp_all add: tbl_simps)
    show ?thesis
      using ph [of x] low [of x] unfolding g(2)
      by (cases "(up_blocks s, blocks, x, tbl_get items x)" rule: phase_ok.cases) (auto simp: tbl_simps False)
  qed
  moreover have "held_by_items ?ups (tbl_put blocks n k) (tbl_put items i (Live k))"
    unfolding held_by_items_def
  proof (intro allI impI)
    fix j k'
    assume g: "tbl_get (tbl_put blocks n k) j = Some k'"
    show "\<exists>x. tbl_get (tbl_put items i (Live k)) x = Some (Live k') \<and> tbl_get ?ups x = Some \<lparr>ub_index = j, ub_stopped = False\<rparr>"
    proof (cases "j = n")
      case True
      then show ?thesis using g by (auto simp: tbl_simps)
    next
      case False
      then obtain x where "tbl_get items x = Some (Live k')" "tbl_get (up_blocks s) x = Some \<lparr>ub_index = j, ub_stopped = False\<rparr>"
        using g held unfolding held_by_items_def by (auto simp: tbl_simps)
      then show ?thesis using free by (intro exI [of _ x]) (auto simp: tbl_simps)
    qed
  qed
  moreover have "numbered ?ups (n + 1)"
    using num unfolding numbered_def by (auto simp: tbl_simps less_Suc_eq split: if_splits dest: low)
  ultimately show ?thesis by (simp add: tracks_def open_block_def n)
qed

lemma tracks_phase: "tracks started items s n blocks \<Longrightarrow> phase_ok (up_blocks s) blocks i (tbl_get items i)"
  by (simp add: tracks_def)

text \<open>An item that is not live may change its phase without the translator doing anything.\<close>

lemma tracks_relabel:
  assumes "tracks started items s n blocks" "\<And>k. tbl_get items i \<noteq> Some (Live k)" "\<And>k. p \<noteq> Live k"
    and "phase_ok (up_blocks s) blocks i (Some p)"
  shows "tracks started (tbl_put items i p) s n blocks"
proof -
  have ph: "\<And>x. phase_ok (up_blocks s) blocks x (tbl_get items x)" using assms(1) unfolding tracks_def by blast
  have "phase_ok (up_blocks s) blocks x (tbl_get (tbl_put items i p) x)" for x
    using ph [of x] assms(4) by (cases "x = i") (simp_all add: tbl_simps)
  moreover have "held_by_items (up_blocks s) blocks (tbl_put items i p)"
  proof -
    have "tbl_get (tbl_put items i p) x = Some (Live k)" if "tbl_get items x = Some (Live k)" for x k
      using that assms(2) by (cases "x = i") (auto simp: tbl_simps)
    then show ?thesis using assms(1) unfolding tracks_def held_by_items_def by blast
  qed
  ultimately show ?thesis using assms(1) unfolding tracks_def by blast
qed

lemma tracks_close:
  assumes t: "tracks started items s n blocks" and i: "tbl_get items i = Some (Live k)"
    and b: "tbl_get (up_blocks s) i = Some b" and p: "p = Between k \<or> p = Ended"
  shows "\<not> ub_stopped b \<and> tbl_get blocks (ub_index b) = Some k \<and>
    tracks started (tbl_put items i p) (s\<lparr>up_blocks := tbl_put (up_blocks s) i (b\<lparr>ub_stopped := True\<rparr>)\<rparr>) n
      (tbl_del blocks (ub_index b))"
proof -
  let ?ups = "tbl_put (up_blocks s) i (b\<lparr>ub_stopped := True\<rparr>)"
  have n: "n = up_next_block_index s" "started = up_message_start_emitted s"
    and ph: "\<And>x. phase_ok (up_blocks s) blocks x (tbl_get items x)"
    and held: "held_by_items (up_blocks s) blocks items" and num: "numbered (up_blocks s) n"
    using t unfolding tracks_def by auto
  obtain j where j: "b = \<lparr>ub_index = j, ub_stopped = False\<rparr>" "tbl_get blocks j = Some k" using ph [of i] i b by auto
  have other: "ub_index b' \<noteq> j" if "x \<noteq> i" "tbl_get (up_blocks s) x = Some b'" for x b'
    using num that b j(1) unfolding numbered_def by fastforce
  have "phase_ok ?ups (tbl_del blocks j) x (tbl_get (tbl_put items i p) x)" for x
  proof (cases "x = i")
    case True
    then show ?thesis using p by (auto simp: tbl_simps)
  next
    case False
    have g: "tbl_get (tbl_put items i p) x = tbl_get items x" using False by (simp add: tbl_simps)
    show ?thesis
      using ph [of x] other [OF False] unfolding g
      by (cases "(up_blocks s, blocks, x, tbl_get items x)" rule: phase_ok.cases) (auto simp: tbl_simps False)
  qed
  moreover have "held_by_items ?ups (tbl_del blocks j) (tbl_put items i p)"
    unfolding held_by_items_def
  proof (intro allI impI)
    fix j' k'
    assume g: "tbl_get (tbl_del blocks j) j' = Some k'"
    then obtain x where x: "tbl_get items x = Some (Live k')" "tbl_get (up_blocks s) x = Some \<lparr>ub_index = j', ub_stopped = False\<rparr>"
      using held unfolding held_by_items_def by (auto simp: tbl_simps split: if_splits)
    moreover have "x \<noteq> i" using x g b j(1) by (auto simp: tbl_simps)
    ultimately show "\<exists>x. tbl_get (tbl_put items i p) x = Some (Live k') \<and> tbl_get ?ups x = Some \<lparr>ub_index = j', ub_stopped = False\<rparr>"
      by (intro exI [of _ x]) (simp add: tbl_simps)
  qed
  moreover have "numbered ?ups n"
  proof -
    have "j < n" using num b j(1) unfolding numbered_def by fastforce
    then show ?thesis using num b j(1) unfolding numbered_def by (auto simp: tbl_simps split: if_splits)
  qed
  ultimately show ?thesis using j by (simp add: tracks_def n)
qed

text \<open>The translator's dispatch, seen through the protocol.\<close>

lemma view_started: "resp_view e = RStart \<Longrightarrow> translate_up env e s = on_response_started env e s"
  and view_item: "resp_view e = RItem i p \<Longrightarrow> translate_up env e s = on_output_item_added e s \<and>
    i = str_or_empty ''id'' (get_or_null ''item'' e) \<and> p = item_phase (get_or_null ''item'' e)"
  and view_part: "resp_view e = RPart i \<Longrightarrow> translate_up env e s = on_content_part_added e s \<and>
    get_str ''type'' (get_or_null ''part'' e) = Some ''output_text'' \<and> i = str_or_empty ''item_id'' e"
  and view_done: "resp_view e = RDone i whole \<Longrightarrow> translate_up env e s = on_block_done e s \<and> i = done_item_id e"
  and view_end: "resp_view e = REnd \<Longrightarrow> translate_up env e s = (on_response_completed e s, s)"
  and view_error: "resp_view e = RError \<Longrightarrow> \<exists>v. translate_up env e s = (build_error_event v, s)"
  by (auto simp: resp_view_def translate_up_def Let_def split: if_splits option.splits)

lemma view_delta:
  assumes "resp_view e = RDelta i k"
  shows "translate_up env e s = ((case tbl_get (up_blocks s) i of None \<Rightarrow> []
     | Some b \<Rightarrow> [block_delta (ub_index b) (jobj [(''type'', JStr (case k of TextKind \<Rightarrow> ''text_delta'' | ToolUseKind \<Rightarrow> ''input_json_delta''
         | ThinkingKind \<Rightarrow> ''thinking_delta'')), ((case k of TextKind \<Rightarrow> ''text'' | ToolUseKind \<Rightarrow> ''partial_json''
         | ThinkingKind \<Rightarrow> ''thinking''), JStr (str_or_empty ''delta'' e))])]), s)"
  using assms
  by (auto simp: resp_view_def translate_up_def on_output_text_delta_def on_function_call_arguments_delta_def on_reasoning_delta_def
      on_item_delta_def lookup_flat_item_def Let_def split: if_splits option.splits)

lemma view_skip:
  assumes "resp_view e = RSkip" shows "translate_up env e s = ([], s)"
proof -
  have part: "on_content_part_added e s = ([], s)" if "get_str ''type'' (get_or_null ''part'' e) \<noteq> Some ''output_text''"
    using that by (simp add: on_content_part_added_def Let_def)
  have delta: "on_item_delta t f e s = []" if "get_str ''item_id'' e = None" for t f
    using that by (simp add: on_item_delta_def lookup_flat_item_def)
  show ?thesis
    using assms part delta
    by (auto simp: resp_view_def translate_up_def on_output_text_delta_def on_function_call_arguments_delta_def on_reasoning_delta_def
        Let_def split: if_splits option.splits)
qed

lemma anth_delta_kind:
  "anth_view (block_delta i (jobj [(''type'', JStr (case k of TextKind \<Rightarrow> ''text_delta'' | ToolUseKind \<Rightarrow> ''input_json_delta''
     | ThinkingKind \<Rightarrow> ''thinking_delta'')), f])) = ADelta i k"
  by (cases k) (simp_all add: delta_views)

lemma anth_start: "anth_view (jobj ((''type'', JStr ''message_start'') # kvs)) = AStart"
  by (simp add: anth_view_def Let_def)

lemma anth_error: "map anth_view (build_error_event v) = [AError]"
  by (simp add: anth_view_def build_error_event_def Let_def)

lemma blocks_none_live:
  assumes "tracks started items s n blocks" "\<forall>kv \<in> set items. case snd kv of Live _ \<Rightarrow> False | _ \<Rightarrow> True"
  shows "blocks = []"
proof (rule ccontr)
  assume "blocks \<noteq> []"
  then obtain j k rest where "blocks = (j, k) # rest" by (cases blocks) auto
  then have "tbl_get blocks j = Some k" by simp
  then obtain i where "tbl_get items i = Some (Live k)" using assms(1) unfolding tracks_def held_by_items_def by blast
  then have "(i, Live k) \<in> set items" by (rule map_of_SomeD)
  then show False using assms(2) by fastforce
qed

lemma stopped_is_closed:
  assumes "tracks started items s n blocks" "tbl_get (up_blocks s) i = Some b" "ub_stopped b"
  shows "tbl_get blocks (ub_index b) = None"
proof (rule ccontr)
  assume "tbl_get blocks (ub_index b) \<noteq> None"
  then obtain x where "tbl_get (up_blocks s) x = Some \<lparr>ub_index = ub_index b, ub_stopped = False\<rparr>"
    using assms(1) unfolding tracks_def held_by_items_def by blast
  moreover have "numbered (up_blocks s) n" using assms(1) by (auto simp: tracks_def)
  ultimately have "i = x" using assms(2) unfolding numbered_def by (metis up_block.select_convs(1))
  then show False using \<open>tbl_get (up_blocks s) x = _\<close> assms(2,3) by (cases b) simp
qed

text \<open>
  Event by event: the translation of a stream that keeps the Responses protocol keeps the Messages
  protocol exactly if the stream sends nothing for an item after a part of it was done.
\<close>

lemma typed_stream:
  "responses_ok False started items events \<Longrightarrow> tracks started items s n blocks \<Longrightarrow>
   messages_ok started n blocks (fst (translate_all_up env events s)) \<longleftrightarrow> responses_ok True started items events"
proof (induction events arbitrary: started items s n blocks)
  case (Cons e es)
  note ok = Cons.prems(1) and t = Cons.prems(2)
  obtain out s1 where one: "translate_up env e s = (out, s1)" by (cases "translate_up env e s")
  have step: "messages_ok started n blocks (fst (translate_all_up env (e # es) s)) \<longleftrightarrow> responses_ok True started items (e # es)"
    if "responses_ok False started' items' es" "tracks started' items' s1 n' blocks'"
      "\<And>rest. messages_ok started n blocks (out @ rest) = messages_ok started' n' blocks' rest"
      "responses_ok True started items (e # es) = responses_ok True started' items' es" for started' items' n' blocks'
    using Cons.IH [OF that(1,2)] that(3,4) one by (simp add: case_prod_beta)
  have last: "messages_ok started n blocks (fst (translate_all_up env (e # es) s)) \<longleftrightarrow> responses_ok True started items (e # es)"
    if "es = []" "messages_ok started n blocks out" "responses_ok True started items (e # es)"
    using that one by simp
  show ?case
  proof (cases "resp_view e")
    case RStart
    show ?thesis
    proof (cases "up_message_start_emitted s")
      case True
      then show ?thesis
        using ok RStart one t by (intro step [of True items n blocks]) (auto simp: view_started on_response_started_def tracks_def)
    next
      case False
      then obtain m where "out = [jobj ((''type'', JStr ''message_start'') # m)]"
        "s1 = s\<lparr>up_message_start_emitted := True, up_draws := up_draws s + 1\<rparr>"
        using one by (auto simp: view_started [OF RStart] on_response_started_def Let_def)
      moreover have "n = up_next_block_index s" using t by (simp add: tracks_def)
      ultimately show ?thesis
        using ok RStart t False by (intro step [of True items n blocks]) (simp_all add: tracks_def anth_start)
    qed
  next
    case (RItem i p)
    note v = view_item [OF RItem, of env s]
    have new: "started" "tbl_get items i = None" "responses_ok False started (tbl_put items i p) es"
      "responses_ok True started items (e # es) = responses_ok True started (tbl_put items i p) es" using ok RItem by auto
    then have free: "tbl_get (up_blocks s) i = None" using tracks_phase [OF t, of i] by simp
    show ?thesis
    proof (cases "\<exists>k. p = Live k")
      case True
      then obtain k where Live: "p = Live k" by blast
      note o = tracks_open [OF t free, of k]
      have "out = [block_start n (case k of ToolUseKind \<Rightarrow> tool_use_block (str_or_empty ''call_id'' (get_or_null ''item'' e))
             (str_or_empty ''name'' (get_or_null ''item'' e)) | _ \<Rightarrow> thinking_block)] \<and> k \<noteq> TextKind"
        "tracks started (tbl_put items i p) s1 (n + 1) (tbl_put blocks n k)"
        using one v Live o t by (auto simp: on_output_item_added_def item_phase_def open_block_def tracks_def Let_def split: if_splits)
      then show ?thesis
        using new by (intro step [of started "tbl_put items i p" "n + 1" "tbl_put blocks n k"]) (cases k; simp add: built_views)+
    next
      case False
      then have p: "p = Announced \<or> p = Foreign" using v by (auto simp: item_phase_def Let_def split: if_splits)
      then have "tracks started (tbl_put items i p) s n blocks"
        using new(2) free by (intro tracks_relabel [OF t]) auto
      moreover have "out = []" "s1 = s"
        using p one v by (auto simp: on_output_item_added_def item_phase_def Let_def split: if_splits)
      ultimately show ?thesis using new by (intro step [of started "tbl_put items i p" n blocks]) simp_all
    qed
  next
    case (RPart i)
    note v = view_part [OF RPart, of env s]
    have started: started using ok RPart by simp
    show ?thesis
    proof (cases "tbl_get items i = Some Announced")
      case True
      then have free: "tbl_get (up_blocks s) i = None" using tracks_phase [OF t, of i] by simp
      have "out = [block_start n text_block]" "s1 = snd (open_block i s)"
        using one v free t by (auto simp: on_content_part_added_def open_block_def tracks_def Let_def)
      then show ?thesis
        using ok RPart True started tracks_open [OF t free, of TextKind]
        by (intro step [of started "tbl_put items i (Live TextKind)" "n + 1" "tbl_put blocks n TextKind"]) (simp_all add: built_views)
    next
      case False
      then have p: "tbl_get items i = Some (Live TextKind) \<or> tbl_get items i = Some (Between TextKind)"
        using ok RPart by (auto split: option.splits phase.splits)
      then have "tbl_get (up_blocks s) i \<noteq> None" using tracks_phase [OF t, of i] by auto
      then have "out = []" "s1 = s" using one v by (simp_all add: on_content_part_added_def Let_def)
      then show ?thesis using ok RPart p t by (intro step [of started items n blocks]) auto
    qed
  next
    case (RDelta i k)
    have new: "started" "responses_ok False started items es" using ok RDelta by auto
    have ph: "phase_ok (up_blocks s) blocks i (tbl_get items i)" by (rule tracks_phase [OF t])
    consider (live) "tbl_get items i = Some (Live k)" | (late) "tbl_get items i = Some (Between k)" using ok RDelta by auto
    then show ?thesis
    proof cases
      case live
      then obtain j where "tbl_get (up_blocks s) i = Some \<lparr>ub_index = j, ub_stopped = False\<rparr>" "tbl_get blocks j = Some k"
        using ph by auto
      then show ?thesis
        using new one t live RDelta view_delta [OF RDelta, of env s]
        by (intro step [of started items n blocks]) (auto simp: anth_delta_kind)
    next
      case late
      then obtain b where b: "tbl_get (up_blocks s) i = Some b" "ub_stopped b" using ph by auto
      have "\<not> messages_ok started n blocks (fst (translate_all_up env (e # es) s))"
        using b view_delta [OF RDelta, of env s] stopped_is_closed [OF t b] by (simp add: case_prod_beta anth_delta_kind)
      moreover have "\<not> responses_ok True started items (e # es)" using late RDelta by simp
      ultimately show ?thesis by blast
    qed
  next
    case (RDone i whole)
    note v = view_done [OF RDone, of env s]
    have ph: "phase_ok (up_blocks s) blocks i (tbl_get items i)" by (rule tracks_phase [OF t])
    let ?items = "set_phase i (after_done whole (tbl_get items i)) items"
    have new: "started" "responses_ok False started ?items es"
      "responses_ok True started items (e # es) = responses_ok True started ?items es" using ok RDone by auto
    show ?thesis
    proof (cases "\<exists>k. tbl_get items i = Some (Live k)")
      case True
      then obtain k j where k: "tbl_get items i = Some (Live k)" "tbl_get (up_blocks s) i = Some \<lparr>ub_index = j, ub_stopped = False\<rparr>"
        using ph by auto
      have "out = [block_stop j]" "s1 = s\<lparr>up_blocks := tbl_put (up_blocks s) i \<lparr>ub_index = j, ub_stopped = True\<rparr>\<rparr>"
        using one v k by (auto simp: on_block_done_def)
      moreover have "?items = tbl_put items i (if whole then Ended else Between k)"
        using k(1) by (simp add: after_done_def set_phase_def)
      ultimately show ?thesis
        using tracks_close [OF t k, of "if whole then Ended else Between k"] new
        by (intro step [of started ?items n "tbl_del blocks j"]) (auto simp: built_views)
    next
      case False
      then have "out = []" "s1 = s"
        using one v ph by (cases "(up_blocks s, blocks, i, tbl_get items i)" rule: phase_ok.cases; auto simp: on_block_done_def split: option.splits)+
      moreover have "tracks started ?items s n blocks"
      proof (cases "after_done whole (tbl_get items i)")
        case None
        then show ?thesis using t by (simp add: set_phase_def)
      next
        case (Some p)
        then have "\<And>k. p \<noteq> Live k" "phase_ok (up_blocks s) blocks i (Some p)"
          using False ph by (auto simp: after_done_def split: option.splits phase.splits if_splits)
        then show ?thesis using Some False tracks_relabel [OF t, of i p] by (simp add: set_phase_def)
      qed
      ultimately show ?thesis using new by (intro step [of started ?items n blocks]) simp_all
    qed
  next
    case REnd
    have "messages_ok started n blocks (on_response_completed e s)"
      using ok REnd blocks_none_live [OF t] by (simp add: on_response_completed_def Let_def built_views)
    then show ?thesis using ok REnd one by (intro last) (auto simp: view_end)
  next
    case RError
    then obtain v where "out = build_error_event v" using view_error [OF RError, of env s] one by auto
    then show ?thesis
      using ok RError anth_error [of v] by (intro last) (auto simp: build_error_event_def)
  next
    case RSkip
    then show ?thesis using ok t one by (intro step [of started items n blocks]) (simp_all add: view_skip)
  qed
qed simp

text \<open>
  C25: What the translator makes of a well-typed stream. Take any stream that keeps the Responses protocol:
  the response starts first; item ids are fresh; a message may have several text parts and a reasoning
  item several summaries; content has the kind of its item and comes while the item is open; nothing is
  left unfinished at the end. Its translation keeps the Messages protocol (one \<open>message_start\<close>, first;
  blocks numbered from zero without a gap; every delta of its block's kind and inside it; every block
  stopped exactly once, before the \<open>message_delta\<close> that closes the message with its \<open>message_stop\<close>; nothing
  after the end or an error) exactly if no content comes for an item after one of its parts was
  done. So streams with one part per item are translated correctly, and the only way to break the
  Messages protocol is a second part with content, whose deltas the translator sends behind the stop.
\<close>

theorem translated_stream_well_typed:
  assumes "responses_ok False False [] events"
  shows "messages_ok False 0 [] (fst (translate_all_up env events (new_up codex_contract)))
    \<longleftrightarrow> responses_ok True False [] events"
proof -
  have "tracks False [] (new_up codex_contract) 0 []"
    by (simp add: tracks_def new_up_def held_by_items_def numbered_def)
  from typed_stream [OF assms this] show ?thesis .
qed

definition demo_item :: "string \<Rightarrow> string \<Rightarrow> json" where
  "demo_item t i = jobj [(''type'', JStr ''response.output_item.added''), (''item'', jobj [(''type'', JStr t), (''id'', JStr i)])]"

definition demo_event :: "string \<Rightarrow> string \<Rightarrow> json" where
  "demo_event t i = jobj [(''type'', JStr t), (''item_id'', JStr i), (''delta'', JStr ''x'')]"

definition demo_part :: "string \<Rightarrow> json" where
  "demo_part i = jobj [(''type'', JStr ''response.content_part.added''), (''item_id'', JStr i),
     (''part'', jobj [(''type'', JStr ''output_text'')])]"

definition demo_ended :: "string \<Rightarrow> json" where
  "demo_ended i = jobj [(''type'', JStr ''response.output_item.done''), (''item'', jobj [(''id'', JStr i)])]"

text \<open>A reasoning item, a message and a call, the latter two overlapping; and a message with two parts.\<close>

definition demo_stream :: "json list" where
  "demo_stream = [jobj [(''type'', JStr ''response.created'')], demo_item ''reasoning'' ''a'',
     demo_event ''response.reasoning_summary_text.delta'' ''a'', demo_event ''response.reasoning_summary_text.done'' ''a'',
     demo_ended ''a'', demo_item ''message'' ''b'', demo_part ''b'', demo_item ''function_call'' ''c'',
     demo_event ''response.output_text.delta'' ''b'', demo_event ''response.function_call_arguments.delta'' ''c'',
     demo_event ''response.output_text.done'' ''b'', demo_event ''response.content_part.done'' ''b'', demo_ended ''b'',
     demo_event ''response.function_call_arguments.done'' ''c'', demo_ended ''c'', jobj [(''type'', JStr ''response.completed'')]]"

definition demo_parts :: "json list" where
  "demo_parts = [jobj [(''type'', JStr ''response.created'')], demo_item ''message'' ''b'',
     demo_part ''b'', demo_event ''response.output_text.delta'' ''b'', demo_event ''response.content_part.done'' ''b'',
     demo_part ''b'', demo_event ''response.output_text.delta'' ''b'', demo_event ''response.content_part.done'' ''b'',
     demo_ended ''b'', jobj [(''type'', JStr ''response.completed'')]]"

lemma demo_streams_ok:
  "responses_ok False False [] demo_stream" "responses_ok True False [] demo_stream"
  "responses_ok False False [] demo_parts" "\<not> responses_ok True False [] demo_parts"
  by code_simp+

theorem translated_stream_well_typed_witness:
  "\<forall>env. messages_ok False 0 [] (fst (translate_all_up env demo_stream (new_up True))) \<and>
   \<not> messages_ok False 0 [] (fst (translate_all_up env demo_parts (new_up True)))"
  by (intro allI) (simp only: translated_stream_well_typed [OF demo_streams_ok(1)] translated_stream_well_typed [OF demo_streams_ok(3)]
      demo_streams_ok not_False_eq_True simp_thms)

end
