(* ===== verification/Translate_Round.thy ===== *)
theory Translate_Round
  imports Translate_Types
begin

text \<open>
  The two translators are inverse on a turn: what an Anthropic backend streams, translated for a
  Responses client and back for a Messages client, is the same turn. And the collector's message is
  the turn it was streamed.
\<close>

section \<open>A turn as a Messages backend streams it\<close>

datatype turn_block =
    TextBlock "string list"
  | ThinkingBlock "string list"
  | CallBlock string string "string list"

fun block_value :: "turn_block \<Rightarrow> json" where
  "block_value (TextBlock _) = text_block"
| "block_value (ThinkingBlock _) = thinking_block"
| "block_value (CallBlock call_id name _) = tool_use_block call_id name"

fun delta_of :: "turn_block \<Rightarrow> string \<Rightarrow> json" where
  "delta_of (TextBlock _) d = jobj [(''type'', JStr ''text_delta''), (''text'', JStr d)]"
| "delta_of (ThinkingBlock _) d = jobj [(''type'', JStr ''thinking_delta''), (''thinking'', JStr d)]"
| "delta_of (CallBlock _ _ _) d = jobj [(''type'', JStr ''input_json_delta''), (''partial_json'', JStr d)]"

fun fragments :: "turn_block \<Rightarrow> string list" where
  "fragments (TextBlock ds) = ds"
| "fragments (ThinkingBlock ds) = ds"
| "fragments (CallBlock _ _ ds) = ds"

definition block_events :: "nat \<Rightarrow> turn_block \<Rightarrow> json list" where
  "block_events i b = block_start i (block_value b) # map (\<lambda>d. block_delta i (delta_of b d)) (fragments b) @ [block_stop i]"

fun blocks_events :: "nat \<Rightarrow> turn_block list \<Rightarrow> json list" where
  "blocks_events i [] = []"
| "blocks_events i (b # bs) = block_events i b @ blocks_events (Suc i) bs"

definition message_start :: "json \<Rightarrow> json" where
  "message_start message = jobj [(''type'', JStr ''message_start''), (''message'', message)]"

definition turn_events :: "json \<Rightarrow> turn_block list \<Rightarrow> string \<Rightarrow> json \<Rightarrow> json list" where
  "turn_events message bs reason usage =
     message_start message # blocks_events 0 bs @ [message_delta reason usage, message_stop]"

definition is_call :: "turn_block \<Rightarrow> bool" where
  "is_call b \<longleftrightarrow> (case b of CallBlock _ _ _ \<Rightarrow> True | _ \<Rightarrow> False)"

section \<open>Both translators at work on one block\<close>

lemma translate_all_rv_append:
  "translate_all_rv env (xs @ ys) s =
     (let (out, s1) = translate_all_rv env xs s; (rest, s2) = translate_all_rv env ys s1 in (out @ rest, s2))"
  by (induction xs arbitrary: s) (auto simp: case_prod_beta Let_def)

lemma translate_all_up_append:
  "translate_all_up env (xs @ ys) s =
     (let (out, s1) = translate_all_up env xs s; (rest, s2) = translate_all_up env ys s1 in (out @ rest, s2))"
  by (induction xs arbitrary: s) (auto simp: case_prod_beta Let_def)

definition there_and_back :: "translate_env \<Rightarrow> translate_env \<Rightarrow> json list \<Rightarrow> rv_state \<times> up_state \<Rightarrow> json list \<times> rv_state \<times> up_state" where
  "there_and_back env1 env2 events st =
     (let (sent, s1) = translate_all_rv env1 events (fst st); (out, u1) = translate_all_up env2 sent (snd st) in (out, s1, u1))"

lemma there_and_back_append:
  "there_and_back env1 env2 (xs @ ys) st =
     (let (out, st1) = there_and_back env1 env2 xs st; (rest, st2) = there_and_back env1 env2 ys st1 in (out @ rest, st2))"
  by (simp add: there_and_back_def translate_all_rv_append translate_all_up_append case_prod_beta Let_def)


lemma round_seq:
  assumes "there_and_back env1 env2 xs st = (out, st1)" "there_and_back env1 env2 ys st1 = (rest, st2)"
  shows "there_and_back env1 env2 (xs @ ys) st = (out @ rest, st2)"
  by (simp add: there_and_back_append assms)

lemma round_step:
  assumes "there_and_back env1 env2 [x] st = (out, st1)" "there_and_back env1 env2 xs st1 = (rest, st2)"
  shows "there_and_back env1 env2 (x # xs) st = (out @ rest, st2)"
  using round_seq [OF assms] by simp

text \<open>The open block, as both sides keep it; \<open>seen\<close> are the deltas that went through.\<close>

fun kept :: "string \<Rightarrow> turn_block \<Rightarrow> string \<Rightarrow> rv_block" where
  "kept i (TextBlock _) seen = \<lparr>rb_kind = TextKind, rb_item_id = i, rb_call_id = None, rb_name = None, rb_buffer = seen\<rparr>"
| "kept i (ThinkingBlock _) seen = \<lparr>rb_kind = ThinkingKind, rb_item_id = i, rb_call_id = None, rb_name = None, rb_buffer = seen\<rparr>"
| "kept i (CallBlock call_id name _) seen =
     \<lparr>rb_kind = ToolUseKind, rb_item_id = i, rb_call_id = Some call_id, rb_name = Some name, rb_buffer = seen\<rparr>"

fun block_prefix :: "turn_block \<Rightarrow> string" where
  "block_prefix (TextBlock _) = ''msg''"
| "block_prefix (ThinkingBlock _) = ''rs''"
| "block_prefix (CallBlock _ _ _) = ''fc''"

definition item_id_of :: "translate_env \<Rightarrow> turn_block \<Rightarrow> nat \<Rightarrow> string" where
  "item_id_of env b n = synth_id env (block_prefix b) n"

lemma rv_types:
  "translate_rv env (block_start i v) s = rv_on_content_block_start env (block_start i v) s"
  "translate_rv env (block_delta i v) s = rv_on_content_block_delta (block_delta i v) s"
  "translate_rv env (block_stop i) s = rv_on_content_block_stop (block_stop i) s"
  "translate_rv env (message_delta r u) s = rv_on_message_delta (message_delta r u) s"
  "translate_rv env message_stop s = rv_on_message_stop s"
  "translate_rv env (message_start m) s = rv_on_message_start env (message_start m) s"
  by (simp_all add: translate_rv_def block_start_def block_delta_def block_stop_def message_delta_def message_stop_def
      message_start_def Let_def)

lemma index_of_built:
  assumes "i \<le> u64_max"
  shows "block_index (block_start i v) = Some i" "block_index (block_delta i v) = Some i" "block_index (block_stop i) = Some i"
  using assms by (simp_all add: block_index_def block_start_def block_delta_def block_stop_def ju64_def)

lemma parts_of_built [simp]:
  "get_or_null ''content_block'' (block_start i v) = v" "get_or_null ''delta'' (block_delta i v) = v"
  by (simp_all add: block_start_def block_delta_def)

text \<open>What the up translator does with each event the reverse translator sends.\<close>

lemma up_sequenced:
  "translate_up env (sequenced t n kvs) u = translate_up env (jobj ((''type'', JStr t) # (''sequence_number'', ju64 n) # kvs)) u"
  by (simp add: sequenced_def)

lemma open_round:
  assumes i: "i \<le> u64_max" "up_next_block_index u = i"
    and free: "tbl_get (up_blocks u) (item_id_of env1 b (rv_draws s)) = None"
  shows "there_and_back env1 env2 [block_start i (block_value b)] (s, u) =
    ([block_start i (block_value b)],
     bump_seq (if block_prefix b = ''msg'' then 2 else 1)
       (s\<lparr>rv_blocks := tbl_put (rv_blocks s) i (kept (item_id_of env1 b (rv_draws s)) b ''''), rv_order := rv_order s @ [i],
         rv_draws := rv_draws s + 1\<rparr>),
     u\<lparr>up_next_block_index := i + 1,
       up_blocks := tbl_put (up_blocks u) (item_id_of env1 b (rv_draws s)) \<lparr>ub_index = i, ub_stopped = False\<rparr>,
       up_saw_function_call := (up_saw_function_call u \<or> is_call b)\<rparr>)"
  using free i(2)
  by (cases b)
    (auto simp: there_and_back_def rv_types rv_on_content_block_start_def index_of_built [OF i(1)] opened_block_def
      text_block_def thinking_block_def tool_use_block_def item_id_of_def sequenced_def translate_up_def on_output_item_added_def
      on_content_part_added_def open_block_def output_text_part_def is_call_def bump_seq_def Let_def)

definition unmoved :: "rv_state \<Rightarrow> rv_state \<Rightarrow> bool" where
  "unmoved s s' \<longleftrightarrow> rv_draws s' = rv_draws s \<and> rv_usage s' = rv_usage s \<and> rv_stop_reason s' = rv_stop_reason s"

lemma delta_round:
  assumes "i \<le> u64_max" "tbl_get (rv_blocks s) i = Some (kept x b seen)"
    "tbl_get (up_blocks u) x = Some \<lparr>ub_index = i, ub_stopped = False\<rparr>"
  shows "there_and_back env1 env2 [block_delta i (delta_of b d)] (s, u) =
    ([block_delta i (delta_of b d)], bump_seq 1 (s\<lparr>rv_blocks := tbl_put (rv_blocks s) i (kept x b (seen @ d))\<rparr>), u)"
  using assms
  by (cases b)
    (auto simp: there_and_back_def rv_types rv_on_content_block_delta_def index_of_built delta_parts_def sequenced_def
      translate_up_def on_output_text_delta_def on_function_call_arguments_delta_def on_reasoning_delta_def on_item_delta_def
      lookup_flat_item_def bump_seq_def Let_def)

lemma deltas_round:
  assumes "i \<le> u64_max" "tbl_get (rv_blocks s) i = Some (kept x b seen)"
    "tbl_get (up_blocks u) x = Some \<lparr>ub_index = i, ub_stopped = False\<rparr>"
  shows "\<exists>s'. there_and_back env1 env2 (map (\<lambda>d. block_delta i (delta_of b d)) ds) (s, u) =
      (map (\<lambda>d. block_delta i (delta_of b d)) ds, s', u) \<and> unmoved s s' \<and>
      tbl_get (rv_blocks s') i = Some (kept x b (seen @ concat ds))"
  using assms(2)
proof (induction ds arbitrary: s seen)
  case Nil
  then show ?case by (simp add: there_and_back_def unmoved_def)
next
  case (Cons d ds)
  let ?s = "bump_seq 1 (s\<lparr>rv_blocks := tbl_put (rv_blocks s) i (kept x b (seen @ d))\<rparr>)"
  have "tbl_get (rv_blocks ?s) i = Some (kept x b (seen @ d))" by (simp add: bump_seq_def tbl_simps)
  from Cons.IH [OF this] obtain s' where s': "there_and_back env1 env2 (map (\<lambda>d. block_delta i (delta_of b d)) ds) (?s, u) =
      (map (\<lambda>d. block_delta i (delta_of b d)) ds, s', u)" "unmoved ?s s'" "tbl_get (rv_blocks s') i = Some (kept x b ((seen @ d) @ concat ds))"
    by blast
  have "unmoved s s'" using s'(2) by (simp add: unmoved_def bump_seq_def)
  then show ?case
    using round_step [OF delta_round [OF assms(1) Cons.prems assms(3), of env1 env2 d] s'(1)] s'(3)
    by (intro exI [of _ s']) simp
qed

lemma stop_round:
  assumes "i \<le> u64_max" "tbl_get (rv_blocks s) i = Some (kept x b seen)"
    "tbl_get (up_blocks u) x = Some \<lparr>ub_index = i, ub_stopped = False\<rparr>"
  shows "\<exists>n. there_and_back env1 env2 [block_stop i] (s, u) = ([block_stop i], bump_seq n s,
    u\<lparr>up_blocks := tbl_put (up_blocks u) x \<lparr>ub_index = i, ub_stopped = True\<rparr>\<rparr>)"
  using assms
  by (cases b)
    (auto simp: there_and_back_def rv_types rv_on_content_block_stop_def index_of_built stop_events_def completed_item_def
      sequenced_def translate_up_def on_block_done_def done_item_id_def block_done_types_def tbl_simps Let_def)

text \<open>Ids drawn later differ from all ids drawn so far.\<close>

definition drawn_before :: "translate_env \<Rightarrow> nat \<Rightarrow> string \<Rightarrow> bool" where
  "drawn_before env n x \<longleftrightarrow> (\<exists>b m. m < n \<and> x = item_id_of env b m)"

lemma item_id_fresh:
  assumes "inj (tv_hex env)" shows "\<not> drawn_before env n (item_id_of env b n)"
proof -
  have "m = n" if "item_id_of env b' m = item_id_of env b n" for b' m
    using that inj_eq [OF assms] by (cases b; cases b') (auto simp: item_id_of_def synth_id_def)
  then show ?thesis unfolding drawn_before_def by (metis less_irrefl)
qed

lemma block_round:
  assumes "i \<le> u64_max" "up_next_block_index u = i" "inj (tv_hex env1)"
    "\<forall>x v. tbl_get (up_blocks u) x = Some v \<longrightarrow> drawn_before env1 (rv_draws s) x"
  shows "\<exists>s' u'. there_and_back env1 env2 (block_events i b) (s, u) = (block_events i b, s', u') \<and>
    rv_draws s' = Suc (rv_draws s) \<and> rv_usage s' = rv_usage s \<and> rv_stop_reason s' = rv_stop_reason s \<and>
    up_next_block_index u' = Suc i \<and> up_saw_function_call u' = (up_saw_function_call u \<or> is_call b) \<and>
    (\<forall>x v. tbl_get (up_blocks u') x = Some v \<longrightarrow> drawn_before env1 (rv_draws s') x)"
proof -
  let ?x = "item_id_of env1 b (rv_draws s)"
  define S where "S = bump_seq (if block_prefix b = ''msg'' then 2 else 1) (s\<lparr>rv_blocks := tbl_put (rv_blocks s) i (kept ?x b ''''),
      rv_order := rv_order s @ [i], rv_draws := rv_draws s + 1\<rparr>)"
  define U where "U = u\<lparr>up_next_block_index := i + 1, up_blocks := tbl_put (up_blocks u) ?x \<lparr>ub_index = i, ub_stopped = False\<rparr>,
      up_saw_function_call := (up_saw_function_call u \<or> is_call b)\<rparr>"
  define deltas where "deltas = map (\<lambda>d. block_delta i (delta_of b d)) (fragments b)"
  have free: "tbl_get (up_blocks u) ?x = None"
    using item_id_fresh [OF assms(3), of "rv_draws s" b] assms(4) by (metis option.exhaust)
  note o = open_round [OF assms(1,2) free, of env2, folded S_def U_def]
  have k: "tbl_get (rv_blocks S) i = Some (kept ?x b '''')" "tbl_get (up_blocks U) ?x = Some \<lparr>ub_index = i, ub_stopped = False\<rparr>"
    by (simp_all add: S_def U_def bump_seq_def tbl_simps)
  obtain s' where d: "there_and_back env1 env2 deltas (S, U) = (deltas, s', U)" "unmoved S s'"
    "tbl_get (rv_blocks s') i = Some (kept ?x b (concat (fragments b)))"
    using deltas_round [OF assms(1) k, of env1 env2 "fragments b", folded deltas_def] by auto
  define U' where "U' = U\<lparr>up_blocks := tbl_put (up_blocks U) ?x \<lparr>ub_index = i, ub_stopped = True\<rparr>\<rparr>"
  obtain n where st: "there_and_back env1 env2 [block_stop i] (s', U) = ([block_stop i], bump_seq n s', U')"
    using stop_round [OF assms(1) d(3) k(2)] unfolding U'_def by blast
  have run: "there_and_back env1 env2 (block_events i b) (s, u) = (block_events i b, bump_seq n s', U')"
    using round_step [OF o round_seq [OF d(1) st]] by (simp add: block_events_def deltas_def)
  moreover have "drawn_before env1 (Suc (rv_draws s)) x" if "x = ?x \<or> drawn_before env1 (rv_draws s) x" for x
    using that unfolding drawn_before_def by (metis less_Suc_eq)
  ultimately show ?thesis
    using d(2) assms(4) by (intro exI [of _ "bump_seq n s'"] exI [of _ U'] conjI run)
      (auto simp: unmoved_def bump_seq_def S_def U_def U'_def tbl_simps split: if_splits)
qed

lemma blocks_round:
  assumes "i + length bs \<le> u64_max" "up_next_block_index u = i" "inj (tv_hex env1)"
    "\<forall>x v. tbl_get (up_blocks u) x = Some v \<longrightarrow> drawn_before env1 (rv_draws s) x"
  shows "\<exists>s' u'. there_and_back env1 env2 (blocks_events i bs) (s, u) = (blocks_events i bs, s', u') \<and>
    rv_usage s' = rv_usage s \<and> rv_stop_reason s' = rv_stop_reason s \<and>
    up_saw_function_call u' = (up_saw_function_call u \<or> (\<exists>b \<in> set bs. is_call b))"
  using assms(1,2,4)
proof (induction bs arbitrary: i s u)
  case Nil
  then show ?case by (simp add: there_and_back_def)
next
  case (Cons b bs)
  have i: "i \<le> u64_max" using Cons.prems(1) by simp
  obtain s1 u1 where one: "there_and_back env1 env2 (block_events i b) (s, u) = (block_events i b, s1, u1)"
    "rv_usage s1 = rv_usage s" "rv_stop_reason s1 = rv_stop_reason s" "up_next_block_index u1 = Suc i"
    "up_saw_function_call u1 = (up_saw_function_call u \<or> is_call b)"
    "\<forall>x v. tbl_get (up_blocks u1) x = Some v \<longrightarrow> drawn_before env1 (rv_draws s1) x"
    using block_round [OF i Cons.prems(2) assms(3) Cons.prems(3)] by metis
  have "Suc i + length bs \<le> u64_max" using Cons.prems(1) by simp
  from Cons.IH [OF this one(4,6)] obtain s2 u2 where
    "there_and_back env1 env2 (blocks_events (Suc i) bs) (s1, u1) = (blocks_events (Suc i) bs, s2, u2)"
    "rv_usage s2 = rv_usage s1" "rv_stop_reason s2 = rv_stop_reason s1"
    "up_saw_function_call u2 = (up_saw_function_call u1 \<or> (\<exists>b \<in> set bs. is_call b))" by blast
  then show ?case using round_seq [OF one(1)] one by (intro exI [of _ s2] exI [of _ u2]) auto
qed

section \<open>The turn comes back\<close>

text \<open>The usage a turn ends with, and how the client sees it.\<close>

definition turn_usage :: "json \<Rightarrow> json \<Rightarrow> json" where
  "turn_usage message usage = merge_object
     (case jget ''usage'' message of Some u \<Rightarrow> merge_object (jobj []) u | None \<Rightarrow> jobj []) usage"

definition normal_usage :: "json \<Rightarrow> json" where
  "normal_usage u = jobj [(''output_tokens'', JInt (unwrap_or (get_i64 ''output_tokens'' u) 0)),
     (''input_tokens'', JInt (unwrap_or (get_i64 ''input_tokens'' u) 0)),
     (''cache_read_input_tokens'', JInt (unwrap_or (get_i64 ''cache_read_input_tokens'' u) 0)),
     (''thinking_tokens'', JInt (unwrap_or (get_i64 ''thinking_tokens'' u) 0))]"

lemma get_i64_range: "in_i64 (unwrap_or (get_i64 k u) 0)"
  by (auto simp: get_i64_def unwrap_or_def in_i64_def i64_min_def i64_max_def bind_eq_Some_conv
      split: option.split elim!: as_i64.elims split: if_splits)

lemma usage_round: "map_usage_from_openai (map_usage u) = normal_usage u"
proof -
  have "as_i64 (JInt (unwrap_or (get_i64 k u) 0)) = Some (unwrap_or (get_i64 k u) 0)" for k
    using get_i64_range [of k u] by simp
  then show ?thesis
    by (simp add: map_usage_from_openai_def map_usage_def normal_usage_def get_i64_def [of _ "jobj _"] Let_def del: as_i64.simps)
qed

definition restarted :: "translate_env \<Rightarrow> json \<Rightarrow> json" where
  "restarted env message = jobj [(''id'', JStr (synth_id env ''msg'' 0)), (''type'', JStr ''message''), (''role'', JStr ''assistant''),
     (''model'', get_or_null ''model'' message), (''content'', JArr []),
     (''usage'', jobj [(''input_tokens'', JInt 0), (''output_tokens'', JInt 0)])]"

lemma start_round:
  "there_and_back env1 env2 [message_start message] (new_rv, new_up c) =
     ([message_start (restarted env2 message)],
      bump_seq 2 (merge_event_usage message (new_rv\<lparr>rv_response_id := Some (synth_id env1 ''resp'' 0),
        rv_model := Some (get_or_null ''model'' message), rv_draws := 1\<rparr>)),
      (new_up c)\<lparr>up_message_start_emitted := True, up_draws := 1\<rparr>)"
proof -
  define S where "S = merge_event_usage message (new_rv\<lparr>rv_response_id := Some (synth_id env1 ''resp'' 0),
    rv_model := Some (get_or_null ''model'' message), rv_draws := 1\<rparr>)"
  have "get_or_null ''message'' (message_start message) = message" by (simp add: message_start_def)
  moreover have "rv_draws new_rv = 0" by (simp add: new_rv_def)
  ultimately have "rv_on_message_start env1 (message_start message) new_rv =
      (let response = jobj [(''id'', JStr (synth_id env1 ''resp'' 0)), (''object'', JStr ''response''), (''status'', JStr ''in_progress''),
            (''model'', get_or_null ''model'' message), (''output'', JArr []), (''usage'', JNull)]
       in ([sequenced ''response.created'' (rv_seq S) [(''response'', response)],
            sequenced ''response.in_progress'' (rv_seq S + 1) [(''response'', response)]], bump_seq 2 S))"
    by (simp add: rv_on_message_start_def S_def Let_def)
  then show ?thesis
    unfolding S_def [symmetric]
    by (auto simp: there_and_back_def rv_types sequenced_def translate_up_def
      on_response_started_def restarted_def new_up_def message_start_def [symmetric] Let_def)
qed

lemma end_round:
  assumes "reason = (if reason = ''max_tokens'' then reason else if up_saw_function_call u then ''tool_use'' else ''end_turn'')"
  shows "\<exists>s'. there_and_back env1 env2 [message_delta reason usage, message_stop] (s, u) =
    ([message_delta reason (normal_usage (merge_object (unwrap_or (rv_usage s) (jobj [])) usage)), message_stop], s', u)"
proof -
  obtain S where S: "rv_on_message_delta (message_delta reason usage) s = ([], S)" "rv_stop_reason S = Some reason"
    "rv_usage S = Some (merge_object (unwrap_or (rv_usage s) (jobj [])) usage)"
    by (simp add: rv_on_message_delta_def message_delta_def merge_event_usage_def merge_usage_def opt_or_def)
  then show ?thesis
    using assms
    by (cases "reason = ''max_tokens''"; cases "up_saw_function_call u")
      (simp_all add: there_and_back_def rv_types rv_on_message_stop_def sequenced_def translate_up_def on_response_completed_def
        block_done_types_def usage_round Let_def)
qed

text \<open>
  C26: A turn survives both translations. Whatever a Messages backend streams as one turn (any sequence of
  text, thinking and tool-call blocks, each cut into any fragments), translated into Responses events and
  those translated back, comes out as the same blocks, numbered alike and cut into the same fragments,
  with the same call ids and names and the same stop reason; only the message's id is new and its usage
  is told at the end. The stop reason is one the Responses protocol can express for such a turn.
\<close>

theorem turn_survives_both_translations:
  assumes "inj (tv_hex env1)" "length bs \<le> u64_max"
    "reason = ''max_tokens'' \<or> reason = (if \<exists>b \<in> set bs. is_call b then ''tool_use'' else ''end_turn'')"
  shows "fst (translate_all_up env2 (fst (translate_all_rv env1 (turn_events message bs reason usage) new_rv)) (new_up c)) =
    turn_events (restarted env2 message) bs reason (normal_usage (turn_usage message usage))"
proof -
  define S where "S = bump_seq 2 (merge_event_usage message (new_rv\<lparr>rv_response_id := Some (synth_id env1 ''resp'' 0),
        rv_model := Some (get_or_null ''model'' message), rv_draws := 1\<rparr>))"
  define U where "U = (new_up c)\<lparr>up_message_start_emitted := True, up_draws := 1\<rparr>"
  note start = start_round [of env1 env2 message c, folded S_def U_def]
  have u: "up_next_block_index U = 0" "\<not> up_saw_function_call U" "up_blocks U = []" by (simp_all add: U_def new_up_def)
  have us: "unwrap_or (rv_usage S) (jobj []) = (case jget ''usage'' message of Some u \<Rightarrow> merge_object (jobj []) u | None \<Rightarrow> jobj [])"
    by (simp add: S_def bump_seq_def merge_event_usage_def merge_usage_def new_rv_def split: option.split)
  obtain s1 u1 where blocks: "there_and_back env1 env2 (blocks_events 0 bs) (S, U) = (blocks_events 0 bs, s1, u1)"
    "rv_usage s1 = rv_usage S" "up_saw_function_call u1 = (\<exists>b \<in> set bs. is_call b)"
    using blocks_round [of 0 bs U env1 S env2] assms(1,2) u by auto
  have "reason = (if reason = ''max_tokens'' then reason else if up_saw_function_call u1 then ''tool_use'' else ''end_turn'')"
    using assms(3) blocks(3) by auto
  from end_round [OF this, of env1 env2 usage s1] obtain s2 where
    ends: "there_and_back env1 env2 [message_delta reason usage, message_stop] (s1, u1) =
      ([message_delta reason (normal_usage (turn_usage message usage)), message_stop], s2, u1)"
    unfolding turn_usage_def us [symmetric] blocks(2) by blast
  have "fst (there_and_back env1 env2 (turn_events message bs reason usage) (new_rv, new_up c)) =
      turn_events (restarted env2 message) bs reason (normal_usage (turn_usage message usage))"
    using round_step [OF start round_seq [OF blocks(1) ends]] by (simp add: turn_events_def)
  then show ?thesis by (simp add: there_and_back_def case_prod_beta)
qed

definition unary_env :: translate_env where
  "unary_env = \<lparr>tv_parse = (\<lambda>_. None), tv_print = (\<lambda>_. ''''), tv_hex = (\<lambda>n. replicate n CHR ''0'')\<rparr>"

lemma unary_ids: "inj (tv_hex unary_env)"
  by (auto simp: unary_env_def inj_on_def dest: arg_cong [of _ _ length])

theorem turn_survives_both_translations_witness:
  "\<forall>message usage. fst (translate_all_up unary_env (fst (translate_all_rv unary_env (turn_events message
       [ThinkingBlock [''hm''], TextBlock [''a'', ''b''], CallBlock ''t'' ''ls'' [''{'', ''}'']] ''tool_use'' usage) new_rv)) (new_up True)) =
     turn_events (restarted unary_env message) [ThinkingBlock [''hm''], TextBlock [''a'', ''b''], CallBlock ''t'' ''ls'' [''{'', ''}'']]
       ''tool_use'' (normal_usage (turn_usage message usage))"
  by (intro allI turn_survives_both_translations unary_ids) (simp_all add: is_call_def u64_max_def)

end
