(* ===== verification/Collect_Props.thy ===== *)
theory Collect_Props
  imports Translate_Round
begin

text \<open>
  The collector's message is the turn that was streamed; and a stream that is not one text or summary
  part per item loses content on the way to a client that does not stream.
\<close>

definition collected :: "translate_env \<Rightarrow> turn_block \<Rightarrow> json" where
  "collected env b = (case b of
     TextBlock ds \<Rightarrow> jobj [(''type'', JStr ''text''), (''text'', JStr (concat ds))]
   | ThinkingBlock ds \<Rightarrow> jobj [(''type'', JStr ''thinking''), (''thinking'', JStr (concat ds))]
   | CallBlock call_id name ds \<Rightarrow> jobj [(''type'', JStr ''tool_use''), (''id'', JStr call_id), (''name'', JStr name),
       (''input'', (case tv_parse env (concat ds) of Some (JObj kvs) \<Rightarrow> JObj kvs | _ \<Rightarrow> jobj []))])"

fun collecting :: "turn_block \<Rightarrow> string \<Rightarrow> co_block" where
  "collecting (TextBlock _) seen = CoText seen"
| "collecting (ThinkingBlock _) seen = CoThinking seen"
| "collecting (CallBlock call_id name _) seen = CoToolUse call_id name seen"

lemma push_types:
  "push_event env c (block_start i v) = co_on_content_block_start (block_start i v) c"
  "push_event env c (block_delta i v) = co_on_content_block_delta (block_delta i v) c"
  "push_event env c (block_stop i) = co_on_content_block_stop env (block_stop i) c"
  "push_event env c (message_delta r u) = co_on_message_delta (message_delta r u) c"
  "push_event env c message_stop = c"
  "push_event env c (message_start m) = co_on_message_start (message_start m) c"
  by (simp_all add: push_event_def block_start_def block_delta_def block_stop_def message_delta_def message_stop_def
      message_start_def Let_def)

lemma event_index_built:
  assumes "i \<le> u64_max"
  shows "event_index (block_start i v) = Some i" "event_index (block_delta i v) = Some i" "event_index (block_stop i) = Some i"
  using assms by (simp_all add: event_index_def block_start_def block_delta_def block_stop_def ju64_def)

lemma jget_built [simp]:
  "jget ''content_block'' (block_start i v) = Some v" "jget ''delta'' (block_delta i v) = Some v"
  by (simp_all add: block_start_def block_delta_def)

lemma jget_message [simp]: "jget ''message'' (message_start m) = Some m"
  by (simp add: message_start_def)

lemma jget_message_delta [simp]:
  "jget ''delta'' (message_delta r u) = Some (jobj [(''stop_reason'', JStr r), (''stop_sequence'', JNull)])"
  "jget ''usage'' (message_delta r u) = Some u"
  by (simp_all add: message_delta_def)

lemma collect_deltas:
  assumes "length done_blocks \<le> u64_max"
  shows "foldl (push_event env) \<lparr>co_message = m, co_blocks = done_blocks @ [Some (collecting b seen)]\<rparr>
      (map (\<lambda>d. block_delta (length done_blocks) (delta_of b d)) ds) =
    \<lparr>co_message = m, co_blocks = done_blocks @ [Some (collecting b (seen @ concat ds))]\<rparr>"
proof (induction ds arbitrary: seen)
  case (Cons d ds)
  have "push_event env \<lparr>co_message = m, co_blocks = done_blocks @ [Some (collecting b seen)]\<rparr> (block_delta (length done_blocks) (delta_of b d)) =
      \<lparr>co_message = m, co_blocks = done_blocks @ [Some (collecting b (seen @ d))]\<rparr>"
    using assms by (cases b) (simp_all add: push_types co_on_content_block_delta_def open_slot_def event_index_built Let_def)
  then show ?case using Cons.IH [of "seen @ d"] by simp
qed simp

lemma collect_block:
  assumes "length done_blocks \<le> u64_max"
  shows "foldl (push_event env) \<lparr>co_message = m, co_blocks = done_blocks\<rparr> (block_events (length done_blocks) b) =
    \<lparr>co_message = m, co_blocks = done_blocks @ [Some (CoDone (collected env b))]\<rparr>"
proof -
  have start: "push_event env \<lparr>co_message = m, co_blocks = done_blocks\<rparr> (block_start (length done_blocks) (block_value b)) =
      \<lparr>co_message = m, co_blocks = done_blocks @ [Some (collecting b '''')]\<rparr>"
    using assms by (cases b) (simp_all add: push_types co_on_content_block_start_def event_index_built new_co_block_def
        set_block_def text_block_def thinking_block_def tool_use_block_def Let_def)
  have "push_event env \<lparr>co_message = m, co_blocks = done_blocks @ [Some (collecting b seen)]\<rparr> (block_stop (length done_blocks)) =
      \<lparr>co_message = m, co_blocks = done_blocks @ [Some (CoDone (finalize_block env (collecting b seen)))]\<rparr>" for seen
    using assms by (simp add: push_types co_on_content_block_stop_def open_slot_def event_index_built)
  moreover have "finalize_block env (collecting b (concat (fragments b))) = collected env b"
  proof (cases b)
    case (CallBlock call_id name ds)
    then show ?thesis
      by (auto simp: collected_def opt_filter_def split: option.split json.split)
  qed (simp_all add: collected_def)
  ultimately show ?thesis
    unfolding block_events_def using collect_deltas [OF assms, of env m b "''''" "fragments b"] by (simp add: start)
qed

lemma collect_blocks:
  "length done_blocks + length bs \<le> u64_max \<Longrightarrow>
   foldl (push_event env) \<lparr>co_message = m, co_blocks = done_blocks\<rparr> (blocks_events (length done_blocks) bs) =
    \<lparr>co_message = m, co_blocks = done_blocks @ map (\<lambda>b. Some (CoDone (collected env b))) bs\<rparr>"
proof (induction bs arbitrary: done_blocks)
  case (Cons b bs)
  have "length done_blocks \<le> u64_max" using Cons.prems by simp
  from collect_block [OF this, of env m b] Cons.IH [of "done_blocks @ [Some (CoDone (collected env b))]"] Cons.prems
  show ?case by simp
qed simp

text \<open>
  C28: A client that does not stream gets the turn that was streamed: its message has the streamed blocks as
  content, in order, each with its fragments put together (a call's arguments parsed, or the empty
  object where they are not an object), the model, id and role of the start and the stop reason and usage
  of the end.
\<close>

theorem collected_message_is_the_turn:
  assumes "length bs \<le> u64_max"
  shows "let m = collect_message env (turn_events message bs reason usage) in
    jget ''content'' m = Some (JArr (map (collected env) bs)) \<and> jget ''stop_reason'' m = Some (JStr reason) \<and>
    jget ''usage'' m = Some usage \<and> jget ''id'' m = Some (get_or_null ''id'' message) \<and>
    jget ''model'' m = Some (get_or_null ''model'' message) \<and>
    jget ''role'' m = Some (unwrap_or (jget ''role'' message) (JStr ''assistant''))"
proof -
  obtain kvs where k: "push_event env new_collector (message_start message) = \<lparr>co_message = kvs, co_blocks = []\<rparr>"
    "map_of kvs ''id'' = Some (get_or_null ''id'' message)" "map_of kvs ''model'' = Some (get_or_null ''model'' message)"
    "map_of kvs ''role'' = Some (unwrap_or (jget ''role'' message) (JStr ''assistant''))"
    by (simp add: push_types co_on_message_start_def new_collector_def obj_put_get Let_def)
  have "foldl (push_event env) new_collector (message_start message # blocks_events 0 bs) =
      \<lparr>co_message = kvs, co_blocks = map (\<lambda>b. Some (CoDone (collected env b))) bs\<rparr>"
    using collect_blocks [of "[]" bs env kvs] assms(1) by (simp add: k(1))
  then have "collect_message env (turn_events message bs reason usage) = JObj (obj_put ''content'' (JArr (map (collected env) bs)) (obj_put ''usage'' usage
      (obj_put ''stop_sequence'' JNull (obj_put ''stop_reason'' (JStr reason) kvs))))"
    unfolding collect_message_def turn_events_def
    by (simp add: push_types co_on_message_delta_def set_if_some_def co_set_def finish_message_def
        List.map_filter_def comp_def Let_def)
  then show ?thesis using k(2-4) by (simp add: obj_put_get)
qed

theorem collected_message_is_the_turn_witness:
  "let m = collect_message unary_env (turn_events JNull [TextBlock [''a'', ''b''], CallBlock ''t'' ''ls'' [''?'']] ''tool_use'' JNull) in
    jget ''content'' m = Some (JArr [jobj [(''type'', JStr ''text''), (''text'', JStr ''ab'')],
      jobj [(''type'', JStr ''tool_use''), (''id'', JStr ''t''), (''name'', JStr ''ls''), (''input'', jobj [])]]) \<and>
    jget ''stop_reason'' m = Some (JStr ''tool_use'')"
  using collected_message_is_the_turn [of "[TextBlock [''a'', ''b''], CallBlock ''t'' ''ls'' [''?'']]" unary_env JNull "''tool_use''" JNull]
  by (simp add: collected_def unary_env_def u64_max_def Let_def)

text \<open>
  A reasoning item with two summary parts keeps no type: the block is stopped with the first part, the
  second part's delta arrives on a stopped block, and the collector drops it.
\<close>

definition two_summaries :: "json list" where
  "two_summaries = [jobj [(''type'', JStr ''response.created'')], demo_item ''reasoning'' ''a'',
     demo_event ''response.reasoning_summary_text.delta'' ''a'', demo_event ''response.reasoning_summary_text.done'' ''a'',
     demo_event ''response.reasoning_summary_text.delta'' ''a'', demo_event ''response.reasoning_summary_text.done'' ''a'',
     jobj [(''type'', JStr ''response.completed'')]]"

lemma second_summary_sent:
  "\<exists>m u. fst (translate_all_up unary_env two_summaries (new_up True)) =
     [message_start m, block_start 0 thinking_block, block_delta 0 (delta_of (ThinkingBlock []) ''x''), block_stop 0,
      block_delta 0 (delta_of (ThinkingBlock []) ''x''), message_delta ''end_turn'' u, message_stop]"
  by (simp add: two_summaries_def demo_item_def demo_event_def translate_up_def new_up_def on_response_started_def
      on_output_item_added_def open_block_def on_reasoning_delta_def on_item_delta_def lookup_flat_item_def on_block_done_def
      done_item_id_def block_done_types_def on_response_completed_def message_start_def [symmetric] get_str_def Let_def)
    blast

lemma second_summary_lost:
  "let out = fst (translate_all_up unary_env two_summaries (new_up True)) in
    \<not> messages_ok False 0 [] out \<and>
    map anth_view out = [AStart, ABlock 0 ThinkingKind, ADelta 0 ThinkingKind, AStop 0, ADelta 0 ThinkingKind, AMessageDelta, AMessageStop] \<and>
    jget ''content'' (collect_message unary_env out) = Some (JArr [jobj [(''type'', JStr ''thinking''), (''thinking'', JStr ''x'')]])"
proof -
  obtain m u where out: "fst (translate_all_up unary_env two_summaries (new_up True)) =
     [message_start m, block_start 0 thinking_block, block_delta 0 (delta_of (ThinkingBlock []) ''x''), block_stop 0,
      block_delta 0 (delta_of (ThinkingBlock []) ''x''), message_delta ''end_turn'' u, message_stop]"
    using second_summary_sent by blast
  have views: "anth_view (message_start m) = AStart" "anth_view (block_delta 0 (delta_of (ThinkingBlock []) ''x'')) = ADelta 0 ThinkingKind"
    by (simp_all add: message_start_def anth_start delta_views)
  have z: "(0::nat) \<le> u64_max" by (simp add: u64_max_def)
  have "jget ''content'' (collect_message unary_env [message_start m, block_start 0 thinking_block,
      block_delta 0 (delta_of (ThinkingBlock []) ''x''), block_stop 0, block_delta 0 (delta_of (ThinkingBlock []) ''x''),
      message_delta ''end_turn'' u, message_stop]) = Some (JArr [jobj [(''type'', JStr ''thinking''), (''thinking'', JStr ''x'')]])"
    by (simp add: collect_message_def push_types co_on_message_start_def new_collector_def co_on_content_block_start_def
        co_on_content_block_delta_def co_on_content_block_stop_def co_on_message_delta_def event_index_built [OF z] new_co_block_def
        thinking_block_def set_block_def open_slot_def set_if_some_def co_set_def finish_message_def
        List.map_filter_def obj_put_get Let_def)
  then show ?thesis by (simp add: out views built_views delta_views)
qed

end
