(* ===== verification/Translate_Request.thy ===== *)
theory Translate_Request
  imports Collect_Props
begin

text \<open>
  A client's request survives both translations: what a Messages client sends, translated for a
  Responses backend and back, carries the same content, tools and tool choice.
\<close>

section \<open>A request as a Messages client sends it\<close>

datatype client_block =
    ClientText string
  | ClientImage string string
  | ClientCall string string json
  | ClientResult string "string + string list"
  | ClientThinking string

fun client_json :: "client_block \<Rightarrow> json" where
  "client_json (ClientText s) = jobj [(''type'', JStr ''text''), (''text'', JStr s)]"
| "client_json (ClientImage media_type data) = jobj [(''type'', JStr ''image''), (''source'', jobj
     [(''type'', JStr ''base64''), (''media_type'', JStr media_type), (''data'', JStr data)])]"
| "client_json (ClientCall call_id name input) =
     jobj [(''type'', JStr ''tool_use''), (''id'', JStr call_id), (''name'', JStr name), (''input'', input)]"
| "client_json (ClientResult call_id result) = jobj [(''type'', JStr ''tool_result''), (''tool_use_id'', JStr call_id), (''content'',
     (case result of Inl s \<Rightarrow> JStr s
      | Inr ss \<Rightarrow> JArr (map (\<lambda>s. jobj [(''type'', JStr ''text''), (''text'', JStr s)]) ss)))]"
| "client_json (ClientThinking s) = jobj [(''type'', JStr ''thinking''), (''thinking'', JStr s)]"

text \<open>Calls are the assistant's and results the user's; a media type holds no comma.\<close>

fun fits :: "string \<Rightarrow> client_block \<Rightarrow> bool" where
  "fits role (ClientCall _ _ _) = (role = ''assistant'')"
| "fits role (ClientResult _ _) = (role = ''user'')"
| "fits role (ClientImage media_type _) = (role \<in> {''user'', ''assistant''} \<and> CHR '','' \<notin> set media_type)"
| "fits role _ = (role \<in> {''user'', ''assistant''})"

text \<open>The arguments of a call are parsed back from what they are printed as.\<close>

fun prints_back :: "translate_env \<Rightarrow> client_block \<Rightarrow> bool" where
  "prints_back env (ClientCall _ _ input) = (tv_parse env (tv_print env input) = Some input)"
| "prints_back env _ = True"

definition client_message :: "string \<times> client_block list \<Rightarrow> json" where
  "client_message m = jobj [(''role'', JStr (fst m)), (''content'', JArr (map client_json (snd m)))]"

text \<open>What a list of messages says, whatever its division into messages: who said which block, in order.\<close>

definition message_says :: "json \<Rightarrow> (string \<times> json) list" where
  "message_says m = (case jget ''content'' m of
     Some (JArr blocks) \<Rightarrow> map (Pair (str_or_empty ''role'' m)) blocks | _ \<Rightarrow> [])"

definition all_said :: "json list \<Rightarrow> (string \<times> json) list" where
  "all_said ms = concat (map message_says ms)"

definition is_thinking :: "client_block \<Rightarrow> bool" where
  "is_thinking b \<longleftrightarrow> (case b of ClientThinking _ \<Rightarrow> True | _ \<Rightarrow> False)"

definition said :: "(string \<times> client_block list) list \<Rightarrow> (string \<times> json) list" where
  "said ms = concat (map (\<lambda>(role, bs). map (\<lambda>b. (role, client_json b)) (filter (\<lambda>b. \<not> is_thinking b) bs)) ms)"

section \<open>Parts\<close>

definition is_part :: "client_block \<Rightarrow> bool" where
  "is_part b \<longleftrightarrow> (case b of ClientText _ \<Rightarrow> True | ClientImage _ _ \<Rightarrow> True | _ \<Rightarrow> False)"

fun part_of :: "string \<Rightarrow> client_block \<Rightarrow> json" where
  "part_of role (ClientText s) = text_part role s"
| "part_of role (ClientImage media_type data) =
     jobj [(''type'', JStr ''input_image''), (''image_url'', JStr (''data:'' @ media_type @ '';base64,'' @ data)), (''detail'', JStr ''auto'')]"
| "part_of role _ = JNull"

lemma strip_suffix_append: "strip_suffix y (x @ y) = Some x"
  by (simp add: strip_suffix_def)

lemma part_back:
  assumes "is_part b" "fits role b"
  shows "map_content_part (part_of role b) = Some (client_json b)"
proof (cases b)
  case (ClientText s)
  then show ?thesis by (simp add: map_content_part_def text_part_def Let_def)
next
  case (ClientImage media_type data)
  have "split_once CHR '','' ((media_type @ '';base64'') @ CHR '','' # data) = Some (media_type @ '';base64'', data)"
    by (rule split_once_append) (use assms ClientImage in simp)
  then show ?thesis
    using ClientImage strip_suffix_append [of "'';base64''" media_type] by (simp add: map_content_part_def Let_def)
qed (use assms(1) in \<open>simp_all add: is_part_def\<close>)

lemma parts_back:
  "\<forall>b \<in> set bs. is_part b \<and> fits role b \<Longrightarrow> List.map_filter map_content_part (map (part_of role) bs) = map client_json bs"
  by (induction bs) (auto simp: map_filter_simps part_back)

lemma text_parts_back:
  "List.map_filter map_content_part (List.map_filter tool_result_part (map (\<lambda>s. jobj [(''type'', JStr ''text''), (''text'', JStr s)]) ss)) =
   map (\<lambda>s. jobj [(''type'', JStr ''text''), (''text'', JStr s)]) ss"
  by (induction ss) (simp_all add: map_filter_simps tool_result_part_def map_content_part_def Let_def)

section \<open>Messages\<close>

lemma flushed_back:
  assumes "\<forall>b \<in> set bs. is_part b \<and> fits role b"
  shows "all_said (concat (map (map_input_item env) (flush_message_buffer (map (part_of role) bs) role))) =
    map (\<lambda>b. (role, client_json b)) bs"
proof (cases bs)
  case (Cons b rest)
  then have role: "role = ''user'' \<or> role = ''assistant''" using assms by (cases b) (auto simp: is_part_def)
  then show ?thesis
    using Cons parts_back [OF assms]
    by (auto simp: flush_message_buffer_def message_item_def map_input_item_def starts_role_def item_content_def
        anthropic_message_def all_said_def message_says_def Let_def)
qed (simp add: flush_message_buffer_def all_said_def)

lemma all_said_append: "all_said (xs @ ys) = all_said xs @ all_said ys"
  by (simp add: all_said_def)

lemma call_back:
  assumes "prints_back env (ClientCall i n v)"
  shows "all_said (map_input_item env (function_call_item env (client_json (ClientCall i n v)))) =
    [(''assistant'', client_json (ClientCall i n v))]"
  using assms by (simp add: function_call_item_def map_input_item_def starts_role_def anthropic_message_def all_said_def message_says_def Let_def)

lemma result_back:
  "all_said (map_input_item env (function_call_output_item (client_json (ClientResult i r)))) = [(''user'', client_json (ClientResult i r))]"
  by (cases r) (simp_all add: function_call_output_item_def map_input_item_def starts_role_def anthropic_message_def
      map_tool_output_def text_parts_back all_said_def message_says_def Let_def)

lemma client_types [simp]:
  "str_or_empty ''type'' (client_json (ClientCall i n v)) = ''tool_use''"
  "str_or_empty ''type'' (client_json (ClientResult i r)) = ''tool_result''"
  "str_or_empty ''type'' (client_json (ClientThinking s)) = ''thinking''"
  by simp_all

lemma blocks_back:
  "\<forall>b \<in> set buf. is_part b \<and> fits role b \<Longrightarrow> \<forall>b \<in> set bs. fits role b \<and> prints_back env b \<Longrightarrow>
    all_said (concat (map (map_input_item env) (map_blocks env role (map (part_of role) buf) (map client_json bs)))) =
    map (\<lambda>b. (role, client_json b)) (buf @ filter (\<lambda>b. \<not> is_thinking b) bs)"
proof (induction bs arbitrary: buf)
  case Nil
  then show ?case by (simp add: flushed_back)
next
  case (Cons b bs)
  note flushed = flushed_back [OF Cons.prems(1), of env]
  have rest: "\<forall>b \<in> set bs. fits role b \<and> prints_back env b" and fit: "fits role b" "prints_back env b" using Cons.prems(2) by simp_all
  note IH = Cons.IH [OF _ rest]
  show ?case
  proof (cases "is_part b")
    case True
    then have "\<forall>b \<in> set (buf @ [b]). is_part b \<and> fits role b" using Cons.prems(1) fit(1) by simp
    from IH [OF this] True show ?thesis
      by (cases b) (simp_all add: is_part_def is_thinking_def image_part_def Let_def)
  next
    case False
    then show ?thesis
      using IH [of buf] IH [of "[]"] Cons.prems(1) fit flushed call_back result_back
      by (cases b) (simp_all add: is_part_def is_thinking_def all_said_append Let_def del: client_json.simps prints_back.simps)
  qed
qed

lemma messages_back:
  assumes "\<forall>(role, bs) \<in> set ms. \<forall>b \<in> set bs. fits role b \<and> prints_back env b"
  shows "all_said (concat (map (map_input_item env) (concat (map (map_message env) (map client_message ms))))) = said ms"
  using assms
proof (induction ms)
  case Nil
  then show ?case by (simp add: all_said_def said_def)
next
  case (Cons m ms)
  obtain role bs where m: "m = (role, bs)" by (cases m)
  have "map_message env (client_message m) = map_blocks env role [] (map client_json bs)"
    by (simp add: m map_message_def client_message_def Let_def)
  moreover have "\<forall>b \<in> set bs. fits role b \<and> prints_back env b" using Cons.prems m by simp
  ultimately show ?case
    using blocks_back [of "[]" role bs env] Cons.IH Cons.prems m
    by (simp add: all_said_append said_def)
qed

section \<open>Tools\<close>

definition client_tool :: "string \<times> string \<times> json \<Rightarrow> json" where
  "client_tool t = (case t of (name, description, schema) \<Rightarrow>
     jobj [(''name'', JStr name), (''description'', JStr description), (''input_schema'', schema)])"

datatype tool_choice = ChoiceAuto | ChoiceAny | ChoiceNone | ChoiceTool string

fun choice_json :: "tool_choice \<Rightarrow> json" where
  "choice_json ChoiceAuto = jobj [(''type'', JStr ''auto'')]"
| "choice_json ChoiceAny = jobj [(''type'', JStr ''any'')]"
| "choice_json ChoiceNone = jobj [(''type'', JStr ''none'')]"
| "choice_json (ChoiceTool name) = jobj [(''type'', JStr ''tool''), (''name'', JStr name)]"

lemma choice_back: "rv_map_tool_choice (map_tool_choice (choice_json c)) = choice_json c"
proof (cases c)
  case (ChoiceTool name)
  have "\<exists>kvs. jobj [(''type'', JStr ''function''), (''name'', JStr name)] = JObj kvs" by (simp add: jobj_def)
  then obtain kvs where k: "jobj [(''type'', JStr ''function''), (''name'', JStr name)] = JObj kvs" ..
  have "get_str ''type'' (JObj kvs) = Some ''function''" "jget ''name'' (JObj kvs) = Some (JStr name)"
    unfolding k [symmetric] by simp_all
  then show ?thesis using ChoiceTool k by (simp add: map_tool_choice_def rv_map_tool_choice_def Let_def)
qed (simp_all add: map_tool_choice_def rv_map_tool_choice_def Let_def)

lemma tool_back: "rv_map_tool (map_tool (client_tool t)) = client_tool t" "get_str ''type'' (map_tool v) = Some ''function''"
  by (simp_all add: rv_map_tool_def map_tool_def client_tool_def split: prod.split)

lemma mapped_fields:
  "jget ''input'' (map_request_with_contract env contract body) =
     Some (map_messages env (snd (split_system_messages (unwrap_or (jget ''messages'' body) (JArr [])))))"
  "jget ''tools'' (map_request_with_contract env contract body) = map_option map_tools (jget ''tools'' body)"
  "jget ''tool_choice'' (map_request_with_contract env contract body) = map_option map_tool_choice (jget ''tool_choice'' body)"
  "jget ''model'' (map_request_with_contract env contract body) = Some (get_or_null ''model'' body)"
  by (simp_all add: map_request_with_contract_def case_prod_beta Let_def split: option.split)

lemma no_system:
  assumes "\<forall>(role, bs) \<in> set ms. role \<noteq> ''system''"
  shows "snd (split_system_messages (JArr (map client_message ms))) = JArr (map client_message ms)"
proof -
  have "filter (\<lambda>m. \<not> is_system_message m) (map client_message ms) = map client_message ms"
    using assms by (auto simp: filter_id_conv is_system_message_def client_message_def)
  then show ?thesis by (simp add: split_system_messages_def)
qed

text \<open>
  C27: A request survives both translations. What a Messages client sends (texts, images, tool calls and
  their results in any order and division into messages), translated for a Responses backend and
  translated back, says the same: every block but the thinking ones, which are dropped, by the same role
  and in the same order, and the same model, tools and tool choice. A call's arguments are parsed back from what they are printed as.
  Not compared are the system prompt, the token limit, images given by URL and a result's error flag.
\<close>

theorem request_survives_both_translations:
  assumes "jget ''messages'' body = Some (JArr (map client_message ms))"
    "\<forall>(role, bs) \<in> set ms. role \<noteq> ''system'' \<and> (\<forall>b \<in> set bs. fits role b \<and> prints_back env b)"
    "jget ''tools'' body = Some (JArr (map client_tool tools))" "jget ''tool_choice'' body = Some (choice_json choice)"
  shows "let back = rv_map_request env (map_request_with_contract env contract body) in
    (\<exists>messages. jget ''messages'' back = Some (JArr messages) \<and> all_said messages = said ms) \<and>
    jget ''tools'' back = Some (JArr (map client_tool tools)) \<and> jget ''tool_choice'' back = Some (choice_json choice) \<and>
    jget ''model'' back = Some (get_or_null ''model'' body)"
proof -
  let ?up = "map_request_with_contract env contract body"
  have sys: "\<forall>(role, bs) \<in> set ms. role \<noteq> ''system''" using assms(2) by auto
  have f: "jget ''input'' ?up = Some (JArr (concat (map (map_message env) (map client_message ms))))"
    "jget ''tools'' ?up = Some (JArr (map map_tool (map client_tool tools)))"
    "jget ''tool_choice'' ?up = Some (map_tool_choice (choice_json choice))"
    using assms(1,3,4) no_system [of ms] sys by (auto simp: mapped_fields map_messages_def map_tools_def)
  have m: "jget ''messages'' (rv_map_request env ?up) =
      Some (JArr (concat (map (map_input_item env) (concat (map (map_message env) (map client_message ms))))))"
    by (simp add: rv_map_request_def rv_messages_def f)
  have t: "jget ''tools'' (rv_map_request env ?up) = Some (JArr (map client_tool tools))"
    by (simp add: rv_map_request_def f filter_map comp_def tool_back split: option.split)
  have c: "jget ''tool_choice'' (rv_map_request env ?up) = Some (choice_json choice)"
    by (simp add: rv_map_request_def f choice_back split: option.split)
  have "jget ''model'' (rv_map_request env ?up) = Some (get_or_null ''model'' body)"
    by (simp add: rv_map_request_def get_or_null_def mapped_fields)
  moreover have "\<forall>(role, bs) \<in> set ms. \<forall>b \<in> set bs. fits role b \<and> prints_back env b" using assms(2) by auto
  ultimately show ?thesis using messages_back m t c by (simp add: Let_def)
qed

definition echo_env :: translate_env where
  "echo_env = \<lparr>tv_parse = (\<lambda>s. if s = ''o'' then Some (jobj []) else None), tv_print = (\<lambda>_. ''o''), tv_hex = (\<lambda>n. replicate n CHR ''0'')\<rparr>"

definition demo_talk :: "(string \<times> client_block list) list" where
  "demo_talk = [(''user'', [ClientText ''hi'', ClientImage ''image/png'' ''AA'']),
     (''assistant'', [ClientThinking ''hm'', ClientText ''on it'', ClientCall ''t'' ''ls'' (jobj []), ClientText ''so'']),
     (''user'', [ClientResult ''t'' (Inl ''x''), ClientResult ''u'' (Inr [''y'', ''z'']), ClientText ''go on''])]"

definition demo_body :: json where
  "demo_body = jobj [(''messages'', JArr (map client_message demo_talk)), (''tools'', JArr (map client_tool [(''ls'', ''list'', JNull)])),
     (''tool_choice'', choice_json (ChoiceTool ''ls''))]"

theorem request_survives_both_translations_witness:
  "\<exists>messages. jget ''messages'' (rv_map_request echo_env (map_request_with_contract echo_env True demo_body)) = Some (JArr messages) \<and>
     all_said messages = said demo_talk \<and> length (said demo_talk) = 8"
proof -
  have fit: "\<forall>(role, bs) \<in> set demo_talk. role \<noteq> ''system'' \<and> (\<forall>b \<in> set bs. fits role b \<and> prints_back echo_env b)"
    by (simp add: demo_talk_def echo_env_def)
  have "length (said demo_talk) = 8" by (simp add: said_def demo_talk_def is_thinking_def)
  then show ?thesis
    using request_survives_both_translations [of demo_body demo_talk echo_env "[(''ls'', ''list'', JNull)]" "ChoiceTool ''ls''" True, OF _ fit]
    by (auto simp: demo_body_def Let_def)
qed

end
