(* ===== verification/Ws_Turn.thy ===== *)
theory Ws_Turn
  imports Ws_Frames
begin

text \<open>
  One connection and one turn on it (\<open>polyflare-codex/src/ws/conn.rs\<close>, \<open>turn.rs\<close>): sending with
  the bookkeeping of what the socket holds, and the stream that ends with the turn while the socket
  stays open. \<open>wc_inbox\<close> is what the server will still deliver on the socket, in order; when it is
  empty the read runs into the idle deadline. \<open>wc_sends\<close> records every envelope handed to the socket,
  after the number of the external call and the request body it stands for.
\<close>

section \<open>A connection\<close>

record pending_baseline =
  pb_input_count :: u32
  pb_item_hashes :: "string list"
  pb_fingerprint :: string

text \<open>What \<open>recv_frame\<close> meets on the socket; pings and pongs are skipped by it.\<close>

datatype ws_event =
    FrameText string
  | FrameBinary
  | FrameClosed
  | FrameFailed string
  | PingFailed string

record ws_conn =
  wc_account :: account_id
  wc_last_response_id :: "string option"
  wc_last_input_count :: "u32 option"
  wc_last_item_hashes :: "string list option"
  wc_last_fingerprint :: "string option"
  wc_pending :: "pending_baseline option"
  wc_upgrade_turn_state :: "string option"
  wc_closed :: bool
  wc_inbox :: "ws_event list"
  wc_sends :: "(nat \<times> json \<times> json) list"

text \<open>The outcome of the \<open>n\<close>-th external call, when it is a send: an error, or what the server answers.\<close>

record ws_env = codec_env +
  we_send :: "nat \<Rightarrow> json \<Rightarrow> string + ws_event list"
  we_now_ms :: "nat \<Rightarrow> i64"

definition anchor_miss_marker :: string where "anchor_miss_marker = ''previous_response_not_found''"
definition connection_limit_marker :: string where "connection_limit_marker = ''websocket_connection_limit_reached''"
definition socket_closed_marker :: string where "socket_closed_marker = ''closed by server before response.completed''"
definition ws_read_idle_marker :: string where "ws_read_idle_marker = ''websocket read idle timeout''"

text \<open>\<open>recv_frame_with_timeout\<close>: one read.\<close>

fun recv_frame :: "ws_event option \<Rightarrow> ws_conn \<Rightarrow> (exec_error + string option) \<times> ws_conn" where
  "recv_frame None c = (Inl (ExStream (ws_read_idle_marker @ '': no frame within idle timeout'')), c\<lparr>wc_closed := True\<rparr>)"
| "recv_frame (Some (FrameText text)) c = (Inr (Some text), c)"
| "recv_frame (Some FrameBinary) c = (Inl (ExStream ''unexpected binary WS frame from codex backend''), c)"
| "recv_frame (Some FrameClosed) c = (Inr None, c\<lparr>wc_closed := True\<rparr>)"
| "recv_frame (Some (FrameFailed msg)) c = (Inl (ExStream msg), c\<lparr>wc_closed := True\<rparr>)"
| "recv_frame (Some (PingFailed msg)) c = (Inl (ExUpstream msg), c\<lparr>wc_closed := True\<rparr>)"

section \<open>Sending\<close>

definition plan_request_for_conn :: "'a codec_env_scheme \<Rightarrow> ws_conn \<Rightarrow> json \<Rightarrow> request_plan" where
  "plan_request_for_conn env c body =
     plan_request env (wc_last_response_id c) (wc_last_item_hashes c) (wc_last_fingerprint c) body"

definition accumulated_hashes :: "'a codec_env_scheme \<Rightarrow> json \<Rightarrow> ws_conn \<Rightarrow> string list" where
  "accumulated_hashes env envelope c =
     (case (jget ''previous_response_id'' envelope, wc_last_item_hashes c) of
        (Some _, Some prev) \<Rightarrow> prev @ item_hashes env envelope
      | _ \<Rightarrow> item_hashes env envelope)"

definition send_and_track :: "'a ws_env_scheme \<Rightarrow> nat \<Rightarrow> json \<Rightarrow> ws_conn \<Rightarrow> exec_error option \<times> ws_conn" where
  "send_and_track env n envelope c =
     (case we_send env n envelope of
        Inl msg \<Rightarrow> (Some (ExUpstream msg), c\<lparr>wc_closed := True\<rparr>)
      | Inr events \<Rightarrow>
          (let full = accumulated_hashes env envelope c in
           (None, c\<lparr>wc_inbox := wc_inbox c @ events,
              wc_pending := Some \<lparr>pb_input_count = length full mod 4294967296, pb_item_hashes = full,
                pb_fingerprint = non_input_fingerprint env envelope\<rparr>\<rparr>)))"

section \<open>Reading\<close>

definition response_turn_state :: "'a codec_env_scheme \<Rightarrow> json \<Rightarrow> string option" where
  "response_turn_state env event =
     (if Option.bind (jget ''type'' event) as_str \<noteq> Some ''response.metadata'' then None
      else case jget ''headers'' event of
        Some (JObj kvs) \<Rightarrow>
          (case List.find (\<lambda>(name, value). str_lower name = ''x-codex-turn-state'' \<and>
                  (case value of JStr _ \<Rightarrow> True | JInt _ \<Rightarrow> True | JFloat _ \<Rightarrow> True | _ \<Rightarrow> False)) kvs of
             Some (_, JStr s) \<Rightarrow> Some s
           | Some (_, v) \<Rightarrow> Some (we_print env v)
           | None \<Rightarrow> None)
      | _ \<Rightarrow> None)"

datatype turn_item = TurnBytes string | TurnError exec_error | TurnEnd

definition end_item :: "string option \<Rightarrow> turn_item" where
  "end_item sse = (case sse of Some bytes \<Rightarrow> TurnBytes bytes | None \<Rightarrow> TurnEnd)"

definition drop_pending :: "ws_conn \<Rightarrow> ws_conn" where
  "drop_pending c = c\<lparr>wc_pending := None\<rparr>"

text \<open>\<open>response.completed\<close>: the staged baseline becomes the socket's, and its id the anchor.\<close>

definition commit_completed :: "json \<Rightarrow> ws_conn \<Rightarrow> ws_conn" where
  "commit_completed event c =
     (let c1 = (case wc_pending c of
                  Some b \<Rightarrow> c\<lparr>wc_pending := None, wc_last_input_count := Some (pb_input_count b),
                    wc_last_item_hashes := Some (pb_item_hashes b), wc_last_fingerprint := Some (pb_fingerprint b)\<rparr>
                | None \<Rightarrow> c)
      in case jpath_str [''response'', ''id''] event of
           Some r \<Rightarrow> c1\<lparr>wc_last_response_id := Some r\<rparr> | None \<Rightarrow> c1)"

definition anchor_miss_message :: string where
  "anchor_miss_message = anchor_miss_marker @ '': anchor miss on this turn (recovery is ws::executor's CodexWsExecutor's concern, not resolved by the turn stream itself)''"

definition connection_limit_message :: string where
  "connection_limit_message = connection_limit_marker @ '': server's WS connection cap hit (recovery is ws::executor's CodexWsExecutor's concern)''"

text \<open>One parsed frame: what the stream yields, if anything, whether the turn is over, and the connection.\<close>

definition on_frame :: "'a codec_env_scheme \<Rightarrow> string \<Rightarrow> json \<Rightarrow> ws_conn \<Rightarrow> turn_item option \<times> bool \<times> ws_conn" where
  "on_frame env frame_text event c = (case classify event of
     EventFrame \<Rightarrow> (map_option TurnBytes (frame_to_sse env frame_text), False, c)
   | CompletedFrame \<Rightarrow> (Some (end_item (frame_to_sse env frame_text)), True, commit_completed event c)
   | FailedFrame \<Rightarrow> (Some (end_item (frame_to_sse env frame_text)), True, drop_pending c)
   | IncompleteFrame \<Rightarrow> (Some (end_item (frame_to_sse env frame_text)), True, drop_pending c)
   | AnchorMiss \<Rightarrow> (Some (TurnError (ExStream anchor_miss_message)), True, drop_pending c)
   | ConnectionLimitReached \<Rightarrow>
       (Some (TurnError (ExStream connection_limit_message)), True, drop_pending c)
   | ErrorFrame e \<Rightarrow> (Some (TurnError e), True, drop_pending c))"

definition on_read_error :: "ws_event option \<Rightarrow> ws_conn \<Rightarrow> turn_item \<times> bool \<times> ws_conn" where
  "on_read_error ev c = (case recv_frame ev c of
     (Inl e, c1) \<Rightarrow> (TurnError e, True, drop_pending c1)
   | (Inr _, c1) \<Rightarrow> (TurnError (ExStream (''websocket '' @ socket_closed_marker)), True, drop_pending c1))"

text \<open>
  Polling in the reading state: the item, whether the turn is over, the connection, and the turn's
  routing token, of which the first one seen stays.
\<close>

fun read_item ::
  "'a codec_env_scheme \<Rightarrow> ws_event list \<Rightarrow> ws_conn \<Rightarrow> string option \<Rightarrow> turn_item \<times> bool \<times> ws_conn \<times> string option" where
  "read_item env (FrameText frame_text # rest) c ts =
     (case we_parse env frame_text of
        None \<Rightarrow> read_item env rest (c\<lparr>wc_inbox := rest\<rparr>) ts
      | Some event \<Rightarrow>
          (let ts1 = opt_or ts (response_turn_state env event)
           in case on_frame env frame_text event (c\<lparr>wc_inbox := rest\<rparr>) of
                (Some item, over, c1) \<Rightarrow> (item, over, c1, ts1)
              | (None, _, c1) \<Rightarrow> read_item env rest c1 ts1))"
| "read_item env (ev # rest) c ts =
     (let (item, over, c1) = on_read_error (Some ev) (c\<lparr>wc_inbox := rest\<rparr>) in (item, over, c1, ts))"
| "read_item env [] c ts = (let (item, over, c1) = on_read_error None c in (item, over, c1, ts))"

text \<open>The first poll of a turn stream sends; \<open>over\<close> is the state \<open>Done\<close>, in which the lock is free.\<close>

definition first_item ::
  "'a ws_env_scheme \<Rightarrow> nat \<Rightarrow> json \<Rightarrow> ws_conn \<Rightarrow> string option \<Rightarrow> turn_item \<times> bool \<times> ws_conn \<times> string option" where
  "first_item env n envelope c ts = (case send_and_track env n envelope c of
     (Some e, c1) \<Rightarrow> (TurnError e, True, c1, ts)
   | (None, c1) \<Rightarrow> read_item env (wc_inbox c1) c1 ts)"

lemma on_frame_parsed:
  assumes "we_parse env frame_text = Some event"
  shows "\<exists>item. on_frame env frame_text event c = (Some item, classify event \<noteq> EventFrame,
     (if classify event = CompletedFrame then commit_completed event c
      else if classify event = EventFrame then c else drop_pending c))"
  using assms by (cases "classify event") (auto simp: on_frame_def frame_to_sse_def)

end
