(* ===== verification/Ws_Executor.thy ===== *)
theory Ws_Executor
  imports Ws_Turn Account_Auth Model_Catalog
begin

text \<open>
  \<open>CodexWsExecutor\<close> (\<open>polyflare-codex/src/ws/executor.rs\<close>): the connection cache, planning and
  sending a turn under the connection's lock, the two bounded recoveries of the first item, and the
  fallback to HTTP after a 426. Sockets live in a store, since the cache and running streams share
  them; a running stream holds its socket's lock (\<open>wx_flights\<close>). A call that meets a locked socket
  waits for the lock, so its model is applied when the socket is free. Dialling is a parameter.
\<close>

section \<open>State\<close>

record cached_conn =
  cc_socket :: nat
  cc_last_used :: nat

record ws_exec =
  wx_sockets :: "ws_conn list"
  wx_conns :: "(string, cached_conn) table"
  wx_disabled :: "string list"
  wx_cooldown :: "(account_id, nat) table"
  wx_tick :: nat
  wx_flights :: "(nat \<times> string option) list"

definition new_executor :: ws_exec where
  "new_executor = \<lparr>wx_sockets = [], wx_conns = [], wx_disabled = [], wx_cooldown = [], wx_tick = 0, wx_flights = []\<rparr>"

datatype dial_outcome = DialConnected "string option" | DialUpgradeRequired | DialFailed exec_error

record exec_env = ws_env +
  we_dial :: "nat \<Rightarrow> core_account \<Rightarrow> (string \<times> string) list \<Rightarrow> dial_outcome"
  we_clock :: "nat \<Rightarrow> nat"
  we_max_anchor_miss_retries :: nat
  we_max_reconnect_retries :: nat
  we_account_cooldown :: nat

definition default_max_anchor_miss_retries :: nat where "default_max_anchor_miss_retries = 2"
definition default_max_reconnect_retries :: nat where "default_max_reconnect_retries = 2"
definition default_account_cooldown :: nat where "default_account_cooldown = 30"
definition ws_conn_idle_ttl :: nat where "ws_conn_idle_ttl = 15 * 60"

definition held :: "ws_exec \<Rightarrow> nat \<Rightarrow> bool" where
  "held s sid \<longleftrightarrow> sid \<in> fst ` set (wx_flights s)"

definition now_of :: "'a exec_env_scheme \<Rightarrow> ws_exec \<Rightarrow> nat" where
  "now_of env s = we_clock env (wx_tick s)"

definition put_socket :: "nat \<Rightarrow> ws_conn \<Rightarrow> ws_exec \<Rightarrow> ws_exec" where
  "put_socket sid c s = s\<lparr>wx_sockets := (wx_sockets s)[sid := c]\<rparr>"

section \<open>Fallback scope\<close>

definition is_session_ws_disabled :: "string \<Rightarrow> ws_exec \<Rightarrow> bool" where
  "is_session_ws_disabled key s \<longleftrightarrow> key \<in> set (wx_disabled s)"

definition disable_session :: "string option \<Rightarrow> ws_exec \<Rightarrow> ws_exec" where
  "disable_session key s = (case key of None \<Rightarrow> s | Some k \<Rightarrow> s\<lparr>wx_disabled := List.insert k (wx_disabled s)\<rparr>)"

definition is_account_in_cooldown :: "'a exec_env_scheme \<Rightarrow> account_id \<Rightarrow> ws_exec \<Rightarrow> bool" where
  "is_account_in_cooldown env k s = (case tbl_get (wx_cooldown s) k of Some until \<Rightarrow> now_of env s < until | None \<Rightarrow> False)"

definition start_account_cooldown :: "'a exec_env_scheme \<Rightarrow> account_id \<Rightarrow> ws_exec \<Rightarrow> ws_exec" where
  "start_account_cooldown env k s = s\<lparr>wx_cooldown := tbl_put (wx_cooldown s) k (now_of env s + we_account_cooldown env)\<rparr>"

section \<open>The connection cache\<close>

definition evict_conn :: "string option \<Rightarrow> ws_exec \<Rightarrow> ws_exec" where
  "evict_conn key s = (case key of None \<Rightarrow> s | Some k \<Rightarrow> s\<lparr>wx_conns := tbl_del (wx_conns s) k\<rparr>)"

definition reap_idle :: "'a exec_env_scheme \<Rightarrow> nat \<Rightarrow> ws_exec \<Rightarrow> ws_exec" where
  "reap_idle env ttl s =
     s\<lparr>wx_conns := tbl_retain (\<lambda>_ e. held s (cc_socket e) \<or>
        \<not> wc_closed (wx_sockets s ! cc_socket e) \<and> now_of env s - cc_last_used e \<le> ttl) (wx_conns s)\<rparr>"

datatype conn_attempt = Ready nat | UpgradeRequired | ConnectFailed exec_error

definition fresh_conn :: "account_id \<Rightarrow> string option \<Rightarrow> ws_conn" where
  "fresh_conn k token = \<lparr>wc_account = k, wc_last_response_id = None, wc_last_input_count = None, wc_last_item_hashes = None,
     wc_last_fingerprint = None, wc_pending = None, wc_upgrade_turn_state = token, wc_closed = False, wc_inbox = [], wc_sends = []\<rparr>"

definition dial_fresh ::
  "'a exec_env_scheme \<Rightarrow> core_account \<Rightarrow> (string \<times> string) list \<Rightarrow> string option \<Rightarrow> ws_exec \<Rightarrow> conn_attempt \<times> ws_exec" where
  "dial_fresh env account forward_headers conn_key s =
     (let outcome = we_dial env (wx_tick s) account forward_headers; s1 = s\<lparr>wx_tick := wx_tick s + 1\<rparr>
      in case outcome of
           DialUpgradeRequired \<Rightarrow> (UpgradeRequired, s1)
         | DialFailed e \<Rightarrow> (ConnectFailed e, s1)
         | DialConnected token \<Rightarrow>
             (let sid = length (wx_sockets s1);
                  s2 = s1\<lparr>wx_sockets := wx_sockets s1 @ [fresh_conn (ca_id account) token]\<rparr>
              in (Ready sid, case conn_key of
                    None \<Rightarrow> s2
                  | Some k \<Rightarrow> s2\<lparr>wx_conns := tbl_put (wx_conns s2) k \<lparr>cc_socket = sid, cc_last_used = now_of env s2\<rparr>\<rparr>)))"

definition connect_and_cache ::
  "'a exec_env_scheme \<Rightarrow> core_account \<Rightarrow> (string \<times> string) list \<Rightarrow> string option \<Rightarrow> ws_exec \<Rightarrow> conn_attempt \<times> ws_exec" where
  "connect_and_cache env account forward_headers conn_key s0 =
     (let s = reap_idle env ws_conn_idle_ttl s0 in
      case Option.bind conn_key (\<lambda>k. map_option (Pair k) (tbl_get (wx_conns s) k)) of
        None \<Rightarrow> dial_fresh env account forward_headers conn_key s
      | Some (k, e) \<Rightarrow>
          (if \<not> wc_closed (wx_sockets s ! cc_socket e)
           then (Ready (cc_socket e), s\<lparr>wx_conns := tbl_put (wx_conns s) k (e\<lparr>cc_last_used := now_of env s\<rparr>)\<rparr>)
           else dial_fresh env account forward_headers conn_key (s\<lparr>wx_conns := tbl_del (wx_conns s) k\<rparr>)))"

section \<open>Planning\<close>

datatype anchor_provenance = ClientProvided | ProxyGenerated

definition full_input :: "json \<Rightarrow> json list" where
  "full_input body = unwrap_or (Option.bind (jget ''input'' body) as_array) []"

definition put_turn_state :: "string option \<Rightarrow> json \<Rightarrow> json" where
  "put_turn_state ts envelope = (case (ts, envelope) of
     (Some token, JObj kvs) \<Rightarrow> JObj (client_metadata_put ''x-codex-turn-state'' (JStr token) kvs)
   | _ \<Rightarrow> envelope)"

text \<open>\<open>None\<close> is the panic of \<open>build_response_create\<close>.\<close>

definition plan_and_build_locked ::
  "'a codec_env_scheme \<Rightarrow> i64 \<Rightarrow> ws_conn \<Rightarrow> json \<Rightarrow> string option \<Rightarrow> json option" where
  "plan_and_build_locked env now_ms c body ts =
     (let client_anchor = Option.bind (jget ''previous_response_id'' body) as_str;
          generate = Option.bind (jget ''generate'' body) as_bool
      in map_option (put_turn_state ts)
        (case client_anchor of
           Some anchor \<Rightarrow> build_response_create env now_ms body (Some anchor) (full_input body) generate
         | None \<Rightarrow> (case plan_request_for_conn env c body of
               Incremental anchor suffix \<Rightarrow> build_response_create env now_ms body (Some anchor) suffix generate
             | FullPlan \<Rightarrow> build_response_create env now_ms body None (full_input body) generate)))"

section \<open>Driving a turn\<close>

datatype recovery_action = StripAnchorAndResend | Reconnect | SurfaceError

fun classify_recovery :: "exec_error \<Rightarrow> recovery_action" where
  "classify_recovery (ExStream msg) =
     (if contains_str msg anchor_miss_marker then StripAnchorAndResend
      else if contains_str msg connection_limit_marker \<or> contains_str msg socket_closed_marker \<or>
              contains_str msg ws_read_idle_marker then Reconnect
      else SurfaceError)"
| "classify_recovery _ = SurfaceError"

datatype drive_result = Driven nat string | Broken exec_error | DrivePanic

definition clear_anchor :: "ws_conn \<Rightarrow> ws_conn" where
  "clear_anchor c = c\<lparr>wc_last_response_id := None, wc_last_item_hashes := None, wc_last_fingerprint := None\<rparr>"

text \<open>One attempt of the loop: plan, send and wait for the first item, all under the lock.\<close>

definition attempt_turn ::
  "'a exec_env_scheme \<Rightarrow> json \<Rightarrow> nat \<Rightarrow> string option \<Rightarrow> ws_exec \<Rightarrow> (turn_item \<times> bool \<times> string option) option \<times> ws_exec" where
  "attempt_turn env body sid ts s =
     (let c = wx_sockets s ! sid;
          ts1 = opt_or ts (wc_upgrade_turn_state c);
          c1 = c\<lparr>wc_upgrade_turn_state := None\<rparr>
      in case plan_and_build_locked env (we_now_ms env (wx_tick s)) c1 body ts1 of
           None \<Rightarrow> (None, put_socket sid c1 s)
         | Some envelope \<Rightarrow>
             (let c2 = c1\<lparr>wc_sends := wc_sends c1 @ [(wx_tick s, body, envelope)]\<rparr>;
                  (item, over, c3, ts2) = first_item env (wx_tick s) envelope c2 ts1
              in (Some (item, over, ts2), put_socket sid c3 (s\<lparr>wx_tick := wx_tick s + 1\<rparr>))))"

text \<open>The attempts still allowed are the measure; the counters of the source count up to their limits.\<close>

function drive_turn ::
  "'a exec_env_scheme \<Rightarrow> core_account \<Rightarrow> (string \<times> string) list \<Rightarrow> string option \<Rightarrow> string option \<Rightarrow> json \<Rightarrow> anchor_provenance \<Rightarrow>
   nat \<Rightarrow> nat \<Rightarrow> nat \<Rightarrow> string option \<Rightarrow> ws_exec \<Rightarrow> drive_result \<times> ws_exec" where
  "drive_turn env account forward_headers conn_key session_key body provenance anchors_left reconnects_left sid ts s =
     (case attempt_turn env body sid ts s of
        (None, s1) \<Rightarrow> (DrivePanic, s1)
      | (Some (TurnEnd, _, _), s1) \<Rightarrow>
          (Broken (ExStream ''WS turn produced no frames at all (unexpected end of stream before the first item)''), s1)
      | (Some (TurnBytes first, over, ts1), s1) \<Rightarrow>
          (Driven sid first, if over then s1 else s1\<lparr>wx_flights := (sid, ts1) # wx_flights s1\<rparr>)
      | (Some (TurnError e, _, ts1), s1) \<Rightarrow>
          (case classify_recovery e of
             StripAnchorAndResend \<Rightarrow>
               (if provenance = ClientProvided \<or> anchors_left = 0 then (Broken e, s1)
                else drive_turn env account forward_headers conn_key session_key body provenance (anchors_left - 1)
                       reconnects_left sid ts1 (put_socket sid (clear_anchor (wx_sockets s1 ! sid)) s1))
           | Reconnect \<Rightarrow>
               (if reconnects_left = 0 then (Broken e, s1)
                else (case connect_and_cache env account forward_headers conn_key (evict_conn conn_key s1) of
                        (Ready fresh, s2) \<Rightarrow>
                          drive_turn env account forward_headers conn_key session_key body provenance anchors_left
                            (reconnects_left - 1) fresh ts1 s2
                      | (UpgradeRequired, s2) \<Rightarrow>
                          (Broken e, start_account_cooldown env (ca_id account) (disable_session session_key s2))
                      | (ConnectFailed err, s2) \<Rightarrow> (Broken err, s2)))
           | SurfaceError \<Rightarrow> (Broken e, s1)))"
  by pat_completeness auto

termination
  by (relation "measure (\<lambda>(_, _, _, _, _, _, _, al, rl, _). al + rl)") auto

declare drive_turn.simps [simp del]

section \<open>The executor\<close>

definition materialize_body :: "'a codec_env_scheme \<Rightarrow> prepared_request \<Rightarrow> exec_error + json" where
  "materialize_body env req = (case pr_body req of
     Some body \<Rightarrow> Inr body
   | None \<Rightarrow> (case pr_raw_body req of
         Some raw \<Rightarrow> (case we_parse env raw of Some v \<Rightarrow> Inr v
             | None \<Rightarrow> Inl (ExUpstream ''WS executor requires a JSON request body to plan/send a delta''))
       | None \<Rightarrow> Inl (ExUpstream ''WS executor: PreparedRequest has neither body nor raw_body'')))"

definition seed_header :: "(string \<times> string) list \<Rightarrow> string \<times> string \<Rightarrow> (string \<times> json) list \<Rightarrow> (string \<times> json) list" where
  "seed_header forward_headers target kvs =
     (case List.find (\<lambda>(name, _). str_lower name = snd target) forward_headers of
        Some (_, value) \<Rightarrow> client_metadata_put (fst target) (JStr value) kvs | None \<Rightarrow> kvs)"

fun seed_trace_headers :: "(string \<times> string) list \<Rightarrow> json \<Rightarrow> json" where
  "seed_trace_headers forward_headers (JObj kvs) =
     JObj (foldl (\<lambda>acc target. seed_header forward_headers target acc) kvs
       [(''ws_request_header_traceparent'', ''traceparent''), (''ws_request_header_tracestate'', ''tracestate'')])"
| "seed_trace_headers _ body = body"

definition conn_key_of :: "'a codec_env_scheme \<Rightarrow> account_id \<Rightarrow> string \<Rightarrow> json \<Rightarrow> string option \<Rightarrow> string" where
  "conn_key_of env account sk body disc =
     (let base = account @ '':'' @ sk @ '':'' @ non_input_fingerprint env body in
      case disc of Some d \<Rightarrow> base @ '':'' @ we_sha env d | None \<Rightarrow> base)"

datatype exec_result = FellBack | Streaming nat string | Refused exec_error | ExecPanic

definition execute_ws ::
  "'a exec_env_scheme \<Rightarrow> prepared_request \<Rightarrow> core_account \<Rightarrow> request_ctx \<Rightarrow> ws_exec \<Rightarrow> exec_result \<times> ws_exec" where
  "execute_ws env req account ctx s =
     (let session_key = map_option sk_value (rc_session_key ctx) in
      if (case session_key of Some key \<Rightarrow> is_session_ws_disabled key s | None \<Rightarrow> False) then (FellBack, s)
      else if is_account_in_cooldown env (ca_id account) s then (FellBack, s)
      else case materialize_body env req of
        Inl e \<Rightarrow> (Refused e, s)
      | Inr raw_body \<Rightarrow>
          (let body = seed_trace_headers (pr_forward_headers req) raw_body;
               provenance = (if Option.bind (jget ''previous_response_id'' body) as_str \<noteq> None then ClientProvided else ProxyGenerated);
               conn_key = map_option (\<lambda>sk. conn_key_of env (ca_id account) sk body (rc_conn_discriminator ctx)) session_key
           in case connect_and_cache env account (pr_forward_headers req) conn_key s of
                (UpgradeRequired, s1) \<Rightarrow> (FellBack, start_account_cooldown env (ca_id account) (disable_session session_key s1))
              | (ConnectFailed e, s1) \<Rightarrow> (Refused e, s1)
              | (Ready sid, s1) \<Rightarrow>
                  (case drive_turn env account (pr_forward_headers req) conn_key session_key body provenance
                      (we_max_anchor_miss_retries env) (we_max_reconnect_retries env) sid None s1 of
                     (Driven sid' first, s2) \<Rightarrow> (Streaming sid' first, s2)
                   | (Broken e, s2) \<Rightarrow> (Refused e, s2)
                   | (DrivePanic, s2) \<Rightarrow> (ExecPanic, s2))))"

section \<open>The returned stream\<close>

text \<open>A later poll of a running stream, and the stream being dropped by its consumer.\<close>

definition poll_stream :: "'a codec_env_scheme \<Rightarrow> nat \<Rightarrow> string option \<Rightarrow> ws_exec \<Rightarrow> turn_item \<times> ws_exec" where
  "poll_stream env sid ts s =
     (let c = wx_sockets s ! sid; (item, over, c1, ts1) = read_item env (wc_inbox c) c ts; s1 = put_socket sid c1 s
      in (item, s1\<lparr>wx_flights := (if over then removeAll (sid, ts) (wx_flights s1)
                                  else (sid, ts1) # removeAll (sid, ts) (wx_flights s1))\<rparr>))"

definition drop_stream :: "nat \<Rightarrow> string option \<Rightarrow> ws_exec \<Rightarrow> ws_exec" where
  "drop_stream sid ts s = s\<lparr>wx_flights := removeAll (sid, ts) (wx_flights s)\<rparr>"

end
