(* ===== verification/Ws_Props.thy ===== *)
theory Ws_Props
  imports Ws_Executor
begin

text \<open>
  What the WebSocket transport keeps: an increment stands for the full request, a conversation is
  never cut short, a turn rides a socket of its own account, and recovery is bounded.
\<close>

section \<open>What an envelope stands for\<close>

definition anchor_of :: "json \<Rightarrow> string option" where
  "anchor_of envelope = Option.bind (jget ''previous_response_id'' envelope) as_str"

definition reply_of :: "'a ws_env_scheme \<Rightarrow> nat \<Rightarrow> json \<Rightarrow> ws_event list" where
  "reply_of env n envelope = (case we_send env n envelope of Inl _ \<Rightarrow> [] | Inr events \<Rightarrow> events)"

fun event_value :: "'a codec_env_scheme \<Rightarrow> ws_event \<Rightarrow> json option" where
  "event_value env (FrameText frame_text) = we_parse env frame_text"
| "event_value env _ = None"

definition completes :: "'a codec_env_scheme \<Rightarrow> ws_event \<Rightarrow> string option \<Rightarrow> bool" where
  "completes env ev r \<longleftrightarrow> (\<exists>v. event_value env ev = Some v \<and> classify v = CompletedFrame \<and> r = jpath_str [''response'', ''id''] v)"

definition completed_ids :: "'a codec_env_scheme \<Rightarrow> ws_event list \<Rightarrow> string set" where
  "completed_ids env events = {r. \<exists>ev \<in> set events. completes env ev (Some r)}"

text \<open>
  \<open>answered\<close> is, for a response id, the input of the request sent on a socket that was answered with
  it. An envelope without an anchor stands for its own input; one with an anchor stands for the input
  of the request answered there followed by its own.
\<close>

definition answer :: "'a ws_env_scheme \<Rightarrow> (string \<Rightarrow> json list option) \<Rightarrow> nat \<times> json \<times> json \<Rightarrow> string \<Rightarrow> json list option" where
  "answer env inputs entry r = (let (n, body, envelope) = entry in
     if r \<in> completed_ids env (reply_of env n envelope) then Some (input_items body) else inputs r)"

definition answered :: "'a ws_env_scheme \<Rightarrow> (nat \<times> json \<times> json) list \<Rightarrow> string \<Rightarrow> json list option" where
  "answered env sends = foldl (answer env) (\<lambda>_. None) sends"

definition stands_for :: "(string \<Rightarrow> json list option) \<Rightarrow> json \<Rightarrow> json list \<Rightarrow> bool" where
  "stands_for inputs envelope items \<longleftrightarrow> (case anchor_of envelope of
     None \<Rightarrow> input_items envelope = items
   | Some r \<Rightarrow> \<exists>before. inputs r = Some before \<and> before @ input_items envelope = items)"

lemma answered_snoc: "answered env (sends @ [entry]) = answer env (answered env sends) entry"
  by (simp add: answered_def)

section \<open>An increment stands for the whole request\<close>

lemma map_inj_on_eq: "inj_on f A \<Longrightarrow> set xs \<subseteq> A \<Longrightarrow> set ys \<subseteq> A \<Longrightarrow> map f xs = map f ys \<Longrightarrow> xs = ys"
  by (meson inj_on_map_eq_map inj_on_subset le_sup_iff)

text \<open>
  C23: Round trip of an increment. When the planner sends only the new items, anchored on the last
  response, then the items behind the anchor followed by the items of the envelope are exactly the
  input of the request, the envelope names that anchor, every other field of the request is in it
  unchanged, and those fields are the ones of the turn before: the client's next request is the turn
  before extended, and the envelope carries exactly the extension. What the upstream keeps for the
  anchor besides that input (the items of its own response) is not part of the statement. Item
  hashes must not collide among the items of the two turns, nor fingerprints of the two settings.
\<close>

theorem increment_restores_request:
  assumes "plan_request env (Some r) (Some (item_hashes env before)) (Some (non_input_fingerprint env before)) body =
      Incremental anchor suffix"
    and "build_response_create env now_ms body (Some anchor) suffix generate = Some envelope"
    and "inj_on (item_hash env) (set (input_items before) \<union> set (input_items body))"
    and "inj_on (\<lambda>fields. we_sha env (we_print env (JObj fields))) {present_fields before, present_fields body}"
  shows "anchor_of envelope = Some r \<and>
    input_items before @ input_items envelope = input_items body \<and> input_items envelope \<noteq> [] \<and>
    (\<forall>k \<in> set non_input_fields. jget k envelope = jget k body \<and> jget k envelope = jget k before)"
proof -
  let ?n = "length (input_items before)"
  from assms(1) have p: "anchor = r" "?n < length (input_items body)"
    "map (item_hash env) (take ?n (input_items body)) = map (item_hash env) (input_items before)"
    "non_input_fingerprint env before = non_input_fingerprint env body" "suffix = drop ?n (input_items body)"
    unfolding plan_Incremental by (auto simp: item_hashes_def)
  have t: "take ?n (input_items body) = input_items before"
    by (rule map_inj_on_eq [OF assms(3) _ _ p(3)]) (auto dest: in_set_takeD)
  have fields: "present_fields before = present_fields body"
    using p(4) assms(4) unfolding non_input_fingerprint_def by (auto dest: inj_onD)
  note b = built_fields [OF assms(2)] built_input [OF assms(2)] built_present_fields [OF assms(2)]
  have "\<forall>k \<in> set non_input_fields. jget k envelope = jget k body \<and> jget k envelope = jget k before"
    using present_fields_get [of _ envelope] present_fields_get [of _ body] present_fields_get [of _ before] fields b(5)
    by simp
  moreover have "input_items before @ suffix = input_items body" using append_take_drop_id [of ?n] t p(5) by metis
  moreover have "anchor_of envelope = Some r" using b(2) p(1) by (simp add: anchor_of_def)
  moreover have "suffix \<noteq> []" using p(2,5) by simp
  ultimately show ?thesis unfolding b(4) by blast
qed

definition plain_codec :: codec_env where
  "plain_codec = \<lparr>we_sha = (\<lambda>s. s), we_print = (\<lambda>v. case v of JStr s \<Rightarrow> s | _ \<Rightarrow> ''o''), we_parse = (\<lambda>_. None)\<rparr>"

definition says :: "string list \<Rightarrow> json" where
  "says items = JObj [(''input'', JArr (map JStr items)), (''model'', JStr ''m'')]"

theorem increment_restores_request_witness:
  "\<exists>envelope. build_response_create plain_codec 7 (says [''a'', ''b'']) (Some ''r1'') [JStr ''b''] None = Some envelope \<and>
     anchor_of envelope = Some ''r1'' \<and> [JStr ''a''] @ input_items envelope = [JStr ''a'', JStr ''b''] \<and>
     jget ''model'' envelope = Some (JStr ''m'')"
proof -
  have items: "input_items (says xs) = map JStr xs" for xs by (simp add: says_def input_items_def)
  have same: "present_fields (says xs) = [(''model'', JStr ''m'')]" for xs
    by (simp add: says_def present_fields_def non_input_fields_def)
  have fp: "non_input_fingerprint plain_codec (says [''a'']) = non_input_fingerprint plain_codec (says [''a'', ''b''])"
    by (simp add: non_input_fingerprint_def same)
  have plan: "plan_request plain_codec (Some ''r1'') (Some (item_hashes plain_codec (says [''a''])))
      (Some (non_input_fingerprint plain_codec (says [''a'']))) (says [''a'', ''b'']) = Incremental ''r1'' [JStr ''b'']"
    by (simp add: plan_Incremental items item_hashes_def fp)
  obtain envelope where b: "build_response_create plain_codec 7 (says [''a'', ''b'']) (Some ''r1'') [JStr ''b''] None = Some envelope"
    by (simp add: says_def)
  have "anchor_of envelope = Some ''r1'' \<and> input_items (says [''a'']) @ input_items envelope = input_items (says [''a'', ''b'']) \<and>
      input_items envelope \<noteq> [] \<and> (\<forall>k \<in> set non_input_fields. jget k envelope = jget k (says [''a'', ''b'']) \<and>
        jget k envelope = jget k (says [''a'']))"
    by (rule increment_restores_request [OF plan b])
      (auto simp: items same item_hash_def plain_codec_def inj_on_def)
  then have "anchor_of envelope = Some ''r1''" "map JStr [''a''] @ input_items envelope = map JStr [''a'', ''b'']"
    "jget ''model'' envelope = jget ''model'' (says [''a'', ''b''])"
    unfolding items by (blast, blast, simp add: non_input_fields_def)
  moreover have "jget ''model'' (says [''a'', ''b'']) = Some (JStr ''m'')" by (simp add: says_def)
  ultimately show ?thesis
    by (intro exI [of _ envelope] conjI b) simp_all
qed

section \<open>Reading a reply\<close>

text \<open>A reply in which only the last frame ends the turn.\<close>

definition silent :: "'a codec_env_scheme \<Rightarrow> ws_event \<Rightarrow> bool" where
  "silent env ev \<longleftrightarrow> (\<exists>frame_text. ev = FrameText frame_text) \<and>
     (case event_value env ev of None \<Rightarrow> True | Some v \<Rightarrow> classify v = EventFrame)"

fun one_turn :: "'a codec_env_scheme \<Rightarrow> ws_event list \<Rightarrow> bool" where
  "one_turn env [] \<longleftrightarrow> True"
| "one_turn env [ev] \<longleftrightarrow> True"
| "one_turn env (ev # rest) \<longleftrightarrow> silent env ev \<and> one_turn env rest"

lemma one_turn_Cons: "one_turn env (ev # rest) \<Longrightarrow> one_turn env rest \<and> (rest \<noteq> [] \<longrightarrow> silent env ev)"
  by (cases rest) auto

definition same_base :: "ws_conn \<Rightarrow> ws_conn \<Rightarrow> bool" where
  "same_base c c' \<longleftrightarrow> wc_last_response_id c' = wc_last_response_id c \<and> wc_last_item_hashes c' = wc_last_item_hashes c \<and>
     wc_sends c' = wc_sends c \<and> wc_account c' = wc_account c"

text \<open>What reading the next item leaves behind.\<close>

lemma read_item_spec:
  assumes "read_item env events c ts = (item, over, c', ts')" "wc_inbox c = events" "one_turn env events"
  shows "(\<not> over \<longrightarrow> (\<exists>read. events = read @ wc_inbox c') \<and> same_base c c' \<and> wc_pending c' = wc_pending c \<and>
            (\<exists>bytes. item = TurnBytes bytes)) \<and>
    (over \<longrightarrow> wc_inbox c' = [] \<and> wc_pending c' = None \<and>
       (same_base c c' \<or> (\<exists>ev v. ev \<in> set events \<and> event_value env ev = Some v \<and> classify v = CompletedFrame \<and>
          (\<exists>d. c' = commit_completed v d \<and> same_base c d \<and> wc_pending d = wc_pending c))))"
  using assms
proof (induction env events c ts rule: read_item.induct)
  case (1 env frame_text rest c ts)
  show ?case
  proof (cases "we_parse env frame_text")
    case None
    then show ?thesis
      using "1.IH"(1) "1.prems" one_turn_Cons [of env "FrameText frame_text" rest]
      by (fastforce simp: same_base_def)
  next
    case (Some event)
    let ?c = "c\<lparr>wc_inbox := rest\<rparr>"
    obtain it where it: "on_frame env frame_text event ?c = (Some it, classify event \<noteq> EventFrame,
        (if classify event = CompletedFrame then commit_completed event ?c
         else if classify event = EventFrame then ?c else drop_pending ?c))"
      using on_frame_parsed [OF Some, of ?c] by blast
    have r: "item = it" "over \<longleftrightarrow> classify event \<noteq> EventFrame"
      "c' = (if classify event = CompletedFrame then commit_completed event ?c
         else if classify event = EventFrame then ?c else drop_pending ?c)"
      using "1.prems"(1) Some it by (auto simp: Let_def)
    have rest: "rest = []" if over
      using "1.prems"(3) one_turn_Cons [of env "FrameText frame_text" rest] that r(2) Some
      by (auto simp: silent_def)
    show ?thesis
    proof (cases over)
      case True
      have "wc_inbox c' = []" "wc_pending c' = None"
        using r rest [OF True] True by (auto simp: commit_completed_def drop_pending_def Let_def split: option.split)
      moreover have "same_base c c' \<or> (\<exists>ev v. ev \<in> set (FrameText frame_text # rest) \<and> event_value env ev = Some v \<and>
          classify v = CompletedFrame \<and> (\<exists>d. c' = commit_completed v d \<and> same_base c d \<and> wc_pending d = wc_pending c))"
      proof (cases "classify event = CompletedFrame")
        case completed: True
        then have "c' = commit_completed event ?c" using r(3) by simp
        moreover have "same_base c ?c" "wc_pending ?c = wc_pending c" by (simp_all add: same_base_def)
        ultimately have d: "\<exists>d. c' = commit_completed event d \<and> same_base c d \<and> wc_pending d = wc_pending c" by blast
        show ?thesis
          by (rule disjI2, rule exI [of _ "FrameText frame_text"], rule exI [of _ event]) (simp add: Some completed d)
      next
        case False
        then show ?thesis using r(2,3) True by (simp add: same_base_def drop_pending_def)
      qed
      ultimately show ?thesis using True by blast
    next
      case False
      moreover from this have "\<exists>bytes. it = TurnBytes bytes"
        using it r(2) Some by (auto simp: on_frame_def frame_to_sse_def)
      ultimately show ?thesis using r by (auto simp: same_base_def)
    qed
  qed
qed (auto simp: on_read_error_def same_base_def drop_pending_def silent_def dest!: one_turn_Cons)


section \<open>The invariant of a connection\<close>

text \<open>
  What the replies are relied on for: one terminal frame at the end of each reply, a response id in
  every completion, and no id given twice.
\<close>

definition well_behaved :: "'a ws_env_scheme \<Rightarrow> bool" where
  "well_behaved env \<longleftrightarrow>
     (\<forall>n e. one_turn env (reply_of env n e)) \<and>
     (\<forall>n e. \<forall>ev \<in> set (reply_of env n e). \<not> completes env ev None) \<and>
     (\<forall>n m e e' r. r \<in> completed_ids env (reply_of env n e) \<longrightarrow> r \<in> completed_ids env (reply_of env m e') \<longrightarrow> n = m)"

definition base_ok :: "'a codec_env_scheme \<Rightarrow> json set \<Rightarrow> (string \<Rightarrow> json list option) \<Rightarrow> ws_conn \<Rightarrow> bool" where
  "base_ok env items store c \<longleftrightarrow> (\<forall>a hashes. wc_last_response_id c = Some a \<longrightarrow> wc_last_item_hashes c = Some hashes \<longrightarrow>
     (\<exists>before. store a = Some before \<and> map (item_hash env) before = hashes \<and> set before \<subseteq> items))"

definition sends_ok :: "'a ws_env_scheme \<Rightarrow> json set \<Rightarrow> (nat \<times> json \<times> json) list \<Rightarrow> bool" where
  "sends_ok env items sends \<longleftrightarrow> (\<forall>pre n body envelope post. sends = pre @ (n, body, envelope) # post \<longrightarrow>
     stands_for (answered env pre) envelope (input_items body) \<and> set (input_items body) \<subseteq> items)"

definition in_flight :: "'a ws_env_scheme \<Rightarrow> json set \<Rightarrow> ws_conn \<Rightarrow> bool" where
  "in_flight env items c \<longleftrightarrow> (\<exists>pre n body envelope p. wc_sends c = pre @ [(n, body, envelope)] \<and> wc_pending c = Some p \<and>
     pb_item_hashes p = map (item_hash env) (input_items body) \<and> one_turn env (wc_inbox c) \<and>
     set (wc_inbox c) \<subseteq> set (reply_of env n envelope) \<and> base_ok env items (answered env pre) c)"

definition conn_ok :: "'a ws_env_scheme \<Rightarrow> json set \<Rightarrow> bool \<Rightarrow> ws_conn \<Rightarrow> bool" where
  "conn_ok env items running c \<longleftrightarrow> sends_ok env items (wc_sends c) \<and> sorted_wrt (<) (map fst (wc_sends c)) \<and>
     (if running then in_flight env items c
      else wc_inbox c = [] \<and> base_ok env items (answered env (wc_sends c)) c)"

lemma sends_ok_snoc:
  assumes "sends_ok env items sends" "stands_for (answered env sends) envelope (input_items body)"
    "set (input_items body) \<subseteq> items"
  shows "sends_ok env items (sends @ [(n, body, envelope)])"
  unfolding sends_ok_def
proof (intro allI impI)
  fix pre m b e post
  assume "sends @ [(n, body, envelope)] = pre @ (m, b, e) # post"
  then consider "pre = sends" "(m, b, e) = (n, body, envelope)" | post' where "sends = pre @ (m, b, e) # post'"
    by (cases post rule: rev_cases) auto
  then show "stands_for (answered env pre) e (input_items b) \<and> set (input_items b) \<subseteq> items"
  proof cases
    case 2
    then show ?thesis using assms(1) unfolding sends_ok_def by blast
  qed (use assms(2,3) in simp)
qed

lemma answered_from:
  "answered env sends a = Some before \<Longrightarrow>
     \<exists>(n, body, e) \<in> set sends. a \<in> completed_ids env (reply_of env n e) \<and> input_items body = before"
proof (induction sends rule: rev_induct)
  case Nil
  then show ?case by (simp add: answered_def)
next
  case (snoc entry sends)
  then show ?case by (cases entry) (auto simp: answered_snoc answer_def split: if_splits)
qed

text \<open>An anchor known before survives the next request, whose reply gives a new id.\<close>

lemma base_ok_served:
  assumes "well_behaved env" "sorted_wrt (<) (map fst (pre @ [(n, body, envelope)]))"
    "base_ok env items (answered env pre) c"
  shows "base_ok env items (answered env (pre @ [(n, body, envelope)])) c"
  unfolding base_ok_def
proof (intro allI impI)
  fix a hashes
  assume "wc_last_response_id c = Some a" "wc_last_item_hashes c = Some hashes"
  then obtain before where b: "answered env pre a = Some before" "map (item_hash env) before = hashes" "set before \<subseteq> items"
    using assms(3) unfolding base_ok_def by blast
  obtain m b' e where m: "(m, b', e) \<in> set pre" "a \<in> completed_ids env (reply_of env m e)" using answered_from [OF b(1)] by fast
  have "m < n" using assms(2) m(1) by (force simp: sorted_wrt_append)
  moreover have "m = n" if "a \<in> completed_ids env (reply_of env n envelope)"
    using assms(1) m(2) that unfolding well_behaved_def by blast
  ultimately have "a \<notin> completed_ids env (reply_of env n envelope)" by blast
  then show "\<exists>before. answered env (pre @ [(n, body, envelope)]) a = Some before \<and>
      map (item_hash env) before = hashes \<and> set before \<subseteq> items"
    using b by (simp add: answered_snoc answer_def)
qed

lemma base_ok_cong: "same_base c c' \<Longrightarrow> base_ok env items store c' = base_ok env items store c"
  by (simp add: base_ok_def same_base_def)

lemma in_flight_mono:
  assumes "in_flight env items c" "wc_inbox c = read @ wc_inbox c'" "same_base c c'" "wc_pending c' = wc_pending c"
  shows "in_flight env items c'"
proof -
  have drop: "one_turn env (read @ rest) \<Longrightarrow> one_turn env rest" for rest
    by (induction read) (auto dest: one_turn_Cons)
  obtain pre n body envelope p where f: "wc_sends c = pre @ [(n, body, envelope)]" "wc_pending c = Some p"
    "pb_item_hashes p = map (item_hash env) (input_items body)" "one_turn env (wc_inbox c)"
    "set (wc_inbox c) \<subseteq> set (reply_of env n envelope)" "base_ok env items (answered env pre) c"
    using assms(1) unfolding in_flight_def by blast
  show ?thesis
    unfolding in_flight_def base_ok_cong [OF assms(3)]
    using f assms(2,4) drop [of "wc_inbox c'"] assms(3)
    by (intro exI [of _ pre] exI [of _ n] exI [of _ body] exI [of _ envelope] exI [of _ p]) (auto simp: same_base_def)
qed

text \<open>Reading on keeps the invariant, whether the turn goes on or ends.\<close>

lemma read_ok:
  assumes w: "well_behaved env" and ok: "conn_ok env items True c"
    and r: "read_item env (wc_inbox c) c ts = (item, over, c', ts')"
  shows "conn_ok env items (\<not> over) c' \<and> (\<not> over \<longrightarrow> (\<exists>bytes. item = TurnBytes bytes)) \<and>
    wc_sends c' = wc_sends c \<and> wc_account c' = wc_account c"
proof -
  obtain pre n body envelope p where f: "wc_sends c = pre @ [(n, body, envelope)]" "wc_pending c = Some p"
    "pb_item_hashes p = map (item_hash env) (input_items body)" "one_turn env (wc_inbox c)"
    "set (wc_inbox c) \<subseteq> set (reply_of env n envelope)" "base_ok env items (answered env pre) c"
    using ok unfolding conn_ok_def in_flight_def by auto
  have s: "sends_ok env items (wc_sends c)" "sorted_wrt (<) (map fst (wc_sends c))" using ok by (auto simp: conn_ok_def)
  note spec = read_item_spec [OF r refl f(4)]
  show ?thesis
  proof (cases over)
    case False
    then obtain read where read: "wc_inbox c = read @ wc_inbox c'" "same_base c c'" "wc_pending c' = wc_pending c"
      "\<exists>bytes. item = TurnBytes bytes" using spec by blast
    have "in_flight env items c" using ok by (simp add: conn_ok_def)
    then show ?thesis using in_flight_mono [OF _ read(1-3)] s False read(2,4) by (auto simp: conn_ok_def same_base_def)
  next
    case True
    have served: "base_ok env items (answered env (wc_sends c)) c"
      using base_ok_served [OF w _ f(6)] s(2) unfolding f(1) by blast
    have inbox: "wc_inbox c' = []" using spec True by blast
    consider "same_base c c'" | ev v d where "ev \<in> set (wc_inbox c)" "event_value env ev = Some v" "classify v = CompletedFrame"
      "c' = commit_completed v d" "same_base c d" "wc_pending d = wc_pending c" using spec True by blast
    then have "base_ok env items (answered env (wc_sends c)) c' \<and> wc_sends c' = wc_sends c \<and> wc_account c' = wc_account c"
    proof cases
      case 1
      then show ?thesis using served base_ok_cong [OF 1] by (auto simp: same_base_def)
    next
      case 2
      have "\<not> completes env ev None" using w 2(1) f(5) unfolding well_behaved_def by blast
      then obtain a where a: "jpath_str [''response'', ''id''] v = Some a"
        using 2(2,3) unfolding completes_def by (cases "jpath_str [''response'', ''id''] v") auto
      then have "a \<in> completed_ids env (reply_of env n envelope)"
        using 2(1-3) f(5) unfolding completed_ids_def completes_def by (auto intro!: bexI [of _ ev])
      moreover have "stands_for (answered env pre) envelope (input_items body)" "set (input_items body) \<subseteq> items"
        using s(1) unfolding sends_ok_def f(1) by blast+
      ultimately have "answered env (wc_sends c) a = Some (input_items body)"
        by (simp add: f(1) answered_snoc answer_def)
      then show ?thesis
        using 2(4-6) a f(2,3) \<open>set (input_items body) \<subseteq> items\<close>
        by (simp add: commit_completed_def base_ok_def same_base_def)
    qed
    then show ?thesis using True inbox s by (simp add: conn_ok_def)
  qed
qed


section \<open>Sending keeps the invariant\<close>

definition unanchored :: "json \<Rightarrow> bool" where
  "unanchored body \<longleftrightarrow> anchor_of body = None"

lemma put_turn_state_get: "k \<noteq> ''client_metadata'' \<Longrightarrow> jget k (put_turn_state ts envelope) = jget k envelope"
  by (auto simp: put_turn_state_def client_metadata_put_get split: option.split json.split)

lemma input_items_cong: "jget ''input'' a = jget ''input'' b \<Longrightarrow> input_items a = input_items b"
  by (simp add: input_items_def)

lemma planned_envelope:
  assumes "unanchored body" "base_ok env items store c" "inj_on (item_hash env) items" "set (input_items body) \<subseteq> items"
    and "plan_and_build_locked env now_ms c body ts = Some envelope"
  shows "stands_for store envelope (input_items body)"
    and "accumulated_hashes env envelope c = map (item_hash env) (input_items body)"
proof -
  obtain built where built: "envelope = put_turn_state ts built"
    "(case plan_request_for_conn env c body of
       Incremental anchor suffix \<Rightarrow> build_response_create env now_ms body (Some anchor) suffix (Option.bind (jget ''generate'' body) as_bool)
     | FullPlan \<Rightarrow> build_response_create env now_ms body None (full_input body) (Option.bind (jget ''generate'' body) as_bool)) = Some built"
    using assms(1,5) by (auto simp: plan_and_build_locked_def unanchored_def anchor_of_def Let_def)
  have same: "input_items envelope = input_items built" "jget ''previous_response_id'' envelope = jget ''previous_response_id'' built"
    unfolding built(1) by (auto intro!: input_items_cong simp: put_turn_state_get)
  have "stands_for store envelope (input_items body) \<and>
      accumulated_hashes env envelope c = map (item_hash env) (input_items body)"
  proof (cases "plan_request_for_conn env c body")
    case FullPlan
    then have b: "build_response_create env now_ms body None (full_input body) (Option.bind (jget ''generate'' body) as_bool) = Some built"
      using built(2) by simp
    have "input_items built = input_items body" using built_input [OF b] by (simp add: full_input_def input_items_def)
    then show ?thesis using built_fields(2) [OF b] same
      by (simp add: stands_for_def anchor_of_def accumulated_hashes_def item_hashes_def)
  next
    case (Incremental anchor suffix)
    then have b: "build_response_create env now_ms body (Some anchor) suffix (Option.bind (jget ''generate'' body) as_bool) = Some built"
      using built(2) by simp
    obtain hashes where h: "wc_last_response_id c = Some anchor" "wc_last_item_hashes c = Some hashes"
      "map (item_hash env) (take (length hashes) (input_items body)) = hashes" "suffix = drop (length hashes) (input_items body)"
      using Incremental unfolding plan_request_for_conn_def plan_Incremental by blast
    obtain before where before: "store anchor = Some before" "map (item_hash env) before = hashes" "set before \<subseteq> items"
      using assms(2) h(1,2) unfolding base_ok_def by blast
    have "before = take (length hashes) (input_items body)"
      by (rule map_inj_on_eq [OF assms(3) before(3)]) (use assms(4) h(3) before(2) in \<open>auto dest: in_set_takeD\<close>)
    then have whole: "before @ suffix = input_items body" using h(4) by simp
    have i: "input_items envelope = suffix" using built_input [OF b] same by simp
    have a: "jget ''previous_response_id'' envelope = Some (JStr anchor)" using built_fields(2) [OF b] same by simp
    show ?thesis
      using a i before(1,2) whole h(2)
      by (auto simp: stands_for_def anchor_of_def accumulated_hashes_def item_hashes_def map_append [symmetric] simp del: map_append)
  qed
  then show "stands_for store envelope (input_items body)"
    "accumulated_hashes env envelope c = map (item_hash env) (input_items body)" by blast+
qed

text \<open>One attempt on a free socket.\<close>

lemma attempt_ok:
  assumes w: "well_behaved env" and inj: "inj_on (item_hash env) items"
    and body: "unanchored body" "set (input_items body) \<subseteq> items"
    and sid: "sid < length (wx_sockets s)" "conn_ok env items False (wx_sockets s ! sid)"
      "\<forall>entry \<in> set (wc_sends (wx_sockets s ! sid)). fst entry < wx_tick s"
    and a: "attempt_turn env body sid ts s = (res, s')"
  shows "conn_ok env items (\<exists>bytes ts1. res = Some (TurnBytes bytes, False, ts1)) (wx_sockets s' ! sid)"
    and "\<forall>entry \<in> set (wc_sends (wx_sockets s' ! sid)). fst entry < wx_tick s'"
    and "wx_tick s \<le> wx_tick s'"
    and "\<exists>c. wc_account c = wc_account (wx_sockets s ! sid) \<and> s' = put_socket sid c (s\<lparr>wx_tick := wx_tick s'\<rparr>)"
proof -
  let ?c = "wx_sockets s ! sid"
  let ?c1 = "?c\<lparr>wc_upgrade_turn_state := None\<rparr>"
  let ?ts = "opt_or ts (wc_upgrade_turn_state ?c)"
  have c1: "conn_ok env items False ?c1" using sid(2) by (simp add: conn_ok_def base_ok_def)
  have "conn_ok env items (\<exists>bytes ts1. res = Some (TurnBytes bytes, False, ts1)) (wx_sockets s' ! sid) \<and>
    (\<forall>entry \<in> set (wc_sends (wx_sockets s' ! sid)). fst entry < wx_tick s') \<and> wx_tick s \<le> wx_tick s' \<and>
    (\<exists>c. wc_account c = wc_account ?c \<and> s' = put_socket sid c (s\<lparr>wx_tick := wx_tick s'\<rparr>))"
  proof (cases "plan_and_build_locked env (we_now_ms env (wx_tick s)) ?c1 body ?ts")
    case None
    then have "res = None" "s' = put_socket sid ?c1 s" using a by (auto simp: attempt_turn_def Let_def)
    then show ?thesis using c1 sid by (auto simp: put_socket_def intro!: exI [of _ ?c1])
  next
    case (Some envelope)
    let ?sends = "wc_sends ?c @ [(wx_tick s, body, envelope)]"
    let ?c2 = "?c1\<lparr>wc_sends := ?sends\<rparr>"
    obtain item over c3 ts2 where f: "first_item env (wx_tick s) envelope ?c2 ?ts = (item, over, c3, ts2)"
      by (cases "first_item env (wx_tick s) envelope ?c2 ?ts") auto
    have res: "res = Some (item, over, ts2)" "s' = put_socket sid c3 (s\<lparr>wx_tick := wx_tick s + 1\<rparr>)"
      using a Some f by (auto simp: attempt_turn_def Let_def)
    have base: "base_ok env items (answered env (wc_sends ?c)) ?c1" using c1 by (simp add: conn_ok_def)
    note planned = planned_envelope [OF body(1) base inj body(2) Some]
    have s2: "sends_ok env items ?sends" "sorted_wrt (<) (map fst ?sends)"
      using sends_ok_snoc [OF _ planned(1) body(2)] sid(2,3) by (auto simp: conn_ok_def sorted_wrt_append)
    have base2: "base_ok env items (answered env (wc_sends ?c)) ?c2" using base by (simp add: base_ok_def)
    have "conn_ok env items (\<not> over) c3 \<and> (\<not> over \<longrightarrow> (\<exists>bytes. item = TurnBytes bytes)) \<and> wc_sends c3 = ?sends \<and>
        wc_account c3 = wc_account ?c"
    proof (cases "we_send env (wx_tick s) envelope")
      case (Inl msg)
      then have "over" "c3 = ?c2\<lparr>wc_closed := True\<rparr>" using f by (auto simp: first_item_def send_and_track_def)
      then show ?thesis
        using s2 base_ok_served [OF w s2(2) base2] c1 by (simp add: conn_ok_def base_ok_def)
    next
      case (Inr events)
      let ?full = "accumulated_hashes env envelope ?c2"
      let ?p = "\<lparr>pb_input_count = length ?full mod 4294967296, pb_item_hashes = ?full,
        pb_fingerprint = non_input_fingerprint env envelope\<rparr>"
      let ?c4 = "?c2\<lparr>wc_inbox := events, wc_pending := Some ?p\<rparr>"
      have p: "pb_item_hashes ?p = ?full" "read_item env (wc_inbox ?c4) ?c4 ?ts = (item, over, c3, ts2)"
        using f c1 Inr by (auto simp: first_item_def send_and_track_def conn_ok_def Let_def)
      have events: "events = reply_of env (wx_tick s) envelope" by (simp add: reply_of_def Inr)
      have "one_turn env events" using w unfolding events well_behaved_def by blast
      moreover have "pb_item_hashes ?p = map (item_hash env) (input_items body)"
        using p(1) planned(2) by (simp add: accumulated_hashes_def)
      moreover have "base_ok env items (answered env (wc_sends ?c)) ?c4" using base by (simp add: base_ok_def)
      ultimately have "in_flight env items ?c4" unfolding in_flight_def using events by auto
      then have "conn_ok env items True ?c4" using s2 by (simp add: conn_ok_def)
      from read_ok [OF w this p(2)] show ?thesis by simp
    qed
    then show ?thesis using res sid by (auto simp: put_socket_def)
  qed
  then show "conn_ok env items (\<exists>bytes ts1. res = Some (TurnBytes bytes, False, ts1)) (wx_sockets s' ! sid)"
    "\<forall>entry \<in> set (wc_sends (wx_sockets s' ! sid)). fst entry < wx_tick s'" "wx_tick s \<le> wx_tick s'"
    "\<exists>c. wc_account c = wc_account (wx_sockets s ! sid) \<and> s' = put_socket sid c (s\<lparr>wx_tick := wx_tick s'\<rparr>)" by blast+
qed


section \<open>The invariant of the executor\<close>

definition exec_ok :: "'a exec_env_scheme \<Rightarrow> json set \<Rightarrow> ws_exec \<Rightarrow> bool" where
  "exec_ok env items s \<longleftrightarrow>
     (\<forall>sid < length (wx_sockets s). conn_ok env items (held s sid) (wx_sockets s ! sid) \<and>
        (\<forall>entry \<in> set (wc_sends (wx_sockets s ! sid)). fst entry < wx_tick s)) \<and>
     (\<forall>f \<in> set (wx_flights s). fst f < length (wx_sockets s)) \<and> distinct (map fst (wx_flights s)) \<and>
     tbl_ok (wx_conns s) \<and> (\<forall>k e. tbl_get (wx_conns s) k = Some e \<longrightarrow> cc_socket e < length (wx_sockets s))"

definition socket_free :: "string option \<Rightarrow> ws_exec \<Rightarrow> bool" where
  "socket_free key s \<longleftrightarrow> (\<forall>k e. key = Some k \<longrightarrow> tbl_get (wx_conns s) k = Some e \<longrightarrow> \<not> held s (cc_socket e))"

lemma exec_okD:
  assumes "exec_ok env items s"
  shows "sid < length (wx_sockets s) \<Longrightarrow> conn_ok env items (held s sid) (wx_sockets s ! sid)"
    "sid < length (wx_sockets s) \<Longrightarrow> entry \<in> set (wc_sends (wx_sockets s ! sid)) \<Longrightarrow> fst entry < wx_tick s"
    "f \<in> set (wx_flights s) \<Longrightarrow> fst f < length (wx_sockets s)" "distinct (map fst (wx_flights s))"
    "tbl_ok (wx_conns s)" "tbl_get (wx_conns s) k = Some e \<Longrightarrow> cc_socket e < length (wx_sockets s)"
  using assms unfolding exec_ok_def by blast+

lemma conn_ok_fresh: "conn_ok env items False (fresh_conn k token)"
  by (simp add: conn_ok_def fresh_conn_def sends_ok_def base_ok_def)

definition grows :: "ws_exec \<Rightarrow> ws_exec \<Rightarrow> bool" where
  "grows s s' \<longleftrightarrow> wx_flights s' = wx_flights s \<and> wx_tick s \<le> wx_tick s' \<and>
     (\<exists>fresh. wx_sockets s' = wx_sockets s @ fresh \<and> (\<forall>c \<in> set fresh. \<exists>k token. c = fresh_conn k token))"

lemma exec_ok_grow:
  assumes ok: "exec_ok env items s" and g: "grows s s'" "tbl_ok (wx_conns s')"
    "\<And>k e. tbl_get (wx_conns s') k = Some e \<Longrightarrow> cc_socket e < length (wx_sockets s')"
  shows "exec_ok env items s'"
proof -
  obtain fresh where f: "wx_sockets s' = wx_sockets s @ fresh" "\<forall>c \<in> set fresh. \<exists>k token. c = fresh_conn k token"
    and s': "wx_flights s' = wx_flights s" "wx_tick s \<le> wx_tick s'" using g(1) unfolding grows_def by blast
  have held: "held s' sid = held s sid" for sid using s'(1) by (simp add: held_def)
  have new: "\<not> held s sid" if "\<not> sid < length (wx_sockets s)" for sid
    using exec_okD(3) [OF ok] that by (fastforce simp: held_def)
  have "conn_ok env items (held s' sid) (wx_sockets s' ! sid) \<and>
      (\<forall>entry \<in> set (wc_sends (wx_sockets s' ! sid)). fst entry < wx_tick s')" if "sid < length (wx_sockets s')" for sid
  proof (cases "sid < length (wx_sockets s)")
    case True
    then show ?thesis
      using exec_okD(1,2) [OF ok True] s'(2) f(1) held by (auto simp: nth_append intro: less_le_trans)
  next
    case False
    then have "wx_sockets s' ! sid \<in> set fresh" using that f(1) by (simp add: nth_append)
    then obtain k token where "wx_sockets s' ! sid = fresh_conn k token" using f(2) by blast
    then show ?thesis using new [OF False] held conn_ok_fresh by (simp add: fresh_conn_def)
  qed
  moreover have "\<forall>x \<in> set (wx_flights s'). fst x < length (wx_sockets s')"
    using exec_okD(3) [OF ok] f(1) s'(1) by fastforce
  moreover have "distinct (map fst (wx_flights s'))" using exec_okD(4) [OF ok] s'(1) by simp
  ultimately show ?thesis using g(2,3) unfolding exec_ok_def by fast
qed

text \<open>Bookkeeping that touches neither sockets nor streams.\<close>

lemma exec_ok_frame:
  assumes "exec_ok env items s" "wx_sockets s' = wx_sockets s" "wx_flights s' = wx_flights s" "wx_tick s \<le> wx_tick s'"
    and "tbl_ok (wx_conns s')" "\<And>k e. tbl_get (wx_conns s') k = Some e \<Longrightarrow> cc_socket e < length (wx_sockets s)"
  shows "exec_ok env items s'"
  by (rule exec_ok_grow [OF assms(1)]) (use assms in \<open>auto simp: grows_def\<close>)

lemma exec_ok_disable: "exec_ok env items s \<Longrightarrow> exec_ok env items (disable_session key s)"
  by (cases key; rule exec_ok_frame [of env items s]) (auto simp: disable_session_def exec_ok_def)

lemma exec_ok_cooldown: "exec_ok env items s \<Longrightarrow> exec_ok env items (start_account_cooldown env k s)"
  by (rule exec_ok_frame [of env items s]) (auto simp: start_account_cooldown_def exec_ok_def)

lemma exec_ok_evict: "exec_ok env items s \<Longrightarrow> exec_ok env items (evict_conn key s)"
  by (cases key; rule exec_ok_frame [of env items s]) (auto simp: evict_conn_def exec_ok_def tbl_simps split: if_splits)

lemma reap_get:
  "tbl_ok (wx_conns s) \<Longrightarrow> tbl_get (wx_conns (reap_idle env ttl s)) k = Some e \<Longrightarrow> tbl_get (wx_conns s) k = Some e"
  by (auto simp: reap_idle_def tbl_simps opt_filter_def split: option.splits if_splits)

lemma exec_ok_reap: "exec_ok env items s \<Longrightarrow> exec_ok env items (reap_idle env ttl s)"
proof (rule exec_ok_frame [of env items s])
  assume ok: "exec_ok env items s"
  show "tbl_ok (wx_conns (reap_idle env ttl s))" using exec_okD(5) [OF ok] by (simp add: reap_idle_def)
  show "tbl_get (wx_conns (reap_idle env ttl s)) k = Some e \<Longrightarrow> cc_socket e < length (wx_sockets s)" for k e
    using reap_get [OF exec_okD(5) [OF ok]] exec_okD(6) [OF ok] by blast
qed (auto simp: reap_idle_def)

lemma dial_fresh_ok:
  assumes "exec_ok env items s" "dial_fresh env account headers key s = (res, s')"
  shows "exec_ok env items s' \<and> grows s s' \<and>
    (\<forall>sid. res = Ready sid \<longrightarrow> sid < length (wx_sockets s') \<and> \<not> held s' sid \<and> wc_account (wx_sockets s' ! sid) = ca_id account)"
proof -
  have free: "\<not> held s (length (wx_sockets s))" using exec_okD(3) [OF assms(1)] by (fastforce simp: held_def)
  have t: "tbl_ok (wx_conns s)" "\<And>k e. tbl_get (wx_conns s) k = Some e \<Longrightarrow> cc_socket e < length (wx_sockets s)"
    using exec_okD(5,6) [OF assms(1)] by blast+
  have s': "grows s s'" "tbl_ok (wx_conns s')"
    "tbl_get (wx_conns s') k = Some e \<Longrightarrow> cc_socket e < length (wx_sockets s')"
    "res = Ready sid \<Longrightarrow> sid < length (wx_sockets s') \<and> sid = length (wx_sockets s) \<and> wc_account (wx_sockets s' ! sid) = ca_id account"
    for k e sid
    using assms(2) t
    by (auto simp: dial_fresh_def grows_def Let_def tbl_simps fresh_conn_def less_SucI split: dial_outcome.splits option.splits if_splits)
  have "held s' sid = held s sid" for sid using s'(1) by (simp add: held_def grows_def)
  then show ?thesis using exec_ok_grow [OF assms(1) s'(1,2)] s' free by blast
qed

lemma connect_ok:
  assumes ok: "exec_ok env items s" and free: "socket_free key s"
    and c: "connect_and_cache env account headers key s = (res, s')"
  shows "exec_ok env items s' \<and> grows s s' \<and> (\<forall>sid. res = Ready sid \<longrightarrow> sid < length (wx_sockets s') \<and> \<not> held s' sid)"
proof -
  let ?s = "reap_idle env ws_conn_idle_ttl s"
  note okr = exec_ok_reap [OF ok, of ws_conn_idle_ttl]
  have gr: "grows s ?s" "\<And>sid. held ?s sid = held s sid" by (auto simp: grows_def reap_idle_def held_def)
  have trans: "grows s s'" if "grows ?s s'" using gr(1) that by (auto simp: grows_def reap_idle_def)
  show ?thesis
  proof (cases "Option.bind key (\<lambda>k. map_option (Pair k) (tbl_get (wx_conns ?s) k))")
    case None
    then show ?thesis using c dial_fresh_ok [OF okr] trans by (auto simp: connect_and_cache_def Let_def)
  next
    case (Some ke)
    then obtain k e where k: "key = Some k" "tbl_get (wx_conns ?s) k = Some e" "ke = (k, e)"
      by (auto simp: bind_eq_Some_conv)
    have e: "cc_socket e < length (wx_sockets ?s)" using exec_okD(6) [OF okr k(2)] .
    have nh: "\<not> held ?s (cc_socket e)"
      using free k(1) reap_get [OF exec_okD(5) [OF ok] k(2)] gr(2) by (auto simp: socket_free_def)
    show ?thesis
    proof (cases "wc_closed (wx_sockets ?s ! cc_socket e)")
      case True
      let ?s2 = "?s\<lparr>wx_conns := tbl_del (wx_conns ?s) k\<rparr>"
      have ok2: "exec_ok env items ?s2"
        by (rule exec_ok_frame [OF okr]) (use exec_okD(5,6) [OF okr] in \<open>auto simp: tbl_simps split: if_splits\<close>)
      have d: "dial_fresh env account headers key ?s2 = (res, s')"
        using c k Some True by (simp add: connect_and_cache_def Let_def)
      have "grows ?s s'" using dial_fresh_ok [OF ok2 d] by (auto simp: grows_def)
      then show ?thesis using dial_fresh_ok [OF ok2 d] trans by blast
    next
      case False
      then have r: "res = Ready (cc_socket e)"
        "s' = ?s\<lparr>wx_conns := tbl_put (wx_conns ?s) k (e\<lparr>cc_last_used := now_of env ?s\<rparr>)\<rparr>"
        using c k Some by (auto simp: connect_and_cache_def Let_def)
      have "exec_ok env items s'"
        unfolding r(2) by (rule exec_ok_frame [OF okr]) (use exec_okD(5,6) [OF okr] e in \<open>auto simp: tbl_simps split: if_splits\<close>)
      moreover have "grows s s'" using gr(1) r(2) by (auto simp: grows_def reap_idle_def)
      ultimately show ?thesis using r e nh by (auto simp: held_def)
    qed
  qed
qed


lemma exec_ok_put:
  assumes ok: "exec_ok env items s" and sid: "sid < length (wx_sockets s)"
    and c: "conn_ok env items running c" "\<forall>entry \<in> set (wc_sends c). fst entry < tick" "wx_tick s \<le> tick"
    and fl: "set flights \<subseteq> insert (sid, ts) (set (wx_flights s))" "distinct (map fst flights)"
      "running \<longleftrightarrow> sid \<in> fst ` set flights" "\<And>j. j \<noteq> sid \<Longrightarrow> j \<in> fst ` set flights \<longleftrightarrow> held s j"
  shows "exec_ok env items ((put_socket sid c s)\<lparr>wx_tick := tick, wx_flights := flights\<rparr>)" (is "exec_ok env items ?s")
proof -
  have "conn_ok env items (held ?s j) (wx_sockets ?s ! j) \<and> (\<forall>entry \<in> set (wc_sends (wx_sockets ?s ! j)). fst entry < wx_tick ?s)"
    if "j < length (wx_sockets ?s)" for j
  proof (cases "j = sid")
    case True
    then show ?thesis using c sid fl(3) by (simp add: held_def put_socket_def)
  next
    case False
    then have "held ?s j = held s j" using fl(4) by (simp add: held_def)
    moreover have "wx_sockets ?s ! j = wx_sockets s ! j" "j < length (wx_sockets s)" using False that by (simp_all add: put_socket_def)
    ultimately show ?thesis using exec_okD(1,2) [OF ok, of j] c(3) by (auto intro: less_le_trans)
  qed
  moreover have "\<forall>f \<in> set flights. fst f < length (wx_sockets s)" using fl(1) exec_okD(3) [OF ok] sid by fastforce
  moreover have "\<forall>k e. tbl_get (wx_conns s) k = Some e \<longrightarrow> cc_socket e < length (wx_sockets s)" using exec_okD(6) [OF ok] by blast
  ultimately show ?thesis using exec_okD(5) [OF ok] fl(2) by (simp add: exec_ok_def put_socket_def)
qed

definition started :: "nat \<Rightarrow> (turn_item \<times> bool \<times> string option) option \<Rightarrow> ws_exec \<Rightarrow> ws_exec" where
  "started sid res s = (case res of
     Some (TurnBytes _, False, ts) \<Rightarrow> s\<lparr>wx_flights := (sid, ts) # wx_flights s\<rparr> | _ \<Rightarrow> s)"

lemma attempt_exec_ok:
  assumes w: "well_behaved env" "inj_on (item_hash env) items" "unanchored body" "set (input_items body) \<subseteq> items"
    and ok: "exec_ok env items s" and sid: "sid < length (wx_sockets s)" "\<not> held s sid"
    and a: "attempt_turn env body sid ts s = (res, s')"
  shows "exec_ok env items (started sid res s')" "length (wx_sockets s') = length (wx_sockets s)"
    "wx_flights s' = wx_flights s" "wx_conns s' = wx_conns s"
proof -
  note c = attempt_ok [OF w sid(1) _ _ a]
  have pre: "conn_ok env items False (wx_sockets s ! sid)" "\<forall>entry \<in> set (wc_sends (wx_sockets s ! sid)). fst entry < wx_tick s"
    using exec_okD(1,2) [OF ok sid(1)] sid(2) by auto
  obtain d where d: "s' = put_socket sid d (s\<lparr>wx_tick := wx_tick s'\<rparr>)" using c(4) [OF pre] by blast
  then show frame: "length (wx_sockets s') = length (wx_sockets s)" "wx_flights s' = wx_flights s" "wx_conns s' = wx_conns s"
    by (metis put_socket_def ws_exec.select_convs(1,2,6) length_list_update ws_exec.surjective ws_exec.update_convs(1,5))+
  have d': "wx_sockets s' ! sid = d" using d sid(1) by (metis put_socket_def nth_list_update_eq ws_exec.select_convs(1) ws_exec.surjective ws_exec.update_convs(1,5))
  let ?run = "\<exists>bytes ts1. res = Some (TurnBytes bytes, False, ts1)"
  obtain ts1 where ts1: "?run \<longrightarrow> (\<exists>bytes. res = Some (TurnBytes bytes, False, ts1))" by blast
  let ?fl = "if ?run then (sid, ts1) # wx_flights s else wx_flights s"
  have "started sid res s' = (put_socket sid d s)\<lparr>wx_tick := wx_tick s', wx_flights := ?fl\<rparr>"
  proof (cases ?run)
    case True
    then show ?thesis using ts1 frame(2) by (subst d) (auto simp: started_def put_socket_def)
  next
    case False
    then have "started sid res s' = s'" by (auto simp: started_def split: option.split turn_item.split bool.split)
    also have "\<dots> = (put_socket sid d s)\<lparr>wx_tick := wx_tick s', wx_flights := wx_flights s\<rparr>"
      by (rule trans [OF d]) (cases s, simp add: put_socket_def)
    finally show ?thesis using False by simp
  qed
  moreover have "exec_ok env items \<dots>"
    by (rule exec_ok_put [OF ok sid(1), where ts = ts1 and running = ?run])
      (use c(1-3) [OF pre] d' exec_okD(4) [OF ok] sid(2) in \<open>auto simp: held_def\<close>)
  ultimately show "exec_ok env items (started sid res s')" by simp
qed


lemma clear_exec_ok:
  assumes ok: "exec_ok env items s" and sid: "sid < length (wx_sockets s)" "\<not> held s sid"
  shows "exec_ok env items (put_socket sid (clear_anchor (wx_sockets s ! sid)) s)" (is "exec_ok env items ?s")
proof -
  have "conn_ok env items False (wx_sockets s ! sid)" using exec_okD(1) [OF ok sid(1)] sid(2) by simp
  then have c: "conn_ok env items False (clear_anchor (wx_sockets s ! sid))"
    by (simp add: conn_ok_def clear_anchor_def base_ok_def)
  have "exec_ok env items (?s\<lparr>wx_tick := wx_tick s, wx_flights := wx_flights s\<rparr>)"
    by (rule exec_ok_put [OF ok sid(1) c])
      (use exec_okD(2) [OF ok sid(1)] exec_okD(4) [OF ok] sid(2) in \<open>auto simp: held_def clear_anchor_def\<close>)
  moreover have "?s\<lparr>wx_tick := wx_tick s, wx_flights := wx_flights s\<rparr> = ?s" by (cases s) (simp add: put_socket_def)
  ultimately show ?thesis by simp
qed

lemma free_after_evict: "socket_free key (evict_conn key s)"
  by (cases key) (auto simp: socket_free_def evict_conn_def tbl_simps)

lemma held_frame [simp]: "held (put_socket sid c s) j = held s j" "held (evict_conn key s) j = held s j"
  by (auto simp: held_def put_socket_def evict_conn_def split: option.split)

lemma put_socket_length [simp]: "length (wx_sockets (put_socket sid c s)) = length (wx_sockets s)"
  by (simp add: put_socket_def)

text \<open>
  Reasoning about a driven turn: \<open>I\<close> holds before every attempt and \<open>M\<close> after every failed one, with
  the recoveries still allowed; \<open>F\<close> holds of the result.
\<close>

lemma drive_turn_rule:
  assumes start: "I al rl sid s"
    and attempt: "\<And>al rl sid ts s res s1. I al rl sid s \<Longrightarrow> attempt_turn env body sid ts s = (res, s1) \<Longrightarrow>
      (case res of Some (TurnBytes bytes, _, _) \<Rightarrow> F (Driven sid bytes) (started sid res s1) | _ \<Rightarrow> M al rl sid s1)"
    and clear: "\<And>al rl sid s. M (Suc al) rl sid s \<Longrightarrow> I al rl sid (put_socket sid (clear_anchor (wx_sockets s ! sid)) s)"
    and redial: "\<And>al rl sid s outcome s2. M al (Suc rl) sid s \<Longrightarrow>
      connect_and_cache env account headers key (evict_conn key s) = (outcome, s2) \<Longrightarrow>
      (case outcome of
         Ready fresh \<Rightarrow> I al rl fresh s2
       | UpgradeRequired \<Rightarrow> (\<forall>e. F (Broken e) (start_account_cooldown env (ca_id account) (disable_session sk s2)))
       | ConnectFailed _ \<Rightarrow> (\<forall>e. F (Broken e) s2))"
    and fail: "\<And>al rl sid s e. M al rl sid s \<Longrightarrow> F (Broken e) s \<and> F DrivePanic s"
  shows "case drive_turn env account headers key sk body provenance al rl sid ts s of (r, s') \<Rightarrow> F r s'"
  using start
proof (induction "al + rl" arbitrary: al rl sid ts s rule: less_induct)
  case less
  obtain res s1 where a: "attempt_turn env body sid ts s = (res, s1)" by (cases "attempt_turn env body sid ts s")
  note after = attempt [OF less.prems a]
  show ?case
  proof (cases "\<exists>e over ts1. res = Some (TurnError e, over, ts1)")
    case False
    then show ?thesis
      using after a fail [of al rl sid s1]
      by (auto simp: drive_turn.simps [of env account] started_def split: option.splits turn_item.splits bool.splits prod.splits)
  next
    case True
    then obtain e over ts1 where res: "res = Some (TurnError e, over, ts1)" by blast
    then have m: "M al rl sid s1" using after by simp
    note step = drive_turn.simps [of env account headers key sk body provenance al rl sid ts s, unfolded a prod.case res option.case turn_item.case]
    note broken = fail [OF m, THEN conjunct1]
    show ?thesis
    proof (cases "classify_recovery e")
      case StripAnchorAndResend
      show ?thesis
      proof (cases "provenance = ClientProvided \<or> al = 0")
        case False
        then obtain n where n: "al = Suc n" by (cases al) auto
        show ?thesis
          using less.hyps [OF _ clear [OF m [unfolded n]]] StripAnchorAndResend False n by (simp add: step [unfolded n])
      qed (simp add: step StripAnchorAndResend broken)
    next
      case Reconnect
      show ?thesis
      proof (cases "rl = 0")
        case False
        then obtain n where Suc: "rl = Suc n" by (cases rl) auto
        obtain outcome s2 where c: "connect_and_cache env account headers key (evict_conn key s1) = (outcome, s2)"
          by (cases "connect_and_cache env account headers key (evict_conn key s1)")
        then show ?thesis
          using redial [OF m [unfolded Suc] c] less.hyps [of al n] Reconnect Suc by (cases outcome) (simp_all add: step [unfolded Suc])
      next
        case True
        then show ?thesis using Reconnect by (simp add: step [unfolded True] broken)
      qed
    next
      case SurfaceError
      then show ?thesis by (simp add: step broken)
    qed
  qed
qed

lemma drive_ok:
  assumes "well_behaved env" "inj_on (item_hash env) items" "unanchored body" "set (input_items body) \<subseteq> items"
    and "exec_ok env items s" "sid < length (wx_sockets s)" "\<not> held s sid"
  shows "exec_ok env items (snd (drive_turn env account headers key sk body provenance al rl sid ts s))"
proof -
  let ?M = "\<lambda>(al :: nat) (rl :: nat) sid s. exec_ok env items s \<and> sid < length (wx_sockets s) \<and> \<not> held s sid"
  have "case drive_turn env account headers key sk body provenance al rl sid ts s of (r, s') \<Rightarrow> exec_ok env items s'"
  proof (rule drive_turn_rule [where I = ?M and M = ?M])
    fix al rl :: nat and sid ts s res s1
    assume i: "?M al rl sid s" and a: "attempt_turn env body sid ts s = (res, s1)"
    show "case res of Some (TurnBytes bytes, _, _) \<Rightarrow> exec_ok env items (started sid res s1) | _ \<Rightarrow> ?M al rl sid s1"
      using attempt_exec_ok [OF assms(1-4) _ _ _ a] i
      by (auto simp: started_def held_def split: option.splits turn_item.splits)
  next
    fix al rl :: nat and sid s
    assume "?M (Suc al) rl sid s"
    then show "?M al rl sid (put_socket sid (clear_anchor (wx_sockets s ! sid)) s)" by (simp add: clear_exec_ok)
  next
    fix al rl :: nat and sid s outcome s2
    assume i: "?M al (Suc rl) sid s" and c: "connect_and_cache env account headers key (evict_conn key s) = (outcome, s2)"
    show "case outcome of Ready fresh \<Rightarrow> ?M al rl fresh s2
        | UpgradeRequired \<Rightarrow> \<forall>e. exec_ok env items (start_account_cooldown env (ca_id account) (disable_session sk s2))
        | ConnectFailed _ \<Rightarrow> \<forall>e. exec_ok env items s2"
      using connect_ok [OF exec_ok_evict free_after_evict c, of items] i
      by (auto simp: exec_ok_cooldown exec_ok_disable split: conn_attempt.split)
  qed (use assms(5-7) in auto)
  then show ?thesis by (simp add: case_prod_beta)
qed


section \<open>Runs of the executor\<close>

definition request_key :: "'a codec_env_scheme \<Rightarrow> prepared_request \<Rightarrow> core_account \<Rightarrow> request_ctx \<Rightarrow> string option" where
  "request_key env req account ctx = (case materialize_body env req of
     Inl _ \<Rightarrow> None
   | Inr body \<Rightarrow> map_option (\<lambda>sk. conn_key_of env (ca_id account) (sk_value sk)
       (seed_trace_headers (pr_forward_headers req) body) (rc_conn_discriminator ctx)) (rc_session_key ctx))"

text \<open>
  Requests, polls of running streams and, where \<open>hangups\<close> says so, consumers that drop a stream before
  its end. A request waits for its cached socket to be free.
\<close>

inductive exec_step :: "exec_env \<Rightarrow> (prepared_request \<times> core_account) set \<Rightarrow> bool \<Rightarrow> ws_exec \<Rightarrow> ws_exec \<Rightarrow> bool" for env reqs hangups where
  request: "(req, account) \<in> reqs \<Longrightarrow> socket_free (request_key env req account ctx) s \<Longrightarrow>
    exec_step env reqs hangups s (snd (execute_ws env req account ctx s))"
| poll: "(sid, ts) \<in> set (wx_flights s) \<Longrightarrow> exec_step env reqs hangups s (snd (poll_stream env sid ts s))"
| hangup: "hangups \<Longrightarrow> (sid, ts) \<in> set (wx_flights s) \<Longrightarrow> exec_step env reqs hangups s (drop_stream sid ts s)"

lemma seed_get: "k \<noteq> ''client_metadata'' \<Longrightarrow> jget k (seed_trace_headers headers body) = jget k body"
proof (cases body)
  case (JObj kvs)
  have one: "k \<noteq> ''client_metadata'' \<Longrightarrow> map_of (seed_header headers target kvs) k = map_of kvs k" for target kvs
    by (auto simp: seed_header_def client_metadata_put_get split: option.split)
  assume "k \<noteq> ''client_metadata''"
  then show ?thesis using JObj one by simp
qed simp_all

lemma seed_body: "anchor_of (seed_trace_headers headers body) = anchor_of body"
  "input_items (seed_trace_headers headers body) = input_items body"
  by (simp_all add: anchor_of_def input_items_def seed_get)

definition plain_requests :: "'a codec_env_scheme \<Rightarrow> json set \<Rightarrow> (prepared_request \<times> core_account) set \<Rightarrow> bool" where
  "plain_requests env items reqs \<longleftrightarrow> (\<forall>(req, _) \<in> reqs. \<forall>body. materialize_body env req = Inr body \<longrightarrow>
     unanchored body \<and> set (input_items body) \<subseteq> items)"

lemma execute_ok:
  assumes w: "well_behaved env" "inj_on (item_hash env) items" "plain_requests env items reqs" "(req, account) \<in> reqs"
    and ok: "exec_ok env items s" and free: "socket_free (request_key env req account ctx) s"
  shows "exec_ok env items (snd (execute_ws env req account ctx s))"
proof (cases "materialize_body env req")
  case (Inr raw)
  let ?body = "seed_trace_headers (pr_forward_headers req) raw"
  let ?key = "map_option (\<lambda>sk. conn_key_of env (ca_id account) sk ?body (rc_conn_discriminator ctx)) (map_option sk_value (rc_session_key ctx))"
  have body: "unanchored ?body" "set (input_items ?body) \<subseteq> items"
    using w(3,4) Inr by (fastforce simp: plain_requests_def unanchored_def seed_body)+
  have key: "request_key env req account ctx = ?key" by (simp add: request_key_def Inr option.map_comp comp_def)
  obtain att s1 where c: "connect_and_cache env account (pr_forward_headers req) ?key s = (att, s1)"
    by (cases "connect_and_cache env account (pr_forward_headers req) ?key s")
  note conn = connect_ok [OF ok free [unfolded key] c]
  show ?thesis
  proof (cases att)
    case (Ready sid)
    let ?p = "if Option.bind (jget ''previous_response_id'' ?body) as_str \<noteq> None then ClientProvided else ProxyGenerated"
    obtain r s2 where d: "drive_turn env account (pr_forward_headers req) ?key (map_option sk_value (rc_session_key ctx)) ?body ?p
        (we_max_anchor_miss_retries env) (we_max_reconnect_retries env) sid None s1 = (r, s2)" by force
    have "exec_ok env items s2" using drive_ok [OF w(1,2) body, of s1 sid] conn Ready d by (metis snd_conv)
    moreover have "snd (execute_ws env req account ctx s) \<in> {s, s2}"
      using Inr c Ready d by (cases r) (simp_all add: execute_ws_def Let_def del: not_None_eq)
    ultimately show ?thesis using ok by auto
  qed (use ok Inr c conn in \<open>auto simp: execute_ws_def Let_def exec_ok_cooldown exec_ok_disable\<close>)
qed (use ok in \<open>auto simp: execute_ws_def Let_def\<close>)

lemma removeAll_unique:
  assumes "distinct (map fst xs)" "(k, v) \<in> set xs"
  shows "fst ` set (removeAll (k, v) xs) = fst ` set xs - {k}" "distinct (map fst (removeAll (k, v) xs))"
proof -
  have "k \<notin> fst ` set (removeAll (k, v) xs)" using assms by (force simp: distinct_map inj_on_def)
  then show "fst ` set (removeAll (k, v) xs) = fst ` set xs - {k}" by (force simp: image_iff)
  show "distinct (map fst (removeAll (k, v) xs))" using assms(1) by (simp add: removeAll_filter_not_eq distinct_map_filter)
qed

lemma poll_ok:
  assumes w: "well_behaved env" and ok: "exec_ok env items s" and f: "(sid, ts) \<in> set (wx_flights s)"
  shows "exec_ok env items (snd (poll_stream env sid ts s))"
proof -
  let ?c = "wx_sockets s ! sid"
  have sid: "sid < length (wx_sockets s)" using exec_okD(3) [OF ok f] by simp
  have "held s sid" using f by (force simp: held_def)
  then have c: "conn_ok env items True ?c" using exec_okD(1) [OF ok sid] by simp
  obtain item over c1 ts1 where r: "read_item env (wc_inbox ?c) ?c ts = (item, over, c1, ts1)"
    by (cases "read_item env (wc_inbox ?c) ?c ts") auto
  let ?rest = "removeAll (sid, ts) (wx_flights s)"
  let ?fl = "if over then ?rest else (sid, ts1) # ?rest"
  note rest = removeAll_unique [OF exec_okD(4) [OF ok] f]
  have "exec_ok env items ((put_socket sid c1 s)\<lparr>wx_tick := wx_tick s, wx_flights := ?fl\<rparr>)"
  proof (rule exec_ok_put [OF ok sid, where ts = ts1 and running = "\<not> over"])
    show "conn_ok env items (\<not> over) c1" using read_ok [OF w c r] by blast
    show "\<forall>entry \<in> set (wc_sends c1). fst entry < wx_tick s" using read_ok [OF w c r] exec_okD(2) [OF ok sid] by simp
    show "distinct (map fst ?fl)" using rest by auto
    show "(\<not> over) = (sid \<in> fst ` set ?fl)" using rest(1) by auto
    show "j \<in> fst ` set ?fl \<longleftrightarrow> held s j" if "j \<noteq> sid" for j using rest(1) that by (auto simp: held_def)
  qed auto
  moreover have "snd (poll_stream env sid ts s) = (put_socket sid c1 s)\<lparr>wx_flights := ?fl\<rparr>"
    by (simp add: poll_stream_def r put_socket_def Let_def)
  moreover have "\<dots> = (put_socket sid c1 s)\<lparr>wx_tick := wx_tick s, wx_flights := ?fl\<rparr>" by (cases s) (simp add: put_socket_def)
  ultimately show ?thesis by metis
qed

lemma exec_run_ok:
  assumes "rtranclp (exec_step env reqs False) new_executor s" "well_behaved env" "inj_on (item_hash env) items"
    "plain_requests env items reqs"
  shows "exec_ok env items s"
  using assms(1)
proof induction
  case base
  then show ?case by (simp add: exec_ok_def new_executor_def)
next
  case (step s s')
  from step(2,3) show ?case by cases (use assms(2-4) execute_ok poll_ok in blast)+
qed

text \<open>
  C24: No conversation is cut short on the wire. Over any interleaving of requests and streams that are
  read to their end, whatever fails, reconnects or falls back in between, take any envelope the
  executor ever sent, with the request it was built for. Without an anchor its input is the request's
  input. With one, the anchor is the id of a response that completed an earlier request on the same
  socket, and that request's input followed by the envelope's input is exactly the input of the request:
  nothing is left out, repeated or taken from another turn. Each reply ends once, with a response id
  of its own, and item hashes do not collide; requests that bring their own anchor are not covered,
  nor is what the upstream keeps for an anchor besides the input of its request.
\<close>

theorem conversation_never_cut:
  assumes "rtranclp (exec_step env reqs False) new_executor s" "well_behaved env" "inj_on (item_hash env) items"
    "plain_requests env items reqs" "c \<in> set (wx_sockets s)"
    "wc_sends c = before @ (n, body, envelope) # after"
  shows "case anchor_of envelope of
      None \<Rightarrow> input_items envelope = input_items body
    | Some r \<Rightarrow> \<exists>(m, earlier, sent) \<in> set before. r \<in> completed_ids env (reply_of env m sent) \<and>
        input_items earlier @ input_items envelope = input_items body"
proof -
  obtain sid where "sid < length (wx_sockets s)" "c = wx_sockets s ! sid" using assms(5) by (auto simp: in_set_conv_nth)
  then have "sends_ok env items (wc_sends c)"
    using exec_okD(1) [OF exec_run_ok [OF assms(1-4)]] by (simp add: conn_ok_def)
  then have "stands_for (answered env before) envelope (input_items body)"
    using assms(6) unfolding sends_ok_def by blast
  then show ?thesis
    by (fastforce simp: stands_for_def dest: answered_from split: option.splits)
qed


section \<open>A conversation, and one whose reader hangs up\<close>

text \<open>An upstream that answers the \<open>n\<close>-th call with one delta and a completion whose id is \<open>n\<close> in unary.\<close>

definition chat_env :: exec_env where
  "chat_env = \<lparr>we_sha = (\<lambda>s. s), we_print = (\<lambda>v. case v of JStr s \<Rightarrow> s | _ \<Rightarrow> ''o''),
     we_parse = (\<lambda>t. Some (if t = ''d'' then JObj [(''type'', JStr ''response.output_text.delta'')]
       else JObj [(''response'', JObj [(''id'', JStr t)]), (''type'', JStr ''response.completed'')])),
     we_send = (\<lambda>n _. Inr [FrameText ''d'', FrameText (CHR ''c'' # replicate n CHR ''i'')]), we_now_ms = (\<lambda>_. 0),
     we_dial = (\<lambda>_ _ _. DialConnected None), we_clock = (\<lambda>_. 0),
     we_max_anchor_miss_retries = 2, we_max_reconnect_retries = 2, we_account_cooldown = 30\<rparr>"

definition chat_account :: core_account where
  "chat_account = \<lparr>ca_id = ''k'', ca_base_url = ''u'', ca_bearer = ''t'', ca_chatgpt_id = None, ca_fedramp = False\<rparr>"

definition chat_ctx :: request_ctx where
  "chat_ctx = \<lparr>rc_session_id = None, rc_session_key = Some \<lparr>sk_value = ''s'', sk_strength = Hard\<rparr>, rc_logical_turn_key = None,
     rc_client_previous_response_id = None, rc_is_full_resend = True, rc_input_count = 0, rc_estimated_tokens = 0,
     rc_subagent = None, rc_conn_discriminator = None\<rparr>"

definition ask :: "string list \<Rightarrow> prepared_request" where
  "ask items = \<lparr>pr_body = Some (says items), pr_model = ''m'', pr_forward_headers = [], pr_raw_body = None\<rparr>"

definition asked :: "string list \<Rightarrow> ws_exec \<Rightarrow> ws_exec" where
  "asked items s = snd (execute_ws chat_env (ask items) chat_account chat_ctx s)"

definition read_on :: "ws_exec \<Rightarrow> ws_exec" where
  "read_on s = snd (poll_stream chat_env 0 None s)"

lemma says_parts:
  "jget ''input'' (says xs) = Some (JArr (map JStr xs))" "jget ''previous_response_id'' (says xs) = None"
  "jget ''generate'' (says xs) = None" "input_items (says xs) = map JStr xs" "full_input (says xs) = map JStr xs"
  "seed_trace_headers [] (says xs) = says xs" "present_fields (says xs) = [(''model'', JStr ''m'')]"
  by (simp_all add: says_def input_items_def full_input_def seed_header_def present_fields_def non_input_fields_def)

definition done_event :: "string \<Rightarrow> json" where
  "done_event t = JObj [(''response'', JObj [(''id'', JStr t)]), (''type'', JStr ''response.completed'')]"

lemma chat_env_simps:
  "we_sha chat_env s = s" "we_print chat_env (JStr s) = s" "we_print chat_env (JObj m) = ''o''" "we_print chat_env (JInt i) = ''o''"
  "we_parse chat_env t = Some (if t = ''d'' then JObj [(''type'', JStr ''response.output_text.delta'')] else done_event t)"
  "we_send chat_env n e = Inr [FrameText ''d'', FrameText (CHR ''c'' # replicate n CHR ''i'')]"
  "we_now_ms chat_env n = 0" "we_dial chat_env n account headers = DialConnected None" "we_clock chat_env n = 0"
  "we_max_anchor_miss_retries chat_env = 2" "we_max_reconnect_retries chat_env = 2"
  "non_input_fingerprint chat_env b = ''o''"
  by (simp_all add: chat_env_def done_event_def non_input_fingerprint_def)

lemma chat_hashes: "item_hashes chat_env (says xs) = xs" "item_hash chat_env (JStr x) = x"
  by (simp_all add: item_hashes_def says_parts item_hash_def chat_env_simps comp_def)

definition chat_key :: string where "chat_key = ''k:s:o''"

lemma chat_key_of: "conn_key_of chat_env ''k'' ''s'' (says xs) None = chat_key"
  by (simp add: conn_key_of_def chat_env_simps chat_key_def)

lemma chat_classify: "classify (done_event t) = CompletedFrame" "jpath_str [''response'', ''id''] (done_event t) = Some t"
  "classify (JObj [(''type'', JStr ''response.output_text.delta'')]) = EventFrame"
  "response_turn_state chat_env (done_event t) = None"
  "response_turn_state chat_env (JObj [(''type'', JStr ''response.output_text.delta'')]) = None"
  by (simp_all add: classify_def done_event_def jpath_str_def response_turn_state_def Let_def)

text \<open>The envelope for the items \<open>ys\<close> of a chat, behind an anchor or not.\<close>

definition chat_envelope :: "string option \<Rightarrow> json list \<Rightarrow> json" where
  "chat_envelope anchor ys = JObj ([(''client_metadata'', JObj [(''x-codex-ws-stream-request-start-ms'', JStr ''o'')]),
     (''input'', JArr ys), (''model'', JStr ''m'')] @
     (case anchor of None \<Rightarrow> [] | Some r \<Rightarrow> [(''previous_response_id'', JStr r)]) @ [(''type'', JStr ''response.create'')])"

lemma chat_built: "build_response_create chat_env 0 (says xs) anchor ys None = Some (chat_envelope anchor ys)"
  by (cases anchor) (simp_all add: says_def chat_envelope_def client_metadata_put_def obj_set_def chat_env_simps Let_def)

lemma chat_envelope_parts:
  "jget ''previous_response_id'' (chat_envelope anchor ys) = map_option JStr anchor" "input_items (chat_envelope anchor ys) = ys"
  "item_hashes chat_env (chat_envelope anchor ys) = map (item_hash chat_env) ys"
  by (cases anchor; simp add: chat_envelope_def input_items_def item_hashes_def)+

lemmas chat_request = asked_def execute_ws_def ask_def chat_ctx_def says_parts materialize_body_def
  is_session_ws_disabled_def is_account_in_cooldown_def chat_account_def connect_and_cache_def reap_idle_def tbl_retain_def
  dial_fresh_def fresh_conn_def chat_env_simps chat_key_of now_of_def ws_conn_idle_ttl_def held_def

lemmas chat_turn = drive_turn.simps attempt_turn_def plan_and_build_locked_def opt_or_def plan_request_for_conn_def
  plan_request_def chat_built chat_hashes put_turn_state_def first_item_def send_and_track_def accumulated_hashes_def
  chat_envelope_parts put_socket_def chat_classify on_frame_def frame_to_sse_def end_item_def commit_completed_def

definition chat_exec :: "string option \<Rightarrow> string list option \<Rightarrow> string list option \<Rightarrow> string list \<Rightarrow>
    (nat \<times> json \<times> json) list \<Rightarrow> nat \<Rightarrow> (nat \<times> string option) list \<Rightarrow> ws_exec" where
  "chat_exec r hashes pending inbox sends tick flights =
     \<lparr>wx_sockets = [\<lparr>wc_account = ''k'', wc_last_response_id = r, wc_last_input_count = map_option length hashes,
        wc_last_item_hashes = hashes, wc_last_fingerprint = map_option (\<lambda>_. ''o'') hashes,
        wc_pending = map_option (\<lambda>h. \<lparr>pb_input_count = length h, pb_item_hashes = h, pb_fingerprint = ''o''\<rparr>) pending,
        wc_upgrade_turn_state = None, wc_closed = False, wc_inbox = map FrameText inbox, wc_sends = sends\<rparr>],
      wx_conns = [(chat_key, \<lparr>cc_socket = 0, cc_last_used = 0\<rparr>)], wx_disabled = [], wx_cooldown = [],
      wx_tick = tick, wx_flights = flights\<rparr>"

definition chat_sent :: "nat \<Rightarrow> string list \<Rightarrow> string option \<Rightarrow> string list \<Rightarrow> nat \<times> json \<times> json" where
  "chat_sent n xs anchor ys = (n, says xs, chat_envelope anchor (map JStr ys))"

lemma chat_unary: "replicate 2 (CHR ''i'') = ''ii''" "replicate 3 (CHR ''i'') = ''iii''"
  by (simp_all add: numeral_2_eq_2 numeral_3_eq_3)

lemma chat_asked:
  "asked [''a''] new_executor = chat_exec None None (Some [''a'']) [''ci''] [chat_sent 1 [''a''] None [''a'']] 2 [(0, None)]"
  by (simp add: chat_request new_executor_def Let_def)
    (simp add: chat_turn chat_env_simps Let_def says_parts chat_exec_def chat_sent_def)

lemma chat_read:
  "read_on (chat_exec None None (Some [''a'']) [''ci''] sends 2 [(0, None)]) = chat_exec (Some ''ci'') (Some [''a'']) None [] sends 2 []"
  by (simp add: read_on_def poll_stream_def chat_exec_def chat_turn chat_env_simps Let_def)

lemma chat_asked_again:
  "asked [''a'', ''b''] (chat_exec (Some ''ci'') (Some [''a'']) None [] sends 2 []) =
   chat_exec (Some ''ci'') (Some [''a'']) (Some [''a'', ''b'']) [''cii''] (sends @ [chat_sent 2 [''a'', ''b''] (Some ''ci'') [''b'']]) 3 [(0, None)]"
  by (simp add: chat_request chat_exec_def Let_def)
    (simp add: chat_turn chat_env_simps Let_def says_parts chat_exec_def chat_sent_def chat_unary)

lemma chat_asked_after_hangup:
  "asked [''a'', ''b''] (chat_exec None None (Some [''a'']) [''ci''] sends 2 []) =
   chat_exec (Some ''ci'') (Some [''a'', ''b'']) None [''d'', ''cii''] (sends @ [chat_sent 2 [''a'', ''b''] None [''a'', ''b'']]) 3 []"
  by (simp add: chat_request chat_exec_def Let_def)
    (simp add: chat_turn chat_env_simps Let_def says_parts chat_exec_def chat_sent_def chat_unary)

lemma chat_asked_amputated:
  "asked [''a'', ''b'', ''c''] (chat_exec (Some ''ci'') (Some [''a'', ''b'']) None [''d'', ''cii''] sends 3 []) =
   chat_exec (Some ''ci'') (Some [''a'', ''b'']) (Some [''a'', ''b'', ''c'']) [''cii'', ''d'', ''ciii'']
     (sends @ [chat_sent 3 [''a'', ''b'', ''c''] (Some ''ci'') [''c'']]) 4 [(0, None)]"
  by (simp add: chat_request chat_exec_def Let_def)
    (simp add: chat_turn chat_env_simps Let_def says_parts chat_exec_def chat_sent_def chat_unary)

definition asks :: "(prepared_request \<times> core_account) set" where
  "asks = range (\<lambda>xs. (ask xs, chat_account))"

lemma chat_well_behaved: "well_behaved chat_env"
proof -
  have reply: "reply_of chat_env n e = [FrameText ''d'', FrameText (CHR ''c'' # replicate n CHR ''i'')]" for n e
    by (simp add: reply_of_def chat_env_simps)
  have completes: "completes chat_env (FrameText t) r \<longleftrightarrow> t \<noteq> ''d'' \<and> r = Some t" for t r
    by (simp add: completes_def chat_env_simps chat_classify)
  have "completed_ids chat_env (reply_of chat_env n e) = {CHR ''c'' # replicate n CHR ''i''}" for n e
    by (auto simp: completed_ids_def reply completes)
  moreover have "replicate n (CHR ''i'') = replicate m (CHR ''i'') \<Longrightarrow> n = m" for n m by (metis length_replicate)
  ultimately show ?thesis
    by (auto simp: well_behaved_def reply completes silent_def chat_env_simps chat_classify)
qed

lemma chat_plain: "plain_requests chat_env (range JStr) asks" "inj_on (item_hash chat_env) (range JStr)"
  by (auto simp: plain_requests_def asks_def ask_def materialize_body_def unanchored_def anchor_of_def says_parts
      inj_on_def chat_hashes)

lemma chat_steps:
  "socket_free (Some chat_key) s \<Longrightarrow> exec_step chat_env asks h s (asked xs s)"
  "(0, None) \<in> set (wx_flights s) \<Longrightarrow> exec_step chat_env asks h s (read_on s)"
proof -
  have k: "request_key chat_env (ask xs) chat_account chat_ctx = Some chat_key"
    by (simp add: request_key_def ask_def materialize_body_def chat_ctx_def chat_account_def says_parts chat_key_of)
  show "socket_free (Some chat_key) s \<Longrightarrow> exec_step chat_env asks h s (asked xs s)"
    unfolding asked_def by (rule request) (simp_all add: asks_def k)
  show "(0, None) \<in> set (wx_flights s) \<Longrightarrow> exec_step chat_env asks h s (read_on s)"
    unfolding read_on_def by (rule poll)
qed

lemma chat_start: "exec_step chat_env asks h new_executor (asked [''a''] new_executor)"
  by (rule chat_steps(1)) (simp add: socket_free_def new_executor_def)

lemma chat_free: "socket_free (Some chat_key) (chat_exec r hashes pending inbox sends tick [])"
  by (simp add: socket_free_def held_def chat_exec_def)

theorem conversation_never_cut_witness:
  "\<exists>s. rtranclp (exec_step chat_env asks False) new_executor s \<and>
     wc_sends (wx_sockets s ! 0) = [chat_sent 1 [''a''] None [''a''], chat_sent 2 [''a'', ''b''] (Some ''ci'') [''b'']] \<and>
     ''ci'' \<in> completed_ids chat_env (reply_of chat_env 1 (chat_envelope None [JStr ''a''])) \<and>
     input_items (says [''a'']) @ input_items (chat_envelope (Some ''ci'') [JStr ''b'']) = input_items (says [''a'', ''b''])"
proof -
  let ?first = "[chat_sent 1 [''a''] None [''a'']]"
  let ?s1 = "chat_exec None None (Some [''a'']) [''ci''] ?first 2 [(0, None)]"
  let ?s2 = "chat_exec (Some ''ci'') (Some [''a'']) None [] ?first 2 []"
  let ?s3 = "asked [''a'', ''b''] ?s2"
  have st1: "exec_step chat_env asks False new_executor ?s1" using chat_start [of False] by (simp add: chat_asked)
  have st2: "exec_step chat_env asks False ?s1 ?s2"
    using chat_steps(2) [of ?s1 False] by (simp add: chat_read) (simp add: chat_exec_def)
  have st3: "exec_step chat_env asks False ?s2 ?s3" by (rule chat_steps(1) [OF chat_free])
  have run: "rtranclp (exec_step chat_env asks False) new_executor ?s3"
    by (rule rtranclp.rtrancl_into_rtrancl, rule rtranclp.rtrancl_into_rtrancl, rule r_into_rtranclp, rule st1, rule st2, rule st3)
  have sends: "wc_sends (wx_sockets ?s3 ! 0) = ?first @ [(2, says [''a'', ''b''], chat_envelope (Some ''ci'') [JStr ''b''])]"
    "wx_sockets ?s3 ! 0 \<in> set (wx_sockets ?s3)"
    unfolding chat_asked_again by (simp_all add: chat_exec_def chat_sent_def)
  from conversation_never_cut [OF run chat_well_behaved chat_plain(2,1) sends(2,1)]
  have "\<exists>(m, earlier, sent) \<in> set ?first. ''ci'' \<in> completed_ids chat_env (reply_of chat_env m sent) \<and>
      input_items earlier @ input_items (chat_envelope (Some ''ci'') [JStr ''b'']) = input_items (says [''a'', ''b''])"
    by (simp add: anchor_of_def chat_envelope_parts)
  then show ?thesis using run sends(1) by (intro exI [of _ ?s3]) (simp add: chat_sent_def)
qed

text \<open>
  A consumer that drops its stream leaves the rest of the reply on the socket, and the stream gives the
  lock back without marking the connection. The next turn then reads that rest as its own answer, and
  stages its own input under the earlier turn's response id: the turn after it is sent as an increment
  on a response that never saw the second item. The request answered under the anchor says \<open>a\<close>, the
  envelope says \<open>c\<close>, and the client's conversation is \<open>a, b, c\<close>.
\<close>

lemma hangup_cuts_the_conversation:
  "\<exists>s before body envelope. rtranclp (exec_step chat_env asks True) new_executor s \<and>
     wc_sends (wx_sockets s ! 0) = before @ [(3, body, envelope)] \<and>
     input_items body = [JStr ''a'', JStr ''b'', JStr ''c''] \<and>
     anchor_of envelope = Some ''ci'' \<and> answered chat_env before ''ci'' = Some [JStr ''a''] \<and>
     input_items envelope = [JStr ''c'']"
proof -
  let ?first = "[chat_sent 1 [''a''] None [''a'']]"
  let ?before = "?first @ [chat_sent 2 [''a'', ''b''] None [''a'', ''b'']]"
  let ?s1 = "chat_exec None None (Some [''a'']) [''ci''] ?first 2 [(0, None)]"
  let ?s2 = "chat_exec None None (Some [''a'']) [''ci''] ?first 2 []"
  let ?s3 = "chat_exec (Some ''ci'') (Some [''a'', ''b'']) None [''d'', ''cii''] ?before 3 []"
  let ?s4 = "asked [''a'', ''b'', ''c''] ?s3"
  have st1: "exec_step chat_env asks True new_executor ?s1" using chat_start [of True] by (simp add: chat_asked)
  have st2: "exec_step chat_env asks True ?s1 ?s2"
    using hangup [of True 0 None ?s1 chat_env asks] by (simp add: chat_exec_def drop_stream_def)
  have st3: "exec_step chat_env asks True ?s2 ?s3"
    unfolding chat_asked_after_hangup [symmetric] by (rule chat_steps(1) [OF chat_free])
  have st4: "exec_step chat_env asks True ?s3 ?s4" by (rule chat_steps(1) [OF chat_free])
  have run: "rtranclp (exec_step chat_env asks True) new_executor ?s4"
    by (rule rtranclp.rtrancl_into_rtrancl, rule rtranclp.rtrancl_into_rtrancl, rule rtranclp.rtrancl_into_rtrancl,
        rule r_into_rtranclp, rule st1, rule st2, rule st3, rule st4)
  have one: "completed_ids chat_env (reply_of chat_env n e) = {CHR ''c'' # replicate n CHR ''i''}" for n e
    by (auto simp: completed_ids_def reply_of_def completes_def chat_env_simps chat_classify)
  have "answered chat_env ?before ''ci'' = Some [JStr ''a'']"
    by (simp add: answered_def answer_def one chat_sent_def chat_unary says_parts)
  moreover have "wc_sends (wx_sockets ?s4 ! 0) = ?before @ [(3, says [''a'', ''b'', ''c''], chat_envelope (Some ''ci'') [JStr ''c''])]"
    unfolding chat_asked_amputated by (simp add: chat_exec_def chat_sent_def)
  ultimately show ?thesis
    using run
    by (intro exI [of _ ?s4] exI [of _ ?before] exI [of _ "says [''a'', ''b'', ''c'']"]
        exI [of _ "chat_envelope (Some ''ci'') [JStr ''c'']"] conjI) (simp_all add: says_parts anchor_of_def chat_envelope_parts)
qed

end
