(* ===== verification/Ws_Safety.thy ===== *)
theory Ws_Safety
  imports Ws_Props
begin

text \<open>
  Two more promises of the WebSocket executor, whatever the server answers and even if consumers hang
  up: a turn is only ever sent on a socket that was opened for its own account, and recovering a turn
  sends a bounded number of envelopes.
\<close>

section \<open>Reading and sending leave accounts and the log alone\<close>

lemma read_item_keeps:
  "read_item env events c ts = (item, over, c', ts') \<Longrightarrow> wc_sends c' = wc_sends c \<and> wc_account c' = wc_account c"
proof (induction env events c ts rule: read_item.induct)
  case (1 env frame_text rest c ts)
  show ?case
  proof (cases "we_parse env frame_text")
    case None
    then show ?thesis using "1.IH"(1) "1.prems" by simp
  next
    case (Some event)
    then show ?thesis
      using "1.prems" on_frame_parsed [OF Some, of "c\<lparr>wc_inbox := rest\<rparr>"]
      by (auto simp: Let_def commit_completed_def drop_pending_def split: option.splits)
  qed
qed (auto simp: on_read_error_def drop_pending_def)

lemma first_item_keeps:
  assumes "first_item env n envelope c ts = (item, over, c', ts')"
  shows "wc_sends c' = wc_sends c \<and> wc_account c' = wc_account c"
proof (cases "we_send env n envelope")
  case (Inl msg)
  then show ?thesis using assms by (auto simp: first_item_def send_and_track_def)
next
  case (Inr events)
  obtain p where "read_item env (wc_inbox c @ events) (c\<lparr>wc_inbox := wc_inbox c @ events, wc_pending := Some p\<rparr>) ts =
      (item, over, c', ts')"
    using assms Inr by (simp add: first_item_def send_and_track_def Let_def)
  from read_item_keeps [OF this] show ?thesis by simp
qed

text \<open>What an attempt does to the store: it touches one socket, and logs at most one envelope there.\<close>

lemma attempt_keeps:
  assumes "attempt_turn env body sid ts s = (res, s')"
  shows "\<exists>c tick. s' = (put_socket sid c s)\<lparr>wx_tick := tick\<rparr> \<and> wc_account c = wc_account (wx_sockets s ! sid) \<and>
    length (wc_sends c) \<le> Suc (length (wc_sends (wx_sockets s ! sid)))"
proof (cases "plan_and_build_locked env (we_now_ms env (wx_tick s)) ((wx_sockets s ! sid)\<lparr>wc_upgrade_turn_state := None\<rparr>) body
    (opt_or ts (wc_upgrade_turn_state (wx_sockets s ! sid)))")
  case None
  then have "s' = put_socket sid ((wx_sockets s ! sid)\<lparr>wc_upgrade_turn_state := None\<rparr>) s"
    using assms by (simp add: attempt_turn_def Let_def)
  then show ?thesis
    by (intro exI [of _ "(wx_sockets s ! sid)\<lparr>wc_upgrade_turn_state := None\<rparr>"] exI [of _ "wx_tick s"]) (simp add: put_socket_def)
next
  case (Some envelope)
  let ?c = "(wx_sockets s ! sid)\<lparr>wc_upgrade_turn_state := None, wc_sends := wc_sends (wx_sockets s ! sid) @ [(wx_tick s, body, envelope)]\<rparr>"
  obtain item over c3 ts2 where f: "first_item env (wx_tick s) envelope ?c (opt_or ts (wc_upgrade_turn_state (wx_sockets s ! sid))) =
      (item, over, c3, ts2)"
    by (cases "first_item env (wx_tick s) envelope ?c (opt_or ts (wc_upgrade_turn_state (wx_sockets s ! sid)))") auto
  then have "s' = put_socket sid c3 (s\<lparr>wx_tick := wx_tick s + 1\<rparr>)" using assms Some by (simp add: attempt_turn_def Let_def)
  also have "\<dots> = (put_socket sid c3 s)\<lparr>wx_tick := wx_tick s + 1\<rparr>" by (cases s) (simp add: put_socket_def)
  finally show ?thesis using first_item_keeps [OF f] by (intro exI [of _ c3] exI) auto
qed

section \<open>Every turn on its own account's socket\<close>

definition wired :: "'a codec_env_scheme \<Rightarrow> ws_exec \<Rightarrow> bool" where
  "wired env s \<longleftrightarrow> tbl_ok (wx_conns s) \<and> (\<forall>c \<in> set (wx_sockets s). CHR '':'' \<notin> set (wc_account c)) \<and>
     (\<forall>k e. tbl_get (wx_conns s) k = Some e \<longrightarrow> cc_socket e < length (wx_sockets s) \<and>
        (\<exists>sk body disc. k = conn_key_of env (wc_account (wx_sockets s ! cc_socket e)) sk body disc))"

lemma append_colon_eq:
  "CHR '':'' \<notin> set a \<Longrightarrow> CHR '':'' \<notin> set b \<Longrightarrow> a @ CHR '':'' # x = b @ CHR '':'' # y \<Longrightarrow> a = b"
proof (induction a arbitrary: b)
  case Nil
  then show ?case by (cases b) auto
next
  case (Cons c a)
  then show ?case by (cases b) auto
qed

lemma conn_key_account:
  assumes "conn_key_of env a sk body disc = conn_key_of env b sk' body' disc'" "CHR '':'' \<notin> set a" "CHR '':'' \<notin> set b"
  shows "a = b"
  using assms(1) append_colon_eq [OF assms(2,3)] by (auto simp: conn_key_of_def Let_def split: option.splits)

text \<open>Steps that neither open a socket nor enter one into the cache.\<close>

lemma wired_frame:
  assumes "wired env s" "wx_sockets s' = wx_sockets s" "tbl_ok (wx_conns s')"
    "\<And>k e. tbl_get (wx_conns s') k = Some e \<Longrightarrow> \<exists>e'. tbl_get (wx_conns s) k = Some e' \<and> cc_socket e' = cc_socket e"
  shows "wired env s'"
proof -
  have "cc_socket e < length (wx_sockets s') \<and>
      (\<exists>sk body disc. k = conn_key_of env (wc_account (wx_sockets s' ! cc_socket e)) sk body disc)"
    if g: "tbl_get (wx_conns s') k = Some e" for k e
  proof -
    obtain e' where "tbl_get (wx_conns s) k = Some e'" "cc_socket e' = cc_socket e" using assms(4) [OF g] by blast
    then show ?thesis using assms(1,2) unfolding wired_def by metis
  qed
  then show ?thesis using assms(1-3) unfolding wired_def by simp
qed

lemma wired_put:
  assumes "wired env s" "sid < length (wx_sockets s)" "wc_account c = wc_account (wx_sockets s ! sid)"
  shows "wired env (put_socket sid c s)"
proof -
  have "wc_account ((wx_sockets s)[sid := c] ! j) = wc_account (wx_sockets s ! j)" for j
    using assms(2,3) by (cases "j = sid") auto
  moreover have "CHR '':'' \<notin> set (wc_account d)" if "d \<in> set ((wx_sockets s)[sid := c])" for d
    using that assms set_update_subset_insert [of "wx_sockets s" sid c] by (auto simp: wired_def)
  ultimately show ?thesis using assms(1) by (simp add: wired_def put_socket_def)
qed

lemma wired_dial:
  assumes "wired env s" "dial_fresh env account headers (map_option (\<lambda>sk. conn_key_of env (ca_id account) sk body disc) sk) s = (res, s')"
    "CHR '':'' \<notin> set (ca_id account)"
  shows "wired env s' \<and> (\<forall>sid. res = Ready sid \<longrightarrow> sid < length (wx_sockets s') \<and> wc_account (wx_sockets s' ! sid) = ca_id account)"
proof (cases "we_dial env (wx_tick s) account headers")
  case (DialConnected token)
  let ?sockets = "wx_sockets s @ [fresh_conn (ca_id account) token]"
  have r: "res = Ready (length (wx_sockets s))" "wx_sockets s' = ?sockets"
    "wx_conns s' = (case sk of None \<Rightarrow> wx_conns s
       | Some v \<Rightarrow> tbl_put (wx_conns s) (conn_key_of env (ca_id account) v body disc)
           \<lparr>cc_socket = length (wx_sockets s), cc_last_used = now_of env s'\<rparr>)"
    using assms(2) DialConnected by (cases sk; auto simp: dial_fresh_def Let_def now_of_def)+
  have old: "cc_socket e < length ?sockets \<and> (\<exists>v b d. k = conn_key_of env (wc_account (?sockets ! cc_socket e)) v b d)"
    if "tbl_get (wx_conns s) k = Some e" for k e
  proof -
    have e: "cc_socket e < length (wx_sockets s)" "\<exists>v b d. k = conn_key_of env (wc_account (wx_sockets s ! cc_socket e)) v b d"
      using assms(1) that unfolding wired_def by blast+
    then show ?thesis by (simp add: nth_append)
  qed
  have new: "\<exists>v b d. conn_key_of env (ca_id account) w body disc = conn_key_of env (wc_account (?sockets ! length (wx_sockets s))) v b d" for w
    by (intro exI [of _ w] exI [of _ body] exI [of _ disc]) (simp add: fresh_conn_def)
  have "wired env s'"
    unfolding wired_def r(2,3)
  proof (intro conjI allI impI)
    show "tbl_ok (case sk of None \<Rightarrow> wx_conns s | Some v \<Rightarrow> tbl_put (wx_conns s) (conn_key_of env (ca_id account) v body disc)
        \<lparr>cc_socket = length (wx_sockets s), cc_last_used = now_of env s'\<rparr>)"
      using assms(1) by (cases sk) (auto simp: wired_def)
    show "\<forall>c \<in> set ?sockets. CHR '':'' \<notin> set (wc_account c)" using assms(1,3) by (auto simp: wired_def fresh_conn_def)
  next
    fix k e
    assume g: "tbl_get (case sk of None \<Rightarrow> wx_conns s | Some v \<Rightarrow> tbl_put (wx_conns s) (conn_key_of env (ca_id account) v body disc)
        \<lparr>cc_socket = length (wx_sockets s), cc_last_used = now_of env s'\<rparr>) k = Some e"
    show "cc_socket e < length ?sockets" "\<exists>v b d. k = conn_key_of env (wc_account (?sockets ! cc_socket e)) v b d"
      using g old new by (cases sk; force simp: tbl_simps split: if_splits)+
  qed
  then show ?thesis using r by (simp add: fresh_conn_def)
qed (use assms(2) in \<open>auto simp: dial_fresh_def Let_def intro!: wired_frame [OF assms(1)] simp: assms(1) [unfolded wired_def]\<close>)


lemma wired_reap: "wired env s \<Longrightarrow> wired env (reap_idle env' ttl s)"
proof (rule wired_frame)
  assume w: "wired env s"
  then have t: "tbl_ok (wx_conns s)" by (simp add: wired_def)
  show "tbl_ok (wx_conns (reap_idle env' ttl s))" using t by (simp add: reap_idle_def)
  show "\<exists>e'. tbl_get (wx_conns s) k = Some e' \<and> cc_socket e' = cc_socket e"
    if "tbl_get (wx_conns (reap_idle env' ttl s)) k = Some e" for k e
    using reap_get [OF t that] by blast
qed (simp_all add: reap_idle_def)

lemma wired_evict: "wired env s \<Longrightarrow> wired env (evict_conn key s)"
  by (cases key; rule wired_frame [of env s]) (auto simp: evict_conn_def wired_def tbl_simps split: if_splits)

lemma wired_marks: "wired env s \<Longrightarrow> wired env (start_account_cooldown env' k (disable_session key s))"
  by (cases key; rule wired_frame [of env s]) (auto simp: start_account_cooldown_def disable_session_def wired_def)

lemma wired_connect:
  assumes w: "wired env s" and a: "CHR '':'' \<notin> set (ca_id account)"
    and key: "key = map_option (\<lambda>sk. conn_key_of env (ca_id account) sk body disc) sk"
    and c: "connect_and_cache env account headers key s = (res, s')"
  shows "wired env s' \<and> (\<forall>sid. res = Ready sid \<longrightarrow> sid < length (wx_sockets s') \<and> wc_account (wx_sockets s' ! sid) = ca_id account)"
proof -
  let ?s = "reap_idle env ws_conn_idle_ttl s"
  note wr = wired_reap [OF w, of env ws_conn_idle_ttl]
  show ?thesis
  proof (cases "Option.bind key (\<lambda>k. map_option (Pair k) (tbl_get (wx_conns ?s) k))")
    case None
    then have "dial_fresh env account headers key ?s = (res, s')" using c by (simp add: connect_and_cache_def Let_def)
    from wired_dial [OF wr this [unfolded key] a] show ?thesis .
  next
    case (Some ke)
    then obtain k e where k: "key = Some k" "tbl_get (wx_conns ?s) k = Some e" "ke = (k, e)"
      by (auto simp: bind_eq_Some_conv)
    show ?thesis
    proof (cases "wc_closed (wx_sockets ?s ! cc_socket e)")
      case True
      then have d: "dial_fresh env account headers key (?s\<lparr>wx_conns := tbl_del (wx_conns ?s) k\<rparr>) = (res, s')"
        using c k Some by (simp add: connect_and_cache_def Let_def)
      have "wired env (?s\<lparr>wx_conns := tbl_del (wx_conns ?s) k\<rparr>)"
        using wired_evict [OF wr, of "Some k"] by (simp add: evict_conn_def)
      from wired_dial [OF this d [unfolded key] a] show ?thesis .
    next
      case False
      then have r: "res = Ready (cc_socket e)" "s' = ?s\<lparr>wx_conns := tbl_put (wx_conns ?s) k (e\<lparr>cc_last_used := now_of env ?s\<rparr>)\<rparr>"
        using c k Some by (auto simp: connect_and_cache_def Let_def)
      have "wired env s'"
        unfolding r(2) by (rule wired_frame [OF wr]) (use wr k(2) in \<open>auto simp: wired_def tbl_simps split: if_splits\<close>)
      moreover obtain v b d where "cc_socket e < length (wx_sockets ?s)"
        "k = conn_key_of env (wc_account (wx_sockets ?s ! cc_socket e)) v b d"
        using wr k(2) unfolding wired_def by blast
      moreover have "wc_account (wx_sockets ?s ! cc_socket e) = ca_id account"
      proof -
        have colon: "CHR '':'' \<notin> set (wc_account (wx_sockets ?s ! cc_socket e))"
          using wr nth_mem [OF \<open>cc_socket e < length (wx_sockets ?s)\<close>] unfolding wired_def by blast
        obtain w where "k = conn_key_of env (ca_id account) w body disc" using key k(1) by (cases sk) auto
        with \<open>k = conn_key_of env (wc_account (wx_sockets ?s ! cc_socket e)) v b d\<close>
        have "conn_key_of env (wc_account (wx_sockets ?s ! cc_socket e)) v b d = conn_key_of env (ca_id account) w body disc" by simp
        from conn_key_account [OF this colon a] show ?thesis .
      qed
      ultimately show ?thesis using r by simp
    qed
  qed
qed

lemma wired_started: "wired env s \<Longrightarrow> wired env (started sid res s)"
  by (auto simp: started_def wired_def split: option.split turn_item.split bool.split)

lemma wired_drive:
  assumes "wired env s" "sid < length (wx_sockets s)" "wc_account (wx_sockets s ! sid) = ca_id account"
    and a: "CHR '':'' \<notin> set (ca_id account)" and key: "key = map_option (\<lambda>sk. conn_key_of env (ca_id account) sk body' disc) sk'"
  shows "case drive_turn env account headers key sk body provenance al rl sid ts s of (r, s') \<Rightarrow>
    wired env s' \<and> (\<forall>j first. r = Driven j first \<longrightarrow> wc_account (wx_sockets s' ! j) = ca_id account)"
proof -
  let ?I = "\<lambda>(al :: nat) (rl :: nat) sid s. wired env s \<and> sid < length (wx_sockets s) \<and> wc_account (wx_sockets s ! sid) = ca_id account"
  show ?thesis
  proof (rule drive_turn_rule [where I = ?I and M = ?I])
    fix al rl :: nat and sid ts s res s1
    assume i: "?I al rl sid s" and t: "attempt_turn env body sid ts s = (res, s1)"
    obtain c tick where c: "s1 = (put_socket sid c s)\<lparr>wx_tick := tick\<rparr>" "wc_account c = wc_account (wx_sockets s ! sid)"
      using attempt_keeps [OF t] by blast
    have "wired env (put_socket sid c s)" by (rule wired_put [OF _ _ c(2)]) (use i in simp_all)
    then have "wired env s1" unfolding c(1) by (simp add: wired_def)
    moreover have "wx_sockets s1 = (wx_sockets s)[sid := c]" unfolding c(1) by (simp add: put_socket_def)
    moreover have "wx_sockets (started sid res s1) = wx_sockets s1"
      by (auto simp: started_def split: option.split turn_item.split bool.split)
    ultimately show "case res of
        Some (TurnBytes bytes, _, _) \<Rightarrow> wired env (started sid res s1) \<and>
          (\<forall>j first. Driven sid bytes = Driven j first \<longrightarrow> wc_account (wx_sockets (started sid res s1) ! j) = ca_id account)
      | _ \<Rightarrow> ?I al rl sid s1"
      using i c(2) wired_started by (auto split: option.split turn_item.split)
  next
    fix al rl :: nat and sid s
    assume "?I (Suc al) rl sid s"
    then show "?I al rl sid (put_socket sid (clear_anchor (wx_sockets s ! sid)) s)"
      using wired_put [of env s sid "clear_anchor (wx_sockets s ! sid)"] by (simp add: clear_anchor_def put_socket_def)
  next
    fix al rl :: nat and sid s outcome s2
    assume i: "?I al (Suc rl) sid s" and c: "connect_and_cache env account headers key (evict_conn key s) = (outcome, s2)"
    then show "case outcome of Ready fresh \<Rightarrow> ?I al rl fresh s2
        | UpgradeRequired \<Rightarrow> \<forall>e. wired env (start_account_cooldown env (ca_id account) (disable_session sk s2)) \<and>
            (\<forall>j first. Broken e = Driven j first \<longrightarrow> wc_account (wx_sockets (start_account_cooldown env (ca_id account) (disable_session sk s2)) ! j) = ca_id account)
        | ConnectFailed _ \<Rightarrow> \<forall>e. wired env s2 \<and> (\<forall>j first. Broken e = Driven j first \<longrightarrow> wc_account (wx_sockets s2 ! j) = ca_id account)"
      using wired_connect [OF wired_evict a key c] by (auto simp: wired_marks split: conn_attempt.split)
  qed (use assms(1-3) in auto)
qed

lemma wired_execute:
  assumes w: "wired env s" and a: "CHR '':'' \<notin> set (ca_id account)" and x: "execute_ws env req account ctx s = (r, s')"
  shows "wired env s' \<and> (\<forall>j first. r = Streaming j first \<longrightarrow> wc_account (wx_sockets s' ! j) = ca_id account)"
proof (cases "materialize_body env req")
  case (Inl e)
  then show ?thesis using w x by (auto simp: execute_ws_def Let_def split: if_splits)
next
  case (Inr raw)
  let ?sk = "map_option sk_value (rc_session_key ctx)"
  let ?body = "seed_trace_headers (pr_forward_headers req) raw"
  let ?key = "map_option (\<lambda>sk. conn_key_of env (ca_id account) sk ?body (rc_conn_discriminator ctx)) ?sk"
  obtain outcome s1 where c: "connect_and_cache env account (pr_forward_headers req) ?key s = (outcome, s1)"
    by (cases "connect_and_cache env account (pr_forward_headers req) ?key s")
  note cw = wired_connect [OF w a refl c]
  show ?thesis
  proof (cases outcome)
    case (Ready sid)
    let ?prov = "if Option.bind (jget ''previous_response_id'' ?body) as_str \<noteq> None then ClientProvided else ProxyGenerated"
    obtain res s2 where d: "drive_turn env account (pr_forward_headers req) ?key ?sk ?body ?prov
        (we_max_anchor_miss_retries env) (we_max_reconnect_retries env) sid None s1 = (res, s2)" by fastforce
    have "wired env s2 \<and> (\<forall>j first. res = Driven j first \<longrightarrow> wc_account (wx_sockets s2 ! j) = ca_id account)"
      using wired_drive [OF _ _ _ a refl, where env = env and s = s1 and sid = sid and headers = "pr_forward_headers req" and
          sk' = ?sk and sk = ?sk and body' = ?body and body = ?body and provenance = ?prov and disc = "rc_conn_discriminator ctx" and
          al = "we_max_anchor_miss_retries env" and rl = "we_max_reconnect_retries env" and ts = None] cw Ready d by simp
    then show ?thesis using x w Inr c d Ready
      by (cases res) (auto simp: execute_ws_def Let_def split: if_splits)
  qed (use x w Inr c cw wired_marks in \<open>auto simp: execute_ws_def Let_def split: if_splits\<close>)
qed

lemma wired_poll: "wired env s \<Longrightarrow> wired env (snd (poll_stream env sid ts s))"
proof -
  assume w: "wired env s"
  obtain item over c1 ts1 where r: "read_item env (wc_inbox (wx_sockets s ! sid)) (wx_sockets s ! sid) ts = (item, over, c1, ts1)"
    by (cases "read_item env (wc_inbox (wx_sockets s ! sid)) (wx_sockets s ! sid) ts") auto
  have "wired env (put_socket sid c1 s)"
  proof (cases "sid < length (wx_sockets s)")
    case True
    show ?thesis by (rule wired_put [OF w True]) (use read_item_keeps [OF r] in simp)
  qed (use w in \<open>simp add: put_socket_def list_update_beyond\<close>)
  then show ?thesis using r by (simp add: poll_stream_def Let_def wired_def)
qed

lemma wired_run:
  assumes "rtranclp (exec_step env reqs hangups) new_executor s" "\<forall>(req, account) \<in> reqs. CHR '':'' \<notin> set (ca_id account)"
  shows "wired env s"
  using assms(1)
proof induction
  case base
  then show ?case by (simp add: wired_def new_executor_def)
next
  case (step s s')
  from step(2) show ?case
  proof cases
    case (request req account ctx)
    then have "CHR '':'' \<notin> set (ca_id account)" using assms(2) by blast
    with wired_execute [OF step(3) this, of req ctx] show ?thesis
      unfolding request(1) by (cases "execute_ws env req account ctx s") simp
  next
    case (poll sid ts)
    then show ?thesis using wired_poll [OF step(3)] by simp
  next
    case (hangup sid ts)
    then show ?thesis using step(3) by (simp add: drop_stream_def wired_def)
  qed
qed

text \<open>
  A turn is only ever sent on a socket that was opened for its own account. Over any interleaving of
  requests and streams (hung up or not), whatever is cached, reconnected or reaped in between, the
  stream a request is answered with runs on a connection that was dialled with the credentials of the
  account the request was routed to: account ids hold no colon, so no two accounts share a cache key,
  whatever session keys and discriminators the clients choose.
\<close>

lemma turn_rides_own_socket:
  assumes "rtranclp (exec_step env reqs hangups) new_executor s" "\<forall>(req, account) \<in> reqs. CHR '':'' \<notin> set (ca_id account)"
    "(req, account) \<in> reqs" "execute_ws env req account ctx s = (Streaming sid first, s')"
  shows "wc_account (wx_sockets s' ! sid) = ca_id account"
  using wired_execute [OF wired_run [OF assms(1,2)] _ assms(4)] assms(2,3) by blast

lemma turn_rides_own_socket_example:
  "wc_account (wx_sockets (asked [''a''] new_executor) ! 0) = ''k''"
proof -
  obtain r s' where x: "execute_ws chat_env (ask [''a'']) chat_account chat_ctx new_executor = (r, s')"
    by (cases "execute_ws chat_env (ask [''a'']) chat_account chat_ctx new_executor")
  have "r = Streaming 0 (the (frame_to_sse chat_env ''d''))"
    using x by (simp add: chat_request new_executor_def Let_def) (simp add: chat_turn chat_env_simps Let_def says_parts)
  then have "wc_account (wx_sockets s' ! 0) = ca_id chat_account"
    using turn_rides_own_socket [of chat_env asks False new_executor "ask [''a'']" chat_account chat_ctx 0 "the (frame_to_sse chat_env ''d'')" s'] x
    by (auto simp: asks_def chat_account_def)
  then show ?thesis using x by (simp add: asked_def chat_account_def)
qed

section \<open>Recovery is bounded\<close>

text \<open>How many envelopes the executor has sent so far, over all its sockets.\<close>

definition envelopes :: "ws_exec \<Rightarrow> nat" where
  "envelopes s = sum_list (map (\<lambda>c. length (wc_sends c)) (wx_sockets s))"

lemma envelopes_put:
  "length (wc_sends c) \<le> length (wc_sends (wx_sockets s ! sid)) + n \<Longrightarrow> envelopes (put_socket sid c s) \<le> envelopes s + n"
proof (cases "sid < length (wx_sockets s)")
  case True
  assume "length (wc_sends c) \<le> length (wc_sends (wx_sockets s ! sid)) + n"
  then show ?thesis
    using True elem_le_sum_list [of sid "map (\<lambda>c. length (wc_sends c)) (wx_sockets s)"]
    by (simp add: envelopes_def put_socket_def map_update sum_list_update)
qed (simp add: envelopes_def put_socket_def list_update_beyond)

lemma envelopes_attempt: "attempt_turn env body sid ts s = (res, s') \<Longrightarrow> envelopes s' \<le> envelopes s + 1"
  using attempt_keeps envelopes_put [of _ s sid 1] by (fastforce simp: envelopes_def)

lemma envelopes_frame: "wx_sockets s' = wx_sockets s \<Longrightarrow> envelopes s' = envelopes s"
  by (simp add: envelopes_def)

lemma envelopes_connect: "connect_and_cache env account headers key s = (res, s') \<Longrightarrow> envelopes s' = envelopes s"
  by (auto simp: connect_and_cache_def dial_fresh_def reap_idle_def envelopes_def fresh_conn_def Let_def
      split: option.splits if_splits dial_outcome.splits)

lemma envelopes_marks:
  "envelopes (start_account_cooldown env k s) = envelopes s" "envelopes (disable_session key s) = envelopes s"
  "envelopes (evict_conn key s) = envelopes s" "envelopes (started sid res s) = envelopes s"
  by (auto simp: envelopes_def start_account_cooldown_def disable_session_def evict_conn_def started_def
      split: option.split turn_item.split bool.split)

lemma drive_bounded:
  "case drive_turn env account headers key sk body provenance al rl sid ts s of (r, s') \<Rightarrow> envelopes s' \<le> envelopes s + 1 + al + rl"
proof (rule drive_turn_rule [where I = "\<lambda>a r j t. envelopes t + 1 + a + r \<le> envelopes s + 1 + al + rl" and
      M = "\<lambda>a r j t. envelopes t + a + r \<le> envelopes s + 1 + al + rl"])
  fix a r :: nat and j ts t res t1
  assume "envelopes t + 1 + a + r \<le> envelopes s + 1 + al + rl" "attempt_turn env body j ts t = (res, t1)"
  then show "case res of Some (TurnBytes bytes, _, _) \<Rightarrow> envelopes (started j res t1) \<le> envelopes s + 1 + al + rl
      | _ \<Rightarrow> envelopes t1 + a + r \<le> envelopes s + 1 + al + rl"
    using envelopes_attempt [of env body j ts t res t1] by (auto simp: envelopes_marks split: option.split turn_item.split)
next
  fix a r :: nat and j t
  have "envelopes (put_socket j (clear_anchor (wx_sockets t ! j)) t) \<le> envelopes t + 0"
    by (rule envelopes_put) (simp add: clear_anchor_def)
  then show "envelopes t + Suc a + r \<le> envelopes s + 1 + al + rl \<Longrightarrow>
      envelopes (put_socket j (clear_anchor (wx_sockets t ! j)) t) + 1 + a + r \<le> envelopes s + 1 + al + rl" by simp
next
  fix a r :: nat and j t outcome t2
  assume "envelopes t + a + Suc r \<le> envelopes s + 1 + al + rl" "connect_and_cache env account headers key (evict_conn key t) = (outcome, t2)"
  then show "case outcome of Ready fresh \<Rightarrow> envelopes t2 + 1 + a + r \<le> envelopes s + 1 + al + rl
      | UpgradeRequired \<Rightarrow> \<forall>e. envelopes (start_account_cooldown env (ca_id account) (disable_session sk t2)) \<le> envelopes s + 1 + al + rl
      | ConnectFailed _ \<Rightarrow> \<forall>e. envelopes t2 \<le> envelopes s + 1 + al + rl"
    using envelopes_connect [of env account headers key "evict_conn key t"] by (simp add: envelopes_marks split: conn_attempt.split)
qed auto

text \<open>
  Recovering a turn is bounded. Whatever the server answers, however often it drops the socket or
  forgets an anchor, and whatever state the executor is in, one turn makes it send at most one
  envelope more than the two retry limits allow together (five, with the defaults), over all sockets.
\<close>

lemma recovery_bounded:
  "envelopes (snd (execute_ws env req account ctx s)) \<le>
   envelopes s + 1 + we_max_anchor_miss_retries env + we_max_reconnect_retries env"
proof (cases "materialize_body env req")
  case (Inr raw)
  let ?sk = "map_option sk_value (rc_session_key ctx)"
  let ?body = "seed_trace_headers (pr_forward_headers req) raw"
  let ?key = "map_option (\<lambda>sk. conn_key_of env (ca_id account) sk ?body (rc_conn_discriminator ctx)) ?sk"
  let ?prov = "if Option.bind (jget ''previous_response_id'' ?body) as_str \<noteq> None then ClientProvided else ProxyGenerated"
  obtain outcome s1 where c: "connect_and_cache env account (pr_forward_headers req) ?key s = (outcome, s1)"
    by (cases "connect_and_cache env account (pr_forward_headers req) ?key s")
  note e = envelopes_connect [OF c]
  show ?thesis
  proof (cases outcome)
    case (Ready sid)
    obtain res s2 where d: "drive_turn env account (pr_forward_headers req) ?key ?sk ?body ?prov
        (we_max_anchor_miss_retries env) (we_max_reconnect_retries env) sid None s1 = (res, s2)" by fastforce
    have "envelopes s2 \<le> envelopes s + 1 + we_max_anchor_miss_retries env + we_max_reconnect_retries env"
      using drive_bounded [where env = env and account = account and headers = "pr_forward_headers req" and key = ?key and sk = ?sk and
          body = ?body and provenance = ?prov and al = "we_max_anchor_miss_retries env" and rl = "we_max_reconnect_retries env" and
          sid = sid and ts = None and s = s1] d e by simp
    then show ?thesis using Inr c d Ready by (cases res) (auto simp: execute_ws_def Let_def)
  qed (use Inr c e in \<open>auto simp: execute_ws_def Let_def envelopes_marks\<close>)
qed (simp add: execute_ws_def Let_def)

end
