(* ===== verification/Failover.thy ===== *)
theory Failover
  imports Reselect
begin

text \<open>
  The bounded cross-account failover loop (\<open>run_failover_loop\<close> in \<open>ingress.rs\<close>) with the ride-out of a
  capacity wave and its exits. One turn of the source's loop is \<open>failover_step\<close>; the loop repeats it.
  Time is the milliseconds slept so far plus an arbitrary extra per round.
\<close>

section \<open>Loop state\<close>

record loop_state =
  ls_tried :: "account_id list"
  ls_failed :: account_id
  ls_err :: watchdog_error
  ls_committed :: bool
  ls_all_capacity :: bool
  ls_rounds :: nat
  ls_slept :: nat
  ls_step :: nat

datatype step_result = Finished response | Continue loop_state

type_synonym attempt_log = "(account_id \<times> effect list) list"

definition insert_tried :: "account_id \<Rightarrow> account_id list \<Rightarrow> account_id list" where
  "insert_tried k tried = (if k \<in> set tried then tried else k # tried)"

definition on_registry :: "(registry \<Rightarrow> registry) \<Rightarrow> fleet \<Rightarrow> fleet" where
  "on_registry f fl = fl\<lparr>fl_server := (fl_server fl)\<lparr>sv_registry := f (sv_registry (fl_server fl))\<rparr>\<rparr>"

definition refund_times :: "nat \<Rightarrow> request_ctx \<Rightarrow> fleet \<Rightarrow> fleet" where
  "refund_times n ctx fl = on_registry (refund_attempt (rc_logical_turn_key ctx) ^^ n) fl"

definition prepared_service_tier :: "auth_env \<Rightarrow> prepared_request \<Rightarrow> string option" where
  "prepared_service_tier env req = (case pr_body req of
     Some body \<Rightarrow> Option.bind (jget ''service_tier'' body) as_str
   | None \<Rightarrow> Option.bind (pr_raw_body req)
       (\<lambda>raw. Option.bind (ae_parse env raw) (\<lambda>v. Option.bind (jget ''service_tier'' v) as_str)))"

definition note_unavailable :: "account_id \<Rightarrow> watchdog_error \<Rightarrow> string \<Rightarrow> i64 \<Rightarrow> fleet \<Rightarrow> fleet" where
  "note_unavailable k err model now fl =
     (if watchdog_error_is_model_not_found err
      then fl\<lparr>fl_catalog := note_model_unavailable k model now (fl_catalog fl)\<rparr> else fl)"

section \<open>Exits and the ride-out\<close>

definition capacity_refused_everywhere :: "account_id list \<Rightarrow> watchdog_error \<Rightarrow> request_ctx \<Rightarrow> fleet \<Rightarrow> response \<times> fleet" where
  "capacity_refused_everywhere tried err ctx fl =
     (CapacityRefused (unwrap_or (watchdog_error_code err) ''server_is_overloaded''), refund_times (length tried) ctx fl)"

definition pre_header_cap_secs :: nat where "pre_header_cap_secs = 60"

definition ride_out_pause_ms :: "nat \<Rightarrow> nat" where
  "ride_out_pause_ms rounds = (if rounds = 0 then 5000 else if rounds = 1 then 10000 else if rounds = 2 then 15000 else 20000)"

text \<open>The account to try next, and the tried set, rounds, time and state it leaves.\<close>

definition ride_out_capacity_wave ::
  "failover_env \<Rightarrow> account_snapshot list \<Rightarrow> turn \<Rightarrow> loop_state \<Rightarrow> fleet \<Rightarrow> account_id option \<times> loop_state \<times> fleet" where
  "ride_out_capacity_wave env snapshots t ls fl =
     (let budget = min (fe_ride_out_secs env) pre_header_cap_secs;
          pause = ride_out_pause_ms (ls_rounds ls)
      in if budget = 0 \<or> budget * 1000 < ls_slept ls + fe_extra env (ls_rounds ls) + pause then (None, ls, fl)
         else let fl1 = refund_times (length (ls_tried ls)) (tn_ctx t) fl;
                  ls1 = ls\<lparr>ls_tried := [], ls_rounds := ls_rounds ls + 1, ls_slept := ls_slept ls + pause\<rparr>
              in case fe_pick env (ls_step ls) snapshots (tn_sel t) of
                   None \<Rightarrow> (None, ls1, fl1)
                 | Some k \<Rightarrow> (Some k, ls1, on_states (record_selected k (fe_now env (ls_step ls))) fl1))"

section \<open>One attempt of the loop\<close>

definition attempt_next ::
  "failover_env \<Rightarrow> turn \<Rightarrow> u32 \<Rightarrow> account_id \<Rightarrow> loop_state \<Rightarrow> fleet \<Rightarrow> step_result \<times> attempt_log \<times> fleet" where
  "attempt_next env t max_attempts fresh ls fl =
     (case attempt_on env (ls_step ls) fresh t max_attempts fl of
        (Unresolved refusal, fx, fl1) \<Rightarrow> (Finished (AuthRefused refusal), [], fl1)
      | (NotAdmitted, fx, fl1) \<Rightarrow> (Finished (AdmissionRefused fresh), [], fl1)
      | (Served ob lease, fx, fl1) \<Rightarrow> (Finished (Stream ob lease), [(fresh, fx)], fl1)
      | (AttemptPanicked, fx, fl1) \<Rightarrow> (Finished PanicResponse, [(fresh, fx)], fl1)
      | (AttemptFailed err committed, fx, fl1) \<Rightarrow>
          (Continue (ls\<lparr>ls_failed := fresh, ls_err := err, ls_committed := committed,
             ls_all_capacity := ls_all_capacity ls \<and> \<not> committed \<and> is_transient_capacity_refusal err,
             ls_step := ls_step ls + 1\<rparr>), [(fresh, fx)],
           note_unavailable fresh err (pr_model (tn_req t)) (fe_now env (ls_step ls)) fl1))"

definition exhausted ::
  "failover_env \<Rightarrow> nat \<Rightarrow> account_snapshot list \<Rightarrow> turn \<Rightarrow> loop_state \<Rightarrow> fleet \<Rightarrow> response \<times> attempt_log \<times> fleet" where
  "exhausted env budget_ms candidates t ls fl =
     (case try_layer1_serve_now env (ls_step ls) candidates t fl of
        (Some resp, tr, fl1) \<Rightarrow> (resp, tr, fl1)
      | (None, tr, fl1) \<Rightarrow>
          (case try_layer2_recovery_wait budget_ms candidates t of
             Some resp \<Rightarrow> (resp, tr, fl1)
           | None \<Rightarrow>
               (if ctx_require_security (tn_sel t) then (NoAuthorizedAccount, tr, fl1)
                else (SurfacedError (ls_err ls), tr, fl1))))"

definition failover_step ::
  "failover_env \<Rightarrow> nat \<Rightarrow> u32 \<Rightarrow> account_snapshot list \<Rightarrow> turn \<Rightarrow> loop_state \<Rightarrow> fleet \<Rightarrow> step_result \<times> attempt_log \<times> fleet" where
  "failover_step env budget_ms max_attempts snapshots t ls fl =
     (let attempts_left = (length (ls_tried ls) + 1 < max_attempts) in
      if failover_verdict (ls_err ls) attempts_left (ls_committed ls) = Surface
      then (if ls_all_capacity ls \<and> \<not> attempts_left
            then let (resp, fl1) = capacity_refused_everywhere (insert_tried (ls_failed ls) (ls_tried ls)) (ls_err ls) (tn_ctx t) fl
                 in (Finished resp, [], fl1)
            else (Finished (SurfacedError (ls_err ls)), [], fl))
      else
        (let ls1 = ls\<lparr>ls_tried := insert_tried (ls_failed ls) (ls_tried ls)\<rparr>;
             candidates = retain_accounts_serving (fl_catalog fl) (pr_model (tn_req t))
               (prepared_service_tier (fe_auth env) (tn_req t)) (fe_now env (ls_step ls))
               (exclude_tried snapshots (ls_tried ls1))
         in case fe_pick env (ls_step ls) candidates (tn_sel t) of
              Some fresh \<Rightarrow> attempt_next env t max_attempts fresh ls1 fl
            | None \<Rightarrow>
                (if ls_all_capacity ls1
                 then (case ride_out_capacity_wave env snapshots t ls1 fl of
                         (Some fresh, ls2, fl1) \<Rightarrow> attempt_next env t max_attempts fresh ls2 fl1
                       | (None, ls2, fl1) \<Rightarrow>
                           (let (resp, fl2) = capacity_refused_everywhere (ls_tried ls2) (ls_err ls2) (tn_ctx t) fl1
                            in (Finished resp, [], fl2)))
                 else let (resp, tr, fl1) = exhausted env budget_ms candidates t ls1 fl
                      in (Finished resp, tr, fl1))))"

text \<open>The loop. \<open>None\<close> means that the fuel ran out.\<close>

fun failover_loop ::
  "nat \<Rightarrow> failover_env \<Rightarrow> nat \<Rightarrow> u32 \<Rightarrow> account_snapshot list \<Rightarrow> turn \<Rightarrow> loop_state \<Rightarrow> fleet \<Rightarrow>
   (response \<times> attempt_log \<times> fleet) option" where
  "failover_loop 0 env budget_ms max_attempts snapshots t ls fl = None"
| "failover_loop (Suc fuel) env budget_ms max_attempts snapshots t ls fl =
     (case failover_step env budget_ms max_attempts snapshots t ls fl of
        (Finished resp, tr, fl1) \<Rightarrow> Some (resp, tr, fl1)
      | (Continue ls1, tr, fl1) \<Rightarrow>
          map_option (\<lambda>(resp, rest, fl2). (resp, tr @ rest, fl2))
            (failover_loop fuel env budget_ms max_attempts snapshots t ls1 fl1))"

definition first_state :: "account_id \<Rightarrow> watchdog_error \<Rightarrow> bool \<Rightarrow> loop_state" where
  "first_state failed err committed = \<lparr>ls_tried = [], ls_failed = failed, ls_err = err, ls_committed = committed,
     ls_all_capacity = (\<not> committed \<and> is_transient_capacity_refusal err), ls_rounds = 0, ls_slept = 0, ls_step = 0\<rparr>"

definition run_failover_loop ::
  "nat \<Rightarrow> failover_env \<Rightarrow> nat \<Rightarrow> u32 \<Rightarrow> account_snapshot list \<Rightarrow> turn \<Rightarrow> account_id \<Rightarrow> watchdog_error \<Rightarrow> bool \<Rightarrow> fleet \<Rightarrow>
   (response \<times> attempt_log \<times> fleet) option" where
  "run_failover_loop fuel env budget_ms max_attempts snapshots t failed err committed fl =
     failover_loop fuel env budget_ms max_attempts snapshots t (first_state failed err committed)
       (note_unavailable failed err (pr_model (tn_req t)) (tn_now t) fl)"

end
