(* ===== verification/Model_Catalog_Props.thy ===== *)
theory Model_Catalog_Props
  imports Model_Catalog "HOL-Library.Sublist"
begin

text \<open>
  Properties of the model catalog: the union advertised for a scope is exact, down to the service tiers;
  the gates never empty a pool; and every advertised model is routed to the accounts that hold it.
\<close>

section \<open>The union of a scope\<close>

abbreviation slugs :: "upstream_model list \<Rightarrow> string set" where
  "slugs ms \<equiv> um_slug ` set ms"

lemma merge_slug [simp]: "um_slug (merge_model_capabilities k m) = um_slug k"
  by (simp add: merge_model_capabilities_def)

lemma absorb_slugs: "slugs (absorb_model acc m) = insert (um_slug m) (slugs acc)"
  by (induction acc) auto

lemma absorb_distinct: "distinct (map um_slug acc) \<Longrightarrow> distinct (map um_slug (absorb_model acc m))"
proof (induction acc)
  case (Cons k acc)
  have "um_slug ` set (absorb_model acc m) = insert (um_slug m) (slugs acc)" by (rule absorb_slugs)
  with Cons show ?case by auto
qed simp

lemma union_slugs: "slugs (foldl absorb_model acc ms) = slugs acc \<union> slugs ms"
  by (induction ms arbitrary: acc) (auto simp: absorb_slugs)

lemma union_distinct: "distinct (map um_slug acc) \<Longrightarrow> distinct (map um_slug (foldl absorb_model acc ms))"
  by (induction ms arbitrary: acc) (auto simp: absorb_distinct)

text \<open>The tiers an entry advertises under a key.\<close>

definition ids_of :: "json list \<Rightarrow> string set" where
  "ids_of vs = {i. \<exists>v \<in> set vs. tier_identity v = Some i}"

definition tier_ids :: "string \<Rightarrow> json \<Rightarrow> string set" where
  "tier_ids key raw = (case Option.bind (jget key raw) as_array of None \<Rightarrow> {} | Some vs \<Rightarrow> ids_of vs)"

definition entry_ok :: "json \<Rightarrow> bool" where
  "entry_ok raw \<longleftrightarrow> (\<exists>kvs. raw = JObj kvs) \<and>
     (\<forall>key \<in> set tier_keys. \<forall>v. jget key raw = Some v \<longrightarrow> (\<exists>vs. v = JArr vs))"

lemma add_tier_ids: "ids_of (foldl add_tier vs extra) = ids_of vs \<union> ids_of extra"
proof (induction extra arbitrary: vs)
  case (Cons e extra)
  have "ids_of (add_tier vs e) = ids_of vs \<union> ids_of [e]"
    by (auto simp: add_tier_def ids_of_def split: option.splits)
  with Cons.IH [of "add_tier vs e"] show ?case by (auto simp: ids_of_def)
qed (simp add: ids_of_def)

lemma ids_of_Nil [simp]: "ids_of [] = {}"
  by (simp add: ids_of_def)

lemma merge_tiers_get:
  assumes "entry_ok kept" "key \<in> set tier_keys"
  shows "tier_ids key (merge_tiers key other kept) = tier_ids key kept \<union> tier_ids key other"
    and "x \<noteq> key \<Longrightarrow> jget x (merge_tiers key other kept) = jget x kept"
    and "entry_ok (merge_tiers key other kept)"
proof -
  obtain kvs where k: "kept = JObj kvs" using assms(1) by (auto simp: entry_ok_def)
  have arr: "map_of kvs key = None \<or> (\<exists>have. map_of kvs key = Some (JArr have))"
    using assms k unfolding entry_ok_def by (cases "map_of kvs key") auto
  show "tier_ids key (merge_tiers key other kept) = tier_ids key kept \<union> tier_ids key other"
    using arr by (auto simp: merge_tiers_def k tier_ids_def obj_put_get add_tier_ids split: option.split)
  show other: "jget x (merge_tiers key other kept) = jget x kept" if "x \<noteq> key" for x
    using arr that by (auto simp: merge_tiers_def k obj_put_get split: option.split)
  have "\<forall>v. jget key (merge_tiers key other kept) = Some v \<longrightarrow> (\<exists>vs. v = JArr vs)"
    using arr by (auto simp: merge_tiers_def k obj_put_get split: option.split)
  moreover have "\<exists>kvs'. merge_tiers key other kept = JObj kvs'"
    using arr by (auto simp: merge_tiers_def k split: option.split)
  ultimately show "entry_ok (merge_tiers key other kept)"
    using assms(1) other unfolding entry_ok_def by metis
qed

lemma tier_ids_cong: "jget key a = jget key b \<Longrightarrow> tier_ids key a = tier_ids key b"
  by (simp add: tier_ids_def)

lemma merge_capabilities:
  assumes "entry_ok (um_raw kept)" "key \<in> set tier_keys"
  shows "tier_ids key (um_raw (merge_model_capabilities kept other)) = tier_ids key (um_raw kept) \<union> tier_ids key (um_raw other)"
    and "entry_ok (um_raw (merge_model_capabilities kept other))"
proof -
  define a where "a = merge_tiers ''service_tiers'' (um_raw other) (um_raw kept)"
  define b where "b = merge_tiers ''additional_speed_tiers'' (um_raw other) a"
  have keys: "''service_tiers'' \<in> set tier_keys" "''additional_speed_tiers'' \<in> set tier_keys"
    by (simp_all add: tier_keys_def)
  have raw: "um_raw (merge_model_capabilities kept other) = b"
    by (simp add: merge_model_capabilities_def tier_keys_def a_def b_def)
  note A = merge_tiers_get [OF assms(1) keys(1), where other = "um_raw other", folded a_def]
  note B = merge_tiers_get [OF A(3) keys(2), where other = "um_raw other", folded b_def]
  show "entry_ok (um_raw (merge_model_capabilities kept other))" using B(3) raw by simp
  consider "key = ''service_tiers''" | "key = ''additional_speed_tiers''" using assms(2) by (auto simp: tier_keys_def)
  then show "tier_ids key (um_raw (merge_model_capabilities kept other)) = tier_ids key (um_raw kept) \<union> tier_ids key (um_raw other)"
    unfolding raw
  proof cases
    case 1
    then show "tier_ids key b = tier_ids key (um_raw kept) \<union> tier_ids key (um_raw other)"
      using A(1) tier_ids_cong [OF B(2), of key] by simp
  next
    case 2
    then show "tier_ids key b = tier_ids key (um_raw kept) \<union> tier_ids key (um_raw other)"
      using B(1) tier_ids_cong [OF A(2), of key] by simp
  qed
qed

text \<open>The tiers that some entry of a list advertises for a slug.\<close>

definition tiers_in :: "string \<Rightarrow> upstream_model list \<Rightarrow> string \<Rightarrow> string set" where
  "tiers_in key ms slug = (\<Union>m \<in> {m \<in> set ms. um_slug m = slug}. tier_ids key (um_raw m))"

lemma tiers_in_Cons:
  "tiers_in key (m # ms) slug = (if um_slug m = slug then tier_ids key (um_raw m) else {}) \<union> tiers_in key ms slug"
  by (auto simp: tiers_in_def)

lemma tiers_in_Nil [simp]: "tiers_in key [] slug = {}"
  by (simp add: tiers_in_def)

lemma absorb_tiers:
  assumes "\<forall>a \<in> set acc. entry_ok (um_raw a)" "key \<in> set tier_keys"
  shows "tiers_in key (absorb_model acc m) slug = tiers_in key acc slug \<union> tiers_in key [m] slug"
  using assms(1)
proof (induction acc)
  case (Cons k acc)
  have "tier_ids key (um_raw (merge_model_capabilities k m)) = tier_ids key (um_raw k) \<union> tier_ids key (um_raw m)"
    using merge_capabilities(1) [OF _ assms(2), of k m] Cons.prems by simp
  moreover have "tiers_in key (absorb_model acc m) slug = tiers_in key acc slug \<union> tiers_in key [m] slug"
    using Cons by simp
  ultimately show ?case
    by (cases "um_slug k = um_slug m"; cases "um_slug k = slug"; cases "um_slug m = slug")
      (simp_all add: tiers_in_Cons Un_assoc Un_left_commute Un_commute)
qed (simp add: tiers_in_Cons)

lemma absorb_entries:
  "\<forall>a \<in> set acc. entry_ok (um_raw a) \<Longrightarrow> entry_ok (um_raw m) \<Longrightarrow> \<forall>a \<in> set (absorb_model acc m). entry_ok (um_raw a)"
  using merge_capabilities(2) [of _ "''service_tiers''"] by (induction acc) (auto simp: tier_keys_def)

lemma union_tiers:
  assumes "\<forall>a \<in> set acc. entry_ok (um_raw a)" "\<forall>m \<in> set ms. entry_ok (um_raw m)" "key \<in> set tier_keys"
  shows "tiers_in key (foldl absorb_model acc ms) slug = tiers_in key acc slug \<union> tiers_in key ms slug"
  using assms(1,2)
proof (induction ms arbitrary: acc)
  case (Cons m ms)
  have e: "\<forall>a \<in> set (absorb_model acc m). entry_ok (um_raw a)"
    by (rule absorb_entries [OF Cons.prems(1)]) (use Cons.prems(2) in simp)
  have "tiers_in key (foldl absorb_model acc (m # ms)) slug = tiers_in key (absorb_model acc m) slug \<union> tiers_in key ms slug"
    unfolding foldl_Cons by (rule Cons.IH [OF e]) (use Cons.prems(2) in simp)
  then show ?case
    unfolding absorb_tiers [OF Cons.prems(1) assms(3)] by (simp add: tiers_in_Cons Un_assoc)
qed simp

definition member_models :: "account_catalog list \<Rightarrow> upstream_model list" where
  "member_models cats = concat (map (\<lambda>(_, c). fcat_models c) cats)"

lemma tiers_in_set: "set ms = set ms' \<Longrightarrow> tiers_in key ms slug = tiers_in key ms' slug"
  by (simp add: tiers_in_def)

text \<open>
  The catalog advertised for a scope is the exact union of its members' catalogs. Each slug that
  some member lists appears once, in ascending order, and nothing else does; and a service tier is
  advertised for a slug exactly when some member's entry for it does.
\<close>

lemma scoped_union_exact:
  assumes "build_scoped_catalog env scope cats = Some cat" "\<forall>m \<in> set (member_models cats). entry_ok (um_raw m)"
  shows "sorted (map um_slug (sc_models cat)) \<and> distinct (map um_slug (sc_models cat)) \<and>
    slugs (sc_models cat) = slugs (member_models cats) \<and>
    (\<forall>key \<in> set tier_keys. \<forall>m \<in> set (sc_models cat).
       tier_ids key (um_raw m) = tiers_in key (member_models cats) (um_slug m))"
proof -
  let ?u = "union_models (sort_key fst cats)"
  have sc: "sc_models cat = sort_key um_slug ?u"
    using assms(1) by (auto simp: build_scoped_catalog_def sorted_union_def Let_def split: if_splits)
  have mm: "set (member_models (sort_key fst cats)) = set (member_models cats)" by (auto simp: member_models_def)
  have u: "?u = foldl absorb_model [] (member_models (sort_key fst cats))" by (simp add: union_models_def member_models_def)
  have d: "distinct (map um_slug (sc_models cat))"
    using union_distinct [of "[]"] unfolding sc u by (simp add: distinct_map)
  have t: "tiers_in key (sc_models cat) slug = tiers_in key (member_models cats) slug" if "key \<in> set tier_keys" for key slug
    unfolding sc tiers_in_set [OF set_sort] u
    using union_tiers [of "[]" "member_models (sort_key fst cats)" key slug] assms(2) that mm tiers_in_set [OF mm]
    by simp
  have "tier_ids key (um_raw m) = tiers_in key (sc_models cat) (um_slug m)" if "m \<in> set (sc_models cat)" for key m
  proof -
    have "{m' \<in> set (sc_models cat). um_slug m' = um_slug m} = {m}"
      using that d by (auto simp: distinct_map dest: inj_onD)
    then show ?thesis by (simp add: tiers_in_def)
  qed
  moreover have "slugs (sc_models cat) = slugs (member_models cats)"
    unfolding sc u set_sort union_slugs using mm by auto
  ultimately show ?thesis using d t sc by simp
qed

text \<open>Two accounts: the second adds a slug and a tier of the shared one.\<close>

definition tier_entry :: "string \<Rightarrow> string list \<Rightarrow> upstream_model" where
  "tier_entry slug tiers = \<lparr>um_slug = slug, um_display_name = slug, um_context_window = None, um_prefer_websockets = None,
     um_raw = JObj [(''service_tiers'', JArr (map JStr tiers))]\<rparr>"

definition two_seats :: "account_catalog list" where
  "two_seats = [(''b'', \<lparr>fcat_models = [tier_entry ''m'' [''p'', ''u''], tier_entry ''k'' []], fcat_etag = None\<rparr>),
     (''a'', \<lparr>fcat_models = [tier_entry ''m'' [''p'']], fcat_etag = None\<rparr>)]"

lemma two_seats_ok: "\<forall>m \<in> set (member_models two_seats). entry_ok (um_raw m)"
  by (simp add: member_models_def two_seats_def tier_entry_def entry_ok_def tier_keys_def)

lemma two_seats_built: "\<exists>cat. build_scoped_catalog env [''a'', ''b''] two_seats = Some cat"
proof -
  have "map fst (sort_key fst two_seats) = [''a'', ''b'']" by code_simp
  moreover have "\<not> (\<exists>(_, c) \<in> set (sort_key fst two_seats). fcat_models c = [])"
    by (simp add: two_seats_def)
  ultimately show ?thesis by (simp add: build_scoped_catalog_def Let_def)
qed

lemma scoped_union_exact_example:
  "\<forall>env. \<exists>cat. build_scoped_catalog env [''a'', ''b''] two_seats = Some cat \<and> slugs (sc_models cat) = {''m'', ''k''} \<and>
     (\<forall>m \<in> set (sc_models cat). um_slug m = ''m'' \<longrightarrow> tier_ids ''service_tiers'' (um_raw m) = {''p'', ''u''})"
proof
  fix env
  obtain cat where cat: "build_scoped_catalog env [''a'', ''b''] two_seats = Some cat"
    using two_seats_built by blast
  have "slugs (member_models two_seats) = {''m'', ''k''}"
    by (auto simp: member_models_def two_seats_def tier_entry_def)
  moreover have "tiers_in ''service_tiers'' (member_models two_seats) ''m'' = {''p'', ''u''}"
    by (auto simp: member_models_def two_seats_def tier_entry_def tiers_in_Cons tier_ids_def ids_of_def tier_identity_def opt_or_def)
  ultimately show "\<exists>cat. build_scoped_catalog env [''a'', ''b''] two_seats = Some cat \<and> slugs (sc_models cat) = {''m'', ''k''} \<and>
     (\<forall>m \<in> set (sc_models cat). um_slug m = ''m'' \<longrightarrow> tier_ids ''service_tiers'' (um_raw m) = {''p'', ''u''})"
    using cat scoped_union_exact [OF cat two_seats_ok] by (auto simp: tier_keys_def)
qed

section \<open>The gates\<close>

lemma evidence_subseq: "subseq (retain_by_evidence verdict ss) ss"
  by (simp add: retain_by_evidence_def)

lemma evidence_ne: "ss \<noteq> [] \<Longrightarrow> retain_by_evidence verdict ss \<noteq> []"
proof (cases "\<exists>s \<in> set ss. verdict s = Some True")
  case True
  then obtain s where "s \<in> set ss" "verdict s \<noteq> Some False" by auto
  with True show ?thesis by (auto simp: retain_by_evidence_def filter_empty_conv)
qed (auto simp: retain_by_evidence_def)

lemma evidence_set:
  "s \<in> set (retain_by_evidence verdict ss) \<longleftrightarrow>
     s \<in> set ss \<and> ((\<exists>t \<in> set ss. verdict t = Some True) \<longrightarrow> verdict s \<noteq> Some False)"
  by (auto simp: retain_by_evidence_def)

lemma available_subseq: "subseq (retain_accounts_available_for mc model now ss) ss"
  by (simp add: retain_accounts_available_for_def Let_def)

lemma available_ne: "ss \<noteq> [] \<Longrightarrow> retain_accounts_available_for mc model now ss \<noteq> []"
  by (auto simp: retain_accounts_available_for_def Let_def)

lemma available_set:
  "s \<in> set (retain_accounts_available_for mc model now ss) \<longleftrightarrow>
     s \<in> set ss \<and> ((\<exists>t \<in> set ss. \<not> model_unavailable mc (snap_id t) model now) \<longrightarrow> \<not> model_unavailable mc (snap_id s) model now)"
proof -
  let ?f = "filter (\<lambda>s. \<not> model_unavailable mc (snap_id s) model now) ss"
  have "length ?f = length ss \<longleftrightarrow> (\<forall>t \<in> set ss. \<not> model_unavailable mc (snap_id t) model now)"
    using filter_id_conv [of "\<lambda>s. \<not> model_unavailable mc (snap_id s) model now" ss]
      length_filter_less [of _ ss "\<lambda>s. \<not> model_unavailable mc (snap_id s) model now"] by fastforce
  moreover have "length ?f = 0 \<longleftrightarrow> (\<forall>t \<in> set ss. model_unavailable mc (snap_id t) model now)"
    by (simp add: filter_empty_conv)
  ultimately show ?thesis by (auto simp: retain_accounts_available_for_def Let_def)
qed

lemmas gate_subseq = evidence_subseq available_subseq
lemmas gate_ne = evidence_ne available_ne
lemmas gate_set = evidence_set available_set

lemma serving_subseq: "subseq (retain_accounts_serving mc model tier now ss) ss"
  unfolding retain_accounts_serving_def retain_accounts_supporting_def retain_accounts_supporting_tier_def
  by (auto split: option.split intro!: gate_subseq intro: subseq_order.order_trans [OF evidence_subseq]
      subseq_order.order_trans [OF available_subseq])

text \<open>
  The model and tier gates fail open and never reorder. What they keep is a subsequence of the
  candidates, it is empty only when there were none, and evidence decides: once some candidate is known
  to serve the model, none known to lack it is kept, and none flagged as unavailable is kept while an
  unflagged one remains.
\<close>

lemma model_gates_fail_open:
  fixes mc model tier now ss
  defines "kept \<equiv> retain_accounts_serving mc model tier now ss"
  shows "subseq kept ss \<and> (kept = [] \<longleftrightarrow> ss = []) \<and>
    (\<forall>s \<in> set kept.
       ((\<exists>t \<in> set ss. account_supports_model mc (snap_id t) model = Some True) \<longrightarrow>
          account_supports_model mc (snap_id s) model \<noteq> Some False) \<and>
       ((\<exists>t \<in> set (retain_by_evidence (\<lambda>s. account_supports_model mc (snap_id s) model) ss).
           \<not> model_unavailable mc (snap_id t) model now) \<longrightarrow> \<not> model_unavailable mc (snap_id s) model now))"
proof -
  have ne: "kept \<noteq> []" if "ss \<noteq> []"
    using that unfolding kept_def retain_accounts_serving_def retain_accounts_supporting_def retain_accounts_supporting_tier_def
    by (auto split: option.split intro!: gate_ne)
  have sub: "subseq kept ss" unfolding kept_def by (rule serving_subseq)
  have "set kept \<subseteq> set (retain_accounts_supporting mc model now ss)"
    unfolding kept_def retain_accounts_serving_def retain_accounts_supporting_tier_def
    by (auto simp: evidence_set split: option.splits)
  then have "\<forall>s \<in> set kept. s \<in> set (retain_accounts_supporting mc model now ss)" by blast
  then show ?thesis
    using sub ne by (auto simp: retain_accounts_supporting_def gate_set)
qed

lemma model_gates_fail_open_example:
  "\<forall>mc model tier now. retain_accounts_serving mc model tier now [new_snapshot ''a''] = [new_snapshot ''a'']"
proof (intro allI)
  fix mc model tier now
  have "subseq (retain_accounts_serving mc model tier now [new_snapshot ''a'']) [new_snapshot ''a'']"
    "retain_accounts_serving mc model tier now [new_snapshot ''a''] \<noteq> []"
    using model_gates_fail_open [of mc model tier now "[new_snapshot ''a'']"] by simp_all
  then show "retain_accounts_serving mc model tier now [new_snapshot ''a''] = [new_snapshot ''a'']"
    by (cases "retain_accounts_serving mc model tier now [new_snapshot ''a'']") (auto split: if_splits)
qed

section \<open>From the catalog to the gate\<close>

text \<open>What an account is known to support is what its cached catalog lists.\<close>

definition support_ok :: "model_catalog \<Rightarrow> bool" where
  "support_ok mc \<longleftrightarrow> (\<forall>k c t. tbl_get (mc_accounts mc) k = Some (c, t) \<longrightarrow>
     tbl_get (mc_support mc) k = Some (map um_slug (fcat_models c)))"

lemma support_take:
  "support_ok (snd (snd acc)) \<Longrightarrow> support_ok (snd (snd (take_catalog missing t acc entry)))"
  by (auto simp: support_ok_def take_catalog_def Let_def tbl_simps split: prod.split)

lemma support_takes:
  "support_ok (snd (snd acc)) \<Longrightarrow> support_ok (snd (snd (foldl (take_catalog missing t) acc entries)))"
  by (induction entries arbitrary: acc) (simp_all add: support_take)

lemma support_cong:
  "mc_accounts mc' = mc_accounts mc \<Longrightarrow> mc_support mc' = mc_support mc \<Longrightarrow> support_ok mc' = support_ok mc"
  by (simp add: support_ok_def)

lemma support_project: "support_ok (snd (project_scope env now scope mc)) = support_ok mc"
  by (rule support_cong) (auto simp: project_scope_def store_scoped_def split: option.split)

lemma support_refresh:
  assumes "support_ok mc"
  shows "support_ok (snd (get_or_refresh_scoped env t0 t1 fetch ids mc))"
proof -
  have n: "support_ok (note_retries missing ok at_time mc') = support_ok mc'" for missing ok at_time mc'
    by (rule support_cong) (simp_all add: note_retries_def)
  show ?thesis
    using assms support_takes [of "([], [], mc)"]
    by (auto simp: get_or_refresh_scoped_def Let_def support_project n case_prod_beta split: option.split)
qed

lemma strict_projection:
  assumes "fresh_account_catalogs now scope mc = Some (cats, oldest)" "build_scoped_catalog env scope cats = Some cat"
  shows "map fst cats = scope" and "slugs (sc_models cat) = slugs (member_models cats)"
    and "(k, c) \<in> set cats \<Longrightarrow> \<exists>t. tbl_get (mc_accounts mc) k = Some (c, t)"
proof -
  show "map fst cats = scope" using assms(1) by (auto simp: fresh_account_catalogs_def Let_def comp_def split: if_splits)
  have "sc_models cat = sort_key um_slug (union_models (sort_key fst cats))"
    using assms(2) by (auto simp: build_scoped_catalog_def sorted_union_def Let_def split: if_splits)
  then have "slugs (sc_models cat) = slugs (member_models (sort_key fst cats))"
    using union_slugs [of "[]"] by (simp add: union_models_def member_models_def)
  then show "slugs (sc_models cat) = slugs (member_models cats)" by (simp add: member_models_def)
  show "\<exists>t. tbl_get (mc_accounts mc) k = Some (c, t)" if "(k, c) \<in> set cats"
  proof -
    define member where "member = (\<lambda>k. opt_filter (\<lambda>(_, fetched). is_fresh now mc fetched) (tbl_get (mc_accounts mc) k))"
    have m: "\<forall>k \<in> set scope. member k \<noteq> None" "cats = map (\<lambda>k. (k, fst (the (member k)))) scope"
      using assms(1) unfolding fresh_account_catalogs_def Let_def member_def [symmetric] by (simp_all split: if_splits)
    with that have "k \<in> set scope" "c = fst (the (member k))" by auto
    with m(1) obtain e where e: "member k = Some e" "c = fst e" by fastforce
    then have "tbl_get (mc_accounts mc) k = Some e" unfolding member_def by (auto simp: opt_filter_Some)
    then show ?thesis using e(2) by (cases e) simp
  qed
qed

text \<open>
  C22: Every model in the catalog advertised for a scope can be routed, and to the right accounts. When
  the scope's candidates are offered for an advertised slug that is neither capped nor declared, the
  evidence gate keeps exactly the accounts whose catalog lists it, and there is at least one.
\<close>

theorem advertised_models_routed_to_holders:
  assumes "support_ok mc" "fresh_account_catalogs now scope mc = Some (cats, oldest)"
    and "build_scoped_catalog env scope cats = Some cat" "slug \<in> slugs (sc_models cat)"
    and "snap_id ` set ss = set scope"
    and "\<forall>k \<in> set scope. \<not> is_capped mc slug k \<and> Option.bind (tbl_get (mc_declared mc) k) (\<lambda>m. tbl_get m slug) = None"
  shows "retain_by_evidence (\<lambda>s. account_supports_model mc (snap_id s) slug) ss =
      filter (\<lambda>s. \<exists>c. (snap_id s, c) \<in> set cats \<and> slug \<in> slugs (fcat_models c)) ss \<and>
    (\<exists>s \<in> set ss. \<exists>c. (snap_id s, c) \<in> set cats \<and> slug \<in> slugs (fcat_models c))"
proof -
  note sp = strict_projection [OF assms(2,3)]
  define holds where "holds = (\<lambda>k. \<exists>c. (k, c) \<in> set cats \<and> slug \<in> slugs (fcat_models c))"
  have sup: "account_supports_model mc k slug = Some (holds k)" if "k \<in> set scope" for k
  proof -
    from that sp(1) obtain c where c: "(k, c) \<in> set cats" by force
    then obtain t where t: "tbl_get (mc_accounts mc) k = Some (c, t)" using sp(3) by blast
    have "holds k \<longleftrightarrow> slug \<in> slugs (fcat_models c)"
      using c t sp(3) unfolding holds_def by fastforce
    moreover have "tbl_get (mc_support mc) k = Some (map um_slug (fcat_models c))"
      using assms(1) t unfolding support_ok_def by blast
    ultimately show ?thesis using assms(6) that by (simp add: account_supports_model_def)
  qed
  have ids: "snap_id s \<in> set scope" if "s \<in> set ss" for s using assms(5) that by blast
  from assms(4) sp(2) obtain k c where kc: "(k, c) \<in> set cats" "slug \<in> slugs (fcat_models c)"
    by (auto simp: member_models_def)
  then have "k \<in> set scope" using sp(1) by force
  then obtain s where "s \<in> set ss" "snap_id s = k" using assms(5) by (metis imageE)
  then have ex: "\<exists>s \<in> set ss. holds (snap_id s)" using kc unfolding holds_def by blast
  have "retain_by_evidence (\<lambda>s. account_supports_model mc (snap_id s) slug) ss = filter (\<lambda>s. holds (snap_id s)) ss"
    using ex sup ids unfolding retain_by_evidence_def
    by (auto intro!: filter_cong)
  then show ?thesis using ex unfolding holds_def by simp
qed

definition seats_catalog :: model_catalog where
  "seats_catalog = \<lparr>mc_cached = None, mc_scoped = [], mc_accounts = map (\<lambda>(k, c). (k, (c, 0))) two_seats,
     mc_support = map (\<lambda>(k, c). (k, map um_slug (fcat_models c))) two_seats, mc_retry_after = [], mc_declared = [],
     mc_capped = [], mc_unavailable = [], mc_floor = [], mc_ttl = 10\<rparr>"

lemma two_seats_rev: "\<exists>cat. build_scoped_catalog env [''a'', ''b''] (rev two_seats) = Some cat"
proof -
  have "map fst (sort_key fst (rev two_seats)) = [''a'', ''b'']" by code_simp
  moreover have "\<not> (\<exists>(_, c) \<in> set (sort_key fst (rev two_seats)). fcat_models c = [])"
    by (simp add: two_seats_def)
  ultimately show ?thesis by (simp add: build_scoped_catalog_def Let_def)
qed

theorem advertised_models_routed_to_holders_witness:
  "retain_by_evidence (\<lambda>s. account_supports_model seats_catalog (snap_id s) ''k'') [new_snapshot ''a'', new_snapshot ''b''] =
     [new_snapshot ''b'']"
proof -
  obtain env cat where cat: "build_scoped_catalog env [''a'', ''b''] (rev two_seats) = Some cat"
    using two_seats_rev by blast
  have f: "fresh_account_catalogs 1 [''a'', ''b''] seats_catalog = Some (rev two_seats, 0)"
    by (simp add: fresh_account_catalogs_def seats_catalog_def two_seats_def is_fresh_def)
  have s: "support_ok seats_catalog"
    by (auto simp: support_ok_def seats_catalog_def two_seats_def split: if_splits)
  have k: "''k'' \<in> slugs (sc_models cat)"
    using strict_projection(2) [OF f cat] by (auto simp: member_models_def two_seats_def tier_entry_def)
  have "retain_by_evidence (\<lambda>s. account_supports_model seats_catalog (snap_id s) ''k'') [new_snapshot ''a'', new_snapshot ''b''] =
      filter (\<lambda>s. \<exists>c. (snap_id s, c) \<in> set (rev two_seats) \<and> ''k'' \<in> slugs (fcat_models c)) [new_snapshot ''a'', new_snapshot ''b'']"
    by (rule advertised_models_routed_to_holders [OF s f cat k, THEN conjunct1])
      (simp_all add: new_snapshot_def is_capped_def seats_catalog_def)
  then show ?thesis by (simp add: new_snapshot_def two_seats_def tier_entry_def)
qed

section \<open>A partial projection is kept too long\<close>

text \<open>
  A scope of three, of which only \<open>a\<close> answers at first. When \<open>b\<close> answers too and \<open>c\<close> still does not, the
  expired partial projection is served again, although the available members could now offer more.
\<close>

definition three_env :: catalog_env where
  "three_env = \<lparr>ce_sha = (\<lambda>s. s), ce_print = (\<lambda>_. '''')\<rparr>"

definition three_start :: model_catalog where
  "three_start = \<lparr>mc_cached = None, mc_scoped = [], mc_accounts = [], mc_support = [], mc_retry_after = [], mc_declared = [],
     mc_capped = [], mc_unavailable = [], mc_floor = [], mc_ttl = 60000\<rparr>"

definition one_model :: "string \<Rightarrow> fetched_catalog" where
  "one_model slug = \<lparr>fcat_models = [tier_entry slug []], fcat_etag = None\<rparr>"

lemma three_scope: "normalize_account_ids [''a'', ''b'', ''c''] = [''a'', ''b'', ''c'']"
  by code_simp

lemma stale_partial_served:
  "let (first, mc1) = get_or_refresh_scoped three_env 100000 100000 (\<lambda>_. Some [(''a'', one_model ''x'')]) [''a'', ''b'', ''c''] three_start;
       (second, mc2) = get_or_refresh_scoped three_env 140000 140000 (\<lambda>_. Some [(''b'', one_model ''y'')]) [''a'', ''b'', ''c''] mc1
   in map um_slug (sc_models first) = [''x''] \<and> map um_slug (sc_models second) = [''x''] \<and>
      available_account_catalogs 140000 [''a'', ''b'', ''c''] mc2 = [(''a'', one_model ''x''), (''b'', one_model ''y'')]"
proof -
  note defs = get_or_refresh_scoped_def three_scope fresh_scoped_def missing_or_expired_accounts_def take_catalog_def
    note_retries_def project_scope_def fresh_account_catalogs_def available_account_catalogs_def store_scoped_def
    failed_refresh_retry_delay_def partial_projection_fetched_at_def is_fresh_def build_available_scoped_catalog_def
    sorted_union_def union_models_def one_model_def tier_entry_def three_env_def Let_def
  obtain first mc1 where one: "get_or_refresh_scoped three_env 100000 100000 (\<lambda>_. Some [(''a'', one_model ''x'')])
      [''a'', ''b'', ''c''] three_start = (first, mc1)" by force
  have first: "map um_slug (sc_models first) = [''x'']"
    "mc_scoped mc1 = [([''a'', ''b'', ''c''], \<lparr>cc_models = sc_models first, cc_etag = sc_etag first, cc_fetched_at = 70000\<rparr>)]"
    "mc_accounts mc1 = [(''a'', (one_model ''x'', 100000))]" "mc_retry_after mc1 = [(''b'', 130000), (''c'', 130000)]"
    "mc_ttl mc1 = 60000" "mc_support mc1 = [(''a'', [''x''])]"
    using one by (auto simp: defs three_start_def)
  obtain second mc2 where two: "get_or_refresh_scoped three_env 140000 140000 (\<lambda>_. Some [(''b'', one_model ''y'')])
      [''a'', ''b'', ''c''] mc1 = (second, mc2)" by force
  have "sc_models second = sc_models first"
    "available_account_catalogs 140000 [''a'', ''b'', ''c''] mc2 = [(''a'', one_model ''x''), (''b'', one_model ''y'')]"
    using two first(2-) by (auto simp: defs)
  then show ?thesis using first(1) by (simp add: one two)
qed

end
