(* ===== verification/Failover_Props.thy ===== *)
theory Failover_Props
  imports Failover Model_Catalog_Props Selection_Picks Credentials_Props
begin

text \<open>
  Properties of the failover loop: it ends within a bound on the attempts, it never repeats an account
  between two ride-outs, and it never leaves the security floor.
\<close>

section \<open>One step\<close>

lemma verdict_Next: "failover_verdict err left committed \<noteq> Surface \<longleftrightarrow> failover_verdict err left committed = FailoverNext"
  by (cases "failover_verdict err left committed") auto

lemma verdict_left: "failover_verdict err left committed = FailoverNext \<Longrightarrow> left \<and> \<not> committed"
  by (auto simp: failover_verdict_def split: if_splits)

lemma insert_tried_set [simp]: "set (insert_tried k tried) = insert k (set tried)"
  by (auto simp: insert_tried_def)

lemma insert_tried_len: "k \<notin> set tried \<Longrightarrow> length (insert_tried k tried) = Suc (length tried)"
  by (simp add: insert_tried_def)

lemma attempt_next_cases:
  assumes "attempt_next env t max_attempts fresh ls fl = (res, tr, fl')"
  shows "(\<exists>resp. res = Finished resp \<and> map fst tr \<in> {[], [fresh]}) \<or>
    (\<exists>ls'. res = Continue ls' \<and> map fst tr = [fresh] \<and> ls_failed ls' = fresh \<and> ls_tried ls' = ls_tried ls \<and>
       ls_rounds ls' = ls_rounds ls \<and> ls_slept ls' = ls_slept ls)"
  using assms by (auto simp: attempt_next_def split: prod.splits attempt.splits)

text \<open>Where the accounts of a step come from: the pool of the snapshots, inside the security floor.\<close>

definition allowed :: "account_snapshot list \<Rightarrow> turn \<Rightarrow> account_id \<Rightarrow> bool" where
  "allowed snapshots t k \<longleftrightarrow> (\<exists>s \<in> set snapshots. snap_id s = k \<and> authorized (tn_sel t) s)"

lemma servable_allowed: "s \<in> set snapshots \<Longrightarrow> servable (tn_sel t) s \<Longrightarrow> allowed snapshots t (snap_id s)"
  unfolding allowed_def servable_def by blast

lemma pick_allowed:
  assumes "account_selector (fe_pick env n)" "fe_pick env n cs (tn_sel t) = Some k" "set cs \<subseteq> set snapshots"
  shows "allowed snapshots t k" and "k \<in> snap_id ` set cs"
proof -
  obtain s where s: "s \<in> set cs" "snap_id s = k" "servable (tn_sel t) s"
    using account_selector.pick_servable [OF assms(1,2)] by blast
  then show "allowed snapshots t k" using servable_allowed assms(3) by blast
  show "k \<in> snap_id ` set cs" using s by blast
qed

lemma soonest_member:
  "soonest_recover cs ctx = Some r \<Longrightarrow> \<exists>s \<in> set cs. snap_id s = r_account_id r \<and> authorized ctx s"
proof -
  assume "soonest_recover cs ctx = Some r"
  then obtain s where "s \<in> set (filter (authorized ctx) cs)"
    "(case eligibility s (ctx_now ctx) (ctx_inflight_penalty_pct ctx) of
        InBackoff r k \<Rightarrow> Some \<lparr>r_recover_at = r, r_account_id = snap_id s, r_kind = k\<rparr> | _ \<Rightarrow> None) = Some r"
    unfolding soonest_recover_def by (auto dest!: min_by_in simp: set_map_filter)
  then show ?thesis by (cases "eligibility s (ctx_now ctx) (ctx_inflight_penalty_pct ctx)") auto
qed

lemma candidates_subset:
  "set (retain_accounts_serving mc model tier now (exclude_tried snapshots tried)) \<subseteq>
     {s \<in> set snapshots. snap_id s \<notin> set tried}"
proof -
  have "set (retain_accounts_serving mc model tier now (exclude_tried snapshots tried)) \<subseteq> set (exclude_tried snapshots tried)"
    using serving_subseq by (metis subseq_conv_nths set_nths_subset)
  then show ?thesis by (auto simp: exclude_tried_def)
qed

lemma layer1_log:
  assumes "try_layer1_serve_now env n cs t fl = (r, tr, fl')"
  shows "tr = [] \<or> (\<exists>k fx. tr = [(k, fx)] \<and> (\<exists>s \<in> set cs. snap_id s = k \<and> authorized (tn_sel t) s))"
  using assms soonest_member [of cs "tn_sel t"]
  by (auto simp: try_layer1_serve_now_def split: option.splits if_splits prod.splits attempt.splits)

lemma exhausted_log:
  assumes "exhausted env budget cs t ls fl = (resp, tr, fl')"
  shows "tr = [] \<or> (\<exists>k fx. tr = [(k, fx)] \<and> (\<exists>s \<in> set cs. snap_id s = k \<and> authorized (tn_sel t) s))"
  using assms layer1_log [of env "ls_step ls" cs t fl]
  by (auto simp: exhausted_def split: option.splits if_splits prod.splits)

text \<open>What a step that goes on has done.\<close>

lemma step_Continue:
  assumes sel: "\<forall>n. account_selector (fe_pick env n)"
    and st: "failover_step env budget max_attempts snapshots t ls fl = (Continue ls', tr, fl')"
  shows "Suc (length (ls_tried ls)) < max_attempts \<and> map fst tr = [ls_failed ls'] \<and> allowed snapshots t (ls_failed ls') \<and>
    (ls_tried ls' = insert_tried (ls_failed ls) (ls_tried ls) \<and> ls_failed ls' \<notin> set (ls_tried ls') \<and>
       ls_rounds ls' = ls_rounds ls \<and> ls_slept ls' = ls_slept ls \<or>
     ls_tried ls' = [] \<and> ls_rounds ls' = Suc (ls_rounds ls) \<and>
       ls_slept ls' = ls_slept ls + ride_out_pause_ms (ls_rounds ls) \<and> 0 < fe_ride_out_secs env \<and>
       ls_slept ls' \<le> 60000)"
proof -
  define ls1 where "ls1 = ls\<lparr>ls_tried := insert_tried (ls_failed ls) (ls_tried ls)\<rparr>"
  define cs where "cs = retain_accounts_serving (fl_catalog fl) (pr_model (tn_req t))
    (prepared_service_tier (fe_auth env) (tn_req t)) (fe_now env (ls_step ls)) (exclude_tried snapshots (ls_tried ls1))"
  have v: "failover_verdict (ls_err ls) (length (ls_tried ls) + 1 < max_attempts) (ls_committed ls) \<noteq> Surface"
    using st unfolding failover_step_def Let_def by (auto split: if_splits prod.splits)
  then have left: "Suc (length (ls_tried ls)) < max_attempts" using verdict_left verdict_Next by fastforce
  have cs: "set cs \<subseteq> set snapshots" "\<And>k. k \<in> snap_id ` set cs \<Longrightarrow> k \<notin> set (ls_tried ls1)"
    using candidates_subset unfolding cs_def by blast+
  show ?thesis
  proof (cases "fe_pick env (ls_step ls) cs (tn_sel t)")
    case (Some fresh)
    then have a: "attempt_next env t max_attempts fresh ls1 fl = (Continue ls', tr, fl')"
      using st v unfolding failover_step_def Let_def ls1_def [symmetric] cs_def [symmetric] by simp
    show ?thesis
      using attempt_next_cases [OF a] pick_allowed [OF sel [THEN spec] Some cs(1)] cs(2) left
      by (auto simp: ls1_def)
  next
    case None
    then obtain fresh ls2 fl1 where r: "ride_out_capacity_wave env snapshots t ls1 fl = (Some fresh, ls2, fl1)"
      "attempt_next env t max_attempts fresh ls2 fl1 = (Continue ls', tr, fl')"
      using st v unfolding failover_step_def Let_def ls1_def [symmetric] cs_def [symmetric]
      by (auto split: if_splits prod.splits option.splits)
    have p: "fe_pick env (ls_step ls) snapshots (tn_sel t) = Some fresh" "ls_tried ls2 = []"
      "ls_rounds ls2 = Suc (ls_rounds ls)" "ls_slept ls2 = ls_slept ls + ride_out_pause_ms (ls_rounds ls)"
      "0 < fe_ride_out_secs env" "ls_slept ls2 \<le> 60000"
      using r(1) by (auto simp: ride_out_capacity_wave_def ls1_def Let_def pre_header_cap_secs_def
          split: if_splits option.splits)
    show ?thesis
      using attempt_next_cases [OF r(2)] pick_allowed [OF sel [THEN spec] p(1) order_refl] p left by auto
  qed
qed

text \<open>What a step that ends the loop may still have executed.\<close>

lemma step_Finished:
  assumes sel: "\<forall>n. account_selector (fe_pick env n)"
    and st: "failover_step env budget max_attempts snapshots t ls fl = (Finished resp, tr, fl')"
  shows "tr = [] \<or> (\<exists>k fx. tr = [(k, fx)] \<and> allowed snapshots t k \<and> Suc (length (ls_tried ls)) < max_attempts \<and>
    (k \<notin> set (insert_tried (ls_failed ls) (ls_tried ls)) \<or> 0 < fe_ride_out_secs env))"
proof -
  define ls1 where "ls1 = ls\<lparr>ls_tried := insert_tried (ls_failed ls) (ls_tried ls)\<rparr>"
  define cs where "cs = retain_accounts_serving (fl_catalog fl) (pr_model (tn_req t))
    (prepared_service_tier (fe_auth env) (tn_req t)) (fe_now env (ls_step ls)) (exclude_tried snapshots (ls_tried ls1))"
  note unf = failover_step_def Let_def ls1_def [symmetric] cs_def [symmetric]
  show ?thesis
  proof (cases "failover_verdict (ls_err ls) (length (ls_tried ls) + 1 < max_attempts) (ls_committed ls) = Surface")
    case True
    then show ?thesis using st unfolding unf by (auto split: if_splits prod.splits)
  next
    case v: False
    then have left: "Suc (length (ls_tried ls)) < max_attempts" using verdict_left verdict_Next by fastforce
    have cs: "set cs \<subseteq> set snapshots" "\<And>k. k \<in> snap_id ` set cs \<Longrightarrow> k \<notin> set (ls_tried ls1)"
      using candidates_subset unfolding cs_def by blast+
    show ?thesis
    proof (cases "fe_pick env (ls_step ls) cs (tn_sel t)")
      case (Some fresh)
      then have a: "attempt_next env t max_attempts fresh ls1 fl = (Finished resp, tr, fl')"
        using st v unfolding unf by simp
      show ?thesis
        using attempt_next_cases [OF a] pick_allowed [OF sel [THEN spec] Some cs(1)] cs(2) left by (auto simp: ls1_def)
    next
      case None
      show ?thesis
      proof (cases "ls_all_capacity ls1")
        case True
        obtain r ls2 fl1 where r: "ride_out_capacity_wave env snapshots t ls1 fl = (r, ls2, fl1)" by (cases "ride_out_capacity_wave env snapshots t ls1 fl")
        show ?thesis
        proof (cases r)
          case None
          then show ?thesis using st v r True \<open>fe_pick env (ls_step ls) cs (tn_sel t) = None\<close> unfolding unf
            by (auto split: prod.splits)
        next
          case (Some fresh)
          then have a: "attempt_next env t max_attempts fresh ls2 fl1 = (Finished resp, tr, fl')"
            using st v r True None unfolding unf by simp
          have p: "fe_pick env (ls_step ls) snapshots (tn_sel t) = Some fresh" "0 < fe_ride_out_secs env"
            using r Some by (auto simp: ride_out_capacity_wave_def ls1_def Let_def pre_header_cap_secs_def split: if_splits option.splits)
          show ?thesis using attempt_next_cases [OF a] pick_allowed(1) [OF sel [THEN spec] p(1) order_refl] p(2) left by auto
        qed
      next
        case False
        then obtain tr' where "exhausted env budget cs t ls1 fl = (resp, tr', fl')" "tr' = tr"
          using st v None unfolding unf by (auto split: prod.splits)
        then show ?thesis using exhausted_log [of env budget cs t ls1 fl resp tr fl'] cs left
          unfolding allowed_def by (fastforce simp: ls1_def)
      qed
    qed
  qed
qed

section \<open>Termination\<close>

definition ride_out_slept :: "nat \<Rightarrow> nat" where
  "ride_out_slept rounds = (if rounds = 0 then 0 else if rounds = 1 then 5000 else if rounds = 2 then 15000
     else if rounds = 3 then 30000 else 50000)"

definition loop_inv :: "u32 \<Rightarrow> loop_state \<Rightarrow> bool" where
  "loop_inv max_attempts ls \<longleftrightarrow> ls_failed ls \<notin> set (ls_tried ls) \<and> distinct (ls_tried ls) \<and>
     length (ls_tried ls) \<le> max_attempts \<and> ls_rounds ls \<le> 4 \<and> ls_slept ls = ride_out_slept (ls_rounds ls)"

definition loop_measure :: "u32 \<Rightarrow> loop_state \<Rightarrow> nat" where
  "loop_measure max_attempts ls = (4 - ls_rounds ls) * max_attempts + (max_attempts - length (ls_tried ls))"

lemma ride_out_step:
  "rounds \<le> 4 \<Longrightarrow> ride_out_slept rounds + ride_out_pause_ms rounds \<le> 60000 \<Longrightarrow>
   rounds < 4 \<and> ride_out_slept (Suc rounds) = ride_out_slept rounds + ride_out_pause_ms rounds"
  by (cases "rounds = 0 \<or> rounds = 1 \<or> rounds = 2 \<or> rounds = 3 \<or> rounds = 4")
    (auto simp: ride_out_slept_def ride_out_pause_ms_def)

lemma step_progress:
  assumes "\<forall>n. account_selector (fe_pick env n)" "loop_inv max_attempts ls"
    and "failover_step env budget max_attempts snapshots t ls fl = (Continue ls', tr, fl')"
  shows "loop_inv max_attempts ls' \<and> loop_measure max_attempts ls' < loop_measure max_attempts ls"
  using step_Continue [OF assms(1,3)]
proof (elim conjE disjE, goal_cases)
  case 1
  then show ?case using assms(2)
    by (auto simp: loop_inv_def loop_measure_def insert_tried_len insert_tried_def)
next
  case 2
  then have r: "ls_rounds ls < 4" "ls_slept ls' = ride_out_slept (ls_rounds ls')"
    using ride_out_step [of "ls_rounds ls"] assms(2) by (auto simp: loop_inv_def)
  then obtain q where "4 - ls_rounds ls = Suc q" "4 - ls_rounds ls' = q" using 2 by (metis Suc_diff_Suc diff_Suc_Suc diff_Suc_1 not0_implies_Suc zero_less_diff less_numeral_extra(3) diff_Suc)
  then show ?case using 2 r by (auto simp: loop_inv_def loop_measure_def)
qed

lemma loop_returns:
  assumes "\<forall>n. account_selector (fe_pick env n)" "loop_inv max_attempts ls" "loop_measure max_attempts ls < fuel"
  shows "\<exists>resp tr fl'. failover_loop fuel env budget max_attempts snapshots t ls fl = Some (resp, tr, fl') \<and>
    length tr \<le> loop_measure max_attempts ls + 1"
  using assms(2,3)
proof (induction fuel arbitrary: ls fl)
  case (Suc fuel)
  obtain res tr fl1 where st: "failover_step env budget max_attempts snapshots t ls fl = (res, tr, fl1)"
    by (cases "failover_step env budget max_attempts snapshots t ls fl")
  show ?case
  proof (cases res)
    case (Finished resp)
    then show ?thesis using st step_Finished [OF assms(1), of budget max_attempts snapshots t ls fl resp tr fl1] by auto
  next
    case (Continue ls')
    note p = step_progress [OF assms(1) Suc.prems(1) st [unfolded Continue]]
    have one: "length tr = 1"
      using step_Continue [OF assms(1) st [unfolded Continue]] by (metis length_map length_Cons list.size(3) One_nat_def)
    obtain resp rest fl' where "failover_loop fuel env budget max_attempts snapshots t ls' fl1 = Some (resp, rest, fl')"
      "length rest \<le> loop_measure max_attempts ls' + 1"
      using Suc.IH [of ls' fl1] p Suc.prems(2) by auto
    then show ?thesis using st Continue p one by auto
  qed
qed simp

lemma first_inv: "loop_inv max_attempts (first_state failed err committed)"
  "loop_measure max_attempts (first_state failed err committed) = 5 * max_attempts"
  by (simp_all add: loop_inv_def loop_measure_def first_state_def ride_out_slept_def)

text \<open>
  C19: The failover loop always ends. Whatever the upstream answers, however long the attempts take and
  whatever the selector draws, it returns a response after at most \<open>5 * max_attempts + 1\<close> turns, since the
  pauses of a capacity wave fit at most four times into the minute before the headers.
\<close>

theorem failover_loop_returns:
  assumes "\<forall>n. account_selector (fe_pick env n)"
  shows "\<exists>resp tr fl'. run_failover_loop (5 * max_attempts + 1) env budget max_attempts snapshots t failed err committed fl =
      Some (resp, tr, fl') \<and> length tr \<le> 5 * max_attempts + 1"
  using loop_returns [OF assms first_inv(1), of max_attempts failed err committed "5 * max_attempts + 1"] first_inv(2)
  by (simp add: run_failover_loop_def)

text \<open>An upstream that always answers 503, and a pool of fresh accounts.\<close>

definition refusal_503 :: watchdog_error where
  "refusal_503 = Upstream (Some \<lparr>fs_status = 503, fs_retry_after = None, fs_error_code = None\<rparr>)"

definition refusing_env :: failover_env where
  "refusing_env = \<lparr>fe_auth = demo_auth_env, fe_tx = None, fe_pick = (\<lambda>_. pick_usage_weighted),
     fe_wd = (\<lambda>_ _. \<lparr>we_parse = (\<lambda>_. None), we_print = (\<lambda>_. ''''), we_sha = (\<lambda>s. s),
        we_exec = (\<lambda>_ _. Inl (ExUpstreamStatus \<lparr>fs_status = 503, fs_retry_after = None, fs_error_code = None\<rparr>)),
        we_now = (\<lambda>_. 0)\<rparr>),
     fe_now = (\<lambda>_. 0), fe_idle = 0, fe_ride_out_secs = 0, fe_extra = (\<lambda>_. 0), fe_max_attempts = 3\<rparr>"

lemma refusing_selects: "\<forall>n. account_selector (fe_pick refusing_env n)"
  by (simp add: refusing_env_def usage.account_selector_axioms)

theorem failover_loop_returns_witness:
  "\<forall>t fl. \<exists>resp tr fl'. run_failover_loop (5 * 3 + 1) refusing_env 0 3 [new_snapshot ''k'', new_snapshot ''j''] t ''i''
     refusal_503 False fl = Some (resp, tr, fl') \<and> length tr \<le> 5 * 3 + 1"
  by (intro allI) (rule failover_loop_returns [OF refusing_selects])

section \<open>Where a turn may go\<close>

lemma loop_allowed:
  assumes "\<forall>n. account_selector (fe_pick env n)"
    and "failover_loop fuel env budget max_attempts snapshots t ls fl = Some (resp, tr, fl')"
  shows "\<forall>k \<in> fst ` set tr. allowed snapshots t k"
  using assms(2)
proof (induction fuel arbitrary: ls fl tr)
  case (Suc fuel)
  obtain res tr1 fl1 where st: "failover_step env budget max_attempts snapshots t ls fl = (res, tr1, fl1)"
    by (cases "failover_step env budget max_attempts snapshots t ls fl")
  show ?case
  proof (cases res)
    case (Finished resp')
    then show ?thesis using st Suc.prems step_Finished [OF assms(1), of budget max_attempts snapshots t ls fl resp' tr1 fl1] by auto
  next
    case (Continue ls')
    obtain rest where rest: "failover_loop fuel env budget max_attempts snapshots t ls' fl1 = Some (resp, rest, fl')" "tr = tr1 @ rest"
      using Suc.prems st Continue by auto
    have "map fst tr1 = [ls_failed ls']" "allowed snapshots t (ls_failed ls')"
      using step_Continue [OF assms(1) st [unfolded Continue]] by blast+
    then have "\<forall>k \<in> fst ` set tr1. allowed snapshots t k" by (metis empty_iff insert_iff list.set(1,2) set_map)
    then show ?thesis using Suc.IH [OF rest(1)] rest(2) by auto
  qed
qed simp

lemma reroute_allowed:
  assumes "account_selector (fe_pick env 0)" "reroute_cyber_rejection env recovery snapshots t fl = (resp, tr, fl')"
  shows "\<forall>k \<in> fst ` set tr. \<exists>s \<in> set snapshots. snap_id s = k \<and> snap_security_work_authorized s"
proof -
  have pick: "\<exists>s \<in> set snapshots. snap_id s = k \<and> snap_security_work_authorized s"
    if "fe_pick env 0 snapshots (tn_sel t\<lparr>ctx_require_security := True\<rparr>) = Some k" for k
    using account_selector.pick_servable [OF assms(1) that] by (auto simp: servable_def authorized_def)
  show ?thesis
    using assms(2) by (auto simp: reroute_cyber_rejection_def Let_def dest: pick
        split: recovery_plan.splits option.splits prod.splits attempt.splits)
qed

text \<open>
  C20: The security floor holds through every failover. When the turn requires an account authorized for
  security work, or a capability rejection has made it require one, every account that the failover loop,
  its ride-outs, the serve-now layer or the reroute executes on is authorized: no exhaustion, error or
  capacity wave ever falls back to an unfiltered pick.
\<close>

theorem failover_keeps_security_floor:
  assumes "\<forall>n. account_selector (fe_pick env n)"
  shows "(ctx_require_security (tn_sel t) \<longrightarrow>
      run_failover_loop fuel env budget max_attempts snapshots t failed err committed fl = Some (resp, tr, fl') \<longrightarrow>
      (\<forall>k \<in> fst ` set tr. \<exists>s \<in> set snapshots. snap_id s = k \<and> snap_security_work_authorized s)) \<and>
    (reroute_cyber_rejection env recovery snapshots t fl = (resp', tr', fl'') \<longrightarrow>
      (\<forall>k \<in> fst ` set tr'. \<exists>s \<in> set snapshots. snap_id s = k \<and> snap_security_work_authorized s))"
proof (intro conjI impI)
  assume sec: "ctx_require_security (tn_sel t)"
    and run: "run_failover_loop fuel env budget max_attempts snapshots t failed err committed fl = Some (resp, tr, fl')"
  show "\<forall>k \<in> fst ` set tr. \<exists>s \<in> set snapshots. snap_id s = k \<and> snap_security_work_authorized s"
    using loop_allowed [OF assms run [unfolded run_failover_loop_def]] sec unfolding allowed_def authorized_def by blast
qed (rule reroute_allowed [OF assms [THEN spec]])

theorem failover_keeps_security_floor_witness:
  "\<forall>req t fl. fst ` set (fst (snd (reroute_cyber_rejection refusing_env (ResendFull req)
     [(new_snapshot ''k'')\<lparr>snap_security_work_authorized := True\<rparr>, new_snapshot ''j''] t fl))) \<subseteq> {''k''}"
proof (intro allI)
  fix req t fl
  let ?ss = "[(new_snapshot ''k'')\<lparr>snap_security_work_authorized := True\<rparr>, new_snapshot ''j'']"
  obtain resp tr fl' where r: "reroute_cyber_rejection refusing_env (ResendFull req) ?ss t fl = (resp, tr, fl')"
    by (cases "reroute_cyber_rejection refusing_env (ResendFull req) ?ss t fl")
  have "\<forall>k \<in> fst ` set tr. \<exists>s \<in> set ?ss. snap_id s = k \<and> snap_security_work_authorized s"
    using failover_keeps_security_floor [OF refusing_selects, THEN conjunct2, rule_format, OF r] by blast
  then have "fst ` set tr \<subseteq> {''k''}" by (auto simp: new_snapshot_def)
  then show "fst ` set (fst (snd (reroute_cyber_rejection refusing_env (ResendFull req) ?ss t fl))) \<subseteq> {''k''}"
    by (simp only: r fst_conv snd_conv)
qed

section \<open>No account twice\<close>

lemma loop_distinct:
  assumes "\<forall>n. account_selector (fe_pick env n)" "fe_ride_out_secs env = 0"
    and "failover_loop fuel env budget max_attempts snapshots t ls fl = Some (resp, tr, fl')"
    and "loop_inv max_attempts ls" "length (ls_tried ls) < max max_attempts 1"
  shows "distinct (map fst tr) \<and> fst ` set tr \<inter> insert (ls_failed ls) (set (ls_tried ls)) = {} \<and>
    Suc (length tr + length (ls_tried ls)) \<le> max max_attempts 1"
  using assms(3-5)
proof (induction fuel arbitrary: ls fl tr)
  case (Suc fuel)
  obtain res tr1 fl1 where st: "failover_step env budget max_attempts snapshots t ls fl = (res, tr1, fl1)"
    by (cases "failover_step env budget max_attempts snapshots t ls fl")
  show ?case
  proof (cases res)
    case (Finished resp')
    then have "tr = tr1" using st Suc.prems(1) by simp
    then show ?thesis
      using step_Finished [OF assms(1), of budget max_attempts snapshots t ls fl resp' tr1 fl1] st Finished assms(2) Suc.prems(3)
      by auto
  next
    case (Continue ls')
    obtain rest where rest: "failover_loop fuel env budget max_attempts snapshots t ls' fl1 = Some (resp, rest, fl')" "tr = tr1 @ rest"
      using Suc.prems(1) st Continue by auto
    have c: "Suc (length (ls_tried ls)) < max_attempts" "map fst tr1 = [ls_failed ls']"
      "ls_tried ls' = insert_tried (ls_failed ls) (ls_tried ls)" "ls_failed ls' \<notin> set (ls_tried ls')"
      using step_Continue [OF assms(1) st [unfolded Continue]] assms(2) by auto
    have inv: "loop_inv max_attempts ls'" using step_progress [OF assms(1) Suc.prems(2) st [unfolded Continue]] by blast
    have len: "length (ls_tried ls') = Suc (length (ls_tried ls))"
      using c(3) Suc.prems(2) by (simp add: insert_tried_len loop_inv_def)
    note ih = Suc.IH [OF rest(1) inv]
    have t1: "length tr1 = 1" "fst ` set tr1 = {ls_failed ls'}" using c(2) by (metis length_map length_Cons list.size(3) One_nat_def)
        (metis c(2) empty_set list.simps(15) set_map)
    show ?thesis using ih c len t1 rest(2) by auto
  qed
qed simp

text \<open>
  A turn never goes back to an account that failed it. With the capacity ride-out off, the accounts
  the loop executes on are all different, none of them is the one whose failure started it, and together
  with that first attempt they are at most \<open>max_attempts\<close>.
\<close>

lemma failover_never_repeats:
  assumes "\<forall>n. account_selector (fe_pick env n)" "fe_ride_out_secs env = 0"
    and "run_failover_loop fuel env budget max_attempts snapshots t failed err committed fl = Some (resp, tr, fl')"
  shows "distinct (failed # map fst tr) \<and> length (failed # map fst tr) \<le> max max_attempts 1"
proof -
  have "distinct (map fst tr) \<and> fst ` set tr \<inter> insert failed {} = {} \<and> Suc (length tr + 0) \<le> max max_attempts 1"
    using loop_distinct [OF assms(1,2) assms(3) [unfolded run_failover_loop_def] first_inv(1)]
    by (simp add: first_state_def)
  then show ?thesis by auto
qed

lemma failover_never_repeats_example:
  "\<forall>t fl. \<exists>resp tr fl'. run_failover_loop (5 * 3 + 1) refusing_env 0 3 [new_snapshot ''k'', new_snapshot ''j''] t ''i''
     refusal_503 False fl = Some (resp, tr, fl') \<and> distinct (''i'' # map fst tr) \<and> length (''i'' # map fst tr) \<le> max 3 1"
proof (intro allI)
  fix t fl
  obtain resp tr fl' where r: "run_failover_loop (5 * 3 + 1) refusing_env 0 3 [new_snapshot ''k'', new_snapshot ''j''] t ''i''
     refusal_503 False fl = Some (resp, tr, fl')"
    using loop_returns [OF refusing_selects first_inv(1) [of 3 "''i''" refusal_503 False], of "5 * 3 + 1"] first_inv(2)
    by (fastforce simp: run_failover_loop_def)
  have "fe_ride_out_secs refusing_env = 0" by (simp add: refusing_env_def)
  note d = failover_never_repeats [OF refusing_selects this r]
  show "\<exists>resp tr fl'. run_failover_loop (5 * 3 + 1) refusing_env 0 3 [new_snapshot ''k'', new_snapshot ''j''] t ''i''
     refusal_503 False fl = Some (resp, tr, fl') \<and> distinct (''i'' # map fst tr) \<and> length (''i'' # map fst tr) \<le> max 3 1"
    by (rule exI, rule exI, rule exI) (rule conjI [OF r d])
qed

end
