(* ===== verification/Selection_Stability.thy ===== *)
theory Selection_Stability
  imports Selection_Picks
begin

text \<open>
  What happens to a pick when other accounts are taken away (excluded after a failed attempt,
  paused, blocked), and what the recovery queries answer when nobody can be picked.
\<close>

section \<open>Pools of fewer accounts\<close>

lemma eligible_candidates_filter:
  "eligible_candidates (filter q cs) ctx = filter (\<lambda>c. q (c_snap c)) (eligible_candidates cs ctx)"
proof (induction cs)
  case Nil
  then show ?case by (simp add: eligible_candidates_def List.map_filter_def)
next
  case (Cons s cs)
  show ?case
  proof (cases "into_eligible (eligibility s (ctx_now ctx) (ctx_inflight_penalty_pct ctx))")
    case None
    with Cons.IH show ?thesis by (simp add: eligible_candidates_def List.map_filter_def)
  next
    case (Some c)
    then have "c_snap c = s" by (auto simp: into_eligible_Some dest: eligibility_snap)
    with Some Cons.IH show ?thesis by (simp add: eligible_candidates_def List.map_filter_def)
  qed
qed

lemma first_group_sub:
  "x \<in> set (first_group p ks pool) \<Longrightarrow> q x \<Longrightarrow>
   first_group p ks (filter q pool) = filter q (first_group p ks pool)"
proof (induction ks)
  case (Cons k ks)
  show ?case
  proof (cases "filter (p k) pool = []")
    case True
    then have "filter (p k) (filter q pool) = []" by (auto simp: filter_empty_conv)
    with True Cons show ?thesis by (simp add: Let_def)
  next
    case False
    with Cons.prems have "x \<in> set (filter (p k) pool)" by (simp add: Let_def)
    with Cons.prems(2) have "filter (p k) (filter q pool) \<noteq> []" by (auto simp: filter_empty_conv)
    with False show ?thesis by (simp add: Let_def conj_commute)
  qed
qed simp

lemma drop_overload_sub:
  assumes "x \<in> set (drop_overload_backoff cs now)" "q x"
  shows "drop_overload_backoff (filter q cs) now = filter q (drop_overload_backoff cs now)"
proof (cases "overload_backoff_active (c_snap x) now")
  case True
  with assms(1) have all: "\<forall>d \<in> set cs. overload_backoff_active (c_snap d) now"
    by (simp add: drop_overload_set)
  then have "filter (\<lambda>c. \<not> overload_backoff_active (c_snap c) now) cs = []"
    "filter (\<lambda>c. \<not> overload_backoff_active (c_snap c) now) (filter q cs) = []"
    by (simp_all add: filter_empty_conv)
  then show ?thesis unfolding drop_overload_backoff_def Let_def by simp
next
  case False
  have x: "x \<in> set cs" using assms(1) drop_overload_subset by blast
  have eq: "drop_overload_backoff ds now = filter (\<lambda>c. \<not> overload_backoff_active (c_snap c) now) ds"
    if "x \<in> set ds" for ds
    using that False unfolding drop_overload_backoff_def Let_def
    by (auto simp: list_ex_iff filter_empty_conv filter_id_conv)
  have "x \<in> set (filter q cs)" using x assms(2) by simp
  then show ?thesis unfolding eq [OF x] eq [OF \<open>x \<in> set (filter q cs)\<close>]
    by (simp add: conj_commute)
qed

lemma standard_pool_sub:
  assumes x: "x \<in> set (standard_pool cs ctx)" and q: "q (c_snap x)"
  shows "standard_pool (filter q cs) ctx = filter (\<lambda>c. q (c_snap c)) (standard_pool cs ctx)"
proof -
  let ?E = "eligible_candidates cs ctx" and ?q = "\<lambda>c. q (c_snap c)" and ?now = "ctx_now ctx"
  have h: "x \<in> set (health_tier_pool (drop_overload_backoff ?E ?now) ?now)"
    by (rule subsetD [OF first_group_subset x [unfolded standard_pool_eq policy_waterfall_def]])
  then have d: "x \<in> set (drop_overload_backoff ?E ?now)"
    unfolding health_tier_pool_def by (rule subsetD [OF first_group_subset])
  have "drop_overload_backoff (filter ?q ?E) ?now = filter ?q (drop_overload_backoff ?E ?now)"
    using drop_overload_sub [where q = ?q, OF d] q by simp
  moreover have "health_tier_pool (filter ?q (drop_overload_backoff ?E ?now)) ?now =
      filter ?q (health_tier_pool (drop_overload_backoff ?E ?now) ?now)"
    using first_group_sub [where q = ?q, OF h [unfolded health_tier_pool_def]] q
    unfolding health_tier_pool_def by simp
  moreover have "policy_waterfall (filter ?q (health_tier_pool (drop_overload_backoff ?E ?now) ?now)) =
      filter ?q (policy_waterfall (health_tier_pool (drop_overload_backoff ?E ?now) ?now))"
    using first_group_sub [where q = ?q, OF x [unfolded standard_pool_eq policy_waterfall_def]] q
    unfolding policy_waterfall_def by simp
  ultimately show ?thesis unfolding standard_pool_eq eligible_candidates_filter by simp
qed

lemma policy_waterfall_sub:
  assumes "x \<in> set (policy_waterfall (eligible_candidates cs ctx))" "q (c_snap x)"
  shows "policy_waterfall (eligible_candidates (filter q cs) ctx) =
     filter (\<lambda>c. q (c_snap c)) (policy_waterfall (eligible_candidates cs ctx))"
  using first_group_sub [where q = "\<lambda>c. q (c_snap c)", OF assms(1) [unfolded policy_waterfall_def]] assms(2)
  unfolding policy_waterfall_def eligible_candidates_filter by simp

text \<open>A minimum of a list is, up to the id, the minimum of every sublist that keeps it.\<close>

lemma min_by_sub:
  assumes "total_cmp c" "\<And>a b. c a b = Equal \<Longrightarrow> f a = f b"
    and "min_by c xs = Some m" "q m"
  shows "\<exists>n. min_by c (filter q xs) = Some n \<and> f n = f m \<and> q n"
proof -
  note m = total_cmp.min_by_least [OF assms(1,3)]
  with assms(4) have "filter q xs \<noteq> []" by (auto simp: filter_empty_conv)
  then obtain n where n: "min_by c (filter q xs) = Some n"
    by (cases "min_by c (filter q xs)") (auto simp: min_by_None)
  note n' = total_cmp.min_by_least [OF assms(1) n]
  have "f n = f m"
    by (rule min_by_id_unique [OF assms(1,2), where A = "set (filter q xs)"]) (use m n' assms(4) in auto)
  with n n' show ?thesis by auto
qed

lemma deterministic_by_stable:
  assumes "deterministic_by key (standard_pool cs ctx) = Some i" "\<forall>s \<in> set cs. snap_id s = i \<longrightarrow> q s"
  shows "deterministic_by key (standard_pool (filter q cs) ctx) = Some i"
proof -
  obtain m where m: "min_by (by_key_cmp key) (standard_pool cs ctx) = Some m" "cand_id m = i"
    using assms(1) unfolding deterministic_by_def by blast
  then have mp: "m \<in> set (standard_pool cs ctx)" by (blast dest: min_by_in)
  then have "c_snap m \<in> set cs" using standard_pool_subset in_eligible_candidates by blast
  with assms(2) m(2) have q: "q (c_snap m)" unfolding cand_id_def by blast
  from min_by_sub [where c = "by_key_cmp key" and f = cand_id and q = "\<lambda>c. q (c_snap c)", OF total_cmp_by_key by_key_Equal [where key = key] m(1) q] m(2)
  show ?thesis unfolding deterministic_by_def standard_pool_sub [where q = q, OF mp q] by auto
qed

text \<open>
  A keyed strategy's choice depends on the losing accounts only through the winner: removing any
  accounts other than the chosen one (as excluding tried accounts does) leaves the choice unchanged.
\<close>

lemma keyed_pick_stable:
  assumes "strategy_pick e st cs ctx = Some i"
    and "st \<in> {UsageWeighted, RoundRobin, FillFirst, SequentialDrain}"
    and "\<forall>s \<in> set cs. snap_id s = i \<longrightarrow> q s"
  shows "strategy_pick e st (filter q cs) ctx = Some i"
proof -
  from assms(2) consider "st = UsageWeighted" | "st = RoundRobin" | "st = FillFirst" | "st = SequentialDrain"
    by blast
  then show ?thesis
    using assms(1)
    by cases (simp_all only: deterministic_strategies deterministic_by_stable [OF _ assms(3)])
qed

lemma keyed_pick_stable_example:
  "strategy_pick last_draw_env SequentialDrain
     (filter (\<lambda>s. snap_id s \<noteq> ''b'') [new_snapshot ''b'', new_snapshot ''a'']) default_ctx = Some ''a''"
proof (rule keyed_pick_stable)
  show "strategy_pick last_draw_env SequentialDrain [new_snapshot ''b'', new_snapshot ''a''] default_ctx = Some ''a''"
    unfolding deterministic_strategies fresh_pool(1) [of "[''b'', ''a'']", unfolded list.map]
    by (simp add: deterministic_by_def by_key_cmp_def
        fresh_candidate_def cand_id_def capacity_def new_snapshot_def cmp_lin_def)
qed auto

section \<open>Session stickiness\<close>

definition usable_weight :: "f64 \<Rightarrow> bool" where
  "usable_weight w \<longleftrightarrow> is_fin w \<and> fgt w (F_Num 0)"

lemma affinity_session:
  assumes "ctx_session_id ctx = Some sid" "x \<in> set pool" "usable_weight (w x)"
  shows "affinity_or_weighted_pick e pool (map w pool) ctx =
    map_option (\<lambda>p. cand_id (fst p)) (min_by (rendezvous_cmp e sid)
      (map (\<lambda>c. (c, w c)) (filter (\<lambda>c. usable_weight (w c)) pool)))"
proof -
  have zip: "filter (\<lambda>(c, w). is_fin w \<and> fgt w (F_Num 0)) (zip pool (map w pool)) =
      map (\<lambda>c. (c, w c)) (filter (\<lambda>c. usable_weight (w c)) pool)"
    by (induction pool) (auto simp: usable_weight_def)
  have "map (\<lambda>c. (c, w c)) (filter (\<lambda>c. usable_weight (w c)) pool) \<noteq> []"
    using assms(2,3) by (auto simp: filter_empty_conv)
  then obtain c v where "min_by (rendezvous_cmp e sid)
      (map (\<lambda>c. (c, w c)) (filter (\<lambda>c. usable_weight (w c)) pool)) = Some (c, v)"
    by (cases "min_by (rendezvous_cmp e sid)
      (map (\<lambda>c. (c, w c)) (filter (\<lambda>c. usable_weight (w c)) pool))") (auto simp: min_by_None)
  with assms show ?thesis by (auto simp: affinity_or_weighted_pick_def zip)
qed

lemma total_cmp_rendezvous: "total_cmp (rendezvous_cmp e sid)"
  unfolding rendezvous_cmp_def [abs_def] by (intro cmp_intros)

lemma rendezvous_Equal: "rendezvous_cmp e sid a b = Equal \<Longrightarrow> cand_id (fst a) = cand_id (fst b)"
  by (simp add: rendezvous_cmp_def then_cmp_eq)

lemma affinity_stable:
  assumes "ctx_session_id ctx = Some sid" "x \<in> set pool" "usable_weight (w x)"
    and "affinity_or_weighted_pick e pool (map w pool) ctx = Some i"
  obtains m where "m \<in> set pool" "cand_id m = i"
    "\<And>q. q m \<Longrightarrow> affinity_or_weighted_pick e (filter q pool) (map w (filter q pool)) ctx = Some i"
proof -
  let ?M = "\<lambda>ps. min_by (rendezvous_cmp e sid) (map (\<lambda>c. (c, w c)) (filter (\<lambda>c. usable_weight (w c)) ps))"
  from assms(4) obtain p where p: "?M pool = Some p" "cand_id (fst p) = i"
    unfolding affinity_session [where w = w, OF assms(1-3)] by blast
  then have "p \<in> set (map (\<lambda>c. (c, w c)) (filter (\<lambda>c. usable_weight (w c)) pool))"
    by (blast dest: min_by_in)
  then have m: "fst p \<in> set pool" "usable_weight (w (fst p))" by auto
  have "affinity_or_weighted_pick e (filter q pool) (map w (filter q pool)) ctx = Some i" if q: "q (fst p)" for q
  proof -
    from m q have "fst p \<in> set (filter q pool)" by simp
    from affinity_session [where w = w, OF assms(1) this m(2)]
    have eq: "affinity_or_weighted_pick e (filter q pool) (map w (filter q pool)) ctx =
        map_option (\<lambda>p. cand_id (fst p)) (?M (filter q pool))" .
    have "map (\<lambda>c. (c, w c)) (filter (\<lambda>c. usable_weight (w c)) (filter q pool)) =
        filter (\<lambda>p. q (fst p)) (map (\<lambda>c. (c, w c)) (filter (\<lambda>c. usable_weight (w c)) pool))"
      by (induction pool) auto
    with min_by_sub [where c = "rendezvous_cmp e sid" and f = "\<lambda>p. cand_id (fst p)" and q = "\<lambda>p. q (fst p)",
        OF total_cmp_rendezvous rendezvous_Equal [where e = e and sid = sid] p(1) q] p(2)
    show ?thesis unfolding eq by auto
  qed
  with m(1) p(2) show thesis by (rule that)
qed

definition affinity_weight :: "routing_strategy \<Rightarrow> selection_ctx \<Rightarrow> candidate \<Rightarrow> f64" where
  "affinity_weight st ctx c =
     (if st = CacheAffinityTier then tier_weight c (unwrap_or (ctx_tier ctx) Medium) (ctx_now ctx)
      else remaining_secondary_credits c)"

definition affinity_pool :: "routing_strategy \<Rightarrow> account_snapshot list \<Rightarrow> selection_ctx \<Rightarrow> candidate list" where
  "affinity_pool st cs ctx =
     (if st = CacheAffinityTier then policy_waterfall (eligible_candidates cs ctx) else standard_pool cs ctx)"

lemma affinity_strategies:
  assumes "st \<in> {CapacityWeighted, CacheAffinityTier}"
  shows "strategy_pick e st cs ctx =
    affinity_or_weighted_pick e (affinity_pool st cs ctx) (map (affinity_weight st ctx) (affinity_pool st cs ctx)) ctx"
  using assms
  by (auto simp: pick_capacity_weighted_def weighted_pick_def cache_affinity_eq Let_def
      affinity_weight_def [abs_def] affinity_pool_def)

lemma affinity_pool_subset: "set (affinity_pool st cs ctx) \<subseteq> set (eligible_candidates cs ctx)"
  unfolding affinity_pool_def policy_waterfall_def
  by (cases "st = CacheAffinityTier") (simp_all only: if_True if_False first_group_subset standard_pool_subset simp_thms)

lemma affinity_pool_sub:
  assumes "x \<in> set (affinity_pool st cs ctx)" "q (c_snap x)"
  shows "affinity_pool st (filter q cs) ctx = filter (\<lambda>c. q (c_snap c)) (affinity_pool st cs ctx)"
  using assms policy_waterfall_sub [of x cs ctx q] standard_pool_sub [of x cs ctx q]
  unfolding affinity_pool_def by (cases "st = CacheAffinityTier") (simp_all only: if_True if_False simp_thms)

text \<open>
  C3: A session is sticky. With a session id, and while some pooled account has a usable weight, the
  two weighted strategies keep choosing the same account when any other accounts disappear: only
  losing the chosen account itself moves the session (minimal disruption of rendezvous hashing).
\<close>

theorem session_pick_stable:
  assumes "strategy_pick e st cs ctx = Some i"
    and "st \<in> {CapacityWeighted, CacheAffinityTier}" and "ctx_session_id ctx = Some sid"
    and "\<exists>c \<in> set (affinity_pool st cs ctx). usable_weight (affinity_weight st ctx c)"
    and "\<forall>s \<in> set cs. snap_id s = i \<longrightarrow> q s"
  shows "strategy_pick e st (filter q cs) ctx = Some i"
proof -
  note pick = affinity_strategies [OF assms(2)]
  obtain x where "x \<in> set (affinity_pool st cs ctx)" "usable_weight (affinity_weight st ctx x)"
    using assms(4) by blast
  from affinity_stable [OF assms(3) this assms(1) [unfolded pick]] obtain m where
    m: "m \<in> set (affinity_pool st cs ctx)" "cand_id m = i"
    "\<And>q. q m \<Longrightarrow> affinity_or_weighted_pick e (filter q (affinity_pool st cs ctx))
       (map (affinity_weight st ctx) (filter q (affinity_pool st cs ctx))) ctx = Some i"
    by blast
  then have "c_snap m \<in> set cs" using affinity_pool_subset in_eligible_candidates by blast
  with assms(5) m(2) have q: "q (c_snap m)" unfolding cand_id_def by blast
  show ?thesis unfolding pick affinity_pool_sub [where q = q, OF m(1) q]
    by (rule m(3) [where q = "\<lambda>c. q (c_snap c)", OF q])
qed

definition flat_ln_env :: sel_env where
  "flat_ln_env = last_draw_env\<lparr>env_ln := \<lambda>_. F_Num (-1)\<rparr>"

abbreviation session_ctx :: selection_ctx where
  "session_ctx \<equiv> default_ctx\<lparr>ctx_session_id := Some ''s''\<rparr>"

lemma session_pool:
  "standard_pool (map new_snapshot is) session_ctx = map fresh_candidate is"
  using fresh_pool [of "is"]
  by (simp add: standard_pool_eq eligible_candidates_def authorized_def [abs_def] del: list.map)

lemma fresh_credits: "remaining_secondary_credits (fresh_candidate i) = F_Num 7560"
proof -
  have "capacity (fresh_candidate i) = F_Num 7560"
    by (simp add: capacity_def fresh_candidate_def new_snapshot_def plan_capacity_secondary_def
        plan_alias_def str_trim_def str_lower_def char_lower_def is_ws_def Let_def)
  then show ?thesis
    unfolding remaining_secondary_credits_def by (simp add: fresh_candidate_def f64_eval)
qed

theorem session_pick_stable_witness:
  "strategy_pick flat_ln_env CapacityWeighted
     (filter (\<lambda>s. snap_id s \<noteq> ''b'') [new_snapshot ''b'', new_snapshot ''a'']) session_ctx = Some ''a''"
proof (rule session_pick_stable)
  note pool = session_pool [of "[''b'', ''a'']", unfolded list.map]
  show "strategy_pick flat_ln_env CapacityWeighted [new_snapshot ''b'', new_snapshot ''a''] session_ctx = Some ''a''"
    unfolding strategy_pick.simps pick_capacity_weighted_def weighted_pick_def pool
    by (simp add: affinity_or_weighted_pick_def fresh_credits flt_def rendezvous_cmp_def rendezvous_cost_def
        flat_ln_env_def Let_def fresh_fields cmp_lin_def)
  show "\<exists>c \<in> set (affinity_pool CapacityWeighted [new_snapshot ''b'', new_snapshot ''a''] session_ctx).
      usable_weight (affinity_weight CapacityWeighted session_ctx c)"
    by (simp add: affinity_pool_def affinity_weight_def pool fresh_credits usable_weight_def flt_def)
qed auto

section \<open>Nobody to pick\<close>

lemma soonest_list:
  "r \<in> set (List.map_filter
       (\<lambda>s. case eligibility s now p of
              InBackoff r k \<Rightarrow> Some \<lparr>r_recover_at = r, r_account_id = snap_id s, r_kind = k\<rparr>
            | _ \<Rightarrow> None) cs) \<longleftrightarrow>
   (\<exists>s \<in> set cs. snap_id s = r_account_id r \<and> eligibility s now p = InBackoff (r_recover_at r) (r_kind r))"
  unfolding set_map_filter
proof (rule bex_cong [OF refl])
  fix s
  show "(case eligibility s now p of
          InBackoff r k \<Rightarrow> Some \<lparr>r_recover_at = r, r_account_id = snap_id s, r_kind = k\<rparr>
        | _ \<Rightarrow> None) = Some r \<longleftrightarrow>
      snap_id s = r_account_id r \<and> eligibility s now p = InBackoff (r_recover_at r) (r_kind r)"
    by (cases "eligibility s now p"; cases r) auto
qed

abbreviation verdict :: "selection_ctx \<Rightarrow> account_snapshot \<Rightarrow> elig_verdict" where
  "verdict ctx s \<equiv> eligibility s (ctx_now ctx) (ctx_inflight_penalty_pct ctx)"

lemma some_recovery:
  "(\<exists>r :: recovery. \<exists>s \<in> A. snap_id s = r_account_id r \<and> f s = InBackoff (r_recover_at r) (r_kind r)) \<longleftrightarrow>
   (\<exists>s \<in> A. \<exists>t k. f s = InBackoff t k)" (is "?l \<longleftrightarrow> ?r")
proof
  assume ?r
  then obtain s t k where "s \<in> A" "f s = InBackoff t k" by blast
  then show ?l by (intro exI [of _ "\<lparr>r_recover_at = t, r_account_id = snap_id s, r_kind = k\<rparr>"]) auto
qed blast

lemma soonest_None:
  "soonest_recover cs ctx = None \<longleftrightarrow>
   \<not> (\<exists>s \<in> set (filter (authorized ctx) cs). \<exists>t k. verdict ctx s = InBackoff t k)"
proof -
  have "xs = [] \<longleftrightarrow> \<not> (\<exists>r. r \<in> set xs)" for xs :: "recovery list" by (cases xs) auto
  then show ?thesis
    unfolding soonest_recover_def min_by_None by (simp only: soonest_list some_recovery)
qed

text \<open>
  The recovery the ingress advertises belongs to an authorized account that is temporarily
  blocked until exactly that instant, and no other authorized account recovers earlier; there is
  none to advertise exactly when no authorized account is temporarily blocked.
\<close>

lemma soonest_recover_minimal:
  "case soonest_recover cs ctx of
     Some r \<Rightarrow>
       (\<exists>s \<in> set cs. authorized ctx s \<and> snap_id s = r_account_id r \<and>
          verdict ctx s = InBackoff (r_recover_at r) (r_kind r)) \<and>
       (\<forall>s \<in> set cs. \<forall>t k. authorized ctx s \<longrightarrow> verdict ctx s = InBackoff t k \<longrightarrow> r_recover_at r \<le> t)
   | None \<Rightarrow> \<forall>s \<in> set cs. \<forall>t k. authorized ctx s \<longrightarrow> verdict ctx s \<noteq> InBackoff t k"
proof (cases "soonest_recover cs ctx")
  case None
  from None [unfolded soonest_None] None show ?thesis by auto
next
  case (Some r)
  have total: "total_cmp (\<lambda>a b. cmp_lin (r_recover_at a) (r_recover_at b))" by (rule total_cmp_lin_key)
  note least = total_cmp.min_by_least [OF total Some [unfolded soonest_recover_def]]
  from least have mem: "\<exists>s \<in> set cs. authorized ctx s \<and> snap_id s = r_account_id r \<and>
      verdict ctx s = InBackoff (r_recover_at r) (r_kind r)"
    unfolding soonest_list by auto
  have "r_recover_at r \<le> t" if s: "s \<in> set cs" "authorized ctx s" "verdict ctx s = InBackoff t k" for s t k
  proof -
    let ?x = "\<lparr>r_recover_at = t, r_account_id = snap_id s, r_kind = k\<rparr>"
    have "\<exists>s \<in> set (filter (authorized ctx) cs). snap_id s = r_account_id ?x \<and>
        verdict ctx s = InBackoff (r_recover_at ?x) (r_kind ?x)" using s by auto
    with least [THEN conjunct2, rule_format, of ?x] show ?thesis unfolding soonest_list by auto
  qed
  with mem Some show ?thesis by auto
qed

lemma soonest_recover_minimal_example:
  "let cs = [(new_snapshot ''a'')\<lparr>snap_cooldown_until := Some 9\<rparr>, (new_snapshot ''b'')\<lparr>snap_cooldown_until := Some 5\<rparr>]
   in \<exists>r. soonest_recover cs default_ctx = Some r \<and> r_account_id r = ''b''"
proof -
  let ?cs = "[(new_snapshot ''a'')\<lparr>snap_cooldown_until := Some 9\<rparr>, (new_snapshot ''b'')\<lparr>snap_cooldown_until := Some 5\<rparr>]"
  have v: "verdict default_ctx ((new_snapshot i)\<lparr>snap_cooldown_until := Some t\<rparr>) = InBackoff t Cooldown"
    if "0 < t" for i t
    using that by (simp add: eligibility_def gate_defs new_snapshot_def initial_candidate_def default_ctx_def)
  have a: "authorized default_ctx s" for s by (simp add: authorized_def default_ctx_def)
  have n: "snap_id ((new_snapshot i)\<lparr>snap_cooldown_until := c\<rparr>) = i" for i c by (simp add: new_snapshot_def)
  show ?thesis using soonest_recover_minimal [of ?cs default_ctx]
    by (cases "soonest_recover ?cs default_ctx") (auto simp: v a n)
qed

lemma census_fold:
  "bc_error_backoff_count (fold (census_step ctx) cs acc) =
     bc_error_backoff_count acc + length (filter (\<lambda>s. \<exists>r. verdict ctx s = InBackoff r ErrorBackoff) cs)"
  "bc_has_hardblocked (fold (census_step ctx) cs acc) \<longleftrightarrow>
     bc_has_hardblocked acc \<or> (\<exists>s \<in> set cs. verdict ctx s = HardBlocked)"
  by (induction cs arbitrary: acc)
    (auto simp: census_step_def split: elig_verdict.splits backoff_kind.splits)

text \<open>
  The census counts the authorized accounts in error backoff and notices an authorized account
  that is permanently blocked. With it the answers are exhaustive: if some account is authorized,
  then a strategy picks one, or a recovery instant is advertised, or the census reports a permanent
  block; the ingress never has nothing to say about a non-empty authorized pool.
\<close>

lemma no_account_is_explained:
  assumes "draw_ok e" and "\<exists>s \<in> set cs. authorized ctx s"
  shows "bc_error_backoff_count (backoff_census_of cs ctx) =
           length (filter (\<lambda>s. authorized ctx s \<and> (\<exists>r. verdict ctx s = InBackoff r ErrorBackoff)) cs) \<and>
         (strategy_pick e st cs ctx \<noteq> None \<or> soonest_recover cs ctx \<noteq> None \<or>
           bc_has_hardblocked (backoff_census_of cs ctx))"
proof
  show "bc_error_backoff_count (backoff_census_of cs ctx) =
      length (filter (\<lambda>s. authorized ctx s \<and> (\<exists>r. verdict ctx s = InBackoff r ErrorBackoff)) cs)"
    by (simp add: backoff_census_of_def census_fold conj_commute)
  obtain s where s: "s \<in> set cs" "authorized ctx s" using assms(2) by blast
  show "strategy_pick e st cs ctx \<noteq> None \<or> soonest_recover cs ctx \<noteq> None \<or>
      bc_has_hardblocked (backoff_census_of cs ctx)"
  proof (cases "verdict ctx s")
    case (Eligible c)
    then have "servable ctx s" using s(2) unfolding servable_def by blast
    then show ?thesis using account_selector.pick_complete [OF strategy_selector [OF assms(1)]] s(1) by blast
  next
    case (InBackoff r k)
    then show ?thesis using s unfolding soonest_None by auto
  next
    case HardBlocked
    then show ?thesis using s unfolding backoff_census_of_def census_fold by auto
  qed
qed

lemma no_account_is_explained_example:
  "soonest_recover [(new_snapshot ''a'')\<lparr>snap_cooldown_until := Some 5\<rparr>] default_ctx \<noteq> None"
proof -
  let ?cs = "[(new_snapshot ''a'')\<lparr>snap_cooldown_until := Some 5\<rparr>]"
  have v: "verdict default_ctx ((new_snapshot ''a'')\<lparr>snap_cooldown_until := Some 5\<rparr>) = InBackoff 5 Cooldown"
    by (simp add: eligibility_def gate_defs new_snapshot_def initial_candidate_def default_ctx_def)
  have a: "authorized default_ctx s" for s by (simp add: authorized_def default_ctx_def)
  then have "\<exists>s \<in> set ?cs. authorized default_ctx s" by simp
  from no_account_is_explained [OF last_draw_ok this, where st = UsageWeighted]
  have "strategy_pick last_draw_env UsageWeighted ?cs default_ctx \<noteq> None \<or>
      soonest_recover ?cs default_ctx \<noteq> None \<or> bc_has_hardblocked (backoff_census_of ?cs default_ctx)"
    by blast
  moreover have "\<not> bc_has_hardblocked (backoff_census_of ?cs default_ctx)"
    unfolding backoff_census_of_def census_fold using v by simp
  moreover have "strategy_pick last_draw_env UsageWeighted ?cs default_ctx = None"
    using v account_selector.pick_singleton [OF strategy_selector [OF last_draw_ok]]
    by (simp add: servable_def del: strategy_pick.simps)
  ultimately show ?thesis by blast
qed

section \<open>Credits and backoff bounds\<close>

text \<open>
  With usage and capacity that are numbers in range, the remaining weekly credits of a
  candidate are between zero and its capacity, whatever the rounding of the three float operations.
\<close>

lemma remaining_credits_bounds:
  assumes "is_fin (capacity c)" "0 \<le> fval (capacity c)" "exact64 (fval (capacity c))"
    and "is_fin (c_secondary_used c)" "0 \<le> fval (c_secondary_used c)"
  shows "frange 0 (fval (capacity c)) (remaining_secondary_credits c)"
proof -
  let ?u = "fmin (c_secondary_used c) (F_Num 100)"
  have u: "is_fin ?u" "0 \<le> fval ?u" "fval ?u \<le> 100"
    using fval_fmin [of "c_secondary_used c" "F_Num 100"] assms(4,5) by auto
  have d: "frange 0 1 (fdiv ?u (F_Num 100))" using u by (intro fdiv_range) auto
  have r: "frange 0 1 (fsub (F_Num 1) (fdiv ?u (F_Num 100)))"
    using d by (intro fsub_range) (auto simp: frange_def)
  have m: "frange 0 (fval (capacity c)) (fmul (capacity c) (fsub (F_Num 1) (fdiv ?u (F_Num 100))))"
    using r assms(1-3) by (intro fmul_range) (auto simp: frange_def intro: mult_left_le)
  then show ?thesis
    using fval_fmax [of _ "F_Num 0"] assms(2) unfolding remaining_secondary_credits_def by (simp add: frange_def)
qed

lemma remaining_credits_bounds_example:
  "frange 0 7560 (remaining_secondary_credits ((fresh_candidate ''a'')\<lparr>c_secondary_used := F_Num 30\<rparr>))"
proof -
  have c: "capacity ((fresh_candidate ''a'')\<lparr>c_secondary_used := F_Num 30\<rparr>) = F_Num 7560"
    by (simp add: capacity_def fresh_candidate_def new_snapshot_def plan_capacity_secondary_def
        plan_alias_def str_trim_def str_lower_def char_lower_def is_ws_def Let_def)
  show ?thesis
    using remaining_credits_bounds [of "(fresh_candidate ''a'')\<lparr>c_secondary_used := F_Num 30\<rparr>"]
    by (simp add: c exact64_numeral)
qed

end
