(* ===== verification/Sse_Props.thy ===== *)
theory Sse_Props
  imports Sse
begin

text \<open>
  The scan's verdict depends on the bytes and not on how they were cut into chunks, what is relayed
  after it is what came in, and it reads past the end of its buffer only on ill-formed UTF-8.
\<close>

section \<open>Decoding and newlines\<close>

lemma byte_nl [simp]: "byte nl = 10"
  by (simp add: byte_def)

lemma continuation_le: "continuation k r cs \<le> length cs"
  by (induction k r cs rule: continuation.induct) auto

lemma continuation_le': "continuation k r cs \<le> k"
  by (induction k r cs rule: continuation.induct) auto

lemma continuation_nl: "0x80 \<le> fst r \<Longrightarrow> continuation k r (cs @ nl # ys) = continuation k r cs"
proof (induction k arbitrary: r cs)
  case (Suc k)
  then show ?case by (cases cs) (auto simp: in_range_def)
qed simp

lemma second_range_high: "second_range b = Some r \<Longrightarrow> 0x80 \<le> fst r"
  by (auto simp: second_range_def Let_def split: if_splits)

lemma decode_one_nl: "decode_one b (cs @ nl # ys) = decode_one b cs"
proof (cases "second_range b")
  case (Some r)
  then show ?thesis
    using continuation_le [of "seq_length b - 1" r cs] continuation_nl [OF second_range_high [OF Some]]
    by (simp add: decode_one_def Let_def)
qed (simp add: decode_one_def)

lemma decode_one_used: "snd (decode_one b cs) \<le> length cs"
proof (cases "second_range b")
  case (Some r)
  then show ?thesis using continuation_le [of "seq_length b - 1" r cs] by (simp add: decode_one_def Let_def)
qed (simp add: decode_one_def)

lemma lossy_nl: "lossy (xs @ nl # ys) = lossy xs @ nl # lossy ys"
proof (induction xs rule: lossy.induct)
  case 1
  then show ?case by (simp add: decode_one_def)
next
  case (2 b cs)
  then show ?case using decode_one_used [of b cs] by (simp add: decode_one_nl)
qed

lemma decode_one_length: "Suc (snd (decode_one b cs)) \<le> length (fst (decode_one b cs))"
proof (cases "second_range b")
  case None
  then show ?thesis by (simp add: decode_one_def replacement_def)
next
  case (Some r)
  let ?k = "continuation (seq_length b - 1) r cs"
  have "?k \<le> seq_length b - 1" "seq_length b \<le> 4" "?k \<le> length cs"
    by (simp_all add: continuation_le' continuation_le seq_length_def Let_def)
  with Some show ?thesis by (auto simp: decode_one_def Let_def replacement_def)
qed

lemma lossy_length: "length s \<le> length (lossy s)"
proof (induction s rule: lossy.induct)
  case (2 b cs)
  then show ?case using decode_one_length [of b cs] decode_one_used [of b cs] by simp
qed simp

lemma nl_decode: "nl \<in> set (fst (decode_one b cs)) \<Longrightarrow> b = nl \<or> nl \<in> set (take (snd (decode_one b cs)) cs)"
  by (auto simp: decode_one_def Let_def replacement_def split: option.splits if_splits)

lemma nl_lossy: "nl \<in> set (lossy s) \<Longrightarrow> nl \<in> set s"
proof (induction s rule: lossy.induct)
  case (2 b cs)
  then show ?case using nl_decode [of b cs]
    by (auto dest: in_set_takeD in_set_dropD)
qed simp

section \<open>Complete lines and the pending tail\<close>

definition lines_part :: "string \<Rightarrow> string" where "lines_part s = trim_end_by (\<lambda>c. c \<noteq> nl) s"
definition tail_part :: "string \<Rightarrow> string" where "tail_part s = drop (length (lines_part s)) s"

definition whole_lines :: "string \<Rightarrow> bool" where "whole_lines s \<longleftrightarrow> s = [] \<or> (\<exists>x. s = x @ [nl])"

lemma parts: "s = lines_part s @ tail_part s"
proof -
  have "rev s = takeWhile (\<lambda>c. c \<noteq> nl) (rev s) @ dropWhile (\<lambda>c. c \<noteq> nl) (rev s)" by simp
  then have "s = rev (dropWhile (\<lambda>c. c \<noteq> nl) (rev s)) @ rev (takeWhile (\<lambda>c. c \<noteq> nl) (rev s))"
    by (metis rev_append rev_rev_ident)
  then have "s = lines_part s @ rev (takeWhile (\<lambda>c. c \<noteq> nl) (rev s))"
    by (simp add: lines_part_def trim_end_by_def)
  then show ?thesis unfolding tail_part_def by (metis append_eq_conv_conj)
qed

lemma whole_lines_part: "whole_lines (lines_part s)"
proof (cases "dropWhile (\<lambda>c. c \<noteq> nl) (rev s)")
  case Nil
  then show ?thesis by (simp add: lines_part_def trim_end_by_def whole_lines_def)
next
  case (Cons c cs)
  then have "c = nl" by (metis (mono_tags, lifting) hd_dropWhile list.distinct(1) list.sel(1))
  with Cons show ?thesis by (simp add: lines_part_def trim_end_by_def whole_lines_def)
qed

lemma tail_no_nl: "nl \<notin> set (tail_part s)"
proof -
  have "rev s = takeWhile (\<lambda>c. c \<noteq> nl) (rev s) @ dropWhile (\<lambda>c. c \<noteq> nl) (rev s)" by simp
  then have "s = lines_part s @ rev (takeWhile (\<lambda>c. c \<noteq> nl) (rev s))"
    unfolding lines_part_def trim_end_by_def by (metis rev_append rev_rev_ident)
  then have "tail_part s = rev (takeWhile (\<lambda>c. c \<noteq> nl) (rev s))"
    unfolding tail_part_def by (metis append_eq_conv_conj)
  then show ?thesis by (auto dest: set_takeWhileD)
qed

text \<open>The decomposition is unique, so it can be taken chunk by chunk.\<close>

lemma parts_unique:
  assumes "s = l @ t" "whole_lines l" "nl \<notin> set t"
  shows "lines_part s = l" "tail_part s = t"
proof -
  have "dropWhile (\<lambda>c. c \<noteq> nl) (rev t @ rev l) = dropWhile (\<lambda>c. c \<noteq> nl) (rev l)"
    by (rule dropWhile_append2) (use assms(3) in auto)
  also have "\<dots> = rev l"
    using assms(2) unfolding whole_lines_def by (elim disjE exE) simp_all
  finally show "lines_part s = l"
    unfolding lines_part_def trim_end_by_def assms(1) by simp
  then show "tail_part s = t" by (simp add: tail_part_def assms(1))
qed

lemma whole_lines_append: "whole_lines a \<Longrightarrow> whole_lines b \<Longrightarrow> whole_lines (a @ b)"
  by (auto simp: whole_lines_def)

lemma parts_append:
  "lines_part (s @ u) = lines_part s @ lines_part (tail_part s @ u)"
  "tail_part (s @ u) = tail_part (tail_part s @ u)"
proof -
  have "s @ u = lines_part s @ (tail_part s @ u)"
    by (simp only: append.assoc [symmetric] parts [symmetric])
  also have "tail_part s @ u = lines_part (tail_part s @ u) @ tail_part (tail_part s @ u)"
    by (rule parts)
  finally have "s @ u = (lines_part s @ lines_part (tail_part s @ u)) @ tail_part (tail_part s @ u)"
    by (simp only: append.assoc)
  note uniq = parts_unique [OF this whole_lines_append [OF whole_lines_part whole_lines_part] tail_no_nl]
  show "lines_part (s @ u) = lines_part s @ lines_part (tail_part s @ u)" by (rule uniq)
  show "tail_part (s @ u) = tail_part (tail_part s @ u)" by (rule uniq)
qed

lemma lossy_whole: "whole_lines l \<Longrightarrow> lossy (l @ t) = lossy l @ lossy t"
  by (auto simp: whole_lines_def lossy_nl)

lemma utf8_ok_parts:
  assumes "whole_lines l" "utf8_ok (l @ t)"
  shows "utf8_ok l" "utf8_ok t"
proof -
  have "lossy l @ lossy t = l @ t" using assms by (simp add: utf8_ok_def lossy_whole)
  moreover from this have "length (lossy l) + length (lossy t) = length l + length t"
    by (metis length_append)
  with lossy_length [of l] lossy_length [of t] have "length (lossy l) = length l" by linarith
  ultimately show "utf8_ok l" "utf8_ok t" by (simp_all add: utf8_ok_def)
qed

section \<open>The verdict of a text\<close>

lemma split_line_no_nl: "split_line s = None \<longleftrightarrow> nl \<notin> set s"
  by (induction s) auto

lemma split_line_append: "split_line s = Some (line, rest) \<Longrightarrow> split_line (s @ u) = Some (line, rest @ u)"
  by (induction s arbitrary: line) auto

lemma scan_text_step:
  "split_line s = Some (line, rest) \<Longrightarrow> line_verdict parse line = None \<Longrightarrow>
   scan_text parse s n = scan_text parse rest (n + length line)"
  by (simp add: scan_text.simps [of parse s])

lemma scan_text_append_Some:
  "fst (scan_text parse s n) = Some v \<Longrightarrow> scan_text parse (s @ u) n = scan_text parse s n"
proof (induction parse s n rule: scan_text.induct)
  case (1 parse tx n)
  show ?case
  proof (cases "split_line tx")
    case None
    with "1.prems" show ?thesis by (simp add: scan_text.simps [of parse tx])
  next
    case (Some lr)
    obtain line rest where lr: "lr = (line, rest)" by (cases lr)
    show ?thesis
    proof (cases "line_verdict parse line")
      case None
      with Some lr "1.prems" have "fst (scan_text parse rest (n + length line)) = Some v"
        by (simp add: scan_text.simps [of parse tx])
      with "1.IH" [OF Some, of line rest] lr None Some split_line_append [of tx line rest u]
      show ?thesis by (simp add: scan_text.simps [of parse tx] scan_text.simps [of parse "tx @ u"])
    next
      case (Some v)
      with lr \<open>split_line tx = Some lr\<close> split_line_append [of tx line rest u]
      show ?thesis by (simp add: scan_text.simps [of parse tx] scan_text.simps [of parse "tx @ u"])
    qed
  qed
qed

lemma scan_text_append_None:
  "whole_lines s \<Longrightarrow> fst (scan_text parse s n) = None \<Longrightarrow>
   scan_text parse (s @ u) n = scan_text parse u (n + length s)"
proof (induction parse s n rule: scan_text.induct)
  case (1 parse tx n)
  show ?case
  proof (cases "split_line tx")
    case None
    with "1.prems"(1) have "tx = []" by (auto simp: whole_lines_def split_line_no_nl)
    then show ?thesis by simp
  next
    case (Some lr)
    obtain line rest where lr: "lr = (line, rest)" by (cases lr)
    obtain l where l: "tx = line @ rest" "line = l @ [nl]" using split_line_Some Some lr by blast
    have v: "line_verdict parse line = None"
      using "1.prems"(2) Some lr by (simp add: scan_text.simps [of parse tx] split: option.splits)
    have "whole_lines rest"
      using "1.prems"(1) l by (cases rest rule: rev_cases) (auto simp: whole_lines_def)
    note first = Some [unfolded lr]
    have "fst (scan_text parse rest (n + length line)) = None"
      using "1.prems"(2) unfolding scan_text_step [OF first v] .
    with "1.IH" [OF Some lr [symmetric] v] \<open>whole_lines rest\<close>
    have "scan_text parse (rest @ u) (n + length line) = scan_text parse u (n + length line + length rest)" .
    moreover have "length tx = length line + length rest" using l(1) by simp
    ultimately show ?thesis
      unfolding scan_text_step [OF split_line_append [OF first] v] by (simp add: add.assoc)
  qed
qed

lemma scan_text_tail: "nl \<notin> set s \<Longrightarrow> scan_text parse s n = (None, n)"
  by (subst scan_text.simps) (simp add: split_line_no_nl [THEN iffD2])

lemma scan_text_count: "fst (scan_text parse s n) = fst (scan_text parse s m)"
proof (induction "length s" arbitrary: s n m rule: less_induct)
  case less
  then show ?case
    by (subst (1 2) scan_text.simps) (auto dest: split_line_shorter split: option.splits)
qed

text \<open>The verdict of the bytes received so far, however they came.\<close>

definition verdict_of :: "(string \<Rightarrow> json option) \<Rightarrow> string \<Rightarrow> scan_verdict option" where
  "verdict_of parse s = fst (scan_text parse (lossy (lines_part s)) 0)"

lemma lossy_tail_no_nl: "nl \<notin> set (lossy (tail_part s))"
  using nl_lossy tail_no_nl by blast

lemma whole_lines_lossy: "whole_lines l \<Longrightarrow> whole_lines (lossy l)"
  by (auto simp: whole_lines_def lossy_nl)

lemma scan_buffered:
  "scan_buffered_frames_consuming parse s = (case verdict_of parse s of
     Some v \<Rightarrow> (Some v, snd (scan_text parse (lossy (lines_part s)) 0))
   | None \<Rightarrow> (None, length (lossy (lines_part s))))"
proof -
  have "lossy s = lossy (lines_part s @ tail_part s)" by (simp only: parts [symmetric])
  also have "\<dots> = lossy (lines_part s) @ lossy (tail_part s)" by (rule lossy_whole [OF whole_lines_part])
  finally have split: "lossy s = lossy (lines_part s) @ lossy (tail_part s)" .
  show ?thesis
  proof (cases "verdict_of parse s")
    case None
    then show ?thesis
      using scan_text_append_None [OF whole_lines_lossy [OF whole_lines_part], of parse s 0 "lossy (tail_part s)"]
        scan_text_tail [OF lossy_tail_no_nl]
      by (simp add: scan_buffered_frames_consuming_def split verdict_of_def)
  next
    case (Some v)
    then show ?thesis
      using scan_text_append_Some [of parse "lossy (lines_part s)" 0 v "lossy (tail_part s)"]
      by (simp add: scan_buffered_frames_consuming_def split verdict_of_def prod_eq_iff)
  qed
qed

lemma verdict_append_Some: "verdict_of parse s = Some v \<Longrightarrow> verdict_of parse (s @ u) = Some v"
  unfolding verdict_of_def parts_append(1) [of s u] lossy_whole [OF whole_lines_part]
  by (simp add: scan_text_append_Some)

lemma verdict_append_None:
  "verdict_of parse s = None \<Longrightarrow> verdict_of parse (s @ u) = verdict_of parse (tail_part s @ u)"
  unfolding verdict_of_def parts_append(1) [of s u] lossy_whole [OF whole_lines_part]
  by (simp add: scan_text_append_None [OF whole_lines_lossy [OF whole_lines_part]])
    (rule scan_text_count)

section \<open>The scan of a stream\<close>

definition chunks_in :: "(nat \<times> string) list \<Rightarrow> stream" where
  "chunks_in cs = map (\<lambda>(d, b). (d, Chunk b)) cs"

definition bytes_of :: "(nat \<times> string) list \<Rightarrow> string" where "bytes_of cs = concat (map snd cs)"

lemma chunks_simps [simp]:
  "chunks_in [] = []" "bytes_of [] = []"
  "chunks_in ((d, b) # cs) = (d, Chunk b) # chunks_in cs" "bytes_of ((d, b) # cs) = b @ bytes_of cs"
  by (simp_all add: chunks_in_def bytes_of_def)

text \<open>The scan is well fed: complete lines are UTF-8 and no pending line outgrows the bound.\<close>

definition well_fed :: "string \<Rightarrow> (nat \<times> string) list \<Rightarrow> bool" where
  "well_fed buf cs \<longleftrightarrow> utf8_ok (lines_part (buf @ bytes_of cs)) \<and>
     (\<forall>k \<le> length cs. length (tail_part (buf @ bytes_of (take k cs))) \<le> max_scan_bytes)"

lemma well_fedI:
  assumes "utf8_ok (lines_part (buf @ bytes_of cs))" "length (buf @ bytes_of cs) \<le> max_scan_bytes"
  shows "well_fed buf cs"
  unfolding well_fed_def
proof (intro conjI allI impI)
  fix k
  have "length (tail_part (buf @ bytes_of (take k cs))) \<le> length (buf @ bytes_of (take k cs))"
    by (simp add: tail_part_def)
  moreover have "bytes_of cs = bytes_of (take k cs) @ bytes_of (drop k cs)"
    by (simp add: bytes_of_def flip: concat_append map_append)
  then have "length (buf @ bytes_of (take k cs)) \<le> length (buf @ bytes_of cs)" by simp
  ultimately show "length (tail_part (buf @ bytes_of (take k cs))) \<le> max_scan_bytes"
    using assms(2) by linarith
qed (rule assms(1))

lemma well_fed_now:
  assumes "well_fed buf cs"
  shows "lossy (lines_part buf) = lines_part buf" "length (tail_part buf) \<le> max_scan_bytes"
proof -
  have "utf8_ok (lines_part buf @ lines_part (tail_part buf @ bytes_of cs))"
    using assms by (simp add: well_fed_def parts_append(1) [of buf])
  then show "lossy (lines_part buf) = lines_part buf"
    using utf8_ok_parts [OF whole_lines_part] by (simp add: utf8_ok_def)
  show "length (tail_part buf) \<le> max_scan_bytes"
    using assms unfolding well_fed_def by (auto dest: spec [of _ 0])
qed

lemma well_fed_next:
  assumes "well_fed buf ((d, b) # cs)"
  shows "well_fed (tail_part buf @ b) cs"
proof -
  have "utf8_ok (lines_part buf @ lines_part (tail_part buf @ b @ bytes_of cs))"
    using assms by (simp add: well_fed_def parts_append(1) [of buf])
  then have "utf8_ok (lines_part (tail_part buf @ b @ bytes_of cs))"
    using utf8_ok_parts [OF whole_lines_part] by blast
  moreover have "length (tail_part (tail_part buf @ b @ bytes_of (take k cs))) \<le> max_scan_bytes" if "k \<le> length cs" for k
    using assms that parts_append(2) [of buf "b @ bytes_of (take k cs)"]
    unfolding well_fed_def by (auto dest: spec [of _ "Suc k"])
  ultimately show ?thesis by (simp add: well_fed_def)
qed

lemma drop_lines: "drop (length (lines_part s)) s = tail_part s"
  by (simp add: tail_part_def)

text \<open>What the scan answers at a verdict, given what has been buffered and what is left.\<close>

fun decide :: "scan_verdict \<Rightarrow> stream \<Rightarrow> scan_outcome" where
  "decide CyberPolicy st = Cyber st"
| "decide (Capacity code) st = Refused code"
| "decide Decisive st = Alive st"

lemma scan_loop_verdict:
  "verdict_of parse buf = Some v \<Longrightarrow> scan_loop parse dl rel buf st = decide v (ready rel @ st)"
  by (subst scan_loop.simps) (cases v; simp add: scan_buffered Let_def)

text \<open>What happens when nothing has been decided and everything buffered so far is accounted for.\<close>

definition resume_scan ::
  "(string \<Rightarrow> json option) \<Rightarrow> nat \<Rightarrow> string list \<Rightarrow> string \<Rightarrow> stream \<Rightarrow> scan_outcome" where
  "resume_scan parse dl rel pend st = (case read_within dl st of
      (Some (Chunk nx), rest) \<Rightarrow> scan_loop parse dl (rel @ [nx]) (pend @ nx) rest
    | (Some (Fail e), rest) \<Rightarrow> HardError (exec_failure_signal e) (ready rel @ [(0, Fail e), (0, Eof)])
    | (Some Eof, rest) \<Rightarrow> Alive (ready rel @ rest)
    | (None, rest) \<Rightarrow> Silence (ready rel @ rest))"

lemma scan_loop_read:
  assumes "verdict_of parse buf = None" "lossy (lines_part buf) = lines_part buf" "length (tail_part buf) \<le> max_scan_bytes"
  shows "scan_loop parse dl rel buf st = resume_scan parse dl rel (tail_part buf) st"
proof -
  have "length (lines_part buf) \<le> length buf" by (subst (2) parts) simp
  moreover have "scan_buffered_frames_consuming parse buf = (None, length (lines_part buf))"
    using assms by (simp add: scan_buffered)
  moreover have "\<not> max_scan_bytes < length (drop (length (lines_part buf)) buf)"
    using assms(3) by (simp only: drop_lines not_less)
  ultimately show ?thesis
    unfolding resume_scan_def
    by (subst scan_loop.simps) (simp only: Let_def prod.case option.case if_False not_less [symmetric] drop_lines)
qed

lemma scan_loop_chunks:
  assumes "well_fed buf cs" "\<forall>(d, b) \<in> set cs. d \<le> dl"
  shows "case verdict_of parse (buf @ bytes_of cs) of
      Some v \<Rightarrow> \<exists>k \<le> length cs. scan_loop parse dl rel buf (chunks_in cs @ st) =
          decide v (ready (rel @ map snd (take k cs)) @ chunks_in (drop k cs) @ st)
          \<and> verdict_of parse (buf @ bytes_of (take k cs)) = Some v
          \<and> (\<forall>j < k. verdict_of parse (buf @ bytes_of (take j cs)) = None)
    | None \<Rightarrow> scan_loop parse dl rel buf (chunks_in cs @ st) =
          resume_scan parse dl (rel @ map snd cs) (tail_part (buf @ bytes_of cs)) st"
  using assms
proof (induction cs arbitrary: buf rel)
  case Nil
  then show ?case using well_fed_now [OF Nil.prems(1)]
    by (cases "verdict_of parse buf") (auto simp: scan_loop_verdict scan_loop_read)
next
  case (Cons c cs)
  obtain d b where c: "c = (d, b)" by (cases c)
  show ?case
  proof (cases "verdict_of parse buf")
    case (Some v)
    then show ?thesis
      using verdict_append_Some [OF Some] by (auto simp: scan_loop_verdict intro!: exI [of _ 0])
  next
    case None
    note now = well_fed_now [OF Cons.prems(1)]
    have step: "scan_loop parse dl rel buf (chunks_in (c # cs) @ st) =
        scan_loop parse dl (rel @ [b]) (tail_part buf @ b) (chunks_in cs @ st)"
      using Cons.prems(2) by (simp add: scan_loop_read [OF None now] resume_scan_def c)
    have vd: "verdict_of parse (buf @ u) = verdict_of parse (tail_part buf @ u)" for u
      by (rule verdict_append_None [OF None])
    have tl: "tail_part (buf @ u) = tail_part (tail_part buf @ u)" for u by (rule parts_append)
    note IH = Cons.IH [of "tail_part buf @ b" "rel @ [b]"]
    have fed: "well_fed (tail_part buf @ b) cs" "\<forall>(d, b) \<in> set cs. d \<le> dl"
      using well_fed_next Cons.prems c by auto
    show ?thesis
    proof (cases "verdict_of parse (buf @ bytes_of (c # cs))")
      case (Some v)
      then obtain k where k: "k \<le> length cs"
        "scan_loop parse dl (rel @ [b]) (tail_part buf @ b) (chunks_in cs @ st) =
           decide v (ready ((rel @ [b]) @ map snd (take k cs)) @ chunks_in (drop k cs) @ st)"
        "verdict_of parse (tail_part buf @ b @ bytes_of (take k cs)) = Some v"
        "\<forall>j < k. verdict_of parse (tail_part buf @ b @ bytes_of (take j cs)) = None"
        using IH [OF fed] by (auto simp: vd c)
      have "\<forall>j < Suc k. verdict_of parse (buf @ bytes_of (take j (c # cs))) = None"
      proof (intro allI impI)
        fix j assume "j < Suc k"
        then show "verdict_of parse (buf @ bytes_of (take j (c # cs))) = None"
          using k(4) None by (cases j) (auto simp: vd c)
      qed
      with Some k step show ?thesis by (auto simp: vd c intro!: exI [of _ "Suc k"])
    next
      case None': None
      then have "verdict_of parse ((tail_part buf @ b) @ bytes_of cs) = None" by (simp add: vd c)
      then have "scan_loop parse dl (rel @ [b]) (tail_part buf @ b) (chunks_in cs @ st) =
          resume_scan parse dl ((rel @ [b]) @ map snd cs) (tail_part ((tail_part buf @ b) @ bytes_of cs)) st"
        using IH [OF fed] by simp
      with None' step show ?thesis by (simp add: tl c)
    qed
  qed
qed

section \<open>Properties\<close>

lemma items_split: "map snd (ready (b # map snd (take k cs)) @ chunks_in (drop k cs) @ st) =
    Chunk b # map snd (chunks_in cs @ st)"
proof -
  have "map snd (ready (map snd (take k cs))) @ map snd (chunks_in (drop k cs)) = map snd (chunks_in cs)"
    unfolding ready_def chunks_in_def
    by (subst (3) append_take_drop_id [of k cs, symmetric]) (simp add: o_def case_prod_unfold del: append_take_drop_id)
  then show ?thesis by (simp add: ready_def)
qed

lemma fst_scan_buffered: "fst (scan_buffered_frames_consuming parse s) = verdict_of parse s"
  by (simp add: scan_buffered split: option.splits)

lemma scan_decides:
  assumes "well_fed first cs" "\<forall>(d, b) \<in> set cs. d \<le> dl"
    "fst (scan_buffered_frames_consuming parse (first @ bytes_of cs)) = Some v"
  shows "\<exists>st'. scan_past_lifecycle parse dl first (chunks_in cs @ st) = decide v st'
           \<and> map snd st' = Chunk first # map snd (chunks_in cs @ st)"
proof -
  from scan_loop_chunks [OF assms(1,2), of parse "[first]" st] assms(3)
  obtain k where "scan_past_lifecycle parse dl first (chunks_in cs @ st) =
      decide v (ready (first # map snd (take k cs)) @ chunks_in (drop k cs) @ st)"
    by (auto simp: fst_scan_buffered scan_past_lifecycle_def)
  then show ?thesis using items_split by blast
qed

text \<open>
  C12: what the scan decides depends on the bytes only. Two deliveries of the same bytes, cut into
  chunks in any two ways, each chunk in time, complete lines well-formed and no line longer than the
  scan's bound: if the bytes contain a frame that decides, both scans give that frame's verdict, be it
  in the first chunk or split across several. So a capacity refusal or a policy rejection behind the
  prelude is never relayed because of where the network cut it; and when the stream is relayed, its
  items are exactly the upstream's, in order.
\<close>

theorem scan_depends_on_bytes_only:
  assumes "well_fed first1 cs1" "well_fed first2 cs2" "first1 @ bytes_of cs1 = first2 @ bytes_of cs2"
    and "\<forall>(d, b) \<in> set cs1. d \<le> dl" "\<forall>(d, b) \<in> set cs2. d \<le> dl"
    and "fst (scan_buffered_frames_consuming parse (first1 @ bytes_of cs1)) = Some v"
  shows "\<exists>st1 st2. scan_past_lifecycle parse dl first1 (chunks_in cs1 @ rest1) = decide v st1
      \<and> scan_past_lifecycle parse dl first2 (chunks_in cs2 @ rest2) = decide v st2
      \<and> map snd st1 = Chunk first1 # map snd (chunks_in cs1 @ rest1)
      \<and> map snd st2 = Chunk first2 # map snd (chunks_in cs2 @ rest2)"
proof -
  obtain st1 where 1: "scan_past_lifecycle parse dl first1 (chunks_in cs1 @ rest1) = decide v st1"
      "map snd st1 = Chunk first1 # map snd (chunks_in cs1 @ rest1)"
    using scan_decides [OF assms(1,4,6), of rest1] by (elim exE conjE)
  obtain st2 where 2: "scan_past_lifecycle parse dl first2 (chunks_in cs2 @ rest2) = decide v st2"
      "map snd st2 = Chunk first2 # map snd (chunks_in cs2 @ rest2)"
    using scan_decides [OF assms(2,5) assms(6) [unfolded assms(3)], of rest2] by (elim exE conjE)
  show ?thesis by (intro exI conjI; rule 1 2)
qed

definition demo_parse :: "string \<Rightarrow> json option" where
  "demo_parse s = (if s = ''created'' then Some (JObj [(''type'', JStr ''response.created'')])
     else if s = ''busy'' then Some (JObj [(''error'', JObj [(''code'', JStr ''slow_down'')]), (''type'', JStr ''error'')])
     else if s = ''done'' then Some (JObj [(''response'', JObj [(''id'', JStr ''r1'')]), (''type'', JStr ''response.completed'')])
     else None)"

theorem scan_depends_on_bytes_only_witness:
  "\<exists>st1 st2. scan_past_lifecycle demo_parse 5 (''data:created'' @ [nl] @ ''data:busy'' @ [nl]) (chunks_in [] @ [(3, Eof)]) = decide (Capacity ''slow_down'') st1
      \<and> scan_past_lifecycle demo_parse 5 (''data:crea'') (chunks_in [(5, ''ted'' @ [nl] @ ''da''), (1, ''ta:busy'' @ [nl])] @ []) = decide (Capacity ''slow_down'') st2"
proof -
  have "well_fed (''data:created'' @ [nl] @ ''data:busy'' @ [nl]) []"
    by (rule well_fedI) (code_simp, simp add: max_scan_bytes_def)
  moreover have "well_fed ''data:crea'' [(5, ''ted'' @ [nl] @ ''da''), (1, ''ta:busy'' @ [nl])]"
    by (rule well_fedI) (code_simp, simp add: max_scan_bytes_def)
  moreover have "fst (scan_buffered_frames_consuming demo_parse ((''data:created'' @ [nl] @ ''data:busy'' @ [nl]) @ bytes_of [])) = Some (Capacity ''slow_down'')"
    by code_simp
  ultimately show ?thesis
    using scan_depends_on_bytes_only [of "''data:created'' @ [nl] @ ''data:busy'' @ [nl]" "[]"
        "''data:crea''" "[(5, ''ted'' @ [nl] @ ''da''), (1, ''ta:busy'' @ [nl])]" 5 demo_parse "Capacity ''slow_down''" "[(3, Eof)]" "[]"]
    by fastforce
qed

fun all_bytes :: "stream \<Rightarrow> string" where
  "all_bytes [] = []"
| "all_bytes ((d, it) # st) = (case it of Chunk b \<Rightarrow> b | _ \<Rightarrow> []) @ all_bytes st"

lemma read_chunk_bytes: "read_within dl st = (Some (Chunk b), rest) \<Longrightarrow> all_bytes st = b @ all_bytes rest"
  by (cases "(dl, st)" rule: read_within.cases) (auto split: if_splits)

lemma scan_loop_safe:
  "utf8_ok (lines_part (buf @ all_bytes st)) \<Longrightarrow> scan_loop parse dl rel buf st \<noteq> Panicked"
proof (induction parse dl rel buf st rule: scan_loop.induct)
  case (1 parse dl rel buf st)
  have u: "utf8_ok (lines_part buf @ lines_part (tail_part buf @ all_bytes st))"
    using "1.prems" by (simp add: parts_append(1) [of buf])
  note ok = utf8_ok_parts [OF whole_lines_part u]
  show ?case
  proof (cases "verdict_of parse buf")
    case (Some v)
    then show ?thesis by (cases v) (auto simp: scan_loop_verdict)
  next
    case None
    have sc: "scan_buffered_frames_consuming parse buf = (None, length (lines_part buf))"
      using None ok(1) by (simp add: scan_buffered utf8_ok_def)
    have le: "length (lines_part buf) \<le> length buf" by (subst (2) parts) simp
    show ?thesis
    proof (cases "length (tail_part buf) \<le> max_scan_bytes")
      case False
      then show ?thesis
        using sc le by (subst scan_loop.simps) (simp add: drop_lines flip: tail_part_def del: length_drop)
    next
      case True
      have "scan_loop parse dl (rel @ [nx]) (tail_part buf @ nx) rest \<noteq> Panicked"
        if "read_within dl st = (Some (Chunk nx), rest)" for nx rest
      proof -
        have "utf8_ok (lines_part ((tail_part buf @ nx) @ all_bytes rest))"
          using ok(2) read_chunk_bytes [OF that] by simp
        then show ?thesis
          using "1.IH" [OF sc [symmetric] refl refl] le True that
          by (simp add: drop_lines flip: tail_part_def del: length_drop)
      qed
      then show ?thesis
        using scan_loop_read [of parse buf dl rel st] None ok(1) True
        by (auto simp: resume_scan_def utf8_ok_def split: prod.splits option.splits item.splits)
    qed
  qed
qed

text \<open>
  C16: the scan does not run past its buffer on well-formed input. It counts the bytes of the decoded
  text and drains as many from the raw one; if every complete line the upstream sends is well-formed
  UTF-8 the counts agree and it never panics, whatever the timing. They do not agree otherwise: a
  single ill-formed byte on a line of its own makes it panic, whatever follows.
\<close>

theorem scan_panics_only_on_ill_formed_text:
  "(utf8_ok (lines_part (first @ all_bytes st)) \<longrightarrow> scan_past_lifecycle parse dl first st \<noteq> Panicked)
   \<and> scan_past_lifecycle parse dl [CHR 0xFF, nl] st = Panicked"
proof
  show "utf8_ok (lines_part (first @ all_bytes st)) \<longrightarrow> scan_past_lifecycle parse dl first st \<noteq> Panicked"
    using scan_loop_safe by (simp add: scan_past_lifecycle_def)
  have "lossy [CHR 0xFF, nl] = replacement @ [nl]" by code_simp
  moreover have "line_verdict parse (replacement @ [nl]) = None"
    by (simp add: line_verdict_def strip_prefix_def replacement_def trim_end_by_def)
  ultimately have "scan_buffered_frames_consuming parse [CHR 0xFF, nl] = (None, 4)"
    by (simp add: scan_buffered_frames_consuming_def replacement_def scan_text.simps)
  then show "scan_past_lifecycle parse dl [CHR 0xFF, nl] st = Panicked"
    by (simp add: scan_past_lifecycle_def scan_loop.simps)
qed

theorem scan_panics_only_on_ill_formed_text_witness:
  "scan_past_lifecycle demo_parse 5 (''data:crea'') [(1, Chunk (''ted'' @ [nl])), (9, Eof)] \<noteq> Panicked"
proof -
  have "utf8_ok (lines_part (''data:crea'' @ all_bytes [(1, Chunk (''ted'' @ [nl])), (9, Eof)]))" by code_simp
  then show ?thesis using scan_panics_only_on_ill_formed_text by blast
qed

end
