(* ===== verification/Watchdog_Props.thy ===== *)
theory Watchdog_Props
  imports Watchdog Sse_Props
begin

text \<open>
  The watchdog's guarantees: the client gets the upstream's bytes and nothing else, at most one resend
  and only where it is planned and paid for, nothing but failures reported before the relay starts,
  and one outcome reported per relayed stream, at its end.
\<close>

section \<open>What reaches the client\<close>

text \<open>The items a reader can get out of a stream: chunks up to the first error or the end.\<close>

fun delivered :: "stream \<Rightarrow> item list" where
  "delivered [] = []"
| "delivered ((d, Chunk b) # st) = Chunk b # delivered st"
| "delivered ((d, Fail e) # st) = [Fail e]"
| "delivered ((d, Eof) # st) = [Eof]"

lemma delivered_ready: "delivered (ready bs @ st) = map Chunk bs @ delivered st"
  by (induction bs) (simp_all add: ready_def)

lemma delivered_read:
  "read_within dl st = (Some (Chunk b), rest) \<Longrightarrow> delivered st = Chunk b # delivered rest"
  "read_within dl st = (Some (Fail e), rest) \<Longrightarrow> delivered st = [Fail e]"
  "read_within dl st = (Some Eof, rest) \<Longrightarrow> delivered st = [Eof] \<and> rest = [(0, Eof)]"
  "read_within dl st = (None, rest) \<Longrightarrow> delivered st = delivered rest"
proof -
  show "read_within dl st = (Some (Chunk b), rest) \<Longrightarrow> delivered st = Chunk b # delivered rest"
    "read_within dl st = (Some (Fail e), rest) \<Longrightarrow> delivered st = [Fail e]"
    "read_within dl st = (Some Eof, rest) \<Longrightarrow> delivered st = [Eof] \<and> rest = [(0, Eof)]"
    by (cases "(dl, st)" rule: read_within.cases; auto split: if_splits)+
  show "read_within dl st = (None, rest) \<Longrightarrow> delivered st = delivered rest"
  proof (cases "(dl, st)" rule: read_within.cases)
    case (2 deadline d it tl)
    assume "read_within dl st = (None, rest)"
    with 2 show ?thesis by (cases it) (auto split: if_splits)
  qed auto
qed

fun rebuilt :: "scan_outcome \<Rightarrow> stream option" where
  "rebuilt (Alive st) = Some st"
| "rebuilt (Cyber st) = Some st"
| "rebuilt (HardError _ st) = Some st"
| "rebuilt (Silence st) = Some st"
| "rebuilt _ = None"

lemma scan_loop_transparent:
  "rebuilt (scan_loop parse dl rel buf st) = Some st' \<Longrightarrow> delivered st' = map Chunk rel @ delivered st"
proof (induction parse dl rel buf st rule: scan_loop.induct)
  case (1 parse dl rel buf st)
  obtain v n where sc: "scan_buffered_frames_consuming parse buf = (v, n)" by fastforce
  show ?case
  proof (cases v)
    case (Some verdict)
    then show ?thesis using "1.prems" sc
      by (cases verdict) (auto simp: scan_loop.simps [of parse dl rel buf] delivered_ready)
  next
    case None
    show ?thesis
    proof (cases "n \<le> length buf \<and> length (drop n buf) \<le> max_scan_bytes")
      case False
      then show ?thesis using "1.prems" sc None
        by (auto simp: scan_loop.simps [of parse dl rel buf] delivered_ready split: if_splits)
    next
      case True
      obtain it rest where rd: "read_within dl st = (it, rest)" by fastforce
      have step: "scan_loop parse dl rel buf st = resume_scan parse dl rel (drop n buf) st"
        using sc None True by (subst scan_loop.simps) (simp add: resume_scan_def)
      show ?thesis
      proof (cases it)
        case None
        then show ?thesis using "1.prems" rd step delivered_read(4) [of dl st rest]
          by (auto simp: resume_scan_def delivered_ready)
      next
        case (Some i)
        show ?thesis
        proof (cases i)
          case (Chunk nx)
          have "rebuilt (scan_loop parse dl (rel @ [nx]) (drop n buf @ nx) rest) = Some st' \<Longrightarrow>
              delivered st' = map Chunk (rel @ [nx]) @ delivered rest"
            using "1.IH" [OF sc [symmetric] refl] \<open>v = None\<close> True rd Some Chunk by simp
          then show ?thesis using "1.prems" rd step Some Chunk delivered_read(1) [of dl st nx rest]
            by (simp add: resume_scan_def)
        next
          case (Fail e)
          then show ?thesis using "1.prems" rd step Some delivered_read(2) [of dl st e rest]
            by (auto simp: resume_scan_def delivered_ready)
        next
          case Eof
          then show ?thesis using "1.prems" rd step Some delivered_read(3) [of dl st rest]
            by (auto simp: resume_scan_def delivered_ready)
        qed
      qed
    qed
  qed
qed

lemma wrap_fields:
  "wrap_stream st account sk kind idle = Relayed ob \<longleftrightarrow> ob = \<lparr>ob_inner = st, ob_sniffer = new_sniffer,
     ob_kind = kind, ob_account = account, ob_session_key = sk, ob_idle = idle, ob_done = False\<rparr>"
  by (auto simp: wrap_stream_def)

lemma scan_transparent:
  "rebuilt (scan_past_lifecycle parse dl b rest) = Some st' \<Longrightarrow> delivered st' = Chunk b # delivered rest"
  unfolding scan_past_lifecycle_def using scan_loop_transparent by fastforce

text \<open>The anchorless path relays everything, or turns a capacity refusal into a failure.\<close>

lemma anchorless_cases:
  obtains (relayed) inner where "scan_anchorless_then_wrap parse st account sk kind idle = (wrap_stream inner account sk kind idle, [])"
      "delivered inner = delivered st"
  | (refused) code where "scan_anchorless_then_wrap parse st account sk kind idle =
      (Rejected (Upstream (Some (capacity_signal code))), [FxObserve (Failed sk)])"
  | (crashed) "scan_anchorless_then_wrap parse st account sk kind idle = (Crashed, [])"
proof (cases "idle = 0")
  case True
  then show thesis using relayed by (simp add: scan_anchorless_then_wrap_def)
next
  case False
  note sd = scan_anchorless_then_wrap_def [of parse st account sk kind idle]
  obtain it rest where rd: "read_within idle st = (it, rest)" by fastforce
  show thesis
  proof (cases it)
    case None
    with False rd delivered_read(4) [of idle st rest] sd show thesis by (intro relayed [of rest]) simp_all
  next
    case (Some i)
    show thesis
    proof (cases i)
      case (Chunk b)
      note tr = scan_transparent [of parse idle b rest]
      note deliv = delivered_read(1) [of idle st b rest]
      show thesis
      proof (cases "rebuilt (scan_past_lifecycle parse idle b rest)")
        case None
        then show thesis using refused crashed False rd Some Chunk sd
          by (cases "scan_past_lifecycle parse idle b rest") auto
      next
        case (Some st')
        then show thesis using tr [OF Some] deliv False rd \<open>it = Some i\<close> Chunk sd
          by (intro relayed [of st']) (cases "scan_past_lifecycle parse idle b rest"; simp)+
      qed
    next
      case (Fail e)
      with False rd Some delivered_read(2) [of idle st e rest] sd show thesis
        by (intro relayed [of "(0, Fail e) # rest"]) simp_all
    next
      case Eof
      with False rd Some delivered_read(3) [of idle st rest] sd show thesis
        by (intro relayed [of "[(0, Eof)]"]) simp_all
    qed
  qed
qed

section \<open>One turn\<close>

fun sent :: "effect list \<Rightarrow> prepared_request list" where
  "sent [] = []"
| "sent (FxExecute r # fx) = r # sent fx"
| "sent (_ # fx) = sent fx"

text \<open>What may be reported before the relay starts.\<close>

fun early_effect :: "account_id \<Rightarrow> session_key option \<Rightarrow> effect \<Rightarrow> bool" where
  "early_effect account sk (FxExecute _) = True"
| "early_effect account sk (FxObserve oc) = (oc = Failed sk \<or> oc = Recovered sk account None)"
| "early_effect account sk _ = False"

definition fresh_relay :: "stream \<Rightarrow> account_id \<Rightarrow> session_key option \<Rightarrow> outcome_kind \<Rightarrow> nat \<Rightarrow> observing \<Rightarrow> bool" where
  "fresh_relay st account sk kind idle ob \<longleftrightarrow> delivered (ob_inner ob) = delivered st \<and> ob_sniffer ob = new_sniffer
     \<and> \<not> ob_done ob \<and> ob_account ob = account \<and> ob_session_key ob = sk \<and> ob_kind ob = kind \<and> ob_idle ob = idle"

lemma consume_cases:
  obtains (denied) r1 where "try_consume_attempt (rc_logical_turn_key ctx) maxn now reg = (False, r1)"
      "consume_logical_turn_attempt ctx maxn now reg = (Inl AttemptBudgetExhausted, r1)"
  | (granted) r1 where "try_consume_attempt (rc_logical_turn_key ctx) maxn now reg = (True, r1)"
      "consume_logical_turn_attempt ctx maxn now reg = (Inr (), r1)"
  by (cases "try_consume_attempt (rc_logical_turn_key ctx) maxn now reg"; cases "fst (try_consume_attempt (rc_logical_turn_key ctx) maxn now reg)")
    (auto simp: consume_logical_turn_attempt_def)

text \<open>One executed request: how the attempt may end.\<close>

lemma anchorless_result:
  assumes "scan_anchorless_then_wrap parse st account sk kind idle = (res, fx)"
  shows "sent fx = []" "list_all (early_effect account sk) fx" "res \<noteq> Signalled"
    "res = Relayed ob \<Longrightarrow> fresh_relay st account sk kind idle ob"
proof (atomize (full), rule anchorless_cases [of parse st account sk kind idle], goal_cases)
  case (1 inner)
  with assms show ?case by (auto simp: wrap_stream_def fresh_relay_def)
qed (use assms in auto)

lemma recovery_result:
  assumes "execute_recovery_tracked env call req account ctx sk idle maxn reg = (res, fx, reg')"
    "try_consume_attempt (rc_logical_turn_key ctx) maxn (we_now env call) reg = (granted, r1)"
  shows "reg' = r1" "sent fx = (if granted then [req] else [])" "list_all (early_effect account sk) fx" "res \<noteq> Signalled"
    "res = Relayed ob \<Longrightarrow> granted \<and> (\<exists>st. we_exec env call req = Inr st \<and> fresh_relay st account sk AsRecovered idle ob)"
proof (atomize (full), rule consume_cases [of ctx maxn "we_now env call" reg], goal_cases)
  case (1 r)
  with assms show ?case
    by (auto simp: execute_recovery_tracked_def)
next
  case (2 r)
  show ?case
  proof (cases "we_exec env call req")
    case (Inl e)
    with 2 assms show ?thesis by (auto simp: execute_recovery_tracked_def)
  next
    case (Inr st)
    obtain res1 fx1 where r: "scan_anchorless_then_wrap (we_parse env) st account sk AsRecovered idle = (res1, fx1)"
      by fastforce
    with 2 assms Inr have "res = res1" "fx = FxExecute req # fx1" "reg' = r1" "granted"
      by (auto simp: execute_recovery_tracked_def)
    with anchorless_result [OF r] Inr show ?thesis by simp
  qed
qed

definition resends :: "prepared \<Rightarrow> prepared_request \<Rightarrow> bool" where
  "resends p r \<longleftrightarrow> (\<exists>t. dir_watchdog (prep_directive p) = Armed t) \<and> dir_recovery (prep_directive p) = ResendFull r"

lemma silence_result:
  assumes "recover_from_silence env (dir_recovery (prep_directive p)) account ctx sk idle maxn reg = (res, fx, reg')"
    "try_consume_attempt (rc_logical_turn_key ctx) maxn (we_now env 1) reg = (granted, r2)"
    "dir_watchdog (prep_directive p) = Armed t"
  shows "sent fx = [] \<and> reg' \<in> {reg, r2} \<or> (granted \<and> reg' = r2 \<and> (\<exists>r. resends p r \<and> sent fx = [r]))"
    "list_all (early_effect account sk) fx"
    "res = Relayed ob \<Longrightarrow> \<exists>r st. resends p r \<and> sent fx = [r] \<and> we_exec env 1 r = Inr st \<and> fresh_relay st account sk AsRecovered idle ob"
    "res = Signalled \<Longrightarrow> dir_recovery (prep_directive p) = SignalClient \<and> fx = [FxObserve (Recovered sk account None)]"
proof (atomize (full), cases "dir_recovery (prep_directive p)", goal_cases)
  case (1 r)
  with assms(1) have run: "execute_recovery_tracked env 1 r account ctx sk idle maxn reg = (res, fx, reg')"
    by (simp add: recover_from_silence_def)
  have "resends p r" using 1 assms(3) by (auto simp: resends_def)
  with recovery_result [OF run assms(2)] show ?case by auto
qed (use assms in \<open>auto simp: recover_from_silence_def signal_client_stream_def\<close>)

lemma sent_append [simp]: "sent (fx @ gx) = sent fx @ sent gx"
  by (induction fx rule: sent.induct) auto

text \<open>A whole turn: denied, ended by its first attempt, relayed by it, or recovered from silence.\<close>

definition turn_kind :: "wd_env \<Rightarrow> prepared \<Rightarrow> request_ctx \<Rightarrow> outcome_kind" where
  "turn_kind env p ctx = (let (fp, n) = input_fingerprint_and_count (we_sha env) (we_print env) (prep_req p) ctx
     in AsCompleted fp n (dir_pin_account (prep_directive p)))"

lemma turn_cases:
  assumes "execute_with_watchdog_tracked env p account ctx idle maxn reg = (res, fx, reg')"
    "try_consume_attempt (rc_logical_turn_key ctx) maxn (we_now env 0) reg = (granted, r1)"
  obtains (denied) "\<not> granted" "res = Rejected AttemptBudgetExhausted" "fx = []" "reg' = r1"
  | (ended) gx where "granted" "fx = FxExecute (prep_req p) # gx" "sent gx = []"
      "list_all (early_effect account (dir_session_key (prep_directive p))) gx" "reg' = r1"
      "res \<noteq> Signalled" "\<forall>ob. res \<noteq> Relayed ob"
  | (relayed) st ob where "granted" "fx = [FxExecute (prep_req p)]" "reg' = r1" "res = Relayed ob"
      "we_exec env 0 (prep_req p) = Inr st"
      "fresh_relay st account (dir_session_key (prep_directive p)) (turn_kind env p ctx) idle ob"
  | (silent) t gx where "granted" "fx = FxExecute (prep_req p) # gx" "dir_watchdog (prep_directive p) = Armed t"
      "recover_from_silence env (dir_recovery (prep_directive p)) account ctx (dir_session_key (prep_directive p)) idle maxn r1 = (res, gx, reg')"
proof (rule consume_cases [of ctx maxn "we_now env 0" reg])
  fix r assume "try_consume_attempt (rc_logical_turn_key ctx) maxn (we_now env 0) reg = (False, r)"
    "consume_logical_turn_attempt ctx maxn (we_now env 0) reg = (Inl AttemptBudgetExhausted, r)"
  with assms show thesis by (intro denied) (auto simp: execute_with_watchdog_tracked_def)
next
  fix r assume c: "try_consume_attempt (rc_logical_turn_key ctx) maxn (we_now env 0) reg = (True, r)"
    "consume_logical_turn_attempt ctx maxn (we_now env 0) reg = (Inr (), r)"
  define sk where "sk = dir_session_key (prep_directive p)"
  obtain fp n where fpn: "input_fingerprint_and_count (we_sha env) (we_print env) (prep_req p) ctx = (fp, n)"
    by fastforce
  have kind: "turn_kind env p ctx = AsCompleted fp n (dir_pin_account (prep_directive p))"
    by (simp add: turn_kind_def fpn)
  note ex = assms(1) [unfolded execute_with_watchdog_tracked_def c(2) prod.case sum.case Let_def fpn,
      folded sk_def kind]
  have g: granted "r1 = r" using assms(2) c(1) by auto
  show thesis
  proof (cases "we_exec env 0 (prep_req p)")
    case (Inl e)
    with ex g show thesis by (intro ended [of "[]"]) auto
  next
    case (Inr st)
    show thesis
    proof (cases "dir_watchdog (prep_directive p)")
      case Disarmed
      show thesis
      proof (rule anchorless_cases [of "we_parse env" st account sk "turn_kind env p ctx" idle])
        fix inner assume "scan_anchorless_then_wrap (we_parse env) st account sk (turn_kind env p ctx) idle =
            (wrap_stream inner account sk (turn_kind env p ctx) idle, [])" "delivered inner = delivered st"
        with ex g Inr Disarmed show thesis
          by (intro relayed [of "\<lparr>ob_inner = inner, ob_sniffer = new_sniffer, ob_kind = turn_kind env p ctx,
              ob_account = account, ob_session_key = sk, ob_idle = idle, ob_done = False\<rparr>" st])
            (auto simp: wrap_stream_def fresh_relay_def sk_def)
      next
        fix code assume "scan_anchorless_then_wrap (we_parse env) st account sk (turn_kind env p ctx) idle =
            (Rejected (Upstream (Some (capacity_signal code))), [FxObserve (Failed sk)])"
        with ex g Inr Disarmed show thesis by (intro ended [of "[FxObserve (Failed sk)]"]) (auto simp: sk_def)
      next
        assume "scan_anchorless_then_wrap (we_parse env) st account sk (turn_kind env p ctx) idle = (Crashed, [])"
        with ex g Inr Disarmed show thesis by (intro ended [of "[]"]) auto
      qed
    next
      case (Armed t)
      have recover: thesis if "(let (res, fx, reg'') = recover_from_silence env (dir_recovery (prep_directive p)) account ctx sk idle maxn r
          in (res, [FxExecute (prep_req p)] @ fx, reg'')) = (res, fx, reg')"
        using that g Armed by (intro silent [of "tl fx" t]) (auto simp: sk_def split: prod.splits)
      have failed: thesis if "(Rejected err, [FxExecute (prep_req p)] @ [FxObserve (Failed sk)], r) = (res, fx, reg')" for err
        using that g by (intro ended [of "[FxObserve (Failed sk)]"]) (auto simp: sk_def)
      obtain it rest where rd: "read_within t st = (it, rest)" by fastforce
      show thesis
      proof (cases it)
        case None
        with ex Inr Armed rd show thesis by (intro recover) simp
      next
        case (Some i)
        show thesis
        proof (cases i)
          case (Fail e)
          with ex Inr Armed rd Some show thesis by (intro failed [of "Upstream (exec_failure_signal e)"]) simp
        next
          case Eof
          with ex Inr Armed rd Some show thesis by (intro recover) simp
        next
          case (Chunk b)
          show thesis
          proof (cases "scan_past_lifecycle (we_parse env) t b rest")
            case (Alive st')
            then have "delivered st' = delivered st"
              using scan_transparent [of "we_parse env" t b rest st'] delivered_read(1) [of t st b rest] rd Some Chunk by simp
            with ex Inr Armed rd Some Chunk Alive g show thesis
              by (intro relayed [of "\<lparr>ob_inner = st', ob_sniffer = new_sniffer, ob_kind = turn_kind env p ctx,
                  ob_account = account, ob_session_key = sk, ob_idle = idle, ob_done = False\<rparr>" st])
                (auto simp: wrap_stream_def fresh_relay_def sk_def)
          next
            case (Silence st')
            with ex Inr Armed rd Some Chunk show thesis by (intro recover) simp
          next
            case Panicked
            with ex Inr Armed rd Some Chunk g show thesis by (intro ended [of "[]"]) auto
          qed (use ex Inr Armed rd Some Chunk in \<open>auto intro: failed\<close>)
        qed
      qed
    qed
  qed
qed

section \<open>Properties of a turn\<close>

text \<open>
  C13: at most one resend, planned and paid for. A turn the logical-turn budget denies executes
  nothing. Otherwise the prepared request is executed, and at most one more: only for an armed turn
  whose directive planned it, only that planned request, and only if the budget grants a second
  attempt. Before the relay starts nothing is reported but the turn's failure or a recovery without a
  new response id; no byte is marked as committed, no account health is touched. The client is told to
  resend exactly when the directive says so.
\<close>

theorem one_planned_and_paid_resend:
  assumes "execute_with_watchdog_tracked env p account ctx idle maxn reg = (res, fx, reg')"
    "try_consume_attempt (rc_logical_turn_key ctx) maxn (we_now env 0) reg = (granted1, r1)"
    "try_consume_attempt (rc_logical_turn_key ctx) maxn (we_now env 1) r1 = (granted2, r2)"
  shows "(\<not> granted1 \<longrightarrow> res = Rejected AttemptBudgetExhausted \<and> fx = [] \<and> reg' = r1)
    \<and> (granted1 \<longrightarrow> (sent fx = [prep_req p] \<and> reg' \<in> {r1, r2})
        \<or> (granted2 \<and> reg' = r2 \<and> (\<exists>r. resends p r \<and> sent fx = [prep_req p, r])))
    \<and> (\<forall>f \<in> set fx. early_effect account (dir_session_key (prep_directive p)) f)
    \<and> (res = Signalled \<longrightarrow> dir_recovery (prep_directive p) = SignalClient
        \<and> fx = [FxExecute (prep_req p), FxObserve (Recovered (dir_session_key (prep_directive p)) account None)])"
proof (rule turn_cases [OF assms(1,2)], goal_cases)
  case (4 t gx)
  note sil = silence_result [OF 4(4) assms(3) 4(3)]
  show ?case using 4(1,2) sil(1,2,4) by (auto simp: list_all_iff)
qed (auto simp: list_all_iff)

definition demo_env :: "(nat \<Rightarrow> prepared_request \<Rightarrow> exec_error + stream) \<Rightarrow> wd_env" where
  "demo_env exec = \<lparr>we_parse = demo_parse, we_print = (\<lambda>_. []), we_sha = (\<lambda>x. x), we_exec = exec, we_now = (\<lambda>k. 100 + int k)\<rparr>"

definition demo_prepared :: prepared where
  "demo_prepared = \<lparr>prep_req = \<lparr>pr_body = None, pr_model = ''m'', pr_forward_headers = [], pr_raw_body = Some ''x''\<rparr>,
     prep_directive = \<lparr>dir_pin_account = Some ''a'', dir_watchdog = Armed 5, dir_recovery = SignalClient,
       dir_session_key = None, dir_require_security = False\<rparr>\<rparr>"

definition demo_wctx :: request_ctx where
  "demo_wctx = \<lparr>rc_session_id = None, rc_session_key = None, rc_logical_turn_key = None,
     rc_client_previous_response_id = Some ''r0'', rc_is_full_resend = False, rc_input_count = 1,
     rc_estimated_tokens = 0, rc_subagent = None, rc_conn_discriminator = None\<rparr>"

text \<open>An armed turn whose upstream says \<open>created\<close> and then nothing.\<close>

lemma demo_silent_turn:
  "execute_with_watchdog_tracked (demo_env (\<lambda>_ _. Inr [(1, Chunk (''data:created'' @ [nl]))])) demo_prepared ''a'' demo_wctx 7 3 empty_registry
     = (Signalled, [FxExecute (prep_req demo_prepared), FxObserve (Recovered None ''a'' None)], empty_registry)"
proof -
  have fed: "well_fed (''data:created'' @ [nl]) []"
    by (rule well_fedI) (code_simp, simp add: max_scan_bytes_def)
  have v: "verdict_of demo_parse ((''data:created'' @ [nl]) @ bytes_of []) = None"
    unfolding fst_scan_buffered [symmetric] by code_simp
  have "scan_past_lifecycle demo_parse 5 (''data:created'' @ [nl]) [] = Silence (ready [''data:created'' @ [nl]])"
    using scan_loop_chunks [OF fed, of 5 demo_parse "[''data:created'' @ [nl]]" "[]"]
    by (simp add: v [simplified] scan_past_lifecycle_def resume_scan_def)
  then show ?thesis
    by (simp add: execute_with_watchdog_tracked_def demo_env_def demo_prepared_def demo_wctx_def Let_def
        consume_logical_turn_attempt_def try_consume_attempt_def recover_from_silence_def signal_client_stream_def
        split: prod.splits)
qed

theorem one_planned_and_paid_resend_witness:
  "dir_recovery (prep_directive demo_prepared) = SignalClient"
  using one_planned_and_paid_resend [OF demo_silent_turn, of True empty_registry True empty_registry]
  by (simp add: demo_wctx_def try_consume_attempt_def)

text \<open>
  C15: the relay is transparent. If a turn ends in a relayed stream, the stream delivers exactly what
  the executed upstream stream delivers: the same chunks in the same order up to the same end or
  error, nothing dropped and nothing repeated, although the prelude was read ahead. The stream is that
  of the last request executed, the original one (then reported as a completion under the turn's own
  pin) or the planned resend (reported as a recovery).
\<close>

theorem relay_is_transparent:
  assumes "execute_with_watchdog_tracked env p account ctx idle maxn reg = (Relayed ob, fx, reg')"
  shows "\<exists>st. delivered (ob_inner ob) = delivered st \<and> ob_sniffer ob = new_sniffer \<and> \<not> ob_done ob
      \<and> ((sent fx = [prep_req p] \<and> we_exec env 0 (prep_req p) = Inr st \<and> ob_kind ob = turn_kind env p ctx)
        \<or> (\<exists>r. resends p r \<and> sent fx = [prep_req p, r] \<and> we_exec env 1 r = Inr st \<and> ob_kind ob = AsRecovered))"
proof -
  obtain g1 r1 where c1: "try_consume_attempt (rc_logical_turn_key ctx) maxn (we_now env 0) reg = (g1, r1)" by fastforce
  obtain g2 r2 where c2: "try_consume_attempt (rc_logical_turn_key ctx) maxn (we_now env 1) r1 = (g2, r2)" by fastforce
  show ?thesis
  proof (rule turn_cases [OF assms c1], goal_cases)
    case (3 st ob')
    then show ?case by (auto simp: fresh_relay_def)
  next
    case (4 t gx)
    from silence_result(3) [OF 4(4) c2 4(3)] 4(2) show ?case by (fastforce simp: fresh_relay_def)
  qed auto
qed

theorem relay_is_transparent_witness:
  "\<exists>ob. execute_with_watchdog_tracked (demo_env (\<lambda>_ _. Inr [(1, Chunk ''x''), (2, Eof)]))
       (demo_prepared\<lparr>prep_directive := (prep_directive demo_prepared)\<lparr>dir_watchdog := Disarmed, dir_recovery := NoRecovery\<rparr>\<rparr>)
       ''a'' demo_wctx 0 3 empty_registry = (Relayed ob, [FxExecute (prep_req demo_prepared)], empty_registry)
     \<and> delivered (ob_inner ob) = [Chunk ''x'', Eof]"
proof -
  let ?p = "demo_prepared\<lparr>prep_directive := (prep_directive demo_prepared)\<lparr>dir_watchdog := Disarmed, dir_recovery := NoRecovery\<rparr>\<rparr>"
  obtain ob where run: "execute_with_watchdog_tracked (demo_env (\<lambda>_ _. Inr [(1, Chunk ''x''), (2, Eof)])) ?p ''a'' demo_wctx 0 3 empty_registry
      = (Relayed ob, [FxExecute (prep_req demo_prepared)], empty_registry)"
    by (simp add: execute_with_watchdog_tracked_def demo_env_def demo_prepared_def demo_wctx_def Let_def
        consume_logical_turn_attempt_def try_consume_attempt_def scan_anchorless_then_wrap_def wrap_stream_def
        input_fingerprint_and_count_def)
  from relay_is_transparent [OF run] have "delivered (ob_inner ob) = [Chunk ''x'', Eof]"
    by (auto simp: demo_env_def)
  with run show ?thesis by blast
qed

section \<open>The relayed stream\<close>

fun is_health :: "effect \<Rightarrow> bool" where
  "is_health FxSuccess = True"
| "is_health FxTransient = True"
| "is_health FxRateLimit = True"
| "is_health FxQuota = True"
| "is_health _ = False"

fun is_report :: "effect \<Rightarrow> bool" where
  "is_report (FxObserve _) = True"
| "is_report _ = False"

fun relayed_chunks :: "poll list \<Rightarrow> string list" where
  "relayed_chunks [] = []"
| "relayed_chunks (PChunk b # ps) = b # relayed_chunks ps"
| "relayed_chunks (_ # ps) = relayed_chunks ps"

text \<open>The consumer saw the regular end of the stream.\<close>

definition saw_end :: "poll list \<Rightarrow> bool" where
  "saw_end ps \<longleftrightarrow> PEnd \<in> set ps \<and> (\<forall>e. PErr e \<notin> set ps)"

definition sniffed :: "(string \<Rightarrow> json option) \<Rightarrow> string list \<Rightarrow> sniffer \<Rightarrow> sniffer" where
  "sniffed parse bs s = fold (feed parse) bs s"

lemma sniffed_simps [simp]:
  "sniffed parse [] s = s" "sniffed parse (b # bs) s = sniffed parse bs (feed parse b s)"
  by (simp_all add: sniffed_def)

lemma feed_settled: "sn_terminal s \<noteq> Pending \<Longrightarrow> feed parse b s = s"
  by (simp add: feed_def)

lemma sniffed_settled: "sn_terminal s \<noteq> Pending \<Longrightarrow> sniffed parse bs s = s"
  by (induction bs) (simp_all add: feed_settled)

lemma poll_done: "ob_done ob \<Longrightarrow> poll_times parse n ob = (replicate n PEnd, [])"
  by (induction n) (simp_all add: poll_next_def)

lemma terminal_effects_shape:
  "filter is_report (terminal_effects t) = []" "length (filter is_health (terminal_effects t)) \<le> 1"
  "FxSuccess \<in> set (terminal_effects t) \<longleftrightarrow> is_done_ok t" "FxClearTurn \<notin> set (terminal_effects t)"
  "FxCommit \<notin> set (terminal_effects t)"
  by (cases t; auto simp: terminal_effects_def split: failure_kind.splits)+

lemma finish_ok: "is_done_ok (finish s) \<longleftrightarrow> is_done_ok (sn_terminal s)"
  by (cases "sn_terminal s") (auto simp: finish_def)

text \<open>One poll of a stream that is not done.\<close>

lemma poll_next_cases:
  assumes "\<not> ob_done ob"
  obtains (chunk) b rest where "poll_next parse ob = (PChunk b,
        FxCommit # (if sn_terminal (ob_sniffer ob) = Pending \<and> is_done_ok (sn_terminal (feed parse b (ob_sniffer ob)))
                    then [FxClearTurn] else []),
        ob\<lparr>ob_inner := rest, ob_sniffer := feed parse b (ob_sniffer ob)\<rparr>)"
      "delivered (ob_inner ob) = Chunk b # delivered rest"
  | (failed) e ob' where "poll_next parse ob = (PErr e, [FxTransient], ob')" "ob_done ob'"
  | (finished) ob' where "poll_next parse ob = (PEnd, terminal_effects (finish (ob_sniffer ob))
        @ [FxObserve (build_outcome (ob_kind ob) (ob_session_key ob) (ob_account ob) (finish (ob_sniffer ob)))], ob')"
      "ob_done ob'"
  | (stalled) "poll_next parse ob = (PPending, [], ob\<lparr>ob_inner := []\<rparr>)" "ob_inner ob = []"
proof -
  obtain it rest where nx: "next_item (ob_idle ob) (ob_inner ob) = (it, rest)" by fastforce
  show thesis
  proof (cases it)
    case None
    show thesis
    proof (cases "ob_idle ob = 0")
      case True
      with nx None have "ob_inner ob = []" "rest = []" by (auto split: list.splits prod.splits)
      with True nx None assms show thesis by (intro stalled) (simp_all add: poll_next_def)
    next
      case False
      with nx None assms show thesis
        by (intro failed [of "ExStream ''upstream idle timeout''" "ob\<lparr>ob_inner := [(0, Eof)], ob_done := True\<rparr>"])
          (simp_all add: poll_next_def del: next_item.simps)
    qed
  next
    case (Some i)
    show thesis
    proof (cases i)
      case (Chunk b)
      with nx Some have "delivered (ob_inner ob) = Chunk b # delivered rest"
        using delivered_read(1) [of "ob_idle ob" "ob_inner ob" b rest]
        by (auto split: if_splits list.splits prod.splits)
      with nx Some Chunk assms show thesis
        by (intro chunk [of b rest]) (simp_all add: poll_next_def Let_def del: next_item.simps)
    next
      case (Fail e)
      with nx Some assms show thesis
        by (intro failed [of e "ob\<lparr>ob_inner := rest, ob_done := True\<rparr>"]) (simp_all add: poll_next_def del: next_item.simps)
    next
      case Eof
      with nx Some assms show thesis
        by (intro finished [of "ob\<lparr>ob_inner := rest, ob_sniffer := (ob_sniffer ob)\<lparr>sn_terminal := Pending\<rparr>, ob_done := True\<rparr>"])
          (simp_all add: poll_next_def Let_def del: next_item.simps)
    qed
  qed
qed

lemma saw_end_simps [simp]:
  "saw_end [] = False" "saw_end (PChunk b # ps) = saw_end ps" "saw_end (PPending # ps) = saw_end ps"
  "saw_end (PErr e # ps) = False" "saw_end (PEnd # replicate n PEnd) = True"
  by (auto simp: saw_end_def)

lemma relayed_replicate [simp]: "relayed_chunks (replicate n PEnd) = []"
  by (induction n) simp_all

text \<open>The books of a relay, from any state of it.\<close>

lemma relay_books:
  assumes "\<not> ob_done ob" "poll_times parse n ob = (ps, fx)"
  defines "s \<equiv> ob_sniffer ob"
  shows "filter is_report fx = (if saw_end ps
            then [FxObserve (build_outcome (ob_kind ob) (ob_session_key ob) (ob_account ob) (finish (sniffed parse (relayed_chunks ps) s)))]
            else [])
    \<and> length (filter is_health fx) \<le> 1
    \<and> (FxSuccess \<in> set fx \<longleftrightarrow> saw_end ps \<and> is_done_ok (sn_terminal (sniffed parse (relayed_chunks ps) s)))
    \<and> count_list fx FxClearTurn = (if sn_terminal s = Pending \<and> is_done_ok (sn_terminal (sniffed parse (relayed_chunks ps) s)) then 1 else 0)
    \<and> count_list fx FxCommit = length (relayed_chunks ps)
    \<and> (\<exists>rest. delivered (ob_inner ob) = map Chunk (relayed_chunks ps) @ rest)"
  using assms(1,2) unfolding s_def
proof (induction n arbitrary: ob ps fx)
  case 0
  then show ?case by (cases "sn_terminal (ob_sniffer ob)") auto
next
  case (Suc n)
  show ?case
  proof (rule poll_next_cases [OF Suc.prems(1), of parse], goal_cases)
    case (1 b rest)
    note chunk = this
    define ob1 where "ob1 = ob\<lparr>ob_inner := rest, ob_sniffer := feed parse b (ob_sniffer ob)\<rparr>"
    obtain ps1 fx1 where r: "poll_times parse n ob1 = (ps1, fx1)" by fastforce
    have out: "ps = PChunk b # ps1" "fx = FxCommit # (if sn_terminal (ob_sniffer ob) = Pending
        \<and> is_done_ok (sn_terminal (feed parse b (ob_sniffer ob))) then [FxClearTurn] else []) @ fx1"
      using Suc.prems(2) chunk(1) r by (simp_all add: ob1_def Let_def)
    have ob1: "\<not> ob_done ob1" "ob_sniffer ob1 = feed parse b (ob_sniffer ob)" "ob_kind ob1 = ob_kind ob"
      "ob_session_key ob1 = ob_session_key ob" "ob_account ob1 = ob_account ob" "ob_inner ob1 = rest"
      using Suc.prems(1) by (simp_all add: ob1_def)
    note IH = Suc.IH [OF ob1(1) r, unfolded ob1(2-6)]
    have settled: "sn_terminal (feed parse b (ob_sniffer ob)) \<noteq> Pending \<Longrightarrow>
        sniffed parse (relayed_chunks ps1) (feed parse b (ob_sniffer ob)) = feed parse b (ob_sniffer ob)"
      by (rule sniffed_settled)
    have stay: "sn_terminal (ob_sniffer ob) \<noteq> Pending \<Longrightarrow> feed parse b (ob_sniffer ob) = ob_sniffer ob"
      by (rule feed_settled)
    have clear: "count_list fx FxClearTurn = (if sn_terminal (ob_sniffer ob) = Pending
        \<and> is_done_ok (sn_terminal (sniffed parse (relayed_chunks ps) (ob_sniffer ob))) then 1 else 0)"
      using IH settled stay unfolding out
      by (cases "sn_terminal (feed parse b (ob_sniffer ob))"; cases "sn_terminal (ob_sniffer ob)") auto
    show ?case using IH clear chunk(2) unfolding out by auto
  next
    case (2 e ob')
    then have "ps = PErr e # replicate n PEnd" "fx = [FxTransient]"
      using Suc.prems(2) by (simp_all add: poll_done)
    then show ?case by (cases "sn_terminal (ob_sniffer ob)") auto
  next
    case (3 ob')
    then have "ps = PEnd # replicate n PEnd" "fx = terminal_effects (finish (ob_sniffer ob))
        @ [FxObserve (build_outcome (ob_kind ob) (ob_session_key ob) (ob_account ob) (finish (ob_sniffer ob)))]"
      using Suc.prems(2) by (simp_all add: poll_done)
    then show ?case
      using terminal_effects_shape [of "finish (ob_sniffer ob)"]
      by (cases "sn_terminal (ob_sniffer ob)") (auto simp: finish_ok count_list_0_iff)
  next
    case 4
    then show ?case
      using Suc.IH [of "ob\<lparr>ob_inner := []\<rparr>"] Suc.prems
      by (cases "poll_times parse n (ob\<lparr>ob_inner := []\<rparr>)") auto
  qed
qed

text \<open>
  C14: one outcome per relayed stream, at its end. Whatever the client does, however often it asks and
  whenever it hangs up: at most one health event is recorded for the account; continuity is told
  exactly once, and only if the client asked until the regular end, with the outcome the relayed bytes
  show; success is recorded only there and only if they show a completed response; the attempt budget
  of the turn is reset once, as soon as the completed frame has passed. What the client received is a
  prefix of what the upstream delivers, each chunk after its commit. In particular a client that hangs
  up right after the completed frame has its budget reset, but its turn is never recorded.
\<close>

theorem one_outcome_at_the_end:
  assumes "wrap_stream inner account sk kind idle = Relayed ob" "poll_times parse n ob = (ps, fx)"
  shows "let s = sniffed parse (relayed_chunks ps) new_sniffer in
    length (filter is_health fx) \<le> 1
    \<and> filter is_report fx = (if saw_end ps then [FxObserve (build_outcome kind sk account (finish s))] else [])
    \<and> (FxSuccess \<in> set fx \<longleftrightarrow> saw_end ps \<and> is_done_ok (sn_terminal s))
    \<and> count_list fx FxClearTurn = (if is_done_ok (sn_terminal s) then 1 else 0)
    \<and> count_list fx FxCommit = length (relayed_chunks ps)
    \<and> (\<exists>rest. delivered inner = map Chunk (relayed_chunks ps) @ rest)"
proof -
  have ob: "\<not> ob_done ob" "ob_sniffer ob = new_sniffer" "ob_kind ob = kind" "ob_session_key ob = sk"
    "ob_account ob = account" "ob_inner ob = inner" "sn_terminal new_sniffer = Pending"
    using assms(1) by (auto simp: wrap_fields new_sniffer_def)
  show ?thesis using relay_books [OF ob(1) assms(2), unfolded ob(2-6)] ob(7) by (simp add: Let_def)
qed

text \<open>Two polls: the chunk with the completed frame, and then the client is gone.\<close>

theorem one_outcome_at_the_end_witness:
  "\<exists>ob ps fx. wrap_stream [(0, Chunk (''data:done'' @ [nl])), (1, Eof)] ''a'' None AsRecovered 0 = Relayed ob
     \<and> poll_times demo_parse 1 ob = (ps, fx) \<and> filter is_report fx = [] \<and> count_list fx FxClearTurn = 1"
proof -
  obtain ob where ob: "wrap_stream [(0, Chunk (''data:done'' @ [nl])), (1, Eof)] ''a'' None AsRecovered 0 = Relayed ob"
    by (auto simp: wrap_stream_def)
  obtain ps fx where r: "poll_times demo_parse 1 ob = (ps, fx)" by fastforce
  have ps: "ps = [PChunk (''data:done'' @ [nl])]"
    using ob r by (auto simp: wrap_fields poll_next_def Let_def)
  have "is_done_ok (sn_terminal (sniffed demo_parse [''data:done'' @ [nl]] new_sniffer))"
  proof -
    have "split_line (''data:done'' @ [nl]) = Some (''data:done'' @ [nl], [])" by code_simp
    moreover have "line_frame demo_parse (''data:done'' @ [nl]) =
        Some (JObj [(''response'', JObj [(''id'', JStr ''r1'')]), (''type'', JStr ''response.completed'')])"
      by code_simp
    ultimately show ?thesis
      by (simp add: feed_def new_sniffer_def feed_lines.simps observe_line_def observe_frame_def jpath_str_def max_line_def)
  qed
  then show ?thesis
    using ob r one_outcome_at_the_end [OF ob r] by (auto simp: ps Let_def)
qed

end
