(* ===== verification/Spec2Isabelle.thy ===== *)
theory Spec2Isabelle
  imports Custom_Sends Custom_Fair Custom_Address Custom_Observer Owner_Props Relay_Props Network_Props Reset_Claims Translate_Request Ws_Safety Failover_Props Selection_Stability Admission_Props Continuity_Claims Watchdog_Props Coalescing Health_Props
begin

text \<open>
  PolyFlare: a verification library of the proxy's core logic.

  \<^bold>\<open>The program.\<close> PolyFlare is a proxy between coding agents and a pool of upstream accounts. A request
  comes in over HTTP (\<open>polyflare-server/src/ingress.rs\<close>) and is given a session and a continuity
  directive (\<open>polyflare-server/src/continuity.rs\<close>); an account is selected
  (\<open>polyflare-core/src/select.rs\<close>) from the live routing states
  (\<open>polyflare-server/src/runtime_state.rs\<close>) under the admission limits; its credentials are resolved
  and refreshed when due (\<open>ingress.rs\<close>, \<open>reactive_auth.rs\<close>, \<open>token_cache.rs\<close>,
  \<open>polyflare-store/src/account.rs\<close>); the turn is executed over HTTP or over a cached WebSocket
  (\<open>polyflare-codex/src/ws\<close>) under a silence watchdog (\<open>polyflare-server/src/watchdog.rs\<close>), which
  scans the reply's prelude, relays it and reports one outcome back to health and continuity; a failed
  attempt is judged and moved to another account (\<open>failover.rs\<close>, \<open>run_failover_loop\<close> in
  \<open>ingress.rs\<close>). Requests to an origin that can not be reached wait for its circuit
  (\<open>network_recovery.rs\<close>). A client that speaks WebSocket is relayed frame by frame to an upstream socket
  (\<open>polyflare-server/src/ws_relay\<close>), which is redialed, replayed on or moved to another account when it fails. The
  model catalog (\<open>model_catalog.rs\<close>) says which account can serve which model. Operators and
  native clients redeem an account's reset credits (\<open>polyflare-server/src/reset_credits.rs\<close>).

  \<^bold>\<open>Conventions.\<close> Definitions keep the source's names where HOL allows it; records and datatypes have the
  source's fields and constructors. An \<open>i64\<close> is an \<open>int\<close> and the unsigned types are \<open>nat\<close>, with the saturating,
  wrapping and truncating operations written out where the source uses them (theory \<open>PF_Prelude\<close>); hashes are
  64-bit words; an \<open>f64\<close> is the datatype of theory \<open>PF_Float\<close>, whose operations round to nearest even as
  IEEE 754 asks, so comparisons with NaN, infinities and signed zeros are those of the hardware. A
  \<open>HashMap\<close> is an association list with distinct keys behind the laws of the locale \<open>hash_table\<close>; the
  properties do not depend on its order. Errors are values: the source's error enums are datatypes, a
  panic is a constructor or \<open>None\<close> of its own. State that the source shares behind locks is a record
  passed through; a lock's critical section is one step, and interleavings are sequences of such steps
  (\<open>rtranclp\<close> of an inductive step relation).

  \<^bold>\<open>Parameters.\<close> What is not under \<open>src/\<close> is an argument: the clock, the random draw and its weights'
  sampling, \<open>ln\<close>, sha256, the JSON parser and printer, the upstream's answers, socket dials and sends,
  the OAuth endpoint. Their documented behaviour appears as hypotheses of the properties that need it,
  and each such property has a witness on a concrete instance.

  \<^bold>\<open>Theories and the code they model.\<close>
  \<^item> \<open>PF_Prelude\<close>, \<open>PF_Float\<close>, \<open>Json\<close>, \<open>Core_Types\<close>: the vocabulary above; \<open>serde_json::Value\<close> with
    objects sorted by key; \<open>types.rs\<close>, \<open>provider.rs\<close>. The locales \<open>total_cmp\<close> (a comparator function is a
    total order up to a key) and \<open>hash_table\<close> carry the lemmas on sorting, minima and tables.
  \<^item> \<open>Selection\<close> (all of \<open>select.rs\<close>); \<open>Selection_Gates\<close>: the eligibility verdict without its gates;
    \<open>Selection_Props\<close>: pools as lexicographic minima; \<open>Selection_Picks\<close>: the trait \<open>AccountSelector\<close> as a
    locale, interpreted on every strategy; \<open>Selection_Stability\<close>: what removing accounts changes.
  \<^item> \<open>Health\<close>, \<open>Health_Props\<close>: one account's routing state (tiers, cooldowns, overload, outcomes) and its
    reachable-state invariant. \<open>Runtime_States\<close>: the concurrent map, its garbage collection and overlay,
    compared with a map that never collects. \<open>Turn_Budget\<close>: the attempt registry of logical turns and its
    histories of attempts, refunds, clears and substitutions. \<open>Coalescing\<close>: the queues of durable cooldown
    writes and usage refreshes; a recorder's insert and wakeup, the worker's and the shutdown flush's read,
    write and finish are steps of their own, and a worker may be missing. \<open>Admission\<close>, \<open>Admission_Props\<close>: caps, leases, reserves, waiting rounds.
  \<^item> \<open>Continuity_Store\<close> (\<open>continuity_repo.rs\<close> and its schema), \<open>Continuity\<close> (both backends and the
    ownership filter; the locale \<open>turn_continuity\<close> is the trait), \<open>Continuity_Props\<close>,
    \<open>Continuity_Claims\<close>: consistency over any run, who owns a session or response, the prune.
  \<^item> \<open>Sse\<close>, \<open>Sse_Props\<close>: the bounded scan of a reply's prelude and the terminal-frame sniffer.
    \<open>Watchdog\<close>, \<open>Watchdog_Props\<close>: executing a turn with its one recovery, relaying, and the outcome.
  \<^item> \<open>Account_Auth\<close>, \<open>Credentials\<close>, \<open>Credentials_Props\<close>: token claims, the token cache, the refreshes of
    the request path and of the reactive path, single flight, replicas.
  \<^item> \<open>Model_Catalog\<close>, \<open>Model_Catalog_Props\<close>: per-account and scoped catalogs, the model gates.
  \<^item> \<open>Failover_Policy\<close>, \<open>Reselect\<close>, \<open>Failover\<close>, \<open>Failover_Props\<close>: verdicts and benching, one attempt on
    a reselected account, the failover loop with ride-outs and serve-now.
  \<^item> \<open>Ws_Frames\<close> (\<open>delta.rs\<close>, \<open>codec.rs\<close>), \<open>Ws_Turn\<close> (\<open>conn.rs\<close>, \<open>turn.rs\<close>), \<open>Ws_Executor\<close>
    (\<open>executor.rs\<close>), \<open>Ws_Props\<close>, \<open>Ws_Safety\<close>: delta planning, frames, a turn on a socket, the connection
    cache and recoveries. \<open>wc_sends\<close> is a ghost field that logs the envelopes of a socket.

  \<^item> \<open>Translate\<close> (\<open>polyflare-anthropic/src/translate.rs\<close>), \<open>Reverse\<close> (\<open>reverse.rs\<close>), \<open>Collect\<close>
    (\<open>collect.rs\<close>): the two translators between the Messages and the Responses protocol and the
    collector for clients that do not stream. \<open>Translate_Types\<close>: both protocols as typing judgements and
    which streams the translator keeps well typed; \<open>Translate_Round\<close>, \<open>Translate_Request\<close>: a turn and a request come back from both
    translations; \<open>Collect_Props\<close>: the collected message is the turn.
  \<^item> \<open>Reset_Plan\<close> (\<open>polyflare-core/src/reset_credit.rs\<close>): the optimizer of the fleet's reset credits.
    \<open>Reset_Ledger\<close> (\<open>polyflare-store/src/reset_credit_repo.rs\<close>): claims, pins, results and snapshots; the
    locale \<open>first_writer\<close> is the contract of a pinned row within its lifetime. \<open>Reset_Redeem\<close>
    (\<open>reset_credits.rs\<close>): the plan, redemptions under a claim, the native and fleet endpoints.
    \<open>Reset_System\<close>: their interleavings; \<open>Reset_Props\<close>, \<open>Reset_Claims\<close>: one credit, one account, one answer.
  \<^item> \<open>Relay_Frames\<close> (\<open>signal.rs\<close>, \<open>sniff.rs\<close>, \<open>telemetry.rs\<close>, the predicates of \<open>pump.rs\<close>, the rewritings of
    \<open>priority_policy.rs\<close> and \<open>reasoning_transform.rs\<close>), \<open>Relay_Pump\<close> (\<open>run_pump\<close> with the callbacks of
    \<open>ws_relay/mod.rs\<close>), \<open>Relay_Props\<close>: the client's relay. \<open>pu_log\<close> is a ghost field that logs both sockets.
  \<^item> \<open>Snapshots\<close> (\<open>snapshot.rs\<close>, \<open>usage_windows.rs\<close>, \<open>account_cache.rs\<close>): what selection takes as input, and
    its filters. \<open>Owner_Affine\<close> (\<open>control.rs\<close>), \<open>Owner_Props\<close>: routing by soft ownership for the relay's
    handshake and moves and for the unary endpoints.
  \<^item> \<open>Network_Recovery\<close> (\<open>network_recovery.rs\<close>, the dial loop of \<open>ws_relay/owner.rs\<close>), \<open>Network_Props\<close>: the
    circuits of the origins and the calls that take their permits.
  \<^item> \<open>Session_Keys\<close> (\<open>session_key.rs\<close>): the session and budget keys and the context read out of a request.
  \<^item> \<open>Custom_Targets\<close>, \<open>Custom_Routing\<close>, \<open>Custom_Exec\<close> (\<open>custom_provider.rs\<close>, rows of \<open>provider_repo.rs\<close>):
    operator-defined upstreams, from the checks of an endpoint to the relayed stream. \<open>Custom_Fair\<close>: the smooth
    weighted round robin is exact; \<open>Custom_Limits\<close>: concurrency limits and leases; \<open>Custom_Sends\<close>: what is sent
    where; \<open>Custom_Address\<close>: the address check as a table of blocks; \<open>Custom_Observer\<close>: bounds of the caches and
    the completion observer. \<open>cr_sent\<close> is a ghost field that logs the requests.

  \<^bold>\<open>How the parts meet.\<close> \<open>Admission\<close> selects through the locale \<open>account_selector\<close>, \<open>Continuity\<close> filters the
  snapshots the selector sees, \<open>Watchdog\<close> calls \<open>Continuity\<close>'s \<open>prepare\<close> and \<open>observe\<close>, spends from
  \<open>Turn_Budget\<close> and reports to \<open>Runtime_States\<close>; \<open>Reselect\<close>, \<open>Failover\<close> and \<open>Owner_Affine\<close> are
  built from \<open>Credentials\<close>, \<open>Model_Catalog\<close>, \<open>Runtime_States\<close>, \<open>Admission\<close> and the same selector contract, and a
  spilled turn meets \<open>Continuity\<close> again when it completes.

  \<^bold>\<open>Bounds and fuel.\<close> Loops recurse on their data or have a measure. Two may wait on the outside world and
  take fuel: the failover loop, for which five turns per attempt allowed and one more are proved enough
  (\<open>failover_loop_returns\<close>), and the pruning loops, whose batches shrink. The WebSocket recovery loop
  is a total function whose measure is the attempts left.

  \<^bold>\<open>Assumptions of the step granularity.\<close> A call that waits for a lock is modelled at the moment it gets it
  (a WebSocket turn is a step when its socket is free); two critical sections of one operation are two
  steps where another task may run in between and it matters (token refreshes, coalescing queues). In a
  redemption every await point is a step: a store call reads the clock when it runs, except where the code
  reads it earlier and keeps the reading (the pin of a native request).

  One pass of the relay's loop is a step: the relay is one task, and what it waits for inside a pass (dials, sends,
  the budget, the choice of another account) is an answer given for that place.

  \<^bold>\<open>Not modelled.\<close> HTTP serving, routing of URLs, TLS, cookies and header construction; SQL, migrations and
  encryption beyond the operations named above; metrics, logs and the dashboard's read API; the relay's
  handshake and its bridge to custom providers; the
  loopback service, command line, onboarding and login flows: they are input, output or glue, with no
  decision the properties depend on. The manifest lists each part with its reason.
\<close>

end
